(* ===== verification/Prelude.thy ===== *)
theory Prelude
  imports Main "HOL-Library.Word" "HOL-Library.Monad_Syntax"
begin

section \<open>Shared conventions\<close>

text \<open>
  The conventions every theory of the development follows.

  \<^item> Undefined behaviour. A C function that may dereference a dangling pointer, overrun a
    buffer or loop for ever is modelled with result type \<^typ>\<open>'a option\<close>: \<open>None\<close> is
    \<^emph>\<open>undefined behaviour or no return\<close>, never an error code. Error codes are ordinary
    return values (theory \<open>TinyRet\<close>).
  \<^item> Memory exhaustion. Where an operation calls \<open>tiny_malloc\<close> several times, the outcomes
    are read off a script of type \<open>mallocs\<close>, which every theorem quantifies over.
  \<^item> \<open>TINY_DEBUG\<close> is defined in the build (CMakeLists.txt), so every
    \<open>RETURN_IF_FAIL\<close> guard is live; a pointer argument that may be NULL is an option.
\<close>

named_theorems ret_defs \<open>unfold the return codes\<close>
named_theorems field_defs \<open>unfold the fixed-size field operations\<close>
named_theorems abs_simps \<open>functional (abstract) equations of the operations\<close>

subsection \<open>The outcomes of a sequence of allocations\<close>

text \<open>
  The n-th element of the script says whether the n-th allocation succeeds; an exhausted
  script means that every further allocation succeeds. Every finite pattern of failures is a
  script.
\<close>

type_synonym mallocs = "bool list"

fun malloc_next :: "mallocs \<Rightarrow> bool \<times> mallocs" where
  "malloc_next [] = (True, [])"
| "malloc_next (b # bs) = (b, bs)"

subsection \<open>Lists indexed by C integers\<close>

text \<open>
  \<open>nth_int xs i\<close>: the element a C loop counting an \<open>int\<close> up from 0 meets at position
  \<open>i\<close>; none for a negative position or one past the end.
\<close>

definition nth_int :: "'a list \<Rightarrow> int \<Rightarrow> 'a option" where
  "nth_int xs i = (if 0 \<le> i \<and> i < int (length xs) then Some (xs ! nat i) else None)"

lemma nth_int_Nil [simp]: "nth_int [] i = None"
  by (simp add: nth_int_def)

lemma nth_int_Cons [simp]:
  "nth_int (x # xs) i = (if i = 0 then Some x else nth_int xs (i - 1))"
  by (auto simp: nth_int_def nat_diff_distrib nth_Cons')

lemma nth_int_of_nat: "n < length xs \<Longrightarrow> nth_int xs (int n) = Some (xs ! n)"
  by (simp add: nth_int_def)

lemma nth_int_Some_iff: "nth_int xs i = Some x \<longleftrightarrow> 0 \<le> i \<and> nat i < length xs \<and> xs ! nat i = x"
  by (auto simp: nth_int_def)

lemma nth_int_None_iff: "nth_int xs i = None \<longleftrightarrow> i < 0 \<or> length xs \<le> nat i"
  by (auto simp: nth_int_def)

text \<open>The list without the element at a C position (unchanged when there is none).\<close>

definition remove_int :: "'a list \<Rightarrow> int \<Rightarrow> 'a list" where
  "remove_int xs i = (if 0 \<le> i then take (nat i) xs @ drop (Suc (nat i)) xs else xs)"

lemma remove_int_Nil [simp]: "remove_int [] i = []"
  by (simp add: remove_int_def)

lemma remove_int_Cons [simp]:
  "remove_int (x # xs) i = (if i = 0 then xs else if i < 0 then x # xs else x # remove_int xs (i - 1))"
proof (cases "0 < i")
  case True
  define n where "n = nat (i - 1)"
  with True have i: "i = int n + 1" by simp
  then have "nat i = Suc n" by simp
  with True i show ?thesis by (simp add: remove_int_def)
qed (auto simp: remove_int_def)

lemma remove_int_out: "i < 0 \<or> int (length xs) \<le> i \<Longrightarrow> remove_int xs i = xs"
  by (auto simp: remove_int_def)

lemma length_remove_int:
  "length (remove_int xs i) = (if 0 \<le> i \<and> i < int (length xs) then length xs - 1 else length xs)"
  by (auto simp: remove_int_def)

lemma remove_int_append: "remove_int (xs @ x # ys) (int (length xs)) = xs @ ys"
  by (simp add: remove_int_def)

subsection \<open>Small facts shared by the components\<close>

lemma word_of_nat_Suc: "(word_of_nat (Suc n) :: 'a::len word) = word_of_nat n + 1"
  by simp

lemma word_of_nat_pred: "0 < n \<Longrightarrow> (word_of_nat (n - 1) :: 'a::len word) = word_of_nat n - 1"
  by (cases n) auto

lemma unat_word_of_nat: "n < 2 ^ LENGTH('a::len) \<Longrightarrow> unat (word_of_nat n :: 'a word) = n"
  by (simp add: unsigned_of_nat take_bit_nat_eq_self)

end
