(* ===== verification/TinyRet.thy ===== *)
theory TinyRet
  imports Prelude
begin

section \<open>Return codes: \<open>Tiny/Base/tiny_ret.h\<close> and \<open>tiny_ret.c\<close>\<close>

text \<open>
  A \<open>TinyRet\<close> is an \<open>int64_t\<close>: bit 63 is the severity (0 success, 1 failure), bits 61 and
  62 the error level, bits 0 to 31 the code. The macros are translated on \<^typ>\<open>64 word\<close>, with
  the sign test of \<open>RET_SUCCEEDED\<close> as a signed comparison with 0.
\<close>

unbundle bit_operations_syntax

type_synonym tiny_ret = "64 word"

definition RET_SUCCEEDED :: "tiny_ret \<Rightarrow> bool" where
  "RET_SUCCEEDED r \<longleftrightarrow> 0 \<le> sint r"

definition RET_FAILED :: "tiny_ret \<Rightarrow> bool" where
  "RET_FAILED r \<longleftrightarrow> sint r < 0"

definition SV_OK :: "64 word" where "SV_OK = 0"
definition SV_ERR :: "64 word" where "SV_ERR = 1"
definition EL_NULL :: "64 word" where "EL_NULL = 0"
definition EL_GENERAL :: "64 word" where "EL_GENERAL = 1"
definition EL_SERIOUS :: "64 word" where "EL_SERIOUS = 2"
definition EL_FATAL :: "64 word" where "EL_FATAL = 3"

definition MAKE_RET :: "64 word \<Rightarrow> 64 word \<Rightarrow> 64 word \<Rightarrow> tiny_ret" where
  "MAKE_RET s el code = (push_bit 63 s OR push_bit 61 el) OR code"

definition ERR_LEVEL :: "tiny_ret \<Rightarrow> 64 word" where
  "ERR_LEVEL r = drop_bit 61 (r AND 0x7FFFFFFFFFFFFFFF)"

definition TINY_RET_CODE :: "tiny_ret \<Rightarrow> 64 word" where
  "TINY_RET_CODE r = r AND 0xFFFFFFFF"

subsection \<open>The return values of the header\<close>

definition TINY_RET_OK :: tiny_ret where "TINY_RET_OK = MAKE_RET SV_OK EL_NULL 0"
definition TINY_RET_PENDING :: tiny_ret where "TINY_RET_PENDING = MAKE_RET SV_OK EL_NULL 1"
definition TINY_RET_E_INTERNAL :: tiny_ret where "TINY_RET_E_INTERNAL = MAKE_RET SV_ERR EL_GENERAL 2"
definition TINY_RET_E_OUT_OF_MEMORY :: tiny_ret where "TINY_RET_E_OUT_OF_MEMORY = MAKE_RET SV_ERR EL_GENERAL 3"
definition TINY_RET_E_ARG_NULL :: tiny_ret where "TINY_RET_E_ARG_NULL = MAKE_RET SV_ERR EL_GENERAL 4"
definition TINY_RET_E_ARG_INVALID :: tiny_ret where "TINY_RET_E_ARG_INVALID = MAKE_RET SV_ERR EL_GENERAL 5"
definition TINY_RET_E_NOT_IMPLEMENTED :: tiny_ret where "TINY_RET_E_NOT_IMPLEMENTED = MAKE_RET SV_ERR EL_GENERAL 6"
definition TINY_RET_E_NEW :: tiny_ret where "TINY_RET_E_NEW = MAKE_RET SV_ERR EL_GENERAL 7"
definition TINY_RET_E_CONSTRUCT :: tiny_ret where "TINY_RET_E_CONSTRUCT = MAKE_RET SV_ERR EL_GENERAL 8"
definition TINY_RET_E_TIMEOUT :: tiny_ret where "TINY_RET_E_TIMEOUT = MAKE_RET SV_ERR EL_GENERAL 9"
definition TINY_RET_E_NOT_FOUND :: tiny_ret where "TINY_RET_E_NOT_FOUND = MAKE_RET SV_ERR EL_GENERAL 10"
definition TINY_RET_E_STARTED :: tiny_ret where "TINY_RET_E_STARTED = MAKE_RET SV_ERR EL_GENERAL 11"
definition TINY_RET_E_STOPPED :: tiny_ret where "TINY_RET_E_STOPPED = MAKE_RET SV_ERR EL_GENERAL 12"
definition TINY_RET_E_POSITION_INVALID :: tiny_ret where "TINY_RET_E_POSITION_INVALID = MAKE_RET SV_ERR EL_GENERAL 13"
definition TINY_RET_E_SELECT :: tiny_ret where "TINY_RET_E_SELECT = MAKE_RET SV_ERR EL_GENERAL 14"
definition TINY_RET_E_SOCKET_FD :: tiny_ret where "TINY_RET_E_SOCKET_FD = MAKE_RET SV_ERR EL_GENERAL 15"
definition TINY_RET_E_SOCKET_BIND :: tiny_ret where "TINY_RET_E_SOCKET_BIND = MAKE_RET SV_ERR EL_GENERAL 16"
definition TINY_RET_E_SOCKET_SETSOCKOPT :: tiny_ret where "TINY_RET_E_SOCKET_SETSOCKOPT = MAKE_RET SV_ERR EL_GENERAL 17"
definition TINY_RET_E_SOCKET_LISTEN :: tiny_ret where "TINY_RET_E_SOCKET_LISTEN = MAKE_RET SV_ERR EL_GENERAL 18"
definition TINY_RET_E_SOCKET_READ :: tiny_ret where "TINY_RET_E_SOCKET_READ = MAKE_RET SV_ERR EL_GENERAL 19"
definition TINY_RET_E_SOCKET_WRITE :: tiny_ret where "TINY_RET_E_SOCKET_WRITE = MAKE_RET SV_ERR EL_GENERAL 20"
definition TINY_RET_E_SOCKET_CONNECTING :: tiny_ret where "TINY_RET_E_SOCKET_CONNECTING = MAKE_RET SV_ERR EL_GENERAL 21"
definition TINY_RET_E_SOCKET_CONNECTED :: tiny_ret where "TINY_RET_E_SOCKET_CONNECTED = MAKE_RET SV_ERR EL_GENERAL 22"
definition TINY_RET_E_SOCKET_DISCONNECTED :: tiny_ret where "TINY_RET_E_SOCKET_DISCONNECTED = MAKE_RET SV_ERR EL_GENERAL 23"
definition TINY_RET_E_SOCKET_ASCEPT :: tiny_ret where "TINY_RET_E_SOCKET_ASCEPT = MAKE_RET SV_ERR EL_GENERAL 24"
definition TINY_RET_E_UUID_INVALID :: tiny_ret where "TINY_RET_E_UUID_INVALID = MAKE_RET SV_ERR EL_GENERAL 25"
definition TINY_RET_E_HTTP_MSG_INVALID :: tiny_ret where "TINY_RET_E_HTTP_MSG_INVALID = MAKE_RET SV_ERR EL_GENERAL 26"
definition TINY_RET_E_HTTP_TYPE_INVALID :: tiny_ret where "TINY_RET_E_HTTP_TYPE_INVALID = MAKE_RET SV_ERR EL_GENERAL 27"
definition TINY_RET_E_HTTP_STATUS :: tiny_ret where "TINY_RET_E_HTTP_STATUS = MAKE_RET SV_ERR EL_GENERAL 28"
definition TINY_RET_E_ITEM_EXIST :: tiny_ret where "TINY_RET_E_ITEM_EXIST = MAKE_RET SV_ERR EL_GENERAL 29"
definition TINY_RET_E_URL_INVALID :: tiny_ret where "TINY_RET_E_URL_INVALID = MAKE_RET SV_ERR EL_GENERAL 30"
definition TINY_RET_E_URL_GET_FAILED :: tiny_ret where "TINY_RET_E_URL_GET_FAILED = MAKE_RET SV_ERR EL_GENERAL 31"
definition TINY_RET_E_XML_INVALID :: tiny_ret where "TINY_RET_E_XML_INVALID = MAKE_RET SV_ERR EL_GENERAL 32"
definition TINY_RET_E_UPNP_DEVICE_NOT_FOUND :: tiny_ret where "TINY_RET_E_UPNP_DEVICE_NOT_FOUND = MAKE_RET SV_ERR EL_GENERAL 33"
definition TINY_RET_E_UPNP_SERVICE_NOT_FOUND :: tiny_ret where "TINY_RET_E_UPNP_SERVICE_NOT_FOUND = MAKE_RET SV_ERR EL_GENERAL 34"
definition TINY_RET_E_UPNP_ACTION_NOT_FOUND :: tiny_ret where "TINY_RET_E_UPNP_ACTION_NOT_FOUND = MAKE_RET SV_ERR EL_GENERAL 35"
definition TINY_RET_E_UPNP_ARGUMENT_NOT_FOUND :: tiny_ret where "TINY_RET_E_UPNP_ARGUMENT_NOT_FOUND = MAKE_RET SV_ERR EL_GENERAL 36"
definition TINY_RET_E_UPNP_INVOKE_FAILED :: tiny_ret where "TINY_RET_E_UPNP_INVOKE_FAILED = MAKE_RET SV_ERR EL_GENERAL 37"
definition TINY_RET_E_UPNP_SUBSCRIBE_FAILED :: tiny_ret where "TINY_RET_E_UPNP_SUBSCRIBE_FAILED = MAKE_RET SV_ERR EL_GENERAL 38"
definition TINY_RET_E_UPNP_UNSUBSCRIBE_FAILED :: tiny_ret where "TINY_RET_E_UPNP_UNSUBSCRIBE_FAILED = MAKE_RET SV_ERR EL_GENERAL 39"
definition TINY_RET_E_UPNP_NOTIFY_FAILED :: tiny_ret where "TINY_RET_E_UPNP_NOTIFY_FAILED = MAKE_RET SV_ERR EL_GENERAL 40"

lemmas severity_defs [ret_defs] = SV_OK_def SV_ERR_def EL_NULL_def EL_GENERAL_def EL_SERIOUS_def
  EL_FATAL_def MAKE_RET_def

lemmas tiny_ret_value_defs [ret_defs] =
  TINY_RET_OK_def TINY_RET_PENDING_def TINY_RET_E_INTERNAL_def
  TINY_RET_E_OUT_OF_MEMORY_def TINY_RET_E_ARG_NULL_def TINY_RET_E_ARG_INVALID_def
  TINY_RET_E_NOT_IMPLEMENTED_def TINY_RET_E_NEW_def TINY_RET_E_CONSTRUCT_def
  TINY_RET_E_TIMEOUT_def TINY_RET_E_NOT_FOUND_def TINY_RET_E_STARTED_def
  TINY_RET_E_STOPPED_def TINY_RET_E_POSITION_INVALID_def TINY_RET_E_SELECT_def
  TINY_RET_E_SOCKET_FD_def TINY_RET_E_SOCKET_BIND_def TINY_RET_E_SOCKET_SETSOCKOPT_def
  TINY_RET_E_SOCKET_LISTEN_def TINY_RET_E_SOCKET_READ_def TINY_RET_E_SOCKET_WRITE_def
  TINY_RET_E_SOCKET_CONNECTING_def TINY_RET_E_SOCKET_CONNECTED_def TINY_RET_E_SOCKET_DISCONNECTED_def
  TINY_RET_E_SOCKET_ASCEPT_def TINY_RET_E_UUID_INVALID_def TINY_RET_E_HTTP_MSG_INVALID_def
  TINY_RET_E_HTTP_TYPE_INVALID_def TINY_RET_E_HTTP_STATUS_def TINY_RET_E_ITEM_EXIST_def
  TINY_RET_E_URL_INVALID_def TINY_RET_E_URL_GET_FAILED_def TINY_RET_E_XML_INVALID_def
  TINY_RET_E_UPNP_DEVICE_NOT_FOUND_def TINY_RET_E_UPNP_SERVICE_NOT_FOUND_def TINY_RET_E_UPNP_ACTION_NOT_FOUND_def
  TINY_RET_E_UPNP_ARGUMENT_NOT_FOUND_def TINY_RET_E_UPNP_INVOKE_FAILED_def TINY_RET_E_UPNP_SUBSCRIBE_FAILED_def
  TINY_RET_E_UPNP_UNSUBSCRIBE_FAILED_def TINY_RET_E_UPNP_NOTIFY_FAILED_def

subsection \<open>The description table\<close>

text \<open>
  \<open>code_details\<close> in its order: the value field is a \<open>uint32_t\<close>, so \<open>CODE_UNDEFINED\<close> (-1)
  is \<open>0xFFFFFFFF\<close>. \<open>tiny_ret_to_str\<close> scans it from the start and falls back to the first
  entry.
\<close>

definition code_details :: "(32 word \<times> string) list" where
  "code_details = [
    (-1, ''Undefined''),
    (0, ''OK''),
    (1, ''Pending''),
    (2, ''Internal''),
    (3, ''Out of memory''),
    (4, ''Argument is null''),
    (5, ''Argument is invalid''),
    (6, ''Not implemented''),
    (7, ''New''),
    (8, ''Construct''),
    (9, ''Time is out''),
    (10, ''Not Found''),
    (11, ''Started''),
    (12, ''Stopped''),
    (13, ''Position is invliad''),
    (14, ''Select''),
    (15, ''Socket fd''),
    (16, ''Socket bind''),
    (17, ''Socket setsockopt''),
    (18, ''Socket listen''),
    (19, ''Socket read''),
    (20, ''Socket write''),
    (21, ''Socket connecting''),
    (22, ''Socket connected''),
    (23, ''Socket disconnected''),
    (24, ''Socket accept''),
    (25, ''Uuid is invalid''),
    (26, ''Http message is invalid''),
    (27, ''Http type is invalid''),
    (29, ''Item exist''),
    (30, ''Url invalid''),
    (31, ''Url get failed''),
    (32, ''Xml invalid''),
    (34, ''UPnP Service not found''),
    (35, ''UPnP Action not found''),
    (36, ''UPnP Argument not found'')]"

definition tiny_ret_to_str :: "tiny_ret \<Rightarrow> string" where
  "tiny_ret_to_str ret =
     (let code = (ucast (TINY_RET_CODE ret) :: 32 word)
      in case find (\<lambda>e. code = fst e) code_details of
           Some e \<Rightarrow> snd e
         | None \<Rightarrow> snd (hd code_details))"


subsection \<open>What the layout guarantees\<close>

lemma RET_FAILED_iff: "RET_FAILED r \<longleftrightarrow> \<not> RET_SUCCEEDED r"
  by (auto simp: RET_FAILED_def RET_SUCCEEDED_def)

lemma RET_FAILED_bit: "RET_FAILED r \<longleftrightarrow> bit r 63"
  using bit_last_iff [of r] by (simp add: RET_FAILED_def)

lemma RET_FAILED_values [simp]:
  "\<not> RET_FAILED TINY_RET_OK" "\<not> RET_FAILED TINY_RET_PENDING"
  "RET_FAILED TINY_RET_E_NEW" "RET_FAILED TINY_RET_E_ARG_NULL" "RET_FAILED TINY_RET_E_ARG_INVALID"
  "RET_FAILED TINY_RET_E_NOT_FOUND" "RET_FAILED TINY_RET_E_ITEM_EXIST"
  "RET_FAILED TINY_RET_E_POSITION_INVALID" "RET_FAILED TINY_RET_E_NOT_IMPLEMENTED"
  "RET_FAILED TINY_RET_E_UUID_INVALID" "RET_FAILED TINY_RET_E_URL_INVALID"
  "RET_FAILED TINY_RET_E_HTTP_MSG_INVALID" "RET_FAILED TINY_RET_E_HTTP_TYPE_INVALID"
  "RET_FAILED TINY_RET_E_OUT_OF_MEMORY" "RET_FAILED TINY_RET_E_STARTED"
  "RET_FAILED TINY_RET_E_STOPPED" "RET_FAILED TINY_RET_E_INTERNAL"
  by (simp_all add: RET_FAILED_bit bit_simps ret_defs)

lemma RET_SUCCEEDED_values [simp]:
  "RET_SUCCEEDED TINY_RET_OK" "RET_SUCCEEDED TINY_RET_PENDING"
  using RET_FAILED_values RET_FAILED_iff by blast+

lemma bit_small_word:
  fixes w :: "64 word"
  assumes "w < 2 ^ k" and "bit w n"
  shows "n < k"
proof -
  have "bit (w AND mask k) n"
    using assms by (simp only: less_mask_eq)
  then show ?thesis by (simp add: bit_and_iff bit_mask_iff)
qed

lemma bit_MAKE_RET:
  "bit (MAKE_RET s el code) n \<longleftrightarrow>
     n < 64 \<and> (63 \<le> n \<and> bit s (n - 63) \<or> 61 \<le> n \<and> bit el (n - 61) \<or> bit code n)"
  by (auto simp: MAKE_RET_def bit_simps dest: bit_imp_le_length)

lemma TINY_RET_CODE_take: "TINY_RET_CODE r = take_bit 32 r"
proof -
  have "(0xFFFFFFFF :: 64 word) = mask 32" by (simp add: mask_eq_exp_minus_1)
  then show ?thesis unfolding TINY_RET_CODE_def take_bit_eq_mask by simp
qed

lemma ERR_LEVEL_take: "ERR_LEVEL r = drop_bit 61 (take_bit 63 r)"
proof -
  have "(0x7FFFFFFFFFFFFFFF :: 64 word) = mask 63" by (simp add: mask_eq_exp_minus_1)
  then show ?thesis unfolding ERR_LEVEL_def take_bit_eq_mask by simp
qed

text \<open>
  Composing a return value from a severity, a level and a 32-bit code with
  \<open>MAKE_RET\<close> loses nothing: the code and the level are read back by
  \<open>TINY_RET_CODE\<close> and \<open>ERR_LEVEL\<close>, and the value counts as failed exactly when the
  severity is \<open>SV_ERR\<close>.
\<close>

theorem make_ret_roundtrip:
  assumes s: "s = SV_OK \<or> s = SV_ERR" and el: "el \<le> EL_FATAL" and code: "code < 2 ^ 32"
  shows "TINY_RET_CODE (MAKE_RET s el code) = code \<and>
         ERR_LEVEL (MAKE_RET s el code) = el \<and>
         (RET_FAILED (MAKE_RET s el code) \<longleftrightarrow> s = SV_ERR)"
proof (intro conjI)
  have el4: "el < 2 ^ 2"
    using el by (simp add: EL_FATAL_def word_less_nat_alt word_le_nat_alt)
  have bs: "bit s n \<longleftrightarrow> n = 0 \<and> s = SV_ERR" for n
    using s by (auto simp: SV_OK_def SV_ERR_def bit_simps)
  note nb = bit_small_word [OF code] bit_small_word [OF el4]
  show "TINY_RET_CODE (MAKE_RET s el code) = code"
    by (rule bit_word_eqI) (auto simp: TINY_RET_CODE_take bit_MAKE_RET bit_take_bit_iff dest: nb)
  show "ERR_LEVEL (MAKE_RET s el code) = el"
    by (rule bit_word_eqI)
      (auto simp: ERR_LEVEL_take bit_MAKE_RET bit_take_bit_iff bit_drop_bit_eq bs dest: nb)
  show "RET_FAILED (MAKE_RET s el code) \<longleftrightarrow> s = SV_ERR"
    by (auto simp: RET_FAILED_bit bit_MAKE_RET bs dest: nb)
qed

end
