(* ===== verification/TinyListSpec.thy ===== *)
theory TinyListSpec
  imports TinyList
begin

section \<open>What the list operations promise, and the refinement\<close>

text \<open>
  The functional view of a \<open>TinyList\<close>: the data pointers in order, the value of the
  counter, the calls of the delete listener so far and whether a listener is set. The
  counter is kept apart from the items because the code lets the two drift
  (\<open>TinyList_InsertAfter\<close> with a bad position counts a node it never links).

  Each \<open>L_*\<close> operation is the contract of the \<open>TinyList_*\<close> operation of the same name;
  \<open>ok\<close> says whether the allocation succeeds. \<open>list_step_refines\<close> shows that the pointer
  code meets every contract, \<open>list_run_refines\<close> that it keeps doing so over any sequence of
  operations.
\<close>

record 'a lspec =
  items :: "'a option list"
  count :: "32 word"
  log :: "'a option list"
  has_listener :: bool

subsection \<open>The contracts\<close>

definition logged :: "'a lspec \<Rightarrow> 'a option list \<Rightarrow> 'a option list" where
  "logged s ds = log s @ (if has_listener s then ds else [])"

definition L_GetHead :: "'a lspec \<Rightarrow> 'a option" where
  "L_GetHead s = (case items s of [] \<Rightarrow> None | d # _ \<Rightarrow> d)"

definition L_GetTail :: "'a lspec \<Rightarrow> 'a option" where
  "L_GetTail s = (if items s = [] then None else last (items s))"

definition L_GetAt :: "'a lspec \<Rightarrow> int \<Rightarrow> 'a option" where
  "L_GetAt s pos = (case nth_int (items s) pos of None \<Rightarrow> None | Some d \<Rightarrow> d)"

definition L_Foreach :: "'a lspec \<Rightarrow> ('a option \<Rightarrow> 's \<Rightarrow> bool \<times> 's) \<Rightarrow> 's \<Rightarrow> int \<times> 's" where
  "L_Foreach s visit c = foreach_list 0 visit c (items s)"

definition L_AddHead :: "bool \<Rightarrow> 'a option \<Rightarrow> 'a lspec \<Rightarrow> tiny_ret \<times> 'a lspec" where
  "L_AddHead ok d s = (if ok then (TINY_RET_OK, s\<lparr>items := d # items s, count := count s + 1\<rparr>)
                       else (TINY_RET_E_NEW, s))"

definition L_AddTail :: "bool \<Rightarrow> 'a option \<Rightarrow> 'a lspec \<Rightarrow> tiny_ret \<times> 'a lspec" where
  "L_AddTail ok d s =
     (if d = None then (TINY_RET_E_ARG_NULL, s)
      else if ok then (TINY_RET_OK, s\<lparr>items := items s @ [d], count := count s + 1\<rparr>)
      else (TINY_RET_E_NEW, s))"

definition L_RemoveAll :: "'a lspec \<Rightarrow> tiny_ret \<times> 'a lspec" where
  "L_RemoveAll s = (TINY_RET_OK, s\<lparr>items := [], count := count s - word_of_nat (length (items s)),
                                   log := logged s (items s)\<rparr>)"

definition L_RemoveAt :: "int \<Rightarrow> 'a lspec \<Rightarrow> tiny_ret \<times> 'a lspec" where
  "L_RemoveAt pos s = (TINY_RET_E_POSITION_INVALID, (case nth_int (items s) pos of
       None \<Rightarrow> s
     | Some d \<Rightarrow> s\<lparr>items := remove_int (items s) pos, count := count s - 1, log := logged s [d]\<rparr>))"

definition L_RemoveHead :: "'a lspec \<Rightarrow> tiny_ret \<times> 'a lspec" where
  "L_RemoveHead s = (TINY_RET_OK, (case items s of
       [] \<Rightarrow> s
     | d # ds \<Rightarrow> s\<lparr>items := ds, count := count s - 1, log := logged s [d]\<rparr>))"

definition L_RemoveTail :: "'a lspec \<Rightarrow> tiny_ret \<times> 'a lspec" where
  "L_RemoveTail s = (TINY_RET_OK,
     (if items s = [] then s
      else s\<lparr>items := butlast (items s), count := count s - 1, log := logged s [last (items s)]\<rparr>))"

text \<open>No contract (\<open>None\<close>) where the code would call a NULL listener.\<close>

definition L_SetAt :: "int \<Rightarrow> 'a option \<Rightarrow> 'a lspec \<Rightarrow> (tiny_ret \<times> 'a lspec) option" where
  "L_SetAt pos d s = (case nth_int (items s) pos of
       None \<Rightarrow> Some (TINY_RET_E_POSITION_INVALID, s)
     | Some e \<Rightarrow> if has_listener s
         then Some (TINY_RET_E_POSITION_INVALID,
                s\<lparr>items := (items s)[nat pos := d], log := logged s [e]\<rparr>)
         else None)"

definition L_InsertAfter :: "bool \<Rightarrow> int \<Rightarrow> 'a option \<Rightarrow> 'a lspec \<Rightarrow> tiny_ret \<times> 'a lspec" where
  "L_InsertAfter ok pos d s =
     (if items s = [] then (TINY_RET_E_POSITION_INVALID, s)
      else if \<not> ok then (TINY_RET_E_NEW, s)
      else if 0 \<le> pos \<and> pos < int (length (items s)) then
        (TINY_RET_OK, s\<lparr>items := take (nat pos + 1) (items s) @ d # drop (nat pos + 1) (items s),
                        count := count s + 1\<rparr>)
      else (TINY_RET_E_POSITION_INVALID, s\<lparr>count := count s + 1\<rparr>))"

definition L_InsertBefore :: "bool \<Rightarrow> int \<Rightarrow> 'a option \<Rightarrow> 'a lspec \<Rightarrow> tiny_ret \<times> 'a lspec" where
  "L_InsertBefore ok pos d s =
     (if pos = 0 then L_AddHead ok d s else L_InsertAfter ok (pos - 1) d s)"

lemmas L_op_defs [abs_simps] = L_GetHead_def L_GetTail_def L_GetAt_def L_Foreach_def L_AddHead_def
  L_AddTail_def L_RemoveAll_def L_RemoveAt_def L_RemoveHead_def L_RemoveTail_def L_SetAt_def
  L_InsertAfter_def L_InsertBefore_def logged_def

subsection \<open>The abstraction relation\<close>

definition tl_refines :: "'a tlist \<Rightarrow> 'a lspec \<Rightarrow> bool" where
  "tl_refines t s \<longleftrightarrow> (\<exists>ns lst. dseg (heap t) None (first t) ns lst None \<and> distinct (map fst ns)
      \<and> items s = map snd ns) \<and> size t = count s \<and> deleted t = log s \<and> listener t = has_listener s"

lemma tl_refinesI:
  assumes "dseg (heap t) None (first t) ns lst None" and "distinct (map fst ns)"
    and "items s = map snd ns" and "size t = count s" and "deleted t = log s"
    and "listener t = has_listener s"
  shows "tl_refines t s"
  using assms by (auto simp: tl_refines_def)

lemma tl_refinesE:
  assumes "tl_refines t s"
  obtains ns lst where "dseg (heap t) None (first t) ns lst None" "distinct (map fst ns)"
    "items s = map snd ns" "size t = count s" "deleted t = log s" "listener t = has_listener s"
  using assms by (auto simp: tl_refines_def)

lemma nth_int_map: "nth_int (map f xs) i = map_option f (nth_int xs i)"
  by (auto simp: nth_int_def)

text \<open>A hit at a position splits the list there.\<close>

lemma nth_int_SomeE:
  assumes "nth_int ns pos = Some x"
  obtains us vs where "ns = us @ x # vs" "pos = int (length us)"
proof
  from assms have p: "0 \<le> pos" "nat pos < length ns" "ns ! nat pos = x"
    by (auto simp: nth_int_Some_iff)
  then show "ns = take (nat pos) ns @ x # drop (Suc (nat pos)) ns"
    using id_take_nth_drop [of "nat pos" ns] by simp
  show "pos = int (length (take (nat pos) ns))" using p by simp
qed

subsection \<open>The read operations\<close>

lemma TinyList_GetHead_refines: "tl_refines t s \<Longrightarrow> TinyList_GetHead t = Some (L_GetHead s)"
proof (erule tl_refinesE)
  fix ns lst
  assume "dseg (heap t) None (first t) ns lst None" and "items s = map snd ns"
  then show ?thesis by (cases ns) (auto simp: TinyList_GetHead_def L_GetHead_def)
qed

lemma last_in_store:
  assumes "dseg h pv p ns lst None" and "ns \<noteq> []"
  shows "\<exists>pr. h (fst (last ns)) = Some \<lparr>prev = pr, next = None, data = snd (last ns)\<rparr>"
  using assms by (cases ns rule: rev_cases) (auto simp: dseg_append)

lemma TinyList_GetTail_refines: "tl_refines t s \<Longrightarrow> TinyList_GetTail t = Some (L_GetTail s)"
proof (erule tl_refinesE)
  fix ns lst
  assume seg: "dseg (heap t) None (first t) ns lst None" and it: "items s = map snd ns"
  show ?thesis
  proof (cases "first t")
    case None
    with seg have "ns = []" by (cases ns) auto
    with None it show ?thesis by (simp add: TinyList_GetTail_def L_GetTail_def)
  next
    case (Some a)
    with seg have ne: "ns \<noteq> []" by auto
    with last_in_store [OF seg] walk_tail_dseg [of "heap t" None a ns lst 0] seg it Some
    show ?thesis by (auto simp: TinyList_GetTail_def L_GetTail_def last_map)
  qed
qed

lemma TinyList_GetTailPosition_refines:
  "tl_refines t s \<Longrightarrow> TinyList_GetTailPosition t = Some (int (length (items s)) - 1)"
proof (erule tl_refinesE)
  fix ns lst
  assume seg: "dseg (heap t) None (first t) ns lst None" and it: "items s = map snd ns"
  show ?thesis
  proof (cases "first t")
    case None
    with seg have "ns = []" by (cases ns) auto
    with None it show ?thesis by (simp add: TinyList_GetTailPosition_def)
  next
    case (Some a)
    with walk_tail_dseg [of "heap t" None a ns lst 0] seg it
    show ?thesis by (simp add: TinyList_GetTailPosition_def)
  qed
qed

lemma TinyList_GetAt_refines: "tl_refines t s \<Longrightarrow> TinyList_GetAt t pos = Some (L_GetAt s pos)"
  by (erule tl_refinesE)
    (auto simp: TinyList_GetAt_def L_GetAt_def get_at_loop_dseg nth_int_map split: option.splits)

lemma TinyList_Foreach_refines:
  "tl_refines t s \<Longrightarrow> TinyList_Foreach t visit c = Some (L_Foreach s visit c)"
  by (erule tl_refinesE) (simp add: TinyList_Foreach_def L_Foreach_def foreach_loop_dseg)

lemma TinyList_IsEmpty_refines: "tl_refines t s \<Longrightarrow> TinyList_IsEmpty t \<longleftrightarrow> items s = []"
proof (erule tl_refinesE)
  fix ns lst
  assume "dseg (heap t) None (first t) ns lst None" and "items s = map snd ns"
  then show ?thesis by (cases ns) (auto simp: TinyList_IsEmpty_def)
qed


subsection \<open>Surgery on the links\<close>

lemma dseg_last_next:
  assumes "dseg h pv p ns lst q" and "ns \<noteq> []" and "distinct (map fst ns)"
    and "h (fst (last ns)) = Some nz"
  shows "dseg (h(fst (last ns) \<mapsto> nz\<lparr>next := r\<rparr>)) pv p ns lst r"
  using assms by (cases ns rule: rev_cases) (auto simp: dseg_append)

lemma dseg_first_prev:
  assumes "dseg h pv p ns lst q" and "ns \<noteq> []" and "distinct (map fst ns)"
    and "h (fst (hd ns)) = Some nz"
  shows "dseg (h(fst (hd ns) \<mapsto> nz\<lparr>prev := v\<rparr>)) v p ns lst q"
  using assms by (cases ns) auto

lemma dseg_first: "dseg h pv p ns lst q \<Longrightarrow> ns \<noteq> [] \<Longrightarrow> p = Some (fst (hd ns))"
  by (cases ns) auto

lemma dseg_empty: "dseg h pv None ns lst None \<longleftrightarrow> ns = [] \<and> lst = pv"
  by (cases ns) auto

lemma fresh_notin: "dseg h pv p ns lst q \<Longrightarrow> h a = None \<Longrightarrow> a \<notin> fst ` set ns"
  using dseg_in_heap by blast

lemma fresh_Some: "fresh_alloc t (Some a) \<Longrightarrow> heap t a = None"
  by (simp add: fresh_alloc_def)

subsection \<open>The write operations\<close>

text \<open>
  What it means that a pointer operation, run in state \<open>t\<close>, meets the contract's outcome
  \<open>(r, s')\<close>: it returns, with the return value \<open>r\<close>, in a state that represents \<open>s'\<close>.
\<close>

definition meets :: "(tiny_ret \<times> 'a tlist) option \<Rightarrow> tiny_ret \<times> 'a lspec \<Rightarrow> bool" where
  "meets c out \<longleftrightarrow> (\<exists>t'. c = Some (fst out, t') \<and> tl_refines t' (snd out))"

lemma meetsI: "c = Some (r, t') \<Longrightarrow> tl_refines t' s' \<Longrightarrow> meets c (r, s')"
  by (auto simp: meets_def)

lemma TinyList_AddHead_refines:
  assumes "tl_refines t s" and "fresh_alloc t m"
  shows "meets (TinyList_AddHead t m d) (L_AddHead (m \<noteq> None) d s)"
  using assms(1)
proof (rule tl_refinesE)
  fix ns lst
  assume rep: "dseg (heap t) None (first t) ns lst None" "distinct (map fst ns)"
    "items s = map snd ns" "size t = count s" "deleted t = log s" "listener t = has_listener s"
  show ?thesis
  proof (cases m)
    case None
    with assms(1) show ?thesis
      by (simp add: TinyList_AddHead_def TinyNode_New_def L_AddHead_def meets_def)
  next
    case (Some a)
    with assms(2) have fr: "heap t a = None" by (simp add: fresh_alloc_def)
    with rep(1) have a: "a \<notin> fst ` set ns" by (rule fresh_notin)
    show ?thesis
    proof (cases ns)
      case Nil
      with rep Some show ?thesis
        by (auto simp: TinyList_AddHead_def TinyNode_New_def L_AddHead_def
            intro!: meetsI tl_refinesI [where ns = "[(a, d)]" and lst = "Some a"])
    next
      case (Cons x us)
      obtain b e where x: "x = (b, e)" by (cases x)
      from Cons x a rep show ?thesis
        by (auto simp: Some TinyList_AddHead_def TinyNode_New_def L_AddHead_def
            intro!: meetsI tl_refinesI [where ns = "(a, d) # ns" and lst = lst])
    qed
  qed
qed

lemma TinyList_AddTail_refines:
  assumes "tl_refines t s" and "fresh_alloc t m"
  shows "meets (TinyList_AddTail t m d) (L_AddTail (m \<noteq> None) d s)"
  using assms(1)
proof (rule tl_refinesE)
  fix ns lst
  assume rep: "dseg (heap t) None (first t) ns lst None" "distinct (map fst ns)"
    "items s = map snd ns" "size t = count s" "deleted t = log s" "listener t = has_listener s"
  show ?thesis
  proof (cases "d = None \<or> m = None")
    case True
    with assms(1) show ?thesis
      by (auto simp: TinyList_AddTail_def TinyNode_New_def L_AddTail_def meets_def)
  next
    case False
    then obtain a where m: "m = Some a" and d: "d \<noteq> None" by auto
    with assms(2) have fr: "heap t a = None" by (simp add: fresh_alloc_def)
    with rep(1) have a: "a \<notin> fst ` set ns" by (rule fresh_notin)
    show ?thesis
    proof (cases ns rule: rev_cases)
      case Nil
      with rep m d show ?thesis
        by (auto simp: TinyList_AddTail_def TinyNode_New_def L_AddTail_def
            intro!: meetsI tl_refinesI [where ns = "[(a, d)]" and lst = "Some a"])
    next
      case (snoc us x)
      obtain z e where x: "x = (z, e)" by (cases x)
      have ne: "ns \<noteq> []" using snoc by simp
      obtain b where b: "first t = Some b" using dseg_first [OF rep(1) ne] by blast
      define h where "h = (heap t)(a \<mapsto> \<lparr>prev = None, next = None, data = d\<rparr>)"
      have ns: "ns = us @ [(z, e)]" using snoc x by simp
      have seg: "dseg h None (Some b) ns lst None" using rep(1) b a by (simp add: h_def)
      have w: "walk_tail h b 0 = Some (z, int (length us))"
        using walk_tail_dseg [OF seg, of 0] by (simp add: ns)
      obtain pa where us: "dseg (heap t) None (Some b) us pa (Some z)"
        and hz: "heap t z = Some \<lparr>prev = pa, next = None, data = e\<rparr>"
        using rep(1) b by (auto simp: ns)
      have dist: "a \<noteq> z" "a \<notin> fst ` set us" "z \<notin> fst ` set us" "distinct (map fst us)"
        using a rep(2) by (auto simp: ns)
      define t' where "t' = t\<lparr>heap := (heap t)(z \<mapsto> \<lparr>prev = pa, next = Some a, data = e\<rparr>,
        a \<mapsto> \<lparr>prev = Some z, next = None, data = d\<rparr>), size := size t + 1\<rparr>"
      have "TinyList_AddTail t m d = Some (TINY_RET_OK, t')"
        using m d b w hz dist
        by (auto simp: TinyList_AddTail_def TinyNode_New_def h_def [symmetric] t'_def)
          (auto simp: h_def fun_eq_iff)
      moreover have "dseg (heap t') None (first t') ((us @ [(z, e)]) @ [(a, d)]) (Some a) None"
        using us dist b unfolding dseg_snoc by (auto simp: t'_def)
      then have "tl_refines t' (snd (L_AddTail True d s))"
        using dist rep(3-6) d by (auto simp: L_AddTail_def t'_def ns intro!: tl_refinesI)
      ultimately show ?thesis using m d by (auto simp: L_AddTail_def meets_def)
    qed
  qed
qed


lemma TinyList_RemoveAll_refines:
  assumes "tl_refines t s"
  shows "meets (TinyList_RemoveAll t) (L_RemoveAll s)"
  using assms
proof (rule tl_refinesE)
  fix ns lst
  assume rep: "dseg (heap t) None (first t) ns lst None" "distinct (map fst ns)"
    "items s = map snd ns" "size t = count s" "deleted t = log s" "listener t = has_listener s"
  show ?thesis
  proof (cases "first t")
    case None
    with rep have "ns = []" by (simp add: dseg_empty)
    with None rep show ?thesis
      by (auto simp: TinyList_RemoveAll_def L_RemoveAll_def logged_def
          intro!: meetsI tl_refinesI [where ns = "[]" and lst = None])
  next
    case (Some a)
    have seg: "dseg (heap (t\<lparr>first := None\<rparr>)) None (Some a) ns lst None"
      using rep(1) Some by simp
    from Some rep show ?thesis
      by (auto simp: TinyList_RemoveAll_def remove_all_loop_dseg [OF seg rep(2)] L_RemoveAll_def
          logged_def intro!: meetsI tl_refinesI [where ns = "[]" and lst = None])
  qed
qed

lemma TinyList_RemoveHead_refines:
  assumes "tl_refines t s"
  shows "meets (TinyList_RemoveHead t) (L_RemoveHead s)"
  using assms
proof (rule tl_refinesE)
  fix ns lst
  assume rep: "dseg (heap t) None (first t) ns lst None" "distinct (map fst ns)"
    "items s = map snd ns" "size t = count s" "deleted t = log s" "listener t = has_listener s"
  show ?thesis
  proof (cases ns)
    case Nil
    with rep assms show ?thesis
      by (auto simp: TinyList_RemoveHead_def L_RemoveHead_def intro!: meetsI)
  next
    case (Cons x us)
    obtain a d where x: "x = (a, d)" by (cases x)
    show ?thesis
    proof (cases us)
      case Nil
      with Cons x rep show ?thesis
        by (auto simp: TinyList_RemoveHead_def TinyNode_Delete_at L_RemoveHead_def logged_def
            intro!: meetsI tl_refinesI [where ns = "[]" and lst = None])
    next
      case (Cons y vs)
      obtain b e where y: "y = (b, e)" by (cases y)
      from \<open>ns = x # us\<close> Cons x y rep show ?thesis
        by (auto simp: TinyList_RemoveHead_def TinyNode_Delete_at L_RemoveHead_def logged_def
            intro!: meetsI tl_refinesI [where ns = us and lst = lst])
    qed
  qed
qed

lemma TinyList_RemoveTail_refines:
  assumes "tl_refines t s"
  shows "meets (TinyList_RemoveTail t) (L_RemoveTail s)"
  using assms
proof (rule tl_refinesE)
  fix ns lst
  assume rep: "dseg (heap t) None (first t) ns lst None" "distinct (map fst ns)"
    "items s = map snd ns" "size t = count s" "deleted t = log s" "listener t = has_listener s"
  show ?thesis
  proof (cases ns rule: rev_cases)
    case Nil
    with rep assms show ?thesis
      by (auto simp: TinyList_RemoveTail_def L_RemoveTail_def intro!: meetsI)
  next
    case (snoc us x)
    then have ne: "ns \<noteq> []" by simp
    obtain z d where x: "x = (z, d)" by (cases x)
    obtain f where f: "first t = Some f" using dseg_first [OF rep(1) ne] by blast
    have w: "walk_tail (heap t) f 0 = Some (z, int (length us))"
      using walk_tail_dseg [of "heap t" None f ns lst 0] rep(1) f snoc x by simp
    show ?thesis
    proof (cases us rule: rev_cases)
      case Nil
      with snoc x rep w f show ?thesis
        by (auto simp: TinyList_RemoveTail_def TinyNode_Delete_at L_RemoveTail_def logged_def
            intro!: meetsI tl_refinesI [where ns = "[]" and lst = None])
    next
      case (snoc vs y)
      obtain b e where y: "y = (b, e)" by (cases y)
      have ns: "ns = (vs @ [(b, e)]) @ [(z, d)]" using \<open>ns = us @ [x]\<close> snoc x y by simp
      obtain pa where seg: "dseg (heap t) None (first t) vs pa (Some b)"
        and hb: "heap t b = Some \<lparr>prev = pa, next = Some z, data = e\<rparr>"
        and hz: "heap t z = Some \<lparr>prev = Some b, next = None, data = d\<rparr>"
        using rep(1) unfolding ns dseg_snoc by blast
      have dist: "z \<notin> fst ` set vs" "b \<notin> fst ` set vs" "z \<noteq> b" "distinct (map fst vs)"
        using rep(2) by (auto simp: ns)
      have it: "items s = map snd vs @ [e, d]" using rep(3) by (simp add: ns)
      have "tl_refines (t\<lparr>heap := (heap t)(b \<mapsto> \<lparr>prev = pa, next = None, data = e\<rparr>, z := None),
          size := size t - 1, deleted := deleted t @ (if listener t then [d] else [])\<rparr>)
          (snd (L_RemoveTail s))"
        using seg dist rep(4-6) it
        by (intro tl_refinesI [where ns = "vs @ [(b, e)]" and lst = "Some b"])
          (auto simp: L_RemoveTail_def logged_def butlast_append)
      with w f hb hz dist it show ?thesis
        by (auto simp: TinyList_RemoveTail_def TinyNode_Delete_at L_RemoveTail_def fun_upd_twist
            meets_def)
    qed
  qed
qed


text \<open>The position arguments: a hit splits the represented list there.\<close>

lemma walk_pos_hit:
  assumes "dseg h None p ns lst None"
  shows "walk_pos h p 0 pos = Some (map_option fst (nth_int ns pos))"
  using walk_pos_dseg [OF assms, of 0 pos] by simp

lemma nth_int_None_map: "nth_int (map f xs) pos = None \<longleftrightarrow> nth_int xs pos = None"
  by (simp add: nth_int_map)

lemma nth_int_split [simp]: "nth_int (us @ x # vs) (int (length us)) = Some x"
  by (simp add: nth_int_def)

lemma TinyList_RemoveAt_refines:
  assumes "tl_refines t s"
  shows "meets (TinyList_RemoveAt t pos) (L_RemoveAt pos s)"
  using assms
proof (rule tl_refinesE)
  fix ns lst
  assume rep: "dseg (heap t) None (first t) ns lst None" "distinct (map fst ns)"
    "items s = map snd ns" "size t = count s" "deleted t = log s" "listener t = has_listener s"
  note w = walk_pos_hit [OF rep(1), of pos]
  show ?thesis
  proof (cases "nth_int ns pos")
    case None
    with w rep(3) assms show ?thesis
      by (auto simp: TinyList_RemoveAt_def L_RemoveAt_def nth_int_map intro!: meetsI)
  next
    case (Some x)
    obtain a d where x: "x = (a, d)" by (cases x)
    from Some obtain us vs where ns: "ns = us @ (a, d) # vs" and pos: "pos = int (length us)"
      using x by (auto elim: nth_int_SomeE)
    from rep(1) obtain p nx where us: "dseg (heap t) None (first t) us p (Some a)"
      and ha: "heap t a = Some \<lparr>prev = p, next = nx, data = d\<rparr>"
      and vs: "dseg (heap t) (Some a) nx vs lst None" by (auto simp: ns dseg_append)
    have dist: "a \<notin> fst ` set us" "a \<notin> fst ` set vs" "distinct (map fst us)" "distinct (map fst vs)"
      "fst ` set us \<inter> fst ` set vs = {}"
      using rep(2) by (auto simp: ns)
    have spec: "L_RemoveAt pos s = (TINY_RET_E_POSITION_INVALID,
        s\<lparr>items := map snd (us @ vs), count := count s - 1, log := logged s [d]\<rparr>)"
    proof -
      have hit: "nth_int (items s) pos = Some d"
        using nth_int_split [of us "(a, d)" vs] by (simp only: rep(3) ns pos nth_int_map) simp
      have "remove_int (items s) pos = map snd (us @ vs)"
        by (simp add: rep(3) ns pos remove_int_def)
      with hit show ?thesis by (simp add: L_RemoveAt_def)
    qed
    define f' where "f' = (if us = [] then nx else first t)"
    define h1 where "h1 = (case p of None \<Rightarrow> heap t
      | Some q \<Rightarrow> (heap t)(q \<mapsto> (the (heap t q))\<lparr>next := nx\<rparr>))"
    define h2 where "h2 = (case nx of None \<Rightarrow> h1 | Some b \<Rightarrow> h1(b \<mapsto> (the (h1 b))\<lparr>prev := p\<rparr>))"
    have p_us: "p = (if us = [] then None else Some (fst (last us)))"
      using us by (cases us rule: rev_cases) (auto simp: dseg_append)
    have nx_vs: "nx = (if vs = [] then None else Some (fst (hd vs)))"
      using vs by (cases vs) auto
    have lu: "fst (last us) \<in> fst ` set us" if "us \<noteq> []"
      using that by simp
    then have lu_vs: "us \<noteq> [] \<Longrightarrow> fst (last us) \<notin> fst ` set vs" using dist(5) by blast
    have h1_a: "h1 a = heap t a" and h1_vs: "dseg h1 (Some a) nx vs lst None"
      using dist(1) vs p_us lu lu_vs by (auto simp: h1_def split: option.splits if_splits)
    have h1_us: "dseg h1 None f' us p nx"
      using us dist(3) p_us by (cases us rule: rev_cases) (auto simp: h1_def f'_def dseg_append)
    have h2_vs: "dseg h2 p nx vs (if vs = [] then p else lst) None"
      using h1_vs dist(4) by (cases vs) (auto simp: h2_def)
    have h2_us: "dseg h2 None f' us p nx"
      using h1_us dist(5) nx_vs by (cases vs) (auto simp: h2_def)
    have h2_a: "h2 a = heap t a"
      using h1_a dist(2) nx_vs by (cases vs) (auto simp: h2_def)
    define t' where "t' = t\<lparr>first := f', heap := h2(a := None), size := size t - 1,
      deleted := deleted t @ (if listener t then [d] else [])\<rparr>"
    have "dseg (heap t') None (first t') (us @ vs) (if vs = [] then p else lst) None"
      using h2_us h2_vs dist(1,2) by (auto simp: t'_def dseg_append)
    moreover have "distinct (map fst (us @ vs))" using rep(2) by (auto simp: ns)
    ultimately have "tl_refines t' (snd (L_RemoveAt pos s))"
      unfolding spec using rep(4-6) by (auto simp: t'_def logged_def intro!: tl_refinesI)
    moreover have "TinyList_RemoveAt t pos = Some (TINY_RET_E_POSITION_INVALID, t')"
    proof -
      have wa: "walk_pos (heap t) (first t) 0 pos = Some (Some a)"
        using w by (simp add: Some x)
      have q: "p = Some q \<Longrightarrow> \<exists>nq. heap t q = Some nq" for q
        using us by (cases us rule: rev_cases) (auto simp: dseg_append)
      have b: "nx = Some b \<Longrightarrow> \<exists>nb. h1 b = Some nb" for b
        using h1_vs by (cases vs) auto
      have f: "us = [] \<longleftrightarrow> p = None" using p_us by simp
      show ?thesis
      proof (cases p)
        case None
        with q b f wa ha h2_a show ?thesis
          by (cases nx)
            (auto simp: TinyList_RemoveAt_def TinyNode_Delete_at t'_def f'_def h2_def h1_def
              dest!: b split: if_splits)
      next
        case (Some q')
        with q b f wa ha h2_a show ?thesis
          by (cases nx)
            (auto simp: TinyList_RemoveAt_def TinyNode_Delete_at t'_def f'_def h2_def h1_def
              dest!: b q split: if_splits)
      qed
    qed
    ultimately show ?thesis by (simp add: meets_def spec)
  qed
qed


lemma TinyList_SetAt_refines:
  assumes "tl_refines t s" and "L_SetAt pos d s = Some out"
  shows "meets (TinyList_SetAt t pos d) out"
  using assms(1)
proof (rule tl_refinesE)
  fix ns lst
  assume rep: "dseg (heap t) None (first t) ns lst None" "distinct (map fst ns)"
    "items s = map snd ns" "size t = count s" "deleted t = log s" "listener t = has_listener s"
  note w = walk_pos_hit [OF rep(1), of pos]
  show ?thesis
  proof (cases "nth_int ns pos")
    case None
    with w rep(3) assms show ?thesis
      by (auto simp: TinyList_SetAt_def L_SetAt_def nth_int_map intro!: meetsI)
  next
    case (Some x)
    obtain a e where x: "x = (a, e)" by (cases x)
    from Some obtain us vs where ns: "ns = us @ (a, e) # vs" and pos: "pos = int (length us)"
      using x by (auto elim: nth_int_SomeE)
    from rep(1) obtain p nx where us: "dseg (heap t) None (first t) us p (Some a)"
      and ha: "heap t a = Some \<lparr>prev = p, next = nx, data = e\<rparr>"
      and vs: "dseg (heap t) (Some a) nx vs lst None" by (auto simp: ns dseg_append)
    have dist: "a \<notin> fst ` set us" "a \<notin> fst ` set vs" using rep(2) by (auto simp: ns)
    have hit: "nth_int (items s) pos = Some e"
      using nth_int_split [of us "(a, e)" vs] by (simp only: rep(3) ns pos nth_int_map) simp
    have L: "has_listener s" and out: "out = (TINY_RET_E_POSITION_INVALID,
        s\<lparr>items := (items s)[nat pos := d], log := logged s [e]\<rparr>)"
      using assms(2) hit by (auto simp: L_SetAt_def split: if_splits)
    define t' where "t' = t\<lparr>deleted := deleted t @ [e],
      heap := (heap t)(a \<mapsto> \<lparr>prev = p, next = nx, data = d\<rparr>)\<rparr>"
    have "dseg (heap t') None (first t') (us @ (a, d) # vs) lst None"
      using us vs dist by (auto simp: t'_def dseg_append)
    moreover have "distinct (map fst (us @ (a, d) # vs))" using rep(2) by (simp add: ns)
    moreover have "(items s)[nat pos := d] = map snd (us @ (a, d) # vs)"
      using list_update_length [of "map snd us" e "map snd vs" d] by (simp add: rep(3) ns pos)
    ultimately have "tl_refines t' (snd out)"
      using rep(4-6) L by (auto simp: out t'_def logged_def intro!: tl_refinesI)
    moreover have "TinyList_SetAt t pos d = Some (fst out, t')"
      using w L rep(6) ha by (simp add: Some x TinyList_SetAt_def out t'_def)
    ultimately show ?thesis by (simp add: meets_def)
  qed
qed

lemma TinyList_InsertAfter_refines:
  assumes "tl_refines t s" and "fresh_alloc t m"
  shows "meets (TinyList_InsertAfter t m pos d) (L_InsertAfter (m \<noteq> None) pos d s)"
  using assms(1)
proof (rule tl_refinesE)
  fix ns lst
  assume rep: "dseg (heap t) None (first t) ns lst None" "distinct (map fst ns)"
    "items s = map snd ns" "size t = count s" "deleted t = log s" "listener t = has_listener s"
  show ?thesis
  proof (cases "ns = [] \<or> m = None")
    case True
    with rep dseg_first [OF rep(1)] assms(1) show ?thesis
      by (auto simp: TinyList_InsertAfter_def TinyNode_New_def L_InsertAfter_def meets_def
          split: option.splits)
  next
    case False
    then obtain a where m: "m = Some a" and ne: "ns \<noteq> []" by auto
    with assms(2) have fr: "heap t a = None" by (simp add: fresh_alloc_def)
    with rep(1) have a: "a \<notin> fst ` set ns" by (rule fresh_notin)
    obtain f where f: "first t = Some f" using dseg_first [OF rep(1) ne] by blast
    define h where "h = (heap t)(a \<mapsto> \<lparr>prev = None, next = None, data = d\<rparr>)"
    have seg: "dseg h None (Some f) ns lst None" using rep(1) f a by (simp add: h_def)
    note w = walk_pos_hit [OF seg, of pos]
    note unfold = TinyList_InsertAfter_def TinyNode_New_def m f h_def [symmetric] Let_def
    show ?thesis
    proof (cases "nth_int ns pos")
      case None
      then have "\<not> (0 \<le> pos \<and> pos < int (length (items s)))"
        by (auto simp: rep(3) nth_int_def split: if_splits)
      moreover have "items s \<noteq> []" using ne rep(3) by simp
      ultimately have "L_InsertAfter True pos d s =
          (TINY_RET_E_POSITION_INVALID, s\<lparr>count := count s + 1\<rparr>)"
        unfolding L_InsertAfter_def by (simp only: simp_thms if_False if_True)
      moreover have "TinyList_InsertAfter t m pos d = Some (TINY_RET_E_POSITION_INVALID,
          t\<lparr>heap := h, size := size t + 1\<rparr>)"
        using w None by (simp add: unfold)
      moreover have "tl_refines (t\<lparr>heap := h, size := size t + 1\<rparr>) (s\<lparr>count := count s + 1\<rparr>)"
        using seg rep f by (auto intro!: tl_refinesI)
      ultimately show ?thesis by (simp add: meets_def m)
    next
      case (Some x)
      obtain b e where x: "x = (b, e)" by (cases x)
      from Some obtain us vs where ns: "ns = us @ (b, e) # vs" and pos: "pos = int (length us)"
        using x by (auto elim: nth_int_SomeE)
      from seg obtain p nx where us: "dseg h None (Some f) us p (Some b)"
        and hb: "h b = Some \<lparr>prev = p, next = nx, data = e\<rparr>"
        and vs: "dseg h (Some b) nx vs lst None" by (auto simp: ns dseg_append)
      have dist: "a \<notin> fst ` set us" "a \<notin> fst ` set vs" "a \<noteq> b" "b \<notin> fst ` set us"
        "b \<notin> fst ` set vs" "fst ` set us \<inter> fst ` set vs = {}" "distinct (map fst vs)"
        using a rep(2) by (auto simp: ns)
      have spec: "L_InsertAfter True pos d s = (TINY_RET_OK,
          s\<lparr>items := map snd (us @ (b, e) # (a, d) # vs), count := count s + 1\<rparr>)"
        by (simp add: L_InsertAfter_def rep(3) ns pos nat_add_distrib)
      define h1 where "h1 = h(a \<mapsto> \<lparr>prev = Some b, next = nx, data = d\<rparr>)"
      define h2 where "h2 = (case nx of None \<Rightarrow> h1 | Some c \<Rightarrow> h1(c \<mapsto> (the (h1 c))\<lparr>prev := Some a\<rparr>))"
      have c: "nx = Some c \<Longrightarrow> c \<noteq> a \<and> c \<noteq> b \<and> c \<notin> fst ` set us \<and> (\<exists>nc. h1 c = Some nc)" for c
        using vs dist by (cases vs; force simp: h1_def)
      have h2_vs: "dseg h2 (Some a) nx vs (if vs = [] then Some a else lst) None"
        using vs dist by (cases vs) (auto simp: h2_def h1_def)
      have h2_us: "dseg h2 None (Some f) us p (Some b)"
        using us dist c by (cases nx) (auto simp: h2_def h1_def)
      have h2_ab: "h2 a = Some \<lparr>prev = Some b, next = nx, data = d\<rparr>"
        "h2 b = Some \<lparr>prev = p, next = nx, data = e\<rparr>"
        using c hb dist(3) by (cases nx; auto simp: h2_def h1_def)+
      define t' where "t' = t\<lparr>heap := h2(b \<mapsto> \<lparr>prev = p, next = Some a, data = e\<rparr>),
        size := size t + 1\<rparr>"
      have "dseg (heap t') None (first t') (us @ (b, e) # (a, d) # vs) (if vs = [] then Some a else lst) None"
        using h2_us h2_vs h2_ab dist f by (auto simp: t'_def dseg_append)
      moreover have "distinct (map fst (us @ (b, e) # (a, d) # vs))"
        using rep(2) dist by (auto simp: ns)
      ultimately have "tl_refines t' (snd (L_InsertAfter True pos d s))"
        unfolding spec using rep(4-6) by (auto simp: t'_def intro!: tl_refinesI)
      moreover have "TinyList_InsertAfter t m pos d = Some (TINY_RET_OK, t')"
      proof -
        have wb: "walk_pos ((heap t)(a \<mapsto> \<lparr>prev = None, next = None, data = d\<rparr>)) (Some f) 0 pos = Some (Some b)"
          using w Some x by (simp add: h_def)
        have hb': "heap t b = Some \<lparr>prev = p, next = nx, data = e\<rparr>"
          using hb dist(3) by (simp add: h_def split: if_splits)
        have c': "nx = Some c \<Longrightarrow> c \<noteq> a \<and> c \<noteq> b \<and> (\<exists>nc. heap t c = Some nc)" for c
          using c by (auto simp: h1_def h_def)
        show ?thesis
          using wb hb' c' dist(3)
          by (cases nx)
            (auto simp: TinyList_InsertAfter_def TinyNode_New_def m f t'_def h2_def h1_def h_def
              dest!: c')
      qed
      ultimately show ?thesis by (simp add: meets_def spec m)
    qed
  qed
qed

lemma TinyList_InsertBefore_refines:
  assumes "tl_refines t s" and "fresh_alloc t m"
  shows "meets (TinyList_InsertBefore t m pos d) (L_InsertBefore (m \<noteq> None) pos d s)"
  using TinyList_AddHead_refines [OF assms] TinyList_InsertAfter_refines [OF assms]
  by (simp add: TinyList_InsertBefore_def L_InsertBefore_def)


subsection \<open>Sequences of operations\<close>

datatype 'a list_op =
    AddHead "'a option" | AddTail "'a option"
  | RemoveAll | RemoveHead | RemoveTail | RemoveAt int
  | SetAt int "'a option" | InsertAfter int "'a option" | InsertBefore int "'a option"

fun c_step :: "addr option \<Rightarrow> 'a list_op \<Rightarrow> 'a tlist \<Rightarrow> (tiny_ret \<times> 'a tlist) option" where
  "c_step m (AddHead d) t = TinyList_AddHead t m d"
| "c_step m (AddTail d) t = TinyList_AddTail t m d"
| "c_step m RemoveAll t = TinyList_RemoveAll t"
| "c_step m RemoveHead t = TinyList_RemoveHead t"
| "c_step m RemoveTail t = TinyList_RemoveTail t"
| "c_step m (RemoveAt pos) t = TinyList_RemoveAt t pos"
| "c_step m (SetAt pos d) t = TinyList_SetAt t pos d"
| "c_step m (InsertAfter pos d) t = TinyList_InsertAfter t m pos d"
| "c_step m (InsertBefore pos d) t = TinyList_InsertBefore t m pos d"

fun l_step :: "bool \<Rightarrow> 'a list_op \<Rightarrow> 'a lspec \<Rightarrow> (tiny_ret \<times> 'a lspec) option" where
  "l_step ok (AddHead d) s = Some (L_AddHead ok d s)"
| "l_step ok (AddTail d) s = Some (L_AddTail ok d s)"
| "l_step ok RemoveAll s = Some (L_RemoveAll s)"
| "l_step ok RemoveHead s = Some (L_RemoveHead s)"
| "l_step ok RemoveTail s = Some (L_RemoveTail s)"
| "l_step ok (RemoveAt pos) s = Some (L_RemoveAt pos s)"
| "l_step ok (SetAt pos d) s = L_SetAt pos d s"
| "l_step ok (InsertAfter pos d) s = Some (L_InsertAfter ok pos d s)"
| "l_step ok (InsertBefore pos d) s = Some (L_InsertBefore ok pos d s)"

lemma list_step_refines:
  assumes "tl_refines t s" and "fresh_alloc t m" and "l_step (m \<noteq> None) x s = Some out"
  shows "meets (c_step m x t) out"
  using assms(3) TinyList_SetAt_refines [OF assms(1)]
    TinyList_AddHead_refines [OF assms(1,2)] TinyList_AddTail_refines [OF assms(1,2)]
    TinyList_InsertAfter_refines [OF assms(1,2)] TinyList_InsertBefore_refines [OF assms(1,2)]
    TinyList_RemoveAll_refines [OF assms(1)] TinyList_RemoveHead_refines [OF assms(1)]
    TinyList_RemoveTail_refines [OF assms(1)] TinyList_RemoveAt_refines [OF assms(1)]
  by (cases x) auto

text \<open>
  A run from a given state. \<open>alloc\<close> stands for \<open>tiny_malloc\<close>: what it returns for a store,
  NULL or an address the store does not use. The return values are collected.
\<close>

fun c_run :: "('a store \<Rightarrow> addr option) \<Rightarrow> 'a list_op list \<Rightarrow> 'a tlist \<Rightarrow> (tiny_ret list \<times> 'a tlist) option" where
  "c_run alloc [] t = Some ([], t)"
| "c_run alloc (x # xs) t = do {
     (r, t1) \<leftarrow> c_step (alloc (heap t)) x t;
     (rs, t2) \<leftarrow> c_run alloc xs t1;
     Some (r # rs, t2)
   }"

text \<open>The same run of the contracts, with the allocations' outcomes as a list.\<close>

fun l_run :: "mallocs \<Rightarrow> 'a list_op list \<Rightarrow> 'a lspec \<Rightarrow> (tiny_ret list \<times> 'a lspec) option" where
  "l_run oks [] s = Some ([], s)"
| "l_run oks (x # xs) s = (case malloc_next oks of (ok, oks') \<Rightarrow> do {
     (r, s1) \<leftarrow> l_step ok x s;
     (rs, s2) \<leftarrow> l_run oks' xs s1;
     Some (r # rs, s2)
   })"

lemma l_step_has_listener: "l_step ok x s = Some (r, s') \<Longrightarrow> has_listener s' = has_listener s"
  by (cases x) (auto simp: L_op_defs split: if_splits option.splits list.splits)

lemma l_step_total: "has_listener s \<Longrightarrow> \<exists>out. l_step ok x s = Some out"
  by (cases x) (auto simp: L_SetAt_def split: option.splits)


subsection \<open>Properties\<close>

text \<open>
  C9. The linked list of \<open>TinyList.c\<close> implements its contracts over whole runs: from any
  store that represents a list (with a delete listener set), every sequence of write
  operations, with \<open>tiny_malloc\<close> returning NULL or a fresh address each time, completes
  without a bad pointer access, returns exactly the contracts' return values, and leaves a
  store that represents the contracts' final list, counter and listener calls.
\<close>

theorem list_run_refines:
  fixes alloc :: "'a store \<Rightarrow> addr option"
  assumes "\<And>h a. alloc h = Some a \<Longrightarrow> h a = None"
    and "tl_refines t s" and "has_listener s"
  shows "\<exists>oks rs t' s'. l_run oks xs s = Some (rs, s') \<and> c_run alloc xs t = Some (rs, t')
           \<and> tl_refines t' s' \<and> has_listener s'"
  using assms(2,3)
proof (induction xs arbitrary: t s)
  case Nil
  then show ?case by (intro exI [of _ "[]"]) auto
next
  case (Cons x xs)
  define m where "m = alloc (heap t)"
  have fr: "fresh_alloc t m"
    using assms(1) [of "heap t"] by (auto simp: m_def fresh_alloc_def split: option.splits)
  obtain r s1 where l: "l_step (m \<noteq> None) x s = Some (r, s1)"
    using l_step_total [OF Cons.prems(2)] by (metis surj_pair)
  from list_step_refines [OF Cons.prems(1) fr l] obtain t1 where
    c: "c_step m x t = Some (r, t1)" and t1: "tl_refines t1 s1" by (auto simp: meets_def)
  have "has_listener s1" using l_step_has_listener [OF l] Cons.prems(2) by simp
  from Cons.IH [OF t1 this] obtain oks rs t' s' where
    "l_run oks xs s1 = Some (rs, s')" "c_run alloc xs t1 = Some (rs, t')"
    "tl_refines t' s'" "has_listener s'" by blast
  with l c show ?case
    by (intro exI [of _ "(m \<noteq> None) # oks"] exI [of _ "r # rs"] exI [of _ t'] exI [of _ s'])
      (simp add: m_def)
qed

definition demo_store :: "nat tlist" where
  "demo_store = \<lparr>heap = (\<lambda>_. None), size = 0, first = None, listener = True, deleted = []\<rparr>"

definition demo_spec :: "nat lspec" where
  "demo_spec = \<lparr>items = [], count = 0, log = [], has_listener = True\<rparr>"

lemma demo_refines: "tl_refines demo_store demo_spec"
  by (auto simp: demo_store_def demo_spec_def intro!: tl_refinesI [where ns = "[]" and lst = None])

theorem list_run_refines_witness:
  "\<exists>oks rs t' s'. l_run oks [AddTail (Some 1), RemoveAt 0] demo_spec = Some (rs, s')
     \<and> c_run (\<lambda>h. if h 7 = None then Some 7 else None) [AddTail (Some 1), RemoveAt 0] demo_store = Some (rs, t')
     \<and> tl_refines t' s' \<and> has_listener s'"
  by (rule list_run_refines [OF _ demo_refines]) (auto simp: demo_spec_def split: if_splits)

text \<open>
  The counter is right as long as no \<open>InsertAfter\<close> or \<open>InsertBefore\<close> misses: the
  positions an operation may use so that \<open>size\<close> stays the number of elements.
\<close>

definition count_ok :: "'a lspec \<Rightarrow> bool" where
  "count_ok s \<longleftrightarrow> count s = word_of_nat (length (items s))"

fun position_ok :: "'a list_op \<Rightarrow> 'a lspec \<Rightarrow> bool" where
  "position_ok (InsertAfter pos d) s = (items s = [] \<or> 0 \<le> pos \<and> pos < int (length (items s)))"
| "position_ok (InsertBefore pos d) s =
     (pos = 0 \<or> items s = [] \<or> 0 < pos \<and> pos \<le> int (length (items s)))"
| "position_ok x s = True"

lemma count_ok_minus_1:
  "count_ok s \<Longrightarrow> 0 < length (items s) \<Longrightarrow> count s - 1 = word_of_nat (length (items s) - 1)"
  using word_of_nat_pred [where ?'a = 32, of "length (items s)"] by (simp add: count_ok_def)

lemma l_step_count_ok:
  assumes "count_ok s" and "position_ok x s" and "l_step ok x s = Some (r, s')"
  shows "count_ok s'"
proof (cases x)
  case (RemoveAt pos)
  with assms show ?thesis
    using count_ok_minus_1 [OF assms(1)]
    by (auto simp: L_op_defs count_ok_def nth_int_def length_remove_int split: if_splits option.splits)
next
  case RemoveHead
  with assms show ?thesis
    by (auto simp: L_op_defs count_ok_def split: list.splits)
next
  case RemoveTail
  with assms show ?thesis
    using count_ok_minus_1 [OF assms(1)]
    by (auto simp: L_op_defs count_ok_def split: if_splits)
qed (use assms in \<open>auto simp: L_op_defs count_ok_def split: if_splits option.splits\<close>)

text \<open>
  \<open>TinyList_GetCount\<close> is right: if the counter is the number of elements before a write
  operation that meets its position requirement, it is so afterwards, and on lists of fewer
  than \<open>2 ^ 31\<close> elements the \<open>int\<close> that \<open>GetCount\<close> returns is that number.
\<close>

theorem list_count_correct:
  assumes "tl_refines t s" and "count_ok s" and "fresh_alloc t m" and "position_ok x s"
    and "l_step (m \<noteq> None) x s = Some (r, s')" and "length (items s') < 2 ^ 31"
  shows "\<exists>t'. c_step m x t = Some (r, t') \<and> TinyList_GetCount t' = int (length (items s'))"
proof -
  from list_step_refines [OF assms(1,3,5)] obtain t' where
    c: "c_step m x t = Some (r, t')" and t': "tl_refines t' s'" by (auto simp: meets_def)
  have "count_ok s'" using l_step_count_ok assms(2,4,5) by blast
  then have "size t' = word_of_nat (length (items s'))"
    using t' by (simp add: tl_refines_def count_ok_def)
  then have "TinyList_GetCount t' = int (length (items s'))"
    using assms(6) by (simp add: TinyList_GetCount_def signed_of_nat signed_take_bit_int_eq_self)
  with c show ?thesis by blast
qed

theorem list_count_correct_witness:
  "\<exists>t'. c_step (Some 3) (AddHead (Some 5)) demo_store = Some (TINY_RET_OK, t')
     \<and> TinyList_GetCount t' = int (length (items (demo_spec\<lparr>items := [Some 5], count := 1\<rparr>)))"
  by (rule list_count_correct [OF demo_refines])
    (simp_all add: count_ok_def demo_spec_def demo_store_def fresh_alloc_def L_AddHead_def)

text \<open>
  \<open>TinyList_RemoveAt\<close> reports failure even when it succeeds: for every position of
  the list the element is unlinked, handed to the delete listener and released, and the return
  value is still \<open>TINY_RET_E_POSITION_INVALID\<close>, the same as for a position outside the list.
\<close>

theorem remove_at_reports_invalid:
  assumes "tl_refines t s" and "nth_int (items s) pos = Some d"
  shows "\<exists>t'. TinyList_RemoveAt t pos = Some (TINY_RET_E_POSITION_INVALID, t')
     \<and> tl_refines t' (s\<lparr>items := take (nat pos) (items s) @ drop (nat pos + 1) (items s),
                        count := count s - 1, log := logged s [d]\<rparr>)"
proof -
  have "0 \<le> pos" using assms(2) by (simp add: nth_int_Some_iff)
  with TinyList_RemoveAt_refines [OF assms(1), of pos] assms(2) show ?thesis
    by (auto simp: meets_def L_RemoveAt_def remove_int_def)
qed

definition demo_store1 :: "nat tlist" where
  "demo_store1 = demo_store\<lparr>heap := [3 \<mapsto> \<lparr>prev = None, next = None, data = Some 5\<rparr>],
     size := 1, first := Some 3\<rparr>"

definition demo_spec1 :: "nat lspec" where
  "demo_spec1 = demo_spec\<lparr>items := [Some 5], count := 1\<rparr>"

lemma demo_refines1: "tl_refines demo_store1 demo_spec1"
  by (rule tl_refinesI [where ns = "[(3, Some 5)]" and lst = "Some 3"])
    (simp_all add: demo_store1_def demo_spec1_def demo_store_def demo_spec_def)

theorem remove_at_reports_invalid_witness:
  "\<exists>t'. TinyList_RemoveAt demo_store1 0 = Some (TINY_RET_E_POSITION_INVALID, t')
     \<and> tl_refines t' (demo_spec1\<lparr>items := take (nat 0) (items demo_spec1) @ drop (nat 0 + 1) (items demo_spec1),
          count := count demo_spec1 - 1, log := logged demo_spec1 [Some 5]\<rparr>)"
  by (rule remove_at_reports_invalid [OF demo_refines1]) (simp add: demo_spec1_def)

text \<open>
  A missed \<open>TinyList_InsertAfter\<close> leaks: on a non-empty list a position outside the list
  gives \<open>TINY_RET_E_POSITION_INVALID\<close> and leaves the elements as they were, but the node it
  allocated stays allocated and the counter that \<open>TinyList_GetCount\<close> reads has grown by one.
\<close>

theorem insert_after_miss_leaks:
  assumes "tl_refines t s" and "fresh_alloc t (Some a)" and "items s \<noteq> []"
    and "pos < 0 \<or> int (length (items s)) \<le> pos"
  shows "\<exists>t'. TinyList_InsertAfter t (Some a) pos d = Some (TINY_RET_E_POSITION_INVALID, t')
     \<and> heap t' a \<noteq> None \<and> size t' = size t + 1 \<and> tl_refines t' (s\<lparr>count := count s + 1\<rparr>)"
proof -
  from assms(1) obtain ns lst where rep: "dseg (heap t) None (first t) ns lst None"
    "distinct (map fst ns)" "items s = map snd ns" "size t = count s" "deleted t = log s"
    "listener t = has_listener s" by (rule tl_refinesE)
  have ne: "ns \<noteq> []" using assms(3) rep(3) by simp
  have fr: "heap t a = None" using assms(2) by (simp add: fresh_alloc_def)
  obtain f where f: "first t = Some f" using dseg_first [OF rep(1) ne] by blast
  define h where "h = (heap t)(a \<mapsto> \<lparr>prev = None, next = None, data = d\<rparr>)"
  have seg: "dseg h None (Some f) ns lst None"
    using rep(1) f fresh_notin [OF rep(1) fr] by (simp add: h_def)
  have "nth_int ns pos = None" using assms(4) by (auto simp: nth_int_def rep(3))
  with walk_pos_hit [OF seg, of pos] have "walk_pos h (Some f) 0 pos = Some None" by simp
  then have "TinyList_InsertAfter t (Some a) pos d =
      Some (TINY_RET_E_POSITION_INVALID, t\<lparr>heap := h, size := size t + 1\<rparr>)"
    by (simp add: TinyList_InsertAfter_def TinyNode_New_def f h_def)
  moreover have "tl_refines (t\<lparr>heap := h, size := size t + 1\<rparr>) (s\<lparr>count := count s + 1\<rparr>)"
    using seg rep f by (auto intro!: tl_refinesI)
  ultimately show ?thesis by (simp add: h_def)
qed

theorem insert_after_miss_leaks_witness:
  "\<exists>t'. TinyList_InsertAfter demo_store1 (Some 4) 1 None = Some (TINY_RET_E_POSITION_INVALID, t')
     \<and> heap t' 4 \<noteq> None \<and> size t' = size demo_store1 + 1
     \<and> tl_refines t' (demo_spec1\<lparr>count := count demo_spec1 + 1\<rparr>)"
  by (rule insert_after_miss_leaks [OF demo_refines1])
    (simp_all add: demo_spec1_def demo_store1_def demo_store_def fresh_alloc_def)

end
