(* ===== verification/CString.thy ===== *)
theory CString
  imports TinyRet
begin

section \<open>C strings, buffers and the string functions of the C library\<close>

text \<open>
  A C string is the list of its bytes up to the terminating NUL, so it contains no NUL
  (\<open>cstring\<close>). A struct field \<open>char f[N]\<close> is kept as the bytes before its first NUL, at
  most N of them: a field holding exactly N bytes has no terminator, and reading it as a C
  string runs past its end, which \<open>read_field\<close> reports as \<open>None\<close>. The byte-level
  \<open>strncpy\<close> and its relation to this representation are proved below.

  The rest are the functions of \<open>string.h\<close>, \<open>ctype.h\<close> (C locale) and \<open>stdlib.h\<close>
  that the program calls, and the \<open>printf\<close> conversions it uses. \<open>char\<close> is signed on the
  program's targets: \<open>sbyte\<close> is the value of a \<open>char\<close> promoted to \<open>int\<close>.
\<close>

abbreviation NUL :: char where "NUL \<equiv> CHR 0x00"
abbreviation CR :: char where "CR \<equiv> CHR 0x0D"
abbreviation LF :: char where "LF \<equiv> CHR 0x0A"

definition cstring :: "string \<Rightarrow> bool" where
  "cstring s \<longleftrightarrow> NUL \<notin> set s"

definition sbyte :: "char \<Rightarrow> int" where
  "sbyte c = (if 128 \<le> (of_char c :: int) then of_char c - 256 else of_char c)"

subsection \<open>Fields filled by strncpy\<close>

text \<open>Byte level: the first n bytes of the buffer become the string, padded with NULs.\<close>

definition c_str :: "char list \<Rightarrow> string" where
  "c_str buf = takeWhile (\<lambda>c. c \<noteq> NUL) buf"

definition strncpy :: "char list \<Rightarrow> string \<Rightarrow> nat \<Rightarrow> char list" where
  "strncpy buf s n = take n s @ replicate (n - length s) NUL @ drop n buf"

definition field_cpy :: "nat \<Rightarrow> string \<Rightarrow> string" where
  "field_cpy n s = take n s"

text \<open>\<open>snprintf\<close> into a field of n bytes keeps at most n - 1 and terminates it.\<close>

definition field_printf :: "nat \<Rightarrow> string \<Rightarrow> string" where
  "field_printf n s = take (n - 1) s"

definition read_field :: "nat \<Rightarrow> string \<Rightarrow> string option" where
  "read_field n f = (if length f < n then Some f else None)"

lemmas field_op_defs [field_defs] = field_cpy_def field_printf_def read_field_def

lemma takeWhile_cstring: "cstring s \<Longrightarrow> takeWhile (\<lambda>c. c \<noteq> NUL) (s @ NUL # t) = s"
  by (auto simp: cstring_def intro!: takeWhile_eq_all_conv [THEN iffD2] takeWhile_append2 [THEN trans])

lemma cstring_take [simp]: "cstring s \<Longrightarrow> cstring (take n s)"
  by (auto simp: cstring_def dest: in_set_takeD)

lemma cstring_Nil [simp]: "cstring []"
  by (simp add: cstring_def)

lemma cstring_Cons [simp]: "cstring (c # s) \<longleftrightarrow> c \<noteq> NUL \<and> cstring s"
  by (auto simp: cstring_def)

lemma cstring_append [simp]: "cstring (s @ t) \<longleftrightarrow> cstring s \<and> cstring t"
  by (auto simp: cstring_def)

lemma length_strncpy: "n \<le> length buf \<Longrightarrow> length (strncpy buf s n) = length buf"
  by (simp add: strncpy_def min_def)

lemma c_str_strncpy:
  assumes "cstring s" and "length buf = n"
  shows "c_str (strncpy buf s n) = field_cpy n s"
proof -
  have all: "\<forall>c \<in> set (take n s). c \<noteq> NUL"
    using assms(1) by (auto simp: cstring_def dest: in_set_takeD)
  have "c_str (strncpy buf s n) = take n s @ takeWhile (\<lambda>c. c \<noteq> NUL) (replicate (n - length s) NUL)"
    using all assms(2) by (simp add: c_str_def strncpy_def takeWhile_append2)
  then show ?thesis by (simp add: field_cpy_def takeWhile_replicate)
qed

lemma field_cpy_length [simp]: "length (field_cpy n s) \<le> n"
  by (simp add: field_cpy_def)

lemma field_cpy_idem [simp]: "field_cpy n (field_cpy n s) = field_cpy n s"
  by (simp add: field_cpy_def)

lemma field_cpy_short: "length s \<le> n \<Longrightarrow> field_cpy n s = s"
  by (simp add: field_cpy_def)

lemma read_field_cpy: "length s < n \<Longrightarrow> read_field n (field_cpy n s) = Some s"
  by (simp add: field_defs)

lemma read_field_printf: "0 < n \<Longrightarrow> read_field n (field_printf n s) = Some (take (n - 1) s)"
  by (simp add: field_defs)

lemma read_field_cpy_None: "n \<le> length s \<Longrightarrow> read_field n (field_cpy n s) = None"
  by (simp add: field_defs)

subsection \<open>string.h\<close>

definition STR_EQUAL :: "string \<Rightarrow> string \<Rightarrow> bool" where
  "STR_EQUAL a b \<longleftrightarrow> a = b"

definition strncmp_eq :: "string \<Rightarrow> string \<Rightarrow> nat \<Rightarrow> bool" where
  "strncmp_eq a b n \<longleftrightarrow> take n a = take n b"

fun is_prefix :: "string \<Rightarrow> string \<Rightarrow> bool" where
  "is_prefix [] s = True"
| "is_prefix (c # cs) [] = False"
| "is_prefix (c # cs) (d # ds) = (c = d \<and> is_prefix cs ds)"

text \<open>\<open>strstr\<close>: the part of the haystack that starts at the first occurrence.\<close>

fun strstr :: "string \<Rightarrow> string \<Rightarrow> string option" where
  "strstr [] pat = (if pat = [] then Some [] else None)"
| "strstr (c # cs) pat = (if is_prefix pat (c # cs) then Some (c # cs) else strstr cs pat)"

lemma is_prefix_iff: "is_prefix p s \<longleftrightarrow> (\<exists>t. s = p @ t)"
  by (induction p s rule: is_prefix.induct) auto

lemma is_prefix_append [simp]: "is_prefix p (p @ t)"
  by (auto simp: is_prefix_iff)

lemma is_prefix_Nil_right [simp]: "is_prefix p [] \<longleftrightarrow> p = []"
  by (cases p) auto

lemma strstr_Nil_pat [simp]: "strstr s [] = Some s"
  by (cases s) auto

lemma strstr_prefix: "strstr (p @ t) p = Some (p @ t)"
  by (cases "p @ t"; cases p) (auto simp: is_prefix_iff)

lemma strstr_Some:
  "strstr s p = Some t \<Longrightarrow> \<exists>a b. s = a @ t \<and> t = p @ b"
proof (induction s p rule: strstr.induct)
  case (1 pat)
  then show ?case by (auto split: if_splits)
next
  case (2 c cs pat)
  show ?case
  proof (cases "is_prefix pat (c # cs)")
    case True
    with 2 show ?thesis by (auto simp: is_prefix_iff)
  next
    case False
    with 2 obtain a b where "cs = a @ t" "t = pat @ b" by auto
    then show ?thesis by (intro exI [of _ "c # a"] exI [of _ b]) simp
  qed
qed

lemma strstr_None_iff: "strstr s p = None \<longleftrightarrow> (\<forall>a b. s \<noteq> a @ p @ b)"
proof (induction s p rule: strstr.induct)
  case (1 pat)
  then show ?case by auto
next
  case (2 c cs pat)
  show ?case
  proof (cases "is_prefix pat (c # cs)")
    case True
    then obtain t where t: "c # cs = [] @ pat @ t" by (auto simp: is_prefix_iff)
    have "strstr (c # cs) pat \<noteq> None" using True by simp
    moreover have "\<exists>a b. c # cs = a @ pat @ b" using t by blast
    ultimately show ?thesis by blast
  next
    case False
    then have no: "c # cs \<noteq> pat @ b" for b by (auto simp: is_prefix_iff)
    have "(\<forall>a b. c # cs \<noteq> a @ pat @ b) \<longleftrightarrow> (\<forall>a b. cs \<noteq> a @ pat @ b)"
      by (metis append_Cons append_eq_Cons_conv no)
    with 2 False show ?thesis by simp
  qed
qed

lemma strstr_single_notin: "c \<notin> set s \<Longrightarrow> strstr s [c] = None"
  by (induction s) auto

lemma strstr_single_append: "c \<notin> set s \<Longrightarrow> strstr (s @ c # t) [c] = Some (c # t)"
  by (induction s) auto

subsection \<open>ctype.h, in the C locale\<close>

definition tolower :: "char \<Rightarrow> char" where
  "tolower c = (if 65 \<le> (of_char c :: nat) \<and> (of_char c :: nat) \<le> 90
                then char_of ((of_char c :: nat) + 32) else c)"

definition isdigit :: "char \<Rightarrow> bool" where
  "isdigit c \<longleftrightarrow> 48 \<le> (of_char c :: nat) \<and> (of_char c :: nat) \<le> 57"

definition isspace :: "char \<Rightarrow> bool" where
  "isspace c \<longleftrightarrow> (of_char c :: nat) \<in> {9, 10, 11, 12, 13, 32}"

definition isxdigit :: "char \<Rightarrow> bool" where
  "isxdigit c \<longleftrightarrow> isdigit c \<or> 65 \<le> (of_char c :: nat) \<and> (of_char c :: nat) \<le> 70
     \<or> 97 \<le> (of_char c :: nat) \<and> (of_char c :: nat) \<le> 102"

definition digit_val :: "char \<Rightarrow> nat" where
  "digit_val c = of_char c - 48"

definition xdigit_val :: "char \<Rightarrow> nat" where
  "xdigit_val c = (if isdigit c then of_char c - 48
                   else if (of_char c :: nat) \<le> 70 then of_char c - 55 else of_char c - 87)"

lemma of_char_nat_less [simp]: "(of_char c :: nat) < 256"
  by (simp add: of_char_def)

lemma tolower_idem [simp]: "tolower (tolower c) = tolower c"
  by (auto simp: tolower_def)

lemma tolower_NUL_iff [simp]: "tolower c = NUL \<longleftrightarrow> c = NUL"
proof
  assume t: "tolower c = NUL"
  show "c = NUL"
  proof (cases "65 \<le> (of_char c :: nat) \<and> (of_char c :: nat) \<le> 90")
    case True
    with t have "(of_char (char_of ((of_char c :: nat) + 32)) :: nat) = of_char NUL"
      by (simp add: tolower_def)
    with True show ?thesis by simp
  next
    case False
    with t show ?thesis by (simp add: tolower_def split: if_splits)
  qed
qed (simp add: tolower_def)


subsection \<open>Numbers: the printf conversions and stdlib.h\<close>

text \<open>\<open>%u\<close> and \<open>%d\<close>; \<open>%0wx\<close> and \<open>%0wX\<close> with the value given as a natural number.\<close>

definition digit_char :: "nat \<Rightarrow> char" where
  "digit_char d = char_of (48 + d)"

definition xdigit_char :: "bool \<Rightarrow> nat \<Rightarrow> char" where
  "xdigit_char upper d = (if d < 10 then char_of (48 + d)
                          else if upper then char_of (55 + d) else char_of (87 + d))"

fun show_nat :: "nat \<Rightarrow> string" where
  "show_nat n = (if n < 10 then [digit_char n] else show_nat (n div 10) @ [digit_char (n mod 10)])"

declare show_nat.simps [simp del]

definition show_int :: "int \<Rightarrow> string" where
  "show_int i = (if i < 0 then CHR ''-'' # show_nat (nat (- i)) else show_nat (nat i))"

fun show_hex :: "bool \<Rightarrow> nat \<Rightarrow> nat \<Rightarrow> string" where
  "show_hex upper 0 n = []"
| "show_hex upper (Suc w) n = show_hex upper w (n div 16) @ [xdigit_char upper (n mod 16)]"

text \<open>
  Reading digits: the value of the longest digit prefix. \<open>atoi\<close> and \<open>atol\<close> skip white
  space and take an optional sign. Out of range the C standard leaves them undefined; the
  model has the GNU library's result (\<open>strtol\<close> clamps to 64 bits, \<open>atoi\<close> keeps the low 32).
\<close>

fun dec_val :: "nat \<Rightarrow> string \<Rightarrow> nat" where
  "dec_val acc [] = acc"
| "dec_val acc (c # cs) = (if isdigit c then dec_val (acc * 10 + digit_val c) cs else acc)"

fun hex_val :: "nat \<Rightarrow> string \<Rightarrow> nat" where
  "hex_val acc [] = acc"
| "hex_val acc (c # cs) = (if isxdigit c then hex_val (acc * 16 + xdigit_val c) cs else acc)"

definition strtol10 :: "string \<Rightarrow> int" where
  "strtol10 s = (case dropWhile isspace s of
       [] \<Rightarrow> 0
     | c # cs \<Rightarrow> if c = CHR ''-'' then - int (dec_val 0 cs)
                else if c = CHR ''+'' then int (dec_val 0 cs)
                else int (dec_val 0 (c # cs)))"

definition clamp64 :: "int \<Rightarrow> int" where
  "clamp64 i = max (- (2 ^ 63)) (min (2 ^ 63 - 1) i)"

definition atol :: "string \<Rightarrow> int" where
  "atol s = clamp64 (strtol10 s)"

definition atoi :: "string \<Rightarrow> int" where
  "atoi s = signed_take_bit 31 (atol s)"

text \<open>
  \<open>strtoul(s, NULL, 16)\<close>: white space, an optional sign, an optional \<open>0x\<close> followed by a hex
  digit, then the digits; clamped to 64 bits.
\<close>

definition strtoul16_digits :: "string \<Rightarrow> nat" where
  "strtoul16_digits s = (case s of
       z # x # h # cs \<Rightarrow> if z = CHR ''0'' \<and> tolower x = CHR ''x'' \<and> isxdigit h then hex_val 0 (h # cs)
                       else hex_val 0 s
     | _ \<Rightarrow> hex_val 0 s)"

definition strtoul16 :: "string \<Rightarrow> 64 word" where
  "strtoul16 s = (let clampu = (\<lambda>n. min n (2 ^ 64 - 1)) in case dropWhile isspace s of
       [] \<Rightarrow> 0
     | c # cs \<Rightarrow> if c = CHR ''-'' then - word_of_nat (clampu (strtoul16_digits cs))
                else if c = CHR ''+'' then word_of_nat (clampu (strtoul16_digits cs))
                else word_of_nat (clampu (strtoul16_digits (c # cs))))"

subsection \<open>Reading back what was printed\<close>

lemma of_char_of_nat [simp]: "n < 256 \<Longrightarrow> (of_char (char_of n) :: nat) = n"
  by simp

lemma digit_char_props [simp]:
  assumes "d < 10"
  shows "isdigit (digit_char d)" "digit_val (digit_char d) = d" "digit_char d \<noteq> NUL"
    "\<not> isspace (digit_char d)" "digit_char d \<noteq> CHR ''-''" "digit_char d \<noteq> CHR ''+''"
proof -
  have v: "(of_char (digit_char d) :: nat) = 48 + d"
    using assms by (simp add: digit_char_def)
  show "isdigit (digit_char d)" "digit_val (digit_char d) = d" "\<not> isspace (digit_char d)"
    using v assms by (auto simp: isdigit_def digit_val_def isspace_def)
  show "digit_char d \<noteq> NUL" "digit_char d \<noteq> CHR ''-''" "digit_char d \<noteq> CHR ''+''"
    using v assms by auto
qed

lemma show_nat_digits: "\<forall>c \<in> set (show_nat n). isdigit c"
  by (induction n rule: show_nat.induct) (subst show_nat.simps, auto)

lemma show_nat_nonempty [simp]: "show_nat n \<noteq> []"
  by (subst show_nat.simps) simp

lemma show_nat_cstring [simp]: "cstring (show_nat n)"
  using show_nat_digits [of n] by (auto simp: cstring_def isdigit_def)

lemma dec_val_snoc:
  "\<forall>c \<in> set s. isdigit c \<Longrightarrow> isdigit d \<Longrightarrow> dec_val acc (s @ [d]) = dec_val acc s * 10 + digit_val d"
  by (induction acc s rule: dec_val.induct) auto

lemma dec_val_show_nat [simp]: "dec_val 0 (show_nat n) = n"
proof (induction n rule: show_nat.induct)
  case (1 n)
  show ?case
  proof (cases "n < 10")
    case True
    then show ?thesis by (subst show_nat.simps) simp
  next
    case False
    then have "dec_val 0 (show_nat n) = dec_val 0 (show_nat (n div 10)) * 10 + n mod 10"
      by (subst show_nat.simps) (simp add: dec_val_snoc show_nat_digits)
    with 1 False show ?thesis by simp
  qed
qed

lemma dec_val_append_stop:
  "\<forall>c \<in> set s. isdigit c \<Longrightarrow> t = [] \<or> \<not> isdigit (hd t) \<Longrightarrow> dec_val acc (s @ t) = dec_val acc s"
  by (induction acc s rule: dec_val.induct) (cases t; auto)+

lemma strtol10_show_int [simp]: "strtol10 (show_int i) = i"
proof (cases "i < 0")
  case True
  then show ?thesis by (simp add: strtol10_def show_int_def isspace_def)
next
  case False
  obtain c cs where c: "show_nat (nat i) = c # cs"
    using show_nat_nonempty by (cases "show_nat (nat i)") blast+
  with show_nat_digits [of "nat i"] have "isdigit c" by simp
  then have "\<not> isspace c" "c \<noteq> CHR ''-''" "c \<noteq> CHR ''+''"
    by (auto simp: isdigit_def isspace_def)
  with c False dec_val_show_nat [of "nat i"] show ?thesis
    by (simp add: strtol10_def show_int_def)
qed

lemma clamp64_id: "- (2 ^ 63) \<le> i \<Longrightarrow> i < 2 ^ 63 \<Longrightarrow> clamp64 i = i"
  by (simp add: clamp64_def)

lemma atol_show_int: "- (2 ^ 63) \<le> i \<Longrightarrow> i < 2 ^ 63 \<Longrightarrow> atol (show_int i) = i"
  by (simp add: atol_def clamp64_def)

lemma atoi_show_int: "- (2 ^ 31) \<le> i \<Longrightarrow> i < 2 ^ 31 \<Longrightarrow> atoi (show_int i) = i"
  by (simp add: atoi_def atol_show_int signed_take_bit_int_eq_self)

lemma show_int_nonneg: "show_int (int n) = show_nat n"
  by (simp add: show_int_def)

subsection \<open>Hexadecimal digits\<close>

lemma xdigit_char_props [simp]:
  assumes "d < 16"
  shows "isxdigit (xdigit_char u d)" "xdigit_val (xdigit_char u d) = d"
  using assms by (auto simp: xdigit_char_def isxdigit_def isdigit_def xdigit_val_def)

lemma xdigit_char_val: "isxdigit c \<Longrightarrow> xdigit_char False (xdigit_val c) = tolower c"
  by (auto simp: xdigit_char_def isxdigit_def isdigit_def xdigit_val_def tolower_def
      simp flip: add_diff_assoc2 split: if_splits)

lemma xdigit_val_less: "isxdigit c \<Longrightarrow> xdigit_val c < 16"
  by (auto simp: isxdigit_def isdigit_def xdigit_val_def)

lemma show_hex_xdigits: "\<forall>c \<in> set (show_hex u w n). isxdigit c"
  by (induction w arbitrary: n) auto

lemma length_show_hex [simp]: "length (show_hex u w n) = w"
  by (induction w arbitrary: n) auto

lemma hex_val_append:
  "\<forall>c \<in> set s. isxdigit c \<Longrightarrow> hex_val acc (s @ t) = hex_val (hex_val acc s) t"
  by (induction s arbitrary: acc) auto

lemma hex_val_append_stop:
  "\<forall>c \<in> set s. isxdigit c \<Longrightarrow> t = [] \<or> hd t = CHR ''-'' \<Longrightarrow> hex_val acc (s @ t) = hex_val acc s"
  by (cases t) (auto simp: hex_val_append isxdigit_def isdigit_def)

lemma hex_val_bound: "\<forall>c \<in> set s. isxdigit c \<Longrightarrow> hex_val 0 s < 16 ^ length s"
proof (induction s rule: rev_induct)
  case (snoc c s)
  then have "hex_val 0 s < 16 ^ length s" "xdigit_val c < 16" "isxdigit c"
    by (auto simp: xdigit_val_less)
  with snoc show ?case by (simp add: hex_val_append)
qed simp

lemma hex_val_show_hex: "hex_val 0 (show_hex u w n) = n mod 16 ^ w"
proof (induction w arbitrary: n)
  case (Suc w)
  have "n mod (16 * 16 ^ w) = n div 16 mod 16 ^ w * 16 + n mod 16"
    using mod_mult2_eq [of n 16 "16 ^ w"] by simp
  with Suc show ?case by (simp add: hex_val_append show_hex_xdigits)
qed simp

lemma show_hex_hex_val:
  "\<forall>c \<in> set s. isxdigit c \<Longrightarrow> show_hex False (length s) (hex_val 0 s) = map tolower s"
  by (induction s rule: rev_induct) (auto simp: hex_val_append xdigit_val_less xdigit_char_val)

subsection \<open>Evaluating the conversions\<close>

lemma digit_char_values [simp]:
  "digit_char 0 = CHR ''0''" "digit_char (Suc 0) = CHR ''1''" "digit_char 1 = CHR ''1''"
  "digit_char 2 = CHR ''2''" "digit_char 3 = CHR ''3''" "digit_char 4 = CHR ''4''"
  "digit_char 5 = CHR ''5''" "digit_char 6 = CHR ''6''" "digit_char 7 = CHR ''7''"
  "digit_char 8 = CHR ''8''" "digit_char 9 = CHR ''9''"
  by (simp_all add: digit_char_def char_of_def bit_0)

lemma show_nat_small: "n < 10 \<Longrightarrow> show_nat n = [digit_char n]"
  by (subst show_nat.simps) simp

lemma show_nat_big: "10 \<le> n \<Longrightarrow> show_nat n = show_nat (n div 10) @ [digit_char (n mod 10)]"
  by (subst show_nat.simps) simp

lemma show_nat_length: "n < 10 ^ k \<Longrightarrow> 0 < k \<Longrightarrow> length (show_nat n) \<le> k"
proof (induction k arbitrary: n)
  case (Suc k)
  show ?case
  proof (cases "n < 10")
    case True
    then show ?thesis by (simp add: show_nat_small)
  next
    case False
    then have "0 < k" using Suc.prems by (cases k) auto
    moreover have "n div 10 < 10 ^ k" using Suc.prems by (simp add: less_mult_imp_div_less mult.commute)
    ultimately have "length (show_nat (n div 10)) \<le> k" using Suc.IH by blast
    with False show ?thesis by (simp add: show_nat_big)
  qed
qed simp

end
