(* ===== verification/Interfaces.thy ===== *)
theory Interfaces
  imports TinyRet
begin

section \<open>The interfaces between the components\<close>

text \<open>
  Each locale is one contract that several operations share or that one component relies on
  in another: a first-in first-out queue (\<open>TinyQueue\<close>, used by the blocking queue and the
  worker), and a store of values under string keys that refuses a second value for a key
  (\<open>TinyMap\<close>, \<open>PropertyList\<close>), with erasure where the provider has it. The clients' lemmas
  are proved here once; the providers' theories interpret the locales on the model of the
  code.
\<close>

subsection \<open>Queues\<close>

locale fifo =
  fixes enq :: "'d \<Rightarrow> 'q \<Rightarrow> 'q"
    and deq :: "'q \<Rightarrow> 'q"
    and front :: "'q \<Rightarrow> 'd option"
    and view :: "'q \<Rightarrow> 'd list"
    and inv :: "'q \<Rightarrow> bool"
  assumes view_enq: "inv q \<Longrightarrow> view (enq d q) = view q @ [d]"
    and view_deq: "inv q \<Longrightarrow> view (deq q) = tl (view q)"
    and front_view: "inv q \<Longrightarrow> front q = (case view q of [] \<Rightarrow> None | d # _ \<Rightarrow> Some d)"
    and inv_enq: "inv q \<Longrightarrow> inv (enq d q)"
    and inv_deq: "inv q \<Longrightarrow> inv (deq q)"
begin

lemma inv_fold_enq: "inv q \<Longrightarrow> inv (fold enq ds q)"
  by (induction ds arbitrary: q) (auto intro: inv_enq)

lemma view_fold_enq: "inv q \<Longrightarrow> view (fold enq ds q) = view q @ ds"
  by (induction ds arbitrary: q) (auto simp: view_enq inv_enq)

lemma inv_deq_n: "inv q \<Longrightarrow> inv ((deq ^^ n) q)"
  by (induction n) (auto intro: inv_deq)

lemma view_deq_n: "inv q \<Longrightarrow> view ((deq ^^ n) q) = drop n (view q)"
  by (induction n) (auto simp: view_deq inv_deq_n drop_Suc tl_drop)

lemma front_nth: "inv q \<Longrightarrow> n < length (view q) \<Longrightarrow> front ((deq ^^ n) q) = Some (view q ! n)"
  by (simp add: front_view inv_deq_n view_deq_n Cons_nth_drop_Suc [symmetric])

lemma front_None_iff: "inv q \<Longrightarrow> front q = None \<longleftrightarrow> view q = []"
  by (simp add: front_view split: list.splits)

end

subsection \<open>Stores under string keys\<close>

text \<open>
  \<open>ok\<close> are the keys the provider can hold, \<open>room m n\<close> says that there is
  space for n more (always, or as far as a counter reaches), \<open>norm\<close> is what it keeps of a key (two keys with
  the same normal form are the same key to it) and \<open>stored\<close> what it keeps of a value.
  \<open>add\<close> is the provider's insertion with memory available.
\<close>

locale keyed_add =
  fixes add :: "string \<Rightarrow> 'v \<Rightarrow> 'm \<Rightarrow> tiny_ret \<times> 'm"
    and lookup :: "'m \<Rightarrow> string \<Rightarrow> 'w option"
    and norm :: "string \<Rightarrow> string"
    and stored :: "'v \<Rightarrow> 'w"
    and ok :: "string \<Rightarrow> bool"
    and room :: "'m \<Rightarrow> nat \<Rightarrow> bool"
    and inv :: "'m \<Rightarrow> bool"
  assumes add_new: "inv m \<Longrightarrow> ok k \<Longrightarrow> room m 1 \<Longrightarrow> lookup m k = None \<Longrightarrow> fst (add k v m) = TINY_RET_OK"
    and add_dup: "inv m \<Longrightarrow> ok k \<Longrightarrow> lookup m k = Some w \<Longrightarrow> add k v m = (TINY_RET_E_ITEM_EXIST, m)"
    and lookup_add: "inv m \<Longrightarrow> ok k \<Longrightarrow> room m 1 \<Longrightarrow> lookup m k = None \<Longrightarrow>
      lookup (snd (add k v m)) k' = (if norm k' = norm k then Some (stored v) else lookup m k')"
    and lookup_norm: "inv m \<Longrightarrow> norm k = norm k' \<Longrightarrow> lookup m k = lookup m k'"
    and inv_add: "inv m \<Longrightarrow> ok k \<Longrightarrow> room m 1 \<Longrightarrow> inv (snd (add k v m))"
    and room_add: "inv m \<Longrightarrow> ok k \<Longrightarrow> room m (Suc n) \<Longrightarrow> room (snd (add k v m)) n"
    and room_mono: "room m n \<Longrightarrow> i \<le> n \<Longrightarrow> room m i"
begin

text \<open>Adding keeps every binding there was, and the key is bound afterwards.\<close>

lemma lookup_add_mono:
  "inv m \<Longrightarrow> ok k \<Longrightarrow> room m 1 \<Longrightarrow> lookup m k' = Some w \<Longrightarrow> lookup (snd (add k v m)) k' = Some w"
proof (cases "lookup m k")
  case None
  assume m: "inv m" and k: "ok k" "room m 1" and k': "lookup m k' = Some w"
  with None have "norm k' \<noteq> norm k" using lookup_norm [OF m, of k' k] by auto
  with lookup_add [OF m k None] k' show ?thesis by simp
qed (simp add: add_dup)

lemma lookup_added:
  "inv m \<Longrightarrow> ok k \<Longrightarrow> room m 1 \<Longrightarrow>
     lookup (snd (add k v m)) k = (case lookup m k of None \<Rightarrow> Some (stored v) | Some w \<Rightarrow> Some w)"
  by (simp add: lookup_add add_dup split: option.splits)

definition add_all :: "(string \<times> 'v) list \<Rightarrow> 'm \<Rightarrow> 'm" where
  "add_all kvs m = fold (\<lambda>(k, v) m. snd (add k v m)) kvs m"

lemma add_all_simps [simp]: "add_all [] m = m" "add_all ((k, v) # kvs) m = add_all kvs (snd (add k v m))"
  by (simp_all add: add_all_def)

text \<open>After adding a list of pairs, the first pair whose key has the same normal form wins.\<close>

lemma add_all_inv_lookup:
  assumes "inv m" and "list_all (\<lambda>kv. ok (fst kv)) kvs" and "room m (length kvs)"
  shows "inv (add_all kvs m) \<and> lookup (add_all kvs m) k =
      (case lookup m k of Some w \<Rightarrow> Some w
       | None \<Rightarrow> map_of (map (\<lambda>(k, v). (norm k, stored v)) kvs) (norm k))"
  using assms
proof (induction kvs arbitrary: m)
  case Nil
  then show ?case by (simp split: option.splits)
next
  case (Cons kv kvs)
  obtain k1 v1 where kv: "kv = (k1, v1)" by (cases kv)
  have ok: "ok k1" "list_all (\<lambda>kv. ok (fst kv)) kvs" using Cons.prems kv by simp_all
  have room: "room m 1" "room (snd (add k1 v1 m)) (length kvs)"
    using room_add [OF Cons.prems(1) ok(1), of "length kvs" v1] room_mono [OF Cons.prems(3), of 1]
      Cons.prems(3) by simp_all
  note IH = Cons.IH [OF inv_add [OF Cons.prems(1) ok(1) room(1), of v1] ok(2) room(2)]
  show ?case
  proof (cases "lookup m k1")
    case None
    then have "norm k = norm k1 \<Longrightarrow> lookup m k = None"
      using lookup_norm [OF Cons.prems(1), of k k1] by simp
    with None IH show ?thesis
      by (auto simp: kv lookup_add [OF Cons.prems(1) ok(1) room(1) None] split: option.splits)
  next
    case (Some w)
    then have "norm k = norm k1 \<Longrightarrow> lookup m k = Some w"
      using lookup_norm [OF Cons.prems(1), of k k1] by simp
    with Some IH show ?thesis
      by (auto simp: kv add_dup [OF Cons.prems(1) ok(1) Some] split: option.splits)
  qed
qed

lemma lookup_add_all:
  "inv m \<Longrightarrow> (\<And>k. lookup m k = None) \<Longrightarrow> list_all (\<lambda>kv. ok (fst kv)) kvs \<Longrightarrow> room m (length kvs) \<Longrightarrow>
     lookup (add_all kvs m) k = map_of (map (\<lambda>(k, v). (norm k, stored v)) kvs) (norm k)"
  by (simp add: add_all_inv_lookup)

end

text \<open>Stores that can also forget a key.\<close>

locale keyed_store = keyed_add add lookup norm stored ok room inv
  for add :: "string \<Rightarrow> 'v \<Rightarrow> 'm \<Rightarrow> tiny_ret \<times> 'm"
    and lookup :: "'m \<Rightarrow> string \<Rightarrow> 'w option"
    and norm :: "string \<Rightarrow> string"
    and stored :: "'v \<Rightarrow> 'w"
    and ok :: "string \<Rightarrow> bool"
    and room :: "'m \<Rightarrow> nat \<Rightarrow> bool"
    and inv :: "'m \<Rightarrow> bool" +
  fixes erase :: "string \<Rightarrow> 'm \<Rightarrow> tiny_ret \<times> 'm"
  assumes erase_missing: "inv m \<Longrightarrow> lookup m k = None \<Longrightarrow> erase k m = (TINY_RET_E_NOT_FOUND, m)"
    and erase_ok: "inv m \<Longrightarrow> lookup m k = Some w \<Longrightarrow> fst (erase k m) = TINY_RET_OK"
    and lookup_erase: "inv m \<Longrightarrow>
      lookup (snd (erase k m)) k' = (if norm k' = norm k then None else lookup m k')"
    and inv_erase: "inv m \<Longrightarrow> inv (snd (erase k m))"
    and room_erase: "inv m \<Longrightarrow> room m n \<Longrightarrow> room (snd (erase k m)) n"
begin

lemma lookup_erased: "inv m \<Longrightarrow> lookup (snd (erase k m)) k = None"
  by (simp add: lookup_erase)

text \<open>A key that was refused because it was bound can be added after it is erased.\<close>

lemma add_after_erase:
  assumes m: "inv m" and k: "ok k" and r: "room m 1"
  shows "fst (add k v (snd (erase k m))) = TINY_RET_OK \<and>
     lookup (snd (add k v (snd (erase k m)))) k = Some (stored v)"
proof -
  have e: "inv (snd (erase k m))" "lookup (snd (erase k m)) k = None"
    using inv_erase [OF m] lookup_erased [OF m] by simp_all
  have r': "room (snd (erase k m)) 1" using r room_erase [OF m] by simp
  show ?thesis using add_new [OF e(1) k r' e(2)] lookup_added [OF e(1) k r'] e(2) by simp
qed

text \<open>Erasing what was just added gives back the old bindings.\<close>

lemma erase_add:
  "inv m \<Longrightarrow> ok k \<Longrightarrow> room m 1 \<Longrightarrow> lookup m k = None \<Longrightarrow>
     lookup (snd (erase k (snd (add k v m)))) = lookup m"
proof
  fix k'
  assume m: "inv m" and ok: "ok k" "room m 1" and k: "lookup m k = None"
  show "lookup (snd (erase k (snd (add k v m)))) k' = lookup m k'"
    using lookup_norm [OF m, of k' k] k
    by (auto simp: lookup_erase [OF inv_add [OF m ok]] lookup_add [OF m ok k])
qed

end

subsection \<open>Objects with operations\<close>

text \<open>
  An object whose operations answer a result and a new state, or are undefined (\<open>None\<close>). The
  client's obligations on an operation are its \<open>pre\<close>. \<open>run_ops\<close> performs a list of operations,
  \<open>allowed\<close> says that each meets its obligation in the state it is performed in.
\<close>

fun run_ops :: "('op \<Rightarrow> 's \<Rightarrow> ('r \<times> 's) option) \<Rightarrow> 'op list \<Rightarrow> 's \<Rightarrow> ('r list \<times> 's) option" where
  "run_ops step [] s = Some ([], s)"
| "run_ops step (op # ops) s = (case step op s of
     None \<Rightarrow> None
   | Some (r, s') \<Rightarrow> map_option (\<lambda>(rs, t). (r # rs, t)) (run_ops step ops s'))"

fun allowed :: "('op \<Rightarrow> 's \<Rightarrow> ('r \<times> 's) option) \<Rightarrow> ('op \<Rightarrow> 's \<Rightarrow> bool) \<Rightarrow> 'op list \<Rightarrow> 's \<Rightarrow> bool" where
  "allowed step pre [] s \<longleftrightarrow> True"
| "allowed step pre (op # ops) s \<longleftrightarrow> pre op s \<and> (case step op s of
     None \<Rightarrow> True | Some (_, s') \<Rightarrow> allowed step pre ops s')"

locale object =
  fixes step :: "'op \<Rightarrow> 's \<Rightarrow> ('r \<times> 's) option"
    and pre :: "'op \<Rightarrow> 's \<Rightarrow> bool"
    and inv :: "'s \<Rightarrow> bool"
  assumes step_inv: "inv s \<Longrightarrow> pre op s \<Longrightarrow> \<exists>r s'. step op s = Some (r, s') \<and> inv s'"
begin

text \<open>Allowed operations never become undefined and keep the invariant.\<close>

lemma run_inv: "inv s \<Longrightarrow> allowed step pre ops s \<Longrightarrow>
    \<exists>rs s'. run_ops step ops s = Some (rs, s') \<and> length rs = length ops \<and> inv s'"
proof (induction ops arbitrary: s)
  case (Cons op ops)
  then obtain r s' where "step op s = Some (r, s')" "inv s'" using step_inv [of s op] by auto
  with Cons show ?case by fastforce
qed simp

lemma allowed_append: "run_ops step ops s = Some (rs, s') \<Longrightarrow>
    allowed step pre (ops @ ops') s \<longleftrightarrow> allowed step pre ops s \<and> allowed step pre ops' s'"
  by (induction ops arbitrary: s rs) (auto split: option.splits prod.splits)

end

end
