(* ===== verification/Containers.thy ===== *)
theory Containers
  imports TinyListSpec CString Interfaces
begin

section \<open>Queue and map: \<open>Tiny/Container/TinyQueue.c\<close> and \<open>TinyMap.c\<close>\<close>

text \<open>
  Both are thin layers over \<open>TinyList\<close>; the list operations they call are the contracts of
  \<open>TinyListSpec\<close>. A map item is the pair of its key field, \<open>char key[256]\<close> filled by
  \<open>strncpy\<close>, and its value. The map's delete listener is called from the list's; \<open>mlog\<close>
  records the values it was called with.
\<close>

subsection \<open>Construction of a list\<close>

definition L_new :: "'a lspec" where
  "L_new = \<lparr>items = [], count = 0, log = [], has_listener = False\<rparr>"

definition L_SetDeleteListener :: "bool \<Rightarrow> 'a lspec \<Rightarrow> 'a lspec" where
  "L_SetDeleteListener l s = (if l then s\<lparr>has_listener := True\<rparr> else s)"

definition L_GetCount :: "'a lspec \<Rightarrow> int" where
  "L_GetCount s = sint (count s)"

lemma TinyList_Construct_refines:
  "snd (TinyList_Construct t) = t' \<Longrightarrow> tl_refines t' (L_new\<lparr>log := deleted t\<rparr>)"
  by (auto simp: TinyList_Construct_def L_new_def intro!: tl_refinesI [where ns = "[]" and lst = None])

subsection \<open>TinyQueue\<close>

type_synonym 'a tqueue = "'a lspec"

definition TinyQueue_Construct :: "tiny_ret \<times> 'a tqueue" where
  "TinyQueue_Construct = (TINY_RET_OK, L_new)"

definition TinyQueue_Dispose :: "'a tqueue \<Rightarrow> tiny_ret \<times> 'a tqueue" where
  "TinyQueue_Dispose q = (TINY_RET_OK, snd (L_RemoveAll q))"

definition TinyQueue_SetDeleteListener :: "'a tqueue \<Rightarrow> bool \<Rightarrow> 'a tqueue" where
  "TinyQueue_SetDeleteListener q l = L_SetDeleteListener l q"

definition TinyQueue_Head :: "'a tqueue \<Rightarrow> 'a option" where
  "TinyQueue_Head q = L_GetHead q"

definition TinyQueue_Push :: "bool \<Rightarrow> 'a tqueue \<Rightarrow> 'a option \<Rightarrow> 'a tqueue" where
  "TinyQueue_Push ok q d = snd (L_AddTail ok d q)"

definition TinyQueue_Pop :: "'a tqueue \<Rightarrow> 'a tqueue" where
  "TinyQueue_Pop q = snd (L_RemoveHead q)"

definition TinyQueue_GetSize :: "'a tqueue \<Rightarrow> 32 word" where
  "TinyQueue_GetSize q = word_of_int (L_GetCount q)"

definition queue_inv :: "'a tqueue \<Rightarrow> bool" where
  "queue_inv q \<longleftrightarrow> None \<notin> set (items q) \<and> count_ok q"

definition queue_view :: "'a tqueue \<Rightarrow> 'a list" where
  "queue_view q = map the (items q)"

lemma queue_inv_new: "queue_inv L_new"
  by (simp add: queue_inv_def L_new_def count_ok_def)

lemma queue_inv_Pop: "queue_inv q \<Longrightarrow> queue_inv (TinyQueue_Pop q)"
  by (cases "items q") (auto simp: queue_inv_def TinyQueue_Pop_def L_RemoveHead_def count_ok_def)

interpretation tq: fifo "\<lambda>d q. TinyQueue_Push True q (Some d)" TinyQueue_Pop TinyQueue_Head
  queue_view queue_inv
proof unfold_locales
  fix q :: "'a tqueue" and d :: 'a
  assume q: "queue_inv q"
  show "queue_view (TinyQueue_Push True q (Some d)) = queue_view q @ [d]"
    by (simp add: queue_view_def TinyQueue_Push_def L_AddTail_def)
  show "queue_view (TinyQueue_Pop q) = tl (queue_view q)"
    by (simp add: queue_view_def TinyQueue_Pop_def L_RemoveHead_def split: list.splits)
  show "TinyQueue_Head q = (case queue_view q of [] \<Rightarrow> None | d # _ \<Rightarrow> Some d)"
    using q by (cases "items q") (auto simp: queue_view_def TinyQueue_Head_def L_GetHead_def queue_inv_def)
  show "queue_inv (TinyQueue_Push True q (Some d))"
    using q by (auto simp: queue_inv_def TinyQueue_Push_def L_AddTail_def count_ok_def)
  show "queue_inv (TinyQueue_Pop q)" using q by (rule queue_inv_Pop)
qed

text \<open>
  \<open>TinyQueue\<close> is first-in first-out: after pushing non-NULL jobs \<open>ds\<close> (memory
  available) onto a queue holding \<open>ys\<close>, popping n elements leaves \<open>ys @ ds\<close> without its
  first n, and the head is then the n-th of \<open>ys @ ds\<close>, NULL exactly when there is none.
\<close>

theorem queue_fifo:
  assumes "queue_inv q"
  shows "let q' = (TinyQueue_Pop ^^ n) (fold (\<lambda>d q. TinyQueue_Push True q (Some d)) ds q)
    in queue_view q' = drop n (queue_view q @ ds) \<and>
       TinyQueue_Head q' = (if n < length (queue_view q @ ds) then Some ((queue_view q @ ds) ! n) else None)"
proof -
  note i = tq.inv_fold_enq [OF assms, of ds]
  define q' where "q' = (TinyQueue_Pop ^^ n) (fold (\<lambda>d q. TinyQueue_Push True q (Some d)) ds q)"
  have v: "queue_view q' = drop n (queue_view q @ ds)"
    unfolding q'_def by (simp add: tq.view_deq_n [OF i] tq.view_fold_enq [OF assms])
  have "TinyQueue_Head q' = (if n < length (queue_view q @ ds) then Some ((queue_view q @ ds) ! n) else None)"
    using tq.front_nth [OF i, of n] tq.front_None_iff [OF tq.inv_deq_n [OF i, of n]] v
    unfolding q'_def by (auto simp: tq.view_fold_enq [OF assms])
  with v show ?thesis by (simp add: q'_def [symmetric])
qed

theorem queue_fifo_witness:
  "let q' = (TinyQueue_Pop ^^ 1) (fold (\<lambda>d q. TinyQueue_Push True q (Some d)) [7, 8 :: nat] L_new)
    in queue_view q' = drop 1 (queue_view L_new @ [7, 8]) \<and>
       TinyQueue_Head q' = (if 1 < length (queue_view L_new @ [7, 8 :: nat])
         then Some ((queue_view L_new @ [7, 8]) ! 1) else None)"
  by (rule queue_fifo [OF queue_inv_new])

subsection \<open>TinyMap\<close>

type_synonym 'v mitem = "string \<times> 'v"

record 'v tmap =
  mlist :: "'v mitem lspec"
  mlistener :: bool
  mlog :: "'v list"

definition MAX_KEY_LEN :: nat where "MAX_KEY_LEN = 256"

definition TinyMap_Construct :: "tiny_ret \<times> 'v tmap" where
  "TinyMap_Construct =
     (TINY_RET_OK, \<lparr>mlist = L_SetDeleteListener True L_new, mlistener = False, mlog = []\<rparr>)"

text \<open>
  \<open>on_item_delete_listener\<close>, run for each item a list operation released: the items the
  list's log gained, in order.
\<close>

definition on_item_delete :: "'v tmap \<Rightarrow> 'v mitem lspec \<Rightarrow> 'v tmap" where
  "on_item_delete m l = m\<lparr>mlist := l,
     mlog := mlog m @ (if mlistener m
       then map snd (List.map_filter id (drop (length (log (mlist m))) (log l))) else [])\<rparr>"

definition TinyMap_Clear :: "'v tmap \<Rightarrow> 'v tmap" where
  "TinyMap_Clear m = on_item_delete m (snd (L_RemoveAll (mlist m)))"

definition TinyMap_Dispose :: "'v tmap \<Rightarrow> tiny_ret \<times> 'v tmap" where
  "TinyMap_Dispose m = (TINY_RET_OK, on_item_delete m (snd (L_RemoveAll (mlist m))))"

definition TinyMap_SetDeleteListener :: "'v tmap \<Rightarrow> bool \<Rightarrow> 'v tmap" where
  "TinyMap_SetDeleteListener m l = (if l then m\<lparr>mlistener := True\<rparr> else m)"

definition TinyMap_Foreach :: "'v tmap \<Rightarrow> ('v mitem option \<Rightarrow> 's \<Rightarrow> bool \<times> 's) \<Rightarrow> 's \<Rightarrow> int \<times> 's" where
  "TinyMap_Foreach m visit s = L_Foreach (mlist m) visit s"

definition TinyMap_GetSize :: "'v tmap \<Rightarrow> 32 word" where
  "TinyMap_GetSize m = word_of_int (L_GetCount (mlist m))"

definition TinyMap_GetCount :: "'v tmap \<Rightarrow> 32 word" where
  "TinyMap_GetCount m = TinyMap_GetSize m"

text \<open>The \<open>uint32_t\<close> index is passed on as an \<open>int\<close>.\<close>

definition TinyMap_GetValueAt :: "'v tmap \<Rightarrow> 32 word \<Rightarrow> 'v option" where
  "TinyMap_GetValueAt m index = map_option snd (L_GetAt (mlist m) (sint index))"

text \<open>
  \<open>item_compare\<close> stops the walk (returns false) at an item with the wanted key. The map
  never stores a NULL item (\<open>map_inv\<close> below), so the first case is never taken.
\<close>

definition item_compare :: "string \<Rightarrow> 'v mitem option \<Rightarrow> unit \<Rightarrow> bool \<times> unit" where
  "item_compare key d s = (case d of
       None \<Rightarrow> (True, s)
     | Some item \<Rightarrow> (\<not> strncmp_eq (fst item) key MAX_KEY_LEN, s))"

definition TinyList_FindKey :: "'v mitem lspec \<Rightarrow> string \<Rightarrow> int" where
  "TinyList_FindKey l key = fst (L_Foreach l (item_compare key) ())"

definition TinyMap_GetValue :: "'v tmap \<Rightarrow> string option \<Rightarrow> 'v option" where
  "TinyMap_GetValue m key = (case key of
       None \<Rightarrow> None
     | Some k \<Rightarrow> (let index = fst (L_Foreach (mlist m) (item_compare k) ())
         in if 0 \<le> index then map_option snd (L_GetAt (mlist m) index) else None))"

text \<open>
  The first allocation is the item, the second the list node; the result of
  \<open>TinyList_AddTail\<close> is not looked at.
\<close>

definition TinyMap_Insert ::
    "mallocs \<Rightarrow> 'v tmap \<Rightarrow> string option \<Rightarrow> 'v option \<Rightarrow> tiny_ret \<times> 'v tmap" where
  "TinyMap_Insert oks m key value = (case (key, value) of
       (Some k, Some v) \<Rightarrow>
         (if TinyList_FindKey (mlist m) k < 0 then
            (case malloc_next oks of
               (False, _) \<Rightarrow> (TINY_RET_E_NEW, m)
             | (True, oks') \<Rightarrow> (TINY_RET_OK, m\<lparr>mlist := snd (L_AddTail (fst (malloc_next oks'))
                   (Some (field_cpy MAX_KEY_LEN k, v)) (mlist m))\<rparr>))
          else (TINY_RET_E_ITEM_EXIST, m))
     | _ \<Rightarrow> (TINY_RET_E_ARG_NULL, m))"

definition TinyMap_Erase :: "'v tmap \<Rightarrow> string option \<Rightarrow> tiny_ret \<times> 'v tmap" where
  "TinyMap_Erase m key = (case key of
       None \<Rightarrow> (TINY_RET_E_ARG_NULL, m)
     | Some k \<Rightarrow> (let index = TinyList_FindKey (mlist m) k
         in if index < 0 then (TINY_RET_E_NOT_FOUND, m)
            else (TINY_RET_OK, on_item_delete m (snd (L_RemoveAt index (mlist m))))))"


subsection \<open>The map as a store under string keys\<close>

definition map_inv :: "'v tmap \<Rightarrow> bool" where
  "map_inv m \<longleftrightarrow> None \<notin> set (items (mlist m)) \<and> count_ok (mlist m)
     \<and> distinct (map (fst \<circ> the) (items (mlist m)))
     \<and> (\<forall>i \<in> set (items (mlist m)). length (fst (the i)) \<le> MAX_KEY_LEN)"

definition map_entries :: "'v tmap \<Rightarrow> 'v mitem list" where
  "map_entries m = map the (items (mlist m))"

text \<open>Where the walk of \<open>item_compare\<close> stops.\<close>

fun key_index :: "string \<Rightarrow> 'v mitem list \<Rightarrow> int" where
  "key_index k [] = -1"
| "key_index k (e # es) = (if fst e = field_cpy MAX_KEY_LEN k then 0
     else let i = key_index k es in if i < 0 then -1 else i + 1)"

lemma key_index_ge: "-1 \<le> key_index k es"
  by (induction es) (auto simp: Let_def)

lemma key_index_less: "key_index k es < int (length es)"
  by (induction es) (auto simp: Let_def)

lemma foreach_item_compare:
  assumes "None \<notin> set xs" and "\<forall>i \<in> set xs. length (fst (the i)) \<le> MAX_KEY_LEN"
  shows "fst (foreach_list i (item_compare k) () xs) =
    (if key_index k (map the xs) < 0 then -1 else i + key_index k (map the xs))"
  using assms
proof (induction xs arbitrary: i)
  case Nil
  then show ?case by simp
next
  case (Cons x xs)
  then obtain e where x: "x = Some e" by (cases x) auto
  with Cons.prems have "strncmp_eq (fst e) k MAX_KEY_LEN \<longleftrightarrow> fst e = field_cpy MAX_KEY_LEN k"
    by (simp add: strncmp_eq_def field_cpy_def)
  with Cons x key_index_ge [of k "map the xs"] show ?case
    by (auto simp: item_compare_def Let_def)
qed

lemma find_key_index:
  "map_inv m \<Longrightarrow> TinyList_FindKey (mlist m) k = key_index k (map_entries m)"
  using key_index_ge [of k "map_entries m"]
  by (auto simp: TinyList_FindKey_def L_Foreach_def map_inv_def map_entries_def foreach_item_compare)

lemma key_index_map_of:
  "(case nth_int es (key_index k es) of None \<Rightarrow> None | Some e \<Rightarrow> Some (snd e)) =
     map_of es (field_cpy MAX_KEY_LEN k)"
proof (induction es)
  case (Cons e es)
  show ?case
  proof (cases "fst e = field_cpy MAX_KEY_LEN k")
    case False
    have "nth_int es (key_index k es) = None" if "key_index k es < 0"
      using that by (simp add: nth_int_def)
    moreover have "nth_int es (- 2) = None" by (simp add: nth_int_def)
    ultimately show ?thesis using Cons.IH False by (cases e) (auto simp: Let_def)
  qed (cases e, simp)
qed simp

lemma key_index_neg: "key_index k es < 0 \<longleftrightarrow> map_of es (field_cpy MAX_KEY_LEN k) = None"
  by (induction es) (auto simp: Let_def)

lemma map_lookup: "map_inv m \<Longrightarrow>
    TinyMap_GetValue m (Some k) = map_of (map_entries m) (field_cpy MAX_KEY_LEN k)"
proof -
  assume m: "map_inv m"
  have fk: "fst (L_Foreach (mlist m) (item_compare k) ()) = key_index k (map_entries m)"
    using find_key_index [OF m] by (simp add: TinyList_FindKey_def)
  have "None \<notin> set (items (mlist m))" using m by (simp add: map_inv_def)
  then have at: "L_GetAt (mlist m) i = nth_int (map_entries m) i" for i
    by (auto simp: L_GetAt_def map_entries_def nth_int_map nth_int_def split: option.splits)
      (metis nth_mem option.collapse nat_less_iff)
  show ?thesis
  proof (cases "key_index k (map_entries m) < 0")
    case True
    with key_index_neg [of k "map_entries m"] show ?thesis
      by (auto simp: TinyMap_GetValue_def fk Let_def)
  next
    case False
    with key_index_map_of [of "map_entries m" k] show ?thesis
      by (auto simp: TinyMap_GetValue_def fk at split: option.splits)
  qed
qed


lemma map_insert_new:
  assumes "map_inv m" and "TinyMap_GetValue m (Some k) = None"
  shows "TinyMap_Insert [] m (Some k) (Some v) =
    (TINY_RET_OK, m\<lparr>mlist := (mlist m)\<lparr>items := items (mlist m) @ [Some (field_cpy MAX_KEY_LEN k, v)],
                                     count := count (mlist m) + 1\<rparr>\<rparr>)"
  using assms key_index_neg [of k "map_entries m"]
  by (simp add: TinyMap_Insert_def find_key_index map_lookup L_AddTail_def)

lemma map_insert_dup:
  assumes "map_inv m" and "TinyMap_GetValue m (Some k) = Some w"
  shows "TinyMap_Insert oks m (Some k) (Some v) = (TINY_RET_E_ITEM_EXIST, m)"
  using assms key_index_neg [of k "map_entries m"]
  by (auto simp: TinyMap_Insert_def find_key_index map_lookup)

lemma map_entries_insert:
  assumes "map_inv m" and "TinyMap_GetValue m (Some k) = None"
  shows "map_entries (snd (TinyMap_Insert [] m (Some k) (Some v))) =
    map_entries m @ [(field_cpy MAX_KEY_LEN k, v)]"
  by (simp add: map_insert_new [OF assms] map_entries_def)

lemma map_of_None_keys: "map_of es k = None \<longleftrightarrow> k \<notin> set (map fst es)"
  by (induction es) auto

lemma map_inv_insert:
  assumes "map_inv m"
  shows "map_inv (snd (TinyMap_Insert oks m (Some k) (Some v)))"
proof (cases "TinyMap_GetValue m (Some k)")
  case (Some w)
  with assms show ?thesis by (simp add: map_insert_dup)
next
  case None
  then have "field_cpy MAX_KEY_LEN k \<notin> set (map fst (map_entries m))"
    using assms by (simp add: map_lookup map_of_None_keys)
  then have notin: "field_cpy MAX_KEY_LEN k \<notin> (fst \<circ> the) ` set (items (mlist m))"
    by (simp add: map_entries_def image_comp)
  then show ?thesis
    using assms by (auto simp: TinyMap_Insert_def map_inv_def L_AddTail_def count_ok_def
        split: prod.splits bool.splits)
qed

lemma map_of_remove_key:
  "distinct (map fst es) \<Longrightarrow> 0 \<le> key_index k es \<Longrightarrow>
     map_of (remove_int es (key_index k es)) = (map_of es)(field_cpy MAX_KEY_LEN k := None)"
proof (induction es)
  case (Cons e es)
  show ?case
  proof (cases "fst e = field_cpy MAX_KEY_LEN k")
    case True
    with Cons.prems have "map_of es (field_cpy MAX_KEY_LEN k) = None"
      by (auto simp: map_of_None_keys)
    with True show ?thesis by (auto simp: fun_eq_iff)
  next
    case False
    with Cons.prems have ge: "0 \<le> key_index k es" by (auto simp: Let_def split: if_splits)
    with Cons False show ?thesis by (auto simp: Let_def fun_eq_iff)
  qed
qed simp

lemma map_remove_int: "map f (remove_int xs i) = remove_int (map f xs) i"
  by (simp add: remove_int_def take_map drop_map)

lemma set_remove_int: "set (remove_int xs i) \<subseteq> set xs"
  by (auto simp: remove_int_def dest: in_set_takeD in_set_dropD)

lemma distinct_remove_int: "distinct xs \<Longrightarrow> distinct (remove_int xs i)"
  using distinct_append [of "take (nat i) xs" "drop (nat i) xs"]
  by (auto simp: remove_int_def set_take_disj_set_drop_if_distinct)

lemma map_erase_entries:
  assumes "map_inv m" and "TinyMap_GetValue m (Some k) = Some w"
  shows "fst (TinyMap_Erase m (Some k)) = TINY_RET_OK
    \<and> items (mlist (snd (TinyMap_Erase m (Some k)))) =
        remove_int (items (mlist m)) (key_index k (map_entries m))
    \<and> map_inv (snd (TinyMap_Erase m (Some k)))
    \<and> 0 \<le> key_index k (map_entries m)"
proof -
  let ?i = "key_index k (map_entries m)"
  have i: "0 \<le> ?i" "?i < int (length (items (mlist m)))"
    using assms key_index_neg [of k "map_entries m"] key_index_less [of k "map_entries m"]
    by (auto simp: map_lookup map_entries_def)
  then obtain d where d: "nth_int (items (mlist m)) ?i = Some d" by (simp add: nth_int_def)
  have e: "TinyMap_Erase m (Some k) = (TINY_RET_OK, on_item_delete m (snd (L_RemoveAt ?i (mlist m))))"
    using i by (simp add: TinyMap_Erase_def find_key_index [OF assms(1)])
  have its: "items (snd (L_RemoveAt ?i (mlist m))) = remove_int (items (mlist m)) ?i"
    by (simp add: L_RemoveAt_def d)
  have "count_ok (snd (L_RemoveAt ?i (mlist m)))"
    using l_step_count_ok [of "mlist m" "RemoveAt ?i" True] assms(1)
    by (cases "L_RemoveAt ?i (mlist m)") (simp add: map_inv_def)
  moreover have "distinct (map (fst \<circ> the) (remove_int (items (mlist m)) ?i))"
    using assms(1) by (simp add: map_remove_int distinct_remove_int map_inv_def)
  ultimately have "map_inv (on_item_delete m (snd (L_RemoveAt ?i (mlist m))))"
    using assms(1) set_remove_int [of "items (mlist m)" ?i]
    by (auto simp: map_inv_def on_item_delete_def its)
  with e its i show ?thesis by (simp add: on_item_delete_def)
qed

lemma map_erase_missing:
  assumes "map_inv m" and "TinyMap_GetValue m (Some k) = None"
  shows "TinyMap_Erase m (Some k) = (TINY_RET_E_NOT_FOUND, m)"
  using assms key_index_neg [of k "map_entries m"]
  by (simp add: TinyMap_Erase_def find_key_index map_lookup)

lemma map_lookup_erase:
  assumes "map_inv m"
  shows "TinyMap_GetValue (snd (TinyMap_Erase m (Some k))) (Some k') =
    (if field_cpy MAX_KEY_LEN k' = field_cpy MAX_KEY_LEN k then None else TinyMap_GetValue m (Some k'))"
proof (cases "TinyMap_GetValue m (Some k)")
  case None
  then show ?thesis using assms by (auto simp: map_erase_missing map_lookup)
next
  case (Some w)
  note e = map_erase_entries [OF assms Some]
  have "distinct (map fst (map_entries m))"
    using assms by (simp add: map_inv_def map_entries_def)
  with e have "map_of (map_entries (snd (TinyMap_Erase m (Some k)))) =
      (map_of (map_entries m))(field_cpy MAX_KEY_LEN k := None)"
    using map_of_remove_key [of "map_entries m" k] by (simp add: map_entries_def map_remove_int)
  with e assms show ?thesis by (simp add: map_lookup)
qed

interpretation tm: keyed_store "\<lambda>k v m. TinyMap_Insert [] m (Some k) (Some v)"
  "\<lambda>m k. TinyMap_GetValue m (Some k)" "field_cpy MAX_KEY_LEN" "\<lambda>v. v" "\<lambda>_. True" "\<lambda>_ _. True" map_inv
  "\<lambda>k m. TinyMap_Erase m (Some k)"
proof unfold_locales
  fix m :: "'v tmap" and k k' :: string and v w :: 'v
  assume m: "map_inv m"
  show "map_inv (snd (TinyMap_Insert [] m (Some k) (Some v)))" by (rule map_inv_insert [OF m])
  show "TinyMap_GetValue (snd (TinyMap_Erase m (Some k))) (Some k') =
    (if field_cpy MAX_KEY_LEN k' = field_cpy MAX_KEY_LEN k then None else TinyMap_GetValue m (Some k'))"
    by (rule map_lookup_erase [OF m])
  show "map_inv (snd (TinyMap_Erase m (Some k)))"
    by (cases "TinyMap_GetValue m (Some k)")
      (simp_all add: map_erase_missing map_erase_entries m)
  show "TinyMap_GetValue m (Some k) = TinyMap_GetValue m (Some k')"
    if "field_cpy MAX_KEY_LEN k = field_cpy MAX_KEY_LEN k'"
    using that by (simp add: map_lookup m)
  assume k: "TinyMap_GetValue m (Some k) = None"
  show "fst (TinyMap_Insert [] m (Some k) (Some v)) = TINY_RET_OK"
    by (simp add: map_insert_new [OF m k])
  show "TinyMap_Erase m (Some k) = (TINY_RET_E_NOT_FOUND, m)" by (rule map_erase_missing [OF m k])
  show "TinyMap_GetValue (snd (TinyMap_Insert [] m (Some k) (Some v))) (Some k') =
    (if field_cpy MAX_KEY_LEN k' = field_cpy MAX_KEY_LEN k then Some v else TinyMap_GetValue m (Some k'))"
    using k by (auto simp: map_lookup m map_lookup [OF map_inv_insert [OF m]] map_entries_insert [OF m k]
        map_add_def split: option.splits)
next
  fix m :: "'v tmap" and k k' :: string and v w :: 'v
  assume m: "map_inv m" and k: "TinyMap_GetValue m (Some k) = Some w"
  show "TinyMap_Insert [] m (Some k) (Some v) = (TINY_RET_E_ITEM_EXIST, m)"
    by (rule map_insert_dup [OF m k])
  show "fst (TinyMap_Erase m (Some k)) = TINY_RET_OK" using map_erase_entries [OF m k] by blast
qed


subsection \<open>Properties of the map\<close>

lemma map_inv_construct: "map_inv (snd TinyMap_Construct)"
  by (simp add: map_inv_def TinyMap_Construct_def L_SetDeleteListener_def L_new_def count_ok_def)

lemma map_construct_empty: "TinyMap_GetValue (snd TinyMap_Construct) (Some k) = None"
  unfolding map_lookup [OF map_inv_construct]
  by (simp add: map_entries_def TinyMap_Construct_def L_SetDeleteListener_def L_new_def)

text \<open>
  C11. \<open>TinyMap\<close> is a finite map over the first 256 bytes of its keys: after inserting any
  list of pairs into a new map (memory available) a lookup finds the value of the first pair
  whose key agrees with the wanted one on those bytes, and nothing if there is none.
\<close>

theorem map_lookup_after_inserts:
  "TinyMap_GetValue (fold (\<lambda>(k, v) m. snd (TinyMap_Insert [] m (Some k) (Some v))) kvs (snd TinyMap_Construct))
     (Some k) = map_of (map (\<lambda>(k, v). (field_cpy MAX_KEY_LEN k, v)) kvs) (field_cpy MAX_KEY_LEN k)"
  using tm.lookup_add_all [OF map_inv_construct map_construct_empty, of kvs k]
  by (simp add: tm.add_all_def list_all_iff)

text \<open>
  Insertion and erasure: on a well-formed map an erased key is gone and every other key
  keeps its value; erasing an absent key reports \<open>TINY_RET_E_NOT_FOUND\<close> and changes
  nothing; a second insertion of a bound key is refused and changes nothing; and erasing a
  freshly inserted key gives back the old bindings.
\<close>

theorem map_insert_erase:
  assumes "map_inv m"
  shows "TinyMap_GetValue (snd (TinyMap_Erase m (Some k))) (Some k') =
      (if field_cpy MAX_KEY_LEN k' = field_cpy MAX_KEY_LEN k then None else TinyMap_GetValue m (Some k'))
    \<and> (case TinyMap_GetValue m (Some k) of
         None \<Rightarrow> TinyMap_Erase m (Some k) = (TINY_RET_E_NOT_FOUND, m)
           \<and> TinyMap_GetValue (snd (TinyMap_Erase (snd (TinyMap_Insert [] m (Some k) (Some v))) (Some k))) (Some k')
               = TinyMap_GetValue m (Some k')
       | Some w \<Rightarrow> fst (TinyMap_Erase m (Some k)) = TINY_RET_OK
           \<and> TinyMap_Insert oks m (Some k) (Some v) = (TINY_RET_E_ITEM_EXIST, m))"
  using tm.lookup_erase [OF assms] tm.erase_missing [OF assms, of k] tm.erase_ok [OF assms, of k]
    fun_cong [OF tm.erase_add [OF assms, of k v, OF TrueI], of k'] map_insert_dup [OF assms, of k]
  by (simp split: option.splits)

definition demo_map :: "nat tmap" where
  "demo_map = snd (TinyMap_Insert [] (snd TinyMap_Construct) (Some ''a'') (Some 5))"

lemma demo_map_inv: "map_inv demo_map"
  unfolding demo_map_def by (rule map_inv_insert [OF map_inv_construct])

theorem map_insert_erase_witness:
  "TinyMap_GetValue (snd (TinyMap_Erase demo_map (Some ''a''))) (Some ''b'') =
      (if field_cpy MAX_KEY_LEN ''b'' = field_cpy MAX_KEY_LEN ''a'' then None else TinyMap_GetValue demo_map (Some ''b''))
    \<and> (case TinyMap_GetValue demo_map (Some ''a'') of
         None \<Rightarrow> TinyMap_Erase demo_map (Some ''a'') = (TINY_RET_E_NOT_FOUND, demo_map)
           \<and> TinyMap_GetValue (snd (TinyMap_Erase (snd (TinyMap_Insert [] demo_map (Some ''a'') (Some 6))) (Some ''a''))) (Some ''b'')
               = TinyMap_GetValue demo_map (Some ''b'')
       | Some w \<Rightarrow> fst (TinyMap_Erase demo_map (Some ''a'')) = TINY_RET_OK
           \<and> TinyMap_Insert [] demo_map (Some ''a'') (Some 6) = (TINY_RET_E_ITEM_EXIST, demo_map))"
  by (rule map_insert_erase [OF demo_map_inv])

text \<open>
  The map's delete listener is called exactly for the values that leave the map: an
  erasure of a bound key hands over its value and nothing else, and \<open>TinyMap_Clear\<close> hands
  over all values, in insertion order.
\<close>

theorem map_delete_listener:
  assumes "map_inv m" and "has_listener (mlist m)" and "mlistener m"
  shows "mlog (snd (TinyMap_Erase m (Some k))) =
        mlog m @ (case TinyMap_GetValue m (Some k) of None \<Rightarrow> [] | Some w \<Rightarrow> [w])
    \<and> mlog (TinyMap_Clear m) = mlog m @ map snd (map_entries m) \<and> map_entries (TinyMap_Clear m) = []"
proof (intro conjI)
  have none: "None \<notin> set (items (mlist m))" using assms(1) by (simp add: map_inv_def)
  have mf: "List.map_filter id xs = map the xs" if "None \<notin> set xs" for xs :: "'v mitem option list"
    using that
  proof (induction xs)
    case (Cons x xs)
    then show ?case by (cases x) (auto simp: List.map_filter_def)
  qed (simp add: List.map_filter_def)
  show "mlog (TinyMap_Clear m) = mlog m @ map snd (map_entries m)"
    using assms none
    by (simp add: TinyMap_Clear_def on_item_delete_def L_RemoveAll_def logged_def mf map_entries_def)
  show "map_entries (TinyMap_Clear m) = []"
    by (simp add: TinyMap_Clear_def on_item_delete_def L_RemoveAll_def map_entries_def)
  show "mlog (snd (TinyMap_Erase m (Some k))) =
      mlog m @ (case TinyMap_GetValue m (Some k) of None \<Rightarrow> [] | Some w \<Rightarrow> [w])"
  proof (cases "TinyMap_GetValue m (Some k)")
    case None
    then show ?thesis by (simp add: map_erase_missing [OF assms(1)])
  next
    case w: (Some w)
    let ?i = "key_index k (map_entries m)"
    have neg: "\<not> ?i < 0" using w by (simp add: key_index_neg map_lookup [OF assms(1)])
    have "map_of (map_entries m) (field_cpy MAX_KEY_LEN k) = Some w"
      using w by (simp add: map_lookup [OF assms(1)])
    with key_index_map_of [of "map_entries m" k]
    obtain e where e: "nth_int (map_entries m) ?i = Some e" "snd e = w"
      by (auto split: option.splits)
    then have "nth_int (items (mlist m)) ?i = Some (Some e)"
      using none by (auto simp: map_entries_def nth_int_map nth_int_Some_iff)
        (metis nth_mem option.collapse)
    with neg assms e(2) w show ?thesis
      by (simp add: TinyMap_Erase_def find_key_index on_item_delete_def L_RemoveAt_def logged_def
          List.map_filter_def)
  qed
qed

definition demo_map_l :: "nat tmap" where
  "demo_map_l = TinyMap_SetDeleteListener demo_map True"

theorem map_delete_listener_witness:
  "mlog (snd (TinyMap_Erase demo_map_l (Some ''a''))) =
        mlog demo_map_l @ (case TinyMap_GetValue demo_map_l (Some ''a'') of None \<Rightarrow> [] | Some w \<Rightarrow> [w])
    \<and> mlog (TinyMap_Clear demo_map_l) = mlog demo_map_l @ map snd (map_entries demo_map_l)
    \<and> map_entries (TinyMap_Clear demo_map_l) = []"
  by (rule map_delete_listener)
    (use demo_map_inv in \<open>simp_all add: demo_map_l_def TinyMap_SetDeleteListener_def map_inv_def\<close>,
      code_simp)

text \<open>
  An insertion can be lost silently: when the item is allocated but the list node is
  not, \<open>TinyMap_Insert\<close> of a new key returns \<open>TINY_RET_OK\<close> although the map is
  unchanged and the key is not bound.
\<close>

theorem map_insert_lost:
  assumes "map_inv m" and "TinyMap_GetValue m (Some k) = None"
  shows "TinyMap_Insert [True, False] m (Some k) (Some v) = (TINY_RET_OK, m)
    \<and> TinyMap_GetValue (snd (TinyMap_Insert [True, False] m (Some k) (Some v))) (Some k) = None"
  using assms key_index_neg [of k "map_entries m"]
  by (simp add: TinyMap_Insert_def find_key_index map_lookup L_AddTail_def)

theorem map_insert_lost_witness:
  "TinyMap_Insert [True, False] (snd TinyMap_Construct) (Some ''k'') (Some (1 :: nat)) =
     (TINY_RET_OK, snd TinyMap_Construct)
    \<and> TinyMap_GetValue (snd (TinyMap_Insert [True, False] (snd TinyMap_Construct) (Some ''k'') (Some (1 :: nat))))
        (Some ''k'') = None"
  by (rule map_insert_lost [OF map_inv_construct map_construct_empty])

end
