(* ===== verification/TinyString.thy ===== *)
theory TinyString
  imports CString
begin

section \<open>String utilities: \<open>Tiny/String\<close>\<close>

text \<open>
  \<open>tiny_char_util.c\<close>, \<open>tiny_str_equal.c\<close>, \<open>tiny_str_get_value.c\<close>, \<open>tiny_str_split.c\<close>
  and \<open>tiny_url_split.c\<close>. Pointers into a string are modelled by the part of the string
  they point at; reading at the end gives the terminating NUL, and reading past it is
  undefined behaviour (\<open>None\<close>), except in \<open>str_equal\<close>, where the byte past the
  terminator is a parameter, since the code does read it.
\<close>

subsection \<open>tiny_char_util.c\<close>

definition is_char :: "int \<Rightarrow> bool" where
  "is_char c \<longleftrightarrow> 0 \<le> c \<and> c \<le> 127"

definition is_ctl :: "int \<Rightarrow> bool" where
  "is_ctl c \<longleftrightarrow> (0 \<le> c \<and> c \<le> 31) \<or> c = 127"

definition is_tspecial :: "int \<Rightarrow> bool" where
  "is_tspecial c \<longleftrightarrow> c \<in> set (map of_char
     [CHR ''('', CHR '')'', CHR ''<'', CHR ''>'', CHR ''@'', CHR '','', CHR '';'', CHR '':'',
      CHR 0x5C, CHR 0x22, CHR ''/'', CHR ''['', CHR '']'', CHR ''?'', CHR ''='', CHR ''{'',
      CHR ''}'', CHR '' '', CHR 0x09])"

definition is_digit :: "int \<Rightarrow> bool" where
  "is_digit c \<longleftrightarrow> 48 \<le> c \<and> c \<le> 57"

definition tolower_compare :: "char \<Rightarrow> char \<Rightarrow> bool" where
  "tolower_compare a b \<longleftrightarrow> tolower a = tolower b"

text \<open>The character \<open>*p\<close> for a pointer into a string.\<close>

definition deref :: "string \<Rightarrow> char" where
  "deref p = (case p of [] \<Rightarrow> NUL | c # _ \<Rightarrow> c)"

lemma deref_simps [simp]: "deref [] = NUL" "deref (c # p) = c"
  by (simp_all add: deref_def)

lemma is_digit_sbyte: "is_digit (sbyte c) \<longleftrightarrow> isdigit c"
proof -
  have "int (of_char c) = of_char c" by (rule of_nat_of_char)
  moreover have "(of_char c :: nat) < 256" by simp
  ultimately show ?thesis by (auto simp: is_digit_def sbyte_def isdigit_def simp del: of_char_nat_less)
qed

lemma is_digit_NUL [simp]: "\<not> is_digit (sbyte NUL)"
  by (simp add: is_digit_def sbyte_def)

subsection \<open>str_equal\<close>

text \<open>
  The case-insensitive loop returns \<open>ret\<close> and the bytes \<open>*dst\<close> and \<open>*src\<close> after it;
  \<open>past\<close> is the byte after the terminator of \<open>src\<close>. In the second equation the source
  has ended, its NUL differs from the byte of \<open>dst\<close>, and both pointers have moved on.
\<close>

fun str_equal_loop :: "char \<Rightarrow> string \<Rightarrow> string \<Rightarrow> bool \<times> char \<times> char" where
  "str_equal_loop past [] src = (True, NUL, deref src)"
| "str_equal_loop past (d # dst) [] = (False, deref dst, past)"
| "str_equal_loop past (d # dst) (s # src) =
     (if tolower d \<noteq> tolower s then (False, deref dst, deref src) else str_equal_loop past dst src)"

definition str_equal :: "char \<Rightarrow> string option \<Rightarrow> string option \<Rightarrow> bool \<Rightarrow> bool" where
  "str_equal past dst src ignore_case = (case (dst, src) of
       (Some d, Some s) \<Rightarrow>
         if \<not> ignore_case then STR_EQUAL d s
         else (case str_equal_loop past d s of (ret, a, b) \<Rightarrow> if a \<noteq> b then False else ret)
     | _ \<Rightarrow> False)"

lemma str_equal_loop_correct:
  "cstring src \<Longrightarrow> (case str_equal_loop past dst src of (ret, a, b) \<Rightarrow> if a \<noteq> b then False else ret)
     \<longleftrightarrow> map tolower dst = map tolower src"
proof (induction past dst src rule: str_equal_loop.induct)
  case (1 past src)
  then show ?case by (cases src) auto
qed auto

subsection \<open>str_get_value\<close>

text \<open>
  Returns the length and the bytes \<open>strncpy\<close> writes to \<open>value\<close> (exactly that many; no
  terminator is added). \<open>None\<close>: nothing is written.
\<close>

definition str_get_value ::
    "string \<Rightarrow> nat \<Rightarrow> string \<Rightarrow> string option \<Rightarrow> nat \<Rightarrow> nat \<times> char list option" where
  "str_get_value buf buf_len start_tag end_tag value_len = (case strstr buf start_tag of
       None \<Rightarrow> (0, None)
     | Some start \<Rightarrow>
         (let v_start = drop (length start_tag) start;
              len = length buf - length v_start
          in if buf_len < len then (0, None)
             else (case (case end_tag of
                       None \<Rightarrow> Some (buf_len - len)
                     | Some et \<Rightarrow> map_option (\<lambda>e. length v_start - length e) (strstr v_start et)) of
                 None \<Rightarrow> (0, None)
               | Some v \<Rightarrow> (let v_len = min v value_len in (v_len, Some (strncpy [] v_start v_len))))))"

subsection \<open>str_split\<close>

text \<open>
  One group is 128 bytes, zeroed by every caller. The loop runs at most \<open>groupCount\<close> times
  (the first argument counts the groups left); \<open>strstr\<close> gives the end of the piece. The
  number the function returns is the number of groups written. With \<open>groupCount = 0\<close> it
  would write a group that is not there.
\<close>

definition GROUP_LEN :: nat where "GROUP_LEN = 128"

fun str_split_loop :: "nat \<Rightarrow> string \<Rightarrow> string \<Rightarrow> string list" where
  "str_split_loop 0 p1 c = []"
| "str_split_loop (Suc n) p1 c = (case strstr p1 c of
       None \<Rightarrow> [take GROUP_LEN p1]
     | Some p2 \<Rightarrow> take GROUP_LEN (take (length p1 - length p2) p1) #
         str_split_loop n (drop (length c) p2) c)"

definition str_split :: "string \<Rightarrow> string \<Rightarrow> nat \<Rightarrow> string list option" where
  "str_split str c groupCount = (if groupCount = 0 then None else Some (str_split_loop groupCount str c))"

subsection \<open>url_split\<close>

text \<open>
  The address loop has no test for the end of the string: without a \<open>:\<close> or \<open>/\<close> it runs
  past the terminator. It returns the bytes copied, whether it overflowed \<open>ip_len\<close>, and the
  pointer.
\<close>

fun ip_loop :: "nat \<Rightarrow> nat \<Rightarrow> string \<Rightarrow> (string \<times> bool \<times> string) option" where
  "ip_loop ip_len i [] = None"
| "ip_loop ip_len i (c # p) =
     (if c = CHR '':'' \<or> c = CHR ''/'' then Some ([], False, c # p)
      else if ip_len \<le> i + 1 then Some ([c], True, p)
      else map_option (\<lambda>(ip, bad, q). (c # ip, bad, q)) (ip_loop ip_len (i + 1) p))"

fun port_loop :: "16 word \<Rightarrow> string \<Rightarrow> 16 word \<times> string" where
  "port_loop port [] = (port, [])"
| "port_loop port (c # p) =
     (if \<not> is_digit (sbyte c) then (port, c # p)
      else port_loop (port * 10 + word_of_int (sbyte c) - 48) p)"

fun uri_loop :: "nat \<Rightarrow> nat \<Rightarrow> string \<Rightarrow> string \<times> bool" where
  "uri_loop uri_len i [] = ([], False)"
| "uri_loop uri_len i (c # p) =
     (if uri_len \<le> i + 1 then ([c], True)
      else (case uri_loop uri_len (i + 1) p of (uri, bad) \<Rightarrow> (c # uri, bad)))"

record url_parts =
  url_ip :: string
  url_port :: "16 word"
  url_uri :: string

text \<open>\<open>None\<close> inside the result: the output buffers are untouched.\<close>

definition url_split :: "string \<Rightarrow> nat \<Rightarrow> nat \<Rightarrow> (tiny_ret \<times> url_parts option) option" where
  "url_split url ip_len uri_len =
     (if length url < length ''http://x'' \<or> \<not> is_prefix ''http://'' url
      then Some (TINY_RET_E_URL_INVALID, None)
      else do {
        (ip, bad1, p) \<leftarrow> ip_loop ip_len 0 (drop 7 url);
        if p = [] then None
        else (case port_loop 0 (tl p) of (port, q) \<Rightarrow>
          (case uri_loop uri_len 0 q of (uri, bad2) \<Rightarrow>
            Some (if bad1 \<or> bad2 then TINY_RET_E_URL_INVALID else TINY_RET_OK,
                  Some \<lparr>url_ip = ip, url_port = port, url_uri = uri\<rparr>)))
      })"

subsection \<open>Splitting what was joined\<close>

fun join_with :: "string \<Rightarrow> string list \<Rightarrow> string" where
  "join_with sep [] = []"
| "join_with sep [s] = s"
| "join_with sep (s # t # ss) = s @ sep @ join_with sep (t # ss)"

lemma str_split_loop_join:
  "ss \<noteq> [] \<Longrightarrow> length ss \<le> n \<Longrightarrow> \<forall>s \<in> set ss. c \<notin> set s \<and> length s \<le> GROUP_LEN \<Longrightarrow>
     str_split_loop n (join_with [c] ss) [c] = ss"
proof (induction "[c]" ss arbitrary: n rule: join_with.induct)
  case (2 s)
  then obtain m where "n = Suc m" by (cases n) auto
  with 2 show ?case by (simp add: strstr_single_notin)
next
  case (3 s t ss)
  then obtain m where n: "n = Suc m" by (cases n) auto
  have s: "c \<notin> set s" "length s \<le> GROUP_LEN" using "3.prems" by auto
  have "str_split_loop m (join_with [c] (t # ss)) [c] = t # ss"
    using 3 n by auto
  then show ?case using s by (simp add: n strstr_single_append)
qed simp

text \<open>The two-character separator of a USN, when the first piece has no colon.\<close>

lemma strstr_double_append: "c \<notin> set s \<Longrightarrow> strstr (s @ c # c # t) [c, c] = Some (c # c # t)"
  by (induction s) auto

lemma strstr_double_notin: "c \<notin> set s \<Longrightarrow> strstr s [c, c] = None"
  by (induction s) auto

lemma ip_loop_stops:
  "c = CHR '':'' \<or> c = CHR ''/'' \<Longrightarrow> \<forall>x \<in> set ip. x \<noteq> CHR '':'' \<and> x \<noteq> CHR ''/'' \<Longrightarrow>
     i + length ip < ip_len \<Longrightarrow> ip_loop ip_len i (ip @ c # rest) = Some (ip, False, c # rest)"
  by (induction ip arbitrary: i) auto

lemma uri_loop_fits: "i + length p < uri_len \<Longrightarrow> uri_loop uri_len i p = (p, False)"
  by (induction p arbitrary: i) auto

lemma port_loop_digits:
  "\<forall>c \<in> set ds. isdigit c \<Longrightarrow> rest = [] \<or> \<not> isdigit (hd rest) \<Longrightarrow>
     port_loop (word_of_nat a) (ds @ rest) = (word_of_nat (dec_val a ds), rest)"
proof (induction ds arbitrary: a)
  case Nil
  then show ?case by (cases rest) (auto simp: is_digit_sbyte)
next
  case (Cons d ds)
  then have d: "isdigit d" by simp
  moreover have "int (of_char d) = of_char d" by (rule of_nat_of_char)
  ultimately have "sbyte d = int (of_char d)" by (auto simp: sbyte_def isdigit_def)
  then have "(word_of_nat a * 10 + word_of_int (sbyte d) - 48 :: 16 word) =
      word_of_nat (a * 10 + digit_val d)"
    using d by (simp add: digit_val_def isdigit_def of_nat_diff)
  then have "port_loop (word_of_nat a) ((d # ds) @ rest) =
      port_loop (word_of_nat (a * 10 + digit_val d)) (ds @ rest)"
    using d by (simp only: append_Cons port_loop.simps is_digit_sbyte not_not if_False simp_thms)
  also have "\<dots> = (word_of_nat (dec_val (a * 10 + digit_val d) ds), rest)"
    using Cons by (intro Cons.IH) auto
  finally show ?case using d by (simp only: dec_val.simps if_True)
qed


lemma str_split_joined:
  assumes "ss \<noteq> []" and "length ss \<le> n" and "\<forall>s \<in> set ss. c \<notin> set s \<and> length s \<le> GROUP_LEN"
  shows "str_split (join_with [c] ss) [c] n = Some ss"
  using str_split_loop_join [OF assms] assms(1,2) by (cases n) (auto simp: str_split_def)

lemma url_split_spec:
  assumes "\<forall>x \<in> set ip. x \<noteq> CHR '':'' \<and> x \<noteq> CHR ''/''" and "length ip < ip_len"
    and "uri = [] \<or> hd uri = CHR ''/''" and "length uri < uri_len"
  shows "url_split (''http://'' @ ip @ '':'' @ show_nat port @ uri) ip_len uri_len =
    Some (TINY_RET_OK, Some \<lparr>url_ip = ip, url_port = word_of_nat port, url_uri = uri\<rparr>)"
proof -
  have pl: "port_loop 0 (show_nat port @ uri) = (word_of_nat port, uri)"
    using port_loop_digits [of "show_nat port" uri 0] show_nat_digits [of port] assms(3)
    by (cases uri) (auto simp: isdigit_def)
  have il: "ip_loop ip_len 0 (ip @ CHR '':'' # show_nat port @ uri) =
      Some (ip, False, CHR '':'' # show_nat port @ uri)"
    using ip_loop_stops [of "CHR '':''" ip 0 ip_len "show_nat port @ uri"] assms(1,2) by simp
  have "is_prefix ''http://'' (''http://'' @ ip @ '':'' @ show_nat port @ uri)"
    by (rule is_prefix_append)
  moreover have "drop 7 (''http://'' @ ip @ '':'' @ show_nat port @ uri) = ip @ CHR '':'' # show_nat port @ uri"
    by simp
  ultimately show ?thesis
    unfolding url_split_def using il pl uri_loop_fits [of 0 uri uri_len] assms(4)
    by (simp del: is_prefix.simps)
qed

subsection \<open>Properties\<close>

text \<open>
  \<open>str_equal\<close> decides equality: of two strings it says whether they are the same, or,
  when asked to ignore case, whether they are the same after \<open>tolower\<close>. The answer does
  not depend on the byte behind the source's terminator, which the code reads when the source
  is the shorter string; a NULL argument equals nothing.
\<close>

theorem str_equal_correct:
  assumes "cstring d" and "cstring s"
  shows "(str_equal past (Some d) (Some s) True \<longleftrightarrow> map tolower d = map tolower s)
    \<and> (str_equal past (Some d) (Some s) False \<longleftrightarrow> d = s)
    \<and> \<not> str_equal past None (Some s) b \<and> \<not> str_equal past (Some d) None b"
  using str_equal_loop_correct [OF assms(2), of past d]
  by (simp add: str_equal_def STR_EQUAL_def)

theorem str_equal_correct_witness:
  "(str_equal (CHR ''z'') (Some ''YES'') (Some ''yes'') True \<longleftrightarrow> map tolower ''YES'' = map tolower ''yes'')
    \<and> (str_equal (CHR ''z'') (Some ''YES'') (Some ''yes'') False \<longleftrightarrow> ''YES'' = ''yes'')
    \<and> \<not> str_equal (CHR ''z'') None (Some ''yes'') True \<and> \<not> str_equal (CHR ''z'') (Some ''YES'') None True"
  by (rule str_equal_correct) (simp_all add: cstring_def)

text \<open>
  \<open>str_split\<close> undoes joining: a text made of at least one and at most \<open>groupCount\<close>
  pieces joined by a one-character separator, no piece containing the separator or exceeding
  128 bytes, is split into exactly those pieces.
\<close>

theorem str_split_join:
  assumes "ss \<noteq> []" and "length ss \<le> n" and "\<forall>s \<in> set ss. c \<notin> set s \<and> length s \<le> GROUP_LEN"
  shows "str_split (join_with [c] ss) [c] n = Some ss"
  by (rule str_split_joined [OF assms])

theorem str_split_join_witness:
  "str_split (join_with [CHR '':''] [''urn'', ''x'']) [CHR '':''] 10 = Some [''urn'', ''x'']"
  by (rule str_split_join) (simp_all add: GROUP_LEN_def)

text \<open>
  Bounds of \<open>str_split\<close>: it never writes more groups than there are, nor more than
  128 bytes to one, whatever the text and the separator.
\<close>

theorem str_split_bounds:
  "0 < n \<Longrightarrow> \<exists>gs. str_split s c n = Some gs \<and> 1 \<le> length gs \<and> length gs \<le> n
     \<and> list_all (\<lambda>g. length g \<le> GROUP_LEN) gs"
proof -
  have "length (str_split_loop n s c) \<le> n \<and> (\<forall>g \<in> set (str_split_loop n s c). length g \<le> GROUP_LEN)
      \<and> (0 < n \<longrightarrow> str_split_loop n s c \<noteq> [])"
    by (induction n s c rule: str_split_loop.induct) (auto split: option.splits)
  moreover assume "0 < n"
  ultimately show ?thesis by (auto simp: str_split_def Suc_le_eq list_all_iff)
qed

theorem str_split_bounds_witness:
  "\<exists>gs. str_split ''a:b:c'' '':'' 2 = Some gs \<and> 1 \<le> length gs \<and> length gs \<le> 2
     \<and> list_all (\<lambda>g. length g \<le> GROUP_LEN) gs"
  by (rule str_split_bounds) simp

text \<open>
  \<open>url_split\<close> takes a URL apart: \<open>http://ip:port/path\<close> gives back the address, the
  port modulo \<open>2 ^ 16\<close> and the path, when the address (without \<open>:\<close> and \<open>/\<close>) and the
  path fit their buffers with room for a terminator.
\<close>

theorem url_split_host_port:
  assumes "\<forall>x \<in> set ip. x \<noteq> CHR '':'' \<and> x \<noteq> CHR ''/''" and "length ip < ip_len"
    and "uri = [] \<or> hd uri = CHR ''/''" and "length uri < uri_len"
  shows "url_split (''http://'' @ ip @ '':'' @ show_nat port @ uri) ip_len uri_len =
    Some (TINY_RET_OK, Some \<lparr>url_ip = ip, url_port = word_of_nat port, url_uri = uri\<rparr>)"
  by (rule url_split_spec [OF assms])

theorem url_split_host_port_witness:
  "url_split (''http://'' @ ''10.0.1.1'' @ '':'' @ show_nat 8080 @ ''/1.mp4'') 32 512 =
    Some (TINY_RET_OK, Some \<lparr>url_ip = ''10.0.1.1'', url_port = word_of_nat 8080, url_uri = ''/1.mp4''\<rparr>)"
  by (rule url_split_host_port) simp_all

text \<open>
  Without an explicit port \<open>url_split\<close> misreads the path: the slash after the address
  is dropped, the digits the path starts with become the port (0 when there are none, never
  the default 80), and only what follows them is returned as the path, still with
  \<open>TINY_RET_OK\<close>.
\<close>

theorem url_split_no_port:
  assumes "\<forall>x \<in> set ip. x \<noteq> CHR '':'' \<and> x \<noteq> CHR ''/''" and "ip \<noteq> []" and "length ip < ip_len"
    and "\<forall>c \<in> set ds. isdigit c" and "rest = [] \<or> \<not> isdigit (hd rest)" and "length rest < uri_len"
  shows "url_split (''http://'' @ ip @ ''/'' @ ds @ rest) ip_len uri_len =
    Some (TINY_RET_OK, Some \<lparr>url_ip = ip, url_port = word_of_nat (dec_val 0 ds), url_uri = rest\<rparr>)"
proof -
  have pl: "port_loop 0 (ds @ rest) = (word_of_nat (dec_val 0 ds), rest)"
    using port_loop_digits [of ds rest 0] assms(4,5) by simp
  have il: "ip_loop ip_len 0 (ip @ CHR ''/'' # ds @ rest) = Some (ip, False, CHR ''/'' # ds @ rest)"
    using ip_loop_stops [of "CHR ''/''" ip 0 ip_len "ds @ rest"] assms(1,3) by simp
  have "is_prefix ''http://'' (''http://'' @ ip @ ''/'' @ ds @ rest)" by (rule is_prefix_append)
  moreover have "drop 7 (''http://'' @ ip @ ''/'' @ ds @ rest) = ip @ CHR ''/'' # ds @ rest" by simp
  moreover have "\<not> length (''http://'' @ ip @ ''/'' @ ds @ rest) < length ''http://x''"
    using assms(2) by (cases ip) auto
  ultimately show ?thesis
    unfolding url_split_def using il pl uri_loop_fits [of 0 rest uri_len] assms(6)
    by (simp del: is_prefix.simps)
qed

theorem url_split_no_port_witness:
  "url_split (''http://'' @ ''10.0.1.1'' @ ''/'' @ ''1'' @ ''.mp4'') 32 512 =
    Some (TINY_RET_OK, Some \<lparr>url_ip = ''10.0.1.1'', url_port = word_of_nat (dec_val 0 ''1''), url_uri = ''.mp4''\<rparr>)"
  by (rule url_split_no_port) (simp_all add: isdigit_def)

end
