(* ===== verification/TinyUuid.thy ===== *)
theory TinyUuid
  imports CString
begin

unbundle bit_operations_syntax

section \<open>UUIDs: \<open>Tiny/Uuid/TinyUuid.c\<close>\<close>

text \<open>
  A UUID is 16 bytes, seen by the code either as the array \<open>uuid_u\<close> or as the fields of
  \<open>uuid_time\<close>. The random bytes and the clock are inputs of the generators (they come from
  the operating system); everything else is computed as in the source.
\<close>

subsection \<open>Data\<close>

type_synonym uuid_u = "8 word list"

record uuid_time =
  time_low :: "32 word"
  time_mid :: "16 word"
  time_hi_and_version :: "16 word"
  clock_seq :: "16 word"
  node :: "8 word list"

record tiny_uuid =
  uuid_string :: string
  uuid_bytes :: uuid_u

definition TINY_UUID_LEN :: nat where "TINY_UUID_LEN = 36 + 2"

definition uuid_ok :: "uuid_u \<Rightarrow> bool" where
  "uuid_ok u \<longleftrightarrow> length u = 16"

subsection \<open>Packing and unpacking\<close>

definition tiny_uuid_pack :: "uuid_time \<Rightarrow> uuid_u" where
  "tiny_uuid_pack t =
     (let low0 = time_low t; low1 = drop_bit 8 low0; low2 = drop_bit 8 low1; low3 = drop_bit 8 low2;
          mid0 = (ucast (time_mid t) :: 32 word); mid1 = drop_bit 8 mid0;
          hi0 = (ucast (time_hi_and_version t) :: 32 word); hi1 = drop_bit 8 hi0;
          cs0 = (ucast (clock_seq t) :: 32 word); cs1 = drop_bit 8 cs0
      in [ucast low3, ucast low2, ucast low1, ucast low0,
          ucast mid1, ucast mid0, ucast hi1, ucast hi0, ucast cs1, ucast cs0] @ take 6 (node t))"

text \<open>\<open>tmp = (tmp << 8) | *ptr++\<close>\<close>

definition shift_in :: "32 word \<Rightarrow> 8 word \<Rightarrow> 32 word" where
  "shift_in tmp b = push_bit 8 tmp OR ucast b"

definition tiny_uuid_unpack :: "uuid_u \<Rightarrow> uuid_time" where
  "tiny_uuid_unpack u =
     \<lparr>time_low = shift_in (shift_in (shift_in (ucast (u ! 0)) (u ! 1)) (u ! 2)) (u ! 3),
      time_mid = ucast (shift_in (ucast (u ! 4)) (u ! 5)),
      time_hi_and_version = ucast (shift_in (ucast (u ! 6)) (u ! 7)),
      clock_seq = ucast (shift_in (ucast (u ! 8)) (u ! 9)),
      node = take 6 (drop 10 u)\<rparr>"

subsection \<open>Text form\<close>

text \<open>The formats \<open>fmt_lower\<close> and \<open>fmt_upper\<close>; 36 characters, cut by \<open>snprintf\<close> at len - 1.\<close>

definition tiny_uuid_to_string :: "uuid_u \<Rightarrow> nat \<Rightarrow> bool \<Rightarrow> string" where
  "tiny_uuid_to_string u len upper =
     (let t = tiny_uuid_unpack u; hex = show_hex upper in
      field_printf len
       (hex 8 (unat (time_low t)) @ ''-'' @ hex 4 (unat (time_mid t)) @ ''-''
        @ hex 4 (unat (time_hi_and_version t)) @ ''-''
        @ hex 2 (unat (drop_bit 8 (clock_seq t))) @ hex 2 (unat (clock_seq t AND 0xFF)) @ ''-''
        @ concat (map (\<lambda>b. hex 2 (unat b)) (node t))))"

text \<open>
  The validation loop of \<open>tiny_uuid_generate_from_string\<close> at index \<open>i\<close>; the end of the
  list is the terminating NUL, which is only accepted at index 36.
\<close>

fun uuid_check :: "nat \<Rightarrow> string \<Rightarrow> bool" where
  "uuid_check i [] = (36 \<le> i)"
| "uuid_check i (c # p) =
     (if 36 < i then True
      else if i = 8 \<or> i = 13 \<or> i = 18 \<or> i = 23
      then (if c = CHR ''-'' then uuid_check (i + 1) p else False)
      else if \<not> isxdigit c then False
      else uuid_check (i + 1) p)"

definition tiny_uuid_generate_from_string :: "uuid_u \<Rightarrow> string \<Rightarrow> nat \<Rightarrow> tiny_ret \<times> uuid_u" where
  "tiny_uuid_generate_from_string u str len =
     (if len \<noteq> 36 then (TINY_RET_E_UUID_INVALID, u)
      else if \<not> uuid_check 0 str then (TINY_RET_E_UUID_INVALID, u)
      else (TINY_RET_OK, tiny_uuid_pack
        \<lparr>time_low = ucast (strtoul16 str),
         time_mid = ucast (strtoul16 (drop 9 str)),
         time_hi_and_version = ucast (strtoul16 (drop 14 str)),
         clock_seq = ucast (strtoul16 (drop 19 str)),
         node = map (\<lambda>i. ucast (strtoul16 (take 2 (drop (24 + 2 * i) str)))) [0, 1, 2, 3, 4, 5]\<rparr>))"

subsection \<open>Operations\<close>

definition TinyUuid_Construct :: "tiny_ret \<times> tiny_uuid" where
  "TinyUuid_Construct = (TINY_RET_OK, \<lparr>uuid_string = [], uuid_bytes = replicate 16 0\<rparr>)"

definition TinyUuid_New :: "bool \<Rightarrow> tiny_uuid option" where
  "TinyUuid_New malloc_ok =
     (if malloc_ok then (case TinyUuid_Construct of (ret, u) \<Rightarrow> if RET_FAILED ret then None else Some u)
      else None)"

definition TinyUuid_ParseFromString :: "tiny_uuid \<Rightarrow> string option \<Rightarrow> tiny_ret \<times> tiny_uuid" where
  "TinyUuid_ParseFromString thiz str = (case str of
       None \<Rightarrow> (TINY_RET_E_ARG_NULL, thiz)
     | Some s \<Rightarrow> (case tiny_uuid_generate_from_string (uuid_bytes thiz) s (length s) of
         (ret, u) \<Rightarrow> (ret, thiz\<lparr>uuid_bytes := u\<rparr>)))"

definition TinyUuid_ParseFromBuffer :: "tiny_uuid \<Rightarrow> string option \<Rightarrow> nat \<Rightarrow> tiny_ret \<times> tiny_uuid" where
  "TinyUuid_ParseFromBuffer thiz buffer len = (case buffer of
       None \<Rightarrow> (TINY_RET_E_ARG_NULL, thiz)
     | Some s \<Rightarrow> (case tiny_uuid_generate_from_string (uuid_bytes thiz) s len of
         (ret, u) \<Rightarrow> (ret, thiz\<lparr>uuid_bytes := u\<rparr>)))"

definition TinyUuid_ToString :: "tiny_uuid \<Rightarrow> bool \<Rightarrow> string \<times> tiny_uuid" where
  "TinyUuid_ToString thiz upper =
     (let s = tiny_uuid_to_string (uuid_bytes thiz) TINY_UUID_LEN upper in (s, thiz\<lparr>uuid_string := s\<rparr>))"

definition TinyUuid_Clear :: "tiny_uuid \<Rightarrow> tiny_uuid" where
  "TinyUuid_Clear thiz = thiz\<lparr>uuid_bytes := replicate 16 0\<rparr>"

definition TinyUuid_Equal :: "tiny_uuid option \<Rightarrow> tiny_uuid option \<Rightarrow> bool" where
  "TinyUuid_Equal thiz other = (case (thiz, other) of
       (Some a, Some b) \<Rightarrow>
         (let u1 = tiny_uuid_unpack (uuid_bytes a); u2 = tiny_uuid_unpack (uuid_bytes b) in
          time_low u1 = time_low u2 \<and> time_mid u1 = time_mid u2
          \<and> time_hi_and_version u1 = time_hi_and_version u2 \<and> clock_seq u1 = clock_seq u2
          \<and> node u1 = node u2)
     | _ \<Rightarrow> False)"

text \<open>The copy loop: \<open>n\<close> bytes of \<open>src\<close> over \<open>dst\<close>.\<close>

fun uuid_copy_loop :: "nat \<Rightarrow> uuid_u \<Rightarrow> uuid_u \<Rightarrow> uuid_u" where
  "uuid_copy_loop (Suc n) (d # ds) (s # ss) = s # uuid_copy_loop n ds ss"
| "uuid_copy_loop n ds ss = ds"

definition TinyUuid_Copy :: "tiny_uuid \<Rightarrow> tiny_uuid \<Rightarrow> tiny_uuid" where
  "TinyUuid_Copy dst src = dst\<lparr>uuid_bytes := uuid_copy_loop 16 (uuid_bytes dst) (uuid_bytes src)\<rparr>"

fun uuid_null_loop :: "nat \<Rightarrow> uuid_u \<Rightarrow> bool" where
  "uuid_null_loop (Suc n) (b # bs) = (if b \<noteq> 0 then False else uuid_null_loop n bs)"
| "uuid_null_loop n bs = True"

definition TinyUuid_IsNull :: "tiny_uuid option \<Rightarrow> bool" where
  "TinyUuid_IsNull thiz = (case thiz of None \<Rightarrow> False | Some u \<Rightarrow> uuid_null_loop 16 (uuid_bytes u))"

text \<open>
  The generators for Linux: \<open>random\<close> are the bytes \<open>linux_get_random_bytes\<close> delivers,
  \<open>clock_mid\<close>, \<open>clock_low\<close> and \<open>seq\<close> the values of \<open>linux_get_clock\<close>, and \<open>node_id\<close>
  the random node chosen at the first call, before its multicast bit is set.
\<close>

definition linux_uuid_generate_random_ex :: "uuid_u \<Rightarrow> uuid_u" where
  "linux_uuid_generate_random_ex random =
     (let t = tiny_uuid_unpack random;
          t1 = t\<lparr>clock_seq := (clock_seq t AND 0x3FFF) OR 0x8000\<rparr>;
          t2 = t1\<lparr>time_hi_and_version := (time_hi_and_version t1 AND 0x0FFF) OR 0x4000\<rparr>
      in tiny_uuid_pack t2)"

definition linux_uuid_generate_time_ex ::
    "8 word list \<Rightarrow> 32 word \<Rightarrow> 32 word \<Rightarrow> 16 word \<Rightarrow> uuid_u" where
  "linux_uuid_generate_time_ex node_id clock_mid clock_low seq =
     tiny_uuid_pack
       \<lparr>time_low = clock_low, time_mid = ucast clock_mid,
        time_hi_and_version = ucast ((drop_bit 16 clock_mid AND 0x0FFF) OR 0x1000),
        clock_seq = seq OR 0x8000,
        node = (case node_id of [] \<Rightarrow> [] | b # bs \<Rightarrow> (b OR 1) # bs)\<rparr>"

definition linux_uuid_generate ::
    "bool \<Rightarrow> uuid_u \<Rightarrow> 8 word list \<Rightarrow> 32 word \<Rightarrow> 32 word \<Rightarrow> 16 word \<Rightarrow> uuid_u" where
  "linux_uuid_generate have_fd random node_id clock_mid clock_low seq =
     (if have_fd then linux_uuid_generate_random_ex random
      else linux_uuid_generate_time_ex node_id clock_mid clock_low seq)"

subsection \<open>Packing is inverse to unpacking\<close>

lemma length_tiny_uuid_pack: "length (node t) = 6 \<Longrightarrow> uuid_ok (tiny_uuid_pack t)"
  by (simp add: tiny_uuid_pack_def uuid_ok_def Let_def)

lemma bit_byte: "bit (b :: 8 word) n \<Longrightarrow> n < 8"
  by (drule bit_imp_le_length) simp

lemma bit_shift_in:
  "bit (shift_in w b) n \<longleftrightarrow> (if n < 8 then bit b n else n < 32 \<and> bit w (n - 8))"
  by (auto simp: shift_in_def bit_simps not_less dest: bit_byte)

lemma bytes_of_word:
  fixes w :: "32 word"
  shows "shift_in (shift_in (shift_in (ucast (ucast (drop_bit 24 w) :: 8 word))
      (ucast (drop_bit 16 w))) (ucast (drop_bit 8 w))) (ucast w) = w"
proof (rule bit_word_eqI)
  fix n :: nat
  assume "n < LENGTH(32)"
  then consider "n < 8" | "8 \<le> n" "n < 16" | "16 \<le> n" "n < 24" | "24 \<le> n" "n < 32" by fastforce
  then show "bit (shift_in (shift_in (shift_in (ucast (ucast (drop_bit 24 w) :: 8 word))
      (ucast (drop_bit 16 w))) (ucast (drop_bit 8 w))) (ucast w)) n = bit w n"
    by cases (simp_all add: bit_shift_in bit_simps less_diff_conv2)
qed

lemma bytes_of_half:
  fixes w :: "16 word"
  shows "ucast (shift_in (ucast (ucast (drop_bit 8 (ucast w :: 32 word)) :: 8 word))
      (ucast (ucast w :: 32 word))) = w"
proof (rule bit_word_eqI)
  fix n :: nat
  assume "n < LENGTH(16)"
  then consider "n < 8" | "8 \<le> n" "n < 16" by fastforce
  then show "bit (ucast (shift_in (ucast (ucast (drop_bit 8 (ucast w :: 32 word)) :: 8 word))
      (ucast (ucast w :: 32 word))) :: 16 word) n = bit w n"
    by cases (simp_all add: bit_shift_in bit_simps less_diff_conv2)
qed

lemma uuid_ok_cases:
  assumes "uuid_ok u"
  obtains a b c d e f g h i j ns where "u = a # b # c # d # e # f # g # h # i # j # ns" "length ns = 6"
  using assms by (auto simp: uuid_ok_def numeral_eq_Suc length_Suc_conv)

lemma unpack_Cons:
  "length ns = 6 \<Longrightarrow> tiny_uuid_unpack (a # b # c # d # e # f # g # h # i # j # ns) =
     \<lparr>time_low = shift_in (shift_in (shift_in (ucast a) b) c) d,
      time_mid = ucast (shift_in (ucast e) f), time_hi_and_version = ucast (shift_in (ucast g) h),
      clock_seq = ucast (shift_in (ucast i) j), node = ns\<rparr>"
  by (simp add: tiny_uuid_unpack_def)

lemma pack_unpack: "uuid_ok u \<Longrightarrow> tiny_uuid_pack (tiny_uuid_unpack u) = u"
  by (erule uuid_ok_cases)
    (auto simp: unpack_Cons tiny_uuid_pack_def Let_def bit_simps bit_shift_in dest: bit_byte
       intro!: bit_word_eqI)

lemma unpack_pack:
  assumes "length (node t) = 6"
  shows "tiny_uuid_unpack (tiny_uuid_pack t) = t"
  using assms unfolding tiny_uuid_pack_def Let_def
  by (simp add: unpack_Cons bytes_of_word bytes_of_half)

lemma unpack_inj: "uuid_ok u \<Longrightarrow> uuid_ok v \<Longrightarrow> tiny_uuid_unpack u = tiny_uuid_unpack v \<longleftrightarrow> u = v"
  using pack_unpack by metis

lemma unpack_node: "uuid_ok u \<Longrightarrow> length (node (tiny_uuid_unpack u)) = 6"
  by (simp add: tiny_uuid_unpack_def uuid_ok_def)

subsection \<open>Text pieces\<close>

lemma show_hex_split: "show_hex u (m + n) k = show_hex u m (k div 16 ^ n) @ show_hex u n k"
  by (induction n arbitrary: k) (simp_all add: div_mult2_eq)

lemma show_hex_mod: "show_hex u n (k mod 16 ^ n) = show_hex u n k"
proof (induction n arbitrary: k)
  case (Suc n)
  have d: "k mod (16 * 16 ^ n) div 16 = k div 16 mod 16 ^ n"
    by (metis mod_mult2_eq div_mult_mod_eq mod_mult_self2 mult.commute nonzero_mult_div_cancel_left
        div_mult_self1 mod_div_trivial add_0 zero_neq_numeral add.commute)
  have m: "k mod (16 * 16 ^ n) mod 16 = k mod 16" by (simp add: mod_mod_cancel)
  show ?case using Suc [of "k div 16"] d m by simp
qed simp

lemma show_hex_half:
  "show_hex u 2 (unat (drop_bit 8 (w :: 16 word))) @ show_hex u 2 (unat (w AND 0xFF)) = show_hex u 4 (unat w)"
proof -
  have "unat (drop_bit 8 w) = unat w div 16 ^ 2"
    by (simp add: drop_bit_eq_div unat_div)
  moreover have "w AND 0xFF = take_bit 8 w" by (simp add: take_bit_eq_mask mask_numeral)
  then have "unat (w AND 0xFF) = unat w mod 16 ^ 2"
    by (simp add: take_bit_eq_mod unat_mod)
  ultimately show ?thesis using show_hex_split [of u 2 2 "unat w"] show_hex_mod [of u 2 "unat w"]
    by simp
qed

lemma strtoul16_xdigits:
  assumes "\<forall>c \<in> set s. isxdigit c" and "s \<noteq> []" and "length s \<le> 8" and "t = [] \<or> hd t = CHR ''-''"
  shows "strtoul16 (s @ t) = word_of_nat (hex_val 0 s)"
proof -
  obtain c cs where s: "s = c # cs" using assms(2) by (cases s) auto
  have c: "isxdigit c" using assms(1) s by simp
  have sp: "\<not> isspace c" "c \<noteq> CHR ''-''" "c \<noteq> CHR ''+''"
    using c by (auto simp: isxdigit_def isdigit_def isspace_def)
  have "tolower x \<noteq> CHR ''x''" if "x = CHR ''-'' \<or> isxdigit x" for x
  proof
    assume "tolower x = CHR ''x''"
    then have "(of_char (tolower x) :: nat) = 120" by simp
    with that show False by (auto simp: isxdigit_def isdigit_def tolower_def split: if_splits)
  qed
  then have dig: "strtoul16_digits (s @ t) = hex_val 0 (s @ t)"
    using assms(1,4) s
    by (cases cs; cases t) (auto simp: strtoul16_digits_def split: list.splits)
  have "hex_val 0 (s @ t) = hex_val 0 s"
    using assms(1,4) by (simp add: hex_val_append_stop)
  moreover have "hex_val 0 s < 16 ^ 8"
    using hex_val_bound [of s] assms(1) power_increasing [OF assms(3), of "16 :: nat"] by linarith
  ultimately show ?thesis
    using sp dig s by (simp add: strtoul16_def Let_def min_def)
qed

definition uuid_text :: "string \<Rightarrow> string \<Rightarrow> string \<Rightarrow> string \<Rightarrow> string \<Rightarrow> string" where
  "uuid_text a b c d e = a @ CHR ''-'' # b @ CHR ''-'' # c @ CHR ''-'' # d @ CHR ''-'' # e"

definition uuid_pieces :: "string \<Rightarrow> string \<Rightarrow> string \<Rightarrow> string \<Rightarrow> string \<Rightarrow> bool" where
  "uuid_pieces a b c d e \<longleftrightarrow> length a = 8 \<and> length b = 4 \<and> length c = 4 \<and> length d = 4 \<and> length e = 12
     \<and> (\<forall>x \<in> set (a @ b @ c @ d @ e). isxdigit x)"

lemma uuid_check_run:
  "\<forall>x \<in> set a. isxdigit x \<Longrightarrow> \<forall>k \<in> {8, 13, 18, 23}. k < i \<or> i + length a \<le> k \<Longrightarrow>
     i + length a \<le> 36 \<Longrightarrow> uuid_check i (a @ t) = uuid_check (i + length a) t"
  by (induction a arbitrary: i) auto

lemma uuid_check_text: "uuid_pieces a b c d e \<Longrightarrow> uuid_check 0 (uuid_text a b c d e)"
  by (simp add: uuid_pieces_def uuid_text_def uuid_check_run ball_Un uuid_check_run [of e _ "[]", simplified])

lemma uuid_check_nth:
  "length s + i = 36 \<Longrightarrow> uuid_check i s \<longleftrightarrow>
     (\<forall>k < length s. if i + k \<in> {8, 13, 18, 23} then s ! k = CHR ''-'' else isxdigit (s ! k))"
  by (induction s arbitrary: i) (auto simp: All_less_Suc2)

lemma uuid_check_pieces:
  assumes "length s = 36" and "uuid_check 0 s"
  obtains a b c d e where "s = uuid_text a b c d e" and "uuid_pieces a b c d e"
proof -
  have nth: "if k \<in> {8, 13, 18, 23} then s ! k = CHR ''-'' else isxdigit (s ! k)" if "k < 36" for k
    using uuid_check_nth [of s 0] assms that by simp
  have part: "\<forall>x \<in> set (take n (drop m s)). isxdigit x"
    if "m + n \<le> 36" "\<forall>k \<in> {8, 13, 18, 23}. k < m \<or> m + n \<le> k" for m n
  proof
    fix x assume "x \<in> set (take n (drop m s))"
    then obtain k where k: "k < n" "x = s ! (m + k)"
      using assms(1) that(1) by (auto simp: in_set_conv_nth)
    then have "m + k \<notin> {8, 13, 18, 23}" using that(2) by auto
    with nth [of "m + k"] k that(1) show "isxdigit x" by simp
  qed
  have dash: "drop k s = CHR ''-'' # drop (Suc k) s" if "k \<in> {8, 13, 18, 23}" for k
    using Cons_nth_drop_Suc [of k s] nth [of k] that assms(1) by auto
  have split: "drop m s = take n (drop m s) @ drop (m + n) s" for m n
    by (metis append_take_drop_id drop_drop add.commute)
  have "s = uuid_text (take 8 (drop 0 s)) (take 4 (drop 9 s)) (take 4 (drop 14 s))
      (take 4 (drop 19 s)) (take 12 (drop 24 s))"
    unfolding uuid_text_def
    using split [of 0 8] dash [of 8] split [of 9 4] dash [of 13] split [of 14 4] dash [of 18]
      split [of 19 4] dash [of 23] split [of 24 12] assms(1) by simp
  moreover have "uuid_pieces (take 8 (drop 0 s)) (take 4 (drop 9 s)) (take 4 (drop 14 s))
      (take 4 (drop 19 s)) (take 12 (drop 24 s))"
    unfolding uuid_pieces_def set_append ball_Un
    using assms(1) part [of 0 8] part [of 9 4] part [of 14 4] part [of 19 4] part [of 24 12] by simp
  ultimately show ?thesis by (rule that)
qed

subsection \<open>Parsing and printing\<close>

lemma concat_pairs:
  "length s = 12 \<Longrightarrow> concat (map (\<lambda>i. take 2 (drop (2 * i) s)) [0, 1, 2, 3, 4, 5]) = s"
  by (auto simp: numeral_eq_Suc length_Suc_conv)

lemma ucast_word_of_nat:
  "LENGTH('b::len) \<le> LENGTH('a::len) \<Longrightarrow> ucast (word_of_nat n :: 'a word) = (word_of_nat n :: 'b word)"
  by (simp add: unsigned_of_nat word_of_nat_eq_iff take_bit_take_bit min_def)

lemma generate_pieces:
  assumes "uuid_pieces a b c d e"
  shows "tiny_uuid_generate_from_string u (uuid_text a b c d e) 36 =
    (TINY_RET_OK, tiny_uuid_pack
      \<lparr>time_low = word_of_nat (hex_val 0 a), time_mid = word_of_nat (hex_val 0 b),
       time_hi_and_version = word_of_nat (hex_val 0 c), clock_seq = word_of_nat (hex_val 0 d),
       node = map (\<lambda>i. word_of_nat (hex_val 0 (take 2 (drop (2 * i) e)))) [0, 1, 2, 3, 4, 5]\<rparr>)"
proof -
  note p = assms [unfolded uuid_pieces_def]
  have x: "\<forall>x \<in> set s. isxdigit x" if "s \<in> {a, b, c, d, e}" for s
    using p that by auto
  have "strtoul16 (s @ CHR ''-'' # t) = word_of_nat (hex_val 0 s)" if "s \<in> {a, b, c, d}" for s t
    using p that x [of s] by (intro strtoul16_xdigits) auto
  then have ne: "strtoul16 (a @ CHR ''-'' # t) = word_of_nat (hex_val 0 a)"
      "strtoul16 (b @ CHR ''-'' # t) = word_of_nat (hex_val 0 b)"
      "strtoul16 (c @ CHR ''-'' # t) = word_of_nat (hex_val 0 c)"
      "strtoul16 (d @ CHR ''-'' # t) = word_of_nat (hex_val 0 d)" for t
    by auto
  have "strtoul16 (take 2 (drop (2 * i) e) @ []) = word_of_nat (hex_val 0 (take 2 (drop (2 * i) e)))"
    if "i \<le> 5" for i
    using p that x [of e] by (intro strtoul16_xdigits) (auto dest!: in_set_takeD in_set_dropD)
  then have node: "strtoul16 (take 2 (drop (2 * i) e)) = word_of_nat (hex_val 0 (take 2 (drop (2 * i) e)))"
    if "i \<le> 5" for i
    using that by simp
  have drops: "drop 9 (uuid_text a b c d e) = b @ CHR ''-'' # c @ CHR ''-'' # d @ CHR ''-'' # e"
      "drop 14 (uuid_text a b c d e) = c @ CHR ''-'' # d @ CHR ''-'' # e"
      "drop 19 (uuid_text a b c d e) = d @ CHR ''-'' # e"
      "drop 24 (uuid_text a b c d e) = e"
    using p by (simp_all add: uuid_text_def)
  have drop24: "drop (24 + k) (uuid_text a b c d e) = drop k e" for k
    using drops(4) by (metis drop_drop add.commute)
  have dash0: "strtoul16 (uuid_text a b c d e) = word_of_nat (hex_val 0 a)"
    unfolding uuid_text_def by (rule ne)
  show ?thesis
    unfolding tiny_uuid_generate_from_string_def drops drop24 dash0 ne
    using node [of 0] node [of 1] node [of 2] node [of 3] node [of 4] node [of 5] uuid_check_text [OF assms]
    by (simp add: ucast_word_of_nat)
qed

lemma uuid_to_string_pieces:
  assumes "uuid_ok u"
  defines "t \<equiv> tiny_uuid_unpack u"
  shows "tiny_uuid_to_string u TINY_UUID_LEN upper =
    uuid_text (show_hex upper 8 (unat (time_low t))) (show_hex upper 4 (unat (time_mid t)))
      (show_hex upper 4 (unat (time_hi_and_version t))) (show_hex upper 4 (unat (clock_seq t)))
      (concat (map (\<lambda>b. show_hex upper 2 (unat b)) (node t)))"
proof -
  have "length (concat (map (\<lambda>b. show_hex upper 2 (unat b)) (node t))) = 12"
    using unpack_node [OF assms(1)] by (simp add: length_concat comp_def sum_list_triv t_def)
  then show ?thesis
    using show_hex_half [of upper "clock_seq t"]
    by (simp add: tiny_uuid_to_string_def t_def [symmetric] Let_def uuid_text_def TINY_UUID_LEN_def
        field_printf_def)
qed

lemma hex_byte: "word_of_nat (hex_val 0 (show_hex upper 2 (unat (b :: 8 word)))) = b"
  using unsigned_less [of b, where ?'a = nat] by (simp add: hex_val_show_hex)

lemma hex_half: "word_of_nat (hex_val 0 (show_hex upper 4 (unat (w :: 16 word)))) = w"
  using unsigned_less [of w, where ?'a = nat] by (simp add: hex_val_show_hex)

lemma hex_word: "word_of_nat (hex_val 0 (show_hex upper 8 (unat (w :: 32 word)))) = w"
  using unsigned_less [of w, where ?'a = nat] by (simp add: hex_val_show_hex)

lemma show_byte: "length s = 2 \<Longrightarrow> \<forall>c \<in> set s. isxdigit c \<Longrightarrow>
    show_hex False 2 (unat (word_of_nat (hex_val 0 s) :: 8 word)) = map tolower s"
  using show_hex_hex_val [of s] hex_val_bound [of s] by (simp add: unsigned_of_nat take_bit_nat_eq_self)

lemma show_half: "length s = 4 \<Longrightarrow> \<forall>c \<in> set s. isxdigit c \<Longrightarrow>
    show_hex False 4 (unat (word_of_nat (hex_val 0 s) :: 16 word)) = map tolower s"
  using show_hex_hex_val [of s] hex_val_bound [of s] by (simp add: unsigned_of_nat take_bit_nat_eq_self)

lemma show_word: "length s = 8 \<Longrightarrow> \<forall>c \<in> set s. isxdigit c \<Longrightarrow>
    show_hex False 8 (unat (word_of_nat (hex_val 0 s) :: 32 word)) = map tolower s"
  using show_hex_hex_val [of s] hex_val_bound [of s] by (simp add: unsigned_of_nat take_bit_nat_eq_self)

lemma parse_to_string:
  assumes "uuid_ok u"
  shows "tiny_uuid_generate_from_string v (tiny_uuid_to_string u TINY_UUID_LEN upper) 36 = (TINY_RET_OK, u)"
proof -
  define t where "t = tiny_uuid_unpack u"
  have n: "length (node t) = 6" using unpack_node [OF assms] by (simp add: t_def)
  then obtain n0 n1 n2 n3 n4 n5 where nt: "node t = [n0, n1, n2, n3, n4, n5]"
    by (auto simp: numeral_eq_Suc length_Suc_conv)
  have "take 2 (drop (2 * i) (concat (map (\<lambda>b. show_hex upper 2 (unat b)) (node t)))) =
      show_hex upper 2 (unat (node t ! i))" if "i \<in> {0, 1, 2, 3, 4, 5}" for i
    using that nt by auto
  then have "map (\<lambda>i. word_of_nat (hex_val 0 (take 2 (drop (2 * i)
      (concat (map (\<lambda>b. show_hex upper 2 (unat b)) (node t))))))) [0, 1, 2, 3, 4, 5] = node t"
    using nt by (simp add: hex_byte)
  moreover have "uuid_pieces (show_hex upper 8 (unat (time_low t))) (show_hex upper 4 (unat (time_mid t)))
      (show_hex upper 4 (unat (time_hi_and_version t))) (show_hex upper 4 (unat (clock_seq t)))
      (concat (map (\<lambda>b. show_hex upper 2 (unat b)) (node t)))"
    using show_hex_xdigits by (auto simp: uuid_pieces_def nt)
  ultimately have "tiny_uuid_generate_from_string v (tiny_uuid_to_string u TINY_UUID_LEN upper) 36 =
      (TINY_RET_OK, tiny_uuid_pack \<lparr>time_low = time_low t, time_mid = time_mid t,
        time_hi_and_version = time_hi_and_version t, clock_seq = clock_seq t, node = node t\<rparr>)"
    by (simp only: uuid_to_string_pieces [OF assms] t_def [symmetric] generate_pieces hex_word hex_half)
  moreover have "tiny_uuid_pack t = u" using pack_unpack [OF assms] by (simp add: t_def)
  moreover have "\<lparr>time_low = time_low t, time_mid = time_mid t,
        time_hi_and_version = time_hi_and_version t, clock_seq = clock_seq t, node = node t\<rparr> = t"
    by simp
  ultimately show ?thesis by (simp only:)
qed

lemma to_string_parse:
  assumes "length s = 36" and "uuid_check 0 s"
  shows "\<exists>u. tiny_uuid_generate_from_string v s 36 = (TINY_RET_OK, u) \<and> uuid_ok u
    \<and> tiny_uuid_to_string u TINY_UUID_LEN False = map tolower s"
proof -
  obtain a b c d e where s: "s = uuid_text a b c d e" and p: "uuid_pieces a b c d e"
    using assms by (rule uuid_check_pieces)
  define t where "t = \<lparr>time_low = word_of_nat (hex_val 0 a), time_mid = word_of_nat (hex_val 0 b),
       time_hi_and_version = word_of_nat (hex_val 0 c), clock_seq = word_of_nat (hex_val 0 d),
       node = map (\<lambda>i. word_of_nat (hex_val 0 (take 2 (drop (2 * i) e)))) [0, 1, 2, 3, 4, 5]\<rparr>"
  have ok: "uuid_ok (tiny_uuid_pack t)" by (rule length_tiny_uuid_pack) (simp add: t_def)
  have un: "tiny_uuid_unpack (tiny_uuid_pack t) = t" by (rule unpack_pack) (simp add: t_def)
  have x: "\<forall>x \<in> set z. isxdigit x" if "z \<in> {a, b, c, d, e}" for z
    using p that by (auto simp: uuid_pieces_def)
  have len: "length a = 8" "length b = 4" "length c = 4" "length d = 4" "length e = 12"
    using p by (simp_all add: uuid_pieces_def)
  have pair: "show_hex False 2 (unat (word_of_nat (hex_val 0 (take 2 (drop (2 * i) e))) :: 8 word)) =
      map tolower (take 2 (drop (2 * i) e))" if "i \<le> 5" for i
    using that len x [of e] by (intro show_byte) (auto dest!: in_set_takeD in_set_dropD)
  have "concat (map (\<lambda>b. show_hex False 2 (unat b)) (node t)) =
      map tolower (concat (map (\<lambda>i. take 2 (drop (2 * i) e)) [0, 1, 2, 3, 4, 5]))"
    using pair [of 0] pair [of 1] pair [of 2] pair [of 3] pair [of 4] pair [of 5] by (simp add: t_def)
  then have "concat (map (\<lambda>b. show_hex False 2 (unat b)) (node t)) = map tolower e"
    using concat_pairs [OF len(5)] by (simp only:)
  then have "tiny_uuid_to_string (tiny_uuid_pack t) TINY_UUID_LEN False = map tolower s"
    unfolding uuid_to_string_pieces [OF ok] un
    using len x [of a] x [of b] x [of c] x [of d] by (simp add: t_def show_word show_half uuid_text_def s tolower_def)
  with ok generate_pieces [OF p, of v] show ?thesis by (simp add: s t_def)
qed

lemma length_printed: "uuid_ok u \<Longrightarrow> length (tiny_uuid_to_string u TINY_UUID_LEN upper) = 36"
  using uuid_to_string_pieces [of u upper] unpack_node [of u]
  by (simp add: uuid_text_def length_concat comp_def sum_list_triv)

lemma parse_printed:
  assumes "uuid_ok (uuid_bytes t)"
  shows "TinyUuid_ParseFromString v (Some (fst (TinyUuid_ToString t upper))) =
    (TINY_RET_OK, v\<lparr>uuid_bytes := uuid_bytes t\<rparr>)"
  using parse_to_string [OF assms] length_printed [OF assms]
  by (simp add: TinyUuid_ParseFromString_def TinyUuid_ToString_def Let_def)

lemma printed_chars:
  "uuid_ok (uuid_bytes t) \<Longrightarrow> \<forall>c \<in> set (fst (TinyUuid_ToString t upper)). isxdigit c \<or> c = CHR ''-''"
  using show_hex_xdigits
  by (fastforce simp: TinyUuid_ToString_def Let_def uuid_to_string_pieces uuid_text_def)

subsection \<open>Properties\<close>

text \<open>
  C27. A UUID survives printing and parsing: reading back what \<open>TinyUuid_ToString\<close> printed,
  in either letter case, succeeds and restores the sixteen bytes, whatever the target held.
\<close>

theorem uuid_print_parse:
  assumes "uuid_ok (uuid_bytes t)"
  shows "TinyUuid_ParseFromString v (Some (fst (TinyUuid_ToString t upper))) =
    (TINY_RET_OK, v\<lparr>uuid_bytes := uuid_bytes t\<rparr>)"
  by (rule parse_printed [OF assms])

theorem uuid_print_parse_witness:
  "TinyUuid_ParseFromString \<lparr>uuid_string = [], uuid_bytes = replicate 16 0\<rparr>
     (Some (fst (TinyUuid_ToString \<lparr>uuid_string = [], uuid_bytes = map word_of_nat [0..<16]\<rparr> True))) =
    (TINY_RET_OK, \<lparr>uuid_string = [], uuid_bytes = replicate 16 0\<rparr>
       \<lparr>uuid_bytes := uuid_bytes \<lparr>uuid_string = [], uuid_bytes = map word_of_nat [0..<16]\<rparr>\<rparr>)"
  by (rule uuid_print_parse) (simp add: uuid_ok_def)

text \<open>
  The parser accepts exactly the text form of a UUID: \<open>TinyUuid_ParseFromString\<close>
  succeeds when the text is 36 characters long, with a dash at 8, 13, 18 and 23 and a hex
  digit everywhere else; then printing the parsed value gives the text back in lower case.
  Any other text is rejected with \<open>TINY_RET_E_UUID_INVALID\<close> and changes nothing.
\<close>

theorem uuid_parse_print:
  "if length s = 36 \<and> (\<forall>k < 36. if k \<in> {8, 13, 18, 23} then s ! k = CHR ''-'' else isxdigit (s ! k))
   then \<exists>v. TinyUuid_ParseFromString t (Some s) = (TINY_RET_OK, v) \<and> uuid_ok (uuid_bytes v)
        \<and> fst (TinyUuid_ToString v False) = map tolower s
   else TinyUuid_ParseFromString t (Some s) = (TINY_RET_E_UUID_INVALID, t)"
proof (cases "length s = 36")
  case True
  then have chk: "uuid_check 0 s \<longleftrightarrow>
      (\<forall>k < 36. if k \<in> {8, 13, 18, 23} then s ! k = CHR ''-'' else isxdigit (s ! k))"
    using uuid_check_nth [of s 0] by simp
  show ?thesis
  proof (cases "uuid_check 0 s")
    case ok: True
    then obtain u where "tiny_uuid_generate_from_string (uuid_bytes t) s 36 = (TINY_RET_OK, u)"
        "uuid_ok u" "tiny_uuid_to_string u TINY_UUID_LEN False = map tolower s"
      using to_string_parse [OF True] by blast
    with True ok show ?thesis
      unfolding chk [symmetric]
      by (simp add: TinyUuid_ParseFromString_def TinyUuid_ToString_def Let_def)
  next
    case False
    with True show ?thesis
      unfolding chk [symmetric]
      by (simp add: TinyUuid_ParseFromString_def tiny_uuid_generate_from_string_def)
  qed
qed (auto simp: TinyUuid_ParseFromString_def tiny_uuid_generate_from_string_def)

theorem uuid_parse_print_witness:
  "\<exists>v. TinyUuid_ParseFromString \<lparr>uuid_string = [], uuid_bytes = replicate 16 0\<rparr>
        (Some ''6B29FC40-CA47-1067-B31D-00DD010662DA'') = (TINY_RET_OK, v) \<and> uuid_ok (uuid_bytes v)
     \<and> fst (TinyUuid_ToString v False) = map tolower ''6B29FC40-CA47-1067-B31D-00DD010662DA''"
  using uuid_parse_print [of "''6B29FC40-CA47-1067-B31D-00DD010662DA''"
      "\<lparr>uuid_string = [], uuid_bytes = replicate 16 0\<rparr>"]
  by (simp add: All_less_Suc2 numeral_eq_Suc isxdigit_def isdigit_def)

text \<open>
  \<open>TinyUuid_Equal\<close>, which compares the unpacked fields, is equality of the sixteen
  bytes; \<open>TinyUuid_Copy\<close> makes the copy equal to its source, and \<open>TinyUuid_IsNull\<close> holds
  exactly of the cleared UUID.
\<close>

theorem uuid_equal_copy_null:
  assumes "uuid_ok (uuid_bytes a)" and "uuid_ok (uuid_bytes b)"
  shows "(TinyUuid_Equal (Some a) (Some b) \<longleftrightarrow> uuid_bytes a = uuid_bytes b)
    \<and> TinyUuid_Equal (Some (TinyUuid_Copy a b)) (Some b)
    \<and> (TinyUuid_IsNull (Some a) \<longleftrightarrow> TinyUuid_Equal (Some a) (Some (TinyUuid_Clear b)))"
proof -
  have eq: "TinyUuid_Equal (Some x) (Some y) \<longleftrightarrow> uuid_bytes x = uuid_bytes y"
    if "uuid_ok (uuid_bytes x)" "uuid_ok (uuid_bytes y)" for x y
  proof -
    have "TinyUuid_Equal (Some x) (Some y) \<longleftrightarrow>
        tiny_uuid_unpack (uuid_bytes x) = tiny_uuid_unpack (uuid_bytes y)"
      by (auto simp: TinyUuid_Equal_def Let_def tiny_uuid_unpack_def)
    with unpack_inj that show ?thesis by simp
  qed
  have copy: "uuid_copy_loop n ds ss = ss" if "length ds = n" "length ss = n"
    for n :: nat and ds ss :: uuid_u
    using that by (induction n ds ss rule: uuid_copy_loop.induct) auto
  have null: "uuid_null_loop n bs \<longleftrightarrow> bs = replicate n 0" if "length bs = n" for n and bs :: uuid_u
    using that by (induction n bs rule: uuid_null_loop.induct) auto
  have "uuid_bytes (TinyUuid_Copy a b) = uuid_bytes b"
    using copy [of "uuid_bytes a" 16 "uuid_bytes b"] assms by (simp add: TinyUuid_Copy_def uuid_ok_def)
  then show ?thesis
    using assms eq null [of "uuid_bytes a" 16]
    by (simp add: TinyUuid_IsNull_def TinyUuid_Clear_def uuid_ok_def)
qed

theorem uuid_equal_copy_null_witness:
  "(TinyUuid_Equal (Some \<lparr>uuid_string = [], uuid_bytes = replicate 16 1\<rparr>)
       (Some \<lparr>uuid_string = [], uuid_bytes = replicate 16 2\<rparr>)
     \<longleftrightarrow> uuid_bytes \<lparr>uuid_string = [], uuid_bytes = replicate 16 1\<rparr> =
         uuid_bytes \<lparr>uuid_string = [], uuid_bytes = replicate 16 2\<rparr>)
    \<and> TinyUuid_Equal (Some (TinyUuid_Copy \<lparr>uuid_string = [], uuid_bytes = replicate 16 1\<rparr>
         \<lparr>uuid_string = [], uuid_bytes = replicate 16 2\<rparr>)) (Some \<lparr>uuid_string = [], uuid_bytes = replicate 16 2\<rparr>)
    \<and> (TinyUuid_IsNull (Some \<lparr>uuid_string = [], uuid_bytes = replicate 16 1\<rparr>)
     \<longleftrightarrow> TinyUuid_Equal (Some \<lparr>uuid_string = [], uuid_bytes = replicate 16 1\<rparr>)
          (Some (TinyUuid_Clear \<lparr>uuid_string = [], uuid_bytes = replicate 16 2\<rparr>)))"
  by (rule uuid_equal_copy_null) (simp_all add: uuid_ok_def)

text \<open>
  A generated UUID carries the variant and version bits of RFC 4122: the top bits of the
  clock sequence are \<open>10\<close>, and the version is 4 for random UUIDs and 1 for time-based ones.
\<close>

theorem uuid_generate_version:
  assumes "length node_id = 6" and "unat seq < 0x4000" and "uuid_ok random"
  shows "(let u = linux_uuid_generate have_fd random node_id clock_mid clock_low seq; t = tiny_uuid_unpack u in
     uuid_ok u \<and> drop_bit 14 (clock_seq t) = 2
       \<and> drop_bit 12 (time_hi_and_version t) = (if have_fd then 4 else 1))"
proof -
  have seq: "drop_bit 14 seq = 0" using assms(2)
    by (intro unsigned_word_eqI [where 'a = nat]) (simp add: drop_bit_eq_div unat_div)
  have bits: "drop_bit 14 ((w AND 0x3FFF) OR 0x8000 :: 16 word) = 2"
      "drop_bit 12 ((w AND 0x0FFF) OR 0x4000 :: 16 word) = 4"
      "drop_bit 12 (ucast ((x AND 0x0FFF) OR 0x1000 :: 32 word) :: 16 word) = 1"
      "drop_bit 14 (seq OR 0x8000) = 2" for w :: "16 word" and x :: "32 word"
    using seq by (simp_all add: unsigned_or_eq unsigned_and_eq)
  obtain b bs where "node_id = b # bs" "length bs = 5"
    using assms(1) by (cases node_id) auto
  then show ?thesis
    using bits assms(3)
    by (simp add: linux_uuid_generate_def linux_uuid_generate_random_ex_def
        linux_uuid_generate_time_ex_def Let_def unpack_pack unpack_node length_tiny_uuid_pack)
qed

theorem uuid_generate_version_witness:
  "(let u = linux_uuid_generate False (replicate 16 255) [1, 2, 3, 4, 5, 6] 7 8 9; t = tiny_uuid_unpack u in
     uuid_ok u \<and> drop_bit 14 (clock_seq t) = 2
       \<and> drop_bit 12 (time_hi_and_version t) = (if False then 4 else 1))"
  by (rule uuid_generate_version) (simp_all add: uuid_ok_def)

end
