(* ===== verification/HttpHeader.thy ===== *)
theory HttpHeader
  imports Containers TinyString
begin

section \<open>HTTP headers: \<open>Tiny/Http/HttpHeader.c\<close>\<close>

text \<open>
  An \<open>HttpHeader\<close> is a \<open>TinyList\<close> of \<open>Header\<close> structs with two fields of 256 bytes
  (kept as in \<open>CString\<close>). The parser copies into stack buffers of 256 bytes without a
  bound: writing past one is undefined behaviour, \<open>None\<close>. The byte list handed to the
  parser is the caller's buffer, followed by a terminating NUL; \<open>len\<close> is not used.
\<close>

subsection \<open>Data\<close>

definition HTTP_LINE_LEN :: nat where "HTTP_LINE_LEN = 256"
definition HTTP_MAX_NAME_LEN :: nat where "HTTP_MAX_NAME_LEN = 256"
definition HTTP_MAX_VALUE_LEN :: nat where "HTTP_MAX_VALUE_LEN = 256"

lemmas http_lens [field_defs] = HTTP_LINE_LEN_def HTTP_MAX_NAME_LEN_def HTTP_MAX_VALUE_LEN_def

record Header =
  hname :: string
  hvalue :: string

type_synonym http_header = "Header lspec"

subsection \<open>Operations\<close>

definition HttpHeader_Construct :: "tiny_ret \<times> http_header" where
  "HttpHeader_Construct = (TINY_RET_OK, L_SetDeleteListener True L_new)"

definition HttpHeader_Dispose :: "http_header \<Rightarrow> tiny_ret \<times> http_header" where
  "HttpHeader_Dispose h = (TINY_RET_OK, snd (L_RemoveAll h))"

text \<open>The first allocation is the \<open>Header\<close>, the second the list node.\<close>

definition HttpHeader_Set ::
    "mallocs \<Rightarrow> http_header \<Rightarrow> string option \<Rightarrow> string option \<Rightarrow> http_header \<times> mallocs" where
  "HttpHeader_Set oks h name value = (case (name, value) of
       (Some n, Some v) \<Rightarrow> (case malloc_next oks of
           (False, oks1) \<Rightarrow> (h, oks1)
         | (True, oks1) \<Rightarrow> (case malloc_next oks1 of (ok, oks2) \<Rightarrow>
             (snd (L_AddTail ok (Some \<lparr>hname = field_cpy HTTP_MAX_NAME_LEN n,
                                      hvalue = field_cpy HTTP_MAX_VALUE_LEN v\<rparr>) h), oks2)))
     | _ \<Rightarrow> (h, oks))"

definition HttpHeader_SetInteger ::
    "mallocs \<Rightarrow> http_header \<Rightarrow> string option \<Rightarrow> 32 word \<Rightarrow> http_header \<times> mallocs" where
  "HttpHeader_SetInteger oks h name value = (case name of
       None \<Rightarrow> (h, oks)
     | Some n \<Rightarrow> HttpHeader_Set oks h (Some n) (Some (field_printf 32 (show_nat (unat value)))))"

text \<open>A missing element would be dereferenced: \<open>None\<close>.\<close>

fun header_copy_loop ::
    "mallocs \<Rightarrow> http_header \<Rightarrow> http_header \<Rightarrow> int \<Rightarrow> nat \<Rightarrow> (http_header \<times> mallocs) option" where
  "header_copy_loop oks dst src i 0 = Some (dst, oks)"
| "header_copy_loop oks dst src i (Suc n) = (case L_GetAt src i of
       None \<Rightarrow> None
     | Some h \<Rightarrow> (case HttpHeader_Set oks dst (Some (hname h)) (Some (hvalue h)) of
         (dst1, oks1) \<Rightarrow> header_copy_loop oks1 dst1 src (i + 1) n))"

definition HttpHeader_Copy ::
    "mallocs \<Rightarrow> http_header \<Rightarrow> http_header \<Rightarrow> (http_header \<times> mallocs) option" where
  "HttpHeader_Copy oks dst src = header_copy_loop oks dst src 0 (unat (count src))"

definition HttpHeader_GetCount :: "http_header \<Rightarrow> 32 word" where
  "HttpHeader_GetCount h = count h"

text \<open>Names are compared after \<open>tolower\<close> on their first 255 bytes.\<close>

definition header_key :: "string \<Rightarrow> string" where
  "header_key n = map tolower (take (HTTP_MAX_NAME_LEN - 1) n)"

fun header_get_loop :: "http_header \<Rightarrow> string \<Rightarrow> int \<Rightarrow> nat \<Rightarrow> string option option" where
  "header_get_loop h s1 i 0 = Some None"
| "header_get_loop h s1 i (Suc n) = (case L_GetAt h i of
       None \<Rightarrow> None
     | Some header \<Rightarrow> if strncmp_eq s1 (header_key (hname header)) HTTP_MAX_NAME_LEN
         then Some (Some (hvalue header)) else header_get_loop h s1 (i + 1) n)"

text \<open>The outer option is undefined behaviour, the inner one a NULL result.\<close>

definition HttpHeader_GetValue :: "http_header \<Rightarrow> string option \<Rightarrow> string option option" where
  "HttpHeader_GetValue h name = (case name of
       None \<Rightarrow> Some None
     | Some n \<Rightarrow> header_get_loop h (header_key n) 0 (unat (count h)))"

definition HttpHeader_GetNameAt :: "http_header \<Rightarrow> 32 word \<Rightarrow> string option" where
  "HttpHeader_GetNameAt h index = map_option hname (L_GetAt h (sint index))"

definition HttpHeader_GetValueAt :: "http_header \<Rightarrow> 32 word \<Rightarrow> string option" where
  "HttpHeader_GetValueAt h index = map_option hvalue (L_GetAt h (sint index))"

subsection \<open>Parsing\<close>

text \<open>
  \<open>while (P *p) dst[i++] = *p++\<close> for a buffer of \<open>n\<close> bytes: the bytes copied and the
  pointer after them. \<open>None\<close>: the buffer overflows, or the loop runs past the end.
\<close>

fun copy_while :: "(char \<Rightarrow> bool) \<Rightarrow> nat \<Rightarrow> nat \<Rightarrow> string \<Rightarrow> (string \<times> string) option" where
  "copy_while P n i [] = (if P NUL then None else Some ([], []))"
| "copy_while P n i (c # p) =
     (if P c then (if n \<le> i then None
                   else map_option (\<lambda>(s, q). (c # s, q)) (copy_while P n (i + 1) p))
      else Some ([], c # p))"

lemma copy_while_rest: "copy_while P n i p = Some (s, q) \<Longrightarrow> p = s @ q"
  by (induction P n i p arbitrary: s q rule: copy_while.induct) (auto split: if_splits)

definition is_name_char :: "char \<Rightarrow> bool" where
  "is_name_char c \<longleftrightarrow> is_char (sbyte c) \<and> \<not> is_ctl (sbyte c) \<and> \<not> is_tspecial (sbyte c)"

definition header_start :: "char \<Rightarrow> bool" where
  "header_start c \<longleftrightarrow> is_name_char c \<and> c \<noteq> CR \<or> c = CHR '' '' \<or> c = CHR 0x09"

text \<open>
  One turn of the loop: the header line at \<open>p\<close>. \<open>Some None\<close> is the early return of 0, with
  nothing stored; in the two last tests the header is stored already.
\<close>

definition header_line ::
    "mallocs \<Rightarrow> http_header \<Rightarrow> string \<Rightarrow> (http_header \<times> mallocs \<times> string option) option" where
  "header_line oks h p =
     (if deref p = CHR '' '' \<or> deref p = CHR 0x09 then Some (h, oks, None)
      else do {
        (name, p1) \<leftarrow> copy_while (\<lambda>c. is_name_char c \<and> c \<noteq> CHR '':'') HTTP_MAX_NAME_LEN 0 p;
        if deref p1 \<noteq> CHR '':'' then Some (h, oks, None)
        else do {
          let p2 = tl p1;
          let p3 = (if deref p2 = CHR '' '' then tl p2 else p2);
          (value, p4) \<leftarrow> copy_while (\<lambda>c. c \<noteq> CR) HTTP_MAX_VALUE_LEN 0 p3;
          let stored = HttpHeader_Set oks h (Some name) (Some (c_str value));
          if deref p4 \<noteq> CR then Some (fst stored, snd stored, None)
          else if deref (tl p4) \<noteq> LF then Some (fst stored, snd stored, None)
          else Some (fst stored, snd stored, Some (tl (tl p4)))
        }
      })"

lemma header_line_shorter:
  assumes "header_line oks h p = Some (h1, oks1, Some q)" and "header_start (deref p)"
  shows "length q < length p"
proof -
  from assms obtain name p1 val p4 where
    c1: "copy_while (\<lambda>c. is_name_char c \<and> c \<noteq> CHR '':'') HTTP_MAX_NAME_LEN 0 p = Some (name, p1)"
    and c: "deref p1 = CHR '':''"
    and c2: "copy_while (\<lambda>c. c \<noteq> CR) HTTP_MAX_VALUE_LEN 0
       (if deref (tl p1) = CHR '' '' then tl (tl p1) else tl p1) = Some (val, p4)"
    and q: "q = tl (tl p4)"
    by (auto simp: header_line_def bind_eq_Some_conv Let_def split: if_splits prod.splits)
  have "p1 \<noteq> []" using c by auto
  then have "length (tl p1) < length p1" by (cases p1) auto
  moreover have "length p4 \<le> length (tl p1)"
    using copy_while_rest [OF c2] by (auto split: if_splits dest!: arg_cong [where f = length])
  ultimately show ?thesis using copy_while_rest [OF c1] by (simp add: q)
qed

text \<open>
  The loop and the closing CRLF. The result is the pointer at the final line feed (not past
  it), \<open>Some None\<close> when 0 is returned.
\<close>

function header_loop ::
    "mallocs \<Rightarrow> http_header \<Rightarrow> string \<Rightarrow> (http_header \<times> mallocs \<times> string option) option" where
  "header_loop oks h p =
     (if header_start (deref p) then (case header_line oks h p of
          None \<Rightarrow> None
        | Some (h1, oks1, None) \<Rightarrow> Some (h1, oks1, None)
        | Some (h1, oks1, Some q) \<Rightarrow> header_loop oks1 h1 q)
      else if deref p \<noteq> CR then Some (h, oks, None)
      else if deref (tl p) \<noteq> LF then Some (h, oks, None)
      else Some (h, oks, Some (tl p)))"
  by pat_completeness auto
termination
  by (relation "measure (\<lambda>(oks, h, p). length p)") (auto dest: header_line_shorter)

declare header_loop.simps [simp del]

text \<open>The length of the headers without the last line feed; 0 when they are malformed.\<close>

definition HttpHeader_Parse ::
    "mallocs \<Rightarrow> http_header \<Rightarrow> string \<Rightarrow> (nat \<times> http_header \<times> mallocs) option" where
  "HttpHeader_Parse oks h bytes = (case header_loop oks (snd (L_RemoveAll h)) bytes of
       None \<Rightarrow> None
     | Some (h1, oks1, None) \<Rightarrow> Some (0, h1, oks1)
     | Some (h1, oks1, Some q) \<Rightarrow> Some (length bytes - length q, h1, oks1))"

subsection \<open>Lookup\<close>

definition header_inv :: "http_header \<Rightarrow> bool" where
  "header_inv h \<longleftrightarrow> None \<notin> set (items h) \<and> count_ok h \<and> length (items h) < 2 ^ 31"

definition header_pairs :: "http_header \<Rightarrow> (string \<times> string) list" where
  "header_pairs h = map (\<lambda>x. (hname (the x), hvalue (the x))) (items h)"

lemma header_key_cmp [simp]: "strncmp_eq (header_key a) (header_key b) HTTP_MAX_NAME_LEN \<longleftrightarrow> header_key a = header_key b"
  by (simp add: strncmp_eq_def header_key_def field_defs)

lemma header_key_field [simp]: "header_key (field_cpy HTTP_MAX_NAME_LEN n) = header_key n"
  by (simp add: header_key_def field_defs min_def)

lemma L_GetAt_nth:
  "None \<notin> set (items h) \<Longrightarrow> i < length (items h) \<Longrightarrow> L_GetAt h (int i) = items h ! i \<and> items h ! i \<noteq> None"
  by (auto simp: L_GetAt_def nth_int_of_nat in_set_conv_nth)

lemma header_get_loop:
  assumes "None \<notin> set (items h)" and "i + n = length (items h)"
  shows "header_get_loop h (header_key s) (int i) n =
    Some (map_of (map (\<lambda>(k, v). (header_key k, v)) (drop i (header_pairs h))) (header_key s))"
  using assms(2)
proof (induction n arbitrary: i)
  case 0
  then show ?case by (simp add: header_pairs_def)
next
  case (Suc n)
  then have i: "i < length (items h)" by simp
  then obtain x where x: "items h ! i = Some x" "L_GetAt h (int i) = Some x"
    using L_GetAt_nth [OF assms(1) i] by (cases "items h ! i") auto
  have "drop i (header_pairs h) = (hname x, hvalue x) # drop (Suc i) (header_pairs h)"
    using i x by (simp add: header_pairs_def Cons_nth_drop_Suc [symmetric])
  moreover have "header_get_loop h (header_key s) (int i + 1) n =
      Some (map_of (map (\<lambda>(k, v). (header_key k, v)) (drop (Suc i) (header_pairs h))) (header_key s))"
    using Suc.IH [of "Suc i"] Suc.prems by (simp add: add.commute)
  ultimately show ?case using x by auto
qed

lemma header_count: "header_inv h \<Longrightarrow> unat (count h) = length (items h)"
  by (simp add: header_inv_def count_ok_def unsigned_of_nat take_bit_nat_eq_self)

lemma header_lookup:
  "header_inv h \<Longrightarrow> HttpHeader_GetValue h (Some n) =
     Some (map_of (map (\<lambda>(k, v). (header_key k, v)) (header_pairs h)) (header_key n))"
  using header_get_loop [of h 0 "length (items h)" n] header_count [of h]
  by (simp add: HttpHeader_GetValue_def header_inv_def)

lemma header_set_items:
  "HttpHeader_Set [] h (Some n) (Some v) = (h\<lparr>items := items h @ [Some
     \<lparr>hname = field_cpy HTTP_MAX_NAME_LEN n, hvalue = field_cpy HTTP_MAX_VALUE_LEN v\<rparr>],
     count := count h + 1\<rparr>, [])"
  by (simp add: HttpHeader_Set_def L_AddTail_def)

definition header_set_all :: "(string \<times> string) list \<Rightarrow> http_header \<Rightarrow> http_header" where
  "header_set_all kvs h = fold (\<lambda>(k, v) h. fst (HttpHeader_Set [] h (Some k) (Some v))) kvs h"

lemma header_set_all_Cons [simp]:
  "header_set_all ((k, v) # kvs) h = header_set_all kvs (fst (HttpHeader_Set [] h (Some k) (Some v)))"
  "header_set_all [] h = h"
  by (simp_all add: header_set_all_def)

lemma header_set_all_items:
  "items (header_set_all kvs h) = items h @ map (\<lambda>(k, v). Some
     \<lparr>hname = field_cpy HTTP_MAX_NAME_LEN k, hvalue = field_cpy HTTP_MAX_VALUE_LEN v\<rparr>) kvs
   \<and> count (header_set_all kvs h) = count h + word_of_nat (length kvs)
   \<and> log (header_set_all kvs h) = log h \<and> has_listener (header_set_all kvs h) = has_listener h"
proof (induction kvs arbitrary: h)
  case (Cons kv kvs)
  obtain k v where kv: "kv = (k, v)" by (cases kv)
  show ?case unfolding kv using Cons.IH by (simp add: header_set_items add.assoc)
qed simp

lemma header_inv_set_all:
  "header_inv h \<Longrightarrow> length (items h) + length kvs < 2 ^ 31 \<Longrightarrow> header_inv (header_set_all kvs h)"
  using header_set_all_items [of kvs h] by (auto simp: header_inv_def count_ok_def)

lemma header_pairs_set_all:
  "header_pairs (header_set_all kvs h) = header_pairs h @
     map (\<lambda>(k, v). (field_cpy HTTP_MAX_NAME_LEN k, field_cpy HTTP_MAX_VALUE_LEN v)) kvs"
  using header_set_all_items [of kvs h] by (auto simp: header_pairs_def)

subsection \<open>Printing and parsing\<close>

text \<open>A header line as \<open>HttpMessage_ToBytes\<close> prints it, before it is cut to the line buffer.\<close>

definition header_text :: "string \<times> string \<Rightarrow> string" where
  "header_text kv = fst kv @ '': '' @ snd kv @ [CR, LF]"

text \<open>The headers that survive: a token for a name, a value without CR that fits its buffer.\<close>

definition plain_header :: "string \<times> string \<Rightarrow> bool" where
  "plain_header kv \<longleftrightarrow> fst kv \<noteq> [] \<and> (\<forall>c \<in> set (fst kv). is_name_char c)
     \<and> length (fst kv) \<le> HTTP_MAX_NAME_LEN
     \<and> CR \<notin> set (snd kv) \<and> cstring (snd kv) \<and> length (snd kv) \<le> HTTP_MAX_VALUE_LEN"

lemma copy_while_stop:
  "\<forall>c \<in> set s. P c \<Longrightarrow> \<not> P c \<Longrightarrow> i + length s \<le> n \<Longrightarrow> copy_while P n i (s @ c # q) = Some (s, c # q)"
  by (induction s arbitrary: i) auto

lemma not_name_chars [simp]:
  "\<not> is_name_char (CHR '':'')" "\<not> is_name_char (CHR '' '')" "\<not> is_name_char (CHR 0x09)"
  "\<not> is_name_char CR" "\<not> is_name_char LF" "\<not> is_name_char NUL"
  by (simp_all add: is_name_char_def is_tspecial_def is_ctl_def sbyte_def)

lemma c_str_id: "cstring s \<Longrightarrow> c_str s = s"
  by (auto simp: c_str_def cstring_def)

lemma header_line_text:
  assumes "plain_header kv"
  shows "header_line [] h (header_text kv @ rest) =
    Some (fst (HttpHeader_Set [] h (Some (fst kv)) (Some (snd kv))), [], Some rest)"
proof -
  obtain k v where kv: "kv = (k, v)" by (cases kv)
  note pl = assms [unfolded plain_header_def kv fst_conv snd_conv]
  obtain c k' where k: "k = c # k'" using pl by (cases k) auto
  then have c: "is_name_char c" using pl by simp
  have cn: "copy_while (\<lambda>c. is_name_char c \<and> c \<noteq> CHR '':'') HTTP_MAX_NAME_LEN 0
      (k @ CHR '':'' # CHR '' '' # v @ CR # LF # rest) = Some (k, CHR '':'' # CHR '' '' # v @ CR # LF # rest)"
    using pl by (intro copy_while_stop) auto
  have cv: "copy_while (\<lambda>c. c \<noteq> CR) HTTP_MAX_VALUE_LEN 0 (v @ CR # LF # rest) = Some (v, CR # LF # rest)"
    using pl by (intro copy_while_stop) auto
  have t: "header_text kv @ rest = k @ CHR '':'' # CHR '' '' # v @ CR # LF # rest"
    by (simp add: header_text_def kv)
  have d: "deref (k @ CHR '':'' # CHR '' '' # v @ CR # LF # rest) = c" by (simp add: k)
  have cs: "c \<noteq> CHR '' ''" "c \<noteq> CHR 0x09" using c by auto
  have v: "c_str v = v" using pl by (intro c_str_id) auto
  show ?thesis
    unfolding header_line_def t cn d
    by (simp add: cs cv v kv header_set_items)
qed

lemma header_start_text: "plain_header kv \<Longrightarrow> header_start (deref (header_text kv @ rest))"
  by (cases "fst kv") (auto simp: plain_header_def header_text_def header_start_def)

lemma header_loop_text:
  "\<forall>kv \<in> set kvs. plain_header kv \<Longrightarrow>
     header_loop [] h (concat (map header_text kvs) @ CR # LF # rest) =
     Some (header_set_all kvs h, [], Some (LF # rest))"
proof (induction kvs arbitrary: h)
  case Nil
  show ?case by (subst header_loop.simps) (simp add: header_start_def)
next
  case (Cons kv kvs)
  then have p: "plain_header kv" by simp
  define q where "q = concat (map header_text kvs) @ CR # LF # rest"
  have "header_loop [] h (header_text kv @ q) =
      header_loop [] (fst (HttpHeader_Set [] h (Some (fst kv)) (Some (snd kv)))) q"
    by (subst header_loop.simps) (simp add: header_start_text [OF p] header_line_text [OF p])
  then show ?case
    using Cons by (cases kv) (simp add: q_def)
qed

subsection \<open>Properties\<close>

text \<open>
  Looking up a header is case-insensitive and the first one set wins: after setting a
  list of headers on a well-formed header list (memory available), the value of a name is
  the first, among the old headers and then the new ones, whose name agrees on its first 255
  characters after \<open>tolower\<close>, and NULL when there is none. The lookup never dereferences a
  missing element.
\<close>

theorem header_first_wins:
  assumes "header_inv h" and "length (items h) + length kvs < 2 ^ 31"
  shows "HttpHeader_GetValue (header_set_all kvs h) (Some n) =
    Some (map_of (map (\<lambda>(k, v). (header_key k, v)) (header_pairs h)
        @ map (\<lambda>(k, v). (header_key k, field_cpy HTTP_MAX_VALUE_LEN v)) kvs) (header_key n))"
proof -
  have "map (\<lambda>(k, v). (header_key k, v))
      (map (\<lambda>(k, v). (field_cpy HTTP_MAX_NAME_LEN k, field_cpy HTTP_MAX_VALUE_LEN v)) kvs) =
      map (\<lambda>(k, v). (header_key k, field_cpy HTTP_MAX_VALUE_LEN v)) kvs"
    by (induction kvs) auto
  then show ?thesis
    by (simp only: header_lookup [OF header_inv_set_all [OF assms]] header_pairs_set_all map_append)
qed

theorem header_first_wins_witness:
  "HttpHeader_GetValue (header_set_all [(''HOST'', ''a''), (''Host'', ''b'')] L_new) (Some ''host'') =
    Some (map_of (map (\<lambda>(k, v). (header_key k, v)) (header_pairs L_new)
        @ map (\<lambda>(k, v). (header_key k, field_cpy HTTP_MAX_VALUE_LEN v)) [(''HOST'', ''a''), (''Host'', ''b'')])
      (header_key ''host''))"
  by (rule header_first_wins) (simp_all add: header_inv_def L_new_def count_ok_def)

text \<open>
  Parsing undoes printing: the text of a list of headers (tokens for names, values
  without CR and NUL, each fitting its buffer) closed by an empty line is accepted, replaces
  whatever the list held, and yields the same headers in the same order; the length returned
  leaves the final line feed to the caller.
\<close>

theorem header_parse_print:
  assumes "\<forall>kv \<in> set kvs. plain_header kv"
  shows "HttpHeader_Parse [] h (concat (map header_text kvs) @ CR # LF # rest) =
      Some (length (concat (map header_text kvs)) + 1, header_set_all kvs (snd (L_RemoveAll h)), [])
    \<and> header_pairs (header_set_all kvs (snd (L_RemoveAll h))) = kvs"
proof
  show "HttpHeader_Parse [] h (concat (map header_text kvs) @ CR # LF # rest) =
      Some (length (concat (map header_text kvs)) + 1, header_set_all kvs (snd (L_RemoveAll h)), [])"
    using header_loop_text [OF assms] by (simp add: HttpHeader_Parse_def)
  have "map (\<lambda>(k, v). (field_cpy HTTP_MAX_NAME_LEN k, field_cpy HTTP_MAX_VALUE_LEN v)) kvs = kvs"
    using assms by (intro map_idI) (auto simp: plain_header_def field_cpy_short)
  then show "header_pairs (header_set_all kvs (snd (L_RemoveAll h))) = kvs"
    by (simp add: header_pairs_set_all) (simp add: header_pairs_def L_RemoveAll_def)
qed

theorem header_parse_print_witness:
  "HttpHeader_Parse [] L_new (concat (map header_text [(''ST'', ''upnp:rootdevice''), (''MX'', ''3'')]) @ CR # LF # ''x'') =
      Some (length (concat (map header_text [(''ST'', ''upnp:rootdevice''), (''MX'', ''3'')])) + 1,
        header_set_all [(''ST'', ''upnp:rootdevice''), (''MX'', ''3'')] (snd (L_RemoveAll L_new)), [])
    \<and> header_pairs (header_set_all [(''ST'', ''upnp:rootdevice''), (''MX'', ''3'')] (snd (L_RemoveAll L_new))) =
        [(''ST'', ''upnp:rootdevice''), (''MX'', ''3'')]"
  by (rule header_parse_print)
    (simp add: plain_header_def is_name_char_def is_char_def is_ctl_def is_tspecial_def sbyte_def field_defs)

text \<open>
  A header value of more than 256 bytes overruns the parser's stack buffer: parsing such
  a line has no defined result, whatever follows.
\<close>

theorem header_value_overflow:
  assumes "k \<noteq> []" and "\<forall>c \<in> set k. is_name_char c" and "length k \<le> HTTP_MAX_NAME_LEN"
    and "CR \<notin> set v" and "HTTP_MAX_VALUE_LEN < length v"
  shows "HttpHeader_Parse oks h (k @ '': '' @ v @ rest) = None"
proof -
  obtain c k' where k: "k = c # k'" using assms(1) by (cases k) auto
  then have c: "is_name_char c" using assms(2) by simp
  then have cs: "c \<noteq> CHR '' ''" "c \<noteq> CHR 0x09" "c \<noteq> CR" by auto
  have ov: "copy_while (\<lambda>c. c \<noteq> CR) n i (s @ q) = None" if "CR \<notin> set s" "i \<le> n" "n < i + length s" for s q n i
    using that by (induction s arbitrary: i) auto
  have cn: "copy_while (\<lambda>c. is_name_char c \<and> c \<noteq> CHR '':'') HTTP_MAX_NAME_LEN 0
      (k @ CHR '':'' # CHR '' '' # v @ rest) = Some (k, CHR '':'' # CHR '' '' # v @ rest)"
    using assms(2,3) by (intro copy_while_stop) auto
  have d: "deref (k @ CHR '':'' # CHR '' '' # v @ rest) = c" by (simp add: k)
  have "header_line oks h' (k @ CHR '':'' # CHR '' '' # v @ rest) = None" for h'
    unfolding header_line_def cn d using ov [OF assms(4), of 0 HTTP_MAX_VALUE_LEN rest] assms(5)
    by (simp add: cs)
  then have "header_loop oks h' (k @ CHR '':'' # CHR '' '' # v @ rest) = None" for h'
    by (subst header_loop.simps) (simp add: d header_start_def c cs)
  then show ?thesis by (simp add: HttpHeader_Parse_def)
qed

theorem header_value_overflow_witness:
  "HttpHeader_Parse [] L_new (''USN'' @ '': '' @ replicate 300 (CHR ''a'') @ [CR, LF]) = None"
  by (rule header_value_overflow)
    (simp_all add: is_name_char_def is_char_def is_ctl_def is_tspecial_def sbyte_def field_defs)

end
