(* ===== verification/HttpMessage.thy ===== *)
theory HttpMessage
  imports HttpHeader
begin

section \<open>HTTP messages: \<open>Tiny/Http/HttpContent.c\<close> and \<open>HttpMessage.c\<close>\<close>

text \<open>
  A message is parsed from and printed to bytes. Undefined behaviour (\<open>None\<close>) is a write
  past one of the fixed buffers, a read of a field that has lost its terminator, a signed
  overflow in a number, or a read past the caller's buffer. The end of the byte list reads as
  a NUL.
\<close>

subsection \<open>HttpContent\<close>

record http_content =
  cbuf :: "char list option"
  buf_size :: "32 word"
  data_size :: "32 word"

definition HTTP_CONTENT_MAX_SIZE :: nat where "HTTP_CONTENT_MAX_SIZE = 1024 * 1024 * 8"

definition HttpContent_Construct :: "tiny_ret \<times> http_content" where
  "HttpContent_Construct = (TINY_RET_OK, \<lparr>cbuf = None, buf_size = 0, data_size = 0\<rparr>)"

text \<open>It returns \<open>TINY_RET_E_NOT_IMPLEMENTED\<close>, which its callers ignore.\<close>

definition HttpContent_Dispose :: "http_content \<Rightarrow> tiny_ret \<times> http_content" where
  "HttpContent_Dispose c = (TINY_RET_E_NOT_IMPLEMENTED,
     (if cbuf c \<noteq> None then \<lparr>cbuf = None, buf_size = 0, data_size = 0\<rparr> else c))"

definition HttpContent_SetSize :: "bool \<Rightarrow> http_content \<Rightarrow> 32 word \<Rightarrow> tiny_ret \<times> http_content" where
  "HttpContent_SetSize ok c n =
     (let c1 = snd (HttpContent_Dispose c) in
      if HTTP_CONTENT_MAX_SIZE < unat n then (TINY_RET_E_OUT_OF_MEMORY, c1)
      else if \<not> ok then (TINY_RET_E_OUT_OF_MEMORY, c1\<lparr>cbuf := None\<rparr>)
      else (TINY_RET_OK, c1\<lparr>cbuf := Some (replicate (unat n) NUL), buf_size := n\<rparr>))"

text \<open>\<open>memcpy\<close> of the first \<open>n\<close> bytes of \<open>src\<close> to offset \<open>i\<close> of a buffer.\<close>

definition memcpy_at :: "char list \<Rightarrow> nat \<Rightarrow> char list \<Rightarrow> nat \<Rightarrow> char list option" where
  "memcpy_at buf i src n =
     (if i + n \<le> length buf \<and> n \<le> length src
      then Some (take i buf @ take n src @ drop (i + n) buf) else None)"

definition HttpContent_AddObject ::
    "http_content \<Rightarrow> char list option \<Rightarrow> 32 word \<Rightarrow> (tiny_ret \<times> http_content) option" where
  "HttpContent_AddObject c dat n = (case dat of
       None \<Rightarrow> Some (TINY_RET_E_ARG_NULL, c)
     | Some d \<Rightarrow>
         if buf_size c - data_size c < n then Some (TINY_RET_E_ARG_INVALID, c)
         else (case cbuf c of
             None \<Rightarrow> if n = 0 then Some (TINY_RET_OK, c) else None
           | Some b \<Rightarrow> (case memcpy_at b (unat (data_size c)) d (unat n) of
               None \<Rightarrow> None
             | Some b' \<Rightarrow> Some (TINY_RET_OK, c\<lparr>cbuf := Some b', data_size := data_size c + n\<rparr>))))"

text \<open>The old buffer of the target is not freed, and stays when the source is empty.\<close>

definition HttpContent_Copy :: "bool \<Rightarrow> http_content \<Rightarrow> http_content \<Rightarrow> http_content option" where
  "HttpContent_Copy ok dst src =
     (let d1 = dst\<lparr>buf_size := buf_size src, data_size := data_size src\<rparr> in
      if 0 < buf_size src then
        (if ok then (case cbuf src of
             None \<Rightarrow> None
           | Some b \<Rightarrow> map_option (\<lambda>b'. d1\<lparr>cbuf := Some b'\<rparr>)
               (memcpy_at (replicate (unat (buf_size src)) NUL) 0 b (unat (buf_size src))))
         else Some (d1\<lparr>cbuf := None\<rparr>))
      else Some d1)"

definition HttpContent_IsFull :: "http_content \<Rightarrow> bool" where
  "HttpContent_IsFull c \<longleftrightarrow> buf_size c = data_size c"

definition HttpContent_GetSize :: "http_content \<Rightarrow> 32 word" where
  "HttpContent_GetSize c = buf_size c"

definition HttpContent_GetObject :: "http_content \<Rightarrow> char list option" where
  "HttpContent_GetObject c = cbuf c"

text \<open>The buffer has the size it says, and what was added fits it.\<close>

definition content_inv :: "http_content \<Rightarrow> bool" where
  "content_inv c \<longleftrightarrow> (case cbuf c of
       None \<Rightarrow> buf_size c = 0 \<and> data_size c = 0
     | Some b \<Rightarrow> length b = unat (buf_size c) \<and> data_size c \<le> buf_size c)"

definition content_data :: "http_content \<Rightarrow> char list" where
  "content_data c = (case cbuf c of None \<Rightarrow> [] | Some b \<Rightarrow> take (unat (data_size c)) b)"

subsection \<open>HttpMessage\<close>

datatype http_type = HTTP_UNDEFINED | HTTP_REQUEST | HTTP_RESPONSE

definition HTTP_METHOD_LEN :: nat where "HTTP_METHOD_LEN = 32"
definition HTTP_URI_LEN :: nat where "HTTP_URI_LEN = 256"
definition HTTP_STATUS_LEN :: nat where "HTTP_STATUS_LEN = 256"
definition PROTOCOL_LEN :: nat where "PROTOCOL_LEN = 8"
definition TINY_IP_LEN :: nat where "TINY_IP_LEN = 32"
definition HTTP_STATUS_LINE_MIN_LEN :: nat where "HTTP_STATUS_LINE_MIN_LEN = 14"
definition HTTP_HEAD_LEN :: nat where "HTTP_HEAD_LEN = 256"

lemmas http_message_lens [field_defs] = HTTP_METHOD_LEN_def HTTP_URI_LEN_def HTTP_STATUS_LEN_def
  PROTOCOL_LEN_def TINY_IP_LEN_def HTTP_STATUS_LINE_MIN_LEN_def HTTP_HEAD_LEN_def

record http_message =
  ref :: "32 word"
  mtype :: http_type
  ip :: string
  port :: "16 word"
  protocol_identifier :: string
  req_method :: string
  req_uri :: string
  status_code :: int
  status_text :: string
  major :: int
  minor :: int
  content_length :: "32 word"
  header :: http_header
  content :: http_content

definition HttpMessage_Construct :: "tiny_ret \<times> http_message" where
  "HttpMessage_Construct = (TINY_RET_OK,
     \<lparr>ref = 0, mtype = HTTP_UNDEFINED, ip = [], port = 0,
      protocol_identifier = field_cpy PROTOCOL_LEN ''HTTP'',
      req_method = [], req_uri = [], status_code = 0, status_text = [], major = 0, minor = 0,
      content_length = 0, header = snd HttpHeader_Construct, content = snd HttpContent_Construct\<rparr>)"

definition HttpMessage_Dispose :: "http_message \<Rightarrow> tiny_ret \<times> http_message" where
  "HttpMessage_Dispose m = (TINY_RET_OK,
     m\<lparr>content := snd (HttpContent_Dispose (content m)), header := snd (HttpHeader_Dispose (header m))\<rparr>)"

definition HttpMessage_Copy :: "mallocs \<Rightarrow> http_message \<Rightarrow> http_message \<Rightarrow> http_message option" where
  "HttpMessage_Copy oks dst src = do {
     (h, oks1) \<leftarrow> HttpHeader_Copy oks (header dst) (header src);
     c \<leftarrow> HttpContent_Copy (fst (malloc_next oks1)) (content dst) (content src);
     Some \<lparr>ref = ref src, mtype = mtype src, ip = field_cpy TINY_IP_LEN (ip src), port = port src,
       protocol_identifier = field_cpy PROTOCOL_LEN (protocol_identifier src),
       req_method = field_cpy HTTP_METHOD_LEN (req_method src),
       req_uri = field_cpy HTTP_URI_LEN (req_uri src),
       status_code = status_code src, status_text = field_cpy HTTP_STATUS_LEN (status_text src),
       major = major src, minor = minor src, content_length = content_length src,
       header = h, content = c\<rparr> }"

definition HttpMessage_SetProtocolIdentifier :: "http_message \<Rightarrow> string \<Rightarrow> http_message" where
  "HttpMessage_SetProtocolIdentifier m s = m\<lparr>protocol_identifier := field_cpy PROTOCOL_LEN s\<rparr>"

definition HttpMessage_SetIp :: "http_message \<Rightarrow> string \<Rightarrow> http_message" where
  "HttpMessage_SetIp m s = m\<lparr>ip := field_cpy TINY_IP_LEN s\<rparr>"

definition HttpMessage_SetPort :: "http_message \<Rightarrow> 16 word \<Rightarrow> http_message" where
  "HttpMessage_SetPort m p = m\<lparr>port := p\<rparr>"

definition HttpMessage_SetType :: "http_message \<Rightarrow> http_type \<Rightarrow> http_message" where
  "HttpMessage_SetType m t = m\<lparr>mtype := t\<rparr>"

definition HttpMessage_SetMethod :: "http_message \<Rightarrow> string \<Rightarrow> http_message" where
  "HttpMessage_SetMethod m s = m\<lparr>req_method := field_cpy HTTP_METHOD_LEN s\<rparr>"

definition HttpMessage_SetUri :: "http_message \<Rightarrow> string \<Rightarrow> http_message" where
  "HttpMessage_SetUri m s = m\<lparr>req_uri := field_cpy HTTP_URI_LEN s\<rparr>"

definition HttpMessage_SetResponse :: "http_message \<Rightarrow> int \<Rightarrow> string option \<Rightarrow> http_message" where
  "HttpMessage_SetResponse m code status = (case status of
       None \<Rightarrow> m
     | Some s \<Rightarrow> m\<lparr>status_code := code, status_text := field_cpy HTTP_STATUS_LEN s\<rparr>)"

definition HttpMessage_SetVersion :: "http_message \<Rightarrow> int \<Rightarrow> int \<Rightarrow> http_message" where
  "HttpMessage_SetVersion m a b = m\<lparr>major := a, minor := b\<rparr>"

definition HttpMessage_GetStatus :: "http_message \<Rightarrow> string option" where
  "HttpMessage_GetStatus m = read_field HTTP_STATUS_LEN (status_text m)"

definition HttpMessage_IsMethodEqual :: "http_message \<Rightarrow> string \<Rightarrow> bool option" where
  "HttpMessage_IsMethodEqual m s = map_option (\<lambda>x. STR_EQUAL x s) (read_field HTTP_METHOD_LEN (req_method m))"

definition HttpMessage_SetHeader :: "mallocs \<Rightarrow> http_message \<Rightarrow> string option \<Rightarrow> string option \<Rightarrow> http_message" where
  "HttpMessage_SetHeader oks m name value = m\<lparr>header := fst (HttpHeader_Set oks (header m) name value)\<rparr>"

definition HttpMessage_SetHeaderInteger :: "mallocs \<Rightarrow> http_message \<Rightarrow> string option \<Rightarrow> 32 word \<Rightarrow> http_message" where
  "HttpMessage_SetHeaderInteger oks m name value =
     m\<lparr>header := fst (HttpHeader_SetInteger oks (header m) name value)\<rparr>"

definition HttpMessage_GetHeaderValue :: "http_message \<Rightarrow> string option \<Rightarrow> string option option" where
  "HttpMessage_GetHeaderValue m name = HttpHeader_GetValue (header m) name"

definition HttpMessage_SetContentSize :: "bool \<Rightarrow> http_message \<Rightarrow> 32 word \<Rightarrow> tiny_ret \<times> http_message" where
  "HttpMessage_SetContentSize ok m n =
     (case HttpContent_SetSize ok (content m) n of (ret, c) \<Rightarrow> (ret, m\<lparr>content := c\<rparr>))"

definition HttpMessage_AddContentObject ::
    "http_message \<Rightarrow> char list option \<Rightarrow> 32 word \<Rightarrow> (tiny_ret \<times> http_message) option" where
  "HttpMessage_AddContentObject m bytes n =
     map_option (\<lambda>(ret, c). (ret, m\<lparr>content := c\<rparr>)) (HttpContent_AddObject (content m) bytes n)"

definition HttpMessage_IsContentFull :: "http_message \<Rightarrow> bool" where
  "HttpMessage_IsContentFull m = HttpContent_IsFull (content m)"

text \<open>\<open>HttpMessage_SetRequest\<close>: the outer option is the undefined behaviour of \<open>url_split\<close>.\<close>

definition HttpMessage_SetRequest ::
    "mallocs \<Rightarrow> http_message \<Rightarrow> string option \<Rightarrow> string option \<Rightarrow> (tiny_ret \<times> http_message) option" where
  "HttpMessage_SetRequest oks m method url = (case (method, url) of
       (Some mt, Some u) \<Rightarrow> (case url_split u TINY_IP_LEN 512 of
           None \<Rightarrow> None
         | Some (ret, None) \<Rightarrow> Some (ret, m)
         | Some (ret, Some parts) \<Rightarrow>
             if RET_FAILED ret then Some (ret, m)
             else (let host = field_printf 128 (if url_port parts = 80 then url_ip parts
                      else url_ip parts @ '':'' @ show_nat (unat (url_port parts)));
                    m1 = HttpMessage_SetPort (HttpMessage_SetIp m (url_ip parts)) (url_port parts);
                    m2 = HttpMessage_SetVersion (HttpMessage_SetType m1 HTTP_REQUEST) 1 1;
                    m3 = HttpMessage_SetUri (HttpMessage_SetMethod m2 mt) (url_uri parts)
                in Some (ret, m3\<lparr>header := fst (HttpHeader_Set oks (header m3) (Some ''HOST'') (Some host))\<rparr>)))
     | _ \<Rightarrow> Some (TINY_RET_E_ARG_NULL, m))"

subsection \<open>Parsing\<close>

text \<open>
  The first line. The loaders change the message as they go and return 0 early; their result
  here is the message and the pointer after the line, \<open>None\<close> for 0. \<open>expect\<close> is
  \<open>if (*p++ != c) return 0\<close>, and \<open>load_int\<close> the loop that reads a number, in which an
  \<open>int\<close> overflow is undefined.
\<close>

type_synonym loaded = "(http_message \<times> string option) option"

definition expect :: "char \<Rightarrow> string \<Rightarrow> http_message \<Rightarrow> (string \<Rightarrow> loaded) \<Rightarrow> loaded" where
  "expect c p m k = (if deref p = c then k (tl p) else Some (m, None))"

definition int_ok :: "int \<Rightarrow> bool" where
  "int_ok i \<longleftrightarrow> - (2 ^ 31) \<le> i \<and> i < 2 ^ 31"

fun load_int :: "int \<Rightarrow> string \<Rightarrow> (int \<times> string) option" where
  "load_int v [] = Some (v, [])"
| "load_int v (c # p) =
     (if is_digit (sbyte c)
      then (if int_ok (v * 10 + sbyte c) then load_int (v * 10 + sbyte c - 48) p else None)
      else Some (v, c # p))"

text \<open>\<open>identifier/major.minor\<close>, shared by the two loaders.\<close>

definition load_version :: "string \<Rightarrow> http_message \<Rightarrow> (http_message \<Rightarrow> string \<Rightarrow> loaded) \<Rightarrow> loaded" where
  "load_version p m k = do {
     ident \<leftarrow> read_field PROTOCOL_LEN (protocol_identifier m);
     if \<not> is_prefix ident p then Some (m, None)
     else expect (CHR ''/'') (drop (length ident) p) m (\<lambda>p1.
       if \<not> is_digit (sbyte (deref p1)) then Some (m, None)
       else do {
         (a, p2) \<leftarrow> load_int 0 p1;
         let m1 = m\<lparr>major := a\<rparr>;
         expect (CHR ''.'') p2 m1 (\<lambda>p3.
           if \<not> is_digit (sbyte (deref p3)) then Some (m1, None)
           else do {
             (b, p4) \<leftarrow> load_int 0 p3;
             k (m1\<lparr>minor := b\<rparr>) p4 })
       }) }"

text \<open>
  The index into the status buffer is not reset after the comparison of the identifier, so
  the text is stored behind that many NULs and the field reads as the empty string; the room
  left is smaller by as much.
\<close>

definition HttpMessage_LoadStatusLine :: "http_message \<Rightarrow> string \<Rightarrow> 32 word \<Rightarrow> loaded" where
  "HttpMessage_LoadStatusLine m bytes len =
     (if unat len < HTTP_STATUS_LINE_MIN_LEN then Some (m, None)
      else load_version bytes m (\<lambda>m1 p. expect (CHR '' '') p m1 (\<lambda>p1. do {
        (code, p2) \<leftarrow> load_int 0 p1;
        let m2 = m1\<lparr>status_code := code\<rparr>;
        expect (CHR '' '') p2 m2 (\<lambda>p3. do {
          let i = length (protocol_identifier m2);
          (text, p4) \<leftarrow> copy_while (\<lambda>c. \<not> is_ctl (sbyte c)) HTTP_STATUS_LEN i p3;
          let m3 = m2\<lparr>status_text := (if i = 0 then text else [])\<rparr>;
          expect CR p4 m3 (\<lambda>p5. expect LF p5 m3 (\<lambda>p6.
            Some (m3\<lparr>mtype := HTTP_RESPONSE\<rparr>, Some p6))) }) })))"

definition HttpMessage_LoadRequestLine :: "http_message \<Rightarrow> string \<Rightarrow> 32 word \<Rightarrow> loaded" where
  "HttpMessage_LoadRequestLine m bytes len =
     (if unat len < HTTP_STATUS_LINE_MIN_LEN then Some (m, None)
      else do {
        (mt, p1) \<leftarrow> copy_while (\<lambda>c. is_name_char c \<and> c \<noteq> CHR '' '') HTTP_METHOD_LEN 0 bytes;
        let m1 = m\<lparr>req_method := mt\<rparr>;
        mt_read \<leftarrow> read_field HTTP_METHOD_LEN mt;
        if mt_read = [] then Some (m1, None)
        else expect (CHR '' '') p1 m1 (\<lambda>p2. do {
          (u, p3) \<leftarrow> copy_while (\<lambda>c. \<not> is_ctl (sbyte c) \<and> c \<noteq> CHR '' '') HTTP_URI_LEN 0 p2;
          let m2 = m1\<lparr>req_uri := u\<rparr>;
          u_read \<leftarrow> read_field HTTP_URI_LEN u;
          if u_read = [] then Some (m2, None)
          else expect (CHR '' '') p3 m2 (\<lambda>p4.
            load_version p4 m2 (\<lambda>m3 p5.
              expect CR p5 m3 (\<lambda>p6. expect LF p6 m3 (\<lambda>p7.
                Some (m3\<lparr>mtype := HTTP_REQUEST\<rparr>, Some p7))))) }) })"

text \<open>The first line, either way.\<close>

definition load_first_line :: "http_message \<Rightarrow> string \<Rightarrow> 32 word \<Rightarrow> loaded" where
  "load_first_line m bytes len = (case HttpMessage_LoadStatusLine m bytes len of
       None \<Rightarrow> None
     | Some (m1, Some p) \<Rightarrow> Some (m1, Some p)
     | Some (m1, None) \<Rightarrow> HttpMessage_LoadRequestLine m1 bytes len)"

text \<open>
  \<open>HttpMessage_Parse\<close>. \<open>data_len\<close> is unsigned and is decreased by what the parsers
  consumed, whether or not that exceeds the length the caller gave.
\<close>

definition parse_content :: "mallocs \<Rightarrow> http_message \<Rightarrow> string \<Rightarrow> 32 word \<Rightarrow> (tiny_ret \<times> http_message) option" where
  "parse_content oks m data0 data_len0 =
     (let dat = (if 0 < data_len0 then tl data0 else data0);
          data_len = (if 0 < data_len0 then data_len0 - 1 else data_len0);
          set_size = HttpContent_SetSize (fst (malloc_next oks)) (content m) (content_length m);
          m1 = m\<lparr>content := snd set_size\<rparr>
      in if RET_FAILED (fst set_size) then Some (fst set_size, m1)
         else if 0 < data_len
         then map_option (\<lambda>(ret, c). (fst set_size, m1\<lparr>content := c\<rparr>))
                (HttpContent_AddObject (content m1) (Some dat) data_len)
         else Some (fst set_size, m1))"

definition HttpMessage_Parse ::
    "mallocs \<Rightarrow> http_message \<Rightarrow> string \<Rightarrow> 32 word \<Rightarrow> (tiny_ret \<times> http_message) option" where
  "HttpMessage_Parse oks m bytes len = (case load_first_line m bytes len of
       None \<Rightarrow> None
     | Some (m1, None) \<Rightarrow> Some (TINY_RET_E_HTTP_MSG_INVALID, m1)
     | Some (m1, Some dat) \<Rightarrow> do {
         let data_len = len - word_of_nat (length bytes - length dat);
         (n, h, oks1) \<leftarrow> HttpHeader_Parse oks (header m1) dat;
         let m2 = m1\<lparr>header := h\<rparr>;
         if n = 0 then Some (TINY_RET_E_HTTP_MSG_INVALID, m2)
         else do {
           field \<leftarrow> HttpHeader_GetValue h (Some ''Content-Length'');
           cl \<leftarrow> (case field of None \<Rightarrow> Some 0
                 | Some v \<Rightarrow> map_option (\<lambda>s. word_of_int (atoi s)) (read_field HTTP_MAX_VALUE_LEN v));
           let m3 = m2\<lparr>content_length := cl\<rparr>;
           if cl = 0 then Some (TINY_RET_OK, m3)
           else parse_content oks1 m3 (drop n dat) (data_len - word_of_nat n)
         } })"

subsection \<open>Printing\<close>

text \<open>
  The output so far is what lies before \<open>p\<close>; behind it the buffer holds NULs. \<open>strncpy\<close>
  always writes its full count, so it overruns the buffer when that does not fit.
\<close>

definition put_line :: "nat \<Rightarrow> string \<Rightarrow> nat \<Rightarrow> string \<Rightarrow> string option" where
  "put_line buffer_size out n line =
     (if length out + n \<le> buffer_size then Some (out @ field_printf HTTP_LINE_LEN line) else None)"

definition first_line :: "http_message \<Rightarrow> string option" where
  "first_line m = do {
     ident \<leftarrow> read_field PROTOCOL_LEN (protocol_identifier m);
     let version = ident @ ''/'' @ show_int (major m) @ ''.'' @ show_int (minor m);
     if mtype m = HTTP_REQUEST then do {
       mt \<leftarrow> read_field HTTP_METHOD_LEN (req_method m);
       u \<leftarrow> read_field HTTP_URI_LEN (req_uri m);
       Some (mt @ '' '' @ u @ '' '' @ version @ [CR, LF])
     } else do {
       st \<leftarrow> read_field HTTP_STATUS_LEN (status_text m);
       Some (version @ '' '' @ show_int (status_code m) @ '' '' @ st @ [CR, LF])
     } }"

text \<open>The header lines; a missing header or an unterminated field is undefined.\<close>

definition header_line_at :: "http_header \<Rightarrow> int \<Rightarrow> string option" where
  "header_line_at h i = do {
     x \<leftarrow> L_GetAt h i;
     name \<leftarrow> read_field HTTP_MAX_NAME_LEN (hname x);
     val \<leftarrow> read_field HTTP_MAX_VALUE_LEN (hvalue x);
     Some (header_text (name, val)) }"

fun put_headers :: "nat \<Rightarrow> string \<Rightarrow> http_header \<Rightarrow> int \<Rightarrow> nat \<Rightarrow> string option" where
  "put_headers buffer_size out h i 0 = Some out"
| "put_headers buffer_size out h i (Suc n) = do {
     line \<leftarrow> header_line_at h i;
     out1 \<leftarrow> put_line buffer_size out HTTP_LINE_LEN line;
     put_headers buffer_size out1 h (i + 1) n }"

definition put_content :: "nat \<Rightarrow> string \<Rightarrow> http_content \<Rightarrow> string option" where
  "put_content buffer_size out c = (let n = unat (buf_size c) in
     if 0 < n then (case cbuf c of
         None \<Rightarrow> None
       | Some b \<Rightarrow> if n \<le> length b \<and> length out + n \<le> buffer_size then Some (out @ take n b) else None)
     else Some out)"

text \<open>The result: the code, and the bytes up to \<open>*len\<close> when it is OK.\<close>

definition HttpMessage_ToBytes :: "bool \<Rightarrow> http_message \<Rightarrow> (tiny_ret \<times> string option) option" where
  "HttpMessage_ToBytes ok m =
     (if mtype m = HTTP_UNDEFINED then Some (TINY_RET_E_HTTP_TYPE_INVALID, None)
      else (let buffer_size = word_of_nat HTTP_LINE_LEN + count (header m) * word_of_nat HTTP_HEAD_LEN
                  + buf_size (content m) :: 32 word;
                n = unat buffer_size
            in if \<not> ok then Some (TINY_RET_E_NEW, None)
               else do {
                 line \<leftarrow> first_line m;
                 out1 \<leftarrow> put_line n [] n line;
                 out2 \<leftarrow> put_headers n out1 (header m) 0 (unat (count (header m)));
                 out3 \<leftarrow> put_line n out2 HTTP_LINE_LEN [CR, LF];
                 out4 \<leftarrow> put_content n out3 (content m);
                 Some (TINY_RET_OK, Some out4) }))"

subsection \<open>What is printed\<close>

definition http_text :: "string \<Rightarrow> (string \<times> string) list \<Rightarrow> string \<Rightarrow> string" where
  "http_text line kvs body = line @ concat (map header_text kvs) @ CR # LF # body"

text \<open>
  The messages \<open>HttpMessage_ToBytes\<close> can print: every line fits its 256-byte buffer, no
  field has lost its terminator, and the output before the closing CRLF leaves room for the
  256 bytes \<open>strncpy\<close> is going to write, and for the content.
\<close>

definition headers_fit :: "http_header \<Rightarrow> bool" where
  "headers_fit h \<longleftrightarrow> header_inv h \<and> length (items h) < 2 ^ 20
     \<and> (\<forall>kv \<in> set (header_pairs h). plain_header kv \<and> length (header_text kv) < HTTP_LINE_LEN)"

definition room_ok :: "string \<Rightarrow> http_message \<Rightarrow> bool" where
  "room_ok line m \<longleftrightarrow> length line < HTTP_LINE_LEN
     \<and> length line + length (concat (map header_text (header_pairs (header m))))
       \<le> HTTP_HEAD_LEN * length (items (header m)) + min 254 (unat (buf_size (content m)))"

lemma header_line_at_text:
  assumes "headers_fit h" and "i < length (items h)"
  shows "header_line_at h (int i) = Some (header_text (header_pairs h ! i))
    \<and> length (header_text (header_pairs h ! i)) < HTTP_LINE_LEN"
proof -
  have inv: "None \<notin> set (items h)" using assms(1) by (simp add: headers_fit_def header_inv_def)
  then obtain x where x: "L_GetAt h (int i) = Some x" "items h ! i = Some x"
    using L_GetAt_nth [OF inv assms(2)] by (cases "items h ! i") auto
  have p: "header_pairs h ! i = (hname x, hvalue x)"
    using assms(2) x by (simp add: header_pairs_def)
  have "header_pairs h ! i \<in> set (header_pairs h)"
    using assms(2) by (intro nth_mem) (simp add: header_pairs_def)
  then have fit: "length (header_text (hname x, hvalue x)) < HTTP_LINE_LEN"
    using assms(1) by (auto simp only: headers_fit_def p [symmetric])
  then show ?thesis using x p by (simp add: header_line_at_def header_text_def field_defs)
qed

lemma put_line_fits:
  "length out + n \<le> N \<Longrightarrow> length line < HTTP_LINE_LEN \<Longrightarrow> put_line N out n line = Some (out @ line)"
  by (simp add: put_line_def field_defs)

lemma put_headers_text:
  assumes "headers_fit h" and "HTTP_LINE_LEN * (length (items h) + 1) \<le> N"
    and "i + n = length (items h)" and "length out \<le> 255 * (i + 1)"
  shows "put_headers N out h (int i) n = Some (out @ concat (map header_text (drop i (header_pairs h))))"
  using assms(3,4)
proof (induction n arbitrary: i out)
  case 0
  then show ?case by (simp add: header_pairs_def)
next
  case (Suc n)
  then have i: "i < length (items h)" by simp
  define t where "t = header_text (header_pairs h ! i)"
  have t: "header_line_at h (int i) = Some t" "length t < HTTP_LINE_LEN"
    using header_line_at_text [OF assms(1) i] by (simp_all add: t_def)
  have "put_line N out HTTP_LINE_LEN t = Some (out @ t)"
    using Suc.prems i t(2) assms(2) by (intro put_line_fits) (auto simp: field_defs)
  moreover have "put_headers N (out @ t) h (int i + 1) n =
      Some ((out @ t) @ concat (map header_text (drop (Suc i) (header_pairs h))))"
    using Suc.IH [of "Suc i" "out @ t"] Suc.prems t(2) by (simp add: field_defs add.commute)
  moreover have "drop i (header_pairs h) = header_pairs h ! i # drop (Suc i) (header_pairs h)"
    using i by (intro Cons_nth_drop_Suc [symmetric]) (simp add: header_pairs_def)
  ultimately show ?case using t(1) by (simp add: t_def)
qed

lemma put_content_text:
  "content_inv c \<Longrightarrow> HttpContent_IsFull c \<Longrightarrow> length out + unat (buf_size c) \<le> N \<Longrightarrow>
     put_content N out c = Some (out @ content_data c)"
  by (auto simp: put_content_def content_inv_def content_data_def HttpContent_IsFull_def Let_def
      unat_gt_0 split: option.splits)

lemma to_bytes_text:
  assumes "mtype m \<noteq> HTTP_UNDEFINED" and "first_line m = Some line" and "headers_fit (header m)"
    and "room_ok line m" and "content_inv (content m)" and "HttpContent_IsFull (content m)"
    and "unat (buf_size (content m)) \<le> HTTP_CONTENT_MAX_SIZE"
  shows "HttpMessage_ToBytes True m =
    Some (TINY_RET_OK, Some (http_text line (header_pairs (header m)) (content_data (content m))))"
proof -
  define k where "k = length (items (header m))"
  define cl where "cl = unat (buf_size (content m))"
  have k: "k < 2 ^ 20" and cnt: "count (header m) = word_of_nat k" "unat (count (header m)) = k"
    using assms(3) header_count [of "header m"]
    by (auto simp: k_def headers_fit_def header_inv_def count_ok_def)
  have cl: "cl \<le> 8388608" and clw: "buf_size (content m) = word_of_nat cl"
    using assms(7) by (simp_all add: cl_def HTTP_CONTENT_MAX_SIZE_def)
  have "word_of_nat HTTP_LINE_LEN + count (header m) * word_of_nat HTTP_HEAD_LEN + buf_size (content m) =
      (word_of_nat (256 + k * 256 + cl) :: 32 word)"
    by (simp add: cnt(1) clw field_defs)
  moreover have "unat (word_of_nat (256 + k * 256 + cl) :: 32 word) = 256 + k * 256 + cl"
    using k cl by (intro unat_word_of_nat) simp
  ultimately have N: "unat (word_of_nat HTTP_LINE_LEN + count (header m) * word_of_nat HTTP_HEAD_LEN
      + buf_size (content m)) = 256 + k * 256 + cl"
    by (simp only:)
  have line: "length line < HTTP_LINE_LEN" "length line + length (concat (map header_text (header_pairs (header m))))
      \<le> 256 * k + min 254 cl"
    using assms(4) by (simp_all add: room_ok_def k_def cl_def HTTP_HEAD_LEN_def)
  have o1: "put_line (256 + k * 256 + cl) [] (256 + k * 256 + cl) line = Some line"
    using put_line_fits [of "[]" "256 + k * 256 + cl" "256 + k * 256 + cl" line] line(1) by simp
  have o2: "put_headers (256 + k * 256 + cl) line (header m) 0 k =
      Some (line @ concat (map header_text (header_pairs (header m))))"
    using put_headers_text [OF assms(3), of "256 + k * 256 + cl" 0 k line] line(1)
    by (simp add: k_def [symmetric] field_defs)
  have o3: "put_line (256 + k * 256 + cl) (line @ concat (map header_text (header_pairs (header m))))
      HTTP_LINE_LEN [CR, LF] = Some ((line @ concat (map header_text (header_pairs (header m)))) @ [CR, LF])"
    using line(2) by (intro put_line_fits) (simp_all add: field_defs)
  have o4: "put_content (256 + k * 256 + cl) ((line @ concat (map header_text (header_pairs (header m)))) @ [CR, LF])
      (content m) = Some (((line @ concat (map header_text (header_pairs (header m)))) @ [CR, LF]) @ content_data (content m))"
    using line by (intro put_content_text assms(5,6)) (simp add: cl_def [symmetric])
  show ?thesis
    unfolding HttpMessage_ToBytes_def Let_def N cnt(2) assms(2)
    using assms(1) by (simp add: o1 o2 o3 [simplified] o4 [simplified] http_text_def)
qed

subsection \<open>Parsing what was printed\<close>

lemma dec_val_ge: "\<forall>c \<in> set ds. isdigit c \<Longrightarrow> acc \<le> dec_val acc ds"
proof (induction ds arbitrary: acc)
  case (Cons d ds)
  then have "acc * 10 + digit_val d \<le> dec_val (acc * 10 + digit_val d) ds" by simp
  then show ?case using Cons.prems by simp
qed simp

lemma sbyte_digit: "isdigit d \<Longrightarrow> sbyte d = int (digit_val d) + 48 \<and> digit_val d \<le> 9"
proof -
  assume d: "isdigit d"
  moreover have "int (of_char d) = of_char d" by (rule of_nat_of_char)
  ultimately have "sbyte d = int (of_char d)" by (auto simp: sbyte_def isdigit_def)
  with d show ?thesis by (auto simp: digit_val_def isdigit_def)
qed

lemma load_int_digits:
  "\<forall>c \<in> set ds. isdigit c \<Longrightarrow> \<not> isdigit (deref rest) \<Longrightarrow> dec_val acc ds < 10 ^ 8 \<Longrightarrow>
     load_int (int acc) (ds @ rest) = Some (int (dec_val acc ds), rest)"
proof (induction ds arbitrary: acc)
  case Nil
  then show ?case by (cases rest) (auto simp: is_digit_sbyte)
next
  case (Cons d ds)
  then have d: "isdigit d" and ds: "\<forall>c \<in> set ds. isdigit c" by simp_all
  then have v: "dec_val acc (d # ds) = dec_val (acc * 10 + digit_val d) ds" by simp
  then have "acc * 10 + digit_val d < 10 ^ 8"
    using dec_val_ge [OF ds, of "acc * 10 + digit_val d"] Cons.prems by linarith
  then have "int_ok (int acc * 10 + sbyte d)"
      "int acc * 10 + sbyte d - 48 = int (acc * 10 + digit_val d)"
    using sbyte_digit [OF d] by (auto simp: int_ok_def)
  moreover have "load_int (int (acc * 10 + digit_val d)) (ds @ rest) =
      Some (int (dec_val (acc * 10 + digit_val d) ds), rest)"
    using Cons v by (intro Cons.IH) auto
  ultimately show ?case using d v by (simp only: append_Cons load_int.simps is_digit_sbyte if_True)
qed

definition num_ok :: "int \<Rightarrow> bool" where
  "num_ok i \<longleftrightarrow> 0 \<le> i \<and> i < 10 ^ 8"

lemma load_int_show:
  "num_ok i \<Longrightarrow> \<not> isdigit (deref rest) \<Longrightarrow> load_int 0 (show_int i @ rest) = Some (i, rest)"
  using load_int_digits [of "show_nat (nat i)" rest 0] show_nat_digits [of "nat i"]
  by (simp add: num_ok_def show_int_def nat_less_iff)

lemma deref_show_int: "num_ok i \<Longrightarrow> isdigit (deref (show_int i @ rest))"
  using show_nat_digits [of "nat i"] show_nat_nonempty [of "nat i"]
  by (cases "show_nat (nat i)") (auto simp: num_ok_def show_int_def)

lemma load_version_text:
  assumes "protocol_identifier m = ''HTTP''" and "num_ok a" and "num_ok b" and "\<not> isdigit (deref rest)"
  shows "load_version (''HTTP/'' @ show_int a @ CHR ''.'' # show_int b @ rest) m k =
    k (m\<lparr>major := a, minor := b\<rparr>) rest"
proof -
  have "\<not> isdigit (CHR ''.'')" by (simp add: isdigit_def)
  then have l1: "load_int 0 (show_int a @ CHR ''.'' # show_int b @ rest) = Some (a, CHR ''.'' # show_int b @ rest)"
    using load_int_show [OF assms(2)] by simp
  have l2: "load_int 0 (show_int b @ rest) = Some (b, rest)"
    using load_int_show [OF assms(3,4)] by simp
  show ?thesis
    using deref_show_int [OF assms(2)] deref_show_int [OF assms(3)] assms(1)
    by (simp add: load_version_def read_field_def PROTOCOL_LEN_def expect_def is_digit_sbyte l1 l2 Let_def)
qed

definition printed_version :: "http_message \<Rightarrow> string" where
  "printed_version m = ''HTTP/'' @ show_int (major m) @ CHR ''.'' # show_int (minor m)"

definition version_ok :: "http_message \<Rightarrow> bool" where
  "version_ok m \<longleftrightarrow> protocol_identifier m = ''HTTP'' \<and> num_ok (major m) \<and> num_ok (minor m)"

text \<open>Request lines that survive.\<close>

definition request_ok :: "http_message \<Rightarrow> bool" where
  "request_ok m \<longleftrightarrow> mtype m = HTTP_REQUEST \<and> version_ok m
     \<and> req_method m \<noteq> [] \<and> list_all is_name_char (req_method m) \<and> length (req_method m) < HTTP_METHOD_LEN
     \<and> req_uri m \<noteq> [] \<and> list_all (\<lambda>c. \<not> is_ctl (sbyte c) \<and> c \<noteq> CHR '' '') (req_uri m)
     \<and> length (req_uri m) < HTTP_URI_LEN"

definition request_text :: "http_message \<Rightarrow> string" where
  "request_text m = req_method m @ CHR '' '' # req_uri m @ CHR '' '' # printed_version m @ [CR, LF]"

lemma first_line_request: "request_ok m \<Longrightarrow> first_line m = Some (request_text m)"
  by (simp add: first_line_def request_ok_def version_ok_def request_text_def printed_version_def
      read_field_def PROTOCOL_LEN_def Let_def)

lemma is_ctl_chars [simp]: "is_ctl (sbyte CR)" "is_ctl (sbyte LF)" "is_ctl (sbyte NUL)"
  by (simp_all add: is_ctl_def sbyte_def)

lemma not_isdigit_chars [simp]: "\<not> isdigit CR" "\<not> isdigit (CHR '' '')" "\<not> isdigit NUL"
  by (simp_all add: isdigit_def)

lemma prefix_token:
  "is_prefix p (s @ CHR '' '' # t) \<Longrightarrow> CHR '' '' \<notin> set p \<Longrightarrow> \<exists>u. s = p @ u"
proof (induction p s rule: is_prefix.induct)
  case (2 c cs)
  then show ?case by auto
qed auto

lemma load_status_of_request:
  assumes "request_ok m" and "protocol_identifier m0 = ''HTTP''"
  shows "HttpMessage_LoadStatusLine m0 (request_text m @ rest) len = Some (m0, None)"
proof -
  define t where "t = req_uri m @ CHR '' '' # printed_version m @ [CR, LF] @ rest"
  have t: "request_text m @ rest = req_method m @ CHR '' '' # t"
    by (simp add: request_text_def t_def)
  define x where "x = req_method m @ CHR '' '' # t"
  have no: "deref (drop (length ''HTTP'') x) \<noteq> CHR ''/''" if pre: "is_prefix ''HTTP'' x"
  proof -
    obtain u where u: "req_method m = ''HTTP'' @ u" using prefix_token [OF pre [unfolded x_def]] by auto
    have "\<not> is_name_char (CHR ''/'')" by (simp add: is_name_char_def is_tspecial_def sbyte_def)
    then have "deref (u @ CHR '' '' # t) \<noteq> CHR ''/''"
      using assms(1) u by (cases u) (auto simp: request_ok_def)
    then show ?thesis by (simp add: u x_def)
  qed
  have "load_version x m0 k = Some (m0, None)" for k
    using no by (cases "is_prefix ''HTTP'' x")
      (simp_all add: load_version_def assms(2) read_field_def PROTOCOL_LEN_def expect_def del: is_prefix.simps)
  then show ?thesis by (simp add: HttpMessage_LoadStatusLine_def t x_def [symmetric])
qed

lemma load_request:
  assumes "request_ok m" and "protocol_identifier m0 = ''HTTP''" and "14 \<le> unat len"
  shows "HttpMessage_LoadRequestLine m0 (request_text m @ rest) len =
    Some (m0\<lparr>req_method := req_method m, req_uri := req_uri m, major := major m, minor := minor m,
             mtype := HTTP_REQUEST\<rparr>, Some rest)"
proof -
  note ok = assms(1) [unfolded request_ok_def version_ok_def]
  have "list_all is_name_char (req_method m)" using ok by simp
  then have names: "\<forall>c \<in> set (req_method m). is_name_char c \<and> c \<noteq> CHR '' ''"
    by (auto simp: list_all_iff)
  have uris: "\<forall>c \<in> set (req_uri m). \<not> is_ctl (sbyte c) \<and> c \<noteq> CHR '' ''"
    using ok by (simp add: list_all_iff)
  define t where "t = printed_version m @ CR # LF # rest"
  have c1: "copy_while (\<lambda>c. is_name_char c \<and> c \<noteq> CHR '' '') HTTP_METHOD_LEN 0
      (req_method m @ CHR '' '' # req_uri m @ CHR '' '' # t) =
      Some (req_method m, CHR '' '' # req_uri m @ CHR '' '' # t)"
    using ok by (intro copy_while_stop names) simp_all
  have c2: "copy_while (\<lambda>c. \<not> is_ctl (sbyte c) \<and> c \<noteq> CHR '' '') HTTP_URI_LEN 0 (req_uri m @ CHR '' '' # t) =
      Some (req_uri m, CHR '' '' # t)"
    using ok by (intro copy_while_stop uris) simp_all
  have v: "load_version t m1 k = k (m1\<lparr>major := major m, minor := minor m\<rparr>) (CR # LF # rest)"
    if "protocol_identifier m1 = ''HTTP''" for m1 k
    using load_version_text [OF that, of "major m" "minor m" "CR # LF # rest" k] ok
    by (simp add: t_def printed_version_def)
  have t: "request_text m @ rest = req_method m @ CHR '' '' # req_uri m @ CHR '' '' # t"
    by (simp add: request_text_def t_def)
  show ?thesis
    unfolding HttpMessage_LoadRequestLine_def t c1
    using ok assms(2,3) by (simp add: read_field_def HTTP_STATUS_LINE_MIN_LEN_def expect_def c2 v Let_def)
qed

lemma load_first_request:
  "request_ok m \<Longrightarrow> protocol_identifier m0 = ''HTTP'' \<Longrightarrow> 14 \<le> unat len \<Longrightarrow>
     load_first_line m0 (request_text m @ rest) len =
     Some (m0\<lparr>req_method := req_method m, req_uri := req_uri m, major := major m, minor := minor m,
             mtype := HTTP_REQUEST\<rparr>, Some rest)"
  by (simp add: load_first_line_def load_status_of_request load_request)

text \<open>Status lines.\<close>

definition response_ok :: "http_message \<Rightarrow> bool" where
  "response_ok m \<longleftrightarrow> mtype m = HTTP_RESPONSE \<and> version_ok m \<and> num_ok (status_code m)
     \<and> list_all (\<lambda>c. \<not> is_ctl (sbyte c)) (status_text m) \<and> length (status_text m) \<le> 252"

definition response_text :: "http_message \<Rightarrow> string" where
  "response_text m = printed_version m @ CHR '' '' # show_int (status_code m) @ CHR '' '' # status_text m @ [CR, LF]"

lemma first_line_response: "response_ok m \<Longrightarrow> first_line m = Some (response_text m)"
  by (simp add: first_line_def response_ok_def version_ok_def response_text_def printed_version_def
      read_field_def field_defs Let_def)

lemma load_first_response:
  assumes "response_ok m" and "protocol_identifier m0 = ''HTTP''" and "14 \<le> unat len"
  shows "load_first_line m0 (response_text m @ rest) len =
    Some (m0\<lparr>major := major m, minor := minor m, status_code := status_code m, status_text := [],
             mtype := HTTP_RESPONSE\<rparr>, Some rest)"
proof -
  note ok = assms(1) [unfolded response_ok_def version_ok_def]
  define t where "t = CHR '' '' # status_text m @ CR # LF # rest"
  define x where "x = response_text m @ rest"
  have v: "load_version x m0 k = k (m0\<lparr>major := major m, minor := minor m\<rparr>)
      (CHR '' '' # show_int (status_code m) @ t)" for k
    using load_version_text [OF assms(2), of "major m" "minor m" "CHR '' '' # show_int (status_code m) @ t" k] ok
    by (simp add: x_def response_text_def printed_version_def t_def)
  have c: "load_int 0 (show_int (status_code m) @ t) = Some (status_code m, t)"
    using ok by (intro load_int_show) (simp_all add: t_def)
  have cw: "copy_while (\<lambda>c. \<not> is_ctl (sbyte c)) HTTP_STATUS_LEN (Suc (Suc (Suc (Suc 0)))) (status_text m @ CR # LF # rest) =
      Some (status_text m, CR # LF # rest)"
    using ok by (intro copy_while_stop) (simp_all add: list_all_iff field_defs)
  have "HttpMessage_LoadStatusLine m0 x len =
    Some (m0\<lparr>major := major m, minor := minor m, status_code := status_code m, status_text := [],
             mtype := HTTP_RESPONSE\<rparr>, Some rest)"
    unfolding HttpMessage_LoadStatusLine_def v
    using assms(2,3) by (simp add: expect_def c t_def c [unfolded t_def] cw HTTP_STATUS_LINE_MIN_LEN_def Let_def)
  then show ?thesis by (simp add: load_first_line_def x_def)
qed

text \<open>Headers and content.\<close>

definition fresh_content :: http_content where
  "fresh_content = snd HttpContent_Construct"

definition full_content :: "char list \<Rightarrow> http_content" where
  "full_content b = (if b = [] then fresh_content
     else \<lparr>cbuf = Some b, buf_size = word_of_nat (length b), data_size = word_of_nat (length b)\<rparr>)"

text \<open>A content of which the first part has arrived.\<close>

definition part_content :: "nat \<Rightarrow> char list \<Rightarrow> http_content" where
  "part_content n b = (if n = 0 then fresh_content
     else \<lparr>cbuf = Some (b @ replicate (n - length b) NUL), buf_size = word_of_nat n, data_size = word_of_nat (length b)\<rparr>)"

lemma part_content_whole: "part_content (length b) b = full_content b"
  by (simp add: part_content_def full_content_def)

lemma add_part_content:
  assumes "0 < n" and "n \<le> HTTP_CONTENT_MAX_SIZE" and "length b \<le> n"
  shows "parse_content [] (m\<lparr>content := fresh_content, content_length := word_of_nat n\<rparr>)
      (LF # b) (word_of_nat (Suc (length b))) =
    Some (TINY_RET_OK, m\<lparr>content := part_content n b, content_length := word_of_nat n\<rparr>)"
proof -
  have n: "unat (word_of_nat n :: 32 word) = n" "unat (word_of_nat (length b) :: 32 word) = length b"
    using assms(2,3) by (auto intro!: unat_word_of_nat simp: HTTP_CONTENT_MAX_SIZE_def)
  have "unat (word_of_nat (Suc (length b)) :: 32 word) = Suc (length b)"
    using assms(2,3) by (intro unat_word_of_nat) (simp add: HTTP_CONTENT_MAX_SIZE_def)
  then have pos: "0 < (word_of_nat (Suc (length b)) :: 32 word)"
    by (simp add: word_less_nat_alt del: of_nat_Suc)
  have pos': "0 < (word_of_nat (length b) :: 32 word) \<longleftrightarrow> b \<noteq> []" "\<not> (word_of_nat n :: 32 word) < word_of_nat (length b)"
    using n assms(3) by (auto simp: word_less_nat_alt)
  have dec: "(word_of_nat (Suc (length b)) - 1 :: 32 word) = word_of_nat (length b)" by simp
  have mc: "memcpy_at (replicate n NUL) 0 b (length b) = Some (b @ replicate (n - length b) NUL)"
    using assms(3) by (simp add: memcpy_at_def)
  show ?thesis
    unfolding parse_content_def Let_def dec
    using assms pos pos'
    by (auto simp: fresh_content_def part_content_def HttpContent_Construct_def HttpContent_SetSize_def
        HttpContent_Dispose_def HttpContent_AddObject_def n mc Let_def simp del: of_nat_Suc)
qed

lemma length_replicate_header [simp]: "length (header_text kv) = length (fst kv) + length (snd kv) + 4"
  by (simp add: header_text_def)

lemma parse_part:
  assumes load: "load_first_line m0 (http_text line kvs body) (word_of_nat (length (http_text line kvs body))) =
      Some (m1, Some (http_text [] kvs body))"
    and len: "length (http_text line kvs body) < 2 ^ 32" "length kvs < 2 ^ 20" "n \<le> HTTP_CONTENT_MAX_SIZE" "length body \<le> n"
    and plain: "\<forall>kv \<in> set kvs. plain_header kv \<and> length (header_text kv) < HTTP_LINE_LEN"
    and fresh: "header m1 = snd HttpHeader_Construct" "content m1 = fresh_content"
    and cl: "map_of (map (\<lambda>(k, v). (header_key k, v)) kvs) (header_key ''Content-Length'') =
      (if n = 0 then None else Some (show_nat n))"
  shows "HttpMessage_Parse [] m0 (http_text line kvs body) (word_of_nat (length (http_text line kvs body))) =
    Some (TINY_RET_OK, m1\<lparr>content_length := word_of_nat n,
      header := header_set_all kvs (snd (L_RemoveAll (header m1))), content := part_content n body\<rparr>)"
proof -
  define h where "h = header_set_all kvs (snd (L_RemoveAll (header m1)))"
  define hs where "hs = concat (map header_text kvs)"
  have pl: "\<forall>kv \<in> set kvs. plain_header kv" using plain by blast
  have i0: "header_inv (snd (L_RemoveAll (header m1)))"
      "items (snd (L_RemoveAll (header m1))) = []"
    by (simp_all add: fresh HttpHeader_Construct_def L_RemoveAll_def header_inv_def L_SetDeleteListener_def
        L_new_def count_ok_def)
  have inv: "header_inv h" unfolding h_def using i0 len(2) by (intro header_inv_set_all) simp_all
  have "map (\<lambda>(k, v). (field_cpy HTTP_MAX_NAME_LEN k, field_cpy HTTP_MAX_VALUE_LEN v)) kvs = kvs"
    using pl by (intro map_idI) (auto simp: plain_header_def field_cpy_short)
  then have pairs: "header_pairs h = kvs"
    using i0 by (simp add: h_def header_pairs_set_all header_pairs_def [of "snd (L_RemoveAll (header m1))"])
  have hp: "HttpHeader_Parse [] (header m1) (http_text [] kvs body) = Some (Suc (length hs), h, [])"
    using header_loop_text [OF pl, of "snd (L_RemoveAll (header m1))" body]
    by (simp add: HttpHeader_Parse_def http_text_def h_def hs_def)
  have gv: "HttpHeader_GetValue h (Some ''Content-Length'') =
      Some (if n = 0 then None else Some (show_nat n))"
    by (simp only: header_lookup [OF inv] pairs cl)
  have "length (http_text line kvs body) - length (http_text [] kvs body) = length line"
    by (simp add: http_text_def)
  then have dl: "word_of_nat (length (http_text line kvs body)) - word_of_nat (length (http_text line kvs body)
      - length (http_text [] kvs body)) - word_of_nat (Suc (length hs)) = (word_of_nat (Suc (length body)) :: 32 word)"
    by (simp add: http_text_def hs_def)
  have dr: "drop (Suc (length hs)) (http_text [] kvs body) = LF # body"
    by (simp add: http_text_def hs_def)
  have bl: "n \<le> 8388608" using len(3) by (simp add: HTTP_CONTENT_MAX_SIZE_def)
  then have at: "atoi (show_nat n) = int n"
    using atoi_show_int [of "int n"] by (simp add: show_int_nonneg)
  have nz: "n \<noteq> 0 \<Longrightarrow> (word_of_nat n :: 32 word) \<noteq> 0"
    using unat_word_of_nat [of n, where 'a = 32] bl by fastforce
  have rd: "read_field HTTP_MAX_VALUE_LEN (show_nat n) = Some (show_nat n)" if "n \<noteq> 0"
  proof -
    have "map_of (map (\<lambda>(k, v). (header_key k, v)) kvs) (header_key ''Content-Length'') = Some (show_nat n)"
      using cl that by simp
    then obtain k where "(k, show_nat n) \<in> set kvs" by (auto dest!: map_of_SomeD)
    with plain have "length (show_nat n) < 256" by (fastforce simp: HTTP_LINE_LEN_def)
    then show ?thesis by (simp add: read_field_def HTTP_MAX_VALUE_LEN_def)
  qed
  show ?thesis
  proof (cases "n = 0")
    case True
    show ?thesis
      unfolding HttpMessage_Parse_def load
      by (simp add: hp gv h_def [symmetric] Let_def) (simp add: True part_content_def fresh(2) [symmetric])
  next
    case False
    have "m1\<lparr>header := h, content_length := word_of_nat n\<rparr> =
        (m1\<lparr>header := h\<rparr>)\<lparr>content := fresh_content, content_length := word_of_nat n\<rparr>"
      by (simp add: fresh(2) [symmetric])
    then have "parse_content [] (m1\<lparr>header := h, content_length := word_of_nat n\<rparr>)
        (LF # body) (word_of_nat (Suc (length body))) =
        Some (TINY_RET_OK, (m1\<lparr>header := h\<rparr>)\<lparr>content := part_content n body, content_length := word_of_nat n\<rparr>)"
      using add_part_content [OF _ len(3,4), of "m1\<lparr>header := h\<rparr>"] False by (simp only:)
    then show ?thesis
      using False nz [OF False] unfolding HttpMessage_Parse_def load
      by (simp add: hp gv rd [OF False] at dl dr h_def [symmetric] Let_def del: of_nat_Suc)
  qed
qed

lemma parse_text:
  assumes load: "load_first_line m0 (http_text line kvs body) (word_of_nat (length (http_text line kvs body))) =
      Some (m1, Some (http_text [] kvs body))"
    and len: "length (http_text line kvs body) < 2 ^ 32" "length kvs < 2 ^ 20" "length body \<le> HTTP_CONTENT_MAX_SIZE"
    and plain: "\<forall>kv \<in> set kvs. plain_header kv \<and> length (header_text kv) < HTTP_LINE_LEN"
    and fresh: "header m1 = snd HttpHeader_Construct" "content m1 = fresh_content"
    and cl: "map_of (map (\<lambda>(k, v). (header_key k, v)) kvs) (header_key ''Content-Length'') =
      (if body = [] then None else Some (show_nat (length body)))"
  shows "HttpMessage_Parse [] m0 (http_text line kvs body) (word_of_nat (length (http_text line kvs body))) =
    Some (TINY_RET_OK, m1\<lparr>content_length := word_of_nat (length body),
      header := header_set_all kvs (snd (L_RemoveAll (header m1))), content := full_content body\<rparr>)"
  using parse_part [OF load len order_refl plain fresh] cl by (simp add: part_content_whole)

subsection \<open>Properties\<close>

text \<open>What makes the headers and the content of a message survive the trip.\<close>

definition body_ok :: "http_message \<Rightarrow> bool" where
  "body_ok m \<longleftrightarrow> headers_fit (header m) \<and> content_inv (content m) \<and> HttpContent_IsFull (content m)
     \<and> unat (buf_size (content m)) \<le> HTTP_CONTENT_MAX_SIZE
     \<and> map_of (map (\<lambda>(k, v). (header_key k, v)) (header_pairs (header m))) (header_key ''Content-Length'') =
       (if buf_size (content m) = 0 then None else Some (show_nat (unat (buf_size (content m)))))"

lemma content_data_length:
  "content_inv c \<Longrightarrow> HttpContent_IsFull c \<Longrightarrow> length (content_data c) = unat (buf_size c)"
  by (auto simp: content_inv_def HttpContent_IsFull_def content_data_def split: option.splits)

lemma content_data_full: "length b < 2 ^ 32 \<Longrightarrow> content_data (full_content b) = b"
  by (simp add: content_data_def full_content_def fresh_content_def HttpContent_Construct_def unat_word_of_nat)

lemma http_text_bounds:
  assumes "body_ok m" and "room_ok line m"
  shows "length (http_text line (header_pairs (header m)) (content_data (content m))) < 2 ^ 32"
    and "length (header_pairs (header m)) < 2 ^ 20"
    and "length (content_data (content m)) \<le> HTTP_CONTENT_MAX_SIZE"
proof -
  have cd: "length (content_data (content m)) = unat (buf_size (content m))"
    using assms(1) by (intro content_data_length) (simp_all add: body_ok_def)
  show "length (header_pairs (header m)) < 2 ^ 20"
    using assms(1) by (simp add: body_ok_def headers_fit_def header_pairs_def)
  moreover show "length (content_data (content m)) \<le> HTTP_CONTENT_MAX_SIZE"
    using assms(1) cd by (simp add: body_ok_def)
  moreover have "length line + length (concat (map header_text (header_pairs (header m)))) \<le>
      256 * length (header_pairs (header m)) + 254"
    using assms(2) unfolding room_ok_def HTTP_HEAD_LEN_def header_pairs_def length_map
    by (meson add_le_cancel_left le_trans min.cobounded1)
  ultimately show "length (http_text line (header_pairs (header m)) (content_data (content m))) < 2 ^ 32"
    by (simp add: http_text_def HTTP_CONTENT_MAX_SIZE_def)
qed

lemma parse_body:
  assumes "body_ok m" and "room_ok line m" and "header m1 = snd HttpHeader_Construct" and "content m1 = fresh_content"
    and "load_first_line m0 (http_text line (header_pairs (header m)) (content_data (content m)))
        (word_of_nat (length (http_text line (header_pairs (header m)) (content_data (content m))))) =
      Some (m1, Some (http_text [] (header_pairs (header m)) (content_data (content m))))"
  shows "\<exists>m'. HttpMessage_Parse [] m0 (http_text line (header_pairs (header m)) (content_data (content m)))
        (word_of_nat (length (http_text line (header_pairs (header m)) (content_data (content m))))) =
      Some (TINY_RET_OK, m')
    \<and> header_pairs (header m') = header_pairs (header m)
    \<and> content_data (content m') = content_data (content m)
    \<and> mtype m' = mtype m1 \<and> req_method m' = req_method m1 \<and> req_uri m' = req_uri m1
    \<and> major m' = major m1 \<and> minor m' = minor m1 \<and> status_code m' = status_code m1
    \<and> status_text m' = status_text m1"
proof -
  define kvs where "kvs = header_pairs (header m)"
  define body where "body = content_data (content m)"
  note b = http_text_bounds [OF assms(1,2), folded kvs_def body_def]
  have plain: "\<forall>kv \<in> set kvs. plain_header kv \<and> length (header_text kv) < HTTP_LINE_LEN"
    using assms(1) unfolding body_ok_def headers_fit_def kvs_def by blast
  have lb: "length body = unat (buf_size (content m))"
    unfolding body_def using assms(1) by (intro content_data_length) (simp_all add: body_ok_def)
  then have "body = [] \<longleftrightarrow> buf_size (content m) = 0"
    by (metis length_0_conv unsigned_0 unsigned_eq_0_iff)
  then have cl: "map_of (map (\<lambda>(k, v). (header_key k, v)) kvs) (header_key ''Content-Length'') =
      (if body = [] then None else Some (show_nat (length body)))"
    using assms(1) by (simp only: body_ok_def kvs_def lb)
  note p = parse_text [OF assms(5) [folded kvs_def body_def] b plain assms(3,4) cl]
  have "map (\<lambda>(k, v). (field_cpy HTTP_MAX_NAME_LEN k, field_cpy HTTP_MAX_VALUE_LEN v)) kvs = kvs"
    using plain by (intro map_idI) (auto simp: plain_header_def field_cpy_short simp del: length_replicate_header)
  then have "header_pairs (header_set_all kvs (snd (L_RemoveAll (header m1)))) = kvs"
    by (simp add: header_pairs_set_all) (simp add: header_pairs_def L_RemoveAll_def)
  moreover have "content_data (full_content body) = body"
    using b(3) by (intro content_data_full) (simp add: HTTP_CONTENT_MAX_SIZE_def)
  ultimately show ?thesis
    unfolding kvs_def [symmetric] body_def [symmetric] p by simp
qed

lemma show_int_length: "1 \<le> length (show_int i)"
  by (cases "show_nat (nat i)"; cases "show_nat (nat (- i))") (auto simp: show_int_def Suc_le_eq)

lemma printed_version_length: "8 \<le> length (printed_version m)"
  using show_int_length [of "major m"] show_int_length [of "minor m"] by (simp add: printed_version_def)

definition fresh_message :: http_message where
  "fresh_message = snd HttpMessage_Construct"

lemma fresh_message_simps [simp]:
  "protocol_identifier fresh_message = ''HTTP''" "header fresh_message = snd HttpHeader_Construct"
  "content fresh_message = fresh_content"
  by (simp_all add: fresh_message_def HttpMessage_Construct_def field_defs fresh_content_def)

text \<open>
  C10. A request survives the wire: when every line fits its buffer and the content agrees
  with the Content-Length header, \<open>HttpMessage_ToBytes\<close> prints it without undefined
  behaviour, and \<open>HttpMessage_Parse\<close> of these bytes into a fresh message gives back the
  method, the URI, the version, all headers in order and the content.
\<close>

theorem http_request_roundtrip:
  assumes "request_ok m" and "body_ok m" and "room_ok (request_text m) m"
  shows "\<exists>out m'. HttpMessage_ToBytes True m = Some (TINY_RET_OK, Some out)
    \<and> HttpMessage_Parse [] fresh_message out (word_of_nat (length out)) = Some (TINY_RET_OK, m')
    \<and> mtype m' = HTTP_REQUEST \<and> req_method m' = req_method m \<and> req_uri m' = req_uri m
    \<and> major m' = major m \<and> minor m' = minor m
    \<and> header_pairs (header m') = header_pairs (header m)
    \<and> content_data (content m') = content_data (content m)"
proof -
  define out where "out = http_text (request_text m) (header_pairs (header m)) (content_data (content m))"
  have "mtype m \<noteq> HTTP_UNDEFINED" using assms(1) by (simp add: request_ok_def)
  then have tb: "HttpMessage_ToBytes True m = Some (TINY_RET_OK, Some out)"
    using assms(2) to_bytes_text [OF _ first_line_request [OF assms(1)] _ assms(3)]
    by (simp add: out_def body_ok_def)
  have "unat (word_of_nat (length out) :: 32 word) = length out"
    unfolding out_def by (rule unat_word_of_nat) (use http_text_bounds(1) [OF assms(2,3)] in simp)
  moreover have "1 \<le> length (req_method m)" "1 \<le> length (req_uri m)"
    using assms(1) by (simp_all add: request_ok_def Suc_le_eq)
  then have "14 \<le> length out"
    using printed_version_length [of m] by (simp add: out_def http_text_def request_text_def)
  ultimately have "14 \<le> unat (word_of_nat (length out) :: 32 word)" by (simp only:)
  then have ld: "load_first_line fresh_message out (word_of_nat (length out)) =
      Some (fresh_message\<lparr>req_method := req_method m, req_uri := req_uri m, major := major m,
        minor := minor m, mtype := HTTP_REQUEST\<rparr>,
        Some (http_text [] (header_pairs (header m)) (content_data (content m))))"
    using load_first_request [OF assms(1), of fresh_message "word_of_nat (length out)"
        "http_text [] (header_pairs (header m)) (content_data (content m))"]
    by (simp add: out_def http_text_def)
  show ?thesis
    using tb parse_body [OF assms(2,3) _ _ ld [unfolded out_def]] unfolding out_def by fastforce
qed

definition demo_request :: http_message where
  "demo_request = fresh_message\<lparr>mtype := HTTP_REQUEST, req_method := ''POST'', req_uri := ''/control'',
     major := 1, minor := 1,
     header := header_set_all [(''HOST'', ''10.0.0.1''), (''Content-Length'', ''2'')] (snd HttpHeader_Construct),
     content := full_content ''ok''\<rparr>"

lemmas demo_simps = header_set_items HttpHeader_Construct_def L_SetDeleteListener_def L_new_def
  header_pairs_def header_inv_def count_ok_def plain_header_def is_name_char_def is_char_def is_ctl_def
  is_tspecial_def sbyte_def cstring_def full_content_def content_inv_def HttpContent_IsFull_def
  header_key_def tolower_def HTTP_CONTENT_MAX_SIZE_def version_ok_def num_ok_def printed_version_def
  show_int_def show_nat_small show_nat_big

theorem http_request_roundtrip_witness:
  "\<exists>out m'. HttpMessage_ToBytes True demo_request = Some (TINY_RET_OK, Some out)
    \<and> HttpMessage_Parse [] fresh_message out (word_of_nat (length out)) = Some (TINY_RET_OK, m')
    \<and> mtype m' = HTTP_REQUEST \<and> req_method m' = req_method demo_request \<and> req_uri m' = req_uri demo_request
    \<and> major m' = major demo_request \<and> minor m' = minor demo_request
    \<and> header_pairs (header m') = header_pairs (header demo_request)
    \<and> content_data (content m') = content_data (content demo_request)"
proof (rule http_request_roundtrip)
  show "request_ok demo_request"
    by (simp add: request_ok_def demo_request_def demo_simps field_defs)
  show "body_ok demo_request"
    by (simp add: body_ok_def headers_fit_def demo_request_def demo_simps field_defs)
  show "room_ok (request_text demo_request) demo_request"
    by (simp add: room_ok_def request_text_def demo_request_def demo_simps field_defs)
qed

text \<open>
  C33. A response survives except for its status text: version, status code, headers and
  content come back, but the status text of the parsed message is always empty, because
  \<open>HttpMessage_LoadStatusLine\<close> does not reset its index and stores the text behind as
  many NULs as the protocol identifier is long.
\<close>

theorem http_response_roundtrip:
  assumes "response_ok m" and "body_ok m" and "room_ok (response_text m) m"
  shows "\<exists>out m'. HttpMessage_ToBytes True m = Some (TINY_RET_OK, Some out)
    \<and> HttpMessage_Parse [] fresh_message out (word_of_nat (length out)) = Some (TINY_RET_OK, m')
    \<and> mtype m' = HTTP_RESPONSE \<and> status_code m' = status_code m \<and> HttpMessage_GetStatus m' = Some []
    \<and> major m' = major m \<and> minor m' = minor m
    \<and> header_pairs (header m') = header_pairs (header m)
    \<and> content_data (content m') = content_data (content m)"
proof -
  define out where "out = http_text (response_text m) (header_pairs (header m)) (content_data (content m))"
  have "mtype m \<noteq> HTTP_UNDEFINED" using assms(1) by (simp add: response_ok_def)
  then have tb: "HttpMessage_ToBytes True m = Some (TINY_RET_OK, Some out)"
    using assms(2) to_bytes_text [OF _ first_line_response [OF assms(1)] _ assms(3)]
    by (simp add: out_def body_ok_def)
  have "unat (word_of_nat (length out) :: 32 word) = length out"
    unfolding out_def by (rule unat_word_of_nat) (use http_text_bounds(1) [OF assms(2,3)] in simp)
  moreover have "14 \<le> length out"
    using printed_version_length [of m] show_int_length [of "status_code m"]
    by (simp add: out_def http_text_def response_text_def)
  ultimately have "14 \<le> unat (word_of_nat (length out) :: 32 word)" by (simp only:)
  then have ld: "load_first_line fresh_message out (word_of_nat (length out)) =
      Some (fresh_message\<lparr>major := major m, minor := minor m, status_code := status_code m,
        status_text := [], mtype := HTTP_RESPONSE\<rparr>,
        Some (http_text [] (header_pairs (header m)) (content_data (content m))))"
    using load_first_response [OF assms(1), of fresh_message "word_of_nat (length out)"
        "http_text [] (header_pairs (header m)) (content_data (content m))"]
    by (simp add: out_def http_text_def)
  show ?thesis
    using tb parse_body [OF assms(2,3) _ _ ld [unfolded out_def]] unfolding out_def
    by (fastforce simp: HttpMessage_GetStatus_def read_field_def HTTP_STATUS_LEN_def)
qed

definition demo_response :: http_message where
  "demo_response = fresh_message\<lparr>mtype := HTTP_RESPONSE, status_code := 5, status_text := ''OK'',
     major := 1, minor := 1,
     header := header_set_all [(''EXT'', '''')] (snd HttpHeader_Construct)\<rparr>"

theorem http_response_roundtrip_witness:
  "\<exists>out m'. HttpMessage_ToBytes True demo_response = Some (TINY_RET_OK, Some out)
    \<and> HttpMessage_Parse [] fresh_message out (word_of_nat (length out)) = Some (TINY_RET_OK, m')
    \<and> mtype m' = HTTP_RESPONSE \<and> status_code m' = status_code demo_response \<and> HttpMessage_GetStatus m' = Some []
    \<and> major m' = major demo_response \<and> minor m' = minor demo_response
    \<and> header_pairs (header m') = header_pairs (header demo_response)
    \<and> content_data (content m') = content_data (content demo_response)"
proof (rule http_response_roundtrip)
  show "response_ok demo_response"
    by (simp add: response_ok_def demo_response_def demo_simps field_defs)
  show "body_ok demo_response"
    by (simp add: body_ok_def headers_fit_def demo_response_def demo_simps field_defs fresh_content_def
        HttpContent_Construct_def)
  show "room_ok (response_text demo_response) demo_response"
    by (simp add: room_ok_def response_text_def demo_response_def demo_simps field_defs fresh_content_def
        HttpContent_Construct_def)
qed

text \<open>
  A message without headers, whose content is shorter than its first line, cannot be
  printed: \<open>HttpMessage_ToBytes\<close> sizes its buffer for the first line, the headers and the
  content, but writes the closing empty line with a \<open>strncpy\<close> of 256 bytes, which then
  runs past the end of the buffer.
\<close>

theorem http_no_header_overflow:
  assumes "mtype m \<noteq> HTTP_UNDEFINED" and "first_line m = Some line" and "length line < HTTP_LINE_LEN"
    and "count (header m) = 0" and "unat (buf_size (content m)) < length line"
  shows "HttpMessage_ToBytes True m = None"
proof -
  define cl where "cl = unat (buf_size (content m))"
  have clw: "buf_size (content m) = word_of_nat cl" by (simp add: cl_def)
  have "word_of_nat HTTP_LINE_LEN + count (header m) * word_of_nat HTTP_HEAD_LEN + buf_size (content m) =
      (word_of_nat (256 + cl) :: 32 word)"
    by (simp add: assms(4) clw field_defs)
  moreover have "unat (word_of_nat (256 + cl) :: 32 word) = 256 + cl"
    using assms(3,5) by (intro unat_word_of_nat) (simp add: cl_def field_defs)
  ultimately have N: "unat (word_of_nat HTTP_LINE_LEN + count (header m) * word_of_nat HTTP_HEAD_LEN
      + buf_size (content m)) = 256 + cl"
    by (simp only:)
  have o1: "put_line (256 + cl) [] (256 + cl) line = Some line"
    using put_line_fits [of "[]" "256 + cl" "256 + cl" line] assms(3) by simp
  have o2: "put_line (256 + cl) line HTTP_LINE_LEN [CR, LF] = None"
    using assms(5) by (simp add: put_line_def cl_def field_defs)
  show ?thesis
    unfolding HttpMessage_ToBytes_def Let_def N assms(2) using assms(1,4) by (simp add: o1 o2)
qed

theorem http_no_header_overflow_witness:
  "HttpMessage_ToBytes True (HttpMessage_SetResponse
     (HttpMessage_SetType fresh_message HTTP_RESPONSE) 200 (Some ''OK'')) = None"
proof -
  have "first_line (HttpMessage_SetResponse (HttpMessage_SetType fresh_message HTTP_RESPONSE) 200 (Some ''OK'')) =
      Some (''HTTP/0.0 '' @ show_int 200 @ '' OK'' @ [CR, LF])"
    by (simp add: first_line_def HttpMessage_SetResponse_def HttpMessage_SetType_def fresh_message_def
        HttpMessage_Construct_def field_defs show_int_def show_nat_small show_nat_big)
  then show ?thesis
  proof (rule http_no_header_overflow [rotated])
    have "length (show_int 200) = 3"
      by (simp add: show_int_def show_nat_small show_nat_big)
    then show "length (''HTTP/0.0 '' @ show_int 200 @ '' OK'' @ [CR, LF]) < HTTP_LINE_LEN"
      by (simp add: field_defs)
  qed (simp_all add: HttpMessage_SetResponse_def HttpMessage_SetType_def HttpHeader_Construct_def
      L_SetDeleteListener_def L_new_def fresh_content_def HttpContent_Construct_def)
qed

text \<open>
  C32. Filling the content buffer is exact: adding a chunk to a well-formed content never
  overruns the buffer; it is refused with \<open>TINY_RET_E_ARG_INVALID\<close>, changing nothing, when
  it is longer than the room left, and otherwise appended. The content is full exactly when
  the data has the size of the buffer.
\<close>

theorem content_add_exact:
  assumes "content_inv c" and "length d < 2 ^ 32"
  shows "\<exists>ret c'. HttpContent_AddObject c (Some d) (word_of_nat (length d)) = Some (ret, c')
    \<and> content_inv c' \<and> buf_size c' = buf_size c
    \<and> (if length (content_data c) + length d \<le> unat (buf_size c)
       then ret = TINY_RET_OK \<and> content_data c' = content_data c @ d
       else ret = TINY_RET_E_ARG_INVALID \<and> c' = c)
    \<and> (HttpContent_IsFull c' \<longleftrightarrow> length (content_data c') = unat (buf_size c))"
proof -
  have n: "unat (word_of_nat (length d) :: 32 word) = length d"
    using assms(2) by (intro unat_word_of_nat) simp
  have full: "HttpContent_IsFull x \<longleftrightarrow> length (content_data x) = unat (buf_size x)" if "content_inv x" for x
    using that by (auto simp: HttpContent_IsFull_def content_inv_def content_data_def word_le_nat_alt
        word_unat_eq_iff split: option.splits)
  show ?thesis
  proof (cases "cbuf c")
    case None
    then have "buf_size c = 0" "data_size c = 0" "content_data c = []"
      using assms(1) by (simp_all add: content_inv_def content_data_def)
    then show ?thesis
      using None n assms(1) full [OF assms(1)]
      by (cases "d = []") (simp_all add: HttpContent_AddObject_def word_less_nat_alt)
  next
    case (Some b)
    then have b: "length b = unat (buf_size c)" "data_size c \<le> buf_size c"
        "content_data c = take (unat (data_size c)) b"
      using assms(1) by (simp_all add: content_inv_def content_data_def)
    then have room: "unat (buf_size c - data_size c) = unat (buf_size c) - unat (data_size c)"
        "unat (data_size c) \<le> unat (buf_size c)"
      by (simp_all add: unat_sub word_le_nat_alt)
    have dl: "length (content_data c) = unat (data_size c)" using b room by simp
    show ?thesis
    proof (cases "unat (data_size c) + length d \<le> unat (buf_size c)")
      case False
      then have "unat (buf_size c) - unat (data_size c) < length d" using room by linarith
      then have "buf_size c - data_size c < word_of_nat (length d)"
        by (simp only: word_less_nat_alt room n)
      then have "HttpContent_AddObject c (Some d) (word_of_nat (length d)) = Some (TINY_RET_E_ARG_INVALID, c)"
        by (simp add: HttpContent_AddObject_def)
      then show ?thesis using False dl assms(1) full [OF assms(1)] by simp
    next
      case True
      define c' where "c' = c\<lparr>cbuf := Some (take (unat (data_size c)) b @ d @ drop (unat (data_size c) + length d) b),
          data_size := data_size c + word_of_nat (length d)\<rparr>"
      have ds: "unat (data_size c + word_of_nat (length d)) = unat (data_size c) + length d"
        using True n unsigned_less [of "buf_size c", where ?'a = nat]
        by (simp add: unat_word_ariths)
      have "\<not> unat (buf_size c) - unat (data_size c) < length d" using True by linarith
      then have "HttpContent_AddObject c (Some d) (word_of_nat (length d)) = Some (TINY_RET_OK, c')"
        using True room n b(1) Some
        by (simp add: HttpContent_AddObject_def word_less_nat_alt memcpy_at_def c'_def)
      moreover have inv: "content_inv c'"
        using True b ds by (simp add: c'_def content_inv_def word_le_nat_alt)
      moreover have "content_data c' = content_data c @ d"
        using True b ds by (simp add: c'_def content_data_def)
      ultimately show ?thesis using True dl full [OF inv] by (auto simp: c'_def)
    qed
  qed
qed

theorem content_add_exact_witness:
  "\<exists>ret c'. HttpContent_AddObject \<lparr>cbuf = Some (replicate 3 NUL), buf_size = 3, data_size = 0\<rparr>
      (Some ''ab'') (word_of_nat (length ''ab'')) = Some (ret, c')
    \<and> content_inv c' \<and> buf_size c' = buf_size \<lparr>cbuf = Some (replicate 3 NUL), buf_size = 3, data_size = 0\<rparr>
    \<and> (if length (content_data \<lparr>cbuf = Some (replicate 3 NUL), buf_size = 3, data_size = 0\<rparr>) + length ''ab''
         \<le> unat (buf_size \<lparr>cbuf = Some (replicate 3 NUL), buf_size = 3, data_size = 0\<rparr>)
       then ret = TINY_RET_OK \<and> content_data c' =
         content_data \<lparr>cbuf = Some (replicate 3 NUL), buf_size = 3, data_size = 0\<rparr> @ ''ab''
       else ret = TINY_RET_E_ARG_INVALID \<and> c' = \<lparr>cbuf = Some (replicate 3 NUL), buf_size = 3, data_size = 0\<rparr>)
    \<and> (HttpContent_IsFull c' \<longleftrightarrow> length (content_data c') =
         unat (buf_size \<lparr>cbuf = Some (replicate 3 NUL), buf_size = 3, data_size = 0\<rparr>))"
  by (rule content_add_exact) (simp_all add: content_inv_def)

lemma set_request_url:
  assumes "\<forall>x \<in> set ip_text. x \<noteq> CHR '':'' \<and> x \<noteq> CHR ''/''" and "length ip_text < TINY_IP_LEN"
    and "uri = [] \<or> hd uri = CHR ''/''" and "length uri < HTTP_URI_LEN"
    and "length method < HTTP_METHOD_LEN" and "p < 2 ^ 16"
  shows "\<exists>m'. HttpMessage_SetRequest [] m (Some method)
      (Some (''http://'' @ ip_text @ '':'' @ show_nat p @ uri)) = Some (TINY_RET_OK, m')
    \<and> ip m' = ip_text \<and> unat (port m') = p \<and> mtype m' = HTTP_REQUEST
    \<and> req_method m' = method \<and> req_uri m' = uri \<and> major m' = 1 \<and> minor m' = 1
    \<and> header_pairs (header m') = header_pairs (header m) @
        [(''HOST'', if p = 80 then ip_text else ip_text @ '':'' @ show_nat p)]"
proof -
  define url where "url = ''http://'' @ ip_text @ '':'' @ show_nat p @ uri"
  define host where "host = (if p = 80 then ip_text else ip_text @ '':'' @ show_nat p)"
  have split: "url_split url TINY_IP_LEN 512 =
      Some (TINY_RET_OK, Some \<lparr>url_ip = ip_text, url_port = word_of_nat p, url_uri = uri\<rparr>)"
    using url_split_spec [OF assms(1,2,3), of 512 p] assms(4) by (simp add: url_def HTTP_URI_LEN_def)
  have pw: "unat (word_of_nat p :: 16 word) = p" using assms(6) by (intro unat_word_of_nat) simp
  have p80: "(word_of_nat p :: 16 word) = 80 \<longleftrightarrow> p = 80"
    using pw by (simp add: word_unat_eq_iff)
  have "length (show_nat p) \<le> 5" using assms(6) by (intro show_nat_length) simp_all
  then have "length host \<le> 127" using assms(2) by (simp add: host_def TINY_IP_LEN_def)
  then have hf: "field_cpy HTTP_MAX_VALUE_LEN (field_printf 128 host) = host"
    by (simp add: field_defs)
  have hn: "field_cpy HTTP_MAX_NAME_LEN ''HOST'' = ''HOST''" by (simp add: field_defs)
  have hs: "(if (word_of_nat p :: 16 word) = 80 then ip_text
      else ip_text @ '':'' @ show_nat (unat (word_of_nat p :: 16 word))) = host"
    by (simp only: p80 pw host_def)
  show ?thesis
    unfolding url_def [symmetric] host_def [symmetric] HttpMessage_SetRequest_def
    unfolding option.case prod.case split url_parts.simps hs
    using assms(2,4,5) hf hn
    by (simp add: pw Let_def HttpMessage_SetPort_def HttpMessage_SetIp_def HttpMessage_SetVersion_def
        HttpMessage_SetType_def HttpMessage_SetUri_def HttpMessage_SetMethod_def header_set_items
        header_pairs_def field_cpy_short less_imp_le)
qed

text \<open>
  \<open>HttpMessage_SetRequest\<close> turns a URL \<open>http://ip:port/path\<close> into a request: the
  address, the port, the method and the path are stored, the version is 1.1 and a HOST header
  is added, with the port only when it is not 80.
\<close>

theorem set_request_correct:
  assumes "\<forall>x \<in> set ip_text. x \<noteq> CHR '':'' \<and> x \<noteq> CHR ''/''" and "length ip_text < TINY_IP_LEN"
    and "uri = [] \<or> hd uri = CHR ''/''" and "length uri < HTTP_URI_LEN"
    and "length method < HTTP_METHOD_LEN" and "p < 2 ^ 16"
  shows "\<exists>m'. HttpMessage_SetRequest [] m (Some method)
      (Some (''http://'' @ ip_text @ '':'' @ show_nat p @ uri)) = Some (TINY_RET_OK, m')
    \<and> ip m' = ip_text \<and> unat (port m') = p \<and> mtype m' = HTTP_REQUEST
    \<and> req_method m' = method \<and> req_uri m' = uri \<and> major m' = 1 \<and> minor m' = 1
    \<and> header_pairs (header m') = header_pairs (header m) @
        [(''HOST'', if p = 80 then ip_text else ip_text @ '':'' @ show_nat p)]"
  using assms by (rule set_request_url)

theorem set_request_correct_witness:
  "\<exists>m'. HttpMessage_SetRequest [] fresh_message (Some ''GET'')
      (Some (''http://'' @ ''10.0.0.7'' @ '':'' @ show_nat 8080 @ ''/desc.xml'')) = Some (TINY_RET_OK, m')
    \<and> ip m' = ''10.0.0.7'' \<and> unat (port m') = 8080 \<and> mtype m' = HTTP_REQUEST
    \<and> req_method m' = ''GET'' \<and> req_uri m' = ''/desc.xml'' \<and> major m' = 1 \<and> minor m' = 1
    \<and> header_pairs (header m') = header_pairs (header fresh_message) @
        [(''HOST'', if (8080 :: nat) = 80 then ''10.0.0.7'' else ''10.0.0.7'' @ '':'' @ show_nat 8080)]"
  by (rule set_request_correct) (simp_all add: field_defs)

end
