(* ===== verification/DataValue.thy ===== *)
theory DataValue
  imports TinyString
begin

section \<open>Typed values: \<open>DataType.c\<close>, \<open>DataValue.c\<close>, \<open>UpnpStateVariable.c\<close>\<close>

text \<open>
  The values of UPnP state variables and arguments. A \<open>DataValue\<close> is a tagged union; the
  model keeps the tag and the member it selects together, as every operation of the source
  does, with machine integers at their width. Floating point is not interpreted: the type of
  floats and the library functions on it (\<open>atof\<close>, \<open>%f\<close>, the cast to \<open>float\<close>, the
  all-zero bit pattern) are the parameter \<open>fl\<close>. Strings are values here: who owns which
  copy is not modelled. \<open>None\<close> is a NULL that would be dereferenced.
\<close>

subsection \<open>Types\<close>

datatype internal_type = INTERNAL_UNDEFINED | INTERNAL_BYTE | INTERNAL_WORD | INTERNAL_INTEGER
  | INTERNAL_LONG | INTERNAL_FLOAT | INTERNAL_DOUBLE | INTERNAL_BOOLEAN | INTERNAL_CHAR | INTERNAL_STRING

definition InternalType_RetrieveType :: "string \<Rightarrow> internal_type" where
  "InternalType_RetrieveType n =
     (if STR_EQUAL n ''i1'' then INTERNAL_BYTE
      else if STR_EQUAL n ''ui1'' \<or> STR_EQUAL n ''i2'' then INTERNAL_WORD
      else if STR_EQUAL n ''ui2'' \<or> STR_EQUAL n ''i4'' \<or> STR_EQUAL n ''int'' then INTERNAL_INTEGER
      else if STR_EQUAL n ''ui4'' \<or> STR_EQUAL n ''time'' \<or> STR_EQUAL n ''time.tz'' then INTERNAL_LONG
      else if STR_EQUAL n ''r4'' \<or> STR_EQUAL n ''float'' then INTERNAL_FLOAT
      else if STR_EQUAL n ''r8'' \<or> STR_EQUAL n ''number'' \<or> STR_EQUAL n ''fixed.14.4'' then INTERNAL_DOUBLE
      else if STR_EQUAL n ''char'' then INTERNAL_CHAR
      else if STR_EQUAL n ''boolean'' then INTERNAL_BOOLEAN
      else if STR_EQUAL n ''string'' \<or> STR_EQUAL n ''uri'' \<or> STR_EQUAL n ''uuid''
        \<or> STR_EQUAL n ''bin.base64'' \<or> STR_EQUAL n ''bin.hex'' \<or> STR_EQUAL n ''date''
        \<or> STR_EQUAL n ''dateTime'' \<or> STR_EQUAL n ''dateTime.tz'' then INTERNAL_STRING
      else INTERNAL_INTEGER)"

fun InternalType_GetName :: "internal_type \<Rightarrow> string option" where
  "InternalType_GetName INTERNAL_BYTE = Some ''char''"
| "InternalType_GetName INTERNAL_WORD = Some ''i2''"
| "InternalType_GetName INTERNAL_INTEGER = Some ''i4''"
| "InternalType_GetName INTERNAL_LONG = Some ''ui4''"
| "InternalType_GetName INTERNAL_FLOAT = Some ''float''"
| "InternalType_GetName INTERNAL_DOUBLE = Some ''number''"
| "InternalType_GetName INTERNAL_BOOLEAN = Some ''boolean''"
| "InternalType_GetName INTERNAL_CHAR = Some ''char''"
| "InternalType_GetName INTERNAL_STRING = Some ''string''"
| "InternalType_GetName INTERNAL_UNDEFINED = None"

definition DATA_TYPE_NAME_LEN :: nat where "DATA_TYPE_NAME_LEN = 16"

record data_type =
  internal_type :: internal_type
  type_name :: string

definition DataType_Construct :: data_type where
  "DataType_Construct = \<lparr>internal_type = INTERNAL_UNDEFINED, type_name = []\<rparr>"

definition DataType_Dispose :: "data_type \<Rightarrow> data_type" where
  "DataType_Dispose t = \<lparr>internal_type = INTERNAL_UNDEFINED, type_name = []\<rparr>"

definition DataType_Copy :: "data_type \<Rightarrow> data_type \<Rightarrow> data_type" where
  "DataType_Copy dst src = (DataType_Dispose dst)
     \<lparr>internal_type := internal_type src, type_name := field_cpy DATA_TYPE_NAME_LEN (type_name src)\<rparr>"

definition DataType_SetName :: "data_type \<Rightarrow> string option \<Rightarrow> data_type" where
  "DataType_SetName t name = (case name of
       None \<Rightarrow> t
     | Some n \<Rightarrow> t\<lparr>type_name := field_cpy DATA_TYPE_NAME_LEN n, internal_type := InternalType_RetrieveType n\<rparr>)"

definition DataType_SetType :: "data_type \<Rightarrow> internal_type \<Rightarrow> data_type option" where
  "DataType_SetType t ty = (case InternalType_GetName ty of
       None \<Rightarrow> None
     | Some n \<Rightarrow> Some (t\<lparr>internal_type := ty, type_name := field_cpy DATA_TYPE_NAME_LEN n\<rparr>))"

definition DataType_StringToBoolean :: "string option \<Rightarrow> bool" where
  "DataType_StringToBoolean str = (case str of
       None \<Rightarrow> False
     | Some s \<Rightarrow>
         if STR_EQUAL ''1'' s \<or> str_equal NUL (Some ''YES'') (Some s) True
           \<or> str_equal NUL (Some ''TRUE'') (Some s) True then True
         else if STR_EQUAL ''0'' s \<or> str_equal NUL (Some ''NO'') (Some s) True
           \<or> str_equal NUL (Some ''FALSE'') (Some s) True then False
         else False)"

definition DataType_BooleanToString :: "bool \<Rightarrow> string" where
  "DataType_BooleanToString b = (if b then ''1'' else ''0'')"

subsection \<open>Values\<close>

datatype 'f data_value =
    VUndefined
  | VByte "8 word"
  | VWord "16 word"
  | VInteger "32 word"
  | VLong "64 word"
  | VFloat 'f
  | VDouble 'f
  | VBool bool
  | VChar char
  | VString "string option"

record 'f float_ops =
  atof :: "string \<Rightarrow> 'f"
  printf_f :: "'f \<Rightarrow> string"
  to_float :: "'f \<Rightarrow> 'f"
  fzero :: 'f

fun value_type :: "'f data_value \<Rightarrow> internal_type" where
  "value_type VUndefined = INTERNAL_UNDEFINED"
| "value_type (VByte _) = INTERNAL_BYTE"
| "value_type (VWord _) = INTERNAL_WORD"
| "value_type (VInteger _) = INTERNAL_INTEGER"
| "value_type (VLong _) = INTERNAL_LONG"
| "value_type (VFloat _) = INTERNAL_FLOAT"
| "value_type (VDouble _) = INTERNAL_DOUBLE"
| "value_type (VBool _) = INTERNAL_BOOLEAN"
| "value_type (VChar _) = INTERNAL_CHAR"
| "value_type (VString _) = INTERNAL_STRING"

text \<open>\<open>value.internalType = t\<close> on a zeroed value.\<close>

fun zero_value :: "'f float_ops \<Rightarrow> internal_type \<Rightarrow> 'f data_value" where
  "zero_value fl INTERNAL_UNDEFINED = VUndefined"
| "zero_value fl INTERNAL_BYTE = VByte 0"
| "zero_value fl INTERNAL_WORD = VWord 0"
| "zero_value fl INTERNAL_INTEGER = VInteger 0"
| "zero_value fl INTERNAL_LONG = VLong 0"
| "zero_value fl INTERNAL_FLOAT = VFloat (fzero fl)"
| "zero_value fl INTERNAL_DOUBLE = VDouble (fzero fl)"
| "zero_value fl INTERNAL_BOOLEAN = VBool False"
| "zero_value fl INTERNAL_CHAR = VChar NUL"
| "zero_value fl INTERNAL_STRING = VString None"

definition DataValue_Construct :: "'f data_value" where
  "DataValue_Construct = VUndefined"

definition DataValue_Dispose :: "'f data_value \<Rightarrow> 'f data_value" where
  "DataValue_Dispose v = (if value_type v = INTERNAL_UNDEFINED then v else VUndefined)"

text \<open>
  \<open>DataValue_Copy\<close> of two different objects: the target takes the source's string and the
  source keeps a duplicate, which is NULL when \<open>strdup\<close> fails.
\<close>

definition DataValue_Copy :: "bool \<Rightarrow> 'f data_value \<Rightarrow> 'f data_value \<Rightarrow> 'f data_value \<times> 'f data_value" where
  "DataValue_Copy strdup_ok dst src =
     (src, (case src of VString (Some s) \<Rightarrow> if strdup_ok then src else VString None | _ \<Rightarrow> src))"

text \<open>The return code and what is written, \<open>None\<close> when the buffer is left alone.\<close>

fun DataValue_GetValue :: "'f float_ops \<Rightarrow> 'f data_value \<Rightarrow> nat \<Rightarrow> (tiny_ret \<times> string option) option" where
  "DataValue_GetValue fl VUndefined len = Some (TINY_RET_OK, None)"
| "DataValue_GetValue fl (VByte b) len = Some (TINY_RET_OK, Some (field_printf len (show_int (sint b))))"
| "DataValue_GetValue fl (VWord b) len = Some (TINY_RET_OK, Some (field_printf len (show_int (sint b))))"
| "DataValue_GetValue fl (VInteger b) len = Some (TINY_RET_OK, Some (field_printf len (show_int (sint b))))"
| "DataValue_GetValue fl (VLong b) len = Some (TINY_RET_OK, Some (field_printf len (show_int (sint b))))"
| "DataValue_GetValue fl (VFloat f) len = Some (TINY_RET_OK, Some (field_printf len (printf_f fl f)))"
| "DataValue_GetValue fl (VDouble f) len = Some (TINY_RET_OK, Some (field_printf len (printf_f fl f)))"
| "DataValue_GetValue fl (VBool b) len = Some (TINY_RET_OK, Some (field_printf len (DataType_BooleanToString b)))"
| "DataValue_GetValue fl (VChar c) len = Some (TINY_RET_OK, Some (field_printf len (c_str [c])))"
| "DataValue_GetValue fl (VString None) len = None"
| "DataValue_GetValue fl (VString (Some s)) len =
     (if length s < len then Some (TINY_RET_OK, Some (field_cpy len s)) else Some (TINY_RET_E_ARG_INVALID, None))"

definition DataValue_SetByte :: "'f data_value \<Rightarrow> 8 word \<Rightarrow> 'f data_value" where
  "DataValue_SetByte v x = VByte x"
definition DataValue_SetWord :: "'f data_value \<Rightarrow> 16 word \<Rightarrow> 'f data_value" where
  "DataValue_SetWord v x = VWord x"
definition DataValue_SetInteger :: "'f data_value \<Rightarrow> 32 word \<Rightarrow> 'f data_value" where
  "DataValue_SetInteger v x = VInteger x"
definition DataValue_SetLong :: "'f data_value \<Rightarrow> 64 word \<Rightarrow> 'f data_value" where
  "DataValue_SetLong v x = VLong x"
definition DataValue_SetFloat :: "'f data_value \<Rightarrow> 'f \<Rightarrow> 'f data_value" where
  "DataValue_SetFloat v x = VFloat x"
definition DataValue_SetDouble :: "'f data_value \<Rightarrow> 'f \<Rightarrow> 'f data_value" where
  "DataValue_SetDouble v x = VDouble x"
definition DataValue_SetBool :: "'f data_value \<Rightarrow> bool \<Rightarrow> 'f data_value" where
  "DataValue_SetBool v x = VBool x"
definition DataValue_SetChar :: "'f data_value \<Rightarrow> char \<Rightarrow> 'f data_value" where
  "DataValue_SetChar v x = VChar x"
definition DataValue_SetString :: "bool \<Rightarrow> 'f data_value \<Rightarrow> string option \<Rightarrow> 'f data_value" where
  "DataValue_SetString strdup_ok v x = VString (if strdup_ok then x else None)"

text \<open>The text may be NULL only for a string.\<close>

definition DataValue_SetValue ::
    "'f float_ops \<Rightarrow> bool \<Rightarrow> 'f data_value \<Rightarrow> string option \<Rightarrow> (tiny_ret \<times> 'f data_value) option" where
  "DataValue_SetValue fl strdup_ok v str = (case (value_type v, str) of
       (INTERNAL_UNDEFINED, _) \<Rightarrow> Some (TINY_RET_E_ARG_INVALID, v)
     | (INTERNAL_STRING, _) \<Rightarrow> Some (TINY_RET_OK, DataValue_SetString strdup_ok v str)
     | (INTERNAL_BOOLEAN, _) \<Rightarrow> Some (TINY_RET_OK, DataValue_SetBool v (DataType_StringToBoolean str))
     | (_, None) \<Rightarrow> None
     | (INTERNAL_BYTE, Some s) \<Rightarrow> Some (TINY_RET_OK, DataValue_SetByte v (word_of_int (atoi s)))
     | (INTERNAL_WORD, Some s) \<Rightarrow> Some (TINY_RET_OK, DataValue_SetWord v (word_of_int (atoi s)))
     | (INTERNAL_INTEGER, Some s) \<Rightarrow> Some (TINY_RET_OK, DataValue_SetInteger v (word_of_int (atoi s)))
     | (INTERNAL_LONG, Some s) \<Rightarrow> Some (TINY_RET_OK, DataValue_SetLong v (word_of_int (atol s)))
     | (INTERNAL_FLOAT, Some s) \<Rightarrow> Some (TINY_RET_OK, DataValue_SetFloat v (to_float fl (atof fl s)))
     | (INTERNAL_DOUBLE, Some s) \<Rightarrow> Some (TINY_RET_OK, DataValue_SetDouble v (atof fl s))
     | (INTERNAL_CHAR, Some s) \<Rightarrow> Some (TINY_RET_OK, DataValue_SetChar v (deref s)))"

subsection \<open>State variables\<close>

definition STATE_VARIABLE_NAME_LEN :: nat where "STATE_VARIABLE_NAME_LEN = 128"

lemmas data_lens [field_defs] = DATA_TYPE_NAME_LEN_def STATE_VARIABLE_NAME_LEN_def

record sv_definition =
  var_name :: string
  var_type :: data_type

definition UpnpStateVariableDefinition_Construct :: sv_definition where
  "UpnpStateVariableDefinition_Construct = \<lparr>var_name = [], var_type = DataType_Construct\<rparr>"

definition UpnpStateVariableDefinition_Dispose :: "sv_definition \<Rightarrow> sv_definition" where
  "UpnpStateVariableDefinition_Dispose d = \<lparr>var_name = [], var_type = DataType_Construct\<rparr>"

definition UpnpStateVariableDefinition_Copy :: "sv_definition \<Rightarrow> sv_definition \<Rightarrow> sv_definition" where
  "UpnpStateVariableDefinition_Copy dst src =
     (let d = UpnpStateVariableDefinition_Dispose dst in
      \<lparr>var_name = field_cpy STATE_VARIABLE_NAME_LEN (var_name src), var_type = DataType_Copy (var_type d) (var_type src)\<rparr>)"

definition UpnpStateVariableDefinition_Initialize :: "sv_definition \<Rightarrow> string option \<Rightarrow> data_type \<Rightarrow> sv_definition" where
  "UpnpStateVariableDefinition_Initialize d name t = (case name of
       None \<Rightarrow> d
     | Some n \<Rightarrow> \<lparr>var_name = field_cpy STATE_VARIABLE_NAME_LEN n, var_type = DataType_Copy (var_type d) t\<rparr>)"

record 'f state_variable =
  send_events :: bool
  is_changed :: bool
  sv_def :: sv_definition
  sv_value :: "'f data_value"

text \<open>The constructor leaves \<open>sendEvents\<close> and \<open>isChanged\<close> as the memory was.\<close>

definition UpnpStateVariable_Construct :: "'f state_variable \<Rightarrow> tiny_ret \<times> 'f state_variable" where
  "UpnpStateVariable_Construct m =
     (TINY_RET_OK, m\<lparr>sv_def := UpnpStateVariableDefinition_Construct, sv_value := DataValue_Construct\<rparr>)"

definition UpnpStateVariable_New :: "bool \<Rightarrow> 'f state_variable \<Rightarrow> 'f state_variable option" where
  "UpnpStateVariable_New malloc_ok memory =
     (if malloc_ok then (case UpnpStateVariable_Construct memory of (ret, m) \<Rightarrow> if RET_FAILED ret then None else Some m)
      else None)"

definition UpnpStateVariable_Dispose :: "'f state_variable \<Rightarrow> 'f state_variable" where
  "UpnpStateVariable_Dispose v = v\<lparr>sv_def := UpnpStateVariableDefinition_Dispose (sv_def v),
                                  sv_value := DataValue_Dispose (sv_value v)\<rparr>"

text \<open>The copy and what becomes of the source; the flags are not copied.\<close>

definition UpnpStateVariable_Copy ::
    "bool \<Rightarrow> 'f state_variable \<Rightarrow> 'f state_variable \<Rightarrow> 'f state_variable \<times> 'f state_variable" where
  "UpnpStateVariable_Copy strdup_ok dst src =
     (let d = UpnpStateVariable_Dispose dst;
          vs = DataValue_Copy strdup_ok (sv_value d) (sv_value src)
      in (d\<lparr>sv_def := UpnpStateVariableDefinition_Copy (sv_def d) (sv_def src), sv_value := fst vs\<rparr>,
          src\<lparr>sv_value := snd vs\<rparr>))"

definition UpnpStateVariable_Initialize ::
    "'f float_ops \<Rightarrow> bool \<Rightarrow> 'f state_variable \<Rightarrow> string option \<Rightarrow> string option \<Rightarrow> string option \<Rightarrow> string option
     \<Rightarrow> (tiny_ret \<times> 'f state_variable) option" where
  "UpnpStateVariable_Initialize fl strdup_ok v name ty dflt sends = (case name of
       None \<Rightarrow> Some (TINY_RET_E_ARG_NULL, v)
     | Some n \<Rightarrow>
        (let t = DataType_SetName DataType_Construct ty;
             v0 = zero_value fl (internal_type t)
         in do {
           v1 \<leftarrow> (case dflt of
                    None \<Rightarrow> Some v0
                  | Some d \<Rightarrow> map_option snd (DataValue_SetValue fl strdup_ok v0 (Some d)));
           Some (TINY_RET_OK, v\<lparr>sv_def := UpnpStateVariableDefinition_Initialize (sv_def v) (Some n) t,
               send_events := DataType_StringToBoolean sends,
               sv_value := fst (DataValue_Copy strdup_ok (sv_value v) v1)\<rparr>) }))"

subsection \<open>Printing and parsing\<close>

definition value_text :: "'f data_value \<Rightarrow> string" where
  "value_text v = (case v of
       VByte b \<Rightarrow> show_int (sint b) | VWord b \<Rightarrow> show_int (sint b) | VInteger b \<Rightarrow> show_int (sint b)
     | VLong b \<Rightarrow> show_int (sint b) | VBool b \<Rightarrow> DataType_BooleanToString b | VChar c \<Rightarrow> [c]
     | VString (Some s) \<Rightarrow> s | _ \<Rightarrow> [])"

text \<open>The values whose text determines them: no float, no NULL string, no NUL character.\<close>

definition printable :: "'f data_value \<Rightarrow> bool" where
  "printable v \<longleftrightarrow> (case v of VUndefined \<Rightarrow> False | VFloat _ \<Rightarrow> False | VDouble _ \<Rightarrow> False
     | VChar c \<Rightarrow> c \<noteq> NUL | VString s \<Rightarrow> s \<noteq> None | _ \<Rightarrow> True)"

lemma sint_range:
  "- (2 ^ (LENGTH('a) - 1)) \<le> sint (w :: 'a::len word)" "sint (w :: 'a::len word) < 2 ^ (LENGTH('a) - 1)"
  using sint_ge [of w] sint_lt [of w] by simp_all

lemma str_equal_nocase: "cstring s \<Longrightarrow> str_equal NUL (Some d) (Some s) True \<longleftrightarrow> map tolower d = map tolower s"
  using str_equal_loop_correct [of s NUL d] by (simp add: str_equal_def)

lemma tolower_values:
  "map tolower ''YES'' = ''yes''" "map tolower ''TRUE'' = ''true''"
  "map tolower ''NO'' = ''no''" "map tolower ''FALSE'' = ''false''"
  by (simp_all add: tolower_def char_of_def bit_0)

lemma string_to_boolean: "cstring s \<Longrightarrow> DataType_StringToBoolean (Some s) \<longleftrightarrow>
    s = ''1'' \<or> map tolower s = ''yes'' \<or> map tolower s = ''true''"
  unfolding DataType_StringToBoolean_def option.case STR_EQUAL_def str_equal_nocase tolower_values
  by (simp only: eq_commute [of _ s] eq_commute [of _ "map tolower s"] if_cancel) simp

lemma get_value_text:
  "printable v \<Longrightarrow> length (value_text v) < len \<Longrightarrow>
     DataValue_GetValue fl v len = Some (TINY_RET_OK, Some (value_text v))"
  by (cases v) (auto simp: value_text_def printable_def field_defs c_str_def)

lemma set_value_text:
  assumes "printable v" and "value_type w = value_type v"
  shows "DataValue_SetValue fl True w (Some (value_text v)) = Some (TINY_RET_OK, v)"
proof (cases v)
  case (VByte x)
  have "atoi (show_int (sint x)) = sint x"
    using sint_range [of x] by (intro atoi_show_int) simp_all
  with assms VByte show ?thesis by (simp add: DataValue_SetValue_def value_text_def DataValue_SetByte_def)
next
  case (VWord x)
  have "atoi (show_int (sint x)) = sint x"
    using sint_range [of x] by (intro atoi_show_int) simp_all
  with assms VWord show ?thesis by (simp add: DataValue_SetValue_def value_text_def DataValue_SetWord_def)
next
  case (VInteger x)
  have "atoi (show_int (sint x)) = sint x"
    using sint_range [of x] by (intro atoi_show_int) simp_all
  with assms VInteger show ?thesis by (simp add: DataValue_SetValue_def value_text_def DataValue_SetInteger_def)
next
  case (VLong x)
  have "atol (show_int (sint x)) = sint x"
    using sint_range [of x] by (intro atol_show_int) simp_all
  with assms VLong show ?thesis by (simp add: DataValue_SetValue_def value_text_def DataValue_SetLong_def)
next
  case (VBool b)
  have "DataType_StringToBoolean (Some (DataType_BooleanToString b)) = b"
    by (cases b) (simp_all add: string_to_boolean DataType_BooleanToString_def tolower_def)
  with assms VBool show ?thesis by (simp add: DataValue_SetValue_def value_text_def DataValue_SetBool_def)
qed (use assms in \<open>auto simp: printable_def DataValue_SetValue_def value_text_def DataValue_SetChar_def
      DataValue_SetString_def\<close>)

subsection \<open>Properties\<close>

text \<open>
  C31. Values survive their text form: for integers of every width, booleans, characters and
  strings, \<open>DataValue_GetValue\<close> into a buffer with room for the text and a terminator
  succeeds, and \<open>DataValue_SetValue\<close> of that text on any value of the same type restores
  the value. Without room for the terminator a string is refused with
  \<open>TINY_RET_E_ARG_INVALID\<close>, while the other types are cut off and still report success.
\<close>

theorem data_value_roundtrip:
  assumes "printable v" and "value_type w = value_type v" and "length (value_text v) < len"
  shows "(\<exists>s. DataValue_GetValue fl v len = Some (TINY_RET_OK, Some s)
      \<and> DataValue_SetValue fl True w (Some s) = Some (TINY_RET_OK, v))
    \<and> map_option fst (DataValue_GetValue fl v (length (value_text v))) =
        Some (if value_type v = INTERNAL_STRING then TINY_RET_E_ARG_INVALID else TINY_RET_OK)"
proof
  show "\<exists>s. DataValue_GetValue fl v len = Some (TINY_RET_OK, Some s)
      \<and> DataValue_SetValue fl True w (Some s) = Some (TINY_RET_OK, v)"
    using get_value_text [OF assms(1,3)] set_value_text [OF assms(1,2)] by blast
  show "map_option fst (DataValue_GetValue fl v (length (value_text v))) =
        Some (if value_type v = INTERNAL_STRING then TINY_RET_E_ARG_INVALID else TINY_RET_OK)"
    using assms(1) by (cases v) (auto simp: printable_def value_text_def)
qed

definition int_floats :: "int float_ops" where
  "int_floats = \<lparr>atof = atol, printf_f = show_int, to_float = (\<lambda>x. x), fzero = 0\<rparr>"

theorem data_value_roundtrip_witness:
  "(\<exists>s. DataValue_GetValue int_floats (VString (Some ''On'')) 3 = Some (TINY_RET_OK, Some s)
      \<and> DataValue_SetValue int_floats True (VString (Some ''Off'')) (Some s) = Some (TINY_RET_OK, VString (Some ''On'')))
    \<and> map_option fst (DataValue_GetValue int_floats (VString (Some ''On''))
          (length (value_text (VString (Some ''On'') :: int data_value)))) =
        Some (if value_type (VString (Some ''On'') :: int data_value) = INTERNAL_STRING
          then TINY_RET_E_ARG_INVALID else TINY_RET_OK)"
  by (rule data_value_roundtrip) (simp_all add: printable_def value_text_def cstring_def)

text \<open>
  The name \<open>DataType_SetType\<close> stores for a type is read back by \<open>DataType_SetName\<close> as
  that type, with one exception: a byte is named \<open>char\<close> and comes back as a character. For
  the undefined type there is no name, and the NULL is passed on to \<open>strncpy\<close>.
\<close>

theorem data_type_name_roundtrip:
  "(case DataType_SetType t ty of
      None \<Rightarrow> ty = INTERNAL_UNDEFINED
    | Some t' \<Rightarrow> ty \<noteq> INTERNAL_UNDEFINED \<and> internal_type t' = ty
        \<and> DataType_SetName t (Some (type_name t')) =
            t'\<lparr>internal_type := (if ty = INTERNAL_BYTE then INTERNAL_CHAR else ty)\<rparr>)"
  by (cases ty) (simp_all add: DataType_SetType_def DataType_SetName_def field_defs
      InternalType_RetrieveType_def STR_EQUAL_def)

text \<open>
  Initialising a state variable of an integer type (\<open>i2\<close>, \<open>i4\<close>, \<open>int\<close>, \<open>ui1\<close>,
  \<open>ui2\<close>, \<open>ui4\<close>) with the decimal text of a number in the range of the C type behind it
  gives the variable that name, type and value: printing the value gives the text back. The
  event flag is set exactly by \<open>1\<close>, \<open>yes\<close> or \<open>true\<close> in any letter case.
\<close>

theorem state_variable_initialize:
  assumes "ty \<in> {''i2'', ''ui1'', ''ui2'', ''i4'', ''int'', ''ui4''}"
    and "int_width = (if ty \<in> {''i2'', ''ui1''} then 15 else if ty = ''ui4'' then 63 else 31)"
    and "- (2 ^ int_width) \<le> i" and "i < 2 ^ int_width" and "length (show_int i) < len"
    and "cstring sends"
  shows "\<exists>v'. UpnpStateVariable_Initialize fl True v (Some name) (Some ty) (Some (show_int i)) (Some sends) =
      Some (TINY_RET_OK, v')
    \<and> DataValue_GetValue fl (sv_value v') len = Some (TINY_RET_OK, Some (show_int i))
    \<and> var_name (sv_def v') = field_cpy STATE_VARIABLE_NAME_LEN name
    \<and> type_name (var_type (sv_def v')) = ty \<and> value_type (sv_value v') = internal_type (var_type (sv_def v'))
    \<and> (send_events v' \<longleftrightarrow> sends = ''1'' \<or> map tolower sends = ''yes'' \<or> map tolower sends = ''true'')"
proof -
  define t where "t = DataType_SetName DataType_Construct (Some ty)"
  have w16: "sint (word_of_int i :: 16 word) = i" if "int_width = 15"
    using assms(3,4) that by (simp add: signed_of_int signed_take_bit_int_eq_self)
  have w32: "sint (word_of_int i :: 32 word) = i" if "int_width = 31"
    using assms(3,4) that by (simp add: signed_of_int signed_take_bit_int_eq_self)
  have w64: "sint (word_of_int i :: 64 word) = i" if "int_width = 63"
    using assms(3,4) that by (simp add: signed_of_int signed_take_bit_int_eq_self)
  have ai: "atoi (show_int i) = i" if "int_width \<le> 31"
    using assms(3,4) power_increasing [OF that, of "2 :: int"] by (intro atoi_show_int) linarith+
  have al: "atol (show_int i) = i" if "int_width = 63"
    using assms(3,4) that by (intro atol_show_int) simp_all
  have fit: "field_printf len (show_int i) = show_int i" using assms(5) by (simp add: field_defs)
  consider "internal_type t = INTERNAL_WORD" "int_width = 15"
    | "internal_type t = INTERNAL_INTEGER" "int_width = 31"
    | "internal_type t = INTERNAL_LONG" "int_width = 63"
    using assms(1,2) by (auto simp: t_def DataType_SetName_def InternalType_RetrieveType_def STR_EQUAL_def)
  then have "\<exists>v1. DataValue_SetValue fl True (zero_value fl (internal_type t)) (Some (show_int i)) =
        Some (TINY_RET_OK, v1)
      \<and> value_type v1 = internal_type t \<and> DataValue_GetValue fl v1 len = Some (TINY_RET_OK, Some (show_int i))"
  proof cases
    case 1
    with w16 ai fit show ?thesis by (simp add: DataValue_SetValue_def DataValue_SetWord_def)
  next
    case 2
    with w32 ai fit show ?thesis by (simp add: DataValue_SetValue_def DataValue_SetInteger_def)
  next
    case 3
    with w64 al fit show ?thesis by (simp add: DataValue_SetValue_def DataValue_SetLong_def)
  qed
  then obtain v1 where v1: "DataValue_SetValue fl True (zero_value fl (internal_type t)) (Some (show_int i)) =
        Some (TINY_RET_OK, v1)" "value_type v1 = internal_type t"
      "DataValue_GetValue fl v1 len = Some (TINY_RET_OK, Some (show_int i))"
    by blast
  have tn: "type_name t = ty" using assms(1)
    by (auto simp: t_def DataType_SetName_def DATA_TYPE_NAME_LEN_def field_defs)
  have "length ty \<le> DATA_TYPE_NAME_LEN" using assms(1) by (auto simp: DATA_TYPE_NAME_LEN_def)
  then show ?thesis
    using v1 tn
    by (simp add: UpnpStateVariable_Initialize_def t_def [symmetric] Let_def DataValue_Copy_def
        UpnpStateVariableDefinition_Initialize_def DataType_Copy_def field_cpy_short
        string_to_boolean [OF assms(6)])
qed

theorem state_variable_initialize_witness:
  "\<exists>v'. UpnpStateVariable_Initialize int_floats True
      \<lparr>send_events = False, is_changed = False, sv_def = UpnpStateVariableDefinition_Construct, sv_value = VUndefined\<rparr>
      (Some ''LoadLevel'') (Some ''ui1'') (Some (show_int 200)) (Some ''Yes'') = Some (TINY_RET_OK, v')
    \<and> DataValue_GetValue int_floats (sv_value v') 100 = Some (TINY_RET_OK, Some (show_int 200))
    \<and> var_name (sv_def v') = field_cpy STATE_VARIABLE_NAME_LEN ''LoadLevel''
    \<and> type_name (var_type (sv_def v')) = ''ui1'' \<and> value_type (sv_value v') = internal_type (var_type (sv_def v'))
    \<and> (send_events v' \<longleftrightarrow> ''Yes'' = ''1'' \<or> map tolower ''Yes'' = ''yes'' \<or> map tolower ''Yes'' = ''true'')"
  by (rule state_variable_initialize [where int_width = 15])
    (simp_all add: show_int_def show_nat_small show_nat_big)

end
