(* ===== verification/PropertyList.thy ===== *)
theory PropertyList
  imports Containers
begin

section \<open>Property lists: \<open>Property.c\<close> and \<open>PropertyList.c\<close>\<close>

text \<open>
  A list of name/value pairs with distinct names, in fields of 128 and 256 bytes. Names are
  compared with \<open>strcmp\<close>, which runs past a name field that holds 128 bytes: undefined
  behaviour (\<open>None\<close>), as is the dereference of a missing list element.
\<close>

subsection \<open>Data and operations\<close>

definition PROPERTY_NAME_LEN :: nat where "PROPERTY_NAME_LEN = 128"
definition PROPERTY_VALUE_LEN :: nat where "PROPERTY_VALUE_LEN = 256"

lemmas property_lens [field_defs] = PROPERTY_NAME_LEN_def PROPERTY_VALUE_LEN_def

record property =
  pname :: string
  pvalue :: string

type_synonym property_list = "property lspec"

definition Property_Construct :: "tiny_ret \<times> property" where
  "Property_Construct = (TINY_RET_OK, \<lparr>pname = [], pvalue = []\<rparr>)"

definition Property_New :: "bool \<Rightarrow> property option" where
  "Property_New malloc_ok =
     (if malloc_ok then (case Property_Construct of (ret, p) \<Rightarrow> if RET_FAILED ret then None else Some p)
      else None)"

definition Property_Dispose :: "property \<Rightarrow> property" where
  "Property_Dispose p = \<lparr>pname = [], pvalue = []\<rparr>"

definition Property_Copy :: "property \<Rightarrow> property \<Rightarrow> property" where
  "Property_Copy dst src = (Property_Dispose dst)
     \<lparr>pname := field_cpy PROPERTY_NAME_LEN (pname src), pvalue := field_cpy PROPERTY_VALUE_LEN (pvalue src)\<rparr>"

definition PropertyList_Construct :: "tiny_ret \<times> property_list" where
  "PropertyList_Construct = (TINY_RET_OK, L_SetDeleteListener True L_new)"

definition PropertyList_New :: "bool \<Rightarrow> property_list option" where
  "PropertyList_New malloc_ok =
     (if malloc_ok then (case PropertyList_Construct of (ret, l) \<Rightarrow> if RET_FAILED ret then None else Some l)
      else None)"

definition PropertyList_Dispose :: "property_list \<Rightarrow> property_list" where
  "PropertyList_Dispose l = snd (L_RemoveAll l)"

definition PropertyList_GetSize :: "property_list \<Rightarrow> 32 word" where
  "PropertyList_GetSize l = word_of_int (L_GetCount l)"

definition PropertyList_GetPropertyAt :: "property_list \<Rightarrow> 32 word \<Rightarrow> property option" where
  "PropertyList_GetPropertyAt l index = L_GetAt l (sint index)"

text \<open>
  The search loop of \<open>PropertyList_AddProperty\<close> and \<open>PropertyList_GetProperty\<close>: the
  property from position \<open>i\<close> on, among \<open>n\<close>, whose name is the given string.
\<close>

fun property_find :: "property_list \<Rightarrow> string \<Rightarrow> int \<Rightarrow> nat \<Rightarrow> property option option" where
  "property_find l name i 0 = Some None"
| "property_find l name i (Suc n) = do {
     p \<leftarrow> L_GetAt l i;
     s \<leftarrow> read_field PROPERTY_NAME_LEN (pname p);
     if STR_EQUAL s name then Some (Some p) else property_find l name (i + 1) n }"

text \<open>
  \<open>ok\<close> is the allocation of the list node. The name field of the new property is read only
  when there is something to compare it with.
\<close>

definition PropertyList_AddProperty ::
    "bool \<Rightarrow> property_list \<Rightarrow> property option \<Rightarrow> (tiny_ret \<times> property_list) option" where
  "PropertyList_AddProperty ok l property = (case property of
       None \<Rightarrow> Some (TINY_RET_E_ARG_NULL, l)
     | Some q \<Rightarrow> do {
         found \<leftarrow> (if count l = 0 then Some None
                   else do {
                     name \<leftarrow> read_field PROPERTY_NAME_LEN (pname q);
                     property_find l name 0 (unat (count l)) });
         if found \<noteq> None then Some (TINY_RET_E_ITEM_EXIST, l)
         else Some (L_AddTail ok (Some q) l) })"

definition PropertyList_Add ::
    "mallocs \<Rightarrow> property_list \<Rightarrow> string option \<Rightarrow> string option \<Rightarrow> (tiny_ret \<times> property_list) option" where
  "PropertyList_Add oks l name val = (case (name, val) of
       (Some n, Some v) \<Rightarrow> (case malloc_next oks of (ok, oks1) \<Rightarrow>
           (case Property_New ok of
              None \<Rightarrow> Some (TINY_RET_E_NEW, l)
            | Some p \<Rightarrow> PropertyList_AddProperty (fst (malloc_next oks1)) l
                (Some (p\<lparr>pname := field_cpy PROPERTY_NAME_LEN n, pvalue := field_cpy PROPERTY_VALUE_LEN v\<rparr>))))
     | _ \<Rightarrow> Some (TINY_RET_E_ARG_NULL, l))"

definition PropertyList_GetProperty :: "property_list \<Rightarrow> string option \<Rightarrow> property option option" where
  "PropertyList_GetProperty l name = (case name of
       None \<Rightarrow> Some None
     | Some n \<Rightarrow> property_find l n 0 (unat (count l)))"

definition PropertyList_GetPropertyValue :: "property_list \<Rightarrow> string option \<Rightarrow> string option option" where
  "PropertyList_GetPropertyValue l name = map_option (map_option pvalue) (PropertyList_GetProperty l name)"

text \<open>
  The copy loop stops silently at the first allocation that fails; a missing source element
  would be copied as an empty property.
\<close>

fun property_copy_loop :: "mallocs \<Rightarrow> property_list \<Rightarrow> property_list \<Rightarrow> int \<Rightarrow> nat \<Rightarrow> property_list" where
  "property_copy_loop oks dst src i 0 = dst"
| "property_copy_loop oks dst src i (Suc n) = (case malloc_next oks of (ok, oks1) \<Rightarrow>
     (case Property_New ok of
        None \<Rightarrow> dst
      | Some p \<Rightarrow> (case malloc_next oks1 of (ok', oks2) \<Rightarrow>
          (case L_AddTail ok' (Some (case L_GetAt src i of None \<Rightarrow> p | Some q \<Rightarrow> Property_Copy p q)) dst of
             (ret, dst1) \<Rightarrow> if RET_FAILED ret then dst else property_copy_loop oks2 dst1 src (i + 1) n))))"

definition PropertyList_Copy :: "mallocs \<Rightarrow> property_list \<Rightarrow> property_list \<Rightarrow> property_list" where
  "PropertyList_Copy oks dst src =
     property_copy_loop oks (PropertyList_Dispose dst) src 0 (unat (PropertyList_GetSize src))"

subsection \<open>The list as a store under names\<close>

definition property_inv :: "property_list \<Rightarrow> bool" where
  "property_inv l \<longleftrightarrow> None \<notin> set (items l) \<and> count_ok l \<and> length (items l) < 2 ^ 32
     \<and> list_all (\<lambda>x. length (pname (the x)) < PROPERTY_NAME_LEN) (items l)
     \<and> distinct (map (\<lambda>x. pname (the x)) (items l))"

definition property_entries :: "property_list \<Rightarrow> (string \<times> property) list" where
  "property_entries l = map (\<lambda>x. (pname (the x), the x)) (items l)"

definition property_room :: "property_list \<Rightarrow> nat \<Rightarrow> bool" where
  "property_room l n \<longleftrightarrow> length (items l) + n < 2 ^ 32"

lemma property_count: "property_inv l \<Longrightarrow> unat (count l) = length (items l)"
  by (simp add: property_inv_def count_ok_def unat_word_of_nat)

lemma property_find_entries:
  assumes "property_inv l" and "i + n = length (items l)"
  shows "property_find l name (int i) n = Some (map_of (drop i (property_entries l)) name)"
  using assms(2)
proof (induction n arbitrary: i)
  case 0
  then show ?case by (simp add: property_entries_def)
next
  case (Suc n)
  then have i: "i < length (items l)" by simp
  then have mem: "items l ! i \<in> set (items l)" by simp
  moreover have "None \<notin> set (items l)" using assms(1) by (simp add: property_inv_def)
  ultimately have "items l ! i \<noteq> None" by metis
  then obtain p where p: "items l ! i = Some p" by blast
  then have at: "L_GetAt l (int i) = Some p" using i by (simp add: L_GetAt_def nth_int_of_nat)
  have "length (pname p) < PROPERTY_NAME_LEN"
    using assms(1) mem p by (fastforce simp: property_inv_def list_all_iff)
  then have rd: "read_field PROPERTY_NAME_LEN (pname p) = Some (pname p)" by (simp add: read_field_def)
  have "drop i (property_entries l) = (pname p, p) # drop (Suc i) (property_entries l)"
    using i p by (simp add: property_entries_def Cons_nth_drop_Suc [symmetric])
  moreover have "property_find l name (int i + 1) n = Some (map_of (drop (Suc i) (property_entries l)) name)"
    using Suc.IH [of "Suc i"] Suc.prems by (simp add: add.commute)
  ultimately show ?case using at rd by (simp add: STR_EQUAL_def)
qed

lemma property_lookup: "property_inv l \<Longrightarrow>
    PropertyList_GetProperty l (Some n) = Some (map_of (property_entries l) n)"
  using property_find_entries [of l 0 "length (items l)" n]
  by (simp add: PropertyList_GetProperty_def property_count)

definition new_property :: "string \<Rightarrow> string \<Rightarrow> property" where
  "new_property k v = \<lparr>pname = field_cpy PROPERTY_NAME_LEN k, pvalue = field_cpy PROPERTY_VALUE_LEN v\<rparr>"

lemma pvalue_new_property [simp]: "pvalue (new_property k v) = field_cpy PROPERTY_VALUE_LEN v"
  by (simp add: new_property_def)

lemma property_add:
  assumes "property_inv l" and "length k < PROPERTY_NAME_LEN"
  shows "PropertyList_Add [] l (Some k) (Some v) = Some
    (if map_of (property_entries l) k = None
     then (TINY_RET_OK, l\<lparr>items := items l @ [Some (new_property k v)], count := count l + 1\<rparr>)
     else (TINY_RET_E_ITEM_EXIST, l))"
proof -
  have k: "field_cpy PROPERTY_NAME_LEN k = k" "read_field PROPERTY_NAME_LEN k = Some k"
    using assms(2) by (simp_all add: field_cpy_short read_field_def)
  have "items l = []" if "count l = 0"
    using property_count [OF assms(1)] that by simp
  then have empty: "map_of (property_entries l) k = None" if "count l = 0"
    using that by (simp add: property_entries_def)
  have "property_find l k 0 (unat (count l)) = Some (map_of (property_entries l) k)"
    using property_lookup [OF assms(1), of k] by (simp add: PropertyList_GetProperty_def)
  then show ?thesis
    using k empty
    by (auto simp: PropertyList_Add_def Property_New_def Property_Construct_def PropertyList_AddProperty_def
        L_AddTail_def new_property_def)
qed

lemma property_entries_add:
  "length k < PROPERTY_NAME_LEN \<Longrightarrow>
     property_entries (l\<lparr>items := items l @ [Some (new_property k v)], count := c\<rparr>) =
     property_entries l @ [(k, new_property k v)]"
  by (simp add: property_entries_def new_property_def field_cpy_short)

lemma map_of_names_None: "map_of (property_entries l) k = None \<longleftrightarrow> k \<notin> (\<lambda>x. pname (the x)) ` set (items l)"
proof -
  have "fst ` set (property_entries l) = (\<lambda>x. pname (the x)) ` set (items l)"
    by (force simp: property_entries_def)
  then show ?thesis by (simp add: map_of_eq_None_iff)
qed

lemma property_inv_add:
  assumes "property_inv l" and "length k < PROPERTY_NAME_LEN" and "property_room l 1"
  shows "property_inv (snd (the (PropertyList_Add [] l (Some k) (Some v))))"
proof -
  have "property_inv (l\<lparr>items := items l @ [Some (new_property k v)], count := count l + 1\<rparr>)"
    if "map_of (property_entries l) k = None"
    using assms map_of_names_None [of l k] that
    by (auto simp: property_inv_def property_room_def new_property_def field_cpy_short count_ok_def)
  with assms show ?thesis by (simp add: property_add)
qed

text \<open>A property list is a store under its names, as long as the counter does not wrap.\<close>

interpretation pl: keyed_add "\<lambda>k v l. the (PropertyList_Add [] l (Some k) (Some v))"
  "\<lambda>l k. the (PropertyList_GetPropertyValue l (Some k))" "\<lambda>k. k" "field_cpy PROPERTY_VALUE_LEN"
  "\<lambda>k. length k < PROPERTY_NAME_LEN" property_room property_inv
proof unfold_locales
  fix l :: property_list and k k' v w :: string
  assume l: "property_inv l" and k: "length k < PROPERTY_NAME_LEN"
  have lookup: "the (PropertyList_GetPropertyValue x (Some y)) = map_option pvalue (map_of (property_entries x) y)"
    if "property_inv x" for x y
    by (simp add: PropertyList_GetPropertyValue_def property_lookup that)
  show "the (PropertyList_Add [] l (Some k) (Some v)) = (TINY_RET_E_ITEM_EXIST, l)"
    if "the (PropertyList_GetPropertyValue l (Some k)) = Some w"
    using that by (auto simp: lookup l property_add [OF l k])
  show "property_room (snd (the (PropertyList_Add [] l (Some k) (Some v)))) n" if "property_room l (Suc n)" for n
    using that by (auto simp: property_add [OF l k] property_room_def)
  assume r: "property_room l 1"
  show "property_inv (snd (the (PropertyList_Add [] l (Some k) (Some v))))"
    by (rule property_inv_add [OF l k r])
  note inv' = property_inv_add [OF l k r, of v]
  assume n: "the (PropertyList_GetPropertyValue l (Some k)) = None"
  show "fst (the (PropertyList_Add [] l (Some k) (Some v))) = TINY_RET_OK"
    using n by (simp add: lookup l property_add [OF l k])
  show "the (PropertyList_GetPropertyValue (snd (the (PropertyList_Add [] l (Some k) (Some v)))) (Some k')) =
    (if k' = k then Some (field_cpy PROPERTY_VALUE_LEN v) else the (PropertyList_GetPropertyValue l (Some k')))"
    using n lookup [OF inv', of k']
    by (auto simp: lookup l property_add [OF l k] property_entries_add [OF k] map_add_def
        split: option.splits)
qed (auto simp: property_room_def)

subsection \<open>Copying\<close>

lemma property_entry_at:
  assumes "property_inv l" and "i < length (items l)"
  shows "\<exists>p. L_GetAt l (int i) = Some p \<and> items l ! i = Some p"
proof -
  have "None \<notin> set (items l)" using assms(1) by (simp add: property_inv_def)
  moreover have "items l ! i \<in> set (items l)" using assms(2) by simp
  ultimately have "items l ! i \<noteq> None" by metis
  then show ?thesis using assms(2) by (auto simp: L_GetAt_def nth_int_of_nat)
qed

lemma property_copy_items:
  assumes "property_inv src" and "list_all (\<lambda>x. length (pvalue (the x)) \<le> PROPERTY_VALUE_LEN) (items src)"
    and "i + n = length (items src)"
  shows "items (property_copy_loop [] dst src (int i) n) = items dst @ drop i (items src)
    \<and> count (property_copy_loop [] dst src (int i) n) = count dst + word_of_nat n"
  using assms(3)
proof (induction n arbitrary: i dst)
  case 0
  then show ?case by simp
next
  case (Suc n)
  then have i: "i < length (items src)" by simp
  obtain q where q: "L_GetAt src (int i) = Some q" "items src ! i = Some q"
    using property_entry_at [OF assms(1) i] by blast
  have "length (pname (the (items src ! i))) < PROPERTY_NAME_LEN"
      "length (pvalue (the (items src ! i))) \<le> PROPERTY_VALUE_LEN"
    using assms(1,2) i by (auto simp: property_inv_def list_all_length)
  then have "Property_Copy \<lparr>pname = [], pvalue = []\<rparr> q = q"
    using q by (simp add: Property_Copy_def Property_Dispose_def field_cpy_short)
  then have step: "property_copy_loop [] dst src (int i) (Suc n) =
      property_copy_loop [] (dst\<lparr>items := items dst @ [Some q], count := count dst + 1\<rparr>) src (int (Suc i)) n"
    using q by (simp add: Property_New_def Property_Construct_def L_AddTail_def add.commute)
  have "drop i (items src) = Some q # drop (Suc i) (items src)"
    using i q by (metis Cons_nth_drop_Suc)
  then show ?case
    using Suc.IH [of "Suc i" "dst\<lparr>items := items dst @ [Some q], count := count dst + 1\<rparr>"] Suc.prems
    unfolding step by (simp add: add.assoc)
qed

subsection \<open>Properties\<close>

text \<open>
  A property list holds one value per name: after adding any pairs (names of fewer than
  128 characters, memory available, fewer than \<open>2 ^ 32\<close> of them) to a new list, the value of
  a name is the first one added for it, cut to 256 bytes, and NULL for other names; no
  operation has undefined behaviour.
\<close>

theorem property_list_lookup:
  assumes "list_all (\<lambda>kv. length (fst kv) < PROPERTY_NAME_LEN) kvs" and "length kvs < 2 ^ 32"
  shows "PropertyList_GetPropertyValue
      (fold (\<lambda>(k, v) l. snd (the (PropertyList_Add [] l (Some k) (Some v)))) kvs (snd PropertyList_Construct)) (Some k) =
    Some (map_of (map (\<lambda>(k, v). (k, field_cpy PROPERTY_VALUE_LEN v)) kvs) k)"
proof -
  have i0: "property_inv (snd PropertyList_Construct)"
    by (simp add: PropertyList_Construct_def L_SetDeleteListener_def L_new_def property_inv_def count_ok_def)
  have n0: "the (PropertyList_GetPropertyValue (snd PropertyList_Construct) (Some k)) = None" for k
    by (simp add: PropertyList_GetPropertyValue_def property_lookup [OF i0])
      (simp add: property_entries_def PropertyList_Construct_def L_SetDeleteListener_def L_new_def)
  have r0: "property_room (snd PropertyList_Construct) (length kvs)"
    using assms(2) by (simp add: property_room_def PropertyList_Construct_def L_SetDeleteListener_def L_new_def)
  have "property_inv (pl.add_all kvs (snd PropertyList_Construct))"
    using pl.add_all_inv_lookup [OF i0 assms(1) r0] by blast
  then have "PropertyList_GetPropertyValue (pl.add_all kvs (snd PropertyList_Construct)) (Some k) \<noteq> None"
    by (simp add: PropertyList_GetPropertyValue_def property_lookup)
  then show ?thesis
    using pl.lookup_add_all [OF i0 n0 assms(1) r0, of k] by (auto simp: pl.add_all_def)
qed

theorem property_list_lookup_witness:
  "PropertyList_GetPropertyValue
      (fold (\<lambda>(k, v) l. snd (the (PropertyList_Add [] l (Some k) (Some v)))) [(''Power'', ''1''), (''Power'', ''0'')]
        (snd PropertyList_Construct)) (Some ''Power'') =
    Some (map_of (map (\<lambda>(k, v). (k, field_cpy PROPERTY_VALUE_LEN v)) [(''Power'', ''1''), (''Power'', ''0'')]) ''Power'')"
  by (rule property_list_lookup) (simp_all add: field_defs)

text \<open>
  \<open>PropertyList_Copy\<close> makes the target hold exactly the properties of a well-formed
  source, in order, whatever it held before (memory available), and keeps its counter right.
\<close>

theorem property_list_copy:
  assumes "property_inv src" and "list_all (\<lambda>x. length (pvalue (the x)) \<le> PROPERTY_VALUE_LEN) (items src)"
    and "count_ok dst"
  shows "items (PropertyList_Copy [] dst src) = items src \<and> count_ok (PropertyList_Copy [] dst src)"
proof -
  have "unat (PropertyList_GetSize src) = length (items src)"
    using property_count [OF assms(1)] by (simp add: PropertyList_GetSize_def L_GetCount_def)
  moreover have "items (PropertyList_Dispose dst) = []" "count (PropertyList_Dispose dst) = 0"
    using assms(3) by (simp_all add: PropertyList_Dispose_def L_RemoveAll_def count_ok_def)
  ultimately show ?thesis
    using property_copy_items [OF assms(1,2), of 0 "length (items src)" "PropertyList_Dispose dst"]
    by (simp add: PropertyList_Copy_def count_ok_def)
qed

definition demo_properties :: property_list where
  "demo_properties = \<lparr>items = [Some \<lparr>pname = ''Power'', pvalue = ''1''\<rparr>], count = 1, log = [], has_listener = True\<rparr>"

theorem property_list_copy_witness:
  "items (PropertyList_Copy [] L_new demo_properties) = items demo_properties
    \<and> count_ok (PropertyList_Copy [] L_new demo_properties)"
  by (rule property_list_copy)
    (simp_all add: demo_properties_def property_inv_def count_ok_def field_defs L_new_def)

end
