(* ===== verification/UpnpUri.thy ===== *)
theory UpnpUri
  imports TinyUuid TinyString
begin

section \<open>URIs and unique service names: \<open>UpnpUri.c\<close> and \<open>UpnpUsn.c\<close>\<close>

text \<open>
  The names UPnP gives to devices and services. Both parsers split the text with
  \<open>str_split\<close> into zeroed groups of 128 bytes; a group that is full has no terminator, and
  reading it as a string is undefined (\<open>None\<close>).
\<close>

subsection \<open>UpnpUri\<close>

datatype uri_type = UPNP_URI_UNDEFINED | UPNP_URI_ROOT_DEVICE | UPNP_URI_UUID | UPNP_URI_UPNP_DEVICE
  | UPNP_URI_UPNP_SERVICE | UPNP_URI_NON_UPNP_DEVICE | UPNP_URI_NON_UPNP_SERVICE

definition UPNP_URI_LEN :: nat where "UPNP_URI_LEN = 128"
definition UPNP_USN_LEN :: nat where "UPNP_USN_LEN = 128"
definition UPNP_UUID_LEN :: nat where "UPNP_UUID_LEN = 68"
definition UPNP_DOMAIN_NAME_LEN :: nat where "UPNP_DOMAIN_NAME_LEN = 32"
definition UPNP_TYPE_LEN :: nat where "UPNP_TYPE_LEN = 32"
definition UPNP_VERSION_LEN :: nat where "UPNP_VERSION_LEN = 32"

lemmas uri_lens [field_defs] = UPNP_URI_LEN_def UPNP_USN_LEN_def UPNP_UUID_LEN_def
  UPNP_DOMAIN_NAME_LEN_def UPNP_TYPE_LEN_def UPNP_VERSION_LEN_def

definition ROOT_DEVICE :: string where "ROOT_DEVICE = ''upnp:rootdevice''"
definition UUID :: string where "UUID = ''uuid''"
definition URN :: string where "URN = ''urn''"
definition DEVICE :: string where "DEVICE = ''device''"
definition SERVICE :: string where "SERVICE = ''service''"
definition SCHEMAS_UPNP_ORG :: string where "SCHEMAS_UPNP_ORG = ''schemas-upnp-org''"

lemmas uri_words = ROOT_DEVICE_def UUID_def URN_def DEVICE_def SERVICE_def SCHEMAS_UPNP_ORG_def

record upnp_uri =
  uri_type :: uri_type
  uri_string :: string
  domain_name :: string
  device_type :: string
  service_type :: string
  uri_version :: string
  strict_uuid :: bool
  uri_uuid :: tiny_uuid
  uri_uuid_string :: string

definition UpnpUri_Construct :: "tiny_ret \<times> upnp_uri" where
  "UpnpUri_Construct = (case TinyUuid_Construct of (ret, u) \<Rightarrow>
     (ret, \<lparr>uri_type = UPNP_URI_UNDEFINED, uri_string = [], domain_name = [], device_type = [],
            service_type = [], uri_version = [], strict_uuid = False, uri_uuid = u, uri_uuid_string = []\<rparr>))"

definition UpnpUri_New :: "bool \<Rightarrow> upnp_uri option" where
  "UpnpUri_New malloc_ok =
     (if malloc_ok then (case UpnpUri_Construct of (ret, u) \<Rightarrow> if RET_FAILED ret then None else Some u) else None)"

text \<open>\<open>strict_uuid\<close> is not copied.\<close>

definition UpnpUri_Copy :: "upnp_uri \<Rightarrow> upnp_uri \<Rightarrow> upnp_uri" where
  "UpnpUri_Copy dst src = dst
     \<lparr>uri_type := uri_type src,
      uri_string := field_cpy UPNP_URI_LEN (uri_string src),
      uri_uuid := TinyUuid_Copy (uri_uuid dst) (uri_uuid src),
      uri_uuid_string := field_cpy UPNP_UUID_LEN (uri_uuid_string src),
      domain_name := field_cpy UPNP_DOMAIN_NAME_LEN (domain_name src),
      device_type := field_cpy UPNP_TYPE_LEN (device_type src),
      service_type := field_cpy UPNP_TYPE_LEN (service_type src),
      uri_version := field_cpy UPNP_VERSION_LEN (uri_version src)\<rparr>"

definition UpnpUri_Initialize_RootDevice :: "upnp_uri \<Rightarrow> tiny_ret \<times> upnp_uri" where
  "UpnpUri_Initialize_RootDevice u =
     (TINY_RET_OK, u\<lparr>uri_type := UPNP_URI_ROOT_DEVICE, uri_string := field_printf UPNP_URI_LEN ROOT_DEVICE\<rparr>)"

definition UpnpUri_Initialize_Uuid :: "upnp_uri \<Rightarrow> string \<Rightarrow> tiny_ret \<times> upnp_uri" where
  "UpnpUri_Initialize_Uuid u uuid =
     (TINY_RET_OK, u\<lparr>uri_type := UPNP_URI_UUID, uri_string := field_printf UPNP_URI_LEN uuid\<rparr>)"

text \<open>The text \<open>urn:domain:kind:type:version\<close>.\<close>

definition urn_text :: "string \<Rightarrow> string \<Rightarrow> string \<Rightarrow> string \<Rightarrow> string" where
  "urn_text domain kind ty ver = join_with '':'' [URN, domain, kind, ty, ver]"

definition UpnpUri_Initialize_UpnpDevice :: "upnp_uri \<Rightarrow> string option \<Rightarrow> string option \<Rightarrow> tiny_ret \<times> upnp_uri" where
  "UpnpUri_Initialize_UpnpDevice u ty ver = (case (ty, ver) of
       (Some t, Some v) \<Rightarrow> (TINY_RET_OK, u\<lparr>uri_type := UPNP_URI_UPNP_DEVICE,
          uri_string := field_printf UPNP_URI_LEN (urn_text SCHEMAS_UPNP_ORG DEVICE t v)\<rparr>)
     | _ \<Rightarrow> (TINY_RET_E_ARG_NULL, u))"

definition UpnpUri_Initialize_UpnpService :: "upnp_uri \<Rightarrow> string option \<Rightarrow> string option \<Rightarrow> tiny_ret \<times> upnp_uri" where
  "UpnpUri_Initialize_UpnpService u ty ver = (case (ty, ver) of
       (Some t, Some v) \<Rightarrow> (TINY_RET_OK, u\<lparr>uri_type := UPNP_URI_UPNP_SERVICE,
          uri_string := field_printf UPNP_URI_LEN (urn_text SCHEMAS_UPNP_ORG SERVICE t v)\<rparr>)
     | _ \<Rightarrow> (TINY_RET_E_ARG_NULL, u))"

definition UpnpUri_Initialize_NonUpnpDevice ::
    "upnp_uri \<Rightarrow> string option \<Rightarrow> string option \<Rightarrow> string option \<Rightarrow> tiny_ret \<times> upnp_uri" where
  "UpnpUri_Initialize_NonUpnpDevice u domain ty ver = (case (domain, ty, ver) of
       (Some d, Some t, Some v) \<Rightarrow> (TINY_RET_OK, u\<lparr>uri_type := UPNP_URI_NON_UPNP_DEVICE,
          uri_string := field_printf UPNP_URI_LEN (urn_text d DEVICE t v)\<rparr>)
     | _ \<Rightarrow> (TINY_RET_E_ARG_NULL, u))"

definition UpnpUri_Initialize_NonUpnpService ::
    "upnp_uri \<Rightarrow> string option \<Rightarrow> string option \<Rightarrow> string option \<Rightarrow> tiny_ret \<times> upnp_uri" where
  "UpnpUri_Initialize_NonUpnpService u domain ty ver = (case (domain, ty, ver) of
       (Some d, Some t, Some v) \<Rightarrow> (TINY_RET_OK, u\<lparr>uri_type := UPNP_URI_NON_UPNP_SERVICE,
          uri_string := field_printf UPNP_URI_LEN (urn_text d SERVICE t v)\<rparr>)
     | _ \<Rightarrow> (TINY_RET_E_ARG_NULL, u))"

text \<open>
  \<open>group[i]\<close> as a string after the split: groups that were not written are empty, a full
  one has no terminator.
\<close>

definition group :: "string list \<Rightarrow> nat \<Rightarrow> string option" where
  "group gs i = (if i < length gs then read_field GROUP_LEN (gs ! i) else Some [])"

text \<open>The \<open>strncpy\<close> of a group into a shorter field needs no terminator.\<close>

definition group_cpy :: "nat \<Rightarrow> string list \<Rightarrow> nat \<Rightarrow> string" where
  "group_cpy n gs i = (if i < length gs then field_cpy n (gs ! i) else [])"

text \<open>The \<open>urn:\<close> forms, for the UPnP domain and for any other one.\<close>

definition parse_urn :: "upnp_uri \<Rightarrow> string list \<Rightarrow> (tiny_ret \<times> upnp_uri) option" where
  "parse_urn u gs =
     (if length gs \<noteq> 5 then Some (TINY_RET_E_ARG_INVALID, u)
      else do {
        g1 \<leftarrow> group gs 1;
        let upnp = STR_EQUAL g1 SCHEMAS_UPNP_ORG;
        let u1 = u\<lparr>domain_name := group_cpy UPNP_DOMAIN_NAME_LEN gs 1\<rparr>;
        g2 \<leftarrow> group gs 2;
        if STR_EQUAL g2 DEVICE then
          Some (TINY_RET_OK, u1
            \<lparr>uri_type := (if upnp then UPNP_URI_UPNP_DEVICE else UPNP_URI_NON_UPNP_DEVICE),
             device_type := group_cpy UPNP_TYPE_LEN gs 3,
             uri_version := group_cpy UPNP_VERSION_LEN gs 4\<rparr>)
        else if STR_EQUAL g2 SERVICE then
          Some (TINY_RET_OK, u1
            \<lparr>uri_type := (if upnp then UPNP_URI_UPNP_SERVICE else UPNP_URI_NON_UPNP_SERVICE),
             service_type := group_cpy UPNP_TYPE_LEN gs 3,
             uri_version := group_cpy UPNP_VERSION_LEN gs 4\<rparr>)
        else Some (TINY_RET_E_ARG_INVALID, u1) })"

text \<open>The body of the loop; for \<open>uuid:\<close> the type is left as it was.\<close>

definition parse_uri_body :: "upnp_uri \<Rightarrow> string \<Rightarrow> bool \<Rightarrow> (tiny_ret \<times> upnp_uri) option" where
  "parse_uri_body u str strict =
     (if STR_EQUAL str ROOT_DEVICE then Some (TINY_RET_OK, u\<lparr>uri_type := UPNP_URI_ROOT_DEVICE\<rparr>)
      else do {
        gs \<leftarrow> str_split str '':'' 10;
        g0 \<leftarrow> group gs 0;
        if STR_EQUAL g0 UUID then
          (let u1 = u\<lparr>uri_uuid_string := group_cpy UPNP_UUID_LEN gs 1\<rparr> in
           if strict then do {
             g1 \<leftarrow> group gs 1;
             Some (case TinyUuid_ParseFromString (uri_uuid u1) (Some g1) of (ret, v) \<Rightarrow> (ret, u1\<lparr>uri_uuid := v\<rparr>)) }
           else Some (TINY_RET_OK, u1))
        else if STR_EQUAL g0 URN then parse_urn u gs
        else Some (TINY_RET_E_ARG_INVALID, u) })"

definition UpnpUri_Parse :: "upnp_uri \<Rightarrow> string option \<Rightarrow> bool \<Rightarrow> (tiny_ret \<times> upnp_uri) option" where
  "UpnpUri_Parse u str strict = (case str of
       None \<Rightarrow> Some (TINY_RET_E_ARG_NULL, u)
     | Some s \<Rightarrow> map_option (\<lambda>(ret, v).
         (ret, if RET_SUCCEEDED ret then v\<lparr>uri_string := field_cpy UPNP_URI_LEN s\<rparr> else v))
         (parse_uri_body u s strict))"

definition UpnpUri_IsEqual :: "upnp_uri \<Rightarrow> string \<Rightarrow> bool option" where
  "UpnpUri_IsEqual u str = map_option (\<lambda>s. STR_EQUAL s str) (read_field UPNP_URI_LEN (uri_string u))"

subsection \<open>UpnpUsn\<close>

record upnp_usn =
  usn_string :: string
  usn_uuid :: tiny_uuid
  usn_uuid_string :: string
  usn_uri :: upnp_uri

definition UpnpUsn_Construct :: "tiny_ret \<times> upnp_usn" where
  "UpnpUsn_Construct = (case UpnpUri_Construct of (ret, u) \<Rightarrow>
     (ret, \<lparr>usn_string = [], usn_uuid = snd TinyUuid_Construct, usn_uuid_string = [], usn_uri = u\<rparr>))"

definition UpnpUsn_New :: "bool \<Rightarrow> upnp_usn option" where
  "UpnpUsn_New malloc_ok =
     (if malloc_ok then (case UpnpUsn_Construct of (ret, u) \<Rightarrow> if RET_FAILED ret then None else Some u) else None)"

definition UpnpUsn_Copy :: "upnp_usn \<Rightarrow> upnp_usn \<Rightarrow> upnp_usn" where
  "UpnpUsn_Copy dst src =
     \<lparr>usn_string = field_cpy UPNP_USN_LEN (usn_string src), usn_uuid = TinyUuid_Copy (usn_uuid dst) (usn_uuid src),
      usn_uuid_string = field_cpy UPNP_UUID_LEN (usn_uuid_string src), usn_uri = UpnpUri_Copy (usn_uri dst) (usn_uri src)\<rparr>"

definition UpnpUsn_Initialize_Uuid :: "upnp_usn \<Rightarrow> string option \<Rightarrow> tiny_ret \<times> upnp_usn" where
  "UpnpUsn_Initialize_Uuid n uuid = (case uuid of
       None \<Rightarrow> (TINY_RET_E_ARG_NULL, n)
     | Some s \<Rightarrow> (case TinyUuid_ParseFromString (usn_uuid n) (Some s) of (ret, v) \<Rightarrow>
         if RET_FAILED ret then (ret, n\<lparr>usn_uuid := v\<rparr>)
         else (ret, n\<lparr>usn_uuid := v, usn_string := field_printf UPNP_USN_LEN (''uuid:'' @ s)\<rparr>)))"

text \<open>The URI's text is printed with \<open>%s\<close>, so its field must be terminated.\<close>

definition UpnpUsn_Initialize_Uuid_UpnpUri ::
    "upnp_usn \<Rightarrow> string option \<Rightarrow> upnp_uri option \<Rightarrow> (tiny_ret \<times> upnp_usn) option" where
  "UpnpUsn_Initialize_Uuid_UpnpUri n uuid uri = (case (uuid, uri) of
       (Some s, Some r) \<Rightarrow> (case TinyUuid_ParseFromString (usn_uuid n) (Some s) of (ret, v) \<Rightarrow>
         if RET_FAILED ret then Some (ret, n\<lparr>usn_uuid := v\<rparr>)
         else do {
           text \<leftarrow> read_field UPNP_URI_LEN (uri_string r);
           Some (ret, n\<lparr>usn_uuid := v, usn_uri := UpnpUri_Copy (usn_uri n) r,
             usn_string := field_printf UPNP_USN_LEN (''uuid:'' @ s @ ''::'' @ text)\<rparr>) })
     | _ \<Rightarrow> Some (TINY_RET_E_ARG_NULL, n))"

definition parse_usn_body :: "upnp_usn \<Rightarrow> string \<Rightarrow> bool \<Rightarrow> (tiny_ret \<times> upnp_usn) option" where
  "parse_usn_body n str strict = do {
     gs \<leftarrow> str_split str ''::'' 2;
     g0 \<leftarrow> group gs 0;
     (case (case strstr g0 ''uuid:'' of Some p \<Rightarrow> Some p | None \<Rightarrow> strstr g0 ''UUID:'') of
        None \<Rightarrow> Some (TINY_RET_E_ARG_INVALID, n)
      | Some p0 \<Rightarrow>
          (let p = drop 5 p0;
               parsed = TinyUuid_ParseFromString (usn_uuid n) (Some p);
               ret1 = (if strict then fst parsed else TINY_RET_OK);
               n1 = (if strict then n\<lparr>usn_uuid := snd parsed\<rparr>
                     else n\<lparr>usn_uuid_string := field_cpy UPNP_UUID_LEN p\<rparr>)
           in if RET_FAILED ret1 then Some (ret1, n1)
              else if length gs = 2 then do {
                g1 \<leftarrow> group gs 1;
                (ret2, v) \<leftarrow> UpnpUri_Parse (usn_uri n1) (Some g1) strict;
                Some (ret2, n1\<lparr>usn_uri := v\<rparr>) }
              else Some (ret1, n1))) }"

definition UpnpUsn_Parse :: "upnp_usn \<Rightarrow> string option \<Rightarrow> bool \<Rightarrow> (tiny_ret \<times> upnp_usn) option" where
  "UpnpUsn_Parse n str strict = (case str of
       None \<Rightarrow> Some (TINY_RET_E_ARG_NULL, n)
     | Some s \<Rightarrow> map_option (\<lambda>(ret, v).
         (ret, if RET_SUCCEEDED ret then v\<lparr>usn_string := field_cpy UPNP_USN_LEN s\<rparr> else v))
         (parse_usn_body n s strict))"

subsection \<open>Parsing the names that were built\<close>

definition name_part :: "string \<Rightarrow> bool" where
  "name_part s \<longleftrightarrow> CHR '':'' \<notin> set s \<and> length s < UPNP_TYPE_LEN"

lemma RET_OK_succeeded [simp]: "RET_SUCCEEDED TINY_RET_OK"
  by (simp add: RET_SUCCEEDED_def ret_defs)

lemma split_urn:
  assumes "name_part d" and "name_part k" and "name_part t" and "name_part v"
  shows "str_split (urn_text d k t v) '':'' 10 = Some [URN, d, k, t, v]"
  unfolding urn_text_def using assms
  by (intro str_split_joined) (auto simp: name_part_def field_defs GROUP_LEN_def URN_def)

lemma parse_urn_text:
  assumes "name_part d" and "k \<in> {DEVICE, SERVICE}" and "name_part t" and "name_part v"
  shows "UpnpUri_Parse u (Some (urn_text d k t v)) strict = Some (TINY_RET_OK,
    (if k = DEVICE
     then u\<lparr>uri_type := (if d = SCHEMAS_UPNP_ORG then UPNP_URI_UPNP_DEVICE else UPNP_URI_NON_UPNP_DEVICE),
            device_type := t, uri_version := v, domain_name := d, uri_string := urn_text d k t v\<rparr>
     else u\<lparr>uri_type := (if d = SCHEMAS_UPNP_ORG then UPNP_URI_UPNP_SERVICE else UPNP_URI_NON_UPNP_SERVICE),
            service_type := t, uri_version := v, domain_name := d, uri_string := urn_text d k t v\<rparr>))"
proof -
  have k: "name_part k" using assms(2) by (auto simp: name_part_def uri_words field_defs)
  have len: "length d < 32" "length k \<le> 7" "length t < 32" "length v < 32"
    using assms by (auto simp: name_part_def field_defs uri_words)
  have "urn_text d k t v \<noteq> ROOT_DEVICE" by (simp add: urn_text_def uri_words)
  moreover have "group [URN, d, k, t, v] 0 = Some URN" "group [URN, d, k, t, v] 1 = Some d"
      "group [URN, d, k, t, v] 2 = Some k" "group_cpy 32 [URN, d, k, t, v] 1 = d"
      "group_cpy 32 [URN, d, k, t, v] 3 = t" "group_cpy 32 [URN, d, k, t, v] 4 = v"
    using len by (simp_all add: group_def group_cpy_def read_field_def GROUP_LEN_def field_cpy_short URN_def)
  moreover have "length (urn_text d k t v) \<le> UPNP_URI_LEN"
    using len by (simp add: urn_text_def URN_def UPNP_URI_LEN_def)
  moreover have "URN \<noteq> UUID" "DEVICE \<noteq> SERVICE" by (simp_all add: uri_words)
  ultimately show ?thesis
    using split_urn [OF assms(1) k assms(3,4)] assms(2)
    by (auto simp: UpnpUri_Parse_def parse_uri_body_def parse_urn_def STR_EQUAL_def Let_def field_cpy_short
        UPNP_DOMAIN_NAME_LEN_def UPNP_TYPE_LEN_def UPNP_VERSION_LEN_def)
qed

lemma urn_text_fits:
  assumes "name_part d" and "k \<in> {DEVICE, SERVICE}" and "name_part t" and "name_part v"
  shows "field_printf UPNP_URI_LEN (urn_text d k t v) = urn_text d k t v"
  using assms by (auto simp: name_part_def field_defs urn_text_def uri_words)

lemma strstr_usn:
  assumes "CHR '':'' \<notin> set s" and "s \<noteq> []"
  shows "strstr (''uuid:'' @ s @ ''::'' @ t) ''::'' = Some (''::'' @ t)"
proof -
  obtain c s' where s: "s = c # s'" using assms(2) by (cases s) auto
  with assms(1) have "strstr (s @ CHR '':'' # CHR '':'' # t) [CHR '':'', CHR '':''] = Some (CHR '':'' # CHR '':'' # t)"
    by (intro strstr_double_append) auto
  with assms(1) s show ?thesis by simp
qed

lemma split_usn:
  assumes "CHR '':'' \<notin> set s" and "s \<noteq> []" and "length s < 120" and "strstr t ''::'' = None"
  shows "str_split (''uuid:'' @ s @ ''::'' @ t) ''::'' 2 = Some [''uuid:'' @ s, take GROUP_LEN t]"
proof -
  define x where "x = ''uuid:'' @ s @ ''::'' @ t"
  have st: "strstr x ''::'' = Some (''::'' @ t)" unfolding x_def by (rule strstr_usn [OF assms(1,2)])
  have "x = (''uuid:'' @ s) @ (''::'' @ t)" by (simp add: x_def)
  then have "take (length x - length (''::'' @ t)) x = ''uuid:'' @ s"
    by (metis append_eq_conv_conj diff_add_inverse2 length_append)
  moreover have "length (''uuid:'' @ s) \<le> GROUP_LEN" using assms(3) by (simp add: GROUP_LEN_def)
  ultimately have "str_split_loop (Suc (Suc 0)) x ''::'' = [''uuid:'' @ s, take GROUP_LEN t]"
    using assms(4) by (simp only: str_split_loop.simps st option.case take_all_iff) simp
  then show ?thesis by (simp add: str_split_def x_def numeral_2_eq_2)
qed

text \<open>A \<open>uuid:\<close> URI, and unique service names read without strict checking.\<close>

lemma parse_uuid_text:
  assumes "CHR '':'' \<notin> set s" and "length s < UPNP_UUID_LEN"
  shows "UpnpUri_Parse u (Some (''uuid:'' @ s)) False = Some (TINY_RET_OK,
      u\<lparr>uri_uuid_string := s, uri_string := field_cpy UPNP_URI_LEN (''uuid:'' @ s)\<rparr>)"
    and "UpnpUri_Parse u (Some (''uuid:'' @ s)) True = Some (case TinyUuid_ParseFromString (uri_uuid u) (Some s) of
        (ret, v) \<Rightarrow> (ret, u\<lparr>uri_uuid_string := s, uri_uuid := v, uri_string :=
          (if RET_SUCCEEDED ret then field_cpy UPNP_URI_LEN (''uuid:'' @ s) else uri_string u)\<rparr>))"
proof -
  have "str_split (join_with '':'' [''uuid'', s]) '':'' 10 = Some [''uuid'', s]"
    using assms by (intro str_split_joined) (auto simp: field_defs GROUP_LEN_def)
  then have sp: "str_split (''uuid:'' @ s) '':'' 10 = Some [''uuid'', s]" by simp
  have ne: "''uuid:'' @ s \<noteq> ROOT_DEVICE" by (simp add: ROOT_DEVICE_def)
  have gr: "group [''uuid'', s] 0 = Some ''uuid''" "group [''uuid'', s] 1 = Some s"
      "group_cpy UPNP_UUID_LEN [''uuid'', s] 1 = s"
    using assms(2) by (simp_all add: group_def group_cpy_def read_field_def GROUP_LEN_def field_defs)
  have lax: "parse_uri_body u (''uuid:'' @ s) False = Some (TINY_RET_OK, u\<lparr>uri_uuid_string := s\<rparr>)"
    unfolding parse_uri_body_def sp STR_EQUAL_def using ne gr by (simp add: UUID_def)
  have strict: "parse_uri_body u (''uuid:'' @ s) True =
      Some (case TinyUuid_ParseFromString (uri_uuid u) (Some s) of
        (ret, v) \<Rightarrow> (ret, u\<lparr>uri_uuid_string := s, uri_uuid := v\<rparr>))"
    unfolding parse_uri_body_def sp STR_EQUAL_def using ne gr by (simp add: UUID_def)
  show "UpnpUri_Parse u (Some (''uuid:'' @ s)) False = Some (TINY_RET_OK,
      u\<lparr>uri_uuid_string := s, uri_string := field_cpy UPNP_URI_LEN (''uuid:'' @ s)\<rparr>)"
    by (simp add: UpnpUri_Parse_def lax del: append_Cons append_Nil)
  show "UpnpUri_Parse u (Some (''uuid:'' @ s)) True = Some (case TinyUuid_ParseFromString (uri_uuid u) (Some s) of
        (ret, v) \<Rightarrow> (ret, u\<lparr>uri_uuid_string := s, uri_uuid := v, uri_string :=
          (if RET_SUCCEEDED ret then field_cpy UPNP_URI_LEN (''uuid:'' @ s) else uri_string u)\<rparr>))"
    by (cases "TinyUuid_ParseFromString (uri_uuid u) (Some s)")
      (simp add: UpnpUri_Parse_def strict del: append_Cons append_Nil)
qed

lemma parse_usn_lax:
  assumes "CHR '':'' \<notin> set s" and "s \<noteq> []" and "length s < UPNP_UUID_LEN" and "strstr t ''::'' = None"
    and "length t < GROUP_LEN" and "UpnpUri_Parse (usn_uri n) (Some t) False = Some (TINY_RET_OK, r)"
  shows "UpnpUsn_Parse n (Some (''uuid:'' @ s @ ''::'' @ t)) False = Some (TINY_RET_OK,
      n\<lparr>usn_uuid_string := s, usn_uri := r, usn_string := field_cpy UPNP_USN_LEN (''uuid:'' @ s @ ''::'' @ t)\<rparr>)"
proof -
  define x where "x = ''uuid:'' @ s @ ''::'' @ t"
  have sp: "str_split x ''::'' 2 = Some [''uuid:'' @ s, t]"
    unfolding x_def using split_usn [OF assms(1,2) _ assms(4)] assms(3,5) by (simp add: field_defs)
  have g: "group [''uuid:'' @ s, t] 0 = Some (''uuid:'' @ s)" "group [''uuid:'' @ s, t] 1 = Some t"
    using assms(3,5) by (simp_all add: group_def read_field_def GROUP_LEN_def field_defs)
  have st: "strstr (''uuid:'' @ s) ''uuid:'' = Some (''uuid:'' @ s)" by (rule strstr_prefix)
  have "parse_usn_body n x False = Some (TINY_RET_OK, n\<lparr>usn_uuid_string := s, usn_uri := r\<rparr>)"
    unfolding parse_usn_body_def sp bind.bind_lunit g st
    using assms(3) by (simp add: g [simplified] assms(6) Let_def field_cpy_short)
  then show ?thesis by (simp add: UpnpUsn_Parse_def x_def del: append_Cons append_Nil)
qed

lemma parse_usn_lax_uuid:
  assumes "CHR '':'' \<notin> set s" and "s \<noteq> []" and "length s < UPNP_UUID_LEN"
  shows "UpnpUsn_Parse n (Some (''uuid:'' @ s)) False = Some (TINY_RET_OK,
      n\<lparr>usn_uuid_string := s, usn_string := field_cpy UPNP_USN_LEN (''uuid:'' @ s)\<rparr>)"
proof -
  define x where "x = ''uuid:'' @ s"
  obtain c s' where s: "s = c # s'" using assms(2) by (cases s) auto
  have "strstr x ''::'' = None" using assms(1) strstr_double_notin [of "CHR '':''" s] by (auto simp: x_def s)
  then have "str_split_loop (Suc (Suc 0)) x ''::'' = [x]" using assms(3) by (simp add: x_def field_defs GROUP_LEN_def)
  then have sp: "str_split x ''::'' 2 = Some [''uuid:'' @ s]" by (simp add: str_split_def x_def numeral_2_eq_2)
  have g: "group [''uuid:'' @ s] 0 = Some (''uuid:'' @ s)"
    using assms(3) by (simp add: group_def read_field_def GROUP_LEN_def field_defs)
  have st: "strstr (''uuid:'' @ s) ''uuid:'' = Some (''uuid:'' @ s)" by (rule strstr_prefix)
  have "parse_usn_body n x False = Some (TINY_RET_OK, n\<lparr>usn_uuid_string := s\<rparr>)"
    unfolding parse_usn_body_def sp bind.bind_lunit g st
    using assms(3) by (simp add: Let_def field_cpy_short)
  then show ?thesis by (simp add: UpnpUsn_Parse_def x_def del: append_Cons append_Nil)
qed

subsection \<open>Properties\<close>

text \<open>
  C30. A device or service URI survives printing and parsing: for a domain, type and version
  of fewer than 32 characters without colons, parsing the text an initialiser wrote into any
  URI succeeds, with either strictness, and gives back the kind, the domain, the type and the
  version. The text of the root device is read as the root device. That of an identifier
  \<open>uuid:...\<close> is accepted with lax checking and the identifier read, but not the kind: the
  parser never sets it, and the URI that is read into keeps the kind it had.
\<close>

theorem uri_print_parse:
  assumes "name_part d" and "name_part t" and "name_part v" and "d \<noteq> SCHEMAS_UPNP_ORG"
    and "i \<in> {UpnpUri_Initialize_UpnpDevice u (Some t) (Some v), UpnpUri_Initialize_UpnpService u (Some t) (Some v),
      UpnpUri_Initialize_NonUpnpDevice u (Some d) (Some t) (Some v),
      UpnpUri_Initialize_NonUpnpService u (Some d) (Some t) (Some v)}"
    and "CHR '':'' \<notin> set s" and "length s < UPNP_UUID_LEN"
  shows "(\<exists>r. UpnpUri_Parse w (Some (uri_string (snd i))) strict = Some (TINY_RET_OK, r)
      \<and> uri_type r = uri_type (snd i) \<and> uri_string r = uri_string (snd i) \<and> uri_version r = v
      \<and> (if uri_type r \<in> {UPNP_URI_UPNP_DEVICE, UPNP_URI_NON_UPNP_DEVICE} then device_type r = t else service_type r = t)
      \<and> domain_name r = (if uri_type r \<in> {UPNP_URI_UPNP_DEVICE, UPNP_URI_UPNP_SERVICE} then SCHEMAS_UPNP_ORG else d))
    \<and> (let i = snd (UpnpUri_Initialize_RootDevice u) in
        UpnpUri_Parse w (Some (uri_string i)) strict = Some (TINY_RET_OK, w\<lparr>uri_type := uri_type i, uri_string := uri_string i\<rparr>))
    \<and> (let i = snd (UpnpUri_Initialize_Uuid u (''uuid:'' @ s)) in uri_type i = UPNP_URI_UUID
      \<and> UpnpUri_Parse w (Some (uri_string i)) False = Some (TINY_RET_OK, w\<lparr>uri_uuid_string := s, uri_string := uri_string i\<rparr>))"
proof (intro conjI)
  have l: "name_part SCHEMAS_UPNP_ORG" by (simp add: name_part_def uri_words field_defs)
  have ds: "DEVICE \<in> {DEVICE, SERVICE}" "SERVICE \<in> {DEVICE, SERVICE}" "SERVICE \<noteq> DEVICE"
    by (simp_all add: uri_words)
  note fits = urn_text_fits [OF l ds(1) assms(2,3)] urn_text_fits [OF l ds(2) assms(2,3)]
    urn_text_fits [OF assms(1) ds(1) assms(2,3)] urn_text_fits [OF assms(1) ds(2) assms(2,3)]
  note parse = parse_urn_text [OF l ds(1) assms(2,3)] parse_urn_text [OF l ds(2) assms(2,3)]
    parse_urn_text [OF assms(1) ds(1) assms(2,3)] parse_urn_text [OF assms(1) ds(2) assms(2,3)]
  show "\<exists>r. UpnpUri_Parse w (Some (uri_string (snd i))) strict = Some (TINY_RET_OK, r)
      \<and> uri_type r = uri_type (snd i) \<and> uri_string r = uri_string (snd i) \<and> uri_version r = v
      \<and> (if uri_type r \<in> {UPNP_URI_UPNP_DEVICE, UPNP_URI_NON_UPNP_DEVICE} then device_type r = t else service_type r = t)
      \<and> domain_name r = (if uri_type r \<in> {UPNP_URI_UPNP_DEVICE, UPNP_URI_UPNP_SERVICE} then SCHEMAS_UPNP_ORG else d)"
    using assms(4,5) ds(3)
    by (auto simp: UpnpUri_Initialize_UpnpDevice_def UpnpUri_Initialize_UpnpService_def
        UpnpUri_Initialize_NonUpnpDevice_def UpnpUri_Initialize_NonUpnpService_def fits parse)
  show "let i = snd (UpnpUri_Initialize_RootDevice u) in
      UpnpUri_Parse w (Some (uri_string i)) strict = Some (TINY_RET_OK, w\<lparr>uri_type := uri_type i, uri_string := uri_string i\<rparr>)"
    by (simp add: UpnpUri_Initialize_RootDevice_def UpnpUri_Parse_def parse_uri_body_def STR_EQUAL_def ROOT_DEVICE_def field_defs)
  show "let i = snd (UpnpUri_Initialize_Uuid u (''uuid:'' @ s)) in uri_type i = UPNP_URI_UUID
      \<and> UpnpUri_Parse w (Some (uri_string i)) False = Some (TINY_RET_OK, w\<lparr>uri_uuid_string := s, uri_string := uri_string i\<rparr>)"
  proof -
    have "field_printf UPNP_URI_LEN (''uuid:'' @ s) = ''uuid:'' @ s" "field_cpy UPNP_URI_LEN (''uuid:'' @ s) = ''uuid:'' @ s"
      using assms(7) by (simp_all add: field_defs)
    then show ?thesis using parse_uuid_text(1) [OF assms(6,7), of w]
      by (simp add: UpnpUri_Initialize_Uuid_def Let_def del: append_Cons append_Nil)
  qed
qed

theorem uri_print_parse_witness:
  "(\<exists>r. UpnpUri_Parse (snd UpnpUri_Construct)
      (Some (uri_string (snd (UpnpUri_Initialize_UpnpDevice (snd UpnpUri_Construct) (Some ''BinaryLight'') (Some ''1''))))) True
        = Some (TINY_RET_OK, r)
    \<and> uri_type r = uri_type (snd (UpnpUri_Initialize_UpnpDevice (snd UpnpUri_Construct) (Some ''BinaryLight'') (Some ''1'')))
    \<and> uri_string r = uri_string (snd (UpnpUri_Initialize_UpnpDevice (snd UpnpUri_Construct) (Some ''BinaryLight'') (Some ''1'')))
    \<and> uri_version r = ''1''
    \<and> (if uri_type r \<in> {UPNP_URI_UPNP_DEVICE, UPNP_URI_NON_UPNP_DEVICE} then device_type r = ''BinaryLight''
       else service_type r = ''BinaryLight'')
    \<and> domain_name r = (if uri_type r \<in> {UPNP_URI_UPNP_DEVICE, UPNP_URI_UPNP_SERVICE} then SCHEMAS_UPNP_ORG else ''av''))
    \<and> (let i = snd (UpnpUri_Initialize_RootDevice (snd UpnpUri_Construct)) in
        UpnpUri_Parse (snd UpnpUri_Construct) (Some (uri_string i)) True
          = Some (TINY_RET_OK, (snd UpnpUri_Construct)\<lparr>uri_type := uri_type i, uri_string := uri_string i\<rparr>))
    \<and> (let i = snd (UpnpUri_Initialize_Uuid (snd UpnpUri_Construct) (''uuid:'' @ ''2fac1234'')) in uri_type i = UPNP_URI_UUID
      \<and> UpnpUri_Parse (snd UpnpUri_Construct) (Some (uri_string i)) False
          = Some (TINY_RET_OK, (snd UpnpUri_Construct)\<lparr>uri_uuid_string := ''2fac1234'', uri_string := uri_string i\<rparr>))"
  by (rule uri_print_parse [where u = "snd UpnpUri_Construct" and t = "''BinaryLight''" and v = "''1''" and d = "''av''"])
    (simp_all add: name_part_def field_defs uri_words)

text \<open>
  Parsing a \<open>uuid:\<close> URI never sets its type: with lax checking the text is accepted and
  the identifier stored, with strict checking the outcome is that of the UUID parser, but the
  type stays what it was, where \<open>UpnpUri_Initialize_Uuid\<close> sets \<open>UPNP_URI_UUID\<close>.
\<close>

theorem uri_parse_uuid_type:
  assumes "CHR '':'' \<notin> set s" and "length s < UPNP_UUID_LEN"
  shows "(\<exists>r. UpnpUri_Parse u (Some (''uuid:'' @ s)) False = Some (TINY_RET_OK, r)
      \<and> uri_type r = uri_type u \<and> uri_uuid_string r = s)
    \<and> (\<exists>r. UpnpUri_Parse u (Some (''uuid:'' @ s)) True =
        Some (fst (TinyUuid_ParseFromString (uri_uuid u) (Some s)), r) \<and> uri_type r = uri_type u)
    \<and> uri_type (snd (UpnpUri_Initialize_Uuid u (''uuid:'' @ s))) = UPNP_URI_UUID"
  by (cases "TinyUuid_ParseFromString (uri_uuid u) (Some s)")
    (simp add: parse_uuid_text [OF assms] UpnpUri_Initialize_Uuid_def del: append_Cons append_Nil)

theorem uri_parse_uuid_type_witness:
  "(\<exists>r. UpnpUri_Parse (snd UpnpUri_Construct) (Some (''uuid:'' @ ''abc'')) False = Some (TINY_RET_OK, r)
      \<and> uri_type r = uri_type (snd UpnpUri_Construct) \<and> uri_uuid_string r = ''abc'')
    \<and> (\<exists>r. UpnpUri_Parse (snd UpnpUri_Construct) (Some (''uuid:'' @ ''abc'')) True =
        Some (fst (TinyUuid_ParseFromString (uri_uuid (snd UpnpUri_Construct)) (Some ''abc'')), r)
        \<and> uri_type r = uri_type (snd UpnpUri_Construct))
    \<and> uri_type (snd (UpnpUri_Initialize_Uuid (snd UpnpUri_Construct) (''uuid:'' @ ''abc''))) = UPNP_URI_UUID"
  by (rule uri_parse_uuid_type) (simp_all add: field_defs)

text \<open>
  A unique service name survives printing and parsing: the name built from a printed UUID
  and a URI is \<open>uuid:UUID::URI\<close>, and parsing it strictly gives back the sixteen bytes of the
  UUID, the URI as \<open>UpnpUri_Parse\<close> reads it, and the text.
\<close>

theorem usn_print_parse:
  assumes "uuid_ok (uuid_bytes t)" and "length (uri_string r) \<le> 84" and "strstr (uri_string r) ''::'' = None"
    and "UpnpUri_Parse (usn_uri n2) (Some (uri_string r)) True = Some (TINY_RET_OK, r')"
  shows "\<exists>n1 n3. UpnpUsn_Initialize_Uuid_UpnpUri n (Some (fst (TinyUuid_ToString t upper))) (Some r) = Some (TINY_RET_OK, n1)
    \<and> usn_string n1 = ''uuid:'' @ fst (TinyUuid_ToString t upper) @ ''::'' @ uri_string r
    \<and> UpnpUsn_Parse n2 (Some (usn_string n1)) True = Some (TINY_RET_OK, n3)
    \<and> uuid_bytes (usn_uuid n3) = uuid_bytes t \<and> usn_uri n3 = r' \<and> usn_string n3 = usn_string n1"
proof -
  define s where "s = fst (TinyUuid_ToString t upper)"
  define x where "x = ''uuid:'' @ s @ ''::'' @ uri_string r"
  have ls: "length s = 36" using length_printed [OF assms(1)] by (simp add: s_def TinyUuid_ToString_def Let_def)
  have cs: "CHR '':'' \<notin> set s"
    using printed_chars [OF assms(1), of upper] by (auto simp: s_def isxdigit_def isdigit_def)
  have ps: "TinyUuid_ParseFromString w (Some s) = (TINY_RET_OK, w\<lparr>uuid_bytes := uuid_bytes t\<rparr>)" for w
    unfolding s_def by (rule parse_printed [OF assms(1)])
  have lx: "length x \<le> 127" using ls assms(2) by (simp add: x_def)
  have "field_printf UPNP_USN_LEN x = x" using lx by (simp add: field_defs)
  moreover have "read_field UPNP_URI_LEN (uri_string r) = Some (uri_string r)"
    using assms(2) by (simp add: field_defs)
  ultimately have init: "UpnpUsn_Initialize_Uuid_UpnpUri n (Some s) (Some r) = Some (TINY_RET_OK,
      n\<lparr>usn_uuid := (usn_uuid n)\<lparr>uuid_bytes := uuid_bytes t\<rparr>, usn_uri := UpnpUri_Copy (usn_uri n) r, usn_string := x\<rparr>)"
    by (simp add: UpnpUsn_Initialize_Uuid_UpnpUri_def ps x_def)
  have sp: "str_split x ''::'' 2 = Some [''uuid:'' @ s, uri_string r]"
    unfolding x_def using split_usn [OF cs _ _ assms(3)] ls assms(2) by (cases "s = []") (auto simp: GROUP_LEN_def)
  have g: "group [''uuid:'' @ s, uri_string r] 0 = Some (''uuid:'' @ s)"
      "group [''uuid:'' @ s, uri_string r] 1 = Some (uri_string r)"
    using ls assms(2) by (simp_all add: group_def read_field_def GROUP_LEN_def)
  have st: "strstr (''uuid:'' @ s) ''uuid:'' = Some (''uuid:'' @ s)" by (rule strstr_prefix)
  have "parse_usn_body n2 x True = Some (TINY_RET_OK,
      n2\<lparr>usn_uuid := (usn_uuid n2)\<lparr>uuid_bytes := uuid_bytes t\<rparr>, usn_uri := r'\<rparr>)"
    unfolding parse_usn_body_def sp bind.bind_lunit g st
    by (simp add: g [simplified] ps assms(4) Let_def)
  then have "UpnpUsn_Parse n2 (Some x) True = Some (TINY_RET_OK,
      n2\<lparr>usn_uuid := (usn_uuid n2)\<lparr>uuid_bytes := uuid_bytes t\<rparr>, usn_uri := r', usn_string := x\<rparr>)"
    using lx by (simp add: UpnpUsn_Parse_def field_cpy_short UPNP_USN_LEN_def)
  with init show ?thesis by (simp add: s_def [symmetric] x_def)
qed

definition demo_uuid :: tiny_uuid where
  "demo_uuid = \<lparr>uuid_string = [], uuid_bytes = replicate 16 7\<rparr>"

definition demo_root :: upnp_uri where
  "demo_root = snd (UpnpUri_Initialize_RootDevice (snd UpnpUri_Construct))"

theorem usn_print_parse_witness:
  "\<exists>n1 n3. UpnpUsn_Initialize_Uuid_UpnpUri (snd UpnpUsn_Construct)
      (Some (fst (TinyUuid_ToString demo_uuid False))) (Some demo_root) = Some (TINY_RET_OK, n1)
    \<and> usn_string n1 = ''uuid:'' @ fst (TinyUuid_ToString demo_uuid False) @ ''::'' @ uri_string demo_root
    \<and> UpnpUsn_Parse (snd UpnpUsn_Construct) (Some (usn_string n1)) True = Some (TINY_RET_OK, n3)
    \<and> uuid_bytes (usn_uuid n3) = uuid_bytes demo_uuid
    \<and> usn_uri n3 = (usn_uri (snd UpnpUsn_Construct))
        \<lparr>uri_type := UPNP_URI_ROOT_DEVICE, uri_string := ''upnp:rootdevice''\<rparr>
    \<and> usn_string n3 = usn_string n1"
proof (rule usn_print_parse)
  have r: "uri_string demo_root = ''upnp:rootdevice''"
    by (simp add: demo_root_def UpnpUri_Initialize_RootDevice_def field_defs ROOT_DEVICE_def)
  show "uuid_ok (uuid_bytes demo_uuid)" by (simp add: demo_uuid_def uuid_ok_def)
  show "length (uri_string demo_root) \<le> 84" "strstr (uri_string demo_root) ''::'' = None"
    by (simp_all add: r)
  show "UpnpUri_Parse (usn_uri (snd UpnpUsn_Construct)) (Some (uri_string demo_root)) True =
      Some (TINY_RET_OK, (usn_uri (snd UpnpUsn_Construct))
        \<lparr>uri_type := UPNP_URI_ROOT_DEVICE, uri_string := ''upnp:rootdevice''\<rparr>)"
    by (simp add: r UpnpUri_Parse_def parse_uri_body_def STR_EQUAL_def ROOT_DEVICE_def field_defs)
qed

end
