(* ===== verification/UpnpTimeout.thy ===== *)
theory UpnpTimeout
  imports UpnpUri
begin

section \<open>Subscription timeouts: \<open>upnp_timeout_util.c\<close> and \<open>UpnpSubscriber.c\<close>\<close>

text \<open>
  The TIMEOUT header of an eventing request, \<open>Second-n\<close> or \<open>Second-infinite\<close> (0 in the
  program), and the record the server keeps of a subscriber.
\<close>

subsection \<open>The TIMEOUT header\<close>

definition TIMEOUT_INFINITE :: string where "TIMEOUT_INFINITE = ''infinite''"

text \<open>
  The value is copied to a zeroed buffer of 16 bytes; when it fills the buffer there is no
  terminator and reading it is undefined (\<open>None\<close>). On failure the seconds are not written.
\<close>

definition upnp_timeout_get_second :: "string option \<Rightarrow> (tiny_ret \<times> 32 word option) option" where
  "upnp_timeout_get_second timeout = (case timeout of
       None \<Rightarrow> Some (TINY_RET_E_ARG_NULL, None)
     | Some s \<Rightarrow> (case str_get_value s (length s) ''Second-'' None 16 of
         (len, v) \<Rightarrow>
           if len = 0 then Some (TINY_RET_E_ARG_INVALID, None)
           else (case v of
               None \<Rightarrow> Some (TINY_RET_E_ARG_INVALID, None)
             | Some bytes \<Rightarrow> do {
                 t \<leftarrow> read_field 16 (c_str bytes);
                 Some (TINY_RET_OK, Some (if STR_EQUAL t TIMEOUT_INFINITE then 0 else word_of_int (atoi t))) })))"

text \<open>The seconds are printed with \<open>%d\<close>.\<close>

definition upnp_timeout_to_string :: "32 word \<Rightarrow> nat \<Rightarrow> tiny_ret \<times> string" where
  "upnp_timeout_to_string second len =
     (TINY_RET_OK, field_printf len (if second = 0 then ''Second-'' @ TIMEOUT_INFINITE
                                     else ''Second-'' @ show_int (sint second)))"

subsection \<open>UpnpSubscriber\<close>

definition TINY_URL_LEN :: nat where "TINY_URL_LEN = 1024"

record subscriber =
  sub_timeout :: "32 word"
  sub_sid :: string
  sub_callback :: string

definition UpnpSubscriber_Construct :: "tiny_ret \<times> subscriber" where
  "UpnpSubscriber_Construct = (TINY_RET_OK, \<lparr>sub_timeout = 0, sub_sid = [], sub_callback = []\<rparr>)"

definition UpnpSubscriber_New :: "bool \<Rightarrow> subscriber option" where
  "UpnpSubscriber_New malloc_ok =
     (if malloc_ok then (case UpnpSubscriber_Construct of (ret, s) \<Rightarrow> if RET_FAILED ret then None else Some s) else None)"

definition UpnpSubscriber_SetCallback :: "subscriber \<Rightarrow> string option \<Rightarrow> tiny_ret \<times> subscriber" where
  "UpnpSubscriber_SetCallback s callback = (case callback of
       None \<Rightarrow> (TINY_RET_E_ARG_NULL, s)
     | Some c \<Rightarrow> (TINY_RET_OK, s\<lparr>sub_callback := field_cpy TINY_URL_LEN c\<rparr>))"

definition UpnpSubscriber_GetCallback :: "subscriber \<Rightarrow> string option" where
  "UpnpSubscriber_GetCallback s = read_field TINY_URL_LEN (sub_callback s)"

definition UpnpSubscriber_SetTimeout :: "subscriber \<Rightarrow> 32 word \<Rightarrow> tiny_ret \<times> subscriber" where
  "UpnpSubscriber_SetTimeout s timeout = (TINY_RET_OK, s\<lparr>sub_timeout := timeout\<rparr>)"

definition UpnpSubscriber_GetTimeout :: "subscriber \<Rightarrow> 32 word" where
  "UpnpSubscriber_GetTimeout s = sub_timeout s"

definition UpnpSubscriber_SetSid :: "subscriber \<Rightarrow> string option \<Rightarrow> tiny_ret \<times> subscriber" where
  "UpnpSubscriber_SetSid s sid = (case sid of
       None \<Rightarrow> (TINY_RET_E_ARG_NULL, s)
     | Some c \<Rightarrow> (TINY_RET_OK, s\<lparr>sub_sid := field_cpy UPNP_UUID_LEN c\<rparr>))"

definition UpnpSubscriber_GetSid :: "subscriber \<Rightarrow> string option" where
  "UpnpSubscriber_GetSid s = read_field UPNP_UUID_LEN (sub_sid s)"

subsection \<open>Reading back a timeout\<close>

lemma get_second_value:
  assumes "t \<noteq> []" and "length t < 16" and "cstring t"
  shows "upnp_timeout_get_second (Some (''Second-'' @ t)) =
    Some (TINY_RET_OK, Some (if t = TIMEOUT_INFINITE then 0 else word_of_int (atoi t)))"
proof -
  define s where "s = ''Second-'' @ t"
  have st: "strstr s ''Second-'' = Some s" unfolding s_def by (rule strstr_prefix)
  have d: "drop (length ''Second-'') s = t" by (simp add: s_def)
  have l: "length s = length ''Second-'' + length t" by (simp add: s_def)
  have "str_get_value s (length s) ''Second-'' None 16 = (length t, Some (strncpy [] t (length t)))"
    unfolding str_get_value_def st option.case d Let_def l using assms(2) by simp
  moreover have "c_str (strncpy [] t (length t)) = t"
    using assms(3) by (auto simp: strncpy_def c_str_def cstring_def)
  ultimately show ?thesis
    unfolding s_def [symmetric] using assms by (simp add: upnp_timeout_get_second_def read_field_def STR_EQUAL_def)
qed

lemma show_int_chars: "\<forall>c \<in> set (show_int i). isdigit c \<or> c = CHR ''-''"
  using show_nat_digits by (auto simp: show_int_def)

lemma show_int32_length: "length (show_int (sint (w :: 32 word))) \<le> 11"
proof -
  have "nat (sint w) < 10 ^ 10" "nat (- sint w) < 10 ^ 10"
    using sint_lt [of w] sint_ge [of w] by (simp_all add: nat_less_iff)
  then have "length (show_nat (nat (sint w))) \<le> 10" "length (show_nat (nat (- sint w))) \<le> 10"
    by (auto intro: show_nat_length)
  then show ?thesis by (simp add: show_int_def)
qed

subsection \<open>Properties\<close>

text \<open>
  A timeout survives the header: printing any number of seconds (0 for infinite) into a
  buffer of at least 20 bytes and reading it back gives the same 32-bit number, without
  undefined behaviour.
\<close>

theorem timeout_roundtrip:
  assumes "20 \<le> len"
  shows "upnp_timeout_get_second (Some (snd (upnp_timeout_to_string second len))) = Some (TINY_RET_OK, Some second)"
proof (cases "second = 0")
  case True
  have "field_printf len (''Second-'' @ TIMEOUT_INFINITE) = ''Second-'' @ TIMEOUT_INFINITE"
    using assms by (simp add: field_printf_def TIMEOUT_INFINITE_def)
  moreover have "upnp_timeout_get_second (Some (''Second-'' @ TIMEOUT_INFINITE)) = Some (TINY_RET_OK, Some 0)"
    using get_second_value [of TIMEOUT_INFINITE] by (simp add: TIMEOUT_INFINITE_def)
  ultimately show ?thesis using True by (simp add: upnp_timeout_to_string_def)
next
  case False
  have len: "length (show_int (sint second)) \<le> 11" by (rule show_int32_length)
  have "show_int (sint second) \<noteq> TIMEOUT_INFINITE"
    using show_int_chars [of "sint second"] by (auto simp: TIMEOUT_INFINITE_def isdigit_def)
  moreover have "cstring (show_int (sint second))"
    using show_int_chars [of "sint second"] by (auto simp: cstring_def isdigit_def)
  moreover have "show_int (sint second) \<noteq> []" by (simp add: show_int_def)
  moreover have "atoi (show_int (sint second)) = sint second"
    using sint_lt [of second] sint_ge [of second] by (intro atoi_show_int) simp_all
  ultimately have "upnp_timeout_get_second (Some (''Second-'' @ show_int (sint second))) = Some (TINY_RET_OK, Some second)"
    using get_second_value [of "show_int (sint second)"] len by simp
  moreover have "field_printf len (''Second-'' @ show_int (sint second)) = ''Second-'' @ show_int (sint second)"
    using len assms by (simp add: field_printf_def)
  ultimately show ?thesis using False by (simp add: upnp_timeout_to_string_def)
qed

theorem timeout_roundtrip_witness:
  "upnp_timeout_get_second (Some (snd (upnp_timeout_to_string 1800 32))) = Some (TINY_RET_OK, Some 1800)"
  by (rule timeout_roundtrip) simp

text \<open>
  A TIMEOUT value of 16 characters or more is read past the end of its buffer: the
  16-byte copy has no terminator, and the comparison with \<open>infinite\<close> runs on.
\<close>

theorem timeout_unterminated:
  assumes "16 \<le> length t" and "cstring t"
  shows "upnp_timeout_get_second (Some (''Second-'' @ t)) = None"
proof -
  define s where "s = ''Second-'' @ t"
  have st: "strstr s ''Second-'' = Some s" unfolding s_def by (rule strstr_prefix)
  have d: "drop (length ''Second-'') s = t" by (simp add: s_def)
  have l: "length s = length ''Second-'' + length t" by (simp add: s_def)
  have "str_get_value s (length s) ''Second-'' None 16 = (16, Some (strncpy [] t 16))"
    unfolding str_get_value_def st option.case d Let_def l using assms(1) by (simp add: min_def)
  moreover have "c_str (strncpy [] t 16) = take 16 t"
    using assms by (auto simp: strncpy_def c_str_def cstring_def takeWhile_eq_all_conv dest: in_set_takeD)
  ultimately show ?thesis
    unfolding s_def [symmetric] using assms by (simp add: upnp_timeout_get_second_def read_field_def)
qed

theorem timeout_unterminated_witness:
  "upnp_timeout_get_second (Some (''Second-'' @ replicate 16 (CHR ''0''))) = None"
  by (rule timeout_unterminated) (simp_all add: cstring_def)

end
