(* ===== verification/BlockingQueue.thy ===== *)
theory BlockingQueue
  imports Containers
begin

section \<open>Threads and the blocking queue: \<open>Tiny/Thread/TinyThread.c\<close>, \<open>Tiny/Worker/TinyBlockingQueue.c\<close>\<close>

text \<open>
  A thread object is its record; the operating system's thread is an argument where the code
  asks for one (\<open>created\<close> is the identifier \<open>pthread_create\<close> stored, none when it failed).
  A blocking queue is a \<open>TinyQueue\<close> with a counting semaphore; the mutex makes the two calls
  on the queue in \<open>Take\<close> and \<open>Poll\<close> one atomic action, so it leaves no state of its own.
  \<open>TinyBlockingQueue_Take\<close> yields \<open>None\<close> while it would block. The semaphore is the one of POSIX: \<open>sem_wait\<close>
  may fail (a signal interrupts it), which is an argument, and \<open>sem_post\<close> fails at \<open>SEM_VALUE_MAX\<close>; the queue
  ignores both results.
\<close>

subsection \<open>TinyThread\<close>

datatype thread_status = ThreadInit | ThreadRunning | ThreadStop

record tthread =
  thread_name :: string
  status :: thread_status
  loop :: bool
  thread_handler :: "32 word"
  thread_id :: "64 word"

definition THREAD_NAME_LEN :: nat where "THREAD_NAME_LEN = 256"
definition THREAD_UNNAMED :: string where "THREAD_UNNAMED = ''unnamed''"

definition TinyThread_Construct :: "tiny_ret \<times> tthread" where
  "TinyThread_Construct = (TINY_RET_OK,
     \<lparr>thread_name = [], status = ThreadInit, loop = False, thread_handler = 0, thread_id = 0\<rparr>)"

definition TinyThread_Initialize :: "tthread \<Rightarrow> bool \<Rightarrow> string option \<Rightarrow> tiny_ret \<times> tthread" where
  "TinyThread_Initialize t has_loop name = (TINY_RET_OK, t
     \<lparr>thread_name := field_cpy THREAD_NAME_LEN (case name of Some n \<Rightarrow> n | None \<Rightarrow> THREAD_UNNAMED),
      loop := has_loop, status := ThreadInit, thread_handler := 0, thread_id := 0\<rparr>)"

definition TinyThread_GetName :: "tthread \<Rightarrow> string option" where
  "TinyThread_GetName t = read_field THREAD_NAME_LEN (thread_name t)"

text \<open>The result of \<open>pthread_create\<close> is ignored: the status becomes running in any case.\<close>

definition TinyThread_Start :: "tthread \<Rightarrow> 64 word option \<Rightarrow> bool \<times> tthread" where
  "TinyThread_Start t created =
     (if status t = ThreadRunning then (False, t)
      else if \<not> loop t then (False, t)
      else let t1 = (case created of Some tid \<Rightarrow> t\<lparr>thread_id := tid\<rparr> | None \<Rightarrow> t)
           in (True, t1\<lparr>thread_handler := ucast (thread_id t1), status := ThreadRunning\<rparr>))"

text \<open>Whether a join waits for the operating system's thread, and the record afterwards.\<close>

definition join_waits :: "tthread \<Rightarrow> bool" where
  "join_waits t \<longleftrightarrow> status t = ThreadRunning \<and> thread_handler t \<noteq> 0"

definition TinyThread_Join :: "tthread \<Rightarrow> bool \<times> tthread" where
  "TinyThread_Join t = (True,
     (if status t = ThreadRunning
      then (if thread_handler t \<noteq> 0 then t\<lparr>thread_handler := 0\<rparr> else t)\<lparr>status := ThreadStop\<rparr>
      else t))"

definition TinyThread_Dispose :: "tthread \<Rightarrow> tiny_ret \<times> tthread" where
  "TinyThread_Dispose t = (TINY_RET_OK, (snd (TinyThread_Join t))
     \<lparr>thread_name := [], loop := False, status := ThreadInit, thread_handler := 0, thread_id := 0\<rparr>)"

lemma thread_dispose: "snd (TinyThread_Dispose t) = snd TinyThread_Construct"
  by (simp add: TinyThread_Dispose_def TinyThread_Construct_def TinyThread_Join_def)

subsection \<open>TinyBlockingQueue\<close>

record 'j bqueue =
  queue :: "'j tqueue"
  sem :: nat

text \<open>
  The constructor calls those of the mutex and the semaphore, whose results are arguments; the
  queue's own cannot fail.
\<close>

definition TinyBlockingQueue_Construct :: "tiny_ret \<Rightarrow> tiny_ret \<Rightarrow> tiny_ret \<times> 'j bqueue" where
  "TinyBlockingQueue_Construct mutex_ret sem_ret =
     (let thiz = \<lparr>queue = snd TinyQueue_Construct, sem = 0\<rparr>
      in if RET_FAILED mutex_ret then (mutex_ret, thiz) else (sem_ret, thiz))"

definition TinyBlockingQueue_New :: "bool \<Rightarrow> tiny_ret \<Rightarrow> tiny_ret \<Rightarrow> 'j bqueue option" where
  "TinyBlockingQueue_New ok mutex_ret sem_ret = (if \<not> ok then None
     else case TinyBlockingQueue_Construct mutex_ret sem_ret of
       (ret, thiz) \<Rightarrow> if RET_FAILED ret then None else Some thiz)"

definition TinyBlockingQueue_Dispose :: "'j bqueue \<Rightarrow> tiny_ret \<times> 'j bqueue" where
  "TinyBlockingQueue_Dispose q = (TINY_RET_OK, q\<lparr>sem := 0, queue := snd (TinyQueue_Dispose (queue q))\<rparr>)"

definition SEM_VALUE_MAX :: nat where "SEM_VALUE_MAX = 2147483647"

definition TinySemaphore_Post :: "'j bqueue \<Rightarrow> bool \<times> 'j bqueue" where
  "TinySemaphore_Post q = (if sem q < SEM_VALUE_MAX then (True, q\<lparr>sem := sem q + 1\<rparr>) else (False, q))"

text \<open>With \<open>ok\<close> the call waits for a token and takes it; otherwise it returns at once, without one.\<close>

definition TinySemaphore_Wait :: "bool \<Rightarrow> 'j bqueue \<Rightarrow> (bool \<times> 'j bqueue) option" where
  "TinySemaphore_Wait ok q =
     (if \<not> ok then Some (False, q) else if sem q = 0 then None else Some (True, q\<lparr>sem := sem q - 1\<rparr>))"

text \<open>The two atomic actions of \<open>Put\<close>: the push under the mutex, then the post.\<close>

definition put_push :: "bool \<Rightarrow> 'j bqueue \<Rightarrow> 'j \<Rightarrow> 'j bqueue" where
  "put_push ok q job = q\<lparr>queue := TinyQueue_Push ok (queue q) (Some job)\<rparr>"

definition TinyBlockingQueue_Put :: "bool \<Rightarrow> 'j bqueue \<Rightarrow> 'j option \<Rightarrow> 'j bqueue" where
  "TinyBlockingQueue_Put ok q job = (case job of None \<Rightarrow> q
     | Some j \<Rightarrow> snd (TinySemaphore_Post (put_push ok q j)))"

definition TinyBlockingQueue_Poll :: "'j bqueue \<Rightarrow> 'j option \<times> 'j bqueue" where
  "TinyBlockingQueue_Poll q = (TinyQueue_Head (queue q), q\<lparr>queue := TinyQueue_Pop (queue q)\<rparr>)"

definition TinyBlockingQueue_Take :: "bool \<Rightarrow> 'j bqueue \<Rightarrow> ('j option \<times> 'j bqueue) option" where
  "TinyBlockingQueue_Take ok q = map_option
     (\<lambda>(_, q1). (TinyQueue_Head (queue q1), q1\<lparr>queue := TinyQueue_Pop (queue q1)\<rparr>)) (TinySemaphore_Wait ok q)"

definition TinyBlockingQueue_Stop :: "'j bqueue \<Rightarrow> 'j bqueue" where
  "TinyBlockingQueue_Stop q = snd (TinySemaphore_Post q)"

subsection \<open>What the operations do to the jobs\<close>

definition bq_view :: "'j bqueue \<Rightarrow> 'j list" where
  "bq_view q = queue_view (queue q)"

definition bq_inv :: "'j bqueue \<Rightarrow> bool" where
  "bq_inv q \<longleftrightarrow> queue_inv (queue q)"

lemma bq_inv_ops [simp]:
  "bq_inv q \<Longrightarrow> bq_inv (put_push True q j)" "bq_inv q \<Longrightarrow> bq_inv (snd (TinyBlockingQueue_Poll q))"
  "bq_inv (q\<lparr>sem := n\<rparr>) = bq_inv q" "bq_inv (snd (TinySemaphore_Post q)) = bq_inv q"
  "bq_inv (TinyBlockingQueue_Stop q) = bq_inv q"
  by (simp_all add: bq_inv_def put_push_def TinyBlockingQueue_Poll_def tq.inv_enq tq.inv_deq
      TinySemaphore_Post_def TinyBlockingQueue_Stop_def)

lemma bq_view_ops [simp]:
  "bq_inv q \<Longrightarrow> bq_view (put_push True q j) = bq_view q @ [j]"
  "bq_inv q \<Longrightarrow> bq_view (snd (TinyBlockingQueue_Poll q)) = tl (bq_view q)"
  "bq_view (q\<lparr>sem := n\<rparr>) = bq_view q" "bq_view (snd (TinySemaphore_Post q)) = bq_view q"
  "bq_view (TinyBlockingQueue_Stop q) = bq_view q"
  by (simp_all add: bq_inv_def bq_view_def put_push_def TinyBlockingQueue_Poll_def tq.view_enq tq.view_deq
      TinySemaphore_Post_def TinyBlockingQueue_Stop_def)

lemma bq_sem_ops [simp]:
  "sem (put_push ok q j) = sem q" "sem (snd (TinyBlockingQueue_Poll q)) = sem q"
  "fst (TinySemaphore_Post q) \<Longrightarrow> sem (snd (TinySemaphore_Post q)) = sem q + 1" "0 < sem (TinyBlockingQueue_Stop q)"
  by (simp_all add: put_push_def TinyBlockingQueue_Poll_def TinySemaphore_Post_def TinyBlockingQueue_Stop_def SEM_VALUE_MAX_def
      split: if_splits)

lemma poll_head: "bq_inv q \<Longrightarrow>
    fst (TinyBlockingQueue_Poll q) = (case bq_view q of [] \<Rightarrow> None | j # _ \<Rightarrow> Some j)"
  by (simp add: bq_inv_def bq_view_def TinyBlockingQueue_Poll_def tq.front_view)

lemma bq_new: "bq_inv \<lparr>queue = snd TinyQueue_Construct, sem = n\<rparr>"
    "bq_view \<lparr>queue = snd TinyQueue_Construct, sem = n\<rparr> = []"
  by (simp add: bq_inv_def TinyQueue_Construct_def queue_inv_new)
    (simp add: bq_view_def TinyQueue_Construct_def queue_view_def L_new_def)

text \<open>A take is a wait on the semaphore, whose result is ignored, followed by a poll.\<close>

lemma take_wait_poll: "TinyBlockingQueue_Take ok q = map_option (\<lambda>(_, q1). TinyBlockingQueue_Poll q1) (TinySemaphore_Wait ok q)"
  by (simp add: TinyBlockingQueue_Take_def TinyBlockingQueue_Poll_def [abs_def])

text \<open>So a take whose wait is interrupted does not block, and on an empty queue it returns NULL.\<close>

lemma take_interrupted: "bq_inv q \<Longrightarrow> map_option fst (TinyBlockingQueue_Take False q) =
    Some (case bq_view q of [] \<Rightarrow> None | j # _ \<Rightarrow> Some j)"
  by (simp add: take_wait_poll TinySemaphore_Wait_def poll_head)

text \<open>A poll that returns a job shortens the queue.\<close>

lemma poll_shorter: "TinyBlockingQueue_Poll q = (Some j, q') \<Longrightarrow> length (items (queue q')) < length (items (queue q))"
  by (auto simp: TinyBlockingQueue_Poll_def TinyQueue_Head_def TinyQueue_Pop_def L_GetHead_def L_RemoveHead_def
      split: list.splits)

end
