(* ===== verification/Worker.thy ===== *)
theory Worker
  imports BlockingQueue "HOL-Library.Sublist" "HOL-Library.Multiset"
begin

section \<open>The worker: \<open>Tiny/Worker/TinyWorker.c\<close>\<close>

text \<open>
  A worker owns a job queue and a thread that takes the jobs off it. The operations are
  functions on the worker's record, where \<open>freed\<close> and \<open>leaked\<close> log the jobs given to the job
  delete listener and those dropped without it, and \<open>executed\<close> those the listener returned from.
  The thread is a machine whose program counter says where in
  \<open>worker_loop\<close> it is; the steps of the thread and of the clients interleave in the relation
  \<open>wstep\<close>. One step is one access to the shared state: the two halves of a put, the wait and
  the poll of a take, each test of the loop, each assignment of \<open>TinyWorker_Stop\<close>. Any number
  of clients put and get jobs; one client starts and stops the worker.
\<close>

record 'j worker =
  is_running :: bool
  job_queue :: "'j bqueue"
  listener :: "('j \<Rightarrow> bool) option"
  thread :: tthread
  job_delete_listener :: bool
  executed :: "'j list"
  freed :: "'j list"
  leaked :: "'j list"

subsection \<open>Operations\<close>

definition TinyWorker_Construct :: "tiny_ret \<Rightarrow> tiny_ret \<Rightarrow> tiny_ret \<times> 'j worker" where
  "TinyWorker_Construct mutex_ret sem_ret =
     (case TinyBlockingQueue_Construct mutex_ret sem_ret of (ret, q) \<Rightarrow>
        (ret, \<lparr>is_running = False, job_queue = q, listener = None, thread = snd TinyThread_Construct,
               job_delete_listener = False, executed = [], freed = [], leaked = []\<rparr>))"

definition TinyWorker_Initialize :: "'j worker \<Rightarrow> bool \<Rightarrow> tiny_ret \<times> 'j worker" where
  "TinyWorker_Initialize w given =
     (if given then (TINY_RET_OK, w\<lparr>job_delete_listener := True\<rparr>) else (TINY_RET_E_ARG_NULL, w))"

definition TinyWorker_GetName :: "'j worker \<Rightarrow> string option" where
  "TinyWorker_GetName w = TinyThread_GetName (thread w)"

definition TinyWorker_Start ::
    "'j worker \<Rightarrow> string option \<Rightarrow> ('j \<Rightarrow> bool) option \<Rightarrow> 64 word option \<Rightarrow> tiny_ret \<times> 'j worker" where
  "TinyWorker_Start w name l created =
     (if l = None then (TINY_RET_E_ARG_NULL, w)
      else if is_running w then (TINY_RET_E_STARTED, w)
      else let t = snd (TinyThread_Initialize (thread w) True name)
           in (TINY_RET_OK, w\<lparr>is_running := True, listener := l, thread := snd (TinyThread_Start t created)\<rparr>))"

text \<open>\<open>TinyWorker_Stop\<close>, one function per access; the join is the last of them.\<close>

definition stop_flag :: "'j worker \<Rightarrow> 'j worker" where
  "stop_flag w = w\<lparr>is_running := False\<rparr>"

definition stop_listener :: "'j worker \<Rightarrow> 'j worker" where
  "stop_listener w = w\<lparr>listener := None\<rparr>"

definition stop_post :: "'j worker \<Rightarrow> 'j worker" where
  "stop_post w = w\<lparr>job_queue := TinyBlockingQueue_Stop (job_queue w)\<rparr>"

definition stop_join :: "'j worker \<Rightarrow> 'j worker" where
  "stop_join w = w\<lparr>thread := snd (TinyThread_Join (thread w))\<rparr>"

definition TinyWorker_Stop :: "'j worker \<Rightarrow> tiny_ret \<times> 'j worker" where
  "TinyWorker_Stop w =
     (if is_running w then (TINY_RET_OK, stop_join (stop_post (stop_listener (stop_flag w))))
      else (TINY_RET_E_STOPPED, w))"

definition TinyWorker_IsStarted :: "'j worker \<Rightarrow> bool" where
  "TinyWorker_IsStarted w = is_running w"

definition TinyWorker_PutJob :: "bool \<Rightarrow> 'j worker \<Rightarrow> 'j option \<Rightarrow> tiny_ret \<times> 'j worker" where
  "TinyWorker_PutJob ok w job = (case job of
       None \<Rightarrow> (TINY_RET_E_ARG_NULL, w)
     | Some j \<Rightarrow> (TINY_RET_OK, w\<lparr>job_queue := TinyBlockingQueue_Put ok (job_queue w) job\<rparr>))"

definition TinyWorker_GetJob :: "'j worker \<Rightarrow> 'j option \<times> 'j worker" where
  "TinyWorker_GetJob w = (case TinyBlockingQueue_Poll (job_queue w) of
       (job, q) \<Rightarrow> (job, w\<lparr>job_queue := q\<rparr>))"

definition delete_job :: "'j worker \<Rightarrow> 'j \<Rightarrow> 'j worker" where
  "delete_job w j = (if job_delete_listener w then w\<lparr>freed := freed w @ [j]\<rparr> else w\<lparr>leaked := leaked w @ [j]\<rparr>)"

lemma job_queue_delete [simp]: "job_queue (delete_job w j) = job_queue w"
  by (simp add: delete_job_def)

function dispose_loop :: "'j worker \<Rightarrow> 'j worker" where
  "dispose_loop w = (case TinyBlockingQueue_Poll (job_queue w) of
       (None, q) \<Rightarrow> w\<lparr>job_queue := q\<rparr>
     | (Some j, q) \<Rightarrow> dispose_loop (delete_job (w\<lparr>job_queue := q\<rparr>) j))"
  by pat_completeness auto

termination
  by (relation "measure (\<lambda>w. length (items (queue (job_queue w))))") (auto dest!: poll_shorter [OF sym])

declare dispose_loop.simps [simp del]

definition TinyWorker_Dispose :: "'j worker \<Rightarrow> tiny_ret \<times> 'j worker" where
  "TinyWorker_Dispose w =
     (let w1 = (if is_running w then snd (TinyWorker_Stop w) else w);
          w2 = dispose_loop w1
      in (TINY_RET_OK, w2\<lparr>job_queue := snd (TinyBlockingQueue_Dispose (job_queue w2)),
                          thread := snd (TinyThread_Dispose (thread w2))\<rparr>))"

subsection \<open>The thread\<close>

text \<open>
  Where the thread is in \<open>worker_loop\<close>: not started; before the wait and before the poll of
  \<open>TinyBlockingQueue_Take\<close>; holding a job before the test of \<open>is_running\<close>, before the test of
  the listener, before the call reads the listener again; inside the listener; returned; and
  after a call through NULL, which is undefined behaviour.
\<close>

datatype 'j wpc = NoThread | Waiting | Popping | Testing 'j | Checking 'j | Calling 'j
  | InCall "'j \<Rightarrow> bool" 'j | Ended | Crashed 'j

fun worker_loop :: "'j wpc \<Rightarrow> 'j worker \<Rightarrow> ('j wpc \<times> 'j worker) option" where
  "worker_loop Waiting w =
     map_option (\<lambda>(_, q). (Popping, w\<lparr>job_queue := q\<rparr>)) (TinySemaphore_Wait True (job_queue w))"
| "worker_loop Popping w = (case TinyBlockingQueue_Poll (job_queue w) of
     (job, q) \<Rightarrow> Some (case job of None \<Rightarrow> Ended | Some j \<Rightarrow> Testing j, w\<lparr>job_queue := q\<rparr>))"
| "worker_loop (Testing j) w = Some (if is_running w then (Checking j, w) else (Ended, delete_job w j))"
| "worker_loop (Checking j) w = Some (case listener w of
     None \<Rightarrow> (Ended, w\<lparr>leaked := leaked w @ [j]\<rparr>) | Some l \<Rightarrow> (Calling j, w))"
| "worker_loop (Calling j) w = Some (case listener w of None \<Rightarrow> (Crashed j, w) | Some l \<Rightarrow> (InCall l j, w))"
| "worker_loop (InCall l j) w = Some (if l j then Waiting else Ended, w\<lparr>executed := executed w @ [j]\<rparr>)"
| "worker_loop NoThread w = None"
| "worker_loop Ended w = None"
| "worker_loop (Crashed j) w = None"

text \<open>The thread running alone, for at most n steps.\<close>

fun worker_run :: "nat \<Rightarrow> 'j wpc \<times> 'j worker \<Rightarrow> 'j wpc \<times> 'j worker" where
  "worker_run 0 s = s"
| "worker_run (Suc n) s = (case worker_loop (fst s) (snd s) of None \<Rightarrow> s | Some s' \<Rightarrow> worker_run n s')"

subsection \<open>The interleaving of the thread and its clients\<close>

text \<open>
  Beside the worker and the thread's program counter the system has the progress of the client
  that stops it, the number of clients between the two halves of a put, and, as history, the jobs
  put and those taken away by \<open>TinyWorker_GetJob\<close>, in order, and the number of stops. Memory for
  the queue's nodes is available, no signal interrupts the thread's wait, the semaphore stays below
  \<open>SEM_VALUE_MAX\<close> when a put is completed, and the thread identifier of the operating system is not 0 in
  its low 32 bits (the join tests those).
\<close>

datatype stop_pc = StopIdle | StopFlagged | StopUnset | StopJoining

record 'j wsys =
  wrk :: "'j worker"
  pc :: "'j wpc"
  stopping :: stop_pc
  posting :: nat
  put_jobs :: "'j list"
  polled :: "'j list"
  stops :: nat

definition worker_init :: "bool \<Rightarrow> 'j wsys" where
  "worker_init dl =
     \<lparr>wrk = snd (if dl then TinyWorker_Initialize (snd (TinyWorker_Construct TINY_RET_OK TINY_RET_OK)) True
                 else TinyWorker_Construct TINY_RET_OK TINY_RET_OK),
      pc = NoThread, stopping = StopIdle, posting = 0, put_jobs = [], polled = [], stops = 0\<rparr>"

inductive wstep :: "'j wsys \<Rightarrow> 'j wsys \<Rightarrow> bool" where
  work: "worker_loop (pc s) (wrk s) = Some (pc', w') \<Longrightarrow> wstep s (s\<lparr>pc := pc', wrk := w'\<rparr>)"
| push: "wstep s (s\<lparr>wrk := (wrk s)\<lparr>job_queue := put_push True (job_queue (wrk s)) j\<rparr>,
                    posting := posting s + 1, put_jobs := put_jobs s @ [j]\<rparr>)"
| post: "0 < posting s \<Longrightarrow> TinySemaphore_Post (job_queue (wrk s)) = (True, q) \<Longrightarrow>
     wstep s (s\<lparr>wrk := (wrk s)\<lparr>job_queue := q\<rparr>, posting := posting s - 1\<rparr>)"
| get: "TinyWorker_GetJob (wrk s) = (job, w') \<Longrightarrow>
     wstep s (s\<lparr>wrk := w', polled := polled s @ (case job of None \<Rightarrow> [] | Some j \<Rightarrow> [j])\<rparr>)"
| start: "stopping s = StopIdle \<Longrightarrow> (ucast tid :: 32 word) \<noteq> 0 \<Longrightarrow>
     TinyWorker_Start (wrk s) name (Some l) (Some tid) = (ret, w') \<Longrightarrow>
     wstep s (s\<lparr>wrk := w', pc := (if is_running (wrk s) then pc s else Waiting)\<rparr>)"
| stop1: "stopping s = StopIdle \<Longrightarrow> is_running (wrk s) \<Longrightarrow>
     wstep s (s\<lparr>wrk := stop_flag (wrk s), stopping := StopFlagged, stops := stops s + 1\<rparr>)"
| stop2: "stopping s = StopFlagged \<Longrightarrow>
     wstep s (s\<lparr>wrk := stop_listener (wrk s), stopping := StopUnset\<rparr>)"
| stop3: "stopping s = StopUnset \<Longrightarrow>
     wstep s (s\<lparr>wrk := stop_post (wrk s), stopping := StopJoining\<rparr>)"
| stop4: "stopping s = StopJoining \<Longrightarrow> \<not> join_waits (thread (wrk s)) \<or> pc s = Ended \<Longrightarrow>
     wstep s (s\<lparr>wrk := stop_join (wrk s), stopping := StopIdle\<rparr>)"

inductive worker_reachable :: "'j wsys \<Rightarrow> bool" where
  init: "worker_reachable (worker_init dl)"
| step: "worker_reachable s \<Longrightarrow> wstep s t \<Longrightarrow> worker_reachable t"

fun in_hand :: "'j wpc \<Rightarrow> 'j list" where
  "in_hand (Testing j) = [j]"
| "in_hand (Checking j) = [j]"
| "in_hand (Calling j) = [j]"
| "in_hand (InCall l j) = [j]"
| "in_hand (Crashed j) = [j]"
| "in_hand _ = []"

abbreviation pending :: "'j wsys \<Rightarrow> 'j list" where
  "pending s \<equiv> bq_view (job_queue (wrk s))"

text \<open>The case analysis of the thread's steps, one rule per program counter.\<close>

lemma worker_loop_cases:
  assumes "worker_loop p w = Some (p', w')" and "bq_inv (job_queue w)"
  obtains (wait) "p = Waiting" "0 < sem (job_queue w)" "p' = Popping"
      "w' = w\<lparr>job_queue := (job_queue w)\<lparr>sem := sem (job_queue w) - 1\<rparr>\<rparr>"
    | (empty) "p = Popping" "bq_view (job_queue w) = []" "p' = Ended"
      "w' = w\<lparr>job_queue := snd (TinyBlockingQueue_Poll (job_queue w))\<rparr>"
    | (pop) j js where "p = Popping" "bq_view (job_queue w) = j # js" "p' = Testing j"
      "w' = w\<lparr>job_queue := snd (TinyBlockingQueue_Poll (job_queue w))\<rparr>"
    | (run) j where "p = Testing j" "is_running w" "p' = Checking j" "w' = w"
    | (drop) j where "p = Testing j" "\<not> is_running w" "p' = Ended" "w' = delete_job w j"
    | (unset) j where "p = Checking j" "listener w = None" "p' = Ended" "w' = w\<lparr>leaked := leaked w @ [j]\<rparr>"
    | (set) j l where "p = Checking j" "listener w = Some l" "p' = Calling j" "w' = w"
    | (crash) j where "p = Calling j" "listener w = None" "p' = Crashed j" "w' = w"
    | (call) j l where "p = Calling j" "listener w = Some l" "p' = InCall l j" "w' = w"
    | (return) j l where "p = InCall l j" "p' = (if l j then Waiting else Ended)"
      "w' = w\<lparr>executed := executed w @ [j]\<rparr>"
  using assms
proof (cases p)
  case Popping
  with assms show ?thesis
    using that(2,3) poll_head [OF assms(2)]
    by (cases "TinyBlockingQueue_Poll (job_queue w)") (auto split: list.splits)
qed (auto simp: TinySemaphore_Wait_def split: if_splits option.splits intro: that)

text \<open>
  A wait that a signal interrupts is taken for one that found a token: with nothing queued the take returns NULL,
  and the thread leaves its loop, of a worker that stays marked as running.
\<close>

lemma interrupted_wait_ends:
  assumes "bq_inv (job_queue w)" and "bq_view (job_queue w) = []"
  shows "map_option fst (TinyBlockingQueue_Take False (job_queue w)) = Some None"
    and "\<exists>q. worker_loop Popping w = Some (Ended, w\<lparr>job_queue := q\<rparr>)"
  using take_interrupted [OF assms(1)] poll_head [OF assms(1)] assms(2)
  by (simp_all split: prod.splits) (metis fst_conv option.case(1) prod.collapse)

subsection \<open>Where the jobs are\<close>

text \<open>
  Every job put is in exactly one place, and those executed, in hand and pending keep the order
  in which they were put.
\<close>

definition jobs_inv :: "'j wsys \<Rightarrow> bool" where
  "jobs_inv s \<longleftrightarrow> bq_inv (job_queue (wrk s))
     \<and> mset (put_jobs s) = mset (executed (wrk s)) + mset (freed (wrk s)) + mset (leaked (wrk s))
         + mset (polled s) + mset (in_hand (pc s)) + mset (pending s)
     \<and> subseq (executed (wrk s) @ in_hand (pc s) @ pending s) (put_jobs s)"

lemma worker_init_simps [simp]:
  "is_running (wrk (worker_init dl)) = False" "listener (wrk (worker_init dl)) = None"
  "job_queue (wrk (worker_init dl)) = \<lparr>queue = snd TinyQueue_Construct, sem = 0\<rparr>"
  "executed (wrk (worker_init dl)) = []" "freed (wrk (worker_init dl)) = []" "leaked (wrk (worker_init dl)) = []"
  "thread (wrk (worker_init dl)) = snd TinyThread_Construct" "job_delete_listener (wrk (worker_init dl)) = dl"
  "pc (worker_init dl) = NoThread" "stopping (worker_init dl) = StopIdle" "posting (worker_init dl) = 0"
  "put_jobs (worker_init dl) = []" "polled (worker_init dl) = []" "stops (worker_init dl) = 0"
  by (simp_all add: worker_init_def TinyWorker_Initialize_def TinyWorker_Construct_def
      TinyBlockingQueue_Construct_def TINY_RET_OK_def RET_FAILED_def)

lemma delete_job_simps [simp]:
  "is_running (delete_job w j) = is_running w" "listener (delete_job w j) = listener w"
  "thread (delete_job w j) = thread w" "executed (delete_job w j) = executed w"
  "mset (freed (delete_job w j)) + mset (leaked (delete_job w j)) = mset (freed w) + mset (leaked w) + {#j#}"
  by (simp_all add: delete_job_def)

lemma start_simps:
  assumes "TinyWorker_Start w name (Some l) (Some tid) = (ret, w')"
  shows "job_queue w' = job_queue w" "executed w' = executed w" "freed w' = freed w" "leaked w' = leaked w"
    "is_running w'" "listener w' = (if is_running w then listener w else Some l)"
    "is_running w \<Longrightarrow> w' = w"
    "\<not> is_running w \<Longrightarrow> (ucast tid :: 32 word) \<noteq> 0 \<Longrightarrow> join_waits (thread w')"
  using assms by (auto simp: TinyWorker_Start_def TinyThread_Initialize_def TinyThread_Start_def Let_def
      join_waits_def split: if_splits)

lemmas stop_defs = stop_flag_def stop_listener_def stop_post_def stop_join_def

lemma jobs_inv_init: "jobs_inv (worker_init dl)"
  by (simp add: jobs_inv_def bq_new)

lemma subseq_skip: "subseq (xs @ zs @ ys) us \<Longrightarrow> subseq (xs @ ys) us"
  by (erule subseq_order.trans [rotated]) (simp add: subseq_append' list_emb_append2)

lemma subseq_tl: "subseq (xs @ ys) us \<Longrightarrow> subseq (xs @ tl ys) us"
  using subseq_skip [of xs "[hd ys]" "tl ys" us] by (cases ys) simp_all

lemma jobs_inv_work:
  assumes "worker_loop (pc s) (wrk s) = Some (pc', w')" and "jobs_inv s"
  shows "jobs_inv (s\<lparr>pc := pc', wrk := w'\<rparr>)"
proof -
  have inv: "bq_inv (job_queue (wrk s))" using assms(2) by (simp add: jobs_inv_def)
  have sub: "subseq (executed (wrk s) @ pending s) (put_jobs s)"
    using assms(2) by (auto simp: jobs_inv_def intro: subseq_skip)
  from assms(1) inv show ?thesis
  proof (cases rule: worker_loop_cases)
    case (drop j)
    have "mset (freed w') + mset (leaked w') = mset (freed (wrk s)) + mset (leaked (wrk s)) + {#j#}"
      using drop by simp
    then show ?thesis using assms(2) drop sub
      by (simp add: jobs_inv_def)
  qed (use assms(2) sub in \<open>auto simp: jobs_inv_def\<close>)
qed

lemma get_simps:
  assumes "TinyWorker_GetJob w = (job, w')"
  shows "job = fst (TinyBlockingQueue_Poll (job_queue w))"
    "w' = w\<lparr>job_queue := snd (TinyBlockingQueue_Poll (job_queue w))\<rparr>"
  using assms by (auto simp: TinyWorker_GetJob_def split: prod.splits)

lemma post_simps:
  assumes "TinySemaphore_Post q = (True, q')"
  shows "bq_inv q' = bq_inv q" "bq_view q' = bq_view q" "sem q' = sem q + 1"
  using assms bq_inv_ops(4) [of q] bq_view_ops(4) [of q] bq_sem_ops(3) [of q] by simp_all

lemma subseq_snoc: "subseq us vs \<Longrightarrow> subseq (us @ [j]) (vs @ [j])"
  by (simp add: list_emb_append_mono)

text \<open>
  What the thread may be doing in each phase of a stop. Once the stopping client waits in the
  join, there is a token left in the semaphore or the thread is already past its last wait.
\<close>

fun crashed :: "'j wpc \<Rightarrow> bool" where
  "crashed (Crashed j) = True"
| "crashed _ = False"

fun ending :: "'j wpc \<Rightarrow> bool" where
  "ending Popping = True"
| "ending (Testing j) = True"
| "ending Ended = True"
| "ending (Crashed j) = True"
| "ending _ = False"

definition run_inv :: "'j wsys \<Rightarrow> bool" where
  "run_inv s \<longleftrightarrow> (case stopping s of
       StopIdle \<Rightarrow> if is_running (wrk s)
         then listener (wrk s) \<noteq> None \<and> join_waits (thread (wrk s)) \<and> pc s \<noteq> NoThread \<and> \<not> crashed (pc s)
         else pc s = NoThread \<or> pc s = Ended
     | StopFlagged \<Rightarrow> \<not> is_running (wrk s) \<and> listener (wrk s) \<noteq> None \<and> join_waits (thread (wrk s))
         \<and> pc s \<noteq> NoThread \<and> \<not> crashed (pc s)
     | StopUnset \<Rightarrow> \<not> is_running (wrk s) \<and> listener (wrk s) = None \<and> join_waits (thread (wrk s)) \<and> pc s \<noteq> NoThread
     | StopJoining \<Rightarrow> \<not> is_running (wrk s) \<and> listener (wrk s) = None \<and> join_waits (thread (wrk s)) \<and> pc s \<noteq> NoThread
         \<and> (0 < sem (job_queue (wrk s)) \<or> ending (pc s)))"

lemma run_inv_init: "run_inv (worker_init dl)"
  by (simp add: run_inv_def)

lemma run_inv_work:
  assumes "worker_loop (pc s) (wrk s) = Some (pc', w')" and "bq_inv (job_queue (wrk s))" and "run_inv s"
  shows "run_inv (s\<lparr>pc := pc', wrk := w'\<rparr>)"
  using assms(1,2)
  by (cases rule: worker_loop_cases)
    (use assms(3) in \<open>auto simp: run_inv_def split: stop_pc.splits if_splits\<close>)

lemma run_inv_step:
  assumes "wstep s t" and "bq_inv (job_queue (wrk s))" and "run_inv s"
  shows "run_inv t"
  using assms(1)
proof (cases rule: wstep.cases)
  case (work pc' w')
  then show ?thesis using assms(2,3) run_inv_work by simp
next
  case (get job w')
  then show ?thesis using assms(3) get_simps [OF get(2)] by (auto simp: run_inv_def split: stop_pc.splits if_splits)
next
  case (start tid name l ret w')
  then show ?thesis using assms(3) start_simps [OF start(4)] by (auto simp: run_inv_def)
next
  case (post q)
  then show ?thesis using assms(3) post_simps [OF post(3)] by (auto simp: run_inv_def split: stop_pc.splits)
qed (use assms(3) in \<open>auto simp: run_inv_def stop_defs split: stop_pc.splits\<close>)

lemma jobs_inv_step:
  assumes "wstep s t" and "jobs_inv s" and "run_inv s"
  shows "jobs_inv t"
proof -
  have inv: "bq_inv (job_queue (wrk s))" using assms(2) by (simp add: jobs_inv_def)
  from assms(1) show ?thesis
  proof (cases rule: wstep.cases)
    case (work pc' w')
    then show ?thesis using assms(2) jobs_inv_work by simp
  next
    case (push j)
    have "subseq ((executed (wrk s) @ in_hand (pc s) @ pending s) @ [j]) (put_jobs s @ [j])"
      using assms(2) by (intro subseq_snoc) (simp add: jobs_inv_def)
    with push assms(2) show ?thesis by (simp add: jobs_inv_def)
  next
    case (get job w')
    have "subseq (executed (wrk s) @ in_hand (pc s) @ tl (pending s)) (put_jobs s)"
      using subseq_tl [of "executed (wrk s) @ in_hand (pc s)" "pending s" "put_jobs s"] assms(2)
      by (simp add: jobs_inv_def)
    with get(1) get_simps [OF get(2)] assms(2) poll_head [OF inv] inv show ?thesis
      by (cases "pending s") (auto simp: jobs_inv_def)
  next
    case (start tid name l ret w')
    have "in_hand (if is_running (wrk s) then pc s else Waiting) = in_hand (pc s)"
      using start assms(3) by (auto simp: run_inv_def)
    with start assms(2) start_simps [OF start(4)] show ?thesis by (simp add: jobs_inv_def)
  next
    case (post q)
    then show ?thesis using assms(2) post_simps [OF post(3)] by (simp add: jobs_inv_def)
  qed (use assms(2) in \<open>auto simp: jobs_inv_def stop_defs\<close>)
qed

lemma reachable_inv: "worker_reachable s \<Longrightarrow> jobs_inv s \<and> run_inv s"
proof (induction rule: worker_reachable.induct)
  case (init dl)
  show ?case by (simp add: jobs_inv_init run_inv_init)
next
  case (step s t)
  then have "bq_inv (job_queue (wrk s))" by (simp add: jobs_inv_def)
  with step show ?case by (blast intro: jobs_inv_step run_inv_step)
qed

text \<open>
  C1. No job is lost and none is duplicated, in any interleaving of the worker's thread with
  clients that put, get, start and stop: every job put is executed, given to the job delete
  listener, dropped, fetched by \<open>TinyWorker_GetJob\<close>, held by the thread or still queued, and
  exactly one of these. The executed jobs keep the order of the puts.
\<close>

theorem worker_jobs_conserved:
  assumes "worker_reachable s"
  shows "mset (put_jobs s) = mset (executed (wrk s)) + mset (freed (wrk s)) + mset (leaked (wrk s))
         + mset (polled s) + mset (in_hand (pc s)) + mset (bq_view (job_queue (wrk s)))
     \<and> subseq (executed (wrk s) @ in_hand (pc s) @ bq_view (job_queue (wrk s))) (put_jobs s)"
  using reachable_inv [OF assms] by (simp add: jobs_inv_def)

lemma run_Ended [simp]: "worker_run n (Ended, w) = (Ended, w)"
  by (cases n) simp_all

text \<open>A thread that sees the stop: the bound on its remaining steps, from each of its positions.\<close>

declare worker_run.simps(2) [simp del]
lemmas run_Suc = worker_run.simps(2)

lemma run_testing: "\<not> is_running w \<Longrightarrow> fst (worker_run (Suc n) (Testing j, w)) = Ended"
  by (simp add: run_Suc)

lemma run_popping: "\<not> is_running w \<Longrightarrow> fst (worker_run (Suc (Suc n)) (Popping, w)) = Ended"
  by (auto simp: run_Suc [of "Suc n" "(Popping, w)"] run_testing split: prod.splits option.splits)

lemma run_waiting:
  "\<not> is_running w \<Longrightarrow> 0 < sem (job_queue w) \<Longrightarrow> fst (worker_run (Suc (Suc (Suc n))) (Waiting, w)) = Ended"
  by (simp add: run_Suc [of "Suc (Suc n)" "(Waiting, w)"] TinySemaphore_Wait_def run_popping)

lemma run_in_call:
  "\<not> is_running w \<Longrightarrow> 0 < sem (job_queue w) \<Longrightarrow>
     fst (worker_run (Suc (Suc (Suc (Suc n)))) (InCall l j, w)) = Ended"
  by (simp add: run_Suc [of "Suc (Suc (Suc n))" "(InCall l j, w)"] run_waiting)

lemma run_unset: "listener w = None \<Longrightarrow> fst (worker_run (Suc n) (Checking j, w)) = Ended"
  by (simp add: run_Suc)

text \<open>
  C35. A stop ends: when the stopping client waits in the join and the thread is not about to
  call the listener through the pointer the stop has just cleared, the thread leaves
  \<open>worker_loop\<close> after at most four steps of its own, whatever is queued, provided the listener
  returns when it is running.
\<close>

theorem worker_stop_returns:
  assumes "worker_reachable s" and "stopping s = StopJoining"
    and "\<not> crashed (pc s)" and "list_all (\<lambda>j. pc s \<noteq> Calling j) (in_hand (pc s))"
  shows "fst (worker_run 4 (pc s, wrk s)) = Ended"
proof -
  have inv: "jobs_inv s" "run_inv s" using reachable_inv [OF assms(1)] by simp_all
  then have j: "\<not> is_running (wrk s)" "listener (wrk s) = None" "pc s \<noteq> NoThread"
      "0 < sem (job_queue (wrk s)) \<or> ending (pc s)"
    using assms(2) by (simp_all add: run_inv_def)
  have four: "(4 :: nat) = Suc (Suc (Suc (Suc 0)))" by simp
  show ?thesis
    using j assms(3,4) unfolding four
    by (cases "pc s") (simp_all add: run_testing run_popping run_waiting run_in_call run_unset)
qed

subsection \<open>A worker that is never stopped\<close>

text \<open>
  While no client stops the worker or fetches jobs, the semaphore counts exactly the queued jobs
  whose put is complete (less the one the thread has been admitted to), so a take never finds
  the queue empty; the thread leaves its loop only when the listener refuses a job.
\<close>

definition alive_inv :: "'j wsys \<Rightarrow> bool" where
  "alive_inv s \<longleftrightarrow> (stops s = 0 \<and> polled s = [] \<longrightarrow>
     stopping s = StopIdle \<and> freed (wrk s) = [] \<and> leaked (wrk s) = []
     \<and> put_jobs s = executed (wrk s) @ in_hand (pc s) @ pending s
     \<and> sem (job_queue (wrk s)) + posting s + (if pc s = Popping then 1 else 0) = length (pending s)
     \<and> (is_running (wrk s) \<longleftrightarrow> pc s \<noteq> NoThread)
     \<and> (\<forall>l j. pc s = InCall l j \<longrightarrow> listener (wrk s) = Some l)
     \<and> (pc s = Ended \<longrightarrow> executed (wrk s) \<noteq> []
          \<and> (\<exists>l. listener (wrk s) = Some l \<and> \<not> l (last (executed (wrk s))))))"

lemma alive_inv_init: "alive_inv (worker_init dl)"
  by (simp add: alive_inv_def bq_new)

lemma alive_inv_work:
  assumes "worker_loop (pc s) (wrk s) = Some (pc', w')" and "bq_inv (job_queue (wrk s))" and "run_inv s"
    and "alive_inv s"
  shows "alive_inv (s\<lparr>pc := pc', wrk := w'\<rparr>)"
  using assms(1,2)
  by (cases rule: worker_loop_cases)
    (use assms(2,3,4) in \<open>auto simp: alive_inv_def run_inv_def\<close>)

lemma alive_inv_step:
  assumes "wstep s t" and "bq_inv (job_queue (wrk s))" and "run_inv s" and "alive_inv s"
  shows "alive_inv t"
  using assms(1)
proof (cases rule: wstep.cases)
  case (work pc' w')
  then show ?thesis using assms alive_inv_work by simp
next
  case (push j)
  then show ?thesis using assms(2,4) by (simp add: alive_inv_def)
next
  case (post q)
  then show ?thesis using assms(4) post_simps [OF post(3)] by (simp add: alive_inv_def)
next
  case (get job w')
  show ?thesis
  proof (cases job)
    case None
    then have "pending s = []" using poll_head [OF assms(2)] get_simps [OF get(2)] by (simp split: list.splits)
    with get(1) get_simps [OF get(2)] None assms(2,4) show ?thesis by (simp add: alive_inv_def)
  next
    case (Some j)
    with get(1) show ?thesis by (simp add: alive_inv_def)
  qed
next
  case (start tid name l ret w')
  show ?thesis
  proof (cases "is_running (wrk s)")
    case True
    with start start_simps [OF start(4)] assms(4) show ?thesis by (simp add: alive_inv_def)
  next
    case False
    with start start_simps [OF start(4)] assms(4) show ?thesis by (auto simp: alive_inv_def)
  qed
qed (use assms(4) in \<open>auto simp: alive_inv_def stop_defs\<close>)

lemma reachable_alive: "worker_reachable s \<Longrightarrow> alive_inv s"
proof (induction rule: worker_reachable.induct)
  case (init dl)
  show ?case by (rule alive_inv_init)
next
  case (step s t)
  with reachable_inv [of s] have "bq_inv (job_queue (wrk s))" "run_inv s" by (simp_all add: jobs_inv_def)
  with step show ?case by (blast intro: alive_inv_step)
qed

text \<open>
  C34. As long as the worker is neither stopped nor robbed of jobs by \<open>TinyWorker_GetJob\<close>, it
  executes the jobs in the order of the puts and drops none: the puts are the executed jobs,
  then the one in hand, then the queue. The semaphore agrees with the queue, the loop is not
  left unless the listener refused the last job, and the listener is never called through NULL.
\<close>

theorem worker_fifo_alive:
  assumes "worker_reachable s" and "stops s = 0" and "polled s = []" and "is_running (wrk s)"
  shows "put_jobs s = executed (wrk s) @ in_hand (pc s) @ bq_view (job_queue (wrk s))
     \<and> freed (wrk s) = [] \<and> leaked (wrk s) = [] \<and> \<not> crashed (pc s)
     \<and> sem (job_queue (wrk s)) + posting s + (if pc s = Popping then 1 else 0)
         = length (bq_view (job_queue (wrk s)))
     \<and> (if pc s = Ended then executed (wrk s) \<noteq> [] \<and>
          map_option (\<lambda>l. l (last (executed (wrk s)))) (listener (wrk s)) = Some False else True)"
  using reachable_alive [OF assms(1)] reachable_inv [OF assms(1)] assms(2-)
  by (auto simp: alive_inv_def run_inv_def)

lemma run_None: "worker_loop (fst s) (snd s) = None \<Longrightarrow> worker_run n s = s"
  by (cases n) (simp_all add: run_Suc)

lemma run_add: "worker_run (m + n) s = worker_run n (worker_run m s)"
  by (induction m arbitrary: s) (simp_all add: run_Suc run_None split: option.splits)

text \<open>A running worker whose listener accepts the job: the steps from the test to the next wait.\<close>

lemma run_job:
  assumes "is_running w" and "listener w = Some l" and "l j"
  shows "worker_run 1 (InCall l j, w) = (Waiting, w\<lparr>executed := executed w @ [j]\<rparr>)"
    and "worker_run 2 (Calling j, w) = (Waiting, w\<lparr>executed := executed w @ [j]\<rparr>)"
    and "worker_run 3 (Checking j, w) = (Waiting, w\<lparr>executed := executed w @ [j]\<rparr>)"
    and "worker_run 4 (Testing j, w) = (Waiting, w\<lparr>executed := executed w @ [j]\<rparr>)"
  using assms by (simp_all add: run_Suc eval_nat_numeral)

lemma run_poll:
  assumes "bq_inv (job_queue w)" and "bq_view (job_queue w) = j # js" and "is_running w" and "listener w = Some l" and "l j"
  shows "worker_run 5 (Popping, w) = (Waiting,
    w\<lparr>job_queue := snd (TinyBlockingQueue_Poll (job_queue w)), executed := executed w @ [j]\<rparr>)"
proof -
  have "worker_loop Popping w = Some (Testing j, w\<lparr>job_queue := snd (TinyBlockingQueue_Poll (job_queue w))\<rparr>)"
    using poll_head [OF assms(1)] assms(2) by (cases "TinyBlockingQueue_Poll (job_queue w)") simp
  moreover have "worker_run 5 (Popping, w) = worker_run (Suc 4) (Popping, w)" by simp
  ultimately show ?thesis using assms(3-) by (simp only: run_Suc fst_conv snd_conv option.case) (simp add: run_job)
qed

lemma drain_waiting:
  assumes "bq_inv (job_queue w)" and "is_running w" and "listener w = Some l"
    and "list_all l (bq_view (job_queue w))" and "sem (job_queue w) = length (bq_view (job_queue w))"
  shows "\<exists>w'. worker_run (6 * length (bq_view (job_queue w))) (Waiting, w) = (Waiting, w')
    \<and> executed w' = executed w @ bq_view (job_queue w) \<and> bq_view (job_queue w') = []"
  using assms
proof (induction "bq_view (job_queue w)" arbitrary: w)
  case Nil
  then show ?case by (auto intro: exI [of _ w])
next
  case (Cons j js)
  define q where "q = (job_queue w)\<lparr>sem := sem (job_queue w) - 1\<rparr>"
  define w1 where "w1 = w\<lparr>job_queue := snd (TinyBlockingQueue_Poll q), executed := executed w @ [j]\<rparr>"
  have q: "bq_inv q" "bq_view q = j # js" "sem q = length js"
    using Cons.prems(1,5) Cons.hyps(2) [symmetric] by (simp_all add: q_def)
  have "worker_run 6 (Waiting, w) = worker_run 5 (Popping, w\<lparr>job_queue := q\<rparr>)"
    using Cons.prems(5) Cons.hyps(2) [symmetric]
    by (simp add: run_Suc [of 5 "(Waiting, w)", simplified] TinySemaphore_Wait_def q_def)
  also have "\<dots> = (Waiting, w1)"
    using run_poll [of "w\<lparr>job_queue := q\<rparr>" j js l] q Cons.prems(2-4) Cons.hyps(2) [symmetric]
    by (simp add: w1_def)
  finally have r: "worker_run 6 (Waiting, w) = (Waiting, w1)" .
  have v1: "js = bq_view (job_queue w1)" using q by (simp add: w1_def)
  have w1: "bq_inv (job_queue w1)" "is_running w1" "listener w1 = Some l"
      "sem (job_queue w1) = length (bq_view (job_queue w1))" "executed w1 = executed w @ [j]"
    using q Cons.prems(2,3) unfolding v1 [symmetric] by (simp_all add: w1_def)
  have "list_all l (bq_view (job_queue w1))"
    using Cons.prems(4) unfolding Cons.hyps(2) [symmetric] v1 [symmetric] by simp
  from Cons.hyps(1) [OF v1 w1(1-3) this w1(4)]
  obtain w' where w': "worker_run (6 * length js) (Waiting, w1) = (Waiting, w')"
      "executed w' = executed w1 @ js" "bq_view (job_queue w') = []"
    unfolding v1 [symmetric] by blast
  have "worker_run (6 * length (j # js)) (Waiting, w) = (Waiting, w')"
    using r w'(1) run_add [of 6 "6 * length js" "(Waiting, w)"] by simp
  with w'(2,3) w1(5) show ?case unfolding Cons.hyps(2) [symmetric] by simp
qed

lemma drain_from:
  assumes "worker_run k (p, w) = (Waiting, w1)" and "bq_inv (job_queue w1)" and "is_running w1"
    and "listener w1 = Some l" and "list_all l (bq_view (job_queue w1))"
    and "sem (job_queue w1) = length (bq_view (job_queue w1))"
  shows "\<exists>w'. worker_run (k + 6 * length (bq_view (job_queue w1))) (p, w) = (Waiting, w')
    \<and> executed w' = executed w1 @ bq_view (job_queue w1) \<and> bq_view (job_queue w') = []"
  using drain_waiting [OF assms(2-6)] assms(1) by (simp add: run_add)

lemma worker_drains_within:
  assumes "worker_reachable s" and "stops s = 0" and "polled s = []" and "is_running (wrk s)"
    and "posting s = 0" and "listener (wrk s) = Some l" and "list_all l (put_jobs s)"
  shows "\<exists>n w'. n \<le> 6 * length (pending s) + 4 \<and> worker_run n (pc s, wrk s) = (Waiting, w')
    \<and> executed w' = put_jobs s \<and> bq_view (job_queue w') = []"
proof -
  have bq: "bq_inv (job_queue (wrk s))" and run: "run_inv s"
    using reachable_inv [OF assms(1)] by (simp_all add: jobs_inv_def)
  note a = reachable_alive [OF assms(1), unfolded alive_inv_def, THEN mp, OF conjI [OF assms(2,3)]]
  have put: "put_jobs s = executed (wrk s) @ in_hand (pc s) @ pending s"
    and sem: "sem (job_queue (wrk s)) + (if pc s = Popping then 1 else 0) = length (pending s)"
    using a assms(5) by simp_all
  have alive: "pc s \<noteq> NoThread" "\<not> crashed (pc s)" "pc s \<noteq> Ended"
    using a run assms(4,6,7) put by (auto simp: run_inv_def list_all_iff)
  have ok: "list_all l (in_hand (pc s))" "list_all l (pending s)" using assms(7) put by simp_all
  have job: "?thesis"
    if p: "worker_run k (pc s, wrk s) = (Waiting, (wrk s)\<lparr>executed := executed (wrk s) @ in_hand (pc s)\<rparr>)"
      "k \<le> 4" "pc s \<noteq> Popping" for k
    using drain_from [OF p(1), of l] bq assms(4,6) ok sem p(2,3) put
    by (intro exI [of _ "k + 6 * length (pending s)"]) auto
  show ?thesis
  proof (cases "pc s")
    case Waiting
    with job [of 0] show ?thesis by simp
  next
    case Popping
    with sem obtain j js where v: "pending s = j # js" by (cases "pending s") auto
    define w1 where "w1 = (wrk s)\<lparr>job_queue := snd (TinyBlockingQueue_Poll (job_queue (wrk s))),
      executed := executed (wrk s) @ [j]\<rparr>"
    have "worker_run 5 (pc s, wrk s) = (Waiting, w1)"
      using run_poll [OF bq v assms(4,6)] ok v Popping by (simp add: w1_def)
    from drain_from [OF this, of l] show ?thesis
      using bq assms(4,6) ok sem v put Popping
      by (intro exI [of _ "5 + 6 * length js"]) (auto simp: w1_def)
  next
    case (InCall l' j)
    with a assms(6) have "l' = l" by simp
    with InCall job [of 1] run_job(1) [OF assms(4,6), of j] ok show ?thesis by simp
  next
    case (Testing j)
    with job [of 4] run_job(4) [OF assms(4,6), of j] ok show ?thesis by simp
  next
    case (Checking j)
    with job [of 3] run_job(3) [OF assms(4,6), of j] ok show ?thesis by simp
  next
    case (Calling j)
    with job [of 2] run_job(2) [OF assms(4,6), of j] ok show ?thesis by simp
  qed (use alive in simp_all)
qed

text \<open>
  C2. Every job gets executed: in any reachable state of a worker that was neither stopped nor
  robbed of jobs, when no put is half done and the listener accepts the jobs, the thread alone
  executes all jobs put so far, in order, within \<open>6 n + 4\<close> steps for n queued jobs, and then
  waits for the next one.
\<close>

theorem worker_drains:
  assumes "worker_reachable s" and "stops s = 0" and "polled s = []" and "is_running (wrk s)"
    and "posting s = 0" and "listener (wrk s) = Some l" and "list_all l (put_jobs s)"
  shows "\<exists>n w'. n \<le> 6 * length (bq_view (job_queue (wrk s))) + 4
    \<and> worker_run n (pc s, wrk s) = (Waiting, w')
    \<and> executed w' = put_jobs s \<and> bq_view (job_queue w') = []"
  by (rule worker_drains_within [OF assms])

subsection \<open>Schedules\<close>

text \<open>
  A schedule names who moves next; running it is a function, and every state it leads to is
  reachable.
\<close>

datatype 'j move = Work | Push 'j | Post | Get | Start "'j \<Rightarrow> bool" | Stop

fun wexec :: "'j move \<Rightarrow> 'j wsys \<Rightarrow> 'j wsys option" where
  "wexec Work s = map_option (\<lambda>(p, w). s\<lparr>pc := p, wrk := w\<rparr>) (worker_loop (pc s) (wrk s))"
| "wexec (Push j) s = Some (s\<lparr>wrk := (wrk s)\<lparr>job_queue := put_push True (job_queue (wrk s)) j\<rparr>,
     posting := posting s + 1, put_jobs := put_jobs s @ [j]\<rparr>)"
| "wexec Post s = (if posting s = 0 then None
     else (case TinySemaphore_Post (job_queue (wrk s)) of
       (True, q) \<Rightarrow> Some (s\<lparr>wrk := (wrk s)\<lparr>job_queue := q\<rparr>, posting := posting s - 1\<rparr>)
     | (False, q) \<Rightarrow> None))"
| "wexec Get s = (case TinyWorker_GetJob (wrk s) of (job, w) \<Rightarrow>
     Some (s\<lparr>wrk := w, polled := polled s @ (case job of None \<Rightarrow> [] | Some j \<Rightarrow> [j])\<rparr>))"
| "wexec (Start l) s = (if stopping s \<noteq> StopIdle then None
     else Some (s\<lparr>wrk := snd (TinyWorker_Start (wrk s) None (Some l) (Some 1)),
       pc := (if is_running (wrk s) then pc s else Waiting)\<rparr>))"
| "wexec Stop s = (case stopping s of
     StopIdle \<Rightarrow> if is_running (wrk s)
       then Some (s\<lparr>wrk := stop_flag (wrk s), stopping := StopFlagged, stops := stops s + 1\<rparr>) else None
   | StopFlagged \<Rightarrow> Some (s\<lparr>wrk := stop_listener (wrk s), stopping := StopUnset\<rparr>)
   | StopUnset \<Rightarrow> Some (s\<lparr>wrk := stop_post (wrk s), stopping := StopJoining\<rparr>)
   | StopJoining \<Rightarrow> if join_waits (thread (wrk s)) then
         (case pc s of Ended \<Rightarrow> Some (s\<lparr>wrk := stop_join (wrk s), stopping := StopIdle\<rparr>) | _ \<Rightarrow> None)
       else Some (s\<lparr>wrk := stop_join (wrk s), stopping := StopIdle\<rparr>))"

fun wexecs :: "'j move list \<Rightarrow> 'j wsys \<Rightarrow> 'j wsys option" where
  "wexecs [] s = Some s"
| "wexecs (m # ms) s = Option.bind (wexec m s) (wexecs ms)"

lemma wexec_step: "wexec m s = Some t \<Longrightarrow> wstep s t"
proof (cases m)
  case Work
  assume "wexec m s = Some t"
  with Work show ?thesis by (auto intro: wstep.work)
next
  case (Start l)
  assume "wexec m s = Some t"
  with Start show ?thesis
    using wstep.start [of s 1 None l "fst (TinyWorker_Start (wrk s) None (Some l) (Some 1))"
        "snd (TinyWorker_Start (wrk s) None (Some l) (Some 1))"]
    by (auto split: if_splits)
qed (auto split: if_splits stop_pc.splits wpc.splits prod.splits bool.splits
      intro: wstep.push [simplified] wstep.post [simplified] wstep.get wstep.stop1 [simplified] wstep.stop2 wstep.stop3 wstep.stop4)

lemma wexecs_reachable: "worker_reachable s \<Longrightarrow> wexecs ms s = Some t \<Longrightarrow> worker_reachable t"
  by (induction ms arbitrary: s)
    (auto split: Option.bind_splits dest: wexec_step intro: worker_reachable.step)

lemmas wexec_eval = stop_defs delete_job_def TinyWorker_Start_def TinyThread_Initialize_def TinyThread_Start_def
  TinyThread_Join_def TinyThread_Construct_def join_waits_def Let_def put_push_def TinySemaphore_Post_def TinySemaphore_Wait_def SEM_VALUE_MAX_def
  TinyBlockingQueue_Stop_def TinyBlockingQueue_Poll_def TinyQueue_Construct_def TinyQueue_Push_def
  TinyQueue_Head_def TinyQueue_Pop_def L_new_def L_AddTail_def L_GetHead_def L_RemoveHead_def logged_def
  TinyWorker_GetJob_def bq_view_def queue_view_def

text \<open>
  C39. The stop races with the thread: the thread tests the listener and then reads it again to
  call it, and \<open>TinyWorker_Stop\<close> clears it without a lock. So a job can be taken, and the
  call goes through NULL; and a job taken before the stop can be dropped without being given to
  the job delete listener, although one is installed.
\<close>

theorem worker_stop_races:
  "(\<exists>s. worker_reachable s \<and> pc s = Crashed j \<and> put_jobs s = [j])
   \<and> (\<exists>s. worker_reachable s \<and> pc s = Ended \<and> job_delete_listener (wrk s) \<and> put_jobs s = [j]
         \<and> leaked (wrk s) = [j] \<and> freed (wrk s) = [])"
proof
  let ?l = "\<lambda>_. True"
  obtain s where "wexecs [Start ?l, Push j, Post, Work, Work, Work, Work, Stop, Stop, Work] (worker_init True) = Some s"
    and "pc s = Crashed j" "put_jobs s = [j]"
    by (simp add: wexec_eval)
  then show "\<exists>s. worker_reachable s \<and> pc s = Crashed j \<and> put_jobs s = [j]"
    using wexecs_reachable [OF worker_reachable.init] by blast
  obtain s where "wexecs [Start ?l, Push j, Post, Work, Work, Work, Stop, Stop, Work] (worker_init True) = Some s"
    and "pc s = Ended \<and> job_delete_listener (wrk s) \<and> put_jobs s = [j] \<and> leaked (wrk s) = [j] \<and> freed (wrk s) = []"
    by (simp add: wexec_eval)
  then show "\<exists>s. worker_reachable s \<and> pc s = Ended \<and> job_delete_listener (wrk s) \<and> put_jobs s = [j]
         \<and> leaked (wrk s) = [j] \<and> freed (wrk s) = []"
    using wexecs_reachable [OF worker_reachable.init] by blast
qed

text \<open>
  The semaphore and the queue can disagree, and then the worker's thread ends while the
  worker still says that it is started, with a listener that accepts every job: after
  \<open>TinyWorker_GetJob\<close> has fetched a job (the token of that job stays in the semaphore; here k
  is put later and stays queued), and after a stop that met queued jobs is followed by a new start
  (the token of the stop stays).
\<close>

theorem worker_dies_running:
  "(\<exists>s. worker_reachable s \<and> TinyWorker_IsStarted (wrk s) \<and> pc s = Ended \<and> stops s = 0
       \<and> listener (wrk s) = Some (\<lambda>_. True) \<and> polled s = [j] \<and> bq_view (job_queue (wrk s)) = [k])
   \<and> (\<exists>s. worker_reachable s \<and> TinyWorker_IsStarted (wrk s) \<and> pc s = Ended \<and> polled s = []
       \<and> listener (wrk s) = Some (\<lambda>_. True) \<and> freed (wrk s) = [j] \<and> bq_view (job_queue (wrk s)) = [k])"
proof
  let ?l = "\<lambda>_. True"
  obtain s where "wexecs [Start ?l, Push j, Post, Get, Work, Work, Push k, Post] (worker_init True) = Some s"
    and "TinyWorker_IsStarted (wrk s) \<and> pc s = Ended \<and> stops s = 0
       \<and> listener (wrk s) = Some (\<lambda>_. True) \<and> polled s = [j] \<and> bq_view (job_queue (wrk s)) = [k]"
    by (simp add: wexec_eval TinyWorker_IsStarted_def)
  then show "\<exists>s. worker_reachable s \<and> TinyWorker_IsStarted (wrk s) \<and> pc s = Ended \<and> stops s = 0
       \<and> listener (wrk s) = Some (\<lambda>_. True) \<and> polled s = [j] \<and> bq_view (job_queue (wrk s)) = [k]"
    using wexecs_reachable [OF worker_reachable.init] by blast
  obtain s where "wexecs [Start ?l, Push j, Post, Stop, Stop, Stop, Work, Work, Work, Stop,
        Start ?l, Work, Work, Push k, Post] (worker_init True) = Some s"
    and "TinyWorker_IsStarted (wrk s) \<and> pc s = Ended \<and> polled s = []
       \<and> listener (wrk s) = Some (\<lambda>_. True) \<and> freed (wrk s) = [j] \<and> bq_view (job_queue (wrk s)) = [k]"
    by (simp add: wexec_eval TinyWorker_IsStarted_def)
  then show "\<exists>s. worker_reachable s \<and> TinyWorker_IsStarted (wrk s) \<and> pc s = Ended \<and> polled s = []
       \<and> listener (wrk s) = Some (\<lambda>_. True) \<and> freed (wrk s) = [j] \<and> bq_view (job_queue (wrk s)) = [k]"
    using wexecs_reachable [OF worker_reachable.init] by blast
qed

definition demo_busy :: "nat wsys" where
  "demo_busy = the (wexecs [Start (\<lambda>_. True), Push 7, Post, Push 8, Post, Work] (worker_init True))"

lemma demo_busy_reachable: "worker_reachable demo_busy"
proof (rule wexecs_reachable [OF worker_reachable.init])
  show "wexecs [Start (\<lambda>_. True), Push 7, Post, Push 8, Post, Work] (worker_init True) = Some demo_busy"
    by (simp add: wexec_eval demo_busy_def)
qed

definition demo_joining :: "nat wsys" where
  "demo_joining = the (wexecs [Stop, Stop, Stop] demo_busy)"

lemma demo_joining_reachable: "worker_reachable demo_joining"
proof (rule wexecs_reachable [OF demo_busy_reachable])
  show "wexecs [Stop, Stop, Stop] demo_busy = Some demo_joining"
    by (simp add: wexec_eval demo_busy_def demo_joining_def)
qed

theorem worker_jobs_conserved_witness:
  "mset (put_jobs demo_busy) = mset (executed (wrk demo_busy)) + mset (freed (wrk demo_busy)) + mset (leaked (wrk demo_busy))
         + mset (polled demo_busy) + mset (in_hand (pc demo_busy)) + mset (bq_view (job_queue (wrk demo_busy)))
     \<and> subseq (executed (wrk demo_busy) @ in_hand (pc demo_busy) @ bq_view (job_queue (wrk demo_busy)))
         (put_jobs demo_busy)"
  by (rule worker_jobs_conserved [OF demo_busy_reachable])

theorem worker_stop_returns_witness: "fst (worker_run 4 (pc demo_joining, wrk demo_joining)) = Ended"
  by (rule worker_stop_returns [OF demo_joining_reachable])
    (simp_all add: wexec_eval demo_busy_def demo_joining_def)

theorem worker_fifo_alive_witness:
  "put_jobs demo_busy = executed (wrk demo_busy) @ in_hand (pc demo_busy) @ bq_view (job_queue (wrk demo_busy))
     \<and> freed (wrk demo_busy) = [] \<and> leaked (wrk demo_busy) = [] \<and> \<not> crashed (pc demo_busy)
     \<and> sem (job_queue (wrk demo_busy)) + posting demo_busy + (if pc demo_busy = Popping then 1 else 0)
         = length (bq_view (job_queue (wrk demo_busy)))
     \<and> (if pc demo_busy = Ended then executed (wrk demo_busy) \<noteq> [] \<and>
          map_option (\<lambda>l. l (last (executed (wrk demo_busy)))) (listener (wrk demo_busy)) = Some False else True)"
  by (rule worker_fifo_alive [OF demo_busy_reachable]) (simp_all add: wexec_eval demo_busy_def)

theorem worker_drains_witness:
  "\<exists>n w'. n \<le> 6 * length (bq_view (job_queue (wrk demo_busy))) + 4
    \<and> worker_run n (pc demo_busy, wrk demo_busy) = (Waiting, w')
    \<and> executed w' = put_jobs demo_busy \<and> bq_view (job_queue w') = []"
  by (rule worker_drains [OF demo_busy_reachable, where l = "\<lambda>_. True"])
    (simp_all add: wexec_eval demo_busy_def list_all_def)

subsection \<open>Disposing of a worker\<close>

lemma delete_job_logs:
  "freed (delete_job w j) = freed w @ (if job_delete_listener w then [j] else [])"
  "leaked (delete_job w j) = leaked w @ (if job_delete_listener w then [] else [j])"
  "job_delete_listener (delete_job w j) = job_delete_listener w"
  by (simp_all add: delete_job_def)

lemma dispose_loop_jobs:
  "bq_inv (job_queue w) \<Longrightarrow> bq_view (job_queue (dispose_loop w)) = []
    \<and> freed (dispose_loop w) = freed w @ (if job_delete_listener w then bq_view (job_queue w) else [])
    \<and> leaked (dispose_loop w) = leaked w @ (if job_delete_listener w then [] else bq_view (job_queue w))
    \<and> executed (dispose_loop w) = executed w \<and> is_running (dispose_loop w) = is_running w"
proof (induction w rule: dispose_loop.induct)
  case (1 w)
  obtain job q where Pair: "TinyBlockingQueue_Poll (job_queue w) = (job, q)" by fastforce
  have q: "bq_inv q" "bq_view q = tl (bq_view (job_queue w))"
    using bq_inv_ops(2) [OF 1(2)] bq_view_ops(2) [OF 1(2)] Pair by simp_all
  have h: "job = (case bq_view (job_queue w) of [] \<Rightarrow> None | j # _ \<Rightarrow> Some j)"
    using poll_head [OF 1(2)] Pair by simp
  show ?case
  proof (cases "bq_view (job_queue w)")
    case Nil
    with h q Pair show ?thesis by (simp add: dispose_loop.simps [of w])
  next
    case (Cons j js)
    with h have job: "job = Some j" by simp
    from Pair job Cons q 1(1) [OF Pair [symmetric] job] show ?thesis
      by (simp add: dispose_loop.simps [of w] delete_job_logs)
  qed
qed

text \<open>
  Disposing of a worker empties its queue and gives every queued job to the job delete
  listener, in order; without a listener those jobs are dropped. Nothing is executed, and the
  worker is stopped afterwards.
\<close>

theorem worker_dispose:
  assumes "bq_inv (job_queue w)"
  shows "bq_view (job_queue (snd (TinyWorker_Dispose w))) = []
    \<and> freed (snd (TinyWorker_Dispose w)) = freed w @ (if job_delete_listener w then bq_view (job_queue w) else [])
    \<and> leaked (snd (TinyWorker_Dispose w)) = leaked w @ (if job_delete_listener w then [] else bq_view (job_queue w))
    \<and> executed (snd (TinyWorker_Dispose w)) = executed w \<and> \<not> TinyWorker_IsStarted (snd (TinyWorker_Dispose w))"
proof -
  let ?w = "if is_running w then snd (TinyWorker_Stop w) else w"
  have w: "bq_inv (job_queue ?w)" "bq_view (job_queue ?w) = bq_view (job_queue w)" "freed ?w = freed w"
      "leaked ?w = leaked w" "executed ?w = executed w" "job_delete_listener ?w = job_delete_listener w"
      "\<not> is_running ?w"
    using assms by (simp_all add: TinyWorker_Stop_def stop_defs)
  show ?thesis
    using dispose_loop_jobs [OF w(1)] unfolding w
    by (simp add: TinyWorker_Dispose_def Let_def TinyBlockingQueue_Dispose_def TinyQueue_Dispose_def
        bq_view_def queue_view_def L_RemoveAll_def TinyWorker_IsStarted_def w(7))
qed

theorem worker_dispose_witness:
  "bq_view (job_queue (snd (TinyWorker_Dispose (wrk demo_busy)))) = []
    \<and> freed (snd (TinyWorker_Dispose (wrk demo_busy))) = freed (wrk demo_busy)
        @ (if job_delete_listener (wrk demo_busy) then bq_view (job_queue (wrk demo_busy)) else [])
    \<and> leaked (snd (TinyWorker_Dispose (wrk demo_busy))) = leaked (wrk demo_busy)
        @ (if job_delete_listener (wrk demo_busy) then [] else bq_view (job_queue (wrk demo_busy)))
    \<and> executed (snd (TinyWorker_Dispose (wrk demo_busy))) = executed (wrk demo_busy)
    \<and> \<not> TinyWorker_IsStarted (snd (TinyWorker_Dispose (wrk demo_busy)))"
  by (rule worker_dispose) (use reachable_inv [OF demo_busy_reachable] in \<open>simp add: jobs_inv_def\<close>)

end
