(* ===== verification/ListLoops.thy ===== *)
theory ListLoops
  imports Containers
begin

section \<open>Loops over lists and maps\<close>

text \<open>
  The loops many components share: looking an element up by a name it holds, and walking a
  map by position. The lemmas say what such a loop computes on a well-formed container.
\<close>

subsection \<open>Looking up a list element by name\<close>

text \<open>
  The loop the model shares: from position \<open>i\<close> on, among \<open>n\<close>, the first element whose name
  is the given string, with its position. \<open>name_of\<close> reads the name of an element.
\<close>

fun find_named :: "('a \<Rightarrow> string option) \<Rightarrow> 'a lspec \<Rightarrow> string \<Rightarrow> int \<Rightarrow> nat \<Rightarrow> (int \<times> 'a) option option" where
  "find_named name_of l str i 0 = Some None"
| "find_named name_of l str i (Suc n) = do {
     x \<leftarrow> L_GetAt l i;
     s \<leftarrow> name_of x;
     if STR_EQUAL s str then Some (Some (i, x)) else find_named name_of l str (i + 1) n }"

definition lookup_named :: "('a \<Rightarrow> string option) \<Rightarrow> 'a lspec \<Rightarrow> string option \<Rightarrow> 'a option option" where
  "lookup_named name_of l str = (case str of
       None \<Rightarrow> Some None
     | Some s \<Rightarrow> map_option (map_option snd) (find_named name_of l s 0 (unat (word_of_int (L_GetCount l) :: 32 word))))"

subsection \<open>What a lookup finds\<close>

definition named_ok :: "('a \<Rightarrow> string option) \<Rightarrow> 'a lspec \<Rightarrow> bool" where
  "named_ok name_of l \<longleftrightarrow> None \<notin> set (items l) \<and> count_ok l \<and> length (items l) < 2 ^ 31
     \<and> list_all (\<lambda>x. name_of x \<noteq> None) (map the (items l))"

lemma L_count_nat: "count_ok l \<Longrightarrow> length (items l) < 2 ^ 31 \<Longrightarrow> L_GetCount l = int (length (items l))"
  by (simp add: L_GetCount_def count_ok_def signed_of_nat signed_take_bit_int_eq_self)

lemma L_count_word: "count_ok l \<Longrightarrow> length (items l) < 2 ^ 31 \<Longrightarrow>
    unat (word_of_int (L_GetCount l) :: 32 word) = length (items l)"
  by (simp add: L_count_nat unat_word_of_nat)

fun first_named :: "('a \<Rightarrow> string option) \<Rightarrow> string \<Rightarrow> int \<Rightarrow> 'a list \<Rightarrow> (int \<times> 'a) option" where
  "first_named name_of s i [] = None"
| "first_named name_of s i (x # xs) = (if name_of x = Some s then Some (i, x) else first_named name_of s (i + 1) xs)"

lemma items_present: "None \<notin> set ds \<Longrightarrow> ds = map Some (map the ds)"
  by (induction ds) auto

lemma find_named_drop:
  assumes "items l = map Some zs" and "list_all (\<lambda>x. name_of x \<noteq> None) zs" and "i + n = length zs"
  shows "find_named name_of l s (int i) n = Some (first_named name_of s (int i) (drop i zs))"
  using assms(3)
proof (induction n arbitrary: i)
  case (Suc n)
  then have i: "i < length zs" by simp
  have x: "L_GetAt l (int i) = Some (zs ! i)" using i assms(1) by (simp add: L_GetAt_def nth_int_of_nat)
  obtain t where t: "name_of (zs ! i) = Some t" using assms(2) i by (auto simp: list_all_length)
  have d: "drop i zs = zs ! i # drop (Suc i) zs" using i by (rule Cons_nth_drop_Suc [symmetric])
  have IH: "find_named name_of l s (int i + 1) n = Some (first_named name_of s (int i + 1) (drop (Suc i) zs))"
    using Suc.IH [of "Suc i"] Suc.prems by (simp add: add.commute)
  show ?case unfolding d using x t IH by (simp add: STR_EQUAL_def)
qed simp

lemma find_named_first:
  assumes "named_ok name_of l"
  shows "find_named name_of l s 0 (unat (word_of_int (L_GetCount l) :: 32 word)) =
    Some (first_named name_of s 0 (map the (items l)))"
  using assms find_named_drop [of l "map the (items l)" name_of 0 "length (items l)" s] items_present [of "items l"]
  by (simp add: named_ok_def L_count_word)

lemma first_named_find: "map_option snd (first_named name_of s i xs) = List.find (\<lambda>x. name_of x = Some s) xs"
  by (induction name_of s i xs rule: first_named.induct) auto

lemma lookup_named_find:
  "named_ok name_of l \<Longrightarrow>
     lookup_named name_of l (Some s) = Some (List.find (\<lambda>x. name_of x = Some s) (map the (items l)))"
  by (simp add: lookup_named_def find_named_first first_named_find)

lemma named_ok_append:
  assumes "named_ok name_of l" and "name_of x \<noteq> None" and "length (items l) < 2 ^ 31 - 1"
  shows "named_ok name_of (snd (L_AddTail True (Some x) l))"
  using assms by (auto simp: named_ok_def L_AddTail_def count_ok_def)

text \<open>Finding the first element with a name splits the list around it.\<close>

lemma first_named_split:
  "case first_named name_of s i zs of
     None \<Rightarrow> list_all (\<lambda>x. name_of x \<noteq> Some s) zs
   | Some (j, x) \<Rightarrow> \<exists>xs ys. zs = xs @ x # ys \<and> j = i + int (length xs)
       \<and> list_all (\<lambda>x. name_of x \<noteq> Some s) xs \<and> name_of x = Some s"
proof (induction name_of s i zs rule: first_named.induct)
  case (2 name_of s i z zs)
  show ?case
  proof (cases "name_of z = Some s")
    case True
    then show ?thesis by (auto intro: exI [of _ "[]"])
  next
    case False
    note IH = 2 [OF False]
    show ?thesis
    proof (cases "first_named name_of s (i + 1) zs")
      case None
      with IH False show ?thesis by simp
    next
      case (Some r)
      with IH obtain xs ys where "zs = xs @ snd r # ys" "fst r = i + 1 + int (length xs)"
          "list_all (\<lambda>x. name_of x \<noteq> Some s) xs" "name_of (snd r) = Some s"
        by (cases r) auto
      with Some False show ?thesis
        by (cases r) (simp, intro exI [of _ "z # xs"] exI [of _ ys], simp)
    qed
  qed
qed simp

lemma first_named_extract:
  "first_named name_of s i zs = (case List.extract (\<lambda>x. name_of x = Some s) zs of
     None \<Rightarrow> None | Some (xs, x, ys) \<Rightarrow> Some (i + int (length xs), x))"
  by (induction name_of s i zs rule: first_named.induct)
     (auto simp: extract_Cons_code extract_Nil_code split: option.splits)

subsection \<open>Walking a map by position\<close>

text \<open>The loop from position \<open>i\<close> over \<open>n\<close> values; the body gets what \<open>TinyMap_GetValueAt\<close> returned.\<close>

fun value_loop :: "'v tmap \<Rightarrow> ('v option \<Rightarrow> 's \<Rightarrow> 's option) \<Rightarrow> 32 word \<Rightarrow> nat \<Rightarrow> 's \<Rightarrow> 's option" where
  "value_loop m f i 0 s = Some s"
| "value_loop m f i (Suc n) s = Option.bind (f (TinyMap_GetValueAt m i) s) (value_loop m f (i + 1) n)"

subsection \<open>Maps as lists\<close>

lemma map_erase_split:
  assumes "map_inv m" and "TinyMap_GetValue m (Some k) = Some w"
  shows "\<exists>xs key ys. map_entries m = xs @ (key, w) # ys
    \<and> map_entries (snd (TinyMap_Erase m (Some k))) = xs @ ys"
proof -
  let ?es = "map_entries m" and ?i = "key_index k (map_entries m)"
  note e = map_erase_entries [OF assms]
  then have i: "nat ?i < length ?es" using key_index_less [of k ?es] by linarith
  have "map_of ?es (field_cpy MAX_KEY_LEN k) = Some w" using map_lookup [OF assms(1)] assms(2) by simp
  moreover have "nth_int ?es ?i = Some (?es ! nat ?i)" using e i by (simp add: nth_int_def)
  ultimately have w: "snd (?es ! nat ?i) = w" using key_index_map_of [of ?es k] by simp
  have "?es = take (nat ?i) ?es @ (?es ! nat ?i) # drop (Suc (nat ?i)) ?es" using i by (rule id_take_nth_drop)
  then have "?es = take (nat ?i) ?es @ (fst (?es ! nat ?i), w) # drop (Suc (nat ?i)) ?es" using w by (metis prod.collapse)
  moreover have "map_entries (snd (TinyMap_Erase m (Some k))) = take (nat ?i) ?es @ drop (Suc (nat ?i)) ?es"
    using e by (simp add: map_entries_def map_remove_int remove_int_def take_map drop_map Suc_nat_eq_nat_zadd1 add.commute)
  ultimately show ?thesis by blast
qed

lemma value_at_word:
  assumes "map_inv m" and "n < length (map_entries m)" and "length (map_entries m) < 2 ^ 31"
  shows "TinyMap_GetValueAt m (word_of_nat n) = Some (snd (map_entries m ! n))"
proof -
  have n: "n < 2 ^ 31" using assms by simp
  have "items (mlist m) ! n \<noteq> None" using assms by (auto simp: map_inv_def map_entries_def in_set_conv_nth)
  moreover have "sint (word_of_nat n :: 32 word) = int n"
    using n by (simp add: signed_of_nat signed_take_bit_int_eq_self)
  ultimately show ?thesis
    using assms(2) by (auto simp: TinyMap_GetValueAt_def L_GetAt_def nth_int_of_nat map_entries_def)
qed

lemma map_count_word:
  "map_inv m \<Longrightarrow> length (map_entries m) < 2 ^ 31 \<Longrightarrow> unat (TinyMap_GetCount m) = length (map_entries m)"
  by (simp add: TinyMap_GetCount_def TinyMap_GetSize_def map_inv_def map_entries_def L_count_word)

lemma value_loop_from:
  assumes "map_inv m" and "length (map_entries m) < 2 ^ 31"
    and "\<And>x s. x \<in> snd ` set (map_entries m) \<Longrightarrow> f (Some x) s = Some (g x s)"
    and "i + n = length (map_entries m)"
  shows "value_loop m f (word_of_nat i) n s = Some (fold g (map snd (drop i (map_entries m))) s)"
  using assms(4)
proof (induction n arbitrary: i s)
  case (Suc n)
  then have i: "i < length (map_entries m)" by simp
  have d: "drop i (map_entries m) = map_entries m ! i # drop (Suc i) (map_entries m)"
    using i by (rule Cons_nth_drop_Suc [symmetric])
  have "f (Some (snd (map_entries m ! i))) s = Some (g (snd (map_entries m ! i)) s)"
    using i by (intro assms(3)) simp
  moreover have "word_of_nat i + 1 = (word_of_nat (Suc i) :: 32 word)" by simp
  ultimately show ?case
    using Suc.IH [of "Suc i"] Suc.prems unfolding d by (simp add: value_at_word [OF assms(1) i assms(2)] add.commute)
qed simp

lemma value_loop_fold:
  assumes "map_inv m" and "length (map_entries m) < 2 ^ 31"
    and "\<And>x s. x \<in> snd ` set (map_entries m) \<Longrightarrow> f (Some x) s = Some (g x s)"
  shows "value_loop m f 0 (unat (TinyMap_GetCount m)) s = Some (fold g (map snd (map_entries m)) s)"
  using value_loop_from [of m f g 0 "length (map_entries m)" s, OF assms] map_count_word [OF assms(1,2)] by simp

lemma entries_insert:
  "map_inv m \<Longrightarrow> TinyMap_GetValue m (Some k) = None \<Longrightarrow>
    map snd (map_entries (snd (TinyMap_Insert [] m (Some k) (Some v)))) = map snd (map_entries m) @ [v]"
  by (simp add: map_entries_insert)

end
