(* ===== verification/UpnpModel.thy ===== *)
theory UpnpModel
  imports UpnpTimeout DataValue HttpMessage ListLoops
begin

section \<open>Devices, services and actions\<close>

text \<open>
  The description of a device: \<open>UpnpArgument.c\<close>, \<open>UpnpArgumentDirection.c\<close>, \<open>UpnpAction.c\<close>,
  \<open>UpnpService.c\<close> and \<open>UpnpDevice.c\<close>. Devices, services and actions refer to each other
  by pointer (an action to its service, a service to its device), so they live in a store of
  records by address, and the lists of services and actions hold addresses; arguments, state
  variables and subscribers are held by value in the list that owns them. Names are fields
  filled by \<open>strncpy\<close>; a getter is modelled by what its caller reads, which is undefined when
  the field lost its terminator.
\<close>

subsection \<open>Arguments\<close>

datatype arg_direction = ARG_UNKNOWN | ARG_IN | ARG_OUT

definition DIRECTION_UNKNOWN :: string where "DIRECTION_UNKNOWN = ''unknown''"
definition DIRECTION_IN :: string where "DIRECTION_IN = ''in''"
definition DIRECTION_OUT :: string where "DIRECTION_OUT = ''out''"

definition UpnpArgumentDirection_Retrieve :: "string option \<Rightarrow> arg_direction" where
  "UpnpArgumentDirection_Retrieve str = (case str of None \<Rightarrow> ARG_UNKNOWN
     | Some s \<Rightarrow> if STR_EQUAL s DIRECTION_IN then ARG_IN
                 else if STR_EQUAL s DIRECTION_OUT then ARG_OUT else ARG_UNKNOWN)"

fun UpnpArgumentDirection_ToString :: "arg_direction \<Rightarrow> string" where
  "UpnpArgumentDirection_ToString ARG_IN = DIRECTION_IN"
| "UpnpArgumentDirection_ToString ARG_OUT = DIRECTION_OUT"
| "UpnpArgumentDirection_ToString ARG_UNKNOWN = DIRECTION_UNKNOWN"

definition UpnpArgument_NAME_LEN :: nat where "UpnpArgument_NAME_LEN = 128"
definition VARIABLE_NAME_LEN :: nat where "VARIABLE_NAME_LEN = 128"

record upnp_argument =
  arg_name :: string
  direction :: arg_direction
  relatedStateVariable :: string

definition UpnpArgument_Construct :: "string \<Rightarrow> arg_direction \<Rightarrow> string \<Rightarrow> tiny_ret \<times> upnp_argument" where
  "UpnpArgument_Construct name dir related = (TINY_RET_OK,
     \<lparr>arg_name = field_cpy UpnpArgument_NAME_LEN name, direction = dir,
      relatedStateVariable = field_cpy VARIABLE_NAME_LEN related\<rparr>)"

definition UpnpArgument_New :: "bool \<Rightarrow> string \<Rightarrow> arg_direction \<Rightarrow> string \<Rightarrow> upnp_argument option" where
  "UpnpArgument_New malloc_ok name dir related =
     (if malloc_ok then (case UpnpArgument_Construct name dir related of
        (ret, a) \<Rightarrow> if RET_FAILED ret then None else Some a) else None)"

definition UpnpArgument_SetDirection :: "upnp_argument \<Rightarrow> arg_direction \<Rightarrow> tiny_ret \<times> upnp_argument" where
  "UpnpArgument_SetDirection a dir = (TINY_RET_OK, a\<lparr>direction := dir\<rparr>)"

definition UpnpArgument_GetDirection :: "upnp_argument \<Rightarrow> arg_direction" where
  "UpnpArgument_GetDirection a = direction a"

definition UpnpArgument_SetName :: "upnp_argument \<Rightarrow> string option \<Rightarrow> tiny_ret \<times> upnp_argument" where
  "UpnpArgument_SetName a str = (case str of
       None \<Rightarrow> (TINY_RET_E_ARG_NULL, a)
     | Some x \<Rightarrow> (TINY_RET_OK, a\<lparr>arg_name := field_cpy UpnpArgument_NAME_LEN x\<rparr>))"

definition UpnpArgument_SetRelatedStateVariable :: "upnp_argument \<Rightarrow> string option \<Rightarrow> tiny_ret \<times> upnp_argument" where
  "UpnpArgument_SetRelatedStateVariable a str = (case str of
       None \<Rightarrow> (TINY_RET_E_ARG_NULL, a)
     | Some x \<Rightarrow> (TINY_RET_OK, a\<lparr>relatedStateVariable := field_cpy VARIABLE_NAME_LEN x\<rparr>))"

definition UpnpArgument_GetName :: "upnp_argument \<Rightarrow> string option" where
  "UpnpArgument_GetName a = read_field UpnpArgument_NAME_LEN (arg_name a)"

definition UpnpArgument_GetRelatedStateVariable :: "upnp_argument \<Rightarrow> string option" where
  "UpnpArgument_GetRelatedStateVariable a = read_field VARIABLE_NAME_LEN (relatedStateVariable a)"

subsection \<open>Actions\<close>

definition NAME_LEN :: nat where "NAME_LEN = 128"

record upnp_action =
  act_service :: "addr option"
  act_name :: string
  argumentList :: "upnp_argument lspec"

definition UpnpAction_Construct :: "tiny_ret \<times> upnp_action" where
  "UpnpAction_Construct = (TINY_RET_OK,
     \<lparr>act_service = None, act_name = [], argumentList = L_SetDeleteListener True L_new\<rparr>)"

definition UpnpAction_New :: "bool \<Rightarrow> upnp_action option" where
  "UpnpAction_New malloc_ok = (if malloc_ok then (case UpnpAction_Construct of
     (ret, a) \<Rightarrow> if RET_FAILED ret then None else Some a) else None)"

definition UpnpAction_Dispose :: "upnp_action \<Rightarrow> upnp_action" where
  "UpnpAction_Dispose a = a\<lparr>argumentList := snd (L_RemoveAll (argumentList a))\<rparr>"

definition UpnpAction_SetParentService :: "upnp_action \<Rightarrow> addr option \<Rightarrow> upnp_action" where
  "UpnpAction_SetParentService a service = (if service = None then a else a\<lparr>act_service := service\<rparr>)"

definition UpnpAction_GetParentService :: "upnp_action \<Rightarrow> addr option" where
  "UpnpAction_GetParentService a = act_service a"

definition UpnpAction_SetName :: "upnp_action \<Rightarrow> string option \<Rightarrow> tiny_ret \<times> upnp_action" where
  "UpnpAction_SetName a str = (case str of
       None \<Rightarrow> (TINY_RET_E_ARG_NULL, a)
     | Some x \<Rightarrow> (TINY_RET_OK, a\<lparr>act_name := field_cpy NAME_LEN x\<rparr>))"

definition UpnpAction_GetName :: "upnp_action \<Rightarrow> string option" where
  "UpnpAction_GetName a = read_field NAME_LEN (act_name a)"

definition UpnpAction_AddArgument :: "bool \<Rightarrow> upnp_action \<Rightarrow> upnp_argument option \<Rightarrow> tiny_ret \<times> upnp_action" where
  "UpnpAction_AddArgument ok a argument = (case argument of
       None \<Rightarrow> (TINY_RET_E_ARG_NULL, a)
     | Some x \<Rightarrow> (case L_AddTail ok (Some x) (argumentList a) of (ret, l) \<Rightarrow> (ret, a\<lparr>argumentList := l\<rparr>)))"

definition UpnpAction_GetArgumentCount :: "upnp_action \<Rightarrow> 32 word" where
  "UpnpAction_GetArgumentCount a = word_of_int (L_GetCount (argumentList a))"

definition UpnpAction_GetArgumentAt :: "upnp_action \<Rightarrow> 32 word \<Rightarrow> upnp_argument option" where
  "UpnpAction_GetArgumentAt a index = L_GetAt (argumentList a) (sint index)"

definition UpnpAction_GetArgument :: "upnp_action \<Rightarrow> string option \<Rightarrow> upnp_argument option option" where
  "UpnpAction_GetArgument a name = lookup_named UpnpArgument_GetName (argumentList a) name"

definition UpnpAction_GetArgumentRelatedStateVariable :: "upnp_action \<Rightarrow> string option \<Rightarrow> string option option" where
  "UpnpAction_GetArgumentRelatedStateVariable a name = do {
     found \<leftarrow> UpnpAction_GetArgument a name;
     case found of None \<Rightarrow> Some None | Some x \<Rightarrow> map_option Some (UpnpArgument_GetRelatedStateVariable x) }"

subsection \<open>Services\<close>

definition SERVICE_TYPE_LEN :: nat where "SERVICE_TYPE_LEN = 128"
definition SERVICE_ID_LEN :: nat where "SERVICE_ID_LEN = 128"
definition TINY_URI_LEN :: nat where "TINY_URI_LEN = 1024"

text \<open>
  A state variable in a service's table knows its service. Of the changed listener only its
  presence matters to the service; the one function ever installed is the provider's.
\<close>

record 'f service_variable = "'f state_variable" +
  sv_service :: "addr option"

record 'f upnp_service =
  serviceType :: string
  serviceId :: string
  controlURL :: string
  eventSubURL :: string
  SCPDURL :: string
  callbackURI :: string
  srv_device :: "addr option"
  actionList :: "addr lspec"
  stateVariableTable :: "'f service_variable lspec"
  changedListener :: bool
  subscriberList :: "subscriber lspec"

definition UpnpService_Construct :: "tiny_ret \<times> 'f upnp_service" where
  "UpnpService_Construct = (TINY_RET_OK,
     \<lparr>serviceType = [], serviceId = [], controlURL = [], eventSubURL = [], SCPDURL = [], callbackURI = [],
      srv_device = None, actionList = L_SetDeleteListener True L_new,
      stateVariableTable = L_SetDeleteListener True L_new, changedListener = False,
      subscriberList = L_SetDeleteListener True L_new\<rparr>)"

definition UpnpService_New :: "bool \<Rightarrow> 'f upnp_service option" where
  "UpnpService_New malloc_ok = (if malloc_ok then (case UpnpService_Construct of
     (ret, s) \<Rightarrow> if RET_FAILED ret then None else Some s) else None)"

definition UpnpService_Dispose :: "'f upnp_service \<Rightarrow> 'f upnp_service" where
  "UpnpService_Dispose s = s\<lparr>subscriberList := snd (L_RemoveAll (subscriberList s)),
     stateVariableTable := snd (L_RemoveAll (stateVariableTable s)), actionList := snd (L_RemoveAll (actionList s))\<rparr>"

definition UpnpService_SetParentDevice :: "'f upnp_service \<Rightarrow> addr option \<Rightarrow> 'f upnp_service" where
  "UpnpService_SetParentDevice s device = (if device = None then s else s\<lparr>srv_device := device\<rparr>)"

definition UpnpService_GetParentDevice :: "'f upnp_service \<Rightarrow> addr option" where
  "UpnpService_GetParentDevice s = srv_device s"

definition UpnpService_SetChangedListener :: "'f upnp_service \<Rightarrow> bool \<Rightarrow> 'f upnp_service" where
  "UpnpService_SetChangedListener s l = s\<lparr>changedListener := l\<rparr>"

definition UpnpService_SetServiceType :: "'f upnp_service \<Rightarrow> string option \<Rightarrow> tiny_ret \<times> 'f upnp_service" where
  "UpnpService_SetServiceType s str = (case str of
       None \<Rightarrow> (TINY_RET_E_ARG_NULL, s)
     | Some x \<Rightarrow> (TINY_RET_OK, s\<lparr>serviceType := field_cpy SERVICE_TYPE_LEN x\<rparr>))"

definition UpnpService_SetServiceId :: "'f upnp_service \<Rightarrow> string option \<Rightarrow> tiny_ret \<times> 'f upnp_service" where
  "UpnpService_SetServiceId s str = (case str of
       None \<Rightarrow> (TINY_RET_E_ARG_NULL, s)
     | Some x \<Rightarrow> (TINY_RET_OK, s\<lparr>serviceId := field_cpy SERVICE_ID_LEN x\<rparr>))"

definition UpnpService_SetControlURL :: "'f upnp_service \<Rightarrow> string option \<Rightarrow> tiny_ret \<times> 'f upnp_service" where
  "UpnpService_SetControlURL s str = (case str of
       None \<Rightarrow> (TINY_RET_E_ARG_NULL, s)
     | Some x \<Rightarrow> (TINY_RET_OK, s\<lparr>controlURL := field_cpy TINY_URL_LEN x\<rparr>))"

definition UpnpService_SetEventSubURL :: "'f upnp_service \<Rightarrow> string option \<Rightarrow> tiny_ret \<times> 'f upnp_service" where
  "UpnpService_SetEventSubURL s str = (case str of
       None \<Rightarrow> (TINY_RET_E_ARG_NULL, s)
     | Some x \<Rightarrow> (TINY_RET_OK, s\<lparr>eventSubURL := field_cpy TINY_URL_LEN x\<rparr>))"

definition UpnpService_SetSCPDURL :: "'f upnp_service \<Rightarrow> string option \<Rightarrow> tiny_ret \<times> 'f upnp_service" where
  "UpnpService_SetSCPDURL s str = (case str of
       None \<Rightarrow> (TINY_RET_E_ARG_NULL, s)
     | Some x \<Rightarrow> (TINY_RET_OK, s\<lparr>SCPDURL := field_cpy TINY_URL_LEN x\<rparr>))"

definition UpnpService_SetCallbackURI :: "'f upnp_service \<Rightarrow> string option \<Rightarrow> tiny_ret \<times> 'f upnp_service" where
  "UpnpService_SetCallbackURI s str = (case str of
       None \<Rightarrow> (TINY_RET_E_ARG_NULL, s)
     | Some x \<Rightarrow> (TINY_RET_OK, s\<lparr>callbackURI := field_cpy TINY_URI_LEN x\<rparr>))"

definition UpnpService_GetServiceType :: "'f upnp_service \<Rightarrow> string option" where
  "UpnpService_GetServiceType s = read_field SERVICE_TYPE_LEN (serviceType s)"

definition UpnpService_GetServiceId :: "'f upnp_service \<Rightarrow> string option" where
  "UpnpService_GetServiceId s = read_field SERVICE_ID_LEN (serviceId s)"

definition UpnpService_GetControlURL :: "'f upnp_service \<Rightarrow> string option" where
  "UpnpService_GetControlURL s = read_field TINY_URL_LEN (controlURL s)"

definition UpnpService_GetEventSubURL :: "'f upnp_service \<Rightarrow> string option" where
  "UpnpService_GetEventSubURL s = read_field TINY_URL_LEN (eventSubURL s)"

definition UpnpService_GetSCPDURL :: "'f upnp_service \<Rightarrow> string option" where
  "UpnpService_GetSCPDURL s = read_field TINY_URL_LEN (SCPDURL s)"

definition UpnpService_GetCallbackURI :: "'f upnp_service \<Rightarrow> string option" where
  "UpnpService_GetCallbackURI s = read_field TINY_URI_LEN (callbackURI s)"

definition UpnpService_GetActionCount :: "'f upnp_service \<Rightarrow> 32 word" where
  "UpnpService_GetActionCount s = word_of_int (L_GetCount (actionList s))"

definition UpnpService_GetActionAt :: "'f upnp_service \<Rightarrow> 32 word \<Rightarrow> addr option" where
  "UpnpService_GetActionAt s index = L_GetAt (actionList s) (sint index)"

text \<open>The address of the service itself is an argument where the code stores \<open>thiz\<close>.\<close>

definition UpnpService_AddStateVariable ::
    "bool \<Rightarrow> addr \<Rightarrow> 'f upnp_service \<Rightarrow> 'f service_variable option \<Rightarrow> tiny_ret \<times> 'f upnp_service" where
  "UpnpService_AddStateVariable ok thiz s stateVariable = (case stateVariable of
       None \<Rightarrow> (TINY_RET_E_ARG_NULL, s)
     | Some v \<Rightarrow> (case L_AddTail ok (Some (v\<lparr>sv_service := Some thiz\<rparr>)) (stateVariableTable s) of
         (ret, l) \<Rightarrow> (ret, s\<lparr>stateVariableTable := l\<rparr>)))"

definition UpnpService_GetStateVariableCount :: "'f upnp_service \<Rightarrow> 32 word" where
  "UpnpService_GetStateVariableCount s = word_of_int (L_GetCount (stateVariableTable s))"

definition UpnpService_GetStateVariableAt :: "'f upnp_service \<Rightarrow> 32 word \<Rightarrow> 'f service_variable option" where
  "UpnpService_GetStateVariableAt s index = L_GetAt (stateVariableTable s) (sint index)"

definition variable_name :: "'f service_variable \<Rightarrow> string option" where
  "variable_name v = read_field STATE_VARIABLE_NAME_LEN (var_name (sv_def v))"

definition UpnpService_GetStateVariable ::
    "'f upnp_service \<Rightarrow> string option \<Rightarrow> 'f service_variable option option" where
  "UpnpService_GetStateVariable s stateName = lookup_named variable_name (stateVariableTable s) stateName"

definition UpnpService_AddSubscriber :: "bool \<Rightarrow> 'f upnp_service \<Rightarrow> subscriber option \<Rightarrow> tiny_ret \<times> 'f upnp_service" where
  "UpnpService_AddSubscriber ok s subscriber = (case subscriber of
       None \<Rightarrow> (TINY_RET_E_ARG_NULL, s)
     | Some x \<Rightarrow> (case L_AddTail ok (Some x) (subscriberList s) of (ret, l) \<Rightarrow> (ret, s\<lparr>subscriberList := l\<rparr>)))"

definition UpnpService_RemoveSubscriber :: "'f upnp_service \<Rightarrow> string option \<Rightarrow> (tiny_ret \<times> 'f upnp_service) option" where
  "UpnpService_RemoveSubscriber s sid = (case sid of
       None \<Rightarrow> Some (TINY_RET_E_ARG_NULL, s)
     | Some str \<Rightarrow> do {
         found \<leftarrow> find_named UpnpSubscriber_GetSid (subscriberList s) str 0
           (unat (word_of_int (L_GetCount (subscriberList s)) :: 32 word));
         case found of
           None \<Rightarrow> Some (TINY_RET_E_NOT_FOUND, s)
         | Some (i, _) \<Rightarrow> (case L_RemoveAt i (subscriberList s) of (ret, l) \<Rightarrow> Some (ret, s\<lparr>subscriberList := l\<rparr>)) })"

definition UpnpService_GetSubscriberCount :: "'f upnp_service \<Rightarrow> 32 word" where
  "UpnpService_GetSubscriberCount s = word_of_int (L_GetCount (subscriberList s))"

definition UpnpService_GetSubscriberAt :: "'f upnp_service \<Rightarrow> 32 word \<Rightarrow> subscriber option" where
  "UpnpService_GetSubscriberAt s index = L_GetAt (subscriberList s) (sint index)"

definition UpnpService_GetSubscriber :: "'f upnp_service \<Rightarrow> string option \<Rightarrow> subscriber option option" where
  "UpnpService_GetSubscriber s callback = lookup_named UpnpSubscriber_GetCallback (subscriberList s) callback"

text \<open>
  The scan of \<open>UpnpService_SendEvents\<close>: is there an evented variable that changed. The result
  of the function is its code and whether it called the listener.
\<close>

fun changed_loop :: "'f service_variable lspec \<Rightarrow> int \<Rightarrow> nat \<Rightarrow> bool option" where
  "changed_loop l i 0 = Some False"
| "changed_loop l i (Suc n) = do {
     v \<leftarrow> L_GetAt l i;
     if send_events v \<and> is_changed v then Some True else changed_loop l (i + 1) n }"

definition UpnpService_SendEvents :: "'f upnp_service \<Rightarrow> (tiny_ret \<times> bool) option" where
  "UpnpService_SendEvents s =
     (if \<not> changedListener s then Some (TINY_RET_OK, False)
      else map_option (\<lambda>b. (TINY_RET_OK, b)) (changed_loop (stateVariableTable s) 0 (nat (L_GetCount (stateVariableTable s)))))"

subsection \<open>Devices\<close>

definition UDN_LEN :: nat where "UDN_LEN = 128"
definition FriendlyName_LEN :: nat where "FriendlyName_LEN = 128"
definition DeviceType_LEN :: nat where "DeviceType_LEN = 128"
definition Manufacturer_LEN :: nat where "Manufacturer_LEN = 128"
definition ModelName_LEN :: nat where "ModelName_LEN = 128"
definition ModelNumber_LEN :: nat where "ModelNumber_LEN = 128"
definition SerialNumber_LEN :: nat where "SerialNumber_LEN = 128"

lemmas model_lens [field_defs] = UpnpArgument_NAME_LEN_def VARIABLE_NAME_LEN_def NAME_LEN_def SERVICE_TYPE_LEN_def
  SERVICE_ID_LEN_def TINY_URI_LEN_def UDN_LEN_def FriendlyName_LEN_def DeviceType_LEN_def Manufacturer_LEN_def
  ModelName_LEN_def ModelNumber_LEN_def SerialNumber_LEN_def

record upnp_device =
  dev_port :: "16 word"
  Address :: string
  dev_uri :: string
  deviceId :: string
  friendlyName :: string
  deviceType :: string
  manufacturer :: string
  manufacturerURL :: string
  modelName :: string
  modelNumber :: string
  modelURL :: string
  serialNumber :: string
  URLBase :: string
  serviceList :: "addr lspec"

definition UpnpDevice_Construct :: "tiny_ret \<times> upnp_device" where
  "UpnpDevice_Construct = (TINY_RET_OK,
     \<lparr>dev_port = 0, Address = [], dev_uri = [], deviceId = [], friendlyName = [], deviceType = [], manufacturer = [],
      manufacturerURL = [], modelName = [], modelNumber = [], modelURL = [], serialNumber = [], URLBase = [],
      serviceList = L_new\<rparr>)"

definition UpnpDevice_New :: "bool \<Rightarrow> upnp_device option" where
  "UpnpDevice_New malloc_ok = (if malloc_ok then (case UpnpDevice_Construct of
     (ret, d) \<Rightarrow> if RET_FAILED ret then None else Some d) else None)"

definition UpnpDevice_Dispose :: "upnp_device \<Rightarrow> upnp_device" where
  "UpnpDevice_Dispose d = d\<lparr>serviceList := snd (L_RemoveAll (serviceList d))\<rparr>"

definition UpnpDevice_SetHttpPort :: "upnp_device \<Rightarrow> 16 word \<Rightarrow> tiny_ret \<times> upnp_device" where
  "UpnpDevice_SetHttpPort d p = (TINY_RET_OK, d\<lparr>dev_port := p\<rparr>)"

definition UpnpDevice_GetHttpPort :: "upnp_device \<Rightarrow> 16 word" where
  "UpnpDevice_GetHttpPort d = dev_port d"

definition UpnpDevice_SetAddress :: "upnp_device \<Rightarrow> string option \<Rightarrow> tiny_ret \<times> upnp_device" where
  "UpnpDevice_SetAddress d str = (case str of
       None \<Rightarrow> (TINY_RET_E_ARG_NULL, d)
     | Some x \<Rightarrow> (TINY_RET_OK, d\<lparr>Address := field_cpy TINY_IP_LEN x\<rparr>))"

definition UpnpDevice_SetURI :: "upnp_device \<Rightarrow> string option \<Rightarrow> tiny_ret \<times> upnp_device" where
  "UpnpDevice_SetURI d str = (case str of
       None \<Rightarrow> (TINY_RET_E_ARG_NULL, d)
     | Some x \<Rightarrow> (TINY_RET_OK, d\<lparr>dev_uri := field_cpy TINY_URI_LEN x\<rparr>))"

definition UpnpDevice_SetDeviceId :: "upnp_device \<Rightarrow> string option \<Rightarrow> tiny_ret \<times> upnp_device" where
  "UpnpDevice_SetDeviceId d str = (case str of
       None \<Rightarrow> (TINY_RET_E_ARG_NULL, d)
     | Some x \<Rightarrow> (TINY_RET_OK, d\<lparr>deviceId := field_cpy UDN_LEN x\<rparr>))"

definition UpnpDevice_SetFriendlyName :: "upnp_device \<Rightarrow> string option \<Rightarrow> tiny_ret \<times> upnp_device" where
  "UpnpDevice_SetFriendlyName d str = (case str of
       None \<Rightarrow> (TINY_RET_E_ARG_NULL, d)
     | Some x \<Rightarrow> (TINY_RET_OK, d\<lparr>friendlyName := field_cpy FriendlyName_LEN x\<rparr>))"

definition UpnpDevice_SetDeviceType :: "upnp_device \<Rightarrow> string option \<Rightarrow> tiny_ret \<times> upnp_device" where
  "UpnpDevice_SetDeviceType d str = (case str of
       None \<Rightarrow> (TINY_RET_E_ARG_NULL, d)
     | Some x \<Rightarrow> (TINY_RET_OK, d\<lparr>deviceType := field_cpy DeviceType_LEN x\<rparr>))"

definition UpnpDevice_SetManufacturer :: "upnp_device \<Rightarrow> string option \<Rightarrow> tiny_ret \<times> upnp_device" where
  "UpnpDevice_SetManufacturer d str = (case str of
       None \<Rightarrow> (TINY_RET_E_ARG_NULL, d)
     | Some x \<Rightarrow> (TINY_RET_OK, d\<lparr>manufacturer := field_cpy Manufacturer_LEN x\<rparr>))"

definition UpnpDevice_SetManufacturerURL :: "upnp_device \<Rightarrow> string option \<Rightarrow> tiny_ret \<times> upnp_device" where
  "UpnpDevice_SetManufacturerURL d str = (case str of
       None \<Rightarrow> (TINY_RET_E_ARG_NULL, d)
     | Some x \<Rightarrow> (TINY_RET_OK, d\<lparr>manufacturerURL := field_cpy TINY_URL_LEN x\<rparr>))"

definition UpnpDevice_SetModelName :: "upnp_device \<Rightarrow> string option \<Rightarrow> tiny_ret \<times> upnp_device" where
  "UpnpDevice_SetModelName d str = (case str of
       None \<Rightarrow> (TINY_RET_E_ARG_NULL, d)
     | Some x \<Rightarrow> (TINY_RET_OK, d\<lparr>modelName := field_cpy ModelName_LEN x\<rparr>))"

definition UpnpDevice_SetModelNumber :: "upnp_device \<Rightarrow> string option \<Rightarrow> tiny_ret \<times> upnp_device" where
  "UpnpDevice_SetModelNumber d str = (case str of
       None \<Rightarrow> (TINY_RET_E_ARG_NULL, d)
     | Some x \<Rightarrow> (TINY_RET_OK, d\<lparr>modelNumber := field_cpy ModelNumber_LEN x\<rparr>))"

definition UpnpDevice_SetModelURL :: "upnp_device \<Rightarrow> string option \<Rightarrow> tiny_ret \<times> upnp_device" where
  "UpnpDevice_SetModelURL d str = (case str of
       None \<Rightarrow> (TINY_RET_E_ARG_NULL, d)
     | Some x \<Rightarrow> (TINY_RET_OK, d\<lparr>modelURL := field_cpy TINY_URL_LEN x\<rparr>))"

definition UpnpDevice_SetSerialNumber :: "upnp_device \<Rightarrow> string option \<Rightarrow> tiny_ret \<times> upnp_device" where
  "UpnpDevice_SetSerialNumber d str = (case str of
       None \<Rightarrow> (TINY_RET_E_ARG_NULL, d)
     | Some x \<Rightarrow> (TINY_RET_OK, d\<lparr>serialNumber := field_cpy SerialNumber_LEN x\<rparr>))"

definition UpnpDevice_SetURLBase :: "upnp_device \<Rightarrow> string option \<Rightarrow> tiny_ret \<times> upnp_device" where
  "UpnpDevice_SetURLBase d str = (case str of
       None \<Rightarrow> (TINY_RET_E_ARG_NULL, d)
     | Some x \<Rightarrow> (TINY_RET_OK, d\<lparr>URLBase := field_cpy TINY_URL_LEN x\<rparr>))"

definition UpnpDevice_GetAddress :: "upnp_device \<Rightarrow> string option" where
  "UpnpDevice_GetAddress d = read_field TINY_IP_LEN (Address d)"

definition UpnpDevice_GetURI :: "upnp_device \<Rightarrow> string option" where
  "UpnpDevice_GetURI d = read_field TINY_URI_LEN (dev_uri d)"

definition UpnpDevice_GetDeviceId :: "upnp_device \<Rightarrow> string option" where
  "UpnpDevice_GetDeviceId d = read_field UDN_LEN (deviceId d)"

definition UpnpDevice_GetFriendlyName :: "upnp_device \<Rightarrow> string option" where
  "UpnpDevice_GetFriendlyName d = read_field FriendlyName_LEN (friendlyName d)"

definition UpnpDevice_GetDeviceType :: "upnp_device \<Rightarrow> string option" where
  "UpnpDevice_GetDeviceType d = read_field DeviceType_LEN (deviceType d)"

definition UpnpDevice_GetManufacturer :: "upnp_device \<Rightarrow> string option" where
  "UpnpDevice_GetManufacturer d = read_field Manufacturer_LEN (manufacturer d)"

definition UpnpDevice_GetManufacturerURL :: "upnp_device \<Rightarrow> string option" where
  "UpnpDevice_GetManufacturerURL d = read_field TINY_URL_LEN (manufacturerURL d)"

definition UpnpDevice_GetModelName :: "upnp_device \<Rightarrow> string option" where
  "UpnpDevice_GetModelName d = read_field ModelName_LEN (modelName d)"

definition UpnpDevice_GetModelNumber :: "upnp_device \<Rightarrow> string option" where
  "UpnpDevice_GetModelNumber d = read_field ModelNumber_LEN (modelNumber d)"

definition UpnpDevice_GetModelURL :: "upnp_device \<Rightarrow> string option" where
  "UpnpDevice_GetModelURL d = read_field TINY_URL_LEN (modelURL d)"

definition UpnpDevice_GetSerialNumber :: "upnp_device \<Rightarrow> string option" where
  "UpnpDevice_GetSerialNumber d = read_field SerialNumber_LEN (serialNumber d)"

definition UpnpDevice_GetURLBase :: "upnp_device \<Rightarrow> string option" where
  "UpnpDevice_GetURLBase d = read_field TINY_URL_LEN (URLBase d)"

definition UpnpDevice_AddService :: "bool \<Rightarrow> upnp_device \<Rightarrow> addr option \<Rightarrow> tiny_ret \<times> upnp_device" where
  "UpnpDevice_AddService ok d service = (case service of
       None \<Rightarrow> (TINY_RET_E_ARG_NULL, d)
     | Some x \<Rightarrow> (case L_AddTail ok (Some x) (serviceList d) of (ret, l) \<Rightarrow> (ret, d\<lparr>serviceList := l\<rparr>)))"

definition UpnpDevice_GetServiceCount :: "upnp_device \<Rightarrow> 32 word" where
  "UpnpDevice_GetServiceCount d = word_of_int (L_GetCount (serviceList d))"

definition UpnpDevice_GetServiceAt :: "upnp_device \<Rightarrow> 32 word \<Rightarrow> addr option" where
  "UpnpDevice_GetServiceAt d index = L_GetAt (serviceList d) (sint index)"

subsection \<open>The store\<close>

record 'f ustore =
  dev_at :: "addr \<Rightarrow> upnp_device option"
  srv_at :: "addr \<Rightarrow> 'f upnp_service option"
  act_at :: "addr \<Rightarrow> upnp_action option"

definition UpnpService_AddAction :: "bool \<Rightarrow> 'f ustore \<Rightarrow> addr \<Rightarrow> addr option \<Rightarrow> (tiny_ret \<times> 'f ustore) option" where
  "UpnpService_AddAction ok u thiz action = (case action of
       None \<Rightarrow> Some (TINY_RET_E_ARG_NULL, u)
     | Some a \<Rightarrow> do {
         act \<leftarrow> act_at u a;
         s \<leftarrow> srv_at u thiz;
         (case L_AddTail ok (Some a) (actionList s) of
           (ret, l) \<Rightarrow> Some (ret, u\<lparr>act_at := (act_at u)(a \<mapsto> UpnpAction_SetParentService act (Some thiz)),
                                srv_at := (srv_at u)(thiz \<mapsto> s\<lparr>actionList := l\<rparr>)\<rparr>)) })"

definition UpnpService_GetAction :: "'f ustore \<Rightarrow> 'f upnp_service \<Rightarrow> string option \<Rightarrow> addr option option" where
  "UpnpService_GetAction u s actionName =
     lookup_named (\<lambda>a. Option.bind (act_at u a) UpnpAction_GetName) (actionList s) actionName"

definition UpnpDevice_GetService :: "'f ustore \<Rightarrow> upnp_device \<Rightarrow> string option \<Rightarrow> addr option option" where
  "UpnpDevice_GetService u d str =
     lookup_named (\<lambda>a. Option.bind (srv_at u a) UpnpService_GetServiceId) (serviceList d) str"

definition UpnpDevice_GetServiceByControlURL :: "'f ustore \<Rightarrow> upnp_device \<Rightarrow> string option \<Rightarrow> addr option option" where
  "UpnpDevice_GetServiceByControlURL u d url =
     lookup_named (\<lambda>a. Option.bind (srv_at u a) UpnpService_GetControlURL) (serviceList d) url"

definition UpnpDevice_GetServiceByEventSubURL :: "'f ustore \<Rightarrow> upnp_device \<Rightarrow> string option \<Rightarrow> addr option option" where
  "UpnpDevice_GetServiceByEventSubURL u d url =
     lookup_named (\<lambda>a. Option.bind (srv_at u a) UpnpService_GetEventSubURL) (serviceList d) url"

subsection \<open>Subscribers of a service\<close>

definition subscribers :: "'f upnp_service \<Rightarrow> subscriber list" where
  "subscribers s = map the (items (subscriberList s))"

definition subscribers_ok :: "'f upnp_service \<Rightarrow> bool" where
  "subscribers_ok s \<longleftrightarrow> named_ok UpnpSubscriber_GetSid (subscriberList s)
     \<and> named_ok UpnpSubscriber_GetCallback (subscriberList s)"

lemma remove_subscriber_extract:
  assumes "named_ok UpnpSubscriber_GetSid (subscriberList s)"
  shows "\<exists>ret s'. UpnpService_RemoveSubscriber s (Some sid) = Some (ret, s')
    \<and> (case List.extract (\<lambda>x. UpnpSubscriber_GetSid x = Some sid) (subscribers s) of
        None \<Rightarrow> ret = TINY_RET_E_NOT_FOUND \<and> s' = s
      | Some (xs, x, ys) \<Rightarrow> ret = TINY_RET_E_POSITION_INVALID \<and> subscribers s' = xs @ ys
          \<and> s' = s\<lparr>subscriberList := subscriberList s'\<rparr>
          \<and> items (subscriberList s') = map Some (xs @ ys) \<and> count_ok (subscriberList s'))"
proof -
  let ?E = "List.extract (\<lambda>x. UpnpSubscriber_GetSid x = Some sid) (subscribers s)"
  have f: "find_named UpnpSubscriber_GetSid (subscriberList s) sid 0
      (unat (word_of_int (L_GetCount (subscriberList s)) :: 32 word)) =
      Some (case ?E of None \<Rightarrow> None | Some (xs, x, ys) \<Rightarrow> Some (int (length xs), x))"
    by (simp add: find_named_first [OF assms] first_named_extract subscribers_def split: option.splits prod.splits)
  show ?thesis
  proof (cases ?E)
    case None
    with f show ?thesis by (simp add: UpnpService_RemoveSubscriber_def)
  next
    case (Some r)
    obtain xs x ys where r: "r = (xs, x, ys)" by (cases r)
    have split: "subscribers s = xs @ x # ys" using Some r by (simp add: extract_Some_iff)
    have "items (subscriberList s) = map Some (subscribers s)"
      using assms items_present [of "items (subscriberList s)"] by (simp add: subscribers_def named_ok_def)
    then have its: "items (subscriberList s) = map Some xs @ Some x # map Some ys" by (simp add: split)
    have rm: "remove_int (items (subscriberList s)) (int (length xs)) = map Some (xs @ ys)"
      using remove_int_append [of "map Some xs" "Some x" "map Some ys"] by (simp add: its)
    have nth: "nth_int (items (subscriberList s)) (int (length xs)) = Some (Some x)"
      by (simp add: its nth_int_def nth_append)
    have "count_ok (snd (L_RemoveAt (int (length xs)) (subscriberList s)))"
      using assms by (auto simp: L_RemoveAt_def nth rm count_ok_def named_ok_def) (simp add: its)
    with f Some r rm show ?thesis
      by (simp add: UpnpService_RemoveSubscriber_def L_RemoveAt_def nth subscribers_def)
  qed
qed

text \<open>
  Removing a subscriber takes away exactly the first one with the given identifier and keeps
  the others in order; without one the service is unchanged and \<open>TINY_RET_E_NOT_FOUND\<close> returned.
  A successful removal is nevertheless reported as \<open>TINY_RET_E_POSITION_INVALID\<close>, the result of
  \<open>TinyList_RemoveAt\<close>.
\<close>

theorem remove_subscriber:
  assumes "named_ok UpnpSubscriber_GetSid (subscriberList s)"
  shows "\<exists>ret s'. UpnpService_RemoveSubscriber s (Some sid) = Some (ret, s')
    \<and> (case List.extract (\<lambda>x. UpnpSubscriber_GetSid x = Some sid) (subscribers s) of
        None \<Rightarrow> ret = TINY_RET_E_NOT_FOUND \<and> s' = s
      | Some (xs, x, ys) \<Rightarrow> ret = TINY_RET_E_POSITION_INVALID \<and> subscribers s' = xs @ ys
          \<and> s' = s\<lparr>subscriberList := subscriberList s'\<rparr>)"
proof -
  show ?thesis
    using remove_subscriber_extract [OF assms, of sid]
    by (cases "List.extract (\<lambda>x. UpnpSubscriber_GetSid x = Some sid) (subscribers s)") auto
qed

definition demo_subscriber :: "string \<Rightarrow> string \<Rightarrow> subscriber" where
  "demo_subscriber sid callback = \<lparr>sub_timeout = 1800, sub_sid = sid, sub_callback = callback\<rparr>"

definition demo_service :: "int upnp_service" where
  "demo_service = (snd UpnpService_Construct)\<lparr>subscriberList :=
     \<lparr>items = [Some (demo_subscriber ''a'' ''x''), Some (demo_subscriber ''b'' ''y'')], count = 2, log = [],
      has_listener = True\<rparr>\<rparr>"

lemma demo_service_ok: "named_ok UpnpSubscriber_GetSid (subscriberList demo_service)"
  by (simp add: named_ok_def demo_service_def demo_subscriber_def UpnpSubscriber_GetSid_def read_field_def
      UPNP_UUID_LEN_def count_ok_def)

theorem remove_subscriber_witness:
  "\<exists>s'. UpnpService_RemoveSubscriber demo_service (Some ''b'') = Some (TINY_RET_E_POSITION_INVALID, s')
    \<and> subscribers s' = [demo_subscriber ''a'' ''x'']"
  using remove_subscriber [OF demo_service_ok, of "''b''"]
  by (auto simp: subscribers_def demo_service_def demo_subscriber_def extract_Cons_code extract_Nil_code
      UpnpSubscriber_GetSid_def read_field_def UPNP_UUID_LEN_def c_str_def)

subsection \<open>Actions of a service\<close>

definition action_name :: "'f ustore \<Rightarrow> addr \<Rightarrow> string option" where
  "action_name u a = Option.bind (act_at u a) UpnpAction_GetName"

lemma action_name_parent:
  "act_at u a = Some act \<Longrightarrow>
    action_name (u\<lparr>act_at := (act_at u)(a \<mapsto> UpnpAction_SetParentService act p), srv_at := f\<rparr>) = action_name u"
  by (auto simp: fun_eq_iff action_name_def UpnpAction_SetParentService_def UpnpAction_GetName_def)

lemma GetAction_find:
  assumes "named_ok (action_name u) (actionList s)"
  shows "UpnpService_GetAction u s (Some n) =
    Some (List.find (\<lambda>a. action_name u a = Some n) (map the (items (actionList s))))"
  using lookup_named_find [OF assms] by (simp add: UpnpService_GetAction_def action_name_def [abs_def])

lemma find_append_some:
  "List.find P (xs @ ys) = (case List.find P xs of Some x \<Rightarrow> Some x | None \<Rightarrow> List.find P ys)"
  by (induction xs) auto

text \<open>
  Adding an action to a service makes the service its parent and the action reachable by its
  name, unless an earlier action already has that name; every other lookup answers as before.
  No lookup reads an unterminated name.
\<close>

theorem add_action_lookup:
  assumes "srv_at u thiz = Some s" and "act_at u a = Some act" and "action_name u a = Some nm"
    and "named_ok (action_name u) (actionList s)" and "length (items (actionList s)) < 2 ^ 31 - 1"
  shows "\<exists>u' s' act'. UpnpService_AddAction True u thiz (Some a) = Some (TINY_RET_OK, u')
    \<and> srv_at u' thiz = Some s' \<and> act_at u' a = Some act' \<and> UpnpAction_GetParentService act' = Some thiz
    \<and> (\<forall>n. UpnpService_GetAction u' s' (Some n) =
          (case UpnpService_GetAction u s (Some n) of
             Some None \<Rightarrow> Some (if n = nm then Some a else None)
           | found \<Rightarrow> found))"
proof -
  define l where "l = snd (L_AddTail True (Some a) (actionList s))"
  define u' where "u' = u\<lparr>act_at := (act_at u)(a \<mapsto> UpnpAction_SetParentService act (Some thiz)),
    srv_at := (srv_at u)(thiz \<mapsto> s\<lparr>actionList := l\<rparr>)\<rparr>"
  have name: "action_name u' = action_name u" unfolding u'_def using assms(2) by (rule action_name_parent)
  have ok: "named_ok (action_name u') l" unfolding name l_def
    using assms(3-5) by (intro named_ok_append) simp_all
  have its: "map the (items l) = map the (items (actionList s)) @ [a]" by (simp add: l_def L_AddTail_def)
  have "UpnpService_AddAction True u thiz (Some a) = Some (TINY_RET_OK, u')"
    using assms(1,2) by (simp add: UpnpService_AddAction_def u'_def l_def L_AddTail_def)
  moreover have "UpnpService_GetAction u' (s\<lparr>actionList := l\<rparr>) (Some n) =
      (case UpnpService_GetAction u s (Some n) of
         Some None \<Rightarrow> Some (if n = nm then Some a else None) | found \<Rightarrow> found)" for n
    using GetAction_find [OF assms(4)] GetAction_find [of u' "s\<lparr>actionList := l\<rparr>" n] ok assms(3)
    by (simp add: name its find_append_some split: option.splits)
  ultimately show ?thesis
    by (simp add: u'_def UpnpAction_GetParentService_def UpnpAction_SetParentService_def)
qed

definition demo_store_actions :: "int ustore" where
  "demo_store_actions = \<lparr>dev_at = Map.empty, srv_at = [1 \<mapsto> demo_service],
     act_at = [7 \<mapsto> (snd UpnpAction_Construct)\<lparr>act_name := ''SetTarget''\<rparr>]\<rparr>"

theorem add_action_lookup_witness:
  "\<exists>u' s'. UpnpService_AddAction True demo_store_actions 1 (Some 7) = Some (TINY_RET_OK, u')
    \<and> srv_at u' 1 = Some s' \<and> UpnpService_GetAction u' s' (Some ''SetTarget'') = Some (Some 7)"
proof -
  have acts: "items (actionList demo_service) = [] \<and> count (actionList demo_service) = 0"
    by (simp add: demo_service_def UpnpService_Construct_def L_new_def L_SetDeleteListener_def)
  have nm: "action_name demo_store_actions 7 = Some ''SetTarget''"
    by (simp add: action_name_def demo_store_actions_def UpnpAction_GetName_def read_field_def NAME_LEN_def c_str_def)
  obtain u' s' where "UpnpService_AddAction True demo_store_actions 1 (Some 7) = Some (TINY_RET_OK, u')"
      "srv_at u' 1 = Some s'"
      "UpnpService_GetAction u' s' (Some ''SetTarget'') =
         (case UpnpService_GetAction demo_store_actions demo_service (Some ''SetTarget'') of
            Some None \<Rightarrow> Some (if ''SetTarget'' = ''SetTarget'' then Some 7 else None) | found \<Rightarrow> found)"
    using add_action_lookup [of demo_store_actions 1 demo_service 7 _ "''SetTarget''", OF _ _ nm] acts
    by (fastforce simp: demo_store_actions_def named_ok_def count_ok_def)
  moreover have "UpnpService_GetAction demo_store_actions demo_service (Some ''SetTarget'') = Some None"
    using acts by (simp add: UpnpService_GetAction_def lookup_named_def L_GetCount_def)
  ultimately show ?thesis by auto
qed

subsection \<open>Change notification\<close>

lemma changed_loop_ex:
  assumes "items l = map Some vs" and "i + n = length vs"
  shows "changed_loop l (int i) n = Some (list_ex (\<lambda>v. send_events v \<and> is_changed v) (drop i vs))"
  using assms(2)
proof (induction n arbitrary: i)
  case (Suc n)
  then have i: "i < length vs" by simp
  have x: "L_GetAt l (int i) = Some (vs ! i)" using i assms(1) by (simp add: L_GetAt_def nth_int_of_nat)
  have d: "drop i vs = vs ! i # drop (Suc i) vs" using i by (rule Cons_nth_drop_Suc [symmetric])
  show ?case using Suc.IH [of "Suc i"] Suc.prems unfolding d by (auto simp: x add.commute)
qed simp

text \<open>
  \<open>UpnpService_SendEvents\<close> never fails; it calls the changed listener exactly when one is
  set and some state variable of the table both sends events and is marked as changed.
\<close>

theorem send_events_calls:
  assumes "None \<notin> set (items (stateVariableTable s))" and "count_ok (stateVariableTable s)"
    and "length (items (stateVariableTable s)) < 2 ^ 31"
  shows "UpnpService_SendEvents s = Some (TINY_RET_OK, changedListener s \<and>
    list_ex (\<lambda>v. send_events v \<and> is_changed v) (map the (items (stateVariableTable s))))"
  using changed_loop_ex [OF items_present [OF assms(1)], of 0 "length (items (stateVariableTable s))"]
    L_count_nat [OF assms(2,3)]
  by (simp add: UpnpService_SendEvents_def)

theorem send_events_calls_witness:
  "UpnpService_SendEvents (demo_service\<lparr>changedListener := True\<rparr>) = Some (TINY_RET_OK, False)"
proof -
  have "items (stateVariableTable (demo_service\<lparr>changedListener := True\<rparr>)) = []
      \<and> count (stateVariableTable (demo_service\<lparr>changedListener := True\<rparr>)) = 0"
    by (simp add: demo_service_def UpnpService_Construct_def L_new_def L_SetDeleteListener_def)
  then show ?thesis
    using send_events_calls [of "demo_service\<lparr>changedListener := True\<rparr>"] by (simp add: count_ok_def)
qed

end
