(* ===== verification/UpnpProvider.thy ===== *)
theory UpnpProvider
  imports UpnpModel Containers "HOL-Library.Multiset"
begin

section \<open>The provider of devices: \<open>UpnpProvider.c\<close> and \<open>UpnpObserver.c\<close>\<close>

text \<open>
  The provider keeps three maps: devices and action handlers by device id, and observers by
  name. Observers are function pointers with a context; calling one is recorded in \<open>calls\<close>,
  in order, and is taken not to change the provider. A callback that is NULL is not called.
  The mutex is not part of the state: its two operations are left to the callers.
\<close>

subsection \<open>Observers and calls\<close>

type_synonym fnptr = addr

record upnp_observer =
  OnDeviceAdded :: "fnptr option"
  OnDeviceRemoved :: "fnptr option"
  OnServiceChanged :: "fnptr option"
  obs_ctx :: "addr option"

definition UpnpObserver_Construct :: "tiny_ret \<times> upnp_observer" where
  "UpnpObserver_Construct =
     (TINY_RET_OK, \<lparr>OnDeviceAdded = None, OnDeviceRemoved = None, OnServiceChanged = None, obs_ctx = None\<rparr>)"

definition UpnpObserver_New :: "bool \<Rightarrow> upnp_observer option" where
  "UpnpObserver_New malloc_ok = (if malloc_ok then (case UpnpObserver_Construct of
     (ret, x) \<Rightarrow> if RET_FAILED ret then None else Some x) else None)"

datatype provider_call =
    DeviceAdded fnptr "addr option" "addr option"
  | DeviceRemoved fnptr "addr option" "addr option"
  | ServiceChanged fnptr "addr option" "addr option"

record handler_context =
  handler :: fnptr
  handler_ctx :: "addr option"

record provider =
  devices :: "addr tmap"
  handlers :: "handler_context tmap"
  observers :: "upnp_observer tmap"
  calls :: "provider_call list"

definition zero_map :: "'v tmap" where
  "zero_map = \<lparr>mlist = L_new, mlistener = False, mlog = []\<rparr>"

definition UpnpProvider_Construct :: "tiny_ret \<Rightarrow> tiny_ret \<times> provider" where
  "UpnpProvider_Construct mutex_ret =
     (if RET_FAILED mutex_ret
      then (mutex_ret, \<lparr>devices = zero_map, handlers = zero_map, observers = zero_map, calls = []\<rparr>)
      else (TINY_RET_OK, \<lparr>devices = TinyMap_SetDeleteListener (snd TinyMap_Construct) True,
              handlers = TinyMap_SetDeleteListener (snd TinyMap_Construct) True,
              observers = TinyMap_SetDeleteListener (snd TinyMap_Construct) True, calls = []\<rparr>))"

definition UpnpProvider_New :: "bool \<Rightarrow> tiny_ret \<Rightarrow> provider option" where
  "UpnpProvider_New malloc_ok mutex_ret = (if malloc_ok then (case UpnpProvider_Construct mutex_ret of
     (ret, p) \<Rightarrow> if RET_FAILED ret then None else Some p) else None)"

text \<open>The observers are not disposed of.\<close>

definition UpnpProvider_Dispose :: "provider \<Rightarrow> tiny_ret \<times> provider" where
  "UpnpProvider_Dispose p = (TINY_RET_OK,
     p\<lparr>handlers := snd (TinyMap_Dispose (handlers p)), devices := snd (TinyMap_Dispose (devices p))\<rparr>)"

subsection \<open>Notification\<close>

definition note_call :: "provider_call \<Rightarrow> provider \<Rightarrow> provider" where
  "note_call c p = p\<lparr>calls := calls p @ [c]\<rparr>"

text \<open>
  The bodies of the notification loops: the observer is dereferenced (undefined for NULL), the
  callback called when there is one.
\<close>

definition notify_added :: "addr option \<Rightarrow> upnp_observer option \<Rightarrow> provider \<Rightarrow> provider option" where
  "notify_added device obs p = (case obs of None \<Rightarrow> None | Some x \<Rightarrow> Some (case OnDeviceAdded x of
     None \<Rightarrow> p | Some f \<Rightarrow> note_call (DeviceAdded f device (obs_ctx x)) p))"

definition notify_removed :: "addr option \<Rightarrow> upnp_observer option \<Rightarrow> provider \<Rightarrow> provider option" where
  "notify_removed device obs p = (case obs of None \<Rightarrow> None | Some x \<Rightarrow> Some (case OnDeviceRemoved x of
     None \<Rightarrow> p | Some f \<Rightarrow> note_call (DeviceRemoved f device (obs_ctx x)) p))"

definition notify_changed :: "addr option \<Rightarrow> upnp_observer option \<Rightarrow> provider \<Rightarrow> provider option" where
  "notify_changed srv obs p = (case obs of None \<Rightarrow> None | Some x \<Rightarrow> Some (case OnServiceChanged x of
     None \<Rightarrow> p | Some f \<Rightarrow> note_call (ServiceChanged f srv (obs_ctx x)) p))"

definition onServiceChanged :: "provider \<Rightarrow> addr option \<Rightarrow> provider option" where
  "onServiceChanged p srv =
     value_loop (observers p) (notify_changed srv) 0 (unat (TinyMap_GetCount (observers p))) p"

subsection \<open>Observers come and go\<close>

text \<open>
  \<open>new_ok\<close> is the outcome of \<open>UpnpObserver_New\<close>'s allocation, \<open>oks\<close> of those of the insertion.
  A device observed on entry was already in the map when the count was read.
\<close>

definition UpnpProvider_AddObserver ::
    "bool \<Rightarrow> mallocs \<Rightarrow> provider \<Rightarrow> string option \<Rightarrow> fnptr option \<Rightarrow> fnptr option \<Rightarrow> fnptr option \<Rightarrow> addr option
      \<Rightarrow> (tiny_ret \<times> provider) option" where
  "UpnpProvider_AddObserver new_ok oks p name added removed changed ctx = (case name of
       None \<Rightarrow> Some (TINY_RET_E_ARG_NULL, p)
     | Some n \<Rightarrow> (case UpnpObserver_New new_ok of
         None \<Rightarrow> Some (TINY_RET_E_NEW, p)
       | Some x \<Rightarrow>
           (let x' = x\<lparr>OnDeviceAdded := added, OnDeviceRemoved := removed, OnServiceChanged := changed, obs_ctx := ctx\<rparr>
            in case TinyMap_Insert oks (observers p) (Some n) (Some x') of
                 (ret, m) \<Rightarrow>
                   if RET_FAILED ret then Some (ret, p\<lparr>observers := m\<rparr>)
                   else (case added of
                       None \<Rightarrow> Some (ret, p\<lparr>observers := m\<rparr>)
                     | Some f \<Rightarrow> map_option (Pair ret)
                         (value_loop (devices p) (\<lambda>d q. Some (note_call (DeviceAdded f d ctx) q)) 0
                           (unat (TinyMap_GetCount (devices p))) (p\<lparr>observers := m\<rparr>))))))"

definition UpnpProvider_RemoveObserver :: "provider \<Rightarrow> string option \<Rightarrow> (tiny_ret \<times> provider) option" where
  "UpnpProvider_RemoveObserver p name = (case name of
       None \<Rightarrow> Some (TINY_RET_E_ARG_NULL, p)
     | Some n \<Rightarrow> (case TinyMap_GetValue (observers p) (Some n) of
         None \<Rightarrow> Some (TINY_RET_E_NOT_FOUND, p)
       | Some x \<Rightarrow> do {
           q \<leftarrow> (case OnDeviceRemoved x of
                  None \<Rightarrow> Some p
                | Some f \<Rightarrow> value_loop (devices p) (\<lambda>d q. Some (note_call (DeviceRemoved f d (obs_ctx x)) q)) 0
                    (unat (TinyMap_GetCount (devices p))) p);
           (case TinyMap_Erase (observers q) (Some n) of (ret, m) \<Rightarrow> Some (ret, q\<lparr>observers := m\<rparr>)) }))"

definition UpnpProvider_Foreach :: "provider \<Rightarrow> (addr option \<Rightarrow> 's \<Rightarrow> 's) \<Rightarrow> 's \<Rightarrow> 's option" where
  "UpnpProvider_Foreach p visit s =
     value_loop (devices p) (\<lambda>d s. Some (visit d s)) 0 (unat (TinyMap_GetCount (devices p))) s"

definition UpnpProvider_Clear :: "provider \<Rightarrow> provider" where
  "UpnpProvider_Clear p = p\<lparr>devices := TinyMap_Clear (devices p)\<rparr>"

definition UpnpProvider_GetDevice :: "provider \<Rightarrow> string option \<Rightarrow> addr option" where
  "UpnpProvider_GetDevice p devid = TinyMap_GetValue (devices p) devid"

subsection \<open>Devices come and go\<close>

text \<open>
  The loop that sets the changed listener of every service of a device; a NULL service is
  ignored by \<open>UpnpService_SetChangedListener\<close>, a dangling one is undefined.
\<close>

fun listener_loop :: "upnp_device \<Rightarrow> bool \<Rightarrow> 32 word \<Rightarrow> nat \<Rightarrow> 'f ustore \<Rightarrow> 'f ustore option" where
  "listener_loop d l i 0 u = Some u"
| "listener_loop d l i (Suc n) u = do {
     u' \<leftarrow> (case UpnpDevice_GetServiceAt d i of
        None \<Rightarrow> Some u
      | Some a \<Rightarrow> map_option (\<lambda>s. u\<lparr>srv_at := (srv_at u)(a \<mapsto> UpnpService_SetChangedListener s l)\<rparr>) (srv_at u a));
     listener_loop d l (i + 1) n u' }"

text \<open>
  \<open>oks\<close>, \<open>ctx_ok\<close> and \<open>oks'\<close> are the outcomes of the allocations: inserting the device, the
  handler's context, inserting the context.
\<close>

definition UpnpProvider_Add ::
    "mallocs \<Rightarrow> bool \<Rightarrow> mallocs \<Rightarrow> 'f ustore \<Rightarrow> provider \<Rightarrow> addr option \<Rightarrow> fnptr option \<Rightarrow> addr option
      \<Rightarrow> (tiny_ret \<times> 'f ustore \<times> provider) option" where
  "UpnpProvider_Add oks ctx_ok oks' u p device hnd ctx = (case (device, hnd) of
       (Some d, Some h) \<Rightarrow> do {
         dev \<leftarrow> dev_at u d;
         devid \<leftarrow> UpnpDevice_GetDeviceId dev;
         (case TinyMap_Insert oks (devices p) (Some devid) (Some d) of
           (ret, ds) \<Rightarrow>
             if RET_FAILED ret then Some (ret, u, p\<lparr>devices := ds\<rparr>)
             else if \<not> ctx_ok then Some (TINY_RET_E_NEW, u, p\<lparr>devices := ds\<rparr>)
             else (case TinyMap_Insert oks' (handlers p) (Some devid) (Some \<lparr>handler = h, handler_ctx = ctx\<rparr>) of
               (ret, hs) \<Rightarrow>
                 if RET_FAILED ret then Some (ret, u, p\<lparr>devices := ds, handlers := hs\<rparr>)
                 else do {
                   q \<leftarrow> value_loop (observers p) (notify_added device) 0 (unat (TinyMap_GetCount (observers p)))
                         (p\<lparr>devices := ds, handlers := hs\<rparr>);
                   u' \<leftarrow> listener_loop dev True 0 (unat (UpnpDevice_GetServiceCount dev)) u;
                   Some (ret, u', q) })) }
     | _ \<Rightarrow> Some (TINY_RET_E_ARG_NULL, u, p))"

definition UpnpProvider_Remove ::
    "'f ustore \<Rightarrow> provider \<Rightarrow> string option \<Rightarrow> (tiny_ret \<times> 'f ustore \<times> provider) option" where
  "UpnpProvider_Remove u p devid = (case devid of
       None \<Rightarrow> Some (TINY_RET_E_ARG_NULL, u, p)
     | Some k \<Rightarrow> (case TinyMap_GetValue (devices p) (Some k) of
         None \<Rightarrow> Some (TINY_RET_E_NOT_FOUND, u, p)
       | Some d \<Rightarrow> do {
           q \<leftarrow> value_loop (observers p) (notify_removed (Some d)) 0 (unat (TinyMap_GetCount (observers p))) p;
           dev \<leftarrow> dev_at u d;
           u' \<leftarrow> listener_loop dev False 0 (unat (UpnpDevice_GetServiceCount dev)) u;
           (case TinyMap_Erase (devices q) (Some k) of (ret, ds) \<Rightarrow>
              if RET_FAILED ret then Some (ret, u', q\<lparr>devices := ds\<rparr>)
              else (case TinyMap_Erase (handlers q) (Some k) of (ret, hs) \<Rightarrow>
                Some (ret, u', q\<lparr>devices := ds, handlers := hs\<rparr>))) }))"

subsection \<open>Queries\<close>

text \<open>
  The description documents are written by \<open>UpnpDeviceParser_ToXml\<close> and
  \<open>UpnpServiceParser_ToXml\<close>, here the arguments \<open>dev_xml\<close> and \<open>srv_xml\<close>: the length and text
  written for a device or a service, None when writing it is undefined behaviour.
\<close>

fun service_document_loop ::
    "(addr \<Rightarrow> (32 word \<times> string) option) \<Rightarrow> 'f ustore \<Rightarrow> upnp_device \<Rightarrow> string \<Rightarrow> 32 word \<Rightarrow> nat \<Rightarrow> (32 word \<times> string) option" where
  "service_document_loop srv_xml u d uri i 0 = Some (0, [])"
| "service_document_loop srv_xml u d uri i (Suc n) = do {
     a \<leftarrow> UpnpDevice_GetServiceAt d i;
     s \<leftarrow> srv_at u a;
     scpd \<leftarrow> UpnpService_GetSCPDURL s;
     if STR_EQUAL uri scpd then srv_xml a else service_document_loop srv_xml u d uri (i + 1) n }"

definition UpnpProvider_GetServiceDocument ::
    "(addr \<Rightarrow> (32 word \<times> string) option) \<Rightarrow> 'f ustore \<Rightarrow> upnp_device \<Rightarrow> string \<Rightarrow> (32 word \<times> string) option" where
  "UpnpProvider_GetServiceDocument srv_xml u d uri =
     service_document_loop srv_xml u d uri 0 (unat (UpnpDevice_GetServiceCount d))"

fun document_loop ::
    "(addr \<Rightarrow> (32 word \<times> string) option) \<Rightarrow> (addr \<Rightarrow> (32 word \<times> string) option) \<Rightarrow> 'f ustore \<Rightarrow> provider \<Rightarrow> string
      \<Rightarrow> 32 word \<Rightarrow> nat \<Rightarrow> (32 word \<times> string) option" where
  "document_loop dev_xml srv_xml u p uri i 0 = Some (0, [])"
| "document_loop dev_xml srv_xml u p uri i (Suc n) = do {
     a \<leftarrow> TinyMap_GetValueAt (devices p) i;
     d \<leftarrow> dev_at u a;
     duri \<leftarrow> UpnpDevice_GetURI d;
     if STR_EQUAL uri duri then dev_xml a
     else do {
       r \<leftarrow> UpnpProvider_GetServiceDocument srv_xml u d uri;
       if 0 < fst r then Some r else document_loop dev_xml srv_xml u p uri (i + 1) n } }"

definition UpnpProvider_GetDocument ::
    "(addr \<Rightarrow> (32 word \<times> string) option) \<Rightarrow> (addr \<Rightarrow> (32 word \<times> string) option) \<Rightarrow> 'f ustore \<Rightarrow> provider \<Rightarrow> string
      \<Rightarrow> (32 word \<times> string) option" where
  "UpnpProvider_GetDocument dev_xml srv_xml u p uri =
     document_loop dev_xml srv_xml u p uri 0 (unat (TinyMap_GetCount (devices p)))"

fun action_loop ::
    "'f ustore \<Rightarrow> provider \<Rightarrow> string \<Rightarrow> string \<Rightarrow> string \<Rightarrow> 32 word \<Rightarrow> nat \<Rightarrow> addr option option" where
  "action_loop u p controlURL' stype actionName i 0 = Some None"
| "action_loop u p controlURL' stype actionName i (Suc n) = do {
     a \<leftarrow> TinyMap_GetValueAt (devices p) i;
     d \<leftarrow> dev_at u a;
     found \<leftarrow> UpnpDevice_GetServiceByControlURL u d (Some controlURL');
     (case found of
        None \<Rightarrow> action_loop u p controlURL' stype actionName (i + 1) n
      | Some sa \<Rightarrow> do {
          s \<leftarrow> srv_at u sa;
          t \<leftarrow> UpnpService_GetServiceType s;
          if STR_EQUAL t stype then UpnpService_GetAction u s (Some actionName) else Some None }) }"

definition UpnpProvider_GetAction ::
    "'f ustore \<Rightarrow> provider \<Rightarrow> string option \<Rightarrow> string option \<Rightarrow> string option \<Rightarrow> addr option option" where
  "UpnpProvider_GetAction u p url stype actionName = (case (url, stype, actionName) of
       (Some c, Some t, Some n) \<Rightarrow> action_loop u p c t n 0 (unat (TinyMap_GetCount (devices p)))
     | _ \<Rightarrow> Some None)"

definition UpnpProvider_GetActionHandlerContext ::
    "'f ustore \<Rightarrow> provider \<Rightarrow> addr option \<Rightarrow> handler_context option option" where
  "UpnpProvider_GetActionHandlerContext u p action = (case action of
       None \<Rightarrow> Some None
     | Some a \<Rightarrow> do {
         act \<leftarrow> act_at u a;
         (case UpnpAction_GetParentService act of
            None \<Rightarrow> Some None
          | Some sa \<Rightarrow> do {
              s \<leftarrow> srv_at u sa;
              (case UpnpService_GetParentDevice s of
                 None \<Rightarrow> Some None
               | Some da \<Rightarrow> do {
                   d \<leftarrow> dev_at u da;
                   k \<leftarrow> UpnpDevice_GetDeviceId d;
                   Some (TinyMap_GetValue (handlers p) (Some k)) }) }) })"

fun service_loop :: "'f ustore \<Rightarrow> provider \<Rightarrow> string \<Rightarrow> 32 word \<Rightarrow> nat \<Rightarrow> addr option option" where
  "service_loop u p url i 0 = Some None"
| "service_loop u p url i (Suc n) = do {
     a \<leftarrow> TinyMap_GetValueAt (devices p) i;
     d \<leftarrow> dev_at u a;
     found \<leftarrow> UpnpDevice_GetServiceByEventSubURL u d (Some url);
     (case found of Some sa \<Rightarrow> Some (Some sa) | None \<Rightarrow> service_loop u p url (i + 1) n) }"

definition UpnpProvider_GetService :: "'f ustore \<Rightarrow> provider \<Rightarrow> string option \<Rightarrow> addr option option" where
  "UpnpProvider_GetService u p url = (case url of
       None \<Rightarrow> Some None
     | Some x \<Rightarrow> service_loop u p x 0 (unat (TinyMap_GetCount (devices p))))"

subsection \<open>The services of a device\<close>

text \<open>Every service address of the device is live; \<open>with_listener\<close> is the store with their listeners set.\<close>

definition services_ok :: "'f ustore \<Rightarrow> upnp_device \<Rightarrow> bool" where
  "services_ok u d \<longleftrightarrow> named_ok (\<lambda>a. if srv_at u a = None then None else Some []) (serviceList d)"

definition with_listener :: "upnp_device \<Rightarrow> bool \<Rightarrow> 'f ustore \<Rightarrow> 'f ustore" where
  "with_listener d l u = u\<lparr>srv_at := \<lambda>a. if Some a \<in> set (items (serviceList d))
     then map_option (\<lambda>s. UpnpService_SetChangedListener s l) (srv_at u a) else srv_at u a\<rparr>"

lemma SetChangedListener_twice [simp]:
  "UpnpService_SetChangedListener (UpnpService_SetChangedListener s l) l' = UpnpService_SetChangedListener s l'"
  by (simp add: UpnpService_SetChangedListener_def)

lemma listener_loop_from:
  assumes "items (serviceList d) = map Some zs" and "length zs < 2 ^ 31"
  shows "i + n = length zs \<Longrightarrow> list_all (\<lambda>a. srv_at u a \<noteq> None) (drop i zs) \<Longrightarrow>
    listener_loop d l (word_of_nat i) n u =
     Some (u\<lparr>srv_at := \<lambda>a. if a \<in> set (drop i zs)
       then map_option (\<lambda>s. UpnpService_SetChangedListener s l) (srv_at u a) else srv_at u a\<rparr>)"
proof (induction n arbitrary: i u)
  case (Suc n)
  then have i: "i < length zs" by simp
  have d: "drop i zs = zs ! i # drop (Suc i) zs" using i by (rule Cons_nth_drop_Suc [symmetric])
  have "sint (word_of_nat i :: 32 word) = int i"
    using i assms(2) by (simp add: signed_of_nat signed_take_bit_int_eq_self)
  then have x: "UpnpDevice_GetServiceAt d (word_of_nat i) = Some (zs ! i)"
    using i assms(1) by (simp add: UpnpDevice_GetServiceAt_def L_GetAt_def nth_int_of_nat)
  obtain s where s: "srv_at u (zs ! i) = Some s" using Suc.prems(2) unfolding d by auto
  define u' where "u' = u\<lparr>srv_at := (srv_at u)(zs ! i \<mapsto> UpnpService_SetChangedListener s l)\<rparr>"
  have "list_all (\<lambda>a. srv_at u' a \<noteq> None) (drop (Suc i) zs)"
    using Suc.prems(2) unfolding d by (auto simp: u'_def list_all_iff)
  note IH = Suc.IH [OF _ this]
  have w: "word_of_nat i + 1 = (word_of_nat (Suc i) :: 32 word)" by simp
  have "listener_loop d l (word_of_nat i) (Suc n) u = listener_loop d l (word_of_nat (Suc i)) n u'"
    by (simp add: x s u'_def add.commute)
  also have "\<dots> = Some (u'\<lparr>srv_at := \<lambda>a. if a \<in> set (drop (Suc i) zs)
      then map_option (\<lambda>s. UpnpService_SetChangedListener s l) (srv_at u' a) else srv_at u' a\<rparr>)"
    using Suc.prems(1) by (intro IH) simp
  also have "(\<lambda>a. if a \<in> set (drop (Suc i) zs)
      then map_option (\<lambda>s. UpnpService_SetChangedListener s l) (srv_at u' a) else srv_at u' a) =
    (\<lambda>a. if a \<in> set (drop i zs)
      then map_option (\<lambda>s. UpnpService_SetChangedListener s l) (srv_at u a) else srv_at u a)"
    unfolding d by (auto simp: fun_eq_iff u'_def s)
  finally show ?case by (simp add: u'_def)
qed simp

lemma listener_loop_all:
  assumes "services_ok u d"
  shows "listener_loop d l 0 (unat (UpnpDevice_GetServiceCount d)) u = Some (with_listener d l u)"
proof -
  let ?zs = "map the (items (serviceList d))"
  have its: "items (serviceList d) = map Some ?zs"
    using assms items_present [of "items (serviceList d)"] by (simp add: services_ok_def named_ok_def)
  have cnt: "unat (UpnpDevice_GetServiceCount d) = length ?zs"
    using assms by (simp add: UpnpDevice_GetServiceCount_def services_ok_def named_ok_def L_count_word)
  have "list_all (\<lambda>a. srv_at u a \<noteq> None) ?zs"
    using assms by (auto simp: services_ok_def named_ok_def list_all_iff split: if_splits)
  moreover have "length ?zs < 2 ^ 31" using assms by (simp add: services_ok_def named_ok_def)
  moreover have "Some a \<in> set (items (serviceList d)) \<longleftrightarrow> a \<in> set ?zs" for a
    using its by (metis (no_types, lifting) image_iff option.inject set_map)
  ultimately show ?thesis
    using listener_loop_from [OF its, of 0 "length ?zs" u l] by (simp add: cnt with_listener_def)
qed

subsection \<open>Observers know the devices\<close>

definition device_list :: "provider \<Rightarrow> addr list" where
  "device_list p = map snd (map_entries (devices p))"

definition observer_list :: "provider \<Rightarrow> upnp_observer list" where
  "observer_list p = map snd (map_entries (observers p))"

fun known_step :: "addr option \<Rightarrow> provider_call \<Rightarrow> addr multiset \<Rightarrow> addr multiset" where
  "known_step ctx (DeviceAdded f (Some d) c) M = (if c = ctx then add_mset d M else M)"
| "known_step ctx (DeviceRemoved f (Some d) c) M = (if c = ctx then M - {#d#} else M)"
| "known_step ctx call M = M"

definition known :: "addr option \<Rightarrow> provider_call list \<Rightarrow> addr multiset" where
  "known ctx cs = fold (known_step ctx) cs {#}"

lemma known_Nil [simp]: "known ctx [] = {#}" by (simp add: known_def)

lemma known_append: "known ctx (cs @ ds) = fold (known_step ctx) ds (known ctx cs)" by (simp add: known_def)

datatype provider_op =
    OpAdd addr fnptr "addr option"
  | OpRemove string
  | OpObserve string fnptr fnptr "fnptr option" "addr option"
  | OpUnobserve string

fun provider_step :: "provider_op \<Rightarrow> 'f ustore \<times> provider \<Rightarrow> (tiny_ret \<times> 'f ustore \<times> provider) option" where
  "provider_step (OpAdd d h ctx) (u, p) = UpnpProvider_Add [] True [] u p (Some d) (Some h) ctx"
| "provider_step (OpRemove k) (u, p) = UpnpProvider_Remove u p (Some k)"
| "provider_step (OpObserve n added removed changed ctx) (u, p) =
     map_option (\<lambda>(r, q). (r, u, q)) (UpnpProvider_AddObserver True [] p (Some n) (Some added) (Some removed) changed ctx)"
| "provider_step (OpUnobserve n) (u, p) = map_option (\<lambda>(r, q). (r, u, q)) (UpnpProvider_RemoveObserver p (Some n))"

definition device_ok :: "'f ustore \<Rightarrow> addr \<Rightarrow> bool" where
  "device_ok u d \<longleftrightarrow> (case dev_at u d of None \<Rightarrow> False
     | Some dev \<Rightarrow> UpnpDevice_GetDeviceId dev \<noteq> None \<and> services_ok u dev)"

fun provider_pre :: "provider_op \<Rightarrow> 'f ustore \<times> provider \<Rightarrow> bool" where
  "provider_pre (OpAdd d h ctx) (u, p) \<longleftrightarrow> device_ok u d \<and> length (device_list p) < 2 ^ 31 - 1"
| "provider_pre (OpRemove k) (u, p) \<longleftrightarrow> True"
| "provider_pre (OpObserve n added removed changed ctx) (u, p) \<longleftrightarrow>
     ctx \<notin> obs_ctx ` set (observer_list p) \<and> length (observer_list p) < 2 ^ 31 - 1"
| "provider_pre (OpUnobserve n) (u, p) \<longleftrightarrow> True"

text \<open>
  The state of the provider: its maps are well formed, a device has a handler, observers have
  both device callbacks and contexts of their own, devices are live, and what each context has
  been told adds up to the devices there are.
\<close>

definition maps_ok :: "provider \<Rightarrow> bool" where
  "maps_ok p \<longleftrightarrow> map_inv (devices p) \<and> map_inv (handlers p) \<and> map_inv (observers p)
     \<and> length (device_list p) < 2 ^ 31 \<and> length (observer_list p) < 2 ^ 31
     \<and> (\<forall>k. TinyMap_GetValue (devices p) (Some k) = None \<longleftrightarrow> TinyMap_GetValue (handlers p) (Some k) = None)"

definition observers_ok :: "provider \<Rightarrow> bool" where
  "observers_ok p \<longleftrightarrow> distinct (map obs_ctx (observer_list p))
     \<and> list_all (\<lambda>x. OnDeviceAdded x \<noteq> None \<and> OnDeviceRemoved x \<noteq> None) (observer_list p)"

definition told_ok :: "provider \<Rightarrow> bool" where
  "told_ok p \<longleftrightarrow> (\<forall>ctx. known ctx (calls p) =
     (if ctx \<in> obs_ctx ` set (observer_list p) then mset (device_list p) else {#}))"

fun provider_inv :: "'f ustore \<times> provider \<Rightarrow> bool" where
  "provider_inv (u, p) \<longleftrightarrow> maps_ok p \<and> observers_ok p \<and> told_ok p \<and> list_all (device_ok u) (device_list p)"

lemma device_ok_listener [simp]: "device_ok (with_listener dev l u) d \<longleftrightarrow> device_ok u d"
proof -
  have "services_ok (with_listener dev l u) x = services_ok u x" for x
  proof -
    have "srv_at (with_listener dev l u) a = None \<longleftrightarrow> srv_at u a = None" for a by (simp add: with_listener_def)
    then show ?thesis by (simp add: services_ok_def)
  qed
  then show ?thesis by (simp add: device_ok_def with_listener_def split: option.splits)
qed

lemma dev_at_listener [simp]: "dev_at (with_listener dev l u) = dev_at u" by (simp add: with_listener_def)

subsubsection \<open>What the notification loops do\<close>

definition added_calls :: "addr \<Rightarrow> upnp_observer list \<Rightarrow> provider_call list" where
  "added_calls d xs = concat (map (\<lambda>x. case OnDeviceAdded x of None \<Rightarrow> [] | Some f \<Rightarrow> [DeviceAdded f (Some d) (obs_ctx x)]) xs)"

definition removed_calls :: "addr \<Rightarrow> upnp_observer list \<Rightarrow> provider_call list" where
  "removed_calls d xs = concat (map (\<lambda>x. case OnDeviceRemoved x of None \<Rightarrow> [] | Some f \<Rightarrow> [DeviceRemoved f (Some d) (obs_ctx x)]) xs)"

lemma fold_note:
  "fold (\<lambda>x p. p\<lparr>calls := calls p @ g x\<rparr>) xs p = p\<lparr>calls := calls p @ concat (map g xs)\<rparr>"
  by (induction xs arbitrary: p) simp_all

lemma notify_added_all:
  assumes "map_inv m" and "length (map_entries m) < 2 ^ 31"
  shows "value_loop m (notify_added (Some d)) 0 (unat (TinyMap_GetCount m)) p =
    Some (p\<lparr>calls := calls p @ added_calls d (map snd (map_entries m))\<rparr>)"
  unfolding added_calls_def fold_note [symmetric] using assms
  by (rule value_loop_fold) (simp add: notify_added_def note_call_def split: option.splits)

lemma notify_removed_all:
  assumes "map_inv m" and "length (map_entries m) < 2 ^ 31"
  shows "value_loop m (notify_removed (Some d)) 0 (unat (TinyMap_GetCount m)) p =
    Some (p\<lparr>calls := calls p @ removed_calls d (map snd (map_entries m))\<rparr>)"
  unfolding removed_calls_def fold_note [symmetric] using assms
  by (rule value_loop_fold) (simp add: notify_removed_def note_call_def split: option.splits)

lemma note_each:
  assumes "map_inv m" and "length (map_entries m) < 2 ^ 31"
  shows "value_loop m (\<lambda>d q. Some (note_call (C d) q)) 0 (unat (TinyMap_GetCount m)) p =
    Some (p\<lparr>calls := calls p @ map (\<lambda>d. C (Some d)) (map snd (map_entries m))\<rparr>)"
proof -
  have e: "concat (map (\<lambda>d. [C (Some d)]) xs) = map (\<lambda>d. C (Some d)) xs" for xs :: "'a list"
    by (induction xs) simp_all
  show ?thesis
    unfolding e [symmetric] fold_note [symmetric] using assms
    by (rule value_loop_fold) (simp add: note_call_def)
qed

text \<open>What the calls tell a context.\<close>

lemma told_added:
  assumes "distinct (map obs_ctx xs)" and "list_all (\<lambda>x. OnDeviceAdded x \<noteq> None) xs"
  shows "fold (known_step ctx) (added_calls d xs) M = (if ctx \<in> obs_ctx ` set xs then add_mset d M else M)"
  using assms by (induction xs arbitrary: M) (auto simp: added_calls_def)

lemma told_removed:
  assumes "distinct (map obs_ctx xs)" and "list_all (\<lambda>x. OnDeviceRemoved x \<noteq> None) xs"
  shows "fold (known_step ctx) (removed_calls d xs) M = (if ctx \<in> obs_ctx ` set xs then M - {#d#} else M)"
  using assms by (induction xs arbitrary: M) (auto simp: removed_calls_def)

lemma told_all_added:
  "fold (known_step ctx) (map (\<lambda>d. DeviceAdded f (Some d) c) ds) M = (if c = ctx then mset ds + M else M)"
  by (induction ds arbitrary: M) auto

lemma told_all_removed:
  "fold (known_step ctx) (map (\<lambda>d. DeviceRemoved f (Some d) c) ds) M = (if c = ctx then M - mset ds else M)"
  by (induction ds arbitrary: M) auto

subsubsection \<open>What the operations do\<close>

lemma Add_new:
  assumes "maps_ok p" and "dev_at u d = Some dev" and "UpnpDevice_GetDeviceId dev = Some k" and "services_ok u dev"
    and "TinyMap_GetValue (devices p) (Some k) = None"
  shows "UpnpProvider_Add [] True [] u p (Some d) (Some h) ctx = Some (TINY_RET_OK, with_listener dev True u,
     p\<lparr>devices := snd (TinyMap_Insert [] (devices p) (Some k) (Some d)),
       handlers := snd (TinyMap_Insert [] (handlers p) (Some k) (Some \<lparr>handler = h, handler_ctx = ctx\<rparr>)),
       calls := calls p @ added_calls d (observer_list p)\<rparr>)"
proof -
  have m: "map_inv (devices p)" "map_inv (handlers p)" "map_inv (observers p)"
      "length (map_entries (observers p)) < 2 ^ 31" "TinyMap_GetValue (handlers p) (Some k) = None"
    using assms(1,5) by (simp_all add: maps_ok_def observer_list_def)
  obtain ds where ds: "TinyMap_Insert [] (devices p) (Some k) (Some d) = (TINY_RET_OK, ds)"
    using tm.add_new [OF m(1) TrueI TrueI assms(5), of d] by (metis prod.collapse)
  obtain hs where hs: "TinyMap_Insert [] (handlers p) (Some k) (Some \<lparr>handler = h, handler_ctx = ctx\<rparr>) = (TINY_RET_OK, hs)"
    using tm.add_new [OF m(2) TrueI TrueI m(5)] by (metis prod.collapse)
  show ?thesis
    using assms(2-4) notify_added_all [OF m(3,4)] listener_loop_all [of u dev True]
    by (simp add: UpnpProvider_Add_def ds hs observer_list_def)
qed

lemma Add_dup:
  assumes "maps_ok p" and "dev_at u d = Some dev" and "UpnpDevice_GetDeviceId dev = Some k"
    and "TinyMap_GetValue (devices p) (Some k) = Some e"
  shows "UpnpProvider_Add oks b oks' u p (Some d) (Some h) ctx = Some (TINY_RET_E_ITEM_EXIST, u, p)"
  using assms map_insert_dup [of "devices p" k e oks d] by (simp add: UpnpProvider_Add_def maps_ok_def)

lemma Remove_present:
  assumes "maps_ok p" and "TinyMap_GetValue (devices p) (Some k) = Some d"
    and "dev_at u d = Some dev" and "services_ok u dev"
  shows "UpnpProvider_Remove u p (Some k) = Some (TINY_RET_OK, with_listener dev False u,
     p\<lparr>devices := snd (TinyMap_Erase (devices p) (Some k)),
       handlers := snd (TinyMap_Erase (handlers p) (Some k)),
       calls := calls p @ removed_calls d (observer_list p)\<rparr>)"
proof -
  have m: "map_inv (devices p)" "map_inv (handlers p)" "map_inv (observers p)"
      "length (map_entries (observers p)) < 2 ^ 31"
    using assms(1) by (simp_all add: maps_ok_def observer_list_def)
  have "TinyMap_GetValue (handlers p) (Some k) \<noteq> None"
    using assms(1,2) unfolding maps_ok_def by (metis option.discI)
  then obtain x where x: "TinyMap_GetValue (handlers p) (Some k) = Some x" by auto
  obtain ds where ds: "TinyMap_Erase (devices p) (Some k) = (TINY_RET_OK, ds)"
    using tm.erase_ok [OF m(1) assms(2)] by (metis prod.collapse)
  obtain hs where hs: "TinyMap_Erase (handlers p) (Some k) = (TINY_RET_OK, hs)"
    using tm.erase_ok [OF m(2) x] by (metis prod.collapse)
  show ?thesis
    using assms(2-4) notify_removed_all [OF m(3,4)] listener_loop_all [of u dev False]
    by (simp add: UpnpProvider_Remove_def ds hs observer_list_def)
qed

lemma Remove_absent:
  "TinyMap_GetValue (devices p) (Some k) = None \<Longrightarrow> UpnpProvider_Remove u p (Some k) = Some (TINY_RET_E_NOT_FOUND, u, p)"
  by (simp add: UpnpProvider_Remove_def)

lemma Observe_new:
  assumes "maps_ok p" and "TinyMap_GetValue (observers p) (Some n) = None"
  shows "UpnpProvider_AddObserver True [] p (Some n) (Some added) removed changed ctx = Some (TINY_RET_OK,
     p\<lparr>observers := snd (TinyMap_Insert [] (observers p) (Some n)
         (Some \<lparr>OnDeviceAdded = Some added, OnDeviceRemoved = removed, OnServiceChanged = changed, obs_ctx = ctx\<rparr>)),
       calls := calls p @ map (\<lambda>d. DeviceAdded added (Some d) ctx) (device_list p)\<rparr>)"
proof -
  have m: "map_inv (devices p)" "map_inv (observers p)" "length (map_entries (devices p)) < 2 ^ 31"
    using assms(1) by (simp_all add: maps_ok_def device_list_def)
  obtain os where os: "TinyMap_Insert [] (observers p) (Some n) (Some \<lparr>OnDeviceAdded = Some added,
      OnDeviceRemoved = removed, OnServiceChanged = changed, obs_ctx = ctx\<rparr>) = (TINY_RET_OK, os)"
    using tm.add_new [OF m(2) TrueI TrueI assms(2)] by (metis prod.collapse)
  show ?thesis
    using note_each [OF m(1,3), of "\<lambda>d. DeviceAdded added d ctx"]
    by (simp add: UpnpProvider_AddObserver_def UpnpObserver_New_def UpnpObserver_Construct_def device_list_def os)
qed

lemma Observe_dup:
  assumes "maps_ok p" and "TinyMap_GetValue (observers p) (Some n) = Some y"
  shows "UpnpProvider_AddObserver True oks p (Some n) added removed changed ctx = Some (TINY_RET_E_ITEM_EXIST, p)"
  using assms map_insert_dup [of "observers p" n y oks]
  by (simp add: UpnpProvider_AddObserver_def UpnpObserver_New_def UpnpObserver_Construct_def maps_ok_def)

lemma Unobserve_present:
  assumes "maps_ok p" and "TinyMap_GetValue (observers p) (Some n) = Some x" and "OnDeviceRemoved x = Some f"
  shows "UpnpProvider_RemoveObserver p (Some n) = Some (TINY_RET_OK,
     p\<lparr>observers := snd (TinyMap_Erase (observers p) (Some n)),
       calls := calls p @ map (\<lambda>d. DeviceRemoved f (Some d) (obs_ctx x)) (device_list p)\<rparr>)"
proof -
  have m: "map_inv (devices p)" "map_inv (observers p)" "length (map_entries (devices p)) < 2 ^ 31"
    using assms(1) by (simp_all add: maps_ok_def device_list_def)
  obtain os where os: "TinyMap_Erase (observers p) (Some n) = (TINY_RET_OK, os)"
    using tm.erase_ok [OF m(2) assms(2)] by (metis prod.collapse)
  show ?thesis
    using assms(2,3) note_each [OF m(1,3), of "\<lambda>d. DeviceRemoved f d (obs_ctx x)"]
    by (simp add: UpnpProvider_RemoveObserver_def device_list_def os)
qed

lemma Unobserve_absent:
  "TinyMap_GetValue (observers p) (Some n) = None \<Longrightarrow>
    UpnpProvider_RemoveObserver p (Some n) = Some (TINY_RET_E_NOT_FOUND, p)"
  by (simp add: UpnpProvider_RemoveObserver_def)

subsubsection \<open>The invariant\<close>

lemma keys_in_step:
  assumes "maps_ok p"
  shows "(TinyMap_GetValue (snd (TinyMap_Insert [] (devices p) (Some k) (Some d))) (Some j) = None) =
      (TinyMap_GetValue (snd (TinyMap_Insert [] (handlers p) (Some k) (Some h))) (Some j) = None)"
    and "(TinyMap_GetValue (snd (TinyMap_Erase (devices p) (Some k))) (Some j) = None) =
      (TinyMap_GetValue (snd (TinyMap_Erase (handlers p) (Some k))) (Some j) = None)"
proof -
  have m: "map_inv (devices p)" "map_inv (handlers p)" using assms by (simp_all add: maps_ok_def)
  have sync: "(TinyMap_GetValue (devices p) (Some i) = None) = (TinyMap_GetValue (handlers p) (Some i) = None)" for i
    using assms by (simp add: maps_ok_def)
  show "(TinyMap_GetValue (snd (TinyMap_Erase (devices p) (Some k))) (Some j) = None) =
      (TinyMap_GetValue (snd (TinyMap_Erase (handlers p) (Some k))) (Some j) = None)"
    by (simp add: tm.lookup_erase [OF m(1)] tm.lookup_erase [OF m(2)] sync)
  show "(TinyMap_GetValue (snd (TinyMap_Insert [] (devices p) (Some k) (Some d))) (Some j) = None) =
      (TinyMap_GetValue (snd (TinyMap_Insert [] (handlers p) (Some k) (Some h))) (Some j) = None)"
  proof (cases "TinyMap_GetValue (devices p) (Some k) = None")
    case True
    then have "TinyMap_GetValue (handlers p) (Some k) = None" by (simp add: sync)
    with True show ?thesis
      by (simp add: tm.lookup_add [OF m(1)] tm.lookup_add [OF m(2)] sync)
  next
    case False
    then obtain x y where "TinyMap_GetValue (devices p) (Some k) = Some x" "TinyMap_GetValue (handlers p) (Some k) = Some y"
      using sync [of k] by auto
    then show ?thesis by (simp add: tm.add_dup [OF m(1)] tm.add_dup [OF m(2)] sync)
  qed
qed

lemma inv_add:
  assumes inv: "provider_inv (u, p)" and pre: "provider_pre (OpAdd d h ctx) (u, p)"
  shows "\<exists>r s'. provider_step (OpAdd d h ctx) (u, p) = Some (r, s') \<and> provider_inv s'"
proof -
  have m: "maps_ok p" "observers_ok p" "told_ok p" "list_all (device_ok u) (device_list p)" using inv by simp_all
  obtain dev k where dev: "dev_at u d = Some dev" "UpnpDevice_GetDeviceId dev = Some k" "services_ok u dev"
    using pre by (auto simp: device_ok_def split: option.splits)
  show ?thesis
  proof (cases "TinyMap_GetValue (devices p) (Some k)")
    case (Some e)
    then show ?thesis using inv Add_dup [OF m(1) dev(1,2)] by simp
  next
    case None
    let ?p = "p\<lparr>devices := snd (TinyMap_Insert [] (devices p) (Some k) (Some d)),
       handlers := snd (TinyMap_Insert [] (handlers p) (Some k) (Some \<lparr>handler = h, handler_ctx = ctx\<rparr>)),
       calls := calls p @ added_calls d (observer_list p)\<rparr>"
    have mi: "map_inv (devices p)" using m(1) by (simp add: maps_ok_def)
    have dl: "device_list ?p = device_list p @ [d]"
      using entries_insert [OF mi None] by (simp add: device_list_def)
    have ol: "observer_list ?p = observer_list p" by (simp add: observer_list_def)
    have "maps_ok ?p"
      using m(1) pre keys_in_step(1) [OF m(1)] dl ol unfolding maps_ok_def by (simp add: map_inv_insert)
    moreover have "observers_ok ?p" using m(2) by (simp add: observers_ok_def ol)
    moreover have "told_ok ?p"
      using m(2,3) by (auto simp: told_ok_def known_append ol dl observers_ok_def told_added list_all_iff)
    moreover have "list_all (device_ok u) (device_list ?p)" using m(4) pre dl by simp
    ultimately show ?thesis using Add_new [OF m(1) dev None, of h ctx] by (auto simp: list_all_iff)
  qed
qed

lemma inv_remove:
  assumes inv: "provider_inv (u, p)"
  shows "\<exists>r s'. provider_step (OpRemove k) (u, p) = Some (r, s') \<and> provider_inv s'"
proof (cases "TinyMap_GetValue (devices p) (Some k)")
  case None
  then show ?thesis using inv Remove_absent [OF None, of u] by simp
next
  case (Some d)
  have m: "maps_ok p" "observers_ok p" "told_ok p" "list_all (device_ok u) (device_list p)" using inv by simp_all
  have mi: "map_inv (devices p)" using m(1) by (simp add: maps_ok_def)
  obtain xs key ys where sp: "map_entries (devices p) = xs @ (key, d) # ys"
      "map_entries (snd (TinyMap_Erase (devices p) (Some k))) = xs @ ys"
    using map_erase_split [OF mi Some] by auto
  let ?p = "p\<lparr>devices := snd (TinyMap_Erase (devices p) (Some k)),
       handlers := snd (TinyMap_Erase (handlers p) (Some k)),
       calls := calls p @ removed_calls d (observer_list p)\<rparr>"
  have dl: "device_list p = map snd xs @ d # map snd ys" "device_list ?p = map snd xs @ map snd ys"
    using sp by (simp_all add: device_list_def)
  have ol: "observer_list ?p = observer_list p" by (simp add: observer_list_def)
  obtain dev where dev: "dev_at u d = Some dev" "services_ok u dev"
    using m(4) by (auto simp: dl device_ok_def split: option.splits)
  have "maps_ok ?p"
    using m(1) keys_in_step(2) [OF m(1)] dl ol unfolding maps_ok_def by (simp add: tm.inv_erase)
  moreover have "observers_ok ?p" using m(2) by (simp add: observers_ok_def ol)
  moreover have "told_ok ?p"
    using m(2,3) by (auto simp: told_ok_def known_append ol dl observers_ok_def told_removed list_all_iff)
  moreover have "list_all (device_ok u) (device_list ?p)" using m(4) dl by simp
  ultimately show ?thesis using Remove_present [OF m(1) Some dev] by (auto simp: list_all_iff)
qed

lemma inv_observe:
  assumes inv: "provider_inv (u, p)" and pre: "provider_pre (OpObserve n added removed changed ctx) (u, p)"
  shows "\<exists>r s'. provider_step (OpObserve n added removed changed ctx) (u, p) = Some (r, s') \<and> provider_inv s'"
proof (cases "TinyMap_GetValue (observers p) (Some n)")
  case (Some e)
  then show ?thesis using inv Observe_dup [OF _ Some] by auto
next
  case None
  have m: "maps_ok p" "observers_ok p" "told_ok p" "list_all (device_ok u) (device_list p)" using inv by simp_all
  let ?x = "\<lparr>OnDeviceAdded = Some added, OnDeviceRemoved = Some removed, OnServiceChanged = changed, obs_ctx = ctx\<rparr>"
  let ?p = "p\<lparr>observers := snd (TinyMap_Insert [] (observers p) (Some n) (Some ?x)),
       calls := calls p @ map (\<lambda>d. DeviceAdded added (Some d) ctx) (device_list p)\<rparr>"
  have mi: "map_inv (observers p)" using m(1) by (simp add: maps_ok_def)
  have ol: "observer_list ?p = observer_list p @ [?x]"
    using entries_insert [OF mi None] by (simp add: observer_list_def)
  have dl: "device_list ?p = device_list p" by (simp add: device_list_def)
  have "maps_ok ?p" using m(1) pre dl ol unfolding maps_ok_def by (simp add: map_inv_insert)
  moreover have "observers_ok ?p" using m(2) pre by (simp add: observers_ok_def ol)
  moreover have "told_ok ?p"
    using m(3) pre unfolding told_ok_def ol dl by (auto simp: known_append told_all_added)
  ultimately show ?thesis using m(4) dl Observe_new [OF m(1) None, of added "Some removed" changed ctx] by auto
qed

lemma inv_unobserve:
  assumes inv: "provider_inv (u, p)"
  shows "\<exists>r s'. provider_step (OpUnobserve n) (u, p) = Some (r, s') \<and> provider_inv s'"
proof (cases "TinyMap_GetValue (observers p) (Some n)")
  case None
  then show ?thesis using inv Unobserve_absent [OF None] by simp
next
  case (Some x)
  have m: "maps_ok p" "observers_ok p" "told_ok p" "list_all (device_ok u) (device_list p)" using inv by simp_all
  have mi: "map_inv (observers p)" using m(1) by (simp add: maps_ok_def)
  obtain xs key ys where sp: "map_entries (observers p) = xs @ (key, x) # ys"
      "map_entries (snd (TinyMap_Erase (observers p) (Some n))) = xs @ ys"
    using map_erase_split [OF mi Some] by auto
  have x: "observer_list p = map snd xs @ x # map snd ys" using sp by (simp add: observer_list_def)
  then obtain f where f: "OnDeviceRemoved x = Some f" using m(2) by (auto simp: observers_ok_def)
  let ?p = "p\<lparr>observers := snd (TinyMap_Erase (observers p) (Some n)),
       calls := calls p @ map (\<lambda>d. DeviceRemoved f (Some d) (obs_ctx x)) (device_list p)\<rparr>"
  have ol: "observer_list ?p = map snd xs @ map snd ys" using sp by (simp add: observer_list_def)
  have dl: "device_list ?p = device_list p" by (simp add: device_list_def)
  have "maps_ok ?p" using m(1) dl ol x unfolding maps_ok_def by (simp add: tm.inv_erase)
  moreover have "observers_ok ?p" using m(2) by (simp add: observers_ok_def ol x)
  moreover have "told_ok ?p"
    using m(2,3) unfolding told_ok_def ol dl x observers_ok_def by (auto simp: known_append told_all_removed)
  ultimately show ?thesis using m(4) dl Unobserve_present [OF m(1) Some f] by auto
qed

interpretation prov: object provider_step provider_pre provider_inv
proof unfold_locales
  fix s :: "'f ustore \<times> provider" and op
  assume "provider_inv s" "provider_pre op s"
  then show "\<exists>r s'. provider_step op s = Some (r, s') \<and> provider_inv s'"
    by (cases s; cases op) (use inv_add inv_remove inv_observe inv_unobserve in blast)+
qed

subsection \<open>Properties\<close>

lemma fresh_provider: "provider_inv (u, snd (UpnpProvider_Construct TINY_RET_OK))"
  by (simp add: UpnpProvider_Construct_def TinyMap_Construct_def TinyMap_SetDeleteListener_def maps_ok_def observers_ok_def
      told_ok_def map_inv_def device_list_def observer_list_def map_entries_def L_new_def L_SetDeleteListener_def
      count_ok_def TinyMap_GetValue_def L_Foreach_def)

lemmas fresh_simps = UpnpProvider_Construct_def TinyMap_Construct_def TinyMap_SetDeleteListener_def L_new_def
  L_SetDeleteListener_def

lemma fresh_maps: "maps_ok (snd (UpnpProvider_Construct TINY_RET_OK))"
  by (rule fresh_provider [unfolded provider_inv.simps, THEN conjunct1])

lemma fresh_lists: "device_list (snd (UpnpProvider_Construct TINY_RET_OK)) = []"
    "observer_list (snd (UpnpProvider_Construct TINY_RET_OK)) = []"
  by (simp_all add: fresh_simps device_list_def observer_list_def map_entries_def)

lemma fresh_lookup: "TinyMap_GetValue (devices (snd (UpnpProvider_Construct TINY_RET_OK))) k = None"
    "TinyMap_GetValue (observers (snd (UpnpProvider_Construct TINY_RET_OK))) k = None"
  by (simp_all add: fresh_simps TinyMap_GetValue_def L_Foreach_def split: option.splits)

text \<open>
  C3. Starting from a new provider, devices are added and removed and observers with both device
  callbacks registered and unregistered in any order: no operation runs into undefined
  behaviour, every registered observer has been told of exactly the devices that are in the
  provider (added and not removed again), and an observer that left has been told that every
  device it knew was removed.
\<close>

theorem provider_views:
  assumes "allowed provider_step provider_pre ops (u, snd (UpnpProvider_Construct TINY_RET_OK))"
  shows "\<exists>rs u' p'. run_ops provider_step ops (u, snd (UpnpProvider_Construct TINY_RET_OK)) = Some (rs, u', p')
    \<and> (\<forall>ctx. known ctx (calls p') =
         (if ctx \<in> obs_ctx ` set (observer_list p') then mset (device_list p') else {#}))"
  using prov.run_inv [OF fresh_provider assms] by (auto simp: told_ok_def)

definition demo_device :: "string \<Rightarrow> upnp_device" where
  "demo_device k = snd (UpnpDevice_SetDeviceId (snd UpnpDevice_Construct) (Some k))"

definition demo_world :: "int ustore" where
  "demo_world = \<lparr>dev_at = [1 \<mapsto> demo_device ''d1'', 2 \<mapsto> demo_device ''d2''], srv_at = Map.empty, act_at = Map.empty\<rparr>"

lemma demo_device_id: "UpnpDevice_GetDeviceId (demo_device ''d1'') = Some ''d1''"
    "UpnpDevice_GetDeviceId (demo_device ''d2'') = Some ''d2''"
  by (simp_all add: demo_device_def UpnpDevice_SetDeviceId_def UpnpDevice_GetDeviceId_def read_field_def field_cpy_def
      UDN_LEN_def c_str_def)

lemma demo_device_ok: "device_ok demo_world 1" "device_ok demo_world 2"
  using demo_device_id
  by (simp_all add: device_ok_def demo_world_def services_ok_def named_ok_def demo_device_def UpnpDevice_SetDeviceId_def
      UpnpDevice_Construct_def L_new_def count_ok_def)

definition demo_run :: "provider_op list" where
  "demo_run = [OpObserve ''o'' 10 11 None (Some 20), OpAdd 1 30 None, OpRemove ''d1'', OpUnobserve ''o'']"

lemma demo_run_allowed:
  "allowed provider_step provider_pre demo_run (demo_world, snd (UpnpProvider_Construct TINY_RET_OK))"
proof -
  let ?p = "snd (UpnpProvider_Construct TINY_RET_OK)"
  show ?thesis
    using Observe_new [OF fresh_maps fresh_lookup(2), of "''o''" 10 "Some 11" None "Some 20"] demo_device_ok fresh_lists
    by (auto simp: demo_run_def device_list_def split: option.splits)
qed

theorem provider_views_witness:
  "\<exists>rs u' p'. run_ops provider_step demo_run (demo_world, snd (UpnpProvider_Construct TINY_RET_OK)) = Some (rs, u', p')
    \<and> (\<forall>ctx. known ctx (calls p') =
         (if ctx \<in> obs_ctx ` set (observer_list p') then mset (device_list p') else {#}))"
  by (rule provider_views [OF demo_run_allowed])

text \<open>
  When the memory for the handler's context runs out, adding a device fails but is not undone:
  the device stays in the provider, without a handler, no observer is told of it, and adding it
  again is refused as already there.
\<close>

theorem provider_add_no_rollback:
  assumes "maps_ok p" and "dev_at u d = Some dev" and "UpnpDevice_GetDeviceId dev = Some k"
    and "UpnpProvider_GetDevice p (Some k) = None"
  shows "\<exists>p'. UpnpProvider_Add [] False [] u p (Some d) (Some h) ctx = Some (TINY_RET_E_NEW, u, p')
    \<and> UpnpProvider_GetDevice p' (Some k) = Some d \<and> TinyMap_GetValue (handlers p') (Some k) = None
    \<and> calls p' = calls p
    \<and> UpnpProvider_Add [] True [] u p' (Some d) (Some h) ctx = Some (TINY_RET_E_ITEM_EXIST, u, p')"
proof -
  have m: "map_inv (devices p)" "TinyMap_GetValue (devices p) (Some k) = None"
      "TinyMap_GetValue (handlers p) (Some k) = None"
    using assms(1,4) by (simp_all add: maps_ok_def UpnpProvider_GetDevice_def)
  obtain ds where ds: "TinyMap_Insert [] (devices p) (Some k) (Some d) = (TINY_RET_OK, ds)"
    using tm.add_new [OF m(1) TrueI TrueI m(2), of d] by (metis prod.collapse)
  have inv: "map_inv ds" and found: "TinyMap_GetValue ds (Some k) = Some d"
    using map_inv_insert [OF m(1), of "[]" k d] tm.lookup_added [OF m(1) TrueI TrueI, of k d] m(2) ds by simp_all
  have dup: "TinyMap_Insert [] ds (Some k) (Some d) = (TINY_RET_E_ITEM_EXIST, ds)"
    using tm.add_dup [OF inv TrueI found] .
  show ?thesis
    using assms(2,3) m found by (simp add: UpnpProvider_Add_def ds dup UpnpProvider_GetDevice_def)
qed

theorem provider_add_no_rollback_witness:
  "\<exists>p'. UpnpProvider_Add [] False [] demo_world (snd (UpnpProvider_Construct TINY_RET_OK)) (Some 1) (Some 30) None =
      Some (TINY_RET_E_NEW, demo_world, p')
    \<and> UpnpProvider_GetDevice p' (Some ''d1'') = Some 1"
proof -
  let ?p = "snd (UpnpProvider_Construct TINY_RET_OK)"
  have "maps_ok ?p" by (rule fresh_maps)
  moreover have "dev_at demo_world 1 = Some (demo_device ''d1'')" by (simp add: demo_world_def)
  moreover have "UpnpProvider_GetDevice ?p (Some ''d1'') = None"
    by (simp add: UpnpProvider_GetDevice_def fresh_lookup)
  ultimately show ?thesis using provider_add_no_rollback [of ?p demo_world 1 _ "''d1''" 30 None, OF _ _ demo_device_id(1)] by blast
qed

text \<open>
  A device that was added is found by its identifier, and an action of one of its services
  gets the handler it was added with; after its removal neither is found.
\<close>

theorem provider_handler_lookup:
  assumes "maps_ok p" and "dev_at u d = Some dev" and "UpnpDevice_GetDeviceId dev = Some k" and "services_ok u dev"
    and "UpnpProvider_GetDevice p (Some k) = None"
    and "act_at u a = Some act" and "UpnpAction_GetParentService act = Some sa"
    and "srv_at u sa = Some s" and "UpnpService_GetParentDevice s = Some d"
  shows "\<exists>u' p' u'' p''. UpnpProvider_Add [] True [] u p (Some d) (Some h) ctx = Some (TINY_RET_OK, u', p')
    \<and> UpnpProvider_GetDevice p' (Some k) = Some d
    \<and> UpnpProvider_GetActionHandlerContext u' p' (Some a) = Some (Some \<lparr>handler = h, handler_ctx = ctx\<rparr>)
    \<and> UpnpProvider_Remove u' p' (Some k) = Some (TINY_RET_OK, u'', p'')
    \<and> UpnpProvider_GetDevice p'' (Some k) = None
    \<and> UpnpProvider_GetActionHandlerContext u'' p'' (Some a) = Some None"
proof -
  have none: "TinyMap_GetValue (devices p) (Some k) = None" using assms(5) by (simp add: UpnpProvider_GetDevice_def)
  let ?c = "\<lparr>handler = h, handler_ctx = ctx\<rparr>"
  define u' where "u' = with_listener dev True u"
  define p' where "p' = p\<lparr>devices := snd (TinyMap_Insert [] (devices p) (Some k) (Some d)),
       handlers := snd (TinyMap_Insert [] (handlers p) (Some k) (Some ?c)),
       calls := calls p @ added_calls d (observer_list p)\<rparr>"
  define u'' where "u'' = with_listener dev False u'"
  define p'' where "p'' = p'\<lparr>devices := snd (TinyMap_Erase (devices p') (Some k)),
       handlers := snd (TinyMap_Erase (handlers p') (Some k)),
       calls := calls p' @ removed_calls d (observer_list p')\<rparr>"
  have m: "map_inv (devices p)" "map_inv (handlers p)" "TinyMap_GetValue (handlers p) (Some k) = None"
    using assms(1) none by (simp_all add: maps_ok_def)
  have add: "UpnpProvider_Add [] True [] u p (Some d) (Some h) ctx = Some (TINY_RET_OK, u', p')"
    unfolding u'_def p'_def by (rule Add_new [OF assms(1-4) none])
  have lk: "TinyMap_GetValue (devices p') (Some k) = Some d" "TinyMap_GetValue (handlers p') (Some k) = Some ?c"
    using tm.lookup_added [OF m(1) TrueI TrueI, of k d] tm.lookup_added [OF m(2) TrueI TrueI, of k ?c] none m(3)
    by (simp_all add: p'_def)
  have mi: "map_inv (devices p')" "map_inv (handlers p')" using m by (simp_all add: p'_def map_inv_insert)
  have srv: "\<exists>s'. srv_at (with_listener dev l v) sa = Some s' \<and> UpnpService_GetParentDevice s' = Some d"
    if "srv_at v sa = Some t" "UpnpService_GetParentDevice t = Some d" for l t and v :: "'a ustore"
    using that by (simp add: with_listener_def UpnpService_SetChangedListener_def UpnpService_GetParentDevice_def)
  obtain s1 where s1: "srv_at u' sa = Some s1" "UpnpService_GetParentDevice s1 = Some d"
    using srv [OF assms(8,9)] unfolding u'_def by blast
  obtain s2 where s2: "srv_at u'' sa = Some s2" "UpnpService_GetParentDevice s2 = Some d"
    using srv [OF s1] unfolding u''_def by blast
  have obs: "observer_list p' = observer_list p" "map_inv (observers p)" "length (map_entries (observers p)) < 2 ^ 31"
      "observers p' = observers p"
    using assms(1) by (simp_all add: maps_ok_def observer_list_def p'_def)
  have "\<exists>ds hs. TinyMap_Erase (devices p') (Some k) = (TINY_RET_OK, ds) \<and> TinyMap_Erase (handlers p') (Some k) = (TINY_RET_OK, hs)"
    using tm.erase_ok [OF mi(1) lk(1)] tm.erase_ok [OF mi(2) lk(2)] by (metis prod.collapse)
  then obtain ds hs where e: "TinyMap_Erase (devices p') (Some k) = (TINY_RET_OK, ds)"
      "TinyMap_Erase (handlers p') (Some k) = (TINY_RET_OK, hs)" by blast
  have dev': "dev_at u' d = Some dev" "dev_at u'' d = Some dev" "act_at u' a = Some act" "act_at u'' a = Some act"
    using assms(2,6) by (simp_all add: u'_def u''_def with_listener_def)
  have "services_ok u' dev"
    using assms(2-4) device_ok_listener [of dev True u d] by (simp add: u'_def device_ok_def)
  then have rem: "UpnpProvider_Remove u' p' (Some k) = Some (TINY_RET_OK, u'', p'')"
    using notify_removed_all [OF obs(2,3), of d p'] listener_loop_all [of u' dev False] lk(1) dev'(1) e
    by (simp add: UpnpProvider_Remove_def obs(4) p''_def u''_def observer_list_def)
  have gone: "TinyMap_GetValue (devices p'') (Some k) = None" "TinyMap_GetValue (handlers p'') (Some k) = None"
    using tm.lookup_erased [OF mi(1)] tm.lookup_erased [OF mi(2)] by (simp_all add: p''_def)
  show ?thesis
    using add rem gone lk dev' assms(3,7) s1 s2
    by (simp add: UpnpProvider_GetDevice_def UpnpProvider_GetActionHandlerContext_def)
qed

definition demo_world_action :: "int ustore" where
  "demo_world_action = demo_world\<lparr>srv_at := [5 \<mapsto> UpnpService_SetParentDevice (snd UpnpService_Construct) (Some 1)],
     act_at := [7 \<mapsto> UpnpAction_SetParentService (snd UpnpAction_Construct) (Some 5)]\<rparr>"

theorem provider_handler_lookup_witness:
  "\<exists>u' p'. UpnpProvider_Add [] True [] demo_world_action (snd (UpnpProvider_Construct TINY_RET_OK)) (Some 1) (Some 30) None =
      Some (TINY_RET_OK, u', p')
    \<and> UpnpProvider_GetActionHandlerContext u' p' (Some 7) = Some (Some \<lparr>handler = 30, handler_ctx = None\<rparr>)"
proof -
  let ?p = "snd (UpnpProvider_Construct TINY_RET_OK)" and ?u = demo_world_action
  have "maps_ok ?p" by (rule fresh_maps)
  moreover have "dev_at ?u 1 = Some (demo_device ''d1'')" by (simp add: demo_world_def demo_world_action_def)
  moreover have "services_ok ?u (demo_device ''d1'')"
    using demo_device_ok(1) by (simp add: device_ok_def services_ok_def demo_world_def demo_device_def named_ok_def
        UpnpDevice_SetDeviceId_def UpnpDevice_Construct_def L_new_def)
  moreover have "UpnpProvider_GetDevice ?p (Some ''d1'') = None"
    by (simp add: UpnpProvider_GetDevice_def fresh_lookup)
  ultimately obtain u' p' where "UpnpProvider_Add [] True [] ?u ?p (Some 1) (Some 30) None = Some (TINY_RET_OK, u', p')"
      "UpnpProvider_GetActionHandlerContext u' p' (Some 7) = Some (Some \<lparr>handler = 30, handler_ctx = None\<rparr>)"
    using provider_handler_lookup [of ?p ?u 1 "demo_device ''d1''" "''d1''" 7
        "UpnpAction_SetParentService (snd UpnpAction_Construct) (Some 5)" 5
        "UpnpService_SetParentDevice (snd UpnpService_Construct) (Some 1)" 30 None, OF _ _ demo_device_id(1)]
    by (auto simp: demo_world_action_def UpnpAction_GetParentService_def UpnpAction_SetParentService_def
        UpnpService_GetParentDevice_def UpnpService_SetParentDevice_def)
  then show ?thesis by blast
qed

end
