(* ===== verification/TinyXml.thy ===== *)
theory TinyXml
  imports ListLoops TinyString
begin

section \<open>The XML tree: \<open>Tiny/Xml/TinyXmlNode.c\<close> and \<open>TinyXml.c\<close>\<close>

text \<open>
  Nodes refer to each other by pointer (children, parent), so they live in a heap by address.
  \<open>TinyXml_Parse\<close> hands the text to the expat library, which calls \<open>xml_start\<close>, \<open>xml_end\<close>
  and \<open>xml_data\<close>; expat is the argument \<open>expat\<close>, the calls it makes for a text and whether
  it accepts it. A new node gets the next unused address \<open>brk\<close>; \<open>mem\<close> holds the outcomes of
  the allocations to come.
\<close>

subsection \<open>Nodes\<close>

definition XML_ELEMENT_UNDEFINED :: "32 word" where "XML_ELEMENT_UNDEFINED = 0"
definition XML_ELEMENT_TAG :: "32 word" where "XML_ELEMENT_TAG = 1"
definition XML_TAG_NAME_PREFIX_LEN :: nat where "XML_TAG_NAME_PREFIX_LEN = 128"
definition XML_TAG_NAME_LEN :: nat where "XML_TAG_NAME_LEN = 128"
definition XML_ATTR_NAME_LEN :: nat where "XML_ATTR_NAME_LEN = 128"
definition XML_ATTR_VALUE_LEN :: nat where "XML_ATTR_VALUE_LEN = 128"

lemmas xml_lens [field_defs] = XML_TAG_NAME_PREFIX_LEN_def XML_TAG_NAME_LEN_def XML_ATTR_NAME_LEN_def
  XML_ATTR_VALUE_LEN_def

record xattr =
  attr_name :: string
  attr_value :: string

record xnode =
  xtype :: "32 word"
  namePrefix :: string
  xname :: string
  attributes :: "xattr lspec option"
  children :: "addr lspec option"
  xparent :: "addr option"
  buffer :: "string option"
  content_length :: "32 word"
  depth :: "32 word"

type_synonym xheap = "addr \<Rightarrow> xnode option"

definition TinyXmlNode_Construct :: "tiny_ret \<times> xnode" where
  "TinyXmlNode_Construct = (TINY_RET_OK, \<lparr>xtype = XML_ELEMENT_UNDEFINED, namePrefix = [], xname = [],
     attributes = None, children = None, xparent = None, buffer = None, content_length = 0, depth = 0\<rparr>)"

definition TinyXmlNode_SetNamePrefix :: "xnode \<Rightarrow> string option \<Rightarrow> tiny_ret \<times> xnode" where
  "TinyXmlNode_SetNamePrefix n s = (case s of
       None \<Rightarrow> (TINY_RET_E_ARG_NULL, n)
     | Some x \<Rightarrow> (TINY_RET_OK, n\<lparr>namePrefix := field_cpy XML_TAG_NAME_LEN x\<rparr>))"

definition TinyXmlNode_SetName :: "xnode \<Rightarrow> string option \<Rightarrow> tiny_ret \<times> xnode" where
  "TinyXmlNode_SetName n s = (case s of
       None \<Rightarrow> (TINY_RET_E_ARG_NULL, n)
     | Some x \<Rightarrow> (TINY_RET_OK, n\<lparr>xtype := XML_ELEMENT_TAG, xname := field_cpy XML_TAG_NAME_LEN x\<rparr>))"

text \<open>\<open>TinyList_New\<close>: a heap list; the delete listener is set by its caller.\<close>

definition TinyList_New :: "bool \<Rightarrow> 'a lspec option" where
  "TinyList_New malloc_ok = (if malloc_ok then Some L_new else None)"

text \<open>The list node's allocation is the third; when it fails the attribute is lost unnoticed.\<close>

definition TinyXmlNode_AddAttribute ::
    "mallocs \<Rightarrow> xnode \<Rightarrow> string option \<Rightarrow> string option \<Rightarrow> tiny_ret \<times> xnode \<times> mallocs" where
  "TinyXmlNode_AddAttribute mem n name val = (case (name, val) of
       (Some a, Some v) \<Rightarrow>
         (case (case attributes n of
                  Some l \<Rightarrow> (Some l, mem)
                | None \<Rightarrow> (case malloc_next mem of (ok, mem1) \<Rightarrow>
                    (map_option (L_SetDeleteListener True) (TinyList_New ok), mem1))) of
            (None, mem1) \<Rightarrow> (TINY_RET_E_OUT_OF_MEMORY, n, mem1)
          | (Some l, mem1) \<Rightarrow> (case malloc_next mem1 of
              (False, mem2) \<Rightarrow> (TINY_RET_E_OUT_OF_MEMORY, n\<lparr>attributes := Some l\<rparr>, mem2)
            | (True, mem2) \<Rightarrow> (case malloc_next mem2 of (ok, mem3) \<Rightarrow>
                (TINY_RET_OK, n\<lparr>attributes := Some (snd (L_AddTail ok (Some
                   \<lparr>attr_name = field_cpy XML_ATTR_NAME_LEN a, attr_value = field_cpy XML_ATTR_VALUE_LEN v\<rparr>) l))\<rparr>, mem3))))
     | _ \<Rightarrow> (TINY_RET_E_ARG_NULL, n, mem))"

text \<open>
  \<open>TinyXmlNode_SetText\<close> appends \<open>len\<close> bytes to the content. The size of the new
  buffer is a \<open>uint32_t\<close>; when it wraps around, the copies overrun it (\<open>None\<close>).
\<close>

definition TinyXmlNode_SetText ::
    "bool \<Rightarrow> xnode \<Rightarrow> string \<Rightarrow> 32 word \<Rightarrow> (tiny_ret \<times> xnode) option" where
  "TinyXmlNode_SetText malloc_ok n bytes len =
     (if len = 0 then Some (TINY_RET_E_ARG_NULL, n)
      else let old = (case buffer n of None \<Rightarrow> [] | Some b \<Rightarrow> b);
               buffer_size = word_of_nat (length old) + len + 1
           in if \<not> malloc_ok then Some (TINY_RET_E_OUT_OF_MEMORY, n)
              else if unat buffer_size < length old + unat len + 1 then None
              else Some (TINY_RET_OK, n\<lparr>buffer := Some (old @ c_str (take (unat len) bytes)), content_length := buffer_size\<rparr>))"

text \<open>\<open>thiz\<close> and \<open>child\<close> are live nodes.\<close>

definition TinyXmlNode_AddChild :: "mallocs \<Rightarrow> xheap \<Rightarrow> addr \<Rightarrow> addr \<Rightarrow> (tiny_ret \<times> xheap \<times> mallocs) option" where
  "TinyXmlNode_AddChild mem h thiz child = do {
     n \<leftarrow> h thiz;
     c \<leftarrow> h child;
     (case (case children n of
              Some l \<Rightarrow> (Some l, mem)
            | None \<Rightarrow> (case malloc_next mem of (ok, mem1) \<Rightarrow>
                (map_option (L_SetDeleteListener True) (TinyList_New ok), mem1))) of
        (None, mem1) \<Rightarrow> Some (TINY_RET_E_OUT_OF_MEMORY, h, mem1)
      | (Some l, mem1) \<Rightarrow> (case malloc_next mem1 of (ok, mem2) \<Rightarrow>
          Some (TINY_RET_OK,
            h(child \<mapsto> c\<lparr>depth := depth n + 1, xparent := Some thiz\<rparr>,
              thiz \<mapsto> n\<lparr>children := Some (snd (L_AddTail ok (Some child) l))\<rparr>), mem2))) }"

subsection \<open>Reading the tree\<close>

text \<open>A NULL node gives \<open>dflt\<close>, a dangling one is undefined.\<close>

definition at_node :: "xheap \<Rightarrow> addr option \<Rightarrow> 'r \<Rightarrow> (xnode \<Rightarrow> 'r option) \<Rightarrow> 'r option" where
  "at_node h p dflt f = (case p of None \<Rightarrow> Some dflt | Some a \<Rightarrow> Option.bind (h a) f)"

definition TinyXmlNode_GetParent :: "xheap \<Rightarrow> addr option \<Rightarrow> addr option option" where
  "TinyXmlNode_GetParent h p = at_node h p None (\<lambda>n. Some (xparent n))"

definition TinyXmlNode_GetContent :: "xheap \<Rightarrow> addr option \<Rightarrow> string option option" where
  "TinyXmlNode_GetContent h p = at_node h p None (\<lambda>n. Some (buffer n))"

definition TinyXmlNode_GetContentLength :: "xheap \<Rightarrow> addr option \<Rightarrow> 32 word option" where
  "TinyXmlNode_GetContentLength h p = at_node h p 0 (\<lambda>n. Some (content_length n))"

definition TinyXmlNode_GetDepth :: "xheap \<Rightarrow> addr option \<Rightarrow> 32 word option" where
  "TinyXmlNode_GetDepth h p = at_node h p 0 (\<lambda>n. Some (depth n))"

definition TinyXmlNode_GetChildren :: "xheap \<Rightarrow> addr option \<Rightarrow> 32 word option" where
  "TinyXmlNode_GetChildren h p = at_node h p 0 (\<lambda>n. Some (case children n of
     None \<Rightarrow> 0 | Some l \<Rightarrow> word_of_int (L_GetCount l)))"

definition TinyXmlNode_GetChildAt :: "xheap \<Rightarrow> addr option \<Rightarrow> 32 word \<Rightarrow> addr option option" where
  "TinyXmlNode_GetChildAt h p index = at_node h p None (\<lambda>n. Some (case children n of
     None \<Rightarrow> None | Some l \<Rightarrow> L_GetAt l (sint index)))"

definition TinyXmlNode_GetAttrCount :: "xheap \<Rightarrow> addr option \<Rightarrow> 32 word option" where
  "TinyXmlNode_GetAttrCount h p = at_node h p 0 (\<lambda>n. Some (case attributes n of
     None \<Rightarrow> 0 | Some l \<Rightarrow> word_of_int (L_GetCount l)))"

definition TinyXmlNode_GetAttrAt :: "xheap \<Rightarrow> addr option \<Rightarrow> 32 word \<Rightarrow> xattr option option" where
  "TinyXmlNode_GetAttrAt h p index = at_node h p None (\<lambda>n. Some (case attributes n of
     None \<Rightarrow> None | Some l \<Rightarrow> L_GetAt l (sint index)))"

definition TinyXmlNode_GetAttr :: "xheap \<Rightarrow> addr option \<Rightarrow> string option \<Rightarrow> xattr option option" where
  "TinyXmlNode_GetAttr h p name = at_node h p None (\<lambda>n. case (name, attributes n) of
     (Some s, Some l) \<Rightarrow> map_option (map_option snd)
        (find_named (\<lambda>a. read_field XML_ATTR_NAME_LEN (attr_name a)) l s 0 (nat (L_GetCount l)))
   | _ \<Rightarrow> Some None)"

definition TinyXmlNode_GetNamePrefix :: "xheap \<Rightarrow> addr option \<Rightarrow> string option option" where
  "TinyXmlNode_GetNamePrefix h p =
     at_node h p None (\<lambda>n. map_option Some (read_field XML_TAG_NAME_PREFIX_LEN (namePrefix n)))"

definition TinyXmlNode_GetName :: "xheap \<Rightarrow> addr option \<Rightarrow> string option option" where
  "TinyXmlNode_GetName h p = at_node h p None (\<lambda>n. map_option Some (read_field XML_TAG_NAME_LEN (xname n)))"

text \<open>
  The visitor stops at the child with the name, compared without case; the flag in its state
  records that a name without terminator or a dangling child was read. \<open>past\<close> is the byte
  after the terminator of the wanted name.
\<close>

definition child_visit :: "char \<Rightarrow> xheap \<Rightarrow> string \<Rightarrow> addr option \<Rightarrow> bool \<Rightarrow> bool \<times> bool" where
  "child_visit past h name d bad = (case Option.bind (Option.bind d h) (\<lambda>n. read_field XML_TAG_NAME_LEN (xname n)) of
       None \<Rightarrow> (False, True)
     | Some s \<Rightarrow> (\<not> str_equal past (Some s) (Some name) True, bad))"

definition TinyXmlNode_GetChildByName :: "char \<Rightarrow> xheap \<Rightarrow> addr option \<Rightarrow> string option \<Rightarrow> addr option option" where
  "TinyXmlNode_GetChildByName past h p name = at_node h p None (\<lambda>n. case (name, children n) of
       (Some s, Some l) \<Rightarrow> (case L_Foreach l (child_visit past h s) False of (index, bad) \<Rightarrow>
          if bad then None else if index < 0 then Some None else Some (L_GetAt l index))
     | _ \<Rightarrow> Some None)"

definition TinyXmlNode_GetChildContent :: "char \<Rightarrow> xheap \<Rightarrow> addr option \<Rightarrow> string option \<Rightarrow> string option option" where
  "TinyXmlNode_GetChildContent past h p name = (if name = None then Some None else do {
     c \<leftarrow> TinyXmlNode_GetChildByName past h p name;
     TinyXmlNode_GetContent h c })"

subsection \<open>TinyXml\<close>

record txml =
  xml_node :: "addr option"
  xml_skip :: bool
  xml_heap :: xheap
  brk :: addr
  mem :: mallocs

definition TinyXml_Construct :: "txml \<Rightarrow> tiny_ret \<times> txml" where
  "TinyXml_Construct x = (TINY_RET_OK, x\<lparr>xml_node := None, xml_skip := False\<rparr>)"

fun add_attributes :: "mallocs \<Rightarrow> xnode \<Rightarrow> (string \<times> string) list \<Rightarrow> xnode \<times> mallocs" where
  "add_attributes m n [] = (n, m)"
| "add_attributes m n ((a, v) # atts) = (case TinyXmlNode_AddAttribute m n (Some a) (Some v) of
     (_, n', m') \<Rightarrow> add_attributes m' n' atts)"

definition set_names :: "xnode \<Rightarrow> string \<Rightarrow> xnode" where
  "set_names n name = (case str_split name '':'' 2 of
       Some [_] \<Rightarrow> snd (TinyXmlNode_SetName n (Some name))
     | Some [g0, g1] \<Rightarrow> snd (TinyXmlNode_SetName (snd (TinyXmlNode_SetNamePrefix n (Some g0))) (Some g1))
     | _ \<Rightarrow> n)"

definition xml_start :: "string \<Rightarrow> (string \<times> string) list \<Rightarrow> txml \<Rightarrow> txml option" where
  "xml_start name atts x = (case malloc_next (mem x) of
       (False, m) \<Rightarrow> Some (x\<lparr>mem := m\<rparr>)
     | (True, m) \<Rightarrow> (case add_attributes m (set_names (snd TinyXmlNode_Construct) name) atts of
         (n, m') \<Rightarrow> (let a = brk x; h = (xml_heap x)(a \<mapsto> n); x' = x\<lparr>brk := a + 1, xml_skip := True, xml_node := Some a\<rparr>
           in case xml_node x of
                None \<Rightarrow> Some (x'\<lparr>xml_heap := h, mem := m'\<rparr>)
              | Some p \<Rightarrow> map_option (\<lambda>(_, h', m''). x'\<lparr>xml_heap := h', mem := m''\<rparr>) (TinyXmlNode_AddChild m' h p a))))"

definition xml_end :: "txml \<Rightarrow> txml option" where
  "xml_end x = map_option (\<lambda>p. x\<lparr>xml_node := (if p \<noteq> None then p else xml_node x), xml_skip := True\<rparr>)
     (TinyXmlNode_GetParent (xml_heap x) (xml_node x))"

definition is_blank :: "char \<Rightarrow> bool" where
  "is_blank c \<longleftrightarrow> c = CHR '' '' \<or> c = CHR 0x0D \<or> c = CHR 0x0A \<or> c = CHR 0x09"

text \<open>\<open>SetText\<close> refuses a NULL node and empty data, and its result is not looked at.\<close>

definition xml_data :: "string \<Rightarrow> txml \<Rightarrow> txml option" where
  "xml_data s x = (let rest = (if xml_skip x then dropWhile is_blank s else s)
     in if xml_skip x \<and> rest = [] then Some x
        else case xml_node x of
            None \<Rightarrow> Some (x\<lparr>xml_skip := False\<rparr>)
          | Some a \<Rightarrow> do {
              n \<leftarrow> xml_heap x a;
              let len = word_of_nat (length rest);
              (case (if len = 0 then (True, mem x) else malloc_next (mem x)) of (ok, m) \<Rightarrow>
                 map_option (\<lambda>(_, n'). x\<lparr>xml_heap := (xml_heap x)(a \<mapsto> n'), xml_skip := False, mem := m\<rparr>)
                   (TinyXmlNode_SetText ok n rest len)) })"

datatype sax = StartElement string "(string \<times> string) list" | EndElement string | CharData string
  | CdataStart | CdataEnd

fun sax_handle :: "sax \<Rightarrow> txml \<Rightarrow> txml option" where
  "sax_handle (StartElement name atts) x = xml_start name atts x"
| "sax_handle (EndElement name) x = xml_end x"
| "sax_handle (CharData s) x = xml_data s x"
| "sax_handle CdataStart x = Some x"
| "sax_handle CdataEnd x = Some x"

fun sax_run :: "sax list \<Rightarrow> txml \<Rightarrow> txml option" where
  "sax_run [] x = Some x"
| "sax_run (e # es) x = Option.bind (sax_handle e x) (sax_run es)"

definition TinyXml_Parse :: "(string \<Rightarrow> sax list \<times> bool) \<Rightarrow> bool \<Rightarrow> txml \<Rightarrow> string \<Rightarrow> (tiny_ret \<times> txml) option" where
  "TinyXml_Parse expat parser_ok x text =
     (if xml_node x \<noteq> None then Some (TINY_RET_E_STARTED, x)
      else if \<not> parser_ok then Some (TINY_RET_E_OUT_OF_MEMORY, x)
      else case expat text of (events, ok) \<Rightarrow>
        map_option (\<lambda>x'. (if ok then TINY_RET_OK else TINY_RET_E_XML_INVALID, x')) (sax_run events x))"

definition TinyXml_GetRoot :: "txml \<Rightarrow> addr option" where
  "TinyXml_GetRoot x = xml_node x"

definition TinyXml_Load :: "tiny_ret" where "TinyXml_Load = TINY_RET_E_NOT_IMPLEMENTED"
definition TinyXml_ToString :: "tiny_ret" where "TinyXml_ToString = TINY_RET_E_NOT_IMPLEMENTED"

subsection \<open>Documents and the trees they become\<close>

text \<open>
  A document as expat sees it: elements with attributes, and pieces of text (a text may come in
  several pieces). \<open>sax_of\<close> are the calls for it.
\<close>

datatype xitem = XText string | XElem string "(string \<times> string) list" "xitem list"

fun sax_of :: "xitem \<Rightarrow> sax list" where
  "sax_of (XText s) = [CharData s]"
| "sax_of (XElem n atts its) = StartElement n atts # concat (map sax_of its) @ [EndElement n]"

text \<open>
  The text an element collects: white space is dropped between a tag and the next text, the
  rest of the pieces are joined.
\<close>

definition opt_text :: "string option \<Rightarrow> string" where
  "opt_text t = (case t of None \<Rightarrow> [] | Some b \<Rightarrow> b)"

fun gather :: "bool \<times> string option \<Rightarrow> xitem list \<Rightarrow> bool \<times> string option" where
  "gather (skip, t) [] = (skip, t)"
| "gather (skip, t) (XText s # its) = (let r = (if skip then dropWhile is_blank s else s)
     in if r = [] then gather (skip, t) its
        else gather (False, Some (opt_text t @ r)) its)"
| "gather (skip, t) (XElem n atts cs # its) = gather (True, t) its"

definition elem_text :: "xitem list \<Rightarrow> string option" where
  "elem_text its = snd (gather (True, None) its)"

definition attr_list :: "(string \<times> string) list \<Rightarrow> xattr list" where
  "attr_list atts = map (\<lambda>(a, v). \<lparr>attr_name = field_cpy XML_ATTR_NAME_LEN a, attr_value = field_cpy XML_ATTR_VALUE_LEN v\<rparr>) atts"

definition opt_list :: "'a lspec option \<Rightarrow> 'a list \<Rightarrow> bool" where
  "opt_list l xs \<longleftrightarrow> (case l of None \<Rightarrow> xs = []
     | Some s \<Rightarrow> items s = map Some xs \<and> count_ok s \<and> has_listener s)"

text \<open>
  \<open>rep lo hi h p d a it\<close>: in the heap, at address \<open>a\<close>, is the tree of the element \<open>it\<close>, below the
  node \<open>p\<close> at depth \<open>d\<close>, in addresses from \<open>lo\<close> up to \<open>hi\<close>. \<open>reps\<close>: the same for the
  children at the addresses \<open>cs\<close>, one for each element among the items.
\<close>

fun rep :: "addr \<Rightarrow> addr \<Rightarrow> xheap \<Rightarrow> addr option \<Rightarrow> 32 word \<Rightarrow> addr \<Rightarrow> xitem \<Rightarrow> bool"
  and reps :: "addr \<Rightarrow> addr \<Rightarrow> xheap \<Rightarrow> addr \<Rightarrow> 32 word \<Rightarrow> addr list \<Rightarrow> xitem list \<Rightarrow> bool" where
  "rep lo hi h p d a (XText s) \<longleftrightarrow> False"
| "rep lo hi h p d a (XElem name atts its) \<longleftrightarrow> lo \<le> a \<and> a < hi \<and> (\<exists>n cs. h a = Some n
     \<and> xtype n = XML_ELEMENT_TAG
     \<and> namePrefix n = namePrefix (set_names (snd TinyXmlNode_Construct) name)
     \<and> xname n = xname (set_names (snd TinyXmlNode_Construct) name)
     \<and> opt_list (attributes n) (attr_list atts) \<and> xparent n = p \<and> depth n = d
     \<and> buffer n = elem_text its
     \<and> opt_list (children n) cs \<and> reps lo hi h a (d + 1) cs its)"
| "reps lo hi h p d cs [] \<longleftrightarrow> cs = []"
| "reps lo hi h p d cs (XText s # its) \<longleftrightarrow> reps lo hi h p d cs its"
| "reps lo hi h p d [] (XElem name atts its' # its) \<longleftrightarrow> False"
| "reps lo hi h p d (c # cs) (XElem name atts its' # its) \<longleftrightarrow>
     rep lo hi h (Some p) d c (XElem name atts its') \<and> reps lo hi h p d cs its"

lemma rep_mono:
  "(rep lo hi h p d a it \<longrightarrow> lo' \<le> lo \<longrightarrow> hi \<le> hi' \<longrightarrow> (\<forall>b. lo \<le> b \<longrightarrow> b < hi \<longrightarrow> h' b = h b) \<longrightarrow> rep lo' hi' h' p d a it)
   \<and> True"
  "reps lo hi h q d cs its \<longrightarrow> lo' \<le> lo \<longrightarrow> hi \<le> hi' \<longrightarrow> (\<forall>b. lo \<le> b \<longrightarrow> b < hi \<longrightarrow> h' b = h b) \<longrightarrow> reps lo' hi' h' q d cs its"
  by (induction lo hi h p d a it and lo hi h q d cs its rule: rep_reps.induct) auto

lemma reps_append:
  "reps lo hi h p d cs its \<Longrightarrow> reps lo hi h p d cs' its' \<Longrightarrow> reps lo hi h p d (cs @ cs') (its @ its')"
  by (induction lo hi h p d cs its rule: rep_reps.induct(2) [where P = "\<lambda>_ _ _ _ _ _ _. True"]) auto

lemma sax_run_append: "sax_run (es @ fs) x = Option.bind (sax_run es x) (sax_run fs)"
  by (induction es arbitrary: x) (auto split: Option.bind_splits)

lemma gather_append: "gather st (its @ its') = gather (gather st its) its'"
  by (induction st its rule: gather.induct) (simp_all add: Let_def)

text \<open>Attributes and names.\<close>

lemma add_attributes_list:
  "opt_list (attributes n) xs \<Longrightarrow> \<exists>l. fst (add_attributes [] n atts) = n\<lparr>attributes := l\<rparr>
     \<and> snd (add_attributes [] n atts) = [] \<and> opt_list l (xs @ attr_list atts)"
proof (induction atts arbitrary: n xs)
  case Nil
  then show ?case by (auto simp: attr_list_def intro!: exI [of _ "attributes n"])
next
  case (Cons av atts)
  obtain a v where av: "av = (a, v)" by (cases av)
  let ?y = "\<lparr>attr_name = field_cpy XML_ATTR_NAME_LEN a, attr_value = field_cpy XML_ATTR_VALUE_LEN v\<rparr>"
  obtain l where l: "TinyXmlNode_AddAttribute [] n (Some a) (Some v) = (TINY_RET_OK, n\<lparr>attributes := l\<rparr>, [])"
      "opt_list l (xs @ [?y])"
    using Cons.prems
    by (auto simp: TinyXmlNode_AddAttribute_def TinyList_New_def opt_list_def L_new_def L_SetDeleteListener_def
        L_AddTail_def count_ok_def split: option.splits)
  with Cons.IH [of "n\<lparr>attributes := l\<rparr>" "xs @ [?y]"] show ?case by (auto simp: av attr_list_def)
qed

lemma set_names_fields [simp]:
  "attributes (set_names n s) = attributes n" "children (set_names n s) = children n" "buffer (set_names n s) = buffer n"
  "xparent (set_names n s) = xparent n" "depth (set_names n s) = depth n"
  by (simp_all add: set_names_def TinyXmlNode_SetName_def TinyXmlNode_SetNamePrefix_def split: option.splits list.splits)

lemma set_names_type [simp]: "xtype (set_names n s) = XML_ELEMENT_TAG"
proof -
  have "str_split_loop 2 s '':'' \<noteq> [] \<and> length (str_split_loop 2 s '':'') \<le> 2"
    by (auto simp: numeral_2_eq_2 split: option.splits)
  then show ?thesis
    by (cases "str_split_loop 2 s '':''" rule: list.exhaust; cases "tl (str_split_loop 2 s '':'')" rule: list.exhaust)
      (auto simp: set_names_def str_split_def TinyXmlNode_SetName_def split: list.splits)
qed

subsection \<open>The handlers build the tree\<close>

lemma opt_text_simps [simp]: "opt_text None = []" "opt_text (Some b) = b"
  by (simp_all add: opt_text_def)

fun item_size :: "xitem \<Rightarrow> nat" where
  "item_size (XText s) = length s"
| "item_size (XElem n atts its) = 0"

definition text_size :: "xitem list \<Rightarrow> nat" where
  "text_size its = sum_list (map item_size its)"

fun doc_ok :: "xitem \<Rightarrow> bool" where
  "doc_ok (XText s) \<longleftrightarrow> cstring s"
| "doc_ok (XElem n atts its) \<longleftrightarrow> text_size its < 2 ^ 31 \<and> list_all doc_ok its"

lemma gather_length: "length (opt_text (snd (gather st its))) \<le> length (opt_text (snd st)) + text_size its"
proof (induction st its rule: gather.induct)
  case (2 skip t s its)
  define r where "r = (if skip then dropWhile is_blank s else s)"
  have "length r \<le> length s" by (simp add: r_def length_dropWhile_le)
  with 2 [OF r_def] show ?case
    unfolding gather.simps r_def [symmetric] Let_def by (auto simp: text_size_def)
qed (auto simp: text_size_def)

text \<open>
  The situation inside an element: \<open>c\<close> is the current node, memory is available, and the
  addresses from \<open>brk\<close> on are unused. \<open>built\<close>: the items were read into the current node.
\<close>

definition inside :: "txml \<Rightarrow> addr \<Rightarrow> xnode \<Rightarrow> bool" where
  "inside x c n \<longleftrightarrow> xml_node x = Some c \<and> xml_heap x c = Some n \<and> mem x = [] \<and> (\<forall>a \<ge> brk x. xml_heap x a = None)"

definition built :: "txml \<Rightarrow> addr \<Rightarrow> xnode \<Rightarrow> xitem list \<Rightarrow> txml \<Rightarrow> xnode \<Rightarrow> addr list \<Rightarrow> bool" where
  "built x c n its x' n' cs \<longleftrightarrow> inside x' c n' \<and> brk x \<le> brk x'
     \<and> (\<forall>a < brk x. a \<noteq> c \<longrightarrow> xml_heap x' a = xml_heap x a)
     \<and> gather (xml_skip x, buffer n) its = (xml_skip x', buffer n')
     \<and> n' = n\<lparr>buffer := buffer n', content_length := content_length n', children := children n'\<rparr>
     \<and> (\<forall>ys. opt_list (children n) ys \<longrightarrow> opt_list (children n') (ys @ cs))
     \<and> reps (brk x) (brk x') (xml_heap x') c (depth n + 1) cs its"

lemma inside_less: "inside x c n \<Longrightarrow> c < brk x"
  by (metis inside_def not_le_imp_less option.distinct(1))

lemma built_Nil: "inside x c n \<Longrightarrow> built x c n [] x n []"
  by (simp add: built_def)

lemma built_trans:
  assumes "inside x c n" and "built x c n its x1 n1 cs" and "built x1 c n1 its' x2 n2 cs'"
  shows "built x c n (its @ its') x2 n2 (cs @ cs')"
proof -
  have c: "c < brk x" using assms(1) by (rule inside_less)
  have d: "depth n1 = depth n" using assms(2) unfolding built_def by (metis xnode.select_convs(9) xnode.surjective xnode.update_convs)
  have "reps (brk x) (brk x2) (xml_heap x2) c (depth n + 1) cs its"
    using assms(2,3) c rep_mono(2) [of "brk x" "brk x1" "xml_heap x1" c "depth n + 1" cs its "brk x" "brk x2" "xml_heap x2"]
    by (auto simp: built_def)
  moreover have "reps (brk x) (brk x2) (xml_heap x2) c (depth n + 1) cs' its'"
    using assms(2,3) d rep_mono(2) [of "brk x1" "brk x2" "xml_heap x2" c "depth n + 1" cs' its' "brk x" "brk x2" "xml_heap x2"]
    by (auto simp: built_def)
  moreover have "n2 = n\<lparr>buffer := buffer n2, content_length := content_length n2, children := children n2\<rparr>"
  proof -
    have "n1 = n\<lparr>buffer := buffer n1, content_length := content_length n1, children := children n1\<rparr>"
      "n2 = n1\<lparr>buffer := buffer n2, content_length := content_length n2, children := children n2\<rparr>"
      using assms(2,3) by (simp_all add: built_def)
    then show ?thesis by (cases n, cases n1, cases n2) simp
  qed
  ultimately show ?thesis
    using assms(2,3) by (auto simp: built_def gather_append append_assoc [symmetric] reps_append simp del: append_assoc)
qed

lemma read_text:
  assumes "inside x c n" and "cstring s" and "length (opt_text (buffer n)) + length s < 2 ^ 31"
  shows "\<exists>x' n'. sax_run [CharData s] x = Some x' \<and> built x c n [XText s] x' n' []"
proof -
  define r where "r = (if xml_skip x then dropWhile is_blank s else s)"
  have x: "xml_node x = Some c" "xml_heap x c = Some n" "mem x = []" using assms(1) by (simp_all add: inside_def)
  show ?thesis
  proof (cases "r = []")
    case True
    have "xml_data s x = Some x"
    proof (cases "xml_skip x")
      case False
      with True x show ?thesis
        by (simp add: xml_data_def r_def Let_def TinyXmlNode_SetText_def fun_upd_idem)
    qed (use True in \<open>simp add: xml_data_def r_def\<close>)
    moreover have "gather (xml_skip x, buffer n) [XText s] = (xml_skip x, buffer n)"
      using True by (simp add: r_def)
    ultimately show ?thesis using assms(1) by (auto simp: built_def)
  next
    case False
    have len: "length r \<le> length s" by (simp add: r_def length_dropWhile_le)
    have cs: "c_str r = r"
      using assms(2) by (auto simp: r_def cstring_def c_str_def takeWhile_eq_all_conv dest: set_dropWhileD)
    let ?n = "length r" and ?m = "length (opt_text (buffer n))"
    have nn: "unat (word_of_nat ?n :: 32 word) = ?n" using assms(3) len by (simp add: unat_word_of_nat)
    have nz: "word_of_nat ?n \<noteq> (0 :: 32 word)"
      using False assms(3) len nn by (metis length_0_conv unat_0)
    have "unat (word_of_nat ?m + word_of_nat ?n + 1 :: 32 word) = ?m + ?n + 1"
    proof -
      have "word_of_nat ?m + word_of_nat ?n + 1 = (word_of_nat (?m + ?n + 1) :: 32 word)" by simp
      moreover have "?m + ?n + 1 < 2 ^ LENGTH(32)" using assms(3) len by simp
      ultimately show ?thesis by (simp only: unat_word_of_nat)
    qed
    then have st: "TinyXmlNode_SetText True n r (word_of_nat ?n) = Some (TINY_RET_OK,
        n\<lparr>buffer := Some (opt_text (buffer n) @ r), content_length := word_of_nat ?m + word_of_nat ?n + 1\<rparr>)"
      using nz nn cs by (simp add: TinyXmlNode_SetText_def opt_text_def [symmetric] Let_def)
    define n' where "n' = n\<lparr>buffer := Some (opt_text (buffer n) @ r), content_length := word_of_nat ?m + word_of_nat ?n + 1\<rparr>"
    have "xml_data s x = Some (x\<lparr>xml_heap := (xml_heap x)(c \<mapsto> n'), xml_skip := False\<rparr>)"
      using False x nz st unfolding xml_data_def r_def [symmetric] n'_def by (simp add: Let_def)
    moreover have "gather (xml_skip x, buffer n) [XText s] = (False, Some (opt_text (buffer n) @ r))"
      using False by (simp add: r_def opt_text_def Let_def)
    ultimately show ?thesis
      using assms(1) inside_less [OF assms(1)] by (auto simp: built_def inside_def n'_def)
  qed
qed

lemma read_items:
  assumes "\<And>it x c n. it \<in> set its \<Longrightarrow> inside x c n \<Longrightarrow> doc_ok it \<Longrightarrow>
      length (opt_text (buffer n)) + item_size it < 2 ^ 31 \<Longrightarrow>
      \<exists>x' n' cs. sax_run (sax_of it) x = Some x' \<and> built x c n [it] x' n' cs"
  shows "inside x c n \<Longrightarrow> list_all doc_ok its \<Longrightarrow> length (opt_text (buffer n)) + text_size its < 2 ^ 31 \<Longrightarrow>
      \<exists>x' n' cs. sax_run (concat (map sax_of its)) x = Some x' \<and> built x c n its x' n' cs"
  using assms
proof (induction its arbitrary: x n)
  case Nil
  then show ?case using built_Nil [OF Nil.prems(1)] by auto
next
  case (Cons it its)
  have sz: "length (opt_text (buffer n)) + item_size it < 2 ^ 31" using Cons.prems(3) by (simp add: text_size_def)
  obtain x1 n1 cs where x1: "sax_run (sax_of it) x = Some x1" "built x c n [it] x1 n1 cs"
    using Cons.prems(4) [of it x c n] Cons.prems(1,2) sz by auto
  have "length (opt_text (buffer n1)) \<le> length (opt_text (buffer n)) + item_size it"
    using gather_length [of "(xml_skip x, buffer n)" "[it]"] x1(2) by (simp add: built_def text_size_def)
  then have "length (opt_text (buffer n1)) + text_size its < 2 ^ 31"
    using Cons.prems(3) by (simp add: text_size_def)
  moreover have "inside x1 c n1" using x1(2) by (simp add: built_def)
  ultimately obtain x2 n2 cs' where x2: "sax_run (concat (map sax_of its)) x1 = Some x2" "built x1 c n1 its x2 n2 cs'"
    using Cons.IH [of x1 n1] Cons.prems(2,4) by fastforce
  have "built x c n ([it] @ its) x2 n2 (cs @ cs')" by (rule built_trans [OF Cons.prems(1) x1(2) x2(2)])
  then show ?case using x1(1) x2(1) by (auto simp: sax_run_append)
qed

text \<open>Opening an element inside another one.\<close>

definition new_elem :: "string \<Rightarrow> (string \<times> string) list \<Rightarrow> addr option \<Rightarrow> 32 word \<Rightarrow> xattr lspec option \<Rightarrow> xnode" where
  "new_elem name atts p d l = (set_names (snd TinyXmlNode_Construct) name)\<lparr>attributes := l, depth := d, xparent := p\<rparr>"

lemma attributes_of_new:
  "\<exists>l. add_attributes [] (set_names (snd TinyXmlNode_Construct) name) atts =
      ((set_names (snd TinyXmlNode_Construct) name)\<lparr>attributes := l\<rparr>, []) \<and> opt_list l (attr_list atts)"
proof -
  have "opt_list (attributes (set_names (snd TinyXmlNode_Construct) name)) []"
    by (simp add: opt_list_def TinyXmlNode_Construct_def)
  from add_attributes_list [OF this, of atts] obtain l where
    "fst (add_attributes [] (set_names (snd TinyXmlNode_Construct) name) atts) =
        (set_names (snd TinyXmlNode_Construct) name)\<lparr>attributes := l\<rparr>"
    "snd (add_attributes [] (set_names (snd TinyXmlNode_Construct) name) atts) = []" "opt_list l (attr_list atts)"
    by auto
  then show ?thesis by (intro exI [of _ l]) (simp add: prod_eq_iff)
qed

lemma start_inside:
  assumes "inside x c n"
  shows "\<exists>x' n' l. xml_start name atts x = Some x' \<and> inside x' (brk x) (new_elem name atts (Some c) (depth n + 1) l)
    \<and> opt_list l (attr_list atts) \<and> brk x' = brk x + 1 \<and> xml_skip x' \<and> xml_heap x' c = Some n'
    \<and> (\<forall>a < brk x. a \<noteq> c \<longrightarrow> xml_heap x' a = xml_heap x a)
    \<and> n' = n\<lparr>children := children n'\<rparr> \<and> (\<forall>ys. opt_list (children n) ys \<longrightarrow> opt_list (children n') (ys @ [brk x]))"
proof -
  obtain l where l: "add_attributes [] (set_names (snd TinyXmlNode_Construct) name) atts =
      ((set_names (snd TinyXmlNode_Construct) name)\<lparr>attributes := l\<rparr>, [])" "opt_list l (attr_list atts)"
    using attributes_of_new by blast
  have c: "c < brk x" "xml_node x = Some c" "xml_heap x c = Some n" "mem x = []" "\<forall>a \<ge> brk x. xml_heap x a = None"
    using assms inside_less by (auto simp: inside_def)
  define cl where "cl = snd (L_AddTail True (Some (brk x)) (case children n of
      None \<Rightarrow> L_SetDeleteListener True L_new | Some s \<Rightarrow> s))"
  define h where "h = (xml_heap x)(brk x \<mapsto> new_elem name atts (Some c) (depth n + 1) l, c \<mapsto> n\<lparr>children := Some cl\<rparr>)"
  have "TinyXmlNode_AddChild [] ((xml_heap x)(brk x \<mapsto> (set_names (snd TinyXmlNode_Construct) name)\<lparr>attributes := l\<rparr>)) c (brk x) =
      Some (TINY_RET_OK, h, [])"
    using c by (simp add: TinyXmlNode_AddChild_def TinyList_New_def h_def cl_def new_elem_def fun_upd_twist split: option.splits)
  then have st: "xml_start name atts x = Some (x\<lparr>brk := brk x + 1, xml_skip := True, xml_node := Some (brk x), xml_heap := h, mem := []\<rparr>)"
    using c l(1) by (simp add: xml_start_def Let_def)
  have "opt_list (Some cl) (ys @ [brk x])" if "opt_list (children n) ys" for ys
    using that by (auto simp: cl_def opt_list_def L_AddTail_def L_SetDeleteListener_def L_new_def count_ok_def split: option.splits)
  then show ?thesis
    unfolding st using c l(2) by (auto simp: inside_def h_def)
qed

lemma read_elem:
  assumes items: "\<And>x c n. inside x c n \<Longrightarrow> list_all doc_ok its \<Longrightarrow> length (opt_text (buffer n)) + text_size its < 2 ^ 31 \<Longrightarrow>
      \<exists>x' n' cs. sax_run (concat (map sax_of its)) x = Some x' \<and> built x c n its x' n' cs"
    and "inside x c n" and "doc_ok (XElem name atts its)"
  shows "\<exists>x' n' cs. sax_run (sax_of (XElem name atts its)) x = Some x' \<and> built x c n [XElem name atts its] x' n' cs"
proof -
  let ?a = "brk x"
  obtain x1 n1 l where x1: "xml_start name atts x = Some x1" "inside x1 ?a (new_elem name atts (Some c) (depth n + 1) l)"
      "opt_list l (attr_list atts)" "brk x1 = ?a + 1" "xml_skip x1" "xml_heap x1 c = Some n1"
      "\<forall>a < ?a. a \<noteq> c \<longrightarrow> xml_heap x1 a = xml_heap x a" "n1 = n\<lparr>children := children n1\<rparr>"
      "\<forall>ys. opt_list (children n) ys \<longrightarrow> opt_list (children n1) (ys @ [?a])"
    using start_inside [OF assms(2), of name atts] by (elim exE conjE) (rule that)
  let ?e = "new_elem name atts (Some c) (depth n + 1) l"
  have e: "buffer ?e = None" "children ?e = None" "depth ?e = depth n + 1" by (simp_all add: new_elem_def TinyXmlNode_Construct_def)
  obtain x2 n2 cs where x2: "sax_run (concat (map sax_of its)) x1 = Some x2" "built x1 ?a ?e its x2 n2 cs"
    using items [OF x1(2)] assms(3) e by auto
  note bx = x2(2) [unfolded built_def x1(4) e]
  have b: "inside x2 ?a n2" "?a + 1 \<le> brk x2" "\<forall>a < ?a + 1. a \<noteq> ?a \<longrightarrow> xml_heap x2 a = xml_heap x1 a"
    using bx by blast+
  have tx: "buffer n2 = elem_text its" using bx x1(5) by (simp add: elem_text_def)
  have "opt_list (None :: addr lspec option) []" by (simp add: opt_list_def)
  then have kids: "opt_list (children n2) cs" using bx by (metis append_Nil)
  have n2: "n2 = ?e\<lparr>buffer := buffer n2, content_length := content_length n2, children := children n2\<rparr>"
      and tree: "reps (?a + 1) (brk x2) (xml_heap x2) ?a (depth n + 1 + 1) cs its"
    using bx by blast+
  have c: "c < ?a" using inside_less [OF assms(2)] .
  have fields: "xtype n2 = XML_ELEMENT_TAG" "namePrefix n2 = namePrefix (set_names (snd TinyXmlNode_Construct) name)"
      "xname n2 = xname (set_names (snd TinyXmlNode_Construct) name)" "attributes n2 = l" "xparent n2 = Some c"
      "depth n2 = depth n + 1"
    by (subst n2, simp add: new_elem_def)+
  define x' where "x' = x2\<lparr>xml_node := Some c, xml_skip := True\<rparr>"
  have "xml_end x2 = Some x'"
    using b(1) fields(5) by (simp add: xml_end_def TinyXmlNode_GetParent_def at_node_def inside_def x'_def)
  then have run: "sax_run (sax_of (XElem name atts its)) x = Some x'"
    using x1(1) x2(1) by (simp add: sax_run_append)
  have n1: "xml_heap x' c = Some n1" using b(3) c x1(6) by (simp add: x'_def)
  have "inside x' c n1" using b(1) n1 by (simp add: inside_def x'_def)
  moreover have "rep ?a (brk x') (xml_heap x') (Some c) (depth n + 1) ?a (XElem name atts its)"
    using b tx kids tree fields x1(3) rep_mono(2) [of "?a + 1" "brk x2" "xml_heap x2" ?a "depth n + 1 + 1" cs its ?a "brk x2" "xml_heap x2"]
    by (auto simp: x'_def inside_def)
  moreover have "gather (xml_skip x, buffer n) [XElem name atts its] = (xml_skip x', buffer n1)"
    by (subst x1(8)) (simp add: x'_def)
  moreover have "n1 = n\<lparr>buffer := buffer n1, content_length := content_length n1, children := children n1\<rparr>"
    using x1(8) by (cases n, cases n1) simp
  moreover have "\<forall>a < ?a. a \<noteq> c \<longrightarrow> xml_heap x' a = xml_heap x a" using b(3) x1(7) by (simp add: x'_def)
  ultimately have "built x c n [XElem name atts its] x' n1 [?a]"
    using b(2) x1(9) by (simp add: built_def x'_def)
  with run show ?thesis by blast
qed

lemma read_item:
  "inside x c n \<Longrightarrow> doc_ok it \<Longrightarrow> length (opt_text (buffer n)) + item_size it < 2 ^ 31 \<Longrightarrow>
    \<exists>x' n' cs. sax_run (sax_of it) x = Some x' \<and> built x c n [it] x' n' cs"
proof (induction it arbitrary: x c n)
  case (XText s)
  then show ?case using read_text [of x c n s] by auto
next
  case (XElem name atts its)
  show ?case by (rule read_elem) (use XElem read_items [of its] in blast)+
qed

subsection \<open>Parsing\<close>

definition unused :: "txml \<Rightarrow> bool" where
  "unused x \<longleftrightarrow> xml_node x = None \<and> mem x = [] \<and> (\<forall>a \<ge> brk x. xml_heap x a = None)"

lemma start_root:
  assumes "unused x"
  shows "\<exists>x' l. xml_start name atts x = Some x' \<and> inside x' (brk x) (new_elem name atts None 0 l)
    \<and> opt_list l (attr_list atts) \<and> brk x' = brk x + 1 \<and> xml_skip x'"
proof -
  obtain l where l: "add_attributes [] (set_names (snd TinyXmlNode_Construct) name) atts =
      ((set_names (snd TinyXmlNode_Construct) name)\<lparr>attributes := l\<rparr>, [])" "opt_list l (attr_list atts)"
    using attributes_of_new by blast
  have "(set_names (snd TinyXmlNode_Construct) name)\<lparr>attributes := l\<rparr> = new_elem name atts None 0 l"
    by (simp add: new_elem_def TinyXmlNode_Construct_def set_names_def TinyXmlNode_SetName_def
        TinyXmlNode_SetNamePrefix_def split: option.splits list.splits)
  with l assms show ?thesis by (auto simp: xml_start_def unused_def inside_def Let_def)
qed

lemma parse_document:
  assumes "unused x" and "doc_ok (XElem name atts its)"
  shows "\<exists>x'. sax_run (sax_of (XElem name atts its)) x = Some x' \<and> xml_node x' = Some (brk x) \<and> brk x < brk x'
    \<and> mem x' = [] \<and> rep (brk x) (brk x') (xml_heap x') None 0 (brk x) (XElem name atts its)"
proof -
  let ?a = "brk x"
  obtain x1 l where x1: "xml_start name atts x = Some x1" "inside x1 ?a (new_elem name atts None 0 l)"
      "opt_list l (attr_list atts)" "brk x1 = ?a + 1" "xml_skip x1"
    using start_root [OF assms(1), of name atts] by blast
  let ?e = "new_elem name atts None 0 l"
  have e: "buffer ?e = None" "children ?e = None" "depth ?e = 0" by (simp_all add: new_elem_def TinyXmlNode_Construct_def)
  have ok: "list_all doc_ok its" "length (opt_text (buffer ?e)) + text_size its < 2 ^ 31" using assms(2) e by simp_all
  obtain x2 n2 cs where x2: "sax_run (concat (map sax_of its)) x1 = Some x2" "built x1 ?a ?e its x2 n2 cs"
    using read_items [OF read_item x1(2) ok] by blast
  note bx = x2(2) [unfolded built_def x1(4) e]
  have b: "inside x2 ?a n2" "?a + 1 \<le> brk x2" using bx by blast+
  have tx: "buffer n2 = elem_text its" using bx x1(5) by (simp add: elem_text_def)
  have "opt_list (None :: addr lspec option) []" by (simp add: opt_list_def)
  then have kids: "opt_list (children n2) cs" using bx by (metis append_Nil)
  have n2: "n2 = ?e\<lparr>buffer := buffer n2, content_length := content_length n2, children := children n2\<rparr>"
      and tree: "reps (?a + 1) (brk x2) (xml_heap x2) ?a (0 + 1) cs its"
    using bx by blast+
  have fields: "xtype n2 = XML_ELEMENT_TAG" "namePrefix n2 = namePrefix (set_names (snd TinyXmlNode_Construct) name)"
      "xname n2 = xname (set_names (snd TinyXmlNode_Construct) name)" "attributes n2 = l" "xparent n2 = None"
      "depth n2 = 0"
    by (subst n2, simp add: new_elem_def)+
  have "xml_end x2 = Some (x2\<lparr>xml_skip := True\<rparr>)"
    using b(1) fields(5) by (simp add: xml_end_def TinyXmlNode_GetParent_def at_node_def inside_def)
  then have "sax_run (sax_of (XElem name atts its)) x = Some (x2\<lparr>xml_skip := True\<rparr>)"
    using x1(1) x2(1) by (simp add: sax_run_append)
  moreover have "rep ?a (brk x2) (xml_heap x2) None 0 ?a (XElem name atts its)"
    using b tx kids tree fields x1(3) rep_mono(2) [of "?a + 1" "brk x2" "xml_heap x2" ?a "0 + 1" cs its ?a "brk x2" "xml_heap x2"]
    by (auto simp: inside_def)
  ultimately show ?thesis using b by (auto simp: inside_def)
qed

lemma tree_of_document:
  assumes "unused x" and "doc_ok (XElem name atts its)" and "expat doc = (sax_of (XElem name atts its), True)"
  shows "\<exists>x' root. TinyXml_Parse expat True x doc = Some (TINY_RET_OK, x') \<and> TinyXml_GetRoot x' = Some root
    \<and> rep (brk x) (brk x') (xml_heap x') None 0 root (XElem name atts its)"
  using parse_document [OF assms(1,2)] assms(1,3)
  by (auto simp: TinyXml_Parse_def TinyXml_GetRoot_def unused_def)

text \<open>
  C12. When expat accepts a document, \<open>TinyXml_Parse\<close> succeeds and leaves in the heap exactly the
  tree of the document: one node per element with its name and prefix, its attributes, its depth,
  the pointer to its parent, its children in order and its text without the white space between
  tags. Any nesting and any number of elements are allowed; the text of one element must stay
  below 2 GB.
\<close>

theorem xml_parse_tree:
  assumes "unused x" and "doc_ok (XElem name atts its)" and "expat doc = (sax_of (XElem name atts its), True)"
  shows "\<exists>x' root. TinyXml_Parse expat True x doc = Some (TINY_RET_OK, x') \<and> TinyXml_GetRoot x' = Some root
    \<and> rep (brk x) (brk x') (xml_heap x') None 0 root (XElem name atts its)"
  using assms by (rule tree_of_document)

definition demo_doc :: xitem where
  "demo_doc = XElem ''e:propertyset'' [(''xmlns:e'', ''urn'')]
     [XText ''\<newline> '', XElem ''e:property'' [] [XElem ''Status'' [] [XText '' o'', XText ''n '']], XText ''\<newline>'']"

definition demo_expat :: "string \<Rightarrow> sax list \<times> bool" where
  "demo_expat s = (sax_of demo_doc, True)"

definition fresh_xml :: txml where
  "fresh_xml = \<lparr>xml_node = None, xml_skip = False, xml_heap = Map.empty, brk = 1, mem = []\<rparr>"

lemma fresh_xml_unused: "unused fresh_xml"
  by (simp add: unused_def fresh_xml_def)

lemma demo_doc_ok: "doc_ok demo_doc"
  by (simp add: demo_doc_def text_size_def cstring_def)

theorem xml_parse_tree_witness:
  "\<exists>x' root. TinyXml_Parse demo_expat True fresh_xml ''doc'' = Some (TINY_RET_OK, x') \<and> TinyXml_GetRoot x' = Some root
    \<and> rep (brk fresh_xml) (brk x') (xml_heap x') None 0 root demo_doc"
  using xml_parse_tree [OF fresh_xml_unused demo_doc_ok [unfolded demo_doc_def], of demo_expat "''doc''"]
  by (simp add: demo_expat_def demo_doc_def)

subsection \<open>Looking up a child\<close>

fun elements :: "xitem list \<Rightarrow> xitem list" where
  "elements [] = []"
| "elements (XText s # its) = elements its"
| "elements (XElem n atts cs # its) = XElem n atts cs # elements its"

fun local_name :: "xitem \<Rightarrow> string" where
  "local_name (XText s) = []"
| "local_name (XElem n atts its) = xname (set_names (snd TinyXmlNode_Construct) n)"

fun item_text :: "xitem \<Rightarrow> string option" where
  "item_text (XText s) = None"
| "item_text (XElem n atts its) = elem_text its"

lemma reps_elements:
  "reps lo hi h p d cs its \<Longrightarrow> list_all2 (\<lambda>c e. rep lo hi h (Some p) d c e) cs (elements its)"
  by (induction lo hi h p d cs its rule: rep_reps.induct(2) [where P = "\<lambda>_ _ _ _ _ _ _. True"]) auto

lemma rep_node:
  "rep lo hi h p d a e \<Longrightarrow> \<exists>n. h a = Some n \<and> xname n = local_name e \<and> buffer n = item_text e
     \<and> xparent n = p \<and> depth n = d"
  by (cases e) auto

lemma str_equal_child: "cstring s \<Longrightarrow> str_equal past (Some t) (Some s) True \<longleftrightarrow> map tolower t = map tolower s"
  by (simp add: str_equal_def str_equal_loop_correct)

lemma foreach_child:
  assumes "list_all2 (\<lambda>c e. rep lo hi h (Some p) d c e) cs es"
    and "list_all (\<lambda>e. length (local_name e) < XML_TAG_NAME_LEN) es" and "cstring s"
  shows "\<exists>i. foreach_list j (child_visit past h s) False (map Some cs) = (i, False)
    \<and> (case List.find (\<lambda>(c, e). map tolower (local_name e) = map tolower s) (zip cs es) of
        None \<Rightarrow> i = -1
      | Some (c, e) \<Rightarrow> (\<exists>k. i = j + int k \<and> k < length cs \<and> cs ! k = c))"
  using assms(1,2)
proof (induction cs es arbitrary: j rule: list_all2_induct)
  case (Cons c cs e es)
  obtain n where n: "h c = Some n" "xname n = local_name e" using rep_node [OF Cons.hyps(1)] by auto
  have v: "child_visit past h s (Some c) False = (map tolower (local_name e) \<noteq> map tolower s, False)"
    using n Cons.prems str_equal_child [OF assms(3)] by (simp add: child_visit_def read_field_def)
  show ?case
  proof (cases "map tolower (local_name e) = map tolower s")
    case True
    then show ?thesis by (simp add: v)
  next
    case False
    obtain i where i: "foreach_list (j + 1) (child_visit past h s) False (map Some cs) = (i, False)"
      "case List.find (\<lambda>(c, e). map tolower (local_name e) = map tolower s) (zip cs es) of
        None \<Rightarrow> i = -1
      | Some (c, e) \<Rightarrow> (\<exists>k. i = j + 1 + int k \<and> k < length cs \<and> cs ! k = c)"
      using Cons.IH [of "j + 1"] Cons.prems by auto
    have "\<exists>k'. j + 1 + int k = j + int k' \<and> k' < Suc (length cs) \<and> (c # cs) ! k' = cs ! k" if "k < length cs" for k
      using that by (intro exI [of _ "Suc k"]) simp
    with i False show ?thesis by (fastforce simp: v split: option.splits)
  qed
qed simp

lemma find_zip:
  "length cs = length es \<Longrightarrow> (case List.find (\<lambda>(c, e). P e) (zip cs es) of
     None \<Rightarrow> List.find P es = None
   | Some (c, e) \<Rightarrow> List.find P es = Some e \<and> (c, e) \<in> set (zip cs es))"
  by (induction cs es rule: list_induct2) (auto split: option.splits)

lemma child_by_name:
  assumes "rep lo hi h p d a (XElem name atts its)" and "cstring s"
    and "list_all (\<lambda>e. length (local_name e) < XML_TAG_NAME_LEN) (elements its)"
  shows "case List.find (\<lambda>e. map tolower (local_name e) = map tolower s) (elements its) of
      None \<Rightarrow> TinyXmlNode_GetChildByName past h (Some a) (Some s) = Some None
    | Some e \<Rightarrow> \<exists>c. TinyXmlNode_GetChildByName past h (Some a) (Some s) = Some (Some c) \<and> rep lo hi h (Some a) (d + 1) c e"
proof -
  obtain n cs where n: "h a = Some n" "opt_list (children n) cs" "reps lo hi h a (d + 1) cs its" using assms(1) by auto
  have all: "list_all2 (\<lambda>c e. rep lo hi h (Some a) (d + 1) c e) cs (elements its)" using reps_elements [OF n(3)] .
  let ?F = "List.find (\<lambda>(c, e). map tolower (local_name e) = map tolower s) (zip cs (elements its))"
  obtain i where i: "foreach_list 0 (child_visit past h s) False (map Some cs) = (i, False)"
    "case ?F of None \<Rightarrow> i = -1 | Some (c, e) \<Rightarrow> (\<exists>k. i = 0 + int k \<and> k < length cs \<and> cs ! k = c)"
    using foreach_child [OF all assms(3,2), of 0] by blast
  note z = find_zip [of cs "elements its" "\<lambda>e. map tolower (local_name e) = map tolower s", OF list_all2_lengthD [OF all]]
  show ?thesis
  proof (cases "children n")
    case None
    then have "cs = []" using n(2) by (simp add: opt_list_def)
    then have "elements its = []" using all by simp
    with None n(1) show ?thesis by (simp add: TinyXmlNode_GetChildByName_def at_node_def)
  next
    case (Some l)
    then have l: "items l = map Some cs" using n(2) by (simp add: opt_list_def)
    show ?thesis
    proof (cases ?F)
      case None
      with z i n(1) Some l show ?thesis
        by (simp add: TinyXmlNode_GetChildByName_def at_node_def L_Foreach_def)
    next
      case (Some ce)
      then obtain c e k where ce: "ce = (c, e)" "i = int k" "k < length cs" "cs ! k = c" using i(2) by (cases ce) auto
      have "L_GetAt l i = Some c" using ce l by (simp add: L_GetAt_def nth_int_of_nat)
      moreover have "rep lo hi h (Some a) (d + 1) c e"
        using all z Some ce(1) by (auto simp: list_all2_iff)
      ultimately show ?thesis
        using z i(1) n(1) Some ce \<open>children n = Some l\<close> l
        by (simp add: TinyXmlNode_GetChildByName_def at_node_def L_Foreach_def)
    qed
  qed
qed

lemma child_content:
  assumes "rep lo hi h p d a (XElem name atts its)" and "cstring s"
    and "list_all (\<lambda>e. length (local_name e) < XML_TAG_NAME_LEN) (elements its)"
  shows "TinyXmlNode_GetChildContent past h (Some a) (Some s) =
    Some (Option.bind (List.find (\<lambda>e. map tolower (local_name e) = map tolower s) (elements its)) item_text)"
proof (cases "List.find (\<lambda>e. map tolower (local_name e) = map tolower s) (elements its)")
  case None
  with child_by_name [OF assms, of past] show ?thesis
    by (simp add: TinyXmlNode_GetChildContent_def TinyXmlNode_GetContent_def at_node_def)
next
  case (Some e)
  with child_by_name [OF assms, of past] obtain c where
    c: "TinyXmlNode_GetChildByName past h (Some a) (Some s) = Some (Some c)" "rep lo hi h (Some a) (d + 1) c e" by auto
  from rep_node [OF c(2)] Some c(1) show ?thesis
    by (auto simp: TinyXmlNode_GetChildContent_def TinyXmlNode_GetContent_def at_node_def)
qed

text \<open>
  In the tree of a document \<open>TinyXmlNode_GetChildContent\<close> answers the text of the first child
  element whose local name is the wanted one up to case, and NULL when there is none.
\<close>

theorem xml_child_content:
  assumes "rep lo hi h p d a (XElem name atts its)" and "cstring s"
    and "list_all (\<lambda>e. length (local_name e) < XML_TAG_NAME_LEN) (elements its)"
  shows "TinyXmlNode_GetChildContent past h (Some a) (Some s) =
    Some (Option.bind (List.find (\<lambda>e. map tolower (local_name e) = map tolower s) (elements its)) item_text)"
  using assms by (rule child_content)

theorem xml_child_content_witness:
  "\<exists>h a. TinyXmlNode_GetChildContent (CHR ''x'') h (Some a) (Some ''status'') = Some (Some ''on '')"
proof -
  define its where "its = [XElem ''Status'' [] [XText '' o'', XText ''n '']]"
  define nm where "nm = ''p''"
  have "doc_ok (XElem nm [] its)" by (simp add: text_size_def cstring_def its_def)
  from parse_document [OF fresh_xml_unused this]
  obtain x' :: txml where rep: "rep (brk fresh_xml) (brk x') (xml_heap x') None 0 (brk fresh_xml) (XElem nm [] its)" by blast
  have lname: "local_name (XElem ''Status'' [] [XText '' o'', XText ''n '']) = ''Status''"
    by (simp add: set_names_def str_split_def TinyXmlNode_SetName_def numeral_2_eq_2 GROUP_LEN_def field_cpy_def XML_TAG_NAME_LEN_def)
  have "cstring ''status''" by (simp add: cstring_def)
  moreover have "list_all (\<lambda>e. length (local_name e) < XML_TAG_NAME_LEN) (elements its)"
    using lname by (simp add: its_def XML_TAG_NAME_LEN_def)
  ultimately have "TinyXmlNode_GetChildContent (CHR ''x'') (xml_heap x') (Some (brk fresh_xml)) (Some ''status'') =
      Some (Option.bind (List.find (\<lambda>e. map tolower (local_name e) = map tolower ''status'') (elements its)) item_text)"
    by (rule xml_child_content [OF rep])
  also have "\<dots> = Some (Some ''on '')"
    using lname by (simp add: its_def tolower_def char_of_def bit_0 elem_text_def is_blank_def)
  finally show ?thesis by (intro exI)
qed

subsection \<open>Walking the children\<close>

lemma elem_children:
  assumes "rep lo hi h p d a (XElem name atts its)"
  shows "\<exists>n cs. h a = Some n \<and> opt_list (children n) cs
    \<and> list_all2 (\<lambda>c e. rep lo hi h (Some a) (d + 1) c e) cs (elements its)"
  using assms reps_elements by auto blast

lemma children_count:
  assumes "rep lo hi h p d a (XElem name atts its)" and "length (elements its) < 2 ^ 31"
  shows "TinyXmlNode_GetChildren h (Some a) = Some (word_of_nat (length (elements its)))"
proof -
  obtain n cs where n: "h a = Some n" "opt_list (children n) cs"
      "list_all2 (\<lambda>c e. rep lo hi h (Some a) (d + 1) c e) cs (elements its)"
    using elem_children [OF assms(1)] by blast
  have len: "length cs = length (elements its)" using n(3) by (rule list_all2_lengthD)
  show ?thesis
  proof (cases "children n")
    case None
    with n(2) len n(1) show ?thesis by (simp add: TinyXmlNode_GetChildren_def at_node_def opt_list_def)
  next
    case (Some l)
    with n(2) have l: "items l = map Some cs" "count_ok l" by (simp_all add: opt_list_def)
    then have "L_GetCount l = int (length cs)" using assms(2) len by (intro L_count_nat [THEN trans]) simp_all
    with Some n(1) len show ?thesis by (simp add: TinyXmlNode_GetChildren_def at_node_def)
  qed
qed

lemma child_at:
  assumes "rep lo hi h p d a (XElem name atts its)" and "i < length (elements its)" and "i < 2 ^ 31"
  shows "\<exists>c. TinyXmlNode_GetChildAt h (Some a) (word_of_nat i) = Some (Some c)
    \<and> rep lo hi h (Some a) (d + 1) c (elements its ! i)"
proof -
  obtain n cs where n: "h a = Some n" "opt_list (children n) cs"
      "list_all2 (\<lambda>c e. rep lo hi h (Some a) (d + 1) c e) cs (elements its)"
    using elem_children [OF assms(1)] by blast
  have len: "length cs = length (elements its)" using n(3) by (rule list_all2_lengthD)
  then obtain l where l: "children n = Some l" "items l = map Some cs"
    using n(2) assms(2) by (cases "children n") (auto simp: opt_list_def)
  have "sint (word_of_nat i :: 32 word) = int i"
    using assms(3) by (simp add: signed_of_nat signed_take_bit_int_eq_self)
  then have "TinyXmlNode_GetChildAt h (Some a) (word_of_nat i) = Some (Some (cs ! i))"
    using n(1) l assms(2) len by (simp add: TinyXmlNode_GetChildAt_def at_node_def L_GetAt_def nth_int_of_nat)
  with n(3) assms(2) len show ?thesis by (auto simp: list_all2_conv_all_nth)
qed

lemma no_child:
  assumes "rep lo hi h p d a (XElem name atts its)" and "elements its = []"
  shows "TinyXmlNode_GetChildAt h (Some a) i = Some None"
proof -
  obtain n where n: "h a = Some n" "opt_list (children n) []"
    using elem_children [OF assms(1)] assms(2) by auto
  then show ?thesis
    by (auto simp: TinyXmlNode_GetChildAt_def at_node_def opt_list_def L_GetAt_def nth_int_def split: option.splits)
qed

lemma elem_name: "rep lo hi h p d a e \<Longrightarrow> length (local_name e) < XML_TAG_NAME_LEN \<Longrightarrow>
    TinyXmlNode_GetName h (Some a) = Some (Some (local_name e))"
  using rep_node [of lo hi h p d a e]
  by (auto simp: TinyXmlNode_GetName_def at_node_def read_field_def XML_TAG_NAME_LEN_def)

lemma elem_content: "rep lo hi h p d a e \<Longrightarrow> TinyXmlNode_GetContent h (Some a) = Some (item_text e)"
  using rep_node [of lo hi h p d a e] by (auto simp: TinyXmlNode_GetContent_def at_node_def)

lemma local_name_plain: "CHR '':'' \<notin> set n \<Longrightarrow> length n < XML_TAG_NAME_LEN \<Longrightarrow> local_name (XElem n atts its) = n"
  by (simp add: set_names_def str_split_def numeral_2_eq_2 strstr_single_notin TinyXmlNode_SetName_def
      field_cpy_def XML_TAG_NAME_LEN_def)

lemma local_name_prefixed: "CHR '':'' \<notin> set g \<Longrightarrow> CHR '':'' \<notin> set n \<Longrightarrow> length n < XML_TAG_NAME_LEN \<Longrightarrow>
    local_name (XElem (g @ '':'' @ n) atts its) = n"
  by (simp add: set_names_def str_split_def numeral_2_eq_2 strstr_single_append strstr_single_notin TinyXmlNode_SetName_def
      TinyXmlNode_SetNamePrefix_def field_cpy_def XML_TAG_NAME_LEN_def GROUP_LEN_def)

end
