(* ===== verification/UpnpEvent.thy ===== *)
theory UpnpEvent
  imports TinyXml PropertyList UpnpTimeout
begin

section \<open>Events: \<open>UpnpEvent.c\<close>\<close>

text \<open>
  An event carries the headers of a NOTIFY request and the changed variables as a property
  list. \<open>UpnpEvent_ToString\<close> writes the variables as XML, \<open>UpnpEvent_Parse\<close> reads them back
  through \<open>TinyXml\<close>.
\<close>

definition CONNECTION_LEN :: nat where "CONNECTION_LEN = 128"
definition NT_LEN :: nat where "NT_LEN = 128"
definition NTS_LEN :: nat where "NTS_LEN = 128"
definition SID_LEN :: nat where "SID_LEN = 128"
definition SEQ_LEN :: nat where "SEQ_LEN = 128"

lemmas event_lens [field_defs] = CONNECTION_LEN_def NT_LEN_def NTS_LEN_def SID_LEN_def SEQ_LEN_def

record upnp_event =
  ev_callback :: string
  ev_connection :: string
  ev_nt :: string
  ev_nts :: string
  ev_sid :: string
  ev_seq :: string
  ev_arguments :: property_list

definition UpnpEvent_Construct :: "bool \<Rightarrow> tiny_ret \<times> upnp_event" where
  "UpnpEvent_Construct malloc_ok =
     (let e = \<lparr>ev_callback = [], ev_connection = [], ev_nt = [], ev_nts = [], ev_sid = [], ev_seq = [],
               ev_arguments = snd PropertyList_Construct\<rparr>
      in case PropertyList_New malloc_ok of
           None \<Rightarrow> (TINY_RET_E_NEW, e)
         | Some l \<Rightarrow> (TINY_RET_OK, e\<lparr>ev_arguments := l\<rparr>))"

definition UpnpEvent_New :: "mallocs \<Rightarrow> upnp_event option" where
  "UpnpEvent_New oks = (case malloc_next oks of
       (False, _) \<Rightarrow> None
     | (True, oks1) \<Rightarrow> (case UpnpEvent_Construct (fst (malloc_next oks1)) of
         (ret, e) \<Rightarrow> if RET_FAILED ret then None else Some e))"

definition UpnpEvent_Dispose :: "upnp_event \<Rightarrow> upnp_event" where
  "UpnpEvent_Dispose e = e\<lparr>ev_arguments := PropertyList_Dispose (ev_arguments e)\<rparr>"

text \<open>The source and the target of a copy are different events.\<close>

definition UpnpEvent_Copy :: "mallocs \<Rightarrow> upnp_event \<Rightarrow> upnp_event \<Rightarrow> tiny_ret \<times> upnp_event" where
  "UpnpEvent_Copy oks dst src = (TINY_RET_OK,
     \<lparr>ev_callback = field_cpy TINY_URL_LEN (ev_callback src), ev_connection = field_cpy CONNECTION_LEN (ev_connection src),
      ev_nt = field_cpy NT_LEN (ev_nt src), ev_nts = field_cpy NTS_LEN (ev_nts src),
      ev_sid = field_cpy SID_LEN (ev_sid src), ev_seq = field_cpy SEQ_LEN (ev_seq src),
      ev_arguments = PropertyList_Copy oks (ev_arguments dst) (ev_arguments src)\<rparr>)"

definition UpnpEvent_SetCallback :: "upnp_event \<Rightarrow> string option \<Rightarrow> tiny_ret \<times> upnp_event" where
  "UpnpEvent_SetCallback e str = (case str of
       None \<Rightarrow> (TINY_RET_E_ARG_NULL, e) | Some x \<Rightarrow> (TINY_RET_OK, e\<lparr>ev_callback := field_cpy TINY_URL_LEN x\<rparr>))"

definition UpnpEvent_SetConnection :: "upnp_event \<Rightarrow> string option \<Rightarrow> tiny_ret \<times> upnp_event" where
  "UpnpEvent_SetConnection e str = (case str of
       None \<Rightarrow> (TINY_RET_E_ARG_NULL, e) | Some x \<Rightarrow> (TINY_RET_OK, e\<lparr>ev_connection := field_cpy CONNECTION_LEN x\<rparr>))"

definition UpnpEvent_SetNt :: "upnp_event \<Rightarrow> string option \<Rightarrow> tiny_ret \<times> upnp_event" where
  "UpnpEvent_SetNt e str = (case str of
       None \<Rightarrow> (TINY_RET_E_ARG_NULL, e) | Some x \<Rightarrow> (TINY_RET_OK, e\<lparr>ev_nt := field_cpy NT_LEN x\<rparr>))"

definition UpnpEvent_SetNts :: "upnp_event \<Rightarrow> string option \<Rightarrow> tiny_ret \<times> upnp_event" where
  "UpnpEvent_SetNts e str = (case str of
       None \<Rightarrow> (TINY_RET_E_ARG_NULL, e) | Some x \<Rightarrow> (TINY_RET_OK, e\<lparr>ev_nts := field_cpy NTS_LEN x\<rparr>))"

definition UpnpEvent_SetSid :: "upnp_event \<Rightarrow> string option \<Rightarrow> tiny_ret \<times> upnp_event" where
  "UpnpEvent_SetSid e str = (case str of
       None \<Rightarrow> (TINY_RET_E_ARG_NULL, e) | Some x \<Rightarrow> (TINY_RET_OK, e\<lparr>ev_sid := field_cpy SID_LEN x\<rparr>))"

definition UpnpEvent_SetSeq :: "upnp_event \<Rightarrow> string option \<Rightarrow> tiny_ret \<times> upnp_event" where
  "UpnpEvent_SetSeq e str = (case str of
       None \<Rightarrow> (TINY_RET_E_ARG_NULL, e) | Some x \<Rightarrow> (TINY_RET_OK, e\<lparr>ev_seq := field_cpy SEQ_LEN x\<rparr>))"

definition UpnpEvent_GetCallback :: "upnp_event \<Rightarrow> string option" where
  "UpnpEvent_GetCallback e = read_field TINY_URL_LEN (ev_callback e)"

definition UpnpEvent_GetConnection :: "upnp_event \<Rightarrow> string option" where
  "UpnpEvent_GetConnection e = read_field CONNECTION_LEN (ev_connection e)"

definition UpnpEvent_GetNt :: "upnp_event \<Rightarrow> string option" where
  "UpnpEvent_GetNt e = read_field NT_LEN (ev_nt e)"

definition UpnpEvent_GetNts :: "upnp_event \<Rightarrow> string option" where
  "UpnpEvent_GetNts e = read_field NTS_LEN (ev_nts e)"

definition UpnpEvent_GetSid :: "upnp_event \<Rightarrow> string option" where
  "UpnpEvent_GetSid e = read_field SID_LEN (ev_sid e)"

definition UpnpEvent_GetSeq :: "upnp_event \<Rightarrow> string option" where
  "UpnpEvent_GetSeq e = read_field SEQ_LEN (ev_seq e)"

definition UpnpEvent_GetArgumentCount :: "upnp_event \<Rightarrow> 32 word" where
  "UpnpEvent_GetArgumentCount e = PropertyList_GetSize (ev_arguments e)"

definition UpnpEvent_SetArgumentValue ::
    "mallocs \<Rightarrow> upnp_event \<Rightarrow> string option \<Rightarrow> string option \<Rightarrow> (tiny_ret \<times> upnp_event) option" where
  "UpnpEvent_SetArgumentValue oks e name val = (case (name, val) of
       (Some n, Some v) \<Rightarrow> map_option (\<lambda>(ret, l). (ret, e\<lparr>ev_arguments := l\<rparr>))
          (PropertyList_Add oks (ev_arguments e) name val)
     | _ \<Rightarrow> Some (TINY_RET_E_ARG_NULL, e))"

definition UpnpEvent_GetArgumentValue :: "upnp_event \<Rightarrow> string option \<Rightarrow> string option option" where
  "UpnpEvent_GetArgumentValue e name = (case name of
       None \<Rightarrow> Some None | Some n \<Rightarrow> PropertyList_GetPropertyValue (ev_arguments e) (Some n))"

subsection \<open>Writing an event\<close>

definition event_head :: string where
  "event_head = ''<?xml version=\"1.0\"?><e:propertyset xmlns:e=\"urn:schemas-upnp-org:event-1-0\"><e:property>''"

definition event_tail :: string where
  "event_tail = ''</e:property></e:propertyset>''"

definition EVENT_MAX_VALUE :: nat where "EVENT_MAX_VALUE = 1024 * 20"

text \<open>
  The result is the number of bytes left and the text so far; \<open>strcat\<close> writes a terminator
  after the piece, so a piece that fills the buffer exactly overruns it (\<open>None\<close>).
\<close>

definition put_piece :: "nat \<Rightarrow> string \<Rightarrow> nat \<times> string \<Rightarrow> (nat \<times> string) option" where
  "put_piece len s st = (case st of (spare, bytes) \<Rightarrow>
     if length bytes + length s < len then Some (spare - length s, bytes @ s) else None)"

fun event_loop :: "nat \<Rightarrow> property_list \<Rightarrow> int \<Rightarrow> nat \<Rightarrow> nat \<times> string \<Rightarrow> (nat \<times> string) option" where
  "event_loop len l i 0 st = Some st"
| "event_loop len l i (Suc n) st = do {
     p \<leftarrow> L_GetAt l i;
     name \<leftarrow> read_field PROPERTY_NAME_LEN (pname p);
     val \<leftarrow> read_field PROPERTY_VALUE_LEN (pvalue p);
     let buf = field_printf EVENT_MAX_VALUE (''<'' @ name @ ''>'' @ val @ ''</'' @ name @ ''>'');
     if fst st < length buf then Some st
     else Option.bind (put_piece len buf st) (event_loop len l (i + 1) n) }"

text \<open>\<open>bytes\<close> is the string in the buffer before, \<open>len\<close> the size of the buffer.\<close>

definition UpnpEvent_ToString :: "upnp_event \<Rightarrow> string \<Rightarrow> nat \<Rightarrow> (nat \<times> string) option" where
  "UpnpEvent_ToString e bytes len =
     (if len < length event_head then Some (length bytes, bytes)
      else do {
        st1 \<leftarrow> put_piece len event_head (len, bytes);
        st2 \<leftarrow> event_loop len (ev_arguments e) 0 (unat (PropertyList_GetSize (ev_arguments e))) st1;
        st3 \<leftarrow> (if fst st2 < length event_tail then Some st2 else put_piece len event_tail st2);
        Some (length (snd st3), snd st3) })"

subsection \<open>Reading an event\<close>

text \<open>
  The children of the root, each contributing its first child. The allocations of the property
  list are taken to succeed.
\<close>

fun propertyset_loop :: "xheap \<Rightarrow> addr \<Rightarrow> 32 word \<Rightarrow> nat \<Rightarrow> upnp_event \<Rightarrow> upnp_event option" where
  "propertyset_loop h root i 0 e = Some e"
| "propertyset_loop h root i (Suc n) e = do {
     prop \<leftarrow> TinyXmlNode_GetChildAt h (Some root) i;
     child \<leftarrow> TinyXmlNode_GetChildAt h prop 0;
     e' \<leftarrow> (if child = None then Some e else do {
        name \<leftarrow> TinyXmlNode_GetName h child;
        val \<leftarrow> TinyXmlNode_GetContent h child;
        map_option snd (UpnpEvent_SetArgumentValue [] e name (Some (case val of None \<Rightarrow> [] | Some v \<Rightarrow> v))) });
     propertyset_loop h root (i + 1) n e' }"

definition load_propertyset :: "xheap \<Rightarrow> addr \<Rightarrow> upnp_event \<Rightarrow> (tiny_ret \<times> upnp_event) option" where
  "load_propertyset h root e = do {
     name \<leftarrow> TinyXmlNode_GetName h (Some root);
     s \<leftarrow> name;
     if strstr s ''propertyset'' = None then Some (TINY_RET_E_NOT_FOUND, e)
     else do {
       n \<leftarrow> TinyXmlNode_GetChildren h (Some root);
       map_option (Pair TINY_RET_OK) (propertyset_loop h root 0 (unat n) e) } }"

definition load_xml :: "txml \<Rightarrow> upnp_event \<Rightarrow> (tiny_ret \<times> upnp_event) option" where
  "load_xml x e = (case TinyXml_GetRoot x of
       None \<Rightarrow> Some (TINY_RET_E_XML_INVALID, e)
     | Some root \<Rightarrow> load_propertyset (xml_heap x) root e)"

text \<open>
  \<open>xml\<close> is what \<open>TinyXml_New\<close> returned. \<open>content\<close> are the \<open>contentLength\<close> bytes.
\<close>

definition load_content ::
    "(string \<Rightarrow> sax list \<times> bool) \<Rightarrow> bool \<Rightarrow> txml option \<Rightarrow> upnp_event \<Rightarrow> string \<Rightarrow> (tiny_ret \<times> upnp_event) option" where
  "load_content expat parser_ok xml e content =
     (if content = [] then Some (TINY_RET_E_ARG_NULL, e)
      else case xml of
        None \<Rightarrow> Some (TINY_RET_E_NEW, e)
      | Some x \<Rightarrow> do {
          (ret, x') \<leftarrow> TinyXml_Parse expat parser_ok x content;
          if RET_FAILED ret then Some (ret, e) else load_xml x' e })"

definition UpnpEvent_Parse ::
    "(string \<Rightarrow> sax list \<times> bool) \<Rightarrow> bool \<Rightarrow> txml option \<Rightarrow> upnp_event
      \<Rightarrow> string option \<Rightarrow> string option \<Rightarrow> string option \<Rightarrow> string option \<Rightarrow> string option \<Rightarrow> (tiny_ret \<times> upnp_event) option" where
  "UpnpEvent_Parse expat parser_ok xml e nt nts sid seq content = (case (nt, nts, sid, seq, content) of
       (Some _, Some _, Some _, Some _, Some c) \<Rightarrow>
         load_content expat parser_ok xml (snd (UpnpEvent_SetSeq (snd (UpnpEvent_SetSid
           (snd (UpnpEvent_SetNts (snd (UpnpEvent_SetNt e nt)) nts)) sid)) seq)) c
     | _ \<Rightarrow> Some (TINY_RET_E_ARG_NULL, e))"

subsection \<open>What is written\<close>

definition prop_pairs :: "property_list \<Rightarrow> (string \<times> string) list" where
  "prop_pairs l = map (\<lambda>x. (pname (the x), pvalue (the x))) (items l)"

definition prop_text :: "string \<times> string \<Rightarrow> string" where
  "prop_text nv = ''<'' @ fst nv @ ''>'' @ snd nv @ ''</'' @ fst nv @ ''>''"

definition event_text :: "(string \<times> string) list \<Rightarrow> string" where
  "event_text ps = event_head @ concat (map prop_text ps) @ event_tail"

definition values_ok :: "property_list \<Rightarrow> bool" where
  "values_ok l \<longleftrightarrow> list_all (\<lambda>nv. length (snd nv) < PROPERTY_VALUE_LEN) (prop_pairs l)"

lemma event_loop_text:
  assumes "property_inv l" and "values_ok l"
  shows "i + n = length (items l) \<Longrightarrow> length bytes + spare = len \<Longrightarrow>
    length (concat (map prop_text (drop i (prop_pairs l)))) \<le> spare \<Longrightarrow>
    event_loop len l (int i) n (spare, bytes) =
     (if n = 0 \<or> length (concat (map prop_text (drop i (prop_pairs l)))) < spare
      then Some (spare - length (concat (map prop_text (drop i (prop_pairs l)))),
                 bytes @ concat (map prop_text (drop i (prop_pairs l)))) else None)"
proof (induction n arbitrary: i bytes spare)
  case 0
  then show ?case by (simp add: prop_pairs_def)
next
  case (Suc n)
  then have i: "i < length (items l)" by simp
  obtain p where p: "L_GetAt l (int i) = Some p" "items l ! i = Some p" using property_entry_at [OF assms(1) i] by auto
  let ?rest = "drop (Suc i) (prop_pairs l)"
  have d: "drop i (prop_pairs l) = (pname p, pvalue p) # ?rest"
    using i p(2) by (simp add: prop_pairs_def Cons_nth_drop_Suc [symmetric])
  have mem: "Some p \<in> set (items l)" using i p(2) by (metis nth_mem)
  then have n: "length (pname p) < PROPERTY_NAME_LEN" using assms(1) by (fastforce simp: property_inv_def list_all_iff)
  have v: "length (pvalue p) < PROPERTY_VALUE_LEN" using assms(2) mem by (force simp: values_ok_def prop_pairs_def list_all_iff)
  let ?t = "prop_text (pname p, pvalue p)"
  have t: "field_printf EVENT_MAX_VALUE (''<'' @ pname p @ ''>'' @ pvalue p @ ''</'' @ pname p @ ''>'') = ?t"
    using n v by (simp add: field_printf_def EVENT_MAX_VALUE_def prop_text_def PROPERTY_NAME_LEN_def PROPERTY_VALUE_LEN_def)
  have pos: "0 < length ?t" by (simp add: prop_text_def)
  have fit: "length ?t + length (concat (map prop_text ?rest)) \<le> spare" using Suc.prems(3) by (simp add: d)
  have IH: "event_loop len l (int i + 1) n (spare - length ?t, bytes @ ?t) =
      (if n = 0 \<or> length (concat (map prop_text ?rest)) < spare - length ?t
       then Some (spare - length ?t - length (concat (map prop_text ?rest)), (bytes @ ?t) @ concat (map prop_text ?rest)) else None)"
    using Suc.IH [of "Suc i" "bytes @ ?t" "spare - length ?t"] Suc.prems fit by (simp add: add.commute)
  have step: "event_loop len l (int i) (Suc n) (spare, bytes) =
      (if length ?t < spare then event_loop len l (int i + 1) n (spare - length ?t, bytes @ ?t) else None)"
    using p n v t fit Suc.prems(2) by (auto simp: read_field_def Let_def put_piece_def)
  have last: "?rest = [] \<longleftrightarrow> n = 0" using Suc.prems(1) by (auto simp: prop_pairs_def)
  have "0 < length (concat (map prop_text ?rest))" if "n \<noteq> 0"
    using that last by (cases ?rest) (auto simp: prop_text_def)
  then show ?case
    unfolding step IH d using fit pos last by (auto simp: diff_diff_add)
qed

lemma property_size: "property_inv l \<Longrightarrow> length (items l) < 2 ^ 31 \<Longrightarrow> unat (PropertyList_GetSize l) = length (items l)"
  by (simp add: PropertyList_GetSize_def property_inv_def L_count_word)

lemma to_string_text:
  assumes "property_inv (ev_arguments e)" and "values_ok (ev_arguments e)" and "length (items (ev_arguments e)) < 2 ^ 31"
    and "t = event_text (prop_pairs (ev_arguments e))" and "length t \<le> len"
  shows "UpnpEvent_ToString e [] len = (if length t < len then Some (length t, t) else None)"
proof -
  let ?l = "ev_arguments e" and ?c = "concat (map prop_text (prop_pairs (ev_arguments e)))"
  have t: "t = event_head @ ?c @ event_tail" by (simp add: assms(4) event_text_def)
  have tail: "0 < length event_tail" by (simp add: event_tail_def)
  have len: "length event_head + length ?c + length event_tail \<le> len" using assms(5) by (simp add: t)
  then have hl: "length event_head < len" "length ?c < len - length event_head" using tail by linarith+
  have h: "put_piece len event_head (len, []) = Some (len - length event_head, event_head)"
    using hl(1) by (simp add: put_piece_def)
  have "event_loop len ?l (int 0) (length (items ?l)) (len - length event_head, event_head) =
      Some (len - length event_head - length ?c, event_head @ ?c)"
    using event_loop_text [OF assms(1,2), of 0 "length (items ?l)" event_head "len - length event_head" len] hl
    by simp
  moreover have "\<not> len - (length event_head + length ?c) < length event_tail" using len by linarith
  ultimately show ?thesis
    using h len by (simp add: UpnpEvent_ToString_def property_size [OF assms(1,3)] put_piece_def t)
qed

text \<open>
  An event is written as its XML text when the text is shorter than the buffer. When the text
  has exactly the size of the buffer, the check lets it pass and the terminator is written one
  byte past the end.
\<close>

theorem event_print:
  assumes "property_inv (ev_arguments e)" and "values_ok (ev_arguments e)" and "length (items (ev_arguments e)) < 2 ^ 31"
    and "length (event_text (prop_pairs (ev_arguments e))) \<le> len"
  shows "UpnpEvent_ToString e [] len = (let t = event_text (prop_pairs (ev_arguments e))
    in if length t < len then Some (length t, t) else None)"
  using to_string_text [OF assms(1-3) refl assms(4)] by (simp add: Let_def)

definition demo_event :: upnp_event where
  "demo_event = (snd (UpnpEvent_Construct True))\<lparr>ev_arguments :=
     \<lparr>items = [Some \<lparr>pname = ''Status'', pvalue = ''1''\<rparr>, Some \<lparr>pname = ''Target'', pvalue = ''0''\<rparr>], count = 2,
      log = [], has_listener = True\<rparr>\<rparr>"

lemma demo_event_ok: "property_inv (ev_arguments demo_event)" "values_ok (ev_arguments demo_event)"
    "length (items (ev_arguments demo_event)) < 2 ^ 31"
    "prop_pairs (ev_arguments demo_event) = [(''Status'', ''1''), (''Target'', ''0'')]"
  by (simp_all add: demo_event_def property_inv_def values_ok_def prop_pairs_def count_ok_def PROPERTY_NAME_LEN_def
      PROPERTY_VALUE_LEN_def)

theorem event_print_witness:
  "UpnpEvent_ToString demo_event [] 4096 =
     Some (length (event_text [(''Status'', ''1''), (''Target'', ''0'')]), event_text [(''Status'', ''1''), (''Target'', ''0'')])"
proof -
  have len: "length (event_text [(''Status'', ''1''), (''Target'', ''0'')]) < 4096"
    by (simp add: event_text_def event_head_def event_tail_def prop_text_def)
  then show ?thesis
    using event_print [OF demo_event_ok(1-3), of 4096] by (simp add: demo_event_ok(4) Let_def)
qed

subsection \<open>What is read\<close>

text \<open>
  The document \<open>UpnpEvent_ToString\<close> writes: all variables in one property element. expat is
  taken to report exactly it, as it does for names and values without markup characters.
\<close>

definition value_items :: "string \<Rightarrow> xitem list" where
  "value_items v = (if v = [] then [] else [XText v])"

definition event_doc :: "(string \<times> string) list \<Rightarrow> xitem" where
  "event_doc ps = XElem ''e:propertyset'' [(''xmlns:e'', ''urn:schemas-upnp-org:event-1-0'')]
     [XElem ''e:property'' [] (map (\<lambda>nv. XElem (fst nv) [] (value_items (snd nv))) ps)]"

definition pair_ok :: "string \<times> string \<Rightarrow> bool" where
  "pair_ok nv \<longleftrightarrow> CHR '':'' \<notin> set (fst nv) \<and> length (fst nv) < PROPERTY_NAME_LEN \<and> cstring (snd nv)
     \<and> length (snd nv) < PROPERTY_VALUE_LEN"

lemma value_items_text: "opt_text (elem_text (value_items v)) = dropWhile is_blank v"
  by (cases "dropWhile is_blank v = []")
     (auto simp: value_items_def elem_text_def opt_text_def Let_def simp del: dropWhile_eq_Nil_conv)

lemma event_doc_ok: "list_all pair_ok ps \<Longrightarrow> doc_ok (event_doc ps)"
  by (auto simp: event_doc_def text_size_def value_items_def pair_ok_def PROPERTY_VALUE_LEN_def list_all_iff comp_def)

lemma elements_elems [simp]: "elements (map (\<lambda>nv. XElem (f nv) (g nv) (k nv)) ps) = map (\<lambda>nv. XElem (f nv) (g nv) (k nv)) ps"
  by (induction ps) simp_all

lemma root_names: "local_name (event_doc ps) = ''propertyset''"
    "local_name (XElem ''e:property'' [] its) = ''property''"
  using local_name_prefixed [of "''e''" "''propertyset''"] local_name_prefixed [of "''e''" "''property''"]
  by (simp_all add: event_doc_def XML_TAG_NAME_LEN_def)

lemma load_event_tree:
  assumes "rep lo hi h p d root (event_doc ps)" and "list_all pair_ok ps"
    and "ev_arguments e = L_SetDeleteListener True L_new"
  shows "load_propertyset h root e = Some (TINY_RET_OK, e\<lparr>ev_arguments := (case ps of
      [] \<Rightarrow> ev_arguments e
    | nv # _ \<Rightarrow> (ev_arguments e)\<lparr>items := [Some (new_property (fst nv) (dropWhile is_blank (snd nv)))], count := 1\<rparr>)\<rparr>)"
proof -
  let ?pdoc = "XElem ''e:property'' [] (map (\<lambda>nv. XElem (fst nv) [] (value_items (snd nv))) ps)"
  have root: "rep lo hi h p d root (XElem ''e:propertyset'' [(''xmlns:e'', ''urn:schemas-upnp-org:event-1-0'')] [?pdoc])"
    using assms(1) by (simp add: event_doc_def)
  have name: "TinyXmlNode_GetName h (Some root) = Some (Some ''propertyset'')"
    using elem_name [OF assms(1)] by (simp only: root_names) (simp add: XML_TAG_NAME_LEN_def)
  have strs: "strstr ''propertyset'' ''propertyset'' \<noteq> None" by simp
  have n: "TinyXmlNode_GetChildren h (Some root) = Some 1" using children_count [OF root] by simp
  obtain c where c: "TinyXmlNode_GetChildAt h (Some root) 0 = Some (Some c)" "rep lo hi h (Some root) (d + 1) c ?pdoc"
    using child_at [OF root, of 0] by auto
  show ?thesis
  proof (cases ps)
    case Nil
    then have "TinyXmlNode_GetChildAt h (Some c) 0 = Some None" using no_child [OF c(2)] by simp
    with name n c(1) Nil show ?thesis by (simp add: load_propertyset_def)
  next
    case (Cons nv rest)
    obtain k v where nv: "nv = (k, v)" by (cases nv)
    have ok: "CHR '':'' \<notin> set k" "length k < PROPERTY_NAME_LEN" using assms(2) by (simp_all add: Cons nv pair_ok_def)
    obtain x where x: "TinyXmlNode_GetChildAt h (Some c) 0 = Some (Some x)"
        "rep lo hi h (Some c) (d + 1 + 1) x (XElem k [] (value_items v))"
      using child_at [OF c(2), of 0] Cons nv by auto
    have ln: "local_name (XElem k [] (value_items v)) = k"
      using ok by (intro local_name_plain) (simp_all add: PROPERTY_NAME_LEN_def XML_TAG_NAME_LEN_def)
    have "TinyXmlNode_GetName h (Some x) = Some (Some k)"
      using elem_name [OF x(2)] ln ok by (simp add: PROPERTY_NAME_LEN_def XML_TAG_NAME_LEN_def)
    moreover have "TinyXmlNode_GetContent h (Some x) = Some (elem_text (value_items v))"
      using elem_content [OF x(2)] by simp
    moreover have inv: "property_inv (ev_arguments e)" "property_entries (ev_arguments e) = []" "count (ev_arguments e) = 0"
        "items (ev_arguments e) = []"
      by (simp_all add: assms(3) property_inv_def count_ok_def L_new_def L_SetDeleteListener_def property_entries_def)
    moreover have "UpnpEvent_SetArgumentValue [] e (Some k) (Some (opt_text (elem_text (value_items v)))) =
        Some (TINY_RET_OK, e\<lparr>ev_arguments := (ev_arguments e)\<lparr>items := [Some (new_property k (dropWhile is_blank v))], count := 1\<rparr>\<rparr>)"
      using property_add [OF inv(1) ok(2), of "dropWhile is_blank v"] inv
      by (simp add: UpnpEvent_SetArgumentValue_def value_items_text)
    ultimately show ?thesis
      using name n c(1) x(1) Cons nv by (simp add: load_propertyset_def opt_text_def)
  qed
qed

lemma event_reread:
  assumes "property_inv (ev_arguments src)" and "list_all pair_ok (prop_pairs (ev_arguments src))"
    and "length (items (ev_arguments src)) < 2 ^ 31" and "prop_pairs (ev_arguments src) = nv # rest"
    and "length (event_text (nv # rest)) < len"
    and "unused x" and "expat (event_text (nv # rest)) = (sax_of (event_doc (nv # rest)), True)"
    and "ev_arguments e = snd PropertyList_Construct"
  shows "\<exists>txt e'. UpnpEvent_ToString src [] len = Some (length txt, txt)
    \<and> UpnpEvent_Parse expat True (Some x) e (Some nt) (Some nts) (Some sid) (Some seq) (Some txt) = Some (TINY_RET_OK, e')
    \<and> prop_pairs (ev_arguments e') = [(fst nv, dropWhile is_blank (snd nv))]
    \<and> ev_nt e' = field_cpy NT_LEN nt \<and> ev_nts e' = field_cpy NTS_LEN nts
    \<and> ev_sid e' = field_cpy SID_LEN sid \<and> ev_seq e' = field_cpy SEQ_LEN seq"
proof -
  let ?ps = "nv # rest" and ?t = "event_text (nv # rest)"
  have ok: "list_all pair_ok ?ps" "pair_ok nv" using assms(2,4) by simp_all
  have "values_ok (ev_arguments src)"
    using assms(2) by (auto simp: values_ok_def pair_ok_def list_all_iff)
  then have print: "UpnpEvent_ToString src [] len = Some (length ?t, ?t)"
    using to_string_text [OF assms(1) _ assms(3) refl, of len] assms(4,5) by simp
  define e0 where "e0 = snd (UpnpEvent_SetSeq (snd (UpnpEvent_SetSid (snd (UpnpEvent_SetNts (snd (UpnpEvent_SetNt e (Some nt)))
      (Some nts))) (Some sid))) (Some seq))"
  have args: "ev_arguments e0 = L_SetDeleteListener True L_new"
    using assms(8) by (simp add: e0_def UpnpEvent_SetSeq_def UpnpEvent_SetSid_def UpnpEvent_SetNts_def UpnpEvent_SetNt_def
        PropertyList_Construct_def)
  have doc: "doc_ok (event_doc ?ps)" using event_doc_ok [OF ok(1)] .
  obtain x' root where x': "TinyXml_Parse expat True x ?t = Some (TINY_RET_OK, x')" "TinyXml_GetRoot x' = Some root"
      "rep (brk x) (brk x') (xml_heap x') None 0 root (event_doc ?ps)"
    using tree_of_document [of x _ _ _ expat ?t, OF assms(6) doc [unfolded event_doc_def] assms(7) [unfolded event_doc_def]]
    unfolding event_doc_def by blast
  have "?t \<noteq> []" by (simp add: event_text_def event_head_def)
  then have "UpnpEvent_Parse expat True (Some x) e (Some nt) (Some nts) (Some sid) (Some seq) (Some ?t) =
      load_propertyset (xml_heap x') root e0"
    using x'(1,2) by (simp add: UpnpEvent_Parse_def load_content_def load_xml_def e0_def [symmetric])
  also have "\<dots> = Some (TINY_RET_OK, e0\<lparr>ev_arguments := (ev_arguments e0)\<lparr>
      items := [Some (new_property (fst nv) (dropWhile is_blank (snd nv)))], count := 1\<rparr>\<rparr>)"
    using load_event_tree [OF x'(3) ok(1) args] by simp
  finally have parse: "UpnpEvent_Parse expat True (Some x) e (Some nt) (Some nts) (Some sid) (Some seq) (Some ?t) =
      Some (TINY_RET_OK, e0\<lparr>ev_arguments := (ev_arguments e0)\<lparr>
      items := [Some (new_property (fst nv) (dropWhile is_blank (snd nv)))], count := 1\<rparr>\<rparr>)" .
  have "length (dropWhile is_blank (snd nv)) < PROPERTY_VALUE_LEN"
    using ok(2) length_dropWhile_le [of is_blank "snd nv"] by (simp add: pair_ok_def)
  then have "prop_pairs ((ev_arguments e0)\<lparr>items := [Some (new_property (fst nv) (dropWhile is_blank (snd nv)))], count := 1\<rparr>) =
      [(fst nv, dropWhile is_blank (snd nv))]"
    using ok(2) by (simp add: prop_pairs_def new_property_def pair_ok_def field_cpy_def)
  moreover have "ev_nt e0 = field_cpy NT_LEN nt" "ev_nts e0 = field_cpy NTS_LEN nts" "ev_sid e0 = field_cpy SID_LEN sid"
      "ev_seq e0 = field_cpy SEQ_LEN seq"
    by (simp_all add: e0_def UpnpEvent_SetSeq_def UpnpEvent_SetSid_def UpnpEvent_SetNts_def UpnpEvent_SetNt_def)
  ultimately show ?thesis using print parse by auto
qed

text \<open>
  An event with one variable survives the wire, up to white space in front of its value. Of an
  event with several variables only the first arrives: the writer puts all of them into one
  property element and the reader takes the first child of each.
\<close>

theorem event_roundtrip_first:
  assumes "property_inv (ev_arguments src)" and "list_all pair_ok (prop_pairs (ev_arguments src))"
    and "length (items (ev_arguments src)) < 2 ^ 31" and "prop_pairs (ev_arguments src) = nv # rest"
    and "length (event_text (nv # rest)) < len"
    and "unused x" and "expat (event_text (nv # rest)) = (sax_of (event_doc (nv # rest)), True)"
    and "ev_arguments e = snd PropertyList_Construct"
  shows "\<exists>txt e'. UpnpEvent_ToString src [] len = Some (length txt, txt)
    \<and> UpnpEvent_Parse expat True (Some x) e (Some nt) (Some nts) (Some sid) (Some seq) (Some txt) = Some (TINY_RET_OK, e')
    \<and> prop_pairs (ev_arguments e') = [(fst nv, dropWhile is_blank (snd nv))]
    \<and> ev_nt e' = field_cpy NT_LEN nt \<and> ev_nts e' = field_cpy NTS_LEN nts
    \<and> ev_sid e' = field_cpy SID_LEN sid \<and> ev_seq e' = field_cpy SEQ_LEN seq"
  using event_reread [where expat = expat, OF assms] .

definition event_expat :: "string \<Rightarrow> sax list \<times> bool" where
  "event_expat s = (if s = event_text [(''Status'', ''1''), (''Target'', ''0'')]
     then (sax_of (event_doc [(''Status'', ''1''), (''Target'', ''0'')]), True) else ([], False))"

theorem event_roundtrip_first_witness:
  "\<exists>txt e'. UpnpEvent_ToString demo_event [] 4096 = Some (length txt, txt)
    \<and> UpnpEvent_Parse event_expat True (Some fresh_xml) (snd (UpnpEvent_Construct True)) (Some ''upnp:event'')
        (Some ''upnp:propchange'') (Some ''uuid:1'') (Some ''0'') (Some txt) = Some (TINY_RET_OK, e')
    \<and> prop_pairs (ev_arguments e') = [(''Status'', ''1'')]"
proof -
  let ?ps = "[(''Status'', ''1''), (''Target'', ''0'')]"
  have pairs: "list_all pair_ok (prop_pairs (ev_arguments demo_event))"
    by (simp add: demo_event_ok pair_ok_def PROPERTY_NAME_LEN_def PROPERTY_VALUE_LEN_def cstring_def)
  have len: "length (event_text ?ps) < 4096" by (simp add: event_text_def event_head_def event_tail_def prop_text_def)
  have ex: "event_expat (event_text ?ps) = (sax_of (event_doc ?ps), True)" unfolding event_expat_def by (rule if_P) (rule refl)
  have fresh: "ev_arguments (snd (UpnpEvent_Construct True)) = snd PropertyList_Construct"
    by (simp add: UpnpEvent_Construct_def PropertyList_New_def PropertyList_Construct_def)
  have "dropWhile is_blank ''1'' = ''1''" by (simp add: is_blank_def)
  then show ?thesis
    using event_roundtrip_first [where expat = event_expat, OF demo_event_ok(1) pairs demo_event_ok(3,4) len
      fresh_xml_unused ex fresh, of "''upnp:event''" "''upnp:propchange''" "''uuid:1''" "''0''"]
    by (simp only: fst_conv snd_conv) blast
qed

subsection \<open>Adding arguments\<close>

lemma property_pairs_add:
  assumes "property_inv l" and "length k < PROPERTY_NAME_LEN" and "length t < PROPERTY_VALUE_LEN"
    and "k \<notin> fst ` set (prop_pairs l)" and "property_room l 1"
  shows "\<exists>l'. PropertyList_Add [] l (Some k) (Some t) = Some (TINY_RET_OK, l') \<and> property_inv l'
    \<and> prop_pairs l' = prop_pairs l @ [(k, t)] \<and> length (items l') = Suc (length (items l))"
proof -
  have none: "map_of (property_entries l) k = None"
    using assms(4) by (force simp: map_of_names_None prop_pairs_def)
  let ?l = "l\<lparr>items := items l @ [Some (new_property k t)], count := count l + 1\<rparr>"
  have add: "PropertyList_Add [] l (Some k) (Some t) = Some (TINY_RET_OK, ?l)"
    using property_add [OF assms(1,2), of t] none by simp
  have "property_inv ?l" using property_inv_add [OF assms(1,2,5), of t] add by simp
  moreover have "prop_pairs ?l = prop_pairs l @ [(k, t)]"
    using assms(2,3) by (simp add: prop_pairs_def new_property_def field_cpy_short)
  ultimately show ?thesis using add by simp
qed

lemma add_argument:
  assumes "property_inv (ev_arguments e)" and "length k < PROPERTY_NAME_LEN" and "length t < PROPERTY_VALUE_LEN"
    and "k \<notin> fst ` set (prop_pairs (ev_arguments e))" and "property_room (ev_arguments e) 1"
  shows "\<exists>e'. UpnpEvent_SetArgumentValue [] e (Some k) (Some t) = Some (TINY_RET_OK, e')
    \<and> property_inv (ev_arguments e') \<and> prop_pairs (ev_arguments e') = prop_pairs (ev_arguments e) @ [(k, t)]
    \<and> e' = e\<lparr>ev_arguments := ev_arguments e'\<rparr> \<and> length (items (ev_arguments e')) = Suc (length (items (ev_arguments e)))"
proof -
  obtain l' where "PropertyList_Add [] (ev_arguments e) (Some k) (Some t) = Some (TINY_RET_OK, l')" "property_inv l'"
      "prop_pairs l' = prop_pairs (ev_arguments e) @ [(k, t)]" "length (items l') = Suc (length (items (ev_arguments e)))"
    using property_pairs_add [OF assms] by blast
  then show ?thesis by (simp add: UpnpEvent_SetArgumentValue_def)
qed

end
