(* ===== verification/GenaServer.thy ===== *)
theory GenaServer
  imports UpnpProvider UpnpEvent Worker
begin

section \<open>Eventing on the host: \<open>UpnpGenaServer.c\<close>\<close>

text \<open>
  The handlers of SUBSCRIBE and UNSUBSCRIBE requests and of a service's change. They work on the
  store of devices, the provider and the notify worker, whose jobs are events; what is sent
  back on the connection is recorded as a list of replies. \<open>fl\<close> are the floating point
  operations of \<open>DataValue\<close>. The provider's lock serialises the first two handlers.
\<close>

datatype conn_reply =
    SendError int string
  | SendOk
  | SendSubscribeResponse "string option" "32 word"
  | SendBytes string
  | SendFileContent string "32 word"

definition EVENT_VALUE_LEN :: nat where "EVENT_VALUE_LEN = 128"
definition FIXED_SID :: string where "FIXED_SID = ''uuid:xxxxx''"

text \<open>
  The text of a variable in an event: a string's own characters (NULL without one), otherwise
  what \<open>DataValue_GetValue\<close> writes into a zeroed buffer; \<open>Inl\<close> when it fails, which ends the
  loop.
\<close>

definition event_value :: "'f float_ops \<Rightarrow> 'f service_variable \<Rightarrow> (tiny_ret + string option) option" where
  "event_value fl v = (case sv_value v of
       VString s \<Rightarrow> Some (Inr s)
     | val \<Rightarrow> (case DataValue_GetValue fl val EVENT_VALUE_LEN of
         None \<Rightarrow> None
       | Some (ret, w) \<Rightarrow> Some (if RET_FAILED ret then Inl ret else Inr (Some (case w of None \<Rightarrow> [] | Some t \<Rightarrow> t)))))"

fun event_vars :: "'f float_ops \<Rightarrow> bool \<Rightarrow> 'f upnp_service \<Rightarrow> 32 word \<Rightarrow> nat \<Rightarrow> upnp_event \<Rightarrow> upnp_event option" where
  "event_vars fl changed_only s i 0 e = Some e"
| "event_vars fl changed_only s i (Suc n) e = do {
     v \<leftarrow> UpnpService_GetStateVariableAt s i;
     if \<not> (send_events v \<and> (changed_only \<longrightarrow> is_changed v)) then event_vars fl changed_only s (i + 1) n e
     else do {
       val \<leftarrow> event_value fl v;
       (case val of
          Inl _ \<Rightarrow> Some e
        | Inr t \<Rightarrow> do {
            name \<leftarrow> variable_name v;
            (_, e') \<leftarrow> UpnpEvent_SetArgumentValue [] e (Some name) t;
            event_vars fl changed_only s (i + 1) n e' }) } }"

definition event_headers :: "upnp_event \<Rightarrow> upnp_event" where
  "event_headers e = snd (UpnpEvent_SetSeq (snd (UpnpEvent_SetNts (snd (UpnpEvent_SetNt (snd (UpnpEvent_SetConnection e
     (Some ''Close''))) (Some ''upnp:event''))) (Some ''upnp:propchange''))) (Some ''0''))"

text \<open>
  \<open>UpnpService_GetSubscriber\<close> returns a pointer, which the code passes to \<open>RET_FAILED\<close>: \<open>at\<close> is
  the address of the subscriber found, as a 64-bit word.
\<close>

definition pointer_word :: "64 word \<Rightarrow> 'a option \<Rightarrow> 64 word" where
  "pointer_word at found = (case found of None \<Rightarrow> 0 | Some _ \<Rightarrow> at)"

text \<open>The allocations: the subscriber, its list node, the event, the node of the job queue.\<close>

definition OnSubscribe ::
    "64 word \<Rightarrow> bool \<Rightarrow> bool \<Rightarrow> mallocs \<Rightarrow> bool \<Rightarrow> 'f float_ops \<Rightarrow> 'f ustore \<Rightarrow> provider \<Rightarrow> upnp_event worker
      \<Rightarrow> string \<Rightarrow> string \<Rightarrow> 32 word \<Rightarrow> (conn_reply list \<times> 'f ustore \<times> upnp_event worker) option" where
  "OnSubscribe at sub_ok node_ok ev_oks put_ok fl u p w uri callback timeout = do {
     found \<leftarrow> UpnpProvider_GetService u p (Some uri);
     (case found of
        None \<Rightarrow> Some ([SendError 404 ''NOT FOUND''], u, w)
      | Some sa \<Rightarrow> do {
          s \<leftarrow> srv_at u sa;
          old \<leftarrow> UpnpService_GetSubscriber s (Some callback);
          if RET_FAILED (pointer_word at old) then Some ([SendError 404 ''ALREADY SUBSCRIBED''], u, w)
          else do {
            let sub = map_option (\<lambda>x. snd (UpnpSubscriber_SetSid (snd (UpnpSubscriber_SetTimeout
                  (snd (UpnpSubscriber_SetCallback x (Some callback))) timeout)) (Some FIXED_SID))) (UpnpSubscriber_New sub_ok);
            let s' = snd (UpnpService_AddSubscriber node_ok s sub);
            let u' = u\<lparr>srv_at := (srv_at u)(sa \<mapsto> s')\<rparr>;
            sid \<leftarrow> (case sub of None \<Rightarrow> Some None | Some x \<Rightarrow> map_option Some (UpnpSubscriber_GetSid x));
            let reply = SendSubscribeResponse sid (case sub of None \<Rightarrow> 0 | Some x \<Rightarrow> UpnpSubscriber_GetTimeout x);
            (case UpnpEvent_New ev_oks of
               None \<Rightarrow> Some ([reply], u', w)
             | Some e0 \<Rightarrow> do {
                 let e1 = snd (UpnpEvent_SetSid (event_headers (snd (UpnpEvent_SetCallback e0 (Some callback)))) sid);
                 e2 \<leftarrow> event_vars fl False s' 0 (unat (UpnpService_GetStateVariableCount s')) e1;
                 Some ([reply], u', snd (TinyWorker_PutJob put_ok w (Some e2))) }) } }) }"

definition OnUnsubscribe ::
    "'f ustore \<Rightarrow> provider \<Rightarrow> string \<Rightarrow> string option \<Rightarrow> (conn_reply list \<times> 'f ustore) option" where
  "OnUnsubscribe u p uri sid = do {
     found \<leftarrow> UpnpProvider_GetService u p (Some uri);
     (case found of
        None \<Rightarrow> Some ([SendError 404 ''NOT FOUND''], u)
      | Some sa \<Rightarrow> do {
          s \<leftarrow> srv_at u sa;
          (ret, s') \<leftarrow> UpnpService_RemoveSubscriber s sid;
          let u' = u\<lparr>srv_at := (srv_at u)(sa \<mapsto> s')\<rparr>;
          Some (if RET_FAILED ret then [SendError 404 ''NOT SUBSCRIBED''] else [SendOk], u') }) }"

text \<open>
  One job per subscriber: \<open>event\<close> gets the callback and identifier of each, a copy is queued. The
  allocations of the copies are taken to succeed.
\<close>

fun notify_loop ::
    "'f upnp_service \<Rightarrow> 32 word \<Rightarrow> nat \<Rightarrow> upnp_event \<Rightarrow> upnp_event worker \<Rightarrow> upnp_event worker option" where
  "notify_loop s i 0 e w = Some w"
| "notify_loop s i (Suc n) e w = do {
     let sub = UpnpService_GetSubscriberAt s i;
     callback \<leftarrow> (case sub of None \<Rightarrow> Some None | Some x \<Rightarrow> map_option Some (UpnpSubscriber_GetCallback x));
     sid \<leftarrow> (case sub of None \<Rightarrow> Some None | Some x \<Rightarrow> map_option Some (UpnpSubscriber_GetSid x));
     let e' = snd (UpnpEvent_SetSid (snd (UpnpEvent_SetCallback e callback)) sid);
     job \<leftarrow> UpnpEvent_New [];
     notify_loop s (i + 1) n e' (snd (TinyWorker_PutJob True w (Some (snd (UpnpEvent_Copy [] job e'))))) }"

definition OnServiceChanged_gena ::
    "mallocs \<Rightarrow> 'f float_ops \<Rightarrow> 'f upnp_service \<Rightarrow> upnp_event worker \<Rightarrow> upnp_event worker option" where
  "OnServiceChanged_gena ev_oks fl s w = (case UpnpEvent_New ev_oks of
       None \<Rightarrow> Some w
     | Some e0 \<Rightarrow> do {
         e1 \<leftarrow> event_vars fl True s 0 (unat (UpnpService_GetStateVariableCount s)) (event_headers e0);
         if 0 < UpnpEvent_GetArgumentCount e1
         then notify_loop s 0 (unat (UpnpService_GetSubscriberCount s)) e1 w
         else Some w })"

subsection \<open>The variables of an event\<close>

definition var_name_text :: "'f service_variable \<Rightarrow> string \<times> string" where
  "var_name_text v = (the (variable_name v), value_text (sv_value v))"

definition variables :: "'f upnp_service \<Rightarrow> 'f service_variable list" where
  "variables s = map the (items (stateVariableTable s))"

definition evented :: "bool \<Rightarrow> 'f service_variable \<Rightarrow> bool" where
  "evented changed_only v \<longleftrightarrow> send_events v \<and> (changed_only \<longrightarrow> is_changed v)"

text \<open>
  A variable that can be sent: its name is terminated, its value has a text that fits the
  buffer (a string: the property).
\<close>

definition sendable :: "'f service_variable \<Rightarrow> bool" where
  "sendable v \<longleftrightarrow> variable_name v \<noteq> None \<and> printable (sv_value v) \<and> length (value_text (sv_value v)) <
     (if value_type (sv_value v) = INTERNAL_STRING then PROPERTY_VALUE_LEN else EVENT_VALUE_LEN)"

definition table_ok :: "'f upnp_service \<Rightarrow> bool" where
  "table_ok s \<longleftrightarrow> named_ok variable_name (stateVariableTable s) \<and> list_all sendable (variables s)
     \<and> distinct (map variable_name (variables s))"

lemma event_value_text: "sendable v \<Longrightarrow> event_value fl v = Some (Inr (Some (value_text (sv_value v))))"
proof (cases "value_type (sv_value v) = INTERNAL_STRING")
  case True
  assume "sendable v"
  then show ?thesis using True
    by (cases "sv_value v") (auto simp: event_value_def sendable_def printable_def value_text_def)
next
  case False
  assume s: "sendable v"
  then have "DataValue_GetValue fl (sv_value v) EVENT_VALUE_LEN = Some (TINY_RET_OK, Some (value_text (sv_value v)))"
    using False by (intro get_value_text) (simp_all add: sendable_def)
  then show ?thesis using False by (cases "sv_value v") (simp_all add: event_value_def)
qed

lemma variable_at:
  assumes "named_ok variable_name (stateVariableTable s)" and "i < length (variables s)"
  shows "UpnpService_GetStateVariableAt s (word_of_nat i) = Some (variables s ! i)"
proof -
  have i: "i < length (items (stateVariableTable s))" using assms(2) by (simp add: variables_def)
  then have "sint (word_of_nat i :: 32 word) = int i"
    using assms(1) by (simp add: named_ok_def signed_of_nat signed_take_bit_int_eq_self)
  moreover have "items (stateVariableTable s) ! i \<noteq> None"
    using assms(1) i by (auto simp: named_ok_def in_set_conv_nth)
  ultimately show ?thesis
    using i by (auto simp: UpnpService_GetStateVariableAt_def L_GetAt_def nth_int_of_nat variables_def)
qed

lemma event_vars_from:
  assumes "table_ok s"
  shows "i + n = length (variables s) \<Longrightarrow> property_inv (ev_arguments e) \<Longrightarrow>
    length (items (ev_arguments e)) \<le> i \<Longrightarrow>
    fst ` set (prop_pairs (ev_arguments e)) \<subseteq> (\<lambda>v. the (variable_name v)) ` set (take i (variables s)) \<Longrightarrow>
    \<exists>e'. event_vars fl b s (word_of_nat i) n e = Some e' \<and> property_inv (ev_arguments e')
      \<and> prop_pairs (ev_arguments e') = prop_pairs (ev_arguments e) @ map var_name_text (filter (evented b) (drop i (variables s)))
      \<and> e' = e\<lparr>ev_arguments := ev_arguments e'\<rparr>"
proof (induction n arbitrary: i e)
  case 0
  then show ?case by simp
next
  case (Suc n)
  let ?vs = "variables s"
  have i: "i < length ?vs" using Suc.prems(1) by simp
  let ?v = "?vs ! i"
  have ok: "named_ok variable_name (stateVariableTable s)" "distinct (map variable_name ?vs)" "list_all sendable ?vs"
    using assms by (simp_all add: table_ok_def)
  have at: "UpnpService_GetStateVariableAt s (word_of_nat i) = Some ?v" by (rule variable_at [OF ok(1) i])
  have snd: "sendable ?v" using ok(3) i by (simp add: list_all_length)
  then obtain k where k: "variable_name ?v = Some k" by (auto simp: sendable_def)
  have w: "word_of_nat i + 1 = (word_of_nat (Suc i) :: 32 word)" by simp
  have d: "drop i ?vs = ?v # drop (Suc i) ?vs" using i by (rule Cons_nth_drop_Suc [symmetric])
  have t: "take (Suc i) ?vs = take i ?vs @ [?v]" using i by (rule take_Suc_conv_app_nth)
  show ?case
  proof (cases "evented b ?v")
    case False
    have "\<exists>e'. event_vars fl b s (word_of_nat (Suc i)) n e = Some e' \<and> property_inv (ev_arguments e')
      \<and> prop_pairs (ev_arguments e') = prop_pairs (ev_arguments e) @ map var_name_text (filter (evented b) (drop (Suc i) ?vs))
      \<and> e' = e\<lparr>ev_arguments := ev_arguments e'\<rparr>"
      using Suc.prems t by (intro Suc.IH) auto
    moreover have "event_vars fl b s (word_of_nat i) (Suc n) e = event_vars fl b s (word_of_nat (Suc i)) n e"
      using False at by (simp add: evented_def add.commute)
    moreover have "filter (evented b) (drop i ?vs) = filter (evented b) (drop (Suc i) ?vs)"
      unfolding d using False by simp
    ultimately show ?thesis by (simp only:)
  next
    case True
    have kn: "length k < PROPERTY_NAME_LEN"
      using k by (auto simp: variable_name_def read_field_def STATE_VARIABLE_NAME_LEN_def PROPERTY_NAME_LEN_def split: if_splits)
    have tl: "length (value_text (sv_value ?v)) < PROPERTY_VALUE_LEN"
      using snd by (auto simp: sendable_def EVENT_VALUE_LEN_def PROPERTY_VALUE_LEN_def split: if_splits)
    have fresh: "k \<notin> fst ` set (prop_pairs (ev_arguments e))"
    proof
      assume "k \<in> fst ` set (prop_pairs (ev_arguments e))"
      then have "k \<in> (\<lambda>v. the (variable_name v)) ` set (take i ?vs)" using Suc.prems(4) by blast
      then obtain j where j: "j < i" "the (variable_name (?vs ! j)) = k"
        using i by (auto simp: in_set_conv_nth)
      then have "variable_name (?vs ! j) = Some k"
        using ok(3) i by (auto simp: list_all_length sendable_def)
      then have "map variable_name ?vs ! j = map variable_name ?vs ! i" using j i k by simp
      then have "j = i"
        using nth_eq_iff_index_eq [OF ok(2), of j i] j(1) i by (metis length_map less_trans)
      with j(1) show False by simp
    qed
    have room: "property_room (ev_arguments e) 1"
      using Suc.prems(3) i ok(1) by (simp add: property_room_def named_ok_def variables_def)
    obtain e1 where e1: "UpnpEvent_SetArgumentValue [] e (Some k) (Some (value_text (sv_value ?v))) = Some (TINY_RET_OK, e1)"
        "property_inv (ev_arguments e1)" "prop_pairs (ev_arguments e1) = prop_pairs (ev_arguments e) @ [(k, value_text (sv_value ?v))]"
        "e1 = e\<lparr>ev_arguments := ev_arguments e1\<rparr>" "length (items (ev_arguments e1)) = Suc (length (items (ev_arguments e)))"
      using add_argument [OF Suc.prems(2) kn tl fresh room] by (elim exE conjE) (rule that)
    have "\<exists>e'. event_vars fl b s (word_of_nat (Suc i)) n e1 = Some e' \<and> property_inv (ev_arguments e')
      \<and> prop_pairs (ev_arguments e') = prop_pairs (ev_arguments e1) @ map var_name_text (filter (evented b) (drop (Suc i) ?vs))
      \<and> e' = e1\<lparr>ev_arguments := ev_arguments e'\<rparr>"
      using Suc.prems(1,3,4) e1(2,3,5) t k by (intro Suc.IH) auto
    then obtain e' where e': "event_vars fl b s (word_of_nat (Suc i)) n e1 = Some e'" "property_inv (ev_arguments e')"
      "prop_pairs (ev_arguments e') = prop_pairs (ev_arguments e1) @ map var_name_text (filter (evented b) (drop (Suc i) ?vs))"
      "e' = e1\<lparr>ev_arguments := ev_arguments e'\<rparr>" by (elim exE conjE) (rule that)
    have run: "event_vars fl b s (word_of_nat i) (Suc n) e = Some e'"
      using at True event_value_text [OF snd] k e1(1) e'(1) by (cases b) (simp_all add: evented_def add.commute)
    have "e' = e\<lparr>ev_arguments := ev_arguments e'\<rparr>" by (subst e'(4), subst e1(4)) simp
    moreover have "prop_pairs (ev_arguments e') = prop_pairs (ev_arguments e) @ map var_name_text (filter (evented b) (drop i ?vs))"
      unfolding e'(3) e1(3) d using True k by (simp add: var_name_text_def)
    ultimately show ?thesis using run e'(2) by blast
  qed
qed

lemma event_vars_all:
  assumes "table_ok s" and "ev_arguments e = snd PropertyList_Construct"
  shows "\<exists>e'. event_vars fl b s 0 (unat (UpnpService_GetStateVariableCount s)) e = Some e' \<and> property_inv (ev_arguments e')
      \<and> prop_pairs (ev_arguments e') = map var_name_text (filter (evented b) (variables s))
      \<and> e' = e\<lparr>ev_arguments := ev_arguments e'\<rparr>"
proof -
  have n: "unat (UpnpService_GetStateVariableCount s) = length (variables s)"
    using assms(1) by (simp add: UpnpService_GetStateVariableCount_def table_ok_def named_ok_def L_count_word variables_def)
  have "property_inv (ev_arguments e)" "items (ev_arguments e) = []"
    by (simp_all add: assms(2) PropertyList_Construct_def L_new_def L_SetDeleteListener_def property_inv_def count_ok_def)
  then show ?thesis
    using event_vars_from [OF assms(1), of 0 "length (variables s)" e fl b] by (simp add: n prop_pairs_def)
qed

subsection \<open>The jobs of a notification\<close>

definition job_for :: "upnp_event \<Rightarrow> subscriber \<Rightarrow> upnp_event \<Rightarrow> bool" where
  "job_for e x j \<longleftrightarrow> ev_callback j = sub_callback x \<and> ev_sid j = sub_sid x \<and> ev_nt j = ev_nt e \<and> ev_nts j = ev_nts e
     \<and> ev_seq j = ev_seq e \<and> ev_connection j = ev_connection e
     \<and> prop_pairs (ev_arguments j) = prop_pairs (ev_arguments e)"

definition fields_ok :: "upnp_event \<Rightarrow> bool" where
  "fields_ok e \<longleftrightarrow> length (ev_connection e) < CONNECTION_LEN \<and> length (ev_nt e) < NT_LEN \<and> length (ev_nts e) < NTS_LEN
     \<and> length (ev_seq e) < SEQ_LEN \<and> property_inv (ev_arguments e) \<and> values_ok (ev_arguments e)
     \<and> length (items (ev_arguments e)) < 2 ^ 31"

lemma put_job_view:
  "bq_inv (job_queue w) \<Longrightarrow> bq_inv (job_queue (snd (TinyWorker_PutJob True w (Some j))))
     \<and> bq_view (job_queue (snd (TinyWorker_PutJob True w (Some j)))) = bq_view (job_queue w) @ [j]"
  by (simp add: TinyWorker_PutJob_def TinyBlockingQueue_Put_def)

lemma copy_pairs:
  assumes "fields_ok e"
  shows "prop_pairs (ev_arguments (snd (UpnpEvent_Copy [] (snd (UpnpEvent_Construct True)) e))) = prop_pairs (ev_arguments e)"
proof -
  let ?d = "PropertyList_Dispose (snd PropertyList_Construct)"
  have n: "unat (PropertyList_GetSize (ev_arguments e)) = length (items (ev_arguments e))"
    using assms by (intro property_size) (simp_all add: fields_ok_def)
  have v: "list_all (\<lambda>x. length (pvalue (the x)) \<le> PROPERTY_VALUE_LEN) (items (ev_arguments e))"
    using assms by (auto simp: fields_ok_def values_ok_def prop_pairs_def list_all_iff)
  have inv: "property_inv (ev_arguments e)" using assms by (simp add: fields_ok_def)
  have "items (PropertyList_Copy [] (snd PropertyList_Construct) (ev_arguments e)) = items (ev_arguments e)"
    using property_copy_items [OF inv v, of 0 "length (items (ev_arguments e))" "?d"] n
    by (simp add: PropertyList_Copy_def PropertyList_Dispose_def L_RemoveAll_def PropertyList_Construct_def)
  then show ?thesis
    by (simp add: UpnpEvent_Copy_def UpnpEvent_Construct_def PropertyList_New_def PropertyList_Construct_def prop_pairs_def)
qed

lemma job_of_subscriber:
  assumes "fields_ok e" and "UpnpSubscriber_GetCallback x = Some c" and "UpnpSubscriber_GetSid x = Some sid"
  shows "job_for e x (snd (UpnpEvent_Copy [] (snd (UpnpEvent_Construct True))
      (snd (UpnpEvent_SetSid (snd (UpnpEvent_SetCallback e (Some c))) (Some sid)))))"
proof -
  let ?e = "snd (UpnpEvent_SetSid (snd (UpnpEvent_SetCallback e (Some c))) (Some sid))"
  have f: "fields_ok ?e" "ev_arguments ?e = ev_arguments e"
    using assms(1) by (simp_all add: fields_ok_def UpnpEvent_SetSid_def UpnpEvent_SetCallback_def)
  have "length (sub_callback x) < TINY_URL_LEN" "length (sub_sid x) < SID_LEN" "c = sub_callback x" "sid = sub_sid x"
    using assms(2,3) by (auto simp: UpnpSubscriber_GetCallback_def UpnpSubscriber_GetSid_def read_field_def
        UPNP_UUID_LEN_def SID_LEN_def split: if_splits)
  with assms(1) copy_pairs [OF f(1)] f(2) show ?thesis
    by (simp add: job_for_def fields_ok_def UpnpEvent_Copy_def UpnpEvent_SetSid_def UpnpEvent_SetCallback_def field_cpy_short)
qed

definition subs_ok :: "'f upnp_service \<Rightarrow> bool" where
  "subs_ok s \<longleftrightarrow> named_ok (\<lambda>x. if UpnpSubscriber_GetCallback x = None then None else UpnpSubscriber_GetSid x) (subscriberList s)"

lemma subscriber_at:
  assumes "subs_ok s" and "i < length (subscribers s)"
  shows "UpnpService_GetSubscriberAt s (word_of_nat i) = Some (subscribers s ! i)"
    and "\<exists>c. UpnpSubscriber_GetCallback (subscribers s ! i) = Some c"
    and "\<exists>sid. UpnpSubscriber_GetSid (subscribers s ! i) = Some sid"
proof -
  have i: "i < length (items (subscriberList s))" using assms(2) by (simp add: subscribers_def)
  then have "sint (word_of_nat i :: 32 word) = int i"
    using assms(1) by (simp add: subs_ok_def named_ok_def signed_of_nat signed_take_bit_int_eq_self)
  moreover have "items (subscriberList s) ! i \<noteq> None"
    using assms(1) i by (auto simp: subs_ok_def named_ok_def in_set_conv_nth)
  ultimately show "UpnpService_GetSubscriberAt s (word_of_nat i) = Some (subscribers s ! i)"
    using i by (auto simp: UpnpService_GetSubscriberAt_def L_GetAt_def nth_int_of_nat subscribers_def)
  show "\<exists>c. UpnpSubscriber_GetCallback (subscribers s ! i) = Some c"
      "\<exists>sid. UpnpSubscriber_GetSid (subscribers s ! i) = Some sid"
    using assms by (auto simp: subs_ok_def named_ok_def subscribers_def list_all_length split: if_splits)
qed

lemma notify_from:
  assumes "subs_ok s"
  shows "i + n = length (subscribers s) \<Longrightarrow> fields_ok e \<Longrightarrow> bq_inv (job_queue w) \<Longrightarrow>
    \<exists>w' js. notify_loop s (word_of_nat i) n e w = Some w' \<and> bq_inv (job_queue w')
      \<and> bq_view (job_queue w') = bq_view (job_queue w) @ js
      \<and> list_all2 (\<lambda>x j. job_for e x j) (drop i (subscribers s)) js"
proof (induction n arbitrary: i e w)
  case (Suc n)
  then have i: "i < length (subscribers s)" by simp
  let ?x = "subscribers s ! i"
  obtain c sid where x: "UpnpService_GetSubscriberAt s (word_of_nat i) = Some ?x" "UpnpSubscriber_GetCallback ?x = Some c"
      "UpnpSubscriber_GetSid ?x = Some sid"
    using subscriber_at [OF assms i] by blast
  let ?e = "snd (UpnpEvent_SetSid (snd (UpnpEvent_SetCallback e (Some c))) (Some sid))"
  let ?j = "snd (UpnpEvent_Copy [] (snd (UpnpEvent_Construct True)) ?e)"
  let ?w = "snd (TinyWorker_PutJob True w (Some ?j))"
  have f: "fields_ok ?e" using Suc.prems(2) by (simp add: fields_ok_def UpnpEvent_SetSid_def UpnpEvent_SetCallback_def)
  have same: "job_for ?e y j = job_for e y j" for y j
    by (simp add: job_for_def UpnpEvent_SetSid_def UpnpEvent_SetCallback_def)
  have new: "UpnpEvent_New [] = Some (snd (UpnpEvent_Construct True))"
    by (simp add: UpnpEvent_New_def UpnpEvent_Construct_def PropertyList_New_def PropertyList_Construct_def)
  have view: "bq_inv (job_queue ?w)" "bq_view (job_queue ?w) = bq_view (job_queue w) @ [?j]"
    using put_job_view [OF Suc.prems(3)] by auto
  obtain w' js where w': "notify_loop s (word_of_nat (Suc i)) n ?e ?w = Some w'" "bq_inv (job_queue w')"
      "bq_view (job_queue w') = bq_view (job_queue ?w) @ js"
      "list_all2 (\<lambda>x j. job_for e x j) (drop (Suc i) (subscribers s)) js"
    using Suc.IH [of "Suc i" ?e ?w] Suc.prems(1) f view(1) unfolding same by auto
  have w: "word_of_nat i + 1 = (word_of_nat (Suc i) :: 32 word)" by simp
  have "notify_loop s (word_of_nat i) (Suc n) e w = Some w'"
    using x w'(1) new by (simp add: Let_def add.commute)
  moreover have "bq_view (job_queue w') = bq_view (job_queue w) @ ?j # js" by (simp only: w'(3) view(2)) simp
  moreover have "list_all2 (\<lambda>x j. job_for e x j) (drop i (subscribers s)) (?j # js)"
    using w'(4) job_of_subscriber [OF Suc.prems(2) x(2,3)] i by (simp add: Cons_nth_drop_Suc [symmetric])
  ultimately show ?case using w'(2) by blast
qed auto

subsection \<open>What a change sends\<close>

lemma headers_of_new:
  assumes "UpnpEvent_New [] = Some e0"
  shows "ev_nts (event_headers e0) = ''upnp:propchange'' \<and> ev_nt (event_headers e0) = ''upnp:event''
    \<and> ev_seq (event_headers e0) = ''0'' \<and> ev_connection (event_headers e0) = ''Close''
    \<and> ev_callback (event_headers e0) = ev_callback e0
    \<and> ev_arguments (event_headers e0) = snd PropertyList_Construct"
  using assms by (auto simp: UpnpEvent_New_def UpnpEvent_Construct_def PropertyList_New_def PropertyList_Construct_def
      event_headers_def UpnpEvent_SetSeq_def UpnpEvent_SetNts_def UpnpEvent_SetNt_def UpnpEvent_SetConnection_def
      field_cpy_def CONNECTION_LEN_def NT_LEN_def NTS_LEN_def SEQ_LEN_def)

lemma new_event: "\<exists>e0. UpnpEvent_New [] = Some e0"
  by (simp add: UpnpEvent_New_def UpnpEvent_Construct_def PropertyList_New_def PropertyList_Construct_def)

lemma event_values_ok:
  assumes "table_ok s" and "prop_pairs l = map var_name_text (filter (evented b) (variables s))"
  shows "values_ok l" and "length (items l) < 2 ^ 31"
proof -
  have "length (value_text (sv_value v)) < PROPERTY_VALUE_LEN" if "v \<in> set (variables s)" for v
    using assms(1) that
    by (fastforce simp: table_ok_def list_all_iff sendable_def EVENT_VALUE_LEN_def PROPERTY_VALUE_LEN_def split: if_splits)
  then show "values_ok l" by (auto simp: values_ok_def assms(2) list_all_iff var_name_text_def)
  have "length (items l) = length (prop_pairs l)" by (simp add: prop_pairs_def)
  also have "\<dots> \<le> length (variables s)" by (simp add: assms(2))
  finally show "length (items l) < 2 ^ 31" using assms(1) by (simp add: table_ok_def named_ok_def variables_def)
qed

lemma subscriber_count: "subs_ok s \<Longrightarrow> unat (UpnpService_GetSubscriberCount s) = length (subscribers s)"
  by (simp add: UpnpService_GetSubscriberCount_def subs_ok_def named_ok_def L_count_word subscribers_def)

text \<open>
  C13. When a service changes, every subscriber gets one event, in the order of the subscriptions,
  which carries the name and text of exactly the evented variables marked as changed, in table
  order, with the subscriber's own callback and identifier; when no such variable exists
  nothing is queued. The sequence key of every event is the text 0, and the marks stay set, so
  that a later change sends these variables again.
\<close>

theorem gena_notify:
  assumes "table_ok s" and "subs_ok s" and "bq_inv (job_queue w)"
    and "vs = map var_name_text (filter (evented True) (variables s))"
  shows "\<exists>w' js. OnServiceChanged_gena [] fl s w = Some w' \<and> bq_view (job_queue w') = bq_view (job_queue w) @ js
    \<and> (if vs = [] then js = []
       else list_all2 (\<lambda>x j. ev_callback j = sub_callback x \<and> ev_sid j = sub_sid x \<and> ev_nts j = ''upnp:propchange''
          \<and> ev_seq j = ''0'' \<and> prop_pairs (ev_arguments j) = vs) (subscribers s) js)"
proof -
  obtain e0 where e0: "UpnpEvent_New [] = Some e0" using new_event by blast
  note h = headers_of_new [OF e0]
  obtain e where e: "event_vars fl True s 0 (unat (UpnpService_GetStateVariableCount s)) (event_headers e0) = Some e"
      "property_inv (ev_arguments e)" "prop_pairs (ev_arguments e) = vs"
      "e = (event_headers e0)\<lparr>ev_arguments := ev_arguments e\<rparr>"
    using event_vars_all [OF assms(1), of "event_headers e0" fl True] h assms(4) by auto
  note ok = event_values_ok [OF assms(1) e(3) [unfolded assms(4)]]
  have fields: "ev_connection e = ''Close'' \<and> ev_nt e = ''upnp:event'' \<and> ev_nts e = ''upnp:propchange'' \<and> ev_seq e = ''0''"
    by (subst e(4), subst e(4), subst e(4), subst e(4)) (simp add: h)
  then have f: "fields_ok e"
    using e(2) ok by (simp add: fields_ok_def CONNECTION_LEN_def NT_LEN_def NTS_LEN_def SEQ_LEN_def)
  have count: "unat (UpnpEvent_GetArgumentCount e) = length vs"
    using property_size [OF e(2) ok(2)] e(3) by (auto simp: UpnpEvent_GetArgumentCount_def prop_pairs_def)
  show ?thesis
  proof (cases "vs = []")
    case True
    then have "\<not> 0 < UpnpEvent_GetArgumentCount e" using count by (simp add: unat_eq_0)
    then show ?thesis using True e0 e(1) by (simp add: OnServiceChanged_gena_def)
  next
    case False
    then have pos: "0 < UpnpEvent_GetArgumentCount e" using count by (simp add: word_less_nat_alt)
    obtain w' js where w': "notify_loop s 0 (length (subscribers s)) e w = Some w'"
        "bq_view (job_queue w') = bq_view (job_queue w) @ js" "list_all2 (\<lambda>x j. job_for e x j) (subscribers s) js"
      using notify_from [OF assms(2), of 0 "length (subscribers s)" e w] f assms(3) by auto
    have "list_all2 (\<lambda>x j. ev_callback j = sub_callback x \<and> ev_sid j = sub_sid x \<and> ev_nts j = ''upnp:propchange''
          \<and> ev_seq j = ''0'' \<and> prop_pairs (ev_arguments j) = vs) (subscribers s) js"
      using w'(3) by (rule list_all2_mono) (use fields e(3) in \<open>simp add: job_for_def\<close>)
    then show ?thesis
      using False e0 e(1) pos w'(1,2) subscriber_count [OF assms(2)] by (simp add: OnServiceChanged_gena_def)
  qed
qed

definition demo_variable :: "string \<Rightarrow> bool \<Rightarrow> int service_variable" where
  "demo_variable name changed = \<lparr>send_events = True, is_changed = changed,
     sv_def = UpnpStateVariableDefinition_Construct\<lparr>var_name := name\<rparr>, sv_value = VBool True, sv_service = None\<rparr>"

definition demo_subscription :: "string \<Rightarrow> subscriber" where
  "demo_subscription callback = \<lparr>sub_timeout = 1800, sub_sid = FIXED_SID, sub_callback = callback\<rparr>"

definition demo_source :: "int upnp_service" where
  "demo_source = (snd UpnpService_Construct)\<lparr>eventSubURL := ''/e'',
     stateVariableTable := \<lparr>items = [Some (demo_variable ''A'' False), Some (demo_variable ''B'' True)], count = 2,
       log = [], has_listener = True\<rparr>,
     subscriberList := \<lparr>items = [Some (demo_subscription ''x''), Some (demo_subscription ''y'')], count = 2,
       log = [], has_listener = True\<rparr>\<rparr>"

lemma demo_source_vars: "variables demo_source = [demo_variable ''A'' False, demo_variable ''B'' True]"
    "subscribers demo_source = [demo_subscription ''x'', demo_subscription ''y'']"
  by (simp_all add: variables_def subscribers_def demo_source_def)

lemma demo_variable_name: "variable_name (demo_variable ''A'' b) = Some ''A''" "variable_name (demo_variable ''B'' b) = Some ''B''"
  by (simp_all add: variable_name_def demo_variable_def read_field_def STATE_VARIABLE_NAME_LEN_def c_str_def)

lemma demo_variable_sendable: "sendable (demo_variable ''A'' b)" "sendable (demo_variable ''B'' b)"
  by (simp_all add: sendable_def demo_variable_name)
     (simp_all add: demo_variable_def printable_def value_text_def EVENT_VALUE_LEN_def DataType_BooleanToString_def)

lemma demo_source_table: "table_ok demo_source"
  unfolding table_ok_def demo_source_vars
  by (simp add: demo_variable_sendable demo_variable_name named_ok_def)
     (simp add: demo_source_def demo_variable_name count_ok_def)

lemma demo_subscription_get: "UpnpSubscriber_GetSid (demo_subscription c) = Some FIXED_SID"
    "length c < 1024 \<Longrightarrow> UpnpSubscriber_GetCallback (demo_subscription c) = Some c"
  by (simp_all add: demo_subscription_def UpnpSubscriber_GetSid_def UpnpSubscriber_GetCallback_def read_field_def
      FIXED_SID_def UPNP_UUID_LEN_def TINY_URL_LEN_def)

lemma demo_source_subs: "subs_ok demo_source"
  by (simp add: subs_ok_def named_ok_def demo_source_def demo_subscription_get count_ok_def)

definition demo_worker :: "upnp_event worker" where
  "demo_worker = snd (TinyWorker_Construct TINY_RET_OK TINY_RET_OK)"

lemma demo_worker_queue: "bq_inv (job_queue demo_worker)" "bq_view (job_queue demo_worker) = []"
  by (simp_all add: demo_worker_def TinyWorker_Construct_def TinyBlockingQueue_Construct_def bq_new)

theorem gena_notify_witness:
  "\<exists>w' j1 j2. OnServiceChanged_gena [] int_floats demo_source demo_worker = Some w' \<and> bq_view (job_queue w') = [j1, j2]
    \<and> ev_callback j1 = ''x'' \<and> ev_callback j2 = ''y'' \<and> prop_pairs (ev_arguments j1) = [(''B'', ''1'')]
    \<and> prop_pairs (ev_arguments j2) = [(''B'', ''1'')]"
proof -
  have vs: "map var_name_text (filter (evented True) (variables demo_source)) = [(''B'', ''1'')]"
    unfolding demo_source_vars by (simp add: evented_def var_name_text_def demo_variable_name)
      (simp add: demo_variable_def value_text_def DataType_BooleanToString_def)
  show ?thesis
    using gena_notify [OF demo_source_table demo_source_subs demo_worker_queue(1) vs [symmetric], of int_floats]
    by (auto simp: demo_worker_queue(2) demo_source_vars list_all2_Cons1 demo_subscription_def)
qed
subsection \<open>Subscribing and unsubscribing\<close>

text \<open>
  C40. A SUBSCRIBE for a known event URL appends a subscriber with the given callback and timeout,
  replies with its identifier and queues one initial event with the name and text of every
  evented variable. The identifier is the same constant for every subscriber, and the test for
  an existing subscription never holds: the value tested is the address of the subscriber
  found, which is not negative, so a second SUBSCRIBE from the same callback adds a second
  subscriber.
\<close>

theorem gena_subscribe:
  assumes service: "UpnpProvider_GetService u p (Some uri) = Some (Some sa)" "srv_at u sa = Some s"
    and tables: "table_ok s" "named_ok UpnpSubscriber_GetCallback (subscriberList s)"
    and inputs: "length callback < TINY_URL_LEN" "0 \<le> sint at" "bq_inv (job_queue w)"
  shows "\<exists>u' s' w' e. OnSubscribe at True True [] True fl u p w uri callback timeout =
      Some ([SendSubscribeResponse (Some FIXED_SID) timeout], u', w')
    \<and> srv_at u' = (srv_at u)(sa \<mapsto> s')
    \<and> subscribers s' = subscribers s @ [\<lparr>sub_timeout = timeout, sub_sid = FIXED_SID, sub_callback = callback\<rparr>]
    \<and> bq_view (job_queue w') = bq_view (job_queue w) @ [e]
    \<and> ev_callback e = callback \<and> ev_sid e = FIXED_SID
    \<and> prop_pairs (ev_arguments e) = map var_name_text (filter (evented False) (variables s))"
proof -
  obtain old where old: "UpnpService_GetSubscriber s (Some callback) = Some old"
    using lookup_named_find [OF tables(2)] by (simp add: UpnpService_GetSubscriber_def)
  have fresh: "\<not> RET_FAILED (pointer_word at old)"
    using inputs(2) by (simp add: pointer_word_def RET_FAILED_def split: option.splits)
  let ?x = "\<lparr>sub_timeout = timeout, sub_sid = FIXED_SID, sub_callback = callback\<rparr>"
  let ?s = "s\<lparr>subscriberList := snd (L_AddTail True (Some ?x) (subscriberList s))\<rparr>"
  have x: "snd (UpnpSubscriber_SetSid (snd (UpnpSubscriber_SetTimeout
        (snd (UpnpSubscriber_SetCallback (snd UpnpSubscriber_Construct) (Some callback))) timeout)) (Some FIXED_SID)) = ?x"
    using inputs(1) by (simp add: UpnpSubscriber_SetSid_def UpnpSubscriber_SetTimeout_def UpnpSubscriber_SetCallback_def
        UpnpSubscriber_Construct_def field_cpy_short FIXED_SID_def UPNP_UUID_LEN_def)
  have new: "UpnpSubscriber_New True = Some (snd UpnpSubscriber_Construct)"
    by (simp add: UpnpSubscriber_New_def UpnpSubscriber_Construct_def)
  have add: "snd (UpnpService_AddSubscriber True s (Some ?x)) = ?s"
    by (simp add: UpnpService_AddSubscriber_def L_AddTail_def)
  have sid: "UpnpSubscriber_GetSid ?x = Some FIXED_SID"
    by (simp add: UpnpSubscriber_GetSid_def read_field_def FIXED_SID_def UPNP_UUID_LEN_def c_str_def)
  have t: "table_ok ?s" using tables(1) by (simp add: table_ok_def variables_def)
  obtain e0 where e0: "UpnpEvent_New [] = Some e0" using new_event by blast
  let ?e = "snd (UpnpEvent_SetSid (event_headers (snd (UpnpEvent_SetCallback e0 (Some callback)))) (Some FIXED_SID))"
  have h: "ev_callback ?e = callback" "ev_sid ?e = FIXED_SID" "ev_arguments ?e = snd PropertyList_Construct"
    using e0 inputs(1)
    by (auto simp: UpnpEvent_New_def UpnpEvent_Construct_def PropertyList_New_def PropertyList_Construct_def
      event_headers_def UpnpEvent_SetSeq_def UpnpEvent_SetNts_def UpnpEvent_SetNt_def UpnpEvent_SetConnection_def
      UpnpEvent_SetSid_def UpnpEvent_SetCallback_def field_cpy_short FIXED_SID_def SID_LEN_def)
  obtain e where e: "event_vars fl False ?s 0 (unat (UpnpService_GetStateVariableCount ?s)) ?e = Some e"
      "prop_pairs (ev_arguments e) = map var_name_text (filter (evented False) (variables ?s))"
      "e = ?e\<lparr>ev_arguments := ev_arguments e\<rparr>"
    using event_vars_all [OF t h(3), of fl False] by (elim exE conjE) (rule that)
  have fields: "ev_callback e = callback" "ev_sid e = FIXED_SID" by (subst e(3), simp add: h)+
  have view: "bq_view (job_queue (snd (TinyWorker_PutJob True w (Some e)))) = bq_view (job_queue w) @ [e]"
    using put_job_view [OF inputs(3)] by blast
  have "OnSubscribe at True True [] True fl u p w uri callback timeout = Some ([SendSubscribeResponse (Some FIXED_SID) timeout],
      u\<lparr>srv_at := (srv_at u)(sa \<mapsto> ?s)\<rparr>, snd (TinyWorker_PutJob True w (Some e)))"
    by (simp add: OnSubscribe_def service old fresh new x add sid e0 e(1) Let_def UpnpSubscriber_GetTimeout_def)
  moreover have "subscribers ?s = subscribers s @ [?x]" "variables ?s = variables s"
    by (simp_all add: subscribers_def variables_def L_AddTail_def)
  ultimately show ?thesis using view fields e(2) by force
qed

text \<open>
  An UNSUBSCRIBE removes the first subscriber with the given identifier. Since every
  subscriber has the same one, it removes the oldest subscription whoever asks, and it answers
  404 although it removed: the removal passes on the code of \<open>TinyList_RemoveAt\<close>, which is never
  the success code.
\<close>

theorem gena_unsubscribe:
  assumes "UpnpProvider_GetService u p (Some uri) = Some (Some sa)" and "srv_at u sa = Some s"
    and "named_ok UpnpSubscriber_GetSid (subscriberList s)"
    and "subscribers s = x # xs" and "UpnpSubscriber_GetSid x = Some sid"
  shows "\<exists>u' s'. OnUnsubscribe u p uri (Some sid) = Some ([SendError 404 ''NOT SUBSCRIBED''], u')
    \<and> srv_at u' = (srv_at u)(sa \<mapsto> s') \<and> subscribers s' = xs"
proof -
  have "List.extract (\<lambda>x. UpnpSubscriber_GetSid x = Some sid) (subscribers s) = Some ([], x, xs)"
    using assms(4,5) by (simp add: extract_Cons_code)
  then obtain s' where "UpnpService_RemoveSubscriber s (Some sid) = Some (TINY_RET_E_POSITION_INVALID, s')" "subscribers s' = xs"
    using remove_subscriber_extract [OF assms(3), of sid] by auto
  then show ?thesis using assms(1,2) by (force simp: OnUnsubscribe_def)
qed

definition demo_host_device :: upnp_device where
  "demo_host_device = (demo_device ''d1'')\<lparr>serviceList := \<lparr>items = [Some 7], count = 1, log = [], has_listener = False\<rparr>\<rparr>"

definition demo_host :: "int ustore" where
  "demo_host = \<lparr>dev_at = [1 \<mapsto> demo_host_device], srv_at = [7 \<mapsto> demo_source], act_at = Map.empty\<rparr>"

definition demo_provider :: provider where
  "demo_provider = (snd (UpnpProvider_Construct TINY_RET_OK))\<lparr>devices :=
     snd (TinyMap_Insert [] (devices (snd (UpnpProvider_Construct TINY_RET_OK))) (Some ''d1'') (Some 1))\<rparr>"

lemma demo_provider_devices: "TinyMap_GetValueAt (devices demo_provider) 0 = Some 1"
    "unat (TinyMap_GetCount (devices demo_provider)) = Suc 0"
proof -
  let ?m = "devices demo_provider" and ?fresh = "devices (snd (UpnpProvider_Construct TINY_RET_OK))"
  have inv: "map_inv ?fresh" using fresh_maps by (simp add: maps_ok_def)
  have d1: "devices demo_provider = snd (TinyMap_Insert [] ?fresh (Some ''d1'') (Some 1))" by (simp add: demo_provider_def)
  have d2: "map snd (map_entries (snd (TinyMap_Insert [] ?fresh (Some ''d1'') (Some 1)))) = map snd (map_entries ?fresh) @ [1]"
    by (rule entries_insert [OF inv fresh_lookup(1)])
  have d3: "map snd (map_entries ?fresh) = []" using fresh_lists(1) by (simp only: device_list_def)
  have e: "map snd (map_entries ?m) = [1]" by (subst d1, subst d2, subst d3) (rule append_Nil)
  then have l: "length (map_entries ?m) = 1" by (metis length_map One_nat_def length_Cons list.size(3))
  have i: "map_inv ?m" using map_inv_insert [OF inv] by (simp add: demo_provider_def)
  show "TinyMap_GetValueAt ?m 0 = Some 1"
    using value_at_word [OF i, of 0] l e by (cases "map_entries ?m") auto
  show "unat (TinyMap_GetCount ?m) = Suc 0" using map_count_word [OF i] l by simp
qed

lemma demo_host_service: "UpnpProvider_GetService demo_host demo_provider (Some ''/e'') = Some (Some 7)"
proof -
  have n: "UpnpService_GetEventSubURL demo_source = Some ''/e''"
    by (simp add: UpnpService_GetEventSubURL_def demo_source_def read_field_def TINY_URL_LEN_def c_str_def)
  have "named_ok (\<lambda>a. Option.bind (srv_at demo_host a) UpnpService_GetEventSubURL) (serviceList demo_host_device)"
    by (simp add: named_ok_def demo_host_device_def demo_host_def count_ok_def n)
  then have d: "UpnpDevice_GetServiceByEventSubURL demo_host demo_host_device (Some ''/e'') = Some (Some 7)"
    by (simp add: UpnpDevice_GetServiceByEventSubURL_def lookup_named_find) (simp add: demo_host_device_def demo_host_def n)
  show ?thesis using demo_provider_devices d by (simp add: UpnpProvider_GetService_def) (simp add: demo_host_def)
qed

lemma demo_source_named: "named_ok UpnpSubscriber_GetCallback (subscriberList demo_source)"
    "named_ok UpnpSubscriber_GetSid (subscriberList demo_source)"
  by (simp_all add: named_ok_def demo_source_def demo_subscription_get count_ok_def)

theorem gena_subscribe_witness:
  "\<exists>u' s' w' e. OnSubscribe 4096 True True [] True int_floats demo_host demo_provider demo_worker ''/e'' ''x'' 300 =
      Some ([SendSubscribeResponse (Some FIXED_SID) 300], u', w')
    \<and> srv_at u' 7 = Some s'
    \<and> map sub_callback (subscribers s') = [''x'', ''y'', ''x'']
    \<and> bq_view (job_queue w') = [e]
    \<and> prop_pairs (ev_arguments e) = [(''A'', ''1''), (''B'', ''1'')]"
proof -
  have s: "srv_at demo_host 7 = Some demo_source" by (simp add: demo_host_def)
  have c: "length ''x'' < TINY_URL_LEN" by (simp add: TINY_URL_LEN_def)
  have vs: "map var_name_text (filter (evented False) (variables demo_source)) = [(''A'', ''1''), (''B'', ''1'')]"
    unfolding demo_source_vars by (simp add: evented_def var_name_text_def demo_variable_name)
      (simp add: demo_variable_def value_text_def DataType_BooleanToString_def)
  have a: "0 \<le> sint (4096 :: 64 word)" by simp
  show ?thesis
    using gena_subscribe [OF demo_host_service s demo_source_table demo_source_named(1) c a demo_worker_queue(1), of int_floats 300]
    by (auto simp: demo_worker_queue(2) demo_source_vars(2) vs demo_subscription_def)
qed

theorem gena_unsubscribe_witness:
  "\<exists>u' s'. OnUnsubscribe demo_host demo_provider ''/e'' (Some FIXED_SID) =
      Some ([SendError 404 ''NOT SUBSCRIBED''], u')
    \<and> srv_at u' 7 = Some s' \<and> subscribers s' = [demo_subscription ''y'']"
proof -
  have s: "srv_at demo_host 7 = Some demo_source" by (simp add: demo_host_def)
  show ?thesis
    using gena_unsubscribe [OF demo_host_service s demo_source_named(2) demo_source_vars(2) demo_subscription_get(1)]
    by auto
qed

end
