(* ===== verification/HttpText.thy ===== *)
theory HttpText
  imports HttpMessage
begin

section \<open>Printing into a caller's buffer: \<open>HttpMessage_ToString\<close>\<close>

text \<open>
  The other printer of \<open>HttpMessage.c\<close>, which the SSDP messages use. It writes into a buffer of
  \<open>len\<close> bytes that it does not own and returns the number of bytes used. A piece that does not
  fit moves the write pointer past the end of the buffer, which is undefined (\<open>None\<close>); a piece
  that fits exactly ends the loop over the headers, but not the function, so that the closing
  empty line is written past the end.
\<close>

definition put_text :: "nat \<Rightarrow> string \<Rightarrow> string \<Rightarrow> string option" where
  "put_text len out line = (let l = field_printf HTTP_LINE_LEN line
     in if length out + length l \<le> len then Some (out @ l) else None)"

fun put_header_lines :: "nat \<Rightarrow> string \<Rightarrow> http_header \<Rightarrow> int \<Rightarrow> nat \<Rightarrow> string option" where
  "put_header_lines len out h i 0 = Some out"
| "put_header_lines len out h i (Suc n) = do {
     line \<leftarrow> header_line_at h i;
     out1 \<leftarrow> put_text len out line;
     if length out1 = len then Some out1 else put_header_lines len out1 h (i + 1) n }"

text \<open>
  The content is copied with \<open>strncpy\<close>: up to its first NUL, the rest of the buffer is cleared.
  Its buffer has no terminator, so without a NUL in it more bytes are read than it has, unless
  it fills the room left. The result is what is used and the bytes of the buffer so far.
\<close>

definition put_body :: "nat \<Rightarrow> string \<Rightarrow> http_content \<Rightarrow> (nat \<times> string) option" where
  "put_body len out c = (let n = unat (HttpContent_GetSize c); spare = len - length out in
     if n = 0 then Some (length out, out)
     else if spare < n then Some (0, out)
     else (case HttpContent_GetObject c of
         None \<Rightarrow> None
       | Some b \<Rightarrow> if NUL \<in> set b \<or> spare \<le> length b
           then Some (length out + n, out @ (c_str (take spare b) @ replicate (n - length (c_str (take spare b))) NUL))
           else None))"

definition HttpMessage_ToString :: "http_message \<Rightarrow> nat \<Rightarrow> (nat \<times> string) option" where
  "HttpMessage_ToString m len =
     (if mtype m = HTTP_UNDEFINED then Some (0, [])
      else do {
        line \<leftarrow> first_line m;
        out1 \<leftarrow> put_text len [] line;
        if length out1 = len then Some (len, out1)
        else do {
          out2 \<leftarrow> put_header_lines len out1 (header m) 0 (unat (count (header m)));
          out3 \<leftarrow> put_text len out2 [CR, LF];
          if length out3 = len then Some (len, out3) else put_body len out3 (content m) } })"

subsection \<open>What is printed\<close>

lemma put_text_fits:
  "length out + length line \<le> len \<Longrightarrow> length line < HTTP_LINE_LEN \<Longrightarrow> put_text len out line = Some (out @ line)"
  by (simp add: put_text_def field_defs)

lemma put_header_lines_text:
  assumes "headers_fit h" 
  shows "i + n = length (items h) \<Longrightarrow> length out + length (concat (map header_text (drop i (header_pairs h)))) < len \<Longrightarrow>
    put_header_lines len out h (int i) n = Some (out @ concat (map header_text (drop i (header_pairs h))))"
proof (induction n arbitrary: i out)
  case 0
  then show ?case by (simp add: header_pairs_def)
next
  case (Suc n)
  then have i: "i < length (items h)" by simp
  define t where "t = header_text (header_pairs h ! i)"
  have t: "header_line_at h (int i) = Some t" "length t < HTTP_LINE_LEN"
    using header_line_at_text [OF assms i] by (simp_all add: t_def)
  have d: "drop i (header_pairs h) = header_pairs h ! i # drop (Suc i) (header_pairs h)"
    using i by (intro Cons_nth_drop_Suc [symmetric]) (simp add: header_pairs_def)
  have room: "length (out @ t) + length (concat (map header_text (drop (Suc i) (header_pairs h)))) < len"
    using Suc.prems(2) by (simp add: d t_def)
  then have "put_text len out t = Some (out @ t)" using t(2) by (intro put_text_fits) simp_all
  moreover have "put_header_lines len (out @ t) h (int i + 1) n =
      Some ((out @ t) @ concat (map header_text (drop (Suc i) (header_pairs h))))"
    using Suc.IH [of "Suc i" "out @ t"] Suc.prems(1) room by (simp add: add.commute)
  moreover have "length (out @ t) \<noteq> len" using room by linarith
  ultimately show ?case using t(1) by (simp add: d t_def)
qed

lemma to_string_head:
  assumes "mtype m \<noteq> HTTP_UNDEFINED" and "first_line m = Some line" and "headers_fit (header m)"
    and "length line < HTTP_LINE_LEN" and "length (http_text line (header_pairs (header m)) []) < len"
  shows "HttpMessage_ToString m len = put_body len (http_text line (header_pairs (header m)) []) (content m)"
proof -
  have n: "unat (count (header m)) = length (items (header m))"
    using assms(3) header_count [of "header m"] by (auto simp: headers_fit_def)
  have room: "length line + length (concat (map header_text (header_pairs (header m)))) + 2 < len"
    using assms(5) by (simp add: http_text_def)
  have o1: "put_text len [] line = Some line" using put_text_fits [of "[]" line len] room assms(4) by simp
  have o2: "put_header_lines len line (header m) 0 (length (items (header m))) =
      Some (line @ concat (map header_text (header_pairs (header m))))"
    using put_header_lines_text [OF assms(3), of 0 "length (items (header m))" line len] room by simp
  have o3: "put_text len (line @ concat (map header_text (header_pairs (header m)))) [CR, LF] =
      Some ((line @ concat (map header_text (header_pairs (header m)))) @ [CR, LF])"
    using room by (intro put_text_fits) (simp_all add: field_defs)
  have "length line \<noteq> len" "length ((line @ concat (map header_text (header_pairs (header m)))) @ [CR, LF]) \<noteq> len"
    using room by simp_all
  then show ?thesis
    using assms(1,2) by (simp add: HttpMessage_ToString_def n o1 o2 o3 [simplified] http_text_def)
qed

lemma to_string_of:
  assumes "mtype m \<noteq> HTTP_UNDEFINED" and "first_line m = Some line" and "headers_fit (header m)"
    and "length line < HTTP_LINE_LEN" and "HttpContent_GetSize (content m) = 0"
    and "length (http_text line (header_pairs (header m)) []) < len"
  shows "HttpMessage_ToString m len = Some (length (http_text line (header_pairs (header m)) []), http_text line (header_pairs (header m)) [])"
  using to_string_head [OF assms(1-4,6)] assms(5) by (simp add: put_body_def)

text \<open>
  A content without a NUL that does not fill what is left of the buffer: \<open>strncpy\<close> reads on behind
  its end.
\<close>

lemma put_body_overread:
  assumes "NUL \<notin> set b" and "b \<noteq> []" and "length b < 2 ^ 32" and "length out + length b < len"
  shows "put_body len out (full_content b) = None"
proof -
  have "unat (word_of_nat (length b) :: 32 word) = length b" using assms(3) by (simp add: unat_word_of_nat)
  then show ?thesis
    using assms by (auto simp: put_body_def full_content_def HttpContent_GetSize_def HttpContent_GetObject_def Let_def)
qed

end
