(* ===== verification/SsdpMessage.thy ===== *)
theory SsdpMessage
  imports HttpText UpnpModel
begin

section \<open>SSDP messages: \<open>SsdpMessage.c\<close>\<close>

text \<open>
  The four messages of the discovery protocol, as the tagged union of the source, their
  construction from devices and services, their parser and their printer. The fields are
  arrays one byte longer than what \<open>strncpy\<close> copies, so they are always terminated.
\<close>

subsection \<open>Data\<close>

definition METHOD_NOTIFY :: string where "METHOD_NOTIFY = ''NOTIFY''"
definition METHOD_MSEARCH :: string where "METHOD_MSEARCH = ''M-SEARCH''"
definition HEAD_HOST :: string where "HEAD_HOST = ''HOST''"
definition HEAD_CACHE_CONTROL :: string where "HEAD_CACHE_CONTROL = ''CACHE-CONTROL''"
definition HEAD_LOCATION :: string where "HEAD_LOCATION = ''LOCATION''"
definition HEAD_ST :: string where "HEAD_ST = ''ST''"
definition HEAD_MAN :: string where "HEAD_MAN = ''MAN''"
definition HEAD_MX :: string where "HEAD_MX = ''MX''"
definition HEAD_NT :: string where "HEAD_NT = ''NT''"
definition HEAD_NTS :: string where "HEAD_NTS = ''NTS''"
definition HEAD_SERVER :: string where "HEAD_SERVER = ''SERVER''"
definition HEAD_USN :: string where "HEAD_USN = ''USN''"
definition HEAD_HOST_LEN :: nat where "HEAD_HOST_LEN = 128"
definition HEAD_CACHE_CONTROL_LEN :: nat where "HEAD_CACHE_CONTROL_LEN = 128"
definition HEAD_LOCATION_LEN :: nat where "HEAD_LOCATION_LEN = 256"
definition HEAD_ST_LEN :: nat where "HEAD_ST_LEN = 128"
definition HEAD_MAN_LEN :: nat where "HEAD_MAN_LEN = 64"
definition HEAD_NT_LEN :: nat where "HEAD_NT_LEN = 128"
definition HEAD_NTS_LEN :: nat where "HEAD_NTS_LEN = 64"
definition HEAD_SERVER_LEN :: nat where "HEAD_SERVER_LEN = 128"
definition HEAD_USN_LEN :: nat where "HEAD_USN_LEN = 128"
definition DEFAULT_HOST :: string where "DEFAULT_HOST = ''239.255.255.250:1900''"
definition DEFAULT_MAN :: string where "DEFAULT_MAN = [CHR 0x22] @ ''ssdp:discover'' @ [CHR 0x22]"
definition DEFAULT_ST :: string where "DEFAULT_ST = ''ssdp:all''"
definition DEFAULT_MX :: int where "DEFAULT_MX = 3"
definition NTS_ALIVE :: string where "NTS_ALIVE = ''ssdp:alive''"
definition NTS_BYEBYE :: string where "NTS_BYEBYE = ''ssdp:byebye''"
definition SSDP_MSG_MAX_LEN :: nat where "SSDP_MSG_MAX_LEN = 2048"

lemmas ssdp_names = METHOD_NOTIFY_def METHOD_MSEARCH_def HEAD_HOST_def HEAD_CACHE_CONTROL_def HEAD_LOCATION_def
  HEAD_ST_def HEAD_MAN_def HEAD_MX_def HEAD_NT_def HEAD_NTS_def HEAD_SERVER_def HEAD_USN_def

lemmas ssdp_lens = HEAD_HOST_LEN_def HEAD_CACHE_CONTROL_LEN_def HEAD_LOCATION_LEN_def HEAD_ST_LEN_def HEAD_MAN_LEN_def
  HEAD_NT_LEN_def HEAD_NTS_LEN_def HEAD_SERVER_LEN_def HEAD_USN_LEN_def

record ssdp_alive =
  al_host :: string
  al_nt :: string
  al_nts :: string
  al_usn :: string
  al_cache_control :: string
  al_location :: string
  al_server :: string
  al_ex_uri :: string
  al_ex_port :: "16 word"

record ssdp_byebye =
  bb_host :: string
  bb_nt :: string
  bb_nts :: string
  bb_usn :: string

record ssdp_request =
  rq_host :: string
  rq_st :: string
  rq_man :: string
  rq_mx :: int

record ssdp_response =
  rs_cache_control :: string
  rs_location :: string
  rs_st :: string
  rs_server :: string
  rs_usn :: string
  rs_ex_uri :: string
  rs_ex_port :: "16 word"

datatype ssdp_body = SSDP_INVALID | SSDP_ALIVE ssdp_alive | SSDP_BYEBYE ssdp_byebye
  | SSDP_MSEARCH_REQUEST ssdp_request | SSDP_MSEARCH_RESPONSE ssdp_response

record ssdp_message =
  remote_ip :: string
  remote_port :: "16 word"
  local_ip :: string
  ssdp_body :: ssdp_body

definition zero_alive :: ssdp_alive where
  "zero_alive = \<lparr>al_host = [], al_nt = [], al_nts = [], al_usn = [], al_cache_control = [], al_location = [],
     al_server = [], al_ex_uri = [], al_ex_port = 0\<rparr>"

definition zero_byebye :: ssdp_byebye where
  "zero_byebye = \<lparr>bb_host = [], bb_nt = [], bb_nts = [], bb_usn = []\<rparr>"

definition zero_request :: ssdp_request where
  "zero_request = \<lparr>rq_host = [], rq_st = [], rq_man = [], rq_mx = 0\<rparr>"

definition zero_response :: ssdp_response where
  "zero_response = \<lparr>rs_cache_control = [], rs_location = [], rs_st = [], rs_server = [], rs_usn = [],
     rs_ex_uri = [], rs_ex_port = 0\<rparr>"

definition zero_message :: ssdp_message where
  "zero_message = \<lparr>remote_ip = [], remote_port = 0, local_ip = [], ssdp_body = SSDP_INVALID\<rparr>"

subsection \<open>Parsing\<close>

text \<open>A header that must be there.\<close>

definition need_header :: "http_message \<Rightarrow> string \<Rightarrow> 'a \<Rightarrow> (string \<Rightarrow> (tiny_ret \<times> 'a) option) \<Rightarrow> (tiny_ret \<times> 'a) option" where
  "need_header m name x k = do {
     v \<leftarrow> HttpMessage_GetHeaderValue m (Some name);
     (case v of None \<Rightarrow> Some (TINY_RET_E_HTTP_MSG_INVALID, x) | Some s \<Rightarrow> k s) }"

text \<open>
  \<open>ssdp_parse_alive\<close> and \<open>ssdp_parse_byebye\<close> test \<open>nt\<close> again instead of \<open>nts\<close>: a message without
  NTS would be copied from NULL. Their caller has looked at NTS before.
\<close>

definition ssdp_parse_alive :: "http_message \<Rightarrow> ssdp_alive \<Rightarrow> (tiny_ret \<times> ssdp_alive) option" where
  "ssdp_parse_alive m a =
     need_header m HEAD_HOST a (\<lambda>host.
     need_header m HEAD_CACHE_CONTROL a (\<lambda>cache_control.
     need_header m HEAD_LOCATION a (\<lambda>location.
     need_header m HEAD_NT a (\<lambda>nt. do {
       nts0 \<leftarrow> HttpMessage_GetHeaderValue m (Some HEAD_NTS);
       need_header m HEAD_USN a (\<lambda>usn. do {
         nts \<leftarrow> nts0;
         server \<leftarrow> HttpMessage_GetHeaderValue m (Some HEAD_SERVER);
         Some (TINY_RET_OK, a\<lparr>al_host := field_cpy HEAD_HOST_LEN host,
           al_cache_control := field_cpy HEAD_CACHE_CONTROL_LEN cache_control,
           al_location := field_cpy HEAD_LOCATION_LEN location, al_nt := field_cpy HEAD_NT_LEN nt,
           al_nts := field_cpy HEAD_NTS_LEN nts, al_usn := field_cpy HEAD_USN_LEN usn,
           al_server := (case server of None \<Rightarrow> al_server a | Some s \<Rightarrow> field_cpy HEAD_USN_LEN s)\<rparr>) }) }))))"

definition ssdp_parse_byebye :: "http_message \<Rightarrow> ssdp_byebye \<Rightarrow> (tiny_ret \<times> ssdp_byebye) option" where
  "ssdp_parse_byebye m b =
     need_header m HEAD_HOST b (\<lambda>host.
     need_header m HEAD_NT b (\<lambda>nt. do {
       nts0 \<leftarrow> HttpMessage_GetHeaderValue m (Some HEAD_NTS);
       need_header m HEAD_USN b (\<lambda>usn. do {
         nts \<leftarrow> nts0;
         Some (TINY_RET_OK, b\<lparr>bb_host := field_cpy HEAD_HOST_LEN host, bb_nt := field_cpy HEAD_NT_LEN nt,
           bb_nts := field_cpy HEAD_NTS_LEN nts, bb_usn := field_cpy HEAD_USN_LEN usn\<rparr>) }) }))"

definition ssdp_parse_request :: "http_message \<Rightarrow> ssdp_request \<Rightarrow> (tiny_ret \<times> ssdp_request) option" where
  "ssdp_parse_request m q =
     need_header m HEAD_HOST q (\<lambda>host.
     need_header m HEAD_ST q (\<lambda>st.
     need_header m HEAD_MAN q (\<lambda>man.
     need_header m HEAD_MX q (\<lambda>mx. do {
       n \<leftarrow> read_field HTTP_MAX_VALUE_LEN mx;
       Some (TINY_RET_OK, q\<lparr>rq_host := field_cpy HEAD_HOST_LEN host, rq_st := field_cpy HEAD_ST_LEN st,
         rq_man := field_cpy HEAD_MAN_LEN man, rq_mx := atoi n\<rparr>) }))))"

definition ssdp_parse_response :: "http_message \<Rightarrow> ssdp_response \<Rightarrow> (tiny_ret \<times> ssdp_response) option" where
  "ssdp_parse_response m r =
     need_header m HEAD_CACHE_CONTROL r (\<lambda>cache_control.
     need_header m HEAD_LOCATION r (\<lambda>location.
     need_header m HEAD_ST r (\<lambda>st.
     need_header m HEAD_USN r (\<lambda>usn. do {
       server \<leftarrow> HttpMessage_GetHeaderValue m (Some HEAD_SERVER);
       Some (TINY_RET_OK, r\<lparr>rs_cache_control := field_cpy HEAD_CACHE_CONTROL_LEN cache_control,
         rs_location := field_cpy HEAD_LOCATION_LEN location, rs_st := field_cpy HEAD_NT_LEN st,
         rs_usn := field_cpy HEAD_USN_LEN usn,
         rs_server := (case server of None \<Rightarrow> rs_server r | Some s \<Rightarrow> field_cpy HEAD_USN_LEN s)\<rparr>) }))))"

text \<open>
  The body of a message by its first line; a NOTIFY with another NTS, another method and another
  type leave it invalid and \<open>ret\<close> as it was.
\<close>

definition ssdp_parse_body :: "http_message \<Rightarrow> tiny_ret \<Rightarrow> (tiny_ret \<times> ssdp_body) option" where
  "ssdp_parse_body m ret = (case mtype m of
       HTTP_REQUEST \<Rightarrow> do {
         notify \<leftarrow> HttpMessage_IsMethodEqual m METHOD_NOTIFY;
         if notify then do {
           nts0 \<leftarrow> HttpMessage_GetHeaderValue m (Some HEAD_NTS);
           (case nts0 of
              None \<Rightarrow> Some (TINY_RET_E_HTTP_MSG_INVALID, SSDP_INVALID)
            | Some v \<Rightarrow> do {
                nts \<leftarrow> read_field HTTP_MAX_VALUE_LEN v;
                if STR_EQUAL nts NTS_ALIVE
                then map_option (\<lambda>(r, a). (r, SSDP_ALIVE a)) (ssdp_parse_alive m zero_alive)
                else if STR_EQUAL nts NTS_BYEBYE
                then map_option (\<lambda>(r, b). (r, SSDP_BYEBYE b)) (ssdp_parse_byebye m zero_byebye)
                else Some (ret, SSDP_INVALID) }) }
         else do {
           search \<leftarrow> HttpMessage_IsMethodEqual m METHOD_MSEARCH;
           if search then map_option (\<lambda>(r, q). (r, SSDP_MSEARCH_REQUEST q)) (ssdp_parse_request m zero_request)
           else Some (ret, SSDP_INVALID) } }
     | HTTP_RESPONSE \<Rightarrow> map_option (\<lambda>(r, s). (r, SSDP_MSEARCH_RESPONSE s)) (ssdp_parse_response m zero_response)
     | HTTP_UNDEFINED \<Rightarrow> Some (ret, SSDP_INVALID))"

definition SsdpMessage_Construct ::
    "mallocs \<Rightarrow> string option \<Rightarrow> string \<Rightarrow> 16 word \<Rightarrow> string \<Rightarrow> 32 word \<Rightarrow> (tiny_ret \<times> ssdp_message) option" where
  "SsdpMessage_Construct oks localIp remoteIp remotePort buf len = do {
     (ret, msg) \<leftarrow> HttpMessage_Parse oks (snd HttpMessage_Construct) buf len;
     if RET_FAILED ret then Some (ret, zero_message)
     else do {
       (ret', body) \<leftarrow> ssdp_parse_body msg ret;
       Some (ret', \<lparr>remote_ip = field_cpy TINY_IP_LEN remoteIp, remote_port = remotePort,
         local_ip = (case localIp of None \<Rightarrow> [] | Some l \<Rightarrow> field_cpy TINY_IP_LEN l), ssdp_body = body\<rparr>) } }"

subsection \<open>Construction\<close>

definition SSDP_MAX_AGE :: string where "SSDP_MAX_AGE = ''max-age=1800''"
definition SSDP_SERVER :: string where "SSDP_SERVER = ''UpnpLan/0.1 UPnP/1.0''"
definition NT_ROOTDEVICE :: string where "NT_ROOTDEVICE = ''upnp:rootdevice''"

text \<open>\<open>snprintf(usn, HEAD_USN_LEN, "%s::%s", a, b)\<close>.\<close>

definition usn_of :: "string \<Rightarrow> string \<Rightarrow> string" where
  "usn_of a b = field_printf HEAD_USN_LEN (a @ ''::'' @ b)"

definition alive_message :: "string \<Rightarrow> string \<Rightarrow> string \<Rightarrow> 16 word \<Rightarrow> ssdp_message" where
  "alive_message nt usn uri prt = zero_message\<lparr>ssdp_body := SSDP_ALIVE (zero_alive
     \<lparr>al_host := field_cpy HEAD_HOST_LEN DEFAULT_HOST,
      al_cache_control := field_cpy HEAD_CACHE_CONTROL_LEN SSDP_MAX_AGE,
      al_nt := field_cpy HEAD_NT_LEN nt, al_nts := field_cpy HEAD_NTS_LEN NTS_ALIVE,
      al_server := field_cpy HEAD_SERVER_LEN SSDP_SERVER, al_usn := field_cpy HEAD_USN_LEN usn,
      al_ex_uri := field_cpy TINY_URI_LEN uri, al_ex_port := prt\<rparr>)\<rparr>"

definition byebye_message :: "string \<Rightarrow> string \<Rightarrow> ssdp_message" where
  "byebye_message nt usn = zero_message\<lparr>ssdp_body := SSDP_BYEBYE
     \<lparr>bb_host = field_cpy HEAD_HOST_LEN DEFAULT_HOST, bb_nt = field_cpy HEAD_NT_LEN nt,
      bb_nts = field_cpy HEAD_NTS_LEN NTS_BYEBYE, bb_usn = field_cpy HEAD_USN_LEN usn\<rparr>\<rparr>"

definition response_message ::
    "string \<Rightarrow> string \<Rightarrow> string \<Rightarrow> 16 word \<Rightarrow> string \<Rightarrow> string \<Rightarrow> 16 word \<Rightarrow> ssdp_message" where
  "response_message st usn uri ex_port localIp rip prt =
     \<lparr>remote_ip = field_cpy TINY_IP_LEN rip, remote_port = prt, local_ip = field_cpy TINY_IP_LEN localIp,
      ssdp_body = SSDP_MSEARCH_RESPONSE (zero_response
        \<lparr>rs_cache_control := field_cpy HEAD_CACHE_CONTROL_LEN SSDP_MAX_AGE, rs_st := field_cpy HEAD_NT_LEN st,
         rs_server := field_cpy HEAD_SERVER_LEN SSDP_SERVER, rs_usn := field_cpy HEAD_USN_LEN usn,
         rs_ex_uri := field_cpy TINY_URI_LEN uri, rs_ex_port := ex_port\<rparr>)\<rparr>"

text \<open>The parameter \<open>port\<close> is hidden by the device's own prt.\<close>

definition SsdpMessage_ConstructAlive_ROOTDEVICE :: "upnp_device \<Rightarrow> string \<Rightarrow> 16 word \<Rightarrow> (tiny_ret \<times> ssdp_message) option" where
  "SsdpMessage_ConstructAlive_ROOTDEVICE d uri prt = do {
     devid \<leftarrow> UpnpDevice_GetDeviceId d;
     Some (TINY_RET_OK, alive_message NT_ROOTDEVICE (usn_of devid ''upnp:rootdevice'') uri (UpnpDevice_GetHttpPort d)) }"

definition SsdpMessage_ConstructAlive_DEVICE_UUID :: "upnp_device \<Rightarrow> string \<Rightarrow> 16 word \<Rightarrow> (tiny_ret \<times> ssdp_message) option" where
  "SsdpMessage_ConstructAlive_DEVICE_UUID d uri prt = do {
     devid \<leftarrow> UpnpDevice_GetDeviceId d;
     Some (TINY_RET_OK, alive_message devid devid uri prt) }"

definition SsdpMessage_ConstructAlive_DEVICE :: "upnp_device \<Rightarrow> string \<Rightarrow> 16 word \<Rightarrow> (tiny_ret \<times> ssdp_message) option" where
  "SsdpMessage_ConstructAlive_DEVICE d uri prt = do {
     devid \<leftarrow> UpnpDevice_GetDeviceId d;
     ty \<leftarrow> UpnpDevice_GetDeviceType d;
     Some (TINY_RET_OK, alive_message ty (usn_of devid ty) uri prt) }"

text \<open>A service without a device has no identifier: NULL is printed with \<open>%s\<close>.\<close>

definition parent_id :: "'f ustore \<Rightarrow> 'f upnp_service \<Rightarrow> string option" where
  "parent_id u s = do { a \<leftarrow> UpnpService_GetParentDevice s; d \<leftarrow> dev_at u a; UpnpDevice_GetDeviceId d }"

definition SsdpMessage_ConstructAlive_SERVICE ::
    "'f ustore \<Rightarrow> 'f upnp_service \<Rightarrow> string \<Rightarrow> 16 word \<Rightarrow> (tiny_ret \<times> ssdp_message) option" where
  "SsdpMessage_ConstructAlive_SERVICE u s uri prt = do {
     devid \<leftarrow> parent_id u s;
     ty \<leftarrow> UpnpService_GetServiceType s;
     Some (TINY_RET_OK, alive_message ty (usn_of devid ty) uri prt) }"

definition SsdpMessage_ConstructByebye_ROOTDEVICE :: "upnp_device \<Rightarrow> (tiny_ret \<times> ssdp_message) option" where
  "SsdpMessage_ConstructByebye_ROOTDEVICE d = do {
     devid \<leftarrow> UpnpDevice_GetDeviceId d;
     Some (TINY_RET_OK, byebye_message NT_ROOTDEVICE (usn_of devid ''upnp:rootdevice'')) }"

definition SsdpMessage_ConstructByebye_DEVICE_UUID :: "upnp_device \<Rightarrow> (tiny_ret \<times> ssdp_message) option" where
  "SsdpMessage_ConstructByebye_DEVICE_UUID d = do {
     devid \<leftarrow> UpnpDevice_GetDeviceId d;
     Some (TINY_RET_OK, byebye_message devid devid) }"

definition SsdpMessage_ConstructByebye_DEVICE :: "upnp_device \<Rightarrow> (tiny_ret \<times> ssdp_message) option" where
  "SsdpMessage_ConstructByebye_DEVICE d = do {
     devid \<leftarrow> UpnpDevice_GetDeviceId d;
     ty \<leftarrow> UpnpDevice_GetDeviceType d;
     Some (TINY_RET_OK, byebye_message ty (usn_of devid ty)) }"

definition SsdpMessage_ConstructByebye_SERVICE :: "'f ustore \<Rightarrow> 'f upnp_service \<Rightarrow> (tiny_ret \<times> ssdp_message) option" where
  "SsdpMessage_ConstructByebye_SERVICE u s = do {
     devid \<leftarrow> parent_id u s;
     ty \<leftarrow> UpnpService_GetServiceType s;
     Some (TINY_RET_OK, byebye_message ty (usn_of devid ty)) }"

definition SsdpMessage_ConstructRequest :: "string option \<Rightarrow> tiny_ret \<times> ssdp_message" where
  "SsdpMessage_ConstructRequest target = (case target of
       None \<Rightarrow> (TINY_RET_E_ARG_NULL, zero_message)
     | Some st \<Rightarrow> (TINY_RET_OK, zero_message\<lparr>ssdp_body := SSDP_MSEARCH_REQUEST
         \<lparr>rq_host = field_cpy HEAD_HOST_LEN DEFAULT_HOST, rq_st = field_cpy HEAD_ST_LEN st,
          rq_man = field_cpy HEAD_MAN_LEN DEFAULT_MAN, rq_mx = DEFAULT_MX\<rparr>\<rparr>))"

definition SsdpMessage_ConstructResponse_ROOTDEVICE ::
    "upnp_device \<Rightarrow> string \<Rightarrow> 16 word \<Rightarrow> string \<Rightarrow> string \<Rightarrow> 16 word \<Rightarrow> (tiny_ret \<times> ssdp_message) option" where
  "SsdpMessage_ConstructResponse_ROOTDEVICE d uri ex_port localIp rip prt = do {
     devid \<leftarrow> UpnpDevice_GetDeviceId d;
     Some (TINY_RET_OK, response_message NT_ROOTDEVICE (usn_of devid ''upnp:rootdevice'') uri ex_port localIp rip prt) }"

text \<open>The message for the device's UUID is the one for its type.\<close>

definition SsdpMessage_ConstructResponse_DEVICE_UUID ::
    "upnp_device \<Rightarrow> string \<Rightarrow> 16 word \<Rightarrow> string \<Rightarrow> string \<Rightarrow> 16 word \<Rightarrow> (tiny_ret \<times> ssdp_message) option" where
  "SsdpMessage_ConstructResponse_DEVICE_UUID d uri ex_port localIp rip prt = do {
     devid \<leftarrow> UpnpDevice_GetDeviceId d;
     ty \<leftarrow> UpnpDevice_GetDeviceType d;
     Some (TINY_RET_OK, response_message ty (usn_of devid ty) uri ex_port localIp rip prt) }"

definition SsdpMessage_ConstructResponse_DEVICE ::
    "upnp_device \<Rightarrow> string \<Rightarrow> 16 word \<Rightarrow> string \<Rightarrow> string \<Rightarrow> 16 word \<Rightarrow> (tiny_ret \<times> ssdp_message) option" where
  "SsdpMessage_ConstructResponse_DEVICE d uri ex_port localIp rip prt = do {
     devid \<leftarrow> UpnpDevice_GetDeviceId d;
     ty \<leftarrow> UpnpDevice_GetDeviceType d;
     Some (TINY_RET_OK, response_message ty (usn_of devid ty) uri ex_port localIp rip prt) }"

definition SsdpMessage_ConstructResponse_SERVICE ::
    "'f ustore \<Rightarrow> 'f upnp_service \<Rightarrow> string \<Rightarrow> 16 word \<Rightarrow> string \<Rightarrow> string \<Rightarrow> 16 word \<Rightarrow> (tiny_ret \<times> ssdp_message) option" where
  "SsdpMessage_ConstructResponse_SERVICE u s uri ex_port localIp rip prt = do {
     devid \<leftarrow> parent_id u s;
     ty \<leftarrow> UpnpService_GetServiceType s;
     Some (TINY_RET_OK, response_message ty (usn_of devid ty) uri ex_port localIp rip prt) }"

subsection \<open>Printing\<close>

fun set_headers :: "mallocs \<Rightarrow> http_message \<Rightarrow> (string \<times> string) list \<Rightarrow> http_message \<times> mallocs" where
  "set_headers oks m [] = (m, oks)"
| "set_headers oks m ((n, v) # kvs) = (case HttpHeader_Set oks (header m) (Some n) (Some v) of
     (h, oks') \<Rightarrow> set_headers oks' (m\<lparr>header := h\<rparr>) kvs)"

definition star_request :: "string \<Rightarrow> http_message" where
  "star_request method = HttpMessage_SetUri (HttpMessage_SetMethod (HttpMessage_SetVersion
     (HttpMessage_SetType (snd HttpMessage_Construct) HTTP_REQUEST) 1 1) method) ''*''"

text \<open>
  The HTTP message of each kind. A byebye gets no USN, and for a search response nothing is set,
  so that its type stays undefined.
\<close>

definition ssdp_http :: "mallocs \<Rightarrow> ssdp_body \<Rightarrow> http_message option" where
  "ssdp_http oks body = (case body of
       SSDP_ALIVE a \<Rightarrow> do {
         host \<leftarrow> read_field (HEAD_HOST_LEN + 1) (al_host a);
         cache_control \<leftarrow> read_field (HEAD_CACHE_CONTROL_LEN + 1) (al_cache_control a);
         nt \<leftarrow> read_field (HEAD_NT_LEN + 1) (al_nt a);
         nts \<leftarrow> read_field (HEAD_NTS_LEN + 1) (al_nts a);
         server \<leftarrow> read_field (HEAD_SERVER_LEN + 1) (al_server a);
         usn \<leftarrow> read_field (HEAD_USN_LEN + 1) (al_usn a);
         location \<leftarrow> read_field (HEAD_LOCATION_LEN + 1) (al_location a);
         Some (fst (set_headers oks (star_request METHOD_NOTIFY)
           [(HEAD_HOST, host), (HEAD_CACHE_CONTROL, cache_control), (HEAD_NT, nt), (HEAD_NTS, nts),
            (HEAD_SERVER, server), (HEAD_USN, usn), (HEAD_LOCATION, location)])) }
     | SSDP_BYEBYE b \<Rightarrow> do {
         host \<leftarrow> read_field (HEAD_HOST_LEN + 1) (bb_host b);
         nt \<leftarrow> read_field (HEAD_NT_LEN + 1) (bb_nt b);
         nts \<leftarrow> read_field (HEAD_NTS_LEN + 1) (bb_nts b);
         Some (fst (set_headers oks (star_request METHOD_NOTIFY) [(HEAD_HOST, host), (HEAD_NT, nt), (HEAD_NTS, nts)])) }
     | SSDP_MSEARCH_REQUEST q \<Rightarrow> do {
         host \<leftarrow> read_field (HEAD_HOST_LEN + 1) (rq_host q);
         st \<leftarrow> read_field (HEAD_ST_LEN + 1) (rq_st q);
         man \<leftarrow> read_field (HEAD_MAN_LEN + 1) (rq_man q);
         (case set_headers oks (star_request METHOD_MSEARCH) [(HEAD_HOST, host), (HEAD_ST, st), (HEAD_MAN, man)] of
            (m, oks') \<Rightarrow> Some (HttpMessage_SetHeaderInteger oks' m (Some HEAD_MX) (word_of_int (rq_mx q)))) }
     | _ \<Rightarrow> Some (snd HttpMessage_Construct))"

definition SsdpMessage_ToString :: "mallocs \<Rightarrow> ssdp_message \<Rightarrow> nat \<Rightarrow> (nat \<times> string) option" where
  "SsdpMessage_ToString oks thiz len = do {
     m \<leftarrow> ssdp_http oks (ssdp_body thiz);
     HttpMessage_ToString m len }"

subsection \<open>What is printed is parsed\<close>

text \<open>The text of a request for \<open>*\<close> with the given headers.\<close>

definition star_text :: "string \<Rightarrow> (string \<times> string) list \<Rightarrow> string" where
  "star_text method kvs = http_text (request_text (star_request method)) kvs []"

definition star_message :: "string \<Rightarrow> (string \<times> string) list \<Rightarrow> http_message" where
  "star_message method kvs = (star_request method)\<lparr>header := header_set_all kvs (header (star_request method))\<rparr>"

lemma set_headers_all: "set_headers [] m kvs = (m\<lparr>header := header_set_all kvs (header m)\<rparr>, [])"
  by (induction kvs arbitrary: m) (auto simp: header_set_items)

definition line_ok :: "string \<times> string \<Rightarrow> bool" where
  "line_ok kv \<longleftrightarrow> plain_header kv \<and> length (header_text kv) < HTTP_LINE_LEN"

lemma star_request_simps:
  "mtype (star_request method) = HTTP_REQUEST" "req_uri (star_request method) = ''*''"
  "header (star_request method) = snd HttpHeader_Construct" "content (star_request method) = fresh_content"
  "length method < HTTP_METHOD_LEN \<Longrightarrow> req_method (star_request method) = method"
  "major (star_request method) = 1" "minor (star_request method) = 1"
  "protocol_identifier (star_request method) = ''HTTP''"
  by (simp_all add: star_request_def HttpMessage_Construct_def HttpMessage_SetUri_def HttpMessage_SetMethod_def
      HttpMessage_SetVersion_def HttpMessage_SetType_def field_defs fresh_content_def)

lemma star_request_ok:
  assumes "method = METHOD_NOTIFY \<or> method = METHOD_MSEARCH"
  shows "request_ok (star_request method)" and "length (request_text (star_request method)) \<in> {19..21}"
proof -
  have m: "length method < HTTP_METHOD_LEN" using assms by (auto simp: ssdp_names HTTP_METHOD_LEN_def)
  have d: "show_int 1 = ''1''" by (simp add: show_int_def show_nat_small)
  show "request_ok (star_request method)"
    using assms by (auto simp: request_ok_def star_request_simps(1-4,6-8) star_request_simps(5) [OF m] version_ok_def num_ok_def
        ssdp_names is_name_char_def is_char_def is_ctl_def is_tspecial_def sbyte_def field_defs)
  show "length (request_text (star_request method)) \<in> {19..21}"
    using assms by (auto simp: request_text_def star_request_simps(1-4,6-8) star_request_simps(5) [OF m] printed_version_def d ssdp_names)
qed

lemma fresh_header: "header_inv (snd HttpHeader_Construct)" "header_pairs (snd HttpHeader_Construct) = []"
    "items (snd HttpHeader_Construct) = []" "count (snd HttpHeader_Construct) = 0"
  by (simp_all add: HttpHeader_Construct_def header_inv_def header_pairs_def L_SetDeleteListener_def L_new_def count_ok_def)

lemma plain_pairs:
  "list_all line_ok kvs \<Longrightarrow> map (\<lambda>(k, v). (field_cpy HTTP_MAX_NAME_LEN k, field_cpy HTTP_MAX_VALUE_LEN v)) kvs = kvs"
  by (intro map_idI) (auto simp: list_all_iff line_ok_def plain_header_def field_cpy_short)

lemma first_line_header: "first_line (m\<lparr>header := h\<rparr>) = first_line m"
  by (simp add: first_line_def cong: if_cong)

lemma star_print:
  assumes "method = METHOD_NOTIFY \<or> method = METHOD_MSEARCH" and "list_all line_ok kvs" and "length kvs < 2 ^ 20"
    and "length (star_text method kvs) < len"
  shows "HttpMessage_ToString (star_message method kvs) len = Some (length (star_text method kvs), star_text method kvs)"
proof -
  let ?m = "star_message method kvs"
  note r = star_request_ok [OF assms(1)]
  have pairs: "header_pairs (header ?m) = kvs"
    by (simp add: star_message_def star_request_simps header_pairs_set_all fresh_header plain_pairs [OF assms(2)])
  have its: "items (header ?m) = map (\<lambda>(k, v). Some
      \<lparr>hname = field_cpy HTTP_MAX_NAME_LEN k, hvalue = field_cpy HTTP_MAX_VALUE_LEN v\<rparr>) kvs"
    by (simp add: star_message_def star_request_simps header_set_all_items fresh_header)
  have "header_inv (header ?m)"
    unfolding star_message_def star_request_simps using assms(3) by (simp add: header_inv_set_all fresh_header star_request_simps)
  then have fit: "headers_fit (header ?m)"
    using assms(2,3) by (simp add: headers_fit_def pairs its list_all_iff line_ok_def)
  have fl: "first_line ?m = Some (request_text (star_request method))"
    using first_line_request [OF r(1)] by (simp add: star_message_def first_line_header)
  have "mtype ?m \<noteq> HTTP_UNDEFINED" "HttpContent_GetSize (content ?m) = 0"
    by (simp_all add: star_message_def star_request_simps HttpContent_GetSize_def fresh_content_def HttpContent_Construct_def)
  moreover have "length (request_text (star_request method)) < HTTP_LINE_LEN" using r(2) by (simp add: HTTP_LINE_LEN_def)
  ultimately show ?thesis
    using to_string_of [OF _ fl fit] assms(4) by (simp add: pairs star_text_def)
qed

lemma star_parse:
  assumes "method = METHOD_NOTIFY \<or> method = METHOD_MSEARCH" and "list_all line_ok kvs" and "length kvs < 2 ^ 20"
    and "length (star_text method kvs) < 2 ^ 32"
    and "header_key ''Content-Length'' \<notin> (\<lambda>kv. header_key (fst kv)) ` set kvs"
  shows "\<exists>m. HttpMessage_Parse [] (snd HttpMessage_Construct) (star_text method kvs) (word_of_nat (length (star_text method kvs))) =
      Some (TINY_RET_OK, m)
    \<and> mtype m = HTTP_REQUEST \<and> HttpMessage_IsMethodEqual m s = Some (STR_EQUAL method s)
    \<and> (\<forall>n. HttpMessage_GetHeaderValue m (Some n) = Some (map_of (map (\<lambda>(k, v). (header_key k, v)) kvs) (header_key n)))"
proof -
  note r = star_request_ok [OF assms(1)]
  have len: "length method < HTTP_METHOD_LEN" using assms(1) by (auto simp: ssdp_names HTTP_METHOD_LEN_def)
  let ?t = "star_text method kvs"
  have n: "unat (word_of_nat (length ?t) :: 32 word) = length ?t" using assms(4) by (intro unat_word_of_nat) simp
  have t14: "14 \<le> length ?t" using r(2) by (simp add: star_text_def http_text_def)
  let ?m1 = "fresh_message\<lparr>req_method := method, req_uri := ''*'', major := 1, minor := 1, mtype := HTTP_REQUEST\<rparr>"
  have "?t = request_text (star_request method) @ http_text [] kvs []" by (simp add: star_text_def http_text_def)
  then have ld: "load_first_line fresh_message ?t (word_of_nat (length ?t)) = Some (?m1, Some (http_text [] kvs []))"
    using load_first_request [OF r(1), of fresh_message "word_of_nat (length ?t)" "http_text [] kvs []"] n t14
    by (simp add: star_request_simps(1-4,6-8) star_request_simps(5) [OF len])
  have cl: "map_of (map (\<lambda>(k, v). (header_key k, v)) kvs) (header_key ''Content-Length'') = None"
    using assms(5) by (force simp: map_of_eq_None_iff)
  have plain: "\<forall>kv \<in> set kvs. plain_header kv \<and> length (header_text kv) < HTTP_LINE_LEN"
    using assms(2) by (simp add: list_all_iff line_ok_def)
  let ?h = "header_set_all kvs (snd (L_RemoveAll (snd HttpHeader_Construct)))"
  have p: "HttpMessage_Parse [] fresh_message ?t (word_of_nat (length ?t)) =
      Some (TINY_RET_OK, ?m1\<lparr>content_length := 0, header := ?h, content := full_content []\<rparr>)"
    using parse_text [OF ld [unfolded star_text_def] assms(4) [unfolded star_text_def] assms(3) _ plain, unfolded star_text_def [symmetric]] cl
    by simp
  have i0: "header_inv (snd (L_RemoveAll (snd HttpHeader_Construct)))" "items (snd (L_RemoveAll (snd HttpHeader_Construct))) = []"
    by (simp_all add: HttpHeader_Construct_def L_RemoveAll_def header_inv_def L_SetDeleteListener_def L_new_def count_ok_def)
  then have inv: "header_inv ?h" using assms(3) by (intro header_inv_set_all) simp_all
  have pairs: "header_pairs ?h = kvs"
    using i0 by (simp add: header_pairs_set_all header_pairs_def [of "snd (L_RemoveAll (snd HttpHeader_Construct))"] plain_pairs [OF assms(2)])
  have "HttpMessage_IsMethodEqual (?m1\<lparr>content_length := 0, header := ?h, content := full_content []\<rparr>) s = Some (STR_EQUAL method s)"
    using len by (simp add: HttpMessage_IsMethodEqual_def read_field_def)
  then show ?thesis
    using p by (simp add: fresh_message_def [symmetric] HttpMessage_GetHeaderValue_def header_lookup [OF inv] pairs)
qed
subsection \<open>Properties\<close>

text \<open>Fields as the constructors and the parser leave them, short enough for a header line.\<close>

definition value_ok :: "nat \<Rightarrow> string \<Rightarrow> bool" where
  "value_ok n s \<longleftrightarrow> cstring s \<and> CR \<notin> set s \<and> length s \<le> n"

definition alive_ok :: "ssdp_alive \<Rightarrow> bool" where
  "alive_ok a \<longleftrightarrow> value_ok HEAD_HOST_LEN (al_host a) \<and> value_ok HEAD_CACHE_CONTROL_LEN (al_cache_control a)
     \<and> value_ok 240 (al_location a) \<and> value_ok HEAD_NT_LEN (al_nt a) \<and> al_nts a = NTS_ALIVE
     \<and> value_ok HEAD_SERVER_LEN (al_server a) \<and> value_ok HEAD_USN_LEN (al_usn a)"

definition byebye_ok :: "ssdp_byebye \<Rightarrow> bool" where
  "byebye_ok b \<longleftrightarrow> value_ok HEAD_HOST_LEN (bb_host b) \<and> value_ok HEAD_NT_LEN (bb_nt b) \<and> bb_nts b = NTS_BYEBYE"

definition request_fits :: "ssdp_request \<Rightarrow> bool" where
  "request_fits q \<longleftrightarrow> value_ok HEAD_HOST_LEN (rq_host q) \<and> value_ok HEAD_ST_LEN (rq_st q)
     \<and> value_ok HEAD_MAN_LEN (rq_man q) \<and> 0 \<le> rq_mx q \<and> rq_mx q < 2 ^ 31"

definition alive_pairs :: "ssdp_alive \<Rightarrow> (string \<times> string) list" where
  "alive_pairs a = [(HEAD_HOST, al_host a), (HEAD_CACHE_CONTROL, al_cache_control a), (HEAD_NT, al_nt a),
     (HEAD_NTS, al_nts a), (HEAD_SERVER, al_server a), (HEAD_USN, al_usn a), (HEAD_LOCATION, al_location a)]"

definition byebye_pairs :: "ssdp_byebye \<Rightarrow> (string \<times> string) list" where
  "byebye_pairs b = [(HEAD_HOST, bb_host b), (HEAD_NT, bb_nt b), (HEAD_NTS, bb_nts b)]"

definition request_pairs :: "ssdp_request \<Rightarrow> (string \<times> string) list" where
  "request_pairs q = [(HEAD_HOST, rq_host q), (HEAD_ST, rq_st q), (HEAD_MAN, rq_man q), (HEAD_MX, show_int (rq_mx q))]"

lemmas head_names = ssdp_names is_name_char_def is_char_def is_ctl_def is_tspecial_def sbyte_def

lemma header_keys [simp]:
  "header_key HEAD_HOST = ''host''" "header_key HEAD_CACHE_CONTROL = ''cache-control''" "header_key HEAD_LOCATION = ''location''"
  "header_key HEAD_ST = ''st''" "header_key HEAD_MAN = ''man''" "header_key HEAD_MX = ''mx''" "header_key HEAD_NT = ''nt''"
  "header_key HEAD_NTS = ''nts''" "header_key HEAD_SERVER = ''server''" "header_key HEAD_USN = ''usn''"
  "header_key ''Content-Length'' = ''content-length''"
  by (simp_all add: ssdp_names header_key_def tolower_def field_defs char_of_def bit_0)

lemma head_line_ok:
  "value_ok n s \<Longrightarrow> n \<le> 230 \<Longrightarrow> name \<in> {HEAD_HOST, HEAD_CACHE_CONTROL, HEAD_ST, HEAD_MAN, HEAD_MX, HEAD_NT, HEAD_NTS, HEAD_SERVER, HEAD_USN}
    \<Longrightarrow> line_ok (name, s)"
  "value_ok 240 s \<Longrightarrow> line_ok (HEAD_LOCATION, s)"
  by (auto simp: value_ok_def line_ok_def plain_header_def head_names field_defs)

lemma nts_ok: "line_ok (HEAD_NTS, NTS_ALIVE)" "line_ok (HEAD_NTS, NTS_BYEBYE)"
  by (simp_all add: line_ok_def plain_header_def head_names NTS_ALIVE_def NTS_BYEBYE_def cstring_def field_defs)

lemma alive_lines: "alive_ok a \<Longrightarrow> list_all line_ok (alive_pairs a)"
  by (auto simp: alive_ok_def alive_pairs_def nts_ok ssdp_lens intro: head_line_ok)

lemma byebye_lines: "byebye_ok b \<Longrightarrow> list_all line_ok (byebye_pairs b)"
  by (auto simp: byebye_ok_def byebye_pairs_def nts_ok ssdp_lens intro: head_line_ok)

lemma request_lines:
  assumes "request_fits q"
  shows "list_all line_ok (request_pairs q)" and "length (show_int (rq_mx q)) \<le> 11"
proof -
  have "show_int (rq_mx q) = show_int (sint (word_of_int (rq_mx q) :: 32 word))"
    using assms by (simp add: request_fits_def signed_of_int signed_take_bit_int_eq_self)
  then show len: "length (show_int (rq_mx q)) \<le> 11" using show_int32_length by metis
  have "value_ok 11 (show_int (rq_mx q))"
    using len show_nat_digits [of "nat (rq_mx q)"] assms
    by (auto simp: value_ok_def request_fits_def show_int_def cstring_def)
  then show "list_all line_ok (request_pairs q)"
    using assms by (auto simp: request_fits_def request_pairs_def ssdp_lens intro: head_line_ok)
qed

text \<open>The printed messages are shorter than the buffer of \<open>Ssdp_SendMessage\<close>.\<close>

lemma star_length: "m = METHOD_NOTIFY \<or> m = METHOD_MSEARCH \<Longrightarrow>
    length (star_text m kvs) \<le> 23 + (\<Sum>kv\<leftarrow>kvs. length (fst kv) + length (snd kv) + 4)"
  using star_request_ok(2)[of m] by (auto simp: star_text_def http_text_def length_concat comp_def)

lemma ssdp_lengths:
  "alive_ok a \<Longrightarrow> length (star_text METHOD_NOTIFY (alive_pairs a)) < SSDP_MSG_MAX_LEN"
  "byebye_ok b \<Longrightarrow> length (star_text METHOD_NOTIFY (byebye_pairs b)) < SSDP_MSG_MAX_LEN"
  "request_fits q \<Longrightarrow> length (star_text METHOD_MSEARCH (request_pairs q)) < SSDP_MSG_MAX_LEN"
  using star_length [of METHOD_NOTIFY "alive_pairs a"] star_length [of METHOD_NOTIFY "byebye_pairs b"]
    star_length [of METHOD_MSEARCH "request_pairs q"] request_lines(2) [of q]
  by (auto simp: alive_pairs_def byebye_pairs_def request_pairs_def alive_ok_def byebye_ok_def request_fits_def value_ok_def
      ssdp_lens ssdp_names SSDP_MSG_MAX_LEN_def NTS_ALIVE_def NTS_BYEBYE_def)

lemma read_value: "value_ok n s \<Longrightarrow> n \<le> m \<Longrightarrow> read_field (m + 1) s = Some s"
  by (simp add: value_ok_def read_field_def)

lemma print_alive:
  assumes "alive_ok a"
  shows "SsdpMessage_ToString [] (m\<lparr>ssdp_body := SSDP_ALIVE a\<rparr>) SSDP_MSG_MAX_LEN =
    Some (length (star_text METHOD_NOTIFY (alive_pairs a)), star_text METHOD_NOTIFY (alive_pairs a))"
proof -
  have "read_field (HEAD_NTS_LEN + 1) (al_nts a) = Some (al_nts a)"
    using assms by (simp add: alive_ok_def read_field_def NTS_ALIVE_def HEAD_NTS_LEN_def)
  then have "ssdp_http [] (SSDP_ALIVE a) = Some (star_message METHOD_NOTIFY (alive_pairs a))"
    using assms read_value [of HEAD_HOST_LEN "al_host a" HEAD_HOST_LEN]
      read_value [of HEAD_CACHE_CONTROL_LEN "al_cache_control a" HEAD_CACHE_CONTROL_LEN] read_value [of HEAD_NT_LEN "al_nt a" HEAD_NT_LEN]
      read_value [of HEAD_SERVER_LEN "al_server a" HEAD_SERVER_LEN] read_value [of HEAD_USN_LEN "al_usn a" HEAD_USN_LEN]
      read_value [of 240 "al_location a" HEAD_LOCATION_LEN]
    by (simp add: ssdp_http_def alive_ok_def set_headers_all star_message_def alive_pairs_def ssdp_lens
        del: set_headers.simps header_set_all_Cons)
  moreover have "length (alive_pairs a) < 2 ^ 20" by (simp add: alive_pairs_def)
  ultimately show ?thesis
    using star_print [OF _ alive_lines [OF assms] _ ssdp_lengths(1) [OF assms]]
    by (simp add: SsdpMessage_ToString_def)
qed

lemma print_byebye:
  assumes "byebye_ok b"
  shows "SsdpMessage_ToString [] (m\<lparr>ssdp_body := SSDP_BYEBYE b\<rparr>) SSDP_MSG_MAX_LEN =
    Some (length (star_text METHOD_NOTIFY (byebye_pairs b)), star_text METHOD_NOTIFY (byebye_pairs b))"
proof -
  have "read_field (HEAD_NTS_LEN + 1) (bb_nts b) = Some (bb_nts b)"
    using assms by (simp add: byebye_ok_def read_field_def NTS_BYEBYE_def HEAD_NTS_LEN_def)
  then have "ssdp_http [] (SSDP_BYEBYE b) = Some (star_message METHOD_NOTIFY (byebye_pairs b))"
    using assms read_value [of HEAD_HOST_LEN "bb_host b" HEAD_HOST_LEN] read_value [of HEAD_NT_LEN "bb_nt b" HEAD_NT_LEN]
    by (simp add: ssdp_http_def byebye_ok_def set_headers_all star_message_def byebye_pairs_def ssdp_lens
        del: set_headers.simps header_set_all_Cons)
  moreover have "length (byebye_pairs b) < 2 ^ 20" by (simp add: byebye_pairs_def)
  ultimately show ?thesis
    using star_print [OF _ byebye_lines [OF assms] _ ssdp_lengths(2) [OF assms]]
    by (simp add: SsdpMessage_ToString_def)
qed

lemma print_request:
  assumes "request_fits q"
  shows "SsdpMessage_ToString [] (m\<lparr>ssdp_body := SSDP_MSEARCH_REQUEST q\<rparr>) SSDP_MSG_MAX_LEN =
    Some (length (star_text METHOD_MSEARCH (request_pairs q)), star_text METHOD_MSEARCH (request_pairs q))"
proof -
  have n: "unat (word_of_int (rq_mx q) :: 32 word) = nat (rq_mx q)"
  proof -
    have "nat (rq_mx q) < 2 ^ 32" using assms by (simp add: request_fits_def nat_less_iff)
    then show ?thesis using assms by (simp add: request_fits_def unsigned_of_int nat_take_bit_eq take_bit_nat_eq_self)
  qed
  have s: "show_nat (nat (rq_mx q)) = show_int (rq_mx q)" using assms by (simp add: request_fits_def show_int_def)
  have f: "field_printf 32 (show_int (rq_mx q)) = show_int (rq_mx q)"
    using request_lines(2) [OF assms] by (simp add: field_printf_def)
  have "ssdp_http [] (SSDP_MSEARCH_REQUEST q) = Some (star_message METHOD_MSEARCH (request_pairs q))"
    using assms read_value [of HEAD_HOST_LEN "rq_host q" HEAD_HOST_LEN] read_value [of HEAD_ST_LEN "rq_st q" HEAD_ST_LEN]
      read_value [of HEAD_MAN_LEN "rq_man q" HEAD_MAN_LEN]
    by (simp add: ssdp_http_def request_fits_def set_headers_all star_message_def request_pairs_def ssdp_lens
        HttpMessage_SetHeaderInteger_def HttpHeader_SetInteger_def n s f header_set_all_def del: set_headers.simps)
  moreover have "length (request_pairs q) < 2 ^ 20" by (simp add: request_pairs_def)
  ultimately show ?thesis
    using star_print [OF _ request_lines(1) [OF assms] _ ssdp_lengths(3) [OF assms]]
    by (simp add: SsdpMessage_ToString_def)
qed

text \<open>What the parser makes of such a text.\<close>

lemma construct_star:
  assumes "method = METHOD_NOTIFY \<or> method = METHOD_MSEARCH" and "list_all line_ok kvs" and "length kvs < 2 ^ 20"
    and "length (star_text method kvs) < SSDP_MSG_MAX_LEN"
    and "header_key ''Content-Length'' \<notin> (\<lambda>kv. header_key (fst kv)) ` set kvs"
  shows "\<exists>m. SsdpMessage_Construct [] l r p (star_text method kvs) (word_of_nat (length (star_text method kvs))) =
      map_option (\<lambda>(ret, body). (ret, \<lparr>remote_ip = field_cpy TINY_IP_LEN r, remote_port = p,
         local_ip = (case l of None \<Rightarrow> [] | Some x \<Rightarrow> field_cpy TINY_IP_LEN x), ssdp_body = body\<rparr>)) (ssdp_parse_body m TINY_RET_OK)
    \<and> mtype m = HTTP_REQUEST \<and> HttpMessage_IsMethodEqual m METHOD_NOTIFY = Some (STR_EQUAL method METHOD_NOTIFY)
    \<and> HttpMessage_IsMethodEqual m METHOD_MSEARCH = Some (STR_EQUAL method METHOD_MSEARCH)
    \<and> (\<forall>n. HttpMessage_GetHeaderValue m (Some n) = Some (map_of (map (\<lambda>(k, v). (header_key k, v)) kvs) (header_key n)))"
proof -
  have "length (star_text method kvs) < 2 ^ 32" using assms(4) by (simp add: SSDP_MSG_MAX_LEN_def)
  note P = star_parse [OF assms(1-3) this assms(5)]
  obtain m where m: "HttpMessage_Parse [] (snd HttpMessage_Construct) (star_text method kvs) (word_of_nat (length (star_text method kvs))) =
      Some (TINY_RET_OK, m)" "mtype m = HTTP_REQUEST"
    "HttpMessage_IsMethodEqual m METHOD_NOTIFY = Some (STR_EQUAL method METHOD_NOTIFY)"
    "\<forall>n. HttpMessage_GetHeaderValue m (Some n) = Some (map_of (map (\<lambda>(k, v). (header_key k, v)) kvs) (header_key n))"
    using P [of METHOD_NOTIFY] by (elim exE conjE) (rule that)
  have "HttpMessage_IsMethodEqual m METHOD_MSEARCH = Some (STR_EQUAL method METHOD_MSEARCH)"
    using P [of METHOD_MSEARCH] m(1) by auto
  then show ?thesis
    using m by (intro exI [of _ m]) (simp add: SsdpMessage_Construct_def map_option_case split: option.splits)
qed

lemma construct_alive:
  assumes "alive_ok a"
  shows "SsdpMessage_Construct [] l r p (star_text METHOD_NOTIFY (alive_pairs a))
      (word_of_nat (length (star_text METHOD_NOTIFY (alive_pairs a)))) = Some (TINY_RET_OK,
        \<lparr>remote_ip = field_cpy TINY_IP_LEN r, remote_port = p,
         local_ip = (case l of None \<Rightarrow> [] | Some x \<Rightarrow> field_cpy TINY_IP_LEN x),
         ssdp_body = SSDP_ALIVE (a\<lparr>al_ex_uri := [], al_ex_port := 0\<rparr>)\<rparr>)"
proof -
  have k: "header_key ''Content-Length'' \<notin> (\<lambda>kv. header_key (fst kv)) ` set (alive_pairs a)" by (simp add: alive_pairs_def)
  have n: "length (alive_pairs a) < 2 ^ 20" by (simp add: alive_pairs_def)
  obtain m where m: "SsdpMessage_Construct [] l r p (star_text METHOD_NOTIFY (alive_pairs a))
      (word_of_nat (length (star_text METHOD_NOTIFY (alive_pairs a)))) =
      map_option (\<lambda>(ret, body). (ret, \<lparr>remote_ip = field_cpy TINY_IP_LEN r, remote_port = p,
         local_ip = (case l of None \<Rightarrow> [] | Some x \<Rightarrow> field_cpy TINY_IP_LEN x), ssdp_body = body\<rparr>)) (ssdp_parse_body m TINY_RET_OK)"
    "mtype m = HTTP_REQUEST" "HttpMessage_IsMethodEqual m METHOD_NOTIFY = Some (STR_EQUAL METHOD_NOTIFY METHOD_NOTIFY)"
    "\<forall>n. HttpMessage_GetHeaderValue m (Some n) = Some (map_of (map (\<lambda>(k, v). (header_key k, v)) (alive_pairs a)) (header_key n))"
    using construct_star [OF _ alive_lines [OF assms] n ssdp_lengths(1) [OF assms] k, of l r p] by blast
  have nts: "read_field HTTP_MAX_VALUE_LEN NTS_ALIVE = Some NTS_ALIVE" "field_cpy HEAD_NTS_LEN NTS_ALIVE = NTS_ALIVE"
    by (simp_all add: NTS_ALIVE_def field_defs ssdp_lens)
  have "ssdp_parse_body m TINY_RET_OK = Some (TINY_RET_OK, SSDP_ALIVE (a\<lparr>al_ex_uri := [], al_ex_port := 0\<rparr>))"
    using assms
    by (simp add: ssdp_parse_body_def m(2-4) STR_EQUAL_def ssdp_parse_alive_def need_header_def alive_pairs_def alive_ok_def nts
        value_ok_def field_cpy_short ssdp_lens(1-6,8,9) zero_alive_def)
  then show ?thesis by (simp add: m(1))
qed

lemma construct_byebye:
  assumes "byebye_ok b"
  shows "\<exists>msg. SsdpMessage_Construct [] l r p (star_text METHOD_NOTIFY (byebye_pairs b))
      (word_of_nat (length (star_text METHOD_NOTIFY (byebye_pairs b)))) = Some (TINY_RET_E_HTTP_MSG_INVALID, msg)"
proof -
  have k: "header_key ''Content-Length'' \<notin> (\<lambda>kv. header_key (fst kv)) ` set (byebye_pairs b)" by (simp add: byebye_pairs_def)
  have n: "length (byebye_pairs b) < 2 ^ 20" by (simp add: byebye_pairs_def)
  obtain m where m: "SsdpMessage_Construct [] l r p (star_text METHOD_NOTIFY (byebye_pairs b))
      (word_of_nat (length (star_text METHOD_NOTIFY (byebye_pairs b)))) =
      map_option (\<lambda>(ret, body). (ret, \<lparr>remote_ip = field_cpy TINY_IP_LEN r, remote_port = p,
         local_ip = (case l of None \<Rightarrow> [] | Some x \<Rightarrow> field_cpy TINY_IP_LEN x), ssdp_body = body\<rparr>)) (ssdp_parse_body m TINY_RET_OK)"
    "mtype m = HTTP_REQUEST" "HttpMessage_IsMethodEqual m METHOD_NOTIFY = Some (STR_EQUAL METHOD_NOTIFY METHOD_NOTIFY)"
    "\<forall>n. HttpMessage_GetHeaderValue m (Some n) = Some (map_of (map (\<lambda>(k, v). (header_key k, v)) (byebye_pairs b)) (header_key n))"
    using construct_star [OF _ byebye_lines [OF assms] n ssdp_lengths(2) [OF assms] k, of l r p] by blast
  have nts: "read_field HTTP_MAX_VALUE_LEN NTS_BYEBYE = Some NTS_BYEBYE" "NTS_BYEBYE \<noteq> NTS_ALIVE"
    by (simp_all add: NTS_BYEBYE_def NTS_ALIVE_def field_defs)
  have "\<exists>body. ssdp_parse_body m TINY_RET_OK = Some (TINY_RET_E_HTTP_MSG_INVALID, body)"
    using assms nts
    by (simp add: ssdp_parse_body_def m(2-4) STR_EQUAL_def ssdp_parse_byebye_def need_header_def byebye_pairs_def byebye_ok_def)
  then show ?thesis by (auto simp: m(1))
qed

lemma construct_request:
  assumes "request_fits q"
  shows "SsdpMessage_Construct [] l r p (star_text METHOD_MSEARCH (request_pairs q))
      (word_of_nat (length (star_text METHOD_MSEARCH (request_pairs q)))) = Some (TINY_RET_OK,
        \<lparr>remote_ip = field_cpy TINY_IP_LEN r, remote_port = p,
         local_ip = (case l of None \<Rightarrow> [] | Some x \<Rightarrow> field_cpy TINY_IP_LEN x), ssdp_body = SSDP_MSEARCH_REQUEST q\<rparr>)"
proof -
  have k: "header_key ''Content-Length'' \<notin> (\<lambda>kv. header_key (fst kv)) ` set (request_pairs q)" by (simp add: request_pairs_def)
  have n: "length (request_pairs q) < 2 ^ 20" by (simp add: request_pairs_def)
  obtain m where m: "SsdpMessage_Construct [] l r p (star_text METHOD_MSEARCH (request_pairs q))
      (word_of_nat (length (star_text METHOD_MSEARCH (request_pairs q)))) =
      map_option (\<lambda>(ret, body). (ret, \<lparr>remote_ip = field_cpy TINY_IP_LEN r, remote_port = p,
         local_ip = (case l of None \<Rightarrow> [] | Some x \<Rightarrow> field_cpy TINY_IP_LEN x), ssdp_body = body\<rparr>)) (ssdp_parse_body m TINY_RET_OK)"
    "mtype m = HTTP_REQUEST" "HttpMessage_IsMethodEqual m METHOD_NOTIFY = Some (STR_EQUAL METHOD_MSEARCH METHOD_NOTIFY)"
    "HttpMessage_IsMethodEqual m METHOD_MSEARCH = Some (STR_EQUAL METHOD_MSEARCH METHOD_MSEARCH)"
    "\<forall>n. HttpMessage_GetHeaderValue m (Some n) = Some (map_of (map (\<lambda>(k, v). (header_key k, v)) (request_pairs q)) (header_key n))"
    using construct_star [OF _ request_lines(1) [OF assms] n ssdp_lengths(3) [OF assms] k, of l r p] by blast
  have ne: "METHOD_MSEARCH \<noteq> METHOD_NOTIFY" by (simp add: ssdp_names)
  have rd: "read_field HTTP_MAX_VALUE_LEN (show_int (rq_mx q)) = Some (show_int (rq_mx q))"
    using request_lines(2) [OF assms] by (simp add: field_defs)
  have mx: "atoi (show_int (rq_mx q)) = rq_mx q"
    using assms by (intro atoi_show_int) (simp_all add: request_fits_def)
  have "ssdp_parse_body m TINY_RET_OK = Some (TINY_RET_OK, SSDP_MSEARCH_REQUEST q)"
    using assms
    by (simp add: ssdp_parse_body_def m(2-5) STR_EQUAL_def ssdp_parse_request_def need_header_def request_pairs_def request_fits_def
        ne rd mx value_ok_def field_cpy_short ssdp_lens zero_request_def)
  then show ?thesis by (simp add: m(1))
qed

text \<open>
  C23. An announcement survives the wire: the text of an alive message fits the buffer of 2048
  bytes and is parsed back into the same message, except for the URI and port from which the
  sender makes the location.
\<close>

theorem ssdp_alive_roundtrip:
  assumes "alive_ok a"
  shows "\<exists>t. SsdpMessage_ToString [] (m\<lparr>ssdp_body := SSDP_ALIVE a\<rparr>) SSDP_MSG_MAX_LEN = Some (length t, t)
    \<and> SsdpMessage_Construct [] l r p t (word_of_nat (length t)) = Some (TINY_RET_OK,
        \<lparr>remote_ip = field_cpy TINY_IP_LEN r, remote_port = p,
         local_ip = (case l of None \<Rightarrow> [] | Some x \<Rightarrow> field_cpy TINY_IP_LEN x),
         ssdp_body = SSDP_ALIVE (a\<lparr>al_ex_uri := [], al_ex_port := 0\<rparr>)\<rparr>)"
  using print_alive [OF assms] construct_alive [OF assms] by blast

text \<open>
  A search request survives the wire.
\<close>

theorem ssdp_request_roundtrip:
  assumes "request_fits q"
  shows "\<exists>t. SsdpMessage_ToString [] (m\<lparr>ssdp_body := SSDP_MSEARCH_REQUEST q\<rparr>) SSDP_MSG_MAX_LEN = Some (length t, t)
    \<and> SsdpMessage_Construct [] l r p t (word_of_nat (length t)) = Some (TINY_RET_OK,
        \<lparr>remote_ip = field_cpy TINY_IP_LEN r, remote_port = p,
         local_ip = (case l of None \<Rightarrow> [] | Some x \<Rightarrow> field_cpy TINY_IP_LEN x), ssdp_body = SSDP_MSEARCH_REQUEST q\<rparr>)"
  using print_request [OF assms] construct_request [OF assms] by blast

text \<open>
  A farewell does not survive the wire: the printer leaves out the USN header, which the
  parser demands, so the text of every byebye message is refused by this stack's own parser.
\<close>

theorem ssdp_byebye_lost:
  assumes "byebye_ok b"
  shows "\<exists>t msg. SsdpMessage_ToString [] (m\<lparr>ssdp_body := SSDP_BYEBYE b\<rparr>) SSDP_MSG_MAX_LEN = Some (length t, t)
    \<and> SsdpMessage_Construct [] l r p t (word_of_nat (length t)) = Some (TINY_RET_E_HTTP_MSG_INVALID, msg)"
  using print_byebye [OF assms] construct_byebye [OF assms] by blast
definition demo_alive :: ssdp_alive where
  "demo_alive = \<lparr>al_host = DEFAULT_HOST, al_nt = ''upnp:rootdevice'', al_nts = NTS_ALIVE, al_usn = ''uuid:1::upnp:rootdevice'',
     al_cache_control = SSDP_MAX_AGE, al_location = ''http://10.0.0.1:80/d'', al_server = SSDP_SERVER,
     al_ex_uri = ''/d'', al_ex_port = 80\<rparr>"

lemma demo_alive_ok: "alive_ok demo_alive"
  by (simp add: alive_ok_def demo_alive_def value_ok_def cstring_def ssdp_lens DEFAULT_HOST_def SSDP_MAX_AGE_def SSDP_SERVER_def)

theorem ssdp_alive_roundtrip_witness:
  "\<exists>t. SsdpMessage_ToString [] (zero_message\<lparr>ssdp_body := SSDP_ALIVE demo_alive\<rparr>) SSDP_MSG_MAX_LEN = Some (length t, t)
    \<and> map_option (\<lambda>x. (fst x, ssdp_body (snd x))) (SsdpMessage_Construct [] None ''10.0.0.1'' 1900 t (word_of_nat (length t))) =
      Some (TINY_RET_OK, SSDP_ALIVE (demo_alive\<lparr>al_ex_uri := [], al_ex_port := 0\<rparr>))"
  using ssdp_alive_roundtrip [OF demo_alive_ok, of zero_message None "''10.0.0.1''" 1900] by auto

definition demo_search :: ssdp_request where
  "demo_search = \<lparr>rq_host = DEFAULT_HOST, rq_st = DEFAULT_ST, rq_man = DEFAULT_MAN, rq_mx = DEFAULT_MX\<rparr>"

lemma demo_search_fits: "request_fits demo_search"
  by (simp add: request_fits_def demo_search_def value_ok_def cstring_def ssdp_lens DEFAULT_HOST_def DEFAULT_ST_def
      DEFAULT_MAN_def DEFAULT_MX_def)

theorem ssdp_request_roundtrip_witness:
  "\<exists>t. SsdpMessage_ToString [] (zero_message\<lparr>ssdp_body := SSDP_MSEARCH_REQUEST demo_search\<rparr>) SSDP_MSG_MAX_LEN = Some (length t, t)
    \<and> map_option (\<lambda>x. (fst x, ssdp_body (snd x))) (SsdpMessage_Construct [] None ''10.0.0.1'' 1900 t (word_of_nat (length t))) =
      Some (TINY_RET_OK, SSDP_MSEARCH_REQUEST demo_search)"
  using ssdp_request_roundtrip [OF demo_search_fits, of zero_message None "''10.0.0.1''" 1900] by auto

definition demo_byebye :: ssdp_byebye where
  "demo_byebye = \<lparr>bb_host = DEFAULT_HOST, bb_nt = ''upnp:rootdevice'', bb_nts = NTS_BYEBYE, bb_usn = ''uuid:1::upnp:rootdevice''\<rparr>"

lemma demo_byebye_ok: "byebye_ok demo_byebye"
  by (simp add: byebye_ok_def demo_byebye_def value_ok_def cstring_def ssdp_lens DEFAULT_HOST_def)

theorem ssdp_byebye_lost_witness:
  "\<exists>t. SsdpMessage_ToString [] (zero_message\<lparr>ssdp_body := SSDP_BYEBYE demo_byebye\<rparr>) SSDP_MSG_MAX_LEN = Some (length t, t)
    \<and> map_option fst (SsdpMessage_Construct [] None ''10.0.0.1'' 1900 t (word_of_nat (length t))) = Some TINY_RET_E_HTTP_MSG_INVALID"
  using ssdp_byebye_lost [OF demo_byebye_ok, of zero_message None "''10.0.0.1''" 1900] by auto
end
