(* ===== verification/Ssdp.thy ===== *)
theory Ssdp
  imports SsdpMessage BlockingQueue
begin

section \<open>The SSDP endpoint: \<open>Ssdp.c\<close> and \<open>Tiny/Multicast\<close>\<close>

text \<open>
  One multicast socket per network address, kept as the list of their addresses and
  descriptors, a socket for searches and a thread that waits for datagrams. The operating
  system's answers (addresses, descriptors, results) are arguments; what is sent is the list of
  datagrams. Allocations of the messages that are printed are taken to succeed.
\<close>

subsection \<open>TinyMulticast\<close>

record tiny_multicast =
  mc_sockets :: "(string \<times> int) list"
  mc_group :: string
  mc_port :: "16 word"
  mc_block :: bool

definition TinyMulticast_Construct :: "tiny_ret \<times> tiny_multicast" where
  "TinyMulticast_Construct = (TINY_RET_OK, \<lparr>mc_sockets = [], mc_group = [], mc_port = 0, mc_block = False\<rparr>)"

definition TinyMulticast_GetCount :: "tiny_multicast \<Rightarrow> 32 word" where
  "TinyMulticast_GetCount m = word_of_nat (length (mc_sockets m))"

text \<open>
  \<open>addresses\<close> are the addresses of the interfaces with the descriptor of the socket opened for
  each, none when an allocation or a call of the operating system failed.
\<close>

definition OnAddressOpen :: "string \<times> int option \<Rightarrow> tiny_multicast \<Rightarrow> tiny_multicast" where
  "OnAddressOpen a m = (case snd a of
       None \<Rightarrow> m
     | Some fd \<Rightarrow> m\<lparr>mc_sockets := mc_sockets m @ [(field_printf TINY_IP_LEN (fst a), fd)]\<rparr>)"

definition TinyMulticast_Open ::
    "(string \<times> int option) list \<Rightarrow> tiny_multicast \<Rightarrow> string option \<Rightarrow> 16 word \<Rightarrow> bool \<Rightarrow> tiny_ret \<times> tiny_multicast" where
  "TinyMulticast_Open addresses m grp prt block = (case grp of
       None \<Rightarrow> (TINY_RET_E_ARG_NULL, m)
     | Some g \<Rightarrow>
         if 0 < TinyMulticast_GetCount m then (TINY_RET_E_ITEM_EXIST, m)
         else (TINY_RET_OK, fold OnAddressOpen addresses
           (m\<lparr>mc_group := field_cpy TINY_IP_LEN g, mc_port := prt, mc_block := block\<rparr>)))"

text \<open>The sockets are closed and stay in the list.\<close>

definition TinyMulticast_Close :: "tiny_multicast \<Rightarrow> tiny_ret \<times> tiny_multicast" where
  "TinyMulticast_Close m = (TINY_RET_OK, m)"

definition TinyMulticast_Dispose :: "tiny_multicast \<Rightarrow> tiny_multicast" where
  "TinyMulticast_Dispose m = snd TinyMulticast_Construct"

subsection \<open>Starting and stopping\<close>

definition UPNP_GROUP :: string where "UPNP_GROUP = ''239.255.255.250''"
definition UPNP_PORT :: "16 word" where "UPNP_PORT = 1900"

record datagram =
  dg_fd :: int
  dg_ip :: string
  dg_port :: "16 word"
  dg_bytes :: string

record ssdp =
  ssdp_thread :: tthread
  ssdp_running :: bool
  multicast :: tiny_multicast
  search_fd :: int
  has_handler :: bool

text \<open>\<open>selector_ret\<close> and \<open>ipc_ret\<close> are the results of the two constructors that call the operating system.\<close>

definition Ssdp_Construct :: "tiny_ret \<Rightarrow> tiny_ret \<Rightarrow> tiny_ret \<times> ssdp" where
  "Ssdp_Construct selector_ret ipc_ret =
     (let s = \<lparr>ssdp_thread = snd (TinyThread_Initialize (snd TinyThread_Construct) True (Some ''Ssdp'')), ssdp_running = False,
               multicast = snd TinyMulticast_Construct, search_fd = 0, has_handler = False\<rparr>
      in if RET_FAILED selector_ret then (selector_ret, s) else (ipc_ret, s))"

definition Ssdp_SetMessageHandler :: "ssdp \<Rightarrow> bool \<Rightarrow> tiny_ret \<times> ssdp" where
  "Ssdp_SetMessageHandler s given =
     (if \<not> given then (TINY_RET_E_ARG_NULL, s)
      else if ssdp_running s then (TINY_RET_E_STARTED, s)
      else (TINY_RET_OK, s\<lparr>has_handler := True\<rparr>))"

definition Ssdp_OpenSockets :: "(string \<times> int option) list \<Rightarrow> tiny_ret \<times> int \<Rightarrow> ssdp \<Rightarrow> tiny_ret \<times> ssdp" where
  "Ssdp_OpenSockets addresses search s = (case TinyMulticast_Open addresses (multicast s) (Some UPNP_GROUP) UPNP_PORT False of
     (ret, m) \<Rightarrow> if RET_FAILED ret then (ret, s\<lparr>multicast := m\<rparr>)
       else (fst search, s\<lparr>multicast := m, search_fd := snd search\<rparr>))"

definition Ssdp_CloseSockets :: "ssdp \<Rightarrow> tiny_ret \<times> ssdp" where
  "Ssdp_CloseSockets s = (case TinyMulticast_Close (multicast s) of (ret, m) \<Rightarrow> (ret, s\<lparr>multicast := m\<rparr>))"

definition Ssdp_Start :: "(string \<times> int option) list \<Rightarrow> tiny_ret \<times> int \<Rightarrow> 64 word option \<Rightarrow> ssdp \<Rightarrow> tiny_ret \<times> ssdp" where
  "Ssdp_Start addresses search tid s =
     (if ssdp_running s then (TINY_RET_E_STARTED, s)
      else (case Ssdp_OpenSockets addresses search s of
        (ret, s1) \<Rightarrow> if RET_FAILED ret then (ret, s1)
          else (ret, s1\<lparr>ssdp_running := True, ssdp_thread := snd (TinyThread_Start (ssdp_thread s1) tid)\<rparr>)))"

definition Ssdp_Stop :: "ssdp \<Rightarrow> tiny_ret \<times> ssdp" where
  "Ssdp_Stop s =
     (if \<not> ssdp_running s then (TINY_RET_E_STOPPED, s)
      else (case Ssdp_CloseSockets s of
        (ret, s1) \<Rightarrow> if RET_FAILED ret then (ret, s1)
          else (ret, s1\<lparr>ssdp_running := False, ssdp_thread := snd (TinyThread_Join (ssdp_thread s1))\<rparr>)))"

definition Ssdp_Dispose :: "ssdp \<Rightarrow> ssdp" where
  "Ssdp_Dispose s = (let s1 = snd (Ssdp_Stop s)
     in s1\<lparr>ssdp_thread := snd (TinyThread_Dispose (ssdp_thread s1)), multicast := TinyMulticast_Dispose (multicast s1)\<rparr>)"

subsection \<open>Sending\<close>

definition Ssdp_Send :: "ssdp \<Rightarrow> string \<Rightarrow> nat \<Rightarrow> int \<Rightarrow> string \<Rightarrow> 16 word \<Rightarrow> tiny_ret \<times> datagram list" where
  "Ssdp_Send s bytes len fd dest prt =
     (if \<not> ssdp_running s then (TINY_RET_E_STOPPED, [])
      else (TINY_RET_OK, [\<lparr>dg_fd = fd, dg_ip = dest, dg_port = prt,
        dg_bytes = take len (bytes @ replicate (len - length bytes) NUL)\<rparr>]))"

text \<open>An announcement is printed for each socket, with its address in the location.\<close>

definition alive_location :: "string \<Rightarrow> ssdp_alive \<Rightarrow> ssdp_alive option" where
  "alive_location socket_ip a = do {
     sip \<leftarrow> read_field TINY_IP_LEN socket_ip;
     uri \<leftarrow> read_field TINY_URI_LEN (al_ex_uri a);
     Some (a\<lparr>al_location := field_cpy HEAD_LOCATION_LEN (field_printf TINY_URL_LEN
       (''http://'' @ sip @ '':'' @ show_nat (unat (al_ex_port a)) @ uri))\<rparr>) }"

fun send_alive ::
    "ssdp \<Rightarrow> ssdp_message \<Rightarrow> (string \<times> int) list \<Rightarrow> ssdp_alive \<Rightarrow> tiny_ret \<Rightarrow> (tiny_ret \<times> datagram list) option" where
  "send_alive s msg [] a ret = Some (ret, [])"
| "send_alive s msg ((sip, fd) # ss) a ret = do {
     a' \<leftarrow> alive_location sip a;
     (len, str) \<leftarrow> SsdpMessage_ToString [] (msg\<lparr>ssdp_body := SSDP_ALIVE a'\<rparr>) SSDP_MSG_MAX_LEN;
     if len = 0 then Some (TINY_RET_E_INTERNAL, [])
     else (case Ssdp_Send s str len fd UPNP_GROUP UPNP_PORT of
       (ret', ds) \<Rightarrow> map_option (\<lambda>(r, ds'). (r, ds @ ds')) (send_alive s msg ss a' ret')) }"

fun send_each :: "ssdp \<Rightarrow> string \<Rightarrow> nat \<Rightarrow> (string \<times> int) list \<Rightarrow> tiny_ret \<Rightarrow> tiny_ret \<times> datagram list" where
  "send_each s str len [] ret = (ret, [])"
| "send_each s str len ((sip, fd) # ss) ret = (case Ssdp_Send s str len fd UPNP_GROUP UPNP_PORT of
     (ret', ds) \<Rightarrow> (case send_each s str len ss ret' of (r, ds') \<Rightarrow> (r, ds @ ds')))"

text \<open>A response goes through the first socket with the address the request came in on.\<close>

fun send_local ::
    "ssdp \<Rightarrow> ssdp_message \<Rightarrow> string \<Rightarrow> nat \<Rightarrow> (string \<times> int) list \<Rightarrow> (tiny_ret \<times> datagram list) option" where
  "send_local s msg str len [] = Some (TINY_RET_OK, [])"
| "send_local s msg str len ((sip, fd) # ss) = do {
     a \<leftarrow> read_field TINY_IP_LEN sip;
     l \<leftarrow> read_field (TINY_IP_LEN + 1) (local_ip msg);
     if STR_EQUAL a l then do {
       dest \<leftarrow> read_field (TINY_IP_LEN + 1) (remote_ip msg);
       Some (Ssdp_Send s str len fd dest (remote_port msg)) }
     else send_local s msg str len ss }"

definition Ssdp_SendMessage :: "ssdp \<Rightarrow> ssdp_message \<Rightarrow> (tiny_ret \<times> datagram list) option" where
  "Ssdp_SendMessage s msg = (case ssdp_body msg of
       SSDP_ALIVE a \<Rightarrow> send_alive s msg (mc_sockets (multicast s)) a TINY_RET_OK
     | SSDP_BYEBYE b \<Rightarrow> do {
         (len, str) \<leftarrow> SsdpMessage_ToString [] msg SSDP_MSG_MAX_LEN;
         Some (if 0 < len then send_each s str len (mc_sockets (multicast s)) TINY_RET_OK else (TINY_RET_OK, [])) }
     | SSDP_MSEARCH_REQUEST q \<Rightarrow> do {
         (len, str) \<leftarrow> SsdpMessage_ToString [] msg SSDP_MSG_MAX_LEN;
         Some (if 0 < len then Ssdp_Send s str len (search_fd s) UPNP_GROUP UPNP_PORT else (TINY_RET_OK, [])) }
     | SSDP_MSEARCH_RESPONSE r \<Rightarrow> do {
         (len, str) \<leftarrow> SsdpMessage_ToString [] msg SSDP_MSG_MAX_LEN;
         if 0 < len then send_local s msg str len (mc_sockets (multicast s)) else Some (TINY_RET_OK, []) }
     | SSDP_INVALID \<Rightarrow> Some (TINY_RET_OK, []))"

subsection \<open>Receiving\<close>

text \<open>
  The message given to the handler, if any. The receive buffer is cleared first, so a datagram
  shorter than its 2048 bytes is followed by a NUL.
\<close>

definition Ssdp_ProcessMessage ::
    "mallocs \<Rightarrow> ssdp \<Rightarrow> string option \<Rightarrow> string \<Rightarrow> string \<Rightarrow> 16 word \<Rightarrow> ssdp_message option option" where
  "Ssdp_ProcessMessage oks s localIp buf sender prt = do {
     (ret, m) \<leftarrow> SsdpMessage_Construct oks localIp sender prt buf (word_of_nat (length buf));
     if RET_FAILED ret then Some None
     else if has_handler s then Some (Some m) else None }"

datatype selector_ret = SELECTOR_RET_OK | SELECTOR_RET_ERROR | SELECTOR_RET_TIMEOUT

definition SSDP_BUFFER_LEN :: nat where "SSDP_BUFFER_LEN = 2048"

text \<open>
  One turn of the thread's loop: \<open>readable\<close> are the descriptors with input, \<open>stop_msg\<close> the
  result of reading the control socket (\<open>Inl\<close> an error, \<open>Inr\<close> whether it is a stop), \<open>udp\<close> the
  datagram read from a descriptor with its sender. The result says whether the loop goes on, and
  gives the message for the handler. The first readable multicast socket is served, the search
  socket when there is none.
\<close>

definition pick_socket :: "(int \<Rightarrow> bool) \<Rightarrow> ssdp \<Rightarrow> (int \<times> string option) option" where
  "pick_socket readable s = (case List.find (\<lambda>x. readable (snd x)) (mc_sockets (multicast s)) of
       Some (sip, fd) \<Rightarrow> if fd = 0
         then (if readable (search_fd s) then Some (search_fd s, Some sip) else None) else Some (fd, Some sip)
     | None \<Rightarrow> if readable (search_fd s) then Some (search_fd s, None) else None)"

definition Ssdp_SelectOnce ::
    "mallocs \<Rightarrow> selector_ret \<Rightarrow> (int \<Rightarrow> bool) \<Rightarrow> (tiny_ret + bool) option \<Rightarrow> (int \<Rightarrow> (string \<times> string \<times> 16 word) option)
      \<Rightarrow> ssdp \<Rightarrow> (bool \<times> ssdp_message option) option" where
  "Ssdp_SelectOnce oks result readable stop_msg udp s = (case result of
       SELECTOR_RET_ERROR \<Rightarrow> Some (False, None)
     | SELECTOR_RET_TIMEOUT \<Rightarrow> Some (True, None)
     | SELECTOR_RET_OK \<Rightarrow>
         (case stop_msg of
            Some (Inl _) \<Rightarrow> Some (True, None)
          | Some (Inr True) \<Rightarrow> Some (False, None)
          | _ \<Rightarrow> (case pick_socket readable s of
                None \<Rightarrow> Some (True, None)
              | Some (fd, localIp) \<Rightarrow>
                  if fd \<le> 0 then Some (True, None)
                  else (case udp fd of
                      None \<Rightarrow> Some (True, None)
                    | Some (bytes, sender, prt) \<Rightarrow>
                        if bytes = [] then Some (True, None)
                        else map_option (\<lambda>m. (True, m))
                          (Ssdp_ProcessMessage oks s (map_option c_str localIp) (take SSDP_BUFFER_LEN bytes) sender prt)))))"

text \<open>Whether the thread's loop takes a turn, as \<open>Ssdp_Loop\<close> decides; \<open>Ssdp_PreSelect\<close> cannot fail.\<close>

definition Ssdp_Loop ::
    "mallocs \<Rightarrow> selector_ret \<Rightarrow> (int \<Rightarrow> bool) \<Rightarrow> (tiny_ret + bool) option \<Rightarrow> (int \<Rightarrow> (string \<times> string \<times> 16 word) option)
      \<Rightarrow> ssdp \<Rightarrow> (bool \<times> ssdp_message option) option" where
  "Ssdp_Loop oks result readable stop_msg udp s =
     (if ssdp_running s then Ssdp_SelectOnce oks result readable stop_msg udp s else Some (False, None))"

subsection \<open>Starting again\<close>

lemma sockets_opened:
  "mc_sockets (fold OnAddressOpen addresses m) =
     mc_sockets m @ map (\<lambda>a. (field_printf TINY_IP_LEN (fst a), the (snd a))) (filter (\<lambda>a. snd a \<noteq> None) addresses)"
  by (induction addresses arbitrary: m) (auto simp: OnAddressOpen_def)

text \<open>
  An endpoint that opened a socket cannot be started again after it was stopped: closing the
  multicast sockets keeps them in the list, so the second start is refused, whatever the operating
  system answers, and the endpoint stays stopped.
\<close>

theorem ssdp_restart_fails:
  assumes "Ssdp_Start addresses (TINY_RET_OK, fd) tid s = (TINY_RET_OK, s1)" and "Ssdp_Stop s1 = (TINY_RET_OK, s2)"
    and "\<exists>a\<in>set addresses. snd a \<noteq> None" and "length (mc_sockets (multicast s)) + length addresses < 2 ^ 32"
  shows "\<exists>s3. Ssdp_Start addresses' (ret, fd') tid' s2 = (TINY_RET_E_ITEM_EXIST, s3) \<and> \<not> ssdp_running s3"
proof -
  let ?new = "map (\<lambda>a. (field_printf TINY_IP_LEN (fst a), the (snd a))) (filter (\<lambda>a. snd a \<noteq> None) addresses)"
  have m: "mc_sockets (multicast s1) = mc_sockets (multicast s) @ ?new" "ssdp_running s1"
    using assms(1)
    by (auto simp: Ssdp_Start_def Ssdp_OpenSockets_def TinyMulticast_Open_def sockets_opened RET_FAILED_def ret_defs split: if_splits)
  have "?new \<noteq> []" using assms(3) by (auto simp: filter_empty_conv)
  moreover have "length ?new \<le> length addresses" by simp
  ultimately have l: "0 < length (mc_sockets (multicast s1))" "length (mc_sockets (multicast s1)) < 2 ^ 32"
    using m(1) assms(4) by (simp_all del: length_map)
  then have "0 < (word_of_nat (length (mc_sockets (multicast s1))) :: 32 word)"
    by (simp add: word_less_nat_alt unat_of_nat)
  moreover have "multicast s2 = multicast s1" "\<not> ssdp_running s2"
    using assms(2) m(2) by (auto simp: Ssdp_Stop_def Ssdp_CloseSockets_def TinyMulticast_Close_def RET_FAILED_def ret_defs split: if_splits)
  ultimately show ?thesis
    by (simp add: Ssdp_Start_def Ssdp_OpenSockets_def TinyMulticast_Open_def TinyMulticast_GetCount_def RET_FAILED_def ret_defs)
qed

definition demo_addresses :: "(string \<times> int option) list" where
  "demo_addresses = [(''10.0.0.1'', Some 5), (''10.0.0.2'', None)]"

theorem ssdp_restart_fails_witness:
  "\<exists>s3. Ssdp_Start demo_addresses (TINY_RET_OK, 6) (Some 1)
      (snd (Ssdp_Stop (snd (Ssdp_Start demo_addresses (TINY_RET_OK, 6) (Some 1) (snd (Ssdp_Construct TINY_RET_OK TINY_RET_OK)))))) =
    (TINY_RET_E_ITEM_EXIST, s3) \<and> \<not> ssdp_running s3"
proof -
  let ?s = "snd (Ssdp_Construct TINY_RET_OK TINY_RET_OK)"
  let ?s1 = "snd (Ssdp_Start demo_addresses (TINY_RET_OK, 6) (Some 1) ?s)"
  have n: "mc_sockets (multicast ?s) = []" "\<not> ssdp_running ?s"
    by (simp_all add: Ssdp_Construct_def Let_def TinyMulticast_Construct_def)
  then have 1: "fst (Ssdp_Start demo_addresses (TINY_RET_OK, 6) (Some 1) ?s) = TINY_RET_OK" "ssdp_running ?s1"
    by (simp_all add: Ssdp_Start_def Ssdp_OpenSockets_def TinyMulticast_Open_def TinyMulticast_GetCount_def)
  then have 2: "fst (Ssdp_Stop ?s1) = TINY_RET_OK"
    by (simp add: Ssdp_Stop_def Ssdp_CloseSockets_def TinyMulticast_Close_def)
  have d: "\<exists>a\<in>set demo_addresses. snd a \<noteq> None" "length (mc_sockets (multicast ?s)) + length demo_addresses < 2 ^ 32"
    by (simp_all add: demo_addresses_def n)
  show ?thesis
    using ssdp_restart_fails [OF _ _ d, of 6 "Some 1" ?s1 "snd (Ssdp_Stop ?s1)"] 1(1) 2 by (metis prod.collapse)
qed

end
