(* ===== verification/UpnpRegistry.thy ===== *)
theory UpnpRegistry
  imports Ssdp UpnpUri UpnpProvider
begin

section \<open>Discovery: \<open>UpnpRegistry.c\<close> and the objects it finds\<close>

text \<open>
  The control point's side keeps the objects that were announced, by unique service name; the
  host's side announces the devices of the provider. Objects are owned by the map and handed to
  the listener by pointer, so they live in a store; \<open>told\<close> records the calls of the listener
  with the object as it was. The mutex serialises the handlers.
\<close>

subsection \<open>Objects: \<open>UpnpObject.c\<close>\<close>

definition UPNP_STACK_INFO_LEN :: nat where "UPNP_STACK_INFO_LEN = 128"

record upnp_object =
  ob_nt :: upnp_uri
  ob_ip :: string
  ob_location :: string
  ob_stack_info :: string
  ob_usn :: string
  ob_max_age :: "64 word"
  ob_next_notify :: "64 word"

definition UpnpObject_Construct :: "tiny_ret \<times> upnp_object" where
  "UpnpObject_Construct = (case UpnpUri_Construct of (ret, u) \<Rightarrow>
     (ret, \<lparr>ob_nt = u, ob_ip = [], ob_location = [], ob_stack_info = [], ob_usn = [], ob_max_age = 0, ob_next_notify = 0\<rparr>))"

definition UpnpObject_New :: "bool \<Rightarrow> upnp_object option" where
  "UpnpObject_New malloc_ok =
     (if malloc_ok then (case UpnpObject_Construct of (ret, x) \<Rightarrow> if RET_FAILED ret then None else Some x) else None)"

definition UpnpObject_Copy :: "upnp_object \<Rightarrow> upnp_object \<Rightarrow> upnp_object" where
  "UpnpObject_Copy dst src =
     \<lparr>ob_nt = UpnpUri_Copy (ob_nt dst) (ob_nt src), ob_ip = field_cpy TINY_IP_LEN (ob_ip src),
      ob_location = field_cpy TINY_URL_LEN (ob_location src), ob_stack_info = field_cpy UPNP_STACK_INFO_LEN (ob_stack_info src),
      ob_usn = field_cpy UPNP_USN_LEN (ob_usn src), ob_max_age = ob_max_age src, ob_next_notify = ob_next_notify src\<rparr>"

definition UpnpObject_SetNt :: "upnp_object \<Rightarrow> string option \<Rightarrow> bool \<Rightarrow> (tiny_ret \<times> upnp_object) option" where
  "UpnpObject_SetNt x nt strict = (case nt of
       None \<Rightarrow> Some (TINY_RET_E_ARG_NULL, x)
     | Some _ \<Rightarrow> map_option (\<lambda>(ret, u). (ret, x\<lparr>ob_nt := u\<rparr>)) (UpnpUri_Parse (ob_nt x) nt strict))"

definition UpnpObject_SetIp :: "upnp_object \<Rightarrow> string \<Rightarrow> upnp_object" where
  "UpnpObject_SetIp x s = x\<lparr>ob_ip := field_cpy TINY_IP_LEN s\<rparr>"

definition UpnpObject_SetLocation :: "upnp_object \<Rightarrow> string \<Rightarrow> upnp_object" where
  "UpnpObject_SetLocation x s = x\<lparr>ob_location := field_cpy TINY_URL_LEN s\<rparr>"

definition UpnpObject_SetStackInfo :: "upnp_object \<Rightarrow> string \<Rightarrow> upnp_object" where
  "UpnpObject_SetStackInfo x s = x\<lparr>ob_stack_info := field_cpy UPNP_STACK_INFO_LEN s\<rparr>"

definition UpnpObject_SetUsn :: "upnp_object \<Rightarrow> string \<Rightarrow> upnp_object" where
  "UpnpObject_SetUsn x s = x\<lparr>ob_usn := field_cpy UPNP_USN_LEN s\<rparr>"

text \<open>The value goes into a cleared buffer of 32 bytes; one that fills it has no terminator.\<close>

definition UpnpObject_SetCacheControl :: "upnp_object \<Rightarrow> string \<Rightarrow> upnp_object option" where
  "UpnpObject_SetCacheControl x cache_control = do {
     age \<leftarrow> (case snd (str_get_value cache_control (length cache_control) ''max-age='' None 32) of
        None \<Rightarrow> Some [] | Some bytes \<Rightarrow> read_field 32 (c_str bytes));
     Some (x\<lparr>ob_max_age := word_of_int (atoi age)\<rparr>) }"

definition UpnpObject_SetAge :: "upnp_object \<Rightarrow> 64 word \<Rightarrow> upnp_object" where
  "UpnpObject_SetAge x age = x\<lparr>ob_max_age := age\<rparr>"

text \<open>\<open>usec\<close> is the clock, in microseconds.\<close>

definition UpnpObject_UpdateNextNotify :: "64 word \<Rightarrow> upnp_object \<Rightarrow> upnp_object" where
  "UpnpObject_UpdateNextNotify usec x = x\<lparr>ob_next_notify := usec div 1000 div 1000 + ob_max_age x\<rparr>"

definition UpnpObject_GetUsn :: "upnp_object \<Rightarrow> string option" where
  "UpnpObject_GetUsn x = read_field UPNP_USN_LEN (ob_usn x)"

definition UpnpObject_GetIp :: "upnp_object \<Rightarrow> string option" where
  "UpnpObject_GetIp x = read_field TINY_IP_LEN (ob_ip x)"

definition UpnpObject_GetLocation :: "upnp_object \<Rightarrow> string option" where
  "UpnpObject_GetLocation x = read_field TINY_URL_LEN (ob_location x)"

definition UpnpObject_GetStackInfo :: "upnp_object \<Rightarrow> string option" where
  "UpnpObject_GetStackInfo x = read_field UPNP_STACK_INFO_LEN (ob_stack_info x)"

definition UpnpObject_GetNt :: "upnp_object \<Rightarrow> upnp_uri" where
  "UpnpObject_GetNt x = ob_nt x"

definition UpnpObject_GetAge :: "upnp_object \<Rightarrow> 64 word" where
  "UpnpObject_GetAge x = ob_max_age x"

definition UpnpObject_GetNextNotify :: "upnp_object \<Rightarrow> 64 word" where
  "UpnpObject_GetNextNotify x = ob_next_notify x"

subsection \<open>Validation and construction of objects\<close>

record validator =
  strictedUuid :: bool
  usn_filter :: "(upnp_usn \<Rightarrow> bool) option"

definition UpnpValidator_Construct :: "tiny_ret \<times> validator" where
  "UpnpValidator_Construct = (TINY_RET_OK, \<lparr>strictedUuid = False, usn_filter = None\<rparr>)"

definition UpnpValidator_ValidateUSN :: "validator \<Rightarrow> string \<Rightarrow> bool option" where
  "UpnpValidator_ValidateUSN v s = do {
     (ret, usn) \<leftarrow> UpnpUsn_Parse (snd UpnpUsn_Construct) (Some s) (strictedUuid v);
     Some (if RET_FAILED ret then False else (case usn_filter v of None \<Rightarrow> True | Some f \<Rightarrow> f usn)) }"

definition UpnpValidator_ValidateNT :: "validator \<Rightarrow> string \<Rightarrow> bool option" where
  "UpnpValidator_ValidateNT v s = do {
     (ret, _) \<leftarrow> UpnpUri_Parse (snd UpnpUri_Construct) (Some s) (strictedUuid v);
     Some (\<not> RET_FAILED ret) }"

text \<open>The steps that the two constructors of the factory share, in their order.\<close>

definition fill_object ::
    "64 word \<Rightarrow> upnp_object \<Rightarrow> string \<Rightarrow> bool \<Rightarrow> string \<Rightarrow> string \<Rightarrow> string \<Rightarrow> string \<Rightarrow> string \<Rightarrow> upnp_object option" where
  "fill_object usec x nt strict cache_control usn sender location server = do {
     (_, x1) \<leftarrow> UpnpObject_SetNt x (Some nt) strict;
     x2 \<leftarrow> UpnpObject_SetCacheControl x1 cache_control;
     Some (UpnpObject_UpdateNextNotify usec (UpnpObject_SetStackInfo (UpnpObject_SetLocation
       (UpnpObject_SetIp (UpnpObject_SetUsn x2 usn) sender) location) server)) }"

text \<open>The outer option is undefined behaviour, the inner one a NULL result.\<close>

definition UpnpObjectFactory_CreateByAlive ::
    "bool \<Rightarrow> 64 word \<Rightarrow> ssdp_alive \<Rightarrow> string \<Rightarrow> validator \<Rightarrow> upnp_object option option" where
  "UpnpObjectFactory_CreateByAlive ok usec a sender v = do {
     nt \<leftarrow> read_field (HEAD_NT_LEN + 1) (al_nt a);
     valid \<leftarrow> UpnpValidator_ValidateNT v nt;
     if \<not> valid then Some None
     else (case UpnpObject_New ok of
         None \<Rightarrow> Some None
       | Some x \<Rightarrow> do {
           cache_control \<leftarrow> read_field (HEAD_CACHE_CONTROL_LEN + 1) (al_cache_control a);
           usn \<leftarrow> read_field (HEAD_USN_LEN + 1) (al_usn a);
           location \<leftarrow> read_field (HEAD_LOCATION_LEN + 1) (al_location a);
           server \<leftarrow> read_field (HEAD_SERVER_LEN + 1) (al_server a);
           map_option Some (fill_object usec x nt (strictedUuid v) cache_control usn sender location server) }) }"

definition UpnpObjectFactory_CreateByResponse ::
    "bool \<Rightarrow> 64 word \<Rightarrow> ssdp_response \<Rightarrow> string \<Rightarrow> validator \<Rightarrow> upnp_object option option" where
  "UpnpObjectFactory_CreateByResponse ok usec r sender v = do {
     st \<leftarrow> read_field (HEAD_ST_LEN + 1) (rs_st r);
     valid \<leftarrow> UpnpValidator_ValidateNT v st;
     if \<not> valid then Some None
     else (case UpnpObject_New ok of
         None \<Rightarrow> Some None
       | Some x \<Rightarrow> do {
           cache_control \<leftarrow> read_field (HEAD_CACHE_CONTROL_LEN + 1) (rs_cache_control r);
           usn \<leftarrow> read_field (HEAD_USN_LEN + 1) (rs_usn r);
           location \<leftarrow> read_field (HEAD_LOCATION_LEN + 1) (rs_location r);
           server \<leftarrow> read_field (HEAD_SERVER_LEN + 1) (rs_server r);
           map_option Some (fill_object usec x st (strictedUuid v) cache_control usn sender location server) }) }"

subsection \<open>The registry and its list of objects\<close>

record registry =
  reg_ssdp :: ssdp
  reg_listener :: bool
  reg_validator :: validator
  found_objects :: "addr tmap"
  object_at :: "addr \<Rightarrow> upnp_object option"
  object_brk :: addr
  told :: "(upnp_object \<times> bool) list"

text \<open>\<open>mutex_ret\<close> is the result of the mutex; the map is not constructed when it fails.\<close>

definition UpnpObjectList_Construct :: "tiny_ret \<Rightarrow> tiny_ret \<times> addr tmap" where
  "UpnpObjectList_Construct mutex_ret =
     (if RET_FAILED mutex_ret then (mutex_ret, zero_map)
      else (case TinyMap_Construct of (ret, m) \<Rightarrow>
        if RET_FAILED ret then (ret, m) else (ret, TinyMap_SetDeleteListener m True)))"

definition UpnpRegistry_Construct :: "tiny_ret \<Rightarrow> tiny_ret \<Rightarrow> tiny_ret \<Rightarrow> tiny_ret \<times> registry" where
  "UpnpRegistry_Construct selector_ret ipc_ret mutex_ret =
     (let made = Ssdp_Construct selector_ret ipc_ret;
          handler_set = Ssdp_SetMessageHandler (snd made) True;
          objects = UpnpObjectList_Construct mutex_ret;
          r = \<lparr>reg_ssdp = snd made, reg_listener = False, reg_validator = snd UpnpValidator_Construct,
               found_objects = zero_map, object_at = Map.empty, object_brk = 1, told = []\<rparr>
      in if RET_FAILED (fst made) then (TINY_RET_E_NEW, r)
         else if RET_FAILED (fst handler_set) then (TINY_RET_E_NEW, r)
         else if RET_FAILED (fst objects)
         then (TINY_RET_E_NEW, r\<lparr>reg_ssdp := snd handler_set, found_objects := snd objects\<rparr>)
         else (TINY_RET_OK, r\<lparr>reg_ssdp := snd handler_set, found_objects := snd objects\<rparr>))"

definition UpnpObjectList_GetObject :: "registry \<Rightarrow> string option \<Rightarrow> addr option" where
  "UpnpObjectList_GetObject r usn = (case usn of None \<Rightarrow> None | Some k \<Rightarrow> TinyMap_GetValue (found_objects r) (Some k))"

text \<open>The result of the insertion is ignored.\<close>

definition UpnpObjectList_AddObject :: "mallocs \<Rightarrow> registry \<Rightarrow> addr \<Rightarrow> registry option" where
  "UpnpObjectList_AddObject oks r a = do {
     x \<leftarrow> object_at r a;
     usn \<leftarrow> UpnpObject_GetUsn x;
     Some (r\<lparr>found_objects := snd (TinyMap_Insert oks (found_objects r) (Some usn) (Some a))\<rparr>) }"

text \<open>The map's delete listener frees the object.\<close>

definition UpnpObjectList_RemoveObject :: "registry \<Rightarrow> string option \<Rightarrow> registry" where
  "UpnpObjectList_RemoveObject r usn = (case usn of
       None \<Rightarrow> r
     | Some k \<Rightarrow> r\<lparr>found_objects := snd (TinyMap_Erase (found_objects r) (Some k)),
         object_at := (case TinyMap_GetValue (found_objects r) (Some k) of
            None \<Rightarrow> object_at r | Some a \<Rightarrow> (object_at r)(a := None))\<rparr>)"

text \<open>Both free every object of the map, through its delete listener.\<close>

definition UpnpObjectList_Clear :: "registry \<Rightarrow> registry" where
  "UpnpObjectList_Clear r = r\<lparr>found_objects := TinyMap_Clear (found_objects r),
     object_at := object_at r |` (- set (map snd (map_entries (found_objects r))))\<rparr>"

definition UpnpObjectList_Dispose :: "registry \<Rightarrow> tiny_ret \<times> registry" where
  "UpnpObjectList_Dispose r = (TINY_RET_OK, r\<lparr>found_objects := snd (TinyMap_Dispose (found_objects r)),
     object_at := object_at r |` (- set (map snd (map_entries (found_objects r))))\<rparr>)"

definition UpnpRegistry_Dispose :: "registry \<Rightarrow> registry" where
  "UpnpRegistry_Dispose r = snd (UpnpObjectList_Dispose (r\<lparr>reg_ssdp := Ssdp_Dispose (reg_ssdp r)\<rparr>))"

definition tell :: "addr \<Rightarrow> bool \<Rightarrow> registry \<Rightarrow> registry option" where
  "tell a alive r = do { x \<leftarrow> object_at r a; Some (r\<lparr>told := told r @ [(x, alive)]\<rparr>) }"

definition store_object :: "upnp_object \<Rightarrow> registry \<Rightarrow> addr \<times> registry" where
  "store_object x r = (object_brk r,
     r\<lparr>object_at := (object_at r)(object_brk r \<mapsto> x), object_brk := object_brk r + 1\<rparr>)"

definition refresh :: "64 word \<Rightarrow> addr \<Rightarrow> registry \<Rightarrow> registry option" where
  "refresh usec a r = do {
     x \<leftarrow> object_at r a;
     Some (r\<lparr>object_at := (object_at r)(a \<mapsto> UpnpObject_UpdateNextNotify usec x)\<rparr>) }"

subsection \<open>The handler of messages, on the control point's side\<close>

definition UpnpRegistry_OnAlive ::
    "bool \<Rightarrow> mallocs \<Rightarrow> 64 word \<Rightarrow> registry \<Rightarrow> ssdp_alive \<Rightarrow> string \<Rightarrow> registry option" where
  "UpnpRegistry_OnAlive new_ok oks usec r alive sender =
     (if \<not> reg_listener r then Some r
      else do {
        usn \<leftarrow> read_field (HEAD_USN_LEN + 1) (al_usn alive);
        valid \<leftarrow> UpnpValidator_ValidateUSN (reg_validator r) usn;
        if \<not> valid then Some r
        else (case UpnpObjectList_GetObject r (Some usn) of
            Some a \<Rightarrow> refresh usec a r
          | None \<Rightarrow> do {
              made \<leftarrow> UpnpObjectFactory_CreateByAlive new_ok usec alive sender (reg_validator r);
              (case made of
                 None \<Rightarrow> Some r
               | Some x \<Rightarrow> (case store_object x r of (a, r1) \<Rightarrow> do {
                   r2 \<leftarrow> UpnpObjectList_AddObject oks r1 a;
                   tell a True r2 })) }) })"

definition UpnpRegistry_OnByebye :: "registry \<Rightarrow> ssdp_byebye \<Rightarrow> registry option" where
  "UpnpRegistry_OnByebye r byebye =
     (if \<not> reg_listener r then Some r
      else do {
        usn \<leftarrow> read_field (HEAD_USN_LEN + 1) (bb_usn byebye);
        valid \<leftarrow> UpnpValidator_ValidateUSN (reg_validator r) usn;
        if \<not> valid then Some r
        else (case UpnpObjectList_GetObject r (Some usn) of
            None \<Rightarrow> Some r
          | Some a \<Rightarrow> do {
              r1 \<leftarrow> tell a False r;
              Some (UpnpObjectList_RemoveObject r1 (Some usn)) }) })"

definition UpnpRegistry_OnResponse ::
    "bool \<Rightarrow> mallocs \<Rightarrow> 64 word \<Rightarrow> registry \<Rightarrow> ssdp_response \<Rightarrow> string \<Rightarrow> registry option" where
  "UpnpRegistry_OnResponse new_ok oks usec r response sender =
     (if \<not> reg_listener r then Some r
      else do {
        usn \<leftarrow> read_field (HEAD_USN_LEN + 1) (rs_usn response);
        valid \<leftarrow> UpnpValidator_ValidateUSN (reg_validator r) usn;
        if \<not> valid then Some r
        else (case UpnpObjectList_GetObject r (Some usn) of
            Some a \<Rightarrow> refresh usec a r
          | None \<Rightarrow> do {
              made \<leftarrow> UpnpObjectFactory_CreateByResponse new_ok usec response sender (reg_validator r);
              (case made of
                 None \<Rightarrow> Some r
               | Some x \<Rightarrow> (case store_object x r of (a, r1) \<Rightarrow> do {
                   r2 \<leftarrow> UpnpObjectList_AddObject oks r1 a;
                   tell a True r2 })) }) })"

subsection \<open>Announcing devices, on the host's side\<close>

text \<open>
  The messages are constructed and sent one after the other until a construction fails; what
  sending returns is ignored.
\<close>

fun send_series :: "ssdp \<Rightarrow> (tiny_ret \<times> ssdp_message) option list \<Rightarrow> datagram list option" where
  "send_series s [] = Some []"
| "send_series s (c # cs) = do {
     (ret, m) \<leftarrow> c;
     if RET_FAILED ret then Some []
     else do {
       (_, ds) \<leftarrow> Ssdp_SendMessage s m;
       ds' \<leftarrow> send_series s cs;
       Some (ds @ ds') } }"

text \<open>One construction per service; a NULL service is refused by the constructor.\<close>

fun for_services ::
    "'f ustore \<Rightarrow> upnp_device \<Rightarrow> ('f upnp_service \<Rightarrow> (tiny_ret \<times> ssdp_message) option) \<Rightarrow> 32 word \<Rightarrow> nat
      \<Rightarrow> (tiny_ret \<times> ssdp_message) option list" where
  "for_services u d f i 0 = []"
| "for_services u d f i (Suc n) = (case UpnpDevice_GetServiceAt d i of
       None \<Rightarrow> Some (TINY_RET_E_ARG_NULL, zero_message)
     | Some a \<Rightarrow> Option.bind (srv_at u a) f) # for_services u d f (i + 1) n"

definition OnDeviceAdded_registry :: "'f ustore \<Rightarrow> ssdp \<Rightarrow> upnp_device \<Rightarrow> datagram list option" where
  "OnDeviceAdded_registry u s d = do {
     let prt = UpnpDevice_GetHttpPort d;
     uri \<leftarrow> UpnpDevice_GetURI d;
     send_series s ([SsdpMessage_ConstructAlive_ROOTDEVICE d uri prt, SsdpMessage_ConstructAlive_DEVICE_UUID d uri prt,
         SsdpMessage_ConstructAlive_DEVICE d uri prt] @
       for_services u d (\<lambda>x. SsdpMessage_ConstructAlive_SERVICE u x uri prt) 0 (unat (UpnpDevice_GetServiceCount d))) }"

definition OnDeviceRemoved_registry :: "'f ustore \<Rightarrow> ssdp \<Rightarrow> upnp_device \<Rightarrow> datagram list option" where
  "OnDeviceRemoved_registry u s d = do {
     ds \<leftarrow> send_series s (for_services u d (SsdpMessage_ConstructByebye_SERVICE u) 0 (unat (UpnpDevice_GetServiceCount d)));
     ds' \<leftarrow> send_series s [SsdpMessage_ConstructByebye_DEVICE d, SsdpMessage_ConstructByebye_DEVICE_UUID d,
         SsdpMessage_ConstructByebye_ROOTDEVICE d];
     Some (ds @ ds') }"

definition deviceIsMatched :: "string \<Rightarrow> bool" where
  "deviceIsMatched st \<longleftrightarrow> STR_EQUAL st DEFAULT_ST"

definition OnRequestDeviceVisit ::
    "'f ustore \<Rightarrow> ssdp \<Rightarrow> string \<Rightarrow> string \<Rightarrow> string \<Rightarrow> 16 word \<Rightarrow> upnp_device \<Rightarrow> datagram list option" where
  "OnRequestDeviceVisit u s st localIp sender sport d =
     (if deviceIsMatched st then do {
        let prt = UpnpDevice_GetHttpPort d;
        uri \<leftarrow> UpnpDevice_GetURI d;
        send_series s ([SsdpMessage_ConstructResponse_ROOTDEVICE d uri prt localIp sender sport,
            SsdpMessage_ConstructResponse_DEVICE_UUID d uri prt localIp sender sport,
            SsdpMessage_ConstructResponse_DEVICE d uri prt localIp sender sport] @
          for_services u d (\<lambda>x. SsdpMessage_ConstructResponse_SERVICE u x uri prt localIp sender sport) 0
            (unat (UpnpDevice_GetServiceCount d))) }
      else Some [])"

text \<open>A search visits every device of the provider. A NULL device sends nothing.\<close>

definition UpnpRegistry_OnRequest ::
    "'f ustore \<Rightarrow> provider \<Rightarrow> ssdp \<Rightarrow> ssdp_request \<Rightarrow> string \<Rightarrow> string \<Rightarrow> 16 word \<Rightarrow> datagram list option" where
  "UpnpRegistry_OnRequest u p s q localIp sender sport = do {
     st \<leftarrow> read_field (HEAD_ST_LEN + 1) (rq_st q);
     Option.bind (UpnpProvider_Foreach p (\<lambda>d acc. do {
         ds \<leftarrow> acc;
         (case d of
            None \<Rightarrow> Some ds
          | Some a \<Rightarrow> do {
              dev \<leftarrow> dev_at u a;
              ds' \<leftarrow> OnRequestDeviceVisit u s st localIp sender sport dev;
              Some (ds @ ds') }) }) (Some [])) (\<lambda>x. x) }"

subsection \<open>Messages, searches, starting and stopping\<close>

definition UpnpRegistry_MessageHandler ::
    "bool \<Rightarrow> mallocs \<Rightarrow> 64 word \<Rightarrow> 'f ustore \<Rightarrow> provider \<Rightarrow> registry \<Rightarrow> ssdp_message \<Rightarrow> (registry \<times> datagram list) option" where
  "UpnpRegistry_MessageHandler new_ok oks usec u p r m = do {
     sender \<leftarrow> read_field (TINY_IP_LEN + 1) (remote_ip m);
     localIp \<leftarrow> read_field (TINY_IP_LEN + 1) (local_ip m);
     (case ssdp_body m of
        SSDP_ALIVE a \<Rightarrow> map_option (\<lambda>r'. (r', [])) (UpnpRegistry_OnAlive new_ok oks usec r a sender)
      | SSDP_BYEBYE b \<Rightarrow> map_option (\<lambda>r'. (r', [])) (UpnpRegistry_OnByebye r b)
      | SSDP_MSEARCH_REQUEST q \<Rightarrow>
          map_option (Pair r) (UpnpRegistry_OnRequest u p (reg_ssdp r) q localIp sender (remote_port m))
      | SSDP_MSEARCH_RESPONSE s \<Rightarrow> map_option (\<lambda>r'. (r', [])) (UpnpRegistry_OnResponse new_ok oks usec r s sender)
      | SSDP_INVALID \<Rightarrow> Some (r, [])) }"

definition UpnpRegistry_Discover ::
    "registry \<Rightarrow> bool \<Rightarrow> bool \<Rightarrow> (upnp_usn \<Rightarrow> bool) option \<Rightarrow> (tiny_ret \<times> registry \<times> datagram list) option" where
  "UpnpRegistry_Discover r strict listener_given filt =
     (if \<not> listener_given then Some (TINY_RET_E_ARG_NULL, r, [])
      else (let r1 = r\<lparr>reg_validator := \<lparr>strictedUuid = strict, usn_filter = filt\<rparr>, reg_listener := True\<rparr>
        in case SsdpMessage_ConstructRequest (Some DEFAULT_ST) of
             (ret, m) \<Rightarrow> if RET_FAILED ret then Some (ret, r1, [])
               else map_option (\<lambda>(ret', ds). (ret', r1, ds)) (Ssdp_SendMessage (reg_ssdp r1) m)))"

definition UpnpRegistry_StopDiscovery :: "registry \<Rightarrow> tiny_ret \<times> registry" where
  "UpnpRegistry_StopDiscovery r = (TINY_RET_OK, r\<lparr>reg_listener := False\<rparr>)"

definition REGISTRY_OBSERVER :: string where "REGISTRY_OBSERVER = ''Registry''"

text \<open>
  \<open>added\<close> and \<open>removed\<close> are the registry's two callbacks, \<open>self\<close> its address; the calls the
  provider makes are in its record. When the observer cannot be added the endpoint stays started.
\<close>

definition UpnpRegistry_Start ::
    "(string \<times> int option) list \<Rightarrow> tiny_ret \<times> int \<Rightarrow> 64 word option \<Rightarrow> bool \<Rightarrow> mallocs \<Rightarrow> fnptr \<Rightarrow> fnptr \<Rightarrow> addr
      \<Rightarrow> registry \<Rightarrow> provider \<Rightarrow> (tiny_ret \<times> registry \<times> provider) option" where
  "UpnpRegistry_Start addresses search tid new_ok oks added removed self r p =
     (case Ssdp_Start addresses search tid (reg_ssdp r) of (ret, s) \<Rightarrow>
        if RET_FAILED ret then Some (ret, r\<lparr>reg_ssdp := s\<rparr>, p)
        else map_option (\<lambda>(ret', q). (ret', r\<lparr>reg_ssdp := s\<rparr>, q))
          (UpnpProvider_AddObserver new_ok oks p (Some REGISTRY_OBSERVER) (Some added) (Some removed) None (Some self)))"

definition UpnpRegistry_Stop :: "registry \<Rightarrow> provider \<Rightarrow> (tiny_ret \<times> registry \<times> provider) option" where
  "UpnpRegistry_Stop r p = do {
     (ret, q) \<leftarrow> UpnpProvider_RemoveObserver p (Some REGISTRY_OBSERVER);
     if RET_FAILED ret then Some (ret, r, q)
     else (case Ssdp_Stop (reg_ssdp r) of (ret', s) \<Rightarrow> Some (ret', r\<lparr>reg_ssdp := s\<rparr>, q)) }"

subsection \<open>What the listener has been told\<close>

text \<open>
  The objects by their name, and what the calls of the listener say about a name: whether an
  object of that name is there, or \<open>None\<close> when it appeared twice or left without being there.
\<close>

definition object_of :: "registry \<Rightarrow> string \<Rightarrow> upnp_object option" where
  "object_of r k = Option.bind (TinyMap_GetValue (found_objects r) (Some k)) (object_at r)"

fun track_step :: "string \<Rightarrow> upnp_object \<times> bool \<Rightarrow> bool option \<Rightarrow> bool option" where
  "track_step k (x, alive) st = (if ob_usn x = k then (if st = Some (\<not> alive) then Some alive else None) else st)"

definition track :: "string \<Rightarrow> (upnp_object \<times> bool) list \<Rightarrow> bool option" where
  "track k cs = fold (track_step k) cs (Some False)"

lemma track_snoc: "track k (cs @ [(x, alive)]) =
    (if ob_usn x = k then (if track k cs = Some (\<not> alive) then Some alive else None) else track k cs)"
  by (simp add: track_def)

definition objects_ok :: "registry \<Rightarrow> bool" where
  "objects_ok r \<longleftrightarrow> map_inv (found_objects r)
     \<and> (\<forall>k a. TinyMap_GetValue (found_objects r) (Some k) = Some a \<longrightarrow>
         (\<exists>x. object_at r a = Some x \<and> ob_usn x = field_cpy MAX_KEY_LEN k \<and> length (ob_usn x) < UPNP_USN_LEN
            \<and> a < object_brk r))"

definition told_right :: "registry \<Rightarrow> bool" where
  "told_right r \<longleftrightarrow> (\<forall>k. length k < UPNP_USN_LEN \<longrightarrow>
     track k (told r) = Some (TinyMap_GetValue (found_objects r) (Some k) \<noteq> None))"

definition registry_inv :: "registry \<Rightarrow> bool" where
  "registry_inv r \<longleftrightarrow> objects_ok r \<and> told_right r"

lemma short_key: "length k < UPNP_USN_LEN \<Longrightarrow> field_cpy MAX_KEY_LEN k = k"
  by (simp add: field_cpy_def UPNP_USN_LEN_def MAX_KEY_LEN_def)

lemma held:
  "registry_inv r \<Longrightarrow> TinyMap_GetValue (found_objects r) (Some k) = Some a \<Longrightarrow> length k < UPNP_USN_LEN \<Longrightarrow>
     \<exists>x. object_at r a = Some x \<and> ob_usn x = k \<and> a < object_brk r"
  unfolding registry_inv_def objects_ok_def using short_key [of k] by metis

lemma registry_inv_same:
  "registry_inv r \<Longrightarrow> found_objects r' = found_objects r \<Longrightarrow> object_at r' = object_at r \<Longrightarrow> object_brk r' = object_brk r \<Longrightarrow>
     told r' = told r \<Longrightarrow> registry_inv r'"
  by (simp add: registry_inv_def objects_ok_def told_right_def)

lemma inv_refresh:
  assumes "registry_inv r" and "TinyMap_GetValue (found_objects r) (Some k) = Some a"
  shows "\<exists>r'. refresh usec a r = Some r' \<and> registry_inv r'"
proof -
  obtain x where x: "object_at r a = Some x" using assms by (auto simp: registry_inv_def objects_ok_def)
  have "registry_inv (r\<lparr>object_at := (object_at r)(a \<mapsto> UpnpObject_UpdateNextNotify usec x)\<rparr>)"
    using assms x by (fastforce simp: registry_inv_def objects_ok_def told_right_def UpnpObject_UpdateNextNotify_def)
  then show ?thesis using x by (simp add: refresh_def)
qed

lemma inv_found:
  assumes "registry_inv r" and "TinyMap_GetValue (found_objects r) (Some usn) = None" and "ob_usn x = usn"
    and "length usn < UPNP_USN_LEN" and "cstring usn"
  shows "\<exists>m r2 r3. UpnpObjectList_AddObject [] (snd (store_object x r)) (object_brk r) = Some r2
    \<and> tell (object_brk r) True r2 = Some r3 \<and> registry_inv r3
    \<and> r3 = r\<lparr>found_objects := m, object_at := (object_at r)(object_brk r \<mapsto> x), object_brk := object_brk r + 1,
        told := told r @ [(x, True)]\<rparr>
    \<and> (\<forall>k. TinyMap_GetValue m (Some k) = (if field_cpy MAX_KEY_LEN k = usn then Some (object_brk r)
        else TinyMap_GetValue (found_objects r) (Some k)))"
proof -
  note inv = assms(1) [unfolded registry_inv_def objects_ok_def told_right_def]
  let ?a = "object_brk r"
  have m: "map_inv (found_objects r)" using inv by blast
  let ?m = "snd (TinyMap_Insert [] (found_objects r) (Some usn) (Some ?a))"
  let ?r3 = "r\<lparr>found_objects := ?m, object_at := (object_at r)(?a \<mapsto> x), object_brk := ?a + 1, told := told r @ [(x, True)]\<rparr>"
  have u: "UpnpObject_GetUsn x = Some usn" using assms(3,4) by (simp add: UpnpObject_GetUsn_def read_field_def)
  have look: "TinyMap_GetValue ?m (Some k) = (if field_cpy MAX_KEY_LEN k = usn then Some ?a else TinyMap_GetValue (found_objects r) (Some k))" for k
    using tm.lookup_add [OF m TrueI TrueI assms(2)] short_key [OF assms(4)] by simp
  have "objects_ok ?r3"
    unfolding objects_ok_def
  proof (intro conjI allI impI)
    show "map_inv (found_objects ?r3)" using map_inv_insert [OF m] by simp
    fix k b
    assume "TinyMap_GetValue (found_objects ?r3) (Some k) = Some b"
    then consider "field_cpy MAX_KEY_LEN k = usn" "b = ?a"
      | "field_cpy MAX_KEY_LEN k \<noteq> usn" "TinyMap_GetValue (found_objects r) (Some k) = Some b"
      using look [of k] by (auto split: if_splits)
    then show "\<exists>y. object_at ?r3 b = Some y \<and> ob_usn y = field_cpy MAX_KEY_LEN k \<and> length (ob_usn y) < UPNP_USN_LEN \<and> b < object_brk ?r3"
    proof cases
      case 1
      then show ?thesis using assms(3,4) by simp
    next
      case 2
      then obtain y where "object_at r b = Some y" "ob_usn y = field_cpy MAX_KEY_LEN k" "length (ob_usn y) < UPNP_USN_LEN" "b < ?a"
        using inv by blast
      then show ?thesis by auto
    qed
  qed
  moreover have "told_right ?r3"
    unfolding told_right_def
  proof (intro allI impI)
    fix k :: string
    assume k: "length k < UPNP_USN_LEN"
    then have t: "track k (told r) = Some (TinyMap_GetValue (found_objects r) (Some k) \<noteq> None)" using inv by blast
    show "track k (told ?r3) = Some (TinyMap_GetValue (found_objects ?r3) (Some k) \<noteq> None)"
      using t look [of k] short_key [OF k] assms(2,3) by (cases "k = usn") (simp_all add: track_snoc)
  qed
  moreover have "UpnpObjectList_AddObject [] (snd (store_object x r)) ?a =
      Some (r\<lparr>found_objects := ?m, object_at := (object_at r)(?a \<mapsto> x), object_brk := ?a + 1\<rparr>)"
    by (simp add: UpnpObjectList_AddObject_def store_object_def u)
  ultimately show ?thesis using look by (intro exI [of _ ?m]) (simp add: tell_def registry_inv_def)
qed

lemma inv_lost:
  assumes "registry_inv r" and "TinyMap_GetValue (found_objects r) (Some usn) = Some a" and "length usn < UPNP_USN_LEN"
  shows "\<exists>r1. tell a False r = Some r1 \<and> registry_inv (UpnpObjectList_RemoveObject r1 (Some usn))"
proof -
  note inv = assms(1) [unfolded registry_inv_def objects_ok_def told_right_def]
  have m: "map_inv (found_objects r)" using inv by blast
  obtain x where x: "object_at r a = Some x" "ob_usn x = usn" using inv assms(2) short_key [OF assms(3)] by metis
  let ?m = "snd (TinyMap_Erase (found_objects r) (Some usn))"
  let ?r = "r\<lparr>told := told r @ [(x, False)], found_objects := ?m, object_at := (object_at r)(a := None)\<rparr>"
  have look: "TinyMap_GetValue ?m (Some k) = (if field_cpy MAX_KEY_LEN k = usn then None else TinyMap_GetValue (found_objects r) (Some k))" for k
    using tm.lookup_erase [OF m] short_key [OF assms(3)] by simp
  have "objects_ok ?r"
    unfolding objects_ok_def
  proof (intro conjI allI impI)
    show "map_inv (found_objects ?r)" using tm.inv_erase [OF m] by simp
    fix k b
    assume "TinyMap_GetValue (found_objects ?r) (Some k) = Some b"
    then have k: "field_cpy MAX_KEY_LEN k \<noteq> usn" "TinyMap_GetValue (found_objects r) (Some k) = Some b"
      using look [of k] by (auto split: if_splits)
    then obtain y where y: "object_at r b = Some y" "ob_usn y = field_cpy MAX_KEY_LEN k" "length (ob_usn y) < UPNP_USN_LEN" "b < object_brk r"
      using inv by blast
    with k x have "b \<noteq> a" by auto
    with y show "\<exists>y. object_at ?r b = Some y \<and> ob_usn y = field_cpy MAX_KEY_LEN k \<and> length (ob_usn y) < UPNP_USN_LEN \<and> b < object_brk ?r"
      by simp
  qed
  moreover have "told_right ?r"
    unfolding told_right_def
  proof (intro allI impI)
    fix k :: string
    assume k: "length k < UPNP_USN_LEN"
    then have t: "track k (told r) = Some (TinyMap_GetValue (found_objects r) (Some k) \<noteq> None)" using inv by blast
    show "track k (told ?r) = Some (TinyMap_GetValue (found_objects ?r) (Some k) \<noteq> None)"
      using t look [of k] short_key [OF k] assms(2) x(2) by (cases "k = usn") (simp_all add: track_snoc)
  qed
  ultimately show ?thesis
    using x(1) assms(2) by (simp add: tell_def UpnpObjectList_RemoveObject_def registry_inv_def)
qed

subsection \<open>Any sequence of messages and searches\<close>

text \<open>
  The clients' operations, with memory available. A message must not drive the parsers into
  undefined behaviour, and its name must leave room for its terminator in an object.
\<close>

datatype registry_op =
    OpAlive "64 word" ssdp_alive string
  | OpByebye ssdp_byebye
  | OpResponse "64 word" ssdp_response string
  | OpDiscover bool "(upnp_usn \<Rightarrow> bool) option"
  | OpStopDiscovery

fun registry_step :: "registry_op \<Rightarrow> registry \<Rightarrow> (unit \<times> registry) option" where
  "registry_step (OpAlive usec a sender) r = map_option (Pair ()) (UpnpRegistry_OnAlive True [] usec r a sender)"
| "registry_step (OpByebye b) r = map_option (Pair ()) (UpnpRegistry_OnByebye r b)"
| "registry_step (OpResponse usec a sender) r = map_option (Pair ()) (UpnpRegistry_OnResponse True [] usec r a sender)"
| "registry_step (OpDiscover strict filt) r =
     map_option (\<lambda>(_, r', _). ((), r')) (UpnpRegistry_Discover r strict True filt)"
| "registry_step OpStopDiscovery r = Some ((), snd (UpnpRegistry_StopDiscovery r))"

definition usn_fits :: "validator \<Rightarrow> string \<Rightarrow> bool" where
  "usn_fits v usn \<longleftrightarrow> cstring usn \<and> length usn < UPNP_USN_LEN \<and> UpnpValidator_ValidateUSN v usn \<noteq> None"

fun registry_pre :: "registry_op \<Rightarrow> registry \<Rightarrow> bool" where
  "registry_pre (OpAlive usec a sender) r \<longleftrightarrow> usn_fits (reg_validator r) (al_usn a)
     \<and> UpnpObjectFactory_CreateByAlive True usec a sender (reg_validator r) \<noteq> None"
| "registry_pre (OpByebye b) r \<longleftrightarrow> usn_fits (reg_validator r) (bb_usn b)"
| "registry_pre (OpResponse usec a sender) r \<longleftrightarrow> usn_fits (reg_validator r) (rs_usn a)
     \<and> UpnpObjectFactory_CreateByResponse True usec a sender (reg_validator r) \<noteq> None"
| "registry_pre _ r \<longleftrightarrow> True"

lemma usn_reads: "usn_fits v usn \<Longrightarrow> read_field (HEAD_USN_LEN + 1) usn = Some usn"
  by (simp add: usn_fits_def read_field_def HEAD_USN_LEN_def UPNP_USN_LEN_def)

lemma fill_object_usn:
  "fill_object usec x nt strict cache usn sender location server = Some y \<Longrightarrow> length usn < UPNP_USN_LEN \<Longrightarrow> ob_usn y = usn"
  by (auto simp: fill_object_def UpnpObject_SetUsn_def UpnpObject_SetIp_def UpnpObject_SetLocation_def UpnpObject_SetStackInfo_def
      UpnpObject_UpdateNextNotify_def field_cpy_short bind_eq_Some_conv)

lemma alive_usn:
  assumes "UpnpObjectFactory_CreateByAlive ok usec a sender v = Some (Some y)" and "usn_fits v' (al_usn a)"
  shows "ob_usn y = al_usn a"
proof -
  have "length (al_usn a) < UPNP_USN_LEN" "read_field (Suc HEAD_USN_LEN) (al_usn a) = Some (al_usn a)"
    using assms(2) usn_reads [OF assms(2)] by (simp_all add: usn_fits_def)
  then show ?thesis
    using assms(1)
    by (auto simp: UpnpObjectFactory_CreateByAlive_def bind_eq_Some_conv split: if_splits option.splits dest: fill_object_usn)
qed

lemma response_usn:
  assumes "UpnpObjectFactory_CreateByResponse ok usec a sender v = Some (Some y)" and "usn_fits v' (rs_usn a)"
  shows "ob_usn y = rs_usn a"
proof -
  have "length (rs_usn a) < UPNP_USN_LEN" "read_field (Suc HEAD_USN_LEN) (rs_usn a) = Some (rs_usn a)"
    using assms(2) usn_reads [OF assms(2)] by (simp_all add: usn_fits_def)
  then show ?thesis
    using assms(1)
    by (auto simp: UpnpObjectFactory_CreateByResponse_def bind_eq_Some_conv split: if_splits option.splits dest: fill_object_usn)
qed

text \<open>What both handlers do once the name is valid.\<close>

lemma inv_announced:
  assumes "registry_inv r" and "usn_fits v usn" and "\<And>y. made = Some y \<Longrightarrow> ob_usn y = usn"
  shows "\<exists>r'. (case UpnpObjectList_GetObject r (Some usn) of
            Some a \<Rightarrow> refresh usec a r
          | None \<Rightarrow> (case made of
                 None \<Rightarrow> Some r
               | Some x \<Rightarrow> (case store_object x r of (a, r1) \<Rightarrow> do {
                   r2 \<leftarrow> UpnpObjectList_AddObject [] r1 a;
                   tell a True r2 }))) = Some r' \<and> registry_inv r'"
proof (cases "TinyMap_GetValue (found_objects r) (Some usn)")
  case (Some a)
  then show ?thesis using inv_refresh [OF assms(1) Some] by (simp add: UpnpObjectList_GetObject_def)
next
  case None
  note g = this
  show ?thesis
  proof (cases made)
    case None
    then show ?thesis using g assms(1) by (simp add: UpnpObjectList_GetObject_def)
  next
    case (Some y)
    obtain r2 r3 where "UpnpObjectList_AddObject [] (snd (store_object y r)) (object_brk r) = Some r2"
      "tell (object_brk r) True r2 = Some r3" "registry_inv r3"
      using inv_found [OF assms(1) g assms(3) [OF Some]] assms(2) by (auto simp: usn_fits_def)
    then show ?thesis using g Some by (simp add: UpnpObjectList_GetObject_def store_object_def)
  qed
qed

text \<open>A search for all devices always prints.\<close>

lemma search_request:
  "SsdpMessage_ConstructRequest (Some DEFAULT_ST) = (TINY_RET_OK, zero_message\<lparr>ssdp_body := SSDP_MSEARCH_REQUEST demo_search\<rparr>)"
  by (simp add: SsdpMessage_ConstructRequest_def demo_search_def field_cpy_def ssdp_lens DEFAULT_HOST_def DEFAULT_ST_def DEFAULT_MAN_def)

lemma send_search:
  "Ssdp_SendMessage s (zero_message\<lparr>ssdp_body := SSDP_MSEARCH_REQUEST demo_search\<rparr>) =
     Some (Ssdp_Send s (star_text METHOD_MSEARCH (request_pairs demo_search)) (length (star_text METHOD_MSEARCH (request_pairs demo_search)))
       (search_fd s) UPNP_GROUP UPNP_PORT)"
  by (simp add: Ssdp_SendMessage_def print_request [OF demo_search_fits] star_text_def http_text_def)

lemma registry_step_inv:
  assumes "registry_inv r" and "registry_pre op r"
  shows "\<exists>x r'. registry_step op r = Some (x, r') \<and> registry_inv r'"
  using assms
proof (cases op)
  case (OpAlive usec a sender)
  obtain made where made: "UpnpObjectFactory_CreateByAlive True usec a sender (reg_validator r) = Some made"
    and f: "usn_fits (reg_validator r) (al_usn a)" using assms(2) OpAlive by auto
  obtain valid where v: "UpnpValidator_ValidateUSN (reg_validator r) (al_usn a) = Some valid" using f by (auto simp: usn_fits_def)
  have y: "\<And>y. made = Some y \<Longrightarrow> ob_usn y = al_usn a" using made alive_usn [OF _ f] by blast
  show ?thesis
    using inv_announced [OF assms(1) f y, where made = made and usec = usec] made assms(1) OpAlive v usn_reads [OF f]
    by (cases "reg_listener r"; cases valid) (simp_all add: UpnpRegistry_OnAlive_def cong: option.case_cong)
next
  case (OpByebye b)
  then have f: "usn_fits (reg_validator r) (bb_usn b)" using assms(2) by simp
  then obtain valid where v: "UpnpValidator_ValidateUSN (reg_validator r) (bb_usn b) = Some valid" by (auto simp: usn_fits_def)
  show ?thesis
    using inv_lost [OF assms(1)] f assms(1) OpByebye v usn_reads [OF f]
    by (fastforce simp: UpnpRegistry_OnByebye_def UpnpObjectList_GetObject_def usn_fits_def split: option.splits)
next
  case (OpResponse usec a sender)
  obtain made where made: "UpnpObjectFactory_CreateByResponse True usec a sender (reg_validator r) = Some made"
    and f: "usn_fits (reg_validator r) (rs_usn a)" using assms(2) OpResponse by auto
  obtain valid where v: "UpnpValidator_ValidateUSN (reg_validator r) (rs_usn a) = Some valid" using f by (auto simp: usn_fits_def)
  have y: "\<And>y. made = Some y \<Longrightarrow> ob_usn y = rs_usn a" using made response_usn [OF _ f] by blast
  show ?thesis
    using inv_announced [OF assms(1) f y, where made = made and usec = usec] made assms(1) OpResponse v usn_reads [OF f]
    by (cases "reg_listener r"; cases valid) (simp_all add: UpnpRegistry_OnResponse_def cong: option.case_cong)
next
  case (OpDiscover strict filt)
  then show ?thesis using assms(1) by (simp add: UpnpRegistry_Discover_def search_request send_search registry_inv_same split: prod.splits)
next
  case OpStopDiscovery
  then show ?thesis using assms(1) by (simp add: UpnpRegistry_StopDiscovery_def registry_inv_same)
qed

interpretation reg: object registry_step registry_pre registry_inv
  by unfold_locales (rule registry_step_inv)


subsection \<open>Properties\<close>

lemma fresh_registry:
  assumes "UpnpRegistry_Construct TINY_RET_OK TINY_RET_OK TINY_RET_OK = (ret, r)"
  shows "registry_inv r" and "ret = TINY_RET_OK" and "TinyMap_GetValue (found_objects r) k = None" and "told r = []"
proof -
  have r: "object_at r = Map.empty" "told r = []" "ret = TINY_RET_OK"
    and f: "found_objects r = \<lparr>mlist = L_SetDeleteListener True L_new, mlistener = True, mlog = []\<rparr>"
    using assms
    by (auto simp: UpnpRegistry_Construct_def Let_def Ssdp_Construct_def Ssdp_SetMessageHandler_def UpnpObjectList_Construct_def
        TinyMap_Construct_def TinyMap_SetDeleteListener_def)
  have m: "map_inv (found_objects r)"
    by (simp add: f map_inv_def map_entries_def L_SetDeleteListener_def L_new_def count_ok_def)
  show g: "TinyMap_GetValue (found_objects r) k = None" for k
    by (simp add: f TinyMap_GetValue_def L_Foreach_def L_SetDeleteListener_def L_new_def split: option.splits)
  show "registry_inv r" using m g r by (simp add: registry_inv_def objects_ok_def told_right_def track_def)
  show "ret = TINY_RET_OK" "told r = []" using r by simp_all
qed

text \<open>
  C8. From a new registry, announcements, byebyes, search responses, searches and stops arrive in
  any order: no handler runs into undefined behaviour, and what the listener was told about any
  name is right: an object of that name was reported to appear and to leave in alternation, and
  it was last reported to appear exactly when the registry holds an object of that name, which
  carries the name it is stored under.
\<close>

theorem registry_view:
  assumes "UpnpRegistry_Construct TINY_RET_OK TINY_RET_OK TINY_RET_OK = (ret, r)"
    and "allowed registry_step registry_pre ops r" and "length k < UPNP_USN_LEN"
  shows "\<exists>rs r'. run_ops registry_step ops r = Some (rs, r')
    \<and> track k (told r') = Some (object_of r' k \<noteq> None)
    \<and> map_option ob_usn (object_of r' k) \<in> {None, Some k}"
proof -
  obtain rs r' where run: "run_ops registry_step ops r = Some (rs, r')" and inv: "registry_inv r'"
    using reg.run_inv [OF fresh_registry(1) [OF assms(1)] assms(2)] by blast
  show ?thesis
  proof (cases "TinyMap_GetValue (found_objects r') (Some k)")
    case None
    then show ?thesis
      using run inv assms(3) by (auto simp: registry_inv_def told_right_def object_of_def)
  next
    case (Some a)
    then obtain x where "object_at r' a = Some x" "ob_usn x = k" using held [OF inv _ assms(3)] by blast
    with Some show ?thesis
      using run inv assms(3) by (auto simp: registry_inv_def told_right_def object_of_def)
  qed
qed

end
