(* ===== verification/Discovery.thy ===== *)
theory Discovery
  imports UpnpRegistry
begin

section \<open>From a host's announcements to a control point's objects\<close>

text \<open>
  The host's side and the control point's side of \<open>UpnpRegistry.c\<close> joined by the datagrams that
  \<open>Ssdp.c\<close> sends and receives: what a host with one socket sends for a device, delivered to a
  control point that is looking for devices.
\<close>

subsection \<open>Names that can be announced\<close>

text \<open>An identifier \<open>uuid:s\<close>, and the notification types \<open>upnp:rootdevice\<close> and \<open>urn:\<dots>\<close>.\<close>

definition id_ok :: "string \<Rightarrow> bool" where
  "id_ok s \<longleftrightarrow> CHR '':'' \<notin> set s \<and> s \<noteq> [] \<and> length s < UPNP_UUID_LEN \<and> cstring s \<and> CR \<notin> set s"

definition type_ok :: "string \<Rightarrow> bool" where
  "type_ok t \<longleftrightarrow> (t = NT_ROOTDEVICE \<or> (\<exists>d k n v. name_part d \<and> k \<in> {DEVICE, SERVICE} \<and> name_part n \<and> name_part v \<and> t = urn_text d k n v))
     \<and> strstr t ''::'' = None \<and> cstring t \<and> CR \<notin> set t \<and> length t < 50"

definition id_of :: "string \<Rightarrow> string" where
  "id_of s = ''uuid:'' @ s"

definition name_of :: "string \<Rightarrow> string \<Rightarrow> string" where
  "name_of s t = ''uuid:'' @ s @ ''::'' @ t"

text \<open>The notification types and unique service names of a device's announcements, in the order they are sent.\<close>

definition announced :: "string \<Rightarrow> string \<Rightarrow> string list \<Rightarrow> (string \<times> string) list" where
  "announced s ty sts = (NT_ROOTDEVICE, name_of s NT_ROOTDEVICE) # (id_of s, id_of s) # map (\<lambda>t. (t, name_of s t)) (ty # sts)"

lemma parse_type: "type_ok t \<Longrightarrow> \<exists>r. UpnpUri_Parse u (Some t) strict = Some (TINY_RET_OK, r)"
  by (auto simp: type_ok_def parse_urn_text) (simp add: UpnpUri_Parse_def parse_uri_body_def STR_EQUAL_def ROOT_DEVICE_def NT_ROOTDEVICE_def)

definition announce_ok :: "string \<times> string \<Rightarrow> bool" where
  "announce_ok p \<longleftrightarrow> value_ok 127 (fst p) \<and> value_ok 127 (snd p)
     \<and> (\<forall>v. strictedUuid v = False \<and> usn_filter v = None \<longrightarrow>
          UpnpValidator_ValidateNT v (fst p) = Some True \<and> UpnpValidator_ValidateUSN v (snd p) = Some True)
     \<and> (\<forall>x. \<exists>y. UpnpObject_SetNt x (Some (fst p)) False = Some (TINY_RET_OK, y))"

lemma name_announce_ok:
  assumes "id_ok s" and "type_ok t"
  shows "announce_ok (t, name_of s t)"
proof -
  have t: "length t < GROUP_LEN" "strstr t ''::'' = None" using assms(2) by (simp_all add: type_ok_def GROUP_LEN_def)
  have s: "CHR '':'' \<notin> set s" "s \<noteq> []" "length s < UPNP_UUID_LEN" using assms(1) by (simp_all add: id_ok_def)
  have u: "\<exists>n'. UpnpUsn_Parse n (Some (name_of s t)) False = Some (TINY_RET_OK, n')" for n
    unfolding name_of_def using parse_type [OF assms(2)] parse_usn_lax [OF s t(2,1)] by blast
  have "value_ok 127 t" "value_ok 127 (name_of s t)"
    using assms by (auto simp: value_ok_def type_ok_def id_ok_def name_of_def cstring_def UPNP_UUID_LEN_def)
  moreover have "UpnpValidator_ValidateNT v t = Some True" if "strictedUuid v = False" for v
    using parse_type [OF assms(2), of "snd UpnpUri_Construct" False] that by (auto simp: UpnpValidator_ValidateNT_def)
  moreover have "UpnpValidator_ValidateUSN v (name_of s t) = Some True" if "strictedUuid v = False" "usn_filter v = None" for v
    using u [of "snd UpnpUsn_Construct"] that by (auto simp: UpnpValidator_ValidateUSN_def)
  moreover have "\<exists>y. UpnpObject_SetNt x (Some t) False = Some (TINY_RET_OK, y)" for x
    using parse_type [OF assms(2), of "ob_nt x" False] by (auto simp: UpnpObject_SetNt_def)
  ultimately show ?thesis by (simp add: announce_ok_def)
qed

lemma id_announce_ok:
  assumes "id_ok s"
  shows "announce_ok (id_of s, id_of s)"
proof -
  have s: "CHR '':'' \<notin> set s" "s \<noteq> []" "length s < UPNP_UUID_LEN" using assms by (simp_all add: id_ok_def)
  have "value_ok 127 (id_of s)"
    using assms by (auto simp: value_ok_def id_ok_def id_of_def cstring_def UPNP_UUID_LEN_def)
  then show ?thesis
    by (simp add: announce_ok_def id_of_def UpnpValidator_ValidateNT_def UpnpValidator_ValidateUSN_def UpnpObject_SetNt_def
        parse_uuid_text [OF s(1,3), unfolded append_Cons append_Nil] parse_usn_lax_uuid [OF s, unfolded append_Cons append_Nil])
qed

lemma announced_ok:
  assumes "id_ok s" and "type_ok ty" and "list_all type_ok sts"
  shows "list_all announce_ok (announced s ty sts)"
proof -
  have "type_ok NT_ROOTDEVICE" by (simp add: type_ok_def NT_ROOTDEVICE_def cstring_def)
  then show ?thesis
    using assms by (auto simp: announced_def name_announce_ok id_announce_ok list_all_iff)
qed

subsection \<open>Sending an announcement and receiving it\<close>

text \<open>The location that goes out through a socket.\<close>

definition location_of :: "string \<Rightarrow> 16 word \<Rightarrow> string \<Rightarrow> string" where
  "location_of sip prt uri = ''http://'' @ sip @ '':'' @ show_nat (unat prt) @ uri"

definition alive_of :: "string \<times> string \<Rightarrow> string \<Rightarrow> ssdp_alive" where
  "alive_of p loc = \<lparr>al_host = DEFAULT_HOST, al_nt = fst p, al_nts = NTS_ALIVE, al_usn = snd p,
     al_cache_control = SSDP_MAX_AGE, al_location = loc, al_server = SSDP_SERVER, al_ex_uri = [], al_ex_port = 0\<rparr>"

definition alive_bytes :: "string \<times> string \<Rightarrow> string \<Rightarrow> string" where
  "alive_bytes p loc = star_text METHOD_NOTIFY (alive_pairs (alive_of p loc))"

lemma alive_of_ok: "announce_ok p \<Longrightarrow> value_ok 240 loc \<Longrightarrow> alive_ok (alive_of p loc)"
  by (auto simp: announce_ok_def alive_ok_def alive_of_def value_ok_def ssdp_lens DEFAULT_HOST_def SSDP_MAX_AGE_def SSDP_SERVER_def cstring_def)


lemma send_announcement:
  assumes "announce_ok p" and "value_ok 240 (location_of sip prt uri)"
    and "ssdp_running h" and "mc_sockets (multicast h) = [(sip, fd)]" and "length sip < TINY_IP_LEN" and "length uri < TINY_URI_LEN"
  shows "Ssdp_SendMessage h (alive_message (fst p) (snd p) uri prt) = Some (TINY_RET_OK,
    [\<lparr>dg_fd = fd, dg_ip = UPNP_GROUP, dg_port = UPNP_PORT, dg_bytes = alive_bytes p (location_of sip prt uri)\<rparr>])"
proof -
  define a where "a = (alive_of p (location_of sip prt uri))\<lparr>al_ex_uri := uri, al_ex_port := prt\<rparr>"
  have a: "alive_ok a" using alive_of_ok [OF assms(1,2)] by (simp add: a_def alive_ok_def)
  have m: "alive_message (fst p) (snd p) uri prt = zero_message\<lparr>ssdp_body := SSDP_ALIVE (a\<lparr>al_location := []\<rparr>)\<rparr>"
    using assms(1,6)
    by (simp add: alive_message_def a_def alive_of_def zero_alive_def announce_ok_def value_ok_def field_cpy_def ssdp_lens DEFAULT_HOST_def
        SSDP_MAX_AGE_def SSDP_SERVER_def NTS_ALIVE_def)
  have loc: "alive_location sip (a\<lparr>al_location := []\<rparr>) = Some a"
    using assms(2,5,6)
    by (auto simp add: alive_location_def a_def alive_of_def read_field_def field_printf_def field_cpy_def value_ok_def location_of_def
        TINY_URL_LEN_def HEAD_LOCATION_LEN_def)
  have b: "alive_pairs a = alive_pairs (alive_of p (location_of sip prt uri))" by (simp add: a_def alive_pairs_def)
  have n: "0 < length (alive_bytes p (location_of sip prt uri))" by (simp add: alive_bytes_def star_text_def http_text_def)
  show ?thesis
    using n assms(3,4) by (simp add: Ssdp_SendMessage_def m loc print_alive [OF a] b alive_bytes_def Ssdp_Send_def)
qed

text \<open>A datagram on the control point's thread: the message is read and given to the registry.\<close>

definition OnDatagram ::
    "64 word \<Rightarrow> 'f ustore \<Rightarrow> provider \<Rightarrow> string option \<Rightarrow> string \<Rightarrow> 16 word \<Rightarrow> string \<Rightarrow> registry \<Rightarrow> registry option" where
  "OnDatagram usec u p l sender prt bytes r = do {
     got \<leftarrow> Ssdp_ProcessMessage [] (reg_ssdp r) l bytes sender prt;
     (case got of
        None \<Rightarrow> Some r
      | Some m \<Rightarrow> map_option fst (UpnpRegistry_MessageHandler True [] usec u p r m)) }"

text \<open>A control point that is looking for all devices.\<close>

definition looking :: "registry \<Rightarrow> bool" where
  "looking r \<longleftrightarrow> reg_listener r \<and> has_handler (reg_ssdp r) \<and> strictedUuid (reg_validator r) = False \<and> usn_filter (reg_validator r) = None"

lemma receive_announcement:
  assumes "announce_ok p" and "value_ok 240 loc" and "has_handler (reg_ssdp r)"
  shows "OnDatagram usec u pr l sender prt (alive_bytes p loc) r =
    UpnpRegistry_OnAlive True [] usec r (alive_of p loc) (field_cpy TINY_IP_LEN sender)"
proof -
  have "alive_ok (alive_of p loc)" by (rule alive_of_ok [OF assms(1,2)])
  note c = construct_alive [OF this]
  have f: "length (field_cpy TINY_IP_LEN x) < Suc TINY_IP_LEN" for x
    by (rule le_imp_less_Suc) simp
  have e: "(alive_of p loc)\<lparr>al_ex_uri := [], al_ex_port := 0\<rparr> = alive_of p loc" by (simp add: alive_of_def)
  show ?thesis
    using assms(3) by (cases l) (simp_all add: OnDatagram_def Ssdp_ProcessMessage_def alive_bytes_def c f e UpnpRegistry_MessageHandler_def
      read_field_def option.map_comp comp_def option.map_ident)
qed


lemma max_age_read: "UpnpObject_SetCacheControl x SSDP_MAX_AGE = Some (x\<lparr>ob_max_age := 1800\<rparr>)"
proof -
  have "snd (str_get_value SSDP_MAX_AGE (length SSDP_MAX_AGE) ''max-age='' None 32) = Some ''1800''" by code_simp
  moreover have "atoi ''1800'' = 1800" by code_simp
  ultimately show ?thesis by (simp add: UpnpObject_SetCacheControl_def read_field_def c_str_def)
qed

lemma object_made:
  assumes "announce_ok p" and "value_ok 240 loc" and "strictedUuid v = False" and "usn_filter v = None"
  shows "\<exists>x. UpnpObjectFactory_CreateByAlive True usec (alive_of p loc) sender v = Some (Some x) \<and> ob_usn x = snd p \<and> ob_location x = loc"
proof -
  have l: "length (fst p) \<le> 127" "length (snd p) \<le> 127" "length loc \<le> 240" using assms by (simp_all add: announce_ok_def value_ok_def)
  have v: "UpnpValidator_ValidateNT v (fst p) = Some True" using assms by (simp add: announce_ok_def)
  obtain x where x: "UpnpObject_New True = Some x" by (simp add: UpnpObject_New_def UpnpObject_Construct_def UpnpUri_Construct_def TinyUuid_Construct_def)
  obtain y where y: "UpnpObject_SetNt x (Some (fst p)) False = Some (TINY_RET_OK, y)" using assms(1) by (auto simp: announce_ok_def)
  have ml: "length SSDP_MAX_AGE < 129" by (simp add: SSDP_MAX_AGE_def)
  show ?thesis
    using l v assms(3)
    by (simp add: UpnpObjectFactory_CreateByAlive_def alive_of_def read_field_def ssdp_lens x y fill_object_def max_age_read
        ml SSDP_SERVER_def
        UpnpObject_SetUsn_def UpnpObject_SetIp_def UpnpObject_SetLocation_def UpnpObject_SetStackInfo_def
        UpnpObject_UpdateNextNotify_def field_cpy_short UPNP_USN_LEN_def TINY_URL_LEN_def)
qed

lemma alive_of_usn: "al_usn (alive_of p loc) = snd p"
  by (simp add: alive_of_def)

lemma handle_announcement:
  assumes "looking r" and "announce_ok p" and "value_ok 240 loc"
  shows "OnDatagram usec u pr l sender prt (alive_bytes p loc) r =
    (case TinyMap_GetValue (found_objects r) (Some (snd p)) of
       Some a \<Rightarrow> refresh usec a r
     | None \<Rightarrow> do {
         made \<leftarrow> UpnpObjectFactory_CreateByAlive True usec (alive_of p loc) (field_cpy TINY_IP_LEN sender) (reg_validator r);
         (case made of
            None \<Rightarrow> Some r
          | Some x \<Rightarrow> (case store_object x r of (a, r1) \<Rightarrow> do {
              r2 \<leftarrow> UpnpObjectList_AddObject [] r1 a;
              tell a True r2 })) })"
proof -
  have "read_field (HEAD_USN_LEN + 1) (snd p) = Some (snd p)" using assms(2) by (simp add: announce_ok_def value_ok_def read_field_def HEAD_USN_LEN_def)
  moreover have "UpnpValidator_ValidateUSN (reg_validator r) (snd p) = Some True" using assms(1,2) by (simp add: looking_def announce_ok_def)
  ultimately show ?thesis
    using assms(1)
    by (simp add: receive_announcement [OF assms(2,3)] looking_def UpnpRegistry_OnAlive_def alive_of_usn UpnpObjectList_GetObject_def)
qed

text \<open>A name that is not known becomes an object; for one that is known only the time of its next announcement changes.\<close>

lemma announcement_known:
  assumes "looking r" and "registry_inv r" and "announce_ok p" and "value_ok 240 loc" and "object_of r (snd p) = Some x"
  shows "\<exists>r' y. OnDatagram usec u pr l sender prt (alive_bytes p loc) r = Some r' \<and> looking r' \<and> registry_inv r' \<and> told r' = told r
    \<and> ob_location y = ob_location x
    \<and> (\<forall>k. length k < UPNP_USN_LEN \<longrightarrow> object_of r' k = (if k = snd p then Some y else object_of r k))"
proof -
  obtain a where a: "TinyMap_GetValue (found_objects r) (Some (snd p)) = Some a" "object_at r a = Some x"
    using assms(5) by (auto simp: object_of_def bind_eq_Some_conv)
  have u: "length (snd p) < UPNP_USN_LEN" using assms(3) by (simp add: announce_ok_def value_ok_def UPNP_USN_LEN_def)
  let ?y = "UpnpObject_UpdateNextNotify usec x"
  let ?r = "r\<lparr>object_at := (object_at r)(a \<mapsto> ?y)\<rparr>"
  have r: "refresh usec a r = Some ?r" using a by (simp add: refresh_def)
  then have inv: "registry_inv ?r" using inv_refresh [OF assms(2) a(1), of usec] by simp
  have other: "TinyMap_GetValue (found_objects r) (Some k) \<noteq> Some a" if "length k < UPNP_USN_LEN" "k \<noteq> snd p" for k
    using held [OF assms(2) _ that(1), of a] held [OF assms(2) a(1) u] that(2) by auto
  have "\<forall>k. length k < UPNP_USN_LEN \<longrightarrow> object_of ?r k = (if k = snd p then Some ?y else object_of r k)"
  proof (intro allI impI)
    fix k :: string
    assume "length k < UPNP_USN_LEN"
    with other [of k] a(1) show "object_of ?r k = (if k = snd p then Some ?y else object_of r k)"
      by (cases "TinyMap_GetValue (found_objects r) (Some k)") (auto simp: object_of_def)
  qed
  moreover have "OnDatagram usec u pr l sender prt (alive_bytes p loc) r = Some ?r"
    by (simp add: handle_announcement [OF assms(1,3,4)] a(1) r)
  ultimately show ?thesis
    using inv assms(1) by (intro exI [of _ ?r] exI [of _ ?y]) (simp add: looking_def UpnpObject_UpdateNextNotify_def)
qed

lemma announcement_new:
  assumes "looking r" and "registry_inv r" and "announce_ok p" and "value_ok 240 loc" and "object_of r (snd p) = None"
  shows "\<exists>r' x. OnDatagram usec u pr l sender prt (alive_bytes p loc) r = Some r' \<and> looking r' \<and> registry_inv r' \<and> told r' = told r @ [(x, True)]
    \<and> ob_usn x = snd p \<and> ob_location x = loc
    \<and> (\<forall>k. length k < UPNP_USN_LEN \<longrightarrow> object_of r' k = (if k = snd p then Some x else object_of r k))"
proof -
  have u: "length (snd p) < UPNP_USN_LEN" "cstring (snd p)" using assms(3) by (simp_all add: announce_ok_def value_ok_def UPNP_USN_LEN_def)
  have g: "TinyMap_GetValue (found_objects r) (Some (snd p)) = None"
    using held [OF assms(2) _ u(1)] assms(5) by (cases "TinyMap_GetValue (found_objects r) (Some (snd p))") (auto simp: object_of_def)
  have v: "strictedUuid (reg_validator r) = False" "usn_filter (reg_validator r) = None" using assms(1) by (simp_all add: looking_def)
  obtain x where x: "UpnpObjectFactory_CreateByAlive True usec (alive_of p loc) (field_cpy TINY_IP_LEN sender) (reg_validator r) = Some (Some x)"
      "ob_usn x = snd p" "ob_location x = loc"
    using object_made [OF assms(3,4) v] by blast
  obtain m r2 r3 where r: "UpnpObjectList_AddObject [] (snd (store_object x r)) (object_brk r) = Some r2"
      "tell (object_brk r) True r2 = Some r3" "registry_inv r3"
    "r3 = r\<lparr>found_objects := m, object_at := (object_at r)(object_brk r \<mapsto> x), object_brk := object_brk r + 1,
        told := told r @ [(x, True)]\<rparr>"
    "\<forall>k. TinyMap_GetValue m (Some k) = (if field_cpy MAX_KEY_LEN k = snd p then Some (object_brk r)
        else TinyMap_GetValue (found_objects r) (Some k))"
    using inv_found [OF assms(2) g x(2) u] by blast
  have lt: "TinyMap_GetValue (found_objects r) (Some k) = Some a \<Longrightarrow> a \<noteq> object_brk r" for k a
    using assms(2) by (fastforce simp: registry_inv_def objects_ok_def)
  have "\<forall>k. length k < UPNP_USN_LEN \<longrightarrow> object_of r3 k = (if k = snd p then Some x else object_of r k)"
    using r(5) lt by (auto simp: object_of_def r(4) short_key split: bind_splits)
  moreover have "OnDatagram usec u pr l sender prt (alive_bytes p loc) r = Some r3"
    using r(1,2) by (simp add: handle_announcement [OF assms(1,3,4)] g x(1) store_object_def)
  ultimately show ?thesis
    using r(3,4) x(2,3) assms(1) by (intro exI [of _ r3] exI [of _ x]) (simp add: looking_def)
qed


subsection \<open>All announcements of a device\<close>

fun receive_all ::
    "64 word \<Rightarrow> 'f ustore \<Rightarrow> provider \<Rightarrow> string option \<Rightarrow> string \<Rightarrow> 16 word \<Rightarrow> string list \<Rightarrow> registry \<Rightarrow> registry option" where
  "receive_all usec u p l sender prt [] r = Some r"
| "receive_all usec u p l sender prt (b # bs) r =
     Option.bind (OnDatagram usec u p l sender prt b r) (receive_all usec u p l sender prt bs)"

lemma receive_announcements:
  assumes "looking r" and "registry_inv r" and "list_all announce_ok ps" and "value_ok 240 loc"
    and "\<forall>p\<in>set ps. \<forall>x. object_of r (snd p) = Some x \<longrightarrow> ob_location x = loc"
  shows "\<exists>r' xs. receive_all usec u pr l sender prt (map (\<lambda>p. alive_bytes p loc) ps) r = Some r'
    \<and> told r' = told r @ map (\<lambda>x. (x, True)) xs \<and> distinct (map ob_usn xs)
    \<and> set (map ob_usn xs) = {k \<in> snd ` set ps. object_of r k = None}
    \<and> (\<forall>p\<in>set ps. \<exists>x. object_of r' (snd p) = Some x \<and> ob_location x = loc)
    \<and> (\<forall>k. length k < UPNP_USN_LEN \<longrightarrow> (\<forall>x. object_of r k = Some x \<and> ob_location x = loc \<longrightarrow>
         (\<exists>y. object_of r' k = Some y \<and> ob_location y = loc)))"
  using assms
proof (induction ps arbitrary: r)
  case Nil
  then show ?case by (intro exI [of _ r] exI [of _ "[]"]) simp
next
  case (Cons p ps)
  have p: "announce_ok p" "list_all announce_ok ps" using Cons.prems(3) by simp_all
  have short: "length (snd q) < UPNP_USN_LEN" if "q \<in> set (p # ps)" for q
    using Cons.prems(3) that by (auto simp: list_all_iff announce_ok_def value_ok_def UPNP_USN_LEN_def)
  obtain r1 y ys where r1: "OnDatagram usec u pr l sender prt (alive_bytes p loc) r = Some r1" "looking r1" "registry_inv r1"
      "told r1 = told r @ map (\<lambda>x. (x, True)) ys" "ob_location y = loc"
      "\<forall>k. length k < UPNP_USN_LEN \<longrightarrow> object_of r1 k = (if k = snd p then Some y else object_of r k)"
      "map ob_usn ys = (if object_of r (snd p) = None then [snd p] else [])"
  proof (cases "object_of r (snd p)")
    case None
    from announcement_new [OF Cons.prems(1,2) p(1) Cons.prems(4) this, of usec u pr l sender prt]
    obtain r1 x where "OnDatagram usec u pr l sender prt (alive_bytes p loc) r = Some r1" "looking r1" "registry_inv r1"
      "told r1 = told r @ [(x, True)]" "ob_usn x = snd p" "ob_location x = loc"
      "\<forall>k. length k < UPNP_USN_LEN \<longrightarrow> object_of r1 k = (if k = snd p then Some x else object_of r k)"
      by (elim exE conjE) (rule that)
    then show thesis using None by (intro that [of r1 "[x]" x]) simp_all
  next
    case (Some x)
    from announcement_known [OF Cons.prems(1,2) p(1) Cons.prems(4) this, of usec u pr l sender prt]
    obtain r1 y where "OnDatagram usec u pr l sender prt (alive_bytes p loc) r = Some r1" "looking r1" "registry_inv r1"
      "told r1 = told r" "ob_location y = ob_location x"
      "\<forall>k. length k < UPNP_USN_LEN \<longrightarrow> object_of r1 k = (if k = snd p then Some y else object_of r k)"
      by (elim exE conjE) (rule that)
    then show thesis using Some Cons.prems(5) by (intro that [of r1 "[]" y]) simp_all
  qed
  have "\<forall>q\<in>set ps. \<forall>x. object_of r1 (snd q) = Some x \<longrightarrow> ob_location x = loc"
    using Cons.prems(5) r1(5,6) short by auto
  from Cons.IH [OF r1(2,3) p(2) Cons.prems(4) this]
  obtain r' xs where r': "receive_all usec u pr l sender prt (map (\<lambda>p. alive_bytes p loc) ps) r1 = Some r'"
      "told r' = told r1 @ map (\<lambda>x. (x, True)) xs" "distinct (map ob_usn xs)"
      "set (map ob_usn xs) = {k \<in> snd ` set ps. object_of r1 k = None}"
      "\<forall>p\<in>set ps. \<exists>x. object_of r' (snd p) = Some x \<and> ob_location x = loc"
      "\<forall>k. length k < UPNP_USN_LEN \<longrightarrow> (\<forall>x. object_of r1 k = Some x \<and> ob_location x = loc \<longrightarrow>
         (\<exists>y. object_of r' k = Some y \<and> ob_location y = loc))"
    by (elim exE conjE) (rule that)
  have look: "object_of r1 (snd q) = (if snd q = snd p then Some y else object_of r (snd q))" if "q \<in> set ps" for q
    using r1(6) short [of q] that by simp
  have "{k \<in> snd ` set ps. object_of r1 k = None} = {k \<in> snd ` set ps. object_of r k = None} - {snd p}"
    using look by (auto split: if_splits)
  then have new: "set (map ob_usn xs) = {k \<in> snd ` set ps. object_of r k = None} - {snd p}" using r'(4) by simp
  then have "snd p \<notin> set (map ob_usn xs)" by simp
  moreover have "set (map ob_usn (ys @ xs)) = {k \<in> snd ` set (p # ps). object_of r k = None}"
    unfolding map_append set_append new r1(7) by auto
  moreover have "\<exists>x. object_of r' (snd p) = Some x \<and> ob_location x = loc"
    using r'(6) r1(5,6) short [of p] by auto
  ultimately show ?case
    using r1 r' by (intro exI [of _ r'] exI [of _ "ys @ xs"]) (auto split: if_splits)
qed

text \<open>What a device is announced with: its identifier, URI and type, and the types of its services.\<close>

definition describes :: "'f ustore \<Rightarrow> upnp_device \<Rightarrow> string \<Rightarrow> string \<Rightarrow> string \<Rightarrow> string list \<Rightarrow> bool" where
  "describes u d s uri ty sts \<longleftrightarrow> UpnpDevice_GetDeviceId d = Some (id_of s) \<and> UpnpDevice_GetURI d = Some uri
     \<and> UpnpDevice_GetDeviceType d = Some ty \<and> unat (UpnpDevice_GetServiceCount d) = length sts
     \<and> (\<forall>i<length sts. \<exists>a x. UpnpDevice_GetServiceAt d (word_of_nat i) = Some a \<and> srv_at u a = Some x
          \<and> parent_id u x = Some (id_of s) \<and> UpnpService_GetServiceType x = Some (sts ! i))"

lemma for_services_all:
  assumes "\<forall>i<length sts. \<exists>a x. UpnpDevice_GetServiceAt d (word_of_nat i) = Some a \<and> srv_at u a = Some x
      \<and> f x = g (sts ! i)" and "k + n = length sts"
  shows "for_services u d f (word_of_nat k) n = map g (drop k sts)"
  using assms(2)
proof (induction n arbitrary: k)
  case (Suc n)
  then have k: "k < length sts" by simp
  have "for_services u d f (word_of_nat k + 1) n = map g (drop (Suc k) sts)"
    using Suc.IH [of "Suc k"] Suc.prems by (simp add: add.commute)
  moreover obtain a x where "UpnpDevice_GetServiceAt d (word_of_nat k) = Some a" "srv_at u a = Some x" "f x = g (sts ! k)"
    using assms(1) k by blast
  ultimately show ?case using k by (simp add: Cons_nth_drop_Suc [symmetric])
qed simp

definition announce :: "string \<Rightarrow> 16 word \<Rightarrow> string \<times> string \<Rightarrow> (tiny_ret \<times> ssdp_message) option" where
  "announce uri prt p = Some (TINY_RET_OK, alive_message (fst p) (snd p) uri prt)"

lemma send_series_all:
  assumes "list_all announce_ok ps" and "value_ok 240 (location_of sip prt uri)"
    and "ssdp_running h" and "mc_sockets (multicast h) = [(sip, fd)]" and "length sip < TINY_IP_LEN" and "length uri < TINY_URI_LEN"
  shows "\<exists>ds. send_series h (map (announce uri prt) ps) = Some ds \<and> map dg_bytes ds = map (\<lambda>p. alive_bytes p (location_of sip prt uri)) ps"
  using assms(1)
proof (induction ps)
  case (Cons p ps)
  then show ?case using send_announcement [OF _ assms(2-6), of p] by (auto simp: announce_def)
qed simp

lemma usn_of_name: "id_ok s \<Longrightarrow> type_ok t \<Longrightarrow> usn_of (id_of s) t = name_of s t"
  by (auto simp add: usn_of_def id_of_def name_of_def field_printf_def id_ok_def type_ok_def HEAD_USN_LEN_def UPNP_UUID_LEN_def)

lemma device_announces:
  assumes "describes u d s uri ty sts" and "id_ok s" and "type_ok ty" and "list_all type_ok sts"
    and "value_ok 240 (location_of sip (UpnpDevice_GetHttpPort d) uri)"
    and "ssdp_running h" and "mc_sockets (multicast h) = [(sip, fd)]" and "length sip < TINY_IP_LEN"
  shows "\<exists>ds. OnDeviceAdded_registry u h d = Some ds
    \<and> map dg_bytes ds = map (\<lambda>p. alive_bytes p (location_of sip (UpnpDevice_GetHttpPort d) uri)) (announced s ty sts)"
proof -
  let ?p = "UpnpDevice_GetHttpPort d"
  have uri: "UpnpDevice_GetURI d = Some uri" "length uri < TINY_URI_LEN"
    using assms(1,5) by (simp_all add: describes_def value_ok_def location_of_def TINY_URI_LEN_def)
  have root: "type_ok NT_ROOTDEVICE" by (simp add: type_ok_def NT_ROOTDEVICE_def cstring_def)
  have "usn_of (id_of s) ''upnp:rootdevice'' = name_of s NT_ROOTDEVICE" using usn_of_name [OF assms(2) root] by (simp add: NT_ROOTDEVICE_def)
  then have heads: "[SsdpMessage_ConstructAlive_ROOTDEVICE d uri ?p, SsdpMessage_ConstructAlive_DEVICE_UUID d uri ?p,
      SsdpMessage_ConstructAlive_DEVICE d uri ?p] = map (announce uri ?p) (announced s ty [])"
    using assms(1) usn_of_name [OF assms(2,3)]
    by (simp add: describes_def SsdpMessage_ConstructAlive_ROOTDEVICE_def SsdpMessage_ConstructAlive_DEVICE_UUID_def
        SsdpMessage_ConstructAlive_DEVICE_def announced_def announce_def)
  have "\<forall>i<length sts. \<exists>a x. UpnpDevice_GetServiceAt d (word_of_nat i) = Some a \<and> srv_at u a = Some x
      \<and> SsdpMessage_ConstructAlive_SERVICE u x uri ?p = announce uri ?p (sts ! i, name_of s (sts ! i))"
    using assms(1,4) usn_of_name [OF assms(2)]
    by (fastforce simp: describes_def SsdpMessage_ConstructAlive_SERVICE_def announce_def list_all_length)
  then have "for_services u d (\<lambda>x. SsdpMessage_ConstructAlive_SERVICE u x uri ?p) 0 (length sts) =
      map (\<lambda>t. announce uri ?p (t, name_of s t)) sts"
    using for_services_all [of sts d u "\<lambda>x. SsdpMessage_ConstructAlive_SERVICE u x uri ?p" "\<lambda>t. announce uri ?p (t, name_of s t)" 0 "length sts"]
    by simp
  then have "OnDeviceAdded_registry u h d = send_series h (map (announce uri ?p) (announced s ty sts))"
    using assms(1) uri heads
    by (simp add: OnDeviceAdded_registry_def describes_def announced_def comp_def Let_def del: send_series.simps)
  then show ?thesis
    using send_series_all [OF announced_ok [OF assms(2-4)] assms(5-8) uri(2)] by simp
qed


text \<open>A control point from its construction to its search for all devices.\<close>

lemma started_looking:
  assumes "UpnpRegistry_Construct TINY_RET_OK TINY_RET_OK TINY_RET_OK = (ret, r0)"
    and "UpnpRegistry_Discover r0 False True None = Some (ret', r, ds)"
  shows "looking r" and "registry_inv r" and "told r = []" and "object_of r k = None"
proof -
  have r: "r = r0\<lparr>reg_validator := \<lparr>strictedUuid = False, usn_filter = None\<rparr>, reg_listener := True\<rparr>"
    using assms(2) by (auto simp: UpnpRegistry_Discover_def search_request send_search split: prod.splits)
  have h: "has_handler (reg_ssdp r0)"
    using assms(1)
    by (auto simp: UpnpRegistry_Construct_def Let_def Ssdp_Construct_def Ssdp_SetMessageHandler_def UpnpObjectList_Construct_def
        TinyMap_Construct_def)
  show "looking r" using h by (simp add: looking_def r)
  show "registry_inv r" using registry_inv_same [OF fresh_registry(1) [OF assms(1)]] by (simp add: r)
  show "told r = []" "object_of r k = None" using fresh_registry(3,4) [OF assms(1)] by (simp_all add: r object_of_def)
qed

subsection \<open>Leaving, and answering searches\<close>

definition bye_of :: "string \<times> string \<Rightarrow> ssdp_byebye" where
  "bye_of p = \<lparr>bb_host = DEFAULT_HOST, bb_nt = fst p, bb_nts = NTS_BYEBYE, bb_usn = snd p\<rparr>"

definition bye_bytes :: "string \<times> string \<Rightarrow> string" where
  "bye_bytes p = star_text METHOD_NOTIFY (byebye_pairs (bye_of p))"

lemma bye_of_ok: "announce_ok p \<Longrightarrow> byebye_ok (bye_of p)"
  by (auto simp: announce_ok_def byebye_ok_def bye_of_def value_ok_def ssdp_lens DEFAULT_HOST_def cstring_def)

lemma send_each_all:
  "ssdp_running h \<Longrightarrow> snd (send_each h str (length str) ss ret) =
     map (\<lambda>x. \<lparr>dg_fd = snd x, dg_ip = UPNP_GROUP, dg_port = UPNP_PORT, dg_bytes = str\<rparr>) ss"
proof (induction ss arbitrary: ret)
  case (Cons x ss)
  then show ?case using Cons.IH [of TINY_RET_OK] by (cases x) (simp add: Ssdp_Send_def case_prod_unfold)
qed simp

lemma send_byebye:
  assumes "announce_ok p" and "ssdp_running h"
  shows "\<exists>ret. Ssdp_SendMessage h (byebye_message (fst p) (snd p)) = Some (ret,
    map (\<lambda>x. \<lparr>dg_fd = snd x, dg_ip = UPNP_GROUP, dg_port = UPNP_PORT, dg_bytes = bye_bytes p\<rparr>) (mc_sockets (multicast h)))"
proof -
  have m: "byebye_message (fst p) (snd p) = zero_message\<lparr>ssdp_body := SSDP_BYEBYE (bye_of p)\<rparr>"
    using assms(1)
    by (simp add: byebye_message_def bye_of_def announce_ok_def value_ok_def field_cpy_def ssdp_lens DEFAULT_HOST_def NTS_BYEBYE_def)
  have n: "0 < length (bye_bytes p)" by (simp add: bye_bytes_def star_text_def http_text_def)
  show ?thesis
    using n send_each_all [OF assms(2), of "bye_bytes p" "mc_sockets (multicast h)" TINY_RET_OK]
    by (cases "send_each h (bye_bytes p) (length (bye_bytes p)) (mc_sockets (multicast h)) TINY_RET_OK")
      (simp add: Ssdp_SendMessage_def m print_byebye [OF bye_of_ok [OF assms(1)]] bye_bytes_def [symmetric])
qed

lemma receive_byebye:
  assumes "announce_ok p"
  shows "OnDatagram usec u pr l sender prt (bye_bytes p) r = Some r"
proof -
  obtain msg where "SsdpMessage_Construct [] l sender prt (bye_bytes p) (word_of_nat (length (bye_bytes p))) = Some (TINY_RET_E_HTTP_MSG_INVALID, msg)"
    using construct_byebye [OF bye_of_ok [OF assms], of l sender prt] by (auto simp: bye_bytes_def)
  moreover have "RET_FAILED TINY_RET_E_HTTP_MSG_INVALID" by (simp add: RET_FAILED_def ret_defs)
  ultimately show ?thesis by (simp add: OnDatagram_def Ssdp_ProcessMessage_def)
qed

lemma receive_byebyes:
  "list_all announce_ok ps \<Longrightarrow> list_all (\<lambda>b. b \<in> bye_bytes ` set ps) bs \<Longrightarrow> receive_all usec u pr l sender prt bs r = Some r"
  by (induction bs) (auto simp: receive_byebye list_all_iff)

definition leave :: "string \<times> string \<Rightarrow> (tiny_ret \<times> ssdp_message) option" where
  "leave p = Some (TINY_RET_OK, byebye_message (fst p) (snd p))"

lemma send_byebyes:
  assumes "list_all announce_ok ps" and "ssdp_running h"
  shows "\<exists>ds. send_series h (map leave ps) = Some ds \<and> length ds = length ps * length (mc_sockets (multicast h))
    \<and> list_all (\<lambda>b. b \<in> bye_bytes ` set ps) (map dg_bytes ds)"
  using assms(1)
proof (induction ps)
  case (Cons p ps)
  then obtain ds where ds: "send_series h (map leave ps) = Some ds" "length ds = length ps * length (mc_sockets (multicast h))"
      "list_all (\<lambda>b. b \<in> bye_bytes ` set ps) (map dg_bytes ds)" by auto
  have p: "announce_ok p" using Cons.prems by simp
  obtain ret where "Ssdp_SendMessage h (byebye_message (fst p) (snd p)) = Some (ret,
      map (\<lambda>x. \<lparr>dg_fd = snd x, dg_ip = UPNP_GROUP, dg_port = UPNP_PORT, dg_bytes = bye_bytes p\<rparr>) (mc_sockets (multicast h)))"
    using send_byebye [OF p assms(2)] by blast
  then have "send_series h (map leave (p # ps)) =
      Some (map (\<lambda>x. \<lparr>dg_fd = snd x, dg_ip = UPNP_GROUP, dg_port = UPNP_PORT, dg_bytes = bye_bytes p\<rparr>) (mc_sockets (multicast h)) @ ds)"
    using ds(1) by (simp add: leave_def [of p])
  then show ?case using ds(2,3) by (auto simp: list_all_iff)
qed simp

lemma root_type: "type_ok NT_ROOTDEVICE"
  by (simp add: type_ok_def NT_ROOTDEVICE_def cstring_def)

lemma device_leaves:
  assumes "describes u d s uri ty sts" and "id_ok s" and "type_ok ty" and "list_all type_ok sts" and "ssdp_running h"
  shows "\<exists>ds. OnDeviceRemoved_registry u h d = Some ds \<and> length ds = (3 + length sts) * length (mc_sockets (multicast h))
    \<and> list_all (\<lambda>b. b \<in> bye_bytes ` set (announced s ty sts)) (map dg_bytes ds)"
proof -
  have "\<forall>i<length sts. \<exists>a x. UpnpDevice_GetServiceAt d (word_of_nat i) = Some a \<and> srv_at u a = Some x
      \<and> SsdpMessage_ConstructByebye_SERVICE u x = leave (sts ! i, name_of s (sts ! i))"
    using assms(1,4) usn_of_name [OF assms(2)]
    by (fastforce simp: describes_def SsdpMessage_ConstructByebye_SERVICE_def leave_def list_all_length)
  then have services: "for_services u d (SsdpMessage_ConstructByebye_SERVICE u) 0 (unat (UpnpDevice_GetServiceCount d)) =
      map leave (map (\<lambda>t. (t, name_of s t)) sts)"
    using for_services_all [of sts d u "SsdpMessage_ConstructByebye_SERVICE u" "\<lambda>t. leave (t, name_of s t)" 0 "length sts"] assms(1)
    by (simp add: describes_def)
  have "usn_of (id_of s) ''upnp:rootdevice'' = name_of s NT_ROOTDEVICE" using usn_of_name [OF assms(2) root_type] by (simp add: NT_ROOTDEVICE_def)
  then have heads: "[SsdpMessage_ConstructByebye_DEVICE d, SsdpMessage_ConstructByebye_DEVICE_UUID d, SsdpMessage_ConstructByebye_ROOTDEVICE d] =
      map leave [(ty, name_of s ty), (id_of s, id_of s), (NT_ROOTDEVICE, name_of s NT_ROOTDEVICE)]"
    using assms(1) usn_of_name [OF assms(2,3)]
    by (simp add: describes_def SsdpMessage_ConstructByebye_ROOTDEVICE_def SsdpMessage_ConstructByebye_DEVICE_UUID_def
        SsdpMessage_ConstructByebye_DEVICE_def leave_def)
  have ok: "list_all announce_ok (map (\<lambda>t. (t, name_of s t)) sts)"
      "list_all announce_ok [(ty, name_of s ty), (id_of s, id_of s), (NT_ROOTDEVICE, name_of s NT_ROOTDEVICE)]"
    using announced_ok [OF assms(2-4)] by (simp_all add: announced_def)
  obtain ds1 ds2 where "send_series h (map leave (map (\<lambda>t. (t, name_of s t)) sts)) = Some ds1"
      "length ds1 = length sts * length (mc_sockets (multicast h))"
      "list_all (\<lambda>b. b \<in> bye_bytes ` set (map (\<lambda>t. (t, name_of s t)) sts)) (map dg_bytes ds1)"
    "send_series h (map leave [(ty, name_of s ty), (id_of s, id_of s), (NT_ROOTDEVICE, name_of s NT_ROOTDEVICE)]) = Some ds2"
      "length ds2 = 3 * length (mc_sockets (multicast h))"
      "list_all (\<lambda>b. b \<in> bye_bytes ` set [(ty, name_of s ty), (id_of s, id_of s), (NT_ROOTDEVICE, name_of s NT_ROOTDEVICE)]) (map dg_bytes ds2)"
    using send_byebyes [OF ok(1) assms(5)] send_byebyes [OF ok(2) assms(5)] by (auto simp del: send_series.simps list.map)
  then show ?thesis
    by (intro exI [of _ "ds1 @ ds2"])
      (auto simp: OnDeviceRemoved_registry_def services heads announced_def list_all_iff algebra_simps simp del: send_series.simps list.map)
qed

text \<open>Responses are constructed, but nothing is printed for them.\<close>

lemma response_not_sent: "Ssdp_SendMessage h (response_message st usn uri ex_port localIp rip prt) = Some (TINY_RET_OK, [])"
  by (simp add: Ssdp_SendMessage_def response_message_def SsdpMessage_ToString_def ssdp_http_def HttpMessage_Construct_def HttpMessage_ToString_def)

definition answers :: "(tiny_ret \<times> ssdp_message) option \<Rightarrow> bool" where
  "answers c \<longleftrightarrow> (\<exists>st usn uri ex_port localIp rip prt. c = Some (TINY_RET_OK, response_message st usn uri ex_port localIp rip prt))"

lemma answersI: "answers (Some (TINY_RET_OK, response_message st usn uri ex_port localIp rip prt))"
  unfolding answers_def by blast

lemma send_answers: "list_all answers cs \<Longrightarrow> send_series h cs = Some []"
  by (induction cs) (auto simp: answers_def response_not_sent)

lemma device_visit_silent:
  assumes "describes u d s uri ty sts"
  shows "OnRequestDeviceVisit u h st l sender sport d = Some []"
proof -
  let ?f = "\<lambda>x. SsdpMessage_ConstructResponse_SERVICE u x uri (UpnpDevice_GetHttpPort d) l sender sport"
  let ?g = "\<lambda>t. Some (TINY_RET_OK, response_message t (usn_of (id_of s) t) uri (UpnpDevice_GetHttpPort d) l sender sport)"
  have "\<forall>i<length sts. \<exists>a x. UpnpDevice_GetServiceAt d (word_of_nat i) = Some a \<and> srv_at u a = Some x \<and> ?f x = ?g (sts ! i)"
    using assms by (fastforce simp: describes_def SsdpMessage_ConstructResponse_SERVICE_def)
  then have services: "for_services u d ?f 0 (unat (UpnpDevice_GetServiceCount d)) = map ?g sts"
    using for_services_all [of sts d u ?f ?g 0 "length sts"] assms by (simp add: describes_def)
  have "list_all answers ([SsdpMessage_ConstructResponse_ROOTDEVICE d uri (UpnpDevice_GetHttpPort d) l sender sport,
      SsdpMessage_ConstructResponse_DEVICE_UUID d uri (UpnpDevice_GetHttpPort d) l sender sport,
      SsdpMessage_ConstructResponse_DEVICE d uri (UpnpDevice_GetHttpPort d) l sender sport] @ map ?g sts)"
    using assms
    by (auto simp: describes_def list_all_iff answersI SsdpMessage_ConstructResponse_ROOTDEVICE_def
        SsdpMessage_ConstructResponse_DEVICE_UUID_def SsdpMessage_ConstructResponse_DEVICE_def)
  from send_answers [OF this, of h] services show ?thesis
    using assms by (simp add: OnRequestDeviceVisit_def describes_def Let_def del: send_series.simps)
qed

subsection \<open>Properties\<close>

text \<open>
  C4. Discovery works end to end: a host announces a device with any number of services; the
  datagrams it sends, received in order by a new control point that is looking for devices, make
  the control point tell its listener exactly once about the root device, the device's identifier,
  its type and each service type, and hold for each an object whose location is the address of
  the host's socket, the device's port and its URI.
\<close>

theorem device_discovered:
  assumes "describes u d s uri ty sts" and "id_ok s" and "type_ok ty" and "list_all type_ok sts"
    and "value_ok 240 (location_of sip (UpnpDevice_GetHttpPort d) uri)"
    and "ssdp_running h" and "mc_sockets (multicast h) = [(sip, fd)]" and "length sip < TINY_IP_LEN"
    and "UpnpRegistry_Construct TINY_RET_OK TINY_RET_OK TINY_RET_OK = (ret, r0)"
    and "UpnpRegistry_Discover r0 False True None = Some (ret', r, search)"
  shows "\<exists>ds r' xs. OnDeviceAdded_registry u h d = Some ds \<and> length ds = 3 + length sts
    \<and> receive_all usec u' p l sender sport (map dg_bytes ds) r = Some r'
    \<and> told r' = map (\<lambda>x. (x, True)) xs \<and> distinct (map ob_usn xs)
    \<and> set (map ob_usn xs) = snd ` set (announced s ty sts)
    \<and> (\<forall>n\<in>set (announced s ty sts). \<exists>x. object_of r' (snd n) = Some x
         \<and> ob_location x = location_of sip (UpnpDevice_GetHttpPort d) uri)"
proof -
  let ?loc = "location_of sip (UpnpDevice_GetHttpPort d) uri"
  obtain ds where ds: "OnDeviceAdded_registry u h d = Some ds" "map dg_bytes ds = map (\<lambda>p. alive_bytes p ?loc) (announced s ty sts)"
    using device_announces [OF assms(1-8)] by blast
  have n: "length ds = 3 + length sts" using arg_cong [OF ds(2), of length] by (simp add: announced_def)
  note start = started_looking [OF assms(9,10)]
  have "\<forall>p\<in>set (announced s ty sts). \<forall>x. object_of r (snd p) = Some x \<longrightarrow> ob_location x = ?loc" by (simp add: start(4))
  from receive_announcements [OF start(1,2) announced_ok [OF assms(2-4)] assms(5) this, of usec u' p l sender sport]
  show ?thesis using ds n by (simp add: start(3,4))
qed

definition demo_light :: upnp_device where
  "demo_light = (snd UpnpDevice_Construct)\<lparr>dev_port := 80, dev_uri := ''/d'', deviceId := ''uuid:1'',
     deviceType := ''urn:schemas-upnp-org:device:Light:1'', serviceList := snd (L_AddTail True (Some 5) L_new)\<rparr>"

definition demo_switch :: "int upnp_service" where
  "demo_switch = (snd UpnpService_Construct)\<lparr>serviceType := ''urn:schemas-upnp-org:service:Switch:1'', srv_device := Some 1\<rparr>"

definition demo_house :: "int ustore" where
  "demo_house = \<lparr>dev_at = [1 \<mapsto> demo_light], srv_at = [5 \<mapsto> demo_switch], act_at = Map.empty\<rparr>"

definition demo_announcer :: ssdp where
  "demo_announcer = (snd (Ssdp_Construct TINY_RET_OK TINY_RET_OK))\<lparr>ssdp_running := True,
     multicast := (snd TinyMulticast_Construct)\<lparr>mc_sockets := [(''10.0.0.1'', 5)]\<rparr>\<rparr>"

definition demo_new_point :: registry where
  "demo_new_point = snd (UpnpRegistry_Construct TINY_RET_OK TINY_RET_OK TINY_RET_OK)"

definition demo_point :: registry where
  "demo_point = fst (snd (the (UpnpRegistry_Discover demo_new_point False True None)))"

lemma demo_types: "type_ok ''urn:schemas-upnp-org:device:Light:1''" "type_ok ''urn:schemas-upnp-org:service:Switch:1''"
proof -
  have "''urn:schemas-upnp-org:device:Light:1'' = urn_text SCHEMAS_UPNP_ORG DEVICE ''Light'' ''1''"
      "''urn:schemas-upnp-org:service:Switch:1'' = urn_text SCHEMAS_UPNP_ORG SERVICE ''Switch'' ''1''"
    by (simp_all add: urn_text_def uri_words)
  moreover have "name_part SCHEMAS_UPNP_ORG" "name_part ''Light''" "name_part ''Switch''" "name_part ''1''"
    by (simp_all add: name_part_def uri_words field_defs)
  ultimately have "\<exists>d k n v. name_part d \<and> k \<in> {DEVICE, SERVICE} \<and> name_part n \<and> name_part v
      \<and> ''urn:schemas-upnp-org:device:Light:1'' = urn_text d k n v"
    "\<exists>d k n v. name_part d \<and> k \<in> {DEVICE, SERVICE} \<and> name_part n \<and> name_part v
      \<and> ''urn:schemas-upnp-org:service:Switch:1'' = urn_text d k n v" by blast+
  then show "type_ok ''urn:schemas-upnp-org:device:Light:1''" "type_ok ''urn:schemas-upnp-org:service:Switch:1''"
    by (simp_all add: type_ok_def cstring_def)
qed

lemma demo_id: "id_ok ''1''"
  by (simp add: id_ok_def cstring_def UPNP_UUID_LEN_def)

lemma demo_described: "describes demo_house demo_light ''1'' ''/d'' ''urn:schemas-upnp-org:device:Light:1'' [''urn:schemas-upnp-org:service:Switch:1'']"
proof -
  have d: "UpnpDevice_GetDeviceId demo_light = Some ''uuid:1''"
    by (simp add: UpnpDevice_GetDeviceId_def demo_light_def read_field_def UDN_LEN_def)
  have p: "parent_id demo_house demo_switch = Some (id_of ''1'')"
    by (simp add: parent_id_def demo_switch_def UpnpService_GetParentDevice_def demo_house_def d id_of_def)
  have "UpnpDevice_GetServiceAt demo_light 0 = Some 5" "UpnpDevice_GetServiceCount demo_light = 1"
    by (simp_all add: UpnpDevice_GetServiceAt_def UpnpDevice_GetServiceCount_def demo_light_def L_AddTail_def L_new_def L_GetAt_def L_GetCount_def)
  moreover have "UpnpDevice_GetURI demo_light = Some ''/d''"
      "UpnpDevice_GetDeviceType demo_light = Some ''urn:schemas-upnp-org:device:Light:1''"
      "UpnpService_GetServiceType demo_switch = Some ''urn:schemas-upnp-org:service:Switch:1''"
    by (simp_all add: UpnpDevice_GetURI_def UpnpDevice_GetDeviceType_def UpnpService_GetServiceType_def demo_light_def demo_switch_def
        read_field_def model_lens)
  ultimately show ?thesis using d p by (simp add: describes_def id_of_def demo_house_def)
qed

lemma demo_location: "location_of ''10.0.0.1'' (UpnpDevice_GetHttpPort demo_light) ''/d'' = ''http://10.0.0.1:80/d''"
  by (simp add: location_of_def UpnpDevice_GetHttpPort_def demo_light_def show_nat.simps)

lemma demo_announcer_open: "ssdp_running demo_announcer" "mc_sockets (multicast demo_announcer) = [(''10.0.0.1'', 5)]"
  by (simp_all add: demo_announcer_def)

lemma demo_searching:
  "\<exists>ret search. UpnpRegistry_Discover demo_new_point False True None = Some (ret, demo_point, search)"
  by (cases "UpnpRegistry_Discover demo_new_point False True None")
    (auto simp: demo_point_def UpnpRegistry_Discover_def search_request send_search Let_def case_prod_unfold)

lemma demo_constructed:
  "UpnpRegistry_Construct TINY_RET_OK TINY_RET_OK TINY_RET_OK = (fst (UpnpRegistry_Construct TINY_RET_OK TINY_RET_OK TINY_RET_OK), demo_new_point)"
  by (simp add: demo_new_point_def)

theorem device_discovered_witness:
  "\<exists>ds r' xs. OnDeviceAdded_registry demo_house demo_announcer demo_light = Some ds \<and> length ds = 4
    \<and> receive_all 0 demo_house (snd (UpnpProvider_Construct TINY_RET_OK)) None ''10.0.0.1'' 1900 (map dg_bytes ds) demo_point = Some r'
    \<and> told r' = map (\<lambda>x. (x, True)) xs \<and> distinct (map ob_usn xs)
    \<and> set (map ob_usn xs) = {''uuid:1::upnp:rootdevice'', ''uuid:1'', ''uuid:1::urn:schemas-upnp-org:device:Light:1'',
         ''uuid:1::urn:schemas-upnp-org:service:Switch:1''}
    \<and> (\<exists>x. object_of r' ''uuid:1::urn:schemas-upnp-org:service:Switch:1'' = Some x \<and> ob_location x = ''http://10.0.0.1:80/d'')"
proof -
  obtain ret search where s: "UpnpRegistry_Discover demo_new_point False True None = Some (ret, demo_point, search)"
    using demo_searching by blast
  have l: "value_ok 240 (location_of ''10.0.0.1'' (UpnpDevice_GetHttpPort demo_light) ''/d'')"
    by (simp add: demo_location value_ok_def cstring_def)
  have n: "length ''10.0.0.1'' < TINY_IP_LEN" by (simp add: TINY_IP_LEN_def)
  have t: "list_all type_ok [''urn:schemas-upnp-org:service:Switch:1'']" by (simp add: demo_types)
  show ?thesis
    using device_discovered [OF demo_described demo_id demo_types(1) t l demo_announcer_open n demo_constructed s, of 0 demo_house
      "snd (UpnpProvider_Construct TINY_RET_OK)" None "''10.0.0.1''" 1900]
    by (elim exE conjE) (rule exI, rule exI, rule exI, auto simp: announced_def id_of_def name_of_def NT_ROOTDEVICE_def demo_location)
qed

text \<open>
  An object that is announced again from another address keeps the location it was found
  with, and the listener is not told: only the time of its next announcement changes.
\<close>

theorem moved_device_stale:
  assumes "looking r" and "registry_inv r" and "announce_ok p" and "value_ok 240 loc" and "object_of r (snd p) = Some x"
  shows "\<exists>r' y. OnDatagram usec u pr l sender prt (alive_bytes p loc) r = Some r' \<and> told r' = told r
    \<and> object_of r' (snd p) = Some y \<and> ob_location y = ob_location x"
  using announcement_known [OF assms, of usec u pr l sender prt] assms(3)
  by (auto simp: announce_ok_def value_ok_def UPNP_USN_LEN_def)

text \<open>A root device that a searching control point has found.\<close>

definition demo_pair :: "string \<times> string" where
  "demo_pair = (NT_ROOTDEVICE, ''uuid:1::upnp:rootdevice'')"

lemma demo_announce_ok: "announce_ok demo_pair"
  using name_announce_ok [OF demo_id root_type] by (simp add: demo_pair_def name_of_def NT_ROOTDEVICE_def)

lemma demo_places: "value_ok 240 ''http://10.0.0.1:80/d''" "value_ok 240 ''http://10.0.0.2:80/d''"
  by (simp_all add: value_ok_def cstring_def)

lemma demo_found:
  "\<exists>r x. OnDatagram 0 demo_house (snd (UpnpProvider_Construct TINY_RET_OK)) None ''10.0.0.1'' 1900
       (alive_bytes demo_pair ''http://10.0.0.1:80/d'') demo_point = Some r
     \<and> looking r \<and> registry_inv r \<and> object_of r ''uuid:1::upnp:rootdevice'' = Some x \<and> ob_location x = ''http://10.0.0.1:80/d''"
proof -
  obtain ret search where "UpnpRegistry_Discover demo_new_point False True None = Some (ret, demo_point, search)"
    using demo_searching by blast
  note st = started_looking [OF demo_constructed this]
  show ?thesis
    using announcement_new [OF st(1,2) demo_announce_ok demo_places(1) st(4), of 0 demo_house "snd (UpnpProvider_Construct TINY_RET_OK)" None "''10.0.0.1''" 1900]
    by (fastforce simp: demo_pair_def UPNP_USN_LEN_def)
qed

theorem moved_device_stale_witness:
  "\<exists>r x r' y. object_of r ''uuid:1::upnp:rootdevice'' = Some x \<and> ob_location x = ''http://10.0.0.1:80/d''
     \<and> OnDatagram 7 demo_house (snd (UpnpProvider_Construct TINY_RET_OK)) None ''10.0.0.2'' 1900
         (alive_bytes demo_pair ''http://10.0.0.2:80/d'') r = Some r' \<and> told r' = told r
     \<and> object_of r' ''uuid:1::upnp:rootdevice'' = Some y \<and> ob_location y = ''http://10.0.0.1:80/d''"
proof -
  obtain r x where r: "looking r" "registry_inv r" "object_of r (snd demo_pair) = Some x" "ob_location x = ''http://10.0.0.1:80/d''"
    using demo_found by (auto simp: demo_pair_def)
  show ?thesis
    using r(3,4) moved_device_stale [OF r(1,2) demo_announce_ok demo_places(2) r(3), of 7 demo_house
      "snd (UpnpProvider_Construct TINY_RET_OK)" None "''10.0.0.2''" 1900]
    by (auto simp: demo_pair_def)
qed

text \<open>
  C24. A device that leaves stays known: of the datagrams a host sends on all its sockets when a
  device is removed, none changes anything at a control point, because the byebye is printed
  without the USN header that its parser requires.
\<close>

theorem byebye_never_removes:
  assumes "describes u d s uri ty sts" and "id_ok s" and "type_ok ty" and "list_all type_ok sts" and "ssdp_running h"
  shows "\<exists>ds. OnDeviceRemoved_registry u h d = Some ds \<and> length ds = (3 + length sts) * length (mc_sockets (multicast h))
    \<and> receive_all usec u' p l sender sport (map dg_bytes ds) r = Some r"
  using device_leaves [OF assms] receive_byebyes [OF announced_ok [OF assms(2-4)]] by blast

theorem byebye_never_removes_witness:
  "\<exists>ds. OnDeviceRemoved_registry demo_house demo_announcer demo_light = Some ds \<and> length ds = 4
    \<and> receive_all 0 demo_house (snd (UpnpProvider_Construct TINY_RET_OK)) None ''10.0.0.1'' 1900 (map dg_bytes ds) demo_point = Some demo_point"
proof -
  have t: "list_all type_ok [''urn:schemas-upnp-org:service:Switch:1'']" by (simp add: demo_types)
  show ?thesis
    using byebye_never_removes [OF demo_described demo_id demo_types(1) t demo_announcer_open(1), of 0 demo_house
      "snd (UpnpProvider_Construct TINY_RET_OK)" None "''10.0.0.1''" 1900 demo_point]
    by (simp add: demo_announcer_open)
qed

text \<open>
  C26. A search is never answered: whatever a control point asks for, and whichever devices with
  services the host has, the handler of the request sends nothing, because a search response is
  printed as the empty text.
\<close>

theorem search_never_answered:
  assumes "map_inv (devices p)" and "length (device_list p) < 2 ^ 31" and "list_all (\<lambda>a. \<exists>d s uri ty sts. dev_at u a = Some d \<and> describes u d s uri ty sts) (device_list p)"
    and "length (rq_st q) \<le> HEAD_ST_LEN"
  shows "UpnpRegistry_OnRequest u p h q l sender sport = Some []"
proof -
  let ?visit = "\<lambda>a acc. Option.bind acc (\<lambda>ds. do {
      dev \<leftarrow> dev_at u a; ds' \<leftarrow> OnRequestDeviceVisit u h (rq_st q) l sender sport dev; Some (ds @ ds') })"
  have m: "map_inv (devices p)" "length (map_entries (devices p)) < 2 ^ 31"
    using assms(1,2) by (simp_all add: device_list_def)
  have "list_all (\<lambda>a. ?visit a (Some []) = Some []) (device_list p)"
    using assms(3) device_visit_silent by (fastforce simp: list_all_iff)
  moreover have "list_all (\<lambda>a. ?visit a (Some []) = Some []) as \<Longrightarrow> fold ?visit as (Some []) = Some []" for as
    by (induction as) simp_all
  ultimately have "fold ?visit (device_list p) (Some []) = Some []" by blast
  then show ?thesis
    using assms(4) value_loop_fold [OF m, of _ ?visit "Some []"]
    by (simp add: UpnpRegistry_OnRequest_def read_field_def UpnpProvider_Foreach_def device_list_def)
qed



definition demo_hosted :: provider where
  "demo_hosted = (snd (UpnpProvider_Construct TINY_RET_OK))
     \<lparr>devices := snd (TinyMap_Insert [] (devices (snd (UpnpProvider_Construct TINY_RET_OK))) (Some ''uuid:1'') (Some 1))\<rparr>"

theorem search_never_answered_witness:
  "UpnpRegistry_OnRequest demo_house demo_hosted demo_announcer demo_search ''10.0.0.1'' ''10.0.0.9'' 4000 = Some []"
proof -
  let ?p = "snd (UpnpProvider_Construct TINY_RET_OK)"
  have m: "map_inv (devices ?p)" using fresh_maps by (simp add: maps_ok_def)
  have d: "device_list demo_hosted = [1]"
    using entries_insert [OF m fresh_lookup(1)] fresh_lists(1) by (simp add: device_list_def demo_hosted_def)
  have "map_inv (devices demo_hosted)" using map_inv_insert [OF m] by (simp add: demo_hosted_def)
  moreover have "dev_at demo_house 1 = Some demo_light" by (simp add: demo_house_def)
  moreover have "length (rq_st demo_search) \<le> HEAD_ST_LEN" by (simp add: demo_search_def DEFAULT_ST_def HEAD_ST_LEN_def)
  moreover have "list_all (\<lambda>a. \<exists>d s uri ty sts. dev_at demo_house a = Some d \<and> describes demo_house d s uri ty sts) (device_list demo_hosted)"
    unfolding d using demo_described by (simp add: demo_house_def) blast
  ultimately show ?thesis
    using search_never_answered [of demo_hosted demo_house demo_search] d by simp
qed

theorem registry_view_witness:
  "\<exists>rs r'. run_ops registry_step [OpDiscover False None, OpAlive 0 (alive_of demo_pair ''http://10.0.0.1:80/d'') ''10.0.0.1'', OpByebye (bye_of demo_pair)]
      demo_new_point = Some (rs, r')
    \<and> track ''uuid:1::upnp:rootdevice'' (told r') = Some (object_of r' ''uuid:1::upnp:rootdevice'' \<noteq> None)
    \<and> map_option ob_usn (object_of r' ''uuid:1::upnp:rootdevice'') \<in> {None, Some ''uuid:1::upnp:rootdevice''}"
proof (rule registry_view [OF demo_constructed])
  obtain ret search where d: "UpnpRegistry_Discover demo_new_point False True None = Some (ret, demo_point, search)"
    using demo_searching by blast
  have p: "looking demo_point" by (rule started_looking(1) [OF demo_constructed d])
  obtain r where r: "UpnpRegistry_OnAlive True [] 0 demo_point (alive_of demo_pair ''http://10.0.0.1:80/d'') ''10.0.0.1'' = Some r" "looking r"
    using demo_found p by (auto simp: receive_announcement [OF demo_announce_ok demo_places(1)] looking_def field_cpy_def TINY_IP_LEN_def)
  have fits: "usn_fits (reg_validator x) (snd demo_pair)" if "looking x" for x
    using demo_announce_ok that by (simp add: usn_fits_def announce_ok_def value_ok_def UPNP_USN_LEN_def looking_def)
  have "UpnpObjectFactory_CreateByAlive True 0 (alive_of demo_pair ''http://10.0.0.1:80/d'') ''10.0.0.1'' (reg_validator demo_point) \<noteq> None"
    using object_made [OF demo_announce_ok demo_places(1), of "reg_validator demo_point" 0 "''10.0.0.1''"] p by (auto simp: looking_def)
  then show "allowed registry_step registry_pre [OpDiscover False None, OpAlive 0 (alive_of demo_pair ''http://10.0.0.1:80/d'') ''10.0.0.1'',
      OpByebye (bye_of demo_pair)] demo_new_point"
    using fits [OF p] fits [OF r(2)] by (simp add: d r(1) alive_of_usn bye_of_def split: option.split)
  show "length ''uuid:1::upnp:rootdevice'' < UPNP_USN_LEN" by (simp add: UPNP_USN_LEN_def)
qed

end
