(* ===== verification/SoapMessage.thy ===== *)
theory SoapMessage
  imports TinyXml UpnpEvent
begin

section \<open>SOAP messages: \<open>UpnpHttp/message/soap/SoapMessage.c\<close>\<close>

text \<open>
  The envelope of an action and of its result, written as text and read from the XML tree. The
  tokeniser is the argument \<open>expat\<close> as in the theory of the XML tree; \<open>past\<close> is the byte after
  the terminator of a name that is compared without case. Memory for the message's own list is
  taken to be there when it is parsed.
\<close>

definition FAULT_STRING_LEN :: nat where "FAULT_STRING_LEN = 512"
definition ERROR_DESC_LEN :: nat where "ERROR_DESC_LEN = 512"
definition ACTION_NAME_LEN :: nat where "ACTION_NAME_LEN = 128"
definition ACTION_XMLNS_LEN :: nat where "ACTION_XMLNS_LEN = 256"
definition SOAP_ACTION_NAME_LEN :: nat where "SOAP_ACTION_NAME_LEN = 128"

lemmas soap_lens [field_defs] = FAULT_STRING_LEN_def ERROR_DESC_LEN_def ACTION_NAME_LEN_def ACTION_XMLNS_LEN_def
  SOAP_ACTION_NAME_LEN_def

record soap_message =
  so_serverURL :: string
  so_actionName :: string
  so_actionXmlns :: string
  isFault :: bool
  faultCode :: int
  faultString :: string
  errorCode :: int
  errorDescription :: string
  so_arguments :: property_list

definition SoapMessage_Construct :: "bool \<Rightarrow> tiny_ret \<times> soap_message" where
  "SoapMessage_Construct list_ok = (if list_ok then TINY_RET_OK else TINY_RET_E_NEW,
     \<lparr>so_serverURL = [], so_actionName = [], so_actionXmlns = [], isFault = False, faultCode = 0, faultString = [],
      errorCode = 0, errorDescription = [], so_arguments = snd PropertyList_Construct\<rparr>)"

definition SoapMessage_New :: "bool \<Rightarrow> bool \<Rightarrow> soap_message option" where
  "SoapMessage_New malloc_ok list_ok = (if malloc_ok then (case SoapMessage_Construct list_ok of
     (ret, m) \<Rightarrow> if RET_FAILED ret then None else Some m) else None)"

definition SoapMessage_Dispose :: "soap_message \<Rightarrow> soap_message" where
  "SoapMessage_Dispose m = m\<lparr>so_arguments := PropertyList_Dispose (so_arguments m)\<rparr>"

definition SoapMessage_GetArgumentList :: "soap_message \<Rightarrow> property_list" where
  "SoapMessage_GetArgumentList m = so_arguments m"

definition SoapMessage_SetServerURL :: "soap_message \<Rightarrow> string option \<Rightarrow> tiny_ret \<times> soap_message" where
  "SoapMessage_SetServerURL m str = (case str of
       None \<Rightarrow> (TINY_RET_E_ARG_NULL, m) | Some x \<Rightarrow> (TINY_RET_OK, m\<lparr>so_serverURL := field_cpy TINY_URL_LEN x\<rparr>))"

definition SoapMessage_SetActionName :: "soap_message \<Rightarrow> string option \<Rightarrow> tiny_ret \<times> soap_message" where
  "SoapMessage_SetActionName m str = (case str of
       None \<Rightarrow> (TINY_RET_E_ARG_NULL, m) | Some x \<Rightarrow> (TINY_RET_OK, m\<lparr>so_actionName := field_cpy ACTION_NAME_LEN x\<rparr>))"

definition SoapMessage_SetActionXmlns :: "soap_message \<Rightarrow> string option \<Rightarrow> tiny_ret \<times> soap_message" where
  "SoapMessage_SetActionXmlns m str = (case str of
       None \<Rightarrow> (TINY_RET_E_ARG_NULL, m) | Some x \<Rightarrow> (TINY_RET_OK, m\<lparr>so_actionXmlns := field_cpy ACTION_XMLNS_LEN x\<rparr>))"

definition SoapMessage_SetResponseActionName :: "soap_message \<Rightarrow> string option \<Rightarrow> tiny_ret \<times> soap_message" where
  "SoapMessage_SetResponseActionName m str = (case str of
       None \<Rightarrow> (TINY_RET_E_ARG_NULL, m)
     | Some x \<Rightarrow> (TINY_RET_OK, m\<lparr>so_actionName := field_printf ACTION_NAME_LEN (x @ ''Response'')\<rparr>))"

definition SoapMessage_GetServerURL :: "soap_message \<Rightarrow> string option" where
  "SoapMessage_GetServerURL m = read_field TINY_URL_LEN (so_serverURL m)"

definition SoapMessage_GetActionName :: "soap_message \<Rightarrow> string option" where
  "SoapMessage_GetActionName m = read_field ACTION_NAME_LEN (so_actionName m)"

definition SoapMessage_GetActionXmlns :: "soap_message \<Rightarrow> string option" where
  "SoapMessage_GetActionXmlns m = read_field ACTION_XMLNS_LEN (so_actionXmlns m)"

definition SoapMessage_IsFault :: "soap_message \<Rightarrow> bool" where
  "SoapMessage_IsFault m = isFault m"

definition SoapMessage_SetFault :: "soap_message \<Rightarrow> int \<Rightarrow> string \<Rightarrow> tiny_ret \<times> soap_message" where
  "SoapMessage_SetFault m code str = (TINY_RET_OK, m\<lparr>faultCode := code, faultString := field_cpy FAULT_STRING_LEN str\<rparr>)"

definition SoapMessage_SetError :: "soap_message \<Rightarrow> int \<Rightarrow> string \<Rightarrow> tiny_ret \<times> soap_message" where
  "SoapMessage_SetError m code str = (TINY_RET_OK, m\<lparr>errorCode := code, errorDescription := field_cpy ERROR_DESC_LEN str\<rparr>)"

definition SoapMessage_GetFaultcode :: "soap_message \<Rightarrow> int" where
  "SoapMessage_GetFaultcode m = faultCode m"

definition SoapMessage_GetFaultstring :: "soap_message \<Rightarrow> string option" where
  "SoapMessage_GetFaultstring m = read_field FAULT_STRING_LEN (faultString m)"

definition SoapMessage_GetErrorCode :: "soap_message \<Rightarrow> int" where
  "SoapMessage_GetErrorCode m = errorCode m"

definition SoapMessage_GetErrorDescription :: "soap_message \<Rightarrow> string option" where
  "SoapMessage_GetErrorDescription m = read_field ERROR_DESC_LEN (errorDescription m)"

subsection \<open>Writing\<close>

definition SOAP_XML_VERSION :: string where "SOAP_XML_VERSION = ''<?xml version = \"1.0\"?>\<newline>''"
definition SOAP_ENVELOPE_BEGIN :: string where "SOAP_ENVELOPE_BEGIN = ''<s:Envelope''"
definition SOAP_ENVELOPE_BEGIN_XMLNS :: string where
  "SOAP_ENVELOPE_BEGIN_XMLNS = '' xmlns:s=\"http://schemas.xmlsoap.org/soap/envelope/\"''"
definition SOAP_ENVELOPE_BEGIN_ENCODING :: string where
  "SOAP_ENVELOPE_BEGIN_ENCODING = '' s:encodingStyle=\"http://schemas.xmlsoap.org/soap/encoding/\">\<newline>''"
definition SOAP_ENVELOPE_END :: string where "SOAP_ENVELOPE_END = ''</s:Envelope>\<newline>''"
definition SOAP_BODY_BEGIN :: string where "SOAP_BODY_BEGIN = ''<s:Body>\<newline>''"
definition SOAP_BODY_END :: string where "SOAP_BODY_END = ''</s:Body>\<newline>''"

text \<open>
  One \<open>snprintf\<close> into what is left of the buffer, which always has room for its terminator, so
  the test for a negative rest never fires: a text that does not fit is cut off.
\<close>

definition put_soap :: "nat \<Rightarrow> string \<Rightarrow> string \<Rightarrow> tiny_ret \<times> string" where
  "put_soap len s bytes = (let bytes' = bytes @ field_printf (len - length bytes) s
     in if int len - int (length bytes') < 0 then (TINY_RET_E_ARG_INVALID, bytes') else (TINY_RET_OK, bytes'))"

fun soap_args_loop :: "nat \<Rightarrow> property_list \<Rightarrow> 32 word \<Rightarrow> nat \<Rightarrow> tiny_ret \<times> string \<Rightarrow> (tiny_ret \<times> string) option" where
  "soap_args_loop len l i 0 st = Some st"
| "soap_args_loop len l i (Suc n) st = do {
     p \<leftarrow> PropertyList_GetPropertyAt l i;
     name \<leftarrow> read_field PROPERTY_NAME_LEN (pname p);
     val \<leftarrow> read_field PROPERTY_VALUE_LEN (pvalue p);
     case put_soap len (''<'' @ name @ ''>'' @ val @ ''</'' @ name @ ''>\<newline>'') (snd st) of
       (ret, bytes) \<Rightarrow> if RET_FAILED ret then Some (ret, bytes) else soap_args_loop len l (i + 1) n (ret, bytes) }"

definition SoapMessage_ToString :: "soap_message \<Rightarrow> nat \<Rightarrow> (tiny_ret \<times> string) option" where
  "SoapMessage_ToString m len =
     (if len = 0 then Some (TINY_RET_E_ARG_NULL, [])
      else case put_soap len (SOAP_XML_VERSION @ SOAP_ENVELOPE_BEGIN @ SOAP_ENVELOPE_BEGIN_XMLNS @ SOAP_ENVELOPE_BEGIN_ENCODING
          @ SOAP_BODY_BEGIN) [] of
        (ret1, b1) \<Rightarrow> if RET_FAILED ret1 then Some (ret1, b1) else do {
          name \<leftarrow> SoapMessage_GetActionName m;
          xmlns \<leftarrow> SoapMessage_GetActionXmlns m;
          case put_soap len (''<u:'' @ name @ '' xmlns:u=\"'' @ xmlns @ ''\">\<newline>'') b1 of
            (ret2, b2) \<Rightarrow> if RET_FAILED ret2 then Some (ret2, b2) else do {
              (ret3, b3) \<leftarrow> soap_args_loop len (so_arguments m) 0 (unat (PropertyList_GetSize (so_arguments m))) (ret2, b2);
              case put_soap len (''</u:'' @ name @ ''>\<newline>'') b3 of
                (ret4, b4) \<Rightarrow> if RET_FAILED ret4 then Some (ret4, b4)
                  else Some (ret3, snd (put_soap len (SOAP_BODY_END @ SOAP_ENVELOPE_END) b4)) } })"

subsection \<open>Reading\<close>

definition is_envelope :: "xheap \<Rightarrow> addr \<Rightarrow> bool option" where
  "is_envelope h root = do {
     name \<leftarrow> TinyXmlNode_GetName h (Some root);
     s \<leftarrow> name;
     Some (strstr s ''Envelope'' \<noteq> None) }"

definition get_request_action_name :: "soap_message \<Rightarrow> string option \<Rightarrow> tiny_ret \<times> soap_message" where
  "get_request_action_name m action = (TINY_RET_OK, snd (SoapMessage_SetActionName m action))"

definition get_response_action_name :: "soap_message \<Rightarrow> string \<Rightarrow> tiny_ret \<times> soap_message" where
  "get_response_action_name m action_response = (case strstr action_response ''Response'' of
       None \<Rightarrow> (TINY_RET_E_NOT_FOUND, m)
     | Some p \<Rightarrow> (let n = length action_response - length p
         in if SOAP_ACTION_NAME_LEN < n then (TINY_RET_E_NOT_FOUND, m)
            else (TINY_RET_OK, snd (SoapMessage_SetActionName m (Some (take n action_response))))))"

definition get_action_xmlns :: "xheap \<Rightarrow> addr \<Rightarrow> soap_message \<Rightarrow> (tiny_ret \<times> soap_message) option" where
  "get_action_xmlns h el m = do {
     attr \<leftarrow> TinyXmlNode_GetAttr h (Some el) (Some ''xmlns'');
     (case attr of
        None \<Rightarrow> Some (TINY_RET_E_NOT_FOUND, m)
      | Some a \<Rightarrow> do {
          val \<leftarrow> read_field XML_ATTR_VALUE_LEN (attr_value a);
          Some (TINY_RET_OK, snd (SoapMessage_SetActionXmlns m (Some val))) }) }"

fun load_args_loop :: "xheap \<Rightarrow> addr \<Rightarrow> 32 word \<Rightarrow> nat \<Rightarrow> tiny_ret \<times> soap_message \<Rightarrow> (tiny_ret \<times> soap_message) option" where
  "load_args_loop h el i 0 st = Some st"
| "load_args_loop h el i (Suc n) st = do {
     arg \<leftarrow> TinyXmlNode_GetChildAt h (Some el) i;
     name \<leftarrow> TinyXmlNode_GetName h arg;
     val \<leftarrow> TinyXmlNode_GetContent h arg;
     (case (name, val) of
        (Some k, Some v) \<Rightarrow> do {
          (ret, l) \<leftarrow> PropertyList_Add [] (so_arguments (snd st)) (Some k) (Some v);
          let st' = (ret, (snd st)\<lparr>so_arguments := l\<rparr>);
          if RET_FAILED ret then Some st' else load_args_loop h el (i + 1) n st' }
      | _ \<Rightarrow> load_args_loop h el (i + 1) n st) }"

definition load_body_request :: "char \<Rightarrow> xheap \<Rightarrow> addr \<Rightarrow> soap_message \<Rightarrow> (tiny_ret \<times> soap_message) option" where
  "load_body_request past h root m = do {
     body \<leftarrow> TinyXmlNode_GetChildByName past h (Some root) (Some ''Body'');
     if body = None then Some (TINY_RET_E_NOT_FOUND, m)
     else do {
       request \<leftarrow> TinyXmlNode_GetChildAt h body 0;
       (case request of
          None \<Rightarrow> Some (TINY_RET_E_NOT_FOUND, m)
        | Some a \<Rightarrow> do {
            name \<leftarrow> TinyXmlNode_GetName h (Some a);
            case get_request_action_name m name of (_, m1) \<Rightarrow> do {
              (ret, m2) \<leftarrow> get_action_xmlns h a m1;
              if RET_FAILED ret then Some (ret, m2)
              else do {
                n \<leftarrow> TinyXmlNode_GetChildren h (Some a);
                load_args_loop h a 0 (unat n) (ret, m2) } } }) } }"

definition load_soap_fault :: "char \<Rightarrow> xheap \<Rightarrow> addr \<Rightarrow> soap_message \<Rightarrow> (tiny_ret \<times> soap_message) option" where
  "load_soap_fault past h fault m = do {
     code \<leftarrow> TinyXmlNode_GetChildContent past h (Some fault) (Some ''faultcode'');
     (case code of
        None \<Rightarrow> Some (TINY_RET_E_XML_INVALID, m)
      | Some c \<Rightarrow> do {
          str \<leftarrow> TinyXmlNode_GetChildContent past h (Some fault) (Some ''faultstring'');
          (case str of
             None \<Rightarrow> Some (TINY_RET_E_XML_INVALID, m)
           | Some s \<Rightarrow> (case SoapMessage_SetFault m (atoi c) s of (_, m1) \<Rightarrow> do {
               detail \<leftarrow> TinyXmlNode_GetChildByName past h (Some fault) (Some ''detail'');
               if detail = None then Some (TINY_RET_E_NOT_FOUND, m1)
               else do {
                 detail_fault \<leftarrow> TinyXmlNode_GetChildAt h detail 0;
                 error_code \<leftarrow> TinyXmlNode_GetChildContent past h detail_fault (Some ''errorCode'');
                 (case error_code of
                    None \<Rightarrow> Some (TINY_RET_E_NOT_FOUND, m1)
                  | Some ec \<Rightarrow> do {
                      desc \<leftarrow> TinyXmlNode_GetChildContent past h detail_fault (Some ''errorDescription'');
                      (case desc of
                         None \<Rightarrow> Some (TINY_RET_E_NOT_FOUND, m1)
                       | Some d \<Rightarrow> Some (SoapMessage_SetError m1 (atoi ec) d)) }) } })) }) }"

definition load_body_response :: "char \<Rightarrow> xheap \<Rightarrow> addr \<Rightarrow> soap_message \<Rightarrow> (tiny_ret \<times> soap_message) option" where
  "load_body_response past h root m = do {
     body \<leftarrow> TinyXmlNode_GetChildByName past h (Some root) (Some ''Body'');
     if body = None then Some (TINY_RET_E_NOT_FOUND, m)
     else do {
       response \<leftarrow> TinyXmlNode_GetChildAt h body 0;
       (case response of
          None \<Rightarrow> Some (TINY_RET_E_NOT_FOUND, m)
        | Some a \<Rightarrow> do {
            name \<leftarrow> TinyXmlNode_GetName h (Some a);
            s \<leftarrow> name;
            if str_equal past (Some s) (Some ''Fault'') True then load_soap_fault past h a (m\<lparr>isFault := True\<rparr>)
            else (case get_response_action_name m s of (ret1, m1) \<Rightarrow>
              if RET_FAILED ret1 then Some (ret1, m1)
              else do {
                (ret, m2) \<leftarrow> get_action_xmlns h a m1;
                if RET_FAILED ret then Some (ret, m2)
                else do {
                  n \<leftarrow> TinyXmlNode_GetChildren h (Some a);
                  load_args_loop h a 0 (unat n) (ret, m2) } }) }) } }"

definition SoapMessage_ParseRequestXml :: "char \<Rightarrow> txml \<Rightarrow> soap_message \<Rightarrow> (tiny_ret \<times> soap_message) option" where
  "SoapMessage_ParseRequestXml past x m = (case TinyXml_GetRoot x of
       None \<Rightarrow> Some (TINY_RET_E_XML_INVALID, m)
     | Some root \<Rightarrow> do {
         ok \<leftarrow> is_envelope (xml_heap x) root;
         if \<not> ok then Some (TINY_RET_E_XML_INVALID, m) else load_body_request past (xml_heap x) root m })"

definition SoapMessage_ParseResponseXml :: "char \<Rightarrow> txml \<Rightarrow> soap_message \<Rightarrow> (tiny_ret \<times> soap_message) option" where
  "SoapMessage_ParseResponseXml past x m = (case TinyXml_GetRoot x of
       None \<Rightarrow> Some (TINY_RET_E_XML_INVALID, m)
     | Some root \<Rightarrow> do {
         ok \<leftarrow> is_envelope (xml_heap x) root;
         if \<not> ok then Some (TINY_RET_E_XML_INVALID, m) else load_body_response past (xml_heap x) root m })"

text \<open>\<open>content\<close> are the \<open>len\<close> bytes, \<open>xml\<close> is what \<open>TinyXml_New\<close> returned.\<close>

definition parse_soap ::
    "(txml \<Rightarrow> soap_message \<Rightarrow> (tiny_ret \<times> soap_message) option) \<Rightarrow> (string \<Rightarrow> sax list \<times> bool) \<Rightarrow> bool \<Rightarrow> txml option
      \<Rightarrow> soap_message \<Rightarrow> string option \<Rightarrow> (tiny_ret \<times> soap_message) option" where
  "parse_soap load expat parser_ok xml m content = (case content of
       None \<Rightarrow> Some (TINY_RET_E_ARG_NULL, m)
     | Some bytes \<Rightarrow>
         if bytes = [] then Some (TINY_RET_E_ARG_NULL, m)
         else (let m0 = snd (SoapMessage_Construct True)
           in case xml of
                None \<Rightarrow> Some (TINY_RET_E_NEW, m0)
              | Some x \<Rightarrow> do {
                  (ret, x') \<leftarrow> TinyXml_Parse expat parser_ok x bytes;
                  if RET_FAILED ret then Some (ret, m0) else load x' m0 }))"

definition SoapMessage_ParseRequest ::
    "char \<Rightarrow> (string \<Rightarrow> sax list \<times> bool) \<Rightarrow> bool \<Rightarrow> txml option \<Rightarrow> soap_message \<Rightarrow> string option \<Rightarrow> (tiny_ret \<times> soap_message) option" where
  "SoapMessage_ParseRequest past expat parser_ok xml m content =
     parse_soap (SoapMessage_ParseRequestXml past) expat parser_ok xml m content"

definition SoapMessage_ParseResponse ::
    "char \<Rightarrow> (string \<Rightarrow> sax list \<times> bool) \<Rightarrow> bool \<Rightarrow> txml option \<Rightarrow> soap_message \<Rightarrow> string option \<Rightarrow> (tiny_ret \<times> soap_message) option" where
  "SoapMessage_ParseResponse past expat parser_ok xml m content =
     parse_soap (SoapMessage_ParseResponseXml past) expat parser_ok xml m content"


subsection \<open>What is written\<close>

definition soap_text :: "string \<Rightarrow> string \<Rightarrow> (string \<times> string) list \<Rightarrow> string" where
  "soap_text name xmlns ps = SOAP_XML_VERSION @ SOAP_ENVELOPE_BEGIN @ SOAP_ENVELOPE_BEGIN_XMLNS @ SOAP_ENVELOPE_BEGIN_ENCODING
     @ SOAP_BODY_BEGIN @ ''<u:'' @ name @ '' xmlns:u=\"'' @ xmlns @ ''\">\<newline>''
     @ concat (map (\<lambda>nv. prop_text nv @ ''\<newline>'') ps) @ ''</u:'' @ name @ ''>\<newline>'' @ SOAP_BODY_END @ SOAP_ENVELOPE_END"

lemma put_soap_cut:
  "0 < len \<Longrightarrow> put_soap len s (take (len - 1) t) = (TINY_RET_OK, take (len - 1) (t @ s))"
proof -
  assume len: "0 < len"
  have "take (len - length (take (len - 1) t) - 1) s = take (len - 1 - length t) s" using len by (simp add: min_def)
  then have "take (len - 1) t @ field_printf (len - length (take (len - 1) t)) s = take (len - 1) (t @ s)"
    by (simp add: field_printf_def)
  moreover have "\<not> len < length (take (len - 1) (t @ s))" using len by (auto simp del: take_append)
  ultimately show ?thesis by (auto simp: put_soap_def Let_def simp del: take_append length_take length_append)
qed

lemma soap_args_text:
  assumes "property_inv l" and "values_ok l" and "length (items l) < 2 ^ 31" and "0 < len"
  shows "i + n = length (items l) \<Longrightarrow> soap_args_loop len l (word_of_nat i) n (TINY_RET_OK, take (len - 1) t) =
    Some (TINY_RET_OK, take (len - 1) (t @ concat (map (\<lambda>nv. prop_text nv @ ''\<newline>'') (drop i (prop_pairs l)))))"
proof (induction n arbitrary: i t)
  case 0
  then show ?case by (simp add: prop_pairs_def)
next
  case (Suc n)
  then have i: "i < length (items l)" by simp
  obtain p where p: "L_GetAt l (int i) = Some p" "items l ! i = Some p" using property_entry_at [OF assms(1) i] by auto
  have "sint (word_of_nat i :: 32 word) = int i"
    using i assms(3) by (simp add: signed_of_nat signed_take_bit_int_eq_self)
  then have at: "PropertyList_GetPropertyAt l (word_of_nat i) = Some p" by (simp add: PropertyList_GetPropertyAt_def p)
  have mem: "Some p \<in> set (items l)" using i p(2) by (metis nth_mem)
  have n: "read_field PROPERTY_NAME_LEN (pname p) = Some (pname p)"
    using assms(1) mem by (fastforce simp: property_inv_def list_all_iff read_field_def)
  have v: "read_field PROPERTY_VALUE_LEN (pvalue p) = Some (pvalue p)"
    using assms(2) mem by (force simp: values_ok_def prop_pairs_def list_all_iff read_field_def)
  have d: "drop i (prop_pairs l) = (pname p, pvalue p) # drop (Suc i) (prop_pairs l)"
    using i p(2) by (simp add: prop_pairs_def Cons_nth_drop_Suc [symmetric])
  let ?s = "''<'' @ pname p @ ''>'' @ pvalue p @ ''</'' @ pname p @ ''>\<newline>''"
  have s: "?s = prop_text (pname p, pvalue p) @ ''\<newline>''" by (simp add: prop_text_def)
  have "soap_args_loop len l (word_of_nat i) (Suc n) (TINY_RET_OK, take (len - 1) t) =
      soap_args_loop len l (word_of_nat (Suc i)) n (TINY_RET_OK, take (len - 1) (t @ ?s))"
    using at n v put_soap_cut [OF assms(4), of ?s t] by (simp add: add.commute)
  also have "\<dots> = Some (TINY_RET_OK, take (len - 1) ((t @ ?s) @ concat (map (\<lambda>nv. prop_text nv @ ''\<newline>'') (drop (Suc i) (prop_pairs l)))))"
    using Suc.IH [of "Suc i" "t @ ?s"] Suc.prems by simp
  finally show ?case unfolding d s by simp
qed

definition soap_ready :: "soap_message \<Rightarrow> bool" where
  "soap_ready m \<longleftrightarrow> property_inv (so_arguments m) \<and> values_ok (so_arguments m) \<and> length (items (so_arguments m)) < 2 ^ 31
     \<and> length (so_actionName m) < ACTION_NAME_LEN \<and> length (so_actionXmlns m) < ACTION_XMLNS_LEN"

lemma soap_to_string:
  assumes "soap_ready m" and "0 < len"
  shows "SoapMessage_ToString m len =
    Some (TINY_RET_OK, take (len - 1) (soap_text (so_actionName m) (so_actionXmlns m) (prop_pairs (so_arguments m))))"
proof -
  have m: "property_inv (so_arguments m)" "values_ok (so_arguments m)" "length (items (so_arguments m)) < 2 ^ 31"
      "SoapMessage_GetActionName m = Some (so_actionName m)" "SoapMessage_GetActionXmlns m = Some (so_actionXmlns m)"
    using assms(1) by (simp_all add: soap_ready_def SoapMessage_GetActionName_def SoapMessage_GetActionXmlns_def read_field_def)
  let ?h = "SOAP_XML_VERSION @ SOAP_ENVELOPE_BEGIN @ SOAP_ENVELOPE_BEGIN_XMLNS @ SOAP_ENVELOPE_BEGIN_ENCODING @ SOAP_BODY_BEGIN"
  let ?a = "''<u:'' @ so_actionName m @ '' xmlns:u=\"'' @ so_actionXmlns m @ ''\">\<newline>''"
  let ?e = "''</u:'' @ so_actionName m @ ''>\<newline>''"
  let ?c = "concat (map (\<lambda>nv. prop_text nv @ ''\<newline>'') (prop_pairs (so_arguments m)))"
  have 1: "put_soap len ?h [] = (TINY_RET_OK, take (len - 1) ?h)" using put_soap_cut [OF assms(2), of ?h "[]"] by simp
  have 2: "put_soap len ?a (take (len - 1) ?h) = (TINY_RET_OK, take (len - 1) (?h @ ?a))" by (rule put_soap_cut [OF assms(2)])
  have 3: "soap_args_loop len (so_arguments m) 0 (unat (PropertyList_GetSize (so_arguments m))) (TINY_RET_OK, take (len - 1) (?h @ ?a)) =
      Some (TINY_RET_OK, take (len - 1) ((?h @ ?a) @ ?c))"
    using soap_args_text [OF m(1-3) assms(2), of 0 "length (items (so_arguments m))" "?h @ ?a"]
    by (simp add: property_size [OF m(1,3)])
  have 4: "put_soap len ?e (take (len - 1) ((?h @ ?a) @ ?c)) = (TINY_RET_OK, take (len - 1) (((?h @ ?a) @ ?c) @ ?e))"
    by (rule put_soap_cut [OF assms(2)])
  have 5: "put_soap len (SOAP_BODY_END @ SOAP_ENVELOPE_END) (take (len - 1) (((?h @ ?a) @ ?c) @ ?e)) =
      (TINY_RET_OK, take (len - 1) ((((?h @ ?a) @ ?c) @ ?e) @ SOAP_BODY_END @ SOAP_ENVELOPE_END))"
    by (rule put_soap_cut [OF assms(2)])
  have t: "(((?h @ ?a) @ ?c) @ ?e) @ SOAP_BODY_END @ SOAP_ENVELOPE_END = soap_text (so_actionName m) (so_actionXmlns m) (prop_pairs (so_arguments m))"
    by (simp only: soap_text_def append_assoc)
  show ?thesis
    using assms(2) unfolding SoapMessage_ToString_def 1 m Option.bind.bind_lunit prod.case 2 3 4 5 t
    by (simp add: 2 3 4 5 del: append_assoc)
qed


subsection \<open>What is read\<close>

text \<open>The values an element carries: the local name and the text of each child that has one.\<close>

definition soap_values :: "xitem list \<Rightarrow> (string \<times> string) list" where
  "soap_values es = map (\<lambda>e. (local_name e, the (item_text e))) (filter (\<lambda>e. item_text e \<noteq> None) es)"

definition names_fit :: "xitem list \<Rightarrow> bool" where
  "names_fit es \<longleftrightarrow> list_all (\<lambda>e. length (local_name e) < XML_TAG_NAME_LEN) es \<and> length es < 2 ^ 31"

lemma get_attr:
  assumes "rep lo hi h p d a (XElem name atts its)" and "list_all (\<lambda>(k, v). length k < XML_ATTR_NAME_LEN) atts"
    and "length atts < 2 ^ 31"
  shows "TinyXmlNode_GetAttr h (Some a) (Some s) =
    Some (map_option (\<lambda>v. \<lparr>attr_name = s, attr_value = field_cpy XML_ATTR_VALUE_LEN v\<rparr>) (map_of atts s))"
proof -
  obtain n where n: "h a = Some n" "opt_list (attributes n) (attr_list atts)" using assms(1) by auto
  let ?nm = "\<lambda>y. read_field XML_ATTR_NAME_LEN (attr_name y)"
  have look: "map_option snd (first_named ?nm s i (attr_list atts)) =
      map_option (\<lambda>v. \<lparr>attr_name = s, attr_value = field_cpy XML_ATTR_VALUE_LEN v\<rparr>) (map_of atts s)" for i
    using assms(2) by (induction atts arbitrary: i) (auto simp: attr_list_def read_field_def field_cpy_short)
  show ?thesis
  proof (cases "attributes n")
    case None
    with n have "atts = []" by (simp add: opt_list_def attr_list_def)
    with None n(1) show ?thesis by (simp add: TinyXmlNode_GetAttr_def at_node_def)
  next
    case (Some l)
    with n(2) have l: "items l = map Some (attr_list atts)" "count_ok l" by (simp_all add: opt_list_def)
    have len: "length (attr_list atts) = length atts" by (simp add: attr_list_def)
    have "L_GetCount l = int (length (attr_list atts))"
      using l assms(3) len by (intro L_count_nat [THEN trans]) simp_all
    moreover have "list_all (\<lambda>y. ?nm y \<noteq> None) (attr_list atts)"
      using assms(2) by (auto simp: attr_list_def list_all_iff read_field_def field_cpy_short)
    ultimately have "find_named ?nm l s 0 (nat (L_GetCount l)) = Some (first_named ?nm s 0 (attr_list atts))"
      using find_named_drop [OF l(1), of ?nm 0 "length (attr_list atts)" s] by simp
    with Some n(1) look [of 0] show ?thesis by (simp add: TinyXmlNode_GetAttr_def at_node_def)
  qed
qed

lemma load_args_values:
  assumes "rep lo hi h p d a (XElem name atts its)" and "names_fit (elements its)"
  shows "i + n = length (elements its) \<Longrightarrow> property_inv (so_arguments m) \<Longrightarrow> property_room (so_arguments m) n \<Longrightarrow>
    list_all (\<lambda>nv. length (snd nv) < PROPERTY_VALUE_LEN) (soap_values (drop i (elements its))) \<Longrightarrow>
    distinct (map fst (prop_pairs (so_arguments m) @ soap_values (drop i (elements its)))) \<Longrightarrow>
    \<exists>l. load_args_loop h a (word_of_nat i) n (TINY_RET_OK, m) = Some (TINY_RET_OK, m\<lparr>so_arguments := l\<rparr>)
      \<and> property_inv l \<and> prop_pairs l = prop_pairs (so_arguments m) @ soap_values (drop i (elements its))"
proof (induction n arbitrary: i m)
  case 0
  then show ?case by (intro exI [of _ "so_arguments m"]) (simp add: soap_values_def)
next
  case (Suc n)
  then have i: "i < length (elements its)" by simp
  let ?e = "elements its ! i"
  have d: "drop i (elements its) = ?e # drop (Suc i) (elements its)" using i by (rule Cons_nth_drop_Suc [symmetric])
  obtain c where c: "TinyXmlNode_GetChildAt h (Some a) (word_of_nat i) = Some (Some c)" "rep lo hi h (Some a) (d + 1) c ?e"
    using child_at [OF assms(1) i] assms(2) i by (auto simp: names_fit_def)
  have fit: "length (local_name ?e) < XML_TAG_NAME_LEN" using assms(2) i by (simp add: names_fit_def list_all_length)
  have nm: "TinyXmlNode_GetName h (Some c) = Some (Some (local_name ?e))" by (rule elem_name [OF c(2) fit])
  have ct: "TinyXmlNode_GetContent h (Some c) = Some (item_text ?e)" by (rule elem_content [OF c(2)])
  have s: "word_of_nat i + 1 = (word_of_nat (Suc i) :: 32 word)" by (simp add: add.commute)
  show ?case
  proof (cases "item_text ?e")
    case None
    have v: "soap_values (drop i (elements its)) = soap_values (drop (Suc i) (elements its))"
      unfolding d by (simp add: soap_values_def None)
    show ?thesis
      using Suc.IH [of "Suc i" m] Suc.prems c(1) nm ct None unfolding v by (auto simp: s property_room_def)
  next
    case (Some t)
    have v: "soap_values (drop i (elements its)) = (local_name ?e, t) # soap_values (drop (Suc i) (elements its))"
      unfolding d by (simp add: soap_values_def Some)
    have "length (local_name ?e) < PROPERTY_NAME_LEN" using fit by (simp add: PROPERTY_NAME_LEN_def XML_TAG_NAME_LEN_def)
    moreover have "local_name ?e \<notin> fst ` set (prop_pairs (so_arguments m))" using Suc.prems(5) by (auto simp: v)
    moreover have "length t < PROPERTY_VALUE_LEN" using Suc.prems(4) by (simp add: v)
    ultimately obtain l where l: "PropertyList_Add [] (so_arguments m) (Some (local_name ?e)) (Some t) = Some (TINY_RET_OK, l)"
        "property_inv l" "prop_pairs l = prop_pairs (so_arguments m) @ [(local_name ?e, t)]"
        "length (items l) = Suc (length (items (so_arguments m)))"
      using property_pairs_add [OF Suc.prems(2), of "local_name ?e" t] Suc.prems(3) by (auto simp: property_room_def)
    have "\<exists>l'. load_args_loop h a (word_of_nat (Suc i)) n (TINY_RET_OK, m\<lparr>so_arguments := l\<rparr>) =
        Some (TINY_RET_OK, m\<lparr>so_arguments := l\<rparr>\<lparr>so_arguments := l'\<rparr>)
        \<and> property_inv l' \<and> prop_pairs l' = prop_pairs l @ soap_values (drop (Suc i) (elements its))"
      using Suc.IH [of "Suc i" "m\<lparr>so_arguments := l\<rparr>"] Suc.prems l by (simp add: v property_room_def)
    then show ?thesis using c(1) nm ct Some l by (simp add: s v)
  qed
qed


text \<open>
  The element with the action: the first element in the first \<open>Body\<close> of the envelope. A document
  is of moderate size when the names and counts on the way to it fit the fields of the tree.
\<close>

definition body_of :: "xitem \<Rightarrow> xitem option" where
  "body_of doc = (case doc of XText s \<Rightarrow> None
     | XElem n atts its \<Rightarrow> List.find (\<lambda>e. map tolower (local_name e) = map tolower ''Body'') (elements its))"

definition first_element :: "xitem \<Rightarrow> xitem option" where
  "first_element e = (case e of XText s \<Rightarrow> None
     | XElem n atts its \<Rightarrow> (case elements its of [] \<Rightarrow> None | c # _ \<Rightarrow> Some c))"

definition soap_action :: "xitem \<Rightarrow> xitem option" where
  "soap_action doc = Option.bind (body_of doc) first_element"

definition moderate :: "xitem \<Rightarrow> bool" where
  "moderate e \<longleftrightarrow> length (local_name e) < XML_TAG_NAME_LEN \<and> (case e of XText s \<Rightarrow> True
     | XElem n atts its \<Rightarrow> names_fit (elements its) \<and> length atts < 2 ^ 31 \<and> list_all (\<lambda>(k, v). length k < XML_ATTR_NAME_LEN) atts)"

lemma soap_action_node:
  assumes "rep lo hi h p d root doc" and "moderate doc" and "soap_action doc = Some act"
  shows "\<exists>b c d'. TinyXmlNode_GetChildByName past h (Some root) (Some ''Body'') = Some (Some b)
    \<and> TinyXmlNode_GetChildAt h (Some b) 0 = Some (Some c) \<and> rep lo hi h (Some b) d' c act"
proof -
  obtain n atts its where doc: "doc = XElem n atts its" using assms(1) by (cases doc) auto
  obtain bd where bd: "List.find (\<lambda>e. map tolower (local_name e) = map tolower ''Body'') (elements its) = Some bd" "first_element bd = Some act"
    using assms(3) doc by (auto simp: soap_action_def body_of_def bind_eq_Some_conv simp del: list.map)
  then obtain bn ba bits more where e: "bd = XElem bn ba bits" "elements bits = act # more"
    by (auto simp: first_element_def split: xitem.splits list.splits)
  have "cstring ''Body''" by (simp add: cstring_def)
  then obtain b where b: "TinyXmlNode_GetChildByName past h (Some root) (Some ''Body'') = Some (Some b)"
      "rep lo hi h (Some root) (d + 1) b bd"
    using child_by_name [OF assms(1) [unfolded doc], of "''Body''" past] assms(2) bd(1)
    by (auto simp: moderate_def names_fit_def doc)
  obtain c where "TinyXmlNode_GetChildAt h (Some b) 0 = Some (Some c)" "rep lo hi h (Some b) (d + 1 + 1) c act"
    using child_at [OF b(2) [unfolded e(1)], of 0] e(2) by auto
  with b(1) show ?thesis by blast
qed

text \<open>What both readers do with the action's element once they know the name of the action.\<close>

lemma action_element:
  assumes "rep lo hi h p d a (XElem an aa aits)" and "moderate (XElem an aa aits)"
  shows "map_of aa ''xmlns'' = None \<Longrightarrow> get_action_xmlns h a m = Some (TINY_RET_E_NOT_FOUND, m)"
    and "map_of aa ''xmlns'' = Some ns \<Longrightarrow> length ns < XML_ATTR_VALUE_LEN \<Longrightarrow>
      get_action_xmlns h a m = Some (TINY_RET_OK, m\<lparr>so_actionXmlns := ns\<rparr>)"
    and "TinyXmlNode_GetChildren h (Some a) = Some (word_of_nat (length (elements aits)))"
    and "unat (word_of_nat (length (elements aits)) :: 32 word) = length (elements aits)"
proof -
  have fit: "list_all (\<lambda>(k, v). length k < XML_ATTR_NAME_LEN) aa" "length aa < 2 ^ 31" "length (elements aits) < 2 ^ 31"
    using assms(2) by (simp_all add: moderate_def names_fit_def)
  note g = get_attr [OF assms(1) fit(1,2)]
  show "map_of aa ''xmlns'' = None \<Longrightarrow> get_action_xmlns h a m = Some (TINY_RET_E_NOT_FOUND, m)"
    by (simp add: get_action_xmlns_def g)
  show "map_of aa ''xmlns'' = Some ns \<Longrightarrow> length ns < XML_ATTR_VALUE_LEN \<Longrightarrow>
      get_action_xmlns h a m = Some (TINY_RET_OK, m\<lparr>so_actionXmlns := ns\<rparr>)"
    by (simp add: get_action_xmlns_def g SoapMessage_SetActionXmlns_def field_cpy_short read_field_def ACTION_XMLNS_LEN_def
        XML_ATTR_VALUE_LEN_def)
  show "TinyXmlNode_GetChildren h (Some a) = Some (word_of_nat (length (elements aits)))"
    by (rule children_count [OF assms(1) fit(3)])
  show "unat (word_of_nat (length (elements aits)) :: 32 word) = length (elements aits)"
    using fit(3) by (simp add: unat_word_of_nat)
qed

definition values_fit :: "(string \<times> string) list \<Rightarrow> bool" where
  "values_fit ps \<longleftrightarrow> distinct (map fst ps) \<and> list_all (\<lambda>nv. length (snd nv) < PROPERTY_VALUE_LEN) ps"

lemma load_args_all:
  assumes "rep lo hi h p d a (XElem an aa aits)" and "moderate (XElem an aa aits)" and "values_fit (soap_values (elements aits))"
    and "so_arguments m = snd PropertyList_Construct"
  shows "\<exists>l. load_args_loop h a 0 (length (elements aits)) (TINY_RET_OK, m) = Some (TINY_RET_OK, m\<lparr>so_arguments := l\<rparr>)
    \<and> property_inv l \<and> prop_pairs l = soap_values (elements aits)"
proof -
  have e: "property_inv (so_arguments m)" "prop_pairs (so_arguments m) = []" "items (so_arguments m) = []"
    by (simp_all add: assms(4) PropertyList_Construct_def property_inv_def prop_pairs_def L_new_def L_SetDeleteListener_def count_ok_def)
  have fit: "names_fit (elements aits)" using assms(2) by (simp add: moderate_def)
  show ?thesis
    using load_args_values [OF assms(1) fit, of 0 "length (elements aits)" m] e assms(3) fit
    by (simp add: values_fit_def property_room_def names_fit_def)
qed

lemma body_request:
  assumes "rep lo hi h p d root doc" and "moderate doc" and "soap_action doc = Some (XElem an aa aits)"
    and "moderate (XElem an aa aits)"
  shows "map_of aa ''xmlns'' = None \<Longrightarrow> load_body_request past h root m =
      Some (TINY_RET_E_NOT_FOUND, m\<lparr>so_actionName := local_name (XElem an aa aits)\<rparr>)"
    and "map_of aa ''xmlns'' = Some ns \<Longrightarrow> length ns < XML_ATTR_VALUE_LEN \<Longrightarrow> values_fit (soap_values (elements aits)) \<Longrightarrow>
      so_arguments m = snd PropertyList_Construct \<Longrightarrow>
      \<exists>l. load_body_request past h root m = Some (TINY_RET_OK,
          m\<lparr>so_actionName := local_name (XElem an aa aits), so_actionXmlns := ns, so_arguments := l\<rparr>)
        \<and> property_inv l \<and> prop_pairs l = soap_values (elements aits)"
proof -
  let ?act = "XElem an aa aits"
  let ?m = "m\<lparr>so_actionName := local_name ?act\<rparr>"
  obtain b c d' where c: "TinyXmlNode_GetChildByName past h (Some root) (Some ''Body'') = Some (Some b)"
      "TinyXmlNode_GetChildAt h (Some b) 0 = Some (Some c)" "rep lo hi h (Some b) d' c ?act"
    using soap_action_node [OF assms(1-3)] by blast
  have fit: "length (local_name ?act) < XML_TAG_NAME_LEN" using assms(4) by (simp only: moderate_def)
  have nm: "TinyXmlNode_GetName h (Some c) = Some (Some (local_name ?act))" by (rule elem_name [OF c(3) fit])
  have set_nm: "snd (get_request_action_name m (Some (local_name ?act))) = ?m" "fst (get_request_action_name m (Some (local_name ?act))) = TINY_RET_OK"
    using fit by (simp_all only: get_request_action_name_def SoapMessage_SetActionName_def)
      (simp_all add: field_cpy_short ACTION_NAME_LEN_def XML_TAG_NAME_LEN_def del: local_name.simps)
  have run: "load_body_request past h root m = Option.bind (get_action_xmlns h c ?m) (\<lambda>(ret, m2).
      if RET_FAILED ret then Some (ret, m2) else load_args_loop h c 0 (length (elements aits)) (ret, m2))"
    unfolding load_body_request_def
    using c(1,2) nm set_nm action_element(3,4) [OF c(3) assms(4)]
    by (simp add: case_prod_unfold del: local_name.simps cong: if_cong)
  show "map_of aa ''xmlns'' = None \<Longrightarrow> load_body_request past h root m = Some (TINY_RET_E_NOT_FOUND, ?m)"
    unfolding run using action_element(1) [OF c(3) assms(4), of ?m] by (simp add: RET_FAILED_def ret_defs del: local_name.simps)
  show "\<exists>l. load_body_request past h root m = Some (TINY_RET_OK,
          m\<lparr>so_actionName := local_name ?act, so_actionXmlns := ns, so_arguments := l\<rparr>)
        \<and> property_inv l \<and> prop_pairs l = soap_values (elements aits)"
    if "map_of aa ''xmlns'' = Some ns" "length ns < XML_ATTR_VALUE_LEN" "values_fit (soap_values (elements aits))"
      "so_arguments m = snd PropertyList_Construct"
    unfolding run using action_element(2) [OF c(3) assms(4) that(1,2), of ?m]
      load_args_all [OF c(3) assms(4) that(3), of "?m\<lparr>so_actionXmlns := ns\<rparr>"] that(4) by (simp del: local_name.simps)
qed


subsection \<open>Results and faults\<close>

definition is_fault_name :: "string \<Rightarrow> bool" where
  "is_fault_name s \<longleftrightarrow> map tolower s = map tolower ''Fault''"

lemma body_response_node:
  assumes "rep lo hi h p d root doc" and "moderate doc" and "soap_action doc = Some act" and "moderate act"
  shows "\<exists>b c d'. rep lo hi h (Some b) d' c act \<and> (\<forall>m. load_body_response past h root m =
    (if is_fault_name (local_name act) then load_soap_fault past h c (m\<lparr>isFault := True\<rparr>)
     else (case get_response_action_name m (local_name act) of (ret1, m1) \<Rightarrow>
       if RET_FAILED ret1 then Some (ret1, m1)
       else do {
         (ret, m2) \<leftarrow> get_action_xmlns h c m1;
         if RET_FAILED ret then Some (ret, m2)
         else do {
           n \<leftarrow> TinyXmlNode_GetChildren h (Some c);
           load_args_loop h c 0 (unat n) (ret, m2) } })))"
proof -
  obtain b c d' where c: "TinyXmlNode_GetChildByName past h (Some root) (Some ''Body'') = Some (Some b)"
      "TinyXmlNode_GetChildAt h (Some b) 0 = Some (Some c)" "rep lo hi h (Some b) d' c act"
    using soap_action_node [OF assms(1-3)] by blast
  have fit: "length (local_name act) < XML_TAG_NAME_LEN" using assms(4) by (simp only: moderate_def)
  have nm: "TinyXmlNode_GetName h (Some c) = Some (Some (local_name act))" by (rule elem_name [OF c(3) fit])
  have "cstring ''Fault''" by (simp add: cstring_def)
  then have f: "str_equal past (Some (local_name act)) (Some ''Fault'') True \<longleftrightarrow> is_fault_name (local_name act)"
    unfolding is_fault_name_def by (rule str_equal_child)
  have "\<forall>m. load_body_response past h root m =
    (if is_fault_name (local_name act) then load_soap_fault past h c (m\<lparr>isFault := True\<rparr>)
     else (case get_response_action_name m (local_name act) of (ret1, m1) \<Rightarrow>
       if RET_FAILED ret1 then Some (ret1, m1)
       else do {
         (ret, m2) \<leftarrow> get_action_xmlns h c m1;
         if RET_FAILED ret then Some (ret, m2)
         else do {
           n \<leftarrow> TinyXmlNode_GetChildren h (Some c);
           load_args_loop h c 0 (unat n) (ret, m2) } }))"
    unfolding load_body_response_def using c(1,2) nm f by (simp del: local_name.simps)
  with c(3) show ?thesis by blast
qed

text \<open>A name is the name of an action followed by \<open>Response\<close>, which does not occur earlier.\<close>

lemma response_action_name:
  assumes "strstr s ''Response'' = Some q" and "length s < ACTION_NAME_LEN"
  shows "get_response_action_name m s = (TINY_RET_OK, m\<lparr>so_actionName := take (length s - length q) s\<rparr>)"
  using assms by (auto simp: get_response_action_name_def SoapMessage_SetActionName_def field_cpy_short soap_lens Let_def)

lemma body_response:
  assumes "rep lo hi h p d root doc" and "moderate doc" and "soap_action doc = Some (XElem an aa aits)"
    and "moderate (XElem an aa aits)" and "local_name (XElem an aa aits) = s" and "\<not> is_fault_name s"
    and "strstr s ''Response'' = Some q"
  shows "map_of aa ''xmlns'' = None \<Longrightarrow> load_body_response past h root m =
      Some (TINY_RET_E_NOT_FOUND, m\<lparr>so_actionName := take (length s - length q) s\<rparr>)"
    and "map_of aa ''xmlns'' = Some ns \<Longrightarrow> length ns < XML_ATTR_VALUE_LEN \<Longrightarrow> values_fit (soap_values (elements aits)) \<Longrightarrow>
      so_arguments m = snd PropertyList_Construct \<Longrightarrow>
      \<exists>l. load_body_response past h root m = Some (TINY_RET_OK,
          m\<lparr>so_actionName := take (length s - length q) s, so_actionXmlns := ns, so_arguments := l\<rparr>)
        \<and> property_inv l \<and> prop_pairs l = soap_values (elements aits)"
proof -
  let ?m = "m\<lparr>so_actionName := take (length s - length q) s\<rparr>"
  define rest where "rest = (\<lambda>c (ret1, m1). if RET_FAILED ret1 then Some (ret1, m1)
       else do {
         (ret, m2) \<leftarrow> get_action_xmlns h c m1;
         if RET_FAILED ret then Some (ret, m2)
         else do {
           n \<leftarrow> TinyXmlNode_GetChildren h (Some c);
           load_args_loop h c 0 (unat n) (ret, m2) } })"
  obtain b c d' where rep: "rep lo hi h (Some b) d' c (XElem an aa aits)"
    and "\<forall>m. load_body_response past h root m = (if is_fault_name s then load_soap_fault past h c (m\<lparr>isFault := True\<rparr>)
      else rest c (get_response_action_name m s))"
    using body_response_node [OF assms(1-4), of past] unfolding assms(5) rest_def by blast
  then have run: "load_body_response past h root m = rest c (get_response_action_name m s)" using assms(6) by simp
  have "length s < ACTION_NAME_LEN" using assms(4,5) by (simp only: moderate_def) (simp add: ACTION_NAME_LEN_def XML_TAG_NAME_LEN_def)
  note nm = response_action_name [OF assms(7) this, of m]
  show "map_of aa ''xmlns'' = None \<Longrightarrow> load_body_response past h root m = Some (TINY_RET_E_NOT_FOUND, ?m)"
    unfolding run nm rest_def using action_element(1) [OF rep assms(4), of ?m] by (simp add: RET_FAILED_def ret_defs)
  show "\<exists>l. load_body_response past h root m = Some (TINY_RET_OK,
          m\<lparr>so_actionName := take (length s - length q) s, so_actionXmlns := ns, so_arguments := l\<rparr>)
        \<and> property_inv l \<and> prop_pairs l = soap_values (elements aits)"
    if "map_of aa ''xmlns'' = Some ns" "length ns < XML_ATTR_VALUE_LEN" "values_fit (soap_values (elements aits))"
      "so_arguments m = snd PropertyList_Construct"
    unfolding run nm rest_def using action_element(2) [OF rep assms(4) that(1,2), of ?m] action_element(3,4) [OF rep assms(4)]
      load_args_all [OF rep assms(4) that(3), of "?m\<lparr>so_actionXmlns := ns\<rparr>"] that(4) by simp
qed

text \<open>The text of the first child of an element with a name, and the child itself.\<close>

definition named_child :: "string \<Rightarrow> xitem \<Rightarrow> xitem option" where
  "named_child s e = (case e of XText t \<Rightarrow> None
     | XElem n atts its \<Rightarrow> List.find (\<lambda>c. map tolower (local_name c) = map tolower s) (elements its))"

definition child_text :: "string \<Rightarrow> xitem \<Rightarrow> string option" where
  "child_text s e = Option.bind (named_child s e) item_text"

lemma fault_element:
  assumes "rep lo hi h p d a f" and "moderate f" and "child_text ''faultcode'' f = Some fc" and "child_text ''faultstring'' f = Some fs"
    and "named_child ''detail'' f = Some det" and "first_element det = Some u" and "moderate u"
    and "child_text ''errorCode'' u = Some ec" and "child_text ''errorDescription'' u = Some ed"
  shows "load_soap_fault past h a m = Some (TINY_RET_OK, m\<lparr>faultCode := atoi fc, faultString := field_cpy FAULT_STRING_LEN fs,
    errorCode := atoi ec, errorDescription := field_cpy ERROR_DESC_LEN ed\<rparr>)"
proof -
  obtain n atts its where f: "f = XElem n atts its" using assms(1) by (cases f) auto
  have c: "cstring ''faultcode''" "cstring ''faultstring''" "cstring ''detail''" "cstring ''errorCode''" "cstring ''errorDescription''"
    by (simp_all add: cstring_def)
  have all: "list_all (\<lambda>e. length (local_name e) < XML_TAG_NAME_LEN) (elements its)"
    using assms(2) f by (simp add: moderate_def names_fit_def)
  note cc = child_content [OF assms(1) [unfolded f] _ all, of _ past]
  have 1: "TinyXmlNode_GetChildContent past h (Some a) (Some ''faultcode'') = Some (Some fc)"
    using cc [OF c(1)] assms(3) by (simp add: f child_text_def named_child_def del: list.map)
  have 2: "TinyXmlNode_GetChildContent past h (Some a) (Some ''faultstring'') = Some (Some fs)"
    using cc [OF c(2)] assms(4) by (simp add: f child_text_def named_child_def del: list.map)
  obtain dn da dits more where det: "det = XElem dn da dits" "elements dits = u # more"
    using assms(6) by (auto simp: first_element_def split: xitem.splits list.splits)
  obtain b where b: "TinyXmlNode_GetChildByName past h (Some a) (Some ''detail'') = Some (Some b)" "rep lo hi h (Some a) (d + 1) b det"
    using child_by_name [OF assms(1) [unfolded f] c(3) all, of past] assms(5) by (auto simp: f named_child_def simp del: list.map)
  obtain v where v: "TinyXmlNode_GetChildAt h (Some b) 0 = Some (Some v)" "rep lo hi h (Some b) (d + 1 + 1) v u"
    using child_at [OF b(2) [unfolded det(1)], of 0] det(2) by auto
  obtain un ua uits where u: "u = XElem un ua uits" using v(2) by (cases u) auto
  have uall: "list_all (\<lambda>e. length (local_name e) < XML_TAG_NAME_LEN) (elements uits)"
    using assms(7) u by (simp add: moderate_def names_fit_def)
  note uc = child_content [OF v(2) [unfolded u] _ uall, of _ past]
  have 3: "TinyXmlNode_GetChildContent past h (Some v) (Some ''errorCode'') = Some (Some ec)"
    using uc [OF c(4)] assms(8) by (simp add: u child_text_def named_child_def del: list.map)
  have 4: "TinyXmlNode_GetChildContent past h (Some v) (Some ''errorDescription'') = Some (Some ed)"
    using uc [OF c(5)] assms(9) by (simp add: u child_text_def named_child_def del: list.map)
  show ?thesis
    using 1 2 3 4 b(1) v(1) by (simp add: load_soap_fault_def SoapMessage_SetFault_def SoapMessage_SetError_def)
qed


subsection \<open>Whole messages\<close>

definition envelope :: "xitem \<Rightarrow> bool" where
  "envelope doc \<longleftrightarrow> (case doc of XText s \<Rightarrow> False | XElem n atts its \<Rightarrow> True)
     \<and> doc_ok doc \<and> moderate doc \<and> strstr (local_name doc) ''Envelope'' \<noteq> None"

definition fresh_soap :: soap_message where
  "fresh_soap = snd (SoapMessage_Construct True)"

lemma fresh_soap_arguments [simp]: "so_arguments fresh_soap = snd PropertyList_Construct"
  by (simp add: fresh_soap_def SoapMessage_Construct_def)

lemma soap_parsed:
  assumes "unused x" and "envelope doc" and "expat content = (sax_of doc, True)" and "content \<noteq> []"
  shows "\<exists>h root lo hi. rep lo hi h None 0 root doc
    \<and> SoapMessage_ParseRequest past expat True (Some x) m (Some content) = load_body_request past h root fresh_soap
    \<and> SoapMessage_ParseResponse past expat True (Some x) m (Some content) = load_body_response past h root fresh_soap"
proof -
  obtain n atts its where doc: "doc = XElem n atts its" using assms(2) by (auto simp: envelope_def split: xitem.splits)
  obtain x' root where x': "TinyXml_Parse expat True x content = Some (TINY_RET_OK, x')" "TinyXml_GetRoot x' = Some root"
      "rep (brk x) (brk x') (xml_heap x') None 0 root doc"
    using tree_of_document [where expat = expat and doc = content, OF assms(1)] assms(2,3) unfolding doc envelope_def by blast
  have "length (local_name doc) < XML_TAG_NAME_LEN" using assms(2) by (simp add: envelope_def moderate_def)
  then have "is_envelope (xml_heap x') root = Some True"
    using elem_name [OF x'(3)] assms(2) by (simp add: is_envelope_def envelope_def)
  then have "SoapMessage_ParseRequest past expat True (Some x) m (Some content) = load_body_request past (xml_heap x') root fresh_soap"
    "SoapMessage_ParseResponse past expat True (Some x) m (Some content) = load_body_response past (xml_heap x') root fresh_soap"
    using x'(1,2) assms(4) by (simp_all add: SoapMessage_ParseRequest_def SoapMessage_ParseResponse_def parse_soap_def
        SoapMessage_ParseRequestXml_def SoapMessage_ParseResponseXml_def fresh_soap_def Let_def)
  with x'(3) show ?thesis by blast
qed

text \<open>The document that \<open>SoapMessage_ToString\<close> writes, as expat reports it for plain names and values.\<close>

definition soap_doc :: "string \<Rightarrow> string \<Rightarrow> (string \<times> string) list \<Rightarrow> xitem" where
  "soap_doc name xmlns ps = XElem ''s:Envelope'' [(''xmlns:s'', ''http://schemas.xmlsoap.org/soap/envelope/''),
       (''s:encodingStyle'', ''http://schemas.xmlsoap.org/soap/encoding/'')]
     [XText ''\<newline>'', XElem ''s:Body'' [] [XText ''\<newline>'',
        XElem (''u:'' @ name) [(''xmlns:u'', xmlns)]
          (XText ''\<newline>'' # concat (map (\<lambda>nv. [XElem (fst nv) [] (value_items (snd nv)), XText ''\<newline>'']) ps)),
        XText ''\<newline>''], XText ''\<newline>'']"

lemma elements_args:
  "elements (concat (map (\<lambda>nv. [XElem (fst nv) [] (value_items (snd nv)), XText t]) ps)) =
     map (\<lambda>nv. XElem (fst nv) [] (value_items (snd nv))) ps"
  by (induction ps) simp_all

lemma soap_names: "local_name (soap_doc name xmlns ps) = ''Envelope''" "local_name (XElem ''s:Body'' atts its) = ''Body''"
    "CHR '':'' \<notin> set name \<Longrightarrow> length name < ACTION_NAME_LEN \<Longrightarrow> local_name (XElem (''u:'' @ name) atts its) = name"
  using local_name_prefixed [of "''s''" "''Envelope''"] local_name_prefixed [of "''s''" "''Body''"]
    local_name_prefixed [of "''u''" name]
  by (simp_all add: soap_doc_def XML_TAG_NAME_LEN_def ACTION_NAME_LEN_def)

lemma soap_names_fit: "list_all pair_ok ps \<Longrightarrow> length ps < 2 ^ 31 \<Longrightarrow>
    names_fit (map (\<lambda>nv. XElem (fst nv) [] (value_items (snd nv))) ps)"
proof -
  assume ps: "list_all pair_ok ps" "length ps < 2 ^ 31"
  have "length (local_name (XElem (fst nv) [] (value_items (snd nv)))) < XML_TAG_NAME_LEN" if "pair_ok nv" for nv
    using that local_name_plain [of "fst nv" "[]" "value_items (snd nv)"]
    by (simp add: pair_ok_def PROPERTY_NAME_LEN_def XML_TAG_NAME_LEN_def)
  with ps show ?thesis by (simp add: names_fit_def list_all_iff del: local_name.simps)
qed

definition sendable_soap :: "soap_message \<Rightarrow> bool" where
  "sendable_soap m \<longleftrightarrow> property_inv (so_arguments m) \<and> list_all pair_ok (prop_pairs (so_arguments m))
     \<and> length (items (so_arguments m)) < 2 ^ 30
     \<and> length (so_actionName m) < ACTION_NAME_LEN \<and> length (so_actionXmlns m) < ACTION_XMLNS_LEN
     \<and> CHR '':'' \<notin> set (so_actionName m)"

lemma sendable_ready: "sendable_soap m \<Longrightarrow> soap_ready m"
  by (auto simp: sendable_soap_def soap_ready_def values_ok_def list_all_iff pair_ok_def)

lemma soap_doc_envelope:
  assumes "list_all pair_ok ps" and "length ps < 2 ^ 30"
  shows "envelope (soap_doc name xmlns ps)"
proof -
  have args: "text_size (concat (map (\<lambda>nv. [XElem (fst nv) [] (value_items (snd nv)), XText ''\<newline>'']) ps)) = length ps"
    by (induction ps) (simp_all add: text_size_def)
  have "doc_ok (XElem (fst nv) [] (value_items (snd nv)))" if "pair_ok nv" for nv
    using that by (auto simp: pair_ok_def value_items_def text_size_def PROPERTY_VALUE_LEN_def)
  then have "list_all doc_ok (concat (map (\<lambda>nv. [XElem (fst nv) [] (value_items (snd nv)), XText ''\<newline>'']) ps))"
    using assms(1) by (auto simp: list_all_iff simp del: doc_ok.simps) (simp add: cstring_def)
  then have "doc_ok (soap_doc name xmlns ps)"
    using args assms(2) by (simp add: soap_doc_def text_size_def cstring_def)
  moreover have "moderate (soap_doc name xmlns ps)"
    unfolding moderate_def soap_names using soap_names(2) [of "[]"]
    by (simp add: soap_doc_def names_fit_def XML_TAG_NAME_LEN_def XML_ATTR_NAME_LEN_def del: local_name.simps)
  moreover have "strstr (local_name (soap_doc name xmlns ps)) ''Envelope'' \<noteq> None" unfolding soap_names by simp
  ultimately show ?thesis by (simp add: envelope_def soap_doc_def del: local_name.simps doc_ok.simps)
qed

definition soap_act :: "string \<Rightarrow> string \<Rightarrow> (string \<times> string) list \<Rightarrow> xitem" where
  "soap_act name xmlns ps = XElem (''u:'' @ name) [(''xmlns:u'', xmlns)]
     (XText ''\<newline>'' # concat (map (\<lambda>nv. [XElem (fst nv) [] (value_items (snd nv)), XText ''\<newline>'']) ps))"

lemma soap_doc_action: "soap_action (soap_doc name xmlns ps) = Some (soap_act name xmlns ps)"
  using soap_names(2) [of "[]"]
  by (simp add: soap_action_def body_of_def soap_doc_def first_element_def soap_act_def del: local_name.simps list.map)

lemma soap_act_moderate:
  assumes "list_all pair_ok ps" and "length ps < 2 ^ 30" and "CHR '':'' \<notin> set name" and "length name < ACTION_NAME_LEN"
  shows "moderate (soap_act name xmlns ps)" and "local_name (soap_act name xmlns ps) = name"
proof -
  show nm: "local_name (soap_act name xmlns ps) = name" unfolding soap_act_def using soap_names(3) [OF assms(3,4)] .
  have "names_fit (elements (XText ''\<newline>'' # concat (map (\<lambda>nv. [XElem (fst nv) [] (value_items (snd nv)), XText ''\<newline>'']) ps)))"
    using soap_names_fit [OF assms(1)] assms(2) by (simp add: elements_args)
  then show "moderate (soap_act name xmlns ps)"
    unfolding moderate_def nm using assms(4)
    by (simp add: soap_act_def ACTION_NAME_LEN_def XML_TAG_NAME_LEN_def XML_ATTR_NAME_LEN_def)
qed

lemma response_not_fault:
  assumes "strstr s ''Response'' = Some q"
  shows "\<not> is_fault_name s"
proof
  assume "is_fault_name s"
  then have "length s = length ''Fault''" unfolding is_fault_name_def by (metis length_map)
  moreover obtain a b where "s = a @ ''Response'' @ b" using strstr_None_iff [of s "''Response''"] assms by auto
  then have "length ''Response'' \<le> length s" by simp
  ultimately show False by simp
qed

lemma own_text_refused:
  assumes "sendable_soap m" and "t = soap_text (so_actionName m) (so_actionXmlns m) (prop_pairs (so_arguments m))" and "length t < len"
    and "unused x"
    and "expat t = (sax_of (soap_doc (so_actionName m) (so_actionXmlns m) (prop_pairs (so_arguments m))), True)"
  shows "SoapMessage_ToString m len = Some (TINY_RET_OK, t)"
    and "SoapMessage_ParseRequest past expat True (Some x) m0 (Some t) =
      Some (TINY_RET_E_NOT_FOUND, fresh_soap\<lparr>so_actionName := so_actionName m\<rparr>)"
    and "strstr (so_actionName m) ''Response'' = Some q \<Longrightarrow> SoapMessage_ParseResponse past expat True (Some x) m0 (Some t) =
      Some (TINY_RET_E_NOT_FOUND, fresh_soap\<lparr>so_actionName := take (length (so_actionName m) - length q) (so_actionName m)\<rparr>)"
proof -
  let ?ps = "prop_pairs (so_arguments m)"
  have ps: "list_all pair_ok ?ps" "length ?ps < 2 ^ 30" "CHR '':'' \<notin> set (so_actionName m)" "length (so_actionName m) < ACTION_NAME_LEN"
    using assms(1) by (simp_all add: sendable_soap_def prop_pairs_def)
  show "SoapMessage_ToString m len = Some (TINY_RET_OK, t)"
    using soap_to_string [OF sendable_ready [OF assms(1)], of len] assms(2,3) by simp
  have "t \<noteq> []" by (simp add: assms(2) soap_text_def SOAP_XML_VERSION_def)
  then obtain h root lo hi where h: "rep lo hi h None 0 root (soap_doc (so_actionName m) (so_actionXmlns m) ?ps)"
      "SoapMessage_ParseRequest past expat True (Some x) m0 (Some t) = load_body_request past h root fresh_soap"
      "SoapMessage_ParseResponse past expat True (Some x) m0 (Some t) = load_body_response past h root fresh_soap"
    using soap_parsed [where expat = expat and content = t, OF assms(4) soap_doc_envelope [OF ps(1,2)] assms(5)] by blast
  have mod: "moderate (soap_doc (so_actionName m) (so_actionXmlns m) ?ps)"
    using soap_doc_envelope [OF ps(1,2)] by (simp add: envelope_def)
  note act = soap_act_moderate [OF ps]
  have none: "map_of [(''xmlns:u'', so_actionXmlns m)] ''xmlns'' = None" by simp
  show "SoapMessage_ParseResponse past expat True (Some x) m0 (Some t) =
      Some (TINY_RET_E_NOT_FOUND, fresh_soap\<lparr>so_actionName := take (length (so_actionName m) - length q) (so_actionName m)\<rparr>)"
    if "strstr (so_actionName m) ''Response'' = Some q"
    unfolding h(3) using body_response(1) [OF h(1) mod soap_doc_action [unfolded soap_act_def] act(1) [unfolded soap_act_def]
      act(2) [unfolded soap_act_def] response_not_fault [OF that] that none, of past fresh_soap] .
  from none show "SoapMessage_ParseRequest past expat True (Some x) m0 (Some t) =
      Some (TINY_RET_E_NOT_FOUND, fresh_soap\<lparr>so_actionName := so_actionName m\<rparr>)"
    using body_request(1) [OF h(1) mod soap_doc_action [unfolded soap_act_def] act(1) [unfolded soap_act_def], of past fresh_soap]
    unfolding h(2) act(2) [unfolded soap_act_def] by simp
qed

subsection \<open>Properties\<close>

text \<open>
  \<open>SoapMessage_ToString\<close> writes the envelope of the action with its arguments in order. A text
  that does not fit the buffer is cut off after \<open>len - 1\<close> bytes and reported as written: none of the
  checks for the space left can fail.
\<close>

theorem soap_print:
  assumes "soap_ready m" and "0 < len"
  shows "SoapMessage_ToString m len =
    Some (TINY_RET_OK, take (len - 1) (soap_text (so_actionName m) (so_actionXmlns m) (prop_pairs (so_arguments m))))"
  using assms by (rule soap_to_string)

definition demo_soap :: soap_message where
  "demo_soap = fresh_soap\<lparr>so_actionName := ''SetTarget'', so_actionXmlns := ''urn:x'', so_arguments :=
     \<lparr>items = [Some \<lparr>pname = ''Target'', pvalue = ''1''\<rparr>], count = 1, log = [], has_listener = True\<rparr>\<rparr>"

lemma demo_soap_fields: "so_actionName demo_soap = ''SetTarget''" "so_actionXmlns demo_soap = ''urn:x''"
    "prop_pairs (so_arguments demo_soap) = [(''Target'', ''1'')]"
  by (simp_all add: demo_soap_def prop_pairs_def)

lemma demo_soap_sendable: "sendable_soap demo_soap"
  by (simp add: sendable_soap_def demo_soap_def property_inv_def prop_pairs_def pair_ok_def count_ok_def field_defs cstring_def)

theorem soap_print_witness:
  "SoapMessage_ToString demo_soap 11 = Some (TINY_RET_OK, take 10 (soap_text ''SetTarget'' ''urn:x'' [(''Target'', ''1'')]))"
  using soap_print [OF sendable_ready [OF demo_soap_sendable], of 11] by (simp add: demo_soap_fields)

text \<open>
  The stack does not understand its own SOAP messages. \<open>SoapMessage_ToString\<close> declares the name
  space of the action as \<open>xmlns:u\<close>, while the readers look for an attribute called \<open>xmlns\<close>: every
  request and every response the stack writes is refused by the stack with \<open>TINY_RET_E_NOT_FOUND\<close>,
  before any argument is read.
\<close>

theorem soap_own_text_refused:
  assumes "sendable_soap m" and "t = soap_text (so_actionName m) (so_actionXmlns m) (prop_pairs (so_arguments m))" and "length t < len"
    and "unused x"
    and "expat t = (sax_of (soap_doc (so_actionName m) (so_actionXmlns m) (prop_pairs (so_arguments m))), True)"
  shows "SoapMessage_ToString m len = Some (TINY_RET_OK, t)
    \<and> map_option fst (SoapMessage_ParseRequest past expat True (Some x) m0 (Some t)) = Some TINY_RET_E_NOT_FOUND
    \<and> (strstr (so_actionName m) ''Response'' \<noteq> None \<longrightarrow>
       map_option fst (SoapMessage_ParseResponse past expat True (Some x) m0 (Some t)) = Some TINY_RET_E_NOT_FOUND)"
  using own_text_refused [where expat = expat and t = t, OF assms] by auto

definition soap_expat :: "string \<Rightarrow> sax list \<times> bool" where
  "soap_expat s = (if s = soap_text ''SetTarget'' ''urn:x'' [(''Target'', ''1'')]
     then (sax_of (soap_doc ''SetTarget'' ''urn:x'' [(''Target'', ''1'')]), True) else ([], False))"

lemma soap_expat_demo: "soap_expat (soap_text ''SetTarget'' ''urn:x'' [(''Target'', ''1'')]) =
    (sax_of (soap_doc ''SetTarget'' ''urn:x'' [(''Target'', ''1'')]), True)"
  unfolding soap_expat_def by (rule if_P) (rule refl)

lemma demo_soap_length: "length (soap_text ''SetTarget'' ''urn:x'' [(''Target'', ''1'')]) < 20480"
  by (simp add: soap_text_def SOAP_XML_VERSION_def SOAP_ENVELOPE_BEGIN_def SOAP_ENVELOPE_BEGIN_XMLNS_def
      SOAP_ENVELOPE_BEGIN_ENCODING_def SOAP_BODY_BEGIN_def SOAP_BODY_END_def SOAP_ENVELOPE_END_def prop_text_def)

theorem soap_own_text_refused_witness:
  "SoapMessage_ToString demo_soap 20480 = Some (TINY_RET_OK, soap_text ''SetTarget'' ''urn:x'' [(''Target'', ''1'')])
    \<and> map_option fst (SoapMessage_ParseRequest NUL soap_expat True (Some fresh_xml) fresh_soap
        (Some (soap_text ''SetTarget'' ''urn:x'' [(''Target'', ''1'')]))) = Some TINY_RET_E_NOT_FOUND"
  using soap_own_text_refused [where expat = soap_expat and len = 20480 and past = NUL and ?m0.0 = fresh_soap,
      OF demo_soap_sendable refl _ fresh_xml_unused, unfolded demo_soap_fields, OF demo_soap_length soap_expat_demo] by blast

lemma request_read:
  assumes "unused x" and "envelope doc" and "expat content = (sax_of doc, True)" and "content \<noteq> []"
    and "soap_action doc = Some (XElem an aa aits)" and "moderate (XElem an aa aits)"
    and "map_of aa ''xmlns'' = Some ns" and "length ns < XML_ATTR_VALUE_LEN" and "values_fit (soap_values (elements aits))"
  shows "\<exists>m'. SoapMessage_ParseRequest past expat True (Some x) m (Some content) = Some (TINY_RET_OK, m')
    \<and> SoapMessage_GetActionName m' = Some (local_name (XElem an aa aits)) \<and> SoapMessage_GetActionXmlns m' = Some ns
    \<and> property_inv (SoapMessage_GetArgumentList m')
    \<and> prop_pairs (SoapMessage_GetArgumentList m') = soap_values (elements aits) \<and> \<not> SoapMessage_IsFault m'"
proof -
  obtain h root lo hi where h: "rep lo hi h None 0 root doc"
      "SoapMessage_ParseRequest past expat True (Some x) m (Some content) = load_body_request past h root fresh_soap"
    using soap_parsed [where expat = expat and content = content, OF assms(1-4)] by blast
  have mod: "moderate doc" using assms(2) by (simp add: envelope_def)
  obtain l where l: "load_body_request past h root fresh_soap = Some (TINY_RET_OK,
          fresh_soap\<lparr>so_actionName := local_name (XElem an aa aits), so_actionXmlns := ns, so_arguments := l\<rparr>)"
      "property_inv l" "prop_pairs l = soap_values (elements aits)"
    using body_request(2) [OF h(1) mod assms(5-9) fresh_soap_arguments, of past] by blast
  have "length (local_name (XElem an aa aits)) < ACTION_NAME_LEN"
    using assms(6) by (simp only: moderate_def) (simp add: XML_TAG_NAME_LEN_def ACTION_NAME_LEN_def)
  moreover have "length ns < ACTION_XMLNS_LEN" using assms(8) by (simp add: XML_ATTR_VALUE_LEN_def ACTION_XMLNS_LEN_def)
  moreover have "\<not> isFault fresh_soap" by (simp add: fresh_soap_def SoapMessage_Construct_def)
  ultimately show ?thesis
    unfolding h(2) l(1) using l(2,3)
    by (simp add: SoapMessage_GetActionName_def SoapMessage_GetActionXmlns_def read_field_def SoapMessage_IsFault_def
        SoapMessage_GetArgumentList_def del: local_name.simps)
qed

text \<open>An element of the action that only binds prefixes, such as \<open>xmlns:u\<close>, is refused.\<close>

lemma request_refused:
  assumes "unused x" and "envelope doc" and "expat content = (sax_of doc, True)" and "content \<noteq> []"
    and "soap_action doc = Some (XElem an aa aits)" and "moderate (XElem an aa aits)" and "map_of aa ''xmlns'' = None"
  shows "\<exists>m'. SoapMessage_ParseRequest past expat True (Some x) m (Some content) = Some (TINY_RET_E_NOT_FOUND, m')"
proof -
  obtain h root lo hi where h: "rep lo hi h None 0 root doc"
      "SoapMessage_ParseRequest past expat True (Some x) m (Some content) = load_body_request past h root fresh_soap"
    using soap_parsed [where expat = expat and content = content, OF assms(1-4)] by blast
  have mod: "moderate doc" using assms(2) by (simp add: envelope_def)
  show ?thesis unfolding h(2) using body_request(1) [OF h(1) mod assms(5-7)] by blast
qed

text \<open>
  A request of another stack is understood: when the element of the action has an attribute
  \<open>xmlns\<close>, \<open>SoapMessage_ParseRequest\<close> takes the local name of the element as the name of the action,
  the value of the attribute, and one argument, in order, for each child element that has a text.
\<close>

theorem soap_request_read:
  assumes "unused x" and "envelope doc" and "expat content = (sax_of doc, True)" and "content \<noteq> []"
    and "soap_action doc = Some (XElem an aa aits)" and "moderate (XElem an aa aits)"
    and "map_of aa ''xmlns'' = Some ns" and "length ns < XML_ATTR_VALUE_LEN" and "values_fit (soap_values (elements aits))"
  shows "\<exists>m'. SoapMessage_ParseRequest past expat True (Some x) m (Some content) = Some (TINY_RET_OK, m')
    \<and> SoapMessage_GetActionName m' = Some (local_name (XElem an aa aits)) \<and> SoapMessage_GetActionXmlns m' = Some ns
    \<and> prop_pairs (SoapMessage_GetArgumentList m') = soap_values (elements aits) \<and> \<not> SoapMessage_IsFault m'"
  using request_read [where expat = expat and content = content, OF assms] by blast

text \<open>A message of another stack, with the given action in its body.\<close>

definition wrap_action :: "xitem \<Rightarrow> xitem" where
  "wrap_action act = XElem ''s:Envelope'' [] [XElem ''s:Body'' [] [act]]"

lemma wrap_names: "local_name (wrap_action act) = ''Envelope''"
  using local_name_prefixed [of "''s''" "''Envelope''" "[]"] by (simp add: wrap_action_def XML_TAG_NAME_LEN_def del: local_name.simps)

lemma wrap_action_of: "act = XElem an aa aits \<Longrightarrow> soap_action (wrap_action act) = Some act"
  using soap_names(2) [of "[]"]
  by (simp add: soap_action_def body_of_def wrap_action_def first_element_def del: local_name.simps list.map)

lemma wrap_envelope: "act = XElem an aa aits \<Longrightarrow> doc_ok act \<Longrightarrow> envelope (wrap_action act)"
  unfolding envelope_def moderate_def wrap_names using soap_names(2) [of "[]"]
  by (simp add: wrap_action_def names_fit_def text_size_def XML_TAG_NAME_LEN_def del: local_name.simps)

definition demo_request_action :: xitem where
  "demo_request_action = XElem ''u:SetTarget'' [(''xmlns'', ''urn:x'')] [XElem ''Target'' [] [XText ''1'']]"

lemma target_name: "local_name (XElem ''Target'' [] its) = ''Target''"
  using local_name_plain [of "''Target''"] by (simp add: XML_TAG_NAME_LEN_def del: local_name.simps)

lemma target_values: "soap_values (elements [XElem ''Target'' [] [XText ''1'']]) = [(''Target'', ''1'')]"
  by (simp add: soap_values_def target_name elem_text_def is_blank_def opt_text_def del: local_name.simps)

lemma demo_request_action_ok: "doc_ok demo_request_action" "moderate demo_request_action"
    "local_name demo_request_action = ''SetTarget''"
proof -
  show nm: "local_name demo_request_action = ''SetTarget''"
    using local_name_prefixed [of "''u''" "''SetTarget''"] by (simp add: demo_request_action_def XML_TAG_NAME_LEN_def del: local_name.simps)
  show "doc_ok demo_request_action" by (simp add: demo_request_action_def text_size_def cstring_def)
  show "moderate demo_request_action"
    unfolding moderate_def nm by (simp add: demo_request_action_def names_fit_def target_name XML_TAG_NAME_LEN_def XML_ATTR_NAME_LEN_def del: local_name.simps)
qed

text \<open>The same call with the name space bound to the prefix, as the comments of the source write it.\<close>

definition demo_prefixed_action :: xitem where
  "demo_prefixed_action = XElem ''u:SetTarget'' [(''xmlns:u'', ''urn:x'')] [XElem ''Target'' [] [XText ''1'']]"

lemma demo_prefixed_action_ok: "doc_ok demo_prefixed_action" "moderate demo_prefixed_action"
proof -
  have nm: "local_name demo_prefixed_action = ''SetTarget''"
    using local_name_prefixed [of "''u''" "''SetTarget''"] by (simp add: demo_prefixed_action_def XML_TAG_NAME_LEN_def del: local_name.simps)
  show "doc_ok demo_prefixed_action" by (simp add: demo_prefixed_action_def text_size_def cstring_def)
  show "moderate demo_prefixed_action"
    unfolding moderate_def nm by (simp add: demo_prefixed_action_def names_fit_def target_name XML_TAG_NAME_LEN_def XML_ATTR_NAME_LEN_def del: local_name.simps)
qed

definition foreign_expat :: "xitem \<Rightarrow> string \<Rightarrow> sax list \<times> bool" where
  "foreign_expat act s = (sax_of (wrap_action act), True)"

theorem soap_request_read_witness:
  "\<exists>m'. SoapMessage_ParseRequest NUL (foreign_expat demo_request_action) True (Some fresh_xml) fresh_soap (Some ''x'') = Some (TINY_RET_OK, m')
    \<and> SoapMessage_GetActionName m' = Some ''SetTarget'' \<and> SoapMessage_GetActionXmlns m' = Some ''urn:x''
    \<and> prop_pairs (SoapMessage_GetArgumentList m') = [(''Target'', ''1'')] \<and> \<not> SoapMessage_IsFault m'"
proof -
  have "values_fit (soap_values (elements [XElem ''Target'' [] [XText ''1'']]))"
    unfolding target_values by (simp add: values_fit_def PROPERTY_VALUE_LEN_def)
  moreover have "soap_action (wrap_action demo_request_action) =
      Some (XElem ''u:SetTarget'' [(''xmlns'', ''urn:x'')] [XElem ''Target'' [] [XText ''1'']])"
    using wrap_action_of [OF demo_request_action_def] by (simp add: demo_request_action_def)
  ultimately show ?thesis
    using soap_request_read [where expat = "foreign_expat demo_request_action" and content = "''x''" and ns = "''urn:x''" and past = NUL
        and m = fresh_soap, OF fresh_xml_unused wrap_envelope [OF demo_request_action_def demo_request_action_ok(1)] _ _
        _ demo_request_action_ok(2) [unfolded demo_request_action_def]]
      demo_request_action_ok(3) [unfolded demo_request_action_def] target_values
    by (simp add: foreign_expat_def XML_ATTR_VALUE_LEN_def del: local_name.simps elements.simps)
qed

lemma response_read:
  assumes "unused x" and "envelope doc" and "expat content = (sax_of doc, True)" and "content \<noteq> []"
    and "soap_action doc = Some (XElem an aa aits)" and "moderate (XElem an aa aits)"
    and "strstr (local_name (XElem an aa aits)) ''Response'' = Some q"
    and "map_of aa ''xmlns'' = Some ns" and "length ns < XML_ATTR_VALUE_LEN" and "values_fit (soap_values (elements aits))"
  shows "\<exists>m' name. SoapMessage_ParseResponse past expat True (Some x) m (Some content) = Some (TINY_RET_OK, m')
    \<and> local_name (XElem an aa aits) = name @ q \<and> SoapMessage_GetActionName m' = Some name
    \<and> property_inv (SoapMessage_GetArgumentList m')
    \<and> prop_pairs (SoapMessage_GetArgumentList m') = soap_values (elements aits) \<and> \<not> SoapMessage_IsFault m'"
proof -
  let ?s = "local_name (XElem an aa aits)"
  obtain h root lo hi where h: "rep lo hi h None 0 root doc"
      "SoapMessage_ParseResponse past expat True (Some x) m (Some content) = load_body_response past h root fresh_soap"
    using soap_parsed [where expat = expat and content = content, OF assms(1-4)] by blast
  have mod: "moderate doc" using assms(2) by (simp add: envelope_def)
  let ?n = "take (length ?s - length q) ?s"
  obtain l where l: "load_body_response past h root fresh_soap = Some (TINY_RET_OK,
          fresh_soap\<lparr>so_actionName := ?n, so_actionXmlns := ns, so_arguments := l\<rparr>)"
      "property_inv l" "prop_pairs l = soap_values (elements aits)"
    using body_response(2) [OF h(1) mod assms(5,6) refl response_not_fault [OF assms(7)] assms(7-10) fresh_soap_arguments, of past] by blast
  have len: "length ?s < ACTION_NAME_LEN"
    using assms(6) by (simp only: moderate_def) (simp add: XML_TAG_NAME_LEN_def ACTION_NAME_LEN_def)
  obtain a where "?s = a @ q" using strstr_Some [OF assms(7)] by blast
  then have "?s = ?n @ q" by simp
  moreover have "\<not> isFault fresh_soap" by (simp add: fresh_soap_def SoapMessage_Construct_def)
  moreover have "length ?n < ACTION_NAME_LEN" using len by simp
  ultimately show ?thesis
    unfolding h(2) l(1) using l(2,3)
    by (intro exI [of _ "fresh_soap\<lparr>so_actionName := ?n, so_actionXmlns := ns, so_arguments := l\<rparr>"] exI [of _ ?n])
      (simp add: SoapMessage_GetActionName_def read_field_def SoapMessage_IsFault_def SoapMessage_GetArgumentList_def del: local_name.simps)
qed

lemma response_refused:
  assumes "unused x" and "envelope doc" and "expat content = (sax_of doc, True)" and "content \<noteq> []"
    and "soap_action doc = Some (XElem an aa aits)" and "moderate (XElem an aa aits)"
    and "strstr (local_name (XElem an aa aits)) ''Response'' = Some q" and "map_of aa ''xmlns'' = None"
  shows "\<exists>m'. SoapMessage_ParseResponse past expat True (Some x) m (Some content) = Some (TINY_RET_E_NOT_FOUND, m')"
proof -
  obtain h root lo hi where h: "rep lo hi h None 0 root doc"
      "SoapMessage_ParseResponse past expat True (Some x) m (Some content) = load_body_response past h root fresh_soap"
    using soap_parsed [where expat = expat and content = content, OF assms(1-4)] by blast
  have mod: "moderate doc" using assms(2) by (simp add: envelope_def)
  show ?thesis
    unfolding h(2) using body_response(1) [OF h(1) mod assms(5,6) refl response_not_fault [OF assms(7)] assms(7,8)] by blast
qed

text \<open>
  A result of another stack is understood in the same way; the name of the action is the part of
  the local name before the first \<open>Response\<close>.
\<close>

theorem soap_response_read:
  assumes "unused x" and "envelope doc" and "expat content = (sax_of doc, True)" and "content \<noteq> []"
    and "soap_action doc = Some (XElem an aa aits)" and "moderate (XElem an aa aits)"
    and "strstr (local_name (XElem an aa aits)) ''Response'' = Some q"
    and "map_of aa ''xmlns'' = Some ns" and "length ns < XML_ATTR_VALUE_LEN" and "values_fit (soap_values (elements aits))"
  shows "\<exists>m' name. SoapMessage_ParseResponse past expat True (Some x) m (Some content) = Some (TINY_RET_OK, m')
    \<and> local_name (XElem an aa aits) = name @ q \<and> SoapMessage_GetActionName m' = Some name
    \<and> prop_pairs (SoapMessage_GetArgumentList m') = soap_values (elements aits) \<and> \<not> SoapMessage_IsFault m'"
  using response_read [where expat = expat and content = content, OF assms] by blast

definition demo_result_action :: xitem where
  "demo_result_action = XElem ''u:GetTargetResponse'' [(''xmlns'', ''urn:x'')] [XElem ''Target'' [] [XText ''1'']]"

lemma demo_result_action_ok: "doc_ok demo_result_action" "moderate demo_result_action"
    "local_name demo_result_action = ''GetTargetResponse''"
proof -
  show nm: "local_name demo_result_action = ''GetTargetResponse''"
    using local_name_prefixed [of "''u''" "''GetTargetResponse''"] by (simp add: demo_result_action_def XML_TAG_NAME_LEN_def del: local_name.simps)
  show "doc_ok demo_result_action" by (simp add: demo_result_action_def text_size_def cstring_def)
  show "moderate demo_result_action"
    unfolding moderate_def nm by (simp add: demo_result_action_def names_fit_def target_name XML_TAG_NAME_LEN_def XML_ATTR_NAME_LEN_def del: local_name.simps)
qed

definition demo_prefixed_result :: xitem where
  "demo_prefixed_result = XElem ''u:GetTargetResponse'' [(''xmlns:u'', ''urn:x'')] [XElem ''Target'' [] [XText ''1'']]"

lemma demo_prefixed_result_ok: "doc_ok demo_prefixed_result" "moderate demo_prefixed_result"
    "local_name demo_prefixed_result = ''GetTargetResponse''"
proof -
  show nm: "local_name demo_prefixed_result = ''GetTargetResponse''"
    using local_name_prefixed [of "''u''" "''GetTargetResponse''"] by (simp add: demo_prefixed_result_def XML_TAG_NAME_LEN_def del: local_name.simps)
  show "doc_ok demo_prefixed_result" by (simp add: demo_prefixed_result_def text_size_def cstring_def)
  show "moderate demo_prefixed_result"
    unfolding moderate_def nm by (simp add: demo_prefixed_result_def names_fit_def target_name XML_TAG_NAME_LEN_def XML_ATTR_NAME_LEN_def del: local_name.simps)
qed

theorem soap_response_read_witness:
  "\<exists>m'. SoapMessage_ParseResponse NUL (foreign_expat demo_result_action) True (Some fresh_xml) fresh_soap (Some ''x'') = Some (TINY_RET_OK, m')
    \<and> SoapMessage_GetActionName m' = Some ''GetTarget'' \<and> prop_pairs (SoapMessage_GetArgumentList m') = [(''Target'', ''1'')]"
proof -
  have "values_fit (soap_values (elements [XElem ''Target'' [] [XText ''1'']]))"
    unfolding target_values by (simp add: values_fit_def PROPERTY_VALUE_LEN_def)
  moreover have "soap_action (wrap_action demo_result_action) =
      Some (XElem ''u:GetTargetResponse'' [(''xmlns'', ''urn:x'')] [XElem ''Target'' [] [XText ''1'']])"
    using wrap_action_of [OF demo_result_action_def] by (simp add: demo_result_action_def)
  ultimately show ?thesis
    using soap_response_read [where expat = "foreign_expat demo_result_action" and content = "''x''" and ns = "''urn:x''" and past = NUL
        and m = fresh_soap and q = "''Response''", OF fresh_xml_unused wrap_envelope [OF demo_result_action_def demo_result_action_ok(1)] _ _
        _ demo_result_action_ok(2) [unfolded demo_result_action_def]]
      demo_result_action_ok(3) [unfolded demo_result_action_def] target_values
    by (auto simp: foreign_expat_def XML_ATTR_VALUE_LEN_def simp del: local_name.simps elements.simps)
qed

lemma fault_read:
  assumes "unused x" and "envelope doc" and "expat content = (sax_of doc, True)" and "content \<noteq> []"
    and "soap_action doc = Some f" and "moderate f" and "map tolower (local_name f) = map tolower ''Fault''"
    and "child_text ''faultcode'' f = Some fc" and "child_text ''faultstring'' f = Some fs"
    and "named_child ''detail'' f = Some det" and "first_element det = Some u" and "moderate u"
    and "child_text ''errorCode'' u = Some ec" and "child_text ''errorDescription'' u = Some ed"
    and "length fs < FAULT_STRING_LEN" and "length ed < ERROR_DESC_LEN"
  shows "\<exists>m'. SoapMessage_ParseResponse past expat True (Some x) m (Some content) = Some (TINY_RET_OK, m')
    \<and> SoapMessage_IsFault m' \<and> SoapMessage_GetFaultcode m' = atoi fc \<and> SoapMessage_GetFaultstring m' = Some fs
    \<and> SoapMessage_GetErrorCode m' = atoi ec \<and> SoapMessage_GetErrorDescription m' = Some ed"
proof -
  obtain h root lo hi where h: "rep lo hi h None 0 root doc"
      "SoapMessage_ParseResponse past expat True (Some x) m (Some content) = load_body_response past h root fresh_soap"
    using soap_parsed [where expat = expat and content = content, OF assms(1-4)] by blast
  have mod: "moderate doc" using assms(2) by (simp add: envelope_def)
  obtain b c d' where c: "rep lo hi h (Some b) d' c f"
      "load_body_response past h root fresh_soap = load_soap_fault past h c (fresh_soap\<lparr>isFault := True\<rparr>)"
    using body_response_node [OF h(1) mod assms(5,6), of past] assms(7) unfolding is_fault_name_def by metis
  show ?thesis
    unfolding h(2) c(2) fault_element [OF c(1) assms(6,8-14)] using assms(15,16)
    by (simp add: SoapMessage_IsFault_def SoapMessage_GetFaultcode_def SoapMessage_GetFaultstring_def SoapMessage_GetErrorCode_def
        SoapMessage_GetErrorDescription_def read_field_cpy)
qed

text \<open>
  A fault is understood: the message is marked as a fault and carries the fault code and text and
  the UPnP error code and description of its \<open>detail\<close> element.
\<close>

theorem soap_fault_read:
  assumes "unused x" and "envelope doc" and "expat content = (sax_of doc, True)" and "content \<noteq> []"
    and "soap_action doc = Some f" and "moderate f" and "map tolower (local_name f) = map tolower ''Fault''"
    and "child_text ''faultcode'' f = Some fc" and "child_text ''faultstring'' f = Some fs"
    and "named_child ''detail'' f = Some det" and "first_element det = Some u" and "moderate u"
    and "child_text ''errorCode'' u = Some ec" and "child_text ''errorDescription'' u = Some ed"
    and "length fs < FAULT_STRING_LEN" and "length ed < ERROR_DESC_LEN"
  shows "\<exists>m'. SoapMessage_ParseResponse past expat True (Some x) m (Some content) = Some (TINY_RET_OK, m')
    \<and> SoapMessage_IsFault m' \<and> SoapMessage_GetFaultcode m' = atoi fc \<and> SoapMessage_GetFaultstring m' = Some fs
    \<and> SoapMessage_GetErrorCode m' = atoi ec \<and> SoapMessage_GetErrorDescription m' = Some ed"
  using fault_read [where expat = expat and content = content, OF assms] by blast

definition demo_fault_action :: xitem where
  "demo_fault_action = XElem ''s:Fault'' [] [XElem ''faultcode'' [] [XText ''7''], XElem ''faultstring'' [] [XText ''UPnPError''],
     XElem ''detail'' [] [XElem ''UPnPError'' [] [XElem ''errorCode'' [] [XText ''501''],
       XElem ''errorDescription'' [] [XText ''Action Failed'']]]]"

text \<open>The children of the two elements, with names that need no splitting.\<close>

lemma plain_names:
  "local_name (XElem ''faultcode'' [] its) = ''faultcode''" "local_name (XElem ''faultstring'' [] its) = ''faultstring''"
  "local_name (XElem ''detail'' [] its) = ''detail''" "local_name (XElem ''UPnPError'' [] its) = ''UPnPError''"
  "local_name (XElem ''errorCode'' [] its) = ''errorCode''" "local_name (XElem ''errorDescription'' [] its) = ''errorDescription''"
  "local_name (XElem ''s:Fault'' [] its) = ''Fault''"
  using local_name_plain [of "''faultcode''"] local_name_plain [of "''faultstring''"] local_name_plain [of "''detail''"]
    local_name_plain [of "''UPnPError''"] local_name_plain [of "''errorCode''"] local_name_plain [of "''errorDescription''"]
    local_name_prefixed [of "''s''" "''Fault''"]
  by (simp_all add: XML_TAG_NAME_LEN_def del: local_name.simps)

theorem soap_fault_read_witness:
  "\<exists>m'. SoapMessage_ParseResponse NUL (foreign_expat demo_fault_action) True (Some fresh_xml) fresh_soap (Some ''x'') = Some (TINY_RET_OK, m')
    \<and> SoapMessage_IsFault m' \<and> SoapMessage_GetErrorCode m' = 501 \<and> SoapMessage_GetErrorDescription m' = Some ''Action Failed''"
proof -
  let ?u = "XElem ''UPnPError'' [] [XElem ''errorCode'' [] [XText ''501''], XElem ''errorDescription'' [] [XText ''Action Failed'']]"
  have low: "map tolower ''errorCode'' = ''errorcode''" "map tolower ''errorDescription'' = ''errordescription''"
    "map tolower ''faultcode'' = ''faultcode''" "map tolower ''faultstring'' = ''faultstring''" "map tolower ''detail'' = ''detail''"
    by (simp_all add: tolower_def char_of_def bit_0)
  note ev = child_text_def named_child_def plain_names low elem_text_def is_blank_def opt_text_def Let_def
  have 1: "child_text ''faultcode'' demo_fault_action = Some ''7''" "child_text ''faultstring'' demo_fault_action = Some ''UPnPError''"
    "named_child ''detail'' demo_fault_action = Some (XElem ''detail'' [] [?u])"
    "child_text ''errorCode'' ?u = Some ''501''" "child_text ''errorDescription'' ?u = Some ''Action Failed''"
    by (simp_all add: demo_fault_action_def ev del: local_name.simps list.map)
  have 2: "moderate demo_fault_action" "moderate ?u"
    unfolding moderate_def demo_fault_action_def plain_names
    by (simp_all add: names_fit_def plain_names XML_TAG_NAME_LEN_def del: local_name.simps)
  have 3: "doc_ok demo_fault_action" by (simp add: demo_fault_action_def text_size_def cstring_def)
  have 4: "map tolower (local_name demo_fault_action) = map tolower ''Fault''" by (simp only: demo_fault_action_def plain_names)
  have 5: "foreign_expat demo_fault_action ''x'' = (sax_of (wrap_action demo_fault_action), True)" by (simp add: foreign_expat_def)
  have 6: "soap_action (wrap_action demo_fault_action) = Some demo_fault_action" by (rule wrap_action_of [OF demo_fault_action_def])
  have 7: "first_element (XElem ''detail'' [] [?u]) = Some ?u" by (simp add: first_element_def)
  have 8: "atoi ''501'' = 501" using atoi_show_int [of 501] by (simp add: show_int_def show_nat_small show_nat_big digit_char_def char_of_def bit_0)
  show ?thesis
    using soap_fault_read [where expat = "foreign_expat demo_fault_action" and content = "''x''" and past = NUL and m = fresh_soap,
        OF fresh_xml_unused wrap_envelope [OF demo_fault_action_def 3] 5 _ 6 2(1) 4 1(1-3) 7 2(2) 1(4,5)] 8
    by (auto simp: FAULT_STRING_LEN_def ERROR_DESC_LEN_def)
qed

end
