(* ===== verification/HttpWire.thy ===== *)
theory HttpWire
  imports HttpText
begin

section \<open>Messages on the wire\<close>

text \<open>
  How the users of \<open>HttpMessage.c\<close> build their messages, what is written for them and what the
  receiver reads: lemmas shared by the SOAP and eventing messages and the replies of the server.
\<close>

subsection \<open>Building a message\<close>

lemma set_request_shape:
  "HttpMessage_SetRequest [] m a b = Some (r, m') \<Longrightarrow> content m' = content m
    \<and> (header m' = header m \<or> (\<exists>host. header m' = header_set_all [(''HOST'', host)] (header m)))"
  by (auto simp: HttpMessage_SetRequest_def HttpMessage_SetUri_def HttpMessage_SetMethod_def HttpMessage_SetVersion_def
      HttpMessage_SetType_def HttpMessage_SetPort_def HttpMessage_SetIp_def Let_def split: option.splits prod.splits if_splits)

lemma set_whole_content:
  assumes "content m = fresh_content" and "t \<noteq> []" and "length t \<le> HTTP_CONTENT_MAX_SIZE"
  shows "HttpMessage_AddContentObject (snd (HttpMessage_SetContentSize True m (word_of_nat (length t)))) (Some t) (word_of_nat (length t)) =
    Some (TINY_RET_OK, m\<lparr>content := full_content t\<rparr>)"
proof -
  have n: "unat (word_of_nat (length t) :: 32 word) = length t"
    using assms(3) by (intro unat_word_of_nat) (simp add: HTTP_CONTENT_MAX_SIZE_def)
  have mc: "memcpy_at (replicate (length t) NUL) 0 t (length t) = Some t" by (simp add: memcpy_at_def)
  show ?thesis
    using assms by (simp add: HttpMessage_AddContentObject_def HttpMessage_SetContentSize_def fresh_content_def full_content_def
        HttpContent_Construct_def HttpContent_SetSize_def HttpContent_Dispose_def HttpContent_AddObject_def n mc Let_def)
qed

lemma set_header_all:
  "HttpMessage_SetHeader [] m (Some k) (Some v) = m\<lparr>header := header_set_all [(k, v)] (header m)\<rparr>"
  "HttpMessage_SetHeaderInteger [] m (Some k) n = m\<lparr>header := header_set_all [(k, field_printf 32 (show_nat (unat n)))] (header m)\<rparr>"
  by (simp_all add: HttpMessage_SetHeader_def HttpMessage_SetHeaderInteger_def HttpHeader_SetInteger_def)

lemma set_all_append: "header_set_all ys (header_set_all xs h) = header_set_all (xs @ ys) h"
  by (simp add: header_set_all_def)

definition at_url :: "string \<Rightarrow> string \<Rightarrow> nat \<Rightarrow> string \<Rightarrow> bool" where
  "at_url url host prt uri \<longleftrightarrow> url = ''http://'' @ host @ '':'' @ show_nat prt @ uri
     \<and> (\<forall>x \<in> set host. x \<noteq> CHR '':'' \<and> x \<noteq> CHR ''/'') \<and> length host < TINY_IP_LEN
     \<and> (uri = [] \<or> hd uri = CHR ''/'') \<and> length uri < HTTP_URI_LEN \<and> prt < 2 ^ 16"

subsection \<open>What is received\<close>

definition request_line :: "string \<Rightarrow> string \<Rightarrow> string" where
  "request_line mt uri = mt @ CHR '' '' # uri @ '' HTTP/1.1'' @ [CR, LF]"

definition response_line :: "int \<Rightarrow> string \<Rightarrow> string" where
  "response_line code txt = ''HTTP/1.1 '' @ show_int code @ CHR '' '' # txt @ [CR, LF]"

text \<open>Headers and a content that can be sent: tokens, lines that fit, the length of the content.\<close>

definition head_ok :: "(string \<times> string) list \<Rightarrow> nat \<Rightarrow> bool" where
  "head_ok kvs n \<longleftrightarrow> (\<forall>kv \<in> set kvs. plain_header kv \<and> length (header_text kv) < HTTP_LINE_LEN)
     \<and> length kvs < 2 ^ 20 \<and> n \<le> HTTP_CONTENT_MAX_SIZE
     \<and> map_of (map (\<lambda>(k, v). (header_key k, v)) kvs) (header_key ''Content-Length'') =
       (if n = 0 then None else Some (show_nat n))"

definition wire_ok :: "(string \<times> string) list \<Rightarrow> string \<Rightarrow> bool" where
  "wire_ok kvs body \<longleftrightarrow> head_ok kvs (length body)"

definition token_ok :: "string \<Rightarrow> bool" where
  "token_ok mt \<longleftrightarrow> mt \<noteq> [] \<and> list_all is_name_char mt \<and> length mt < HTTP_METHOD_LEN"

definition uri_ok :: "string \<Rightarrow> bool" where
  "uri_ok uri \<longleftrightarrow> uri \<noteq> [] \<and> list_all (\<lambda>c. \<not> is_ctl (sbyte c) \<and> c \<noteq> CHR '' '') uri \<and> length uri < HTTP_URI_LEN"

definition reply_ok :: "int \<Rightarrow> string \<Rightarrow> bool" where
  "reply_ok code txt \<longleftrightarrow> num_ok code \<and> list_all (\<lambda>c. \<not> is_ctl (sbyte c)) txt \<and> length txt \<le> 200"

lemma show_code_length: "num_ok code \<Longrightarrow> length (show_int code) \<le> 8"
  using show_nat_length [of "nat code" 8] by (simp add: num_ok_def show_int_def nat_less_iff)

lemma header_lines_length:
  "\<forall>kv \<in> set kvs. length (header_text kv) < HTTP_LINE_LEN \<Longrightarrow> length (concat (map header_text kvs)) \<le> 256 * length kvs"
  by (induction kvs) (auto simp: HTTP_LINE_LEN_def)

lemma wire_length:
  assumes "head_ok kvs n" and "length body \<le> n" and "length line < 2 ^ 20"
  shows "length (http_text line kvs body) < 2 ^ 32"
proof -
  have "length (concat (map header_text kvs)) \<le> 256 * length kvs"
    using assms(1) unfolding head_ok_def by (intro header_lines_length) blast
  then show ?thesis using assms by (simp add: http_text_def head_ok_def HTTP_CONTENT_MAX_SIZE_def)
qed

lemma wire_pairs:
  assumes "head_ok kvs n"
  shows "header_pairs (header_set_all kvs (snd (L_RemoveAll (snd HttpHeader_Construct)))) = kvs"
    and "header_inv (header_set_all kvs (snd (L_RemoveAll (snd HttpHeader_Construct))))"
proof -
  have "map (\<lambda>(k, v). (field_cpy HTTP_MAX_NAME_LEN k, field_cpy HTTP_MAX_VALUE_LEN v)) kvs = kvs"
    using assms by (intro map_idI) (auto simp: head_ok_def plain_header_def field_cpy_short)
  then show "header_pairs (header_set_all kvs (snd (L_RemoveAll (snd HttpHeader_Construct)))) = kvs"
    by (simp add: header_pairs_set_all) (simp add: header_pairs_def L_RemoveAll_def)
  show "header_inv (header_set_all kvs (snd (L_RemoveAll (snd HttpHeader_Construct))))"
    using assms by (intro header_inv_set_all)
      (simp_all add: head_ok_def HttpHeader_Construct_def L_RemoveAll_def header_inv_def L_SetDeleteListener_def L_new_def count_ok_def)
qed

lemma wire_received:
  assumes "head_ok kvs n" and "length b \<le> n" and "length line < 2 ^ 20"
    and "header m1 = snd HttpHeader_Construct" and "content m1 = fresh_content"
    and "load_first_line m0 (http_text line kvs b) (word_of_nat (length (http_text line kvs b))) = Some (m1, Some (http_text [] kvs b))"
  shows "\<exists>m'. HttpMessage_Parse [] m0 (http_text line kvs b) (word_of_nat (length (http_text line kvs b))) = Some (TINY_RET_OK, m')
    \<and> header_inv (header m') \<and> header_pairs (header m') = kvs \<and> content m' = part_content n b
    \<and> mtype m' = mtype m1 \<and> req_method m' = req_method m1 \<and> req_uri m' = req_uri m1
    \<and> status_code m' = status_code m1 \<and> status_text m' = status_text m1"
  using parse_part [OF assms(6) wire_length [OF assms(1-3)] _ _ assms(2) _ assms(4,5)] assms(1) wire_pairs [OF assms(1)]
  by (simp add: head_ok_def assms(4))

text \<open>
  A request and a response that were written are read with everything they carry; of a content
  of \<open>n\<close> bytes the first part may have arrived.
\<close>

lemma request_arrived:
  assumes "token_ok mt" and "uri_ok uri" and "head_ok kvs n" and "length body \<le> n"
    and "out = http_text (request_line mt uri) kvs body"
  shows "\<exists>m. HttpMessage_Parse [] fresh_message out (word_of_nat (length out)) = Some (TINY_RET_OK, m)
    \<and> mtype m = HTTP_REQUEST \<and> req_method m = mt \<and> req_uri m = uri
    \<and> header_inv (header m) \<and> header_pairs (header m) = kvs \<and> content m = part_content n body"
proof -
  define m where "m = fresh_message\<lparr>mtype := HTTP_REQUEST, req_method := mt, req_uri := uri, major := 1, minor := 1\<rparr>"
  have ok: "request_ok m" using assms(1,2)
    by (simp add: request_ok_def m_def token_ok_def uri_ok_def version_ok_def num_ok_def)
  have line: "request_text m = request_line mt uri"
    by (simp add: request_text_def request_line_def m_def printed_version_def show_int_def show_nat_small)
  have short: "length (request_line mt uri) < 2 ^ 20"
    using assms(1,2) by (simp add: request_line_def token_ok_def uri_ok_def field_defs)
  have "unat (word_of_nat (length out) :: 32 word) = length out"
    unfolding assms(5) using wire_length [OF assms(3,4) short] by (intro unat_word_of_nat) simp
  moreover have "14 \<le> length out" using assms(1,2)
    by (cases mt; cases uri) (auto simp: assms(5) http_text_def request_line_def token_ok_def uri_ok_def)
  ultimately have "14 \<le> unat (word_of_nat (length out) :: 32 word)" by simp
  then have "load_first_line fresh_message out (word_of_nat (length out)) =
      Some (fresh_message\<lparr>req_method := mt, req_uri := uri, major := 1, minor := 1, mtype := HTTP_REQUEST\<rparr>, Some (http_text [] kvs body))"
    using load_first_request [OF ok, of fresh_message "word_of_nat (length out)" "http_text [] kvs body"]
    unfolding line by (simp add: m_def assms(5) http_text_def)
  then show ?thesis
    using wire_received [OF assms(3,4) short, of "fresh_message\<lparr>req_method := mt, req_uri := uri, major := 1, minor := 1, mtype := HTTP_REQUEST\<rparr>"
        fresh_message] by (fastforce simp: assms(5))
qed

lemma response_arrived:
  assumes "reply_ok code txt" and "head_ok kvs n" and "length body \<le> n" and "out = http_text (response_line code txt) kvs body"
  shows "\<exists>m. HttpMessage_Parse [] fresh_message out (word_of_nat (length out)) = Some (TINY_RET_OK, m)
    \<and> mtype m = HTTP_RESPONSE \<and> status_code m = code \<and> HttpMessage_GetStatus m = Some []
    \<and> header_inv (header m) \<and> header_pairs (header m) = kvs \<and> content m = part_content n body"
proof -
  define m where "m = fresh_message\<lparr>mtype := HTTP_RESPONSE, status_code := code, status_text := txt, major := 1, minor := 1\<rparr>"
  have ok: "response_ok m" using assms(1)
    by (simp add: response_ok_def m_def reply_ok_def version_ok_def num_ok_def)
  have line: "response_text m = response_line code txt"
    by (simp add: response_text_def response_line_def m_def printed_version_def show_int_def show_nat_small)
  have "length (show_int code) \<le> 8"
    using assms(1) by (intro show_code_length) (simp add: reply_ok_def)
  then have short: "length (response_line code txt) < 2 ^ 20"
    using assms(1) by (simp add: response_line_def reply_ok_def)
  have "unat (word_of_nat (length out) :: 32 word) = length out"
    unfolding assms(4) using wire_length [OF assms(2,3) short] by (intro unat_word_of_nat) simp
  moreover have "14 \<le> length out" using show_int_length [of code]
    by (simp add: assms(4) http_text_def response_line_def)
  ultimately have "14 \<le> unat (word_of_nat (length out) :: 32 word)" by simp
  then have "load_first_line fresh_message out (word_of_nat (length out)) =
      Some (fresh_message\<lparr>major := 1, minor := 1, status_code := code, status_text := [], mtype := HTTP_RESPONSE\<rparr>,
        Some (http_text [] kvs body))"
    using load_first_response [OF ok, of fresh_message "word_of_nat (length out)" "http_text [] kvs body"]
    unfolding line by (simp add: m_def assms(4) http_text_def)
  then show ?thesis
    using wire_received [OF assms(2,3) short, of "fresh_message\<lparr>major := 1, minor := 1, status_code := code, status_text := [], mtype := HTTP_RESPONSE\<rparr>"
        fresh_message] by (fastforce simp: assms(4) HttpMessage_GetStatus_def read_field_def HTTP_STATUS_LEN_def)
qed

text \<open>
  A head that is cut behind one of its lines is invalid: the parser misses the empty line. One that is cut in a
  value is undefined behaviour: the copy of the value looks for the carriage return behind the terminator.
\<close>

lemma header_loop_lines:
  "\<forall>kv \<in> set kvs. plain_header kv \<Longrightarrow>
    header_loop [] h (concat (map header_text kvs) @ q) = header_loop [] (header_set_all kvs h) q"
proof (induction kvs arbitrary: h)
  case (Cons kv kvs)
  then have p: "plain_header kv" by simp
  define r where "r = concat (map header_text kvs) @ q"
  have "header_loop [] h (header_text kv @ r) = header_loop [] (fst (HttpHeader_Set [] h (Some (fst kv)) (Some (snd kv)))) r"
    by (subst header_loop.simps) (simp add: header_start_text [OF p] header_line_text [OF p])
  then show ?case using Cons by (cases kv) (simp add: r_def)
qed simp

lemma header_loop_end: "header_loop [] h [] = Some (h, [], None)"
  by (subst header_loop.simps) (simp add: header_start_def is_name_char_def is_char_def is_ctl_def sbyte_def)

lemma copy_unclosed: "CR \<notin> set s \<Longrightarrow> copy_while (\<lambda>c. c \<noteq> CR) n i s = None"
  by (induction s arbitrary: i) auto

lemma header_loop_in_value:
  assumes "k \<noteq> []" and "\<forall>c \<in> set k. is_name_char c" and "length k \<le> HTTP_MAX_NAME_LEN" and "CR \<notin> set v"
  shows "header_loop oks h (k @ CHR '':'' # CHR '' '' # v) = None"
proof -
  obtain c k' where k: "k = c # k'" using assms(1) by (cases k) auto
  then have c: "is_name_char c" using assms(2) by simp
  then have cs: "c \<noteq> CHR '' ''" "c \<noteq> CHR 0x09" "c \<noteq> CR" by auto
  have cn: "copy_while (\<lambda>c. is_name_char c \<and> c \<noteq> CHR '':'') HTTP_MAX_NAME_LEN 0 (k @ CHR '':'' # CHR '' '' # v) =
      Some (k, CHR '':'' # CHR '' '' # v)"
    using assms(2,3) by (intro copy_while_stop) auto
  have d: "deref (k @ CHR '':'' # CHR '' '' # v) = c" by (simp add: k)
  have "header_line oks h (k @ CHR '':'' # CHR '' '' # v) = None"
    unfolding header_line_def cn d using copy_unclosed [OF assms(4)] by (simp add: cs)
  then show ?thesis by (subst header_loop.simps) (simp add: d header_start_def c cs)
qed

lemma head_cut:
  assumes "token_ok mt" and "uri_ok uri" and "\<forall>kv \<in> set kvs. plain_header kv"
    and "out = request_line mt uri @ concat (map header_text kvs) @ q" and "length out < 2 ^ 32"
  shows "q = [] \<Longrightarrow> \<exists>m. HttpMessage_Parse [] fresh_message out (word_of_nat (length out)) = Some (TINY_RET_E_HTTP_MSG_INVALID, m)"
    and "q = k @ CHR '':'' # CHR '' '' # v \<Longrightarrow> k \<noteq> [] \<Longrightarrow> \<forall>c \<in> set k. is_name_char c \<Longrightarrow> length k \<le> HTTP_MAX_NAME_LEN \<Longrightarrow> CR \<notin> set v
      \<Longrightarrow> HttpMessage_Parse [] fresh_message out (word_of_nat (length out)) = None"
proof -
  define m where "m = fresh_message\<lparr>mtype := HTTP_REQUEST, req_method := mt, req_uri := uri, major := 1, minor := 1\<rparr>"
  have ok: "request_ok m" using assms(1,2)
    by (simp add: request_ok_def m_def token_ok_def uri_ok_def version_ok_def num_ok_def)
  have line: "request_text m = request_line mt uri"
    by (simp add: request_text_def request_line_def m_def printed_version_def show_int_def show_nat_small)
  have "14 \<le> length out" using assms(1,2)
    by (cases mt; cases uri) (auto simp: assms(4) request_line_def token_ok_def uri_ok_def)
  then have "14 \<le> unat (word_of_nat (length out) :: 32 word)" using assms(5) by (simp add: unat_word_of_nat)
  then obtain m1 where l: "load_first_line fresh_message out (word_of_nat (length out)) = Some (m1, Some (concat (map header_text kvs) @ q))"
    using load_first_request [OF ok, of fresh_message "word_of_nat (length out)" "concat (map header_text kvs) @ q"]
    unfolding line by (auto simp: assms(4))
  show "\<exists>m. HttpMessage_Parse [] fresh_message out (word_of_nat (length out)) = Some (TINY_RET_E_HTTP_MSG_INVALID, m)" if "q = []"
    using l header_loop_lines [OF assms(3), of _ "[]"] that
    by (auto simp: HttpMessage_Parse_def HttpHeader_Parse_def header_loop_end)
  show "HttpMessage_Parse [] fresh_message out (word_of_nat (length out)) = None"
    if "q = k @ CHR '':'' # CHR '' '' # v" "k \<noteq> []" "\<forall>c \<in> set k. is_name_char c" "length k \<le> HTTP_MAX_NAME_LEN" "CR \<notin> set v"
    using l header_loop_in_value [OF that(2-5)]
    by (simp add: HttpMessage_Parse_def HttpHeader_Parse_def header_loop_lines [OF assms(3)] that(1))
qed

lemma request_received:
  assumes "token_ok mt" and "uri_ok uri" and "wire_ok kvs body" and "out = http_text (request_line mt uri) kvs body"
  shows "\<exists>m. HttpMessage_Parse [] fresh_message out (word_of_nat (length out)) = Some (TINY_RET_OK, m)
    \<and> mtype m = HTTP_REQUEST \<and> req_method m = mt \<and> req_uri m = uri
    \<and> header_inv (header m) \<and> header_pairs (header m) = kvs \<and> content m = full_content body"
  using request_arrived [OF assms(1,2) assms(3) [unfolded wire_ok_def] order_refl assms(4)] by (simp add: part_content_whole)

lemma response_received:
  assumes "reply_ok code txt" and "wire_ok kvs body" and "out = http_text (response_line code txt) kvs body"
  shows "\<exists>m. HttpMessage_Parse [] fresh_message out (word_of_nat (length out)) = Some (TINY_RET_OK, m)
    \<and> mtype m = HTTP_RESPONSE \<and> status_code m = code \<and> HttpMessage_GetStatus m = Some []
    \<and> header_inv (header m) \<and> header_pairs (header m) = kvs \<and> content m = full_content body"
  using response_arrived [OF assms(1) assms(2) [unfolded wire_ok_def] order_refl assms(3)] by (simp add: part_content_whole)

subsection \<open>What is written\<close>

lemma wire_headers_fit:
  assumes "wire_ok kvs body" and "header_pairs h = kvs" and "header_inv h"
  shows "headers_fit h"
  using assms by (auto simp: wire_ok_def head_ok_def headers_fit_def header_pairs_def)

lemma full_content_ok:
  assumes "length b \<le> HTTP_CONTENT_MAX_SIZE"
  shows "content_inv (full_content b)" "HttpContent_IsFull (full_content b)" "unat (buf_size (full_content b)) = length b"
    "content_data (full_content b) = b"
proof -
  have l: "length b < 2 ^ 32" using assms by (simp add: HTTP_CONTENT_MAX_SIZE_def)
  then have n: "unat (word_of_nat (length b) :: 32 word) = length b" by (intro unat_word_of_nat) simp
  show "content_inv (full_content b)" "HttpContent_IsFull (full_content b)" "unat (buf_size (full_content b)) = length b"
    using n by (simp_all add: content_inv_def full_content_def fresh_content_def HttpContent_Construct_def HttpContent_IsFull_def)
  show "content_data (full_content b) = b" using l by (rule content_data_full)
qed

lemma message_written:
  assumes "mtype m \<noteq> HTTP_UNDEFINED" and "first_line m = Some line" and "length line < HTTP_LINE_LEN"
    and "wire_ok kvs body" and "header_pairs (header m) = kvs" and "header_inv (header m)" and "content m = full_content body"
    and "length line + length (concat (map header_text kvs)) \<le> HTTP_HEAD_LEN * length kvs"
  shows "HttpMessage_ToBytes True m = Some (TINY_RET_OK, Some (http_text line kvs body))"
proof -
  have b: "length body \<le> HTTP_CONTENT_MAX_SIZE" using assms(4) by (simp add: wire_ok_def head_ok_def)
  have n: "length (items (header m)) = length kvs" using assms(5) by (auto simp: header_pairs_def)
  have "room_ok line m" using assms(3,8) by (simp add: room_ok_def assms(5) n)
  then show ?thesis
    using to_bytes_text [OF assms(1,2) wire_headers_fit [OF assms(4-6)]] full_content_ok [OF b] b assms(5,7) by simp
qed

text \<open>A response without headers and content, as \<open>UpnpHttpConnection_SendError\<close> prints it.\<close>

lemma status_written:
  assumes "reply_ok code txt"
    and "m = HttpMessage_SetResponse (HttpMessage_SetVersion (HttpMessage_SetType fresh_message HTTP_RESPONSE) 1 1) code (Some txt)"
    and "out = http_text (response_line code txt) [] []"
  shows "HttpMessage_ToString m 1024 = Some (length out, out)"
proof -
  have l: "length (show_int code) \<le> 8"
    using assms(1) by (intro show_code_length) (simp add: reply_ok_def)
  then have len: "length (response_line code txt) < HTTP_LINE_LEN"
    using assms(1) by (simp add: response_line_def reply_ok_def HTTP_LINE_LEN_def)
  have ft: "field_cpy HTTP_STATUS_LEN txt = txt" using assms(1) by (simp add: reply_ok_def field_defs)
  have m: "mtype m = HTTP_RESPONSE" "header m = snd HttpHeader_Construct" "content m = fresh_content" "status_text m = txt"
      "status_code m = code" "major m = 1" "minor m = 1" "protocol_identifier m = ''HTTP''"
    by (simp_all add: assms(2) ft HttpMessage_SetResponse_def HttpMessage_SetVersion_def HttpMessage_SetType_def)
  have fl: "first_line m = Some (response_line code txt)"
    using assms(1) by (simp add: first_line_def m read_field_def field_defs response_line_def printed_version_def reply_ok_def
        show_int_def show_nat_small Let_def)
  have h: "header_pairs (header m) = []" "headers_fit (header m)"
    by (simp_all add: m headers_fit_def header_pairs_def header_inv_def HttpHeader_Construct_def L_SetDeleteListener_def L_new_def count_ok_def)
  have "length (http_text (response_line code txt) (header_pairs (header m)) []) < 1024"
    using len by (simp add: h(1) http_text_def HTTP_LINE_LEN_def)
  moreover have "HttpContent_GetSize (content m) = 0"
    by (simp add: m fresh_content_def HttpContent_Construct_def HttpContent_GetSize_def)
  ultimately show ?thesis
    using to_string_of [OF _ fl h(2) len] m(1) by (simp add: assms(3) h(1))
qed

text \<open>The next piece of a content.\<close>

lemma add_piece:
  assumes "content m = part_content n p" and "0 < n" and "n \<le> HTTP_CONTENT_MAX_SIZE" and "length p + length q \<le> n"
  shows "HttpMessage_AddContentObject m (Some q) (word_of_nat (length q)) = Some (TINY_RET_OK, m\<lparr>content := part_content n (p @ q)\<rparr>)"
    and "HttpContent_IsFull (part_content n p) \<longleftrightarrow> length p = n"
proof -
  have u: "unat (word_of_nat k :: 32 word) = k" if "k \<le> n" for k
    using that assms(3) by (intro unat_word_of_nat) (simp add: HTTP_CONTENT_MAX_SIZE_def)
  have n: "unat (word_of_nat n :: 32 word) = n" "unat (word_of_nat (length p) :: 32 word) = length p"
      "unat (word_of_nat (length q) :: 32 word) = length q"
    using assms(4) by (simp_all add: u)
  have le: "(word_of_nat (length p) :: 32 word) \<le> word_of_nat n" using n assms(4) by (simp add: word_le_nat_alt)
  have "unat (word_of_nat n - word_of_nat (length p) :: 32 word) = n - length p"
    using unat_sub [OF le] by (simp add: n)
  then have room: "\<not> (word_of_nat n - word_of_nat (length p) :: 32 word) < word_of_nat (length q)"
    using n assms(4) by (simp add: word_less_nat_alt)
  have mc: "memcpy_at (p @ replicate (n - length p) NUL) (length p) q (length q) = Some ((p @ q) @ replicate (n - length (p @ q)) NUL)"
    using assms(4) by (simp add: memcpy_at_def)
  have c: "content m = \<lparr>cbuf = Some (p @ replicate (n - length p) NUL), buf_size = word_of_nat n, data_size = word_of_nat (length p)\<rparr>"
    using assms(1,2) by (simp add: part_content_def)
  show "HttpMessage_AddContentObject m (Some q) (word_of_nat (length q)) = Some (TINY_RET_OK, m\<lparr>content := part_content n (p @ q)\<rparr>)"
    using room assms(2) by (simp add: HttpMessage_AddContentObject_def HttpContent_AddObject_def c n mc part_content_def Let_def)
  have "(word_of_nat n :: 32 word) = word_of_nat (length p) \<longleftrightarrow> n = length p" by (metis n(1,2))
  then show "HttpContent_IsFull (part_content n p) \<longleftrightarrow> length p = n"
    using assms(2) by (auto simp: HttpContent_IsFull_def part_content_def)
qed

end
