(* ===== verification/SoapAction.thy ===== *)
theory SoapAction
  imports SoapMessage GenaServer HttpWire
begin

section \<open>Actions on the wire: \<open>ActionRequest.c\<close>, \<open>ActionResponse.c\<close>, \<open>UpnpActionExecutor.c\<close>\<close>

text \<open>
  An action is called by the control point with \<open>ActionToRequest\<close>, executed by the host in \<open>OnPost\<close>
  with \<open>ActionFromRequest\<close> and the handler of the device, answered with \<open>ActionToResponse\<close> and read
  by the control point with \<open>ActionFromResponse\<close>. The values of the arguments live in the state
  variables of the service, which are changed in place. What \<open>SoapMessage_New\<close> and \<open>tiny_malloc\<close>
  return is an argument, the other allocations are taken to succeed; what is printed to a log or
  the console is left out.
\<close>

definition UPNP_SOAP_LEN :: nat where "UPNP_SOAP_LEN = 1024 * 20"
definition UPNP_STACK_INFO :: string where "UPNP_STACK_INFO = ''UPnP/1.0 UpnpLan/1.0''"
definition UPNP_ERR_DESCRIPTION_LEN :: nat where "UPNP_ERR_DESCRIPTION_LEN = 256"
definition HTTP_STATUS_OK :: int where "HTTP_STATUS_OK = 200"
definition UPNP_SUCCESS :: int where "UPNP_SUCCESS = 200"

record upnp_error =
  err_code :: int
  err_description :: string

subsection \<open>From the action to a SOAP message\<close>

text \<open>
  The arguments of one direction with the values of their variables, read as for an event. An
  argument whose variable does not exist ends the loop without an error.
\<close>

fun soap_args :: "'f float_ops \<Rightarrow> arg_direction \<Rightarrow> upnp_action \<Rightarrow> 'f upnp_service \<Rightarrow> 32 word \<Rightarrow> nat \<Rightarrow> property_list
    \<Rightarrow> (tiny_ret \<times> property_list) option" where
  "soap_args fl dir act s i 0 l = Some (TINY_RET_OK, l)"
| "soap_args fl dir act s i (Suc n) l = do {
     arg \<leftarrow> UpnpAction_GetArgumentAt act i;
     if UpnpArgument_GetDirection arg \<noteq> dir then soap_args fl dir act s (i + 1) n l
     else do {
       related \<leftarrow> UpnpArgument_GetRelatedStateVariable arg;
       found \<leftarrow> UpnpService_GetStateVariable s (Some related);
       (case found of
          None \<Rightarrow> Some (TINY_RET_OK, l)
        | Some v \<Rightarrow> do {
            name \<leftarrow> UpnpArgument_GetName arg;
            val \<leftarrow> event_value fl v;
            (case val of
               Inl ret \<Rightarrow> Some (ret, l)
             | Inr t \<Rightarrow> do {
                 (_, l') \<leftarrow> PropertyList_Add [] l (Some name) t;
                 soap_args fl dir act s (i + 1) n l' }) }) } }"

text \<open>
  The two fillers differ in the direction and in how the name is set. The device is tested by
  mistake through its service, so that a service without a device has a NULL URL base.
\<close>

definition fill_soap ::
    "'f float_ops \<Rightarrow> arg_direction \<Rightarrow> (soap_message \<Rightarrow> string option \<Rightarrow> tiny_ret \<times> soap_message) \<Rightarrow> 'f ustore
      \<Rightarrow> upnp_action \<Rightarrow> soap_message \<Rightarrow> (tiny_ret \<times> soap_message) option" where
  "fill_soap fl dir set_name u act m = (case UpnpAction_GetParentService act of
       None \<Rightarrow> Some (TINY_RET_E_UPNP_SERVICE_NOT_FOUND, m)
     | Some sa \<Rightarrow> do {
         s \<leftarrow> srv_at u sa;
         da \<leftarrow> UpnpService_GetParentDevice s;
         d \<leftarrow> dev_at u da;
         ctrlUrl \<leftarrow> UpnpService_GetControlURL s;
         urlBase \<leftarrow> UpnpDevice_GetURLBase d;
         name \<leftarrow> UpnpAction_GetName act;
         ty \<leftarrow> UpnpService_GetServiceType s;
         let m1 = snd (SoapMessage_SetServerURL m (Some (field_printf TINY_URL_LEN (urlBase @ ctrlUrl))));
         let m2 = snd (SoapMessage_SetActionXmlns (snd (set_name m1 (Some name))) (Some ty));
         (ret, l) \<leftarrow> soap_args fl dir act s 0 (unat (UpnpAction_GetArgumentCount act)) (so_arguments m2);
         Some (ret, m2\<lparr>so_arguments := l\<rparr>) })"

definition ActionToSoapRequest :: "'f float_ops \<Rightarrow> 'f ustore \<Rightarrow> upnp_action \<Rightarrow> soap_message \<Rightarrow> (tiny_ret \<times> soap_message) option" where
  "ActionToSoapRequest fl u act m = fill_soap fl ARG_IN SoapMessage_SetActionName u act m"

definition ActionToSoapResponse :: "'f float_ops \<Rightarrow> 'f ustore \<Rightarrow> upnp_action \<Rightarrow> soap_message \<Rightarrow> (tiny_ret \<times> soap_message) option" where
  "ActionToSoapResponse fl u act m = fill_soap fl ARG_OUT SoapMessage_SetResponseActionName u act m"

definition SoapRequestToHttpRequest :: "bool \<Rightarrow> soap_message \<Rightarrow> http_message \<Rightarrow> (tiny_ret \<times> http_message) option" where
  "SoapRequestToHttpRequest malloc_ok m request = do {
     serverUrl \<leftarrow> SoapMessage_GetServerURL m;
     actionName \<leftarrow> SoapMessage_GetActionName m;
     actionXmlns \<leftarrow> SoapMessage_GetActionXmlns m;
     let soap_action = field_printf 256 (''\"'' @ actionXmlns @ ''#'' @ actionName @ ''\"'');
     if \<not> malloc_ok then Some (TINY_RET_E_OUT_OF_MEMORY, request)
     else do {
       (ret, txt) \<leftarrow> SoapMessage_ToString m UPNP_SOAP_LEN;
       if RET_FAILED ret then Some (ret, request)
       else do {
         let n = word_of_nat (length txt);
         (_, r1) \<leftarrow> HttpMessage_SetRequest [] request (Some ''POST'') (Some serverUrl);
         let r2 = HttpMessage_SetHeader [] r1 (Some ''Content-Type'') (Some ''text/xml;charset=\"utf-8\"'');
         let r3 = HttpMessage_SetHeader [] r2 (Some ''Soapaction'') (Some soap_action);
         let r4 = HttpMessage_SetHeader [] r3 (Some ''User-Agent'') (Some UPNP_STACK_INFO);
         let r5 = HttpMessage_SetHeaderInteger [] r4 (Some ''Content-Length'') n;
         let r6 = snd (HttpMessage_SetContentSize True r5 n);
         (_, r7) \<leftarrow> HttpMessage_AddContentObject r6 (Some txt) n;
         Some (ret, r7) } } }"

definition ActionToRequest ::
    "bool \<Rightarrow> bool \<Rightarrow> 'f float_ops \<Rightarrow> 'f ustore \<Rightarrow> upnp_action \<Rightarrow> http_message \<Rightarrow> (tiny_ret \<times> http_message) option" where
  "ActionToRequest new_ok malloc_ok fl u act request = (case SoapMessage_New new_ok True of
       None \<Rightarrow> Some (TINY_RET_E_NEW, request)
     | Some m \<Rightarrow> do {
         (ret, m') \<leftarrow> ActionToSoapRequest fl u act m;
         if RET_FAILED ret then Some (ret, request) else SoapRequestToHttpRequest malloc_ok m' request })"

definition SoapResponseToHttpResponse :: "bool \<Rightarrow> soap_message \<Rightarrow> http_message \<Rightarrow> (tiny_ret \<times> http_message) option" where
  "SoapResponseToHttpResponse malloc_ok m response = do {
     actionName \<leftarrow> SoapMessage_GetActionName m;
     actionXmlns \<leftarrow> SoapMessage_GetActionXmlns m;
     if \<not> malloc_ok then Some (TINY_RET_E_OUT_OF_MEMORY, response)
     else do {
       (ret, txt) \<leftarrow> SoapMessage_ToString m UPNP_SOAP_LEN;
       if RET_FAILED ret then Some (ret, response)
       else do {
         let n = word_of_nat (length txt);
         let r1 = HttpMessage_SetResponse (HttpMessage_SetVersion (HttpMessage_SetType response HTTP_RESPONSE) 1 1) 200 (Some ''OK'');
         let r2 = HttpMessage_SetHeader [] r1 (Some ''Content-Type'') (Some ''text/xml;charset=\"utf-8\"'');
         let r3 = HttpMessage_SetHeader [] r2 (Some ''User-Agent'') (Some UPNP_STACK_INFO);
         let r4 = HttpMessage_SetHeaderInteger [] r3 (Some ''Content-Length'') n;
         let r5 = snd (HttpMessage_SetContentSize True r4 n);
         (_, r6) \<leftarrow> HttpMessage_AddContentObject r5 (Some txt) n;
         Some (ret, r6) } } }"

definition ActionToResponse ::
    "bool \<Rightarrow> bool \<Rightarrow> 'f float_ops \<Rightarrow> 'f ustore \<Rightarrow> upnp_action \<Rightarrow> http_message \<Rightarrow> (tiny_ret \<times> http_message) option" where
  "ActionToResponse new_ok malloc_ok fl u act response = (case SoapMessage_New new_ok True of
       None \<Rightarrow> Some (TINY_RET_E_NEW, response)
     | Some m \<Rightarrow> do {
         (ret, m') \<leftarrow> ActionToSoapResponse fl u act m;
         if RET_FAILED ret then Some (ret, response) else SoapResponseToHttpResponse malloc_ok m' response })"

subsection \<open>From a SOAP message to the action\<close>

text \<open>The variable with a name, and the service after the variable at a position got a value.\<close>

definition variable_find :: "'f upnp_service \<Rightarrow> string \<Rightarrow> (int \<times> 'f service_variable) option option" where
  "variable_find s name = find_named variable_name (stateVariableTable s) name 0
     (unat (word_of_int (L_GetCount (stateVariableTable s)) :: 32 word))"

definition store_value :: "'f ustore \<Rightarrow> addr \<Rightarrow> int \<Rightarrow> 'f service_variable \<Rightarrow> 'f data_value \<Rightarrow> 'f ustore" where
  "store_value u sa i v val = (case srv_at u sa of
       None \<Rightarrow> u
     | Some s \<Rightarrow> u\<lparr>srv_at := (srv_at u)(sa \<mapsto> s\<lparr>stateVariableTable := (stateVariableTable s)
         \<lparr>items := (items (stateVariableTable s))[nat i := Some (v\<lparr>sv_value := val\<rparr>)]\<rparr>\<rparr>)\<rparr>)"

text \<open>An action without a service has no variables.\<close>

definition variable_of :: "'f ustore \<Rightarrow> addr option \<Rightarrow> string \<Rightarrow> (addr \<times> int \<times> 'f service_variable) option option" where
  "variable_of u service name = (case service of
       None \<Rightarrow> Some None
     | Some sa \<Rightarrow> do {
         s \<leftarrow> srv_at u sa;
         map_option (map_option (Pair sa)) (variable_find s name) })"

fun request_args :: "'f float_ops \<Rightarrow> upnp_action \<Rightarrow> property_list \<Rightarrow> 32 word \<Rightarrow> nat \<Rightarrow> tiny_ret \<times> 'f ustore
    \<Rightarrow> (tiny_ret \<times> 'f ustore) option" where
  "request_args fl act l i 0 st = Some st"
| "request_args fl act l i (Suc n) st = do {
     arg \<leftarrow> UpnpAction_GetArgumentAt act i;
     if UpnpArgument_GetDirection arg \<noteq> ARG_IN then request_args fl act l (i + 1) n st
     else do {
       name \<leftarrow> UpnpArgument_GetName arg;
       val \<leftarrow> PropertyList_GetPropertyValue l (Some name);
       (case val of
          None \<Rightarrow> Some (TINY_RET_E_UPNP_ARGUMENT_NOT_FOUND, snd st)
        | Some raw \<Rightarrow> do {
            related \<leftarrow> UpnpArgument_GetRelatedStateVariable arg;
            found \<leftarrow> variable_of (snd st) (UpnpAction_GetParentService act) related;
            (case found of
               None \<Rightarrow> Some (TINY_RET_E_UPNP_ARGUMENT_NOT_FOUND, snd st)
             | Some (sa, k, v) \<Rightarrow> do {
                 text' \<leftarrow> read_field PROPERTY_VALUE_LEN raw;
                 (ret, val') \<leftarrow> DataValue_SetValue fl True (sv_value v) (Some text');
                 let st' = (ret, store_value (snd st) sa k v val');
                 if RET_FAILED ret then Some st' else request_args fl act l (i + 1) n st' }) }) } }"

definition ActionFromRequest ::
    "char \<Rightarrow> (string \<Rightarrow> sax list \<times> bool) \<Rightarrow> bool \<Rightarrow> bool \<Rightarrow> txml option \<Rightarrow> 'f float_ops \<Rightarrow> 'f ustore \<Rightarrow> upnp_action
      \<Rightarrow> string option \<Rightarrow> (tiny_ret \<times> 'f ustore) option" where
  "ActionFromRequest past expat new_ok parser_ok xml fl u act body = (case SoapMessage_New new_ok True of
       None \<Rightarrow> Some (TINY_RET_E_NEW, u)
     | Some m \<Rightarrow> do {
         (ret, m') \<leftarrow> SoapMessage_ParseRequest past expat parser_ok xml m body;
         if RET_FAILED ret then Some (ret, u)
         else request_args fl act (SoapMessage_GetArgumentList m') 0 (unat (UpnpAction_GetArgumentCount act)) (ret, u) })"

fun response_args :: "'f float_ops \<Rightarrow> upnp_action \<Rightarrow> property_list \<Rightarrow> 32 word \<Rightarrow> nat \<Rightarrow> tiny_ret \<times> 'f ustore
    \<Rightarrow> (tiny_ret \<times> 'f ustore) option" where
  "response_args fl act l i 0 st = Some st"
| "response_args fl act l i (Suc n) st = do {
     arg \<leftarrow> UpnpAction_GetArgumentAt act i;
     if UpnpArgument_GetDirection arg \<noteq> ARG_OUT then response_args fl act l (i + 1) n st
     else do {
       related \<leftarrow> UpnpArgument_GetRelatedStateVariable arg;
       found \<leftarrow> variable_of (snd st) (UpnpAction_GetParentService act) related;
       (case found of
          None \<Rightarrow> Some (TINY_RET_E_UPNP_ARGUMENT_NOT_FOUND, snd st)
        | Some (sa, k, v) \<Rightarrow> do {
            name \<leftarrow> UpnpArgument_GetName arg;
            val \<leftarrow> PropertyList_GetPropertyValue l (Some name);
            (case val of
               None \<Rightarrow> Some (TINY_RET_E_UPNP_ARGUMENT_NOT_FOUND, snd st)
             | Some raw \<Rightarrow> do {
                 text' \<leftarrow> read_field PROPERTY_VALUE_LEN raw;
                 (ret, val') \<leftarrow> DataValue_SetValue fl True (sv_value v) (Some text');
                 let st' = (ret, store_value (snd st) sa k v val');
                 if RET_FAILED ret then Some st' else response_args fl act l (i + 1) n st' }) }) } }"

definition SoapResponseToActionResult ::
    "'f float_ops \<Rightarrow> soap_message \<Rightarrow> 'f ustore \<Rightarrow> upnp_action \<Rightarrow> upnp_error \<Rightarrow> (tiny_ret \<times> 'f ustore \<times> upnp_error) option" where
  "SoapResponseToActionResult fl m u act err =
     (if SoapMessage_IsFault m then do {
        str \<leftarrow> SoapMessage_GetErrorDescription m;
        Some (TINY_RET_E_UPNP_INVOKE_FAILED, u,
          \<lparr>err_code = SoapMessage_GetErrorCode m, err_description = field_cpy UPNP_ERR_DESCRIPTION_LEN str\<rparr>) }
      else do {
        let ret0 = (if UpnpAction_GetParentService act = None then TINY_RET_E_UPNP_SERVICE_NOT_FOUND else TINY_RET_OK);
        (ret, u') \<leftarrow> response_args fl act (SoapMessage_GetArgumentList m) 0 (unat (UpnpAction_GetArgumentCount act)) (ret0, u);
        Some (ret, u', if RET_SUCCEEDED ret then \<lparr>err_code = UPNP_SUCCESS, err_description = field_cpy UPNP_ERR_DESCRIPTION_LEN ''OK''\<rparr>
          else err) })"

definition ActionFromResponse ::
    "char \<Rightarrow> (string \<Rightarrow> sax list \<times> bool) \<Rightarrow> bool \<Rightarrow> bool \<Rightarrow> txml option \<Rightarrow> 'f float_ops \<Rightarrow> 'f ustore \<Rightarrow> upnp_action
      \<Rightarrow> http_message \<Rightarrow> (tiny_ret \<times> 'f ustore \<times> upnp_error) option" where
  "ActionFromResponse past expat new_ok parser_ok xml fl u act response = do {
     st \<leftarrow> HttpMessage_GetStatus response;
     let err = \<lparr>err_code = status_code response, err_description = field_cpy UPNP_ERR_DESCRIPTION_LEN st\<rparr>;
     if err_code err \<noteq> HTTP_STATUS_OK then Some (TINY_RET_E_UPNP_INVOKE_FAILED, u, err)
     else (case SoapMessage_New new_ok True of
         None \<Rightarrow> Some (TINY_RET_E_NEW, u, err)
       | Some m \<Rightarrow> do {
           (ret, m') \<leftarrow> SoapMessage_ParseResponse past expat parser_ok xml m (HttpContent_GetObject (content response));
           if RET_FAILED ret then Some (ret, u, err) else SoapResponseToActionResult fl m' u act err }) }"

subsection \<open>Executing an action: \<open>OnPost\<close>\<close>

text \<open>
  \<open>UpnpHttpConnection_SendActionResponse\<close>: what is sent on the connection. The response is printed
  into a buffer of \<open>UPNP_SOAP_LEN\<close> bytes.
\<close>

definition UpnpHttpConnection_SendActionResponse ::
    "bool \<Rightarrow> bool \<Rightarrow> bool \<Rightarrow> 'f float_ops \<Rightarrow> 'f ustore \<Rightarrow> upnp_action \<Rightarrow> conn_reply list option" where
  "UpnpHttpConnection_SendActionResponse msg_ok new_ok malloc_ok fl u act =
     (if \<not> msg_ok then Some []
      else do {
        (ret, response) \<leftarrow> ActionToResponse new_ok malloc_ok fl u act (snd HttpMessage_Construct);
        if RET_FAILED ret then Some [SendError 404 ''ACTION Execute failed'']
        else do {
          (n, bytes) \<leftarrow> HttpMessage_ToString response UPNP_SOAP_LEN;
          if n = 0 then Some [SendError 404 ''ACTION Execute failed''] else Some [SendBytes (take n bytes)] } })"

text \<open>
  The value of the \<open>Soapaction\<close> header without its first and last character: NULL is dereferenced,
  a value of less than two characters makes the count of \<open>strncpy\<close> wrap around, and 1024 characters
  or more leave the buffer without a terminator.
\<close>

definition soap_action_text :: "string option \<Rightarrow> string option" where
  "soap_action_text hdr = (case hdr of
       None \<Rightarrow> None
     | Some s \<Rightarrow> if length s < 2 \<or> 1024 + 2 \<le> length s then None else Some (take (length s - 2) (tl s)))"

text \<open>
  \<open>run\<close> is the handler of a device: given its context and the action it returns a code and the
  store it leaves. \<open>ok\<close> are the allocations of the response.
\<close>

definition OnPost ::
    "char \<Rightarrow> (string \<Rightarrow> sax list \<times> bool) \<Rightarrow> bool \<Rightarrow> bool \<Rightarrow> txml option \<Rightarrow> bool \<times> bool \<times> bool \<Rightarrow> 'f float_ops
      \<Rightarrow> (handler_context \<Rightarrow> addr \<Rightarrow> 'f ustore \<Rightarrow> int \<times> 'f ustore) \<Rightarrow> 'f ustore \<Rightarrow> provider
      \<Rightarrow> string \<Rightarrow> string option \<Rightarrow> string option \<Rightarrow> (conn_reply list \<times> 'f ustore) option" where
  "OnPost past expat new_ok parser_ok xml oks fl run u p uri soapAction body = do {
     buf \<leftarrow> soap_action_text soapAction;
     groups \<leftarrow> str_split buf ''#'' 4;
     (case groups of
        [stype, name] \<Rightarrow> do {
          found \<leftarrow> UpnpProvider_GetAction u p (Some uri) (Some stype) (Some name);
          (case found of
             None \<Rightarrow> Some ([SendError 404 ''NOT FOUND''], u)
           | Some a \<Rightarrow> do {
               act \<leftarrow> act_at u a;
               (ret, u1) \<leftarrow> ActionFromRequest past expat new_ok parser_ok xml fl u act body;
               if RET_FAILED ret then Some ([SendError 404 ''NOT FOUND''], u1)
               else do {
                 ctx \<leftarrow> UpnpProvider_GetActionHandlerContext u1 p (Some a);
                 (case ctx of
                    None \<Rightarrow> Some ([SendError 404 ''NOT FOUND''], u1)
                  | Some c \<Rightarrow> (case run c a u1 of (code, u2) \<Rightarrow>
                      if code \<noteq> UPNP_SUCCESS then Some ([SendError code ''ACTION Execute failed''], u2)
                      else do {
                        act' \<leftarrow> act_at u2 a;
                        reply \<leftarrow> (case oks of (msg_ok, soap_ok, malloc_ok) \<Rightarrow>
                          UpnpHttpConnection_SendActionResponse msg_ok soap_ok malloc_ok fl u2 act');
                        Some (reply, u2) })) } }) }
      | _ \<Rightarrow> Some ([SendError 404 ''NOT FOUND''], u)) }"

subsection \<open>Reading the arguments of a request\<close>

text \<open>A value that was set from a text, and the variables of a service after the inputs were set.\<close>

definition text_value :: "'f float_ops \<Rightarrow> 'f data_value \<Rightarrow> string \<Rightarrow> 'f data_value" where
  "text_value fl v t = snd (the (DataValue_SetValue fl True v (Some t)))"

definition typed :: "'f data_value \<Rightarrow> bool" where
  "typed v \<longleftrightarrow> value_type v \<noteq> INTERNAL_UNDEFINED"

lemma set_typed: "typed v \<Longrightarrow> DataValue_SetValue fl True v (Some t) = Some (TINY_RET_OK, text_value fl v t) \<and> typed (text_value fl v t)"
  by (cases v) (simp_all add: typed_def text_value_def DataValue_SetValue_def DataValue_SetByte_def DataValue_SetWord_def
      DataValue_SetInteger_def DataValue_SetLong_def DataValue_SetFloat_def DataValue_SetDouble_def DataValue_SetBool_def
      DataValue_SetChar_def DataValue_SetString_def)

definition assign :: "'f float_ops \<Rightarrow> string \<Rightarrow> string \<Rightarrow> 'f service_variable list \<Rightarrow> 'f service_variable list" where
  "assign fl name t vars = map (\<lambda>v. if variable_name v = Some name then v\<lparr>sv_value := text_value fl (sv_value v) t\<rparr> else v) vars"

fun assign_all :: "'f float_ops \<Rightarrow> arg_direction \<Rightarrow> (string \<Rightarrow> string option) \<Rightarrow> upnp_argument list
    \<Rightarrow> 'f service_variable list \<Rightarrow> 'f service_variable list" where
  "assign_all fl dir vals [] vars = vars"
| "assign_all fl dir vals (x # xs) vars =
     (if direction x = dir then assign_all fl dir vals xs (assign fl (relatedStateVariable x) (the (vals (arg_name x))) vars)
      else assign_all fl dir vals xs vars)"

text \<open>A service whose variables are readable, typed and have different names.\<close>

definition bindable :: "'f service_variable list \<Rightarrow> bool" where
  "bindable vars \<longleftrightarrow> length vars < 2 ^ 31 \<and> list_all (\<lambda>v. variable_name v \<noteq> None \<and> typed (sv_value v)) vars
     \<and> distinct (map variable_name vars)"

definition with_variables :: "'f ustore \<Rightarrow> addr \<Rightarrow> 'f service_variable list \<Rightarrow> 'f ustore" where
  "with_variables u sa vars = (case srv_at u sa of None \<Rightarrow> u
     | Some s \<Rightarrow> u\<lparr>srv_at := (srv_at u)(sa \<mapsto> s\<lparr>stateVariableTable := (stateVariableTable s)\<lparr>items := map Some vars\<rparr>\<rparr>)\<rparr>)"

lemma assign_names: "map variable_name (assign fl name t vars) = map variable_name vars"
  by (auto simp: assign_def variable_name_def)

lemma bindable_assign: "bindable vars \<Longrightarrow> bindable (assign fl name t vars)"
  unfolding bindable_def assign_names
  using set_typed by (fastforce simp: assign_def list_all_iff variable_name_def)

lemma assign_update:
  assumes "bindable vars" and "first_named variable_name name i vars = Some (j, v)"
  shows "assign fl name t vars = vars[nat (j - i) := v\<lparr>sv_value := text_value fl (sv_value v) t\<rparr>] \<and> i \<le> j"
  using assms
proof (induction vars arbitrary: i)
  case (Cons w vars)
  show ?case
  proof (cases "variable_name w = Some name")
    case True
    then have "variable_name y \<noteq> Some name" if "y \<in> set vars" for y
      using Cons.prems(1) that by (auto simp: bindable_def image_iff)
    then have "assign fl name t vars = vars" by (simp add: assign_def map_idI)
    with True Cons.prems(2) show ?thesis by (simp add: assign_def)
  next
    case False
    have "bindable vars" using Cons.prems(1) by (simp add: bindable_def)
    then have IH: "assign fl name t vars = vars[nat (j - (i + 1)) := v\<lparr>sv_value := text_value fl (sv_value v) t\<rparr>] \<and> i + 1 \<le> j"
      using Cons.IH [of "i + 1"] Cons.prems(2) False by simp
    then have "nat (j - i) = Suc (nat (j - (i + 1)))" by (simp add: Suc_nat_eq_nat_zadd1)
    with IH False show ?thesis by (simp add: assign_def)
  qed
qed simp

definition table_of :: "'f ustore \<Rightarrow> addr \<Rightarrow> 'f service_variable list \<Rightarrow> bool" where
  "table_of u sa vars \<longleftrightarrow> (\<exists>s. srv_at u sa = Some s \<and> items (stateVariableTable s) = map Some vars \<and> count_ok (stateVariableTable s))"

lemma with_variables_twice [simp]: "with_variables (with_variables u sa a) sa b = with_variables u sa b"
  by (simp add: with_variables_def split: option.splits)

lemma table_of_with: "table_of u sa vars \<Longrightarrow> length vars' = length vars \<Longrightarrow> table_of (with_variables u sa vars') sa vars'"
  by (auto simp: table_of_def with_variables_def count_ok_def)

lemma with_variables_same: "table_of u sa vars \<Longrightarrow> with_variables u sa vars = u"
  by (auto simp: table_of_def with_variables_def fun_upd_idem)

lemma assign_length [simp]: "length (assign fl name t vars) = length vars"
  by (simp add: assign_def)

text \<open>The variable of an argument is found, and a value stored through the pointer is an assignment.\<close>

lemma variable_assign:
  assumes "table_of u sa vars" and "bindable vars" and "Some name \<in> variable_name ` set vars"
  shows "\<exists>k v. variable_of u (Some sa) name = Some (Some (sa, k, v)) \<and> typed (sv_value v)
    \<and> (\<forall>t. store_value u sa k v (text_value fl (sv_value v) t) = with_variables u sa (assign fl name t vars))"
proof -
  obtain s where s: "srv_at u sa = Some s" "items (stateVariableTable s) = map Some vars" "count_ok (stateVariableTable s)"
    using assms(1) by (auto simp: table_of_def)
  have ok: "named_ok variable_name (stateVariableTable s)"
    using assms(2) s by (auto simp: named_ok_def bindable_def list_all_iff comp_def)
  have vs: "map the (items (stateVariableTable s)) = vars" by (simp add: s(2) comp_def)
  note f = find_named_first [OF ok, of name, unfolded vs]
  have "first_named variable_name name 0 vars \<noteq> None"
    using assms(3) first_named_split [where name_of = variable_name and s = name and i = 0 and zs = vars] by (force simp: list_all_iff split: option.splits)
  then obtain k v where kv: "first_named variable_name name 0 vars = Some (k, v)" by auto
  have "v \<in> set vars" using first_named_split [where name_of = variable_name and s = name and i = 0 and zs = vars] kv by auto
  then have ty: "typed (sv_value v)" using assms(2) by (simp add: bindable_def list_all_iff)
  have "variable_of u (Some sa) name = Some (Some (sa, k, v))" by (simp add: variable_of_def s(1) variable_find_def f kv)
  moreover have "store_value u sa k v (text_value fl (sv_value v) t) = with_variables u sa (assign fl name t vars)" for t
    using assign_update [OF assms(2) kv, where fl = fl and t = t] by (simp add: store_value_def with_variables_def s map_update)
  ultimately show ?thesis using ty by blast
qed

lemma pairs_lookup: "property_inv l \<Longrightarrow>
    PropertyList_GetPropertyValue l (Some name) = Some (map_of (prop_pairs l) name)"
proof -
  assume inv: "property_inv l"
  have "map_of (map (\<lambda>x. (pname (the x), pvalue (the x))) xs) name =
      map_option pvalue (map_of (map (\<lambda>x. (pname (the x), the x)) xs) name)" for xs :: "property option list"
    by (induction xs) simp_all
  then show ?thesis
    using property_lookup [OF inv, of name] by (simp add: PropertyList_GetPropertyValue_def prop_pairs_def property_entries_def)
qed

text \<open>The arguments of an action, all of whose names are readable.\<close>

definition arguments_of :: "upnp_action \<Rightarrow> upnp_argument list \<Rightarrow> bool" where
  "arguments_of act xs \<longleftrightarrow> items (argumentList act) = map Some xs \<and> count_ok (argumentList act) \<and> length xs < 2 ^ 31
     \<and> list_all (\<lambda>x. length (arg_name x) < UpnpArgument_NAME_LEN \<and> length (relatedStateVariable x) < VARIABLE_NAME_LEN) xs"

definition supplied :: "arg_direction \<Rightarrow> (string \<Rightarrow> string option) \<Rightarrow> 'f service_variable list \<Rightarrow> upnp_argument \<Rightarrow> bool" where
  "supplied dir vals vars x \<longleftrightarrow> direction x = dir \<longrightarrow> (\<exists>t. vals (arg_name x) = Some t \<and> length t < PROPERTY_VALUE_LEN)
     \<and> Some (relatedStateVariable x) \<in> variable_name ` set vars"

lemma argument_at:
  assumes "arguments_of act xs" and "i < length xs"
  shows "UpnpAction_GetArgumentAt act (word_of_nat i) = Some (xs ! i)"
    and "UpnpArgument_GetName (xs ! i) = Some (arg_name (xs ! i))"
    and "UpnpArgument_GetRelatedStateVariable (xs ! i) = Some (relatedStateVariable (xs ! i))"
proof -
  have "sint (word_of_nat i :: 32 word) = int i"
    using assms by (simp add: arguments_of_def signed_of_nat signed_take_bit_int_eq_self)
  then show "UpnpAction_GetArgumentAt act (word_of_nat i) = Some (xs ! i)"
    using assms by (simp add: UpnpAction_GetArgumentAt_def L_GetAt_def nth_int_of_nat arguments_of_def)
  show "UpnpArgument_GetName (xs ! i) = Some (arg_name (xs ! i))"
    "UpnpArgument_GetRelatedStateVariable (xs ! i) = Some (relatedStateVariable (xs ! i))"
    using assms by (simp_all add: arguments_of_def list_all_length UpnpArgument_GetName_def UpnpArgument_GetRelatedStateVariable_def read_field_def)
qed

lemma argument_count: "arguments_of act xs \<Longrightarrow> unat (UpnpAction_GetArgumentCount act) = length xs"
  using L_count_word [of "argumentList act"] by (simp add: arguments_of_def UpnpAction_GetArgumentCount_def)

lemma supplied_assign: "supplied dir vals (assign fl name t vars) x = supplied dir vals vars x"
  using arg_cong [OF assign_names [of fl name t vars], of set] by (simp add: supplied_def)

text \<open>
  Both loops take the arguments of their direction one by one; a loop that does so leaves the
  assignment of all of them.
\<close>

lemma args_run:
  assumes stop: "\<And>i st. F i 0 st = Some st"
    and step: "\<And>i n u vars. i < length xs \<Longrightarrow> table_of u sa vars \<Longrightarrow> bindable vars \<Longrightarrow> supplied dir vals vars (xs ! i) \<Longrightarrow>
      F (word_of_nat i) (Suc n) (TINY_RET_OK, u) = F (word_of_nat (Suc i)) n (TINY_RET_OK, if direction (xs ! i) = dir
        then with_variables u sa (assign fl (relatedStateVariable (xs ! i)) (the (vals (arg_name (xs ! i)))) vars) else u)"
  shows "i + n = length xs \<Longrightarrow> table_of u sa vars \<Longrightarrow> bindable vars \<Longrightarrow> list_all (supplied dir vals vars) (drop i xs) \<Longrightarrow>
    F (word_of_nat i) n (TINY_RET_OK, u) = Some (TINY_RET_OK, with_variables u sa (assign_all fl dir vals (drop i xs) vars))"
proof (induction n arbitrary: i u vars)
  case 0
  then show ?case by (simp add: stop with_variables_same)
next
  case (Suc n)
  then have i: "i < length xs" by simp
  have d: "drop i xs = xs ! i # drop (Suc i) xs" using i by (rule Cons_nth_drop_Suc [symmetric])
  note st = step [OF i Suc.prems(2,3), of n]
  let ?vars = "assign fl (relatedStateVariable (xs ! i)) (the (vals (arg_name (xs ! i)))) vars"
  show ?case
    using st Suc.IH [of "Suc i" u vars] Suc.IH [of "Suc i" "with_variables u sa ?vars" ?vars] Suc.prems
      table_of_with [OF Suc.prems(2), of ?vars] bindable_assign [OF Suc.prems(3)]
    by (simp add: d supplied_assign)
qed

lemma arg_supplied:
  assumes "supplied dir vals vars x" and "direction x = dir"
  shows "\<exists>t. vals (arg_name x) = Some t \<and> read_field PROPERTY_VALUE_LEN t = Some t \<and> Some (relatedStateVariable x) \<in> variable_name ` set vars"
  using assms by (auto simp: supplied_def read_field_def)

lemma request_args_all:
  assumes "arguments_of act xs" and "act_service act = Some sa" and "property_inv l" and "table_of u sa vars" and "bindable vars"
    and "list_all (supplied ARG_IN (map_of (prop_pairs l)) vars) xs"
  shows "request_args fl act l 0 (length xs) (TINY_RET_OK, u) =
      Some (TINY_RET_OK, with_variables u sa (assign_all fl ARG_IN (map_of (prop_pairs l)) xs vars))"
proof -
  let ?vals = "map_of (prop_pairs l)"
  have "request_args fl act l (word_of_nat i) (Suc n) (TINY_RET_OK, u) =
      request_args fl act l (word_of_nat (Suc i)) n (TINY_RET_OK, if direction (xs ! i) = ARG_IN
        then with_variables u sa (assign fl (relatedStateVariable (xs ! i)) (the (?vals (arg_name (xs ! i)))) vars) else u)"
    if i: "i < length xs" and tab: "table_of u sa vars" "bindable vars" and sup: "supplied ARG_IN ?vals vars (xs ! i)" for i n u vars
  proof -
    note arg = argument_at [OF assms(1) i]
    have nx: "word_of_nat i + 1 = (word_of_nat (Suc i) :: 32 word)" by (simp add: add.commute)
    show ?thesis
    proof (cases "direction (xs ! i) = ARG_IN")
      case True
      obtain t where t: "?vals (arg_name (xs ! i)) = Some t" "read_field PROPERTY_VALUE_LEN t = Some t"
          "Some (relatedStateVariable (xs ! i)) \<in> variable_name ` set vars"
        using arg_supplied [OF sup True] by blast
      obtain k v where v: "variable_of u (Some sa) (relatedStateVariable (xs ! i)) = Some (Some (sa, k, v))" "typed (sv_value v)"
          "\<forall>t. store_value u sa k v (text_value fl (sv_value v) t) = with_variables u sa (assign fl (relatedStateVariable (xs ! i)) t vars)"
        using variable_assign [OF tab t(3), of fl] by blast
      show ?thesis
        using True t v arg set_typed [OF v(2), of fl t] assms(2)
        by (simp add: nx UpnpArgument_GetDirection_def pairs_lookup [OF assms(3)] UpnpAction_GetParentService_def)
    qed (simp add: arg nx UpnpArgument_GetDirection_def)
  qed
  then show ?thesis
    using args_run [where F = "request_args fl act l" and xs = xs and dir = ARG_IN and vals = ?vals and sa = sa and fl = fl and i = 0 and n = "length xs"] assms(4-6) by simp
qed

lemma response_args_all:
  assumes "arguments_of act xs" and "act_service act = Some sa" and "property_inv l" and "table_of u sa vars" and "bindable vars"
    and "list_all (supplied ARG_OUT (map_of (prop_pairs l)) vars) xs"
  shows "response_args fl act l 0 (length xs) (TINY_RET_OK, u) =
      Some (TINY_RET_OK, with_variables u sa (assign_all fl ARG_OUT (map_of (prop_pairs l)) xs vars))"
proof -
  let ?vals = "map_of (prop_pairs l)"
  have "response_args fl act l (word_of_nat i) (Suc n) (TINY_RET_OK, u) =
      response_args fl act l (word_of_nat (Suc i)) n (TINY_RET_OK, if direction (xs ! i) = ARG_OUT
        then with_variables u sa (assign fl (relatedStateVariable (xs ! i)) (the (?vals (arg_name (xs ! i)))) vars) else u)"
    if i: "i < length xs" and tab: "table_of u sa vars" "bindable vars" and sup: "supplied ARG_OUT ?vals vars (xs ! i)" for i n u vars
  proof -
    note arg = argument_at [OF assms(1) i]
    have nx: "word_of_nat i + 1 = (word_of_nat (Suc i) :: 32 word)" by (simp add: add.commute)
    show ?thesis
    proof (cases "direction (xs ! i) = ARG_OUT")
      case True
      obtain t where t: "?vals (arg_name (xs ! i)) = Some t" "read_field PROPERTY_VALUE_LEN t = Some t"
          "Some (relatedStateVariable (xs ! i)) \<in> variable_name ` set vars"
        using arg_supplied [OF sup True] by blast
      obtain k v where v: "variable_of u (Some sa) (relatedStateVariable (xs ! i)) = Some (Some (sa, k, v))" "typed (sv_value v)"
          "\<forall>t. store_value u sa k v (text_value fl (sv_value v) t) = with_variables u sa (assign fl (relatedStateVariable (xs ! i)) t vars)"
        using variable_assign [OF tab t(3), of fl] by blast
      show ?thesis
        using True t v arg set_typed [OF v(2), of fl t] assms(2)
        by (simp add: nx UpnpArgument_GetDirection_def pairs_lookup [OF assms(3)] UpnpAction_GetParentService_def)
    qed (simp add: arg nx UpnpArgument_GetDirection_def)
  qed
  then show ?thesis
    using args_run [where F = "response_args fl act l" and xs = xs and dir = ARG_OUT and vals = ?vals and sa = sa and fl = fl and i = 0 and n = "length xs"] assms(4-6) by simp
qed

subsection \<open>Writing the arguments\<close>

definition related_var :: "'f upnp_service \<Rightarrow> upnp_argument \<Rightarrow> 'f service_variable option" where
  "related_var s x = List.find (\<lambda>v. variable_name v = Some (relatedStateVariable x)) (variables s)"

definition sent_values :: "arg_direction \<Rightarrow> 'f upnp_service \<Rightarrow> upnp_argument list \<Rightarrow> (string \<times> string) list" where
  "sent_values dir s xs = map (\<lambda>x. (arg_name x, value_text (sv_value (the (related_var s x))))) (filter (\<lambda>x. direction x = dir) xs)"

definition can_send :: "arg_direction \<Rightarrow> 'f upnp_service \<Rightarrow> upnp_argument \<Rightarrow> bool" where
  "can_send dir s x \<longleftrightarrow> direction x = dir \<longrightarrow> (\<exists>v. related_var s x = Some v \<and> sendable v)"

lemma sendable_length: "sendable v \<Longrightarrow> length (value_text (sv_value v)) < PROPERTY_VALUE_LEN"
  by (auto simp: sendable_def PROPERTY_VALUE_LEN_def EVENT_VALUE_LEN_def split: if_splits)

lemma soap_args_from:
  assumes "arguments_of act xs" and "named_ok variable_name (stateVariableTable s)"
  shows "i + n = length xs \<Longrightarrow> list_all (can_send dir s) (drop i xs) \<Longrightarrow> property_inv l \<Longrightarrow> property_room l n \<Longrightarrow>
    distinct (map fst (prop_pairs l @ sent_values dir s (drop i xs))) \<Longrightarrow>
    \<exists>l'. soap_args fl dir act s (word_of_nat i) n l = Some (TINY_RET_OK, l') \<and> property_inv l'
      \<and> prop_pairs l' = prop_pairs l @ sent_values dir s (drop i xs)"
proof (induction n arbitrary: i l)
  case 0
  then show ?case by (simp add: sent_values_def)
next
  case (Suc n)
  then have i: "i < length xs" by simp
  let ?x = "xs ! i"
  note arg = argument_at [OF assms(1) i]
  have d: "drop i xs = ?x # drop (Suc i) xs" using i by (rule Cons_nth_drop_Suc [symmetric])
  have nx: "word_of_nat i + 1 = (word_of_nat (Suc i) :: 32 word)" by (simp add: add.commute)
  have look: "UpnpService_GetStateVariable s (Some (relatedStateVariable ?x)) = Some (related_var s ?x)"
    by (simp add: UpnpService_GetStateVariable_def lookup_named_find [OF assms(2)] related_var_def variables_def)
  show ?case
  proof (cases "direction ?x = dir")
    case False
    have v: "sent_values dir s (drop i xs) = sent_values dir s (drop (Suc i) xs)" by (simp add: d sent_values_def False)
    show ?thesis
      using Suc.IH [of "Suc i" l] Suc.prems arg False unfolding v by (simp add: d nx UpnpArgument_GetDirection_def property_room_def)
  next
    case True
    then obtain v where v: "related_var s ?x = Some v" "sendable v" using Suc.prems(2) by (auto simp: d can_send_def)
    let ?t = "value_text (sv_value v)"
    have sv: "sent_values dir s (drop i xs) = (arg_name ?x, ?t) # sent_values dir s (drop (Suc i) xs)"
      by (simp add: d sent_values_def True v)
    have "length (arg_name ?x) < PROPERTY_NAME_LEN"
      using assms(1) i by (simp add: arguments_of_def list_all_length UpnpArgument_NAME_LEN_def PROPERTY_NAME_LEN_def)
    moreover have "arg_name ?x \<notin> fst ` set (prop_pairs l)" using Suc.prems(5) by (auto simp: sv)
    ultimately obtain l1 where l1: "PropertyList_Add [] l (Some (arg_name ?x)) (Some ?t) = Some (TINY_RET_OK, l1)"
        "property_inv l1" "prop_pairs l1 = prop_pairs l @ [(arg_name ?x, ?t)]" "length (items l1) = Suc (length (items l))"
      using property_pairs_add [OF Suc.prems(3) _ sendable_length [OF v(2)], of "arg_name ?x"] Suc.prems(4)
      by (auto simp: property_room_def)
    then have "\<exists>l'. soap_args fl dir act s (word_of_nat (Suc i)) n l1 = Some (TINY_RET_OK, l') \<and> property_inv l'
        \<and> prop_pairs l' = prop_pairs l1 @ sent_values dir s (drop (Suc i) xs)"
      using Suc.IH [of "Suc i" l1] Suc.prems(1,3,4) Suc.prems(2) [unfolded d] Suc.prems(5) [unfolded sv] by (simp add: property_room_def)
    then show ?thesis
      using arg look v event_value_text [OF v(2), of fl] l1 True by (simp add: sv nx UpnpArgument_GetDirection_def)
  qed
qed

text \<open>An action of a service of a device, and the URL at which it is called.\<close>

definition callable :: "'f ustore \<Rightarrow> upnp_action \<Rightarrow> 'f upnp_service \<Rightarrow> string \<Rightarrow> string \<Rightarrow> string \<Rightarrow> bool" where
  "callable u act s name ty url \<longleftrightarrow> (\<exists>sa da d base ctrl. act_service act = Some sa \<and> srv_at u sa = Some s
     \<and> srv_device s = Some da \<and> dev_at u da = Some d
     \<and> UpnpService_GetControlURL s = Some ctrl \<and> UpnpDevice_GetURLBase d = Some base
     \<and> url = base @ ctrl \<and> length url < TINY_URL_LEN
     \<and> UpnpAction_GetName act = Some name \<and> UpnpService_GetServiceType s = Some ty
     \<and> named_ok variable_name (stateVariableTable s))"

definition clear_names :: "arg_direction \<Rightarrow> 'f upnp_service \<Rightarrow> upnp_argument list \<Rightarrow> bool" where
  "clear_names dir s xs \<longleftrightarrow> list_all (can_send dir s) xs \<and> distinct (map fst (sent_values dir s xs))
     \<and> list_all pair_ok (sent_values dir s xs) \<and> length xs < 2 ^ 30"

lemma soap_filled:
  assumes "callable u act s name ty url" and "arguments_of act xs" and "clear_names dir s xs"
    and "set_name = SoapMessage_SetActionName \<and> wire = name \<or> set_name = SoapMessage_SetResponseActionName \<and> wire = name @ ''Response''"
    and "length wire < ACTION_NAME_LEN" and "CHR '':'' \<notin> set wire"
  shows "\<exists>m. fill_soap fl dir set_name u act fresh_soap = Some (TINY_RET_OK, m) \<and> sendable_soap m
    \<and> so_serverURL m = url \<and> so_actionName m = wire \<and> so_actionXmlns m = ty \<and> prop_pairs (so_arguments m) = sent_values dir s xs"
proof -
  obtain sa da d base ctrl where c: "act_service act = Some sa" "srv_at u sa = Some s"
      "srv_device s = Some da" "dev_at u da = Some d"
      "UpnpService_GetControlURL s = Some ctrl" "UpnpDevice_GetURLBase d = Some base" "url = base @ ctrl" "length url < TINY_URL_LEN"
      "UpnpAction_GetName act = Some name" "UpnpService_GetServiceType s = Some ty" "named_ok variable_name (stateVariableTable s)"
    using assms(1) unfolding callable_def by blast
  have len: "length name < NAME_LEN" "length ty < SERVICE_TYPE_LEN"
    using c(9,10) by (auto simp: UpnpAction_GetName_def UpnpService_GetServiceType_def read_field_def split: if_splits)
  define m2 where "m2 = fresh_soap\<lparr>so_serverURL := url, so_actionName := wire, so_actionXmlns := ty\<rparr>"
  have urlf: "field_cpy TINY_URL_LEN (field_printf TINY_URL_LEN (base @ ctrl)) = url"
    using c(7,8) by (simp add: field_cpy_def field_printf_def)
  have nmf: "snd (set_name m (Some name)) = m\<lparr>so_actionName := wire\<rparr>" for m
    using assms(4,5) len(1) by (auto simp: SoapMessage_SetActionName_def SoapMessage_SetResponseActionName_def field_cpy_short
        field_printf_def ACTION_NAME_LEN_def NAME_LEN_def)
  have tyf: "field_cpy ACTION_XMLNS_LEN ty = ty" using len(2) by (simp add: field_cpy_short ACTION_XMLNS_LEN_def SERVICE_TYPE_LEN_def)
  have m2: "snd (SoapMessage_SetActionXmlns (snd (set_name (snd (SoapMessage_SetServerURL fresh_soap
      (Some (field_printf TINY_URL_LEN (base @ ctrl))))) (Some name))) (Some ty)) = m2"
    by (simp add: nmf SoapMessage_SetServerURL_def SoapMessage_SetActionXmlns_def urlf tyf m2_def)
  have e: "property_inv (so_arguments m2)" "prop_pairs (so_arguments m2) = []" "items (so_arguments m2) = []"
    by (simp_all add: m2_def PropertyList_Construct_def property_inv_def prop_pairs_def L_new_def L_SetDeleteListener_def count_ok_def)
  obtain l where l: "soap_args fl dir act s 0 (length xs) (so_arguments m2) = Some (TINY_RET_OK, l)" "property_inv l"
      "prop_pairs l = sent_values dir s xs"
    using soap_args_from [OF assms(2) c(11), of 0 "length xs" dir "so_arguments m2" fl] assms(3) e
    by (auto simp: clear_names_def property_room_def)
  have "fill_soap fl dir set_name u act fresh_soap = Some (TINY_RET_OK, m2\<lparr>so_arguments := l\<rparr>)"
    using c m2 l(1) by (simp add: fill_soap_def UpnpAction_GetParentService_def UpnpService_GetParentDevice_def argument_count [OF assms(2)])
  moreover have "length (items l) = length (sent_values dir s xs)" using l(3) by (metis length_map prop_pairs_def)
  then have "length (items l) < 2 ^ 30"
    using assms(3) le_less_trans [OF length_filter_le [of "\<lambda>x. direction x = dir" xs], of "2 ^ 30"]
    by (simp add: sent_values_def clear_names_def)
  then have "sendable_soap (m2\<lparr>so_arguments := l\<rparr>)"
    using l assms(3,5,6) len(2) by (simp add: sendable_soap_def clear_names_def m2_def ACTION_XMLNS_LEN_def SERVICE_TYPE_LEN_def)
  ultimately show ?thesis using l(3) by (auto simp: m2_def)
qed

subsection \<open>The HTTP messages\<close>

definition soap_headers :: "string \<Rightarrow> (string \<times> string) list" where
  "soap_headers t = [(''Content-Type'', ''text/xml;charset=\"utf-8\"''), (''User-Agent'', UPNP_STACK_INFO),
     (''Content-Length'', show_nat (length t))]"

definition soap_size_ok :: "string \<Rightarrow> bool" where
  "soap_size_ok t \<longleftrightarrow> length t < UPNP_SOAP_LEN"

lemma soap_size:
  assumes "soap_size_ok t"
  shows "unat (word_of_nat (length t) :: 32 word) = length t" and "field_printf 32 (show_nat (length t)) = show_nat (length t)"
    and "length t \<le> HTTP_CONTENT_MAX_SIZE"
proof -
  have l: "length t < 20480" using assms by (simp add: soap_size_ok_def UPNP_SOAP_LEN_def)
  then show "unat (word_of_nat (length t) :: 32 word) = length t" by (intro unat_word_of_nat) simp
  have "length (show_nat (length t)) \<le> 5" using l by (intro show_nat_length) simp_all
  then show "field_printf 32 (show_nat (length t)) = show_nat (length t)" by (simp add: field_printf_def)
  show "length t \<le> HTTP_CONTENT_MAX_SIZE" using l by (simp add: HTTP_CONTENT_MAX_SIZE_def)
qed

lemma soap_text_nonempty: "soap_text name ty ps \<noteq> []"
  by (simp add: soap_text_def SOAP_XML_VERSION_def)

text \<open>The quoted header of a call.\<close>

definition quoted_action :: "string \<Rightarrow> string \<Rightarrow> string" where
  "quoted_action ty name = ''\"'' @ ty @ ''#'' @ name @ ''\"''"

lemma soap_request_http:
  assumes "sendable_soap m" and "so_serverURL m = ''http://'' @ host @ '':'' @ show_nat prt @ uri"
    and "length (so_serverURL m) < TINY_URL_LEN"
    and "\<forall>x \<in> set host. x \<noteq> CHR '':'' \<and> x \<noteq> CHR ''/''" and "length host < TINY_IP_LEN"
    and "uri = [] \<or> hd uri = CHR ''/''" and "length uri < HTTP_URI_LEN" and "prt < 2 ^ 16"
    and "t = soap_text (so_actionName m) (so_actionXmlns m) (prop_pairs (so_arguments m))" and "soap_size_ok t"
    and "length (so_actionXmlns m) + length (so_actionName m) < 253"
  shows "\<exists>req. SoapRequestToHttpRequest True m fresh_message = Some (TINY_RET_OK, req)
    \<and> req_method req = ''POST'' \<and> req_uri req = uri \<and> ip req = host \<and> unat (port req) = prt
    \<and> HttpContent_GetObject (content req) = Some t
    \<and> HttpMessage_GetHeaderValue req (Some ''Soapaction'') = Some (Some (quoted_action (so_actionXmlns m) (so_actionName m)))"
proof -
  have ready: "soap_ready m" using sendable_ready [OF assms(1)] .
  note sz = soap_size [OF assms(10)]
  have str: "SoapMessage_ToString m UPNP_SOAP_LEN = Some (TINY_RET_OK, t)"
    using soap_to_string [OF ready, of UPNP_SOAP_LEN] assms(9,10) by (simp add: soap_size_ok_def UPNP_SOAP_LEN_def)
  have get: "SoapMessage_GetServerURL m = Some (so_serverURL m)" "SoapMessage_GetActionName m = Some (so_actionName m)"
      "SoapMessage_GetActionXmlns m = Some (so_actionXmlns m)"
    using ready assms(3) by (simp_all add: soap_ready_def SoapMessage_GetServerURL_def SoapMessage_GetActionName_def
        SoapMessage_GetActionXmlns_def read_field_def)
  obtain m1 where m1: "HttpMessage_SetRequest [] fresh_message (Some ''POST'') (Some (so_serverURL m)) = Some (TINY_RET_OK, m1)"
      "ip m1 = host" "unat (port m1) = prt" "req_method m1 = ''POST''" "req_uri m1 = uri"
      "header_pairs (header m1) = header_pairs (header fresh_message) @ [(''HOST'', if prt = 80 then host else host @ '':'' @ show_nat prt)]"
    using set_request_url [OF assms(4-7) _ assms(8), of "''POST''" fresh_message] assms(2) by (auto simp: HTTP_METHOD_LEN_def)
  have fresh: "header_pairs (snd HttpHeader_Construct) = []"
    by (simp add: header_pairs_def HttpHeader_Construct_def L_new_def L_SetDeleteListener_def)
  let ?q = "quoted_action (so_actionXmlns m) (so_actionName m)"
  have q: "field_printf 256 (''\"'' @ so_actionXmlns m @ ''#'' @ so_actionName m @ ''\"'') = ?q"
    using assms(11) by (simp add: field_printf_def quoted_action_def)
  have c1: "content m1 = fresh_content" "header_inv (header m1)" "length (items (header m1)) \<le> 1"
    using set_request_shape [OF m1(1)]
    by (auto simp: header_inv_def count_ok_def HttpHeader_Construct_def L_new_def L_SetDeleteListener_def header_set_items)
  let ?kvs = "[(''Content-Type'', ''text/xml;charset=\"utf-8\"''), (''Soapaction'', ?q), (''User-Agent'', UPNP_STACK_INFO),
     (''Content-Length'', show_nat (length t))]"
  let ?req = "m1\<lparr>header := header_set_all ?kvs (header m1), content := full_content t\<rparr>"
  have add: "HttpMessage_AddContentObject (snd (HttpMessage_SetContentSize True (m1\<lparr>header := h\<rparr>) (word_of_nat (length t)))) (Some t)
      (word_of_nat (length t)) = Some (TINY_RET_OK, m1\<lparr>header := h, content := full_content t\<rparr>)" for h
    using set_whole_content [of "m1\<lparr>header := h\<rparr>" t] c1(1) sz(3) soap_text_nonempty by (simp add: assms(9))
  have run: "SoapRequestToHttpRequest True m fresh_message = Some (TINY_RET_OK, ?req)"
    using m1(1) by (simp add: SoapRequestToHttpRequest_def get str q [simplified] Let_def set_header_all set_all_append sz(1,2) add del: header_set_all_Cons)
  have inv: "header_inv (header ?req)" using header_inv_set_all [OF c1(2), of ?kvs] c1(3) by simp
  have "length ?q < HTTP_MAX_VALUE_LEN" using assms(11) by (simp add: quoted_action_def HTTP_MAX_VALUE_LEN_def)
  then have "HttpMessage_GetHeaderValue ?req (Some ''Soapaction'') = Some (Some ?q)"
    using header_lookup [OF inv, of "''Soapaction''"] m1(6) fresh
    by (simp add: HttpMessage_GetHeaderValue_def header_pairs_set_all field_cpy_short HTTP_MAX_NAME_LEN_def header_key_def
        tolower_def char_of_def bit_0 del: header_set_all_Cons)
  moreover have "HttpContent_GetObject (content ?req) = Some t"
    using soap_text_nonempty by (simp add: full_content_def HttpContent_GetObject_def assms(9))
  ultimately show ?thesis using run m1 by auto
qed

subsection \<open>Calling an action\<close>

lemma call_written:
  assumes "callable u act s name ty url" and "arguments_of act xs" and "clear_names ARG_IN s xs" and "CHR '':'' \<notin> set name"
    and "at_url url host prt uri" and "t = soap_text name ty (sent_values ARG_IN s xs)" and "soap_size_ok t"
    and "length ty + length name < 253"
  shows "\<exists>req. ActionToRequest True True fl u act fresh_message = Some (TINY_RET_OK, req)
    \<and> req_method req = ''POST'' \<and> req_uri req = uri \<and> ip req = host \<and> unat (port req) = prt
    \<and> HttpContent_GetObject (content req) = Some t
    \<and> HttpMessage_GetHeaderValue req (Some ''Soapaction'') = Some (Some (quoted_action ty name))"
proof -
  have "length name < ACTION_NAME_LEN"
    using assms(1) by (auto simp: callable_def UpnpAction_GetName_def read_field_def NAME_LEN_def ACTION_NAME_LEN_def split: if_splits)
  then obtain m where m: "fill_soap fl ARG_IN SoapMessage_SetActionName u act fresh_soap = Some (TINY_RET_OK, m)" "sendable_soap m"
      "so_serverURL m = url" "so_actionName m = name" "so_actionXmlns m = ty" "prop_pairs (so_arguments m) = sent_values ARG_IN s xs"
    using soap_filled [OF assms(1-3), of SoapMessage_SetActionName name fl] assms(4) by blast
  have "length url < TINY_URL_LEN" using assms(1) by (auto simp: callable_def)
  then obtain req where req: "SoapRequestToHttpRequest True m fresh_message = Some (TINY_RET_OK, req)"
      "req_method req = ''POST''" "req_uri req = uri" "ip req = host" "unat (port req) = prt"
      "HttpContent_GetObject (content req) = Some t"
      "HttpMessage_GetHeaderValue req (Some ''Soapaction'') = Some (Some (quoted_action ty name))"
    using soap_request_http [OF m(2), of host prt uri t] assms(5-8) by (auto simp: m(3-6) at_url_def)
  have "SoapMessage_New True True = Some fresh_soap"
    by (simp add: SoapMessage_New_def fresh_soap_def SoapMessage_Construct_def)
  then have "ActionToRequest True True fl u act fresh_message = Some (TINY_RET_OK, req)"
    using m(1) req(1) by (simp add: ActionToRequest_def ActionToSoapRequest_def)
  with req show ?thesis by blast
qed

lemma quoted_split:
  assumes "CHR ''#'' \<notin> set ty" and "CHR ''#'' \<notin> set name" and "length ty \<le> GROUP_LEN" and "length name \<le> GROUP_LEN"
  shows "Option.bind (soap_action_text (Some (quoted_action ty name))) (\<lambda>buf. str_split buf ''#'' 4) = Some [ty, name]"
proof -
  have "str_split (ty @ ''#'' @ name) ''#'' 4 = Some [ty, name]"
    using str_split_loop_join [of "[ty, name]" 4 "CHR ''#''"] assms by (simp add: str_split_def)
  moreover have "soap_action_text (Some (quoted_action ty name)) = Some (ty @ ''#'' @ name)"
    using assms(3,4) by (simp add: soap_action_text_def quoted_action_def GROUP_LEN_def)
  ultimately show ?thesis by simp
qed

text \<open>
  C19. \<open>ActionToRequest\<close> turns an action of a discovered service into a POST request for the control
  URL of the service, with the type of the service and the name of the action in the \<open>Soapaction\<close>
  header and, in the SOAP body, one element for each input argument, in order, with the text of the
  state variable it is related to.
\<close>

theorem action_request_written:
  assumes "callable u act s name ty url" and "arguments_of act xs" and "clear_names ARG_IN s xs" and "CHR '':'' \<notin> set name"
    and "at_url url host prt uri" and "soap_size_ok (soap_text name ty (sent_values ARG_IN s xs))" and "length ty + length name < 253"
  shows "\<exists>req. ActionToRequest True True fl u act fresh_message = Some (TINY_RET_OK, req)
    \<and> req_method req = ''POST'' \<and> req_uri req = uri \<and> ip req = host \<and> unat (port req) = prt
    \<and> HttpContent_GetObject (content req) = Some (soap_text name ty (sent_values ARG_IN s xs))
    \<and> HttpMessage_GetHeaderValue req (Some ''Soapaction'') = Some (Some (quoted_action ty name))"
  using call_written [OF assms(1-5) refl assms(6,7)] .

text \<open>
  C17. A control point of this stack cannot call an action on a host of this stack. Whatever the host
  offers at the control URL, the handler of the POST request answers \<open>404 NOT FOUND\<close> and no handler
  of an action runs: either the action does not exist, or its request is refused by the SOAP reader.
\<close>

theorem own_call_refused:
  assumes "callable u act s name ty url" and "arguments_of act xs" and "clear_names ARG_IN s xs" and "CHR '':'' \<notin> set name"
    and "at_url url host prt uri" and "t = soap_text name ty (sent_values ARG_IN s xs)" and "soap_size_ok t"
    and "length ty + length name < 253"
    and "CHR ''#'' \<notin> set ty" and "CHR ''#'' \<notin> set name"
    and "unused x" and "expat t = (sax_of (soap_doc name ty (sent_values ARG_IN s xs)), True)"
    and "UpnpProvider_GetAction hu p (Some uri) (Some ty) (Some name) = Some found" and "found = None \<or> act_at hu (the found) \<noteq> None"
  shows "\<exists>req hdr body. ActionToRequest True True fl u act fresh_message = Some (TINY_RET_OK, req)
    \<and> HttpMessage_GetHeaderValue req (Some ''Soapaction'') = Some hdr \<and> HttpContent_GetObject (content req) = body
    \<and> OnPost past expat True True (Some x) oks fl run hu p uri hdr body = Some ([SendError 404 ''NOT FOUND''], hu)"
proof -
  obtain req where req: "ActionToRequest True True fl u act fresh_message = Some (TINY_RET_OK, req)"
      "HttpContent_GetObject (content req) = Some t"
      "HttpMessage_GetHeaderValue req (Some ''Soapaction'') = Some (Some (quoted_action ty name))"
    using call_written [OF assms(1-8)] by blast
  have len: "length name < 128" "length ty < 128"
    using assms(1) by (auto simp: callable_def UpnpAction_GetName_def UpnpService_GetServiceType_def read_field_def NAME_LEN_def
        SERVICE_TYPE_LEN_def split: if_splits)
  obtain m where m: "sendable_soap m" "so_actionName m = name" "so_actionXmlns m = ty" "prop_pairs (so_arguments m) = sent_values ARG_IN s xs"
    using soap_filled [OF assms(1-3), of SoapMessage_SetActionName name fl] assms(4) len(1) by (auto simp: ACTION_NAME_LEN_def)
  have "SoapMessage_ParseRequest past expat True (Some x) m0 (Some t) =
      Some (TINY_RET_E_NOT_FOUND, fresh_soap\<lparr>so_actionName := name\<rparr>)" for m0
    using own_text_refused(2) [where expat = expat and t = t, OF m(1) _ _ assms(11)] assms(6,7,12) by (auto simp: m(2-4) soap_size_ok_def)
  moreover have "SoapMessage_New True True = Some fresh_soap"
    by (simp add: SoapMessage_New_def fresh_soap_def SoapMessage_Construct_def)
  ultimately have refuse: "ActionFromRequest past expat True True (Some x) fl hu a (Some t) = Some (TINY_RET_E_NOT_FOUND, hu)" for a
    by (simp add: ActionFromRequest_def RET_FAILED_def ret_defs)
  have split: "Option.bind (soap_action_text (Some (quoted_action ty name))) (\<lambda>buf. str_split buf ''#'' 4) = Some [ty, name]"
    using quoted_split [OF assms(9,10)] len by (simp add: GROUP_LEN_def)
  then obtain buf where "soap_action_text (Some (quoted_action ty name)) = Some buf" "str_split buf ''#'' 4 = Some [ty, name]"
    by (auto simp: bind_eq_Some_conv)
  then have "OnPost past expat True True (Some x) oks fl run hu p uri (Some (quoted_action ty name)) (Some t) = Some ([SendError 404 ''NOT FOUND''], hu)"
    using assms(13,14) refuse by (cases found) (auto simp: OnPost_def RET_FAILED_def ret_defs)
  with req show ?thesis by blast
qed

text \<open>A control point and a host that share their description: one service with one action.\<close>

definition demo_target :: "int service_variable" where
  "demo_target = \<lparr>send_events = False, is_changed = False,
     sv_def = UpnpStateVariableDefinition_Construct\<lparr>var_name := ''Target''\<rparr>, sv_value = VString (Some ''1''), sv_service = None\<rparr>"

definition demo_argument :: upnp_argument where
  "demo_argument = \<lparr>arg_name = ''Target'', direction = ARG_IN, relatedStateVariable = ''Target''\<rparr>"

definition demo_action :: upnp_action where
  "demo_action = \<lparr>act_service = Some 5, act_name = ''SetTarget'',
     argumentList = \<lparr>items = [Some demo_argument], count = 1, log = [], has_listener = True\<rparr>\<rparr>"

definition demo_switch_service :: "int upnp_service" where
  "demo_switch_service = (snd UpnpService_Construct)\<lparr>serviceType := ''urn:x'', controlURL := ''/c'', srv_device := Some 1,
     actionList := \<lparr>items = [Some 7], count = 1, log = [], has_listener = True\<rparr>,
     stateVariableTable := \<lparr>items = [Some demo_target], count = 1, log = [], has_listener = True\<rparr>\<rparr>"

definition demo_switch_device :: upnp_device where
  "demo_switch_device = (demo_device ''d1'')\<lparr>URLBase := ''http://10.0.0.9:80'',
     serviceList := \<lparr>items = [Some 5], count = 1, log = [], has_listener = False\<rparr>\<rparr>"

definition demo_switch_store :: "int ustore" where
  "demo_switch_store = \<lparr>dev_at = [1 \<mapsto> demo_switch_device], srv_at = [5 \<mapsto> demo_switch_service], act_at = [7 \<mapsto> demo_action]\<rparr>"

lemma demo_target_name: "variable_name demo_target = Some ''Target''"
  by (simp add: variable_name_def demo_target_def read_field_def STATE_VARIABLE_NAME_LEN_def)

lemma demo_switch_fields:
  "UpnpService_GetControlURL demo_switch_service = Some ''/c''" "UpnpDevice_GetURLBase demo_switch_device = Some ''http://10.0.0.9:80''"
  "UpnpAction_GetName demo_action = Some ''SetTarget''" "UpnpService_GetServiceType demo_switch_service = Some ''urn:x''"
  "named_ok variable_name (stateVariableTable demo_switch_service)"
  by (simp_all add: UpnpService_GetControlURL_def demo_switch_service_def UpnpDevice_GetURLBase_def demo_switch_device_def
      UpnpAction_GetName_def demo_action_def UpnpService_GetServiceType_def read_field_def field_defs TINY_URL_LEN_def named_ok_def count_ok_def demo_target_name)

lemma demo_callable: "callable demo_switch_store demo_action demo_switch_service ''SetTarget'' ''urn:x'' ''http://10.0.0.9:80/c''"
  unfolding callable_def
  by (intro exI [of _ 5] exI [of _ 1] exI [of _ demo_switch_device] exI [of _ "''http://10.0.0.9:80''"] exI [of _ "''/c''"])
    (simp add: demo_switch_fields demo_switch_store_def, simp add: demo_action_def demo_switch_service_def TINY_URL_LEN_def)

lemma demo_arguments: "arguments_of demo_action [demo_argument]"
  by (simp add: arguments_of_def demo_action_def demo_argument_def count_ok_def UpnpArgument_NAME_LEN_def VARIABLE_NAME_LEN_def)

lemma demo_sent: "sent_values ARG_IN demo_switch_service [demo_argument] = [(''Target'', ''1'')]"
    "clear_names ARG_IN demo_switch_service [demo_argument]"
proof -
  have r: "related_var demo_switch_service demo_argument = Some demo_target"
    by (simp add: related_var_def variables_def demo_switch_service_def demo_argument_def demo_target_name)
  show s: "sent_values ARG_IN demo_switch_service [demo_argument] = [(''Target'', ''1'')]"
    by (simp add: sent_values_def r) (simp add: demo_argument_def demo_target_def value_text_def)
  have "sendable demo_target" 
    by (simp add: sendable_def demo_target_name) (simp add: demo_target_def printable_def value_text_def PROPERTY_VALUE_LEN_def)
  then show "clear_names ARG_IN demo_switch_service [demo_argument]"
    by (simp add: clear_names_def s can_send_def r pair_ok_def PROPERTY_NAME_LEN_def PROPERTY_VALUE_LEN_def cstring_def)
qed

lemma demo_url: "at_url ''http://10.0.0.9:80/c'' ''10.0.0.9'' 80 ''/c''"
  by (simp add: at_url_def TINY_IP_LEN_def HTTP_URI_LEN_def show_nat_small show_nat_big digit_char_def char_of_def bit_0)

lemma demo_size: "soap_size_ok (soap_text ''SetTarget'' ''urn:x'' [(''Target'', ''1'')])"
  using demo_soap_length by (simp add: soap_size_ok_def UPNP_SOAP_LEN_def)

theorem action_request_written_witness:
  "\<exists>req. ActionToRequest True True int_floats demo_switch_store demo_action fresh_message = Some (TINY_RET_OK, req)
    \<and> req_method req = ''POST'' \<and> req_uri req = ''/c'' \<and> ip req = ''10.0.0.9''
    \<and> HttpContent_GetObject (content req) = Some (soap_text ''SetTarget'' ''urn:x'' [(''Target'', ''1'')])
    \<and> HttpMessage_GetHeaderValue req (Some ''Soapaction'') = Some (Some (quoted_action ''urn:x'' ''SetTarget''))"
  using action_request_written [OF demo_callable demo_arguments demo_sent(2) _ demo_url, unfolded demo_sent(1), OF _ demo_size, of int_floats]
  by auto

lemma demo_lookup: "devices p = devices demo_provider \<Longrightarrow>
    UpnpProvider_GetAction demo_switch_store p (Some ''/c'') (Some ''urn:x'') (Some ''SetTarget'') = Some (Some 7)"
proof -
  assume p: "devices p = devices demo_provider"
  have "named_ok (\<lambda>a. Option.bind (srv_at demo_switch_store a) UpnpService_GetControlURL) (serviceList demo_switch_device)"
    by (simp add: named_ok_def demo_switch_device_def demo_switch_store_def count_ok_def demo_switch_fields)
  then have s: "UpnpDevice_GetServiceByControlURL demo_switch_store demo_switch_device (Some ''/c'') = Some (Some 5)"
    by (simp add: UpnpDevice_GetServiceByControlURL_def lookup_named_find)
      (simp add: demo_switch_device_def demo_switch_store_def demo_switch_fields)
  have "named_ok (\<lambda>a. Option.bind (act_at demo_switch_store a) UpnpAction_GetName) (actionList demo_switch_service)"
    by (simp add: named_ok_def demo_switch_service_def demo_switch_store_def count_ok_def demo_switch_fields)
  then have a: "UpnpService_GetAction demo_switch_store demo_switch_service (Some ''SetTarget'') = Some (Some 7)"
    by (simp add: UpnpService_GetAction_def lookup_named_find)
      (simp add: demo_switch_service_def demo_switch_store_def demo_switch_fields)
  have "dev_at demo_switch_store 1 = Some demo_switch_device" "srv_at demo_switch_store 5 = Some demo_switch_service"
    by (simp_all add: demo_switch_store_def)
  then show ?thesis using s a by (simp add: UpnpProvider_GetAction_def p demo_provider_devices demo_switch_fields STR_EQUAL_def)
qed

theorem own_call_refused_witness:
  "\<exists>req hdr body. ActionToRequest True True int_floats demo_switch_store demo_action fresh_message = Some (TINY_RET_OK, req)
    \<and> HttpMessage_GetHeaderValue req (Some ''Soapaction'') = Some hdr \<and> HttpContent_GetObject (content req) = body
    \<and> OnPost NUL soap_expat True True (Some fresh_xml) (True, True, True) int_floats (\<lambda>c a u. (200, u)) demo_switch_store demo_provider
        ''/c'' hdr body = Some ([SendError 404 ''NOT FOUND''], demo_switch_store)"
proof -
  have "act_at demo_switch_store (the (Some 7)) \<noteq> None" by (simp add: demo_switch_store_def)
  then show ?thesis
    using own_call_refused [where expat = soap_expat and t = "soap_text ''SetTarget'' ''urn:x'' [(''Target'', ''1'')]" and past = NUL
        and fl = int_floats and oks = "(True, True, True)" and run = "\<lambda>c a u. (200, u)", OF demo_callable demo_arguments demo_sent(2) _ demo_url, unfolded demo_sent(1),
        OF _ refl demo_size _ _ _ fresh_xml_unused soap_expat_demo demo_lookup [OF refl]]
    by auto
qed

subsection \<open>Executing a call of another stack\<close>

lemma inputs_set:
  assumes "unused x" and "envelope doc" and "expat body = (sax_of doc, True)" and "body \<noteq> []"
    and "soap_action doc = Some (XElem an aa aits)" and "moderate (XElem an aa aits)"
    and "map_of aa ''xmlns'' = Some ns" and "length ns < XML_ATTR_VALUE_LEN" and "values_fit (soap_values (elements aits))"
    and "arguments_of act xs" and "act_service act = Some sa" and "table_of u sa vars" and "bindable vars"
    and "list_all (supplied ARG_IN (map_of (soap_values (elements aits))) vars) xs"
  shows "ActionFromRequest past expat True True (Some x) fl u act (Some body) =
    Some (TINY_RET_OK, with_variables u sa (assign_all fl ARG_IN (map_of (soap_values (elements aits))) xs vars))"
proof -
  obtain m' where m: "SoapMessage_ParseRequest past expat True (Some x) fresh_soap (Some body) = Some (TINY_RET_OK, m')"
      "property_inv (SoapMessage_GetArgumentList m')" "prop_pairs (SoapMessage_GetArgumentList m') = soap_values (elements aits)"
    using request_read [where expat = expat and content = body and m = fresh_soap, OF assms(1-9)] by blast
  have "SoapMessage_New True True = Some fresh_soap"
    by (simp add: SoapMessage_New_def fresh_soap_def SoapMessage_Construct_def)
  then show ?thesis
    using m(1) request_args_all [OF assms(10,11) m(2) assms(12,13), of fl] assms(14)
    by (simp add: ActionFromRequest_def argument_count [OF assms(10)] m(3))
qed

lemma inputs_refused:
  assumes "unused x" and "envelope doc" and "expat body = (sax_of doc, True)" and "body \<noteq> []"
    and "soap_action doc = Some (XElem an aa aits)" and "moderate (XElem an aa aits)" and "map_of aa ''xmlns'' = None"
  shows "ActionFromRequest past expat True True (Some x) fl u act (Some body) = Some (TINY_RET_E_NOT_FOUND, u)"
proof -
  obtain m' where "SoapMessage_ParseRequest past expat True (Some x) fresh_soap (Some body) = Some (TINY_RET_E_NOT_FOUND, m')"
    using request_refused [where expat = expat and content = body and m = fresh_soap, OF assms] by blast
  moreover have "SoapMessage_New True True = Some fresh_soap"
    by (simp add: SoapMessage_New_def fresh_soap_def SoapMessage_Construct_def)
  ultimately show ?thesis by (simp add: ActionFromRequest_def)
qed

text \<open>
  C16. A call of another stack, in any document. When the element of the action has an attribute \<open>xmlns\<close>, \<open>OnPost\<close>
  sets the state variable of every input argument to the value of its text and no other variable, and runs
  the handler of the device on that state; a code other than \<open>UPNP_SUCCESS\<close> is sent back as the error, and on
  success the action is answered from the state the handler left. When the element only binds a prefix (\<open>xmlns:u\<close>),
  the call is answered \<open>404\<close> and nothing changes.
\<close>

theorem post_runs_handler:
  assumes "unused x" and "envelope doc" and "expat body = (sax_of doc, True)" and "body \<noteq> []"
    and "soap_action doc = Some (XElem an aa aits)" and "moderate (XElem an aa aits)"
    and "case map_of aa ''xmlns'' of None \<Rightarrow> True | Some ns \<Rightarrow> length ns < XML_ATTR_VALUE_LEN"
    and "values_fit (soap_values (elements aits))"
    and "arguments_of act xs" and "act_service act = Some sa" and "table_of u sa vars" and "bindable vars"
    and "list_all (supplied ARG_IN (map_of (soap_values (elements aits))) vars) xs"
    and "CHR ''#'' \<notin> set ty" and "CHR ''#'' \<notin> set name" and "length ty \<le> GROUP_LEN" and "length name \<le> GROUP_LEN"
    and "UpnpProvider_GetAction u p (Some uri) (Some ty) (Some name) = Some (Some a)" and "act_at u a = Some act"
    and "u1 = with_variables u sa (assign_all fl ARG_IN (map_of (soap_values (elements aits))) xs vars)"
    and "UpnpProvider_GetActionHandlerContext u1 p (Some a) = Some (Some c)"
    and "run c a u1 = (code, u2)"
  shows "OnPost past expat True True (Some x) (msg_ok, soap_ok, malloc_ok) fl run u p uri (Some (quoted_action ty name)) (Some body) =
    (case map_of aa ''xmlns'' of
       None \<Rightarrow> Some ([SendError 404 ''NOT FOUND''], u)
     | Some ns \<Rightarrow> if code \<noteq> UPNP_SUCCESS then Some ([SendError code ''ACTION Execute failed''], u2)
         else (case act_at u2 a of
             None \<Rightarrow> None
           | Some act' \<Rightarrow> map_option (\<lambda>reply. (reply, u2))
               (UpnpHttpConnection_SendActionResponse msg_ok soap_ok malloc_ok fl u2 act')))"
proof -
  obtain buf where b: "soap_action_text (Some (quoted_action ty name)) = Some buf" "str_split buf ''#'' 4 = Some [ty, name]"
    using quoted_split [OF assms(14-17)] by (auto simp: bind_eq_Some_conv)
  show ?thesis
  proof (cases "map_of aa ''xmlns''")
    case None
    then have "ActionFromRequest past expat True True (Some x) fl u act (Some body) = Some (TINY_RET_E_NOT_FOUND, u)"
      by (rule inputs_refused [where expat = expat, OF assms(1-6)])
    then show ?thesis using b assms(18,19) None by (simp add: OnPost_def)
  next
    case (Some ns)
    then have "length ns < XML_ATTR_VALUE_LEN" using assms(7) by simp
    then have "ActionFromRequest past expat True True (Some x) fl u act (Some body) = Some (TINY_RET_OK, u1)"
      unfolding assms(20) using Some by (intro inputs_set [where expat = expat, OF assms(1-6) _ _ assms(8-13)])
    then show ?thesis using b assms(18,19,21,22) Some
      by (cases "act_at u2 a") (simp_all add: OnPost_def map_conv_bind_option comp_def)
  qed
qed

text \<open>
  C18. Reading the response of another stack with the status \<open>200\<close>. When the element of the result has an attribute
  \<open>xmlns\<close>, every output argument is stored in its state variable, no other variable changes, and the error
  becomes \<open>OK\<close>. When it only binds a prefix (\<open>xmlns:u\<close>), the response is refused and nothing is stored.
\<close>

theorem action_result_read:
  assumes "status_code response = HTTP_STATUS_OK" and "HttpMessage_GetStatus response = Some st"
    and "HttpContent_GetObject (content response) = Some body"
    and "unused x" and "envelope doc" and "expat body = (sax_of doc, True)" and "body \<noteq> []"
    and "soap_action doc = Some (XElem an aa aits)" and "moderate (XElem an aa aits)"
    and "strstr (local_name (XElem an aa aits)) ''Response'' = Some q"
    and "case map_of aa ''xmlns'' of None \<Rightarrow> True | Some ns \<Rightarrow> length ns < XML_ATTR_VALUE_LEN"
    and "values_fit (soap_values (elements aits))"
    and "arguments_of act xs" and "act_service act = Some sa" and "table_of u sa vars" and "bindable vars"
    and "list_all (supplied ARG_OUT (map_of (soap_values (elements aits))) vars) xs"
  shows "ActionFromResponse past expat True True (Some x) fl u act response =
    (case map_of aa ''xmlns'' of
       None \<Rightarrow> Some (TINY_RET_E_NOT_FOUND, u, \<lparr>err_code = HTTP_STATUS_OK, err_description = st\<rparr>)
     | Some ns \<Rightarrow> Some (TINY_RET_OK, with_variables u sa (assign_all fl ARG_OUT (map_of (soap_values (elements aits))) xs vars),
         \<lparr>err_code = UPNP_SUCCESS, err_description = ''OK''\<rparr>))"
proof -
  have new: "SoapMessage_New True True = Some fresh_soap"
    by (simp add: SoapMessage_New_def fresh_soap_def SoapMessage_Construct_def)
  show ?thesis
  proof (cases "map_of aa ''xmlns''")
    case None
    obtain m' where m: "SoapMessage_ParseResponse past expat True (Some x) fresh_soap (Some body) = Some (TINY_RET_E_NOT_FOUND, m')"
      using response_refused [where expat = expat and content = body and m = fresh_soap, OF assms(4-10) None] by blast
    have "length st < UPNP_ERR_DESCRIPTION_LEN"
      using assms(2) by (auto simp: HttpMessage_GetStatus_def read_field_def HTTP_STATUS_LEN_def UPNP_ERR_DESCRIPTION_LEN_def split: if_splits)
    then show ?thesis using m new assms(1-3) None by (simp add: ActionFromResponse_def field_cpy_short)
  next
    case (Some ns)
    then have len: "length ns < XML_ATTR_VALUE_LEN" using assms(11) by simp
    obtain m' where m: "SoapMessage_ParseResponse past expat True (Some x) fresh_soap (Some body) = Some (TINY_RET_OK, m')"
        "property_inv (SoapMessage_GetArgumentList m')" "prop_pairs (SoapMessage_GetArgumentList m') = soap_values (elements aits)"
        "\<not> SoapMessage_IsFault m'"
      using response_read [where expat = expat and content = body and m = fresh_soap, OF assms(4-10) Some len assms(12)] by blast
    then show ?thesis
      using m(1,4) new response_args_all [OF assms(13,14) m(2) assms(15,16), of fl] assms(1-3,14,17) Some
      by (simp add: ActionFromResponse_def SoapResponseToActionResult_def argument_count [OF assms(13)] m(3)
          UpnpAction_GetParentService_def field_cpy_def UPNP_ERR_DESCRIPTION_LEN_def)
  qed
qed

text \<open>
  A UPnP error never reaches the caller. UPnP sends a SOAP fault with the status \<open>500\<close>, but every
  status other than \<open>200\<close> makes \<open>ActionFromResponse\<close> return before it looks at the body: the caller
  gets the HTTP status and its text, whatever error code and description the fault carries.
\<close>

theorem action_error_status:
  assumes "status_code response \<noteq> HTTP_STATUS_OK" and "HttpMessage_GetStatus response = Some st"
  shows "ActionFromResponse past expat new_ok parser_ok xml fl u act response =
    Some (TINY_RET_E_UPNP_INVOKE_FAILED, u, \<lparr>err_code = status_code response, err_description = st\<rparr>)"
proof -
  have "length st < UPNP_ERR_DESCRIPTION_LEN"
    using assms(2) by (auto simp: HttpMessage_GetStatus_def read_field_def HTTP_STATUS_LEN_def UPNP_ERR_DESCRIPTION_LEN_def split: if_splits)
  then show ?thesis using assms by (simp add: ActionFromResponse_def field_cpy_short)
qed

text \<open>The demonstration service called by another stack.\<close>

lemma demo_target_ok: "bindable [demo_target]" "table_of demo_switch_store 5 [demo_target]"
proof -
  show "bindable [demo_target]" by (simp add: bindable_def demo_target_name) (simp add: demo_target_def typed_def)
  show "table_of demo_switch_store 5 [demo_target]"
    by (simp add: table_of_def demo_switch_store_def demo_switch_service_def count_ok_def)
qed

definition demo_handled :: provider where
  "demo_handled = demo_provider\<lparr>handlers :=
     snd (TinyMap_Insert [] (handlers (snd (UpnpProvider_Construct TINY_RET_OK))) (Some ''d1'') (Some \<lparr>handler = 30, handler_ctx = None\<rparr>))\<rparr>"

lemma demo_handled_context:
  assumes "act_at u 7 = Some demo_action" and "srv_at u 5 = Some s" and "srv_device s = Some 1" and "dev_at u 1 = Some demo_switch_device"
  shows "UpnpProvider_GetActionHandlerContext u demo_handled (Some 7) = Some (Some \<lparr>handler = 30, handler_ctx = None\<rparr>)"
proof -
  let ?fresh = "handlers (snd (UpnpProvider_Construct TINY_RET_OK)) :: handler_context tmap"
  have m: "map_inv ?fresh" "TinyMap_GetValue ?fresh (Some ''d1'') = None" using fresh_maps fresh_lookup by (simp_all add: maps_ok_def)
  have "TinyMap_GetValue (handlers demo_handled) (Some ''d1'') = Some \<lparr>handler = 30, handler_ctx = None\<rparr>"
    using tm.lookup_added [OF m(1) TrueI TrueI, of "''d1''" "\<lparr>handler = 30, handler_ctx = None\<rparr>"] m(2) by (simp add: demo_handled_def)
  moreover have "UpnpDevice_GetDeviceId demo_switch_device = Some ''d1''"
    using demo_device_id by (simp add: demo_switch_device_def UpnpDevice_GetDeviceId_def)
  ultimately show ?thesis
    using assms by (simp add: UpnpProvider_GetActionHandlerContext_def UpnpAction_GetParentService_def UpnpService_GetParentDevice_def demo_action_def)
qed

lemma demo_supplied: "supplied ARG_IN (map_of [(''Target'', ''1'')]) [demo_target] demo_argument"
  by (simp add: supplied_def demo_target_name) (simp add: demo_argument_def PROPERTY_VALUE_LEN_def)

theorem post_runs_handler_witness:
  "(\<exists>u2. OnPost NUL (foreign_expat demo_request_action) True True (Some fresh_xml) (True, True, True) int_floats (\<lambda>c a u. (501, u))
     demo_switch_store demo_handled ''/c'' (Some (quoted_action ''urn:x'' ''SetTarget'')) (Some ''x'') =
     Some ([SendError 501 ''ACTION Execute failed''], u2))
   \<and> (\<exists>u2. OnPost NUL (foreign_expat demo_request_action) True True (Some fresh_xml) (False, True, True) int_floats (\<lambda>c a u. (UPNP_SUCCESS, u))
     demo_switch_store demo_handled ''/c'' (Some (quoted_action ''urn:x'' ''SetTarget'')) (Some ''x'') = Some ([], u2))
   \<and> OnPost NUL (foreign_expat demo_prefixed_action) True True (Some fresh_xml) (True, True, True) int_floats (\<lambda>c a u. (UPNP_SUCCESS, u))
     demo_switch_store demo_handled ''/c'' (Some (quoted_action ''urn:x'' ''SetTarget'')) (Some ''x'') =
     Some ([SendError 404 ''NOT FOUND''], demo_switch_store)"
proof -
  let ?its = "[XElem ''Target'' [] [XText ''1'']]"
  let ?u1 = "with_variables demo_switch_store 5 (assign_all int_floats ARG_IN (map_of (soap_values (elements ?its))) [demo_argument] [demo_target])"
  have vf: "values_fit (soap_values (elements ?its))"
    unfolding target_values by (simp add: values_fit_def PROPERTY_VALUE_LEN_def)
  have act: "soap_action (wrap_action demo_request_action) = Some (XElem ''u:SetTarget'' [(''xmlns'', ''urn:x'')] ?its)"
    using wrap_action_of [OF demo_request_action_def] by (simp add: demo_request_action_def)
  have look: "UpnpProvider_GetAction demo_switch_store demo_handled (Some ''/c'') (Some ''urn:x'') (Some ''SetTarget'') = Some (Some 7)"
    by (rule demo_lookup) (simp add: demo_handled_def)
  have "\<exists>s. srv_at ?u1 5 = Some s \<and> srv_device s = Some 1"
    by (simp add: with_variables_def demo_switch_store_def demo_switch_service_def)
  moreover have "act_at ?u1 7 = Some demo_action" "dev_at ?u1 1 = Some demo_switch_device"
    by (simp_all add: with_variables_def demo_switch_store_def)
  ultimately have ctx: "UpnpProvider_GetActionHandlerContext ?u1 demo_handled (Some 7) = Some (Some \<lparr>handler = 30, handler_ctx = None\<rparr>)"
    using demo_handled_context by blast
  have sup: "list_all (supplied ARG_IN (map_of (soap_values (elements ?its))) [demo_target]) [demo_argument]"
    unfolding target_values using demo_supplied by simp
  have ex: "foreign_expat demo_request_action ''x'' = (sax_of (wrap_action demo_request_action), True)" by (simp add: foreign_expat_def)
  have misc: "''x'' \<noteq> []" "case map_of [(''xmlns'', ''urn:x'')] ''xmlns'' of None \<Rightarrow> True | Some ns \<Rightarrow> length ns < XML_ATTR_VALUE_LEN"
      "case map_of [(''xmlns:u'', ''urn:x'')] ''xmlns'' of None \<Rightarrow> True | Some ns \<Rightarrow> length ns < XML_ATTR_VALUE_LEN"
      "act_service demo_action = Some 5" "CHR ''#'' \<notin> set ''urn:x''" "CHR ''#'' \<notin> set ''SetTarget''"
      "length ''urn:x'' \<le> GROUP_LEN" "length ''SetTarget'' \<le> GROUP_LEN" "act_at demo_switch_store 7 = Some demo_action"
      "(501 :: int) \<noteq> UPNP_SUCCESS" "act_at ?u1 7 = Some demo_action"
    by (simp_all add: XML_ATTR_VALUE_LEN_def demo_action_def GROUP_LEN_def demo_switch_store_def UPNP_SUCCESS_def with_variables_def)
  have pre: "soap_action (wrap_action demo_prefixed_action) = Some (XElem ''u:SetTarget'' [(''xmlns:u'', ''urn:x'')] ?its)"
      "foreign_expat demo_prefixed_action ''x'' = (sax_of (wrap_action demo_prefixed_action), True)"
    using wrap_action_of [OF demo_prefixed_action_def] by (simp_all add: demo_prefixed_action_def foreign_expat_def)
  note plain = post_runs_handler [where expat = "foreign_expat demo_request_action" and body = "''x''" and past = NUL and fl = int_floats,
        OF fresh_xml_unused wrap_envelope [OF demo_request_action_def demo_request_action_ok(1)] ex misc(1) act
        demo_request_action_ok(2) [unfolded demo_request_action_def] misc(2) vf demo_arguments misc(4) demo_target_ok(2,1) sup
        misc(5-8) look misc(9) refl ctx]
  note prefixed = post_runs_handler [where expat = "foreign_expat demo_prefixed_action" and body = "''x''" and past = NUL and fl = int_floats,
        OF fresh_xml_unused wrap_envelope [OF demo_prefixed_action_def demo_prefixed_action_ok(1)] pre(2) misc(1) pre(1)
        demo_prefixed_action_ok(2) [unfolded demo_prefixed_action_def] misc(3) vf demo_arguments misc(4) demo_target_ok(2,1) sup
        misc(5-8) look misc(9) refl ctx]
  show ?thesis
    using plain [of "\<lambda>c a u. (501, u)" 501 ?u1 True True True] plain [of "\<lambda>c a u. (UPNP_SUCCESS, u)" UPNP_SUCCESS ?u1 False True True]
      prefixed [of "\<lambda>c a u. (UPNP_SUCCESS, u)" UPNP_SUCCESS ?u1 True True True] misc(10,11)
    by (simp add: UpnpHttpConnection_SendActionResponse_def)
qed

definition demo_get_action :: upnp_action where
  "demo_get_action = demo_action\<lparr>act_name := ''GetTarget'', argumentList := \<lparr>items = [Some (demo_argument\<lparr>direction := ARG_OUT\<rparr>)], count = 1,
     log = [], has_listener = True\<rparr>\<rparr>"

definition demo_answer :: "int \<Rightarrow> http_message" where
  "demo_answer code = fresh_message\<lparr>status_code := code, status_text := ''Status'', content := full_content ''x''\<rparr>"

theorem action_result_read_witness:
  "(\<exists>u'. ActionFromResponse NUL (foreign_expat demo_result_action) True True (Some fresh_xml) int_floats demo_switch_store demo_get_action
     (demo_answer 200) = Some (TINY_RET_OK, u', \<lparr>err_code = UPNP_SUCCESS, err_description = ''OK''\<rparr>))
   \<and> ActionFromResponse NUL (foreign_expat demo_prefixed_result) True True (Some fresh_xml) int_floats demo_switch_store demo_get_action
     (demo_answer 200) = Some (TINY_RET_E_NOT_FOUND, demo_switch_store, \<lparr>err_code = HTTP_STATUS_OK, err_description = ''Status''\<rparr>)"
proof -
  let ?its = "[XElem ''Target'' [] [XText ''1'']]" and ?x = "demo_argument\<lparr>direction := ARG_OUT\<rparr>"
  have vf: "values_fit (soap_values (elements ?its))"
    unfolding target_values by (simp add: values_fit_def PROPERTY_VALUE_LEN_def)
  have act: "soap_action (wrap_action demo_result_action) = Some (XElem ''u:GetTargetResponse'' [(''xmlns'', ''urn:x'')] ?its)"
    using wrap_action_of [OF demo_result_action_def] by (simp add: demo_result_action_def)
  have nm: "strstr (local_name (XElem ''u:GetTargetResponse'' [(''xmlns'', ''urn:x'')] ?its)) ''Response'' = Some ''Response''"
    using demo_result_action_ok(3) unfolding demo_result_action_def by simp
  have args: "arguments_of demo_get_action [?x]"
    by (simp add: arguments_of_def demo_get_action_def demo_argument_def count_ok_def UpnpArgument_NAME_LEN_def VARIABLE_NAME_LEN_def)
  have sup: "list_all (supplied ARG_OUT (map_of (soap_values (elements ?its))) [demo_target]) [?x]"
    unfolding target_values by (simp add: supplied_def demo_target_name) (simp add: demo_argument_def PROPERTY_VALUE_LEN_def)
  have ex: "foreign_expat demo_result_action ''x'' = (sax_of (wrap_action demo_result_action), True)" by (simp add: foreign_expat_def)
  have misc: "''x'' \<noteq> []" "case map_of [(''xmlns'', ''urn:x'')] ''xmlns'' of None \<Rightarrow> True | Some ns \<Rightarrow> length ns < XML_ATTR_VALUE_LEN"
      "case map_of [(''xmlns:u'', ''urn:x'')] ''xmlns'' of None \<Rightarrow> True | Some ns \<Rightarrow> length ns < XML_ATTR_VALUE_LEN"
      "act_service demo_get_action = Some 5" "status_code (demo_answer 200) = HTTP_STATUS_OK"
      "HttpMessage_GetStatus (demo_answer 200) = Some ''Status''" "HttpContent_GetObject (content (demo_answer 200)) = Some ''x''"
    by (simp_all add: XML_ATTR_VALUE_LEN_def demo_action_def demo_get_action_def demo_answer_def HTTP_STATUS_OK_def HttpMessage_GetStatus_def
        read_field_def HTTP_STATUS_LEN_def full_content_def HttpContent_GetObject_def)
  have pre: "soap_action (wrap_action demo_prefixed_result) = Some (XElem ''u:GetTargetResponse'' [(''xmlns:u'', ''urn:x'')] ?its)"
      "foreign_expat demo_prefixed_result ''x'' = (sax_of (wrap_action demo_prefixed_result), True)"
    using wrap_action_of [OF demo_prefixed_result_def] by (simp_all add: demo_prefixed_result_def foreign_expat_def)
  have nm2: "strstr (local_name (XElem ''u:GetTargetResponse'' [(''xmlns:u'', ''urn:x'')] ?its)) ''Response'' = Some ''Response''"
    using demo_prefixed_result_ok(3) unfolding demo_prefixed_result_def by simp
  show ?thesis
    using action_result_read [where expat = "foreign_expat demo_result_action" and body = "''x''" and past = NUL and fl = int_floats,
        OF misc(5-7) fresh_xml_unused wrap_envelope [OF demo_result_action_def demo_result_action_ok(1)] ex misc(1) act
        demo_result_action_ok(2) [unfolded demo_result_action_def] nm misc(2) vf args misc(4) demo_target_ok(2,1) sup]
      action_result_read [where expat = "foreign_expat demo_prefixed_result" and body = "''x''" and past = NUL and fl = int_floats,
        OF misc(5-7) fresh_xml_unused wrap_envelope [OF demo_prefixed_result_def demo_prefixed_result_ok(1)] pre(2) misc(1) pre(1)
        demo_prefixed_result_ok(2) [unfolded demo_prefixed_result_def] nm2 misc(3) vf args misc(4) demo_target_ok(2,1) sup] by simp
qed

theorem action_error_status_witness:
  "ActionFromResponse NUL (foreign_expat demo_fault_action) True True (Some fresh_xml) int_floats demo_switch_store demo_get_action
     (demo_answer 500) = Some (TINY_RET_E_UPNP_INVOKE_FAILED, demo_switch_store, \<lparr>err_code = 500, err_description = ''Status''\<rparr>)"
  using action_error_status [of "demo_answer 500" "''Status''"]
  by (simp add: demo_answer_def HTTP_STATUS_OK_def HttpMessage_GetStatus_def read_field_def HTTP_STATUS_LEN_def)

text \<open>
  A POST request without a \<open>Soapaction\<close> header, or with one of less than two characters, is
  undefined behaviour in \<open>OnPost\<close>, whatever its target and its body: NULL is dereferenced or
  \<open>strlen(soapAction) - 2\<close> wraps around and \<open>strncpy\<close> overruns its buffer.
\<close>

theorem post_header_undefined:
  assumes "hdr = None \<or> length (the hdr) < 2"
  shows "OnPost past expat new_ok parser_ok xml oks fl run u p uri hdr body = None"
  using assms by (auto simp: OnPost_def soap_action_text_def split: option.splits)

theorem post_header_undefined_witness:
  "OnPost NUL soap_expat True True (Some fresh_xml) (True, True, True) int_floats (\<lambda>c a u. (200, u)) demo_switch_store demo_provider
     ''/c'' (Some ''x'') None = None"
  by (rule post_header_undefined) simp

subsection \<open>Answering\<close>

lemma plain_soap_headers:
  assumes "soap_size_ok t"
  shows "\<forall>kv \<in> set (soap_headers t). plain_header kv \<and> length (header_text kv) < HTTP_LINE_LEN"
    and "length (concat (map header_text (soap_headers t))) \<le> 200"
proof -
  have l: "length (show_nat (length t)) \<le> 5" using assms by (intro show_nat_length) (simp_all add: soap_size_ok_def UPNP_SOAP_LEN_def)
  have "CR \<notin> set (show_nat (length t))" using show_nat_digits [of "length t"] by auto
  then have "plain_header (''Content-Length'', show_nat (length t))"
    using l by (simp add: plain_header_def is_name_char_def HTTP_MAX_NAME_LEN_def HTTP_MAX_VALUE_LEN_def sbyte_def is_char_def
        is_ctl_def is_tspecial_def)
  moreover have "plain_header (''Content-Type'', ''text/xml;charset=\"utf-8\"'')" "plain_header (''User-Agent'', UPNP_STACK_INFO)"
    by (simp_all add: plain_header_def is_name_char_def HTTP_MAX_NAME_LEN_def HTTP_MAX_VALUE_LEN_def sbyte_def is_char_def
        is_ctl_def is_tspecial_def UPNP_STACK_INFO_def cstring_def)
  ultimately show "\<forall>kv \<in> set (soap_headers t). plain_header kv \<and> length (header_text kv) < HTTP_LINE_LEN"
    using l by (simp add: soap_headers_def HTTP_LINE_LEN_def UPNP_STACK_INFO_def)
  show "length (concat (map header_text (soap_headers t))) \<le> 200"
    using l by (simp add: soap_headers_def UPNP_STACK_INFO_def)
qed

definition soap_response_of :: "string \<Rightarrow> http_message" where
  "soap_response_of t = fresh_message\<lparr>mtype := HTTP_RESPONSE, major := 1, minor := 1, status_code := 200, status_text := ''OK'',
     header := header_set_all (soap_headers t) (snd HttpHeader_Construct), content := full_content t\<rparr>"

lemma soap_response_http:
  assumes "sendable_soap m" and "t = soap_text (so_actionName m) (so_actionXmlns m) (prop_pairs (so_arguments m))" and "soap_size_ok t"
  shows "SoapResponseToHttpResponse True m fresh_message = Some (TINY_RET_OK, soap_response_of t)"
proof -
  have ready: "soap_ready m" using sendable_ready [OF assms(1)] .
  note sz = soap_size [OF assms(3)]
  have str: "SoapMessage_ToString m UPNP_SOAP_LEN = Some (TINY_RET_OK, t)"
    using soap_to_string [OF ready, of UPNP_SOAP_LEN] assms(2,3) by (simp add: soap_size_ok_def UPNP_SOAP_LEN_def)
  have get: "SoapMessage_GetActionName m = Some (so_actionName m)" "SoapMessage_GetActionXmlns m = Some (so_actionXmlns m)"
    using ready by (simp_all add: soap_ready_def SoapMessage_GetActionName_def SoapMessage_GetActionXmlns_def read_field_def)
  let ?r = "fresh_message\<lparr>mtype := HTTP_RESPONSE, major := 1, minor := 1, status_code := 200, status_text := ''OK'',
     header := header_set_all (soap_headers t) (snd HttpHeader_Construct)\<rparr>"
  have add: "HttpMessage_AddContentObject (snd (HttpMessage_SetContentSize True ?r (word_of_nat (length t)))) (Some t) (word_of_nat (length t)) =
      Some (TINY_RET_OK, ?r\<lparr>content := full_content t\<rparr>)"
    using set_whole_content [of ?r t] sz(3) soap_text_nonempty by (simp add: assms(2))
  show ?thesis
    using add by (simp add: SoapResponseToHttpResponse_def get str Let_def set_header_all set_all_append sz(1,2) HttpMessage_SetResponse_def
        HttpMessage_SetVersion_def HttpMessage_SetType_def soap_headers_def soap_response_of_def field_cpy_def HTTP_STATUS_LEN_def
        del: header_set_all_Cons)
qed

lemma soap_response_printed:
  assumes "soap_size_ok t" and "cstring t" and "t \<noteq> []" and "length t + 256 \<le> UPNP_SOAP_LEN"
  shows "HttpMessage_ToString (soap_response_of t) UPNP_SOAP_LEN = None"
proof -
  let ?m = "soap_response_of t"
  have hp: "header_pairs (header ?m) = soap_headers t"
  proof -
    have "header_pairs (header ?m) = map (\<lambda>(k, v). (field_cpy HTTP_MAX_NAME_LEN k, field_cpy HTTP_MAX_VALUE_LEN v)) (soap_headers t)"
      by (simp add: soap_response_of_def header_pairs_set_all) (simp add: header_pairs_def HttpHeader_Construct_def L_new_def L_SetDeleteListener_def)
    also have "\<dots> = soap_headers t"
      using plain_soap_headers(1) [OF assms(1)] by (intro map_idI) (auto simp: plain_header_def field_cpy_short)
    finally show ?thesis .
  qed
  have inv: "header_inv (header ?m)" "length (items (header ?m)) = 3"
    using header_set_all_items [of "soap_headers t" "snd HttpHeader_Construct"] header_inv_set_all [of "snd HttpHeader_Construct" "soap_headers t"]
    by (simp_all add: soap_response_of_def soap_headers_def HttpHeader_Construct_def L_new_def L_SetDeleteListener_def header_inv_def count_ok_def
        del: header_set_all_Cons)
  have fit: "headers_fit (header ?m)"
    using inv plain_soap_headers(1) [OF assms(1)] unfolding headers_fit_def hp by simp
  have ok: "response_ok ?m"
    by (simp add: response_ok_def version_ok_def num_ok_def soap_response_of_def is_ctl_def sbyte_def)
  have line: "first_line ?m = Some (response_text ?m)" by (rule first_line_response [OF ok])
  have ll: "length (response_text ?m) \<le> 20"
    by (simp add: response_text_def printed_version_def soap_response_of_def show_int_def show_nat_small show_nat_big)
  let ?h = "http_text (response_text ?m) (header_pairs (header ?m)) []"
  have hl: "length ?h \<le> 222" using plain_soap_headers(2) [OF assms(1)] ll by (simp add: http_text_def hp)
  have "HttpMessage_ToString ?m UPNP_SOAP_LEN = put_body UPNP_SOAP_LEN ?h (content ?m)"
    using hl assms(4) ll by (intro to_string_head [OF _ line fit]) (simp_all add: soap_response_of_def HTTP_LINE_LEN_def UPNP_SOAP_LEN_def)
  also have "\<dots> = None"
    using assms hl put_body_overread [of t ?h UPNP_SOAP_LEN] by (simp add: soap_response_of_def cstring_def UPNP_SOAP_LEN_def)
  finally show ?thesis .
qed

text \<open>
  Answering a successful action is undefined behaviour for every response of ordinary size.
  \<open>UpnpHttpConnection_SendActionResponse\<close> prints the response with \<open>HttpMessage_ToString\<close>, which copies
  the body with \<open>strncpy\<close> although its buffer has no terminator: bytes behind the buffer are read.
\<close>

theorem action_response_overread:
  assumes "callable u act s name ty url" and "arguments_of act xs" and "clear_names ARG_OUT s xs" and "CHR '':'' \<notin> set name"
    and "length name + 8 < ACTION_NAME_LEN" and "t = soap_text (name @ ''Response'') ty (sent_values ARG_OUT s xs)"
    and "cstring t" and "length t + 256 \<le> UPNP_SOAP_LEN"
  shows "ActionToResponse True True fl u act fresh_message = Some (TINY_RET_OK, soap_response_of t)
    \<and> UpnpHttpConnection_SendActionResponse True True True fl u act = None"
proof -
  have size: "soap_size_ok t" using assms(8) by (simp add: soap_size_ok_def UPNP_SOAP_LEN_def)
  obtain m where m: "fill_soap fl ARG_OUT SoapMessage_SetResponseActionName u act fresh_soap = Some (TINY_RET_OK, m)" "sendable_soap m"
      "so_actionName m = name @ ''Response''" "so_actionXmlns m = ty" "prop_pairs (so_arguments m) = sent_values ARG_OUT s xs"
    using soap_filled [OF assms(1-3), of SoapMessage_SetResponseActionName "name @ ''Response''" fl] assms(4,5) by auto
  have "SoapResponseToHttpResponse True m fresh_message = Some (TINY_RET_OK, soap_response_of t)"
    using soap_response_http [OF m(2) _ size] by (simp add: m(3-5) assms(6))
  moreover have "SoapMessage_New True True = Some fresh_soap"
    by (simp add: SoapMessage_New_def fresh_soap_def SoapMessage_Construct_def)
  ultimately have "ActionToResponse True True fl u act fresh_message = Some (TINY_RET_OK, soap_response_of t)"
    using m(1) by (simp add: ActionToResponse_def ActionToSoapResponse_def)
  moreover have "HttpMessage_ToString (soap_response_of t) UPNP_SOAP_LEN = None"
    using soap_response_printed [OF size assms(7) _ assms(8)] soap_text_nonempty by (simp add: assms(6))
  ultimately show ?thesis by (simp add: UpnpHttpConnection_SendActionResponse_def fresh_message_def)
qed

theorem action_response_overread_witness:
  "UpnpHttpConnection_SendActionResponse True True True int_floats demo_switch_store demo_action = None"
proof -
  have e: "sent_values ARG_OUT demo_switch_service [demo_argument] = []" by (simp add: sent_values_def demo_argument_def)
  have n: "clear_names ARG_OUT demo_switch_service [demo_argument]"
    unfolding clear_names_def e by (simp add: can_send_def demo_argument_def)
  let ?t = "soap_text (''SetTarget'' @ ''Response'') ''urn:x'' []"
  have "cstring ?t" "length ?t + 256 \<le> UPNP_SOAP_LEN"
    by (simp_all add: soap_text_def SOAP_XML_VERSION_def SOAP_ENVELOPE_BEGIN_def SOAP_ENVELOPE_BEGIN_XMLNS_def
      SOAP_ENVELOPE_BEGIN_ENCODING_def SOAP_BODY_BEGIN_def SOAP_BODY_END_def SOAP_ENVELOPE_END_def UPNP_SOAP_LEN_def)
  then show ?thesis
    using action_response_overread [OF demo_callable demo_arguments n, unfolded e, where t = ?t and fl = int_floats]
    by (simp add: ACTION_NAME_LEN_def)
qed

end
