(* ===== verification/Tcp.thy ===== *)
theory Tcp
  imports BlockingQueue HttpMessage
begin

section \<open>TCP: \<open>Tiny/Tcp\<close> and the stream part of \<open>Tiny/Socket/tiny_socket.c\<close>\<close>

text \<open>
  The operating system is a script of answers to the calls of one socket: what \<open>select\<close>, \<open>recv\<close>
  and \<open>send\<close> return, in order, and which allocations of the receive buffer succeed. Every theorem
  quantifies over it. What the socket was given to send and how often its descriptor was closed is
  recorded. The code of the POSIX branch is modelled.

  A script that has run out is a peer that says nothing more: nothing to read, and everything that
  is sent is taken.
\<close>

datatype select_answer = SelectError | SelectTimeout | Selected bool

datatype recv_answer = Received string | RecvFailed

datatype send_answer = Sent nat | SendAgain | SendFailed

record tcp_os =
  selects :: "select_answer list"
  recvs :: "recv_answer list"
  sends :: "send_answer list"
  buffers :: mallocs
  written :: string
  closes :: nat

subsection \<open>Waiting\<close>

text \<open>The argument of \<open>Selected\<close> is \<open>tiny_socket_has_error\<close>.\<close>

definition tiny_socket_waiting_for_read :: "select_answer \<Rightarrow> tiny_ret" where
  "tiny_socket_waiting_for_read a = (case a of
       SelectError \<Rightarrow> TINY_RET_E_SELECT
     | SelectTimeout \<Rightarrow> TINY_RET_E_TIMEOUT
     | Selected err \<Rightarrow> if err then TINY_RET_E_SOCKET_READ else TINY_RET_OK)"

definition tiny_socket_waiting_for_write :: "select_answer \<Rightarrow> tiny_ret" where
  "tiny_socket_waiting_for_write a = (case a of
       SelectError \<Rightarrow> TINY_RET_E_SELECT
     | SelectTimeout \<Rightarrow> TINY_RET_E_TIMEOUT
     | Selected err \<Rightarrow> if err then TINY_RET_E_SOCKET_WRITE else TINY_RET_OK)"

definition tiny_tcp_waiting_for_connected :: "select_answer \<Rightarrow> tiny_ret" where
  "tiny_tcp_waiting_for_connected a = (case a of
       SelectError \<Rightarrow> TINY_RET_E_SELECT
     | SelectTimeout \<Rightarrow> TINY_RET_E_TIMEOUT
     | Selected err \<Rightarrow> if err then TINY_RET_E_SOCKET_DISCONNECTED else TINY_RET_OK)"

definition tiny_tcp_waiting_for_read :: "tcp_os \<Rightarrow> tiny_ret \<times> tcp_os" where
  "tiny_tcp_waiting_for_read os = (case selects os of
       [] \<Rightarrow> (tiny_socket_waiting_for_read (if recvs os = [] then SelectTimeout else Selected False), os)
     | a # as \<Rightarrow> (tiny_socket_waiting_for_read a, os\<lparr>selects := as\<rparr>))"

definition tiny_tcp_waiting_for_write :: "tcp_os \<Rightarrow> tiny_ret \<times> tcp_os" where
  "tiny_tcp_waiting_for_write os = (case selects os of
       [] \<Rightarrow> (tiny_socket_waiting_for_write (Selected False), os)
     | a # as \<Rightarrow> (tiny_socket_waiting_for_write a, os\<lparr>selects := as\<rparr>))"

subsection \<open>Reading and writing\<close>

text \<open>
  \<open>recv\<close> gives at most the bytes asked for; the rest of a segment stays for the next call. The
  sockets that are read do not block.
\<close>

fun tiny_tcp_read :: "recv_answer list \<Rightarrow> nat \<Rightarrow> string \<times> recv_answer list" where
  "tiny_tcp_read [] len = ([], [])"
| "tiny_tcp_read (a # as) len =
     (if len = 0 then ([], a # as)
      else case a of
        RecvFailed \<Rightarrow> ([], as)
      | Received b \<Rightarrow>
          if b = [] then ([], as)
          else if len < length b then (take len b, Received (drop len b) # as)
          else (case tiny_tcp_read as (len - length b) of (r, as1) \<Rightarrow> (b @ r, as1)))"

text \<open>The number of bytes \<open>send\<close> took, with its remaining answers.\<close>

fun tiny_tcp_write :: "send_answer list \<Rightarrow> nat \<Rightarrow> nat \<times> send_answer list" where
  "tiny_tcp_write [] len = (len, [])"
| "tiny_tcp_write (a # as) len =
     (if len = 0 then (0, a # as)
      else case a of
        SendFailed \<Rightarrow> (0, as)
      | SendAgain \<Rightarrow> tiny_tcp_write as len
      | Sent n \<Rightarrow>
          if n = 0 then (0, as)
          else if len \<le> n then (len, as)
          else (case tiny_tcp_write as (len - n) of (m, as1) \<Rightarrow> (n + m, as1)))"

text \<open>
  The common parts of \<open>TcpConn_Recv\<close>/\<open>TcpClient_Recv\<close> and of \<open>TcpConn_Send\<close>/\<open>TcpClient_Send\<close>
  after their test of the status. A byte string that was received stands for a zeroed buffer of
  \<open>cap\<close> bytes with it at its start.
\<close>

definition os_recv :: "tcp_os \<Rightarrow> 32 word \<Rightarrow> tiny_ret \<times> string \<times> tcp_os" where
  "os_recv os cap = (case tiny_tcp_waiting_for_read os of (ret, os1) \<Rightarrow>
     if RET_FAILED ret then (ret, [], os1)
     else (case malloc_next (buffers os1) of (ok, oks) \<Rightarrow>
       let os2 = os1\<lparr>buffers := oks\<rparr> in
       if \<not> ok then (TINY_RET_E_OUT_OF_MEMORY, [], os2)
       else (case tiny_tcp_read (recvs os2) (unat cap) of (b, rest) \<Rightarrow>
         (if b = [] then TINY_RET_E_SOCKET_READ else ret, b, os2\<lparr>recvs := rest\<rparr>))))"

definition os_send :: "tcp_os \<Rightarrow> string \<Rightarrow> tiny_ret \<times> tcp_os" where
  "os_send os bytes = (case tiny_tcp_write (sends os) (length bytes) of (n, rest) \<Rightarrow>
     (if 0 < n then TINY_RET_OK else TINY_RET_E_SOCKET_WRITE,
      os\<lparr>sends := rest, written := written os @ take n bytes\<rparr>))"

definition tiny_tcp_close :: "tcp_os \<Rightarrow> tiny_ret \<times> tcp_os" where
  "tiny_tcp_close os = (TINY_RET_OK, os\<lparr>closes := closes os + 1\<rparr>)"

text \<open>What the script still has to deliver; every successful read takes something away.\<close>

definition answer_size :: "recv_answer \<Rightarrow> nat" where
  "answer_size a = (case a of Received b \<Rightarrow> Suc (length b) | RecvFailed \<Rightarrow> 1)"

lemma answer_size_simps [simp]: "answer_size (Received b) = Suc (length b)" "answer_size RecvFailed = 1"
  by (simp_all add: answer_size_def)

definition undelivered :: "tcp_os \<Rightarrow> nat" where
  "undelivered os = sum_list (map answer_size (recvs os))"

lemma tcp_read_pending:
  "tiny_tcp_read as len = (b, rest) \<Longrightarrow> length b + sum_list (map answer_size rest) \<le> sum_list (map answer_size as)"
proof (induction as len arbitrary: b rest rule: tiny_tcp_read.induct)
  case (2 a as len)
  show ?case
  proof (cases a)
    case (Received s)
    note run = 2(2) [unfolded Received]
    consider "len = 0" | "len \<noteq> 0" "s = []" | "len < length s" "len \<noteq> 0" | "len \<noteq> 0" "s \<noteq> []" "length s \<le> len" by linarith
    then show ?thesis
    proof cases
      case 3
      then have "b = take len s" "rest = Received (drop len s) # as" using run by (auto split: if_splits)
      with 3 show ?thesis by (simp add: Received)
    next
      case 4
      then obtain r where r: "tiny_tcp_read as (len - length s) = (r, rest)" "b = s @ r"
        using run by (auto split: prod.splits)
      have "length r + sum_list (map answer_size rest) \<le> sum_list (map answer_size as)"
        by (rule 2(1) [OF _ Received _ _ r(1)]) (use 4 in simp_all)
      then show ?thesis by (simp add: r(2) Received)
    qed (use run in \<open>simp_all add: Received\<close>)
  next
    case RecvFailed
    with 2(2) show ?thesis by (auto split: if_splits)
  qed
qed simp

lemma os_recv_pending:
  assumes "os_recv os cap = (ret, b, os1)" and "\<not> RET_FAILED ret"
  shows "b \<noteq> [] \<and> undelivered os1 < undelivered os"
proof -
  obtain r0 os0 where w: "tiny_tcp_waiting_for_read os = (r0, os0)" by fastforce
  obtain ok oks where m: "malloc_next (buffers os0) = (ok, oks)" by fastforce
  obtain bs rest where r: "tiny_tcp_read (recvs os0) (unat cap) = (bs, rest)" by fastforce
  have "recvs os0 = recvs os" using w by (auto simp: tiny_tcp_waiting_for_read_def split: list.splits)
  then have "length bs + sum_list (map answer_size rest) \<le> undelivered os" using tcp_read_pending [OF r] by (simp add: undelivered_def)
  moreover have "b = bs" "b \<noteq> []" "recvs os1 = rest"
    using assms w m r by (auto simp: os_recv_def Let_def RET_FAILED_def ret_defs split: if_splits)
  ultimately show ?thesis by (cases bs) (auto simp: undelivered_def)
qed

subsection \<open>TcpConn\<close>

definition TCP_CONN_BUFFER_SIZE :: "32 word" where "TCP_CONN_BUFFER_SIZE = 1024 * 50"

datatype tcp_conn_status = TCP_CONN_DISCONNECT | TCP_CONN_CONNECTED

record tcp_conn =
  conn_id :: "32 word"
  conn_status :: tcp_conn_status
  conn_os :: tcp_os
  conn_buf_size :: "32 word"
  client_ip :: string
  client_port :: "16 word"
  conn_thread :: tthread
  conn_listening :: bool

definition silent_os :: tcp_os where
  "silent_os = \<lparr>selects = [], recvs = [], sends = [], buffers = [], written = [], closes = 0\<rparr>"

definition TcpConn_Construct :: "tiny_ret \<times> tcp_conn" where
  "TcpConn_Construct = (TINY_RET_OK,
     \<lparr>conn_id = 0, conn_status = TCP_CONN_DISCONNECT, conn_os = silent_os, conn_buf_size = TCP_CONN_BUFFER_SIZE,
      client_ip = [], client_port = 0,
      conn_thread = snd (TinyThread_Initialize (snd TinyThread_Construct) True (Some ''http_conn'')), conn_listening = False\<rparr>)"

definition TcpConn_New :: "bool \<Rightarrow> tcp_conn option" where
  "TcpConn_New malloc_ok = (if malloc_ok then Some (snd TcpConn_Construct) else None)"

definition TcpConn_Initialize :: "tcp_conn \<Rightarrow> 32 word \<Rightarrow> tcp_os \<Rightarrow> string \<Rightarrow> 16 word \<Rightarrow> tiny_ret \<times> tcp_conn" where
  "TcpConn_Initialize c i fd ip_text prt = (TINY_RET_OK,
     c\<lparr>conn_id := i, conn_status := TCP_CONN_CONNECTED, conn_os := fd,
       client_ip := field_cpy TINY_IP_LEN ip_text, client_port := prt\<rparr>)"

text \<open>The status keeps its value.\<close>

definition TcpConn_Dispose :: "tcp_conn \<Rightarrow> tiny_ret \<times> tcp_conn" where
  "TcpConn_Dispose c = (TINY_RET_OK, c\<lparr>conn_id := 0, conn_os := silent_os, client_ip := [], client_port := 0\<rparr>)"

definition TcpConn_SetListener :: "tcp_conn \<Rightarrow> bool \<Rightarrow> tiny_ret \<times> tcp_conn" where
  "TcpConn_SetListener c given =
     (if given then (TINY_RET_OK, c\<lparr>conn_listening := True\<rparr>) else (TINY_RET_E_ARG_NULL, c))"

definition TcpConn_Start :: "64 word option \<Rightarrow> tcp_conn \<Rightarrow> tiny_ret \<times> tcp_conn" where
  "TcpConn_Start tid c = (TINY_RET_OK, c\<lparr>conn_thread := snd (TinyThread_Start (conn_thread c) tid)\<rparr>)"

definition TcpConn_SetBufferSize :: "tcp_conn \<Rightarrow> 32 word \<Rightarrow> tcp_conn" where
  "TcpConn_SetBufferSize c n = c\<lparr>conn_buf_size := n\<rparr>"

definition TcpConn_GetStatus :: "tcp_conn \<Rightarrow> tcp_conn_status" where
  "TcpConn_GetStatus c = conn_status c"

text \<open>The socket is closed, and the connection still says that it is connected.\<close>

definition TcpConn_Disconnect :: "tcp_conn \<Rightarrow> tiny_ret \<times> tcp_conn" where
  "TcpConn_Disconnect c =
     (if conn_status c = TCP_CONN_DISCONNECT then (TINY_RET_E_SOCKET_DISCONNECTED, c)
      else (TINY_RET_OK, c\<lparr>conn_os := snd (tiny_tcp_close (conn_os c))\<rparr>))"

definition TcpConn_Send :: "tcp_conn \<Rightarrow> string \<Rightarrow> tiny_ret \<times> tcp_conn" where
  "TcpConn_Send c bytes =
     (if conn_status c \<noteq> TCP_CONN_CONNECTED then (TINY_RET_E_SOCKET_DISCONNECTED, c)
      else (case os_send (conn_os c) bytes of (ret, os) \<Rightarrow> (ret, c\<lparr>conn_os := os\<rparr>)))"

definition TcpConn_Recv :: "tcp_conn \<Rightarrow> tiny_ret \<times> string \<times> tcp_conn" where
  "TcpConn_Recv c =
     (if conn_status c \<noteq> TCP_CONN_CONNECTED then (TINY_RET_E_SOCKET_DISCONNECTED, [], c)
      else (case os_recv (conn_os c) (conn_buf_size c) of (ret, b, os) \<Rightarrow> (ret, b, c\<lparr>conn_os := os\<rparr>)))"

text \<open>The thread of a connection runs the listener and closes the socket.\<close>

definition conn_loop :: "('s \<times> tcp_conn \<Rightarrow> ('s \<times> tcp_conn) option) \<Rightarrow> 's \<times> tcp_conn \<Rightarrow> ('s \<times> tcp_conn) option" where
  "conn_loop listen sc = map_option (\<lambda>(s, c). (s, c\<lparr>conn_os := snd (tiny_tcp_close (conn_os c))\<rparr>)) (listen sc)"

subsection \<open>TcpConnPool\<close>

text \<open>
  The list of the connections. \<open>RemoveClosed\<close> frees those that say they are disconnected and
  leaves them in the list; the second component is what it frees.
\<close>

type_synonym tcp_conn_pool = "tcp_conn lspec"

definition TcpConnPool_Construct :: "tiny_ret \<times> tcp_conn_pool" where
  "TcpConnPool_Construct = (TINY_RET_OK, L_SetDeleteListener True L_new)"

definition TcpConnPool_Add :: "bool \<Rightarrow> tcp_conn_pool \<Rightarrow> tcp_conn option \<Rightarrow> tcp_conn_pool" where
  "TcpConnPool_Add ok p c = (if c = None then p else snd (L_AddTail ok c p))"

definition TcpConnPool_Clean :: "tcp_conn_pool \<Rightarrow> tcp_conn_pool" where
  "TcpConnPool_Clean p = snd (L_RemoveAll p)"

definition ConnRemoveClosedListener :: "tcp_conn option \<Rightarrow> tcp_conn list \<Rightarrow> bool \<times> tcp_conn list" where
  "ConnRemoveClosedListener x freed = (True, (case x of
       None \<Rightarrow> freed
     | Some c \<Rightarrow> if TcpConn_GetStatus c = TCP_CONN_DISCONNECT then freed @ [c] else freed))"

definition TcpConnPool_RemoveClosed :: "tcp_conn_pool \<Rightarrow> tcp_conn_pool \<times> tcp_conn list" where
  "TcpConnPool_RemoveClosed p = (p, snd (L_Foreach p ConnRemoveClosedListener []))"

definition TcpConnPool_Dispose :: "tcp_conn_pool \<Rightarrow> tiny_ret \<times> tcp_conn_pool" where
  "TcpConnPool_Dispose p = (TINY_RET_OK, snd (L_RemoveAll p))"

subsection \<open>TcpServer\<close>

text \<open>
  \<open>srv_os\<close> counts the closings of the listening socket. \<open>srv_open\<close> and \<open>srv_listen\<close> are the
  results of \<open>tiny_tcp_open\<close> and \<open>tiny_tcp_listen\<close>.
\<close>

record tcp_server =
  srv_running :: bool
  srv_port :: "16 word"
  srv_thread :: tthread
  srv_pool :: tcp_conn_pool
  srv_conn_id :: "32 word"
  srv_closes :: nat
  srv_listening :: bool

definition TcpServer_Construct :: "tiny_ret \<times> tcp_server" where
  "TcpServer_Construct = (TINY_RET_OK,
     \<lparr>srv_running = False, srv_port = 0, srv_thread = snd TinyThread_Construct, srv_pool = snd TcpConnPool_Construct,
      srv_conn_id = 0, srv_closes = 0, srv_listening = False\<rparr>)"

definition TcpServer_Start ::
    "tiny_ret \<Rightarrow> tiny_ret \<Rightarrow> 64 word option \<Rightarrow> tcp_server \<Rightarrow> bool \<Rightarrow> tiny_ret \<times> tcp_server" where
  "TcpServer_Start open_ret listen_ret tid s given =
     (if srv_running s then (TINY_RET_E_STARTED, s)
      else let s1 = s\<lparr>srv_listening := given\<rparr> in
        if RET_FAILED open_ret then (open_ret, s1)
        else if RET_FAILED listen_ret then (listen_ret, s1)
        else let t = snd (TinyThread_Initialize (srv_thread s1) True (Some ''HttpServer''))
             in (TINY_RET_OK, s1\<lparr>srv_thread := snd (TinyThread_Start t tid), srv_running := True\<rparr>))"

definition TcpServer_Stop :: "tcp_server \<Rightarrow> tiny_ret \<times> tcp_server" where
  "TcpServer_Stop s =
     (if \<not> srv_running s then (TINY_RET_E_STOPPED, s)
      else (TINY_RET_OK, s\<lparr>srv_closes := srv_closes s + 1, srv_running := False\<rparr>))"

definition TcpServer_Dispose :: "tcp_server \<Rightarrow> tiny_ret \<times> tcp_server" where
  "TcpServer_Dispose s = (let s1 = snd (TcpServer_Stop s)
     in (TINY_RET_OK, s1\<lparr>srv_thread := snd (TinyThread_Dispose (srv_thread s1)),
                         srv_pool := snd (TcpConnPool_Dispose (srv_pool s1))\<rparr>))"

definition TcpServer_IsRunning :: "tcp_server \<Rightarrow> bool" where
  "TcpServer_IsRunning s = srv_running s"

text \<open>\<open>bound\<close> is the port \<open>tiny_socket_get_port\<close> finds; the first answer other than 0 is kept for good.\<close>

definition TcpServer_GetListenPort :: "16 word \<Rightarrow> tcp_server \<Rightarrow> 16 word \<times> tcp_server" where
  "TcpServer_GetListenPort bound s =
     (let s1 = (if srv_port s = 0 then s\<lparr>srv_port := bound\<rparr> else s) in (srv_port s1, s1))"

text \<open>
  The accepting thread. Each answer of \<open>accept\<close> is the peer's address and socket, with the
  outcomes of the two allocations and of creating the thread; when there are no more, \<open>accept\<close>
  failed. The result is the server, the connections whose threads were started, and those freed.
\<close>

record accepted =
  acc_new :: bool
  acc_node :: bool
  acc_tid :: "64 word option"
  acc_ip :: string
  acc_port :: "16 word"
  acc_os :: tcp_os

fun accept_rounds :: "accepted list \<Rightarrow> tcp_server \<Rightarrow> tcp_conn list \<times> tcp_conn list \<Rightarrow> tcp_server \<times> tcp_conn list \<times> tcp_conn list" where
  "accept_rounds [] s (started, freed) = (s, started, freed)"
| "accept_rounds (a # as) s (started, freed) = (case TcpConn_New (acc_new a) of
       None \<Rightarrow> (s, started, freed)
     | Some c0 \<Rightarrow> (case TcpConn_Initialize c0 (srv_conn_id s) (acc_os a) (take (TINY_IP_LEN - 1) (acc_ip a)) (acc_port a) of (_, c1) \<Rightarrow>
         let s1 = s\<lparr>srv_conn_id := srv_conn_id s + 1\<rparr> in
         (case TcpConn_SetListener c1 (srv_listening s1) of (ret, c2) \<Rightarrow>
           if RET_FAILED ret then (s1, started, freed @ [c2])
           else (case TcpConn_Start (acc_tid a) c2 of (_, c3) \<Rightarrow>
             (case TcpConnPool_RemoveClosed (TcpConnPool_Add (acc_node a) (srv_pool s1) (Some c3)) of (p, gone) \<Rightarrow>
               accept_rounds as (s1\<lparr>srv_pool := p\<rparr>) (started @ [c3], freed @ gone))))))"

definition accept_loop :: "accepted list \<Rightarrow> tcp_server \<Rightarrow> tcp_server \<times> tcp_conn list \<times> tcp_conn list" where
  "accept_loop as s = (case accept_rounds as s ([], []) of (s1, started, freed) \<Rightarrow>
     (s1\<lparr>srv_pool := TcpConnPool_Clean (srv_pool s1), srv_running := False\<rparr>, started, freed))"

subsection \<open>TcpClient\<close>

definition TCP_CLIENT_BUFFER_SIZE :: "32 word" where "TCP_CLIENT_BUFFER_SIZE = 1024 * 50"

datatype tcp_client_status = TCP_CLIENT_DISCONNECT | TCP_CLIENT_CONNECTING | TCP_CLIENT_CONNECTED

record tcp_client =
  tc_status :: tcp_client_status
  tc_os :: tcp_os
  tc_buf_size :: "32 word"
  self_ip :: string
  self_port :: "16 word"
  server_ip :: string
  server_port :: "16 word"

definition TcpClient_Construct :: "tiny_ret \<times> tcp_client" where
  "TcpClient_Construct = (TINY_RET_OK,
     \<lparr>tc_status = TCP_CLIENT_DISCONNECT, tc_os = silent_os, tc_buf_size = TCP_CLIENT_BUFFER_SIZE,
      self_ip = [], self_port = 0, server_ip = [], server_port = 0\<rparr>)"

definition TcpClient_SetBufferSize :: "tcp_client \<Rightarrow> 32 word \<Rightarrow> tcp_client" where
  "TcpClient_SetBufferSize c n = c\<lparr>tc_buf_size := n\<rparr>"

text \<open>
  What the operating system answers to a connection: the result of \<open>tiny_tcp_open\<close>, of
  \<open>connect\<close>, of the wait, the own address, and the new socket. On POSIX a connection in progress
  counts as made, so the wait is never reached.
\<close>

datatype connect_answer = Connected | InProgress | ConnectFailed | DescriptorZero

record connecting =
  cn_open :: tiny_ret
  cn_connect :: connect_answer
  cn_wait :: select_answer
  cn_ip :: "string option"
  cn_port :: "16 word"
  cn_os :: tcp_os

definition tiny_tcp_async_connect :: "connect_answer \<Rightarrow> tiny_ret" where
  "tiny_tcp_async_connect a = (case a of
       Connected \<Rightarrow> TINY_RET_OK
     | InProgress \<Rightarrow> TINY_RET_OK
     | ConnectFailed \<Rightarrow> TINY_RET_E_SOCKET_DISCONNECTED
     | DescriptorZero \<Rightarrow> TINY_RET_E_SOCKET_FD)"

definition connect_steps :: "connecting \<Rightarrow> tcp_client \<Rightarrow> string \<Rightarrow> 16 word \<Rightarrow> tiny_ret \<times> tcp_client" where
  "connect_steps n c ip_text prt =
     (if tc_status c \<noteq> TCP_CLIENT_DISCONNECT then (TINY_RET_E_SOCKET_CONNECTED, c)
      else let c1 = c\<lparr>tc_os := cn_os n\<rparr> in
        if RET_FAILED (cn_open n) then (cn_open n, c1)
        else let ret = tiny_tcp_async_connect (cn_connect n) in
          if RET_FAILED ret then (ret, c1)
          else let c2 = c1\<lparr>tc_status := TCP_CLIENT_CONNECTING\<rparr>;
                   ret1 = (if ret = TINY_RET_PENDING then tiny_tcp_waiting_for_connected (cn_wait n) else ret)
               in if RET_FAILED ret1 then (ret1, c2\<lparr>tc_os := snd (tiny_tcp_close (tc_os c2))\<rparr>)
                  else (ret1, c2\<lparr>tc_status := TCP_CLIENT_CONNECTED, server_ip := field_cpy TINY_IP_LEN ip_text,
                         server_port := prt,
                         self_ip := (case cn_ip n of None \<Rightarrow> self_ip c2 | Some a \<Rightarrow> field_cpy TINY_IP_LEN a),
                         self_port := cn_port n\<rparr>))"

definition TcpClient_Connect :: "connecting \<Rightarrow> tcp_client \<Rightarrow> string option \<Rightarrow> 16 word \<Rightarrow> tiny_ret \<times> tcp_client" where
  "TcpClient_Connect n c ip_text prt = (case ip_text of
       None \<Rightarrow> (TINY_RET_E_ARG_NULL, c)
     | Some a \<Rightarrow> (case connect_steps n c a prt of (ret, c1) \<Rightarrow>
         (ret, c1\<lparr>tc_status := (if RET_SUCCEEDED ret then TCP_CLIENT_CONNECTED else TCP_CLIENT_DISCONNECT)\<rparr>)))"

definition TcpClient_Disconnect :: "tcp_client \<Rightarrow> tiny_ret \<times> tcp_client" where
  "TcpClient_Disconnect c =
     (if tc_status c = TCP_CLIENT_DISCONNECT then (TINY_RET_E_SOCKET_DISCONNECTED, c)
      else (TINY_RET_OK, c\<lparr>tc_os := snd (tiny_tcp_close (tc_os c)), tc_status := TCP_CLIENT_DISCONNECT\<rparr>))"

definition TcpClient_Dispose :: "tcp_client \<Rightarrow> tiny_ret \<times> tcp_client" where
  "TcpClient_Dispose c = (TINY_RET_OK, snd (TcpClient_Disconnect c))"

definition TcpClient_GetStatus :: "tcp_client \<Rightarrow> tcp_client_status" where
  "TcpClient_GetStatus c = tc_status c"

definition TcpClient_Send :: "tcp_client \<Rightarrow> string \<Rightarrow> tiny_ret \<times> tcp_client" where
  "TcpClient_Send c bytes =
     (if tc_status c \<noteq> TCP_CLIENT_CONNECTED then (TINY_RET_E_SOCKET_DISCONNECTED, c)
      else (case tiny_tcp_waiting_for_write (tc_os c) of (ret, os) \<Rightarrow>
        if RET_FAILED ret then (ret, c\<lparr>tc_os := os\<rparr>)
        else (case os_send os bytes of (ret1, os1) \<Rightarrow> (ret1, c\<lparr>tc_os := os1\<rparr>))))"

definition TcpClient_Recv :: "tcp_client \<Rightarrow> tiny_ret \<times> string \<times> tcp_client" where
  "TcpClient_Recv c =
     (if tc_status c \<noteq> TCP_CLIENT_CONNECTED then (TINY_RET_E_SOCKET_DISCONNECTED, [], c)
      else (case os_recv (tc_os c) (tc_buf_size c) of (ret, b, os) \<Rightarrow> (ret, b, c\<lparr>tc_os := os\<rparr>)))"

subsection \<open>Sending\<close>

lemma tcp_write_bound: "tiny_tcp_write as len = (n, rest) \<Longrightarrow> n \<le> len"
  by (induction as len arbitrary: n rest rule: tiny_tcp_write.induct)
    (fastforce split: if_splits send_answer.splits prod.splits)+

lemma os_send_all: "sends os = [] \<Longrightarrow> bytes \<noteq> [] \<Longrightarrow> os_send os bytes = (TINY_RET_OK, os\<lparr>written := written os @ bytes\<rparr>)"
  by (simp add: os_send_def)

text \<open>
  Whatever the operating system answers, a connection sends a prefix of the bytes it is given, in
  order and without gaps. The result is OK as soon as one byte was taken: a peer that stops reading
  in the middle of a message is not noticed.
\<close>

theorem tcp_send_prefix:
  assumes "conn_status c = TCP_CONN_CONNECTED" and "TcpConn_Send c bytes = (ret, c')"
  shows "\<exists>n \<le> length bytes. written (conn_os c') = written (conn_os c) @ take n bytes
    \<and> ret = (if n = 0 then TINY_RET_E_SOCKET_WRITE else TINY_RET_OK)
    \<and> recvs (conn_os c') = recvs (conn_os c) \<and> conn_status c' = TCP_CONN_CONNECTED"
proof -
  obtain n rest where w: "tiny_tcp_write (sends (conn_os c)) (length bytes) = (n, rest)" by fastforce
  show ?thesis
    using assms w tcp_write_bound [OF w] by (intro exI [of _ n]) (auto simp: TcpConn_Send_def os_send_def)
qed

definition demo_conn :: "send_answer list \<Rightarrow> tcp_conn" where
  "demo_conn answers = snd (TcpConn_Initialize (snd TcpConn_Construct) 0 (silent_os\<lparr>sends := answers\<rparr>) ''10.0.0.9'' 4000)"

theorem tcp_send_prefix_witness:
  "\<exists>n c'. TcpConn_Send (demo_conn [Sent 3, SendAgain, SendFailed]) ''HTTP/1.1'' = (TINY_RET_OK, c')
    \<and> written (conn_os c') = take n ''HTTP/1.1'' \<and> n = 3"
proof -
  obtain c' where c': "TcpConn_Send (demo_conn [Sent 3, SendAgain, SendFailed]) ''HTTP/1.1'' = (TINY_RET_OK, c')"
    by (simp add: demo_conn_def TcpConn_Initialize_def TcpConn_Construct_def TcpConn_Send_def os_send_def silent_os_def)
  have "written (conn_os c') = ''HTT''"
    using c' by (auto simp: demo_conn_def TcpConn_Initialize_def TcpConn_Construct_def TcpConn_Send_def os_send_def silent_os_def)
  moreover have st: "conn_status (demo_conn [Sent 3, SendAgain, SendFailed]) = TCP_CONN_CONNECTED"
      "written (conn_os (demo_conn [Sent 3, SendAgain, SendFailed])) = []"
    by (simp_all add: demo_conn_def TcpConn_Initialize_def silent_os_def)
  moreover obtain n where "n \<le> length ''HTTP/1.1''"
      "written (conn_os c') = written (conn_os (demo_conn [Sent 3, SendAgain, SendFailed])) @ take n ''HTTP/1.1''"
    using tcp_send_prefix [OF st(1) c'] by blast
  ultimately have "n = 3" "written (conn_os c') = take n ''HTTP/1.1''"
    by (auto dest: arg_cong [where f = length])
  with c' show ?thesis by blast
qed

subsection \<open>Connections and the pool\<close>

text \<open>What a listener does with its connection.\<close>

datatype conn_op = ConnRecv | ConnSend string | ConnDisconnect

fun conn_step :: "conn_op \<Rightarrow> tcp_conn \<Rightarrow> tcp_conn" where
  "conn_step ConnRecv c = snd (snd (TcpConn_Recv c))"
| "conn_step (ConnSend bytes) c = snd (TcpConn_Send c bytes)"
| "conn_step ConnDisconnect c = snd (TcpConn_Disconnect c)"

lemma conn_step_status: "conn_status (conn_step x c) = conn_status c"
  by (cases x) (auto simp: TcpConn_Recv_def TcpConn_Send_def TcpConn_Disconnect_def split: prod.splits)

lemma conn_run_status: "conn_status (fold conn_step xs c) = conn_status c"
  by (induction xs arbitrary: c) (auto simp: conn_step_status)

lemma remove_closed_freed:
  "snd (foreach_list i ConnRemoveClosedListener freed xs) =
     freed @ filter (\<lambda>c. conn_status c = TCP_CONN_DISCONNECT) (map the (filter (\<lambda>x. x \<noteq> None) xs))"
  by (induction xs arbitrary: i freed) (auto simp: ConnRemoveClosedListener_def TcpConn_GetStatus_def split: option.splits)

text \<open>
  A connection that was accepted is never removed from the pool of the server while it runs: no
  operation on it, not even \<open>TcpConn_Disconnect\<close>, makes its status \<open>TCP_CONN_DISCONNECT\<close>, which is
  what \<open>TcpConnPool_RemoveClosed\<close> looks for. Each one costs its record and list node until the
  server stops.
\<close>

theorem closed_never_removed:
  assumes "\<forall>x \<in> set (items p). \<exists>c i os a q xs. x = Some (fold conn_step xs (snd (TcpConn_Initialize c i os a q)))"
  shows "TcpConnPool_RemoveClosed p = (p, [])"
proof -
  have "conn_status c \<noteq> TCP_CONN_DISCONNECT" if "Some c \<in> set (items p)" for c
    using assms that by (fastforce simp: conn_run_status TcpConn_Initialize_def)
  then show ?thesis
    by (auto simp: TcpConnPool_RemoveClosed_def L_Foreach_def remove_closed_freed filter_empty_conv)
qed

theorem closed_never_removed_witness:
  "let p = TcpConnPool_Add True (snd TcpConnPool_Construct) (Some (conn_step ConnDisconnect (demo_conn [])))
   in TcpConnPool_RemoveClosed p = (p, []) \<and> length (items p) = 1"
proof -
  let ?p = "TcpConnPool_Add True (snd TcpConnPool_Construct) (Some (conn_step ConnDisconnect (demo_conn [])))"
  have i: "items ?p = [Some (fold conn_step [ConnDisconnect] (demo_conn []))]"
    by (simp add: TcpConnPool_Add_def TcpConnPool_Construct_def L_AddTail_def L_SetDeleteListener_def L_new_def)
  have "TcpConnPool_RemoveClosed ?p = (?p, [])"
  proof (rule closed_never_removed, intro ballI)
    fix x assume "x \<in> set (items ?p)"
    then have "x = Some (fold conn_step [ConnDisconnect] (demo_conn []))" using i by simp
    then show "\<exists>c i os a q xs. x = Some (fold conn_step xs (snd (TcpConn_Initialize c i os a q)))"
      unfolding demo_conn_def by blast
  qed
  then show ?thesis using i by (simp add: Let_def)
qed

text \<open>
  A server that was stopped and started again keeps announcing its old port: the port is asked of
  the operating system once, although every start binds a new socket to a port it chooses.
\<close>

theorem restart_keeps_port:
  assumes "TcpServer_GetListenPort bound s = (q, s1)" and "q \<noteq> 0"
    and "TcpServer_Stop s1 = (r1, s2)" and "TcpServer_Start open_ret listen_ret tid s2 given = (r2, s3)"
  shows "fst (TcpServer_GetListenPort bound' s3) = q"
proof -
  have "srv_port s1 = q" using assms(1) by (auto simp: TcpServer_GetListenPort_def Let_def)
  moreover have "srv_port s2 = srv_port s1" using assms(3) by (auto simp: TcpServer_Stop_def split: if_splits)
  moreover have "srv_port s3 = srv_port s2" using assms(4) by (auto simp: TcpServer_Start_def Let_def split: if_splits)
  ultimately show ?thesis using assms(2) by (simp add: TcpServer_GetListenPort_def Let_def)
qed

theorem restart_keeps_port_witness:
  "\<exists>s1 s2 s3. TcpServer_GetListenPort 49152 (snd (TcpServer_Start TINY_RET_OK TINY_RET_OK (Some 7) (snd TcpServer_Construct) True)) = (49152, s1)
    \<and> TcpServer_Stop s1 = (TINY_RET_OK, s2) \<and> TcpServer_Start TINY_RET_OK TINY_RET_OK (Some 8) s2 True = (TINY_RET_OK, s3)
    \<and> fst (TcpServer_GetListenPort 49153 s3) = 49152"
proof -
  define s where "s = snd (TcpServer_Start TINY_RET_OK TINY_RET_OK (Some 7) (snd TcpServer_Construct) True)"
  have s: "srv_running s" "srv_port s = 0"
    by (simp_all add: s_def TcpServer_Start_def TcpServer_Construct_def Let_def RET_FAILED_def ret_defs)
  define s1 where "s1 = s\<lparr>srv_port := 49152\<rparr>"
  have a: "TcpServer_GetListenPort 49152 s = (49152, s1)" by (simp add: TcpServer_GetListenPort_def s s1_def)
  obtain s2 where b: "TcpServer_Stop s1 = (TINY_RET_OK, s2)" "\<not> srv_running s2" by (simp add: TcpServer_Stop_def s1_def s)
  obtain s3 where c: "TcpServer_Start TINY_RET_OK TINY_RET_OK (Some 8) s2 True = (TINY_RET_OK, s3)"
    using b(2) by (simp add: TcpServer_Start_def Let_def RET_FAILED_def ret_defs)
  have "fst (TcpServer_GetListenPort 49153 s3) = 49152" by (rule restart_keeps_port [OF a _ b(1) c]) simp
  with a b c show ?thesis unfolding s_def by blast
qed

text \<open>
  Connecting a client that is connected fails and forgets the connection: the client says it is
  disconnected, so that its open socket is never closed.
\<close>

theorem connect_twice_leaks:
  assumes "tc_status c = TCP_CLIENT_CONNECTED" and "TcpClient_Connect n c (Some a) q = (ret, c1)"
  shows "ret = TINY_RET_E_SOCKET_CONNECTED \<and> tc_status c1 = TCP_CLIENT_DISCONNECT
    \<and> closes (tc_os (snd (TcpClient_Disconnect c1))) = closes (tc_os c)"
  using assms by (auto simp: TcpClient_Connect_def connect_steps_def TcpClient_Disconnect_def RET_SUCCEEDED_def ret_defs)

definition demo_connecting :: connecting where
  "demo_connecting = \<lparr>cn_open = TINY_RET_OK, cn_connect = InProgress, cn_wait = Selected False, cn_ip = Some ''10.0.0.9'',
     cn_port = 4000, cn_os = silent_os\<rparr>"

theorem connect_twice_leaks_witness:
  "\<exists>c c1. TcpClient_Connect demo_connecting (snd TcpClient_Construct) (Some ''10.0.0.1'') 80 = (TINY_RET_OK, c)
    \<and> TcpClient_Connect demo_connecting c (Some ''10.0.0.1'') 80 = (TINY_RET_E_SOCKET_CONNECTED, c1)
    \<and> closes (tc_os (snd (TcpClient_Disconnect c1))) = 0"
proof -
  obtain c where c: "TcpClient_Connect demo_connecting (snd TcpClient_Construct) (Some ''10.0.0.1'') 80 = (TINY_RET_OK, c)"
      "tc_status c = TCP_CLIENT_CONNECTED" "closes (tc_os c) = 0"
    by (simp add: TcpClient_Connect_def connect_steps_def demo_connecting_def TcpClient_Construct_def
        tiny_tcp_async_connect_def silent_os_def Let_def RET_SUCCEEDED_def RET_FAILED_def ret_defs)
  obtain ret c1 where c1: "TcpClient_Connect demo_connecting c (Some ''10.0.0.1'') 80 = (ret, c1)" by fastforce
  show ?thesis using connect_twice_leaks [OF c(2) c1] c c1 by auto
qed

end
