(* ===== verification/HttpClient.thy ===== *)
theory HttpClient
  imports Tcp
begin

section \<open>HTTP over a connection: \<open>HttpClient.c\<close> and the receiving loops\<close>

text \<open>
  A client sends a request and reads the response; a server's connection reads a request. Both
  read a first piece, parse it, and go on reading until the content is complete. What the
  operating system answers is the script of the connection, see theory \<open>Tcp\<close>; a piece that is
  received stands at the start of a zeroed buffer, so it is followed by a terminator unless it
  fills the buffer of 50 kilobytes; then a parser that runs to its end reads past the buffer.
\<close>

subsection \<open>Parsing what was received\<close>

text \<open>
  The parser of the head is given no length and stops at a terminator. When a piece fills its
  buffer there is none: a head that is found to be complete was read inside the piece, but a parse that fails may
  have read beyond it, and has no result.
\<close>

definition parse_received :: "32 word \<Rightarrow> mallocs \<Rightarrow> http_message \<Rightarrow> string \<Rightarrow> (tiny_ret \<times> http_message) option" where
  "parse_received cap oks m bytes = do {
     (ret, m1) \<leftarrow> HttpMessage_Parse oks m bytes (word_of_nat (length bytes));
     if ret = TINY_RET_E_HTTP_MSG_INVALID \<and> unat cap \<le> length bytes then None else Some (ret, m1) }"

lemma parse_received_ok:
  "HttpMessage_Parse oks m bytes (word_of_nat (length bytes)) = Some (TINY_RET_OK, m1) \<Longrightarrow>
    parse_received cap oks m bytes = Some (TINY_RET_OK, m1)"
  by (simp add: parse_received_def ret_defs)

lemma parse_received_short:
  "length bytes < unat cap \<Longrightarrow> parse_received cap oks m bytes = HttpMessage_Parse oks m bytes (word_of_nat (length bytes))"
  by (simp add: parse_received_def)

subsection \<open>The receiving loop of a client\<close>

type_synonym http_client = tcp_client

definition HttpClient_Construct :: "tiny_ret \<times> http_client" where
  "HttpClient_Construct = TcpClient_Construct"

definition HttpClient_Dispose :: "http_client \<Rightarrow> tiny_ret \<times> http_client" where
  "HttpClient_Dispose c = (TINY_RET_OK, snd (TcpClient_Dispose c))"

definition HttpClient_IsConnected :: "http_client \<Rightarrow> bool" where
  "HttpClient_IsConnected c \<longleftrightarrow> TcpClient_GetStatus c = TCP_CLIENT_CONNECTED"

definition HttpClient_Shutdown :: "http_client \<Rightarrow> tiny_ret \<times> http_client" where
  "HttpClient_Shutdown c =
     (if TcpClient_GetStatus c = TCP_CLIENT_DISCONNECT then (TINY_RET_E_SOCKET_DISCONNECTED, c)
      else TcpClient_Disconnect c)"

lemma client_recv_pending:
  "TcpClient_Recv c = (ret, b, c1) \<Longrightarrow> \<not> RET_FAILED ret \<Longrightarrow> undelivered (tc_os c1) < undelivered (tc_os c)"
  using os_recv_pending by (fastforce simp: TcpClient_Recv_def RET_FAILED_def ret_defs split: if_splits prod.splits)

function client_body :: "http_client \<Rightarrow> http_message \<Rightarrow> (tiny_ret \<times> http_client \<times> http_message) option" where
  "client_body c m = (case TcpClient_Recv c of (ret, bytes, c1) \<Rightarrow>
     if RET_FAILED ret then Some (ret, c1, m)
     else (case HttpMessage_AddContentObject m (Some bytes) (word_of_nat (length bytes)) of
         None \<Rightarrow> None
       | Some (ret1, m1) \<Rightarrow>
           if RET_FAILED ret1 then Some (ret1, c1, m1)
           else if HttpMessage_IsContentFull m1 then Some (ret1, c1, m1)
           else client_body c1 m1))"
  by pat_completeness auto
termination
  by (relation "measure (\<lambda>(c, m). undelivered (tc_os c))") (auto dest: client_recv_pending [OF sym])

declare client_body.simps [simp del]

text \<open>
  \<open>conn\<close> is what the operating system answers to the connection, \<open>oks\<close> are the allocations of
  the parser. A request that was not made into one is not sent, and the result is OK.
\<close>

definition HttpClient_Execute ::
    "connecting \<Rightarrow> bool \<Rightarrow> mallocs \<Rightarrow> http_client \<Rightarrow> http_message \<Rightarrow> http_message
      \<Rightarrow> (tiny_ret \<times> http_client \<times> http_message) option" where
  "HttpClient_Execute conn bytes_ok oks c request response =
     (if mtype request \<noteq> HTTP_REQUEST then Some (TINY_RET_OK, c, response)
      else do {
        ip_text \<leftarrow> read_field TINY_IP_LEN (http_message.ip request);
        (case TcpClient_Connect conn c (Some ip_text) (http_message.port request) of (ret, c1) \<Rightarrow>
          if RET_FAILED ret then Some (ret, c1, response)
          else do {
            (ret1, out) \<leftarrow> HttpMessage_ToBytes bytes_ok request;
            (case out of
               None \<Rightarrow> Some (ret1, c1, response)
             | Some bytes \<Rightarrow> (case TcpClient_Send c1 bytes of (ret2, c2) \<Rightarrow>
                 if RET_FAILED ret2 then Some (ret2, c2, response)
                 else (case TcpClient_Recv c2 of (ret3, received, c3) \<Rightarrow>
                   if RET_FAILED ret3 then Some (ret3, c3, response)
                   else do {
                     (ret4, m) \<leftarrow> parse_received (tc_buf_size c2) oks response received;
                     if RET_FAILED ret4 \<or> HttpContent_GetSize (content m) = 0 \<or> HttpMessage_IsContentFull m
                     then Some (ret4, c3, m)
                     else client_body c3 m }))) }) })"

end
