(* ===== verification/UpnpHttp.thy ===== *)
theory UpnpHttp
  imports HttpClient SoapAction
begin

section \<open>The HTTP server of the stack: \<open>UpnpHttpConnection.c\<close>, \<open>UpnpHttpServer.c\<close>, \<open>UpnpHttpManager.c\<close>\<close>

text \<open>
  A connection is handled by one thread, which reads a request, dispatches it to the handler
  that is registered for its method, and closes the connection. The handlers are those of the
  components: they work on the state \<open>'a\<close> of the application and say what is sent, which this theory
  turns into bytes. A handler ignores whether its answer could be sent, so it is sent after it;
  allocations other than that of the receive buffer are taken to succeed here, and what is
  printed to the log is not modelled.
\<close>

subsection \<open>UpnpHttpConnection\<close>

definition UpnpHttpConnection_SendError :: "tcp_conn \<Rightarrow> int \<Rightarrow> string \<Rightarrow> (tiny_ret \<times> tcp_conn) option" where
  "UpnpHttpConnection_SendError c code txt' = do {
     let response = HttpMessage_SetResponse (HttpMessage_SetVersion (HttpMessage_SetType (snd HttpMessage_Construct) HTTP_RESPONSE) 1 1)
       code (Some txt');
     (n, bytes) \<leftarrow> HttpMessage_ToString response 1024;
     Some (if n = 0 then (TINY_RET_OK, c) else TcpConn_Send c (take n bytes)) }"

definition UpnpHttpConnection_SendOk :: "tcp_conn \<Rightarrow> (tiny_ret \<times> tcp_conn) option" where
  "UpnpHttpConnection_SendOk c = UpnpHttpConnection_SendError c 200 ''OK''"

definition UpnpHttpConnection_SendFile :: "tcp_conn \<Rightarrow> tiny_ret \<times> tcp_conn" where
  "UpnpHttpConnection_SendFile c = (TINY_RET_E_NOT_IMPLEMENTED, c)"

text \<open>The result of sending the head is overwritten by that of sending the document.\<close>

definition UpnpHttpConnection_SendFileContent :: "tcp_conn \<Rightarrow> string \<Rightarrow> 32 word \<Rightarrow> (tiny_ret \<times> tcp_conn) option" where
  "UpnpHttpConnection_SendFileContent c doc contentLength = do {
     let r1 = HttpMessage_SetResponse (HttpMessage_SetVersion (HttpMessage_SetType (snd HttpMessage_Construct) HTTP_RESPONSE) 1 1)
       200 (Some ''OK'');
     let r2 = HttpMessage_SetHeaderInteger [] r1 (Some ''Content-Length'') contentLength;
     (ret, out) \<leftarrow> HttpMessage_ToBytes True r2;
     (case out of
        None \<Rightarrow> Some (ret, c)
      | Some bytes \<Rightarrow> Some (TcpConn_Send (snd (TcpConn_Send c bytes)) (take (unat contentLength) doc))) }"

definition UpnpHttpConnection_SendSubscribeResponse ::
    "tcp_conn \<Rightarrow> string option \<Rightarrow> 32 word \<Rightarrow> (tiny_ret \<times> tcp_conn) option" where
  "UpnpHttpConnection_SendSubscribeResponse c sid second = (case upnp_timeout_to_string second 128 of (ret, timeout) \<Rightarrow>
     if RET_FAILED ret then Some (TINY_RET_E_ARG_INVALID, c)
     else do {
       let r1 = HttpMessage_SetResponse (HttpMessage_SetVersion (HttpMessage_SetType (snd HttpMessage_Construct) HTTP_RESPONSE) 1 1)
         200 (Some ''OK'');
       let r2 = HttpMessage_SetHeader [] (HttpMessage_SetHeader [] r1 (Some ''SID'') sid) (Some ''TIMEOUT'') (Some timeout);
       (ret1, out) \<leftarrow> HttpMessage_ToBytes True r2;
       (case out of None \<Rightarrow> Some (ret1, c) | Some bytes \<Rightarrow> Some (TcpConn_Send c bytes)) })"

definition send_reply :: "conn_reply \<Rightarrow> tcp_conn \<Rightarrow> tcp_conn option" where
  "send_reply r c = map_option snd (case r of
       SendError code txt' \<Rightarrow> UpnpHttpConnection_SendError c code txt'
     | SendOk \<Rightarrow> UpnpHttpConnection_SendOk c
     | SendSubscribeResponse sid second \<Rightarrow> UpnpHttpConnection_SendSubscribeResponse c sid second
     | SendBytes bytes \<Rightarrow> Some (TcpConn_Send c bytes)
     | SendFileContent doc n \<Rightarrow> UpnpHttpConnection_SendFileContent c doc n)"

fun send_replies :: "conn_reply list \<Rightarrow> tcp_conn \<Rightarrow> tcp_conn option" where
  "send_replies [] c = Some c"
| "send_replies (r # rs) c = Option.bind (send_reply r c) (send_replies rs)"

subsection \<open>The handlers of the server\<close>

type_synonym 'a handled = "(conn_reply list \<times> 'a) option"

record 'a upnp_http_server =
  tcp :: tcp_server
  on_get :: "(string \<Rightarrow> 'a \<Rightarrow> 'a handled) option"
  on_post :: "(string \<Rightarrow> string option \<Rightarrow> string option \<Rightarrow> 'a \<Rightarrow> 'a handled) option"
  on_notify :: "(string \<Rightarrow> string option \<Rightarrow> string option \<Rightarrow> string option \<Rightarrow> string option \<Rightarrow> string option \<Rightarrow> 'a \<Rightarrow> 'a handled) option"
  on_subscribe :: "(string \<Rightarrow> string \<Rightarrow> string option \<Rightarrow> 32 word \<Rightarrow> 'a \<Rightarrow> 'a handled) option"
  on_unsubscribe :: "(string \<Rightarrow> string option \<Rightarrow> 'a \<Rightarrow> 'a handled) option"

definition UpnpHttpServer_Construct :: "tiny_ret \<times> 'a upnp_http_server" where
  "UpnpHttpServer_Construct = (fst TcpServer_Construct,
     \<lparr>tcp = snd TcpServer_Construct, on_get = None, on_post = None, on_notify = None, on_subscribe = None, on_unsubscribe = None\<rparr>)"

definition UpnpHttpServer_RegisterGetHandler where
  "UpnpHttpServer_RegisterGetHandler s h = (case h of
       None \<Rightarrow> (TINY_RET_E_ARG_NULL, s) | Some _ \<Rightarrow> (TINY_RET_OK, s\<lparr>on_get := h\<rparr>))"

definition UpnpHttpServer_RegisterPostHandler where
  "UpnpHttpServer_RegisterPostHandler s h = (case h of
       None \<Rightarrow> (TINY_RET_E_ARG_NULL, s) | Some _ \<Rightarrow> (TINY_RET_OK, s\<lparr>on_post := h\<rparr>))"

definition UpnpHttpServer_RegisterNotifyHandler where
  "UpnpHttpServer_RegisterNotifyHandler s h = (case h of
       None \<Rightarrow> (TINY_RET_E_ARG_NULL, s) | Some _ \<Rightarrow> (TINY_RET_OK, s\<lparr>on_notify := h\<rparr>))"

definition UpnpHttpServer_RegisterSubscribeHandler where
  "UpnpHttpServer_RegisterSubscribeHandler s h = (case h of
       None \<Rightarrow> (TINY_RET_E_ARG_NULL, s) | Some _ \<Rightarrow> (TINY_RET_OK, s\<lparr>on_subscribe := h\<rparr>))"

definition UpnpHttpServer_RegisterUnsubscribeHandler where
  "UpnpHttpServer_RegisterUnsubscribeHandler s h = (case h of
       None \<Rightarrow> (TINY_RET_E_ARG_NULL, s) | Some _ \<Rightarrow> (TINY_RET_OK, s\<lparr>on_unsubscribe := h\<rparr>))"

definition UpnpHttpServer_UnregisterGetHandler where
  "UpnpHttpServer_UnregisterGetHandler s = (TINY_RET_OK, s\<lparr>on_get := None\<rparr>)"

definition UpnpHttpServer_UnregisterPostHandler where
  "UpnpHttpServer_UnregisterPostHandler s = (TINY_RET_OK, s\<lparr>on_post := None\<rparr>)"

definition UpnpHttpServer_UnregisterNotifyHandler where
  "UpnpHttpServer_UnregisterNotifyHandler s = (TINY_RET_OK, s\<lparr>on_notify := None\<rparr>)"

definition UpnpHttpServer_UnregisterSubscribeHandler where
  "UpnpHttpServer_UnregisterSubscribeHandler s = (TINY_RET_OK, s\<lparr>on_subscribe := None\<rparr>)"

definition UpnpHttpServer_UnregisterUnsubscribeHandler where
  "UpnpHttpServer_UnregisterUnsubscribeHandler s = (TINY_RET_OK, s\<lparr>on_unsubscribe := None\<rparr>)"

definition UpnpHttpServer_Start where
  "UpnpHttpServer_Start open_ret listen_ret tid s = (case TcpServer_Start open_ret listen_ret tid (tcp s) True of
     (ret, t) \<Rightarrow> (ret, s\<lparr>tcp := t\<rparr>))"

definition UpnpHttpServer_Stop where
  "UpnpHttpServer_Stop s = (case TcpServer_Stop (tcp s) of (ret, t) \<Rightarrow> (ret, s\<lparr>tcp := t\<rparr>))"

definition UpnpHttpServer_Dispose where
  "UpnpHttpServer_Dispose s = (let s1 = snd (UpnpHttpServer_Stop s) in s1\<lparr>tcp := snd (TcpServer_Dispose (tcp s1))\<rparr>)"

definition UpnpHttpServer_IsRunning :: "'a upnp_http_server \<Rightarrow> bool" where
  "UpnpHttpServer_IsRunning s = TcpServer_IsRunning (tcp s)"

definition UpnpHttpServer_GetListeningPort where
  "UpnpHttpServer_GetListeningPort bound s = (case TcpServer_GetListenPort bound (tcp s) of (q, t) \<Rightarrow> (q, s\<lparr>tcp := t\<rparr>))"

subsection \<open>Dispatching a request\<close>

definition not_here :: "'a \<Rightarrow> 'a handled" where
  "not_here a = Some ([SendError 404 ''FILE NOT FOUND''], a)"

definition doGet :: "'a upnp_http_server \<Rightarrow> http_message \<Rightarrow> 'a \<Rightarrow> 'a handled" where
  "doGet s request a = (case on_get s of
       None \<Rightarrow> not_here a
     | Some h \<Rightarrow> do { uri \<leftarrow> read_field HTTP_URI_LEN (req_uri request); h uri a })"

definition doPost :: "'a upnp_http_server \<Rightarrow> http_message \<Rightarrow> 'a \<Rightarrow> 'a handled" where
  "doPost s request a = (case on_post s of
       None \<Rightarrow> not_here a
     | Some h \<Rightarrow> do {
         uri \<leftarrow> read_field HTTP_URI_LEN (req_uri request);
         soapAction \<leftarrow> HttpMessage_GetHeaderValue request (Some ''Soapaction'');
         h uri soapAction (HttpContent_GetObject (content request)) a })"

definition doNotify :: "'a upnp_http_server \<Rightarrow> http_message \<Rightarrow> 'a \<Rightarrow> 'a handled" where
  "doNotify s request a = (case on_notify s of
       None \<Rightarrow> not_here a
     | Some h \<Rightarrow> do {
         uri \<leftarrow> read_field HTTP_URI_LEN (req_uri request);
         nt \<leftarrow> HttpMessage_GetHeaderValue request (Some ''NT'');
         nts \<leftarrow> HttpMessage_GetHeaderValue request (Some ''NTS'');
         sid \<leftarrow> HttpMessage_GetHeaderValue request (Some ''SID'');
         seq \<leftarrow> HttpMessage_GetHeaderValue request (Some ''SEQ'');
         h uri nt nts sid seq (HttpContent_GetObject (content request)) a })"

text \<open>
  The callback without its first and last character: \<open>strlen(callback) - 2\<close> wraps around when it has
  less than two, and \<open>strncpy\<close> then fills memory far behind the buffer.
\<close>

definition callback_url :: "string \<Rightarrow> string option" where
  "callback_url callback = (if length callback < 2 \<or> TINY_URL_LEN + 2 \<le> length callback then None
     else Some (take (length callback - 2) (tl callback)))"

definition doSubscribe :: "'a upnp_http_server \<Rightarrow> http_message \<Rightarrow> 'a \<Rightarrow> 'a handled" where
  "doSubscribe s request a = do {
     timeout \<leftarrow> HttpMessage_GetHeaderValue request (Some ''TIMEOUT'');
     callback \<leftarrow> HttpMessage_GetHeaderValue request (Some ''CALLBACK'');
     (case callback of
        None \<Rightarrow> Some ([SendError 404 ''CALLBACK invalid''], a)
      | Some cb \<Rightarrow> do {
          url \<leftarrow> callback_url cb;
          (ret, second) \<leftarrow> upnp_timeout_get_second timeout;
          if RET_FAILED ret then Some ([SendError 404 ''TIMEOUT invalid''], a)
          else (case on_subscribe s of
              None \<Rightarrow> not_here a
            | Some h \<Rightarrow> do {
                uri \<leftarrow> read_field HTTP_URI_LEN (req_uri request);
                nt \<leftarrow> HttpMessage_GetHeaderValue request (Some ''NT'');
                h uri url nt (case second of None \<Rightarrow> 0 | Some n \<Rightarrow> n) a }) }) }"

definition doUnsubscribe :: "'a upnp_http_server \<Rightarrow> http_message \<Rightarrow> 'a \<Rightarrow> 'a handled" where
  "doUnsubscribe s request a = (case on_unsubscribe s of
       None \<Rightarrow> not_here a
     | Some h \<Rightarrow> do {
         uri \<leftarrow> read_field HTTP_URI_LEN (req_uri request);
         sid \<leftarrow> HttpMessage_GetHeaderValue request (Some ''SID'');
         h uri sid a })"

text \<open>Other methods are not answered.\<close>

definition dispatch :: "'a upnp_http_server \<Rightarrow> http_message \<Rightarrow> 'a \<Rightarrow> 'a handled" where
  "dispatch s request a = do {
     m \<leftarrow> read_field HTTP_METHOD_LEN (req_method request);
     if STR_EQUAL m ''GET'' then doGet s request a
     else if STR_EQUAL m ''POST'' then doPost s request a
     else if STR_EQUAL m ''NOTIFY'' then doNotify s request a
     else if STR_EQUAL m ''SUBSCRIBE'' then doSubscribe s request a
     else if STR_EQUAL m ''UNSUBSCRIBE'' then doUnsubscribe s request a
     else Some ([], a) }"

subsection \<open>Receiving a request\<close>

lemma conn_recv_pending:
  "TcpConn_Recv c = (ret, b, c1) \<Longrightarrow> \<not> RET_FAILED ret \<Longrightarrow> undelivered (conn_os c1) < undelivered (conn_os c)"
  using os_recv_pending by (fastforce simp: TcpConn_Recv_def RET_FAILED_def ret_defs split: if_splits prod.splits)

function conn_body :: "tcp_conn \<Rightarrow> http_message \<Rightarrow> (tiny_ret \<times> tcp_conn \<times> http_message) option" where
  "conn_body c m = (case TcpConn_Recv c of (ret, bytes, c1) \<Rightarrow>
     if RET_FAILED ret then Some (ret, c1, m)
     else (case HttpMessage_AddContentObject m (Some bytes) (word_of_nat (length bytes)) of
         None \<Rightarrow> None
       | Some (ret1, m1) \<Rightarrow>
           if RET_FAILED ret1 then Some (ret1, c1, m1)
           else if HttpMessage_IsContentFull m1 then Some (ret1, c1, m1)
           else conn_body c1 m1))"
  by pat_completeness auto
termination
  by (relation "measure (\<lambda>(c, m). undelivered (conn_os c))") (auto dest: conn_recv_pending [OF sym])

declare conn_body.simps [simp del]

definition conn_recv_http_msg :: "tcp_conn \<Rightarrow> http_message \<Rightarrow> (tiny_ret \<times> tcp_conn \<times> http_message) option" where
  "conn_recv_http_msg c msg = (case TcpConn_Recv c of (ret, bytes, c1) \<Rightarrow>
     if RET_FAILED ret then Some (ret, c1, msg)
     else do {
       (ret1, m) \<leftarrow> parse_received (conn_buf_size c) [] msg bytes;
       if RET_FAILED ret1 \<or> HttpContent_GetSize (content m) = 0 \<or> HttpMessage_IsContentFull m then Some (ret1, c1, m)
       else conn_body c1 m })"

definition conn_recv_once :: "'a upnp_http_server \<Rightarrow> 'a \<Rightarrow> tcp_conn \<Rightarrow> (tiny_ret \<times> 'a \<times> tcp_conn) option" where
  "conn_recv_once s a c = do {
     (ret, c1, request) \<leftarrow> conn_recv_http_msg c (snd HttpMessage_Construct);
     if RET_FAILED ret then Some (ret, a, snd (TcpConn_Disconnect c1))
     else if mtype request = HTTP_RESPONSE then Some (TINY_RET_E_HTTP_MSG_INVALID, a, snd (TcpConn_Disconnect c1))
     else do {
       (replies, a1) \<leftarrow> dispatch s request a;
       c2 \<leftarrow> send_replies replies c1;
       Some (ret, a1, snd (TcpConn_Disconnect c2)) } }"

text \<open>What sending leaves as it is.\<close>

definition same_link :: "tcp_conn \<Rightarrow> tcp_conn \<Rightarrow> bool" where
  "same_link c c' \<longleftrightarrow> recvs (conn_os c') = recvs (conn_os c) \<and> closes (conn_os c') = closes (conn_os c) \<and> conn_status c' = conn_status c"

lemma same_link_refl: "same_link c c"
  by (simp add: same_link_def)

lemma same_link_trans: "same_link c c1 \<Longrightarrow> same_link c1 c2 \<Longrightarrow> same_link c c2"
  by (simp add: same_link_def)

lemma send_link: "same_link c (snd (TcpConn_Send c bytes))"
  by (auto simp: same_link_def TcpConn_Send_def os_send_def split: prod.splits)

lemma send_error_link: "UpnpHttpConnection_SendError c code t = Some r \<Longrightarrow> same_link c (snd r)"
  by (auto simp: UpnpHttpConnection_SendError_def Let_def bind_eq_Some_conv send_link same_link_refl)

lemma send_file_link: "UpnpHttpConnection_SendFileContent c doc n = Some r \<Longrightarrow> same_link c (snd r)"
  by (auto simp: UpnpHttpConnection_SendFileContent_def Let_def bind_eq_Some_conv same_link_refl
      intro: same_link_trans [OF send_link send_link] split: option.splits)

lemma send_subscribe_link: "UpnpHttpConnection_SendSubscribeResponse c sid n = Some r \<Longrightarrow> same_link c (snd r)"
  by (auto simp: UpnpHttpConnection_SendSubscribeResponse_def Let_def bind_eq_Some_conv same_link_refl send_link
      split: option.splits if_splits prod.splits)

lemma send_reply_link: "send_reply r c = Some c' \<Longrightarrow> same_link c c'"
  by (cases r) (auto simp: send_reply_def UpnpHttpConnection_SendOk_def send_link
      dest: send_error_link send_file_link send_subscribe_link)

lemma send_replies_link: "send_replies rs c = Some c' \<Longrightarrow> same_link c c'"
  by (induction rs arbitrary: c)
    (auto simp: same_link_refl bind_eq_Some_conv dest!: send_reply_link intro: same_link_trans)

lemma conn_recv_keeps: "TcpConn_Recv c = (ret, b, c1) \<Longrightarrow>
    closes (conn_os c1) = closes (conn_os c) \<and> conn_status c1 = conn_status c \<and> undelivered (conn_os c1) \<le> undelivered (conn_os c)"
  using tcp_read_pending
  by (fastforce simp: TcpConn_Recv_def os_recv_def tiny_tcp_waiting_for_read_def undelivered_def Let_def
      split: if_splits prod.splits list.splits)

lemma conn_body_keeps: "conn_body c m = Some (ret, c1, m1) \<Longrightarrow>
    closes (conn_os c1) = closes (conn_os c) \<and> conn_status c1 = conn_status c \<and> undelivered (conn_os c1) \<le> undelivered (conn_os c)"
proof (induction c m rule: conn_body.induct)
  case (1 c m)
  obtain r b c2 where r: "TcpConn_Recv c = (r, b, c2)" by (cases "TcpConn_Recv c") auto
  show ?case
    using 1(2) 1(1) [OF r [symmetric] refl] conn_recv_keeps [OF r] r
    by (subst (asm) conn_body.simps) (fastforce split: if_splits option.splits)
qed

lemma recv_msg_keeps:
  assumes "conn_recv_http_msg c msg = Some (ret, c1, m)"
  shows "closes (conn_os c1) = closes (conn_os c) \<and> conn_status c1 = conn_status c
    \<and> (\<not> RET_FAILED ret \<longrightarrow> undelivered (conn_os c1) < undelivered (conn_os c))"
proof -
  obtain r b c2 where r: "TcpConn_Recv c = (r, b, c2)" by (cases "TcpConn_Recv c") auto
  show ?thesis
    using assms conn_recv_keeps [OF r] conn_recv_pending [OF r] r
    by (fastforce simp: conn_recv_http_msg_def bind_eq_Some_conv dest: conn_body_keeps split: if_splits)
qed

lemma disconnect_closes: "conn_status c = TCP_CONN_CONNECTED \<Longrightarrow>
    closes (conn_os (snd (TcpConn_Disconnect c))) = closes (conn_os c) + 1
    \<and> conn_status (snd (TcpConn_Disconnect c)) = TCP_CONN_CONNECTED
    \<and> recvs (conn_os (snd (TcpConn_Disconnect c))) = recvs (conn_os c)"
  by (simp add: TcpConn_Disconnect_def tiny_tcp_close_def)

lemma recv_once_keeps:
  assumes "conn_recv_once s a c = Some (ret, a1, c1)"
  shows "(conn_status c = TCP_CONN_CONNECTED \<longrightarrow> conn_status c1 = TCP_CONN_CONNECTED \<and> closes (conn_os c1) = closes (conn_os c) + 1)
    \<and> (\<not> RET_FAILED ret \<longrightarrow> undelivered (conn_os c1) < undelivered (conn_os c))"
proof -
  obtain r c2 m where r: "conn_recv_http_msg c (snd HttpMessage_Construct) = Some (r, c2, m)"
    using assms by (auto simp: conn_recv_once_def bind_eq_Some_conv)
  note k = recv_msg_keeps [OF r]
  have "\<exists>c3. same_link c2 c3 \<and> c1 = snd (TcpConn_Disconnect c3) \<and> (\<not> RET_FAILED ret \<longrightarrow> \<not> RET_FAILED r)"
  proof -
    consider "c1 = snd (TcpConn_Disconnect c2)" "\<not> RET_FAILED ret \<longrightarrow> \<not> RET_FAILED r"
      | rs c3 where "send_replies rs c2 = Some c3" "c1 = snd (TcpConn_Disconnect c3)" "ret = r"
      using assms r by (auto simp: conn_recv_once_def bind_eq_Some_conv RET_FAILED_def ret_defs split: if_splits)
    then show ?thesis by cases (use same_link_refl send_replies_link in blast)+
  qed
  then obtain c3 where c3: "same_link c2 c3" "c1 = snd (TcpConn_Disconnect c3)" "\<not> RET_FAILED ret \<Longrightarrow> \<not> RET_FAILED r" by blast
  have "recvs (conn_os c1) = recvs (conn_os c2)"
    using c3(1,2) by (auto simp: same_link_def TcpConn_Disconnect_def tiny_tcp_close_def)
  then show ?thesis
    using k c3 disconnect_closes [of c3] by (auto simp: same_link_def undelivered_def)
qed

text \<open>
  The thread of a connection reads the next request until one fails, although the socket was closed
  after the first.
\<close>

function conn_listener :: "'a upnp_http_server \<Rightarrow> 'a \<times> tcp_conn \<Rightarrow> ('a \<times> tcp_conn) option" where
  "conn_listener s (a, c) = (case conn_recv_once s a c of
       None \<Rightarrow> None
     | Some (ret, a1, c1) \<Rightarrow> if RET_FAILED ret then Some (a1, c1) else conn_listener s (a1, c1))"
  by pat_completeness auto
termination
  by (relation "measure (\<lambda>(s, a, c). undelivered (conn_os c))") (auto dest: recv_once_keeps)

declare conn_listener.simps [simp del]

subsection \<open>UpnpHttpManager\<close>

record 'a http_manager =
  hm_server :: "'a upnp_http_server"
  hm_client :: http_client

definition UpnpHttpManager_Construct :: "tiny_ret \<times> 'a http_manager" where
  "UpnpHttpManager_Construct = (TINY_RET_OK, \<lparr>hm_server = snd UpnpHttpServer_Construct, hm_client = snd HttpClient_Construct\<rparr>)"

definition UpnpHttpManager_Dispose :: "'a http_manager \<Rightarrow> 'a http_manager" where
  "UpnpHttpManager_Dispose m = m\<lparr>hm_server := UpnpHttpServer_Dispose (hm_server m), hm_client := snd (HttpClient_Dispose (hm_client m))\<rparr>"

subsection \<open>Properties\<close>

lemma listener_closes:
  "conn_listener s (a, c) = Some (a1, c1) \<Longrightarrow> conn_status c = TCP_CONN_CONNECTED \<Longrightarrow> closes (conn_os c) < closes (conn_os c1)"
proof (induction s "(a, c)" arbitrary: a c rule: conn_listener.induct)
  case (1 s a c)
  from 1(2) obtain ret a2 c2 where o: "conn_recv_once s a c = Some (ret, a2, c2)"
    by (cases "conn_recv_once s a c") (auto simp: conn_listener.simps [of s a c])
  note k = recv_once_keeps [OF o]
  show ?case
  proof (cases "RET_FAILED ret")
    case True
    then have "c1 = c2" using 1(2) o by (simp add: conn_listener.simps [of s a c])
    then show ?thesis using k 1(3) by simp
  next
    case False
    then have "conn_listener s (a2, c2) = Some (a1, c1)" using 1(2) o by (simp add: conn_listener.simps [of s a c])
    then have "closes (conn_os c2) < closes (conn_os c1)"
      using 1(1) [OF o refl refl False] k 1(3) by blast
    then show ?thesis using k 1(3) by simp
  qed
qed

text \<open>
  C21. When the thread of an accepted connection ends, it has closed the socket at least twice: after
  the last request it tried to read, and at its end; once more for every request it served. By then the
  descriptor may belong to another connection.
\<close>

theorem socket_closed_twice:
  assumes "conn_status c = TCP_CONN_CONNECTED" and "conn_loop (conn_listener s) (a, c) = Some (a1, c1)"
  shows "closes (conn_os c) + 2 \<le> closes (conn_os c1)"
proof -
  obtain c2 where "conn_listener s (a, c) = Some (a1, c2)" "c1 = c2\<lparr>conn_os := snd (tiny_tcp_close (conn_os c2))\<rparr>"
    using assms(2) by (auto simp: conn_loop_def)
  then show ?thesis using listener_closes [OF _ assms(1)] by (fastforce simp: tiny_tcp_close_def)
qed

theorem socket_closed_twice_witness:
  "\<exists>c1. conn_loop (conn_listener (snd UpnpHttpServer_Construct)) ((), demo_conn []) = Some ((), c1)
    \<and> 2 \<le> closes (conn_os c1)"
proof -
  have d: "conn_status (demo_conn []) = TCP_CONN_CONNECTED" "closes (conn_os (demo_conn [])) = 0"
    by (simp_all add: demo_conn_def TcpConn_Initialize_def silent_os_def)
  have "conn_recv_http_msg (demo_conn []) m = Some (TINY_RET_E_TIMEOUT, demo_conn [], m)" for m
    by (simp add: conn_recv_http_msg_def TcpConn_Recv_def os_recv_def tiny_tcp_waiting_for_read_def demo_conn_def
        TcpConn_Initialize_def silent_os_def tiny_socket_waiting_for_read_def RET_FAILED_def ret_defs)
  then have "conn_recv_once (snd UpnpHttpServer_Construct) () (demo_conn []) =
      Some (TINY_RET_E_TIMEOUT, (), snd (TcpConn_Disconnect (demo_conn [])))"
    by (simp add: conn_recv_once_def RET_FAILED_def ret_defs)
  then have "conn_listener (snd UpnpHttpServer_Construct) ((), demo_conn []) = Some ((), snd (TcpConn_Disconnect (demo_conn [])))"
    by (subst conn_listener.simps) (simp add: RET_FAILED_def ret_defs)
  then obtain c1 where c1: "conn_loop (conn_listener (snd UpnpHttpServer_Construct)) ((), demo_conn []) = Some ((), c1)"
    by (simp add: conn_loop_def)
  then show ?thesis using socket_closed_twice [OF d(1) c1] d(2) by auto
qed

subsection \<open>A request that arrives in pieces\<close>

text \<open>What one read finds: segments that are there, then nothing more for now.\<close>

definition batch :: "string list \<Rightarrow> recv_answer list" where
  "batch segs = map Received segs @ [RecvFailed]"

definition batch_ok :: "nat \<Rightarrow> string list \<Rightarrow> bool" where
  "batch_ok cap segs \<longleftrightarrow> segs \<noteq> [] \<and> [] \<notin> set segs \<and> length (concat segs) < cap"

text \<open>A connection that is up, with no trouble from the operating system.\<close>

definition calm :: "tcp_os \<Rightarrow> bool" where
  "calm os \<longleftrightarrow> selects os = [] \<and> sends os = [] \<and> buffers os = []"

definition up :: "tcp_conn \<Rightarrow> bool" where
  "up c \<longleftrightarrow> conn_status c = TCP_CONN_CONNECTED \<and> conn_buf_size c = TCP_CONN_BUFFER_SIZE \<and> calm (conn_os c)"

lemma batches_nonempty: "list_all (batch_ok cap) bs \<Longrightarrow> bs \<noteq> [] \<Longrightarrow> 0 < length (concat (map concat bs))"
  by (cases bs; cases "hd bs") (auto simp: batch_ok_def)

lemma read_batch: "[] \<notin> set segs \<Longrightarrow> length (concat segs) < cap \<Longrightarrow>
    tiny_tcp_read (batch segs @ rest) cap = (concat segs, rest)"
proof (induction segs arbitrary: cap)
  case (Cons x segs)
  then have "tiny_tcp_read (batch segs @ rest) (cap - length x) = (concat segs, rest)" by (intro Cons.IH) auto
  moreover have "\<not> cap < length x" "0 < cap" "x \<noteq> []" using Cons.prems by auto
  ultimately show ?case by (simp add: batch_def)
qed (simp add: batch_def)

lemma recv_batch_os:
  assumes "calm os" and "recvs os = batch segs @ rest" and "batch_ok (unat cap) segs"
  shows "os_recv os cap = (TINY_RET_OK, concat segs, os\<lparr>recvs := rest\<rparr>)"
proof -
  have "concat segs \<noteq> []" using assms(3) by (cases segs) (auto simp: batch_ok_def)
  moreover have "recvs os \<noteq> []" using assms(2) by (simp add: batch_def)
  moreover have "tiny_tcp_read (batch segs @ rest) (unat cap) = (concat segs, rest)"
    using assms(3) by (intro read_batch) (simp_all add: batch_ok_def)
  moreover have "os\<lparr>buffers := [], recvs := rest\<rparr> = os\<lparr>recvs := rest\<rparr>" using assms(1) by (simp add: calm_def)
  ultimately show ?thesis
    using assms(1,2) by (simp add: os_recv_def tiny_tcp_waiting_for_read_def calm_def tiny_socket_waiting_for_read_def
        RET_FAILED_def ret_defs Let_def)
qed

lemma recv_batch:
  assumes "up c" and "recvs (conn_os c) = batch segs @ rest" and "batch_ok (unat TCP_CONN_BUFFER_SIZE) segs"
  shows "TcpConn_Recv c = (TINY_RET_OK, concat segs, c\<lparr>conn_os := (conn_os c)\<lparr>recvs := rest\<rparr>\<rparr>)"
  using assms recv_batch_os [of "conn_os c" segs rest "conn_buf_size c"] by (simp add: TcpConn_Recv_def up_def)

lemma body_pieces:
  assumes "n \<le> HTTP_CONTENT_MAX_SIZE"
  shows "up c \<Longrightarrow> content m = part_content n p \<Longrightarrow> length p < n \<Longrightarrow> list_all (batch_ok (unat TCP_CONN_BUFFER_SIZE)) bs \<Longrightarrow>
    recvs (conn_os c) = concat (map batch bs) @ rest \<Longrightarrow> length p + length (concat (map concat bs)) = n \<Longrightarrow>
    conn_body c m = Some (TINY_RET_OK, c\<lparr>conn_os := (conn_os c)\<lparr>recvs := rest\<rparr>\<rparr>, m\<lparr>content := part_content n (p @ concat (map concat bs))\<rparr>)"
proof (induction bs arbitrary: c m p)
  case (Cons b bs)
  let ?q = "concat b" and ?c = "c\<lparr>conn_os := (conn_os c)\<lparr>recvs := concat (map batch bs) @ rest\<rparr>\<rparr>"
  let ?m = "m\<lparr>content := part_content n (p @ ?q)\<rparr>"
  have b: "batch_ok (unat TCP_CONN_BUFFER_SIZE) b" using Cons.prems(4) by simp
  have r: "TcpConn_Recv c = (TINY_RET_OK, ?q, ?c)"
    using recv_batch [OF Cons.prems(1) _ b, of "concat (map batch bs) @ rest"] Cons.prems(5) by simp
  have le: "length p + length ?q \<le> n" using Cons.prems(6) by simp
  have a: "HttpMessage_AddContentObject m (Some ?q) (word_of_nat (length ?q)) = Some (TINY_RET_OK, ?m)"
    using add_piece(1) [OF Cons.prems(2) _ assms le] Cons.prems(3) by simp
  have full: "HttpMessage_IsContentFull ?m \<longleftrightarrow> length (p @ ?q) = n"
    using add_piece(2) [of ?m n "p @ ?q" "[]"] assms le Cons.prems(3) by (simp add: HttpMessage_IsContentFull_def)
  have step: "conn_body c m = (if length (p @ ?q) = n then Some (TINY_RET_OK, ?c, ?m) else conn_body ?c ?m)"
    by (subst conn_body.simps) (simp add: r a full RET_FAILED_def ret_defs)
  show ?case
  proof (cases "length (p @ ?q) = n")
    case True
    have "bs = []"
    proof (rule ccontr)
      assume "bs \<noteq> []"
      then have "0 < length (concat (map concat bs))" using Cons.prems(4) batches_nonempty [of "unat TCP_CONN_BUFFER_SIZE" bs] by simp
      then show False using True Cons.prems(6) by (simp del: length_greater_0_conv)
    qed
    then show ?thesis using True step by simp
  next
    case False
    have "up ?c" using Cons.prems(1) by (simp add: up_def calm_def)
    then have "conn_body ?c ?m = Some (TINY_RET_OK, ?c\<lparr>conn_os := (conn_os ?c)\<lparr>recvs := rest\<rparr>\<rparr>,
        ?m\<lparr>content := part_content n ((p @ ?q) @ concat (map concat bs))\<rparr>)"
      using False Cons.prems(4,6) le by (intro Cons.IH) auto
    then show ?thesis using False step by simp
  qed
qed simp

text \<open>
  Only the first piece is parsed for the head. When it ends behind a header line, the request is refused;
  when it ends in a header value, the parser runs beyond the buffer of the value.
\<close>

lemma first_piece_cut:
  assumes "up c" and "recvs (conn_os c) = batch b @ rest" and "batch_ok (unat TCP_CONN_BUFFER_SIZE) b"
    and "token_ok mt" and "uri_ok uri" and "\<forall>kv \<in> set kvs. plain_header kv"
    and "concat b = request_line mt uri @ concat (map header_text kvs) @ q"
  shows "q = [] \<Longrightarrow> \<exists>m. conn_recv_http_msg c fresh_message =
      Some (TINY_RET_E_HTTP_MSG_INVALID, c\<lparr>conn_os := (conn_os c)\<lparr>recvs := rest\<rparr>\<rparr>, m)"
    and "q = k @ CHR '':'' # CHR '' '' # v \<Longrightarrow> k \<noteq> [] \<Longrightarrow> \<forall>c \<in> set k. is_name_char c \<Longrightarrow> length k \<le> HTTP_MAX_NAME_LEN \<Longrightarrow> CR \<notin> set v
      \<Longrightarrow> conn_recv_http_msg c fresh_message = None"
proof -
  have l: "length (concat b) < unat TCP_CONN_BUFFER_SIZE" using assms(3) by (simp add: batch_ok_def)
  then have w: "length (concat b) < 2 ^ 32" by (simp add: TCP_CONN_BUFFER_SIZE_def)
  have p: "parse_received (conn_buf_size c) [] fresh_message (concat b) =
      HttpMessage_Parse [] fresh_message (concat b) (word_of_nat (length (concat b)))"
    using l assms(1) by (simp add: parse_received_short up_def)
  note cut = head_cut [OF assms(4-7) w]
  show "\<exists>m. conn_recv_http_msg c fresh_message = Some (TINY_RET_E_HTTP_MSG_INVALID, c\<lparr>conn_os := (conn_os c)\<lparr>recvs := rest\<rparr>\<rparr>, m)"
    if "q = []"
    using cut(1) [OF that] recv_batch [OF assms(1-3)] p by (auto simp: conn_recv_http_msg_def RET_FAILED_def ret_defs)
  show "conn_recv_http_msg c fresh_message = None"
    if "q = k @ CHR '':'' # CHR '' '' # v" "k \<noteq> []" "\<forall>c \<in> set k. is_name_char c" "length k \<le> HTTP_MAX_NAME_LEN" "CR \<notin> set v"
    using cut(2) [OF that] recv_batch [OF assms(1-3)] p by (simp add: conn_recv_http_msg_def RET_FAILED_def ret_defs)
qed

lemma pieces_received:
  assumes "up c" and "recvs (conn_os c) = concat (map batch (b # bs)) @ rest"
    and "list_all (batch_ok (unat TCP_CONN_BUFFER_SIZE)) (b # bs)"
    and "token_ok mt" and "uri_ok uri" and "head_ok kvs (length body)"
    and "concat b = http_text (request_line mt uri) kvs p" and "p @ concat (map concat bs) = body"
  shows "\<exists>m. conn_recv_http_msg c fresh_message = Some (TINY_RET_OK, c\<lparr>conn_os := (conn_os c)\<lparr>recvs := rest\<rparr>\<rparr>, m)
    \<and> mtype m = HTTP_REQUEST \<and> req_method m = mt \<and> req_uri m = uri \<and> header_inv (header m) \<and> header_pairs (header m) = kvs
    \<and> content m = full_content body"
proof -
  let ?n = "length body" and ?c = "c\<lparr>conn_os := (conn_os c)\<lparr>recvs := concat (map batch bs) @ rest\<rparr>\<rparr>"
  have n: "?n \<le> HTTP_CONTENT_MAX_SIZE" and p: "length p \<le> ?n" using assms(6) by (auto simp: head_ok_def assms(8) [symmetric])
  have r: "TcpConn_Recv c = (TINY_RET_OK, concat b, ?c)"
    using recv_batch [OF assms(1), of b "concat (map batch bs) @ rest"] assms(2,3) by simp
  obtain m where m: "HttpMessage_Parse [] fresh_message (concat b) (word_of_nat (length (concat b))) = Some (TINY_RET_OK, m)"
      "mtype m = HTTP_REQUEST" "req_method m = mt" "req_uri m = uri" "header_inv (header m)" "header_pairs (header m) = kvs"
      "content m = part_content ?n p"
    using request_arrived [OF assms(4,5,6) p assms(7)] by blast
  have run: "conn_recv_http_msg c fresh_message =
      (if HttpContent_GetSize (content m) = 0 \<or> HttpMessage_IsContentFull m then Some (TINY_RET_OK, ?c, m) else conn_body ?c m)"
    by (simp add: conn_recv_http_msg_def r parse_received_ok [OF m(1)] RET_FAILED_def ret_defs)
  have all: "bs = []" if "length p = ?n"
  proof (rule ccontr)
    assume "bs \<noteq> []"
    then have "0 < length (concat (map concat bs))" using assms(3) batches_nonempty [of "unat TCP_CONN_BUFFER_SIZE" bs] by simp
    then show False using that unfolding assms(8) [symmetric] length_append by linarith
  qed
  show ?thesis
  proof (cases "length p = ?n")
    case True
    then have "p = body" using all assms(8) by simp
    moreover have "HttpContent_GetSize (content m) = 0 \<or> HttpMessage_IsContentFull m"
      using full_content_ok(2) [OF n] by (simp add: m(7) \<open>p = body\<close> part_content_whole HttpMessage_IsContentFull_def)
    ultimately show ?thesis using run m all [OF True] by (auto simp: part_content_whole)
  next
    case False
    then have pos: "length p < ?n" using p by simp
    have "\<not> HttpMessage_IsContentFull m"
      using add_piece(2) [OF m(7) le_less_trans [OF le0 pos] n, of "[]"] pos by (simp add: HttpMessage_IsContentFull_def m(7))
    moreover have "HttpContent_GetSize (content m) \<noteq> 0"
    proof -
      have "unat (word_of_nat ?n :: 32 word) = ?n" using n by (intro unat_word_of_nat) (simp add: HTTP_CONTENT_MAX_SIZE_def)
      then show ?thesis using pos by (auto simp: m(7) part_content_def HttpContent_GetSize_def)
    qed
    moreover have "up ?c" using assms(1) by (simp add: up_def calm_def)
    then have "conn_body ?c m = Some (TINY_RET_OK, ?c\<lparr>conn_os := (conn_os ?c)\<lparr>recvs := rest\<rparr>\<rparr>,
        m\<lparr>content := part_content ?n (p @ concat (map concat bs))\<rparr>)"
      using pos assms(3,8) by (intro body_pieces [OF n _ m(7)]) auto
    ultimately show ?thesis using run m by (auto simp: assms(8) part_content_whole)
  qed
qed

text \<open>
  C20. A request whose head arrives in one read is received whole, however the network cuts the rest: the
  parser takes what is there of the content, and the loop adds each further piece until the length the
  header announces is reached, not one byte more. The head itself must be in the first read: see \<open>first_piece_cut\<close>.
\<close>

theorem request_reassembled:
  assumes "up c" and "recvs (conn_os c) = concat (map batch (b # bs)) @ rest"
    and "list_all (batch_ok (unat TCP_CONN_BUFFER_SIZE)) (b # bs)"
    and "token_ok mt" and "uri_ok uri" and "head_ok kvs (length body)"
    and "concat b = http_text (request_line mt uri) kvs p" and "p @ concat (map concat bs) = body"
  shows "\<exists>m. conn_recv_http_msg c (snd HttpMessage_Construct) = Some (TINY_RET_OK, c\<lparr>conn_os := (conn_os c)\<lparr>recvs := rest\<rparr>\<rparr>, m)
    \<and> req_method m = mt \<and> req_uri m = uri \<and> header_pairs (header m) = kvs \<and> content_data (content m) = body"
proof -
  have "length body \<le> HTTP_CONTENT_MAX_SIZE" using assms(6) by (simp add: head_ok_def)
  then show ?thesis
    using pieces_received [OF assms] full_content_ok(4) [of body] by (fastforce simp: fresh_message_def [symmetric])
qed

definition demo_head :: "(string \<times> string) list" where
  "demo_head = [(''HOST'', ''10.0.0.1''), (''Content-Length'', ''5'')]"

lemma demo_head_ok: "head_ok demo_head 5" "token_ok ''NOTIFY''" "uri_ok ''/e''"
  by (simp_all add: head_ok_def demo_head_def token_ok_def uri_ok_def plain_header_def is_name_char_def is_char_def is_ctl_def
      is_tspecial_def sbyte_def cstring_def header_key_def tolower_def HTTP_CONTENT_MAX_SIZE_def show_nat_small field_defs
      char_of_def bit_0)

theorem request_reassembled_witness:
  "\<exists>m c'. conn_recv_http_msg ((demo_conn [])\<lparr>conn_os := silent_os\<lparr>recvs := concat (map batch
        [[http_text (request_line ''NOTIFY'' ''/e'') demo_head ''he''], [''l'', ''l''], [''o'']]) @ []\<rparr>\<rparr>) (snd HttpMessage_Construct)
      = Some (TINY_RET_OK, c', m)
    \<and> req_uri m = ''/e'' \<and> content_data (content m) = ''hello''"
proof -
  let ?t = "http_text (request_line ''NOTIFY'' ''/e'') demo_head ''he''"
  let ?c = "(demo_conn [])\<lparr>conn_os := silent_os\<lparr>recvs := concat (map batch [[?t], [''l'', ''l''], [''o'']]) @ []\<rparr>\<rparr>"
  have up: "up ?c"
    by (simp add: up_def calm_def demo_conn_def TcpConn_Initialize_def TcpConn_Construct_def silent_os_def)
  have cap: "unat TCP_CONN_BUFFER_SIZE = 51200" by (simp add: TCP_CONN_BUFFER_SIZE_def)
  have "length ?t < 51200" by (simp add: http_text_def request_line_def demo_head_def)
  moreover have "?t \<noteq> []" by (simp add: http_text_def)
  ultimately have ok: "list_all (batch_ok (unat TCP_CONN_BUFFER_SIZE)) [[?t], [''l'', ''l''], [''o'']]"
    unfolding cap by (simp add: batch_ok_def del: list.map)
  have "length ''hello'' = 5" by simp
  then have h: "head_ok demo_head (length ''hello'')" using demo_head_ok(1) by (simp only:)
  obtain m c' where "conn_recv_http_msg ?c (snd HttpMessage_Construct) = Some (TINY_RET_OK, c', m)"
      "req_uri m = ''/e''" "content_data (content m) = ''hello''"
    using request_reassembled [OF up _ ok demo_head_ok(2,3) h, of "[]" "''he''"] by auto
  then show ?thesis by blast
qed

subsection \<open>Serving\<close>

lemma served:
  assumes "conn_recv_http_msg c fresh_message = Some (TINY_RET_OK, c1, m)" and "mtype m = HTTP_REQUEST"
    and "dispatch s m a = Some (replies, a1)" and "send_replies replies c1 = Some c2"
  shows "conn_recv_once s a c = Some (TINY_RET_OK, a1, snd (TcpConn_Disconnect c2))"
  using assms by (simp add: conn_recv_once_def fresh_message_def RET_FAILED_def ret_defs)

definition sent_on :: "tcp_conn \<Rightarrow> string \<Rightarrow> tcp_conn" where
  "sent_on c bytes = c\<lparr>conn_os := (conn_os c)\<lparr>written := written (conn_os c) @ bytes\<rparr>\<rparr>"

lemma send_calm: "up c \<Longrightarrow> bytes \<noteq> [] \<Longrightarrow> TcpConn_Send c bytes = (TINY_RET_OK, sent_on c bytes)"
  by (simp add: TcpConn_Send_def up_def calm_def os_send_all sent_on_def)

lemma send_error_sent:
  assumes "up c" and "reply_ok code t"
  shows "UpnpHttpConnection_SendError c code t = Some (TINY_RET_OK, sent_on c (http_text (response_line code t) [] []))"
proof -
  let ?out = "http_text (response_line code t) [] []"
  have "?out \<noteq> []" by (simp add: http_text_def)
  then show ?thesis
    using status_written [OF assms(2) refl refl] send_calm [OF assms(1), of ?out]
    by (simp add: UpnpHttpConnection_SendError_def fresh_message_def [symmetric] Let_def)
qed

lemma send_ok_sent: "up c \<Longrightarrow> send_reply SendOk c = Some (sent_on c (http_text (response_line 200 ''OK'') [] []))"
  using send_error_sent [of c 200 "''OK''"]
  by (simp add: send_reply_def UpnpHttpConnection_SendOk_def reply_ok_def num_ok_def is_ctl_def sbyte_def)

end
