(* ===== verification/NetUtil.thy ===== *)
theory NetUtil
  imports TinyString HttpMessage
begin

section \<open>Addresses: \<open>tiny_net_util.c\<close>, \<open>upnp_net_util.c\<close>\<close>

text \<open>
  Dotted addresses and the search for the own address in the network of a peer. The interfaces are what
  \<open>getifaddrs\<close> lists: their names and, for IPv4, their addresses as the 32-bit value \<open>s_addr\<close>, whose
  lowest byte is the first number of the dotted form on a little-endian machine, the one that is modelled. The
  POSIX branch is modelled.
\<close>

definition tiny_net_ip_to_string :: "32 word \<Rightarrow> nat \<Rightarrow> tiny_ret \<times> string" where
  "tiny_net_ip_to_string ip_word len = (TINY_RET_OK, field_printf len
     (show_nat (unat (ip_word AND 0xFF)) @ ''.'' @ show_nat (unat (drop_bit 8 ip_word AND 0xFF)) @ ''.'' @
      show_nat (unat (drop_bit 16 ip_word AND 0xFF)) @ ''.'' @ show_nat (unat (drop_bit 24 ip_word AND 0xFF))))"

definition tiny_net_ip_to_int :: "string option \<Rightarrow> (32 word) option" where
  "tiny_net_ip_to_int ip_text = (case ip_text of
       None \<Rightarrow> Some 0
     | Some s \<Rightarrow> (case str_split s ''.'' 4 of
         None \<Rightarrow> None
       | Some [a, b, c, d] \<Rightarrow> Some ((word_of_int (atoi a) AND 0xFF)
             + (push_bit 8 (word_of_int (atoi b)) AND 0xFF00)
             + (push_bit 16 (word_of_int (atoi c)) AND 0xFF0000)
             + (push_bit 24 (word_of_int (atoi d)) AND 0xFF000000))
       | Some _ \<Rightarrow> Some 0))"

definition ntohl :: "32 word \<Rightarrow> 32 word" where
  "ntohl w = (push_bit 24 w OR (push_bit 8 w AND 0xFF0000)) OR ((drop_bit 8 w AND 0xFF00) OR drop_bit 24 w)"

text \<open>
  The visitor is called for each IPv4 interface other than the loopback until it returns true;
  \<open>None\<close> stands for a failing \<open>getifaddrs\<close>.
\<close>

fun each_ip :: "(string \<Rightarrow> 's \<Rightarrow> bool \<times> 's) \<Rightarrow> (string \<times> (32 word) option) list \<Rightarrow> 's \<Rightarrow> tiny_ret \<times> 's" where
  "each_ip visit [] s = (TINY_RET_E_NOT_FOUND, s)"
| "each_ip visit ((name, address) # ifs) s = (case address of
       Some a \<Rightarrow>
         if \<not> is_prefix ''lo'' name then
           (case visit (snd (tiny_net_ip_to_string (ntohl a) 32)) s of
              (True, s1) \<Rightarrow> (TINY_RET_OK, s1)
            | (False, s1) \<Rightarrow> each_ip visit ifs s1)
         else each_ip visit ifs s
     | None \<Rightarrow> each_ip visit ifs s)"

definition tiny_net_for_each_ip ::
    "(string \<Rightarrow> 's \<Rightarrow> bool \<times> 's) \<Rightarrow> (string \<times> (32 word) option) list option \<Rightarrow> 's \<Rightarrow> tiny_ret \<times> 's" where
  "tiny_net_for_each_ip visit ifs s = (case ifs of None \<Rightarrow> (TINY_RET_E_NOT_FOUND, s) | Some l \<Rightarrow> each_ip visit l s)"

text \<open>\<open>visitor\<close> of \<open>upnp_net_util.c\<close>; \<open>Some []\<close> is a buffer that was not written.\<close>

definition upnp_visitor :: "string option \<Rightarrow> nat \<Rightarrow> string \<Rightarrow> string option \<Rightarrow> bool \<times> string option" where
  "upnp_visitor remoteIp len ip_text selfIp = (case (tiny_net_ip_to_int remoteIp, tiny_net_ip_to_int (Some ip_text)) of
       (Some r, Some x) \<Rightarrow> if r AND 0x00FFFFFF = x AND 0x00FFFFFF then (True, Some (field_cpy len ip_text)) else (False, selfIp)
     | _ \<Rightarrow> (False, selfIp))"

definition upnp_net_get_ip ::
    "(string \<times> (32 word) option) list option \<Rightarrow> string option \<Rightarrow> nat \<Rightarrow> tiny_ret \<times> string" where
  "upnp_net_get_ip ifs remoteIp len = (case tiny_net_for_each_ip (upnp_visitor remoteIp len) ifs None of
     (ret, s) \<Rightarrow> (ret, case s of None \<Rightarrow> [] | Some x \<Rightarrow> x))"

subsection \<open>Properties\<close>

definition dotted :: "nat list \<Rightarrow> string" where
  "dotted ns = join_with ''.'' (map show_nat ns)"

lemma unat_byte: "unat (w AND 0xFF :: 32 word) < 256"
proof -
  have "w AND 0xFF \<le> (0xFF :: 32 word)" by (rule word_and_le1)
  then show ?thesis by (simp add: word_le_nat_alt)
qed

lemma show_byte_short: "n < 256 \<Longrightarrow> length (show_nat n) \<le> 3"
  by (rule show_nat_length) simp_all

lemma show_nat_no_dot: "CHR ''.'' \<notin> set (show_nat n)"
  using show_nat_digits [of n] by (auto simp: isdigit_def)

lemma byte_masks:
  "(0xFF :: 32 word) = mask 8" "(0xFF00 :: 32 word) = push_bit 8 (mask 8)" "(0xFF0000 :: 32 word) = push_bit 16 (mask 8)"
  "(0xFF000000 :: 32 word) = push_bit 24 (mask 8)"
  by (simp_all add: mask_eq_exp_minus_1 push_bit_eq_mult)

lemma ip_bytes:
  fixes w :: "32 word"
  shows "(w AND 0xFF) + (push_bit 8 (drop_bit 8 w AND 0xFF) AND 0xFF00) + (push_bit 16 (drop_bit 16 w AND 0xFF) AND 0xFF0000)
    + (push_bit 24 (drop_bit 24 w AND 0xFF) AND 0xFF000000) = w"
proof -
  let ?a = "w AND mask 8" and ?b = "push_bit 8 (drop_bit 8 w AND mask 8) AND push_bit 8 (mask 8)"
    and ?c = "push_bit 16 (drop_bit 16 w AND mask 8) AND push_bit 16 (mask 8)"
    and ?d = "push_bit 24 (drop_bit 24 w AND mask 8) AND push_bit 24 (mask 8)"
  have "?a + ?b = ?a OR ?b" by (rule disjunctive_add_eq_or, rule bit_word_eqI) (auto simp: bit_simps)
  moreover have "(?a OR ?b) + ?c = (?a OR ?b) OR ?c"
    by (rule disjunctive_add_eq_or, rule bit_word_eqI) (auto simp: bit_simps)
  moreover have "((?a OR ?b) OR ?c) + ?d = ((?a OR ?b) OR ?c) OR ?d"
    by (rule disjunctive_add_eq_or, rule bit_word_eqI) (auto simp: bit_simps)
  moreover have "((?a OR ?b) OR ?c) OR ?d = w"
  proof (rule bit_word_eqI)
    fix n :: nat
    assume "n < LENGTH(32)"
    then show "bit (((?a OR ?b) OR ?c) OR ?d) n \<longleftrightarrow> bit w n"
      by (cases "n < 8"; cases "n < 16"; cases "n < 24") (auto simp: bit_simps)
  qed
  ultimately show ?thesis unfolding byte_masks by (simp only:)
qed

lemma ip_to_string_text:
  "snd (tiny_net_ip_to_string w 32) = dotted (map (\<lambda>i. unat (drop_bit (8 * i) w AND 0xFF)) [0, 1, 2, 3])"
proof -
  have "length (show_nat (unat (drop_bit n w AND 0xFF))) \<le> 3" for n by (rule show_byte_short [OF unat_byte])
  from this [of 0] this [of 8] this [of 16] this [of 24] show ?thesis
    by (simp add: tiny_net_ip_to_string_def dotted_def field_printf_def)
qed

lemma split_dotted:
  assumes "length ns = 4" and "\<forall>n \<in> set ns. n < 256"
  shows "str_split (dotted ns) ''.'' 4 = Some (map show_nat ns)"
proof -
  have "\<forall>s \<in> set (map show_nat ns). CHR ''.'' \<notin> set s \<and> length s \<le> GROUP_LEN"
    using assms(2) show_nat_no_dot show_byte_short by (fastforce simp: GROUP_LEN_def)
  moreover have "map show_nat ns \<noteq> []" using assms(1) by auto
  ultimately show ?thesis using str_split_joined [of "map show_nat ns" 4 "CHR ''.''"] assms(1) by (simp add: dotted_def)
qed

lemma atoi_show_nat: "n < 256 \<Longrightarrow> atoi (show_nat n) = int n"
  using atoi_show_int [of "int n"] by (simp add: show_int_nonneg)

lemma to_int_to_string: "tiny_net_ip_to_int (Some (snd (tiny_net_ip_to_string w 32))) = Some w"
proof -
  let ?b = "\<lambda>i. unat (drop_bit (8 * i) w AND 0xFF)"
  have "\<forall>n \<in> set (map ?b [0, 1, 2, 3]). n < 256" using unat_byte by (simp only: list.set_map) blast
  then have s: "str_split (dotted (map ?b [0, 1, 2, 3])) ''.'' 4 = Some (map show_nat (map ?b [0, 1, 2, 3]))"
    by (intro split_dotted) simp_all
  have v: "word_of_int (atoi (show_nat (?b i))) = drop_bit (8 * i) w AND 0xFF" for i
    using atoi_show_nat [OF unat_byte [of "drop_bit (8 * i) w"]] by simp
  show ?thesis
    unfolding ip_to_string_text tiny_net_ip_to_int_def option.case s
    using v [of 0] v [of 1] v [of 2] v [of 3] ip_bytes [of w] by (simp add: and.assoc)
qed

text \<open>
  A dotted address is read back as the number it was printed from.
\<close>

theorem ip_print_parse:
  "tiny_net_ip_to_int (Some (snd (tiny_net_ip_to_string w 32))) = Some w"
  by (rule to_int_to_string)

text \<open>The address of four numbers as \<open>s_addr\<close>, and its text.\<close>

definition s_addr :: "nat list \<Rightarrow> 32 word" where
  "s_addr ns = word_of_nat (foldr (\<lambda>n w. n + 256 * w) ns 0)"

lemma byte_div: "k \<le> 24 \<Longrightarrow> unat (drop_bit k w AND 0xFF :: 32 word) = unat w div 2 ^ k mod 256"
proof -
  assume k: "k \<le> 24"
  have "drop_bit k w AND 0xFF = take_bit 8 (drop_bit k w)" unfolding byte_masks by (simp add: take_bit_eq_mask)
  moreover have "unat (take_bit 8 (drop_bit k w)) = take_bit 8 (drop_bit k (unat w))"
    by (simp only: unsigned_take_bit_eq unsigned_drop_bit_eq) (simp add: take_bit_drop_bit k)
  ultimately show ?thesis by (simp add: take_bit_eq_mod drop_bit_eq_div)
qed

lemma unat_s_addr:
  assumes "a < 256" "b < 256" "c < 256" "d < 256"
  shows "unat (s_addr [a, b, c, d]) = a + 256 * (b + 256 * (c + 256 * d))"
proof -
  let ?n = "a + 256 * (b + 256 * (c + 256 * d))"
  have "unat (word_of_nat ?n :: 32 word) = ?n" using assms by (intro unat_word_of_nat) simp
  then show ?thesis by (simp add: s_addr_def)
qed

lemma address_bytes:
  assumes "a < 256" "b < 256" "c < 256" "d < 256"
  shows "map (\<lambda>i. unat (drop_bit (8 * i) (s_addr [a, b, c, d]) AND 0xFF)) [0, 1, 2, 3] = [a, b, c, d]"
proof -
  let ?n = "a + 256 * (b + 256 * (c + 256 * d))"
  have "unat (s_addr [a, b, c, d]) = ?n" by (rule unat_s_addr [OF assms])
  moreover have "?n div 2 ^ 0 mod 256 = a" "?n div 2 ^ 8 mod 256 = b" "?n div 2 ^ 16 mod 256 = c" "?n div 2 ^ 24 mod 256 = d"
  proof -
    have q: "(x + 256 * m) mod 256 = x" "(x + 256 * m) div 256 = m" if "x < 256" for x m :: nat
      using that by (simp_all del: distrib_left_numeral)
    have p: "(2::nat) ^ 8 = 256" "(2::nat) ^ 16 = 256 * 256" "(2::nat) ^ 24 = 256 * 256 * 256" by simp_all
    show "?n div 2 ^ 0 mod 256 = a" "?n div 2 ^ 8 mod 256 = b" "?n div 2 ^ 16 mod 256 = c" "?n div 2 ^ 24 mod 256 = d"
      unfolding p div_mult2_eq by (simp_all add: q assms del: distrib_left_numeral)
  qed
  ultimately show ?thesis using byte_div [of 0 "s_addr [a, b, c, d]"] by (simp add: byte_div)
qed

lemma address_text:
  assumes "a < 256" "b < 256" "c < 256" "d < 256"
  shows "snd (tiny_net_ip_to_string (s_addr [a, b, c, d]) 32) = dotted [a, b, c, d]"
  unfolding ip_to_string_text address_bytes [OF assms] ..

lemma address_read:
  assumes "a < 256" "b < 256" "c < 256" "d < 256"
  shows "tiny_net_ip_to_int (Some (dotted [a, b, c, d])) = Some (s_addr [a, b, c, d])"
  using to_int_to_string [of "s_addr [a, b, c, d]"] unfolding address_text [OF assms] .

lemma ntohl_byte:
  "drop_bit 0 (ntohl w) AND 0xFF = drop_bit 24 w AND 0xFF" "drop_bit 8 (ntohl w) AND 0xFF = drop_bit 16 w AND 0xFF"
  "drop_bit 16 (ntohl w) AND 0xFF = drop_bit 8 w AND 0xFF" "drop_bit 24 (ntohl w) AND 0xFF = drop_bit 0 w AND 0xFF"
  unfolding ntohl_def byte_masks by (rule bit_word_eqI; auto simp: bit_simps)+

lemma host_order_text:
  assumes "a < 256" "b < 256" "c < 256" "d < 256"
  shows "snd (tiny_net_ip_to_string (ntohl (s_addr [a, b, c, d])) 32) = dotted [d, c, b, a]"
  unfolding ip_to_string_text using ntohl_byte [of "s_addr [a, b, c, d]"] address_bytes [OF assms] by simp

lemma digits_eq: "x < 256 \<Longrightarrow> y < 256 \<Longrightarrow> x + 256 * m = y + 256 * n \<longleftrightarrow> x = y \<and> m = (n :: nat)"
proof
  assume l: "x < 256" "y < 256" and e: "x + 256 * m = y + 256 * n"
  have "(x + 256 * m) mod 256 = x" "(y + 256 * n) mod 256 = y" using l by simp_all
  then have "x = y" using e by simp
  then show "x = y \<and> m = n" using e by simp
qed simp

lemma network_of:
  assumes "a < 256" "b < 256" "c < 256" "d < 256"
  shows "unat (s_addr [a, b, c, d] AND 0x00FFFFFF) = a + 256 * (b + 256 * c)"
proof -
  have m: "(0x00FFFFFF :: 32 word) = mask 24" by (simp add: mask_eq_exp_minus_1)
  have "unat (s_addr [a, b, c, d] AND mask 24) = unat (s_addr [a, b, c, d]) mod 16777216"
    by (simp only: take_bit_eq_mask [symmetric] unsigned_take_bit_eq) (simp add: take_bit_eq_mod)
  also have "\<dots> = ((a + 256 * (b + 256 * c)) + 16777216 * d) mod 16777216"
    unfolding unat_s_addr [OF assms] by (rule arg_cong [where f = "\<lambda>x. x mod 16777216"]) simp
  also have "\<dots> = (a + 256 * (b + 256 * c)) mod 16777216" by (rule mod_mult_self2)
  also have "\<dots> = a + 256 * (b + 256 * c)" using assms by simp
  finally show ?thesis unfolding m .
qed

text \<open>
  C22. The own address is searched among the interfaces with its bytes reversed: an interface a.b.c.d is shown to the
  visitor as d.c.b.a, so a peer p.q.r.s is taken to be in its network exactly when p, q, r are d, c, b, and the
  address that is then reported is d.c.b.a.
\<close>

theorem own_address_reversed:
  assumes "\<forall>n \<in> {a, b, c, d, p, q, r, s}. n < 256" and "\<not> is_prefix ''lo'' name"
  shows "upnp_net_get_ip (Some [(name, Some (s_addr [a, b, c, d]))]) (Some (dotted [p, q, r, s])) len
    = (if [p, q, r] = [d, c, b] then (TINY_RET_OK, field_cpy len (dotted [d, c, b, a])) else (TINY_RET_E_NOT_FOUND, []))"
proof -
  have l: "a < 256" "b < 256" "c < 256" "d < 256" "p < 256" "q < 256" "r < 256" "s < 256" using assms(1) by auto
  have "s_addr [p, q, r, s] AND 0x00FFFFFF = s_addr [d, c, b, a] AND 0x00FFFFFF \<longleftrightarrow>
      p + 256 * (q + 256 * r) = d + 256 * (c + 256 * b)"
    by (simp only: word_unat_eq_iff network_of [OF l(5-8)] network_of [OF l(4) l(3) l(2) l(1)])
  also have "\<dots> \<longleftrightarrow> [p, q, r] = [d, c, b]"
    using digits_eq [OF l(5) l(4), of "q + 256 * r" "c + 256 * b"] digits_eq [OF l(6) l(3), of r b] by simp
  finally show ?thesis
    by (simp add: upnp_net_get_ip_def tiny_net_for_each_ip_def upnp_visitor_def assms(2) host_order_text l address_read)
qed

theorem own_address_reversed_witness:
  "upnp_net_get_ip (Some [(''eth0'', Some (s_addr [192, 168, 1, 20]))]) (Some (dotted [192, 168, 1, 5])) 32 = (TINY_RET_E_NOT_FOUND, [])"
  using own_address_reversed [of 192 168 1 20 192 168 1 5 "''eth0''" 32] by simp

end
