(* ===== verification/Md5.thy ===== *)
theory Md5
  imports CString "HOL-Library.Word"
begin

section \<open>The digest of a service: \<open>tiny_md5.c\<close>\<close>

text \<open>
  The copy of the reference code of RFC 1321. Its four byte word \<open>UINT4\<close> is \<open>unsigned long\<close>, which has
  64 bits on Linux: the model has the width as the type parameter \<open>'w\<close>, and \<open>tiny_md5_encode\<close> is the
  one of 64 bits. A byte that is shifted into the sign of an \<open>int\<close> makes the word negative, and it is
  widened with its sign. The end shows that the code is MD5 where \<open>UINT4\<close> has 32 bits, and only there.
\<close>

unbundle bit_operations_syntax

type_synonym 'u chain = "'u \<times> 'u \<times> 'u \<times> 'u"

record 'u tiny_md5 =
  md5_state :: "'u chain"
  md5_count0 :: 'u
  md5_count1 :: 'u
  md5_buffer :: "8 word list"

definition S11 :: nat where "S11 = 7"
definition S12 :: nat where "S12 = 12"
definition S13 :: nat where "S13 = 17"
definition S14 :: nat where "S14 = 22"
definition S21 :: nat where "S21 = 5"
definition S22 :: nat where "S22 = 9"
definition S23 :: nat where "S23 = 14"
definition S24 :: nat where "S24 = 20"
definition S31 :: nat where "S31 = 4"
definition S32 :: nat where "S32 = 11"
definition S33 :: nat where "S33 = 16"
definition S34 :: nat where "S34 = 23"
definition S41 :: nat where "S41 = 6"
definition S42 :: nat where "S42 = 10"
definition S43 :: nat where "S43 = 15"
definition S44 :: nat where "S44 = 21"

lemmas S_defs = S11_def S12_def S13_def S14_def S21_def S22_def S23_def S24_def S31_def S32_def S33_def S34_def
  S41_def S42_def S43_def S44_def

definition PADDING :: "8 word list" where "PADDING = 0x80 # replicate 63 0"

definition md5_F :: "'w::len word \<Rightarrow> 'w word \<Rightarrow> 'w word \<Rightarrow> 'w word" where "md5_F x y z = (x AND y) OR (NOT x AND z)"
definition md5_G :: "'w::len word \<Rightarrow> 'w word \<Rightarrow> 'w word \<Rightarrow> 'w word" where "md5_G x y z = (x AND z) OR (y AND NOT z)"
definition md5_H :: "'w::len word \<Rightarrow> 'w word \<Rightarrow> 'w word \<Rightarrow> 'w word" where "md5_H x y z = x XOR y XOR z"
definition md5_I :: "'w::len word \<Rightarrow> 'w word \<Rightarrow> 'w word \<Rightarrow> 'w word" where "md5_I x y z = y XOR (x OR NOT z)"

definition ROTATE_LEFT :: "'w::len word \<Rightarrow> nat \<Rightarrow> 'w word" where
  "ROTATE_LEFT x n = push_bit n x OR drop_bit (32 - n) x"

text \<open>The value the macros give to their first argument.\<close>

definition md5_XX ::
    "('w::len word \<Rightarrow> 'w word \<Rightarrow> 'w word \<Rightarrow> 'w word) \<Rightarrow> 'w word \<Rightarrow> 'w word \<Rightarrow> 'w word \<Rightarrow> 'w word \<Rightarrow> 'w word \<Rightarrow> nat \<Rightarrow> 'w word \<Rightarrow> 'w word" where
  "md5_XX f a b c d x s ac = ROTATE_LEFT (a + (f b c d + x + ac)) s + b"

definition FF :: "'w::len word \<Rightarrow> 'w word \<Rightarrow> 'w word \<Rightarrow> 'w word \<Rightarrow> 'w word \<Rightarrow> nat \<Rightarrow> 'w word \<Rightarrow> 'w word" where "FF = md5_XX md5_F"
definition GG :: "'w::len word \<Rightarrow> 'w word \<Rightarrow> 'w word \<Rightarrow> 'w word \<Rightarrow> 'w word \<Rightarrow> nat \<Rightarrow> 'w word \<Rightarrow> 'w word" where "GG = md5_XX md5_G"
definition HH :: "'w::len word \<Rightarrow> 'w word \<Rightarrow> 'w word \<Rightarrow> 'w word \<Rightarrow> 'w word \<Rightarrow> nat \<Rightarrow> 'w word \<Rightarrow> 'w word" where "HH = md5_XX md5_H"
definition II :: "'w::len word \<Rightarrow> 'w word \<Rightarrow> 'w word \<Rightarrow> 'w word \<Rightarrow> 'w word \<Rightarrow> nat \<Rightarrow> 'w word \<Rightarrow> 'w word" where "II = md5_XX md5_I"

text \<open>Four bytes as a word, lowest first; the words of a block; the bytes of words.\<close>

definition decode_word :: "8 word list \<Rightarrow> 'w::len word" where
  "decode_word b = scast (((ucast (b ! 0) OR push_bit 8 (ucast (b ! 1))) OR push_bit 16 (ucast (b ! 2)))
     OR push_bit 24 (ucast (b ! 3)) :: 32 word)"

fun TinyMD5_Decode :: "8 word list \<Rightarrow> nat \<Rightarrow> 'w::len word list" where
  "TinyMD5_Decode input 0 = []"
| "TinyMD5_Decode input (Suc n) = decode_word input # TinyMD5_Decode (drop 4 input) n"

definition encode_word :: "'w::len word \<Rightarrow> 8 word list" where
  "encode_word w = [ucast (w AND 0xff), ucast (drop_bit 8 w AND 0xff), ucast (drop_bit 16 w AND 0xff), ucast (drop_bit 24 w AND 0xff)]"

definition TinyMD5_Encode :: "'w::len word list \<Rightarrow> 8 word list" where
  "TinyMD5_Encode ws = concat (map encode_word ws)"

definition TinyMD5_Init :: "'w::len word tiny_md5 \<Rightarrow> 'w word tiny_md5" where
  "TinyMD5_Init m = m\<lparr>md5_count0 := 0, md5_count1 := 0, md5_state := (0x67452301, 0xefcdab89, 0x98badcfe, 0x10325476)\<rparr>"

definition md5_lines :: "'w::len word list \<Rightarrow> 'w word chain \<Rightarrow> 'w word chain" where
  "md5_lines x st = (case st of (a, b, c, d) \<Rightarrow> let
     a = FF a b c d (x ! 0) S11 0xd76aa478; d = FF d a b c (x ! 1) S12 0xe8c7b756;
     c = FF c d a b (x ! 2) S13 0x242070db; b = FF b c d a (x ! 3) S14 0xc1bdceee;
     a = FF a b c d (x ! 4) S11 0xf57c0faf; d = FF d a b c (x ! 5) S12 0x4787c62a;
     c = FF c d a b (x ! 6) S13 0xa8304613; b = FF b c d a (x ! 7) S14 0xfd469501;
     a = FF a b c d (x ! 8) S11 0x698098d8; d = FF d a b c (x ! 9) S12 0x8b44f7af;
     c = FF c d a b (x ! 10) S13 0xffff5bb1; b = FF b c d a (x ! 11) S14 0x895cd7be;
     a = FF a b c d (x ! 12) S11 0x6b901122; d = FF d a b c (x ! 13) S12 0xfd987193;
     c = FF c d a b (x ! 14) S13 0xa679438e; b = FF b c d a (x ! 15) S14 0x49b40821;
     a = GG a b c d (x ! 1) S21 0xf61e2562; d = GG d a b c (x ! 6) S22 0xc040b340;
     c = GG c d a b (x ! 11) S23 0x265e5a51; b = GG b c d a (x ! 0) S24 0xe9b6c7aa;
     a = GG a b c d (x ! 5) S21 0xd62f105d; d = GG d a b c (x ! 10) S22 0x2441453;
     c = GG c d a b (x ! 15) S23 0xd8a1e681; b = GG b c d a (x ! 4) S24 0xe7d3fbc8;
     a = GG a b c d (x ! 9) S21 0x21e1cde6; d = GG d a b c (x ! 14) S22 0xc33707d6;
     c = GG c d a b (x ! 3) S23 0xf4d50d87; b = GG b c d a (x ! 8) S24 0x455a14ed;
     a = GG a b c d (x ! 13) S21 0xa9e3e905; d = GG d a b c (x ! 2) S22 0xfcefa3f8;
     c = GG c d a b (x ! 7) S23 0x676f02d9; b = GG b c d a (x ! 12) S24 0x8d2a4c8a;
     a = HH a b c d (x ! 5) S31 0xfffa3942; d = HH d a b c (x ! 8) S32 0x8771f681;
     c = HH c d a b (x ! 11) S33 0x6d9d6122; b = HH b c d a (x ! 14) S34 0xfde5380c;
     a = HH a b c d (x ! 1) S31 0xa4beea44; d = HH d a b c (x ! 4) S32 0x4bdecfa9;
     c = HH c d a b (x ! 7) S33 0xf6bb4b60; b = HH b c d a (x ! 10) S34 0xbebfbc70;
     a = HH a b c d (x ! 13) S31 0x289b7ec6; d = HH d a b c (x ! 0) S32 0xeaa127fa;
     c = HH c d a b (x ! 3) S33 0xd4ef3085; b = HH b c d a (x ! 6) S34 0x4881d05;
     a = HH a b c d (x ! 9) S31 0xd9d4d039; d = HH d a b c (x ! 12) S32 0xe6db99e5;
     c = HH c d a b (x ! 15) S33 0x1fa27cf8; b = HH b c d a (x ! 2) S34 0xc4ac5665;
     a = II a b c d (x ! 0) S41 0xf4292244; d = II d a b c (x ! 7) S42 0x432aff97;
     c = II c d a b (x ! 14) S43 0xab9423a7; b = II b c d a (x ! 5) S44 0xfc93a039;
     a = II a b c d (x ! 12) S41 0x655b59c3; d = II d a b c (x ! 3) S42 0x8f0ccc92;
     c = II c d a b (x ! 10) S43 0xffeff47d; b = II b c d a (x ! 1) S44 0x85845dd1;
     a = II a b c d (x ! 8) S41 0x6fa87e4f; d = II d a b c (x ! 15) S42 0xfe2ce6e0;
     c = II c d a b (x ! 6) S43 0xa3014314; b = II b c d a (x ! 13) S44 0x4e0811a1;
     a = II a b c d (x ! 4) S41 0xf7537e82; d = II d a b c (x ! 11) S42 0xbd3af235;
     c = II c d a b (x ! 2) S43 0x2ad7d2bb; b = II b c d a (x ! 9) S44 0xeb86d391
   in (a, b, c, d))"

definition chain_add :: "'w::len word chain \<Rightarrow> 'w word chain \<Rightarrow> 'w word chain" where
  "chain_add s t = (case s of (a, b, c, d) \<Rightarrow> case t of (a', b', c', d') \<Rightarrow> (a + a', b + b', c + c', d + d'))"

definition TinyMD5_Transform :: "'w::len word chain \<Rightarrow> 8 word list \<Rightarrow> 'w word chain" where
  "TinyMD5_Transform st block = chain_add st (md5_lines (TinyMD5_Decode block 16) st)"

text \<open>
  The blocks from position \<open>i\<close> on, with the position behind the last whole one. The counter of the code is a
  \<open>UINT4\<close>, which does not wrap around where one of 32 bits is given fewer than \<open>2 ^ 32 - 64\<close> bytes.
\<close>

function md5_blocks :: "'w::len word chain \<Rightarrow> 8 word list \<Rightarrow> nat \<Rightarrow> 'w word chain \<times> nat" where
  "md5_blocks st input i =
     (if i + 63 < length input then md5_blocks (TinyMD5_Transform st (take 64 (drop i input))) input (i + 64) else (st, i))"
  by pat_completeness auto
termination by (relation "measure (\<lambda>(st, input, i). length input - i)") auto

definition md5_store :: "8 word list \<Rightarrow> nat \<Rightarrow> 8 word list \<Rightarrow> 8 word list" where
  "md5_store buf i bytes = take i buf @ bytes @ drop (i + length bytes) buf"

definition TinyMD5_Update :: "'w::len word tiny_md5 \<Rightarrow> 8 word list \<Rightarrow> 'w word tiny_md5" where
  "TinyMD5_Update m input =
     (let inputLen = word_of_nat (length input) :: 'w word;
          index = unat (drop_bit 3 (md5_count0 m) AND 0x3F);
          c0 = md5_count0 m + push_bit 3 inputLen;
          c1 = (if c0 < push_bit 3 inputLen then md5_count1 m + 1 else md5_count1 m) + drop_bit 29 inputLen;
          m1 = m\<lparr>md5_count0 := c0, md5_count1 := c1\<rparr>;
          partLen = 64 - index
      in if partLen \<le> length input
         then let buf = md5_store (md5_buffer m1) index (take partLen input)
              in (case md5_blocks (TinyMD5_Transform (md5_state m1) buf) input partLen of
                    (st, i) \<Rightarrow> m1\<lparr>md5_state := st, md5_buffer := md5_store buf 0 (drop i input)\<rparr>)
         else m1\<lparr>md5_buffer := md5_store (md5_buffer m1) index input\<rparr>)"

text \<open>The digest; the context is cleared afterwards.\<close>

definition TinyMD5_Final :: "'w::len word tiny_md5 \<Rightarrow> 8 word list" where
  "TinyMD5_Final m =
     (let bits = TinyMD5_Encode [md5_count0 m, md5_count1 m];
          index = unat (drop_bit 3 (md5_count0 m) AND 0x3f);
          padLen = (if index < 56 then 56 - index else 120 - index);
          m1 = TinyMD5_Update m (take padLen PADDING);
          m2 = TinyMD5_Update m1 bits
      in (case md5_state m2 of (a, b, c, d) \<Rightarrow> TinyMD5_Encode [a, b, c, d]))"

definition hex_byte :: "8 word \<Rightarrow> string" where
  "hex_byte b = [xdigit_char False (unat b div 16), xdigit_char False (unat b mod 16)]"

definition TinyMD5_Result :: "8 word list \<Rightarrow> string" where
  "TinyMD5_Result digest = concat (map hex_byte digest)"

text \<open>\<open>raw\<close> is the context as it lies on the stack.\<close>

definition md5_encode_with :: "'w::len word tiny_md5 \<Rightarrow> string \<Rightarrow> string" where
  "md5_encode_with raw src = TinyMD5_Result (TinyMD5_Final (TinyMD5_Update (TinyMD5_Init raw) (map of_char src)))"

definition tiny_md5_encode :: "string \<Rightarrow> string" where
  "tiny_md5_encode = md5_encode_with (\<lparr>md5_state = (0, 0, 0, 0), md5_count0 = 0, md5_count1 = 0, md5_buffer = replicate 64 0\<rparr>
     :: (64 word) tiny_md5)"

subsection \<open>The specification: RFC 1321\<close>

definition md5_T :: "(32 word) list" where
  "md5_T = [0xd76aa478, 0xe8c7b756, 0x242070db, 0xc1bdceee, 0xf57c0faf, 0x4787c62a, 0xa8304613, 0xfd469501,
     0x698098d8, 0x8b44f7af, 0xffff5bb1, 0x895cd7be, 0x6b901122, 0xfd987193, 0xa679438e, 0x49b40821,
     0xf61e2562, 0xc040b340, 0x265e5a51, 0xe9b6c7aa, 0xd62f105d, 0x2441453, 0xd8a1e681, 0xe7d3fbc8,
     0x21e1cde6, 0xc33707d6, 0xf4d50d87, 0x455a14ed, 0xa9e3e905, 0xfcefa3f8, 0x676f02d9, 0x8d2a4c8a,
     0xfffa3942, 0x8771f681, 0x6d9d6122, 0xfde5380c, 0xa4beea44, 0x4bdecfa9, 0xf6bb4b60, 0xbebfbc70,
     0x289b7ec6, 0xeaa127fa, 0xd4ef3085, 0x4881d05, 0xd9d4d039, 0xe6db99e5, 0x1fa27cf8, 0xc4ac5665,
     0xf4292244, 0x432aff97, 0xab9423a7, 0xfc93a039, 0x655b59c3, 0x8f0ccc92, 0xffeff47d, 0x85845dd1,
     0x6fa87e4f, 0xfe2ce6e0, 0xa3014314, 0x4e0811a1, 0xf7537e82, 0xbd3af235, 0x2ad7d2bb, 0xeb86d391]"

definition md5_shift :: "nat \<Rightarrow> nat" where
  "md5_shift i = [[7, 12, 17, 22], [5, 9, 14, 20], [4, 11, 16, 23], [6, 10, 15, 21]] ! (i div 16) ! (i mod 4)"

definition md5_word :: "nat \<Rightarrow> nat" where
  "md5_word i = [i, 5 * i + 1, 3 * i + 5, 7 * i] ! (i div 16) mod 16"

definition md5_fun :: "nat \<Rightarrow> 32 word \<Rightarrow> 32 word \<Rightarrow> 32 word \<Rightarrow> 32 word" where
  "md5_fun i x y z = [(x AND y) OR (NOT x AND z), (x AND z) OR (y AND NOT z), x XOR y XOR z, y XOR (x OR NOT z)] ! (i div 16)"

definition md5_step :: "(32 word) list \<Rightarrow> nat \<Rightarrow> (32 word) chain \<Rightarrow> (32 word) chain" where
  "md5_step x i st = (case st of (a, b, c, d) \<Rightarrow>
     (d, b + word_rotl (md5_shift i) (a + md5_fun i b c d + x ! md5_word i + md5_T ! i), b, c))"

definition le_word :: "8 word list \<Rightarrow> 32 word" where
  "le_word bs = foldr (\<lambda>b w. ucast b + 256 * w) bs 0"

definition le_bytes :: "nat \<Rightarrow> int \<Rightarrow> 8 word list" where
  "le_bytes k n = map (\<lambda>i. word_of_int (n div 256 ^ i)) [0..<k]"

definition md5_compress :: "8 word list \<Rightarrow> (32 word) chain \<Rightarrow> (32 word) chain" where
  "md5_compress block st = chain_add st (fold (md5_step (map (\<lambda>k. le_word (take 4 (drop (4 * k) block))) [0..<16])) [0..<64] st)"

fun chunks :: "nat \<Rightarrow> 'a list \<Rightarrow> 'a list list" where
  "chunks 0 bs = []"
| "chunks (Suc n) bs = take 64 bs # chunks n (drop 64 bs)"

definition md5_pad :: "8 word list \<Rightarrow> 8 word list" where
  "md5_pad msg = msg @ 0x80 # replicate ((119 - length msg mod 64) mod 64) 0 @ le_bytes 8 (8 * int (length msg))"

definition md5 :: "8 word list \<Rightarrow> 8 word list" where
  "md5 msg = (case fold md5_compress (chunks (length (md5_pad msg) div 64) (md5_pad msg)) (0x67452301, 0xefcdab89, 0x98badcfe, 0x10325476) of
     (a, b, c, d) \<Rightarrow> concat (map (\<lambda>w. le_bytes 4 (uint w)) [a, b, c, d]))"

subsection \<open>The lines are the steps of the specification\<close>

lemma rotate_32: "0 < n \<Longrightarrow> n < 32 \<Longrightarrow> ROTATE_LEFT (x :: 32 word) n = word_rotl n x"
proof (rule bit_word_eqI)
  fix k
  assume n: "0 < n" "n < 32" and "k < LENGTH(32)"
  then have k: "k < 32" by simp
  have l: "LENGTH(32) = 32" by simp
  have r: "bit (word_rotl n x) k \<longleftrightarrow> bit x ((k + (32 - n)) mod 32)"
    unfolding bit_word_rotl_iff l using n k by simp
  have m: "bit (ROTATE_LEFT x n) k \<longleftrightarrow> n \<le> k \<and> bit x (k - n) \<or> bit x (32 - n + k)"
    unfolding ROTATE_LEFT_def bit_or_iff bit_push_bit_iff bit_drop_bit_eq o_def using n k by (simp add: not_le)
  show "bit (ROTATE_LEFT x n) k = bit (word_rotl n x) k"
  proof (cases "k < n")
    case True
    then have "(k + (32 - n)) mod 32 = 32 - n + k" using n k by simp
    then show ?thesis unfolding r m using True by simp
  next
    case False
    then have "(k + (32 - n)) mod 32 = k - n" using n k by (subst mod_if) auto
    moreover have "\<not> bit x (32 - n + k)" using False n bit_imp_le_length [of x "32 - n + k"] unfolding l by linarith
    ultimately show ?thesis unfolding r m using False by simp
  qed
qed

lemma md5_shift_range: "i < 64 \<Longrightarrow> 0 < md5_shift i \<and> md5_shift i < 32"
proof -
  assume "i < 64"
  then have "i div 16 < 4" "i mod 4 < 4" by auto
  then have "i div 16 \<in> {0, 1, 2, 3}" "i mod 4 \<in> {0, 1, 2, 3}" by auto
  then show ?thesis by (auto simp: md5_shift_def)
qed

lemma md5_step_line:
  "i < 64 \<Longrightarrow> md5_step x i (a, b, c, d) = (d, md5_XX (md5_fun i) a b c d (x ! md5_word i) (md5_shift i) (md5_T ! i), b, c)"
  using rotate_32 md5_shift_range [of i] by (simp add: md5_step_def md5_XX_def ac_simps)

lemma md5_fun_rounds:
  "i div 16 = 0 \<Longrightarrow> md5_fun i = md5_F" "i div 16 = 1 \<Longrightarrow> md5_fun i = md5_G"
  "i div 16 = 2 \<Longrightarrow> md5_fun i = md5_H" "i div 16 = 3 \<Longrightarrow> md5_fun i = md5_I"
  by (simp_all add: fun_eq_iff md5_fun_def md5_F_def md5_G_def md5_H_def md5_I_def)

lemma next_line:
  "md5_step x i (a, b, c, d) = (d, e, b, c) \<Longrightarrow> (\<And>v. C v = fold (md5_step x) is (d, v, b, c)) \<Longrightarrow>
    Let e C = fold (md5_step x) (i # is) (a, b, c, d)"
  by simp

lemma lines_steps: "md5_lines x st = fold (md5_step x) [0..<64] st"
proof -
  obtain a b c d where st: "st = (a, b, c, d)" by (cases st)
  have l: "[0..<64] = [0, 1, 2, 3, 4, 5, 6, 7, 8, 9, 10, 11, 12, 13, 14, 15, 16, 17, 18, 19, 20, 21, 22, 23, 24, 25, 26, 27, 28,
    29, 30, 31, 32, 33, 34, 35, 36, 37, 38, 39, 40, 41, 42, 43, 44, 45, 46, 47, 48, 49, 50, 51, 52, 53, 54, 55, 56, 57, 58, 59,
    60, 61, 62, 63 :: nat]"
    by (simp add: upt_rec)
  show ?thesis
    unfolding md5_lines_def st prod.case l
    by ((rule next_line, simp add: md5_step_line md5_fun_rounds FF_def GG_def HH_def II_def S_defs md5_shift_def md5_word_def md5_T_def)+,
      simp)
qed

lemma decode_le: "decode_word b = (le_word [b ! 0, b ! 1, b ! 2, b ! 3] :: 32 word)"
proof -
  let ?b = "\<lambda>i. ucast (b ! i) :: 32 word"
  have "(?b 0 OR push_bit 8 (?b 1)) = ?b 0 + push_bit 8 (?b 1)"
    by (rule disjunctive_add_eq_or [symmetric], rule bit_word_eqI) (auto simp: bit_simps dest!: bit_imp_le_length)
  moreover have "(?b 0 OR push_bit 8 (?b 1)) OR push_bit 16 (?b 2) = (?b 0 OR push_bit 8 (?b 1)) + push_bit 16 (?b 2)"
    by (rule disjunctive_add_eq_or [symmetric], rule bit_word_eqI) (auto simp: bit_simps dest!: bit_imp_le_length)
  moreover have "((?b 0 OR push_bit 8 (?b 1)) OR push_bit 16 (?b 2)) OR push_bit 24 (?b 3) =
      ((?b 0 OR push_bit 8 (?b 1)) OR push_bit 16 (?b 2)) + push_bit 24 (?b 3)"
    by (rule disjunctive_add_eq_or [symmetric], rule bit_word_eqI) (auto simp: bit_simps dest!: bit_imp_le_length)
  ultimately show ?thesis
    by (simp add: decode_word_def le_word_def push_bit_eq_mult algebra_simps)
qed

lemma decode_block:
  "length block = 4 * n \<Longrightarrow> TinyMD5_Decode block n = (map (\<lambda>k. le_word (take 4 (drop (4 * k) block))) [0..<n] :: (32 word) list)"
proof (induction n arbitrary: block)
  case (Suc n)
  have four: "take 4 block = [block ! 0, block ! 1, block ! 2, block ! 3]"
    using Suc.prems by (intro nth_equalityI) (auto simp: less_Suc_eq numeral_eq_Suc)
  have "map (\<lambda>k. le_word (take 4 (drop (4 * k) (drop 4 block)))) [0..<n] = map (\<lambda>k. le_word (take 4 (drop (4 * k) block))) [Suc 0..<Suc n]"
    unfolding map_Suc_upt [symmetric] map_map by (simp add: add.commute)
  moreover have "[0..<Suc n] = 0 # [Suc 0..<Suc n]" by (rule upt_conv_Cons) simp
  ultimately show ?case using Suc.IH [of "drop 4 block"] Suc.prems by (simp add: decode_le four del: upt_Suc)
qed simp

lemma transform_32: "length block = 64 \<Longrightarrow> TinyMD5_Transform st block = md5_compress block st"
  using decode_block [of block 16] by (simp add: TinyMD5_Transform_def md5_compress_def lines_steps)

lemma chunks_append: "64 * m \<le> length xs \<Longrightarrow> chunks m (xs @ ys) = chunks m xs"
  by (induction m arbitrary: xs) auto

lemma chunks_add: "chunks (m + n) xs = chunks m xs @ chunks n (drop (64 * m) xs)"
  by (induction m arbitrary: xs) (auto simp: add.commute)

lemma chunks_whole: "64 * m \<le> length xs \<Longrightarrow> b \<in> set (chunks m xs) \<Longrightarrow> length b = 64"
proof (induction m arbitrary: xs)
  case (Suc m)
  then show ?case using Suc.IH [of "drop 64 xs"] by auto
qed simp

lemma blocks_chunks:
  "i \<le> length input \<Longrightarrow> k = (length input - i) div 64 \<Longrightarrow>
    md5_blocks st input i = (fold (\<lambda>b st. TinyMD5_Transform st b) (chunks k (drop i input)) st, i + 64 * k)"
proof (induction k arbitrary: st i)
  case 0
  then have "\<not> i + 63 < length input" by (auto simp: div_eq_0_iff)
  then show ?case by simp
next
  case (Suc k)
  then have i: "i + 63 < length input" by (cases "length input - i < 64") auto
  have "k = (length input - (i + 64)) div 64" using Suc.prems i by (simp add: le_div_geq)
  then show ?case using Suc.IH [of "i + 64" "TinyMD5_Transform st (take 64 (drop i input))"] i
    by (subst md5_blocks.simps) (simp add: add.commute)
qed

declare md5_blocks.simps [simp del]

subsection \<open>Taking in a message piece by piece\<close>

text \<open>What a context has taken in: the counters, the state after the whole blocks, the rest in the buffer.\<close>

definition md5_done :: "'w::len word chain \<Rightarrow> 'w word tiny_md5 \<Rightarrow> 8 word list \<Rightarrow> bool" where
  "md5_done st0 m bs \<longleftrightarrow> md5_count0 m = word_of_nat (8 * length bs) \<and> md5_count1 m = word_of_nat (length bs div 2 ^ 29) \<and> length (md5_buffer m) = 64
     \<and> md5_state m = fold (\<lambda>b st. TinyMD5_Transform st b) (chunks (length bs div 64) bs) st0
     \<and> take (length bs mod 64) (md5_buffer m) = drop (64 * (length bs div 64)) bs"

text \<open>
  The pieces for which this is kept: on a machine with words of 32 bits all that the length of a piece can be given
  for, with the counter of the loop not wrapping around; with longer words those of short texts.
\<close>

definition countable :: "'w::len itself \<Rightarrow> nat \<Rightarrow> nat \<Rightarrow> bool" where
  "countable _ m n \<longleftrightarrow> LENGTH('w) = 32 \<and> n < 2 ^ 32 - 64 \<or> 32 \<le> LENGTH('w) \<and> m + n < 2 ^ 28"

lemma word_small:
  assumes "n < 2 ^ 31" and "32 \<le> LENGTH('w)"
  shows "unat (word_of_nat n :: 'w::len word) = n"
proof -
  have "(2::nat) ^ 31 \<le> 2 ^ LENGTH('w)" using assms(2) by (intro power_increasing) simp_all
  then show ?thesis using assms(1) by (intro unat_word_of_nat) simp
qed

lemma count_index:
  assumes "32 \<le> LENGTH('w)"
  shows "unat (drop_bit 3 (word_of_nat (8 * n) :: 'w::len word) AND 0x3F) = n mod 64"
proof -
  let ?w = "word_of_nat n :: 'w word"
  have m: "(0x3F :: 'w word) = mask 6" by (simp add: mask_eq_exp_minus_1)
  have "word_of_nat (8 * n) = push_bit 3 ?w" by (simp add: push_bit_eq_mult)
  then have "drop_bit 3 (word_of_nat (8 * n) :: 'w word) AND mask 6 = take_bit 6 ?w"
    using assms by (intro bit_word_eqI) (auto simp: bit_simps)
  moreover have "unat (take_bit 6 ?w) = take_bit 6 (take_bit LENGTH('w) n)" by (simp only: unsigned_take_bit_eq unsigned_of_nat of_nat_id)
  ultimately show ?thesis unfolding m using assms by (simp add: take_bit_eq_mod [of 6] min_def)
qed

lemma count_carry:
  fixes A B C :: nat
  assumes "A < C" and "B < C"
  shows "(A + B) mod C < B \<longleftrightarrow> (A + B) div C = 1" and "(A + B) div C \<in> {0, 1}"
proof -
  have "(A + B) div C = (if C \<le> A + B then 1 else 0)"
    using assms by (auto simp: div_if)
  moreover have "(A + B) mod C = (if C \<le> A + B then A + B - C else A + B)"
    using assms by (auto simp: mod_if)
  ultimately show "(A + B) mod C < B \<longleftrightarrow> (A + B) div C = 1" "(A + B) div C \<in> {0, 1}"
    using assms by auto
qed

lemma count_high:
  assumes "countable TYPE('w) m n"
  shows "(if word_of_nat (8 * (m + n)) < (push_bit 3 (word_of_nat n) :: 'w word) then word_of_nat (m div 2 ^ 29) + 1 else word_of_nat (m div 2 ^ 29))
      + drop_bit 29 (word_of_nat n) = (word_of_nat ((m + n) div 2 ^ 29) :: 'w::len word)"
proof -
  let ?C = "2 ^ 32 :: nat"
  have p: "push_bit 3 (word_of_nat n :: 'w word) = word_of_nat (8 * n)" by (simp add: push_bit_eq_mult)
  show ?thesis
  proof (cases "LENGTH('w) = 32 \<and> n < 2 ^ 32 - 64")
    case True
    let ?A = "8 * m mod ?C" and ?B = "8 * n mod ?C"
    have u: "unat (word_of_nat k :: 'w word) = k mod ?C" for k using True by (simp add: unsigned_of_nat take_bit_eq_mod)
    have high: "k div 2 ^ 29 = 8 * k div ?C" for k by simp
    have "8 * m = ?C * (8 * m div ?C) + ?A" "8 * n = ?C * (8 * n div ?C) + ?B" by (rule mult_div_mod_eq [symmetric])+
    then have "8 * (m + n) = ?C * (8 * m div ?C + 8 * n div ?C) + (?A + ?B)" unfolding distrib_left by linarith
    then have total: "8 * (m + n) div ?C = 8 * m div ?C + 8 * n div ?C + (?A + ?B) div ?C"
      by (metis div_mult_self2 add.commute zero_neq_numeral power_not_zero)
    have lt: "word_of_nat (8 * (m + n)) < (push_bit 3 (word_of_nat n) :: 'w word) \<longleftrightarrow> (?A + ?B) mod ?C < ?B"
      unfolding p word_less_nat_alt u by (simp only: distrib_left mod_add_eq)
    have d: "(drop_bit 29 (word_of_nat n) :: 'w word) = word_of_nat (8 * n div ?C)"
    proof -
      have "unat (drop_bit 29 (word_of_nat n) :: 'w word) = n div 2 ^ 29"
        unfolding unat_drop_bit_eq u using True by (simp add: drop_bit_eq_div)
      then have "(drop_bit 29 (word_of_nat n) :: 'w word) = word_of_nat (n div 2 ^ 29)" by (metis word_of_int_uint uint_nat of_int_of_nat_eq)
      then show ?thesis unfolding high .
    qed
    have c: "(?A + ?B) mod ?C < ?B \<longleftrightarrow> (?A + ?B) div ?C = 1" "(?A + ?B) div ?C \<in> {0, 1}"
      using count_carry [of ?A ?C ?B] by simp_all
    have "(if (?A + ?B) mod ?C < ?B then word_of_nat (8 * m div ?C) + 1 else word_of_nat (8 * m div ?C)) =
        (word_of_nat (8 * m div ?C + (?A + ?B) div ?C) :: 'w word)"
      using c by (auto simp del: of_nat_mult)
    then have "(if word_of_nat (8 * (m + n)) < (push_bit 3 (word_of_nat n) :: 'w word) then word_of_nat (8 * m div ?C) + 1
        else word_of_nat (8 * m div ?C)) = (word_of_nat (8 * m div ?C + (?A + ?B) div ?C) :: 'w word)" by (subst lt)
    moreover have "(word_of_nat (8 * (m + n) div ?C) :: 'w word) =
        word_of_nat (8 * m div ?C + (?A + ?B) div ?C) + word_of_nat (8 * n div ?C)"
      unfolding total of_nat_add by (simp only: ac_simps)
    ultimately show ?thesis unfolding high d by (simp only:)
  next
    case False
    then have n: "32 \<le> LENGTH('w)" "m + n < 2 ^ 28" using assms by (auto simp: countable_def)
    have "\<not> word_of_nat (8 * (m + n)) < (word_of_nat (8 * n) :: 'w word)"
      using n word_small [OF _ n(1), of "8 * n"] word_small [OF _ n(1), of "8 * (m + n)"]
      by (simp add: word_less_nat_alt del: of_nat_mult of_nat_add)
    moreover have "unat (drop_bit 29 (word_of_nat n :: 'w word)) = 0"
      unfolding unat_drop_bit_eq using word_small [OF _ n(1), of n] n(2) by (simp add: drop_bit_eq_div)
    then have "drop_bit 29 (word_of_nat n :: 'w word) = 0" by (simp add: unat_eq_0)
    moreover have "m div 2 ^ 29 = 0" "(m + n) div 2 ^ 29 = 0" using n(2) by simp_all
    ultimately show ?thesis unfolding p by simp
  qed
qed

lemma store_length: "i + length bytes \<le> length buf \<Longrightarrow> length (md5_store buf i bytes) = length buf"
  by (simp add: md5_store_def)

lemma store_front: "length bytes \<le> length buf \<Longrightarrow>
    length (md5_store buf 0 bytes) = length buf \<and> take (length bytes) (md5_store buf 0 bytes) = bytes"
  by (simp add: md5_store_def)

lemma div_mod_total: "l = 64 * q + r \<Longrightarrow> l div 64 = q + r div 64 \<and> l mod 64 = r mod (64 :: nat)"
  by simp

lemma drop_past: "n = length xs + m \<Longrightarrow> drop n (xs @ ys) = drop m ys"
  by simp

lemma past_blocks: "r < 64 \<Longrightarrow> 64 * q + r = l \<Longrightarrow> 64 * (q + 1 + k) = l + (64 - r + 64 * (k :: nat))"
  by simp

lemma update_done:
  fixes m :: "'w::len word tiny_md5"
  assumes "md5_done st0 m bs" and "countable TYPE('w) (length bs) (length input)"
  shows "md5_done st0 (TinyMD5_Update m input) (bs @ input)"
proof -
  let ?q = "length bs div 64" and ?r = "length bs mod 64" and ?n = "length input"
  have r: "?r < 64" "64 * ?q + ?r = length bs" by simp_all
  have w: "32 \<le> LENGTH('w)" using assms(2) by (auto simp: countable_def)
  have d: "md5_count0 m = word_of_nat (8 * length bs)" "md5_count1 m = word_of_nat (length bs div 2 ^ 29)" "length (md5_buffer m) = 64"
      "md5_state m = fold (\<lambda>b st. TinyMD5_Transform st b) (chunks ?q bs) st0" "take ?r (md5_buffer m) = drop (64 * ?q) bs"
    using assms(1) by (simp_all add: md5_done_def)
  have ix: "unat (drop_bit 3 (md5_count0 m) AND 0x3F) = ?r"
    unfolding d(1) by (rule count_index [OF w])
  have c: "word_of_nat (8 * length bs) + push_bit 3 (word_of_nat ?n) = (word_of_nat (8 * (length bs + ?n)) :: 'w word)"
    by (simp add: push_bit_eq_mult)
  define m1 where "m1 = m\<lparr>md5_count0 := word_of_nat (8 * (length bs + ?n)), md5_count1 := word_of_nat ((length bs + ?n) div 2 ^ 29)\<rparr>"
  have m1: "md5_count0 m1 = word_of_nat (8 * (length bs + ?n))" "md5_count1 m1 = word_of_nat ((length bs + ?n) div 2 ^ 29)" "md5_buffer m1 = md5_buffer m"
      "md5_state m1 = md5_state m" by (simp_all add: m1_def)
  have upd: "TinyMD5_Update m input = (if 64 - ?r \<le> ?n
      then let buf = md5_store (md5_buffer m) ?r (take (64 - ?r) input)
           in (case md5_blocks (TinyMD5_Transform (md5_state m) buf) input (64 - ?r) of
                 (st, i) \<Rightarrow> m1\<lparr>md5_state := st, md5_buffer := md5_store buf 0 (drop i input)\<rparr>)
      else m1\<lparr>md5_buffer := md5_store (md5_buffer m) ?r input\<rparr>)"
    unfolding TinyMD5_Update_def Let_def ix unfolding d(1,2) c count_high [OF assms(2)] m1_def by simp
  show ?thesis
  proof (cases "64 - ?r \<le> ?n")
    case False
    then have n: "?r + ?n < 64" by simp
    have q: "(length bs + ?n) div 64 = ?q" "(length bs + ?n) mod 64 = ?r + ?n"
      using div_mod_total [of "length bs + ?n" ?q "?r + ?n"] n r(2) by simp_all
    have buf: "take (?r + ?n) (md5_store (md5_buffer m) ?r input) = drop (64 * ?q) (bs @ input)"
      using d(3,5) r n by (simp add: md5_store_def minus_mult_div_eq_mod)
    have "chunks ?q (bs @ input) = chunks ?q bs" using r by (intro chunks_append) simp
    then show ?thesis
      using False d(3,4) buf n store_length [of ?r input "md5_buffer m"] by (simp add: md5_done_def upd q m1)
  next
    case True
    let ?p = "64 - ?r" and ?k = "(?n - (64 - ?r)) div 64"
    let ?buf = "md5_store (md5_buffer m) ?r (take ?p input)"
    have len: "length ?buf = 64" using True r d(3) by (subst store_length) simp_all
    have whole: "?buf = drop (64 * ?q) bs @ take ?p input"
      using True r(1) d(3,5) by (simp add: md5_store_def)
    have e64: "64 + 64 * ?q - length bs = 64 - ?r" using r by linarith
    have first: "?buf = take 64 (drop (64 * ?q) (bs @ input))"
      unfolding whole using r e64 by (simp add: min_def)
    have rest: "drop ?p input = drop (64 * (?q + 1)) (bs @ input)" using r e64 by simp
    have total: "length bs + ?n = 64 * (?q + 1) + (?n - ?p)" using True r by simp
    have q: "(length bs + ?n) div 64 = ?q + 1 + ?k" "(length bs + ?n) mod 64 = (?n - ?p) mod 64"
      using div_mod_total [OF total] by simp_all
    let ?rest = "drop (?p + 64 * ?k) input"
      and ?st = "fold (\<lambda>b st. TinyMD5_Transform st b) (chunks ?k (drop ?p input)) (TinyMD5_Transform (md5_state m) ?buf)"
    have ch: "chunks (?q + 1 + ?k) (bs @ input) = (chunks ?q bs @ [?buf]) @ chunks ?k (drop ?p input)"
      unfolding chunks_add [of "?q + 1" ?k] chunks_add [of ?q 1] rest first using r by (simp add: chunks_append)
    have "md5_blocks (TinyMD5_Transform (md5_state m) ?buf) input ?p = (?st, ?p + 64 * ?k)"
      using True by (intro blocks_chunks) simp_all
    then have eq: "TinyMD5_Update m input = m1\<lparr>md5_state := ?st, md5_buffer := md5_store ?buf 0 ?rest\<rparr>"
      unfolding upd Let_def if_P [OF True] by (simp only: prod.case)
    have left: "drop (64 * (?q + 1 + ?k)) (bs @ input) = ?rest"
      by (rule drop_past, rule past_blocks [OF r])
    have R: "length ?rest = (?n - ?p) mod 64"
      unfolding length_drop diff_diff_left [symmetric] by (rule minus_mult_div_eq_mod)
    then have "length ?rest \<le> length ?buf" unfolding R len by simp
    note front = store_front [OF this, unfolded R len]
    have "?st = fold (\<lambda>b st. TinyMD5_Transform st b) ((chunks ?q bs @ [?buf]) @ chunks ?k (drop ?p input)) st0"
      unfolding d(4) by simp
    then show ?thesis
      unfolding md5_done_def eq length_append q left ch using front m1 by simp
  qed
qed

lemma init_done:
  "length (md5_buffer raw) = 64 \<Longrightarrow> md5_done (0x67452301, 0xefcdab89, 0x98badcfe, 0x10325476) (TinyMD5_Init raw) []"
  by (simp add: md5_done_def TinyMD5_Init_def)

lemma encode_le: "encode_word (w :: 'w::len word) = le_bytes 4 (uint w)" if "8 \<le> LENGTH('w)"
proof -
  have m: "(0xff :: 'w word) = mask 8" by (simp add: mask_eq_exp_minus_1)
  have b: "ucast (drop_bit k w AND 0xff) = (word_of_int (uint w div 2 ^ k) :: 8 word)" for k
  proof -
    have "ucast (drop_bit k w AND 0xff) = (word_of_int (uint (take_bit 8 (drop_bit k w))) :: 8 word)"
      unfolding m take_bit_eq_mask [symmetric] by simp
    also have "uint (take_bit 8 (drop_bit k w)) = take_bit 8 (uint w div 2 ^ k)"
      by (simp only: unsigned_take_bit_eq unsigned_drop_bit_eq)
        (simp add: drop_bit_eq_div take_bit_int_eq_self)
    also have "word_of_int (take_bit 8 (uint w div 2 ^ k)) = (word_of_int (uint w div 2 ^ k) :: 8 word)"
      by (simp add: word_of_int_eq_iff)
    finally show ?thesis .
  qed
  have four: "[0..<4] = [0, 1, 2, 3 :: nat]" by (simp add: upt_rec)
  have z: "drop_bit 0 w = w" by simp
  show ?thesis
    using b [of 0] b [of 8] b [of 16] b [of 24] unfolding encode_word_def le_bytes_def four z by simp
qed

lemma le_bytes_low: "le_bytes 4 (k mod 2 ^ 32) = le_bytes 4 k"
proof (unfold le_bytes_def, rule map_cong [OF refl])
  fix i :: nat
  assume "i \<in> set [0..<4]"
  then have i: "8 * i + 8 \<le> 32" by auto
  have e: "(256 :: int) ^ i = 2 ^ (8 * i)" by (simp add: power_mult)
  have "take_bit 8 (drop_bit (8 * i) (take_bit 32 k)) = take_bit 8 (drop_bit (8 * i) k)"
    using i by (intro bit_eqI) (auto simp: bit_simps)
  then show "word_of_int (k mod 2 ^ 32 div 256 ^ i) = (word_of_int (k div 256 ^ i) :: 8 word)"
    by (simp add: word_of_int_eq_iff e take_bit_eq_mod drop_bit_eq_div)
qed

lemma le_bytes_split: "le_bytes 8 k = le_bytes 4 k @ le_bytes 4 (k div 2 ^ 32)"
proof -
  have "[0..<8] = [0..<4] @ map (\<lambda>i. i + 4) [0..<4::nat]" by (simp add: upt_rec)
  moreover have "k div 256 ^ (i + 4) = k div 2 ^ 32 div 256 ^ i" for i :: nat
  proof -
    have "(256 :: int) ^ (i + 4) = 2 ^ 32 * 256 ^ i" by (simp add: power_add)
    then show ?thesis by (simp only: zdiv_zmult2_eq [of "256 ^ i"] zero_le_power zero_le_numeral)
  qed
  ultimately show ?thesis by (simp add: le_bytes_def comp_def)
qed

lemma length_bits:
  assumes "countable TYPE('w) n 0"
  shows "TinyMD5_Encode [word_of_nat (8 * n) :: 'w::len word, word_of_nat (n div 2 ^ 29)] = le_bytes 8 (8 * int n)"
proof -
  have w: "8 \<le> LENGTH('w)" "32 \<le> LENGTH('w)" using assms by (auto simp: countable_def)
  have u: "le_bytes 4 (uint (word_of_nat k :: 'w word)) = le_bytes 4 (int k)" for k
  proof -
    have "uint (word_of_nat k :: 'w word) mod 2 ^ 32 = int k mod 2 ^ 32"
    proof -
      have "uint (word_of_nat k :: 'w word) = take_bit LENGTH('w) (int k)" by (simp add: unsigned_of_nat of_nat_take_bit)
      then show ?thesis using w(2) by (simp only: take_bit_eq_mod [symmetric] take_bit_take_bit min_def if_True)
    qed
    then show ?thesis using le_bytes_low [of "uint (word_of_nat k :: 'w word)"] le_bytes_low [of "int k"] by simp
  qed
  have d: "8 * int n div 2 ^ 32 = int (n div 2 ^ 29)" by (simp add: zdiv_int)
  have e: "int (8 * n) = 8 * int n" by simp
  show ?thesis
    unfolding le_bytes_split d by (simp add: TinyMD5_Encode_def encode_le [OF w(1)] u e del: of_nat_mult of_nat_numeral)
qed

definition md5_padding :: "nat \<Rightarrow> nat" where
  "md5_padding n = (if n mod 64 < 56 then 56 - n mod 64 else 120 - n mod 64)"

lemma padding_total: "n + md5_padding n = 64 * (n div 64) + (if n mod 64 < 56 then 56 else 120)"
proof -
  obtain q r where "n = 64 * q + r" "r < 64" by (metis div_mult_mod_eq mod_less_divisor mult.commute zero_less_numeral)
  then show ?thesis by (simp add: md5_padding_def)
qed

lemma padding_ok: "0 < md5_padding n \<and> md5_padding n \<le> 64 \<and> (n + md5_padding n) mod 64 = 56"
proof -
  have "n mod 64 < 64" by simp
  then have "0 < md5_padding n" "md5_padding n \<le> 64" unfolding md5_padding_def by (auto split: if_split)
  then show ?thesis using div_mod_total [OF padding_total [of n]] by (simp split: if_splits)
qed

lemma rest_mod: "r < 64 \<Longrightarrow> (119 - r) mod 64 = (if r < 56 then 56 - r else 120 - r) - (1 :: nat)"
proof (cases "r < 56")
  case True
  then have "119 - r = (55 - r) + 64" by simp
  then have "(119 - r) mod 64 = (55 - r) mod 64" by (simp only: mod_add_self2)
  then show ?thesis using True by simp
qed simp

lemma padding_text: "msg @ take (md5_padding (length msg)) PADDING @ le_bytes 8 (8 * int (length msg)) = md5_pad msg"
proof -
  let ?n = "length msg"
  have "(119 - ?n mod 64) mod 64 = md5_padding ?n - 1" unfolding md5_padding_def by (rule rest_mod) simp
  moreover have "take (md5_padding ?n) PADDING = 0x80 # replicate (md5_padding ?n - 1) 0"
    using padding_ok [of ?n] by (cases "md5_padding ?n") (auto simp: PADDING_def min_def)
  ultimately show ?thesis by (simp add: md5_pad_def)
qed

lemma pad_length: "length (md5_pad msg) mod 64 = 0"
proof -
  have "length (md5_pad msg) = length msg + md5_padding (length msg) + 8"
    using padding_ok [of "length msg"] by (simp add: padding_text [symmetric] le_bytes_def PADDING_def)
  moreover have "(length msg + md5_padding (length msg) + 8) mod 64 = 0"
    unfolding padding_total by (simp split: if_split)
  ultimately show ?thesis by simp
qed

lemma final_digest:
  fixes m :: "'w::len word tiny_md5"
  assumes "md5_done st0 m msg" and "countable TYPE('w) (length msg) 128"
  shows "TinyMD5_Final m = (case fold (\<lambda>b st. TinyMD5_Transform st b) (chunks (length (md5_pad msg) div 64) (md5_pad msg)) st0 of
    (a, b, c, d) \<Rightarrow> TinyMD5_Encode [a, b, c, d])"
proof -
  let ?n = "length msg"
  have w: "32 \<le> LENGTH('w)" using assms(2) by (auto simp: countable_def)
  have c: "md5_count0 m = word_of_nat (8 * ?n)" "md5_count1 m = word_of_nat (?n div 2 ^ 29)" using assms(1) by (simp_all add: md5_done_def)
  have ix: "unat (drop_bit 3 (md5_count0 m) AND 0x3f) = ?n mod 64"
    unfolding c(1) by (rule count_index [OF w])
  have bits: "TinyMD5_Encode [md5_count0 m, md5_count1 m] = le_bytes 8 (8 * int ?n)"
    unfolding c using assms(2) by (intro length_bits) (auto simp: countable_def)
  have p: "length (take (md5_padding ?n) PADDING) \<le> 64" "length (le_bytes 8 (8 * int ?n)) = 8"
    by (simp_all add: PADDING_def le_bytes_def)
  have "md5_done st0 (TinyMD5_Update m (take (md5_padding ?n) PADDING)) (msg @ take (md5_padding ?n) PADDING)"
    using assms(2) p by (intro update_done [OF assms(1)]) (auto simp: countable_def)
  from update_done [OF this, of "le_bytes 8 (8 * int ?n)"]
  have "md5_done st0 (TinyMD5_Update (TinyMD5_Update m (take (md5_padding ?n) PADDING)) (le_bytes 8 (8 * int ?n)))
      ((msg @ take (md5_padding ?n) PADDING) @ le_bytes 8 (8 * int ?n))"
    using assms(2) p by (auto simp: countable_def)
  then show ?thesis
    by (simp add: TinyMD5_Final_def Let_def ix bits md5_padding_def [symmetric] padding_text md5_done_def)
qed

lemma fold_chunks:
  assumes "\<And>b st. length b = 64 \<Longrightarrow> f b st = g b st" and "64 * n \<le> length bs"
  shows "fold f (chunks n bs) st = fold g (chunks n bs) st"
  using chunks_whole [OF assms(2)] by (intro fold_cong refl) (auto intro: assms(1))

lemma fold_done:
  fixes m :: "(32 word) tiny_md5"
  assumes "md5_done st0 m bs" and "list_all (\<lambda>p. length p < 2 ^ 32 - 64) ps"
  shows "md5_done st0 (fold (\<lambda>p m. TinyMD5_Update m p) ps m) (bs @ concat ps)"
  using assms
proof (induction ps arbitrary: m bs)
  case (Cons p ps)
  then have "md5_done st0 (TinyMD5_Update m p) (bs @ p)" by (intro update_done) (simp_all add: countable_def)
  then show ?case using Cons.IH [of "TinyMD5_Update m p" "bs @ p"] Cons.prems(2) by simp
qed simp

text \<open>The digest of a message that is given in pieces.\<close>

lemma md5_of_pieces:
  fixes raw :: "(32 word) tiny_md5"
  assumes "length (md5_buffer raw) = 64" and "list_all (\<lambda>p. length p < 2 ^ 32 - 64) ps"
  shows "TinyMD5_Final (fold (\<lambda>p m. TinyMD5_Update m p) ps (TinyMD5_Init raw)) = md5 (concat ps)"
proof -
  have "md5_done (0x67452301, 0xefcdab89, 0x98badcfe, 0x10325476) (fold (\<lambda>p m. TinyMD5_Update m p) ps (TinyMD5_Init raw)) (concat ps)"
    using fold_done [OF init_done [OF assms(1)] assms(2)] by simp
  moreover have "fold (\<lambda>b st. TinyMD5_Transform st b) (chunks (length (md5_pad (concat ps)) div 64) (md5_pad (concat ps))) st0 =
      fold md5_compress (chunks (length (md5_pad (concat ps)) div 64) (md5_pad (concat ps))) st0" for st0
    by (rule fold_chunks) (simp_all add: transform_32)
  ultimately show ?thesis
    using final_digest [of _ "fold (\<lambda>p m. TinyMD5_Update m p) ps (TinyMD5_Init raw)" "concat ps"]
    by (simp add: md5_def TinyMD5_Encode_def encode_le countable_def split: prod.splits)
qed

lemma md5_at_32:
  fixes raw :: "(32 word) tiny_md5"
  assumes "length (md5_buffer raw) = 64" and "length src < 2 ^ 32 - 64"
  shows "md5_encode_with raw src = TinyMD5_Result (md5 (map of_char src))"
  using md5_of_pieces [OF assms(1), of "[map of_char src]"] assms(2) by (simp add: md5_encode_with_def)

subsection \<open>The digest\<close>

lemma md5_any_stack:
  fixes raw :: "'w::len word tiny_md5"
  assumes "length (md5_buffer raw) = 64" and "length src < 2 ^ 27" and "32 \<le> LENGTH('w)"
  shows "md5_encode_with raw src = (let p = md5_pad (map of_char src) in
    case fold (\<lambda>b st. TinyMD5_Transform st b) (chunks (length p div 64) p)
        (0x67452301 :: 'w word, 0xefcdab89, 0x98badcfe, 0x10325476) of (a, b, c, d) \<Rightarrow> TinyMD5_Result (TinyMD5_Encode [a, b, c, d]))"
proof -
  have "md5_done (0x67452301, 0xefcdab89, 0x98badcfe, 0x10325476) (TinyMD5_Update (TinyMD5_Init raw) (map of_char src)) (map of_char src)"
    using update_done [OF init_done [OF assms(1)], of "map of_char src"] assms(2,3) by (simp add: countable_def)
  then show ?thesis
    unfolding md5_encode_with_def Let_def using assms(2,3) by (subst final_digest) (auto simp: countable_def split: prod.split)
qed

lemma evaluate_line: "e = v \<Longrightarrow> uint v = k \<Longrightarrow> C (word_of_int k) = r \<Longrightarrow> Let e C = r"
  by auto

lemmas calculate = FF_def GG_def HH_def II_def md5_XX_def md5_F_def md5_G_def md5_H_def md5_I_def ROTATE_LEFT_def S_defs

lemma empty_pad: "md5_pad [] = 0x80 # replicate 63 0"
proof -
  have "le_bytes 8 0 = replicate 8 0" unfolding le_bytes_def div_0 by (simp only: map_replicate_const length_upt) simp
  then show ?thesis by (simp add: md5_pad_def replicate_add [symmetric])
qed

lemma decode_zeros: "TinyMD5_Decode (replicate (4 * n) 0) n = replicate n (0 :: 'w::len word)"
proof (induction n)
  case (Suc n)
  have "replicate (4 * Suc n) (0 :: 8 word) = [0, 0, 0, 0] @ replicate (4 * n) 0" by (simp add: numeral_eq_Suc)
  then show ?case using Suc by (simp add: decode_word_def)
qed simp

lemma decode_Cons: "decode_word (x # xs) = (w :: 'w::len word) \<Longrightarrow> drop 4 (x # xs) = replicate (4 * n) 0 \<Longrightarrow>
    TinyMD5_Decode (x # xs) (Suc n) = w # replicate n 0"
  by (simp add: decode_zeros)

lemma decode_empty: "TinyMD5_Decode (0x80 # replicate 63 0) 16 = 0x80 # replicate 15 (0 :: 'w::len word)"
proof -
  have "decode_word (0x80 # replicate 63 0) = (0x80 :: 'w word)" by (simp add: decode_word_def)
  moreover have "drop 4 (0x80 # replicate 63 (0 :: 8 word)) = replicate (4 * 15) 0" by simp
  ultimately have "TinyMD5_Decode (0x80 # replicate 63 0) (Suc 15) = 0x80 # replicate 15 (0 :: 'w word)" by (rule decode_Cons)
  moreover have "Suc 15 = 16" by simp
  ultimately show ?thesis by (simp only:)
qed

lemma lines_64:
  "md5_lines (0x80 # replicate 15 0) (0x67452301, 0xefcdab89, 0x98badcfe, 0x10325476 :: 64 word) =
    (8863795446308577251, 4224312351078579556, 12192877750745007488, 14788787346903034911)"
proof -
  have x: "0x80 # replicate 15 (0 :: 64 word) = [0x80, 0, 0, 0, 0, 0, 0, 0, 0, 0, 0, 0, 0, 0, 0, 0]" by (simp add: numeral_eq_Suc)
  show ?thesis
    unfolding md5_lines_def prod.case x by ((rule evaluate_line, simp add: calculate, simp)+, simp)
qed

lemma lines_32:
  "md5_lines (0x80 # replicate 15 0) (0x67452301, 0xefcdab89, 0x98badcfe, 0x10325476 :: 32 word) =
    (1917254355, 350508294, 4283343851, 1846584438)"
proof -
  have x: "0x80 # replicate 15 (0 :: 32 word) = [0x80, 0, 0, 0, 0, 0, 0, 0, 0, 0, 0, 0, 0, 0, 0, 0]" by (simp add: numeral_eq_Suc)
  show ?thesis
    unfolding md5_lines_def prod.case x by ((rule evaluate_line, simp add: calculate, simp)+, simp)
qed

lemma empty_digest:
  fixes raw :: "'w::len word tiny_md5"
  assumes "length (md5_buffer raw) = 64" and "32 \<le> LENGTH('w)"
    and "md5_lines (0x80 # replicate 15 0) (0x67452301, 0xefcdab89, 0x98badcfe, 0x10325476 :: 'w word) = (a, b, c, d)"
  shows "md5_encode_with raw [] = TinyMD5_Result (TinyMD5_Encode [0x67452301 + a, 0xefcdab89 + b, 0x98badcfe + c, 0x10325476 + d])"
proof -
  have len: "length (md5_pad []) div 64 = Suc 0" by (simp add: empty_pad)
  have "take 64 (0x80 # replicate 63 0) = 0x80 # replicate 63 (0 :: 8 word)" by simp
  then show ?thesis
    using md5_any_stack [OF assms(1), of "[]"] assms(2,3) len
    by (simp add: empty_pad TinyMD5_Transform_def decode_empty chain_add_def del: take_Cons_numeral)
qed

text \<open>
  C28. On a machine whose \<open>unsigned long\<close> has 32 bits the code computes the digest of RFC 1321, whatever its
  context on the stack holds: of a text, and of a message of any length that is taken in by any number of
  calls of \<open>TinyMD5_Update\<close>. One call is given fewer than \<open>2 ^ 32 - 64\<close> bytes, behind which its 32 bit counter would
  wrap around; the count of bits runs through both of its words.
\<close>

theorem md5_is_rfc1321:
  fixes raw :: "(32 word) tiny_md5"
  assumes "length (md5_buffer raw) = 64" and "length src < 2 ^ 32 - 64" and "list_all (\<lambda>p. length p < 2 ^ 32 - 64) ps"
  shows "md5_encode_with raw src = TinyMD5_Result (md5 (map of_char src))
    \<and> TinyMD5_Final (fold (\<lambda>p m. TinyMD5_Update m p) ps (TinyMD5_Init raw)) = md5 (concat ps)"
  using md5_at_32 [OF assms(1,2)] md5_of_pieces [OF assms(1,3)] by simp

definition zero_context :: "'u::zero tiny_md5" where
  "zero_context = \<lparr>md5_state = (0, 0, 0, 0), md5_count0 = 0, md5_count1 = 0, md5_buffer = replicate 64 0\<rparr>"

theorem md5_is_rfc1321_witness:
  "md5_encode_with (zero_context :: (32 word) tiny_md5) ''urn:switch'' = TinyMD5_Result (md5 (map of_char ''urn:switch''))
    \<and> TinyMD5_Final (fold (\<lambda>p m. TinyMD5_Update m p) [map of_char ''urn:'', map of_char ''switch''] (TinyMD5_Init (zero_context :: (32 word) tiny_md5)))
      = md5 (concat [map of_char ''urn:'', map of_char ''switch''])"
  by (rule md5_is_rfc1321) (simp_all add: zero_context_def)

text \<open>
  C29. With an \<open>unsigned long\<close> of 64 bits the rotation keeps the bits it should drop, and the digest is another one:
  that of the empty text is not the one the RFC lists.
\<close>

theorem md5_not_rfc1321:
  "tiny_md5_encode [] = ''e4c23762ed2823a27e62a64b95c024e7'' \<and> TinyMD5_Result (md5 []) = ''d41d8cd98f00b204e9800998ecf8427e''"
proof
  show "tiny_md5_encode [] = ''e4c23762ed2823a27e62a64b95c024e7''"
    unfolding tiny_md5_encode_def
    by (subst empty_digest [OF _ _ lines_64])
      (simp_all add: TinyMD5_Result_def TinyMD5_Encode_def encode_word_def hex_byte_def xdigit_char_def char_of_def bit_0)
  have "TinyMD5_Result (md5 []) = md5_encode_with (zero_context :: (32 word) tiny_md5) []"
    using md5_at_32 [of zero_context "[]"] by (simp add: zero_context_def)
  also have "\<dots> = ''d41d8cd98f00b204e9800998ecf8427e''"
    unfolding zero_context_def
    by (subst empty_digest [OF _ _ lines_32])
      (simp_all add: TinyMD5_Result_def TinyMD5_Encode_def encode_word_def hex_byte_def xdigit_char_def char_of_def bit_0)
  finally show "TinyMD5_Result (md5 []) = ''d41d8cd98f00b204e9800998ecf8427e''" .
qed

text \<open>The digest of any text: 32 hexadecimal digits.\<close>

lemma md5_text: "length (tiny_md5_encode s) = 32 \<and> (\<forall>c \<in> set (tiny_md5_encode s). isxdigit c)"
proof -
  have "length (hex_byte b) = 2 \<and> (\<forall>c \<in> set (hex_byte b). isxdigit c)" for b
  proof -
    have "unat b < 2 ^ LENGTH(8)" by (rule unsigned_less)
    then have "unat b div 16 < 16" by simp
    then show ?thesis by (simp add: hex_byte_def)
  qed
  then show ?thesis
    by (auto simp: tiny_md5_encode_def md5_encode_with_def TinyMD5_Final_def Let_def TinyMD5_Result_def TinyMD5_Encode_def
        encode_word_def split: prod.split)
qed

end
