(* ===== verification/GenaClient.thy ===== *)
theory GenaClient
  imports UpnpHttp NetUtil Md5
begin

section \<open>The control point's side: \<open>UpnpSubscription.c\<close>, \<open>UpnpHttpClient.c\<close>, \<open>UpnpGenaClient.c\<close>\<close>

text \<open>
  A control point subscribes to a service: it makes a subscription, asks the host with a SUBSCRIBE
  request and gets the events of the service as NOTIFY requests to the subscription's callback. The same
  HTTP client carries the NOTIFY requests of a host and the calls of actions. Services and devices are
  those of \<open>UpnpModel\<close>, by address in their store; messages are taken to be allocated, and what is
  printed is not modelled. \<open>'l\<close> stands for the listener of a subscription with its context.
\<close>

subsection \<open>UpnpSubscription\<close>

record 'l subscription =
  us_service :: "addr option"
  us_listener :: "'l option"
  us_port :: "16 word"
  us_timeout :: "32 word"
  us_sid :: string
  us_callback :: string
  us_full :: string

definition UpnpSubscription_Construct :: "addr option \<Rightarrow> 16 word \<Rightarrow> 32 word \<Rightarrow> 'l option \<Rightarrow> tiny_ret \<times> 'l subscription" where
  "UpnpSubscription_Construct service p timeout l = (TINY_RET_OK,
     \<lparr>us_service = service, us_listener = l, us_port = p, us_timeout = timeout, us_sid = [], us_callback = [], us_full = []\<rparr>)"

definition UpnpSubscription_New :: "bool \<Rightarrow> addr option \<Rightarrow> 16 word \<Rightarrow> 32 word \<Rightarrow> 'l option \<Rightarrow> 'l subscription option" where
  "UpnpSubscription_New malloc_ok service p timeout l =
     (if malloc_ok then Some (snd (UpnpSubscription_Construct service p timeout l)) else None)"

definition UpnpSubscription_Dispose :: "'l subscription \<Rightarrow> 'l subscription" where
  "UpnpSubscription_Dispose s = s\<lparr>us_service := None, us_port := 0, us_timeout := 0, us_listener := None\<rparr>"

text \<open>The service of a subscription and its device.\<close>

definition subscribed :: "'f ustore \<Rightarrow> 'l subscription \<Rightarrow> ('f upnp_service \<times> upnp_device) option" where
  "subscribed u s = do {
     sa \<leftarrow> us_service s;
     svc \<leftarrow> srv_at u sa;
     da \<leftarrow> UpnpService_GetParentDevice svc;
     d \<leftarrow> dev_at u da;
     Some (svc, d) }"

definition UpnpSubscription_GetCallBackUri :: "'f ustore \<Rightarrow> 'l subscription \<Rightarrow> (string \<times> 'l subscription) option" where
  "UpnpSubscription_GetCallBackUri u s =
     (if length (us_callback s) = 0 then do {
        (svc, d) \<leftarrow> subscribed u s;
        i \<leftarrow> UpnpDevice_GetDeviceId d;
        n \<leftarrow> UpnpService_GetServiceId svc;
        let uri = field_printf TINY_URL_LEN (''/upnp/callback/'' @ i @ ''/'' @ tiny_md5_encode n);
        Some (uri, s\<lparr>us_callback := uri\<rparr>) }
      else Some (us_callback s, s))"

text \<open>\<open>ifs\<close> are the interfaces of the machine; without one in the device's network the text stays empty.\<close>

definition UpnpSubscription_GetFullCallBack ::
    "(string \<times> (32 word) option) list option \<Rightarrow> 'f ustore \<Rightarrow> 'l subscription \<Rightarrow> (string \<times> 'l subscription) option" where
  "UpnpSubscription_GetFullCallBack ifs u s =
     (if length (us_full s) = 0 then do {
        (svc, d) \<leftarrow> subscribed u s;
        a \<leftarrow> UpnpDevice_GetAddress d;
        n \<leftarrow> UpnpService_GetServiceId svc;
        (case upnp_net_get_ip ifs (Some a) TINY_IP_LEN of (ret, self) \<Rightarrow>
           if RET_FAILED ret then Some (us_full s, s)
           else do {
             self' \<leftarrow> read_field TINY_IP_LEN self;
             let full = field_printf TINY_URL_LEN (''<http://'' @ self' @ '':'' @ show_nat (unat (us_port s)) @ us_callback s @ ''>'');
             Some (full, s\<lparr>us_full := full\<rparr>) }) }
      else Some (us_full s, s))"

subsection \<open>The requests and responses of eventing\<close>

text \<open>\<open>EventRequest.c\<close>, \<open>ServiceSubRequest.c\<close>, \<open>ServiceUnsubRequest.c\<close> and the responses.\<close>

definition EVENT_DATA_LEN :: nat where "EVENT_DATA_LEN = 1024 * 4"

definition UpnpEventToRequest :: "upnp_event \<Rightarrow> http_message \<Rightarrow> (tiny_ret \<times> http_message) option" where
  "UpnpEventToRequest event request = do {
     (size, bytes) \<leftarrow> UpnpEvent_ToString event [] EVENT_DATA_LEN;
     if size = 0 then Some (TINY_RET_E_ARG_INVALID, request)
     else do {
       callback \<leftarrow> UpnpEvent_GetCallback event;
       nt \<leftarrow> UpnpEvent_GetNt event;
       nts \<leftarrow> UpnpEvent_GetNts event;
       sid \<leftarrow> UpnpEvent_GetSid event;
       seq \<leftarrow> UpnpEvent_GetSeq event;
       let n = word_of_nat size;
       (_, r1) \<leftarrow> HttpMessage_SetRequest [] request (Some ''NOTIFY'') (Some callback);
       let r2 = HttpMessage_SetHeader [] r1 (Some ''Content-Type'') (Some ''text/xml;charset=\"utf-8\"'');
       let r3 = HttpMessage_SetHeader [] r2 (Some ''nt'') (Some nt);
       let r4 = HttpMessage_SetHeader [] r3 (Some ''nts'') (Some nts);
       let r5 = HttpMessage_SetHeader [] r4 (Some ''sid'') (Some sid);
       let r6 = HttpMessage_SetHeader [] r5 (Some ''seq'') (Some seq);
       let r7 = HttpMessage_SetHeaderInteger [] r6 (Some ''Content-Length'') n;
       let r8 = snd (HttpMessage_SetContentSize True r7 n);
       (_, r9) \<leftarrow> HttpMessage_AddContentObject r8 (Some bytes) n;
       Some (TINY_RET_OK, r9) } }"

definition event_sub_url :: "'f ustore \<Rightarrow> 'l subscription \<Rightarrow> string option" where
  "event_sub_url u s = do {
     (svc, d) \<leftarrow> subscribed u s;
     urlbase \<leftarrow> UpnpDevice_GetURLBase d;
     eventSubUrl \<leftarrow> UpnpService_GetEventSubURL svc;
     Some (field_printf TINY_URL_LEN (urlbase @ eventSubUrl)) }"

definition ServiceSubToRequest ::
    "(string \<times> (32 word) option) list option \<Rightarrow> 'f ustore \<Rightarrow> 'l subscription \<Rightarrow> http_message
      \<Rightarrow> (tiny_ret \<times> 'l subscription \<times> http_message) option" where
  "ServiceSubToRequest ifs u s request = do {
     sub_url \<leftarrow> event_sub_url u s;
     (_, r1) \<leftarrow> HttpMessage_SetRequest [] request (Some ''SUBSCRIBE'') (Some sub_url);
     let r2 = HttpMessage_SetHeader [] r1 (Some ''User-Agent'') (Some UPNP_STACK_INFO);
     (full, s1) \<leftarrow> UpnpSubscription_GetFullCallBack ifs u s;
     let r3 = HttpMessage_SetHeader [] r2 (Some ''CALLBACK'') (Some full);
     let r4 = HttpMessage_SetHeader [] r3 (Some ''NT'') (Some ''upnp:event'');
     let r5 = HttpMessage_SetHeader [] r4 (Some ''TIMEOUT'') (Some ''Second-infinite'');
     Some (TINY_RET_OK, s1, r5) }"

definition ServiceSubFromResponse ::
    "'l subscription \<Rightarrow> http_message \<Rightarrow> (tiny_ret \<times> 'l subscription \<times> upnp_error) option" where
  "ServiceSubFromResponse s response = do {
     st \<leftarrow> HttpMessage_GetStatus response;
     let err = \<lparr>err_code = status_code response, err_description = field_cpy UPNP_ERR_DESCRIPTION_LEN st\<rparr>;
     if err_code err \<noteq> HTTP_STATUS_OK then Some (TINY_RET_E_UPNP_SUBSCRIBE_FAILED, s, err)
     else do {
       timeout \<leftarrow> HttpMessage_GetHeaderValue response (Some ''Timeout'');
       if timeout = None then Some (TINY_RET_E_UPNP_SUBSCRIBE_FAILED, s, err)
       else do {
         (ret, second) \<leftarrow> upnp_timeout_get_second timeout;
         if RET_FAILED ret then Some (TINY_RET_E_UPNP_SUBSCRIBE_FAILED, s, err)
         else do {
           let s1 = s\<lparr>us_timeout := (case second of None \<Rightarrow> us_timeout s | Some n \<Rightarrow> n)\<rparr>;
           sid \<leftarrow> HttpMessage_GetHeaderValue response (Some ''SID'');
           (case sid of
              None \<Rightarrow> Some (TINY_RET_E_UPNP_SUBSCRIBE_FAILED, s1, err)
            | Some x \<Rightarrow> Some (TINY_RET_OK, s1\<lparr>us_sid := field_cpy UPNP_UUID_LEN x\<rparr>, err)) } } } }"

definition ServiceUnsubToRequest :: "'f ustore \<Rightarrow> 'l subscription \<Rightarrow> http_message \<Rightarrow> (tiny_ret \<times> http_message) option" where
  "ServiceUnsubToRequest u s request = do {
     sub_url \<leftarrow> event_sub_url u s;
     (_, r1) \<leftarrow> HttpMessage_SetRequest [] request (Some ''UNSUBSCRIBE'') (Some sub_url);
     let r2 = HttpMessage_SetHeader [] r1 (Some ''User-Agent'') (Some UPNP_STACK_INFO);
     sid \<leftarrow> read_field UPNP_UUID_LEN (us_sid s);
     Some (TINY_RET_OK, HttpMessage_SetHeader [] r2 (Some ''SID'') (Some sid)) }"

definition ServiceUnsubFromResponse :: "http_message \<Rightarrow> (tiny_ret \<times> upnp_error) option" where
  "ServiceUnsubFromResponse response = do {
     st \<leftarrow> HttpMessage_GetStatus response;
     let err = \<lparr>err_code = status_code response, err_description = field_cpy UPNP_ERR_DESCRIPTION_LEN st\<rparr>;
     Some (if err_code err \<noteq> HTTP_STATUS_OK then TINY_RET_E_UPNP_INVOKE_FAILED else TINY_RET_OK, err) }"

subsection \<open>UpnpHttpClient\<close>

text \<open>
  The client of the stack makes a new connection for every request. What the operating system
  answers to one request: to the connection, to the allocation of the text, to the parser's.
\<close>

record exchange =
  ex_conn :: connecting
  ex_bytes_ok :: bool
  ex_oks :: mallocs

definition UpnpHttpClient_Construct :: "bool \<Rightarrow> tiny_ret \<times> http_client option" where
  "UpnpHttpClient_Construct malloc_ok =
     (if malloc_ok then (TINY_RET_OK, Some (snd HttpClient_Construct)) else (TINY_RET_E_NEW, None))"

definition UpnpHttpClient_Dispose :: "http_client \<Rightarrow> http_client" where
  "UpnpHttpClient_Dispose c = snd (HttpClient_Dispose c)"

text \<open>The request is sent on a fresh connection and the response is read into a new message.\<close>

definition exchange_messages ::
    "exchange \<Rightarrow> http_client \<Rightarrow> http_message \<Rightarrow> (tiny_ret \<times> http_client \<times> http_message) option" where
  "exchange_messages x c request =
     HttpClient_Execute (ex_conn x) (ex_bytes_ok x) (ex_oks x) (snd (HttpClient_Shutdown c)) request (snd HttpMessage_Construct)"

definition UpnpHttpClient_Post ::
    "exchange \<Rightarrow> bool \<Rightarrow> bool \<Rightarrow> bool \<Rightarrow> char \<Rightarrow> (string \<Rightarrow> sax list \<times> bool) \<Rightarrow> bool \<Rightarrow> bool \<Rightarrow> txml option \<Rightarrow> 'f float_ops
      \<Rightarrow> http_client \<Rightarrow> 'f ustore \<Rightarrow> upnp_action \<Rightarrow> upnp_error \<Rightarrow> (tiny_ret \<times> http_client \<times> 'f ustore \<times> upnp_error) option" where
  "UpnpHttpClient_Post x msgs_ok new_ok malloc_ok past expat new_ok' parser_ok xml fl c u act err =
     (if \<not> msgs_ok then Some (TINY_RET_E_NEW, c, u, err)
      else do {
        (ret, request) \<leftarrow> ActionToRequest new_ok malloc_ok fl u act (snd HttpMessage_Construct);
        if RET_FAILED ret then Some (ret, c, u, err)
        else do {
          (ret1, c1, response) \<leftarrow> exchange_messages x c request;
          if RET_FAILED ret1 then Some (ret1, c1, u, err)
          else do {
            (ret2, u', err') \<leftarrow> ActionFromResponse past expat new_ok' parser_ok xml fl u act response;
            Some (ret2, c1, u', err') } } })"

definition UpnpHttpClient_Notify :: "exchange \<Rightarrow> http_client \<Rightarrow> upnp_event \<Rightarrow> (tiny_ret \<times> http_client) option" where
  "UpnpHttpClient_Notify x c event = do {
     (ret, request) \<leftarrow> UpnpEventToRequest event (snd HttpMessage_Construct);
     if RET_FAILED ret then Some (ret, c)
     else do {
       (ret1, c1, response) \<leftarrow> exchange_messages x c request;
       Some (if RET_FAILED ret1 then ret1
             else if status_code response \<noteq> HTTP_STATUS_OK then TINY_RET_E_UPNP_NOTIFY_FAILED else ret1, c1) } }"

definition UpnpHttpClient_Subscribe ::
    "exchange \<Rightarrow> (string \<times> (32 word) option) list option \<Rightarrow> 'f ustore \<Rightarrow> http_client \<Rightarrow> 'l subscription \<Rightarrow> upnp_error
      \<Rightarrow> (tiny_ret \<times> http_client \<times> 'l subscription \<times> upnp_error) option" where
  "UpnpHttpClient_Subscribe x ifs u c s err = do {
     (ret, s1, request) \<leftarrow> ServiceSubToRequest ifs u s (snd HttpMessage_Construct);
     if RET_FAILED ret then Some (ret, c, s1, err)
     else do {
       (ret1, c1, response) \<leftarrow> exchange_messages x c request;
       if RET_FAILED ret1 then Some (ret1, c1, s1, err)
       else if status_code response \<noteq> HTTP_STATUS_OK then Some (TINY_RET_E_UPNP_INVOKE_FAILED, c1, s1, err)
       else do {
         (ret2, s2, err2) \<leftarrow> ServiceSubFromResponse s1 response;
         Some (ret2, c1, s2, err2) } } }"

definition UpnpHttpClient_Unsubscribe ::
    "exchange \<Rightarrow> 'f ustore \<Rightarrow> http_client \<Rightarrow> 'l subscription \<Rightarrow> upnp_error \<Rightarrow> (tiny_ret \<times> http_client \<times> upnp_error) option" where
  "UpnpHttpClient_Unsubscribe x u c s err = do {
     (ret, request) \<leftarrow> ServiceUnsubToRequest u s (snd HttpMessage_Construct);
     if RET_FAILED ret then Some (ret, c, err)
     else do {
       (ret1, c1, response) \<leftarrow> exchange_messages x c request;
       if RET_FAILED ret1 then Some (ret1, c1, err)
       else if status_code response \<noteq> HTTP_STATUS_OK then Some (TINY_RET_E_UPNP_INVOKE_FAILED, c1, err)
       else do {
         (ret2, err2) \<leftarrow> ServiceUnsubFromResponse response;
         Some (ret2, c1, err2) } } }"

text \<open>\<open>UpnpActionInvoker.c\<close>; a missing error record is refused.\<close>

definition UpnpActionInvoker_Invoke ::
    "exchange \<Rightarrow> bool \<Rightarrow> bool \<Rightarrow> bool \<Rightarrow> char \<Rightarrow> (string \<Rightarrow> sax list \<times> bool) \<Rightarrow> bool \<Rightarrow> bool \<Rightarrow> txml option \<Rightarrow> 'f float_ops
      \<Rightarrow> 'a http_manager \<Rightarrow> 'f ustore \<Rightarrow> upnp_action option \<Rightarrow> upnp_error option
      \<Rightarrow> (tiny_ret \<times> 'a http_manager \<times> 'f ustore \<times> upnp_error option) option" where
  "UpnpActionInvoker_Invoke x msgs_ok new_ok malloc_ok past expat new_ok' parser_ok xml fl h u act err = (case (act, err) of
       (Some a, Some e) \<Rightarrow> map_option (\<lambda>(ret, c, u', e'). (ret, h\<lparr>hm_client := c\<rparr>, u', Some e'))
          (UpnpHttpClient_Post x msgs_ok new_ok malloc_ok past expat new_ok' parser_ok xml fl (hm_client h) u a e)
     | _ \<Rightarrow> Some (TINY_RET_E_ARG_NULL, h, u, err))"

subsection \<open>UpnpGenaClient\<close>

text \<open>
  The map from callbacks to subscriptions holds their addresses; \<open>gc_subs\<close> is their memory. The mutex
  of the client serialises its operations.
\<close>

record 'l gena_client =
  gc_map :: "addr tmap"
  gc_subs :: "addr \<Rightarrow> 'l subscription option"

definition free_subscription :: "'l gena_client \<Rightarrow> addr \<Rightarrow> 'l gena_client" where
  "free_subscription g a = g\<lparr>gc_subs := (gc_subs g)(a := None)\<rparr>"

text \<open>\<open>notify\<close> is the client's handler, which it registers at the server; \<open>mutex\<close> the result of its mutex.\<close>

definition UpnpGenaClient_Construct where
  "UpnpGenaClient_Construct mutex notify h =
     (let g = \<lparr>gc_map = TinyMap_SetDeleteListener (snd TinyMap_Construct) True, gc_subs = (\<lambda>_. None)\<rparr>
      in if RET_FAILED mutex then (mutex, g, h)
         else case UpnpHttpServer_RegisterNotifyHandler (hm_server h) (Some notify) of
           (ret, s) \<Rightarrow> (ret, g, h\<lparr>hm_server := s\<rparr>))"

definition UpnpGenaClient_Dispose where
  "UpnpGenaClient_Dispose g h =
     (g\<lparr>gc_map := snd (TinyMap_Dispose (gc_map g)), gc_subs := (\<lambda>_. None)\<rparr>,
      h\<lparr>hm_server := snd (UpnpHttpServer_UnregisterNotifyHandler (hm_server h))\<rparr>)"

text \<open>
  The replies, and the listener that is called with the event. An event that cannot be read is
  answered with OK too, one that cannot be allocated is not answered.
\<close>

definition notify_handler ::
    "(string \<Rightarrow> sax list \<times> bool) \<Rightarrow> bool \<Rightarrow> txml option \<Rightarrow> mallocs \<Rightarrow> 'l gena_client \<Rightarrow> string \<Rightarrow> string option \<Rightarrow> string option
      \<Rightarrow> string option \<Rightarrow> string option \<Rightarrow> string option \<Rightarrow> (conn_reply list \<times> ('l \<times> upnp_event) list) option" where
  "notify_handler expat parser_ok xml oks g uri nt nts sid seq body = (case TinyMap_GetValue (gc_map g) (Some uri) of
       None \<Rightarrow> Some ([SendError 404 ''NOT FOUND''], [])
     | Some a \<Rightarrow> (case UpnpEvent_New oks of
         None \<Rightarrow> Some ([], [])
       | Some e \<Rightarrow> do {
           (ret, e1) \<leftarrow> UpnpEvent_Parse expat parser_ok xml e nt nts sid seq body;
           if RET_FAILED ret then Some ([SendOk], [])
           else do {
             s \<leftarrow> gc_subs g a;
             l \<leftarrow> us_listener s;
             Some ([SendOk], [(l, e1)]) } }))"

text \<open>
  \<open>at\<close> is the address the new subscription gets (\<open>None\<close> when there is no memory), \<open>oks\<close> the allocations of
  the map, \<open>bound\<close> the port the server's socket is bound to.
\<close>

definition UpnpGenaClient_Subscribe ::
    "exchange \<Rightarrow> (string \<times> (32 word) option) list option \<Rightarrow> 16 word \<Rightarrow> addr option \<Rightarrow> mallocs \<Rightarrow> 'l gena_client \<Rightarrow> 'a http_manager
      \<Rightarrow> 'f ustore \<Rightarrow> addr option \<Rightarrow> 32 word \<Rightarrow> 'l option \<Rightarrow> upnp_error
      \<Rightarrow> (tiny_ret \<times> 'l gena_client \<times> 'a http_manager \<times> 'f ustore \<times> upnp_error) option" where
  "UpnpGenaClient_Subscribe x ifs bound at oks g h u service timeout l err =
     (if service = None \<or> l = None then Some (TINY_RET_E_ARG_NULL, g, h, u, err)
      else if \<not> UpnpHttpServer_IsRunning (hm_server h) then Some (TINY_RET_E_STOPPED, g, h, u, err)
      else (case UpnpHttpServer_GetListeningPort bound (hm_server h) of (p, srv) \<Rightarrow>
        let h1 = h\<lparr>hm_server := srv\<rparr> in
        case at of
          None \<Rightarrow> Some (TINY_RET_OK, g, h1, u, err)
        | Some a \<Rightarrow> do {
            s0 \<leftarrow> UpnpSubscription_New True service p timeout l;
            (uri, s1) \<leftarrow> UpnpSubscription_GetCallBackUri u s0;
            if TinyMap_GetValue (gc_map g) (Some uri) \<noteq> None then Some (TINY_RET_E_ITEM_EXIST, free_subscription g a, h1, u, err)
            else (case TinyMap_Insert oks (gc_map g) (Some uri) (Some a) of (ret, m) \<Rightarrow>
              if RET_FAILED ret then Some (ret, (free_subscription g a)\<lparr>gc_map := m\<rparr>, h1, u, err)
              else do {
                (ret1, c1, s2, err1) \<leftarrow> UpnpHttpClient_Subscribe x ifs u (hm_client h1) s1 err;
                let g1 = g\<lparr>gc_map := m, gc_subs := (gc_subs g)(a \<mapsto> s2)\<rparr>;
                let h2 = h1\<lparr>hm_client := c1\<rparr>;
                (uri2, s3) \<leftarrow> UpnpSubscription_GetCallBackUri u s2;
                if RET_FAILED ret1
                then Some (ret1, (free_subscription g1 a)\<lparr>gc_map := snd (TinyMap_Erase m (Some uri2))\<rparr>, h2, u, err1)
                else do {
                  sa \<leftarrow> service;
                  svc \<leftarrow> srv_at u sa;
                  Some (ret1, g1, h2,
                    u\<lparr>srv_at := (srv_at u)(sa \<mapsto> snd (UpnpService_SetCallbackURI svc (Some uri2)))\<rparr>, err1) } }) }))"

definition UpnpGenaClient_Unsubscribe ::
    "exchange \<Rightarrow> 'l gena_client \<Rightarrow> 'a http_manager \<Rightarrow> 'f ustore \<Rightarrow> addr option \<Rightarrow> upnp_error
      \<Rightarrow> (tiny_ret \<times> 'l gena_client \<times> 'a http_manager \<times> upnp_error) option" where
  "UpnpGenaClient_Unsubscribe x g h u service err = (case service of
       None \<Rightarrow> Some (TINY_RET_E_ARG_NULL, g, h, err)
     | Some sa \<Rightarrow> do {
         svc \<leftarrow> srv_at u sa;
         uri \<leftarrow> UpnpService_GetCallbackURI svc;
         if \<not> UpnpHttpServer_IsRunning (hm_server h) then Some (TINY_RET_E_STOPPED, g, h, err)
         else (case TinyMap_GetValue (gc_map g) (Some uri) of
             None \<Rightarrow> Some (TINY_RET_E_NOT_FOUND, g, h, err)
           | Some a \<Rightarrow> do {
               s \<leftarrow> gc_subs g a;
               (ret, c1, err1) \<leftarrow> UpnpHttpClient_Unsubscribe x u (hm_client h) s err;
               Some (ret, g, h\<lparr>hm_client := c1\<rparr>, err1) }) })"


subsection \<open>A request of the stack on the wire\<close>

definition host_text :: "string \<Rightarrow> nat \<Rightarrow> string" where
  "host_text host prt = (if prt = 80 then host else host @ '':'' @ show_nat prt)"

text \<open>Headers that are kept whole, lines and a content that fit.\<close>

definition fits :: "string \<Rightarrow> string \<Rightarrow> (string \<times> string) list \<Rightarrow> string \<Rightarrow> bool" where
  "fits mt uri kvs body \<longleftrightarrow> token_ok mt \<and> uri_ok uri \<and> wire_ok kvs body \<and> length (request_line mt uri) < HTTP_LINE_LEN
     \<and> length (request_line mt uri) + length (concat (map header_text kvs)) \<le> HTTP_HEAD_LEN * length kvs"

lemma plain_set_all:
  assumes "header_inv h" and "length (items h) \<le> 1" and "length kvs < 2 ^ 20" and "\<forall>kv \<in> set kvs. plain_header kv"
  shows "header_pairs (header_set_all kvs h) = header_pairs h @ kvs" and "header_inv (header_set_all kvs h)"
proof -
  have "map (\<lambda>(k, v). (field_cpy HTTP_MAX_NAME_LEN k, field_cpy HTTP_MAX_VALUE_LEN v)) kvs = kvs"
    using assms(4) by (intro map_idI) (auto simp: plain_header_def field_cpy_short)
  then show "header_pairs (header_set_all kvs h) = header_pairs h @ kvs" by (simp add: header_pairs_set_all)
  show "header_inv (header_set_all kvs h)" using assms(1-3) by (intro header_inv_set_all) simp_all
qed

lemma set_request_protocol: "HttpMessage_SetRequest [] m a b = Some (r, m') \<Longrightarrow> protocol_identifier m' = protocol_identifier m"
  by (auto simp: HttpMessage_SetRequest_def HttpMessage_SetUri_def HttpMessage_SetMethod_def HttpMessage_SetVersion_def
      HttpMessage_SetType_def HttpMessage_SetPort_def HttpMessage_SetIp_def Let_def split: option.splits prod.splits if_splits)

lemma request_made:
  assumes "at_url url host prt uri" and "fits mt uri ((''HOST'', host_text host prt) # kvs) body"
  shows "\<exists>m1. HttpMessage_SetRequest [] fresh_message (Some mt) (Some url) = Some (TINY_RET_OK, m1)
    \<and> content m1 = fresh_content
    \<and> (\<forall>m. m = m1\<lparr>header := header_set_all kvs (header m1), content := full_content body\<rparr> \<longrightarrow>
        mtype m = HTTP_REQUEST \<and> http_message.ip m = host \<and> unat (http_message.port m) = prt
        \<and> HttpMessage_ToBytes True m =
            Some (TINY_RET_OK, Some (http_text (request_line mt uri) ((''HOST'', host_text host prt) # kvs) body)))"
proof -
  let ?kvs = "(''HOST'', host_text host prt) # kvs"
  have f: "token_ok mt" "uri_ok uri" "wire_ok ?kvs body" "length (request_line mt uri) < HTTP_LINE_LEN"
      "length (request_line mt uri) + length (concat (map header_text ?kvs)) \<le> HTTP_HEAD_LEN * length ?kvs"
    using assms(2) by (simp_all add: fits_def)
  have u: "url = ''http://'' @ host @ '':'' @ show_nat prt @ uri" "\<forall>x \<in> set host. x \<noteq> CHR '':'' \<and> x \<noteq> CHR ''/''"
      "length host < TINY_IP_LEN" "uri = [] \<or> hd uri = CHR ''/''" "length uri < HTTP_URI_LEN" "prt < 2 ^ 16"
    using assms(1) by (simp_all add: at_url_def)
  obtain m1 where m1: "HttpMessage_SetRequest [] fresh_message (Some mt) (Some url) = Some (TINY_RET_OK, m1)"
      "http_message.ip m1 = host" "unat (http_message.port m1) = prt" "mtype m1 = HTTP_REQUEST" "req_method m1 = mt" "req_uri m1 = uri"
      "major m1 = 1" "minor m1 = 1"
      "header_pairs (header m1) = header_pairs (header fresh_message) @ [(''HOST'', if prt = 80 then host else host @ '':'' @ show_nat prt)]"
    using set_request_url [OF u(2-5) _ u(6), of mt fresh_message] f(1) by (auto simp: u(1) token_ok_def)
  have pid: "protocol_identifier m1 = ''HTTP''" using set_request_protocol [OF m1(1)] by simp
  have fresh: "header_pairs (snd HttpHeader_Construct) = []"
    by (simp add: header_pairs_def HttpHeader_Construct_def L_new_def L_SetDeleteListener_def)
  have c1: "content m1 = fresh_content" "header_inv (header m1)" "length (items (header m1)) \<le> 1"
    using set_request_shape [OF m1(1)]
    by (auto simp: header_inv_def count_ok_def HttpHeader_Construct_def L_new_def L_SetDeleteListener_def header_set_items)
  have plain: "\<forall>kv \<in> set kvs. plain_header kv" "length kvs < 2 ^ 20" using f(3) by (simp_all add: wire_ok_def head_ok_def)
  let ?m = "m1\<lparr>header := header_set_all kvs (header m1), content := full_content body\<rparr>"
  have h: "header_pairs (header ?m) = ?kvs" "header_inv (header ?m)"
    using plain_set_all [OF c1(2,3) plain(2,1)] m1(9) fresh by (simp_all add: host_text_def)
  have "first_line ?m = Some (request_line mt uri)"
    using f(1,2) m1 pid by (simp add: first_line_def read_field_def field_defs request_line_def token_ok_def uri_ok_def show_int_def
        show_nat_small)
  then have "HttpMessage_ToBytes True ?m = Some (TINY_RET_OK, Some (http_text (request_line mt uri) ?kvs body))"
    using m1(4) f(3-5) h by (intro message_written) simp_all
  then show ?thesis using m1 c1(1) by auto
qed

subsection \<open>One exchange of the client\<close>

text \<open>The operating system connects, takes the request and delivers \<open>reply\<close> in one piece.\<close>

definition replies_with :: "exchange \<Rightarrow> string \<Rightarrow> bool" where
  "replies_with x reply \<longleftrightarrow> ex_bytes_ok x \<and> ex_oks x = [] \<and> cn_open (ex_conn x) = TINY_RET_OK
     \<and> cn_connect (ex_conn x) \<in> {Connected, InProgress} \<and> calm (cn_os (ex_conn x)) \<and> written (cn_os (ex_conn x)) = []
     \<and> recvs (cn_os (ex_conn x)) = batch [reply]"

lemma shut_down: "tc_status (snd (HttpClient_Shutdown c)) = TCP_CLIENT_DISCONNECT"
  "tc_buf_size (snd (HttpClient_Shutdown c)) = tc_buf_size c"
  by (simp_all add: HttpClient_Shutdown_def TcpClient_GetStatus_def TcpClient_Disconnect_def)

lemma exchanged:
  assumes "replies_with x reply" and "tc_buf_size c = TCP_CLIENT_BUFFER_SIZE" and "mtype request = HTTP_REQUEST"
    and "length (http_message.ip request) < TINY_IP_LEN" and "HttpMessage_ToBytes True request = Some (TINY_RET_OK, Some out)" and "out \<noteq> []"
    and "reply \<noteq> []" and "length reply < unat TCP_CLIENT_BUFFER_SIZE"
    and "HttpMessage_Parse [] fresh_message reply (word_of_nat (length reply)) = Some (TINY_RET_OK, m)"
    and "content m = full_content body" and "length body \<le> HTTP_CONTENT_MAX_SIZE"
  shows "\<exists>c'. exchange_messages x c request = Some (TINY_RET_OK, c', m) \<and> written (tc_os c') = out
    \<and> tc_buf_size c' = TCP_CLIENT_BUFFER_SIZE"
proof -
  let ?c0 = "snd (HttpClient_Shutdown c)"
  define c1 where "c1 = snd (TcpClient_Connect (ex_conn x) ?c0 (Some (http_message.ip request)) (http_message.port request))"
  have connect: "TcpClient_Connect (ex_conn x) ?c0 (Some (http_message.ip request)) (http_message.port request) = (TINY_RET_OK, c1)"
    and c1: "tc_status c1 = TCP_CLIENT_CONNECTED" "tc_os c1 = cn_os (ex_conn x)" "tc_buf_size c1 = TCP_CLIENT_BUFFER_SIZE"
    using assms(1,2) shut_down [of c]
    by (auto simp: c1_def TcpClient_Connect_def connect_steps_def replies_with_def tiny_tcp_async_connect_def RET_FAILED_def RET_SUCCEEDED_def
        ret_defs Let_def)
  let ?os = "cn_os (ex_conn x)"
  let ?os2 = "?os\<lparr>written := out\<rparr>"
  have os: "calm ?os" "written ?os = []" "recvs ?os = batch [reply]" using assms(1) by (simp_all add: replies_with_def)
  have send: "TcpClient_Send c1 out = (TINY_RET_OK, c1\<lparr>tc_os := ?os2\<rparr>)"
    using c1 os assms(6) by (simp add: TcpClient_Send_def tiny_tcp_waiting_for_write_def tiny_socket_waiting_for_write_def calm_def
        os_send_all RET_FAILED_def ret_defs)
  have "os_recv ?os2 (tc_buf_size c1) = (TINY_RET_OK, concat [reply], ?os2\<lparr>recvs := []\<rparr>)"
    using os assms(7,8) by (intro recv_batch_os) (simp_all add: calm_def c1(3) batch_ok_def)
  then have recv: "TcpClient_Recv (c1\<lparr>tc_os := ?os2\<rparr>) = (TINY_RET_OK, reply, c1\<lparr>tc_os := ?os2\<lparr>recvs := []\<rparr>\<rparr>)"
    using c1(1) by (simp add: TcpClient_Recv_def)
  have full: "HttpContent_GetSize (content m) = 0 \<or> HttpMessage_IsContentFull m"
    using full_content_ok(2) [OF assms(11)] by (simp add: assms(10) HttpMessage_IsContentFull_def)
  have "exchange_messages x c request = Some (TINY_RET_OK, c1\<lparr>tc_os := ?os2\<lparr>recvs := []\<rparr>\<rparr>, m)"
    using assms(1,3,4,5) parse_received_ok [OF assms(9)] connect send recv full
    by (simp add: exchange_messages_def HttpClient_Execute_def replies_with_def read_field_def fresh_message_def [symmetric] RET_FAILED_def
        ret_defs)
  then show ?thesis using c1(3) by auto
qed

subsection \<open>One request at the server\<close>

lemma listened_once:
  assumes "conn_recv_once s a c = Some (TINY_RET_OK, a1, c1)" and "recvs (conn_os c1) = []" and "selects (conn_os c1) = []"
    and "conn_status c1 = TCP_CONN_CONNECTED"
  shows "\<exists>c2. conn_listener s (a, c) = Some (a1, c2) \<and> written (conn_os c2) = written (conn_os c1)"
proof -
  have "TcpConn_Recv c1 = (TINY_RET_E_TIMEOUT, [], c1)"
    using assms(2-4) by (simp add: TcpConn_Recv_def os_recv_def tiny_tcp_waiting_for_read_def tiny_socket_waiting_for_read_def
        RET_FAILED_def ret_defs)
  then have "conn_recv_once s a1 c1 = Some (TINY_RET_E_TIMEOUT, a1, snd (TcpConn_Disconnect c1))"
    by (simp add: conn_recv_once_def conn_recv_http_msg_def RET_FAILED_def ret_defs)
  then have "conn_listener s (a1, c1) = Some (a1, snd (TcpConn_Disconnect c1))"
    by (simp add: conn_listener.simps [of s a1 c1] RET_FAILED_def ret_defs)
  then have "conn_listener s (a, c) = Some (a1, snd (TcpConn_Disconnect c1))"
    using assms(1) by (simp add: conn_listener.simps [of s a c] RET_FAILED_def ret_defs)
  then show ?thesis by (simp add: TcpConn_Disconnect_def tiny_tcp_close_def assms(4))
qed


subsection \<open>A notification\<close>

definition notify_headers :: "string \<Rightarrow> nat \<Rightarrow> upnp_event \<Rightarrow> string \<Rightarrow> (string \<times> string) list" where
  "notify_headers host prt e body = [(''HOST'', host_text host prt), (''Content-Type'', ''text/xml;charset=\"utf-8\"''),
     (''nt'', ev_nt e), (''nts'', ev_nts e), (''sid'', ev_sid e), (''seq'', ev_seq e), (''Content-Length'', show_nat (length body))]"

text \<open>An event whose variables and headers survive the wire, for a callback.\<close>

definition sendable_event :: "upnp_event \<Rightarrow> string \<Rightarrow> nat \<Rightarrow> string \<Rightarrow> bool" where
  "sendable_event e host prt uri \<longleftrightarrow> property_inv (ev_arguments e) \<and> list_all pair_ok (prop_pairs (ev_arguments e))
     \<and> length (items (ev_arguments e)) < 2 ^ 31 \<and> at_url (ev_callback e) host prt uri \<and> length (ev_callback e) < TINY_URL_LEN
     \<and> length (ev_nt e) < NT_LEN \<and> length (ev_nts e) < NTS_LEN \<and> length (ev_sid e) < SID_LEN \<and> length (ev_seq e) < SEQ_LEN
     \<and> length (event_text (prop_pairs (ev_arguments e))) < EVENT_DATA_LEN
     \<and> fits ''NOTIFY'' uri (notify_headers host prt e (event_text (prop_pairs (ev_arguments e)))) (event_text (prop_pairs (ev_arguments e)))"

lemma event_size:
  assumes "length t < EVENT_DATA_LEN"
  shows "unat (word_of_nat (length t) :: 32 word) = length t" "field_printf 32 (show_nat (length t)) = show_nat (length t)"
proof -
  show "unat (word_of_nat (length t) :: 32 word) = length t"
    using assms by (intro unat_word_of_nat) (simp add: EVENT_DATA_LEN_def)
  have "length (show_nat (length t)) \<le> 4" using assms by (intro show_nat_length) (simp_all add: EVENT_DATA_LEN_def)
  then show "field_printf 32 (show_nat (length t)) = show_nat (length t)" by (simp add: field_printf_def)
qed

lemma event_request:
  assumes "sendable_event e host prt uri" and "t = event_text (prop_pairs (ev_arguments e))"
  shows "\<exists>m. UpnpEventToRequest e fresh_message = Some (TINY_RET_OK, m) \<and> mtype m = HTTP_REQUEST
    \<and> http_message.ip m = host \<and> unat (http_message.port m) = prt
    \<and> HttpMessage_ToBytes True m = Some (TINY_RET_OK, Some (http_text (request_line ''NOTIFY'' uri) (notify_headers host prt e t) t))"
proof -
  let ?kvs = "tl (notify_headers host prt e t)"
  have e: "property_inv (ev_arguments e)" "list_all pair_ok (prop_pairs (ev_arguments e))" "length (items (ev_arguments e)) < 2 ^ 31"
      "at_url (ev_callback e) host prt uri" "length t < EVENT_DATA_LEN" "fits ''NOTIFY'' uri (notify_headers host prt e t) t"
    using assms by (simp_all add: sendable_event_def)
  have get: "UpnpEvent_GetCallback e = Some (ev_callback e)" "UpnpEvent_GetNt e = Some (ev_nt e)" "UpnpEvent_GetNts e = Some (ev_nts e)"
      "UpnpEvent_GetSid e = Some (ev_sid e)" "UpnpEvent_GetSeq e = Some (ev_seq e)"
    using assms(1) by (simp_all add: sendable_event_def UpnpEvent_GetCallback_def UpnpEvent_GetNt_def UpnpEvent_GetNts_def
        UpnpEvent_GetSid_def UpnpEvent_GetSeq_def read_field_def)
  have "values_ok (ev_arguments e)" using e(2) by (auto simp: values_ok_def pair_ok_def list_all_iff)
  then have str: "UpnpEvent_ToString e [] EVENT_DATA_LEN = Some (length t, t)"
    using to_string_text [OF e(1) _ e(3) assms(2), of EVENT_DATA_LEN] e(5) by simp
  have t: "t \<noteq> []" "length t \<le> HTTP_CONTENT_MAX_SIZE"
    using e(5) by (simp_all add: assms(2) event_text_def event_head_def EVENT_DATA_LEN_def HTTP_CONTENT_MAX_SIZE_def)
  have cons: "(''HOST'', host_text host prt) # ?kvs = notify_headers host prt e t" by (simp add: notify_headers_def)
  obtain m1 where m1: "HttpMessage_SetRequest [] fresh_message (Some ''NOTIFY'') (Some (ev_callback e)) = Some (TINY_RET_OK, m1)"
      "content m1 = fresh_content"
      "\<And>m. m = m1\<lparr>header := header_set_all ?kvs (header m1), content := full_content t\<rparr> \<Longrightarrow>
        mtype m = HTTP_REQUEST \<and> http_message.ip m = host \<and> unat (http_message.port m) = prt
        \<and> HttpMessage_ToBytes True m =
            Some (TINY_RET_OK, Some (http_text (request_line ''NOTIFY'' uri) (notify_headers host prt e t) t))"
    using request_made [OF e(4), of "''NOTIFY''" ?kvs t] e(6) unfolding cons by blast
  have add: "HttpMessage_AddContentObject (snd (HttpMessage_SetContentSize True (m1\<lparr>header := h\<rparr>) (word_of_nat (length t)))) (Some t)
      (word_of_nat (length t)) = Some (TINY_RET_OK, m1\<lparr>header := h, content := full_content t\<rparr>)" for h
    using set_whole_content [of "m1\<lparr>header := h\<rparr>" t] m1(2) t by simp
  have "UpnpEventToRequest e fresh_message =
      Some (TINY_RET_OK, m1\<lparr>header := header_set_all ?kvs (header m1), content := full_content t\<rparr>)"
    using t(1) by (simp add: UpnpEventToRequest_def str get m1(1) Let_def set_header_all set_all_append event_size [OF e(5)] add notify_headers_def
        del: header_set_all_Cons)
  then show ?thesis using m1(3) [OF refl] by blast
qed


text \<open>The client's handler at a server whose application is the client and what its listeners were told.\<close>

definition on_event ::
    "(string \<Rightarrow> sax list \<times> bool) \<Rightarrow> bool \<Rightarrow> txml option \<Rightarrow> mallocs \<Rightarrow> string \<Rightarrow> string option \<Rightarrow> string option \<Rightarrow> string option
      \<Rightarrow> string option \<Rightarrow> string option \<Rightarrow> 'l gena_client \<times> ('l \<times> upnp_event) list \<Rightarrow> ('l gena_client \<times> ('l \<times> upnp_event) list) handled" where
  "on_event expat parser_ok xml oks uri nt nts sid seq body a = (case a of (g, told) \<Rightarrow>
     map_option (\<lambda>(replies, called). (replies, (g, told @ called))) (notify_handler expat parser_ok xml oks g uri nt nts sid seq body))"

definition ok_reply :: string where
  "ok_reply = http_text (response_line 200 ''OK'') [] []"

lemma ok_reply_read:
  "\<exists>m. HttpMessage_Parse [] fresh_message ok_reply (word_of_nat (length ok_reply)) = Some (TINY_RET_OK, m)
    \<and> status_code m = 200 \<and> content m = full_content []"
  and ok_reply_size: "ok_reply \<noteq> []" "length ok_reply < unat TCP_CLIENT_BUFFER_SIZE"
proof -
  have "reply_ok 200 ''OK''" by (simp add: reply_ok_def num_ok_def is_ctl_def sbyte_def)
  moreover have "wire_ok [] []" by (simp add: wire_ok_def head_ok_def)
  ultimately show "\<exists>m. HttpMessage_Parse [] fresh_message ok_reply (word_of_nat (length ok_reply)) = Some (TINY_RET_OK, m)
    \<and> status_code m = 200 \<and> content m = full_content []"
    using response_received [of 200 "''OK''" "[]" "[]" ok_reply] unfolding ok_reply_def by blast
  show "ok_reply \<noteq> []" "length ok_reply < unat TCP_CLIENT_BUFFER_SIZE"
    using show_nat_length [of 200 3] by (simp_all add: ok_reply_def http_text_def response_line_def TCP_CLIENT_BUFFER_SIZE_def show_int_def)
qed

lemma notify_sent:
  assumes "sendable_event e host prt uri" and "t = event_text (prop_pairs (ev_arguments e))"
    and "replies_with x ok_reply" and "tc_buf_size c = TCP_CLIENT_BUFFER_SIZE"
  shows "\<exists>c'. UpnpHttpClient_Notify x c e = Some (TINY_RET_OK, c') \<and> tc_buf_size c' = TCP_CLIENT_BUFFER_SIZE
    \<and> written (tc_os c') = http_text (request_line ''NOTIFY'' uri) (notify_headers host prt e t) t"
proof -
  let ?out = "http_text (request_line ''NOTIFY'' uri) (notify_headers host prt e t) t"
  obtain req where req: "UpnpEventToRequest e fresh_message = Some (TINY_RET_OK, req)" "mtype req = HTTP_REQUEST"
      "http_message.ip req = host" "HttpMessage_ToBytes True req = Some (TINY_RET_OK, Some ?out)"
    using event_request [OF assms(1,2)] by blast
  obtain m where m: "HttpMessage_Parse [] fresh_message ok_reply (word_of_nat (length ok_reply)) = Some (TINY_RET_OK, m)"
      "status_code m = 200" "content m = full_content []" using ok_reply_read by blast
  have h: "length (http_message.ip req) < TINY_IP_LEN" using assms(1) req(3) by (simp add: sendable_event_def at_url_def)
  have "?out \<noteq> []" by (simp add: http_text_def request_line_def)
  then obtain c' where "exchange_messages x c req = Some (TINY_RET_OK, c', m)" "written (tc_os c') = ?out"
      "tc_buf_size c' = TCP_CLIENT_BUFFER_SIZE"
    using exchanged [OF assms(3,4) req(2) h req(4) _ ok_reply_size m(1,3)] by auto
  then show ?thesis
    using req(1) m(2) by (simp add: UpnpHttpClient_Notify_def fresh_message_def [symmetric] RET_FAILED_def ret_defs HTTP_STATUS_OK_def)
qed

lemma event_heard:
  assumes "sendable_event e host prt uri" and "prop_pairs (ev_arguments e) = nv # rest" and "t = event_text (nv # rest)"
    and "unused x" and "expat t = (sax_of (event_doc (nv # rest)), True)"
    and "TinyMap_GetValue (gc_map g) (Some uri) = Some a" and "gc_subs g a = Some sub" and "us_listener sub = Some l"
    and "on_notify s = Some (on_event expat True (Some x) [])"
    and "mtype m = HTTP_REQUEST" "req_method m = ''NOTIFY''" "req_uri m = uri" "header_inv (header m)"
      "header_pairs (header m) = notify_headers host prt e t" "content m = full_content t"
  shows "\<exists>e'. dispatch s m (g, told) = Some ([SendOk], (g, told @ [(l, e')]))
    \<and> prop_pairs (ev_arguments e') = [(fst nv, dropWhile is_blank (snd nv))]
    \<and> ev_nt e' = ev_nt e \<and> ev_nts e' = ev_nts e \<and> ev_sid e' = ev_sid e \<and> ev_seq e' = ev_seq e"
proof -
  have s: "property_inv (ev_arguments e)" "list_all pair_ok (prop_pairs (ev_arguments e))" "length (items (ev_arguments e)) < 2 ^ 31"
      "length t < EVENT_DATA_LEN" "length (ev_nt e) < NT_LEN" "length (ev_nts e) < NTS_LEN" "length (ev_sid e) < SID_LEN"
      "length (ev_seq e) < SEQ_LEN" "length uri < HTTP_URI_LEN"
    using assms(1-3) by (simp_all add: sendable_event_def at_url_def)
  obtain e0 where e0: "UpnpEvent_New [] = Some e0" using new_event by blast
  then have "ev_arguments e0 = snd PropertyList_Construct"
    by (auto simp: UpnpEvent_New_def UpnpEvent_Construct_def PropertyList_New_def PropertyList_Construct_def)
  then obtain out e' where e': "UpnpEvent_ToString e [] EVENT_DATA_LEN = Some (length out, out)"
      "UpnpEvent_Parse expat True (Some x) e0 (Some (ev_nt e)) (Some (ev_nts e)) (Some (ev_sid e)) (Some (ev_seq e)) (Some out)
        = Some (TINY_RET_OK, e')" "prop_pairs (ev_arguments e') = [(fst nv, dropWhile is_blank (snd nv))]"
      "ev_nt e' = ev_nt e" "ev_nts e' = ev_nts e" "ev_sid e' = ev_sid e" "ev_seq e' = ev_seq e"
    using event_reread [where expat = expat and len = EVENT_DATA_LEN, OF s(1-3) assms(2) _ assms(4), of e0 "ev_nt e" "ev_nts e" "ev_sid e" "ev_seq e"]
      assms(3,5) s(4-8) by (fastforce simp: field_cpy_short)
  have "values_ok (ev_arguments e)" using s(2) by (auto simp: values_ok_def pair_ok_def list_all_iff)
  then have "out = t"
    using to_string_text [OF s(1) _ s(3) refl, of EVENT_DATA_LEN] assms(2,3) s(4) e'(1) by simp
  note e' = e'(2-) [unfolded this]
  have "t \<noteq> []" by (simp add: assms(3) event_text_def event_head_def)
  then have body: "HttpContent_GetObject (content m) = Some t" by (simp add: assms(15) full_content_def HttpContent_GetObject_def)
  have get: "HttpMessage_GetHeaderValue m (Some ''NT'') = Some (Some (ev_nt e))"
      "HttpMessage_GetHeaderValue m (Some ''NTS'') = Some (Some (ev_nts e))"
      "HttpMessage_GetHeaderValue m (Some ''SID'') = Some (Some (ev_sid e))"
      "HttpMessage_GetHeaderValue m (Some ''SEQ'') = Some (Some (ev_seq e))"
    using header_lookup [OF assms(13)]
    by (simp_all add: HttpMessage_GetHeaderValue_def assms(14) notify_headers_def HTTP_MAX_NAME_LEN_def header_key_def
        tolower_def char_of_def bit_0)
  have mt: "read_field HTTP_METHOD_LEN (req_method m) = Some ''NOTIFY''" "read_field HTTP_URI_LEN (req_uri m) = Some uri"
    using s(9) by (simp_all add: assms(11,12) read_field_def HTTP_METHOD_LEN_def)
  have "dispatch s m (g, told) = doNotify s m (g, told)"
    by (simp add: dispatch_def mt STR_EQUAL_def)
  also have "\<dots> = Some ([SendOk], (g, told @ [(l, e')]))"
    by (simp add: doNotify_def mt get body assms(6-9) on_event_def notify_handler_def e0 e'(1) RET_FAILED_def ret_defs)
  finally show ?thesis using e'(2-) by blast
qed


text \<open>
  C15. An event of a host reaches the listener of a control point's subscription over the wire: the host's client
  writes one NOTIFY request, the server of the control point reads it, finds the subscription of its callback and
  calls the listener with an event of the same headers and answers OK, which the host's client reads as success.
  Of the variables of the event only the first arrives.
\<close>

theorem notification_delivered:
  assumes "sendable_event e host prt uri" and "prop_pairs (ev_arguments e) = nv # rest" and "t = event_text (nv # rest)"
    and "out = http_text (request_line ''NOTIFY'' uri) (notify_headers host prt e t) t"
    and "replies_with x ok_reply" and "tc_buf_size c = TCP_CLIENT_BUFFER_SIZE"
    and "up conn" and "recvs (conn_os conn) = batch [out]"
    and "TinyMap_GetValue (gc_map g) (Some uri) = Some a" and "gc_subs g a = Some sub" and "us_listener sub = Some l"
    and "on_notify s = Some (on_event expat True (Some parser) [])" and "unused parser"
    and "expat t = (sax_of (event_doc (nv # rest)), True)"
  shows "\<exists>c' conn' e'. UpnpHttpClient_Notify x c e = Some (TINY_RET_OK, c') \<and> written (tc_os c') = out
    \<and> conn_listener s ((g, told), conn) = Some ((g, told @ [(l, e')]), conn')
    \<and> written (conn_os conn') = written (conn_os conn) @ ok_reply
    \<and> prop_pairs (ev_arguments e') = [(fst nv, dropWhile is_blank (snd nv))]
    \<and> ev_nt e' = ev_nt e \<and> ev_nts e' = ev_nts e \<and> ev_sid e' = ev_sid e \<and> ev_seq e' = ev_seq e"
proof -
  have f: "fits ''NOTIFY'' uri (notify_headers host prt e t) t" "length t < EVENT_DATA_LEN" "token_ok ''NOTIFY''" "uri_ok uri"
    using assms(1-3) by (auto simp: sendable_event_def fits_def)
  obtain c' where c': "UpnpHttpClient_Notify x c e = Some (TINY_RET_OK, c')" "written (tc_os c') = out"
    using notify_sent [OF assms(1) _ assms(5,6), of t] assms(2-4) by auto
  have "length out < unat TCP_CONN_BUFFER_SIZE"
    using f(1,2) by (simp add: assms(4) http_text_def fits_def notify_headers_def HTTP_HEAD_LEN_def TCP_CONN_BUFFER_SIZE_def
        EVENT_DATA_LEN_def HTTP_LINE_LEN_def)
  moreover have "out \<noteq> []" by (simp add: assms(4) http_text_def request_line_def)
  ultimately have b: "list_all (batch_ok (unat TCP_CONN_BUFFER_SIZE)) [[out]]" by (simp add: batch_ok_def)
  let ?conn = "conn\<lparr>conn_os := (conn_os conn)\<lparr>recvs := []\<rparr>\<rparr>"
  obtain m where m: "conn_recv_http_msg conn fresh_message = Some (TINY_RET_OK, ?conn, m)" "mtype m = HTTP_REQUEST"
      "req_method m = ''NOTIFY''" "req_uri m = uri" "header_inv (header m)" "header_pairs (header m) = notify_headers host prt e t"
      "content m = full_content t"
    using pieces_received [OF assms(7) _ b f(3,4), of "[]" "notify_headers host prt e t" t t] assms(4,8) f(1)
    by (auto simp: fits_def wire_ok_def)
  obtain e' where e': "dispatch s m (g, told) = Some ([SendOk], (g, told @ [(l, e')]))"
      "prop_pairs (ev_arguments e') = [(fst nv, dropWhile is_blank (snd nv))]"
      "ev_nt e' = ev_nt e" "ev_nts e' = ev_nts e" "ev_sid e' = ev_sid e" "ev_seq e' = ev_seq e"
    using event_heard [OF assms(1-3,13,14,9-12) m(2-7)] by blast
  have up: "up ?conn" using assms(7) by (simp add: up_def calm_def)
  have "send_replies [SendOk] ?conn = Some (sent_on ?conn ok_reply)"
    using send_ok_sent [OF up] by (simp add: ok_reply_def)
  then have "conn_recv_once s (g, told) conn = Some (TINY_RET_OK, (g, told @ [(l, e')]), snd (TcpConn_Disconnect (sent_on ?conn ok_reply)))"
    using served [OF m(1,2) e'(1)] by simp
  then obtain conn' where "conn_listener s ((g, told), conn) = Some ((g, told @ [(l, e')]), conn')"
      "written (conn_os conn') = written (conn_os (snd (TcpConn_Disconnect (sent_on ?conn ok_reply))))"
    using listened_once up by (fastforce simp: TcpConn_Disconnect_def tiny_tcp_close_def sent_on_def up_def calm_def)
  then show ?thesis
    using c' e'(2-) up by (auto simp: TcpConn_Disconnect_def tiny_tcp_close_def sent_on_def up_def)
qed


definition demo_notice :: upnp_event where
  "demo_notice = demo_event\<lparr>ev_callback := ''http://10.0.0.9:4000/cb'', ev_nt := ''upnp:event'', ev_nts := ''upnp:propchange'',
     ev_sid := FIXED_SID, ev_seq := ''0''\<rparr>"

abbreviation demo_pairs :: "(string \<times> string) list" where
  "demo_pairs \<equiv> [(''Status'', ''1''), (''Target'', ''0'')]"

lemma demo_text_length: "length (event_text demo_pairs) = 154"
  by (simp add: event_text_def event_head_def event_tail_def prop_text_def)

lemma demo_notice_fits:
  "fits ''NOTIFY'' ''/cb'' (notify_headers ''10.0.0.9'' 4000 demo_notice (event_text demo_pairs)) (event_text demo_pairs)"
proof -
  have n: "show_nat 4000 = ''4000''" "show_nat 154 = ''154''" by (simp_all add: show_nat.simps [of 4000] show_nat.simps [of 400] show_nat.simps [of 40] show_nat.simps [of 154]
        show_nat.simps [of 15] show_nat_small digit_char_def char_of_def bit_0)
  show ?thesis
    unfolding fits_def wire_ok_def head_ok_def demo_text_length notify_headers_def n host_text_def
    apply (intro conjI)
    by (simp_all add: demo_notice_def FIXED_SID_def token_ok_def uri_ok_def plain_header_def is_name_char_def is_char_def is_ctl_def
      is_tspecial_def sbyte_def cstring_def header_key_def tolower_def HTTP_CONTENT_MAX_SIZE_def field_defs header_text_def request_line_def
      char_of_def bit_0 HTTP_HEAD_LEN_def)
qed


definition demo_subscribed :: "nat gena_client" where
  "demo_subscribed = \<lparr>gc_map = snd (TinyMap_Insert [] (snd TinyMap_Construct) (Some ''/cb'') (Some 1)),
     gc_subs = [1 \<mapsto> snd (UpnpSubscription_Construct (Some 7) 4000 0 (Some 42))]\<rparr>"

lemma demo_subscribed_finds: "TinyMap_GetValue (gc_map demo_subscribed) (Some ''/cb'') = Some 1"
  by (simp add: demo_subscribed_def TinyMap_Insert_def TinyMap_Construct_def TinyList_FindKey_def TinyMap_GetValue_def L_Foreach_def
      item_compare_def strncmp_eq_def field_cpy_def L_GetAt_def L_AddTail_def L_new_def L_SetDeleteListener_def MAX_KEY_LEN_def)

definition demo_exchange :: "string \<Rightarrow> exchange" where
  "demo_exchange reply = \<lparr>ex_conn = demo_connecting\<lparr>cn_os := silent_os\<lparr>recvs := batch [reply]\<rparr>\<rparr>, ex_bytes_ok = True, ex_oks = []\<rparr>"

lemma demo_exchange_replies: "replies_with (demo_exchange r) r"
  by (simp add: replies_with_def demo_exchange_def demo_connecting_def silent_os_def calm_def)

definition demo_listening :: "(nat gena_client \<times> (nat \<times> upnp_event) list) upnp_http_server" where
  "demo_listening = (snd UpnpHttpServer_Construct)\<lparr>on_notify := Some (on_event event_expat True (Some fresh_xml) [])\<rparr>"

theorem notification_delivered_witness:
  "\<exists>c' conn' e' out. UpnpHttpClient_Notify (demo_exchange ok_reply) (snd HttpClient_Construct) demo_notice = Some (TINY_RET_OK, c')
    \<and> written (tc_os c') = out
    \<and> conn_listener demo_listening ((demo_subscribed, []), (demo_conn [])\<lparr>conn_os := silent_os\<lparr>recvs := batch [out]\<rparr>\<rparr>)
        = Some ((demo_subscribed, [(42, e')]), conn')
    \<and> written (conn_os conn') = ok_reply \<and> prop_pairs (ev_arguments e') = [(''Status'', ''1'')] \<and> ev_sid e' = FIXED_SID"
proof -
  let ?t = "event_text demo_pairs"
  let ?out = "http_text (request_line ''NOTIFY'' ''/cb'') (notify_headers ''10.0.0.9'' 4000 demo_notice ?t) ?t"
  have pairs: "prop_pairs (ev_arguments demo_notice) = demo_pairs" by (simp add: demo_notice_def demo_event_ok)
  have n: "show_nat 4000 = ''4000''"
    by (simp add: show_nat.simps [of 4000] show_nat.simps [of 400] show_nat.simps [of 40] show_nat_small digit_char_def char_of_def bit_0)
  have e: "sendable_event demo_notice ''10.0.0.9'' 4000 ''/cb''"
    unfolding sendable_event_def pairs demo_text_length at_url_def n using demo_notice_fits demo_event_ok
    by (simp add: demo_notice_def pair_ok_def FIXED_SID_def cstring_def field_defs EVENT_DATA_LEN_def PROPERTY_NAME_LEN_def
        PROPERTY_VALUE_LEN_def TINY_URL_LEN_def TINY_IP_LEN_def)
  have c: "tc_buf_size (snd HttpClient_Construct) = TCP_CLIENT_BUFFER_SIZE"
    by (simp add: HttpClient_Construct_def TcpClient_Construct_def)
  let ?conn = "(demo_conn [])\<lparr>conn_os := silent_os\<lparr>recvs := batch [?out]\<rparr>\<rparr>"
  have up: "up ?conn" by (simp add: up_def calm_def demo_conn_def TcpConn_Initialize_def TcpConn_Construct_def silent_os_def)
  have sub: "gc_subs demo_subscribed 1 = Some (snd (UpnpSubscription_Construct (Some 7) 4000 0 (Some 42)))"
    "us_listener (snd (UpnpSubscription_Construct (Some 7) 4000 0 (Some 42))) = Some 42"
    by (simp_all add: demo_subscribed_def UpnpSubscription_Construct_def)
  have srv: "on_notify demo_listening = Some (on_event event_expat True (Some fresh_xml) [])" by (simp add: demo_listening_def)
  have ex: "event_expat ?t = (sax_of (event_doc demo_pairs), True)" unfolding event_expat_def by (rule if_P) (rule refl)
  have "dropWhile is_blank ''1'' = ''1''" by (simp add: is_blank_def)
  moreover have "ev_sid demo_notice = FIXED_SID" by (simp add: demo_notice_def)
  moreover have "written (conn_os ?conn) = []" by (simp add: silent_os_def)
  moreover have "recvs (conn_os ?conn) = batch [?out]" by simp
  note result = notification_delivered [where expat = event_expat and told = "[]", OF e pairs refl refl demo_exchange_replies c up this
      demo_subscribed_finds sub srv fresh_xml_unused ex]
  obtain c' conn' e' where r: "UpnpHttpClient_Notify (demo_exchange ok_reply) (snd HttpClient_Construct) demo_notice = Some (TINY_RET_OK, c')"
      "written (tc_os c') = ?out" "conn_listener demo_listening ((demo_subscribed, []), ?conn) = Some ((demo_subscribed, [] @ [(42, e')]), conn')"
      "written (conn_os conn') = written (conn_os ?conn) @ ok_reply"
      "prop_pairs (ev_arguments e') = [(fst (''Status'', ''1''), dropWhile is_blank (snd (''Status'', ''1'')))]" "ev_sid e' = ev_sid demo_notice"
    using result by (elim exE conjE) (rule that)
  ultimately show ?thesis
    using r by (intro exI [of _ c'] exI [of _ conn'] exI [of _ e'] exI [of _ ?out] conjI) (simp_all only: append_Nil fst_conv snd_conv)
qed

end
