(* ===== verification/ServiceParser.thy ===== *)
theory ServiceParser
  imports GenaClient
begin

section \<open>Service descriptions: \<open>UpnpServiceParser.c\<close>\<close>

text \<open>
  A host writes the description of a service as an XML document, a control point fetches and reads
  it to fill a service that has only its names so far. The services and actions live in the store
  of \<open>UpnpModel\<close>; \<open>brk\<close> is the address the next action gets and \<open>m\<close> the outcomes of the
  allocations. \<open>past\<close> is the byte behind the terminator of a name that is compared without case.
\<close>

subsection \<open>Reading: the version\<close>

definition SDD_LoadSpecVersion :: "char \<Rightarrow> xheap \<Rightarrow> addr \<Rightarrow> tiny_ret option" where
  "SDD_LoadSpecVersion past h root = do {
     version \<leftarrow> TinyXmlNode_GetChildByName past h (Some root) (Some ''specVersion'');
     if version = None then Some TINY_RET_E_XML_INVALID
     else do {
       major' \<leftarrow> TinyXmlNode_GetChildContent past h version (Some ''major'');
       minor' \<leftarrow> TinyXmlNode_GetChildContent past h version (Some ''minor'');
       Some (if major' = None \<or> minor' = None then TINY_RET_E_XML_INVALID else TINY_RET_OK) } }"

subsection \<open>Reading: the state variables\<close>

text \<open>A complete state variable: the \<open>sendEvents\<close> attribute, the name and the data type. Others are passed over.\<close>

definition state_parts :: "char \<Rightarrow> xheap \<Rightarrow> addr option \<Rightarrow> (xattr \<times> string \<times> string) option option" where
  "state_parts past h nd = do {
     tag \<leftarrow> TinyXmlNode_GetName h nd;
     if \<not> str_equal past tag (Some ''stateVariable'') True then Some None
     else do {
       attr_sendEvents \<leftarrow> TinyXmlNode_GetAttr h nd (Some ''sendEvents'');
       (case attr_sendEvents of
          None \<Rightarrow> Some None
        | Some a \<Rightarrow> do {
            name \<leftarrow> TinyXmlNode_GetChildContent past h nd (Some ''name'');
            (case name of
               None \<Rightarrow> Some None
             | Some n \<Rightarrow> do {
                 dataType \<leftarrow> TinyXmlNode_GetChildContent past h nd (Some ''dataType'');
                 Some (map_option (\<lambda>t. (a, n, t)) dataType) }) }) } }"

text \<open>\<open>garbage\<close> is the memory a new variable finds; its flag \<open>is_changed\<close> is never set.\<close>

definition new_variable ::
    "'f float_ops \<Rightarrow> 'f state_variable \<Rightarrow> string \<Rightarrow> string \<Rightarrow> string \<Rightarrow> 'f service_variable option" where
  "new_variable fl garbage name dataType se = do {
     v \<leftarrow> UpnpStateVariable_New True garbage;
     (_, v1) \<leftarrow> UpnpStateVariable_Initialize fl True v (Some name) (Some dataType) None (Some se);
     Some (state_variable.extend v1 (service_variable.fields None)) }"

fun state_loop ::
    "char \<Rightarrow> 'f float_ops \<Rightarrow> 'f state_variable \<Rightarrow> xheap \<Rightarrow> addr \<Rightarrow> addr \<Rightarrow> 32 word \<Rightarrow> nat \<Rightarrow> 'f upnp_service \<times> mallocs
      \<Rightarrow> (tiny_ret \<times> 'f upnp_service \<times> mallocs) option" where
  "state_loop past fl garbage h table sa i 0 st = Some (TINY_RET_OK, st)"
| "state_loop past fl garbage h table sa i (Suc n) st = do {
     node_state \<leftarrow> TinyXmlNode_GetChildAt h (Some table) i;
     parts \<leftarrow> state_parts past h node_state;
     (case parts of
        None \<Rightarrow> state_loop past fl garbage h table sa (i + 1) n st
      | Some (a, name, dataType) \<Rightarrow> (case malloc_next (snd st) of
            (False, m1) \<Rightarrow> Some (TINY_RET_E_NEW, fst st, m1)
          | (True, m1) \<Rightarrow> do {
              se \<leftarrow> read_field XML_ATTR_VALUE_LEN (attr_value a);
              v \<leftarrow> new_variable fl garbage name dataType se;
              (case malloc_next m1 of (ok, m2) \<Rightarrow>
                 state_loop past fl garbage h table sa (i + 1) n
                   (snd (UpnpService_AddStateVariable ok sa (fst st) (Some v)), m2)) })) }"

definition SDD_LoadServiceStateTable ::
    "char \<Rightarrow> 'f float_ops \<Rightarrow> 'f state_variable \<Rightarrow> xheap \<Rightarrow> addr \<Rightarrow> addr \<Rightarrow> 'f upnp_service \<times> mallocs
      \<Rightarrow> (tiny_ret \<times> 'f upnp_service \<times> mallocs) option" where
  "SDD_LoadServiceStateTable past fl garbage h root sa st = do {
     table \<leftarrow> TinyXmlNode_GetChildByName past h (Some root) (Some ''serviceStateTable'');
     (case table of
        None \<Rightarrow> Some (TINY_RET_E_XML_INVALID, st)
      | Some t \<Rightarrow> do {
          num \<leftarrow> TinyXmlNode_GetChildren h table;
          if num = 0 then Some (TINY_RET_E_XML_INVALID, st)
          else state_loop past fl garbage h t sa 0 (unat num) st }) }"

subsection \<open>Reading: the actions\<close>

definition argument_parts :: "char \<Rightarrow> xheap \<Rightarrow> addr option \<Rightarrow> (string \<times> arg_direction \<times> string) option option" where
  "argument_parts past h nd = do {
     tag \<leftarrow> TinyXmlNode_GetName h nd;
     if \<not> str_equal past tag (Some ''argument'') True then Some None
     else do {
       name \<leftarrow> TinyXmlNode_GetChildContent past h nd (Some ''name'');
       dir \<leftarrow> TinyXmlNode_GetChildContent past h nd (Some ''direction'');
       related \<leftarrow> TinyXmlNode_GetChildContent past h nd (Some ''relatedStateVariable'');
       Some (case (name, related) of
          (Some n, Some r) \<Rightarrow> (if dir = None \<or> UpnpArgumentDirection_Retrieve dir = ARG_UNKNOWN then None
            else Some (n, UpnpArgumentDirection_Retrieve dir, r))
        | _ \<Rightarrow> None) } }"

fun argument_loop :: "char \<Rightarrow> xheap \<Rightarrow> addr \<Rightarrow> 32 word \<Rightarrow> nat \<Rightarrow> upnp_action \<times> mallocs \<Rightarrow> (upnp_action \<times> mallocs) option" where
  "argument_loop past h args i 0 st = Some st"
| "argument_loop past h args i (Suc n) st = do {
     node_arg \<leftarrow> TinyXmlNode_GetChildAt h (Some args) i;
     parts \<leftarrow> argument_parts past h node_arg;
     (case parts of
        None \<Rightarrow> argument_loop past h args (i + 1) n st
      | Some (name, dir, related) \<Rightarrow> (case malloc_next (snd st) of (ok, m1) \<Rightarrow>
          case UpnpArgument_New ok name dir related of
            None \<Rightarrow> argument_loop past h args (i + 1) n (fst st, m1)
          | Some a \<Rightarrow> (case malloc_next m1 of (ok', m2) \<Rightarrow>
              argument_loop past h args (i + 1) n (snd (UpnpAction_AddArgument ok' (fst st) (Some a)), m2)))) }"

text \<open>The name of an action and the list of its arguments, which must not be empty.\<close>

definition action_parts :: "char \<Rightarrow> xheap \<Rightarrow> addr option \<Rightarrow> (string \<times> addr \<times> nat) option option" where
  "action_parts past h nd = do {
     tag \<leftarrow> TinyXmlNode_GetName h nd;
     if \<not> str_equal past tag (Some ''action'') True then Some None
     else do {
       name \<leftarrow> TinyXmlNode_GetChildContent past h nd (Some ''name'');
       (case name of
          None \<Rightarrow> Some None
        | Some s \<Rightarrow> do {
            args \<leftarrow> TinyXmlNode_GetChildByName past h nd (Some ''argumentList'');
            (case args of
               None \<Rightarrow> Some None
             | Some a \<Rightarrow> do {
                 num \<leftarrow> TinyXmlNode_GetChildren h args;
                 Some (if num = 0 then None else Some (s, a, unat num)) }) }) } }"

record 'f sdd =
  sdd_store :: "'f ustore"
  sdd_brk :: addr
  sdd_mem :: mallocs

fun actions_loop :: "char \<Rightarrow> xheap \<Rightarrow> addr \<Rightarrow> addr \<Rightarrow> 32 word \<Rightarrow> nat \<Rightarrow> tiny_ret \<times> 'f sdd \<Rightarrow> (tiny_ret \<times> 'f sdd) option" where
  "actions_loop past h actions sa i 0 st = Some st"
| "actions_loop past h actions sa i (Suc n) st = do {
     node_action \<leftarrow> TinyXmlNode_GetChildAt h (Some actions) i;
     parts \<leftarrow> action_parts past h node_action;
     (case parts of
        None \<Rightarrow> actions_loop past h actions sa (i + 1) n st
      | Some (name, args, num) \<Rightarrow> (case malloc_next (sdd_mem (snd st)) of (ok, m1) \<Rightarrow>
          case UpnpAction_New ok of
            None \<Rightarrow> Some (TINY_RET_E_OUT_OF_MEMORY, (snd st)\<lparr>sdd_mem := m1\<rparr>)
          | Some act \<Rightarrow> do {
              (act1, m2) \<leftarrow> argument_loop past h args 0 num (snd (UpnpAction_SetName act (Some name)), m1);
              let a = sdd_brk (snd st);
              let u = sdd_store (snd st);
              (case malloc_next m2 of (ok', m3) \<Rightarrow> do {
                 (ret, u') \<leftarrow> UpnpService_AddAction ok' (u\<lparr>act_at := (act_at u)(a \<mapsto> act1)\<rparr>) sa (Some a);
                 actions_loop past h actions sa (i + 1) n (ret, \<lparr>sdd_store = u', sdd_brk = a + 1, sdd_mem = m3\<rparr>) }) })) }"

definition SDD_LoadActionList :: "char \<Rightarrow> xheap \<Rightarrow> addr \<Rightarrow> addr \<Rightarrow> 'f sdd \<Rightarrow> (tiny_ret \<times> 'f sdd) option" where
  "SDD_LoadActionList past h root sa st = do {
     actions \<leftarrow> TinyXmlNode_GetChildByName past h (Some root) (Some ''actionList'');
     (case actions of
        None \<Rightarrow> Some (TINY_RET_E_XML_INVALID, st)
      | Some l \<Rightarrow> do {
          num \<leftarrow> TinyXmlNode_GetChildren h actions;
          if num = 0 then Some (TINY_RET_E_XML_INVALID, st)
          else actions_loop past h l sa 0 (unat num) (TINY_RET_OK, st) }) }"

subsection \<open>Reading a description\<close>

definition SDD_ParseXml ::
    "char \<Rightarrow> 'f float_ops \<Rightarrow> 'f state_variable \<Rightarrow> txml \<Rightarrow> addr \<Rightarrow> 'f sdd \<Rightarrow> (tiny_ret \<times> 'f sdd) option" where
  "SDD_ParseXml past fl garbage x sa st = (case TinyXml_GetRoot x of
       None \<Rightarrow> Some (TINY_RET_E_XML_INVALID, st)
     | Some root \<Rightarrow> (let h = xml_heap x in do {
         tag \<leftarrow> TinyXmlNode_GetName h (Some root);
         if \<not> str_equal past tag (Some ''scpd'') True then Some (TINY_RET_E_XML_INVALID, st)
         else do {
           ret \<leftarrow> SDD_LoadSpecVersion past h root;
           if RET_FAILED ret then Some (ret, st)
           else do {
             s \<leftarrow> srv_at (sdd_store st) sa;
             (ret1, s1, m1) \<leftarrow> SDD_LoadServiceStateTable past fl garbage h root sa (s, sdd_mem st);
             let st1 = st\<lparr>sdd_store := (sdd_store st)\<lparr>srv_at := (srv_at (sdd_store st))(sa \<mapsto> s1)\<rparr>, sdd_mem := m1\<rparr>;
             if RET_FAILED ret1 then Some (ret1, st1) else SDD_LoadActionList past h root sa st1 } } }))"

subsection \<open>Fetching a description\<close>

text \<open>
  \<open>news_ok\<close>: the client and its two messages could be allocated; \<open>xml\<close> is what \<open>TinyXml_New\<close>
  returns. A status other than 200 leaves the service as it was and is no failure.
\<close>

definition fetch_document ::
    "exchange \<Rightarrow> bool \<Rightarrow> (string \<Rightarrow> sax list \<times> bool) \<Rightarrow> bool \<Rightarrow> txml option \<Rightarrow> string \<Rightarrow> (tiny_ret \<times> txml option) option" where
  "fetch_document x news_ok expat parser_ok xml url =
     (if \<not> news_ok then Some (TINY_RET_E_NEW, None)
      else do {
        (ret, request) \<leftarrow> HttpMessage_SetRequest [] (snd HttpMessage_Construct) (Some ''GET'') (Some url);
        if RET_FAILED ret then Some (ret, None)
        else do {
          (ret1, _, response) \<leftarrow> HttpClient_Execute (ex_conn x) (ex_bytes_ok x) (ex_oks x) (snd HttpClient_Construct) request
            (snd HttpMessage_Construct);
          if RET_FAILED ret1 then Some (ret1, None)
          else if status_code response \<noteq> HTTP_STATUS_OK then Some (ret1, None)
          else (case xml of
              None \<Rightarrow> Some (TINY_RET_E_NEW, None)
            | Some p \<Rightarrow> do {
                (ret2, doc) \<leftarrow> TinyXml_Parse expat parser_ok p (opt_text (HttpContent_GetObject (content response)));
                Some (ret2, if RET_FAILED ret2 then None else Some doc) }) } })"

definition UpnpServiceParser_Parse ::
    "exchange \<Rightarrow> bool \<Rightarrow> (string \<Rightarrow> sax list \<times> bool) \<Rightarrow> bool \<Rightarrow> txml option \<Rightarrow> char \<Rightarrow> 'f float_ops \<Rightarrow> 'f state_variable
      \<Rightarrow> string option \<Rightarrow> addr \<Rightarrow> 'f sdd \<Rightarrow> (tiny_ret \<times> 'f sdd) option" where
  "UpnpServiceParser_Parse x news_ok expat parser_ok xml past fl garbage url sa st = (case url of
       None \<Rightarrow> Some (TINY_RET_E_ARG_NULL, st)
     | Some s \<Rightarrow> do {
         (ret, doc) \<leftarrow> fetch_document x news_ok expat parser_ok xml s;
         (case doc of None \<Rightarrow> Some (ret, st) | Some d \<Rightarrow> SDD_ParseXml past fl garbage d sa st) })"

subsection \<open>Writing a description\<close>

text \<open>
  \<open>strcat\<close> into a buffer of \<open>len\<close> bytes: a text that does not fit with its terminator overruns it.
  \<open>UpnpServiceParser_ToXml\<close> does not look at the length it is given, which is that of its buffer.
\<close>

definition strcat :: "nat \<Rightarrow> string \<Rightarrow> string \<Rightarrow> string option" where
  "strcat len xml s = (if length xml + length s < len then Some (xml @ s) else None)"

definition xml_field :: "string \<Rightarrow> string \<Rightarrow> string" where
  "xml_field tag t = field_printf 1024 (''<'' @ tag @ ''>'' @ t @ ''</'' @ tag @ ''>'')"

fun arguments_xml :: "nat \<Rightarrow> upnp_action \<Rightarrow> 32 word \<Rightarrow> nat \<Rightarrow> string \<Rightarrow> string option" where
  "arguments_xml len act i 0 xml = Some xml"
| "arguments_xml len act i (Suc n) xml = do {
     arg \<leftarrow> UpnpAction_GetArgumentAt act i;
     name \<leftarrow> UpnpArgument_GetName arg;
     related \<leftarrow> UpnpArgument_GetRelatedStateVariable arg;
     x1 \<leftarrow> strcat len xml ''<argument>'';
     x2 \<leftarrow> strcat len x1 (xml_field ''name'' name);
     x3 \<leftarrow> strcat len x2 (xml_field ''direction'' (UpnpArgumentDirection_ToString (UpnpArgument_GetDirection arg)));
     x4 \<leftarrow> strcat len x3 (xml_field ''relatedStateVariable'' related);
     x5 \<leftarrow> strcat len x4 ''</argument>'';
     arguments_xml len act (i + 1) n x5 }"

definition UpnpServiceParser_ActionToXml :: "upnp_action \<Rightarrow> string \<Rightarrow> nat \<Rightarrow> string option" where
  "UpnpServiceParser_ActionToXml act xml len = do {
     x1 \<leftarrow> strcat len xml ''<action>'';
     name \<leftarrow> UpnpAction_GetName act;
     x2 \<leftarrow> strcat len x1 (xml_field ''name'' name);
     x3 \<leftarrow> strcat len x2 ''<argumentList>'';
     x4 \<leftarrow> arguments_xml len act 0 (unat (UpnpAction_GetArgumentCount act)) x3;
     x5 \<leftarrow> strcat len x4 ''</argumentList>'';
     strcat len x5 ''</action>'' }"

definition UpnpServiceParser_StateToXml :: "'f service_variable \<Rightarrow> string \<Rightarrow> nat \<Rightarrow> string option" where
  "UpnpServiceParser_StateToXml v xml len = do {
     x1 \<leftarrow> strcat len xml (field_printf 1024 (''<stateVariable sendEvents=\"'' @ DataType_BooleanToString (send_events v) @ ''\">''));
     name \<leftarrow> read_field STATE_VARIABLE_NAME_LEN (var_name (sv_def v));
     x2 \<leftarrow> strcat len x1 (xml_field ''name'' name);
     ty \<leftarrow> read_field DATA_TYPE_NAME_LEN (type_name (var_type (sv_def v)));
     x3 \<leftarrow> strcat len x2 (xml_field ''dataType'' ty);
     strcat len x3 ''</stateVariable>'' }"

definition PIECE_LEN :: nat where "PIECE_LEN = 1024 * 4"

fun actions_xml :: "nat \<Rightarrow> 'f ustore \<Rightarrow> 'f upnp_service \<Rightarrow> 32 word \<Rightarrow> nat \<Rightarrow> string \<Rightarrow> string option" where
  "actions_xml len u s i 0 xml = Some xml"
| "actions_xml len u s i (Suc n) xml = do {
     a \<leftarrow> UpnpService_GetActionAt s i;
     act \<leftarrow> act_at u a;
     buf \<leftarrow> UpnpServiceParser_ActionToXml act [] PIECE_LEN;
     x1 \<leftarrow> strcat len xml buf;
     actions_xml len u s (i + 1) n x1 }"

fun states_xml :: "nat \<Rightarrow> 'f upnp_service \<Rightarrow> 32 word \<Rightarrow> nat \<Rightarrow> string \<Rightarrow> string option" where
  "states_xml len s i 0 xml = Some xml"
| "states_xml len s i (Suc n) xml = do {
     v \<leftarrow> UpnpService_GetStateVariableAt s i;
     buf \<leftarrow> UpnpServiceParser_StateToXml v [] PIECE_LEN;
     x1 \<leftarrow> strcat len xml buf;
     states_xml len s (i + 1) n x1 }"

definition scpd_head :: string where
  "scpd_head = ''<?xml version=\"1.0\" encoding=\"utf-8\"?><scpd xmlns=\"urn:schemas-upnp-org:service-1-0\">'' @
     ''<specVersion><major>1</major><minor>0</minor></specVersion>''"

definition UpnpServiceParser_ToXml :: "'f ustore \<Rightarrow> 'f upnp_service \<Rightarrow> string \<Rightarrow> nat \<Rightarrow> (32 word \<times> string) option" where
  "UpnpServiceParser_ToXml u s xml len = do {
     x1 \<leftarrow> strcat len xml scpd_head;
     x2 \<leftarrow> strcat len x1 ''<actionList>'';
     x3 \<leftarrow> actions_xml len u s 0 (unat (UpnpService_GetActionCount s)) x2;
     x4 \<leftarrow> strcat len x3 ''</actionList>'';
     x5 \<leftarrow> strcat len x4 ''<serviceStateTable>'';
     x6 \<leftarrow> states_xml len s 0 (unat (UpnpService_GetStateVariableCount s)) x5;
     x7 \<leftarrow> strcat len x6 ''</serviceStateTable>'';
     x8 \<leftarrow> strcat len x7 ''</scpd>'';
     Some (word_of_nat (length x8), x8) }"

end
