(* ===== verification/ServiceDescription.thy ===== *)
theory ServiceDescription
  imports ServiceParser
begin

section \<open>What a service description says\<close>

text \<open>
  The abstract side of UpnpServiceParser: a description is a list of actions with their arguments
  and a list of typed state variables. The first half says which document carries a given
  description and that the SDD reader takes exactly that description from it; the second half
  says that the writer prints exactly that document for a service. Together they give the round
  trip over the text, with the XML library as a parameter.
\<close>

subsection \<open>What a description says\<close>

text \<open>
  A state variable by name, type and whether it is evented; an argument by name, direction and the
  variable it relates to; an action by name and arguments.
\<close>

type_synonym variable_view = "string \<times> string \<times> bool"
type_synonym argument_view = "string \<times> arg_direction \<times> string"
type_synonym action_view = "string \<times> argument_view list"

definition fields :: "(string \<times> string) list \<Rightarrow> xitem list" where
  "fields kvs = map (\<lambda>kv. XElem (fst kv) [] (value_items (snd kv))) kvs"

definition variable_doc :: "variable_view \<Rightarrow> xitem" where
  "variable_doc v = XElem ''stateVariable'' [(''sendEvents'', DataType_BooleanToString (snd (snd v)))]
     (fields [(''name'', fst v), (''dataType'', fst (snd v))])"

definition argument_doc :: "argument_view \<Rightarrow> xitem" where
  "argument_doc a = XElem ''argument'' [] (fields [(''name'', fst a),
     (''direction'', UpnpArgumentDirection_ToString (fst (snd a))), (''relatedStateVariable'', snd (snd a))])"

definition action_doc :: "action_view \<Rightarrow> xitem" where
  "action_doc a = XElem ''action'' [] (fields [(''name'', fst a)] @ [XElem ''argumentList'' [] (map argument_doc (snd a))])"

definition version_doc :: xitem where
  "version_doc = XElem ''specVersion'' [] (fields [(''major'', ''1''), (''minor'', ''0'')])"

definition scpd_doc :: "action_view list \<Rightarrow> variable_view list \<Rightarrow> xitem" where
  "scpd_doc acts vars = XElem ''scpd'' [(''xmlns'', ''urn:schemas-upnp-org:service-1-0'')]
     [version_doc, XElem ''actionList'' [] (map action_doc acts), XElem ''serviceStateTable'' [] (map variable_doc vars)]"

text \<open>Texts that are kept: not empty, no white space in front, short.\<close>

definition name_ok :: "nat \<Rightarrow> string \<Rightarrow> bool" where
  "name_ok n s \<longleftrightarrow> s \<noteq> [] \<and> \<not> is_blank (hd s) \<and> cstring s \<and> length s < n"

definition variable_ok :: "variable_view \<Rightarrow> bool" where
  "variable_ok v \<longleftrightarrow> name_ok STATE_VARIABLE_NAME_LEN (fst v) \<and> name_ok DATA_TYPE_NAME_LEN (fst (snd v))"

definition argument_ok :: "argument_view \<Rightarrow> bool" where
  "argument_ok a \<longleftrightarrow> name_ok UpnpArgument_NAME_LEN (fst a) \<and> fst (snd a) \<noteq> ARG_UNKNOWN \<and> name_ok VARIABLE_NAME_LEN (snd (snd a))"

definition action_ok' :: "action_view \<Rightarrow> bool" where
  "action_ok' a \<longleftrightarrow> name_ok NAME_LEN (fst a) \<and> list_all argument_ok (snd a) \<and> length (snd a) < 2 ^ 31"

subsection \<open>Reading the elements\<close>

lemma name_ok_text: "name_ok n s \<Longrightarrow> elem_text (value_items s) = Some s"
  by (cases s) (auto simp: name_ok_def value_items_def elem_text_def)

definition tag_ok :: "string \<Rightarrow> bool" where
  "tag_ok k \<longleftrightarrow> CHR '':'' \<notin> set k \<and> length k < XML_TAG_NAME_LEN"

lemma tag_name: "tag_ok k \<Longrightarrow> local_name (XElem k atts its) = k"
  unfolding tag_ok_def by (intro local_name_plain) simp_all

lemma elements_all: "list_all (\<lambda>e. \<exists>n atts its. e = XElem n atts its) es \<Longrightarrow> elements es = es"
  by (induction es rule: elements.induct) auto

lemma elements_fields [simp]: "elements (fields kvs) = fields kvs"
  by (rule elements_all) (auto simp: fields_def list_all_iff)

lemma field_content:
  assumes "rep lo hi h p d a (XElem nm atts (fields kvs))" and "list_all (\<lambda>kv. tag_ok (fst kv)) kvs" and "cstring s"
  shows "TinyXmlNode_GetChildContent past h (Some a) (Some s) =
    Some (Option.bind (List.find (\<lambda>kv. map tolower (fst kv) = map tolower s) kvs) (\<lambda>kv. elem_text (value_items (snd kv))))"
proof -
  have len: "list_all (\<lambda>e. length (local_name e) < XML_TAG_NAME_LEN) (elements (fields kvs))"
    using assms(2) unfolding elements_fields fields_def list_all_iff
    by (auto simp: tag_name simp del: local_name.simps) (auto simp: tag_ok_def)
  have "Option.bind (List.find (\<lambda>e. map tolower (local_name e) = map tolower s) (fields kvs)) item_text =
      Option.bind (List.find (\<lambda>kv. map tolower (fst kv) = map tolower s) kvs) (\<lambda>kv. elem_text (value_items (snd kv)))"
    using assms(2) by (induction kvs) (auto simp: fields_def tag_name simp del: local_name.simps)
  then show ?thesis using child_content [OF assms(1,3) len] by simp
qed

lemma tags:
  "tag_ok ''name''" "tag_ok ''dataType''" "tag_ok ''direction''" "tag_ok ''relatedStateVariable''" "tag_ok ''stateVariable''"
  "tag_ok ''argument''" "tag_ok ''argumentList''" "tag_ok ''action''" "tag_ok ''actionList''" "tag_ok ''serviceStateTable''"
  "tag_ok ''specVersion''" "tag_ok ''major''" "tag_ok ''minor''" "tag_ok ''scpd''"
  by (simp_all add: tag_ok_def XML_TAG_NAME_LEN_def)

lemma cstring_tags:
  "cstring ''name''" "cstring ''dataType''" "cstring ''direction''" "cstring ''relatedStateVariable''" "cstring ''stateVariable''"
  "cstring ''argument''" "cstring ''argumentList''" "cstring ''action''" "cstring ''actionList''" "cstring ''serviceStateTable''"
  "cstring ''specVersion''" "cstring ''major''" "cstring ''minor''" "cstring ''scpd''"
  by (simp_all add: cstring_def)

lemmas lower = tolower_def char_of_def bit_0

lemma elem_tag:
  "rep lo hi h p d a (XElem k atts its) \<Longrightarrow> tag_ok k \<Longrightarrow> TinyXmlNode_GetName h (Some a) = Some (Some k)"
  using elem_name [of lo hi h p d a "XElem k atts its"] tag_name [of k atts its] by (simp add: tag_ok_def)

lemma variable_read:
  assumes "rep lo hi h p d a (variable_doc v)" and "variable_ok v"
  shows "state_parts past h (Some a) = Some (Some (\<lparr>attr_name = ''sendEvents'', attr_value = DataType_BooleanToString (snd (snd v))\<rparr>,
    fst v, fst (snd v)))"
proof -
  note r = assms(1) [unfolded variable_doc_def]
  have b: "field_cpy XML_ATTR_VALUE_LEN (DataType_BooleanToString (snd (snd v))) = DataType_BooleanToString (snd (snd v))"
    by (simp add: DataType_BooleanToString_def field_cpy_def XML_ATTR_VALUE_LEN_def)
  have at: "TinyXmlNode_GetAttr h (Some a) (Some ''sendEvents'') =
      Some (Some \<lparr>attr_name = ''sendEvents'', attr_value = DataType_BooleanToString (snd (snd v))\<rparr>)"
    using get_attr [OF r, of "''sendEvents''"] b by (simp add: XML_ATTR_NAME_LEN_def)
  have ok: "elem_text (value_items (fst v)) = Some (fst v)" "elem_text (value_items (fst (snd v))) = Some (fst (snd v))"
    using assms(2) name_ok_text by (auto simp: variable_ok_def)
  have c: "TinyXmlNode_GetChildContent past h (Some a) (Some ''name'') = Some (Some (fst v))"
      "TinyXmlNode_GetChildContent past h (Some a) (Some ''dataType'') = Some (Some (fst (snd v)))"
    using field_content [OF r _ cstring_tags(1)] field_content [OF r _ cstring_tags(2)]
    by (simp_all add: tags lower ok)
  show ?thesis
    using elem_tag [OF r tags(5)] at c
    by (simp add: state_parts_def str_equal_child cstring_tags)
qed

definition grown :: "'a lspec \<Rightarrow> 'a list \<Rightarrow> 'a lspec" where
  "grown l xs = l\<lparr>items := items l @ map Some xs, count := lspec.count l + word_of_nat (length xs)\<rparr>"

lemma grown_simps: "grown l [] = l" "grown (grown l xs) ys = grown l (xs @ ys)" "L_AddTail True (Some x) l = (TINY_RET_OK, grown l [x])"
  by (simp_all add: grown_def L_AddTail_def)

definition read_variable :: "'f float_ops \<Rightarrow> 'f state_variable \<Rightarrow> variable_view \<Rightarrow> 'f service_variable" where
  "read_variable fl garbage v = (let ty = InternalType_RetrieveType (fst (snd v)) in
     state_variable.extend (garbage\<lparr>sv_def := \<lparr>var_name = fst v, var_type = \<lparr>internal_type = ty, type_name = fst (snd v)\<rparr>\<rparr>,
       send_events := snd (snd v), sv_value := zero_value fl ty\<rparr>) (service_variable.fields None))"

definition variable_of_view :: "'f float_ops \<Rightarrow> 'f state_variable \<Rightarrow> addr \<Rightarrow> variable_view \<Rightarrow> 'f service_variable" where
  "variable_of_view fl garbage sa v = (read_variable fl garbage v)\<lparr>sv_service := Some sa\<rparr>"

lemma boolean_text: "DataType_StringToBoolean (Some (DataType_BooleanToString b)) = b"
  by (subst string_to_boolean) (simp_all add: DataType_BooleanToString_def cstring_def lower)

lemma variable_made:
  assumes "variable_ok v"
  shows "new_variable fl garbage (fst v) (fst (snd v)) (DataType_BooleanToString (snd (snd v))) = Some (read_variable fl garbage v)"
  using assms
  by (simp add: new_variable_def read_variable_def variable_ok_def name_ok_def UpnpStateVariable_New_def UpnpStateVariable_Construct_def
      UpnpStateVariable_Initialize_def DataType_SetName_def DataType_Construct_def DataValue_Copy_def
      UpnpStateVariableDefinition_Initialize_def DataType_Copy_def DataType_Dispose_def boolean_text Let_def RET_FAILED_def ret_defs
      field_cpy_short)

lemma state_loop_from:
  assumes "rep lo hi h p d table (XElem nm atts (map variable_doc vars))" and "list_all variable_ok vars" and "i + n = length vars"
    and "length vars < 2 ^ 31"
  shows "state_loop past fl garbage h table sa (word_of_nat i) n (s, []) = Some (TINY_RET_OK,
    s\<lparr>stateVariableTable := grown (stateVariableTable s) (map (variable_of_view fl garbage sa) (drop i vars))\<rparr>, [])"
  using assms(3)
proof (induction n arbitrary: i s)
  case 0
  then show ?case by (simp add: grown_simps)
next
  case (Suc n)
  have els: "elements (map variable_doc vars) = map variable_doc vars"
    by (rule elements_all) (auto simp: variable_doc_def list_all_iff)
  have i: "i < length vars" using Suc.prems by simp
  obtain c where c: "TinyXmlNode_GetChildAt h (Some table) (word_of_nat i) = Some (Some c)"
      "rep lo hi h (Some table) (d + 1) c (variable_doc (vars ! i))"
    using child_at [OF assms(1), of i] i assms(4) by (auto simp: els)
  have ok: "variable_ok (vars ! i)" using assms(2) i by (simp add: list_all_length)
  have b: "read_field XML_ATTR_VALUE_LEN (DataType_BooleanToString e) = Some (DataType_BooleanToString e)" for e
    by (simp add: DataType_BooleanToString_def read_field_def XML_ATTR_VALUE_LEN_def)
  let ?s = "s\<lparr>stateVariableTable := grown (stateVariableTable s) [variable_of_view fl garbage sa (vars ! i)]\<rparr>"
  have "state_loop past fl garbage h table sa (word_of_nat i) (Suc n) (s, []) =
      state_loop past fl garbage h table sa (word_of_nat (Suc i)) n (?s, [])"
    by (simp add: c(1) variable_read [OF c(2) ok] b variable_made [OF ok] UpnpService_AddStateVariable_def grown_simps
        variable_of_view_def word_of_nat_Suc add.commute [of 1])
  also have "\<dots> = Some (TINY_RET_OK,
      ?s\<lparr>stateVariableTable := grown (stateVariableTable ?s) (map (variable_of_view fl garbage sa) (drop (Suc i) vars))\<rparr>, [])"
    using Suc.IH [of "Suc i" ?s] Suc.prems by simp
  finally show ?case by (simp add: grown_simps Cons_nth_drop_Suc [OF i, symmetric])
qed

lemma argument_read:
  assumes "rep lo hi h p d a (argument_doc x)" and "argument_ok x"
  shows "argument_parts past h (Some a) = Some (Some x)"
proof -
  obtain n dir r where x: "x = (n, dir, r)" by (cases x)
  note rp = assms(1) [unfolded argument_doc_def x fst_conv snd_conv]
  have dir: "elem_text (value_items (UpnpArgumentDirection_ToString dir)) = Some (UpnpArgumentDirection_ToString dir)"
      "UpnpArgumentDirection_Retrieve (Some (UpnpArgumentDirection_ToString dir)) = dir" "dir \<noteq> ARG_UNKNOWN"
    using assms(2) by (cases dir; simp add: x argument_ok_def value_items_def elem_text_def is_blank_def DIRECTION_IN_def
        DIRECTION_OUT_def UpnpArgumentDirection_Retrieve_def STR_EQUAL_def)+
  have ok: "elem_text (value_items n) = Some n" "elem_text (value_items r) = Some r"
    using assms(2) name_ok_text by (auto simp: x argument_ok_def)
  have c: "TinyXmlNode_GetChildContent past h (Some a) (Some ''name'') = Some (Some n)"
      "TinyXmlNode_GetChildContent past h (Some a) (Some ''direction'') = Some (Some (UpnpArgumentDirection_ToString dir))"
      "TinyXmlNode_GetChildContent past h (Some a) (Some ''relatedStateVariable'') = Some (Some r)"
    using field_content [OF rp _ cstring_tags(1)] field_content [OF rp _ cstring_tags(3)] field_content [OF rp _ cstring_tags(4)]
    by (simp_all add: tags lower ok dir)
  show ?thesis
    using elem_tag [OF rp tags(6)] c dir(2,3)
    by (simp add: argument_parts_def str_equal_child cstring_tags x)
qed

definition argument_of_view :: "argument_view \<Rightarrow> upnp_argument" where
  "argument_of_view a = \<lparr>arg_name = fst a, direction = fst (snd a), relatedStateVariable = snd (snd a)\<rparr>"

lemma argument_made: "argument_ok a \<Longrightarrow> UpnpArgument_New True (fst a) (fst (snd a)) (snd (snd a)) = Some (argument_of_view a)"
  by (simp add: UpnpArgument_New_def UpnpArgument_Construct_def argument_of_view_def argument_ok_def name_ok_def field_cpy_short
      RET_FAILED_def ret_defs)

lemma argument_loop_from:
  assumes "rep lo hi h p d l (XElem nm atts (map argument_doc args))" and "list_all argument_ok args" and "i + n = length args"
    and "length args < 2 ^ 31"
  shows "argument_loop past h l (word_of_nat i) n (act, []) =
    Some (act\<lparr>argumentList := grown (argumentList act) (map argument_of_view (drop i args))\<rparr>, [])"
  using assms(3)
proof (induction n arbitrary: i act)
  case 0
  then show ?case by (simp add: grown_simps)
next
  case (Suc n)
  have els: "elements (map argument_doc args) = map argument_doc args"
    by (rule elements_all) (auto simp: argument_doc_def list_all_iff)
  have i: "i < length args" using Suc.prems by simp
  obtain c where c: "TinyXmlNode_GetChildAt h (Some l) (word_of_nat i) = Some (Some c)"
      "rep lo hi h (Some l) (d + 1) c (argument_doc (args ! i))"
    using child_at [OF assms(1), of i] i assms(4) by (auto simp: els)
  have ok: "argument_ok (args ! i)" using assms(2) i by (simp add: list_all_length)
  obtain x1 x2 x3 where x: "args ! i = (x1, x2, x3)" by (cases "args ! i")
  let ?a = "act\<lparr>argumentList := grown (argumentList act) [argument_of_view (args ! i)]\<rparr>"
  have "argument_loop past h l (word_of_nat i) (Suc n) (act, []) = argument_loop past h l (word_of_nat (Suc i)) n (?a, [])"
    using argument_made [OF ok]
    by (simp add: c(1) argument_read [OF c(2) ok] x UpnpAction_AddArgument_def grown_simps word_of_nat_Suc add.commute [of 1])
  also have "\<dots> = Some (?a\<lparr>argumentList := grown (argumentList ?a) (map argument_of_view (drop (Suc i) args))\<rparr>, [])"
    using Suc.IH [of "Suc i" ?a] Suc.prems by simp
  finally show ?case by (simp add: grown_simps Cons_nth_drop_Suc [OF i, symmetric])
qed

definition read_action :: "addr option \<Rightarrow> action_view \<Rightarrow> upnp_action" where
  "read_action service a = \<lparr>act_service = service, act_name = fst a,
     argumentList = grown (L_SetDeleteListener True L_new) (map argument_of_view (snd a))\<rparr>"

text \<open>The actions that are read: those with an argument.\<close>

definition with_arguments :: "action_view list \<Rightarrow> action_view list" where
  "with_arguments acts = filter (\<lambda>a. snd a \<noteq> []) acts"

lemma elements_docs: "elements (map variable_doc vs) = map variable_doc vs" "elements (map argument_doc xs) = map argument_doc xs"
    "elements (map action_doc ys) = map action_doc ys"
  by (rule elements_all; auto simp: variable_doc_def argument_doc_def action_doc_def list_all_iff)+

lemma action_read:
  assumes "rep lo hi h p d a (action_doc x)" and "action_ok' x"
  shows "if snd x = [] then action_parts past h (Some a) = Some None
    else \<exists>l. action_parts past h (Some a) = Some (Some (fst x, l, length (snd x)))
      \<and> rep lo hi h (Some a) (d + 1) l (XElem ''argumentList'' [] (map argument_doc (snd x)))"
proof -
  let ?al = "XElem ''argumentList'' [] (map argument_doc (snd x))"
  note r = assms(1) [unfolded action_doc_def]
  have els: "elements (fields [(''name'', fst x)] @ [?al]) = [XElem ''name'' [] (value_items (fst x)), ?al]"
    by (simp add: fields_def)
  have len: "list_all (\<lambda>e. length (local_name e) < XML_TAG_NAME_LEN) (elements (fields [(''name'', fst x)] @ [?al]))"
    unfolding els by (simp add: tag_name tags XML_TAG_NAME_LEN_def del: local_name.simps)
  have nm: "elem_text (value_items (fst x)) = Some (fst x)" using assms(2) name_ok_text by (auto simp: action_ok'_def)
  have c: "TinyXmlNode_GetChildContent past h (Some a) (Some ''name'') = Some (Some (fst x))"
    using child_content [OF r cstring_tags(1) len] unfolding els by (simp add: tag_name tags lower nm del: local_name.simps)
  obtain l where l: "TinyXmlNode_GetChildByName past h (Some a) (Some ''argumentList'') = Some (Some l)"
      "rep lo hi h (Some a) (d + 1) l ?al"
    using child_by_name [OF r cstring_tags(7) len, of past] unfolding els
    by (auto simp add: tag_name tags lower simp del: local_name.simps)
  have n: "length (snd x) < 2 ^ 31" using assms(2) by (simp add: action_ok'_def)
  have k: "TinyXmlNode_GetChildren h (Some l) = Some (word_of_nat (length (snd x)))"
    using children_count [OF l(2)] n by (simp add: elements_docs)
  have u: "unat (word_of_nat (length (snd x)) :: 32 word) = length (snd x)" using n by (intro unat_word_of_nat) simp
  then have z: "(word_of_nat (length (snd x)) :: 32 word) = 0 \<longleftrightarrow> snd x = []" by (metis length_0_conv unat_0 unat_eq_zero)
  show ?thesis
    using elem_tag [OF r tags(8)] c l k u z by (simp add: action_parts_def str_equal_child cstring_tags)
qed

definition placed :: "addr \<Rightarrow> upnp_action list \<Rightarrow> (addr \<Rightarrow> upnp_action option) \<Rightarrow> addr \<Rightarrow> upnp_action option" where
  "placed b xs f a = (if b \<le> a \<and> a < b + length xs then Some (xs ! (a - b)) else f a)"

lemma placed_simps: "placed b [] f = f" "placed (b + 1) xs (f(b \<mapsto> x)) = placed b (x # xs) f"
proof -
  show "placed b [] f = f" by (rule ext) (auto simp: placed_def)
  show "placed (b + 1) xs (f(b \<mapsto> x)) = placed b (x # xs) f"
  proof
    fix a
    have "a - Suc b = k" if "a - b = Suc k" for k using that by simp
    then show "placed (b + 1) xs (f(b \<mapsto> x)) a = placed b (x # xs) f a"
      by (cases "a = b"; cases "a - b") (auto simp: placed_def)
  qed
qed

text \<open>The store after the actions \<open>acts\<close> were added to the service at \<open>sa\<close>.\<close>

definition with_actions :: "'f sdd \<Rightarrow> addr \<Rightarrow> action_view list \<Rightarrow> 'f sdd" where
  "with_actions st sa acts = (let u = sdd_store st; b = sdd_brk st; n = length acts in
     st\<lparr>sdd_store := u\<lparr>act_at := placed b (map (read_action (Some sa)) acts) (act_at u),
          srv_at := (srv_at u)(sa := map_option (\<lambda>s. s\<lparr>actionList := grown (actionList s) [b..<b + n]\<rparr>) (srv_at u sa))\<rparr>,
        sdd_brk := b + n\<rparr>)"

lemma with_actions_Nil: "srv_at (sdd_store st) sa = Some s \<Longrightarrow> with_actions st sa [] = st"
  by (simp add: with_actions_def placed_simps grown_simps Let_def fun_upd_idem)

lemma with_actions_Cons:
  assumes "srv_at (sdd_store st) sa = Some s" and "sdd_mem st = []"
  shows "with_actions \<lparr>sdd_store = (sdd_store st)
        \<lparr>act_at := (act_at (sdd_store st))(sdd_brk st \<mapsto> read_action (Some sa) a),
         srv_at := (srv_at (sdd_store st))(sa \<mapsto> s\<lparr>actionList := grown (actionList s) [sdd_brk st]\<rparr>)\<rparr>,
      sdd_brk = sdd_brk st + 1, sdd_mem = []\<rparr> sa acts = with_actions st sa (a # acts)"
proof -
  have "[sdd_brk st] @ [sdd_brk st + 1..<sdd_brk st + 1 + length acts] = [sdd_brk st..<sdd_brk st + Suc (length acts)]"
    by (subst upt_conv_Cons [of "sdd_brk st"]) simp_all
  then show ?thesis
    using assms placed_simps(2) [of "sdd_brk st" "map (read_action (Some sa)) acts" "act_at (sdd_store st)" "read_action (Some sa) a"]
    by (cases st) (simp add: with_actions_def Let_def grown_simps)
qed

lemma actions_loop_from:
  assumes "rep lo hi h p d l (XElem nm atts (map action_doc acts))" and "list_all action_ok' acts" and "i + n = length acts"
    and "length acts < 2 ^ 31" and "srv_at (sdd_store st) sa = Some s" and "sdd_mem st = []"
  shows "actions_loop past h l sa (word_of_nat i) n (TINY_RET_OK, st) = Some (TINY_RET_OK, with_actions st sa (with_arguments (drop i acts)))"
  using assms(3,5,6)
proof (induction n arbitrary: i st s)
  case 0
  then show ?case by (simp add: with_arguments_def with_actions_Nil)
next
  case (Suc n)
  have i: "i < length acts" using Suc.prems by simp
  obtain c where c: "TinyXmlNode_GetChildAt h (Some l) (word_of_nat i) = Some (Some c)"
      "rep lo hi h (Some l) (d + 1) c (action_doc (acts ! i))"
    using child_at [OF assms(1), of i] i assms(4) by (auto simp: elements_docs)
  have ok: "action_ok' (acts ! i)" using assms(2) i by (simp add: list_all_length)
  obtain nm' args where x: "acts ! i = (nm', args)" by (cases "acts ! i")
  have dr: "drop i acts = (nm', args) # drop (Suc i) acts" using Cons_nth_drop_Suc [OF i] x by simp
  note rd = action_read [OF c(2) ok, of past]
  show ?case
  proof (cases "args = []")
    case True
    then have "actions_loop past h l sa (word_of_nat i) (Suc n) (TINY_RET_OK, st) =
        actions_loop past h l sa (word_of_nat (Suc i)) n (TINY_RET_OK, st)"
      using rd by (simp add: c(1) x word_of_nat_Suc add.commute [of 1])
    also have "\<dots> = Some (TINY_RET_OK, with_actions st sa (with_arguments (drop (Suc i) acts)))"
      using Suc.IH [of "Suc i" st s] Suc.prems by simp
    finally show ?thesis using True by (simp add: dr with_arguments_def)
  next
    case False
    then obtain al where al: "action_parts past h (Some c) = Some (Some (nm', al, length args))"
        "rep lo hi h (Some c) (d + 1 + 1) al (XElem ''argumentList'' [] (map argument_doc args))"
      using rd by (auto simp: x)
    have aok: "list_all argument_ok args" "length args < 2 ^ 31" "field_cpy NAME_LEN nm' = nm'"
      using ok by (simp_all add: x action_ok'_def name_ok_def field_cpy_short)
    let ?act0 = "\<lparr>act_service = None, act_name = nm', argumentList = L_SetDeleteListener True L_new\<rparr>"
    have loop: "argument_loop past h al 0 (length args) (?act0, []) =
        Some (?act0\<lparr>argumentList := grown (argumentList ?act0) (map argument_of_view args)\<rparr>, [])"
      using argument_loop_from [OF al(2) aok(1) _ aok(2), of 0 "length args" past ?act0] by simp
    let ?st = "\<lparr>sdd_store = (sdd_store st)
        \<lparr>act_at := (act_at (sdd_store st))(sdd_brk st \<mapsto> read_action (Some sa) (nm', args)),
         srv_at := (srv_at (sdd_store st))(sa \<mapsto> s\<lparr>actionList := grown (actionList s) [sdd_brk st]\<rparr>)\<rparr>,
      sdd_brk = sdd_brk st + 1, sdd_mem = []\<rparr>"
    have "actions_loop past h l sa (word_of_nat i) (Suc n) (TINY_RET_OK, st) =
        actions_loop past h l sa (word_of_nat (Suc i)) n (TINY_RET_OK, ?st)"
      using loop Suc.prems(2,3)
      by (simp add: c(1) al(1) UpnpAction_New_def UpnpAction_Construct_def UpnpAction_SetName_def aok(3) UpnpService_AddAction_def
          UpnpAction_SetParentService_def grown_simps read_action_def word_of_nat_Suc add.commute [of 1] RET_FAILED_def ret_defs Let_def)
    also have "\<dots> = Some (TINY_RET_OK, with_actions ?st sa (with_arguments (drop (Suc i) acts)))"
      using Suc.IH [of "Suc i" ?st] Suc.prems by simp
    also have "with_actions ?st sa (with_arguments (drop (Suc i) acts)) = with_actions st sa (with_arguments (drop i acts))"
      using False with_actions_Cons [OF Suc.prems(2,3)] by (simp only: dr with_arguments_def filter.simps snd_conv) simp
    finally show ?thesis .
  qed
qed

definition with_states :: "'f float_ops \<Rightarrow> 'f state_variable \<Rightarrow> 'f sdd \<Rightarrow> addr \<Rightarrow> variable_view list \<Rightarrow> 'f sdd" where
  "with_states fl garbage st sa vars = (let u = sdd_store st in
     st\<lparr>sdd_store := u\<lparr>srv_at := (srv_at u)(sa := map_option (\<lambda>s. s\<lparr>stateVariableTable :=
       grown (stateVariableTable s) (map (variable_of_view fl garbage sa) vars)\<rparr>) (srv_at u sa))\<rparr>\<rparr>)"

lemma root_children:
  assumes "rep lo hi h p d root (scpd_doc acts vars)"
  shows "\<exists>v a t. TinyXmlNode_GetChildByName past h (Some root) (Some ''specVersion'') = Some (Some v)
    \<and> rep lo hi h (Some root) (d + 1) v version_doc
    \<and> TinyXmlNode_GetChildByName past h (Some root) (Some ''actionList'') = Some (Some a)
    \<and> rep lo hi h (Some root) (d + 1) a (XElem ''actionList'' [] (map action_doc acts))
    \<and> TinyXmlNode_GetChildByName past h (Some root) (Some ''serviceStateTable'') = Some (Some t)
    \<and> rep lo hi h (Some root) (d + 1) t (XElem ''serviceStateTable'' [] (map variable_doc vars))"
proof -
  let ?its = "[version_doc, XElem ''actionList'' [] (map action_doc acts), XElem ''serviceStateTable'' [] (map variable_doc vars)]"
  note r = assms [unfolded scpd_doc_def]
  have els: "elements ?its = ?its" by (rule elements_all) (simp add: version_doc_def)
  have nm: "local_name version_doc = ''specVersion''" unfolding version_doc_def by (rule tag_name [OF tags(11)])
  have len: "list_all (\<lambda>e. length (local_name e) < XML_TAG_NAME_LEN) (elements ?its)"
    unfolding els by (simp add: tag_name tags nm XML_TAG_NAME_LEN_def del: local_name.simps)
  have "\<exists>v. TinyXmlNode_GetChildByName past h (Some root) (Some ''specVersion'') = Some (Some v)
      \<and> rep lo hi h (Some root) (d + 1) v version_doc"
    using child_by_name [OF r cstring_tags(11) len, of past] unfolding els
    by (simp add: tag_name tags nm lower del: local_name.simps)
  moreover have "\<exists>v. TinyXmlNode_GetChildByName past h (Some root) (Some ''actionList'') = Some (Some v)
      \<and> rep lo hi h (Some root) (d + 1) v (XElem ''actionList'' [] (map action_doc acts))"
    using child_by_name [OF r cstring_tags(9) len, of past] unfolding els
    by (simp add: tag_name tags nm lower del: local_name.simps rep.simps)
  moreover have "\<exists>v. TinyXmlNode_GetChildByName past h (Some root) (Some ''serviceStateTable'') = Some (Some v)
      \<and> rep lo hi h (Some root) (d + 1) v (XElem ''serviceStateTable'' [] (map variable_doc vars))"
    using child_by_name [OF r cstring_tags(10) len, of past] unfolding els
    by (simp add: tag_name tags nm lower del: local_name.simps rep.simps)
  ultimately show ?thesis by blast
qed

lemma version_read:
  assumes "rep lo hi h p d v version_doc"
  shows "TinyXmlNode_GetChildContent past h (Some v) (Some ''major'') = Some (Some ''1'')"
    "TinyXmlNode_GetChildContent past h (Some v) (Some ''minor'') = Some (Some ''0'')"
  using field_content [OF assms [unfolded version_doc_def] _ cstring_tags(12)]
    field_content [OF assms [unfolded version_doc_def] _ cstring_tags(13)]
  by (simp_all add: tags lower value_items_def elem_text_def is_blank_def)

lemma word_zero_length: "length xs < 2 ^ 31 \<Longrightarrow> (word_of_nat (length xs) :: 32 word) = 0 \<longleftrightarrow> xs = []"
  "length xs < 2 ^ 31 \<Longrightarrow> unat (word_of_nat (length xs) :: 32 word) = length xs"
proof -
  assume "length xs < 2 ^ 31"
  then show u: "unat (word_of_nat (length xs) :: 32 word) = length xs" by (intro unat_word_of_nat) simp
  then show "(word_of_nat (length xs) :: 32 word) = 0 \<longleftrightarrow> xs = []" by (metis length_0_conv unat_0 unat_eq_zero)
qed

lemma description_read:
  assumes "rep lo hi (xml_heap x) None d root (scpd_doc acts vars)" and "TinyXml_GetRoot x = Some root"
    and "list_all action_ok' acts" "length acts < 2 ^ 31" "list_all variable_ok vars" "length vars < 2 ^ 31"
    and "srv_at (sdd_store st) sa = Some s" and "sdd_mem st = []"
  shows "SDD_ParseXml past fl garbage x sa st = Some (
    if vars = [] then (TINY_RET_E_XML_INVALID, st)
    else if acts = [] then (TINY_RET_E_XML_INVALID, with_states fl garbage st sa vars)
    else (TINY_RET_OK, with_actions (with_states fl garbage st sa vars) sa (with_arguments acts)))"
proof -
  let ?h = "xml_heap x"
  obtain v a t where c: "TinyXmlNode_GetChildByName past ?h (Some root) (Some ''specVersion'') = Some (Some v)"
      "rep lo hi ?h (Some root) (d + 1) v version_doc"
      "TinyXmlNode_GetChildByName past ?h (Some root) (Some ''actionList'') = Some (Some a)"
      "rep lo hi ?h (Some root) (d + 1) a (XElem ''actionList'' [] (map action_doc acts))"
      "TinyXmlNode_GetChildByName past ?h (Some root) (Some ''serviceStateTable'') = Some (Some t)"
      "rep lo hi ?h (Some root) (d + 1) t (XElem ''serviceStateTable'' [] (map variable_doc vars))"
    using root_children [OF assms(1)] by blast
  have version: "SDD_LoadSpecVersion past ?h root = Some TINY_RET_OK"
    by (simp add: SDD_LoadSpecVersion_def c(1) version_read [OF c(2)])
  have n: "TinyXmlNode_GetChildren ?h (Some t) = Some (word_of_nat (length vars))"
      "TinyXmlNode_GetChildren ?h (Some a) = Some (word_of_nat (length acts))"
    using children_count [OF c(6)] children_count [OF c(4)] assms(4,6) by (simp_all add: elements_docs)
  let ?s = "s\<lparr>stateVariableTable := grown (stateVariableTable s) (map (variable_of_view fl garbage sa) vars)\<rparr>"
  have table: "SDD_LoadServiceStateTable past fl garbage ?h root sa (s, sdd_mem st) =
      Some (if vars = [] then (TINY_RET_E_XML_INVALID, s, []) else (TINY_RET_OK, ?s, []))"
    using state_loop_from [OF c(6) assms(5) _ assms(6), of 0 "length vars" past fl garbage sa s] word_zero_length [of vars] assms(6,8)
    by (simp add: SDD_LoadServiceStateTable_def c(5) n(1))
  have list: "SDD_LoadActionList past ?h root sa st1 = Some (if acts = [] then (TINY_RET_E_XML_INVALID, st1)
      else (TINY_RET_OK, with_actions st1 sa (with_arguments acts)))"
    if "srv_at (sdd_store st1) sa = Some s1" "sdd_mem st1 = []" for st1 :: "'a sdd" and s1
    using actions_loop_from [OF c(4) assms(3) _ assms(4) that, of 0 "length acts" past] word_zero_length [of acts] assms(4)
    by (simp add: SDD_LoadActionList_def c(3) n(2))
  have tag: "TinyXmlNode_GetName ?h (Some root) = Some (Some ''scpd'')"
    using assms(1) unfolding scpd_doc_def by (rule elem_tag [OF _ tags(14)])
  have st1: "st\<lparr>sdd_store := (sdd_store st)\<lparr>srv_at := (srv_at (sdd_store st))(sa \<mapsto> ?s)\<rparr>, sdd_mem := []\<rparr> =
      with_states fl garbage st sa vars"
    using assms(7,8) by (cases st) (simp add: with_states_def Let_def)
  have st0: "st\<lparr>sdd_store := (sdd_store st)\<lparr>srv_at := (srv_at (sdd_store st))(sa \<mapsto> s)\<rparr>, sdd_mem := []\<rparr> = st"
    using assms(7,8) by (cases st) (simp add: fun_upd_idem)
  have w: "srv_at (sdd_store (with_states fl garbage st sa vars)) sa = Some ?s" "sdd_mem (with_states fl garbage st sa vars) = []"
    using assms(7,8) by (simp_all add: with_states_def Let_def)
  have ret: "\<not> RET_FAILED TINY_RET_OK" "RET_FAILED TINY_RET_E_XML_INVALID" by (simp_all add: RET_FAILED_def ret_defs)
  show ?thesis
    by (simp add: SDD_ParseXml_def assms(2,7) tag str_equal_child cstring_tags version ret table st1 st0 list [OF w])
qed

lemma variable_doc_ok: "variable_ok v \<Longrightarrow> doc_ok (variable_doc v)"
  by (auto simp: variable_doc_def fields_def text_size_def value_items_def variable_ok_def name_ok_def field_defs)

lemma argument_doc_ok: "argument_ok v \<Longrightarrow> doc_ok (argument_doc v)"
  by (cases "fst (snd v)") (auto simp: argument_doc_def fields_def text_size_def value_items_def argument_ok_def name_ok_def field_defs
      DIRECTION_IN_def DIRECTION_OUT_def cstring_def)

lemma no_text: "text_size (map (\<lambda>x. XElem (f x) (g x) (k x)) xs) = 0"
  by (induction xs) (simp_all add: text_size_def)

lemma docs_text: "text_size (map variable_doc vs) = 0" "text_size (map argument_doc xs) = 0" "text_size (map action_doc ys) = 0"
  unfolding variable_doc_def argument_doc_def action_doc_def by (rule no_text)+

lemma scpd_doc_ok:
  assumes "list_all action_ok' acts" and "list_all variable_ok vars"
  shows "doc_ok (scpd_doc acts vars)"
proof -
  have "doc_ok (action_doc a)" if "a \<in> set acts" for a
  proof -
    have "list_all argument_ok (snd a)" "name_ok NAME_LEN (fst a)" using assms(1) that by (auto simp: action_ok'_def list_all_iff)
    then show ?thesis
      using argument_doc_ok by (auto simp: action_doc_def fields_def value_items_def name_ok_def list_all_iff field_defs docs_text
          text_size_def [of "_ # _"] text_size_def [of "[]"])
  qed
  then show ?thesis
    using assms(2) variable_doc_ok
    by (auto simp: scpd_doc_def version_doc_def fields_def value_items_def list_all_iff docs_text cstring_def
        text_size_def [of "_ # _"] text_size_def [of "[]"])
qed

subsection \<open>Writing the elements\<close>

definition variable_text :: "variable_view \<Rightarrow> string" where
  "variable_text v = ''<stateVariable sendEvents=\"'' @ DataType_BooleanToString (snd (snd v)) @ ''\"><name>'' @ fst v @
     ''</name><dataType>'' @ fst (snd v) @ ''</dataType></stateVariable>''"

definition argument_text :: "argument_view \<Rightarrow> string" where
  "argument_text a = ''<argument><name>'' @ fst a @ ''</name><direction>'' @ UpnpArgumentDirection_ToString (fst (snd a)) @
     ''</direction><relatedStateVariable>'' @ snd (snd a) @ ''</relatedStateVariable></argument>''"

definition action_text :: "action_view \<Rightarrow> string" where
  "action_text a = ''<action><name>'' @ fst a @ ''</name><argumentList>'' @ concat (map argument_text (snd a)) @
     ''</argumentList></action>''"

definition scpd_text :: "action_view list \<Rightarrow> variable_view list \<Rightarrow> string" where
  "scpd_text acts vars = scpd_head @ ''<actionList>'' @ concat (map action_text acts) @ ''</actionList><serviceStateTable>'' @
     concat (map variable_text vars) @ ''</serviceStateTable></scpd>''"

definition view_variable :: "'f service_variable \<Rightarrow> variable_view" where
  "view_variable v = (var_name (sv_def v), type_name (var_type (sv_def v)), send_events v)"

definition view_argument :: "upnp_argument \<Rightarrow> argument_view" where
  "view_argument a = (arg_name a, direction a, relatedStateVariable a)"

definition members :: "'a lspec \<Rightarrow> 'a list \<Rightarrow> bool" where
  "members l xs \<longleftrightarrow> items l = map Some xs \<and> count_ok l \<and> length xs < 2 ^ 31"

definition action_says :: "upnp_action \<Rightarrow> action_view \<Rightarrow> bool" where
  "action_says act a \<longleftrightarrow> act_name act = fst a \<and> (\<exists>xs. members (argumentList act) xs \<and> map view_argument xs = snd a)"

text \<open>A service in a store that has these actions and state variables.\<close>

definition service_says :: "'f ustore \<Rightarrow> 'f upnp_service \<Rightarrow> action_view list \<Rightarrow> variable_view list \<Rightarrow> bool" where
  "service_says u s acts vars \<longleftrightarrow>
     (\<exists>xs. members (actionList s) xs \<and> list_all2 (\<lambda>a v. \<exists>act. act_at u a = Some act \<and> action_says act v) xs acts)
     \<and> (\<exists>vs. members (stateVariableTable s) vs \<and> map view_variable vs = vars)"

lemma member_at: "members l xs \<Longrightarrow> i < length xs \<Longrightarrow> L_GetAt l (sint (word_of_nat i :: 32 word)) = Some (xs ! i)"
  by (simp add: members_def L_GetAt_def nth_int_of_nat signed_of_nat signed_take_bit_int_eq_self)

lemma member_count: "members l xs \<Longrightarrow> unat (word_of_int (L_GetCount l) :: 32 word) = length xs"
  using L_count_word [of l] by (simp add: members_def)

lemma xml_field_text: "length tag < 64 \<Longrightarrow> length t < 512 \<Longrightarrow> xml_field tag t = ''<'' @ tag @ ''>'' @ t @ ''</'' @ tag @ ''>''"
  by (simp add: xml_field_def field_printf_def)

lemma strcat_fits: "length (xml @ s) < len \<Longrightarrow> strcat len xml s = Some (xml @ s)"
  by (simp add: strcat_def)

lemma variable_written:
  assumes "variable_ok (view_variable v)"
  shows "UpnpServiceParser_StateToXml v [] PIECE_LEN = Some (variable_text (view_variable v))"
proof -
  let ?n = "var_name (sv_def v)" and ?t = "type_name (var_type (sv_def v))"
  have ok: "length ?n < 128" "length ?t < 16" using assms by (simp_all add: view_variable_def variable_ok_def name_ok_def field_defs)
  have rd: "read_field STATE_VARIABLE_NAME_LEN ?n = Some ?n" "read_field DATA_TYPE_NAME_LEN ?t = Some ?t"
    using ok by (simp_all add: read_field_def field_defs)
  have f: "field_printf 1024 (''<stateVariable sendEvents=\"'' @ DataType_BooleanToString b @ ''\">'') =
      ''<stateVariable sendEvents=\"'' @ DataType_BooleanToString b @ ''\">''" for b
    by (simp add: field_printf_def DataType_BooleanToString_def)
  have b: "length (DataType_BooleanToString c) = 1" for c by (simp add: DataType_BooleanToString_def)
  show ?thesis
    unfolding UpnpServiceParser_StateToXml_def f
    using ok by (simp add: rd xml_field_text strcat_def b PIECE_LEN_def variable_text_def view_variable_def)
qed

lemma arguments_written:
  assumes "members (argumentList act) xs" and "list_all (argument_ok \<circ> view_argument) xs" and "i + n = length xs"
    and "length (xml @ concat (map (argument_text \<circ> view_argument) (drop i xs))) < len"
  shows "arguments_xml len act (word_of_nat i) n xml = Some (xml @ concat (map (argument_text \<circ> view_argument) (drop i xs)))"
  using assms(3,4)
proof (induction n arbitrary: i xml)
  case 0
  then show ?case by simp
next
  case (Suc n)
  have i: "i < length xs" using Suc.prems by simp
  note dr = Cons_nth_drop_Suc [OF i, symmetric]
  let ?a = "xs ! i"
  have "argument_ok (view_argument ?a)" using assms(2) i by (simp add: list_all_length)
  then have ok: "length (arg_name ?a) < 128" "length (relatedStateVariable ?a) < 128" "direction ?a \<noteq> ARG_UNKNOWN"
    by (simp_all add: view_argument_def argument_ok_def name_ok_def field_defs)
  have rd: "UpnpArgument_GetName ?a = Some (arg_name ?a)" "UpnpArgument_GetRelatedStateVariable ?a = Some (relatedStateVariable ?a)"
    using ok by (simp_all add: UpnpArgument_GetName_def UpnpArgument_GetRelatedStateVariable_def read_field_def field_defs)
  have dir: "length (UpnpArgumentDirection_ToString (direction ?a)) < 512"
    by (cases "direction ?a") (simp_all add: DIRECTION_IN_def DIRECTION_OUT_def DIRECTION_UNKNOWN_def)
  have len: "length xml + length (argument_text (view_argument ?a)) < len" using Suc.prems(2) by (simp add: dr)
  have "arguments_xml len act (word_of_nat i) (Suc n) xml =
      arguments_xml len act (word_of_nat (Suc i)) n (xml @ argument_text (view_argument ?a))"
    using len ok dir
    by (simp add: UpnpAction_GetArgumentAt_def member_at [OF assms(1) i] rd xml_field_text strcat_def UpnpArgument_GetDirection_def
        argument_text_def view_argument_def word_of_nat_Suc add.commute [of 1])
  also have "\<dots> = Some ((xml @ argument_text (view_argument ?a)) @ concat (map (argument_text \<circ> view_argument) (drop (Suc i) xs)))"
    using Suc.prems by (intro Suc.IH) (simp_all add: dr)
  finally show ?case by (simp add: dr comp_def)
qed

lemma action_written:
  assumes "action_says act a" and "action_ok' a" and "length (action_text a) < PIECE_LEN"
  shows "UpnpServiceParser_ActionToXml act [] PIECE_LEN = Some (action_text a)"
proof -
  obtain xs where xs: "members (argumentList act) xs" "map view_argument xs = snd a" and nm: "act_name act = fst a"
    using assms(1) by (auto simp: action_says_def)
  have ok: "list_all (argument_ok \<circ> view_argument) xs" "length (fst a) < 128"
    using assms(2) by (simp_all add: action_ok'_def name_ok_def xs(2) [symmetric] list_all_length field_defs)
  have rd: "UpnpAction_GetName act = Some (fst a)"
    using ok(2) by (simp add: UpnpAction_GetName_def nm read_field_def field_defs)
  have cnt: "unat (UpnpAction_GetArgumentCount act) = length xs"
    using member_count [OF xs(1)] by (simp add: UpnpAction_GetArgumentCount_def)
  have txt': "concat (map (argument_text \<circ> view_argument) xs) = concat (map argument_text (snd a))"
    by (simp add: xs(2) [symmetric])
  let ?x = "''<action><name>'' @ fst a @ ''</name><argumentList>''"
  have "arguments_xml PIECE_LEN act 0 (length xs) ?x = Some (?x @ concat (map (argument_text \<circ> view_argument) (drop 0 xs)))"
    using arguments_written [OF xs(1) ok(1), of 0 "length xs" ?x PIECE_LEN] assms(3) by (simp add: txt' [simplified] action_text_def)
  then have loop: "arguments_xml PIECE_LEN act 0 (length xs) ?x = Some (?x @ concat (map argument_text (snd a)))"
    by (simp only: drop_0 txt')
  show ?thesis
    unfolding UpnpServiceParser_ActionToXml_def rd cnt
    using ok(2) assms(3) loop by (simp add: xml_field_text strcat_def action_text_def)
qed

lemma actions_written:
  assumes "members (actionList s) xs" and "list_all2 (\<lambda>a v. \<exists>act. act_at u a = Some act \<and> action_says act v) xs acts"
    and "list_all action_ok' acts" and "list_all (\<lambda>a. length (action_text a) < PIECE_LEN) acts" and "i + n = length xs"
    and "length (xml @ concat (map action_text (drop i acts))) < len"
  shows "actions_xml len u s (word_of_nat i) n xml = Some (xml @ concat (map action_text (drop i acts)))"
  using assms(5,6)
proof (induction n arbitrary: i xml)
  case 0
  then show ?case using assms(2) by (simp add: list_all2_lengthD)
next
  case (Suc n)
  have i: "i < length xs" "i < length acts" using Suc.prems list_all2_lengthD [OF assms(2)] by simp_all
  note dr = Cons_nth_drop_Suc [OF i(2), symmetric]
  obtain act where act: "act_at u (xs ! i) = Some act" "action_says act (acts ! i)"
    using assms(2) i by (auto simp: list_all2_conv_all_nth)
  have ok: "action_ok' (acts ! i)" "length (action_text (acts ! i)) < PIECE_LEN" using assms(3,4) i by (simp_all add: list_all_length)
  have "actions_xml len u s (word_of_nat i) (Suc n) xml = actions_xml len u s (word_of_nat (Suc i)) n (xml @ action_text (acts ! i))"
    using Suc.prems(2)
    by (simp add: UpnpService_GetActionAt_def member_at [OF assms(1) i(1)] act(1) action_written [OF act(2) ok] strcat_def dr
        word_of_nat_Suc add.commute [of 1])
  also have "\<dots> = Some ((xml @ action_text (acts ! i)) @ concat (map action_text (drop (Suc i) acts)))"
    using Suc.prems by (intro Suc.IH) (simp_all add: dr)
  finally show ?case by (simp add: dr)
qed

lemma variables_written:
  assumes "members (stateVariableTable s) vs" and "list_all (variable_ok \<circ> view_variable) vs" and "i + n = length vs"
    and "length (xml @ concat (map (variable_text \<circ> view_variable) (drop i vs))) < len"
  shows "states_xml len s (word_of_nat i) n xml = Some (xml @ concat (map (variable_text \<circ> view_variable) (drop i vs)))"
  using assms(3,4)
proof (induction n arbitrary: i xml)
  case 0
  then show ?case by simp
next
  case (Suc n)
  have i: "i < length vs" using Suc.prems by simp
  note dr = Cons_nth_drop_Suc [OF i, symmetric]
  have ok: "variable_ok (view_variable (vs ! i))" using assms(2) i by (simp add: list_all_length)
  have "states_xml len s (word_of_nat i) (Suc n) xml =
      states_xml len s (word_of_nat (Suc i)) n (xml @ variable_text (view_variable (vs ! i)))"
    using Suc.prems(2)
    by (simp add: UpnpService_GetStateVariableAt_def member_at [OF assms(1) i] variable_written [OF ok] strcat_def dr
        word_of_nat_Suc add.commute [of 1])
  also have "\<dots> = Some ((xml @ variable_text (view_variable (vs ! i))) @ concat (map (variable_text \<circ> view_variable) (drop (Suc i) vs)))"
    using Suc.prems by (intro Suc.IH) (simp_all add: dr)
  finally show ?case by (simp add: dr comp_def)
qed

lemma description_written:
  assumes "service_says u s acts vars" and "list_all action_ok' acts" and "list_all variable_ok vars"
    and "list_all (\<lambda>a. length (action_text a) < PIECE_LEN) acts" and "length (scpd_text acts vars) < len"
  shows "UpnpServiceParser_ToXml u s [] len = Some (word_of_nat (length (scpd_text acts vars)), scpd_text acts vars)"
proof -
  obtain xs vs where xs: "members (actionList s) xs" "list_all2 (\<lambda>a v. \<exists>act. act_at u a = Some act \<and> action_says act v) xs acts"
      and vs: "members (stateVariableTable s) vs" "map view_variable vs = vars"
    using assms(1) by (auto simp: service_says_def)
  have cnt: "unat (UpnpService_GetActionCount s) = length xs" "unat (UpnpService_GetStateVariableCount s) = length vs"
    using member_count [OF xs(1)] member_count [OF vs(1)] by (simp_all add: UpnpService_GetActionCount_def UpnpService_GetStateVariableCount_def)
  have vok: "list_all (variable_ok \<circ> view_variable) vs" using assms(3) by (simp add: vs(2) [symmetric] list_all_length)
  have vt: "concat (map (variable_text \<circ> view_variable) vs) = concat (map variable_text vars)" by (simp add: vs(2) [symmetric])
  let ?x2 = "scpd_head @ ''<actionList>''"
  let ?x5 = "?x2 @ concat (map action_text acts) @ ''</actionList><serviceStateTable>''"
  have acts: "actions_xml len u s 0 (length xs) ?x2 = Some (?x2 @ concat (map action_text acts))"
    using actions_written [OF xs assms(2,4), of 0 "length xs" ?x2 len] assms(5) by (simp add: scpd_text_def)
  have "states_xml len s 0 (length vs) ?x5 = Some (?x5 @ concat (map (variable_text \<circ> view_variable) (drop 0 vs)))"
    using variables_written [OF vs(1) vok, of 0 "length vs" ?x5 len] assms(5) by (simp add: scpd_text_def vt [simplified])
  then have vars: "states_xml len s 0 (length vs) ?x5 = Some (?x5 @ concat (map variable_text vars))" by (simp only: drop_0 vt)
  show ?thesis
    unfolding UpnpServiceParser_ToXml_def cnt
    using assms(5) acts vars by (simp add: strcat_def scpd_text_def)
qed

subsection \<open>What was read\<close>

definition typed_table :: "'f upnp_service \<Rightarrow> bool" where
  "typed_table s \<longleftrightarrow> list_all (\<lambda>v. value_type (sv_value (the v)) = internal_type (var_type (sv_def (the v)))) (items (stateVariableTable s))"

lemma zero_type: "value_type (zero_value fl t) = t"
  by (cases t) simp_all

lemma read_fields:
  "view_variable (variable_of_view fl garbage sa v) = v"
  "value_type (sv_value (variable_of_view fl garbage sa v)) = internal_type (var_type (sv_def (variable_of_view fl garbage sa v)))"
  "view_argument (argument_of_view a) = a"
  by (simp_all add: variable_of_view_def read_variable_def view_variable_def view_argument_def argument_of_view_def Let_def
      state_variable.defs service_variable.defs zero_type)

lemma members_grown: "members l [] \<Longrightarrow> length xs < 2 ^ 31 \<Longrightarrow> members (grown l xs) xs"
  by (simp add: members_def grown_def count_ok_def)

lemma read_action_says: "action_ok' a \<Longrightarrow> action_says (read_action service a) a"
  by (auto simp: action_says_def read_action_def action_ok'_def comp_def read_fields members_def L_new_def L_SetDeleteListener_def
      count_ok_def grown_def intro!: exI [of _ "map argument_of_view (snd a)"])

lemma described_service:
  assumes "srv_at (sdd_store st) sa = Some s" and "members (actionList s) []" and "members (stateVariableTable s) []"
    and "list_all action_ok' acts" and "length acts < 2 ^ 31" and "length vars < 2 ^ 31"
    and "st' = with_actions (with_states fl garbage st sa vars) sa (with_arguments acts)"
  shows "\<exists>s'. srv_at (sdd_store st') sa = Some s' \<and> service_says (sdd_store st') s' (with_arguments acts) vars \<and> typed_table s'"
proof -
  let ?acts = "with_arguments acts" and ?b = "sdd_brk st"
  let ?s = "s\<lparr>stateVariableTable := grown (stateVariableTable s) (map (variable_of_view fl garbage sa) vars),
    actionList := grown (actionList s) [?b..<?b + length ?acts]\<rparr>"
  have len: "length ?acts < 2 ^ 31" unfolding with_arguments_def by (rule le_less_trans [OF length_filter_le assms(5)])
  have srv: "srv_at (sdd_store st') sa = Some ?s"
    using assms(1) by (simp add: assms(7) with_actions_def with_states_def Let_def)
  have at: "act_at (sdd_store st') (?b + i) = Some (read_action (Some sa) (?acts ! i))" if "i < length ?acts" for i
    using that by (simp add: assms(7) with_actions_def with_states_def Let_def placed_def)
  have says: "action_says (read_action (Some sa) (?acts ! i)) (?acts ! i)" if "i < length ?acts" for i
    using assms(4) nth_mem [OF that] by (intro read_action_says) (auto simp: with_arguments_def list_all_iff)
  have "list_all2 (\<lambda>a v. \<exists>act. act_at (sdd_store st') a = Some act \<and> action_says act v) [?b..<?b + length ?acts] ?acts"
    using at says by (simp add: list_all2_conv_all_nth)
  moreover have "members (actionList ?s) [?b..<?b + length ?acts]" using assms(2) len by (simp add: members_grown)
  moreover have "members (stateVariableTable ?s) (map (variable_of_view fl garbage sa) vars)"
    using assms(3,6) by (simp add: members_grown)
  moreover have "map view_variable (map (variable_of_view fl garbage sa) vars) = vars"
    by (simp add: read_fields comp_def)
  moreover have "typed_table ?s"
    using assms(3) read_fields(2) by (auto simp: typed_table_def grown_def members_def list_all_iff)
  ultimately show ?thesis using srv by (auto simp: service_says_def)
qed

lemma description_parsed:
  assumes "unused x" and "list_all action_ok' acts" and "list_all variable_ok vars" and "expat t = (sax_of (scpd_doc acts vars), True)"
  shows "\<exists>doc root. TinyXml_Parse expat True x t = Some (TINY_RET_OK, doc) \<and> TinyXml_GetRoot doc = Some root
    \<and> rep (brk x) (brk doc) (xml_heap doc) None 0 root (scpd_doc acts vars)"
  using assms(1) scpd_doc_ok [OF assms(2,3)] assms(4) unfolding scpd_doc_def by (rule tree_of_document)

subsection \<open>Properties\<close>

text \<open>
  C7. The description a host writes of a service is read back by a control point: the document fits its buffer,
  is well formed, and the service that was filled from it has the same state variables (name, type, whether
  evented), each holding a value of its type, and the same actions with the same arguments in order, except
  that an action without arguments is lost.
\<close>

theorem service_description_roundtrip:
  assumes "service_says u s acts vars" and "list_all action_ok' acts" and "list_all variable_ok vars"
    and "list_all (\<lambda>a. length (action_text a) < PIECE_LEN) acts" and "length (scpd_text acts vars) < len"
    and "acts \<noteq> []" and "vars \<noteq> []"
    and "unused x" and "expat (scpd_text acts vars) = (sax_of (scpd_doc acts vars), True)"
    and "srv_at (sdd_store st) sa = Some s0" and "members (actionList s0) []" and "members (stateVariableTable s0) []"
    and "sdd_mem st = []"
  shows "\<exists>txt' doc st' s'. UpnpServiceParser_ToXml u s [] len = Some (word_of_nat (length txt'), txt')
    \<and> TinyXml_Parse expat True x txt' = Some (TINY_RET_OK, doc)
    \<and> SDD_ParseXml past fl garbage doc sa st = Some (TINY_RET_OK, st')
    \<and> srv_at (sdd_store st') sa = Some s' \<and> service_says (sdd_store st') s' (with_arguments acts) vars \<and> typed_table s'"
proof -
  have n: "length acts < 2 ^ 31" "length vars < 2 ^ 31"
    using assms(1) by (auto simp: service_says_def members_def dest: list_all2_lengthD)
  obtain doc root where d: "TinyXml_Parse expat True x (scpd_text acts vars) = Some (TINY_RET_OK, doc)"
      "TinyXml_GetRoot doc = Some root" "rep (brk x) (brk doc) (xml_heap doc) None 0 root (scpd_doc acts vars)"
    using description_parsed [where expat = expat, OF assms(8,2,3,9)] by blast
  let ?st = "with_actions (with_states fl garbage st sa vars) sa (with_arguments acts)"
  have "SDD_ParseXml past fl garbage doc sa st = Some (TINY_RET_OK, ?st)"
    using description_read [OF d(3,2) assms(2) n(1) assms(3) n(2) assms(10,13), of past fl garbage] assms(6,7) by simp
  moreover obtain s' where "srv_at (sdd_store ?st) sa = Some s'" "service_says (sdd_store ?st) s' (with_arguments acts) vars" "typed_table s'"
    using described_service [OF assms(10-12,2) n refl, of fl garbage] by blast
  ultimately show ?thesis using description_written [OF assms(1-5)] d(1) by blast
qed

definition demo_acts :: "action_view list" where
  "demo_acts = [(''SetTarget'', [(''newTargetValue'', ARG_IN, ''Target'')]), (''GetStatus'', [(''ResultStatus'', ARG_OUT, ''Status'')]),
     (''Reset'', [])]"

definition demo_vars :: "variable_view list" where
  "demo_vars = [(''Target'', ''boolean'', False), (''Status'', ''boolean'', True)]"

definition scpd_expat :: "string \<Rightarrow> sax list \<times> bool" where
  "scpd_expat s = (if s = scpd_text demo_acts demo_vars then (sax_of (scpd_doc demo_acts demo_vars), True) else ([], False))"

definition demo_garbage :: "int state_variable" where
  "demo_garbage = \<lparr>send_events = True, is_changed = True, sv_def = UpnpStateVariableDefinition_Construct, sv_value = VUndefined\<rparr>"

definition demo_empty :: "int sdd" where
  "demo_empty = \<lparr>sdd_store = \<lparr>dev_at = (\<lambda>_. None), srv_at = [7 \<mapsto> snd UpnpService_Construct], act_at = (\<lambda>_. None)\<rparr>,
     sdd_brk = 100, sdd_mem = []\<rparr>"

lemma demo_views_ok: "list_all action_ok' demo_acts" "list_all variable_ok demo_vars"
    "list_all (\<lambda>a. length (action_text a) < PIECE_LEN) demo_acts" "length (scpd_text demo_acts demo_vars) < 61440"
  by (simp_all add: demo_acts_def demo_vars_def action_ok'_def argument_ok_def variable_ok_def name_ok_def is_blank_def cstring_def field_defs
      action_text_def argument_text_def variable_text_def scpd_text_def scpd_head_def PIECE_LEN_def DIRECTION_IN_def DIRECTION_OUT_def
      DataType_BooleanToString_def)

lemma demo_empty_service: "srv_at (sdd_store demo_empty) 7 = Some (snd UpnpService_Construct)" "sdd_mem demo_empty = []"
    "members (actionList (snd UpnpService_Construct)) []" "members (stateVariableTable (snd UpnpService_Construct)) []"
  by (simp_all add: demo_empty_def UpnpService_Construct_def members_def count_ok_def L_new_def L_SetDeleteListener_def)

text \<open>A host whose store has a service with these actions and variables.\<close>

definition demo_described :: "int ustore" where
  "demo_described = (let st = with_states int_floats demo_garbage demo_empty 7 demo_vars; u = sdd_store st in
     u\<lparr>act_at := placed 100 (map (read_action (Some 7)) demo_acts) (act_at u),
       srv_at := (srv_at u)(7 := map_option (\<lambda>s. s\<lparr>actionList := grown (actionList s) [100, 101, 102]\<rparr>) (srv_at u 7))\<rparr>)"

definition demo_described_service :: "int upnp_service" where
  "demo_described_service = the (srv_at demo_described 7)"

lemma demo_says: "service_says demo_described demo_described_service demo_acts demo_vars"
proof -
  have a: "members (actionList demo_described_service) [100, 101, 102]"
    by (simp add: demo_described_service_def demo_described_def with_states_def Let_def demo_empty_service members_grown)
  have v: "members (stateVariableTable demo_described_service) (map (variable_of_view int_floats demo_garbage 7) demo_vars)"
    by (simp add: demo_described_service_def demo_described_def with_states_def Let_def demo_empty_service members_grown demo_vars_def)
  have "action_says (read_action (Some 7) x) x" if "x \<in> set demo_acts" for x
    using demo_views_ok(1) that by (intro read_action_says) (simp add: list_all_iff)
  then have "list_all2 (\<lambda>a v. \<exists>act. act_at demo_described a = Some act \<and> action_says act v) [100, 101, 102] demo_acts"
    by (simp add: demo_described_def placed_def Let_def demo_acts_def)
  moreover have "map view_variable (map (variable_of_view int_floats demo_garbage 7) demo_vars) = demo_vars"
    by (simp add: read_fields comp_def)
  ultimately show ?thesis using a v unfolding service_says_def by blast
qed

theorem service_description_roundtrip_witness:
  "\<exists>txt' doc st' s'. UpnpServiceParser_ToXml demo_described demo_described_service [] 61440 = Some (word_of_nat (length txt'), txt')
    \<and> TinyXml_Parse scpd_expat True fresh_xml txt' = Some (TINY_RET_OK, doc)
    \<and> SDD_ParseXml (CHR ''x'') int_floats demo_garbage doc 7 demo_empty = Some (TINY_RET_OK, st')
    \<and> srv_at (sdd_store st') 7 = Some s'
    \<and> service_says (sdd_store st') s' [(''SetTarget'', [(''newTargetValue'', ARG_IN, ''Target'')]),
        (''GetStatus'', [(''ResultStatus'', ARG_OUT, ''Status'')])] demo_vars \<and> typed_table s'"
proof -
  have ex: "scpd_expat (scpd_text demo_acts demo_vars) = (sax_of (scpd_doc demo_acts demo_vars), True)"
    unfolding scpd_expat_def by (rule if_P) (rule refl)
  have ne: "demo_acts \<noteq> []" "demo_vars \<noteq> []" by (simp_all add: demo_acts_def demo_vars_def)
  have "with_arguments demo_acts = [(''SetTarget'', [(''newTargetValue'', ARG_IN, ''Target'')]),
        (''GetStatus'', [(''ResultStatus'', ARG_OUT, ''Status'')])]"
    by (simp add: with_arguments_def demo_acts_def)
  then show ?thesis
    using service_description_roundtrip [where expat = scpd_expat and past = "CHR ''x''" and fl = int_floats and garbage = demo_garbage,
        OF demo_says demo_views_ok ne fresh_xml_unused ex demo_empty_service(1,3,4,2)] by simp
qed

end
