(* ===== verification/DeviceParser.thy ===== *)
theory DeviceParser
  imports ServiceDescription
begin

section \<open>Device descriptions: \<open>UpnpDeviceParser.c\<close>, \<open>UpnpDeviceFactory.c\<close>, \<open>UpnpDeviceConfig.c\<close>\<close>

text \<open>
  A control point makes a device from what it found out of it: it fetches the description of the
  device and then the one of each service. A host makes its device from a configuration and helps
  itself to the URLs of its services. New services and actions get the addresses from \<open>brk\<close> on;
  the list of icons is not read by the code either.
\<close>

subsection \<open>Reading a description\<close>

definition DDD_LoadSpecVersion :: "char \<Rightarrow> xheap \<Rightarrow> addr \<Rightarrow> tiny_ret option" where
  "DDD_LoadSpecVersion past h root = do {
     version \<leftarrow> TinyXmlNode_GetChildByName past h (Some root) (Some ''specVersion'');
     if version = None then Some TINY_RET_E_XML_INVALID
     else do {
       major' \<leftarrow> TinyXmlNode_GetChildContent past h version (Some ''major'');
       minor' \<leftarrow> TinyXmlNode_GetChildContent past h version (Some ''minor'');
       Some (if major' = None \<or> minor' = None then TINY_RET_E_XML_INVALID else TINY_RET_OK) } }"

text \<open>The type, the identifier and the three URLs of a service, when all are there.\<close>

definition service_parts :: "char \<Rightarrow> xheap \<Rightarrow> addr option \<Rightarrow> (string \<times> string \<times> string \<times> string \<times> string) option option" where
  "service_parts past h nd = do {
     tag \<leftarrow> TinyXmlNode_GetName h nd;
     if \<not> str_equal past tag (Some ''service'') True then Some None
     else do {
       service_type \<leftarrow> TinyXmlNode_GetChildContent past h nd (Some ''serviceType'');
       service_id \<leftarrow> TinyXmlNode_GetChildContent past h nd (Some ''serviceId'');
       ctrl_url \<leftarrow> TinyXmlNode_GetChildContent past h nd (Some ''controlURL'');
       event_url \<leftarrow> TinyXmlNode_GetChildContent past h nd (Some ''eventSubURL'');
       scpd_url \<leftarrow> TinyXmlNode_GetChildContent past h nd (Some ''SCPDURL'');
       Some (case (service_type, service_id, ctrl_url, event_url, scpd_url) of
          (Some t, Some i, Some c, Some e, Some s) \<Rightarrow> Some (t, i, c, e, s)
        | _ \<Rightarrow> None) } }"

definition new_service :: "addr \<Rightarrow> string \<times> string \<times> string \<times> string \<times> string \<Rightarrow> 'f upnp_service \<Rightarrow> 'f upnp_service" where
  "new_service da parts s = (case parts of (t, i, c, e, d) \<Rightarrow>
     let s1 = snd (UpnpService_SetServiceType s (Some t));
         s2 = snd (UpnpService_SetServiceId s1 (Some i));
         s3 = snd (UpnpService_SetControlURL s2 (Some c));
         s4 = snd (UpnpService_SetEventSubURL s3 (Some e));
         s5 = snd (UpnpService_SetSCPDURL s4 (Some d))
     in UpnpService_SetParentDevice s5 (Some da))"

fun services_loop :: "char \<Rightarrow> xheap \<Rightarrow> addr \<Rightarrow> addr \<Rightarrow> 32 word \<Rightarrow> nat \<Rightarrow> 'f sdd \<Rightarrow> (tiny_ret \<times> 'f sdd) option" where
  "services_loop past h services da i 0 st = Some (TINY_RET_OK, st)"
| "services_loop past h services da i (Suc n) st = do {
     child \<leftarrow> TinyXmlNode_GetChildAt h (Some services) i;
     parts \<leftarrow> service_parts past h child;
     (case parts of
        None \<Rightarrow> services_loop past h services da (i + 1) n st
      | Some p \<Rightarrow> (case malloc_next (sdd_mem st) of (ok, m1) \<Rightarrow>
          case UpnpService_New ok of
            None \<Rightarrow> Some (TINY_RET_E_OUT_OF_MEMORY, st\<lparr>sdd_mem := m1\<rparr>)
          | Some s \<Rightarrow> (case malloc_next m1 of (ok', m2) \<Rightarrow> do {
              let a = sdd_brk st;
              let u = sdd_store st;
              d \<leftarrow> dev_at u da;
              services_loop past h services da (i + 1) n
                \<lparr>sdd_store = u\<lparr>srv_at := (srv_at u)(a \<mapsto> new_service da p s),
                   dev_at := (dev_at u)(da \<mapsto> snd (UpnpDevice_AddService ok' d (Some a)))\<rparr>,
                 sdd_brk = a + 1, sdd_mem = m2\<rparr> }))) }"

definition DDD_LoadServiceList :: "char \<Rightarrow> xheap \<Rightarrow> addr \<Rightarrow> addr \<Rightarrow> 'f sdd \<Rightarrow> (tiny_ret \<times> 'f sdd) option" where
  "DDD_LoadServiceList past h services da st = do {
     num \<leftarrow> TinyXmlNode_GetChildren h (Some services);
     if num = 0 then Some (TINY_RET_E_XML_INVALID, st) else services_loop past h services da 0 (unat num) st }"

text \<open>A child that is missing leaves its field as it was.\<close>

definition set_if :: "(upnp_device \<Rightarrow> string option \<Rightarrow> tiny_ret \<times> upnp_device) \<Rightarrow> string option \<Rightarrow> upnp_device \<Rightarrow> upnp_device" where
  "set_if f t d = (if t = None then d else snd (f d t))"

definition DDD_LoadDevice :: "char \<Rightarrow> xheap \<Rightarrow> addr \<Rightarrow> addr \<Rightarrow> 'f sdd \<Rightarrow> (tiny_ret \<times> 'f sdd) option" where
  "DDD_LoadDevice past h root da st = do {
     device \<leftarrow> TinyXmlNode_GetChildByName past h (Some root) (Some ''device'');
     if device = None then Some (TINY_RET_E_XML_INVALID, st)
     else do {
       ty \<leftarrow> TinyXmlNode_GetChildContent past h device (Some ''deviceType'');
       friendly \<leftarrow> TinyXmlNode_GetChildContent past h device (Some ''friendlyName'');
       maker \<leftarrow> TinyXmlNode_GetChildContent past h device (Some ''manufacturer'');
       makerURL \<leftarrow> TinyXmlNode_GetChildContent past h device (Some ''manufacturerURL'');
       model \<leftarrow> TinyXmlNode_GetChildContent past h device (Some ''modelName'');
       num \<leftarrow> TinyXmlNode_GetChildContent past h device (Some ''modelNumber'');
       url \<leftarrow> TinyXmlNode_GetChildContent past h device (Some ''modelURL'');
       udn \<leftarrow> TinyXmlNode_GetChildContent past h device (Some ''UDN'');
       serial \<leftarrow> TinyXmlNode_GetChildContent past h device (Some ''serialNumber'');
       if ty = None then Some (TINY_RET_E_XML_INVALID, st)
       else do {
         d \<leftarrow> dev_at (sdd_store st) da;
         let d' = (set_if UpnpDevice_SetSerialNumber serial \<circ> set_if UpnpDevice_SetManufacturerURL makerURL
           \<circ> set_if UpnpDevice_SetManufacturer maker \<circ> set_if UpnpDevice_SetDeviceId udn \<circ> set_if UpnpDevice_SetModelURL url
           \<circ> set_if UpnpDevice_SetModelName model \<circ> set_if UpnpDevice_SetModelNumber num
           \<circ> set_if UpnpDevice_SetFriendlyName friendly \<circ> set_if UpnpDevice_SetDeviceType ty) d;
         let st' = st\<lparr>sdd_store := (sdd_store st)\<lparr>dev_at := (dev_at (sdd_store st))(da \<mapsto> d')\<rparr>\<rparr>;
         _ \<leftarrow> TinyXmlNode_GetChildByName past h device (Some ''iconList'');
         services \<leftarrow> TinyXmlNode_GetChildByName past h device (Some ''serviceList'');
         (case services of
            None \<Rightarrow> Some (TINY_RET_E_XML_INVALID, st')
          | Some l \<Rightarrow> DDD_LoadServiceList past h l da st') } } }"

definition DDD_LoadUrlBase :: "char \<Rightarrow> xheap \<Rightarrow> addr \<Rightarrow> addr \<Rightarrow> 'f sdd \<Rightarrow> (tiny_ret \<times> 'f sdd) option" where
  "DDD_LoadUrlBase past h root da st = do {
     url_base \<leftarrow> TinyXmlNode_GetChildContent past h (Some root) (Some ''URLBase'');
     if url_base = None then Some (TINY_RET_E_NOT_FOUND, st)
     else do {
       d \<leftarrow> dev_at (sdd_store st) da;
       Some (TINY_RET_OK, st\<lparr>sdd_store := (sdd_store st)
         \<lparr>dev_at := (dev_at (sdd_store st))(da \<mapsto> snd (UpnpDevice_SetURLBase d url_base))\<rparr>\<rparr>) } }"

definition DDD_ParseXml :: "char \<Rightarrow> txml \<Rightarrow> addr \<Rightarrow> 'f sdd \<Rightarrow> (tiny_ret \<times> 'f sdd) option" where
  "DDD_ParseXml past x da st = (case TinyXml_GetRoot x of
       None \<Rightarrow> Some (TINY_RET_E_XML_INVALID, st)
     | Some root \<Rightarrow> (let h = xml_heap x in do {
         tag \<leftarrow> TinyXmlNode_GetName h (Some root);
         if \<not> str_equal past tag (Some ''root'') True then Some (TINY_RET_E_XML_INVALID, st)
         else do {
           ret \<leftarrow> DDD_LoadSpecVersion past h root;
           if RET_FAILED ret then Some (ret, st)
           else do {
             (ret1, st1) \<leftarrow> DDD_LoadDevice past h root da st;
             if RET_FAILED ret1 then Some (ret1, st1)
             else map_option (\<lambda>(_, st2). (ret1, st2)) (DDD_LoadUrlBase past h root da st1) } } }))"

subsection \<open>Fetching a description\<close>

definition URI_BUF_LEN :: nat where "URI_BUF_LEN = 512"

definition UpnpDeviceParser_SetURLBase :: "upnp_device \<Rightarrow> string \<Rightarrow> (tiny_ret \<times> upnp_device) option" where
  "UpnpDeviceParser_SetURLBase d url = do {
     (ret, parts) \<leftarrow> url_split url TINY_IP_LEN URI_BUF_LEN;
     (case parts of
        Some p \<Rightarrow> if RET_FAILED ret then Some (ret, d)
          else Some (ret, snd (UpnpDevice_SetURLBase d
            (Some (field_printf TINY_URL_LEN (''http://'' @ url_ip p @ '':'' @ show_nat (unat (url_port p)))))))
      | None \<Rightarrow> Some (ret, d)) }"

definition UpnpDeviceParser_Parse ::
    "exchange \<Rightarrow> bool \<Rightarrow> (string \<Rightarrow> sax list \<times> bool) \<Rightarrow> bool \<Rightarrow> txml option \<Rightarrow> char \<Rightarrow> string option \<Rightarrow> addr \<Rightarrow> 'f sdd
      \<Rightarrow> (tiny_ret \<times> 'f sdd) option" where
  "UpnpDeviceParser_Parse x news_ok expat parser_ok xml past url da st = (case url of
       None \<Rightarrow> Some (TINY_RET_E_ARG_NULL, st)
     | Some s \<Rightarrow> do {
         d \<leftarrow> dev_at (sdd_store st) da;
         (ret, d') \<leftarrow> UpnpDeviceParser_SetURLBase d s;
         let st' = st\<lparr>sdd_store := (sdd_store st)\<lparr>dev_at := (dev_at (sdd_store st))(da \<mapsto> d')\<rparr>\<rparr>;
         if RET_FAILED ret then Some (ret, st')
         else do {
           (ret1, doc) \<leftarrow> fetch_document x news_ok expat parser_ok xml s;
           (case doc of None \<Rightarrow> Some (ret1, st') | Some p \<Rightarrow> DDD_ParseXml past p da st') } })"

subsection \<open>Writing a description\<close>

text \<open>
  \<open>snprintf\<close> into the rest of a buffer: the position, the room the code believes to have and the text so
  far. A piece that is cut off still moves the position by its whole length, so that the room wraps
  around; writing outside the buffer is undefined.
\<close>

definition put_xml :: "nat \<Rightarrow> string \<Rightarrow> nat \<times> 32 word \<times> string \<Rightarrow> (nat \<times> 32 word \<times> string) option" where
  "put_xml len s st = (case st of (pos, spare, xml) \<Rightarrow>
     let n = min (length s) (unat spare - 1)
     in if spare \<noteq> 0 \<and> len < pos + n + 1 then None
        else Some (pos + length s, spare - word_of_nat (length s), if spare = 0 then xml else xml @ take n s))"

definition device_head :: "upnp_device \<Rightarrow> string option" where
  "device_head d = do {
     ty \<leftarrow> UpnpDevice_GetDeviceType d;
     friendly \<leftarrow> UpnpDevice_GetFriendlyName d;
     maker \<leftarrow> UpnpDevice_GetManufacturer d;
     makerURL \<leftarrow> UpnpDevice_GetManufacturerURL d;
     model \<leftarrow> UpnpDevice_GetModelName d;
     num \<leftarrow> UpnpDevice_GetModelNumber d;
     url \<leftarrow> UpnpDevice_GetModelURL d;
     udn \<leftarrow> UpnpDevice_GetDeviceId d;
     Some (''<?xml version=\"1.0\"?><root xmlns=\"urn:schemas-upnp-org:device-1-0\">'' @
       ''<specVersion><major>1</major><minor>0</minor></specVersion><device>'' @
       ''<deviceType>'' @ ty @ ''</deviceType><friendlyName>'' @ friendly @ ''</friendlyName><manufacturer>'' @ maker @
       ''</manufacturer><manufacturerURL>'' @ makerURL @ ''</manufacturerURL><modelDescription></modelDescription><modelName>'' @
       model @ ''</modelName><modelNumber>'' @ num @ ''</modelNumber><modelURL>'' @ url @ ''</modelURL><UDN>'' @ udn @
       ''</UDN><iconList></iconList><serviceList>'') }"

definition SERVICE_XML_LEN :: nat where "SERVICE_XML_LEN = 1024 * 3"

definition service_xml :: "'f upnp_service \<Rightarrow> string option" where
  "service_xml s = do {
     scpd \<leftarrow> UpnpService_GetSCPDURL s;
     ctrl \<leftarrow> UpnpService_GetControlURL s;
     ev \<leftarrow> UpnpService_GetEventSubURL s;
     i \<leftarrow> UpnpService_GetServiceId s;
     ty \<leftarrow> UpnpService_GetServiceType s;
     Some (field_printf SERVICE_XML_LEN (''<service><serviceType>'' @ ty @ ''</serviceType><serviceId>'' @ i @
       ''</serviceId><SCPDURL>'' @ scpd @ ''</SCPDURL><controlURL>'' @ ctrl @ ''</controlURL><eventSubURL>'' @ ev @
       ''</eventSubURL></service>'')) }"

fun services_xml :: "nat \<Rightarrow> 'f ustore \<Rightarrow> upnp_device \<Rightarrow> 32 word \<Rightarrow> nat \<Rightarrow> nat \<times> 32 word \<times> string \<Rightarrow> (nat \<times> 32 word \<times> string) option" where
  "services_xml len u d i 0 st = Some st"
| "services_xml len u d i (Suc n) st = do {
     a \<leftarrow> UpnpDevice_GetServiceAt d i;
     s \<leftarrow> srv_at u a;
     ss \<leftarrow> service_xml s;
     st' \<leftarrow> put_xml len ss st;
     services_xml len u d (i + 1) n st' }"

definition UpnpDeviceParser_ToXml :: "'f ustore \<Rightarrow> upnp_device \<Rightarrow> nat \<Rightarrow> (32 word \<times> string) option" where
  "UpnpDeviceParser_ToXml u d len = do {
     head \<leftarrow> device_head d;
     (_, _, x1) \<leftarrow> put_xml len head (0, word_of_nat len, []);
     st2 \<leftarrow> services_xml len u d 0 (unat (UpnpDevice_GetServiceCount d)) (length x1, word_of_nat len - word_of_nat (length x1), x1);
     (_, _, x3) \<leftarrow> put_xml len ''</serviceList></device></root>'' st2;
     Some (word_of_nat (length x3), x3) }"

subsection \<open>Making a device of what was found: \<open>UpnpDeviceFactory_Create\<close>\<close>

record device_summary =
  sum_ip :: string
  sum_id :: string
  sum_url :: string
  sum_domain :: string
  sum_type :: string
  sum_version :: string
  sum_info :: string

text \<open>
  \<open>docs\<close> gives for every document the exchange that fetches it and the parser it gets, the first for
  the device, the others for its services in order. The URL buffer is not cleared, but \<open>snprintf\<close>
  terminates it.
\<close>

type_synonym doc_source = "exchange \<times> bool \<times> txml option"

fun describe_services ::
    "(nat \<Rightarrow> doc_source) \<Rightarrow> (string \<Rightarrow> sax list \<times> bool) \<Rightarrow> bool \<Rightarrow> char \<Rightarrow> 'f float_ops \<Rightarrow> 'f state_variable \<Rightarrow> string \<Rightarrow> upnp_device
      \<Rightarrow> nat \<Rightarrow> nat \<Rightarrow> tiny_ret \<times> 'f sdd \<Rightarrow> (tiny_ret \<times> 'f sdd) option" where
  "describe_services docs expat parser_ok past fl garbage urlbase d i 0 st = Some st"
| "describe_services docs expat parser_ok past fl garbage urlbase d i (Suc n) st = do {
     sa \<leftarrow> UpnpDevice_GetServiceAt d (word_of_nat i);
     s \<leftarrow> srv_at (sdd_store (snd st)) sa;
     scpdUrl \<leftarrow> UpnpService_GetSCPDURL s;
     (case docs (Suc i) of (x, news_ok, xml) \<Rightarrow> do {
        (ret, st') \<leftarrow> UpnpServiceParser_Parse x news_ok expat parser_ok xml past fl garbage
          (Some (field_printf TINY_URL_LEN (urlbase @ scpdUrl))) sa (snd st);
        if RET_FAILED ret then Some (ret, st')
        else describe_services docs expat parser_ok past fl garbage urlbase d (Suc i) n (ret, st') }) }"

text \<open>The result is the device or NULL; a device that is deleted takes no services with it: its list has no listener.\<close>

definition UpnpDeviceFactory_Create ::
    "(nat \<Rightarrow> doc_source) \<Rightarrow> (string \<Rightarrow> sax list \<times> bool) \<Rightarrow> bool \<Rightarrow> char \<Rightarrow> 'f float_ops \<Rightarrow> 'f state_variable \<Rightarrow> device_summary \<Rightarrow> 'f sdd
      \<Rightarrow> (addr option \<times> 'f sdd) option" where
  "UpnpDeviceFactory_Create docs expat parser_ok past fl garbage summary st = (case malloc_next (sdd_mem st) of (ok, m1) \<Rightarrow>
     case UpnpDevice_New ok of
       None \<Rightarrow> Some (None, st\<lparr>sdd_mem := m1\<rparr>)
     | Some d0 \<Rightarrow> do {
         ip_text \<leftarrow> read_field TINY_IP_LEN (sum_ip summary);
         url \<leftarrow> read_field TINY_URL_LEN (sum_url summary);
         let da = sdd_brk st;
         let u = sdd_store st;
         let st1 = \<lparr>sdd_store = u\<lparr>dev_at := (dev_at u)(da \<mapsto> snd (UpnpDevice_SetAddress d0 (Some ip_text)))\<rparr>, sdd_brk = da + 1, sdd_mem = m1\<rparr>;
         (case docs 0 of (x, news_ok, xml) \<Rightarrow> do {
            (ret, st2) \<leftarrow> UpnpDeviceParser_Parse x news_ok expat parser_ok xml past (Some url) da st1;
            let gone = (\<lambda>s. s\<lparr>sdd_store := (sdd_store s)\<lparr>dev_at := (dev_at (sdd_store s))(da := None)\<rparr>\<rparr>);
            if RET_FAILED ret then Some (None, gone st2)
            else do {
              d \<leftarrow> dev_at (sdd_store st2) da;
              urlbase \<leftarrow> UpnpDevice_GetURLBase d;
              (ret1, st3) \<leftarrow> describe_services docs expat parser_ok past fl garbage urlbase d 0 (unat (UpnpDevice_GetServiceCount d)) (ret, st2);
              Some (if RET_FAILED ret1 then (None, gone st3) else (Some da, st3)) } }) })"

subsection \<open>Making a device of a configuration: \<open>UpnpDeviceConfig.c\<close>\<close>

definition CONFIG_LEN :: nat where "CONFIG_LEN = 128"

record device_config =
  cfg_name :: string
  cfg_id :: string
  cfg_number :: string
  cfg_model :: string
  cfg_description :: string
  cfg_url :: string
  cfg_maker :: string
  cfg_maker_url :: string

definition UpnpDeviceConfig_Construct :: "tiny_ret \<times> device_config" where
  "UpnpDeviceConfig_Construct = (TINY_RET_OK, \<lparr>cfg_name = [], cfg_id = [], cfg_number = [], cfg_model = [],
     cfg_description = [], cfg_url = [], cfg_maker = [], cfg_maker_url = []\<rparr>)"

definition UpnpDeviceConfig_New :: "bool \<Rightarrow> device_config option" where
  "UpnpDeviceConfig_New malloc_ok = (if malloc_ok then (case UpnpDeviceConfig_Construct of
     (ret, c) \<Rightarrow> if RET_FAILED ret then None else Some c) else None)"

definition config_text :: "(device_config \<Rightarrow> string \<Rightarrow> device_config) \<Rightarrow> device_config \<Rightarrow> string option \<Rightarrow> device_config" where
  "config_text put c t = (case t of None \<Rightarrow> c | Some s \<Rightarrow> put c (field_cpy CONFIG_LEN s))"

definition UpnpDeviceConfig_SetDeviceName :: "device_config \<Rightarrow> string option \<Rightarrow> device_config" where
  "UpnpDeviceConfig_SetDeviceName = config_text (\<lambda>c s. c\<lparr>cfg_name := s\<rparr>)"
definition UpnpDeviceConfig_SetDeviceId :: "device_config \<Rightarrow> string option \<Rightarrow> device_config" where
  "UpnpDeviceConfig_SetDeviceId = config_text (\<lambda>c s. c\<lparr>cfg_id := s\<rparr>)"
definition UpnpDeviceConfig_SetModelName :: "device_config \<Rightarrow> string option \<Rightarrow> device_config" where
  "UpnpDeviceConfig_SetModelName = config_text (\<lambda>c s. c\<lparr>cfg_model := s\<rparr>)"
definition UpnpDeviceConfig_SetModelNumber :: "device_config \<Rightarrow> string option \<Rightarrow> device_config" where
  "UpnpDeviceConfig_SetModelNumber = config_text (\<lambda>c s. c\<lparr>cfg_number := s\<rparr>)"
definition UpnpDeviceConfig_SetModelDescription :: "device_config \<Rightarrow> string option \<Rightarrow> device_config" where
  "UpnpDeviceConfig_SetModelDescription = config_text (\<lambda>c s. c\<lparr>cfg_description := s\<rparr>)"
definition UpnpDeviceConfig_SetModelUrl :: "device_config \<Rightarrow> string option \<Rightarrow> device_config" where
  "UpnpDeviceConfig_SetModelUrl = config_text (\<lambda>c s. c\<lparr>cfg_url := s\<rparr>)"
definition UpnpDeviceConfig_SetManufacturer :: "device_config \<Rightarrow> string option \<Rightarrow> device_config" where
  "UpnpDeviceConfig_SetManufacturer = config_text (\<lambda>c s. c\<lparr>cfg_maker := s\<rparr>)"
definition UpnpDeviceConfig_SetManufacturerUrl :: "device_config \<Rightarrow> string option \<Rightarrow> device_config" where
  "UpnpDeviceConfig_SetManufacturerUrl = config_text (\<lambda>c s. c\<lparr>cfg_maker_url := s\<rparr>)"

text \<open>The description of the model is not passed on.\<close>

definition UpnpDeviceConfig_CreateDevice :: "bool \<Rightarrow> device_config \<Rightarrow> string option \<Rightarrow> upnp_device option option" where
  "UpnpDeviceConfig_CreateDevice malloc_ok c ty = (case UpnpDevice_New malloc_ok of
       None \<Rightarrow> Some None
     | Some d \<Rightarrow> do {
         i \<leftarrow> read_field CONFIG_LEN (cfg_id c);
         name \<leftarrow> read_field CONFIG_LEN (cfg_name c);
         num \<leftarrow> read_field CONFIG_LEN (cfg_number c);
         model \<leftarrow> read_field CONFIG_LEN (cfg_model c);
         url \<leftarrow> read_field CONFIG_LEN (cfg_url c);
         maker \<leftarrow> read_field CONFIG_LEN (cfg_maker c);
         makerURL \<leftarrow> read_field CONFIG_LEN (cfg_maker_url c);
         let d1 = snd (UpnpDevice_SetDeviceType d ty);
         let d2 = snd (UpnpDevice_SetDeviceId d1 (Some i));
         let d3 = snd (UpnpDevice_SetFriendlyName d2 (Some name));
         let d4 = snd (UpnpDevice_SetModelNumber d3 (Some num));
         let d5 = snd (UpnpDevice_SetModelName d4 (Some model));
         let d6 = snd (UpnpDevice_SetModelURL d5 (Some url));
         let d7 = snd (UpnpDevice_SetManufacturer d6 (Some maker));
         let d8 = snd (UpnpDevice_SetManufacturerURL d7 (Some makerURL));
         Some (Some (snd (UpnpDevice_SetURI d8 (Some (field_printf 256 (''/upnp/'' @ i @ ''/description.xml'')))))) })"

subsection \<open>The URLs of a service: \<open>UpnpServiceHelper.c\<close>\<close>

text \<open>The name of a service comes from its type; the result of the operations is their code and the service.\<close>

definition UpnpServiceHelper_GetServiceName :: "'f upnp_service \<Rightarrow> (tiny_ret \<times> string) option" where
  "UpnpServiceHelper_GetServiceName s = do {
     ty \<leftarrow> UpnpService_GetServiceType s;
     (ret, uri) \<leftarrow> UpnpUri_Parse (snd UpnpUri_Construct) (Some ty) False;
     if RET_SUCCEEDED ret then do {
       name \<leftarrow> read_field UPNP_TYPE_LEN (service_type uri);
       Some (ret, field_cpy 128 name) }
     else Some (ret, []) }"

definition service_url :: "'f ustore \<Rightarrow> 'f upnp_service \<Rightarrow> (string \<Rightarrow> string \<Rightarrow> string) \<Rightarrow> (tiny_ret \<times> string) option" where
  "service_url u s f = do {
     da \<leftarrow> UpnpService_GetParentDevice s;
     d \<leftarrow> dev_at u da;
     i \<leftarrow> UpnpDevice_GetDeviceId d;
     (ret, field) \<leftarrow> UpnpServiceHelper_GetServiceName s;
     name \<leftarrow> read_field 128 field;
     Some (ret, field_printf TINY_URL_LEN (f i name)) }"

definition UpnpServiceHelper_UpdateScpdUrl :: "'f ustore \<Rightarrow> 'f upnp_service \<Rightarrow> (tiny_ret \<times> 'f upnp_service) option" where
  "UpnpServiceHelper_UpdateScpdUrl u s = do {
     (ret, url) \<leftarrow> service_url u s (\<lambda>i name. ''/upnp/'' @ i @ ''/'' @ name @ ''.xml'');
     Some (ret, if RET_FAILED ret then s else snd (UpnpService_SetSCPDURL s (Some url))) }"

definition UpnpServiceHelper_UpdateCtrlUrl :: "'f ustore \<Rightarrow> 'f upnp_service \<Rightarrow> (tiny_ret \<times> 'f upnp_service) option" where
  "UpnpServiceHelper_UpdateCtrlUrl u s = do {
     (ret, url) \<leftarrow> service_url u s (\<lambda>i name. ''/upnp/'' @ i @ ''/ctrl/'' @ name);
     Some (ret, if RET_FAILED ret then s else snd (UpnpService_SetControlURL s (Some url))) }"

definition UpnpServiceHelper_UpdateEventUrl :: "'f ustore \<Rightarrow> 'f upnp_service \<Rightarrow> (tiny_ret \<times> 'f upnp_service) option" where
  "UpnpServiceHelper_UpdateEventUrl u s = do {
     (ret, url) \<leftarrow> service_url u s (\<lambda>i name. ''/upnp/'' @ i @ ''/event/'' @ name);
     Some (ret, if RET_FAILED ret then s else snd (UpnpService_SetEventSubURL s (Some url))) }"

text \<open>The type is checked strictly here.\<close>

definition UpnpServiceHelper_UpdateServiceId :: "'f upnp_service \<Rightarrow> (tiny_ret \<times> 'f upnp_service) option" where
  "UpnpServiceHelper_UpdateServiceId s = do {
     ty \<leftarrow> UpnpService_GetServiceType s;
     (ret, uri) \<leftarrow> UpnpUri_Parse (snd UpnpUri_Construct) (Some ty) True;
     if RET_FAILED ret then Some (ret, s)
     else do {
       name \<leftarrow> read_field UPNP_TYPE_LEN (service_type uri);
       Some (ret, snd (UpnpService_SetServiceId s (Some (field_printf 128 (''urn:upnp-org:serviceId:'' @ name))))) } }"

end
