(* ===== verification/UpnpHost.thy ===== *)
theory UpnpHost
  imports DeviceParser
begin

section \<open>The host: \<open>UpnpHost.c\<close> and its parts\<close>

text \<open>
  A host serves its devices over one HTTP server: the documents of devices and services, the actions,
  and subscriptions. Its state, the application of the server, is the store of devices, the provider
  and the worker that sends the events. What the environment decides once (the XML library, the
  floating point operations, the handlers of the devices, the address of a subscriber that is found) is
  a record; allocations are taken to succeed in the handlers here. All of them hold the lock of the
  provider, so one request is served at a time.
\<close>

type_synonym 'f host_state = "'f ustore \<times> provider \<times> upnp_event worker"

record 'f host_env =
  he_past :: char
  he_expat :: "string \<Rightarrow> sax list \<times> bool"
  he_xml :: txml
  he_floats :: "'f float_ops"
  he_run :: "handler_context \<Rightarrow> addr \<Rightarrow> 'f ustore \<Rightarrow> int \<times> 'f ustore"
  he_at :: "64 word"

subsection \<open>The documents: \<open>UpnpDocumentGetter.c\<close>\<close>

definition UPNP_DOCUMENT_LEN :: nat where "UPNP_DOCUMENT_LEN = 1024 * 60"

text \<open>The two writers on a zeroed buffer, by the address of what they describe.\<close>

definition device_document :: "'f ustore \<Rightarrow> addr \<Rightarrow> (32 word \<times> string) option" where
  "device_document u a = do { d \<leftarrow> dev_at u a; UpnpDeviceParser_ToXml u d UPNP_DOCUMENT_LEN }"

definition service_document :: "'f ustore \<Rightarrow> addr \<Rightarrow> (32 word \<times> string) option" where
  "service_document u a = do { s \<leftarrow> srv_at u a; UpnpServiceParser_ToXml u s [] UPNP_DOCUMENT_LEN }"

definition OnGet :: "'f ustore \<Rightarrow> provider \<Rightarrow> string \<Rightarrow> conn_reply list option" where
  "OnGet u p uri = do {
     (contentLength, doc) \<leftarrow> UpnpProvider_GetDocument (device_document u) (service_document u) u p uri;
     Some (if contentLength = 0 then [SendError 404 ''NOT FOUND''] else [SendFileContent doc contentLength]) }"

definition get_handler :: "string \<Rightarrow> 'f host_state \<Rightarrow> 'f host_state handled" where
  "get_handler uri a = (case a of (u, p, w) \<Rightarrow> map_option (\<lambda>r. (r, a)) (OnGet u p uri))"

definition UpnpDocumentGetter_Construct :: "'f host_state upnp_http_server \<Rightarrow> tiny_ret \<times> 'f host_state upnp_http_server" where
  "UpnpDocumentGetter_Construct s = UpnpHttpServer_RegisterGetHandler s (Some get_handler)"

definition UpnpDocumentGetter_Dispose :: "'a upnp_http_server \<Rightarrow> 'a upnp_http_server" where
  "UpnpDocumentGetter_Dispose s = snd (UpnpHttpServer_UnregisterGetHandler s)"

definition UpnpDocumentGetter_New :: "bool \<Rightarrow> 'f host_state upnp_http_server \<Rightarrow> bool \<times> 'f host_state upnp_http_server" where
  "UpnpDocumentGetter_New malloc_ok s = (if \<not> malloc_ok then (False, s)
     else (case UpnpDocumentGetter_Construct s of
       (ret, s1) \<Rightarrow> if RET_FAILED ret then (False, UpnpDocumentGetter_Dispose s1) else (True, s1)))"

subsection \<open>The actions: \<open>UpnpActionExecutor.c\<close>\<close>

definition post_handler :: "'f host_env \<Rightarrow> string \<Rightarrow> string option \<Rightarrow> string option \<Rightarrow> 'f host_state \<Rightarrow> 'f host_state handled" where
  "post_handler env uri soapAction body a = (case a of (u, p, w) \<Rightarrow> map_option (\<lambda>(r, u'). (r, (u', p, w)))
     (OnPost (he_past env) (he_expat env) True True (Some (he_xml env)) (True, True, True) (he_floats env) (he_run env) u p
        uri soapAction body))"

definition UpnpActionExecutor_Construct ::
    "'f host_env \<Rightarrow> 'f host_state upnp_http_server \<Rightarrow> tiny_ret \<times> 'f host_state upnp_http_server" where
  "UpnpActionExecutor_Construct env s = UpnpHttpServer_RegisterPostHandler s (Some (post_handler env))"

definition UpnpActionExecutor_Dispose :: "'a upnp_http_server \<Rightarrow> 'a upnp_http_server" where
  "UpnpActionExecutor_Dispose s = snd (UpnpHttpServer_UnregisterPostHandler s)"

definition UpnpActionExecutor_New ::
    "bool \<Rightarrow> 'f host_env \<Rightarrow> 'f host_state upnp_http_server \<Rightarrow> bool \<times> 'f host_state upnp_http_server" where
  "UpnpActionExecutor_New malloc_ok env s = (if \<not> malloc_ok then (False, s)
     else (case UpnpActionExecutor_Construct env s of
       (ret, s1) \<Rightarrow> if RET_FAILED ret then (False, UpnpActionExecutor_Dispose s1) else (True, s1)))"

subsection \<open>The events: the life of \<open>UpnpGenaServer.c\<close>\<close>

definition subscribe_handler ::
    "'f host_env \<Rightarrow> string \<Rightarrow> string \<Rightarrow> string option \<Rightarrow> 32 word \<Rightarrow> 'f host_state \<Rightarrow> 'f host_state handled" where
  "subscribe_handler env uri callback nt timeout a = (case a of (u, p, w) \<Rightarrow> map_option (\<lambda>(r, u', w'). (r, (u', p, w')))
     (OnSubscribe (he_at env) True True [] True (he_floats env) u p w uri callback timeout))"

definition unsubscribe_handler :: "string \<Rightarrow> string option \<Rightarrow> 'f host_state \<Rightarrow> 'f host_state handled" where
  "unsubscribe_handler uri sid a = (case a of (u, p, w) \<Rightarrow> map_option (\<lambda>(r, u'). (r, (u', p, w))) (OnUnsubscribe u p uri sid))"

text \<open>The job of the worker: the event goes out with the client of the stack, whatever comes of it.\<close>

definition DoNotify :: "exchange \<Rightarrow> http_client \<Rightarrow> upnp_event \<Rightarrow> (bool \<times> http_client) option" where
  "DoNotify x c event = do {
     c' \<leftarrow> (if 0 < UpnpEvent_GetArgumentCount event then map_option snd (UpnpHttpClient_Notify x c event) else Some c);
     Some (True, c') }"

text \<open>\<open>worker_rets\<close> are the results of the mutex and the semaphore of the worker, \<open>fn\<close> and \<open>ctx\<close> stand for the pointers.\<close>

definition UpnpGenaServer_Construct ::
    "'f host_env \<Rightarrow> tiny_ret \<times> tiny_ret \<Rightarrow> bool \<Rightarrow> mallocs \<Rightarrow> fnptr \<Rightarrow> addr \<Rightarrow> 'f host_state upnp_http_server \<Rightarrow> provider
      \<Rightarrow> (tiny_ret \<times> 'f host_state upnp_http_server \<times> upnp_event worker option \<times> provider) option" where
  "UpnpGenaServer_Construct env worker_rets obs_ok oks fn ctx s p =
     (case UpnpHttpServer_RegisterSubscribeHandler s (Some (subscribe_handler env)) of (ret, s1) \<Rightarrow>
      if RET_FAILED ret then Some (ret, s1, None, p)
      else case UpnpHttpServer_RegisterUnsubscribeHandler s1 (Some unsubscribe_handler) of (ret1, s2) \<Rightarrow>
      if RET_FAILED ret1 then Some (ret1, s2, None, p)
      else case TinyWorker_Construct (fst worker_rets) (snd worker_rets) of (ret2, w) \<Rightarrow>
      if RET_FAILED ret2 then Some (ret2, s2, Some w, p)
      else case TinyWorker_Initialize w True of (ret3, w1) \<Rightarrow>
      if RET_FAILED ret3 then Some (ret3, s2, Some w1, p)
      else do {
        (ret4, p1) \<leftarrow> UpnpProvider_AddObserver obs_ok oks p (Some ''UpnpGenaServer'') None None (Some fn) (Some ctx);
        Some (ret4, s2, Some w1, p1) })"

definition UpnpGenaServer_Dispose ::
    "'f host_state upnp_http_server \<Rightarrow> upnp_event worker \<Rightarrow> provider \<Rightarrow> ('f host_state upnp_http_server \<times> upnp_event worker \<times> provider) option" where
  "UpnpGenaServer_Dispose s w p = do {
     (_, p1) \<leftarrow> UpnpProvider_RemoveObserver p (Some ''UpnpGenaServer'');
     Some (snd (UpnpHttpServer_UnregisterUnsubscribeHandler (snd (UpnpHttpServer_UnregisterSubscribeHandler s))),
       snd (TinyWorker_Dispose w), p1) }"

definition UpnpGenaServer_Start :: "(upnp_event \<Rightarrow> bool) \<Rightarrow> 64 word option \<Rightarrow> upnp_event worker \<Rightarrow> tiny_ret \<times> upnp_event worker" where
  "UpnpGenaServer_Start job created w = TinyWorker_Start w (Some ''Notifier'') (Some job) created"

definition UpnpGenaServer_Stop :: "upnp_event worker \<Rightarrow> tiny_ret \<times> upnp_event worker" where
  "UpnpGenaServer_Stop w = TinyWorker_Stop w"

subsection \<open>The host\<close>

definition UpnpHost_Construct ::
    "'f host_env \<Rightarrow> tiny_ret \<times> tiny_ret \<Rightarrow> bool \<Rightarrow> mallocs \<Rightarrow> fnptr \<Rightarrow> addr \<Rightarrow> 'f host_state upnp_http_server \<Rightarrow> provider
      \<Rightarrow> (tiny_ret \<times> 'f host_state upnp_http_server \<times> upnp_event worker option \<times> provider) option" where
  "UpnpHost_Construct env worker_rets obs_ok oks fn ctx s p = (case UpnpActionExecutor_Construct env s of (ret, s1) \<Rightarrow>
     if RET_FAILED ret then Some (ret, s1, None, p)
     else case UpnpDocumentGetter_Construct s1 of (ret1, s2) \<Rightarrow>
     if RET_FAILED ret1 then Some (ret1, s2, None, p)
     else UpnpGenaServer_Construct env worker_rets obs_ok oks fn ctx s2 p)"

definition UpnpHost_Dispose ::
    "'f host_state upnp_http_server \<Rightarrow> upnp_event worker \<Rightarrow> provider \<Rightarrow> ('f host_state upnp_http_server \<times> upnp_event worker \<times> provider) option" where
  "UpnpHost_Dispose s w p = do {
     (s1, w1, p1) \<leftarrow> UpnpGenaServer_Dispose s w p;
     Some (UpnpDocumentGetter_Dispose (UpnpActionExecutor_Dispose s1), w1, p1) }"

definition UpnpHost_Start :: "(upnp_event \<Rightarrow> bool) \<Rightarrow> 64 word option \<Rightarrow> upnp_event worker \<Rightarrow> tiny_ret \<times> upnp_event worker" where
  "UpnpHost_Start job created w = UpnpGenaServer_Start job created w"

definition UpnpHost_Stop :: "upnp_event worker \<Rightarrow> tiny_ret \<times> upnp_event worker" where
  "UpnpHost_Stop w = UpnpGenaServer_Stop w"

text \<open>A host that could be constructed answers every method of a client with its own handlers, and a disposed one none.\<close>

lemma host_wired:
  assumes "UpnpHost_Construct env worker_rets obs_ok oks fn ctx s p = Some (TINY_RET_OK, s', w, p')"
  shows "on_get s' = Some get_handler" "on_post s' = Some (post_handler env)" "on_subscribe s' = Some (subscribe_handler env)"
    "on_unsubscribe s' = Some unsubscribe_handler" "on_notify s' = on_notify s" "tcp s' = tcp s"
  using assms
  by (auto simp: UpnpHost_Construct_def UpnpActionExecutor_Construct_def UpnpDocumentGetter_Construct_def UpnpGenaServer_Construct_def
      UpnpHttpServer_RegisterPostHandler_def UpnpHttpServer_RegisterGetHandler_def UpnpHttpServer_RegisterSubscribeHandler_def
      UpnpHttpServer_RegisterUnsubscribeHandler_def split: if_splits prod.splits bind_splits)

lemma host_unwired:
  assumes "UpnpHost_Dispose s w p = Some (s', w', p')"
  shows "on_get s' = None" "on_post s' = None" "on_subscribe s' = None" "on_unsubscribe s' = None"
  using assms
  by (auto simp: UpnpHost_Dispose_def UpnpGenaServer_Dispose_def UpnpActionExecutor_Dispose_def UpnpDocumentGetter_Dispose_def
      UpnpHttpServer_UnregisterPostHandler_def UpnpHttpServer_UnregisterGetHandler_def UpnpHttpServer_UnregisterSubscribeHandler_def
      UpnpHttpServer_UnregisterUnsubscribeHandler_def split: bind_splits)

end
