(* ===== verification/HostDocuments.thy ===== *)
theory HostDocuments
  imports UpnpHost
begin

section \<open>Documents on their way\<close>

text \<open>
  What a host serves as an association list, the requests and replies that carry a document, and how a
  control point gets the description of a service over the wire, in whatever pieces it arrives.
\<close>

subsection \<open>What a host serves\<close>

text \<open>The documents of a host by their path, in the order of its devices: each device and then its services.\<close>

definition scpd_of :: "'f ustore \<Rightarrow> addr \<Rightarrow> string option" where
  "scpd_of u sa = Option.bind (srv_at u sa) UpnpService_GetSCPDURL"

definition device_documents :: "'f ustore \<Rightarrow> addr \<Rightarrow> (string option \<times> (addr + addr)) list" where
  "device_documents u a = (case dev_at u a of None \<Rightarrow> []
     | Some d \<Rightarrow> (UpnpDevice_GetURI d, Inl a) # map (\<lambda>sa. (scpd_of u sa, Inr sa)) (map the (items (serviceList d))))"

definition documents :: "'f ustore \<Rightarrow> provider \<Rightarrow> (string option \<times> (addr + addr)) list" where
  "documents u p = concat (map (device_documents u) (map snd (map_entries (devices p))))"

text \<open>A host whose devices and services can be read.\<close>

definition hosted :: "'f ustore \<Rightarrow> addr \<Rightarrow> bool" where
  "hosted u a \<longleftrightarrow> (\<exists>d. dev_at u a = Some d \<and> UpnpDevice_GetURI d \<noteq> None \<and> named_ok (scpd_of u) (serviceList d))"

definition hosts :: "'f ustore \<Rightarrow> provider \<Rightarrow> bool" where
  "hosts u p \<longleftrightarrow> map_inv (devices p) \<and> length (map_entries (devices p)) < 2 ^ 31 \<and> list_all (hosted u) (map snd (map_entries (devices p)))"

lemma service_loop_finds:
  assumes "named_ok (scpd_of u) (serviceList d)" and "i + n = length (items (serviceList d))"
  shows "service_document_loop sx u d uri (word_of_nat i) n =
    (case List.find (\<lambda>sa. scpd_of u sa = Some uri) (drop i (map the (items (serviceList d)))) of None \<Rightarrow> Some (0, []) | Some a \<Rightarrow> sx a)"
  using assms(2)
proof (induction n arbitrary: i)
  case (Suc n)
  let ?zs = "map the (items (serviceList d))"
  have i: "i < length ?zs" "i < 2 ^ 31" using Suc.prems assms(1) by (simp_all add: named_ok_def)
  have its: "items (serviceList d) = map Some ?zs" using assms(1) items_present [of "items (serviceList d)"] by (simp add: named_ok_def)
  have at: "items (serviceList d) ! i = Some (?zs ! i)" using i(1) its by (metis length_map nth_map)
  have "sint (word_of_nat i :: 32 word) = int i" using i(2) by (simp add: signed_of_nat signed_take_bit_int_eq_self)
  then have a: "UpnpDevice_GetServiceAt d (word_of_nat i) = Some (?zs ! i)"
    using i(1) at by (simp add: UpnpDevice_GetServiceAt_def L_GetAt_def nth_int_of_nat)
  obtain t where t: "scpd_of u (?zs ! i) = Some t" using assms(1) i(1) by (auto simp: named_ok_def list_all_length)
  then obtain s where s: "srv_at u (?zs ! i) = Some s" "UpnpService_GetSCPDURL s = Some t" by (auto simp: scpd_of_def bind_eq_Some_conv)
  have d: "drop i ?zs = ?zs ! i # drop (Suc i) ?zs" using i(1) by (rule Cons_nth_drop_Suc [symmetric])
  have IH: "service_document_loop sx u d uri (word_of_nat i + 1) n =
      (case List.find (\<lambda>sa. scpd_of u sa = Some uri) (drop (Suc i) ?zs) of None \<Rightarrow> Some (0, []) | Some a \<Rightarrow> sx a)"
    using Suc.IH [of "Suc i"] Suc.prems by (simp add: add.commute)
  show ?case unfolding d using a s t IH by (auto simp: STR_EQUAL_def)
qed simp

lemma find_map_of:
  "map_of (map (\<lambda>x. (f x, Inr x)) zs) k = map_option Inr (List.find (\<lambda>x. f x = k) zs)"
  by (induction zs) auto

lemma document_loop_finds:
  assumes "hosts u p" and "i + n = length (map_entries (devices p))"
    and "\<And>sa. map_of (documents u p) (Some uri) = Some (Inr sa) \<Longrightarrow> \<exists>m t. sx sa = Some (m, t) \<and> 0 < m"
    and "map_of (documents u p) (Some uri) =
      map_of (concat (map (device_documents u) (map snd (drop i (map_entries (devices p)))))) (Some uri)"
  shows "document_loop dx sx u p uri (word_of_nat i) n =
    (case map_of (documents u p) (Some uri) of None \<Rightarrow> Some (0, []) | Some (Inl a) \<Rightarrow> dx a | Some (Inr sa) \<Rightarrow> sx sa)"
  using assms(2,4)
proof (induction n arbitrary: i)
  case (Suc n)
  let ?es = "map_entries (devices p)"
  let ?rest = "concat (map (device_documents u) (map snd (drop (Suc i) ?es)))"
  have h: "map_inv (devices p)" "length ?es < 2 ^ 31" "list_all (hosted u) (map snd ?es)" using assms(1) by (simp_all add: hosts_def)
  have i: "i < length ?es" using Suc.prems by simp
  let ?a = "snd (?es ! i)"
  have "hosted u ?a" using h(3) i by (simp add: list_all_length)
  then obtain d duri where d: "dev_at u ?a = Some d" "UpnpDevice_GetURI d = Some duri" "named_ok (scpd_of u) (serviceList d)"
    by (auto simp: hosted_def)
  let ?zs = "map the (items (serviceList d))"
  have dr: "drop i ?es = ?es ! i # drop (Suc i) ?es" using i by (rule Cons_nth_drop_Suc [symmetric])
  have docs: "map_of (documents u p) (Some uri) = (if duri = uri then Some (Inl ?a)
      else case List.find (\<lambda>sa. scpd_of u sa = Some uri) ?zs of Some sa \<Rightarrow> Some (Inr sa) | None \<Rightarrow> map_of ?rest (Some uri))"
    unfolding Suc.prems(2) dr by (auto simp: device_documents_def d(1,2) map_add_def find_map_of simp del: map_map split: option.splits)
  have a: "TinyMap_GetValueAt (devices p) (word_of_nat i) = Some ?a" by (rule value_at_word [OF h(1) i h(2)])
  have svc: "UpnpProvider_GetServiceDocument sx u d uri =
      (case List.find (\<lambda>sa. scpd_of u sa = Some uri) ?zs of None \<Rightarrow> Some (0, []) | Some sa \<Rightarrow> sx sa)"
    using service_loop_finds [OF d(3), of 0 "length ?zs" sx uri] d(3)
    by (simp add: UpnpProvider_GetServiceDocument_def UpnpDevice_GetServiceCount_def L_count_word named_ok_def)
  show ?case
  proof (cases "duri = uri \<or> List.find (\<lambda>sa. scpd_of u sa = Some uri) ?zs \<noteq> None")
    case True
    then show ?thesis using docs a d(1,2) svc assms(3) by (auto simp: STR_EQUAL_def)
  next
    case False
    then have m: "map_of (documents u p) (Some uri) = map_of ?rest (Some uri)" using docs by simp
    have "document_loop dx sx u p uri (word_of_nat i + 1) n =
        (case map_of (documents u p) (Some uri) of None \<Rightarrow> Some (0, []) | Some (Inl a) \<Rightarrow> dx a | Some (Inr sa) \<Rightarrow> sx sa)"
      using Suc.IH [of "Suc i"] Suc.prems(1) m by (simp add: add.commute)
    then show ?thesis using False a d(1,2) svc by (auto simp: STR_EQUAL_def)
  qed
qed simp

text \<open>The document under a path is that of the first device or service with it.\<close>

lemma document_found:
  assumes "hosts u p" and "\<And>sa. map_of (documents u p) (Some uri) = Some (Inr sa) \<Longrightarrow> \<exists>m t. sx sa = Some (m, t) \<and> 0 < m"
  shows "UpnpProvider_GetDocument dx sx u p uri =
    (case map_of (documents u p) (Some uri) of None \<Rightarrow> Some (0, []) | Some (Inl a) \<Rightarrow> dx a | Some (Inr sa) \<Rightarrow> sx sa)"
  using document_loop_finds [OF assms(1), of 0 "length (map_entries (devices p))" uri sx dx] assms(2) assms(1)
  by (simp add: UpnpProvider_GetDocument_def documents_def hosts_def map_count_word)

subsection \<open>Receiving a response in pieces\<close>

definition client_up :: "http_client \<Rightarrow> bool" where
  "client_up c \<longleftrightarrow> tc_status c = TCP_CLIENT_CONNECTED \<and> calm (tc_os c) \<and> tc_buf_size c = TCP_CLIENT_BUFFER_SIZE"

lemma client_recv_batch:
  assumes "client_up c" and "recvs (tc_os c) = batch segs @ rest" and "batch_ok (unat TCP_CLIENT_BUFFER_SIZE) segs"
  shows "TcpClient_Recv c = (TINY_RET_OK, concat segs, c\<lparr>tc_os := (tc_os c)\<lparr>recvs := rest\<rparr>\<rparr>)"
  using assms recv_batch_os [of "tc_os c" segs rest "tc_buf_size c"] by (simp add: TcpClient_Recv_def client_up_def)

lemma client_body_pieces:
  assumes "n \<le> HTTP_CONTENT_MAX_SIZE"
  shows "client_up c \<Longrightarrow> content m = part_content n p \<Longrightarrow> length p < n \<Longrightarrow> list_all (batch_ok (unat TCP_CLIENT_BUFFER_SIZE)) bs \<Longrightarrow>
    recvs (tc_os c) = concat (map batch bs) @ rest \<Longrightarrow> length p + length (concat (map concat bs)) = n \<Longrightarrow>
    client_body c m = Some (TINY_RET_OK, c\<lparr>tc_os := (tc_os c)\<lparr>recvs := rest\<rparr>\<rparr>, m\<lparr>content := part_content n (p @ concat (map concat bs))\<rparr>)"
proof (induction bs arbitrary: c m p)
  case (Cons b bs)
  let ?q = "concat b" and ?c = "c\<lparr>tc_os := (tc_os c)\<lparr>recvs := concat (map batch bs) @ rest\<rparr>\<rparr>"
  let ?m = "m\<lparr>content := part_content n (p @ ?q)\<rparr>"
  have b: "batch_ok (unat TCP_CLIENT_BUFFER_SIZE) b" using Cons.prems(4) by simp
  have r: "TcpClient_Recv c = (TINY_RET_OK, ?q, ?c)"
    using client_recv_batch [OF Cons.prems(1) _ b, of "concat (map batch bs) @ rest"] Cons.prems(5) by simp
  have le: "length p + length ?q \<le> n" using Cons.prems(6) by simp
  have a: "HttpMessage_AddContentObject m (Some ?q) (word_of_nat (length ?q)) = Some (TINY_RET_OK, ?m)"
    using add_piece(1) [OF Cons.prems(2) _ assms le] Cons.prems(3) by simp
  have full: "HttpMessage_IsContentFull ?m \<longleftrightarrow> length (p @ ?q) = n"
    using add_piece(2) [of ?m n "p @ ?q" "[]"] assms le Cons.prems(3) by (simp add: HttpMessage_IsContentFull_def)
  have step: "client_body c m = (if length (p @ ?q) = n then Some (TINY_RET_OK, ?c, ?m) else client_body ?c ?m)"
    by (subst client_body.simps) (simp add: r a full RET_FAILED_def ret_defs)
  show ?case
  proof (cases "length (p @ ?q) = n")
    case True
    have "bs = []"
    proof (rule ccontr)
      assume "bs \<noteq> []"
      then have "0 < length (concat (map concat bs))" using Cons.prems(4) batches_nonempty [of "unat TCP_CLIENT_BUFFER_SIZE" bs] by simp
      then show False using True Cons.prems(6) by (simp del: length_greater_0_conv)
    qed
    then show ?thesis using True step by simp
  next
    case False
    have "client_up ?c" using Cons.prems(1) by (simp add: client_up_def calm_def)
    then have "client_body ?c ?m = Some (TINY_RET_OK, ?c\<lparr>tc_os := (tc_os ?c)\<lparr>recvs := rest\<rparr>\<rparr>,
        ?m\<lparr>content := part_content n ((p @ ?q) @ concat (map concat bs))\<rparr>)"
      using False Cons.prems(4,6) le by (intro Cons.IH) auto
    then show ?thesis using False step by simp
  qed
qed simp

text \<open>The operating system connects, takes the request and delivers the response in pieces, the head in the first.\<close>

definition replies_in :: "exchange \<Rightarrow> string list list \<Rightarrow> bool" where
  "replies_in x bs \<longleftrightarrow> ex_bytes_ok x \<and> ex_oks x = [] \<and> cn_open (ex_conn x) = TINY_RET_OK
     \<and> cn_connect (ex_conn x) \<in> {Connected, InProgress} \<and> calm (cn_os (ex_conn x)) \<and> written (cn_os (ex_conn x)) = []
     \<and> recvs (cn_os (ex_conn x)) = concat (map batch bs) \<and> list_all (batch_ok (unat TCP_CLIENT_BUFFER_SIZE)) bs"

lemma client_pieces:
  assumes "client_up c" and "recvs (tc_os c) = concat (map batch (b # bs))"
    and "list_all (batch_ok (unat TCP_CLIENT_BUFFER_SIZE)) (b # bs)"
    and "reply_ok code t" and "head_ok kvs (length body)"
    and "concat b = http_text (response_line code t) kvs p" and "p @ concat (map concat bs) = body"
  shows "\<exists>c1 m m'. TcpClient_Recv c = (TINY_RET_OK, concat b, c1)
    \<and> HttpMessage_Parse [] fresh_message (concat b) (word_of_nat (length (concat b))) = Some (TINY_RET_OK, m)
    \<and> (if HttpContent_GetSize (content m) = 0 \<or> HttpMessage_IsContentFull m then m' = m \<and> c1 = c\<lparr>tc_os := (tc_os c)\<lparr>recvs := []\<rparr>\<rparr>
       else client_body c1 m = Some (TINY_RET_OK, c\<lparr>tc_os := (tc_os c)\<lparr>recvs := []\<rparr>\<rparr>, m'))
    \<and> status_code m' = code \<and> content m' = full_content body"
proof -
  let ?n = "length body" and ?c = "c\<lparr>tc_os := (tc_os c)\<lparr>recvs := concat (map batch bs)\<rparr>\<rparr>"
  have n: "?n \<le> HTTP_CONTENT_MAX_SIZE" and p: "length p \<le> ?n" using assms(5) by (auto simp: head_ok_def assms(7) [symmetric])
  have r: "TcpClient_Recv c = (TINY_RET_OK, concat b, ?c)"
    using client_recv_batch [OF assms(1), of b "concat (map batch bs)"] assms(2,3) by simp
  obtain m where m: "HttpMessage_Parse [] fresh_message (concat b) (word_of_nat (length (concat b))) = Some (TINY_RET_OK, m)"
      "status_code m = code" "content m = part_content ?n p"
    using response_arrived [OF assms(4,5) p assms(6)] by blast
  have all: "bs = []" if "length p = ?n"
  proof (rule ccontr)
    assume "bs \<noteq> []"
    then have "0 < length (concat (map concat bs))" using assms(3) batches_nonempty [of "unat TCP_CLIENT_BUFFER_SIZE" bs] by simp
    then show False using that unfolding assms(7) [symmetric] length_append by linarith
  qed
  show ?thesis
  proof (cases "length p = ?n")
    case True
    then have "p = body" using all assms(7) by simp
    moreover have "HttpContent_GetSize (content m) = 0 \<or> HttpMessage_IsContentFull m"
      using full_content_ok(2) [OF n] by (simp add: m(3) \<open>p = body\<close> part_content_whole HttpMessage_IsContentFull_def)
    ultimately show ?thesis using r m all [OF True] by (auto simp: part_content_whole)
  next
    case False
    then have pos: "length p < ?n" using p by simp
    have "\<not> HttpMessage_IsContentFull m"
      using add_piece(2) [OF m(3) le_less_trans [OF le0 pos] n, of "[]"] pos by (simp add: HttpMessage_IsContentFull_def m(3))
    moreover have "HttpContent_GetSize (content m) \<noteq> 0"
    proof -
      have "unat (word_of_nat ?n :: 32 word) = ?n" using n by (intro unat_word_of_nat) (simp add: HTTP_CONTENT_MAX_SIZE_def)
      then show ?thesis using pos by (auto simp: m(3) part_content_def HttpContent_GetSize_def)
    qed
    moreover have "client_up ?c" using assms(1) by (simp add: client_up_def calm_def)
    then have "client_body ?c m = Some (TINY_RET_OK, ?c\<lparr>tc_os := (tc_os ?c)\<lparr>recvs := []\<rparr>\<rparr>,
        m\<lparr>content := part_content ?n (p @ concat (map concat bs))\<rparr>)"
      using pos assms(3,7) by (intro client_body_pieces [OF n _ m(3)]) auto
    ultimately show ?thesis using r m by (auto simp: assms(7) part_content_whole)
  qed
qed

lemma exchanged_in_pieces:
  assumes "replies_in x (b # bs)" and "mtype request = HTTP_REQUEST" and "length (http_message.ip request) < TINY_IP_LEN"
    and "HttpMessage_ToBytes True request = Some (TINY_RET_OK, Some out)" and "out \<noteq> []"
    and "reply_ok code t" and "head_ok kvs (length body)"
    and "concat b = http_text (response_line code t) kvs p" and "p @ concat (map concat bs) = body"
  shows "\<exists>c' m. HttpClient_Execute (ex_conn x) (ex_bytes_ok x) (ex_oks x) (snd HttpClient_Construct) request (snd HttpMessage_Construct)
      = Some (TINY_RET_OK, c', m)
    \<and> written (tc_os c') = out \<and> status_code m = code \<and> content m = full_content body"
proof -
  let ?c0 = "snd HttpClient_Construct" and ?os = "cn_os (ex_conn x)"
  define c1 where "c1 = snd (TcpClient_Connect (ex_conn x) ?c0 (Some (http_message.ip request)) (http_message.port request))"
  have connect: "TcpClient_Connect (ex_conn x) ?c0 (Some (http_message.ip request)) (http_message.port request) = (TINY_RET_OK, c1)"
    and c1: "tc_status c1 = TCP_CLIENT_CONNECTED" "tc_os c1 = ?os" "tc_buf_size c1 = TCP_CLIENT_BUFFER_SIZE"
    using assms(1)
    by (auto simp: c1_def TcpClient_Connect_def connect_steps_def replies_in_def tiny_tcp_async_connect_def RET_FAILED_def RET_SUCCEEDED_def
        HttpClient_Construct_def TcpClient_Construct_def ret_defs Let_def)
  let ?c2 = "c1\<lparr>tc_os := ?os\<lparr>written := out\<rparr>\<rparr>"
  have os: "calm ?os" "written ?os = []" "recvs ?os = concat (map batch (b # bs))" "list_all (batch_ok (unat TCP_CLIENT_BUFFER_SIZE)) (b # bs)"
    using assms(1) by (simp_all add: replies_in_def)
  have send: "TcpClient_Send c1 out = (TINY_RET_OK, ?c2)"
    using c1 os assms(5) by (simp add: TcpClient_Send_def tiny_tcp_waiting_for_write_def tiny_socket_waiting_for_write_def calm_def
        os_send_all RET_FAILED_def ret_defs)
  have up: "client_up ?c2" "recvs (tc_os ?c2) = concat (map batch (b # bs))" using c1 os by (simp_all add: client_up_def calm_def)
  obtain c3 m m' where r: "TcpClient_Recv ?c2 = (TINY_RET_OK, concat b, c3)"
      "HttpMessage_Parse [] fresh_message (concat b) (word_of_nat (length (concat b))) = Some (TINY_RET_OK, m)"
      "if HttpContent_GetSize (content m) = 0 \<or> HttpMessage_IsContentFull m then m' = m \<and> c3 = ?c2\<lparr>tc_os := (tc_os ?c2)\<lparr>recvs := []\<rparr>\<rparr>
       else client_body c3 m = Some (TINY_RET_OK, ?c2\<lparr>tc_os := (tc_os ?c2)\<lparr>recvs := []\<rparr>\<rparr>, m')"
      "status_code m' = code" "content m' = full_content body"
    using client_pieces [OF up os(4) assms(6-9)] by blast
  have "ex_bytes_ok x" "ex_oks x = []" using assms(1) by (simp_all add: replies_in_def)
  then have "HttpClient_Execute (ex_conn x) (ex_bytes_ok x) (ex_oks x) ?c0 request (snd HttpMessage_Construct) =
      Some (TINY_RET_OK, ?c2\<lparr>tc_os := (tc_os ?c2)\<lparr>recvs := []\<rparr>\<rparr>, m')"
    using assms(2-4) connect send r(1,3) parse_received_ok [OF r(2)]
    by (auto simp: HttpClient_Execute_def read_field_def fresh_message_def [symmetric] RET_FAILED_def ret_defs split: if_splits)
  then show ?thesis using r(4,5) by auto
qed

subsection \<open>A document on the wire\<close>

lemma get_request:
  assumes "at_url url host prt uri" and "fits ''GET'' uri [(''HOST'', host_text host prt)] []"
  shows "\<exists>m. HttpMessage_SetRequest [] (snd HttpMessage_Construct) (Some ''GET'') (Some url) = Some (TINY_RET_OK, m)
    \<and> mtype m = HTTP_REQUEST \<and> http_message.ip m = host
    \<and> HttpMessage_ToBytes True m = Some (TINY_RET_OK, Some (http_text (request_line ''GET'' uri) [(''HOST'', host_text host prt)] []))"
proof -
  let ?head = "(''HOST'', host_text host prt)" and ?line = "request_line ''GET'' uri"
  obtain m1 where m1: "HttpMessage_SetRequest [] fresh_message (Some ''GET'') (Some url) = Some (TINY_RET_OK, m1)" "content m1 = fresh_content"
      "\<forall>m. m = m1\<lparr>header := header_set_all [] (header m1), content := full_content []\<rparr> \<longrightarrow> mtype m = HTTP_REQUEST
        \<and> http_message.ip m = host \<and> unat (http_message.port m) = prt
        \<and> HttpMessage_ToBytes True m = Some (TINY_RET_OK, Some (http_text ?line [?head] []))"
    using request_made [OF assms(1,2)] by blast
  have "m1 = m1\<lparr>header := header_set_all [] (header m1), content := full_content []\<rparr>"
    using m1(2) by (cases m1) (simp add: full_content_def)
  from m1(3) [rule_format, OF this] show ?thesis using m1(1) unfolding fresh_message_def by blast
qed

definition file_headers :: "string \<Rightarrow> (string \<times> string) list" where
  "file_headers doc = [(''Content-Length'', show_nat (length doc))]"

definition file_reply :: "string \<Rightarrow> string" where
  "file_reply doc = http_text (response_line 200 ''OK'') (file_headers doc) doc"

lemma file_size:
  assumes "length doc \<le> UPNP_DOCUMENT_LEN"
  shows "unat (word_of_nat (length doc) :: 32 word) = length doc" "length (show_nat (length doc)) \<le> 5"
  using assms by (auto intro!: unat_word_of_nat show_nat_length simp: UPNP_DOCUMENT_LEN_def)

lemma plain_size:
  assumes "length doc \<le> UPNP_DOCUMENT_LEN"
  shows "plain_header (''Content-Length'', show_nat (length doc))" "length (header_text (''Content-Length'', show_nat (length doc))) < 30"
proof -
  have "CR \<notin> set (show_nat (length doc))" using show_nat_digits [of "length doc"] by auto
  then show "plain_header (''Content-Length'', show_nat (length doc))"
    using file_size(2) [OF assms] by (simp add: plain_header_def is_name_char_def is_char_def is_ctl_def is_tspecial_def sbyte_def field_defs)
  show "length (header_text (''Content-Length'', show_nat (length doc))) < 30"
    using file_size(2) [OF assms] by (simp add: header_text_def)
qed

lemma file_headers_ok:
  assumes "doc \<noteq> []" and "length doc \<le> UPNP_DOCUMENT_LEN"
  shows "head_ok (file_headers doc) (length doc)"
  using assms plain_size [OF assms(2)]
  by (simp add: head_ok_def file_headers_def HTTP_LINE_LEN_def HTTP_CONTENT_MAX_SIZE_def UPNP_DOCUMENT_LEN_def)

lemma file_sent:
  assumes "up c" and "doc \<noteq> []" and "length doc \<le> UPNP_DOCUMENT_LEN"
  shows "send_reply (SendFileContent doc (word_of_nat (length doc))) c = Some (sent_on c (file_reply doc))"
proof -
  let ?line = "response_line 200 ''OK''" and ?kvs = "file_headers doc"
  let ?r1 = "HttpMessage_SetResponse (HttpMessage_SetVersion (HttpMessage_SetType fresh_message HTTP_RESPONSE) 1 1) 200 (Some ''OK'')"
  let ?m = "HttpMessage_SetHeaderInteger [] ?r1 (Some ''Content-Length'') (word_of_nat (length doc))"
  have f: "field_printf 32 (show_nat (length doc)) = show_nat (length doc)" using file_size(2) [OF assms(3)] by (simp add: field_printf_def)
  have m: "?m = ?r1\<lparr>header := header_set_all ?kvs (snd HttpHeader_Construct)\<rparr>"
    by (simp only: set_header_all file_size(1) [OF assms(3)] f file_headers_def)
      (simp add: HttpMessage_SetResponse_def HttpMessage_SetVersion_def HttpMessage_SetType_def)
  have r: "mtype ?r1 = HTTP_RESPONSE" "content ?r1 = fresh_content" "status_text ?r1 = ''OK''"
      "status_code ?r1 = 200" "major ?r1 = 1" "minor ?r1 = 1" "protocol_identifier ?r1 = ''HTTP''"
    by (simp_all add: HttpMessage_SetResponse_def HttpMessage_SetVersion_def HttpMessage_SetType_def field_defs)
  have hc: "header_inv (snd HttpHeader_Construct)" "header_pairs (snd HttpHeader_Construct) = []"
    by (simp_all add: header_inv_def header_pairs_def HttpHeader_Construct_def L_SetDeleteListener_def L_new_def count_ok_def)
  have h: "header_pairs (header ?m) = ?kvs" "header_inv (header ?m)"
  proof -
    have "header_pairs (header_set_all ?kvs (snd HttpHeader_Construct)) = ?kvs"
      unfolding header_pairs_set_all hc(2) using file_size(2) [OF assms(3)] by (simp add: file_headers_def field_defs)
    moreover have "length (items (snd HttpHeader_Construct)) + length ?kvs < 2 ^ 31" using hc(2) by (simp add: header_pairs_def file_headers_def)
    ultimately show "header_pairs (header ?m) = ?kvs" "header_inv (header ?m)"
      using header_inv_set_all [OF hc(1)] unfolding m by simp_all
  qed
  have n: "length (items (header ?m)) = 1" using h(1) by (auto simp: header_pairs_def file_headers_def)
  have s: "show_int 200 = ''200''" "show_int 1 = ''1''"
    by (simp_all add: show_int_def show_nat.simps [of 200] show_nat.simps [of 20] show_nat_small digit_char_def char_of_def bit_0)
  have line: "first_line ?m = Some ?line" "length ?line = 17"
    by (simp_all add: first_line_def m r read_field_def field_defs response_line_def printed_version_def s Let_def)
  have fit: "headers_fit (header ?m)" "room_ok ?line ?m"
    using h(2) n plain_size [OF assms(3)] line(2)
    by (auto simp: headers_fit_def h(1) room_ok_def file_headers_def HTTP_LINE_LEN_def HTTP_HEAD_LEN_def)
  have c: "content ?m = full_content []" using r(2) by (simp add: m full_content_def)
  have mt: "mtype ?m \<noteq> HTTP_UNDEFINED" using r(1) by (simp add: m)
  have bytes: "HttpMessage_ToBytes True ?m = Some (TINY_RET_OK, Some (http_text ?line ?kvs []))"
    using to_bytes_text [OF mt line(1) fit] full_content_ok [of "[]"] by (simp add: c h(1))
  have up: "up (sent_on c b)" for b using assms(1) by (simp add: up_def sent_on_def calm_def)
  have ne: "http_text ?line ?kvs [] \<noteq> []" by (simp add: http_text_def)
  have "UpnpHttpConnection_SendFileContent c doc (word_of_nat (length doc)) =
      Some (TINY_RET_OK, sent_on (sent_on c (http_text ?line ?kvs [])) doc)"
    using bytes send_calm [OF assms(1) ne] send_calm [OF up assms(2)]
    by (simp add: UpnpHttpConnection_SendFileContent_def fresh_message_def [symmetric] file_size(1) [OF assms(3)] Let_def)
  moreover have "sent_on (sent_on c (http_text ?line ?kvs [])) doc = sent_on c (file_reply doc)"
    by (simp add: sent_on_def file_reply_def http_text_def)
  ultimately show ?thesis by (simp add: send_reply_def)
qed

lemma document_served:
  assumes "hosts u p" and "map_of (documents u p) (Some uri) = Some (Inr ha)" and "srv_at u ha = Some hs"
    and "service_says u hs acts vars" and "list_all action_ok' acts" and "list_all variable_ok vars"
    and "list_all (\<lambda>a. length (action_text a) < PIECE_LEN) acts" and "length (scpd_text acts vars) < UPNP_DOCUMENT_LEN"
  shows "OnGet u p uri = Some [SendFileContent (scpd_text acts vars) (word_of_nat (length (scpd_text acts vars)))]"
proof -
  let ?t = "scpd_text acts vars"
  have d: "service_document u ha = Some (word_of_nat (length ?t), ?t)"
    using description_written [OF assms(4-8)] assms(3) by (simp add: service_document_def)
  have t: "?t \<noteq> []" by (simp add: scpd_text_def scpd_head_def)
  have "unat (word_of_nat (length ?t) :: 32 word) = length ?t" using file_size(1) [of ?t] assms(8) by simp
  then have pos: "0 < (word_of_nat (length ?t) :: 32 word)" using t by (simp add: word_less_nat_alt)
  have "\<exists>m t. service_document u sa = Some (m, t) \<and> 0 < m" if "map_of (documents u p) (Some uri) = Some (Inr sa)" for sa
    using that assms(2) d pos by auto
  from document_found [where sx = "service_document u" and uri = uri and dx = "device_document u", OF assms(1) this] have "UpnpProvider_GetDocument (device_document u) (service_document u) u p uri =
      Some (word_of_nat (length ?t), ?t)"
    by (simp add: assms(2) d)
  then show ?thesis using pos by (simp add: OnGet_def)
qed

lemma get_served:
  assumes "up conn" and "recvs (conn_os conn) = batch [out]" and "out = http_text (request_line ''GET'' uri) kvs []"
    and "fits ''GET'' uri kvs []" and "length out < unat TCP_CONN_BUFFER_SIZE" and "length uri < HTTP_URI_LEN"
    and "on_get s = Some get_handler" and "OnGet u p uri = Some [SendFileContent doc (word_of_nat (length doc))]"
    and "doc \<noteq> []" and "length doc \<le> UPNP_DOCUMENT_LEN"
  shows "\<exists>conn'. conn_listener s ((u, p, w), conn) = Some ((u, p, w), conn')
    \<and> written (conn_os conn') = written (conn_os conn) @ file_reply doc"
proof -
  have f: "token_ok ''GET''" "uri_ok uri" "head_ok kvs (length [])" using assms(4) by (simp_all add: fits_def wire_ok_def)
  have "out \<noteq> []" by (simp add: assms(3) http_text_def request_line_def)
  then have b: "list_all (batch_ok (unat TCP_CONN_BUFFER_SIZE)) [[out]]" using assms(5) by (simp add: batch_ok_def)
  let ?conn = "conn\<lparr>conn_os := (conn_os conn)\<lparr>recvs := []\<rparr>\<rparr>"
  obtain m where m: "conn_recv_http_msg conn fresh_message = Some (TINY_RET_OK, ?conn, m)" "mtype m = HTTP_REQUEST"
      "req_method m = ''GET''" "req_uri m = uri"
    using pieces_received [OF assms(1) _ b f, of "[]" "[]"] assms(2,3) by auto
  have d: "dispatch s m (u, p, w) = Some ([SendFileContent doc (word_of_nat (length doc))], (u, p, w))"
    using assms(6-8) m(3,4) by (simp add: dispatch_def doGet_def get_handler_def read_field_def HTTP_METHOD_LEN_def STR_EQUAL_def)
  have up: "up ?conn" using assms(1) by (simp add: up_def calm_def)
  have "send_replies [SendFileContent doc (word_of_nat (length doc))] ?conn = Some (sent_on ?conn (file_reply doc))"
    using file_sent [OF up assms(9,10)] by simp
  then have "conn_recv_once s (u, p, w) conn = Some (TINY_RET_OK, (u, p, w), snd (TcpConn_Disconnect (sent_on ?conn (file_reply doc))))"
    using served [OF m(1,2) d] by simp
  then obtain conn' where "conn_listener s ((u, p, w), conn) = Some ((u, p, w), conn')"
      "written (conn_os conn') = written (conn_os (snd (TcpConn_Disconnect (sent_on ?conn (file_reply doc)))))"
    using listened_once up by (fastforce simp: TcpConn_Disconnect_def tiny_tcp_close_def sent_on_def up_def calm_def)
  then show ?thesis using up by (auto simp: TcpConn_Disconnect_def tiny_tcp_close_def sent_on_def up_def)
qed

lemma document_fetched:
  assumes "at_url url host prt uri" and "fits ''GET'' uri [(''HOST'', host_text host prt)] []"
    and "replies_in x (b # bs)" and "concat b = http_text (response_line 200 ''OK'') (file_headers doc) q"
    and "q @ concat (map concat bs) = doc" and "doc \<noteq> []" and "length doc \<le> UPNP_DOCUMENT_LEN"
    and "TinyXml_Parse expat True parser doc = Some (TINY_RET_OK, tree)"
  shows "fetch_document x True expat True (Some parser) url = Some (TINY_RET_OK, Some tree)"
    and "\<exists>m c r. HttpMessage_SetRequest [] (snd HttpMessage_Construct) (Some ''GET'') (Some url) = Some (TINY_RET_OK, m)
      \<and> HttpClient_Execute (ex_conn x) (ex_bytes_ok x) (ex_oks x) (snd HttpClient_Construct) m (snd HttpMessage_Construct) = Some (TINY_RET_OK, c, r)
      \<and> written (tc_os c) = http_text (request_line ''GET'' uri) [(''HOST'', host_text host prt)] []"
proof -
  let ?out = "http_text (request_line ''GET'' uri) [(''HOST'', host_text host prt)] []"
  obtain m where m: "HttpMessage_SetRequest [] (snd HttpMessage_Construct) (Some ''GET'') (Some url) = Some (TINY_RET_OK, m)"
      "mtype m = HTTP_REQUEST" "http_message.ip m = host" "HttpMessage_ToBytes True m = Some (TINY_RET_OK, Some ?out)"
    using get_request [OF assms(1,2)] by blast
  have host: "length (http_message.ip m) < TINY_IP_LEN" using assms(1) m(3) by (simp add: at_url_def)
  have ne: "?out \<noteq> []" by (simp add: http_text_def)
  have ok: "reply_ok 200 ''OK''" by (simp add: reply_ok_def num_ok_def is_ctl_def sbyte_def)
  obtain c r where r: "HttpClient_Execute (ex_conn x) (ex_bytes_ok x) (ex_oks x) (snd HttpClient_Construct) m (snd HttpMessage_Construct)
        = Some (TINY_RET_OK, c, r)" "written (tc_os c) = ?out" "status_code r = 200" "content r = full_content doc"
    using exchanged_in_pieces [OF assms(3) m(2) host m(4) ne ok file_headers_ok [OF assms(6,7)] assms(4,5)] by blast
  show "\<exists>m c r. HttpMessage_SetRequest [] (snd HttpMessage_Construct) (Some ''GET'') (Some url) = Some (TINY_RET_OK, m)
      \<and> HttpClient_Execute (ex_conn x) (ex_bytes_ok x) (ex_oks x) (snd HttpClient_Construct) m (snd HttpMessage_Construct) = Some (TINY_RET_OK, c, r)
      \<and> written (tc_os c) = ?out"
    using m(1) r(1,2) by blast
  have body: "opt_text (HttpContent_GetObject (content r)) = doc" using assms(6) by (simp add: r(4) full_content_def HttpContent_GetObject_def opt_text_def)
  show "fetch_document x True expat True (Some parser) url = Some (TINY_RET_OK, Some tree)"
    using m(1) r(1,3) assms(8) by (simp add: fetch_document_def body HTTP_STATUS_OK_def RET_FAILED_def ret_defs)
qed

text \<open>
  C6. The description of a service travels from host to control point: the control point asks for the path of
  the URL it has, the host's server finds the service in the provider, writes its document and sends it, the
  control point puts it together however the network cuts it, and fills its own service with the state variables
  and the actions that have arguments.
\<close>

theorem description_fetched:
  assumes "hosts u p" and "map_of (documents u p) (Some uri) = Some (Inr ha)" and "srv_at u ha = Some hs"
    and "service_says u hs acts vars" and "list_all action_ok' acts" and "list_all variable_ok vars"
    and "list_all (\<lambda>a. length (action_text a) < PIECE_LEN) acts" and "length (scpd_text acts vars) < UPNP_DOCUMENT_LEN"
    and "acts \<noteq> []" and "vars \<noteq> []"
    and "at_url url host prt uri" and "fits ''GET'' uri [(''HOST'', host_text host prt)] []"
    and "request = http_text (request_line ''GET'' uri) [(''HOST'', host_text host prt)] []"
    and "length request < unat TCP_CONN_BUFFER_SIZE"
    and "up conn" and "recvs (conn_os conn) = batch [request]" and "on_get server = Some get_handler"
    and "replies_in x (b # bs)" and "concat b = http_text (response_line 200 ''OK'') (file_headers (scpd_text acts vars)) q"
    and "q @ concat (map concat bs) = scpd_text acts vars"
    and "unused parser" and "expat (scpd_text acts vars) = (sax_of (scpd_doc acts vars), True)"
    and "srv_at (sdd_store st) sa = Some s0" and "members (actionList s0) []" and "members (stateVariableTable s0) []"
    and "sdd_mem st = []"
  shows "(\<exists>m c r. HttpMessage_SetRequest [] (snd HttpMessage_Construct) (Some ''GET'') (Some url) = Some (TINY_RET_OK, m)
      \<and> HttpClient_Execute (ex_conn x) (ex_bytes_ok x) (ex_oks x) (snd HttpClient_Construct) m (snd HttpMessage_Construct) = Some (TINY_RET_OK, c, r)
      \<and> written (tc_os c) = request)
    \<and> (\<exists>conn'. conn_listener server ((u, p, w), conn) = Some ((u, p, w), conn')
      \<and> written (conn_os conn') = written (conn_os conn) @ file_reply (scpd_text acts vars))
    \<and> concat (map concat (b # bs)) = file_reply (scpd_text acts vars)
    \<and> (\<exists>st' s'. UpnpServiceParser_Parse x True expat True (Some parser) past fl garbage (Some url) sa st = Some (TINY_RET_OK, st')
      \<and> srv_at (sdd_store st') sa = Some s' \<and> service_says (sdd_store st') s' (with_arguments acts) vars \<and> typed_table s')"
proof -
  let ?t = "scpd_text acts vars"
  have t: "?t \<noteq> []" "length ?t \<le> UPNP_DOCUMENT_LEN" using assms(8) by (simp_all add: scpd_text_def scpd_head_def)
  have n: "length acts < 2 ^ 31" "length vars < 2 ^ 31"
    using assms(4) by (auto simp: service_says_def members_def dest: list_all2_lengthD)
  have uri: "length uri < HTTP_URI_LEN" using assms(11) by (simp add: at_url_def)
  obtain tree root where d: "TinyXml_Parse expat True parser ?t = Some (TINY_RET_OK, tree)"
      "TinyXml_GetRoot tree = Some root" "rep (brk parser) (brk tree) (xml_heap tree) None 0 root (scpd_doc acts vars)"
    using description_parsed [where expat = expat, OF assms(21,5,6,22)] by blast
  let ?st = "with_actions (with_states fl garbage st sa vars) sa (with_arguments acts)"
  have "SDD_ParseXml past fl garbage tree sa st = Some (TINY_RET_OK, ?st)"
    using description_read [OF d(3,2) assms(5) n(1) assms(6) n(2) assms(23,26), of past fl garbage] assms(9,10) by simp
  then have "UpnpServiceParser_Parse x True expat True (Some parser) past fl garbage (Some url) sa st = Some (TINY_RET_OK, ?st)"
    using document_fetched(1) [where expat = expat, OF assms(11,12,18,19,20) t d(1)] by (simp add: UpnpServiceParser_Parse_def)
  moreover obtain s' where "srv_at (sdd_store ?st) sa = Some s'" "service_says (sdd_store ?st) s' (with_arguments acts) vars" "typed_table s'"
    using described_service [OF assms(23-25,5) n refl, of fl garbage] by blast
  moreover obtain conn' where "conn_listener server ((u, p, w), conn) = Some ((u, p, w), conn')"
      "written (conn_os conn') = written (conn_os conn) @ file_reply ?t"
    using get_served [OF assms(15,16,13,12,14) uri assms(17) document_served [OF assms(1-8)] t] by blast
  moreover have "concat (map concat (b # bs)) = file_reply ?t"
    using assms(19) by (simp add: file_reply_def assms(20) [symmetric] http_text_def)
  ultimately show ?thesis
    using document_fetched(2) [where expat = expat, OF assms(11,12,18,19,20) t d(1)] assms(13) by blast
qed

definition demo_web_service :: "int upnp_service" where
  "demo_web_service = demo_described_service\<lparr>SCPDURL := ''/d''\<rparr>"

definition demo_web :: "int ustore" where
  "demo_web = demo_described\<lparr>dev_at := [1 \<mapsto> demo_host_device], srv_at := [7 \<mapsto> demo_web_service]\<rparr>"

lemma demo_web_says: "service_says demo_web demo_web_service demo_acts demo_vars"
  using demo_says by (simp add: service_says_def demo_web_def demo_web_service_def)

lemma demo_web_hosts: "hosts demo_web demo_provider" "map_of (documents demo_web demo_provider) (Some ''/d'') = Some (Inr 7)"
    "srv_at demo_web 7 = Some demo_web_service"
proof -
  let ?m = "devices demo_provider"
  have fresh: "map_inv (devices (snd (UpnpProvider_Construct TINY_RET_OK)))" using fresh_maps by (simp add: maps_ok_def)
  have inv: "map_inv ?m" using map_inv_insert [OF fresh] by (simp add: demo_provider_def)
  have "map snd (map_entries ?m) = map snd (map_entries (devices (snd (UpnpProvider_Construct TINY_RET_OK)))) @ [1]"
    unfolding demo_provider_def provider.select_convs provider.update_convs by (simp add: entries_insert [OF fresh fresh_lookup(1)])
  then have e: "map snd (map_entries ?m) = [1]" using fresh_lists(1) by (simp add: device_list_def)
  have url: "scpd_of demo_web 7 = Some ''/d''"
    by (simp add: scpd_of_def demo_web_def demo_web_service_def UpnpService_GetSCPDURL_def read_field_def TINY_URL_LEN_def)
  have uri: "\<exists>t. UpnpDevice_GetURI demo_host_device = Some t \<and> t \<noteq> ''/d''"
    by (simp add: UpnpDevice_GetURI_def demo_host_device_def demo_device_def read_field_def UpnpDevice_SetDeviceId_def UpnpDevice_Construct_def TINY_URI_LEN_def)
  have "hosted demo_web 1"
    using uri url by (auto simp: hosted_def demo_web_def named_ok_def demo_host_device_def count_ok_def)
  moreover have "length (map_entries ?m) = 1" using e by (metis length_map One_nat_def length_Cons list.size(3))
  ultimately show "hosts demo_web demo_provider" using inv e by (simp add: hosts_def)
  show "map_of (documents demo_web demo_provider) (Some ''/d'') = Some (Inr 7)"
    using uri url by (auto simp: documents_def e device_documents_def) (auto simp: demo_web_def demo_host_device_def)
  show "srv_at demo_web 7 = Some demo_web_service" by (simp add: demo_web_def)
qed

abbreviation demo_scpd :: string where
  "demo_scpd \<equiv> scpd_text demo_acts demo_vars"

definition demo_get :: string where
  "demo_get = http_text (request_line ''GET'' ''/d'') [(''HOST'', ''10.0.0.9:4000'')] []"

definition demo_pieces :: "string list list" where
  "demo_pieces = [[http_text (response_line 200 ''OK'') (file_headers demo_scpd) []], [demo_scpd]]"

definition demo_download :: exchange where
  "demo_download = \<lparr>ex_conn = demo_connecting\<lparr>cn_os := silent_os\<lparr>recvs := concat (map batch demo_pieces)\<rparr>\<rparr>, ex_bytes_ok = True, ex_oks = []\<rparr>"

definition demo_server :: "int host_state upnp_http_server" where
  "demo_server = snd (UpnpDocumentGetter_Construct (snd UpnpHttpServer_Construct))"

lemma demo_scpd_size: "length demo_scpd < 5000" "demo_scpd \<noteq> []"
  by (simp_all add: demo_acts_def demo_vars_def action_text_def argument_text_def variable_text_def scpd_text_def scpd_head_def
      DIRECTION_IN_def DIRECTION_OUT_def DataType_BooleanToString_def)

lemma demo_download_replies: "replies_in demo_download demo_pieces"
proof -
  let ?head = "http_text (response_line 200 ''OK'') (file_headers demo_scpd) []"
  have "length demo_scpd \<le> UPNP_DOCUMENT_LEN" using demo_scpd_size(1) by (simp add: UPNP_DOCUMENT_LEN_def)
  from plain_size(2) [OF this] have "length ?head < 100"
    by (simp add: http_text_def file_headers_def response_line_def show_int_def show_nat.simps [of 200] show_nat.simps [of 20] show_nat_small)
  moreover have "?head \<noteq> []" by (simp add: http_text_def)
  ultimately have "list_all (batch_ok 51200) demo_pieces"
    using demo_scpd_size by (simp add: demo_pieces_def batch_ok_def)
  then show ?thesis
    by (simp add: replies_in_def demo_download_def demo_connecting_def silent_os_def calm_def TCP_CLIENT_BUFFER_SIZE_def)
qed

theorem description_fetched_witness:
  "\<exists>conn' st' s'. conn_listener demo_server ((demo_web, demo_provider, demo_worker), (demo_conn [])\<lparr>conn_os := silent_os\<lparr>recvs := batch [demo_get]\<rparr>\<rparr>)
      = Some ((demo_web, demo_provider, demo_worker), conn')
    \<and> written (conn_os conn') = concat (map concat demo_pieces)
    \<and> UpnpServiceParser_Parse demo_download True scpd_expat True (Some fresh_xml) (CHR ''x'') int_floats demo_garbage
        (Some ''http://10.0.0.9:4000/d'') 7 demo_empty = Some (TINY_RET_OK, st')
    \<and> srv_at (sdd_store st') 7 = Some s'
    \<and> service_says (sdd_store st') s' [(''SetTarget'', [(''newTargetValue'', ARG_IN, ''Target'')]),
        (''GetStatus'', [(''ResultStatus'', ARG_OUT, ''Status'')])] demo_vars \<and> typed_table s'"
proof -
  let ?conn = "(demo_conn [])\<lparr>conn_os := silent_os\<lparr>recvs := batch [demo_get]\<rparr>\<rparr>"
  have n: "show_nat 4000 = ''4000''"
    by (simp add: show_nat.simps [of 4000] show_nat.simps [of 400] show_nat.simps [of 40] show_nat_small digit_char_def char_of_def bit_0)
  have host: "host_text ''10.0.0.9'' 4000 = ''10.0.0.9:4000''" by (simp add: host_text_def n)
  have url: "at_url ''http://10.0.0.9:4000/d'' ''10.0.0.9'' 4000 ''/d''"
    by (simp add: at_url_def n TINY_IP_LEN_def HTTP_URI_LEN_def)
  have fits: "fits ''GET'' ''/d'' [(''HOST'', host_text ''10.0.0.9'' 4000)] []"
    unfolding host by (simp add: fits_def wire_ok_def head_ok_def token_ok_def uri_ok_def plain_header_def is_name_char_def is_char_def is_ctl_def
      is_tspecial_def sbyte_def cstring_def header_key_def tolower_def HTTP_CONTENT_MAX_SIZE_def field_defs header_text_def request_line_def
      char_of_def bit_0 HTTP_HEAD_LEN_def)
  have get: "demo_get = http_text (request_line ''GET'' ''/d'') [(''HOST'', host_text ''10.0.0.9'' 4000)] []"
    by (simp add: demo_get_def host)
  have short: "length demo_get < unat TCP_CONN_BUFFER_SIZE"
    by (simp add: demo_get_def http_text_def request_line_def header_text_def TCP_CONN_BUFFER_SIZE_def)
  have up: "up ?conn" "recvs (conn_os ?conn) = batch [demo_get]"
    by (simp_all add: up_def calm_def demo_conn_def TcpConn_Initialize_def TcpConn_Construct_def silent_os_def)
  have srv: "on_get demo_server = Some get_handler"
    by (simp add: demo_server_def UpnpDocumentGetter_Construct_def UpnpHttpServer_RegisterGetHandler_def)
  have doc: "length demo_scpd < UPNP_DOCUMENT_LEN" using demo_scpd_size(1) by (simp add: UPNP_DOCUMENT_LEN_def)
  have ne: "demo_acts \<noteq> []" "demo_vars \<noteq> []" by (simp_all add: demo_acts_def demo_vars_def)
  have ex: "scpd_expat demo_scpd = (sax_of (scpd_doc demo_acts demo_vars), True)" unfolding scpd_expat_def by (rule if_P) (rule refl)
  have acts: "with_arguments demo_acts = [(''SetTarget'', [(''newTargetValue'', ARG_IN, ''Target'')]),
        (''GetStatus'', [(''ResultStatus'', ARG_OUT, ''Status'')])]"
    by (simp add: with_arguments_def demo_acts_def)
  have w: "written (conn_os ?conn) = []" by (simp add: silent_os_def)
  note result = description_fetched [where expat = scpd_expat and past = "CHR ''x''" and fl = int_floats and garbage = demo_garbage and w = demo_worker
      and q = "[]", OF demo_web_hosts demo_web_says demo_views_ok(1-3) doc ne url fits get short up srv
      demo_download_replies [unfolded demo_pieces_def] _ _ fresh_xml_unused ex demo_empty_service(1,3,4,2)]
  have pieces: "concat [http_text (response_line 200 ''OK'') (file_headers demo_scpd) []] = http_text (response_line 200 ''OK'') (file_headers demo_scpd) []"
      "[] @ concat (map concat [[demo_scpd]]) = demo_scpd"
    by (simp_all only: concat.simps list.map append_Nil append_Nil2)
  note result [OF pieces, unfolded acts w append_Nil, folded demo_pieces_def]
  then obtain conn' st' s' where r: "conn_listener demo_server ((demo_web, demo_provider, demo_worker), ?conn) = Some ((demo_web, demo_provider, demo_worker), conn')"
      "written (conn_os conn') = file_reply demo_scpd" "concat (map concat demo_pieces) = file_reply demo_scpd"
      "UpnpServiceParser_Parse demo_download True scpd_expat True (Some fresh_xml) (CHR ''x'') int_floats demo_garbage
        (Some ''http://10.0.0.9:4000/d'') 7 demo_empty = Some (TINY_RET_OK, st')" "srv_at (sdd_store st') 7 = Some s'"
      "service_says (sdd_store st') s' [(''SetTarget'', [(''newTargetValue'', ARG_IN, ''Target'')]),
        (''GetStatus'', [(''ResultStatus'', ARG_OUT, ''Status'')])] demo_vars" "typed_table s'"
    by (elim conjE exE) (rule that)
  show ?thesis unfolding r(3) by (intro exI conjI) (rule r(1,2,4-))+
qed

end
