(* ===== verification/TypedVariables.thy ===== *)
theory TypedVariables
  imports ServiceDescription SoapAction
begin

section \<open>The types of state variables\<close>

text \<open>
  A state variable is declared with a data type and holds a value of a tagged union. Here is
  the invariant that the tag is always that of the declared type, over everything that writes variables:
  descriptions that are read, calls that come in and answers that come back.
\<close>


definition typed_store :: "'f ustore \<Rightarrow> bool" where
  "typed_store u \<longleftrightarrow> (\<forall>sa s. srv_at u sa = Some s \<longrightarrow> typed_table s)"

lemma set_keeps_type: "DataValue_SetValue fl True v (Some t) = Some (ret, v') \<Longrightarrow> value_type v' = value_type v"
  by (cases v) (auto simp: DataValue_SetValue_def DataValue_SetByte_def DataValue_SetWord_def
      DataValue_SetInteger_def DataValue_SetLong_def DataValue_SetFloat_def DataValue_SetDouble_def DataValue_SetBool_def
      DataValue_SetChar_def DataValue_SetString_def)

lemma new_variable_typed:
  "new_variable fl garbage name ty se = Some v \<Longrightarrow> value_type (sv_value v) = internal_type (var_type (sv_def v))"
  by (auto simp: new_variable_def UpnpStateVariable_New_def UpnpStateVariable_Construct_def UpnpStateVariable_Initialize_def
      UpnpStateVariableDefinition_Initialize_def DataType_Copy_def DataValue_Copy_def Let_def zero_type
      state_variable.defs service_variable.defs split: bind_splits if_splits)

lemma add_variable_typed:
  assumes "typed_table s" and "new_variable fl garbage name ty se = Some v"
  shows "typed_table (snd (UpnpService_AddStateVariable ok sa s (Some v)))"
  using assms(1) new_variable_typed [OF assms(2)]
  by (simp add: UpnpService_AddStateVariable_def L_AddTail_def typed_table_def)

lemma state_loop_typed:
  "state_loop past fl garbage h tab sa i n st = Some (ret, s', m') \<Longrightarrow> typed_table (fst st) \<Longrightarrow> typed_table s'"
proof (induction n arbitrary: i st)
  case (Suc n)
  then show ?case
    by (auto dest!: Suc.IH simp: add_variable_typed split: bind_splits option.splits prod.splits bool.splits)
qed auto

lemma states_typed:
  "SDD_LoadServiceStateTable past fl garbage h root sa st = Some (ret, s', m') \<Longrightarrow> typed_table (fst st) \<Longrightarrow> typed_table s'"
  by (auto simp: SDD_LoadServiceStateTable_def dest: state_loop_typed split: bind_splits option.splits if_splits)

lemma add_action_typed:
  "UpnpService_AddAction ok u sa a = Some (ret, u') \<Longrightarrow> typed_store u \<Longrightarrow> typed_store u'"
  by (auto simp: UpnpService_AddAction_def typed_store_def typed_table_def split: bind_splits option.splits prod.splits if_splits)

lemma actions_loop_typed:
  "actions_loop past h l sa i n st = Some (ret, st') \<Longrightarrow> typed_store (sdd_store (snd st)) \<Longrightarrow> typed_store (sdd_store st')"
proof (induction n arbitrary: i st)
  case (Suc n)
  have same: "typed_store (u\<lparr>act_at := f\<rparr>) = typed_store u" for u :: "'a ustore" and f by (simp add: typed_store_def)
  from Suc.prems show ?case
    by (auto dest!: Suc.IH simp: Let_def same dest: add_action_typed split: bind_splits option.splits prod.splits)
qed auto

lemma actions_typed:
  "SDD_LoadActionList past h root sa st = Some (ret, st') \<Longrightarrow> typed_store (sdd_store st) \<Longrightarrow> typed_store (sdd_store st')"
  by (auto simp: SDD_LoadActionList_def dest: actions_loop_typed split: bind_splits option.splits if_splits)

lemma parse_typed:
  assumes "SDD_ParseXml past fl garbage x sa st = Some (ret, st')" and "typed_store (sdd_store st)"
  shows "typed_store (sdd_store st')"
proof -
  have "typed_store (u\<lparr>srv_at := (srv_at u)(sa \<mapsto> s)\<rparr>)" if "typed_store u" "typed_table s" for u :: "'a ustore" and s
    using that by (auto simp: typed_store_def)
  note upd = this
  have get: "typed_table s" if "srv_at (sdd_store st) sa = Some s" for s
    using that assms(2) by (auto simp: typed_store_def)
  show ?thesis
    using assms by (auto simp: SDD_ParseXml_def Let_def upd get dest!: states_typed actions_typed
      split: option.splits bind_splits if_splits)
qed

lemma find_named_in: "find_named f l str i n = Some (Some (k, v)) \<Longrightarrow> Some v \<in> set (items l)"
  by (induction n arbitrary: i) (auto simp: L_GetAt_def nth_int_Some_iff split: bind_splits if_splits option.splits dest: nth_mem)

lemma store_typed:
  assumes "typed_store u" and "variable_of u service name = Some (Some (sa, k, v))"
    and "DataValue_SetValue fl True (sv_value v) (Some t) = Some (ret, val)"
  shows "typed_store (store_value u sa k v val)"
proof -
  obtain s where s: "srv_at u sa = Some s" "variable_find s name = Some (Some (k, v))"
    using assms(2) by (auto simp: variable_of_def split: option.splits bind_splits)
  then have "Some v \<in> set (items (stateVariableTable s))" using find_named_in by (auto simp: variable_find_def)
  moreover have ts: "typed_table s" using assms(1) s(1) by (simp add: typed_store_def)
  ultimately have "value_type (sv_value v) = internal_type (var_type (sv_def v))"
    unfolding typed_table_def list_all_iff by force
  then have "typed_table (s\<lparr>stateVariableTable := (stateVariableTable s)
      \<lparr>items := (items (stateVariableTable s))[nat k := Some (v\<lparr>sv_value := val\<rparr>)]\<rparr>\<rparr>)"
    using ts set_keeps_type [OF assms(3)] set_update_subset_insert [of "items (stateVariableTable s)"]
    by (fastforce simp: typed_table_def list_all_iff)
  then show ?thesis using assms(1) s(1) by (auto simp: store_value_def typed_store_def)
qed

lemma request_args_typed:
  "request_args fl act l i n st = Some (ret, u') \<Longrightarrow> typed_store (snd st) \<Longrightarrow> typed_store u'"
proof (induction n arbitrary: i st)
  case (Suc n)
  from Suc.prems show ?case
    by (auto simp: Let_def dest!: Suc.IH dest: store_typed split: bind_splits option.splits prod.splits if_splits)
qed auto

lemma response_args_typed:
  "response_args fl act l i n st = Some (ret, u') \<Longrightarrow> typed_store (snd st) \<Longrightarrow> typed_store u'"
proof (induction n arbitrary: i st)
  case (Suc n)
  from Suc.prems show ?case
    by (auto simp: Let_def dest!: Suc.IH dest: store_typed split: bind_splits option.splits prod.splits if_splits)
qed auto

lemmas args_typed = request_args_typed [of _ _ _ _ _ "(a, b)" for a b, simplified]
  response_args_typed [of _ _ _ _ _ "(a, b)" for a b, simplified]

lemma request_typed:
  "ActionFromRequest past expat new_ok parser_ok xml fl u act body = Some (ret, u') \<Longrightarrow> typed_store u \<Longrightarrow> typed_store u'"
  by (auto simp: ActionFromRequest_def dest: args_typed split: option.splits bind_splits if_splits)

lemma response_typed:
  "ActionFromResponse past expat new_ok parser_ok xml fl u act response = Some (ret, u', err) \<Longrightarrow> typed_store u \<Longrightarrow> typed_store u'"
  by (auto simp: ActionFromResponse_def SoapResponseToActionResult_def Let_def dest: args_typed
      split: option.splits bind_splits if_splits)

text \<open>What changes the variables of a stack: reading a description, the arguments of a call and those of its answer.\<close>

inductive variable_step :: "'f ustore \<Rightarrow> 'f ustore \<Rightarrow> bool" where
  described: "SDD_ParseXml past fl garbage x sa st = Some (ret, st') \<Longrightarrow> variable_step (sdd_store st) (sdd_store st')"
| called: "ActionFromRequest past expat new_ok parser_ok xml fl u act body = Some (ret, u') \<Longrightarrow> variable_step u u'"
| answered: "ActionFromResponse past expat new_ok parser_ok xml fl u act response = Some (ret, u', err) \<Longrightarrow> variable_step u u'"

text \<open>
  C14. A state variable holds a value of its type at all times: no sequence of descriptions, calls and answers, well formed
  or not, in which any allocation may fail, stores a value of another type.
\<close>

theorem variables_stay_typed:
  assumes "variable_step\<^sup>*\<^sup>* u u'" and "typed_store u"
  shows "typed_store u'"
  using assms by (induction rule: rtranclp_induct) (auto elim!: variable_step.cases dest: parse_typed request_typed response_typed)

theorem variables_stay_typed_witness:
  "\<exists>doc st'. TinyXml_Parse scpd_expat True fresh_xml (scpd_text demo_acts demo_vars) = Some (TINY_RET_OK, doc)
    \<and> SDD_ParseXml (CHR ''x'') int_floats demo_garbage doc 7 demo_empty = Some (TINY_RET_OK, st')
    \<and> typed_store (sdd_store st')"
proof -
  have ex: "scpd_expat (scpd_text demo_acts demo_vars) = (sax_of (scpd_doc demo_acts demo_vars), True)"
    unfolding scpd_expat_def by (rule if_P) (rule refl)
  obtain doc root where d: "TinyXml_Parse scpd_expat True fresh_xml (scpd_text demo_acts demo_vars) = Some (TINY_RET_OK, doc)"
      "TinyXml_GetRoot doc = Some root" "rep (brk fresh_xml) (brk doc) (xml_heap doc) None 0 root (scpd_doc demo_acts demo_vars)"
    using description_parsed [where expat = scpd_expat, OF fresh_xml_unused demo_views_ok(1,2) ex] by blast
  have n: "length demo_acts < 2 ^ 31" "length demo_vars < 2 ^ 31" "demo_acts \<noteq> []" "demo_vars \<noteq> []"
    by (simp_all add: demo_acts_def demo_vars_def)
  obtain st' where r: "SDD_ParseXml (CHR ''x'') int_floats demo_garbage doc 7 demo_empty = Some (TINY_RET_OK, st')"
    using description_read [OF d(3,2) demo_views_ok(1) n(1) demo_views_ok(2) n(2) demo_empty_service(1,2),
        of "CHR ''x''" int_floats demo_garbage] n(3,4) by auto
  have "typed_store (sdd_store demo_empty)"
    by (simp add: typed_store_def demo_empty_def typed_table_def UpnpService_Construct_def L_new_def L_SetDeleteListener_def)
  then show ?thesis
    using variables_stay_typed [OF r_into_rtranclp [of variable_step, OF described [OF r]]] d(1) r by blast
qed

end
