(* ===== verification/TinyTimer.thy ===== *)
theory TinyTimer
  imports BlockingQueue
begin

section \<open>The timer: \<open>TinyTimer.c\<close> and its control socket \<open>TinySocketIpc.c\<close>\<close>

text \<open>
  A timer calls its listener from a thread of its own, a number of times or until it is stopped, and
  waits between the calls in a \<open>select\<close> on a socket over which it is told to stop. The datagrams that
  are under way on that socket are a queue. The thread is a function of a script: for every turn of
  its loop what \<open>select\<close> does, the readings of the clock and the answer of the listener. Results are
  None where the code has no defined behaviour: the call of a NULL listener, an overflow of signed
  numbers.
\<close>

subsection \<open>The control socket\<close>

datatype ipc_msg_type = IPC_MSG_STOP | IPC_MSG_RESELECT | IPC_MSG_USER_DEFINED

definition MAX_IPC_MSG_LEN :: nat where "MAX_IPC_MSG_LEN = 1024"
definition MSG_STOP :: string where "MSG_STOP = ''MSG_STOP''"
definition MSG_RESELECT :: string where "MSG_RESELECT = ''MSG_RESELECT''"

record ipc_msg =
  msg_type :: ipc_msg_type
  msg_text :: string

text \<open>A message after its \<open>memset\<close>: the number of the first kind is 0.\<close>

definition zero_msg :: ipc_msg where
  "zero_msg = \<lparr>msg_type = IPC_MSG_STOP, msg_text = []\<rparr>"

record socket_ipc =
  socket_fd :: int
  socket_port :: "16 word"

text \<open>What the operating system answers when the socket is made: the descriptor, whether it took the options and the address, the port.\<close>

record ipc_made =
  made_fd :: int
  made_nonblock :: tiny_ret
  made_option :: bool
  made_bound :: bool
  made_port :: "16 word"

definition TinySocketIpc_Construct :: "ipc_made \<Rightarrow> tiny_ret \<times> socket_ipc" where
  "TinySocketIpc_Construct m = (let s = \<lparr>socket_fd = made_fd m, socket_port = 0\<rparr> in
     if made_fd m < 0 then (TINY_RET_E_SOCKET_FD, s)
     else if RET_FAILED (made_nonblock m) \<or> \<not> made_option m \<or> \<not> made_bound m then (TINY_RET_E_INTERNAL, s)
     else (TINY_RET_OK, s\<lparr>socket_port := made_port m\<rparr>))"

definition TinySocketIpc_Dispose :: "socket_ipc \<Rightarrow> tiny_ret \<times> socket_ipc" where
  "TinySocketIpc_Dispose s = (TINY_RET_OK, if socket_fd s = 0 then s else s\<lparr>socket_fd := 0\<rparr>)"

definition TinySocketIpc_New :: "bool \<Rightarrow> ipc_made \<Rightarrow> socket_ipc option" where
  "TinySocketIpc_New malloc_ok m = (if malloc_ok then (case TinySocketIpc_Construct m of
     (ret, s) \<Rightarrow> if RET_FAILED ret then None else Some s) else None)"

definition TinySocketIpc_GetFd :: "socket_ipc option \<Rightarrow> int" where
  "TinySocketIpc_GetFd s = (case s of None \<Rightarrow> 0 | Some x \<Rightarrow> socket_fd x)"

text \<open>The result of \<open>sendto\<close>, here \<open>taken\<close>, is ignored.\<close>

definition TinySocketIpc_Send :: "bool \<Rightarrow> string list \<Rightarrow> ipc_msg \<Rightarrow> (tiny_ret \<times> string list) option" where
  "TinySocketIpc_Send taken q m = do {
     s \<leftarrow> (case msg_type m of
            IPC_MSG_STOP \<Rightarrow> Some MSG_STOP
          | IPC_MSG_RESELECT \<Rightarrow> Some MSG_RESELECT
          | IPC_MSG_USER_DEFINED \<Rightarrow> read_field MAX_IPC_MSG_LEN (msg_text m));
     Some (if s = [] then (TINY_RET_E_ARG_INVALID, q) else (TINY_RET_OK, if taken then q @ [s] else q)) }"

definition TinySocketIpc_SendStopMsg :: "bool \<Rightarrow> string list \<Rightarrow> (tiny_ret \<times> string list) option" where
  "TinySocketIpc_SendStopMsg taken q = TinySocketIpc_Send taken q (zero_msg\<lparr>msg_type := IPC_MSG_STOP\<rparr>)"

text \<open>
  Receiving sets the kind of a message only for the two texts it knows, comparing a prefix. No
  datagram and an empty one are errors; the buffer is cleared first.
\<close>

definition TinySocketIpc_Recv :: "string list \<Rightarrow> ipc_msg \<Rightarrow> tiny_ret \<times> ipc_msg \<times> string list" where
  "TinySocketIpc_Recv q m = (case q of
       [] \<Rightarrow> (TINY_RET_E_INTERNAL, m\<lparr>msg_text := []\<rparr>, [])
     | d # rest \<Rightarrow> (let s = take MAX_IPC_MSG_LEN d; m1 = m\<lparr>msg_text := s\<rparr> in
         if d = [] then (TINY_RET_E_INTERNAL, m1, rest)
         else (TINY_RET_OK,
           (if strncmp_eq s MSG_STOP (length MSG_STOP) then m1\<lparr>msg_type := IPC_MSG_STOP\<rparr>
            else if strncmp_eq s MSG_RESELECT (length MSG_RESELECT) then m1\<lparr>msg_type := IPC_MSG_RESELECT\<rparr>
            else m1), rest)))"

subsection \<open>The timer\<close>

text \<open>Whether a listener is set stands for the pointer; the context travels with it.\<close>

record timer =
  timer_running :: bool
  timer_times :: "32 word"
  interval :: "64 word"
  running_interval :: "64 word"
  timer_listener :: bool
  timer_thread :: tthread
  timer_ipc :: socket_ipc

definition TinyTimer_Construct :: "ipc_made \<Rightarrow> tiny_ret \<times> timer" where
  "TinyTimer_Construct m = (case TinySocketIpc_Construct m of
     (ret, s) \<Rightarrow> let t = \<lparr>timer_running = False, timer_times = 0, interval = 0, running_interval = 0, timer_listener = False,
                          timer_thread = snd TinyThread_Construct, timer_ipc = s\<rparr>
       in if RET_FAILED ret then (ret, t) else (fst TinyThread_Construct, t))"

definition TinyTimer_New :: "bool \<Rightarrow> ipc_made \<Rightarrow> timer option" where
  "TinyTimer_New malloc_ok m = (if malloc_ok then (case TinyTimer_Construct m of
     (ret, t) \<Rightarrow> if RET_FAILED ret then None else Some t) else None)"

definition TinyTimer_Initialize :: "timer \<Rightarrow> 64 word \<Rightarrow> 32 word \<Rightarrow> tiny_ret \<times> timer" where
  "TinyTimer_Initialize t us n = (TINY_RET_OK, t\<lparr>timer_times := n, interval := us, running_interval := us\<rparr>)"

definition TinyTimer_Start :: "timer \<Rightarrow> bool \<Rightarrow> 64 word option \<Rightarrow> tiny_ret \<times> timer" where
  "TinyTimer_Start t l created = (let t1 = t\<lparr>timer_listener := l\<rparr> in
     if timer_running t1 then (TINY_RET_E_STARTED, t1)
     else (case TinyThread_Initialize (timer_thread t1) True (Some ''timer'') of (ret, th) \<Rightarrow>
       if RET_FAILED ret then (ret, t1\<lparr>timer_thread := th\<rparr>)
       else (TINY_RET_OK, t1\<lparr>timer_thread := snd (TinyThread_Start th created), timer_running := True\<rparr>)))"

definition TinyTimer_StopLoop :: "bool \<Rightarrow> string list \<Rightarrow> string list option" where
  "TinyTimer_StopLoop taken q = map_option snd (TinySocketIpc_Send taken q (zero_msg\<lparr>msg_type := IPC_MSG_STOP\<rparr>))"

text \<open>The two halves of a stop: telling the thread, and joining it. \<open>TinyTimer_Stop\<close> is both when the thread has ended by then.\<close>

definition timer_tell :: "bool \<Rightarrow> timer \<Rightarrow> string list \<Rightarrow> (timer \<times> string list) option" where
  "timer_tell taken t q = do { q' \<leftarrow> TinyTimer_StopLoop taken q; Some (t\<lparr>timer_running := False\<rparr>, q') }"

definition timer_join :: "timer \<Rightarrow> timer" where
  "timer_join t = t\<lparr>timer_thread := snd (TinyThread_Join (timer_thread t))\<rparr>"

definition TinyTimer_Stop :: "bool \<Rightarrow> timer \<Rightarrow> string list \<Rightarrow> (tiny_ret \<times> timer \<times> string list) option" where
  "TinyTimer_Stop taken t q =
     (if \<not> timer_running t then Some (TINY_RET_E_STOPPED, t, q)
      else do { (t1, q1) \<leftarrow> timer_tell taken t q; Some (TINY_RET_OK, timer_join t1, q1) })"

text \<open>Disposing tells the thread to stop but does not join it.\<close>

definition TinyTimer_Dispose :: "bool \<Rightarrow> timer \<Rightarrow> string list \<Rightarrow> (tiny_ret \<times> timer \<times> string list) option" where
  "TinyTimer_Dispose taken t q = do {
     q' \<leftarrow> TinyTimer_StopLoop taken q;
     Some (TINY_RET_OK, t\<lparr>timer_ipc := snd (TinySocketIpc_Dispose (timer_ipc t))\<rparr>, q') }"

subsection \<open>The thread\<close>

text \<open>
  What happens during a wait: \<open>select\<close> fails, or datagrams come in (none, as a rule). The wait is over
  when a datagram is there and times out otherwise. A turn has the clock before and after the wait
  and before and after the call of the listener, and the answer of the listener.
\<close>

datatype timer_loop_ret = TIMER_LOOP_RET_BREAK | TIMER_LOOP_RET_CONTINUE | TIMER_LOOP_RET_TIMEOUT

datatype wake = WaitFailed | Arrived "string list"

record turn =
  turn_wake :: wake
  wait_from :: "64 word"
  wait_to :: "64 word"
  call_from :: "64 word"
  call_to :: "64 word"
  go_on :: bool

definition timer_loop_once :: "wake \<Rightarrow> string list \<Rightarrow> timer_loop_ret \<times> string list" where
  "timer_loop_once w q = (case w of
       WaitFailed \<Rightarrow> (TIMER_LOOP_RET_BREAK, q)
     | Arrived ds \<Rightarrow> (if q @ ds = [] then (TIMER_LOOP_RET_TIMEOUT, [])
         else (case TinySocketIpc_Recv (q @ ds) zero_msg of (r, m, q') \<Rightarrow>
           (if RET_SUCCEEDED r \<and> msg_type m = IPC_MSG_STOP then TIMER_LOOP_RET_BREAK else TIMER_LOOP_RET_CONTINUE, q'))))"

text \<open>What a run of the thread did: the time it asked \<open>select\<close> to wait, and the calls of the listener.\<close>

datatype timer_event = Waited "64 word" | CalledListener

text \<open>The thread left its loop, or the script ends while it waits.\<close>

datatype loop_end = LoopLeft | LoopWaiting

type_synonym timer_run = "loop_end \<times> timer \<times> string list \<times> timer_event list"

definition did :: "timer_event list \<Rightarrow> timer_run option \<Rightarrow> timer_run option" where
  "did es r = map_option (\<lambda>(e, t, q, tr). (e, t, q, es @ tr)) r"

text \<open>The loop with a number of turns.\<close>

fun count_loop :: "timer \<Rightarrow> nat \<Rightarrow> turn list \<Rightarrow> string list \<Rightarrow> timer_run option" where
  "count_loop t 0 rs q = Some (LoopLeft, t, q, [])"
| "count_loop t (Suc n) [] q = Some (LoopWaiting, t, q, [])"
| "count_loop t (Suc n) (r # rs) q = did [Waited (running_interval t)] (case timer_loop_once (turn_wake r) q of
       (TIMER_LOOP_RET_BREAK, q') \<Rightarrow> Some (LoopLeft, t, q', [])
     | (TIMER_LOOP_RET_CONTINUE, q') \<Rightarrow> count_loop t n rs q'
     | (TIMER_LOOP_RET_TIMEOUT, q') \<Rightarrow>
         (if \<not> timer_listener t then None
          else did [CalledListener] (if go_on r then count_loop t n rs q' else Some (LoopLeft, t, q', []))))"

text \<open>
  The loop without end keeps its pace: by how much a wait overran shortens the next one. The numbers
  are those of \<open>int64_t\<close> and \<open>uint64_t\<close>; \<open>behind\<close> is \<open>previous_select_delta\<close>. The first result is the new
  \<open>behind\<close>, the second the running interval.
\<close>

definition after_wait :: "64 word \<Rightarrow> 64 word \<Rightarrow> 64 word \<Rightarrow> turn \<Rightarrow> (64 word \<times> 64 word) option" where
  "after_wait iv running behind r =
     (let most = drop_bit 1 iv; d = wait_to r - wait_from r - running
      in if sint d \<le> 0 then
           (if sint d = - (2 ^ 63) then None
            else let adj = - d; behind' = (if sint adj < sint behind then behind - adj else 0)
                 in Some (behind', iv - (if sint behind < sint most then behind else most)))
         else Some (d, iv - (if sint d < sint most then d else most)))"

definition after_call :: "64 word \<Rightarrow> 64 word \<Rightarrow> turn \<Rightarrow> 64 word" where
  "after_call iv running r =
     (let d = call_to r - call_from r; left = (if d < running then running - d else 0)
      in if left < drop_bit 1 iv then drop_bit 1 iv else left)"

fun forever_loop :: "timer \<Rightarrow> 64 word \<Rightarrow> turn list \<Rightarrow> string list \<Rightarrow> timer_run option" where
  "forever_loop t behind [] q = Some (LoopWaiting, t, q, [])"
| "forever_loop t behind (r # rs) q = did [Waited (running_interval t)] (case timer_loop_once (turn_wake r) q of
       (TIMER_LOOP_RET_BREAK, q') \<Rightarrow> Some (LoopLeft, t, q', [])
     | (TIMER_LOOP_RET_CONTINUE, q') \<Rightarrow> forever_loop t behind rs q'
     | (TIMER_LOOP_RET_TIMEOUT, q') \<Rightarrow> do {
         (behind', run) \<leftarrow> after_wait (interval t) (running_interval t) behind r;
         let t1 = t\<lparr>running_interval := run\<rparr>;
         if \<not> timer_listener t then None
         else did [CalledListener]
           (if go_on r then forever_loop (t1\<lparr>running_interval := after_call (interval t) run r\<rparr>) behind' rs q'
            else Some (LoopLeft, t1, q', [])) })"

definition timer_loop :: "timer \<Rightarrow> turn list \<Rightarrow> string list \<Rightarrow> timer_run option" where
  "timer_loop t rs q = (if 0 < timer_times t then count_loop t (unat (timer_times t)) rs q else forever_loop t 0 rs q)"

subsection \<open>Properties\<close>

text \<open>The running interval stays between half of the interval and the interval.\<close>

definition paced :: "64 word \<Rightarrow> 64 word \<Rightarrow> bool" where
  "paced iv w \<longleftrightarrow> drop_bit 1 iv \<le> w \<and> w \<le> iv"

lemma did_simps [simp]:
  "did es (Some (e, t, q, tr)) = Some (e, t, q, es @ tr)" "did es None = None"
  "did es r = Some (e, t, q, tr) \<longleftrightarrow> (\<exists>tr'. r = Some (e, t, q, tr') \<and> tr = es @ tr')"
  "did [] r = r" "did es (did fs r) = did (es @ fs) r"
  by (cases r; auto simp: did_def)+

lemma small_sint: "uint (w :: 64 word) < 2 ^ 63 \<Longrightarrow> sint w = uint w"
proof -
  assume "uint w < 2 ^ 63"
  moreover have "- (2 ^ 63) \<le> uint w" using order_trans [OF _ uint_nonnegative [of w]] by simp
  ultimately have "signed_take_bit 63 (uint w) = uint w" by (intro signed_take_bit_int_eq_self) simp_all
  then show ?thesis by (simp add: sint_uint)
qed

lemma half: "uint (drop_bit 1 iv :: 64 word) = uint iv div 2" "sint (drop_bit 1 iv :: 64 word) = uint iv div 2"
proof -
  show u: "uint (drop_bit 1 iv :: 64 word) = uint iv div 2" by (simp add: uint_div drop_bit_eq_div)
  have "uint iv < 2 ^ 64" using uint_lt2p [of iv] by simp
  then show "sint (drop_bit 1 iv :: 64 word) = uint iv div 2" using small_sint u by simp
qed

lemmas halves = half half [unfolded One_nat_def]

lemma positive_sint: "0 \<le> sint (w :: 64 word) \<Longrightarrow> sint w = uint w"
proof -
  assume "0 \<le> sint w"
  then have "\<not> bit (uint w) 63" by (simp add: sint_uint signed_take_bit_nonnegative_iff)
  then have "take_bit (Suc 63) (uint w) = take_bit 63 (uint w)" by (simp only: take_bit_Suc_from_most) simp
  moreover have "take_bit (Suc 63) (uint w) = uint w" using uint_lt2p [of w] by (simp add: take_bit_int_eq_self)
  ultimately have "uint w < 2 ^ 63" by (metis take_bit_int_less_exp)
  then show ?thesis by (rule small_sint)
qed

lemma sint_sub:
  assumes "- (2 ^ 63) \<le> sint a - sint b" and "sint a - sint b < 2 ^ 63"
  shows "sint (a - b :: 64 word) = sint a - sint b"
  using assms by (simp add: sint_word_ariths signed_take_bit_int_eq_self)

lemma shortened:
  assumes "0 \<le> sint x"
  shows "paced iv (iv - (if sint x < sint (drop_bit 1 iv) then x else drop_bit 1 iv))"
proof -
  let ?m = "if sint x < sint (drop_bit 1 iv) then x else drop_bit 1 iv"
  have m: "uint ?m \<le> uint iv div 2" using assms half [of iv] positive_sint [OF assms] by auto
  then have "uint ?m \<le> uint iv" using uint_nonnegative [of iv] by linarith
  then have "uint (iv - ?m) = uint iv - uint ?m" by (simp only: uint_sub_lem)
  then have "paced iv (iv - ?m) \<longleftrightarrow> uint iv div 2 \<le> uint iv - uint ?m \<and> uint iv - uint ?m \<le> uint iv"
    by (simp only: paced_def word_le_def half(1))
  then show ?thesis using m uint_nonnegative [of ?m] by linarith
qed

lemma after_wait_paced:
  assumes "after_wait iv running b r = Some (b', run)" and "0 \<le> sint b"
  shows "paced iv run" and "0 \<le> sint b'"
proof -
  let ?d = "wait_to r - wait_from r - running"
  note run = assms(1) [unfolded after_wait_def Let_def]
  have "paced iv run \<and> 0 \<le> sint b'"
  proof (cases "sint ?d \<le> 0")
    case False
    then have "0 \<le> sint ?d" by linarith
    moreover have "b' = ?d" "run = iv - (if sint ?d < sint (drop_bit 1 iv) then ?d else drop_bit 1 iv)"
      using run unfolding if_not_P [OF False] by auto
    ultimately show ?thesis using shortened [of ?d iv] by metis
  next
    case True
    then have r: "b' = (if sint (- ?d) < sint b then b - (- ?d) else 0)"
        "run = iv - (if sint b < sint (drop_bit 1 iv) then b else drop_bit 1 iv)" "sint ?d \<noteq> - (2 ^ 63)"
      using run by (simp_all split: if_splits)
    have "- (2 ^ 63) \<le> sint ?d" using sint_ge [of ?d] by simp
    then have "sint (- ?d) = - sint ?d" using sint_sub [of 0 ?d] True r(3) by simp
    then have "sint (b - (- ?d)) = sint b - sint (- ?d)" if "sint (- ?d) < sint b"
      using that True sint_lt [of b] by (intro sint_sub) simp_all
    then show ?thesis using r(1,2) shortened [OF assms(2), of iv] by simp
  qed
  then show "paced iv run" "0 \<le> sint b'" by simp_all
qed

lemma after_call_paced:
  assumes "paced iv run"
  shows "paced iv (after_call iv run r)"
proof -
  have "drop_bit 1 iv \<le> iv" using assms order_trans unfolding paced_def by blast
  moreover have "run - d \<le> iv" if "d < run" for d
    using order_trans [OF word_sub_le [OF order_less_imp_le [OF that]]] assms by (simp add: paced_def)
  ultimately show ?thesis using assms by (auto simp: after_call_def Let_def paced_def not_less)
qed

text \<open>Every wait of a run and the interval at its end are paced.\<close>

definition event_paced :: "64 word \<Rightarrow> timer_event \<Rightarrow> bool" where
  "event_paced iv e = (case e of Waited w \<Rightarrow> paced iv w | CalledListener \<Rightarrow> True)"

definition run_paced :: "timer \<Rightarrow> timer_run \<Rightarrow> bool" where
  "run_paced t r = (case r of (e, t', q, tr) \<Rightarrow>
     interval t' = interval t \<and> paced (interval t) (running_interval t') \<and> list_all (event_paced (interval t)) tr)"

lemma run_paced_simps [simp]:
  "run_paced t (e, t', q, Waited w # tr) \<longleftrightarrow> run_paced t (e, t', q, tr) \<and> paced (interval t) w"
  "run_paced t (e, t', q, CalledListener # tr) \<longleftrightarrow> run_paced t (e, t', q, tr)"
  "run_paced t (e, t', q, []) \<longleftrightarrow> interval t' = interval t \<and> paced (interval t) (running_interval t')"
  by (auto simp: run_paced_def event_paced_def)

lemma count_loop_paced:
  "count_loop t n rs q = Some x \<Longrightarrow> paced (interval t) (running_interval t) \<Longrightarrow> run_paced t x"
  by (induction t n rs q arbitrary: x rule: count_loop.induct)
     (auto simp: did_def split: prod.splits timer_loop_ret.splits if_splits)

lemma forever_loop_paced:
  "forever_loop t behind rs q = Some x \<Longrightarrow> paced (interval t) (running_interval t) \<Longrightarrow> 0 \<le> sint behind \<Longrightarrow> run_paced t x"
proof (induction rs arbitrary: t behind q x)
  case (Cons r rs)
  obtain w q' where o: "timer_loop_once (turn_wake r) q = (w, q')" by fastforce
  show ?case
  proof (cases w)
    case TIMER_LOOP_RET_TIMEOUT
    then obtain b run where a: "after_wait (interval t) (running_interval t) behind r = Some (b, run)"
      using Cons.prems(1) o by (auto simp: did_def split: bind_splits)
    let ?t = "t\<lparr>running_interval := after_call (interval t) run r\<rparr>"
    note p = after_wait_paced [OF a Cons.prems(3)]
    have "run_paced ?t y" if "forever_loop ?t b rs q' = Some y" for y
      using Cons.IH [OF that] after_call_paced [OF p(1), of r] p(2) by simp
    then have "run_paced t y" if "forever_loop ?t b rs q' = Some y" for y
      using that by (simp add: run_paced_def)
    then show ?thesis using Cons.prems(1,2) p(1) TIMER_LOOP_RET_TIMEOUT a o
      by (auto simp: did_def Let_def split: if_splits)
  qed (use Cons.prems o Cons.IH in \<open>auto simp: did_def\<close>)
qed simp

text \<open>
  C36. A timer keeps its pace whatever the clock does: it asks for waits between half of its interval and
  the interval, and never more, over any run of its thread.
\<close>

theorem timer_waits_paced:
  assumes "TinyTimer_Initialize t0 us n = (ret, t1)" and "TinyTimer_Start t1 True created = (ret', t)"
    and "timer_loop t rs q = Some (e, t', q', tr)"
  shows "list_all (event_paced us) tr \<and> paced us (running_interval t')"
proof -
  have t: "interval t = us" "running_interval t = us"
    using assms(1,2) by (auto simp: TinyTimer_Initialize_def TinyTimer_Start_def Let_def split: if_splits prod.splits)
  have "uint us div 2 \<le> uint us" using uint_nonnegative [of us] by linarith
  then have p: "paced us us" by (simp only: paced_def word_le_def half(1) order_refl simp_thms)
  have "run_paced t (e, t', q', tr)"
    using assms(3) p t count_loop_paced forever_loop_paced [where behind = 0] by (auto simp: timer_loop_def split: if_splits)
  then show ?thesis using t by (simp add: run_paced_def)
qed

text \<open>A timer of a second that is asked for no number of calls, with a clock that jumps back, and with slow calls.\<close>

definition demo_ipc :: ipc_made where
  "demo_ipc = \<lparr>made_fd = 5, made_nonblock = TINY_RET_OK, made_option = True, made_bound = True, made_port = 40000\<rparr>"

definition demo_timer :: timer where
  "demo_timer = snd (TinyTimer_Start (snd (TinyTimer_Initialize (snd (TinyTimer_Construct demo_ipc)) 1000000 0)) True (Some 7))"

definition quiet :: "64 word \<Rightarrow> 64 word \<Rightarrow> 64 word \<Rightarrow> 64 word \<Rightarrow> turn" where
  "quiet a b c d = \<lparr>turn_wake = Arrived [], wait_from = a, wait_to = b, call_from = c, call_to = d, go_on = True\<rparr>"

definition demo_turns :: "turn list" where
  "demo_turns = [quiet 0 1002000 1002000 1003000, quiet 1003000 2001000 2001000 3900000, quiet 500 400 400 500]"

lemma demo_timer_eval:
  "(case timer_loop demo_timer demo_turns [] of None \<Rightarrow> False | Some (e, t', q, tr) \<Rightarrow> e = LoopWaiting \<and> q = []
     \<and> tr = [Waited 1000000, CalledListener, Waited 997000, CalledListener, Waited 500000, CalledListener])"
  by code_simp

lemma demo_timer_run:
  "\<exists>t'. timer_loop demo_timer demo_turns [] = Some (LoopWaiting, t', [],
     [Waited 1000000, CalledListener, Waited 997000, CalledListener, Waited 500000, CalledListener])"
  using demo_timer_eval by (auto split: option.splits)

theorem timer_waits_paced_witness:
  "\<exists>t'. timer_loop demo_timer demo_turns [] = Some (LoopWaiting, t', [],
       [Waited 1000000, CalledListener, Waited 997000, CalledListener, Waited 500000, CalledListener])
    \<and> list_all (event_paced 1000000)
       [Waited 1000000, CalledListener, Waited 997000, CalledListener, Waited 500000, CalledListener]
    \<and> paced 1000000 (running_interval t')"
proof -
  let ?t1 = "snd (TinyTimer_Initialize (snd (TinyTimer_Construct demo_ipc)) 1000000 0)"
  have i: "TinyTimer_Initialize (snd (TinyTimer_Construct demo_ipc)) 1000000 0 = (TINY_RET_OK, ?t1)"
    by (simp add: TinyTimer_Initialize_def)
  have s: "TinyTimer_Start ?t1 True (Some 7) = (fst (TinyTimer_Start ?t1 True (Some 7)), demo_timer)"
    by (simp add: demo_timer_def)
  show ?thesis using demo_timer_run timer_waits_paced [OF i s] by fastforce
qed

subsection \<open>Stopping the thread\<close>

text \<open>What a run does after a part of its script.\<close>

lemma count_loop_append:
  "count_loop t n rs q = Some (LoopWaiting, t1, q1, tr) \<Longrightarrow>
    count_loop t n (rs @ rs') q = did tr (count_loop t1 (n - length rs) rs' q1) \<and> length rs < n"
  by (induction t n rs q arbitrary: tr rule: count_loop.induct)
     (auto split: prod.splits timer_loop_ret.splits if_splits)

lemma forever_loop_append:
  "forever_loop t behind rs q = Some (LoopWaiting, t1, q1, tr) \<Longrightarrow>
    \<exists>behind'. \<forall>rs'. forever_loop t behind (rs @ rs') q = did tr (forever_loop t1 behind' rs' q1)"
proof (induction rs arbitrary: t behind q tr)
  case (Cons r rs)
  obtain w q' where o: "timer_loop_once (turn_wake r) q = (w, q')" by fastforce
  show ?case
  proof (cases w)
    case TIMER_LOOP_RET_CONTINUE
    then show ?thesis using Cons.prems o by (auto dest!: Cons.IH)
  next
    case TIMER_LOOP_RET_TIMEOUT
    then obtain b run where a: "after_wait (interval t) (running_interval t) behind r = Some (b, run)"
      using Cons.prems(1) o by (auto split: bind_splits)
    let ?t = "t\<lparr>running_interval := after_call (interval t) run r\<rparr>"
    have l: "timer_listener t" "go_on r" using Cons.prems o a TIMER_LOOP_RET_TIMEOUT by (auto simp: Let_def split: if_splits)
    then obtain tr' where n: "forever_loop ?t b rs q' = Some (LoopWaiting, t1, q1, tr')"
        "tr = [Waited (running_interval t), CalledListener] @ tr'"
      using Cons.prems o a TIMER_LOOP_RET_TIMEOUT by (auto simp: Let_def)
    obtain b' where "\<forall>rs'. forever_loop ?t b (rs @ rs') q' = did tr' (forever_loop t1 b' rs' q1)" using Cons.IH [OF n(1)] by blast
    then have "\<forall>rs'. forever_loop t behind ((r # rs) @ rs') q = did tr (forever_loop t1 b' rs' q1)"
      using o a l TIMER_LOOP_RET_TIMEOUT n(2) by (simp add: Let_def)
    then show ?thesis by blast
  qed (use Cons.prems o in auto)
qed auto

text \<open>A datagram that is not a request to select again ends the loop, an empty one does nothing.\<close>

lemma succeeded_iff: "RET_SUCCEEDED r \<longleftrightarrow> \<not> RET_FAILED r"
  by (auto simp: RET_FAILED_def RET_SUCCEEDED_def)

lemma datagram_read:
  "timer_loop_once (Arrived (d # ds)) [] =
    (if d = [] \<or> take 12 d = MSG_RESELECT then TIMER_LOOP_RET_CONTINUE else TIMER_LOOP_RET_BREAK, ds)"
proof -
  have "take 8 (take 12 d) = take 8 d" by simp
  then have "take 8 d \<noteq> MSG_STOP" if "take 12 d = MSG_RESELECT"
    using that by (auto simp: MSG_RESELECT_def MSG_STOP_def)
  moreover have "strncmp_eq (take MAX_IPC_MSG_LEN d) MSG_STOP (length MSG_STOP) \<longleftrightarrow> take 8 d = MSG_STOP"
      "strncmp_eq (take MAX_IPC_MSG_LEN d) MSG_RESELECT (length MSG_RESELECT) \<longleftrightarrow> take 12 d = MSG_RESELECT"
    by (simp_all add: strncmp_eq_def MSG_STOP_def MSG_RESELECT_def MAX_IPC_MSG_LEN_def eval_nat_numeral)
  ultimately show ?thesis
    by (auto simp: timer_loop_once_def TinySocketIpc_Recv_def zero_msg_def succeeded_iff Let_def)
qed

text \<open>
  C37. A stop ends the loop of a timer: when the thread waits and no message is under way, telling it to stop
  ends the wait it is in, and the listener is not called again, whatever the rest of the script says.
\<close>

theorem timer_stop_ends:
  assumes "timer_loop t rs [] = Some (LoopWaiting, t1, [], tr)" and "timer_tell True t1 [] = Some (t2, ds)"
    and "turn_wake r = Arrived ds"
  shows "timer_loop t (rs @ r # rs') [] = Some (LoopLeft, t1, [], tr @ [Waited (running_interval t1)])"
proof -
  have "ds = [MSG_STOP]" using assms(2)
    by (auto simp: timer_tell_def TinyTimer_StopLoop_def TinySocketIpc_Send_def zero_msg_def MSG_STOP_def)
  then have o: "timer_loop_once (turn_wake r) [] = (TIMER_LOOP_RET_BREAK, [])"
    using assms(3) by (simp add: datagram_read MSG_STOP_def MSG_RESELECT_def)
  show ?thesis
  proof (cases "0 < timer_times t")
    case True
    then have c: "count_loop t (unat (timer_times t)) (rs @ r # rs') [] =
          did tr (count_loop t1 (unat (timer_times t) - length rs) (r # rs') [])" "length rs < unat (timer_times t)"
      using assms(1) count_loop_append by (auto simp: timer_loop_def)
    then obtain k where "unat (timer_times t) - length rs = Suc k" by (metis Suc_diff_Suc)
    then show ?thesis using c(1) o True by (simp add: timer_loop_def)
  next
    case False
    then obtain b where "forever_loop t 0 (rs @ r # rs') [] = did tr (forever_loop t1 b (r # rs') [])"
      using assms(1) forever_loop_append by (fastforce simp: timer_loop_def)
    then show ?thesis using o False by (simp add: timer_loop_def)
  qed
qed

theorem timer_stop_ends_witness:
  "\<exists>t1 tr. timer_loop demo_timer demo_turns [] = Some (LoopWaiting, t1, [], tr) \<and>
    timer_loop demo_timer (demo_turns @ \<lparr>turn_wake = Arrived [MSG_STOP], wait_from = 0, wait_to = 0, call_from = 0, call_to = 0, go_on = True\<rparr> # [quiet 1 2 3 4]) []
      = Some (LoopLeft, t1, [], tr @ [Waited (running_interval t1)])"
proof -
  obtain t1 tr where r: "timer_loop demo_timer demo_turns [] = Some (LoopWaiting, t1, [], tr)" using demo_timer_run by blast
  have "timer_tell True t1 [] = Some (t1\<lparr>timer_running := False\<rparr>, [MSG_STOP])"
    by (simp add: timer_tell_def TinyTimer_StopLoop_def TinySocketIpc_Send_def zero_msg_def MSG_STOP_def)
  from timer_stop_ends [OF r this] show ?thesis using r by fastforce
qed

lemma count_loop_keeps: "count_loop t n rs q = Some (e, t', q', tr) \<Longrightarrow> t' = t"
  by (induction t n rs q arbitrary: tr rule: count_loop.induct) (auto split: prod.splits timer_loop_ret.splits if_splits)

lemma forever_loop_keeps: "forever_loop t behind rs q = Some (e, t', q', tr) \<Longrightarrow> timer_running t' = timer_running t"
proof (induction rs arbitrary: t behind q tr)
  case (Cons r rs)
  obtain w q' where "timer_loop_once (turn_wake r) q = (w, q')" by fastforce
  with Cons.prems show ?case
    by (cases w) (auto simp: Let_def split: bind_splits if_splits dest!: Cons.IH)
qed auto

lemma timer_loop_keeps: "timer_loop t rs q = Some (e, t', q', tr) \<Longrightarrow> timer_running t' = timer_running t"
  unfolding timer_loop_def by (metis count_loop_keeps forever_loop_keeps)

text \<open>A timer with a number of calls makes at most that many, and exactly that many when nothing intervenes.\<close>

lemma count_loop_calls:
  "count_loop t n rs q = Some (e, t', q', tr) \<Longrightarrow> length (filter ((=) CalledListener) tr) \<le> n"
proof (induction t n rs q arbitrary: tr rule: count_loop.induct)
  case (3 t n r rs q)
  obtain w q1 where "timer_loop_once (turn_wake r) q = (w, q1)" by fastforce
  with 3 show ?case by (cases w) (auto split: if_splits intro: le_SucI)
qed auto

lemma count_loop_exact:
  assumes "timer_listener t" and "list_all (\<lambda>r. turn_wake r = Arrived [] \<and> go_on r) rs" and "n \<le> length rs"
  shows "count_loop t n rs [] = Some (LoopLeft, t, [], concat (replicate n [Waited (running_interval t), CalledListener]))"
  using assms(2,3)
proof (induction n arbitrary: rs)
  case (Suc n)
  then show ?case using assms(1) by (cases rs) (auto simp: timer_loop_once_def)
qed simp

text \<open>
  C38. A stop that comes too late stops the next start: when the thread has ended by itself (its listener refused, or
  its number of calls is used up), stopping the timer leaves the message in the socket, and a timer that is
  started again ends in its first wait, before it has called its listener, whatever happens then.
\<close>

theorem late_stop_stays:
  assumes "TinyTimer_Start t0 True created = (TINY_RET_OK, t)" and "timer_loop t rs [] = Some (LoopLeft, t1, [], tr)"
  shows "\<exists>t2 ds t3 q. TinyTimer_Stop True t1 [] = Some (TINY_RET_OK, t2, ds)
    \<and> TinyTimer_Start t2 True created' = (TINY_RET_OK, t3)
    \<and> timer_loop t3 (r # rs') ds = Some (LoopLeft, t3, q, [Waited (running_interval t3)])"
proof -
  have "TINY_RET_E_STARTED \<noteq> TINY_RET_OK" by (simp add: ret_defs)
  then have "timer_running t" using assms(1) by (auto simp: TinyTimer_Start_def TinyThread_Initialize_def Let_def split: if_splits)
  then have run: "timer_running t1" using timer_loop_keeps [OF assms(2)] by simp
  define t2 where "t2 = timer_join (t1\<lparr>timer_running := False\<rparr>)"
  define t3 where "t3 = snd (TinyTimer_Start t2 True created')"
  have a: "TinyTimer_Stop True t1 [] = Some (TINY_RET_OK, t2, [MSG_STOP])"
    using run by (simp add: TinyTimer_Stop_def timer_tell_def TinyTimer_StopLoop_def TinySocketIpc_Send_def zero_msg_def MSG_STOP_def t2_def)
  have b: "TinyTimer_Start t2 True created' = (TINY_RET_OK, t3)"
    by (simp add: t3_def t2_def timer_join_def TinyTimer_Start_def TinyThread_Initialize_def Let_def)
  have "take 12 MSG_STOP \<noteq> MSG_RESELECT" "MSG_STOP \<noteq> []" by (simp_all add: MSG_STOP_def MSG_RESELECT_def)
  then have "timer_loop_once w [MSG_STOP] = (TIMER_LOOP_RET_BREAK, snd (timer_loop_once w [MSG_STOP]))" for w
    using datagram_read [of MSG_STOP] by (cases w) (simp_all add: timer_loop_once_def)
  then have o: "\<exists>q. timer_loop_once (turn_wake r) [MSG_STOP] = (TIMER_LOOP_RET_BREAK, q)" by blast
  have "\<exists>q. timer_loop t3 (r # rs') [MSG_STOP] = Some (LoopLeft, t3, q, [Waited (running_interval t3)])"
    using o by (cases "unat (timer_times t3)") (auto simp: timer_loop_def unat_eq_zero)
  then show ?thesis using a b by blast
qed

text \<open>A timer for two calls whose listener refuses at the first, and that is started again.\<close>

definition demo_twice :: timer where
  "demo_twice = snd (TinyTimer_Initialize (snd (TinyTimer_Construct demo_ipc)) 1000000 2)"

theorem late_stop_stays_witness:
  "\<exists>t t1 t2 ds t3 q. TinyTimer_Start demo_twice True (Some 7) = (TINY_RET_OK, t)
    \<and> timer_loop t [(quiet 0 1 2 3)\<lparr>go_on := False\<rparr>] [] = Some (LoopLeft, t1, [], [Waited 1000000, CalledListener])
    \<and> TinyTimer_Stop True t1 [] = Some (TINY_RET_OK, t2, ds)
    \<and> TinyTimer_Start t2 True (Some 8) = (TINY_RET_OK, t3)
    \<and> timer_loop t3 (quiet 0 1000000 1000000 1000001 # [quiet 4 5 6 7]) ds = Some (LoopLeft, t3, q, [Waited (running_interval t3)])"
proof -
  let ?t = "snd (TinyTimer_Start demo_twice True (Some 7))"
  have s: "TinyTimer_Start demo_twice True (Some 7) = (TINY_RET_OK, ?t)"
    by (simp add: demo_twice_def TinyTimer_Start_def TinyTimer_Initialize_def TinyTimer_Construct_def TinySocketIpc_Construct_def
        demo_ipc_def TinyThread_Initialize_def Let_def)
  have "timer_times ?t = 2" "timer_listener ?t" "running_interval ?t = 1000000"
    by (simp_all add: demo_twice_def TinyTimer_Start_def TinyTimer_Initialize_def TinyTimer_Construct_def TinySocketIpc_Construct_def
        demo_ipc_def TinyThread_Initialize_def Let_def)
  moreover have "count_loop t 2 rs q = count_loop t (Suc (Suc 0)) rs q" for t rs q by (simp only: numeral_2_eq_2)
  ultimately have r: "timer_loop ?t [(quiet 0 1 2 3)\<lparr>go_on := False\<rparr>] [] = Some (LoopLeft, ?t, [], [Waited 1000000, CalledListener])"
    by (simp add: timer_loop_def quiet_def timer_loop_once_def)
  from late_stop_stays [OF s r] s r show ?thesis by meson
qed

end
