(* ===== verification/UpnpRuntime.thy ===== *)
theory UpnpRuntime
  imports UpnpHost Discovery
begin

section \<open>The runtime: \<open>UpnpRuntime.c\<close>\<close>

text \<open>
  The object an application works with: it owns the HTTP server and client, the provider of the own
  devices, the host, the eventing client and the registry of found devices, starts and stops them,
  and passes the calls of the application on. What it adds is the scan: it narrows the search of the
  registry to devices and turns the objects that are found into summaries for the application.
\<close>

subsection \<open>The scan: filter and listener\<close>

text \<open>
  The filter of the application is read when a name is validated. It changes only in \<open>UpnpRuntime_StartScan\<close>,
  which installs the filter of the registry too, so the two are one function here.
\<close>

definition object_filter :: "(upnp_uri \<Rightarrow> bool) option \<Rightarrow> upnp_usn \<Rightarrow> bool" where
  "object_filter flt usn = (let t = uri_type (usn_uri usn) in
     if t \<noteq> UPNP_URI_UPNP_DEVICE \<and> t \<noteq> UPNP_URI_NON_UPNP_DEVICE then False
     else (case flt of None \<Rightarrow> True | Some f \<Rightarrow> f (usn_uri usn)))"

text \<open>The summary the listener of the application is called with, if it is.\<close>

definition object_listener :: "bool \<Rightarrow> upnp_object \<Rightarrow> device_summary option" where
  "object_listener has_it x = (if \<not> has_it then None
     else (let nt = UpnpObject_GetNt x in
       if uri_type nt = UPNP_URI_UPNP_DEVICE \<or> uri_type nt = UPNP_URI_NON_UPNP_DEVICE
       then Some \<lparr>sum_ip = field_cpy TINY_IP_LEN (ob_ip x), sum_id = field_cpy UPNP_USN_LEN (ob_usn x),
              sum_url = field_cpy TINY_URL_LEN (ob_location x), sum_domain = field_cpy UPNP_DOMAIN_NAME_LEN (domain_name nt),
              sum_type = field_cpy UPNP_TYPE_LEN (device_type nt), sum_version = field_cpy UPNP_VERSION_LEN (uri_version nt),
              sum_info = field_cpy UPNP_STACK_INFO_LEN (ob_stack_info x)\<rparr>
       else None))"

subsection \<open>The runtime\<close>

text \<open>\<open>'l\<close> are the listeners of subscriptions; whether a device listener is set stands for the pointer.\<close>

record ('f, 'l) runtime =
  rt_http :: "'f host_state http_manager"
  rt_provider :: provider
  rt_worker :: "upnp_event worker"
  rt_gena :: "'l gena_client"
  rt_registry :: registry
  deviceListener :: bool
  deviceFilter :: "(upnp_uri \<Rightarrow> bool) option"

text \<open>
  The arguments are what the operating system and the allocator answer to the parts, and the handler
  of notifications. A runtime that cannot be constructed is not kept: \<open>UpnpRuntime_New\<close> deletes it.
\<close>

definition UpnpRuntime_Construct where
  "UpnpRuntime_Construct env notify worker_rets obs_ok oks fn ctx provider_mutex gena_mutex selector_ret ipc_ret list_mutex =
     (case UpnpHttpManager_Construct of (ret, h) \<Rightarrow>
      if RET_FAILED ret then Some (TINY_RET_E_NEW, None)
      else case UpnpProvider_Construct provider_mutex of (ret1, p) \<Rightarrow>
      if RET_FAILED ret1 then Some (ret1, None)
      else do {
        (ret2, s, w, p1) \<leftarrow> UpnpHost_Construct env worker_rets obs_ok oks fn ctx (hm_server h) p;
        (case w of
           None \<Rightarrow> Some (ret2, None)
         | Some worker \<Rightarrow>
             if RET_FAILED ret2 then Some (ret2, None)
             else case UpnpGenaClient_Construct gena_mutex notify (h\<lparr>hm_server := s\<rparr>) of (ret3, g, h1) \<Rightarrow>
             if RET_FAILED ret3 then Some (ret3, None)
             else case UpnpRegistry_Construct selector_ret ipc_ret list_mutex of (ret4, r) \<Rightarrow>
             if RET_FAILED ret4 then Some (ret4, None)
             else Some (ret4, Some \<lparr>rt_http = h1, rt_provider = p1, rt_worker = worker, rt_gena = g, rt_registry = r,
                deviceListener = False, deviceFilter = None\<rparr>)) })"

definition UpnpRuntime_New where
  "UpnpRuntime_New malloc_ok env notify worker_rets obs_ok oks fn ctx provider_mutex gena_mutex selector_ret ipc_ret list_mutex =
     (if \<not> malloc_ok then Some None
      else map_option (\<lambda>(ret, rt). if RET_FAILED ret then None else rt)
        (UpnpRuntime_Construct env notify worker_rets obs_ok oks fn ctx provider_mutex gena_mutex selector_ret ipc_ret list_mutex))"

definition UpnpRuntime_Dispose :: "('f, 'l) runtime \<Rightarrow> ('f, 'l) runtime option" where
  "UpnpRuntime_Dispose rt = (let r = UpnpRegistry_Dispose (rt_registry rt) in
     case UpnpGenaClient_Dispose (rt_gena rt) (rt_http rt) of (g, h) \<Rightarrow> do {
       (s, w, p) \<leftarrow> UpnpHost_Dispose (hm_server h) (rt_worker rt) (rt_provider rt);
       Some (rt\<lparr>rt_registry := r, rt_gena := g, rt_worker := w, rt_provider := snd (UpnpProvider_Dispose p),
         rt_http := UpnpHttpManager_Dispose (h\<lparr>hm_server := s\<rparr>)\<rparr>) })"

definition UpnpRuntime_Start where
  "UpnpRuntime_Start open_ret listen_ret tid job created addresses search ssdp_tid new_ok oks added removed self rt =
     (case UpnpHttpServer_Start open_ret listen_ret tid (hm_server (rt_http rt)) of (ret, s) \<Rightarrow>
      let rt1 = rt\<lparr>rt_http := (rt_http rt)\<lparr>hm_server := s\<rparr>\<rparr> in
      if RET_FAILED ret then Some (ret, rt1)
      else case UpnpHost_Start job created (rt_worker rt1) of (ret1, w) \<Rightarrow>
      let rt2 = rt1\<lparr>rt_worker := w\<rparr> in
      if RET_FAILED ret1 then Some (ret1, rt2)
      else map_option (\<lambda>(ret2, r, p). (ret2, rt2\<lparr>rt_registry := r, rt_provider := p\<rparr>))
        (UpnpRegistry_Start addresses search ssdp_tid new_ok oks added removed self (rt_registry rt2) (rt_provider rt2)))"

definition UpnpRuntime_Stop :: "('f, 'l) runtime \<Rightarrow> (tiny_ret \<times> ('f, 'l) runtime) option" where
  "UpnpRuntime_Stop rt = do {
     (ret, r, p) \<leftarrow> UpnpRegistry_Stop (rt_registry rt) (rt_provider rt);
     let rt1 = rt\<lparr>rt_registry := r, rt_provider := p\<rparr>;
     if RET_FAILED ret then Some (ret, rt1)
     else case UpnpHost_Stop (rt_worker rt1) of (ret1, w) \<Rightarrow>
       let rt2 = rt1\<lparr>rt_worker := w\<rparr> in
       if RET_FAILED ret1 then Some (ret1, rt2)
       else case UpnpHttpServer_Stop (hm_server (rt_http rt2)) of (ret2, s) \<Rightarrow>
         Some (ret2, rt2\<lparr>rt_http := (rt_http rt2)\<lparr>hm_server := s\<rparr>\<rparr>) }"

definition UpnpRuntime_StartScan ::
    "('f, 'l) runtime \<Rightarrow> bool \<Rightarrow> (upnp_uri \<Rightarrow> bool) option \<Rightarrow> (tiny_ret \<times> ('f, 'l) runtime \<times> datagram list) option" where
  "UpnpRuntime_StartScan rt has_it flt =
     (if \<not> has_it \<or> flt = None then Some (TINY_RET_E_ARG_NULL, rt, [])
      else (let rt1 = rt\<lparr>deviceListener := True, deviceFilter := flt\<rparr> in
        map_option (\<lambda>(ret, r, ds). (ret, rt1\<lparr>rt_registry := r\<rparr>, ds))
          (UpnpRegistry_Discover (rt_registry rt1) False True (Some (object_filter (deviceFilter rt1))))))"

definition UpnpRuntime_StopScan :: "('f, 'l) runtime \<Rightarrow> tiny_ret \<times> ('f, 'l) runtime" where
  "UpnpRuntime_StopScan rt = (case UpnpRegistry_StopDiscovery (rt_registry rt) of (ret, r) \<Rightarrow> (ret, rt\<lparr>rt_registry := r\<rparr>))"

subsection \<open>The calls that are passed on\<close>

definition UpnpRuntime_Invoke where
  "UpnpRuntime_Invoke x msgs_ok new_ok malloc_ok past expat new_ok' parser_ok xml fl rt u act err =
     (if act = None \<or> err = None then Some (TINY_RET_E_ARG_NULL, rt, u, err)
      else map_option (\<lambda>(ret, h, u', err'). (ret, rt\<lparr>rt_http := h\<rparr>, u', err'))
        (UpnpActionInvoker_Invoke x msgs_ok new_ok malloc_ok past expat new_ok' parser_ok xml fl (rt_http rt) u act err))"

definition UpnpRuntime_Subscribe where
  "UpnpRuntime_Subscribe x ifs bound at oks rt u service timeout l err =
     (case (service, l, err) of
        (Some s, Some f, Some e) \<Rightarrow> map_option (\<lambda>(ret, g, h, u', e'). (ret, rt\<lparr>rt_gena := g, rt_http := h\<rparr>, u', Some e'))
          (UpnpGenaClient_Subscribe x ifs bound at oks (rt_gena rt) (rt_http rt) u (Some s) timeout (Some f) e)
      | _ \<Rightarrow> Some (TINY_RET_E_ARG_NULL, rt, u, err))"

definition UpnpRuntime_Unsubscribe where
  "UpnpRuntime_Unsubscribe x rt u service err =
     (case (service, err) of
        (Some s, Some e) \<Rightarrow> map_option (\<lambda>(ret, g, h, e'). (ret, rt\<lparr>rt_gena := g, rt_http := h\<rparr>, Some e'))
          (UpnpGenaClient_Unsubscribe x (rt_gena rt) (rt_http rt) u (Some s) e)
      | _ \<Rightarrow> Some (TINY_RET_E_ARG_NULL, rt, err))"

definition UpnpRuntime_Register where
  "UpnpRuntime_Register bound oks ctx_ok oks' u rt device hnd ctx =
     (case (device, hnd) of
        (Some a, Some h) \<Rightarrow> (case UpnpHttpServer_GetListeningPort bound (hm_server (rt_http rt)) of (prt, s) \<Rightarrow> do {
           d \<leftarrow> dev_at u a;
           (ret, u', p) \<leftarrow> UpnpProvider_Add oks ctx_ok oks' (u\<lparr>dev_at := (dev_at u)(a \<mapsto> snd (UpnpDevice_SetHttpPort d prt))\<rparr>)
             (rt_provider rt) (Some a) (Some h) ctx;
           Some (ret, u', rt\<lparr>rt_http := (rt_http rt)\<lparr>hm_server := s\<rparr>, rt_provider := p\<rparr>) })
      | _ \<Rightarrow> Some (TINY_RET_E_ARG_NULL, u, rt))"

definition UpnpRuntime_Unregister where
  "UpnpRuntime_Unregister u rt devid =
     (case devid of
        None \<Rightarrow> Some (TINY_RET_E_ARG_NULL, u, rt)
      | Some k \<Rightarrow> map_option (\<lambda>(ret, u', p). (ret, u', rt\<lparr>rt_provider := p\<rparr>)) (UpnpProvider_Remove u (rt_provider rt) (Some k)))"

subsection \<open>What a scan reports\<close>

text \<open>What the listener of the application has been called with: the calls of the registry, through \<open>object_listener\<close>.\<close>

definition reported :: "('f, 'l) runtime \<Rightarrow> (device_summary \<times> bool) list" where
  "reported rt = List.map_filter (\<lambda>(x, alive). map_option (\<lambda>s. (s, alive)) (object_listener (deviceListener rt) x)) (told (rt_registry rt))"

text \<open>A registry in a scan with the filter \<open>f\<close>.\<close>

definition scanning :: "(upnp_uri \<Rightarrow> bool) \<Rightarrow> registry \<Rightarrow> bool" where
  "scanning f r \<longleftrightarrow> reg_listener r \<and> has_handler (reg_ssdp r) \<and> reg_validator r = \<lparr>strictedUuid = False, usn_filter = Some (object_filter (Some f))\<rparr>"

definition is_device :: "upnp_uri \<Rightarrow> bool" where
  "is_device uri \<longleftrightarrow> uri_type uri = UPNP_URI_UPNP_DEVICE \<or> uri_type uri = UPNP_URI_NON_UPNP_DEVICE"

lemma object_filter_some: "object_filter (Some f) usn \<longleftrightarrow> is_device (usn_uri usn) \<and> f (usn_uri usn)"
  by (auto simp: object_filter_def is_device_def Let_def)

lemma name_validated:
  assumes "id_ok s" and "type_ok t" and "UpnpUri_Parse (snd UpnpUri_Construct) (Some t) False = Some (TINY_RET_OK, uri)" and "scanning f r"
  shows "UpnpValidator_ValidateUSN (reg_validator r) (name_of s t) = Some (is_device uri \<and> f uri)"
proof -
  have t: "length t < GROUP_LEN" "strstr t ''::'' = None" using assms(2) by (simp_all add: type_ok_def GROUP_LEN_def)
  have s: "CHR '':'' \<notin> set s" "s \<noteq> []" "length s < UPNP_UUID_LEN" using assms(1) by (simp_all add: id_ok_def)
  have "usn_uri (snd UpnpUsn_Construct) = snd UpnpUri_Construct" by (simp add: UpnpUsn_Construct_def case_prod_unfold)
  then show ?thesis
    using parse_usn_lax [OF s t(2,1), of "snd UpnpUsn_Construct" uri] assms(3,4)
    by (simp add: UpnpValidator_ValidateUSN_def scanning_def name_of_def object_filter_some)
qed

lemma id_validated:
  assumes "id_ok s" and "scanning f r"
  shows "UpnpValidator_ValidateUSN (reg_validator r) (id_of s) = Some False"
proof -
  have s: "CHR '':'' \<notin> set s" "s \<noteq> []" "length s < UPNP_UUID_LEN" using assms(1) by (simp_all add: id_ok_def)
  have "\<not> is_device (usn_uri (snd UpnpUsn_Construct))"
    by (simp add: UpnpUsn_Construct_def UpnpUri_Construct_def TinyUuid_Construct_def is_device_def)
  then show ?thesis
    using parse_usn_lax_uuid [OF s, of "snd UpnpUsn_Construct"] assms(2)
    by (simp add: UpnpValidator_ValidateUSN_def scanning_def id_of_def object_filter_some)
qed

lemma announcement_refused:
  assumes "scanning f r" and "announce_ok p" and "value_ok 240 loc"
    and "UpnpValidator_ValidateUSN (reg_validator r) (snd p) = Some False"
  shows "OnDatagram usec u pr l sender prt (alive_bytes p loc) r = Some r"
proof -
  have "read_field (HEAD_USN_LEN + 1) (snd p) = Some (snd p)"
    using assms(2) by (simp add: announce_ok_def value_ok_def read_field_def HEAD_USN_LEN_def)
  then show ?thesis
    using assms(1,4) by (simp add: receive_announcement [OF assms(2,3)] scanning_def UpnpRegistry_OnAlive_def alive_of_usn)
qed

lemma refused_all:
  assumes "scanning f r" and "list_all announce_ok ps" and "value_ok 240 loc"
    and "list_all (\<lambda>p. UpnpValidator_ValidateUSN (reg_validator r) (snd p) = Some False) ps"
  shows "receive_all usec u pr l sender prt (map (\<lambda>p. alive_bytes p loc) ps) r = Some r"
  using assms(2,4) by (induction ps) (simp_all add: announcement_refused [OF assms(1) _ assms(3)])

lemma receive_all_append:
  "receive_all usec u pr l sender prt (bs @ cs) r = Option.bind (receive_all usec u pr l sender prt bs r) (receive_all usec u pr l sender prt cs)"
  by (induction bs arbitrary: r) (auto split: bind_splits)

text \<open>The object of an announcement, and the summary made of it.\<close>

definition announced_object :: "64 word \<Rightarrow> string \<times> string \<Rightarrow> string \<Rightarrow> string \<Rightarrow> upnp_uri \<Rightarrow> upnp_object" where
  "announced_object usec p loc sender uri = UpnpObject_UpdateNextNotify usec
     \<lparr>ob_nt = uri, ob_ip = field_cpy TINY_IP_LEN sender, ob_location = loc, ob_stack_info = SSDP_SERVER, ob_usn = snd p,
      ob_max_age = 1800, ob_next_notify = 0\<rparr>"

lemma object_announced:
  assumes "announce_ok p" and "value_ok 240 loc" and "scanning f r"
    and "UpnpUri_Parse (snd UpnpUri_Construct) (Some (fst p)) False = Some (TINY_RET_OK, uri)"
  shows "UpnpObjectFactory_CreateByAlive True usec (alive_of p loc) (field_cpy TINY_IP_LEN sender) (reg_validator r) =
    Some (Some (announced_object usec p loc sender uri))"
proof -
  have l: "length (fst p) \<le> 127" "length (snd p) \<le> 127" "length loc \<le> 240" using assms by (simp_all add: announce_ok_def value_ok_def)
  obtain x where x: "UpnpObject_New True = Some x" "ob_nt x = snd UpnpUri_Construct" "ob_next_notify x = 0"
    by (simp add: UpnpObject_New_def UpnpObject_Construct_def UpnpUri_Construct_def TinyUuid_Construct_def)
  have ml: "length SSDP_MAX_AGE < 129" by (simp add: SSDP_MAX_AGE_def)
  have "length SSDP_SERVER < 129" "length SSDP_SERVER \<le> UPNP_STACK_INFO_LEN" by (simp_all add: SSDP_SERVER_def UPNP_STACK_INFO_LEN_def)
  then show ?thesis
    using l assms(3,4) x(2,3)
    by (cases x) (simp add: UpnpObjectFactory_CreateByAlive_def alive_of_def read_field_def ssdp_lens x(1) fill_object_def max_age_read
        ml UpnpValidator_ValidateNT_def scanning_def UpnpObject_SetNt_def announced_object_def
        UpnpObject_SetUsn_def UpnpObject_SetIp_def UpnpObject_SetLocation_def UpnpObject_SetStackInfo_def
        UpnpObject_UpdateNextNotify_def field_cpy_short UPNP_USN_LEN_def TINY_URL_LEN_def)
qed

lemma announcement_accepted:
  assumes "scanning f r" and "registry_inv r" and "announce_ok p" and "value_ok 240 loc" and "object_of r (snd p) = None"
    and "UpnpUri_Parse (snd UpnpUri_Construct) (Some (fst p)) False = Some (TINY_RET_OK, uri)"
    and "UpnpValidator_ValidateUSN (reg_validator r) (snd p) = Some True"
  shows "\<exists>r'. OnDatagram usec u pr l sender prt (alive_bytes p loc) r = Some r' \<and> scanning f r' \<and> registry_inv r'
    \<and> told r' = told r @ [(announced_object usec p loc sender uri, True)] \<and> object_of r' (snd p) \<noteq> None"
proof -
  let ?x = "announced_object usec p loc sender uri"
  have u: "length (snd p) < UPNP_USN_LEN" "cstring (snd p)" using assms(3) by (simp_all add: announce_ok_def value_ok_def UPNP_USN_LEN_def)
  have g: "TinyMap_GetValue (found_objects r) (Some (snd p)) = None"
    using held [OF assms(2) _ u(1)] assms(5) by (cases "TinyMap_GetValue (found_objects r) (Some (snd p))") (auto simp: object_of_def)
  have "ob_usn ?x = snd p" by (simp add: announced_object_def UpnpObject_UpdateNextNotify_def)
  from inv_found [OF assms(2) g this u]
  obtain m r2 r3 where r: "UpnpObjectList_AddObject [] (snd (store_object ?x r)) (object_brk r) = Some r2"
      "tell (object_brk r) True r2 = Some r3" "registry_inv r3"
    "r3 = r\<lparr>found_objects := m, object_at := (object_at r)(object_brk r \<mapsto> ?x), object_brk := object_brk r + 1,
        told := told r @ [(?x, True)]\<rparr>"
    "\<forall>k. TinyMap_GetValue m (Some k) = (if field_cpy MAX_KEY_LEN k = snd p then Some (object_brk r)
        else TinyMap_GetValue (found_objects r) (Some k))"
    by blast
  have "object_of r3 (snd p) = Some ?x" using r(5) u(1) by (simp add: object_of_def r(4) short_key)
  moreover have "read_field (HEAD_USN_LEN + 1) (snd p) = Some (snd p)"
    using assms(3) by (simp add: announce_ok_def value_ok_def read_field_def HEAD_USN_LEN_def)
  then have "OnDatagram usec u pr l sender prt (alive_bytes p loc) r = Some r3"
    using assms(1,7) r(1,2) g object_announced [OF assms(3,4,1,6), of usec sender]
    by (simp add: receive_announcement [OF assms(3,4)] scanning_def UpnpRegistry_OnAlive_def alive_of_usn UpnpObjectList_GetObject_def store_object_def)
  ultimately show ?thesis using r(3,4) assms(1) by (intro exI [of _ r3]) (simp add: scanning_def)
qed

text \<open>A scan that has just been started.\<close>

lemma constructed_handler: "UpnpRegistry_Construct TINY_RET_OK TINY_RET_OK TINY_RET_OK = (ret, r) \<Longrightarrow> has_handler (reg_ssdp r)"
  by (auto simp: UpnpRegistry_Construct_def Let_def Ssdp_Construct_def Ssdp_SetMessageHandler_def UpnpObjectList_Construct_def
      TinyMap_Construct_def)

lemma scan_started:
  assumes "UpnpRegistry_Construct TINY_RET_OK TINY_RET_OK TINY_RET_OK = (ret, rt_registry rt0)"
    and "UpnpRuntime_StartScan rt0 True (Some f) = Some (ret', rt, search)"
  shows "scanning f (rt_registry rt)" and "registry_inv (rt_registry rt)" and "told (rt_registry rt) = []"
    and "object_of (rt_registry rt) k = None" and "deviceListener rt"
proof -
  have r: "rt_registry rt = (rt_registry rt0)\<lparr>reg_validator := \<lparr>strictedUuid = False, usn_filter = Some (object_filter (Some f))\<rparr>, reg_listener := True\<rparr>"
      "deviceListener rt"
    using assms(2) by (auto simp: UpnpRuntime_StartScan_def UpnpRegistry_Discover_def search_request send_search Let_def split: prod.splits)
  have h: "has_handler (reg_ssdp (rt_registry rt0))" by (rule constructed_handler [OF assms(1)])
  show "scanning f (rt_registry rt)" "deviceListener rt" using h r(2) by (simp_all add: scanning_def r(1))
  show "registry_inv (rt_registry rt)" using registry_inv_same [OF fresh_registry(1) [OF assms(1)]] by (simp add: r(1))
  show "told (rt_registry rt) = []" "object_of (rt_registry rt) k = None" using fresh_registry(3,4) [OF assms(1)] by (simp_all add: r(1) object_of_def)
qed

text \<open>The URI of a device type, and what is reported of a device.\<close>

definition device_uri :: "string \<Rightarrow> string \<Rightarrow> string \<Rightarrow> upnp_uri" where
  "device_uri org n v = (snd UpnpUri_Construct)
     \<lparr>uri_type := (if org = SCHEMAS_UPNP_ORG then UPNP_URI_UPNP_DEVICE else UPNP_URI_NON_UPNP_DEVICE),
      device_type := n, uri_version := v, domain_name := org, uri_string := urn_text org DEVICE n v\<rparr>"

definition device_found :: "string \<Rightarrow> string \<Rightarrow> string \<Rightarrow> string \<Rightarrow> string \<Rightarrow> string \<Rightarrow> device_summary" where
  "device_found s org n v loc sender = \<lparr>sum_ip = field_cpy TINY_IP_LEN sender, sum_id = name_of s (urn_text org DEVICE n v),
     sum_url = loc, sum_domain = org, sum_type = n, sum_version = v, sum_info = SSDP_SERVER\<rparr>"

definition device_type_ok :: "string \<Rightarrow> string \<Rightarrow> string \<Rightarrow> bool" where
  "device_type_ok org n v \<longleftrightarrow> name_part org \<and> name_part n \<and> name_part v \<and> type_ok (urn_text org DEVICE n v)"

definition service_type_ok :: "string \<Rightarrow> bool" where
  "service_type_ok t \<longleftrightarrow> type_ok t \<and> (\<exists>d n v. name_part d \<and> name_part n \<and> name_part v \<and> t = urn_text d SERVICE n v)"

lemma device_type_parsed:
  assumes "device_type_ok org n v"
  shows "UpnpUri_Parse (snd UpnpUri_Construct) (Some (urn_text org DEVICE n v)) False = Some (TINY_RET_OK, device_uri org n v)"
  using assms parse_urn_text [of org DEVICE n v "snd UpnpUri_Construct" False] by (simp add: device_type_ok_def device_uri_def)

lemma device_uri_is_device: "is_device (device_uri org n v)"
  by (simp add: is_device_def device_uri_def)

lemma service_refused:
  assumes "service_type_ok t" and "id_ok s" and "scanning f r"
  shows "UpnpValidator_ValidateUSN (reg_validator r) (name_of s t) = Some False"
proof -
  obtain d n v where t: "name_part d" "name_part n" "name_part v" "t = urn_text d SERVICE n v" "type_ok t"
    using assms(1) by (auto simp: service_type_ok_def)
  have "SERVICE \<noteq> DEVICE" by (simp add: uri_words)
  with parse_urn_text [of d SERVICE n v "snd UpnpUri_Construct" False] t
  obtain uri where "UpnpUri_Parse (snd UpnpUri_Construct) (Some t) False = Some (TINY_RET_OK, uri)" "\<not> is_device uri"
    by (auto simp: is_device_def)
  then show ?thesis using name_validated [OF assms(2) t(5) _ assms(3)] by simp
qed

lemma root_refused:
  assumes "id_ok s" and "scanning f r"
  shows "UpnpValidator_ValidateUSN (reg_validator r) (name_of s NT_ROOTDEVICE) = Some False"
proof -
  obtain uri where "UpnpUri_Parse (snd UpnpUri_Construct) (Some NT_ROOTDEVICE) False = Some (TINY_RET_OK, uri)" "\<not> is_device uri"
    by (auto simp: is_device_def UpnpUri_Parse_def parse_uri_body_def STR_EQUAL_def ROOT_DEVICE_def NT_ROOTDEVICE_def)
  then show ?thesis using name_validated [OF assms(1) root_type _ assms(2)] by simp
qed

lemma summary_of_announced:
  assumes "device_type_ok org n v" and "id_ok s" and "value_ok 240 loc"
  shows "object_listener True (announced_object usec (urn_text org DEVICE n v, name_of s (urn_text org DEVICE n v)) loc sender (device_uri org n v)) =
    Some (device_found s org n v loc sender)"
proof -
  have "announce_ok (urn_text org DEVICE n v, name_of s (urn_text org DEVICE n v))"
    using name_announce_ok [OF assms(2)] assms(1) by (simp add: device_type_ok_def)
  then have "length (name_of s (urn_text org DEVICE n v)) \<le> 127" by (simp add: announce_ok_def value_ok_def)
  moreover have "length org < 32" "length n < 32" "length v < 32" using assms(1) by (simp_all add: device_type_ok_def name_part_def UPNP_TYPE_LEN_def)
  moreover have "length SSDP_SERVER \<le> UPNP_STACK_INFO_LEN" "length loc \<le> 240"
    using assms(3) by (simp_all add: SSDP_SERVER_def UPNP_STACK_INFO_LEN_def value_ok_def)
  ultimately show ?thesis
    using device_uri_is_device [of org n v]
    by (simp add: object_listener_def announced_object_def UpnpObject_UpdateNextNotify_def UpnpObject_GetNt_def is_device_def device_found_def
        field_cpy_short UPNP_USN_LEN_def TINY_URL_LEN_def UPNP_DOMAIN_NAME_LEN_def UPNP_TYPE_LEN_def UPNP_VERSION_LEN_def)
      (simp add: device_uri_def field_cpy_short)
qed

text \<open>All announcements of a device at a scan that does not know it.\<close>

lemma services_refused:
  assumes "scanning f r" and "id_ok s" and "list_all service_type_ok sts" and "value_ok 240 loc"
  shows "receive_all usec u pr l sender prt (map (\<lambda>t. alive_bytes (t, name_of s t) loc) sts) r = Some r"
proof -
  have "list_all announce_ok (map (\<lambda>t. (t, name_of s t)) sts)"
    using assms(2,3) by (auto simp: list_all_iff service_type_ok_def name_announce_ok)
  then show ?thesis
    using refused_all [OF assms(1) _ assms(4), of "map (\<lambda>t. (t, name_of s t)) sts"] assms(3) service_refused [OF _ assms(2,1)]
    by (simp add: comp_def list_all_iff)
qed

lemma announcements_split:
  assumes "scanning f r" and "device_type_ok org n v" and "id_ok s" and "list_all service_type_ok sts" and "value_ok 240 loc"
  shows "receive_all usec u pr l sender prt (map (\<lambda>p. alive_bytes p loc) (announced s (urn_text org DEVICE n v) sts)) r =
    Option.bind (OnDatagram usec u pr l sender prt (alive_bytes (urn_text org DEVICE n v, name_of s (urn_text org DEVICE n v)) loc) r)
      (receive_all usec u pr l sender prt (map (\<lambda>t. alive_bytes (t, name_of s t) loc) sts))"
proof -
  have "OnDatagram usec u pr l sender prt (alive_bytes (NT_ROOTDEVICE, name_of s NT_ROOTDEVICE) loc) r = Some r"
    by (rule announcement_refused [OF assms(1) name_announce_ok [OF assms(3) root_type] assms(5)]) (simp add: root_refused [OF assms(3,1)])
  moreover have "OnDatagram usec u pr l sender prt (alive_bytes (id_of s, id_of s) loc) r = Some r"
    by (rule announcement_refused [OF assms(1) id_announce_ok [OF assms(3)] assms(5)]) (simp add: id_validated [OF assms(3,1)])
  ultimately show ?thesis by (simp add: announced_def comp_def)
qed

lemma device_scanned:
  assumes "scanning f r" and "registry_inv r" and "told r = []" and "object_of r (name_of s (urn_text org DEVICE n v)) = None"
    and "device_type_ok org n v" and "id_ok s" and "list_all service_type_ok sts" and "value_ok 240 loc"
  shows "\<exists>r'. receive_all usec u pr l sender prt (map (\<lambda>p. alive_bytes p loc) (announced s (urn_text org DEVICE n v) sts)) r = Some r'
    \<and> scanning f r' \<and> registry_inv r'
    \<and> told r' = (if f (device_uri org n v)
        then [(announced_object usec (urn_text org DEVICE n v, name_of s (urn_text org DEVICE n v)) loc sender (device_uri org n v), True)] else [])
    \<and> (f (device_uri org n v) \<longrightarrow> object_of r' (name_of s (urn_text org DEVICE n v)) \<noteq> None)"
proof -
  let ?t = "urn_text org DEVICE n v"
  have ty: "type_ok ?t" using assms(5) by (simp add: device_type_ok_def)
  have p: "announce_ok (?t, name_of s ?t)" by (rule name_announce_ok [OF assms(6) ty])
  note split = announcements_split [OF assms(1,5-8), of usec u pr l sender prt]
  have tails: "receive_all usec u pr l sender prt (map (\<lambda>t. alive_bytes (t, name_of s t) loc) sts) r' = Some r'" if "scanning f r'" for r'
    by (rule services_refused [OF that assms(6-8)])
  have v: "UpnpValidator_ValidateUSN (reg_validator r) (name_of s ?t) = Some (f (device_uri org n v))"
    using name_validated [OF assms(6) ty device_type_parsed [OF assms(5)] assms(1)] by (simp add: device_uri_is_device)
  show ?thesis
  proof (cases "f (device_uri org n v)")
    case False
    then have "OnDatagram usec u pr l sender prt (alive_bytes (?t, name_of s ?t) loc) r = Some r"
      using v by (intro announcement_refused [OF assms(1) p assms(8)]) simp
    then show ?thesis using split tails [OF assms(1)] False assms(1-3) by simp
  next
    case True
    with announcement_accepted [OF assms(1,2) p assms(8), of "device_uri org n v" usec u pr l sender prt] device_type_parsed [OF assms(5)] v assms(4)
    obtain r' where "OnDatagram usec u pr l sender prt (alive_bytes (?t, name_of s ?t) loc) r = Some r'" "scanning f r'" "registry_inv r'"
        "told r' = told r @ [(announced_object usec (?t, name_of s ?t) loc sender (device_uri org n v), True)]" "object_of r' (name_of s ?t) \<noteq> None"
      by auto
    then show ?thesis using split tails True assms(3) by simp
  qed
qed

text \<open>
  C5. A scan reports exactly the devices the application asks for: when a host announces a device to a control point
  whose runtime has started a scan, the listener of the application is called once, with the sender's address, the
  unique name, the location, and the domain, type and version of the device, if the filter of the application
  accepts these; it is not called for the root device, the identifier or the services, and not at all otherwise.
\<close>

theorem scan_reports_device:
  assumes "describes u d s uri (urn_text org DEVICE n v) sts" and "id_ok s" and "device_type_ok org n v" and "list_all service_type_ok sts"
    and "value_ok 240 (location_of sip (UpnpDevice_GetHttpPort d) uri)"
    and "ssdp_running h" and "mc_sockets (multicast h) = [(sip, fd)]" and "length sip < TINY_IP_LEN"
    and "UpnpRegistry_Construct TINY_RET_OK TINY_RET_OK TINY_RET_OK = (ret, rt_registry rt0)"
    and "UpnpRuntime_StartScan rt0 True (Some f) = Some (ret', rt, search)"
  shows "\<exists>ds r'. OnDeviceAdded_registry u h d = Some ds \<and> length ds = 3 + length sts
    \<and> receive_all usec u' p l sender sport (map dg_bytes ds) (rt_registry rt) = Some r'
    \<and> reported (rt\<lparr>rt_registry := r'\<rparr>) = (if f (device_uri org n v)
        then [(device_found s org n v (location_of sip (UpnpDevice_GetHttpPort d) uri) sender, True)] else [])"
proof -
  let ?t = "urn_text org DEVICE n v"
  let ?loc = "location_of sip (UpnpDevice_GetHttpPort d) uri"
  have ty: "type_ok ?t" using assms(3) by (simp add: device_type_ok_def)
  have st: "list_all type_ok sts" using assms(4) by (auto simp: list_all_iff service_type_ok_def)
  obtain ds where ds: "OnDeviceAdded_registry u h d = Some ds" "map dg_bytes ds = map (\<lambda>p. alive_bytes p ?loc) (announced s ?t sts)"
    using device_announces [OF assms(1,2) ty st assms(5-8)] by blast
  have "length ds = 3 + length sts" using arg_cong [OF ds(2), of length] by (simp add: announced_def)
  moreover note go = scan_started [OF assms(9,10)]
  moreover from device_scanned [OF go(1-4) assms(3,2,4,5), of usec u' p l sender sport]
  obtain r' where "receive_all usec u' p l sender sport (map dg_bytes ds) (rt_registry rt) = Some r'"
      "told r' = (if f (device_uri org n v) then [(announced_object usec (?t, name_of s ?t) ?loc sender (device_uri org n v), True)] else [])"
    unfolding ds(2) by blast
  ultimately show ?thesis
    using ds(1) go(5) summary_of_announced [OF assms(3,2,5), of usec sender]
    by (intro exI [of _ ds] exI [of _ r']) (simp add: reported_def map_filter_simps)
qed

lemma scan_starts: "\<exists>ret rt' search. UpnpRuntime_StartScan rt True (Some f) = Some (ret, rt', search)"
  by (cases "UpnpRuntime_StartScan rt True (Some f)")
    (auto simp: UpnpRuntime_StartScan_def UpnpRegistry_Discover_def search_request send_search Let_def case_prod_unfold)

definition demo_runtime :: "(int, unit) runtime" where
  "demo_runtime = \<lparr>rt_http = snd UpnpHttpManager_Construct, rt_provider = snd (UpnpProvider_Construct TINY_RET_OK), rt_worker = demo_worker,
     rt_gena = fst (snd (UpnpGenaClient_Construct TINY_RET_OK (\<lambda>_ _ _ _ _ _ a. Some ([], a)) (snd UpnpHttpManager_Construct :: unit http_manager))),
     rt_registry = demo_new_point, deviceListener = False, deviceFilter = None\<rparr>"

text \<open>The application looks for lights.\<close>

definition demo_filter :: "upnp_uri \<Rightarrow> bool" where
  "demo_filter uri \<longleftrightarrow> device_type uri = ''Light''"

lemma demo_scan_types: "urn_text SCHEMAS_UPNP_ORG DEVICE ''Light'' ''1'' = ''urn:schemas-upnp-org:device:Light:1''"
    "device_type_ok SCHEMAS_UPNP_ORG ''Light'' ''1''" "list_all service_type_ok [''urn:schemas-upnp-org:service:Switch:1'']"
    "demo_filter (device_uri SCHEMAS_UPNP_ORG ''Light'' ''1'')"
proof -
  show t: "urn_text SCHEMAS_UPNP_ORG DEVICE ''Light'' ''1'' = ''urn:schemas-upnp-org:device:Light:1''" by (simp add: urn_text_def uri_words)
  have n: "name_part SCHEMAS_UPNP_ORG" "name_part ''Light''" "name_part ''Switch''" "name_part ''1''"
    by (simp_all add: name_part_def uri_words field_defs)
  then show "device_type_ok SCHEMAS_UPNP_ORG ''Light'' ''1''" by (simp add: device_type_ok_def t demo_types(1))
  have "''urn:schemas-upnp-org:service:Switch:1'' = urn_text SCHEMAS_UPNP_ORG SERVICE ''Switch'' ''1''" by (simp add: urn_text_def uri_words)
  then have "\<exists>d n v. name_part d \<and> name_part n \<and> name_part v \<and> ''urn:schemas-upnp-org:service:Switch:1'' = urn_text d SERVICE n v"
    using n by blast
  then show "list_all service_type_ok [''urn:schemas-upnp-org:service:Switch:1'']" by (simp add: service_type_ok_def demo_types(2))
  show "demo_filter (device_uri SCHEMAS_UPNP_ORG ''Light'' ''1'')" by (simp add: demo_filter_def device_uri_def)
qed

lemma demo_scan:
  "describes demo_house demo_light ''1'' ''/d'' (urn_text SCHEMAS_UPNP_ORG DEVICE ''Light'' ''1'') [''urn:schemas-upnp-org:service:Switch:1'']"
  "value_ok 240 (location_of ''10.0.0.1'' (UpnpDevice_GetHttpPort demo_light) ''/d'')" "length ''10.0.0.1'' < TINY_IP_LEN"
  "UpnpRegistry_Construct TINY_RET_OK TINY_RET_OK TINY_RET_OK = (fst (UpnpRegistry_Construct TINY_RET_OK TINY_RET_OK TINY_RET_OK), rt_registry demo_runtime)"
  using demo_described demo_constructed
  by (simp_all add: demo_scan_types(1) demo_location value_ok_def cstring_def TINY_IP_LEN_def demo_runtime_def)

theorem scan_reports_device_witness:
  "\<exists>ret rt search ds r'. UpnpRuntime_StartScan demo_runtime True (Some demo_filter) = Some (ret, rt, search)
    \<and> OnDeviceAdded_registry demo_house demo_announcer demo_light = Some ds \<and> length ds = 4
    \<and> receive_all 0 demo_house (snd (UpnpProvider_Construct TINY_RET_OK)) None ''10.0.0.1'' 1900 (map dg_bytes ds) (rt_registry rt) = Some r'
    \<and> reported (rt\<lparr>rt_registry := r'\<rparr>) = [(\<lparr>sum_ip = ''10.0.0.1'', sum_id = ''uuid:1::urn:schemas-upnp-org:device:Light:1'',
        sum_url = ''http://10.0.0.1:80/d'', sum_domain = ''schemas-upnp-org'', sum_type = ''Light'', sum_version = ''1'', sum_info = SSDP_SERVER\<rparr>, True)]"
proof -
  obtain ret rt search where s: "UpnpRuntime_StartScan demo_runtime True (Some demo_filter) = Some (ret, rt, search)" using scan_starts by blast
  have f: "device_found ''1'' SCHEMAS_UPNP_ORG ''Light'' ''1'' ''http://10.0.0.1:80/d'' ''10.0.0.1'' =
      \<lparr>sum_ip = ''10.0.0.1'', sum_id = ''uuid:1::urn:schemas-upnp-org:device:Light:1'', sum_url = ''http://10.0.0.1:80/d'',
       sum_domain = ''schemas-upnp-org'', sum_type = ''Light'', sum_version = ''1'', sum_info = SSDP_SERVER\<rparr>"
    unfolding device_found_def demo_scan_types(1) by (simp add: name_of_def field_cpy_def TINY_IP_LEN_def SCHEMAS_UPNP_ORG_def)
  show ?thesis
    using scan_reports_device [OF demo_scan(1) demo_id demo_scan_types(2,3) demo_scan(2) demo_announcer_open demo_scan(3,4) s,
      of 0 demo_house "snd (UpnpProvider_Construct TINY_RET_OK)" None "''10.0.0.1''" 1900] s demo_scan_types(4)
    by (auto simp: demo_location f)
qed

text \<open>An announcement of a device that is known.\<close>

lemma announcement_again:
  assumes "scanning f r" and "announce_ok p" and "value_ok 240 loc" and "object_of r (snd p) \<noteq> None"
    and "UpnpValidator_ValidateUSN (reg_validator r) (snd p) = Some b"
  shows "\<exists>r'. OnDatagram usec u pr l sender prt (alive_bytes p loc) r = Some r' \<and> scanning f r' \<and> told r' = told r"
proof (cases b)
  case False
  then show ?thesis using announcement_refused [OF assms(1-3), of usec u pr l sender prt] assms(1,5) by simp
next
  case True
  obtain x a where a: "TinyMap_GetValue (found_objects r) (Some (snd p)) = Some a" "object_at r a = Some x"
    using assms(4) by (auto simp: object_of_def bind_eq_Some_conv)
  have "read_field (HEAD_USN_LEN + 1) (snd p) = Some (snd p)"
    using assms(2) by (simp add: announce_ok_def value_ok_def read_field_def HEAD_USN_LEN_def)
  then show ?thesis
    using assms(1,5) True a
    by (simp add: receive_announcement [OF assms(2,3)] scanning_def UpnpRegistry_OnAlive_def alive_of_usn UpnpObjectList_GetObject_def refresh_def)
qed

lemma device_scanned_again:
  assumes "scanning f r" and "object_of r (name_of s (urn_text org DEVICE n v)) \<noteq> None"
    and "device_type_ok org n v" and "id_ok s" and "list_all service_type_ok sts" and "value_ok 240 loc"
  shows "\<exists>r'. receive_all usec u pr l sender prt (map (\<lambda>p. alive_bytes p loc) (announced s (urn_text org DEVICE n v) sts)) r = Some r'
    \<and> told r' = told r"
proof -
  let ?t = "urn_text org DEVICE n v"
  have ty: "type_ok ?t" using assms(3) by (simp add: device_type_ok_def)
  have p: "announce_ok (?t, name_of s ?t)" by (rule name_announce_ok [OF assms(4) ty])
  have "UpnpValidator_ValidateUSN (reg_validator r) (name_of s ?t) = Some (f (device_uri org n v))"
    using name_validated [OF assms(4) ty device_type_parsed [OF assms(3)] assms(1)] by (simp add: device_uri_is_device)
  then obtain r' where "OnDatagram usec u pr l sender prt (alive_bytes (?t, name_of s ?t) loc) r = Some r'" "scanning f r'" "told r' = told r"
    using announcement_again [OF assms(1) p assms(6), of "f (device_uri org n v)" usec u pr l sender prt] assms(2) by auto
  then show ?thesis using announcements_split [OF assms(1,3-6), of usec u pr l sender prt] services_refused [OF _ assms(4-6), of f r' usec u pr l sender prt] by simp
qed

text \<open>
  C25. A scan reports only what no earlier scan has found: the registry keeps its objects when a scan is stopped, so an application that
  stops its scan and starts another one, with whatever filter, is told nothing of a device that was reported before, however
  often the device announces itself.
\<close>

theorem rescan_silent:
  assumes "describes u d s uri (urn_text org DEVICE n v) sts" and "id_ok s" and "device_type_ok org n v" and "list_all service_type_ok sts"
    and "value_ok 240 (location_of sip (UpnpDevice_GetHttpPort d) uri)"
    and "ssdp_running h" and "mc_sockets (multicast h) = [(sip, fd)]" and "length sip < TINY_IP_LEN"
    and "UpnpRegistry_Construct TINY_RET_OK TINY_RET_OK TINY_RET_OK = (ret, rt_registry rt0)"
    and "UpnpRuntime_StartScan rt0 True (Some f) = Some (ret', rt, search)" and "f (device_uri org n v)"
    and "OnDeviceAdded_registry u h d = Some ds"
    and "receive_all usec u' p l sender sport (map dg_bytes ds) (rt_registry rt) = Some r1"
    and "UpnpRuntime_StartScan (snd (UpnpRuntime_StopScan (rt\<lparr>rt_registry := r1\<rparr>))) True (Some g) = Some (ret2, rt2, search2)"
  shows "\<exists>r2. receive_all usec2 u2 p2 l2 sender2 sport2 (map dg_bytes ds) (rt_registry rt2) = Some r2
    \<and> reported (rt2\<lparr>rt_registry := r2\<rparr>) = reported (rt\<lparr>rt_registry := r1\<rparr>)"
proof -
  let ?t = "urn_text org DEVICE n v"
  let ?loc = "location_of sip (UpnpDevice_GetHttpPort d) uri"
  have ty: "type_ok ?t" using assms(3) by (simp add: device_type_ok_def)
  have st: "list_all type_ok sts" using assms(4) by (auto simp: list_all_iff service_type_ok_def)
  have ds: "map dg_bytes ds = map (\<lambda>p. alive_bytes p ?loc) (announced s ?t sts)"
    using device_announces [OF assms(1,2) ty st assms(5-8)] assms(12) by auto
  note go = scan_started [OF assms(9,10)]
  have r1: "scanning f r1" "object_of r1 (name_of s ?t) \<noteq> None"
    using device_scanned [OF go(1-4) assms(3,2,4,5), of usec u' p l sender sport] assms(11,13) unfolding ds by auto
  have r2: "rt_registry rt2 = r1\<lparr>reg_validator := \<lparr>strictedUuid = False, usn_filter = Some (object_filter (Some g))\<rparr>, reg_listener := True\<rparr>"
      "deviceListener rt2"
    using assms(14) by (auto simp: UpnpRuntime_StartScan_def UpnpRuntime_StopScan_def UpnpRegistry_StopDiscovery_def UpnpRegistry_Discover_def
        search_request send_search Let_def split: prod.splits)
  then have "scanning g (rt_registry rt2)" "object_of (rt_registry rt2) (name_of s ?t) \<noteq> None" "told (rt_registry rt2) = told r1"
    using r1 by (simp_all add: scanning_def object_of_def)
  then show ?thesis
    using device_scanned_again [OF _ _ assms(3,2,4,5), of g "rt_registry rt2" usec2 u2 p2 l2 sender2 sport2] go(5) r2(2)
    unfolding ds by (auto simp: reported_def)
qed

theorem rescan_silent_witness:
  "\<exists>ret rt search ds r1 ret2 rt2 search2 r2. UpnpRuntime_StartScan demo_runtime True (Some demo_filter) = Some (ret, rt, search)
    \<and> OnDeviceAdded_registry demo_house demo_announcer demo_light = Some ds
    \<and> receive_all 0 demo_house (snd (UpnpProvider_Construct TINY_RET_OK)) None ''10.0.0.1'' 1900 (map dg_bytes ds) (rt_registry rt) = Some r1
    \<and> UpnpRuntime_StartScan (snd (UpnpRuntime_StopScan (rt\<lparr>rt_registry := r1\<rparr>))) True (Some (\<lambda>_. True)) = Some (ret2, rt2, search2)
    \<and> receive_all 5 demo_house (snd (UpnpProvider_Construct TINY_RET_OK)) None ''10.0.0.1'' 1900 (map dg_bytes ds) (rt_registry rt2) = Some r2
    \<and> reported (rt2\<lparr>rt_registry := r2\<rparr>) = reported (rt\<lparr>rt_registry := r1\<rparr>)"
proof -
  obtain ret rt search where s: "UpnpRuntime_StartScan demo_runtime True (Some demo_filter) = Some (ret, rt, search)" using scan_starts by blast
  have ty: "type_ok (urn_text SCHEMAS_UPNP_ORG DEVICE ''Light'' ''1'')" "list_all type_ok [''urn:schemas-upnp-org:service:Switch:1'']"
    by (simp_all add: demo_scan_types(1) demo_types)
  obtain ds where ds: "OnDeviceAdded_registry demo_house demo_announcer demo_light = Some ds"
      "map dg_bytes ds = map (\<lambda>p. alive_bytes p (location_of ''10.0.0.1'' (UpnpDevice_GetHttpPort demo_light) ''/d''))
        (announced ''1'' (urn_text SCHEMAS_UPNP_ORG DEVICE ''Light'' ''1'') [''urn:schemas-upnp-org:service:Switch:1''])"
    using device_announces [OF demo_scan(1) demo_id ty demo_scan(2) demo_announcer_open demo_scan(3)] by blast
  note go = scan_started [OF demo_scan(4) s]
  obtain r1 where r1: "receive_all 0 demo_house (snd (UpnpProvider_Construct TINY_RET_OK)) None ''10.0.0.1'' 1900 (map dg_bytes ds) (rt_registry rt) = Some r1"
    using device_scanned [OF go(1-4) demo_scan_types(2) demo_id demo_scan_types(3) demo_scan(2), of 0 demo_house
      "snd (UpnpProvider_Construct TINY_RET_OK)" None "''10.0.0.1''" 1900] unfolding ds(2) by blast
  obtain ret2 rt2 search2 where s2: "UpnpRuntime_StartScan (snd (UpnpRuntime_StopScan (rt\<lparr>rt_registry := r1\<rparr>))) True (Some (\<lambda>_. True)) = Some (ret2, rt2, search2)"
    using scan_starts by blast
  show ?thesis
    using rescan_silent [OF demo_scan(1) demo_id demo_scan_types(2,3) demo_scan(2) demo_announcer_open demo_scan(3,4) s demo_scan_types(4) ds(1) r1 s2,
      of 5 demo_house "snd (UpnpProvider_Construct TINY_RET_OK)" None "''10.0.0.1''" 1900] s ds(1) r1 s2 by meson
qed

end
