(* ===== verification/Spec2Isabelle.thy ===== *)
theory Spec2Isabelle
  imports TinyList TinyListSpec Containers TinyString TinyUuid HttpMessage DataValue PropertyList UpnpUri UpnpTimeout
    Worker UpnpProvider GenaServer Discovery SoapAction HostDocuments TypedVariables TinyTimer UpnpRuntime
begin

section \<open>UpnpLan: a UPnP stack in C, modelled and verified\<close>

text \<open>
  UpnpLan is a stack for UPnP hosts and control points. \<open>src/src/Tiny\<close> is its base library
  (containers, strings, UUIDs, MD5, HTTP messages, property lists, XML, sockets, threads, timers), and
  \<open>src/src/UpnpStack\<close> the stack itself. This development models both as functions and relations
  translated from the C source, function by function and under the same names, and proves
  what the parts and their compositions do, including what they do wrong.

  \<^bold>\<open>The program.\<close> A host owns devices. \<open>UpnpProvider\<close> holds them with their action handlers and tells
  its observers when one comes or goes: \<open>UpnpRegistry\<close> then announces it over \<open>Ssdp\<close> by multicast. A
  control point's \<open>UpnpRegistry\<close> receives the announcements and keeps an object per unique service
  name; \<open>UpnpRuntime\<close> filters them for the application. The application makes a device of what was
  found with \<open>UpnpDeviceFactory\<close>, which fetches the documents of the device and its services
  through \<open>HttpClient\<close>; the host writes them in \<open>UpnpDocumentGetter\<close>. Actions are called through
  \<open>UpnpActionInvoker\<close>, travel as SOAP messages in HTTP requests, and run in \<open>UpnpActionExecutor\<close>. A
  control point subscribes with \<open>UpnpGenaClient\<close>; \<open>UpnpGenaServer\<close> records the subscriber and queues an
  event for every change of an evented variable, which a \<open>TinyWorker\<close> sends as a NOTIFY request.

  \<^bold>\<open>Conventions.\<close> They are stated in \<open>Prelude\<close>. A result type \<open>'a option\<close> means that \<open>None\<close> is undefined
  behaviour (an overrun, a NULL dereference, a signed overflow) or an operation that blocks or does not
  return; error codes are ordinary results of type \<open>tiny_ret\<close>, a 64 bit word. Machine integers are words of
  their width. A \<open>char\<close> array is the list of its bytes before the first NUL, and reading one without a
  terminator is \<open>None\<close>. Objects that refer to each other live in stores by address. What is outside the
  repository's own code is an argument: the expat tokeniser (the calls it makes of the handlers), floating
  point, the outcomes of allocations, the clock, random bytes, the answers of the operating system (scripts,
  theory \<open>Tcp\<close>), the application's callbacks. What the code relies on of these is a
  hypothesis of the theorem, and the witness after the theorem instantiates it. Log output is not modelled; so the two
  \<open>printf\<close> calls that print the content of a message without a terminator (in \<open>ActionFromRequest\<close> and \<open>notify_handler\<close>) are left
  out, although they read behind the content.
\<close>

subsection \<open>The base library\<close>

text \<open>
  \<^item> \<open>Prelude\<close>, \<open>TinyRet\<close> (\<open>tiny_ret.h\<close>, \<open>tiny_ret.c\<close>), \<open>CString\<close> (\<open>string.h\<close>, \<open>ctype.h\<close>, numbers in texts): the
    vocabulary of all other theories, with the collections their automation uses.
  \<^item> \<open>Interfaces\<close>: the contracts as locales, a queue, a store of values under names with and without erasure,
    and an object with an invariant under its operations. They are interpreted on the queue and the map
    (\<open>Containers\<close>), the property list, the provider and the registry.
  \<^item> \<open>TinyList\<close> (\<open>TinyList.c\<close>): nodes in a store with their two links; well-formedness, and for
    every operation that it returns and does what its contract in \<open>TinyListSpec\<close> says. \<open>list_run_refines\<close> extends
    this to any sequence of operations. All later theories use the contracts. \<open>ListLoops\<close> has the loops that walk
    a container by position.
  \<^item> \<open>Containers\<close> (\<open>TinyQueue.c\<close>, \<open>TinyMap.c\<close>): the map is a finite map over the first 256 bytes of its keys.
  \<^item> \<open>TinyString\<close> (\<open>Tiny/String\<close>), \<open>TinyUuid\<close> (\<open>TinyUuid.c\<close>), \<open>Md5\<close> (\<open>tiny_md5.c\<close>, against RFC 1321, which it meets
    with words of 32 bits, for messages of any length, and misses with the platform's 64), \<open>PropertyList\<close>.
  \<^item> \<open>HttpHeader\<close>, \<open>HttpMessage\<close>, \<open>HttpText\<close>, \<open>HttpWire\<close> (\<open>Tiny/Http\<close>): messages parsed from and printed to bytes with
    all fixed buffers, round trips, and the lemmas on messages as the stack builds them.
  \<^item> \<open>TinyXml\<close> (\<open>TinyXml.c\<close>, \<open>TinyXmlNode.c\<close>): the node tree in a heap, built by the handlers from any sequence of
    calls; the events of a document build its tree (\<open>xml_parse_tree\<close>).
  \<^item> \<open>BlockingQueue\<close> and \<open>Worker\<close> (\<open>TinyThread.c\<close>, \<open>TinySemaphore.c\<close>, \<open>TinyBlockingQueue.c\<close>, \<open>TinyWorker.c\<close>): the
    thread is a machine with a program counter, and \<open>wstep\<close> interleaves its accesses to the shared
    state with those of its clients; the invariants are by induction over reachable states. In \<open>wstep\<close> memory is
    available, the thread's wait is not interrupted and the semaphore stays below \<open>SEM_VALUE_MAX\<close>; what the operations
    do otherwise is in their definitions (\<open>interrupted_wait_ends\<close>).
  \<^item> \<open>TinyTimer\<close> (\<open>TinyTimer.c\<close>, \<open>TinySocketIpc.c\<close>): the timer's thread over scripts of the clock and of \<open>select\<close>.
  \<^item> \<open>Tcp\<close>, \<open>HttpClient\<close>, \<open>NetUtil\<close> (\<open>tiny_socket.c\<close>, \<open>Tiny/Tcp\<close>, \<open>HttpClient.c\<close>, \<open>tiny_net_util.c\<close>, \<open>upnp_net_util.c\<close>):
    one socket with the answers of the operating system as a script, what was written to it as a list of bytes;
    the receive loops put a message together again however its content is cut (\<open>request_reassembled\<close>); a head that is
    cut itself is refused or read beyond (\<open>first_piece_cut\<close>). A parse of a full buffer, which has no terminator, has a result
    only when the head was complete (\<open>parse_received\<close>).
\<close>

subsection \<open>The stack\<close>

text \<open>
  \<^item> \<open>DataValue\<close>, \<open>UpnpUri\<close>, \<open>UpnpTimeout\<close>, \<open>UpnpModel\<close> (\<open>UpnpTypedef\<close>): typed values and state variables, URIs and unique
    service names, subscribers, and devices, services and actions in their store \<open>ustore\<close>.
  \<^item> \<open>UpnpProvider\<close> (\<open>UpnpProvider.c\<close>, \<open>UpnpObserver.c\<close>): its operations and the invariant that every observer
    has been told of exactly the devices that are there (\<open>provider_views\<close>).
  \<^item> \<open>SsdpMessage\<close>, \<open>Ssdp\<close>, \<open>UpnpRegistry\<close>, \<open>Discovery\<close> (\<open>UpnpRegistry\<close>, \<open>TinyMulticast.c\<close>): the messages, the endpoint, the
    registry, and its two sides joined by the datagrams that are sent: a device that is announced is found
    (\<open>device_discovered\<close>), leaving is not noticed (\<open>byebye_never_removes\<close>), a search is not answered.
  \<^item> \<open>SoapMessage\<close>, \<open>SoapAction\<close> (\<open>UpnpHttp/message\<close>, \<open>UpnpActionExecutor.c\<close>): what a call looks like, what it does to the
    host's variables, what the caller makes of the answer. The SOAP reader refuses what the SOAP writer
    of the same stack writes (\<open>own_call_refused\<close>): it wants the name space in a plain \<open>xmlns\<close> attribute. The theorems on execution
    are about the calls and answers of other stacks, those with a plain attribute and those that bind a prefix, which are refused.
  \<^item> \<open>UpnpEvent\<close>, \<open>GenaServer\<close>, \<open>GenaClient\<close> (\<open>UpnpGenaServer.c\<close>, \<open>UpnpGenaClient.c\<close>, \<open>UpnpSubscription.c\<close>, \<open>UpnpHttpClient.c\<close>):
    subscribing, the events of a change, and an event over the wire to the control point's listener.
  \<^item> \<open>UpnpHttp\<close> (\<open>UpnpHttpServer.c\<close>, \<open>UpnpHttpConnection.c\<close>, \<open>UpnpHttpManager.c\<close>): the server that dispatches a request to
    the handler of its kind. The type \<open>'a\<close> of the application's state is instantiated in \<open>UpnpHost\<close>.
  \<^item> \<open>ServiceParser\<close>, \<open>DeviceParser\<close> (\<open>UpnpServiceParser.c\<close>, \<open>UpnpDeviceParser.c\<close>, \<open>UpnpDeviceFactory.c\<close>, \<open>UpnpDeviceConfig.c\<close>,
    \<open>UpnpServiceHelper.c\<close>): the documents, read and written. \<open>ServiceDescription\<close> has their abstract syntax, the reader and the writer
    related to it, and the round trip; \<open>TypedVariables\<close> the invariant that a variable holds a value of
    its type, over descriptions, calls and answers as a step relation.
  \<^item> \<open>UpnpHost\<close> (\<open>UpnpHost.c\<close>, \<open>UpnpDocumentGetter.c\<close>, the life of \<open>UpnpGenaServer.c\<close>): the host's handlers wired into the
    server. \<open>HostDocuments\<close>: a control point gets the description of a service from the host's server
    over the wire and fills its own service with it (\<open>description_fetched\<close>).
  \<^item> \<open>UpnpRuntime\<close> (\<open>UpnpRuntime.c\<close>): the object of the application. A scan reports exactly the devices its filter
    accepts, once (\<open>scan_reports_device\<close>), and never again (\<open>rescan_silent\<close>).
\<close>

subsection \<open>Bounds, and what is left out\<close>

text \<open>
  Loops that may not end are partial functions (the traversals of \<open>TinyList\<close>), recursion over the script of
  answers (receive loops, the timer's thread) or steps of a relation (the worker). Loops with a
  32 bit counter are recursion over the number of turns that are left, with the counter as a word beside it;
  the theorems bound the lengths of lists so that the counter does not wrap, and where it would, the model wraps too.
  Lengths in hypotheses (\<open>HTTP_URI_LEN\<close>, \<open>UPNP_DOCUMENT_LEN\<close>, \<open>PIECE_LEN\<close>) are the sizes of the code's buffers.

  Not modelled: opening sockets, joining multicast groups and \<open>TinySelector.c\<close>, which only call the operating system;
  mutexes, conditions and memory, for the same reason (where a lock serialises operations, they are atomic here, and the
  worker, whose races matter, takes none); \<open>TcpConn_StartRecv\<close> and \<open>TcpClient_StartRecv\<close>, which nothing calls;
  \<open>HttpServer.c\<close>, \<open>HttpConn.c\<close>, \<open>HttpConnPool.c\<close> and \<open>AsyncHttpClient.c\<close> of \<open>Tiny/Http\<close>, which are not compiled;
  \<open>UpnpObjectMessage.c\<close>, which nothing uses; the constructors \<open>_New\<close> that only allocate around a modelled one;
  expat, the Windows branches and the test programs. When the worker is stopped or disposed as one function,
  the thread does not move meanwhile; \<open>wstep\<close> has the interleaved version.
\<close>

end
